(* ===== verification/Prelude.thy ===== *)
theory Prelude
  imports Complex_Main
begin

text \<open>
  Shared vocabulary of the development: actions of a stateful program that may fail, the
  invariants they keep, the table operations behind the SQL statements of
  src/internal/store, lower-casing and decimal formatting of strings.

  An action takes the state and returns a result together with the new state; the result is
  \<open>Inl\<close> of an error or \<open>Inr\<close> of a value, as a Go function returns a value and an error.
  Strings are lists of bytes.
\<close>

section \<open>Collections of facts\<close>

named_theorems keeps_intros \<open>rules that show an action keeps an invariant\<close>
named_theorems act_simps \<open>equations that run an action on a state\<close>

section \<open>Actions with errors\<close>

type_synonym ('s, 'e, 'a) act = "'s \<Rightarrow> ('e + 'a) \<times> 's"

definition ret :: "'a \<Rightarrow> ('s, 'e, 'a) act" where
  "ret x s = (Inr x, s)"

definition raise :: "'e \<Rightarrow> ('s, 'e, 'a) act" where
  "raise e s = (Inl e, s)"

text \<open>\<open>andthen m f\<close>: Go's call of m, an early return of its error, and the rest.\<close>

definition andthen :: "('s, 'e, 'a) act \<Rightarrow> ('a \<Rightarrow> ('s, 'e, 'b) act) \<Rightarrow> ('s, 'e, 'b) act" where
  "andthen m f s = (case m s of (Inl e, t) \<Rightarrow> (Inl e, t) | (Inr x, t) \<Rightarrow> f x t)"

text \<open>\<open>attempt m f\<close>: the caller looks at the error itself.\<close>

definition attempt :: "('s, 'e, 'a) act \<Rightarrow> ('e + 'a \<Rightarrow> ('s, 'f, 'b) act) \<Rightarrow> ('s, 'f, 'b) act" where
  "attempt m f s = (case m s of (r, t) \<Rightarrow> f r t)"

text \<open>\<open>with_err h m\<close>: the error of m is translated by h.\<close>

definition with_err :: "('e \<Rightarrow> 'f) \<Rightarrow> ('s, 'e, 'a) act \<Rightarrow> ('s, 'f, 'a) act" where
  "with_err h m s = (case m s of (Inl e, t) \<Rightarrow> (Inl (h e), t) | (Inr x, t) \<Rightarrow> (Inr x, t))"

text \<open>An assignment to the state, and an early return of an error unless a condition holds.\<close>

definition change :: "('s \<Rightarrow> 's) \<Rightarrow> ('s, 'e, unit) act" where
  "change f s = (Inr (), f s)"

definition require :: "bool \<Rightarrow> 'e \<Rightarrow> ('s, 'e, unit) act" where
  "require b e = (if b then ret () else raise e)"

lemma ret_run [act_simps, simp]: "ret x s = (Inr x, s)"
  by (simp add: ret_def)

lemma raise_run [act_simps, simp]: "raise e s = (Inl e, s)"
  by (simp add: raise_def)

lemma andthen_ret [simp]: "andthen (ret x) f = f x"
  by (rule ext) (simp add: andthen_def)

lemma andthen_raise [simp]: "andthen (raise e) f = raise e"
  by (rule ext) (simp add: andthen_def)

lemma andthen_assoc: "andthen (andthen m f) g = andthen m (\<lambda>x. andthen (f x) g)"
  by (rule ext) (simp add: andthen_def split: prod.splits sum.splits)

text \<open>An action keeps an invariant when it holds after every run that starts with it.\<close>

definition keeps :: "('s \<Rightarrow> bool) \<Rightarrow> ('s, 'e, 'a) act \<Rightarrow> bool" where
  "keeps P m \<longleftrightarrow> (\<forall>s. P s \<longrightarrow> P (snd (m s)))"

lemma keepsI: "(\<And>s. P s \<Longrightarrow> P (snd (m s))) \<Longrightarrow> keeps P m"
  by (simp add: keeps_def)

lemma keepsD: "keeps P m \<Longrightarrow> P s \<Longrightarrow> P (snd (m s))"
  by (simp add: keeps_def)

lemma keepsD': "keeps P m \<Longrightarrow> P s \<Longrightarrow> m s = (r, t) \<Longrightarrow> P t"
  by (metis keepsD snd_conv)

lemma keeps_ret [keeps_intros, simp]: "keeps P (ret x)"
  by (simp add: keeps_def)

lemma keeps_raise [keeps_intros, simp]: "keeps P (raise e)"
  by (simp add: keeps_def)

lemma keeps_andthen [keeps_intros]:
  "keeps P m \<Longrightarrow> (\<And>x. keeps P (f x)) \<Longrightarrow> keeps P (andthen m f)"
  by (fastforce simp: keeps_def andthen_def split: prod.splits sum.splits dest: spec)

lemma keeps_attempt [keeps_intros]:
  "keeps P m \<Longrightarrow> (\<And>r. keeps P (f r)) \<Longrightarrow> keeps P (attempt m f)"
  by (fastforce simp: keeps_def attempt_def split: prod.splits dest: spec)

lemma keeps_with_err [keeps_intros]: "keeps P m \<Longrightarrow> keeps P (with_err h m)"
  by (fastforce simp: keeps_def with_err_def split: prod.splits sum.splits dest: spec)

lemma keeps_if [keeps_intros]:
  "(b \<Longrightarrow> keeps P m) \<Longrightarrow> (\<not> b \<Longrightarrow> keeps P n) \<Longrightarrow> keeps P (if b then m else n)"
  by simp

lemma keeps_case_sum [keeps_intros]:
  "(\<And>e. r = Inl e \<Longrightarrow> keeps P (f e)) \<Longrightarrow> (\<And>x. r = Inr x \<Longrightarrow> keeps P (g x))
    \<Longrightarrow> keeps P (case r of Inl e \<Rightarrow> f e | Inr x \<Rightarrow> g x)"
  by (cases r) auto

lemma keeps_case_option [keeps_intros]:
  "(x = None \<Longrightarrow> keeps P m) \<Longrightarrow> (\<And>y. x = Some y \<Longrightarrow> keeps P (f y))
    \<Longrightarrow> keeps P (case x of None \<Rightarrow> m | Some y \<Rightarrow> f y)"
  by (cases x) auto

lemma keeps_case_prod [keeps_intros]:
  "(\<And>a b. p = (a, b) \<Longrightarrow> keeps P (f a b)) \<Longrightarrow> keeps P (case p of (a, b) \<Rightarrow> f a b)"
  by (cases p) auto

section \<open>Tables\<close>

text \<open>
  A table is the list of its rows. UPDATE rewrites the rows of the WHERE clause in place,
  DELETE drops them, count(*) counts them and a lookup by key finds the first.
\<close>

definition update_where :: "('r \<Rightarrow> bool) \<Rightarrow> ('r \<Rightarrow> 'r) \<Rightarrow> 'r list \<Rightarrow> 'r list" where
  "update_where p f rows = map (\<lambda>r. if p r then f r else r) rows"

definition delete_where :: "('r \<Rightarrow> bool) \<Rightarrow> 'r list \<Rightarrow> 'r list" where
  "delete_where p rows = filter (\<lambda>r. \<not> p r) rows"

definition count_where :: "('r \<Rightarrow> bool) \<Rightarrow> 'r list \<Rightarrow> nat" where
  "count_where p rows = length (filter p rows)"

lemma set_update_where: "set (update_where p f rows) = {if p r then f r else r | r. r \<in> set rows}"
  by (auto simp: update_where_def)

lemma in_update_whereE:
  assumes "x \<in> set (update_where p f rows)"
  obtains r where "r \<in> set rows" "p r" "x = f r" | "x \<in> set rows" "\<not> p x"
  using assms by (auto simp: update_where_def split: if_splits)

lemma set_delete_where [simp]: "set (delete_where p rows) = {r \<in> set rows. \<not> p r}"
  by (simp add: delete_where_def)

lemma update_where_Nil [simp]: "update_where p f [] = []"
  by (simp add: update_where_def)

lemma update_where_Cons [simp]:
  "update_where p f (r # rows) = (if p r then f r else r) # update_where p f rows"
  by (simp add: update_where_def)

lemma delete_where_Nil [simp]: "delete_where p [] = []"
  by (simp add: delete_where_def)

lemma delete_where_Cons [simp]:
  "delete_where p (r # rows) = (if p r then delete_where p rows else r # delete_where p rows)"
  by (simp add: delete_where_def)

lemma count_where_Nil [simp]: "count_where p [] = 0"
  by (simp add: count_where_def)

lemma count_where_Cons [simp]:
  "count_where p (r # rows) = (if p r then Suc (count_where p rows) else count_where p rows)"
  by (simp add: count_where_def)

lemma count_where_append [simp]: "count_where p (xs @ ys) = count_where p xs + count_where p ys"
  by (simp add: count_where_def)

lemma count_where_le_length: "count_where p rows \<le> length rows"
  by (simp add: count_where_def)

lemma count_where_delete_le: "count_where p (delete_where q rows) \<le> count_where p rows"
  by (induction rows) auto

lemma count_where_mono: "(\<And>r. r \<in> set rows \<Longrightarrow> p r \<Longrightarrow> q r) \<Longrightarrow> count_where p rows \<le> count_where q rows"
  by (induction rows) (auto simp: le_SucI)

lemma count_where_cong: "(\<And>r. r \<in> set rows \<Longrightarrow> p r = q r) \<Longrightarrow> count_where p rows = count_where q rows"
  by (induction rows) auto

text \<open>Keys: an update that leaves the key column alone leaves the list of keys alone.\<close>

lemma update_where_none: "\<not> list_ex p rows \<Longrightarrow> update_where p f rows = rows"
  by (induction rows) auto

lemma map_key_update_where:
  "(\<And>r. r \<in> set rows \<Longrightarrow> p r \<Longrightarrow> k (f r) = k r) \<Longrightarrow> map k (update_where p f rows) = map k rows"
  by (induction rows) auto

lemma distinct_key_update_where:
  "(\<And>r. r \<in> set rows \<Longrightarrow> p r \<Longrightarrow> k (f r) = k r) \<Longrightarrow> distinct (map k rows)
    \<Longrightarrow> distinct (map k (update_where p f rows))"
  by (simp add: map_key_update_where)

lemma distinct_key_delete_where:
  "distinct (map k rows) \<Longrightarrow> distinct (map k (delete_where p rows))"
  by (simp add: delete_where_def distinct_map_filter)

lemma count_update_le:
  "(\<And>r. r \<in> set rows \<Longrightarrow> p r \<Longrightarrow> q (f r) \<Longrightarrow> q r) \<Longrightarrow> count_where q (update_where p f rows) \<le> count_where q rows"
  by (induction rows) (auto simp: le_SucI)

lemma count_update_eq:
  "(\<And>r. r \<in> set rows \<Longrightarrow> p r \<Longrightarrow> q (f r) = q r) \<Longrightarrow> count_where q (update_where p f rows) = count_where q rows"
  by (induction rows) auto

text \<open>Updating the one row with a given key adds at most one to any count.\<close>

lemma count_update_key_le:
  assumes "distinct (map k rows)"
  shows "count_where q (update_where (\<lambda>r. k r = x \<and> p r) f rows) \<le> Suc (count_where q rows)"
  using assms
proof (induction rows)
  case (Cons r rows)
  have none: "update_where (\<lambda>r. k r = x \<and> p r) f rows = rows" if "k r = x"
    using Cons.prems that by (auto simp: update_where_def image_iff intro!: map_idI)
  show ?case using Cons none by (cases "k r = x") auto
qed simp

lemma key_unique:
  "distinct (map k rows) \<Longrightarrow> a \<in> set rows \<Longrightarrow> b \<in> set rows \<Longrightarrow> k a = k b \<Longrightarrow> a = b"
  by (simp add: distinct_map inj_on_def)

lemma find_SomeD: "find p rows = Some r \<Longrightarrow> r \<in> set rows \<and> p r"
  by (auto simp: find_Some_iff)

lemma find_key_mem:
  "distinct (map k rows) \<Longrightarrow> r \<in> set rows \<Longrightarrow> find (\<lambda>y. k y = k r) rows = Some r"
  by (induction rows) auto

section \<open>Strings\<close>

text \<open>Lower-casing of ASCII letters: SQL's lower() and Go's strings.ToLower on the ASCII names and addresses the program accepts.\<close>

definition to_lower :: "char \<Rightarrow> char" where
  "to_lower c = (let n = of_char c :: nat in if 65 \<le> n \<and> n \<le> 90 then char_of (n + 32) else c)"

definition lower :: "string \<Rightarrow> string" where
  "lower s = map to_lower s"

lemma to_lower_idem [simp]: "to_lower (to_lower c) = to_lower c"
  by (simp add: to_lower_def Let_def)

lemma lower_idem [simp]: "lower (lower s) = lower s"
  by (simp add: lower_def)

text \<open>Go's strings.TrimSpace on ASCII white space.\<close>

definition is_space :: "char \<Rightarrow> bool" where
  "is_space c = (let n = of_char c :: nat in n = 32 \<or> (9 \<le> n \<and> n \<le> 13))"

definition trim_space :: "string \<Rightarrow> string" where
  "trim_space s = rev (dropWhile is_space (rev (dropWhile is_space s)))"

text \<open>Decimal text of an integer, as the verb d of fmt and strconv.Itoa print it.\<close>

definition digit :: "nat \<Rightarrow> char" where
  "digit n = char_of (48 + n)"

fun nat_text :: "nat \<Rightarrow> string" where
  "nat_text n = (if n < 10 then [digit n] else nat_text (n div 10) @ [digit (n mod 10)])"

definition int_text :: "int \<Rightarrow> string" where
  "int_text i = (if i < 0 then CHR ''-'' # nat_text (nat (- i)) else nat_text (nat i))"

declare nat_text.simps [simp del]

lemma nat_text_ne [simp]: "nat_text n \<noteq> []"
  by (subst nat_text.simps) simp

lemma digit_inj: "m < 10 \<Longrightarrow> n < 10 \<Longrightarrow> digit m = digit n \<longleftrightarrow> m = n"
proof -
  assume "m < 10" "n < 10"
  then have "(of_char (digit m) :: nat) = 48 + m" "(of_char (digit n) :: nat) = 48 + n"
    by (simp_all add: digit_def)
  then show ?thesis by (metis add_left_cancel)
qed

lemma nat_text_inj: "nat_text m = nat_text n \<Longrightarrow> m = n"
proof (induction m arbitrary: n rule: nat_text.induct)
  case (1 m)
  have one: "length (nat_text k) = 1 \<longleftrightarrow> k < 10" for k
    by (subst nat_text.simps) auto
  from 1(2) one [of m] one [of n] have iff: "m < 10 \<longleftrightarrow> n < 10" by simp
  show ?case
  proof (cases "m < 10")
    case True
    with iff 1(2) show ?thesis
      by (simp add: nat_text.simps [of m] nat_text.simps [of n] digit_inj)
  next
    case False
    with iff have "\<not> n < 10" by simp
    with False 1(2) have "nat_text (m div 10) = nat_text (n div 10)" "digit (m mod 10) = digit (n mod 10)"
      by (simp_all add: nat_text.simps [of m] nat_text.simps [of n])
    with 1(1) [OF False] have "m div 10 = n div 10" "m mod 10 = n mod 10"
      by (simp_all add: digit_inj)
    then show ?thesis by (metis div_mult_mod_eq)
  qed
qed

lemma digit_not_minus: "n < 10 \<Longrightarrow> digit n \<noteq> CHR ''-''"
proof
  assume "n < 10" "digit n = CHR ''-''"
  then have "(of_char (digit n) :: nat) = of_char (CHR ''-'')" by simp
  moreover have "(of_char (digit n) :: nat) = 48 + n" using \<open>n < 10\<close> by (simp add: digit_def)
  ultimately show False by simp
qed

lemma nat_text_hd: "hd (nat_text n) \<noteq> CHR ''-''"
proof (induction n rule: nat_text.induct)
  case (1 n)
  show ?case
    by (subst nat_text.simps) (use 1 in \<open>auto simp: digit_not_minus hd_append\<close>)
qed

lemma int_text_inj: "int_text i = int_text j \<longleftrightarrow> i = j"
proof
  assume eq: "int_text i = int_text j"
  have sign: "hd (int_text k) = CHR ''-'' \<longleftrightarrow> k < 0" for k
    by (simp add: int_text_def nat_text_hd)
  with eq have "i < 0 \<longleftrightarrow> j < 0" by metis
  with eq show "i = j"
    by (auto simp: int_text_def split: if_splits dest!: nat_text_inj)
qed simp

text \<open>A text ends at the first separator.\<close>

lemma append_sep_inj:
  "x \<notin> set xs \<Longrightarrow> x \<notin> set ys \<Longrightarrow> xs @ x # us = ys @ x # vs \<longleftrightarrow> xs = ys \<and> us = vs"
proof (induction xs arbitrary: ys)
  case Nil
  then show ?case by (cases ys) auto
next
  case (Cons a xs)
  then show ?case by (cases ys) auto
qed

lemma nat_text_digits: "set (nat_text n) \<subseteq> digit ` {..<10}"
proof (induction n rule: nat_text.induct)
  case (1 n)
  then show ?case by (subst nat_text.simps) auto
qed

lemma int_text_chars: "c \<in> set (int_text i) \<Longrightarrow> c = CHR ''-'' \<or> 48 \<le> (of_char c :: nat) \<and> (of_char c :: nat) \<le> 57"
  using nat_text_digits [of "nat i"] nat_text_digits [of "nat (- i)"] by (auto simp: int_text_def digit_def split: if_splits)

lemmas append_sep_injD = append_sep_inj [THEN iffD1]

end
