(* ===== verification/Float64.thy ===== *)
theory Float64
  imports Prelude
begin

text \<open>
  Go's float64: NaN, the infinities and the finite values, which are real numbers here. What
  the model keeps is every special value, every comparison with them and every exact result;
  what it leaves out is the rounding of a finite result to 53 bits, its overflow and the sign
  of zero. Operations follow IEEE 754 and package math on the special values.
\<close>

datatype f64 = NaN | PInf | NInf | Fin real

definition is_nan :: "f64 \<Rightarrow> bool" where
  "is_nan x \<longleftrightarrow> x = NaN"

definition is_inf :: "f64 \<Rightarrow> bool" where
  "is_inf x \<longleftrightarrow> x = PInf \<or> x = NInf"

text \<open>Every comparison with NaN is false.\<close>

fun f_lt :: "f64 \<Rightarrow> f64 \<Rightarrow> bool" where
  "f_lt (Fin a) (Fin b) = (a < b)"
| "f_lt (Fin _) PInf = True"
| "f_lt NInf (Fin _) = True"
| "f_lt NInf PInf = True"
| "f_lt _ _ = False"

fun f_eq :: "f64 \<Rightarrow> f64 \<Rightarrow> bool" where
  "f_eq NaN _ = False"
| "f_eq x y = (x = y)"

definition f_le :: "f64 \<Rightarrow> f64 \<Rightarrow> bool" where
  "f_le x y \<longleftrightarrow> f_lt x y \<or> f_eq x y"

fun f_neg :: "f64 \<Rightarrow> f64" where
  "f_neg NaN = NaN"
| "f_neg PInf = NInf"
| "f_neg NInf = PInf"
| "f_neg (Fin a) = Fin (- a)"

fun f_add :: "f64 \<Rightarrow> f64 \<Rightarrow> f64" where
  "f_add (Fin a) (Fin b) = Fin (a + b)"
| "f_add NaN _ = NaN"
| "f_add _ NaN = NaN"
| "f_add PInf NInf = NaN"
| "f_add NInf PInf = NaN"
| "f_add PInf _ = PInf"
| "f_add _ PInf = PInf"
| "f_add NInf _ = NInf"
| "f_add _ NInf = NInf"

definition f_sub :: "f64 \<Rightarrow> f64 \<Rightarrow> f64" where
  "f_sub x y = f_add x (f_neg y)"

definition signed_inf :: "bool \<Rightarrow> f64" where
  "signed_inf pos = (if pos then PInf else NInf)"

fun f_mul :: "f64 \<Rightarrow> f64 \<Rightarrow> f64" where
  "f_mul (Fin a) (Fin b) = Fin (a * b)"
| "f_mul NaN _ = NaN"
| "f_mul _ NaN = NaN"
| "f_mul PInf (Fin b) = (if b = 0 then NaN else signed_inf (0 < b))"
| "f_mul NInf (Fin b) = (if b = 0 then NaN else signed_inf (b < 0))"
| "f_mul (Fin a) PInf = (if a = 0 then NaN else signed_inf (0 < a))"
| "f_mul (Fin a) NInf = (if a = 0 then NaN else signed_inf (a < 0))"
| "f_mul PInf PInf = PInf"
| "f_mul NInf NInf = PInf"
| "f_mul PInf NInf = NInf"
| "f_mul NInf PInf = NInf"

fun f_div :: "f64 \<Rightarrow> f64 \<Rightarrow> f64" where
  "f_div (Fin a) (Fin b) = (if b \<noteq> 0 then Fin (a / b) else if a = 0 then NaN else signed_inf (0 < a))"
| "f_div NaN _ = NaN"
| "f_div _ NaN = NaN"
| "f_div (Fin a) _ = Fin 0"
| "f_div PInf (Fin b) = signed_inf (0 \<le> b)"
| "f_div NInf (Fin b) = signed_inf (b < 0)"
| "f_div _ _ = NaN"

text \<open>math.Min and math.Max: NaN wins over everything but the extreme infinity.\<close>

definition f_min :: "f64 \<Rightarrow> f64 \<Rightarrow> f64" where
  "f_min x y = (if x = NInf \<or> y = NInf then NInf else if x = NaN \<or> y = NaN then NaN
     else if f_lt x y then x else y)"

definition f_max :: "f64 \<Rightarrow> f64 \<Rightarrow> f64" where
  "f_max x y = (if x = PInf \<or> y = PInf then PInf else if x = NaN \<or> y = NaN then NaN
     else if f_lt y x then x else y)"

text \<open>Truncation towards zero, Go's conversion int(x) of a finite value, and math.Mod for a finite modulus.\<close>

definition trunc :: "real \<Rightarrow> int" where
  "trunc r = (if r < 0 then - \<lfloor>- r\<rfloor> else \<lfloor>r\<rfloor>)"

definition r_mod :: "real \<Rightarrow> real \<Rightarrow> real" where
  "r_mod a m = a - of_int (trunc (a / m)) * m"

fun f_mod :: "f64 \<Rightarrow> real \<Rightarrow> f64" where
  "f_mod (Fin a) m = (if m = 0 then NaN else Fin (r_mod a m))"
| "f_mod _ m = NaN"

fun f_floor :: "f64 \<Rightarrow> f64" where
  "f_floor (Fin a) = Fin (of_int \<lfloor>a\<rfloor>)"
| "f_floor x = x"

text \<open>math.Round: half away from zero.\<close>

definition r_round :: "real \<Rightarrow> int" where
  "r_round a = (if a < 0 then - \<lfloor>- a + 1/2\<rfloor> else \<lfloor>a + 1/2\<rfloor>)"

fun f_round :: "f64 \<Rightarrow> f64" where
  "f_round (Fin a) = Fin (of_int (r_round a))"
| "f_round x = x"

text \<open>
  Rounding of a finite result to 53 bits, half to even, for the few places where it changes what
  the code does; overflow and subnormal results are left out.
\<close>

definition round_even :: "real \<Rightarrow> int" where
  "round_even x = (let n = \<lfloor>x\<rfloor>; r = x - of_int n in
     if r < 1/2 then n else if 1/2 < r then n + 1 else if even n then n else n + 1)"

definition fl64 :: "real \<Rightarrow> real" where
  "fl64 x = (if x = 0 then 0 else
     let e = \<lfloor>log 2 \<bar>x\<bar>\<rfloor> in of_int (round_even (x * 2 powr of_int (52 - e))) * 2 powr of_int (e - 52))"

section \<open>Facts\<close>

lemma f_le_Fin [simp]: "f_le (Fin a) (Fin b) \<longleftrightarrow> a \<le> b"
  by (auto simp: f_le_def)

lemma f_lt_NaN [simp]: "\<not> f_lt NaN x" "\<not> f_lt x NaN"
  by (cases x; simp)+

lemma f_lt_irrefl [simp]: "\<not> f_lt x x"
  by (cases x) auto

lemma f_lt_trans: "f_lt x y \<Longrightarrow> f_lt y z \<Longrightarrow> f_lt x z"
  by (cases x; cases y; cases z) auto

lemma f_lt_asym: "f_lt x y \<Longrightarrow> \<not> f_lt y x"
  by (cases x; cases y) auto

lemma f_lt_linear: "x \<noteq> NaN \<Longrightarrow> y \<noteq> NaN \<Longrightarrow> f_lt x y \<or> x = y \<or> f_lt y x"
  by (cases x; cases y) auto

lemma f_eq_iff: "f_eq x y \<longleftrightarrow> x = y \<and> x \<noteq> NaN"
  by (cases x) auto

lemma f_min_Fin [simp]: "f_min (Fin a) (Fin b) = Fin (min a b)"
  by (auto simp: f_min_def min_def)

lemma f_max_Fin [simp]: "f_max (Fin a) (Fin b) = Fin (max a b)"
  by (auto simp: f_max_def max_def)

lemma f_sub_Fin [simp]: "f_sub (Fin a) (Fin b) = Fin (a - b)"
  by (simp add: f_sub_def)

lemma trunc_nonneg: "0 \<le> r \<Longrightarrow> trunc r = \<lfloor>r\<rfloor>"
  by (simp add: trunc_def)

lemma trunc_bounds: "\<bar>r - of_int (trunc r)\<bar> < 1"
  unfolding trunc_def by (auto simp: abs_less_iff) linarith+

text \<open>math.Mod: the result is smaller than the modulus and has the sign of the dividend.\<close>

lemma r_mod_bounds:
  assumes "0 < m"
  shows "\<bar>r_mod a m\<bar> < m" and "0 \<le> a \<Longrightarrow> 0 \<le> r_mod a m" and "a \<le> 0 \<Longrightarrow> r_mod a m \<le> 0"
proof -
  have eq: "r_mod a m = (a / m - of_int (trunc (a / m))) * m"
    using assms by (simp add: r_mod_def field_simps)
  have "\<bar>r_mod a m\<bar> = \<bar>a / m - of_int (trunc (a / m))\<bar> * m"
    using assms by (simp add: eq abs_mult)
  also have "\<dots> < 1 * m"
    using trunc_bounds assms by (intro mult_strict_right_mono)
  finally show "\<bar>r_mod a m\<bar> < m" by simp
  show "0 \<le> r_mod a m" if "0 \<le> a"
    using that assms by (simp add: eq trunc_nonneg)
  have "a / m \<le> of_int (trunc (a / m))" if "a \<le> 0"
  proof -
    have "a / m \<le> 0" using that assms by (simp add: divide_nonpos_pos)
    then consider "a / m < 0" | "a / m = 0" by linarith
    then show ?thesis
    proof cases
      case 1
      then show ?thesis unfolding trunc_def by simp linarith
    next
      case 2
      then show ?thesis unfolding trunc_def by (simp only: \<open>a / m = 0\<close>) simp
    qed
  qed
  then show "r_mod a m \<le> 0" if "a \<le> 0"
    using that assms by (simp add: eq mult_nonpos_nonneg)
qed

lemma r_mod_small: "0 \<le> a \<Longrightarrow> a < m \<Longrightarrow> r_mod a m = a"
proof -
  assume "0 \<le> a" "a < m"
  then have "\<lfloor>a / m\<rfloor> = 0" "0 \<le> a / m" by (simp_all add: floor_eq_iff)
  then show ?thesis by (simp add: r_mod_def trunc_nonneg)
qed

lemma r_mod_self: "m \<noteq> 0 \<Longrightarrow> r_mod m m = 0"
  by (simp add: r_mod_def trunc_def)

end
