(* ===== verification/Schema.thy ===== *)
theory Schema
  imports Float64
begin

text \<open>
  The database of internal/store: one record per table (the columns the migrations create and
  the Go structs of internal/store scan), the database of all tables, and the store handle
  that runs SQL statements on it. A nullable column is an option.

  Every statement runs atomically at the database clock. The connection is not reliable: the
  wire script of a store says for each coming statement whether it runs, is refused before it
  runs, or runs while its answer is lost; both failures reach the program as \<open>ErrDb\<close>. Every
  operation of this development is written with these failures and every theorem holds for
  all scripts.

  One counter issues the identities of all tables; the program only relies on their being fresh.
\<close>

section \<open>Rows\<close>

type_synonym bytes = string
type_synonym time = int  \<comment> \<open>microseconds\<close>

abbreviation secs :: "int \<Rightarrow> time" where "secs n \<equiv> n * 1000000"
abbreviation minutes :: "int \<Rightarrow> time" where "minutes n \<equiv> secs (60 * n)"
abbreviation hours :: "int \<Rightarrow> time" where "hours n \<equiv> secs (3600 * n)"
abbreviation days :: "int \<Rightarrow> time" where "days n \<equiv> hours (24 * n)"

record user =
  u_id :: int
  u_name :: string
  u_email :: "string option"
  u_pending :: "string option"
  u_verified_at :: "time option"
  u_password :: string
  u_created_at :: time
  u_last_seen :: "time option"

record session =
  ss_id :: string
  ss_user :: int
  ss_created :: time
  ss_expires :: time

datatype purpose = TokenVerify | TokenReset

record email_token =
  et_id :: string
  et_user :: int
  et_email :: string
  et_purpose :: purpose
  et_expires :: time

record api_token =
  at_id :: int
  at_user :: int
  at_name :: string
  at_prefix :: string
  at_hash :: string
  at_scopes :: "string list"
  at_created :: time
  at_expires :: "time option"
  at_last_used :: "time option"

record site =
  site_id :: int
  site_owner :: int
  site_name :: string
  site_lat :: f64
  site_lon :: f64
  site_height :: f64

record antenna =
  ant_id :: int
  ant_owner :: int
  ant_name :: string
  ant_gain :: f64
  ant_freq :: "f64 option"
  ant_h :: "f64 list"
  ant_v :: "f64 list option"
  ant_source :: "string option"

record link =
  ln_id :: int
  ln_owner :: int
  ln_name :: string
  ln_a :: int
  ln_b :: int
  ln_freq :: f64
  ln_tx_power :: f64
  ln_tx_gain :: f64
  ln_rx_gain :: f64
  ln_tx_loss :: f64
  ln_rx_loss :: f64
  ln_sensitivity :: f64
  ln_polarization :: int
  ln_tx_ant :: "int option"
  ln_tx_azimuth :: "f64 option"
  ln_tx_tilt :: f64
  ln_rx_ant :: "int option"
  ln_rx_azimuth :: "f64 option"
  ln_rx_tilt :: f64
  ln_clutter :: f64
  ln_measured :: "f64 option"
  ln_share :: "string option"
  ln_share_expires :: "time option"

record bounds =
  b_north :: f64
  b_south :: f64
  b_east :: f64
  b_west :: f64

text \<open>The radio parameters of a coverage, columns frequency_mhz to resolution_m.\<close>

record cov_params =
  cp_freq :: f64
  cp_tx_power :: f64
  cp_tx_gain :: f64
  cp_tx_loss :: f64
  cp_rx_height :: f64
  cp_rx_gain :: f64
  cp_rx_loss :: f64
  cp_sensitivity :: f64
  cp_polarization :: int
  cp_range :: f64
  cp_resolution :: f64

record coverage =
  cv_id :: int
  cv_owner :: int
  cv_name :: string
  cv_site :: int
  cv_params :: cov_params
  cv_tx_ant :: "int option"
  cv_tx_azimuth :: f64
  cv_tx_tilt :: f64
  cv_legend_db :: "f64 list"
  cv_legend_colors :: "string list"
  cv_png :: "bytes option"
  cv_margin :: "bytes option"
  cv_bounds :: "bounds option"
  cv_computed_at :: "time option"
  cv_ms :: "int option"
  cv_note :: "string option"
  cv_share :: "string option"
  cv_share_expires :: "time option"
  cv_opacity :: "int option"
  cv_overlays :: "int list option"
  cv_circles :: "bool option"

datatype job_state = JobIdle | JobQueued | JobRunning | JobDone | JobFailed

record job =
  j_id :: int
  j_owner :: int
  j_coverage :: "int option"
  j_kind :: string
  j_input :: bytes
  j_hash :: string
  j_state :: job_state
  j_attempts :: int
  j_error :: "string option"
  j_worker :: "string option"
  j_result :: "bytes option"
  j_queued_at :: time
  j_started_at :: "time option"
  j_finished_at :: "time option"
  j_ms :: "int option"

record rate_limit =
  rl_key :: string
  rl_count :: nat
  rl_start :: time

text \<open>Notifications a statement sent: the channel is the constructor, the payload its argument.\<close>

datatype notification = NoteQueued string | NoteDone int

record db =
  users :: "user list"
  sessions :: "session list"
  email_tokens :: "email_token list"
  api_tokens :: "api_token list"
  sites :: "site list"
  antennas :: "antenna list"
  links :: "link list"
  coverages :: "coverage list"
  jobs :: "job list"
  rate_limits :: "rate_limit list"
  settings :: "(string \<times> string) list"
  outbox :: "notification list"
  next_id :: int

section \<open>Running statements\<close>

datatype store_error = ErrNotFound | ErrInUse | ErrExists | ErrQuota | ErrBusy | ErrDb

datatype wire = Up | Refused | Cut

record store =
  tabs :: db
  clock :: time
  wire_script :: "wire list"

type_synonym 'a query = "time \<Rightarrow> db \<Rightarrow> (store_error + 'a) \<times> db"
type_synonym 'a store_op = "(store, store_error, 'a) act"

definition exec :: "'a query \<Rightarrow> 'a store_op" where
  "exec q s = (case q (clock s) (tabs s) of (r, d) \<Rightarrow>
     (case wire_script s of
        [] \<Rightarrow> (r, s\<lparr>tabs := d\<rparr>)
      | Up # w \<Rightarrow> (r, s\<lparr>tabs := d, wire_script := w\<rparr>)
      | Refused # w \<Rightarrow> (Inl ErrDb, s\<lparr>wire_script := w\<rparr>)
      | Cut # w \<Rightarrow> (Inl ErrDb, s\<lparr>tabs := d, wire_script := w\<rparr>)))"

text \<open>A transaction: an error of its body rolls the tables back; so does a refused commit.\<close>

definition transaction :: "'a store_op \<Rightarrow> 'a store_op" where
  "transaction m s = (case m s of
     (Inl e, t) \<Rightarrow> (Inl e, t\<lparr>tabs := tabs s\<rparr>)
   | (Inr x, t) \<Rightarrow>
      (case wire_script t of
         [] \<Rightarrow> (Inr x, t)
       | Up # w \<Rightarrow> (Inr x, t\<lparr>wire_script := w\<rparr>)
       | Refused # w \<Rightarrow> (Inl ErrDb, t\<lparr>tabs := tabs s, wire_script := w\<rparr>)
       | Cut # w \<Rightarrow> (Inl ErrDb, t\<lparr>wire_script := w\<rparr>)))"

text \<open>A statement that only reads.\<close>

definition reading :: "(time \<Rightarrow> db \<Rightarrow> store_error + 'a) \<Rightarrow> 'a query" where
  "reading f now d = (f now d, d)"

text \<open>\<open>some_row\<close>: QueryRow and Scan, with pgx.ErrNoRows mapped to ErrNotFound by mapErr.\<close>

definition some_row :: "'r option \<Rightarrow> store_error + 'r" where
  "some_row x = (case x of None \<Rightarrow> Inl ErrNotFound | Some r \<Rightarrow> Inr r)"

lemma some_row_simps [simp]: "some_row None = Inl ErrNotFound" "some_row (Some r) = Inr r"
  by (simp_all add: some_row_def)

lemma some_row_Inr: "some_row x = Inr r \<longleftrightarrow> x = Some r"
  by (cases x) auto

text \<open>An UPDATE or DELETE by key whose caller reports RowsAffected() = 0 as ErrNotFound.\<close>

definition affected :: "nat \<Rightarrow> store_error + unit" where
  "affected n = (if n = 0 then Inl ErrNotFound else Inr ())"

lemma exec_reliable: "wire_script s = [] \<Longrightarrow> exec q s = (case q (clock s) (tabs s) of (r, d) \<Rightarrow> (r, s\<lparr>tabs := d\<rparr>))"
  by (simp add: exec_def split: prod.splits)

lemma exec_tabs: "tabs (snd (exec q s)) = tabs s \<or> tabs (snd (exec q s)) = snd (q (clock s) (tabs s))"
  by (auto simp: exec_def split: prod.splits list.splits wire.splits)

lemma exec_Inr:
  "exec q s = (Inr x, t) \<Longrightarrow> q (clock s) (tabs s) = (Inr x, tabs t) \<and> clock t = clock s"
  by (auto simp: exec_def split: prod.splits list.splits wire.splits)

lemma exec_InrD:
  assumes "exec q s = (Inr x, t)"
  shows "fst (q (clock s) (tabs s)) = Inr x" and "tabs t = snd (q (clock s) (tabs s))" and "clock t = clock s"
  using exec_Inr [OF assms] by simp_all

lemma exec_clock [simp]: "clock (snd (exec q s)) = clock s"
  by (auto simp: exec_def split: prod.splits list.splits wire.splits)

lemma exec_Inl:
  "exec q s = (Inl e, t) \<Longrightarrow> e \<noteq> ErrDb \<Longrightarrow> q (clock s) (tabs s) = (Inl e, tabs t) \<and> clock t = clock s"
  by (auto simp: exec_def split: prod.splits list.splits wire.splits)

lemma exec_InlD:
  assumes "exec q s = (Inl e, t)" and "e \<noteq> ErrDb"
  shows "fst (q (clock s) (tabs s)) = Inl e" and "tabs t = snd (q (clock s) (tabs s))" and "clock t = clock s"
  using exec_Inl [OF assms] by simp_all

lemma exec_clockD: "exec q s = (r, t) \<Longrightarrow> clock t = clock s"
  using exec_clock [of q s] by simp

lemma reading_snd [simp]: "snd (reading f now d) = d"
  by (simp add: reading_def)

lemma exec_reading_tabs [simp]: "tabs (snd (exec (reading f) s)) = tabs s"
  using exec_tabs [of "reading f" s] by auto

lemma keeps_exec [keeps_intros]:
  "(\<And>now d. I d \<Longrightarrow> I (snd (q now d))) \<Longrightarrow> keeps (\<lambda>s. I (tabs s)) (exec q)"
  unfolding keeps_def by (metis exec_tabs)

lemma keeps_exec_reading [keeps_intros]: "keeps (\<lambda>s. I (tabs s)) (exec (reading f))"
  by (simp add: keeps_def)

lemma keeps_transaction [keeps_intros]:
  "keeps (\<lambda>s. I (tabs s)) m \<Longrightarrow> keeps (\<lambda>s. I (tabs s)) (transaction m)"
  by (fastforce simp: keeps_def transaction_def split: prod.splits sum.splits list.splits wire.splits dest: spec)

text \<open>A failed transaction whose commit was not cut leaves the tables as they were.\<close>

lemma transaction_rollback:
  "m s = (Inl e, t) \<Longrightarrow> tabs (snd (transaction m s)) = tabs s"
  by (simp add: transaction_def)

section \<open>CHECK constraints\<close>

text \<open>
  PostgreSQL orders NaN above every other value of double precision, so a lower bound lets it
  through and an upper bound does not; a comparison with NULL satisfies a CHECK. The legend
  columns hold NULL or an array; the empty list stands for both NULL and the empty array,
  whose array_length is NULL.
\<close>

definition pg_le :: "f64 \<Rightarrow> f64 \<Rightarrow> bool" where
  "pg_le x y \<longleftrightarrow> y = NaN \<or> f_le x y"

definition pg_lt :: "f64 \<Rightarrow> f64 \<Rightarrow> bool" where
  "pg_lt x y \<longleftrightarrow> x \<noteq> NaN \<and> (y = NaN \<or> f_lt x y)"

definition pg_between :: "real \<Rightarrow> real \<Rightarrow> f64 \<Rightarrow> bool" where
  "pg_between lo hi x \<longleftrightarrow> pg_le (Fin lo) x \<and> pg_le x (Fin hi)"

definition azimuth_check :: "f64 \<Rightarrow> bool" where
  "azimuth_check x \<longleftrightarrow> pg_le (Fin 0) x \<and> pg_lt x (Fin 360)"

definition site_check :: "site \<Rightarrow> bool" where
  "site_check s \<longleftrightarrow> pg_between (1/2) 3000 (site_height s)"

definition antenna_check :: "antenna \<Rightarrow> bool" where
  "antenna_check t \<longleftrightarrow> (ant_h t = [] \<or> length (ant_h t) = 360)
     \<and> (case ant_v t of None \<Rightarrow> True | Some v \<Rightarrow> length v = 360)"

definition link_check :: "link \<Rightarrow> bool" where
  "link_check l \<longleftrightarrow> ln_a l \<noteq> ln_b l \<and> pg_between 20 20000 (ln_freq l)
     \<and> pg_le (Fin 0) (ln_tx_loss l) \<and> pg_le (Fin 0) (ln_rx_loss l) \<and> pg_le (Fin 0) (ln_clutter l)
     \<and> (ln_polarization l = 0 \<or> ln_polarization l = 1)
     \<and> (case ln_tx_azimuth l of None \<Rightarrow> True | Some z \<Rightarrow> azimuth_check z)
     \<and> (case ln_rx_azimuth l of None \<Rightarrow> True | Some z \<Rightarrow> azimuth_check z)
     \<and> pg_between (- 90) 90 (ln_tx_tilt l) \<and> pg_between (- 90) 90 (ln_rx_tilt l)"

definition params_check :: "cov_params \<Rightarrow> bool" where
  "params_check p \<longleftrightarrow> pg_between 20 20000 (cp_freq p) \<and> pg_le (Fin 0) (cp_tx_loss p) \<and> pg_le (Fin 0) (cp_rx_loss p)
     \<and> pg_between (1/2) 3000 (cp_rx_height p) \<and> (cp_polarization p = 0 \<or> cp_polarization p = 1)
     \<and> pg_lt (Fin 0) (cp_range p) \<and> pg_lt (Fin 0) (cp_resolution p)"

definition legend_check :: "f64 list \<Rightarrow> string list \<Rightarrow> bool" where
  "legend_check mins colors \<longleftrightarrow> length mins \<le> 8 \<and> (mins = [] \<or> colors = [] \<or> length colors = length mins)"

definition coverage_check :: "coverage \<Rightarrow> bool" where
  "coverage_check c \<longleftrightarrow> params_check (cv_params c) \<and> azimuth_check (cv_tx_azimuth c)
     \<and> pg_between (- 90) 90 (cv_tx_tilt c) \<and> legend_check (cv_legend_db c) (cv_legend_colors c)"

text \<open>A unique index on a nullable column.\<close>

definition unique_some :: "'a option list \<Rightarrow> bool" where
  "unique_some xs \<longleftrightarrow> distinct (filter (\<lambda>x. x \<noteq> None) xs)"

lemma unique_some_delete: "unique_some (map k rows) \<Longrightarrow> unique_some (map k (delete_where p rows))"
  by (induction rows) (force simp: unique_some_def)+

lemma unique_some_Cons: "unique_some (x # xs) \<longleftrightarrow> unique_some xs \<and> (x = None \<or> x \<notin> set xs)"
  by (auto simp: unique_some_def)

lemma unique_some_append:
  "unique_some (xs @ [x]) \<longleftrightarrow> unique_some xs \<and> (x = None \<or> x \<notin> set xs)"
  by (auto simp: unique_some_def)

lemma unique_some_find:
  "unique_some (map k rows) \<Longrightarrow> r \<in> set rows \<Longrightarrow> k r = Some x \<Longrightarrow> r' \<in> set rows \<Longrightarrow> k r' = Some x \<Longrightarrow> r = r'"
  by (induction rows) (auto simp: unique_some_Cons image_iff)

section \<open>Constraints of the schema\<close>

text \<open>
  The constraints the migrations declare (keys, unique indexes, foreign keys) and the
  ownership rule the statements keep: a link or coverage only refers to sites and antennas of
  its owner. Each table has its own predicate over the ids of the tables it refers to.
\<close>

definition users_ok :: "int \<Rightarrow> user list \<Rightarrow> bool" where
  "users_ok nxt us \<longleftrightarrow> distinct (map u_id us) \<and> distinct (map u_name us)
     \<and> (\<forall>u \<in> set us. 0 < u_id u \<and> u_id u < nxt \<and> lower (u_name u) = u_name u)
     \<and> (\<forall>u \<in> set us. \<forall>v \<in> set us. u_email u \<noteq> None \<and> map_option lower (u_email u) = map_option lower (u_email v) \<longrightarrow> u_id u = u_id v)"

definition sessions_ok :: "int set \<Rightarrow> session list \<Rightarrow> bool" where
  "sessions_ok uids ss \<longleftrightarrow> distinct (map ss_id ss) \<and> (\<forall>s \<in> set ss. ss_user s \<in> uids)"

definition email_tokens_ok :: "int set \<Rightarrow> email_token list \<Rightarrow> bool" where
  "email_tokens_ok uids ts \<longleftrightarrow> distinct (map et_id ts) \<and> (\<forall>t \<in> set ts. et_user t \<in> uids)"

definition api_tokens_ok :: "int set \<Rightarrow> int \<Rightarrow> api_token list \<Rightarrow> bool" where
  "api_tokens_ok uids nxt ts \<longleftrightarrow> distinct (map at_id ts) \<and> distinct (map at_hash ts)
     \<and> (\<forall>t \<in> set ts. at_user t \<in> uids \<and> at_id t < nxt)"

definition sites_ok :: "int set \<Rightarrow> int \<Rightarrow> site list \<Rightarrow> bool" where
  "sites_ok uids nxt ss \<longleftrightarrow> distinct (map site_id ss)
     \<and> (\<forall>s \<in> set ss. site_owner s \<in> uids \<and> site_id s < nxt \<and> site_check s)"

definition antennas_ok :: "int set \<Rightarrow> int \<Rightarrow> antenna list \<Rightarrow> bool" where
  "antennas_ok uids nxt ts \<longleftrightarrow> distinct (map ant_id ts)
     \<and> (\<forall>t \<in> set ts. ant_owner t \<in> uids \<and> ant_id t < nxt \<and> antenna_check t)"

definition owns_site :: "site list \<Rightarrow> int \<Rightarrow> int \<Rightarrow> bool" where
  "owns_site ss owner sid \<longleftrightarrow> (\<exists>s \<in> set ss. site_id s = sid \<and> site_owner s = owner)"

definition owns_antenna :: "antenna list \<Rightarrow> int \<Rightarrow> int option \<Rightarrow> bool" where
  "owns_antenna ts owner x \<longleftrightarrow> (case x of None \<Rightarrow> True | Some aid \<Rightarrow> \<exists>t \<in> set ts. ant_id t = aid \<and> ant_owner t = owner)"

definition links_ok :: "int set \<Rightarrow> site list \<Rightarrow> antenna list \<Rightarrow> int \<Rightarrow> link list \<Rightarrow> bool" where
  "links_ok uids ss ts nxt ls \<longleftrightarrow> distinct (map ln_id ls) \<and> unique_some (map ln_share ls)
     \<and> (\<forall>l \<in> set ls. ln_owner l \<in> uids \<and> ln_id l < nxt \<and> link_check l
          \<and> owns_site ss (ln_owner l) (ln_a l) \<and> owns_site ss (ln_owner l) (ln_b l)
          \<and> owns_antenna ts (ln_owner l) (ln_tx_ant l) \<and> owns_antenna ts (ln_owner l) (ln_rx_ant l))"

definition coverages_ok :: "int set \<Rightarrow> site list \<Rightarrow> antenna list \<Rightarrow> int \<Rightarrow> coverage list \<Rightarrow> bool" where
  "coverages_ok uids ss ts nxt cs \<longleftrightarrow> distinct (map cv_id cs) \<and> unique_some (map cv_share cs)
     \<and> (\<forall>c \<in> set cs. cv_owner c \<in> uids \<and> cv_id c < nxt \<and> coverage_check c
          \<and> owns_site ss (cv_owner c) (cv_site c) \<and> owns_antenna ts (cv_owner c) (cv_tx_ant c))"

definition jobs_ok :: "int set \<Rightarrow> int set \<Rightarrow> int \<Rightarrow> job list \<Rightarrow> bool" where
  "jobs_ok uids cids nxt js \<longleftrightarrow> distinct (map j_id js) \<and> distinct (map (\<lambda>j. (j_owner j, j_hash j)) js)
     \<and> (\<forall>j \<in> set js. j_owner j \<in> uids \<and> j_id j < nxt \<and> j_state j \<noteq> JobIdle
          \<and> (\<forall>c. j_coverage j = Some c \<longrightarrow> c \<in> cids))"

definition db_ok :: "db \<Rightarrow> bool" where
  "db_ok d \<longleftrightarrow> 0 < next_id d \<and> users_ok (next_id d) (users d)
     \<and> sessions_ok (u_id ` set (users d)) (sessions d)
     \<and> email_tokens_ok (u_id ` set (users d)) (email_tokens d)
     \<and> api_tokens_ok (u_id ` set (users d)) (next_id d) (api_tokens d)
     \<and> sites_ok (u_id ` set (users d)) (next_id d) (sites d)
     \<and> antennas_ok (u_id ` set (users d)) (next_id d) (antennas d)
     \<and> links_ok (u_id ` set (users d)) (sites d) (antennas d) (next_id d) (links d)
     \<and> coverages_ok (u_id ` set (users d)) (sites d) (antennas d) (next_id d) (coverages d)
     \<and> jobs_ok (u_id ` set (users d)) (cv_id ` set (coverages d)) (next_id d) (jobs d)
     \<and> distinct (map rl_key (rate_limits d)) \<and> distinct (map fst (settings d))"

definition empty_db :: db where
  "empty_db = \<lparr>users = [], sessions = [], email_tokens = [], api_tokens = [], sites = [], antennas = [],
     links = [], coverages = [], jobs = [], rate_limits = [], settings = [], outbox = [], next_id = 1\<rparr>"

lemmas table_ok_defs = users_ok_def sessions_ok_def email_tokens_ok_def api_tokens_ok_def sites_ok_def
  antennas_ok_def links_ok_def coverages_ok_def jobs_ok_def

lemma db_ok_empty: "db_ok empty_db"
  by (simp add: db_ok_def empty_db_def table_ok_defs unique_some_def)

text \<open>Deleting rows keeps every table predicate; so does a larger identity counter.\<close>

lemma users_ok_delete: "users_ok n us \<Longrightarrow> users_ok n (delete_where p us)"
  by (auto simp: users_ok_def distinct_key_delete_where)

lemma sessions_ok_delete: "sessions_ok u ss \<Longrightarrow> sessions_ok u (delete_where p ss)"
  by (auto simp: sessions_ok_def distinct_key_delete_where)

lemma email_tokens_ok_delete: "email_tokens_ok u ss \<Longrightarrow> email_tokens_ok u (delete_where p ss)"
  by (auto simp: email_tokens_ok_def distinct_key_delete_where)

lemma api_tokens_ok_delete: "api_tokens_ok u n ss \<Longrightarrow> api_tokens_ok u n (delete_where p ss)"
  by (auto simp: api_tokens_ok_def distinct_key_delete_where)

lemma sites_ok_delete: "sites_ok u n ss \<Longrightarrow> sites_ok u n (delete_where p ss)"
  by (auto simp: sites_ok_def distinct_key_delete_where)

lemma antennas_ok_delete: "antennas_ok u n ss \<Longrightarrow> antennas_ok u n (delete_where p ss)"
  by (auto simp: antennas_ok_def distinct_key_delete_where)

lemma links_ok_delete: "links_ok u s t n ls \<Longrightarrow> links_ok u s t n (delete_where p ls)"
  by (auto simp: links_ok_def distinct_key_delete_where unique_some_delete)

lemma coverages_ok_delete: "coverages_ok u s t n ls \<Longrightarrow> coverages_ok u s t n (delete_where p ls)"
  by (auto simp: coverages_ok_def distinct_key_delete_where unique_some_delete)

lemma jobs_ok_delete: "jobs_ok u c n js \<Longrightarrow> jobs_ok u c n (delete_where p js)"
  by (auto simp: jobs_ok_def distinct_key_delete_where)

lemmas table_ok_delete = users_ok_delete sessions_ok_delete email_tokens_ok_delete api_tokens_ok_delete
  sites_ok_delete antennas_ok_delete links_ok_delete coverages_ok_delete jobs_ok_delete

lemma tables_ok_next:
  "n \<le> m \<Longrightarrow> users_ok n us \<Longrightarrow> users_ok m us"
  "n \<le> m \<Longrightarrow> api_tokens_ok u n as \<Longrightarrow> api_tokens_ok u m as"
  "n \<le> m \<Longrightarrow> sites_ok u n ss \<Longrightarrow> sites_ok u m ss"
  "n \<le> m \<Longrightarrow> antennas_ok u n ts \<Longrightarrow> antennas_ok u m ts"
  "n \<le> m \<Longrightarrow> links_ok u ss ts n ls \<Longrightarrow> links_ok u ss ts m ls"
  "n \<le> m \<Longrightarrow> coverages_ok u ss ts n cs \<Longrightarrow> coverages_ok u ss ts m cs"
  "n \<le> m \<Longrightarrow> jobs_ok u c n js \<Longrightarrow> jobs_ok u c m js"
  by (force simp: table_ok_defs)+

text \<open>One rule per table: replacing it keeps the constraints when its own predicate holds of the new rows.\<close>

lemma db_ok_parts:
  assumes "db_ok d"
  shows "0 < next_id d" "users_ok (next_id d) (users d)"
    "sessions_ok (u_id ` set (users d)) (sessions d)"
    "email_tokens_ok (u_id ` set (users d)) (email_tokens d)"
    "api_tokens_ok (u_id ` set (users d)) (next_id d) (api_tokens d)"
    "sites_ok (u_id ` set (users d)) (next_id d) (sites d)"
    "antennas_ok (u_id ` set (users d)) (next_id d) (antennas d)"
    "links_ok (u_id ` set (users d)) (sites d) (antennas d) (next_id d) (links d)"
    "coverages_ok (u_id ` set (users d)) (sites d) (antennas d) (next_id d) (coverages d)"
    "jobs_ok (u_id ` set (users d)) (cv_id ` set (coverages d)) (next_id d) (jobs d)"
    "distinct (map rl_key (rate_limits d))" "distinct (map fst (settings d))"
  using assms by (simp_all add: db_ok_def)

lemma db_ok_set:
  assumes "db_ok d"
  shows "distinct (map fst st) \<Longrightarrow> db_ok (d\<lparr>settings := st\<rparr>)"
    and "distinct (map rl_key rl) \<Longrightarrow> db_ok (d\<lparr>rate_limits := rl\<rparr>)"
    and "db_ok (d\<lparr>outbox := ob\<rparr>)"
    and "sessions_ok (u_id ` set (users d)) ss \<Longrightarrow> db_ok (d\<lparr>sessions := ss\<rparr>)"
    and "email_tokens_ok (u_id ` set (users d)) et \<Longrightarrow> db_ok (d\<lparr>email_tokens := et\<rparr>)"
    and "api_tokens_ok (u_id ` set (users d)) (next_id d) ap \<Longrightarrow> db_ok (d\<lparr>api_tokens := ap\<rparr>)"
    and "links_ok (u_id ` set (users d)) (sites d) (antennas d) (next_id d) ls \<Longrightarrow> db_ok (d\<lparr>links := ls\<rparr>)"
    and "jobs_ok (u_id ` set (users d)) (cv_id ` set (coverages d)) (next_id d) js \<Longrightarrow> db_ok (d\<lparr>jobs := js\<rparr>)"
    and "next_id d \<le> n \<Longrightarrow> db_ok (d\<lparr>next_id := n\<rparr>)"
  using assms by (auto simp: db_ok_def intro: tables_ok_next)

text \<open>Users, sites, antennas and coverages may also be rewritten, as long as their keys and owners stay.\<close>

lemma db_ok_set_users:
  "db_ok d \<Longrightarrow> users_ok (next_id d) us \<Longrightarrow> u_id ` set us = u_id ` set (users d) \<Longrightarrow> db_ok (d\<lparr>users := us\<rparr>)"
  by (simp add: db_ok_def)

lemma db_ok_set_coverages:
  "db_ok d \<Longrightarrow> coverages_ok (u_id ` set (users d)) (sites d) (antennas d) (next_id d) cs
    \<Longrightarrow> cv_id ` set (coverages d) \<subseteq> cv_id ` set cs \<Longrightarrow> db_ok (d\<lparr>coverages := cs\<rparr>)"
  by (auto simp: db_ok_def jobs_ok_def)

lemma image_update_where:
  "(\<And>r. r \<in> set rows \<Longrightarrow> p r \<Longrightarrow> k (f r) = k r) \<Longrightarrow> k ` set (update_where p f rows) = k ` set rows"
  by (metis (no_types, lifting) image_set map_key_update_where)

text \<open>Growing what the references may point to.\<close>

lemma links_ok_mono:
  "links_ok u ss ts n ls \<Longrightarrow> (\<And>o' i. owns_site ss o' i \<Longrightarrow> owns_site ss' o' i)
    \<Longrightarrow> (\<And>o' i. owns_antenna ts o' i \<Longrightarrow> owns_antenna ts' o' i) \<Longrightarrow> links_ok u ss' ts' n ls"
  by (simp add: links_ok_def)

lemma coverages_ok_mono:
  "coverages_ok u ss ts n cs \<Longrightarrow> (\<And>o' i. owns_site ss o' i \<Longrightarrow> owns_site ss' o' i)
    \<Longrightarrow> (\<And>o' i. owns_antenna ts o' i \<Longrightarrow> owns_antenna ts' o' i) \<Longrightarrow> coverages_ok u ss' ts' n cs"
  by (simp add: coverages_ok_def)

lemma db_ok_set_sites:
  "db_ok d \<Longrightarrow> sites_ok (u_id ` set (users d)) (next_id d) ss
    \<Longrightarrow> (\<And>o' i. owns_site (sites d) o' i \<Longrightarrow> owns_site ss o' i) \<Longrightarrow> db_ok (d\<lparr>sites := ss\<rparr>)"
  unfolding db_ok_def by (simp, meson links_ok_mono coverages_ok_mono)

lemma db_ok_set_antennas:
  "db_ok d \<Longrightarrow> antennas_ok (u_id ` set (users d)) (next_id d) ts
    \<Longrightarrow> (\<And>o' i. owns_antenna (antennas d) o' i \<Longrightarrow> owns_antenna ts o' i) \<Longrightarrow> db_ok (d\<lparr>antennas := ts\<rparr>)"
  unfolding db_ok_def by (simp, meson links_ok_mono coverages_ok_mono)

lemma db_ok_add_user:
  assumes "db_ok d" and "users_ok (next_id d) us" and sub: "u_id ` set (users d) \<subseteq> u_id ` set us"
  shows "db_ok (d\<lparr>users := us\<rparr>)"
proof -
  have "\<And>r f xs. \<forall>x \<in> set xs. f x \<in> u_id ` set (users d) \<Longrightarrow> \<forall>x \<in> set xs. f x \<in> u_id ` set us"
    using sub by blast
  with assms show ?thesis
    by (auto simp: db_ok_def sessions_ok_def email_tokens_ok_def api_tokens_ok_def sites_ok_def antennas_ok_def
        links_ok_def coverages_ok_def jobs_ok_def)
qed

text \<open>Rows rewritten in place.\<close>

lemma links_ok_update:
  assumes "links_ok u ss ts n ls"
    and "\<And>l. l \<in> set ls \<Longrightarrow> p l \<Longrightarrow> ln_id (f l) = ln_id l \<and> ln_owner (f l) = ln_owner l \<and> ln_share (f l) = ln_share l
           \<and> link_check (f l) \<and> owns_site ss (ln_owner l) (ln_a (f l)) \<and> owns_site ss (ln_owner l) (ln_b (f l))
           \<and> owns_antenna ts (ln_owner l) (ln_tx_ant (f l)) \<and> owns_antenna ts (ln_owner l) (ln_rx_ant (f l))"
  shows "links_ok u ss ts n (update_where p f ls)"
proof -
  have "map ln_id (update_where p f ls) = map ln_id ls" "map ln_share (update_where p f ls) = map ln_share ls"
    using assms(2) by (simp_all add: map_key_update_where)
  with assms show ?thesis
    by (auto simp: links_ok_def elim!: in_update_whereE)
qed

lemma coverages_ok_update:
  assumes "coverages_ok u ss ts n cs"
    and "\<And>c. c \<in> set cs \<Longrightarrow> p c \<Longrightarrow> cv_id (f c) = cv_id c \<and> cv_owner (f c) = cv_owner c \<and> cv_share (f c) = cv_share c
           \<and> coverage_check (f c) \<and> owns_site ss (cv_owner c) (cv_site (f c)) \<and> owns_antenna ts (cv_owner c) (cv_tx_ant (f c))"
  shows "coverages_ok u ss ts n (update_where p f cs)"
proof -
  have "map cv_id (update_where p f cs) = map cv_id cs" "map cv_share (update_where p f cs) = map cv_share cs"
    using assms(2) by (simp_all add: map_key_update_where)
  with assms show ?thesis
    by (auto simp: coverages_ok_def elim!: in_update_whereE)
qed

end
