(* ===== verification/Rate_Limits.thy ===== *)
theory Rate_Limits
  imports Schema
begin

text \<open>
  The fixed-window rate limits (src/internal/store/ratelimit.go) and the settings table
  (src/internal/store/settings.go).

  The contract of a limiter is the locale \<open>fixed_window\<close>: each key has a bucket, a count and
  the start of its window, that restarts with the first hit after the window; hits of one key
  leave the others alone. The consequences a caller relies on are proved from the contract, and
  the table rate_limits is shown to meet it.
\<close>

section \<open>The bucket of a key\<close>

type_synonym bucket = "(nat \<times> time) option"

fun bucket_hit :: "time \<Rightarrow> time \<Rightarrow> bucket \<Rightarrow> nat \<times> time" where
  "bucket_hit w now None = (1, now)"
| "bucket_hit w now (Some (c, st)) = (if st < now - w then (1, now) else (Suc c, st))"

fun bucket_peek :: "time \<Rightarrow> time \<Rightarrow> bucket \<Rightarrow> nat" where
  "bucket_peek w now None = 0"
| "bucket_peek w now (Some (c, st)) = (if now - w \<le> st then c else 0)"

text \<open>How many hits at the times ts find the bucket within a limit of m.\<close>

fun admitted :: "nat \<Rightarrow> time \<Rightarrow> bucket \<Rightarrow> time list \<Rightarrow> nat" where
  "admitted m w b [] = 0"
| "admitted m w b (t # ts) =
     (let b' = bucket_hit w t b in (if fst b' \<le> m then 1 else 0) + admitted m w (Some b') ts)"

lemma bucket_hit_Suc: "fst (bucket_hit w now b) = Suc (bucket_peek w now b)"
  by (cases b) (auto simp: not_le)

lemma bucket_peek_hit: "0 \<le> w \<Longrightarrow> bucket_peek w now (Some (bucket_hit w now b)) = fst (bucket_hit w now b)"
  by (cases b) auto

lemma admitted_same_window:
  "(\<And>t. t \<in> set ts \<Longrightarrow> t \<le> st + w) \<Longrightarrow> admitted m w (Some (c, st)) ts \<le> m - c"
proof (induction ts arbitrary: c)
  case (Cons t ts)
  have "\<not> st < t - w" using Cons.prems by fastforce
  moreover have "admitted m w (Some (Suc c, st)) ts \<le> m - Suc c"
    using Cons by simp
  ultimately show ?case by (auto simp: Let_def)
qed simp

lemma admitted_one_restart:
  "(\<And>t. t \<in> set ts \<Longrightarrow> t0 \<le> t \<and> t \<le> t0 + w) \<Longrightarrow> admitted m w (Some (c, st)) ts \<le> (m - c) + m"
proof (induction ts arbitrary: c st)
  case (Cons t ts)
  show ?case
  proof (cases "st < t - w")
    case True
    have "admitted m w (Some (1, t)) ts \<le> m - 1"
    proof (rule admitted_same_window)
      fix u assume "u \<in> set ts"
      with Cons.prems have "t0 \<le> t" "u \<le> t0 + w" by auto
      then show "u \<le> t + w" by simp
    qed
    with True show ?thesis by (auto simp: Let_def)
  next
    case False
    have "admitted m w (Some (Suc c, st)) ts \<le> (m - Suc c) + m"
      using Cons by simp
    with False show ?thesis by (auto simp: Let_def)
  qed
qed simp

lemma admitted_span:
  assumes "\<And>t. t \<in> set ts \<Longrightarrow> t0 \<le> t \<and> t \<le> t0 + w"
  shows "admitted m w b ts \<le> 2 * m"
proof (cases b)
  case (Some p)
  obtain c st where p: "p = (c, st)" by (cases p)
  have "admitted m w (Some (c, st)) ts \<le> (m - c) + m"
    by (rule admitted_one_restart) (use assms in blast)
  with Some p show ?thesis by simp
next
  case None
  show ?thesis
  proof (cases ts)
    case (Cons t us)
    have "admitted m w (Some (1, t)) us \<le> m - 1"
    proof (rule admitted_same_window)
      fix u assume "u \<in> set us"
      with assms Cons have "t0 \<le> t" "u \<le> t0 + w" by auto
      then show "u \<le> t + w" by simp
    qed
    with None Cons show ?thesis by (auto simp: Let_def)
  qed simp
qed

section \<open>The contract of a limiter\<close>

locale fixed_window =
  fixes hit :: "'k \<Rightarrow> time \<Rightarrow> time \<Rightarrow> 's \<Rightarrow> nat \<times> 's"
    and peek :: "'k \<Rightarrow> time \<Rightarrow> time \<Rightarrow> 's \<Rightarrow> nat"
    and bucket :: "'k \<Rightarrow> 's \<Rightarrow> bucket"
    and invar :: "'s \<Rightarrow> bool"
  assumes invar_hit: "invar s \<Longrightarrow> invar (snd (hit k w now s))"
    and hit_value: "invar s \<Longrightarrow> fst (hit k w now s) = fst (bucket_hit w now (bucket k s))"
    and hit_bucket: "invar s \<Longrightarrow> bucket k (snd (hit k w now s)) = Some (bucket_hit w now (bucket k s))"
    and hit_other: "invar s \<Longrightarrow> k' \<noteq> k \<Longrightarrow> bucket k' (snd (hit k w now s)) = bucket k' s"
    and peek_bucket: "invar s \<Longrightarrow> peek k w now s = bucket_peek w now (bucket k s)"
begin

lemma hit_counts: "invar s \<Longrightarrow> fst (hit k w now s) = Suc (peek k w now s)"
  by (simp add: hit_value bucket_hit_Suc peek_bucket)

lemma peek_after_hit: "invar s \<Longrightarrow> 0 \<le> w \<Longrightarrow> peek k w now (snd (hit k w now s)) = fst (hit k w now s)"
  by (simp add: peek_bucket hit_bucket hit_value bucket_peek_hit invar_hit)

lemma peek_other: "invar s \<Longrightarrow> k' \<noteq> k \<Longrightarrow> peek k' w' now' (snd (hit k w now s)) = peek k' w' now' s"
  by (simp add: peek_bucket hit_other invar_hit)

text \<open>A run of hits of several keys, each with its time: the counts the hits of key k return.\<close>

primrec counts_of :: "'k \<Rightarrow> time \<Rightarrow> ('k \<times> time) list \<Rightarrow> 's \<Rightarrow> nat list" where
  "counts_of k w [] s = []"
| "counts_of k w (h # hs) s =
     (let r = hit (fst h) w (snd h) s in (if fst h = k then [fst r] else []) @ counts_of k w hs (snd r))"

lemma counts_of_admitted:
  "invar s \<Longrightarrow> length (filter (\<lambda>n. n \<le> m) (counts_of k w hs s)) =
     admitted m w (bucket k s) (map snd (filter (\<lambda>h. fst h = k) hs))"
proof (induction hs arbitrary: s)
  case (Cons h hs)
  then show ?case
    by (cases "fst h = k") (auto simp: Let_def hit_value hit_bucket hit_other invar_hit)
qed simp

text \<open>Whatever the other keys do: within any span of one window at most twice the limit is admitted.\<close>

lemma admitted_in_span:
  assumes "invar s" and "\<And>h. h \<in> set hs \<Longrightarrow> t0 \<le> snd h \<and> snd h \<le> t0 + w"
  shows "length (filter (\<lambda>n. n \<le> m) (counts_of k w hs s)) \<le> 2 * m"
  unfolding counts_of_admitted [OF assms(1)]
  by (rule admitted_span [where ?t0.0 = t0]) (use assms(2) in auto)

end

section \<open>The table rate_limits\<close>

definition rate_bucket :: "string \<Rightarrow> rate_limit list \<Rightarrow> bucket" where
  "rate_bucket key rows = map_option (\<lambda>r. (rl_count r, rl_start r)) (find (\<lambda>r. rl_key r = key) rows)"

text \<open>INSERT ... ON CONFLICT (key) DO UPDATE ... RETURNING count.\<close>

definition rate_upsert :: "string \<Rightarrow> time \<Rightarrow> time \<Rightarrow> rate_limit list \<Rightarrow> nat \<times> rate_limit list" where
  "rate_upsert key w now rows =
     (case find (\<lambda>r. rl_key r = key) rows of
        None \<Rightarrow> (1, rows @ [\<lparr>rl_key = key, rl_count = 1, rl_start = now\<rparr>])
      | Some r \<Rightarrow>
         (let n = (if rl_start r < now - w then 1 else Suc (rl_count r));
              st = (if rl_start r < now - w then now else rl_start r)
          in (n, update_where (\<lambda>x. rl_key x = key) (\<lambda>x. x\<lparr>rl_count := n, rl_start := st\<rparr>) rows)))"

definition rate_peek :: "string \<Rightarrow> time \<Rightarrow> time \<Rightarrow> rate_limit list \<Rightarrow> nat" where
  "rate_peek key w now rows =
     (case find (\<lambda>r. rl_key r = key \<and> now - w \<le> rl_start r) rows of None \<Rightarrow> 0 | Some r \<Rightarrow> rl_count r)"

definition RateHit :: "string \<Rightarrow> time \<Rightarrow> nat store_op" where
  "RateHit key w = exec (\<lambda>now d. case rate_upsert key w now (rate_limits d) of (n, rows) \<Rightarrow> (Inr n, d\<lparr>rate_limits := rows\<rparr>))"

definition RateCount :: "string \<Rightarrow> time \<Rightarrow> nat store_op" where
  "RateCount key w = exec (reading (\<lambda>now d. Inr (rate_peek key w now (rate_limits d))))"

definition DeleteOldRateLimits :: "unit store_op" where
  "DeleteOldRateLimits = exec (\<lambda>now d.
     (Inr (), d\<lparr>rate_limits := delete_where (\<lambda>r. rl_start r < now - days 1) (rate_limits d)\<rparr>))"

lemma find_key_update:
  "find (\<lambda>r. rl_key r = k') (update_where (\<lambda>x. rl_key x = key) (\<lambda>x. x\<lparr>rl_count := n, rl_start := st\<rparr>) rows) =
     map_option (\<lambda>r. if rl_key r = key then r\<lparr>rl_count := n, rl_start := st\<rparr> else r) (find (\<lambda>r. rl_key r = k') rows)"
  by (induction rows) auto

lemma find_append: "find p (xs @ ys) = (case find p xs of None \<Rightarrow> find p ys | Some x \<Rightarrow> Some x)"
  by (induction xs) auto

lemma rate_upsert_value: "fst (rate_upsert key w now rows) = fst (bucket_hit w now (rate_bucket key rows))"
  by (auto simp: rate_upsert_def rate_bucket_def Let_def split: option.splits)

lemma rate_upsert_bucket:
  "rate_bucket key (snd (rate_upsert key w now rows)) = Some (bucket_hit w now (rate_bucket key rows))"
  by (auto simp: rate_upsert_def rate_bucket_def Let_def find_append find_key_update dest!: find_SomeD split: option.splits)

lemma rate_upsert_other:
  "k' \<noteq> key \<Longrightarrow> rate_bucket k' (snd (rate_upsert key w now rows)) = rate_bucket k' rows"
  by (auto simp: rate_upsert_def rate_bucket_def Let_def find_append find_key_update option.map_comp
      dest!: find_SomeD split: option.splits)

lemma rate_peek_bucket:
  "distinct (map rl_key rows) \<Longrightarrow> rate_peek key w now rows = bucket_peek w now (rate_bucket key rows)"
proof (induction rows)
  case (Cons r rows)
  show ?case
  proof (cases "rl_key r = key")
    case True
    with Cons.prems have "find (\<lambda>x. rl_key x = key \<and> now - w \<le> rl_start x) rows = None"
      by (auto simp: find_None_iff image_iff)
    with True show ?thesis by (auto simp: rate_peek_def rate_bucket_def)
  next
    case False
    with Cons show ?thesis by (auto simp: rate_peek_def rate_bucket_def)
  qed
qed (simp add: rate_peek_def rate_bucket_def)

lemma rate_upsert_distinct:
  "distinct (map rl_key rows) \<Longrightarrow> distinct (map rl_key (snd (rate_upsert key w now rows)))"
  by (auto simp: rate_upsert_def Let_def map_key_update_where find_None_iff split: option.splits)

interpretation limiter: fixed_window rate_upsert rate_peek rate_bucket "\<lambda>rows. distinct (map rl_key rows)"
  by unfold_locales
    (simp_all add: rate_upsert_distinct rate_upsert_value rate_upsert_bucket rate_upsert_other rate_peek_bucket)

section \<open>The operations on the store\<close>

lemma RateHit_Inr:
  assumes "RateHit key w s = (Inr n, t)"
  shows "n = fst (rate_upsert key w (clock s) (rate_limits (tabs s)))"
    and "tabs t = (tabs s)\<lparr>rate_limits := snd (rate_upsert key w (clock s) (rate_limits (tabs s)))\<rparr>"
    and "clock t = clock s"
  using exec_InrD [OF assms [unfolded RateHit_def]] by (simp_all split: prod.splits)

lemma RateHit_other_tables: "RateHit key w s = (r, t) \<Longrightarrow> tabs t = (tabs s)\<lparr>rate_limits := rate_limits (tabs t)\<rparr>"
  unfolding RateHit_def exec_def by (auto split: prod.splits list.splits wire.splits)

lemma RateCount_Inr:
  assumes "RateCount key w s = (Inr n, t)"
  shows "n = rate_peek key w (clock s) (rate_limits (tabs s)) \<and> tabs t = tabs s \<and> clock t = clock s"
  using exec_Inr [OF assms [unfolded RateCount_def]] by (auto simp: reading_def)

lemma RateHit_error: "RateHit key w s = (Inl e, t) \<Longrightarrow> e = ErrDb"
  unfolding RateHit_def exec_def by (auto split: prod.splits list.splits wire.splits)

lemma RateCount_error: "RateCount key w s = (Inl e, t) \<Longrightarrow> e = ErrDb"
  unfolding RateCount_def exec_def by (auto simp: reading_def split: prod.splits list.splits wire.splits)

lemma rate_keeps [keeps_intros]:
  "keeps (\<lambda>s. db_ok (tabs s)) (RateHit key w)"
  "keeps (\<lambda>s. db_ok (tabs s)) (RateCount key w)"
  "keeps (\<lambda>s. db_ok (tabs s)) DeleteOldRateLimits"
  unfolding RateHit_def RateCount_def DeleteOldRateLimits_def
  by (auto intro!: keeps_intros simp: db_ok_def distinct_key_delete_where rate_upsert_distinct
      split: prod.splits) (metis rate_upsert_distinct snd_conv)

section \<open>Settings\<close>

text \<open>Maintenance mode: the row with key maintenance, off when there is none.\<close>

definition Maintenance :: "bool store_op" where
  "Maintenance = exec (reading (\<lambda>now d.
     case find (\<lambda>r. fst r = ''maintenance'') (settings d) of
       None \<Rightarrow> Inr False
     | Some r \<Rightarrow> Inr (snd r = ''on'')))"

definition SetMaintenance :: "bool \<Rightarrow> unit store_op" where
  "SetMaintenance on = exec (\<lambda>now d.
     let v = (if on then ''on'' else ''off'') in
     (Inr (), d\<lparr>settings :=
        (if list_ex (\<lambda>r. fst r = ''maintenance'') (settings d)
         then update_where (\<lambda>r. fst r = ''maintenance'') (\<lambda>r. (fst r, v)) (settings d)
         else settings d @ [(''maintenance'', v)])\<rparr>))"

lemma Maintenance_keeps [keeps_intros]: "keeps (\<lambda>s. I (tabs s)) Maintenance"
  unfolding Maintenance_def by (rule keeps_exec_reading)

lemma distinct_upsert:
  "distinct (map fst rs) \<Longrightarrow>
     distinct (map fst (if list_ex (\<lambda>r. fst r = k) rs then update_where (\<lambda>r. fst r = k) (\<lambda>r. (fst r, v)) rs else rs @ [(k, v)]))"
  by (auto simp: map_key_update_where list_ex_iff)

lemma SetMaintenance_keeps [keeps_intros]: "keeps (\<lambda>s. db_ok (tabs s)) (SetMaintenance on)"
  unfolding SetMaintenance_def Let_def
  by (rule keeps_exec) (simp only: snd_conv, rule db_ok_set(1), simp_all only: distinct_upsert db_ok_parts)

definition in_maintenance :: "db \<Rightarrow> bool" where
  "in_maintenance d \<longleftrightarrow> (case find (\<lambda>r. fst r = ''maintenance'') (settings d) of None \<Rightarrow> False | Some r \<Rightarrow> snd r = ''on'')"

lemma Maintenance_Inr: "Maintenance s = (Inr b, t) \<Longrightarrow> b = in_maintenance (tabs s) \<and> tabs t = tabs s \<and> clock t = clock s"
  unfolding Maintenance_def
  by (drule exec_Inr) (auto simp: reading_def in_maintenance_def split: option.splits)

lemma Maintenance_error: "Maintenance s = (Inl e, t) \<Longrightarrow> e = ErrDb"
  unfolding Maintenance_def exec_def by (auto simp: reading_def split: prod.splits list.splits wire.splits option.splits)

lemma SetMaintenance_sets: "SetMaintenance on s = (Inr u, t) \<Longrightarrow> in_maintenance (tabs t) = on"
proof -
  assume "SetMaintenance on s = (Inr u, t)"
  from exec_InrD [OF this [unfolded SetMaintenance_def]]
  have st: "settings (tabs t) =
      (if list_ex (\<lambda>r. fst r = ''maintenance'') (settings (tabs s))
       then update_where (\<lambda>r. fst r = ''maintenance'') (\<lambda>r. (fst r, if on then ''on'' else ''off'')) (settings (tabs s))
       else settings (tabs s) @ [(''maintenance'', if on then ''on'' else ''off'')])"
    by (simp add: Let_def)
  have upd: "list_ex (\<lambda>r. fst r = k) rs \<Longrightarrow>
      find (\<lambda>r. fst r = k) (update_where (\<lambda>r. fst r = k) (\<lambda>r. (fst r, v)) rs) = Some (k, v)" for k and v :: string and rs
    by (induction rs) auto
  have new: "\<not> list_ex (\<lambda>r. fst r = k) rs \<Longrightarrow> find (\<lambda>r. fst r = k) (rs @ [(k, v)]) = Some (k, v)" for k :: string and v :: string and rs
    by (induction rs) auto
  show ?thesis by (auto simp: in_maintenance_def st upd new)
qed

end
