(* ===== verification/Job_Queue.thy ===== *)
theory Job_Queue
  imports Rate_Limits
begin

text \<open>
  The job queue of src/internal/store/jobs.go: every statement as a query on the tables and
  every operation as the sequence of statements the Go function issues. The SHA-256 of a job's
  input is the parameter sha, a function from bytes to hexadecimal text.
\<close>

section \<open>Constants\<close>

definition KindCoverage :: string where "KindCoverage = ''coverage''"

definition MaxJobsPerUser :: nat where "MaxJobsPerUser = 2"
definition MaxShortJobsPerUser :: nat where "MaxShortJobsPerUser = 20"
definition MaxQueuedJobs :: nat where "MaxQueuedJobs = 500"

lemmas job_limits = MaxJobsPerUser_def MaxShortJobsPerUser_def MaxQueuedJobs_def

definition active_state :: "job_state \<Rightarrow> bool" where
  "active_state st \<longleftrightarrow> st = JobQueued \<or> st = JobRunning"

definition jobHash :: "(bytes \<Rightarrow> string) \<Rightarrow> string \<Rightarrow> bytes \<Rightarrow> string" where
  "jobHash sha kind input = sha (kind @ [CHR 0x0A] @ input)"

section \<open>Statements\<close>

definition existing_job :: "int \<Rightarrow> string \<Rightarrow> job query" where
  "existing_job owner hash = reading (\<lambda>now d.
     some_row (find (\<lambda>j. j_owner j = owner \<and> j_hash j = hash) (jobs d)))"

definition same_class :: "string \<Rightarrow> job \<Rightarrow> bool" where
  "same_class kind j \<longleftrightarrow> (j_kind j = KindCoverage) = (kind = KindCoverage)"

definition active_jobs :: "int \<Rightarrow> string \<Rightarrow> job list \<Rightarrow> nat" where
  "active_jobs owner kind js =
     count_where (\<lambda>j. j_owner j = owner \<and> active_state (j_state j) \<and> same_class kind j) js"

definition queued_jobs :: "job list \<Rightarrow> nat" where
  "queued_jobs js = count_where (\<lambda>j. j_state j = JobQueued) js"

definition count_jobs :: "int \<Rightarrow> string \<Rightarrow> (nat \<times> nat) query" where
  "count_jobs owner kind = reading (\<lambda>now d. Inr (active_jobs owner kind (jobs d), queued_jobs (jobs d)))"

text \<open>
  INSERT ... ON CONFLICT (owner_id, input_hash) DO UPDATE ... WHERE state = failed RETURNING:
  no row comes back when a job of the key exists that has not failed. A missing owner or
  coverage violates a foreign key.
\<close>

definition new_job :: "int \<Rightarrow> int \<Rightarrow> int option \<Rightarrow> string \<Rightarrow> bytes \<Rightarrow> string \<Rightarrow> time \<Rightarrow> job" where
  "new_job ident owner cov kind input hash now =
     \<lparr>j_id = ident, j_owner = owner, j_coverage = cov, j_kind = kind, j_input = input, j_hash = hash,
      j_state = JobQueued, j_attempts = 0, j_error = None, j_worker = None, j_result = None,
      j_queued_at = now, j_started_at = None, j_finished_at = None, j_ms = None\<rparr>"

definition reset_job :: "time \<Rightarrow> job \<Rightarrow> job" where
  "reset_job now j = j\<lparr>j_state := JobQueued, j_attempts := 0, j_error := None, j_worker := None, j_result := None,
     j_queued_at := now, j_started_at := None, j_finished_at := None, j_ms := None\<rparr>"

definition insert_job :: "int \<Rightarrow> int option \<Rightarrow> string \<Rightarrow> bytes \<Rightarrow> string \<Rightarrow> job query" where
  "insert_job owner cov kind input hash now d =
     (case find (\<lambda>j. j_owner j = owner \<and> j_hash j = hash) (jobs d) of
        Some j \<Rightarrow>
          (if j_state j = JobFailed
           then (Inr (reset_job now j), d\<lparr>jobs := update_where (\<lambda>x. j_id x = j_id j) (reset_job now) (jobs d)\<rparr>)
           else (Inl ErrNotFound, d))
      | None \<Rightarrow>
          (if owner \<in> u_id ` set (users d) \<and> (\<forall>c. cov = Some c \<longrightarrow> c \<in> cv_id ` set (coverages d))
           then (let j = new_job (next_id d) owner cov kind input hash now
                 in (Inr j, d\<lparr>next_id := next_id d + 1, jobs := jobs d @ [j]\<rparr>))
           else (Inl ErrInUse, d)))"

lemma insert_job_code [code]: "insert_job owner cov kind input hash now d =
     (case find (\<lambda>j. j_owner j = owner \<and> j_hash j = hash) (jobs d) of
        Some j \<Rightarrow>
          (if j_state j = JobFailed
           then (Inr (reset_job now j), d\<lparr>jobs := update_where (\<lambda>x. j_id x = j_id j) (reset_job now) (jobs d)\<rparr>)
           else (Inl ErrNotFound, d))
      | None \<Rightarrow>
          (if owner \<in> u_id ` set (users d) \<and> (case cov of None \<Rightarrow> True | Some c \<Rightarrow> c \<in> cv_id ` set (coverages d))
           then (let j = new_job (next_id d) owner cov kind input hash now
                 in (Inr j, d\<lparr>next_id := next_id d + 1, jobs := jobs d @ [j]\<rparr>))
           else (Inl ErrInUse, d)))"
  by (cases cov) (auto simp: insert_job_def split: option.split)

definition notify_queued :: "string \<Rightarrow> unit query" where
  "notify_queued kind now d = (Inr (), d\<lparr>outbox := outbox d @ [NoteQueued kind]\<rparr>)"

section \<open>EnqueueJob\<close>

definition job_limit :: "string \<Rightarrow> nat" where
  "job_limit kind = (if kind = KindCoverage then MaxJobsPerUser else MaxShortJobsPerUser)"

definition enqueue_new :: "int \<Rightarrow> int option \<Rightarrow> string \<Rightarrow> bytes \<Rightarrow> string \<Rightarrow> job store_op" where
  "enqueue_new owner cov kind input hash =
     andthen (exec (count_jobs owner kind)) (\<lambda>(active, queued).
       if job_limit kind \<le> active then raise ErrQuota
       else if MaxQueuedJobs \<le> queued then raise ErrBusy
       else attempt (exec (insert_job owner cov kind input hash)) (\<lambda>r.
         case r of
           Inr j \<Rightarrow> andthen (exec (notify_queued kind)) (\<lambda>_. ret j)
         | Inl e \<Rightarrow> (if e = ErrNotFound then exec (existing_job owner hash) else raise e)))"

definition EnqueueJob :: "(bytes \<Rightarrow> string) \<Rightarrow> int \<Rightarrow> int option \<Rightarrow> string \<Rightarrow> bytes \<Rightarrow> job store_op" where
  "EnqueueJob sha owner cov kind input =
     (let hash = jobHash sha kind input in
      attempt (exec (existing_job owner hash)) (\<lambda>r.
        case r of
          Inr j \<Rightarrow> (if j_state j \<noteq> JobFailed then ret j else enqueue_new owner cov kind input hash)
        | Inl e \<Rightarrow> (if e \<noteq> ErrNotFound then raise e else enqueue_new owner cov kind input hash)))"

section \<open>Claiming and settling\<close>

definition GetJob :: "int \<Rightarrow> job store_op" where
  "GetJob ident = exec (reading (\<lambda>now d. some_row (find (\<lambda>j. j_id j = ident) (jobs d))))"

definition DeleteFinishedJobs :: "time \<Rightarrow> nat store_op" where
  "DeleteFinishedJobs age = exec (\<lambda>now d.
     let old = (\<lambda>j. j_kind j \<noteq> KindCoverage \<and> (j_state j = JobDone \<or> j_state j = JobFailed)
                  \<and> (case j_finished_at j of None \<Rightarrow> False | Some f \<Rightarrow> f < now - age))
     in (Inr (count_where old (jobs d)), d\<lparr>jobs := delete_where old (jobs d)\<rparr>))"

text \<open>ORDER BY k LIMIT 1: a row with the least key; the first of the table among equals.\<close>

fun oldest :: "('r \<Rightarrow> bool) \<Rightarrow> ('r \<Rightarrow> int) \<Rightarrow> 'r list \<Rightarrow> 'r option" where
  "oldest p k [] = None"
| "oldest p k (r # rs) = (case oldest p k rs of
     None \<Rightarrow> (if p r then Some r else None)
   | Some b \<Rightarrow> (if p r \<and> k r \<le> k b then Some r else Some b))"

definition claimable :: "bool \<Rightarrow> time \<Rightarrow> time \<Rightarrow> job \<Rightarrow> bool" where
  "claimable cov stale now j \<longleftrightarrow> (j_kind j = KindCoverage) = cov \<and>
     (j_state j = JobQueued \<or>
      (j_state j = JobRunning \<and> (case j_started_at j of None \<Rightarrow> False | Some st \<Rightarrow> st < now - stale)))"

definition start_job :: "string \<Rightarrow> time \<Rightarrow> job \<Rightarrow> job" where
  "start_job worker now j = j\<lparr>j_state := JobRunning, j_started_at := Some now, j_worker := Some worker,
     j_attempts := j_attempts j + 1\<rparr>"

definition claim_job :: "string \<Rightarrow> bool \<Rightarrow> time \<Rightarrow> job query" where
  "claim_job worker cov stale now d =
     (case oldest (claimable cov stale now) j_queued_at (jobs d) of
        None \<Rightarrow> (Inl ErrNotFound, d)
      | Some j \<Rightarrow> (Inr (start_job worker now j),
          d\<lparr>jobs := update_where (\<lambda>x. j_id x = j_id j) (start_job worker now) (jobs d)\<rparr>))"

definition ClaimJob :: "string \<Rightarrow> bool \<Rightarrow> time \<Rightarrow> job store_op" where
  "ClaimJob worker cov stale = exec (claim_job worker cov stale)"

definition done_notes :: "int \<Rightarrow> job list \<Rightarrow> notification list" where
  "done_notes ident js = (if list_ex (\<lambda>j. j_id j = ident) js then [NoteDone ident] else [])"

text \<open>An UPDATE of one job by id with its notification, as the WITH statements write it.\<close>

definition settle_job :: "int \<Rightarrow> (job \<Rightarrow> job) \<Rightarrow> db \<Rightarrow> db" where
  "settle_job ident f d = d\<lparr>jobs := update_where (\<lambda>j. j_id j = ident) f (jobs d),
     outbox := outbox d @ done_notes ident (jobs d)\<rparr>"

definition done_job :: "bytes option \<Rightarrow> int \<Rightarrow> time \<Rightarrow> job \<Rightarrow> job" where
  "done_job result ms now j = j\<lparr>j_state := JobDone, j_result := (case result of None \<Rightarrow> j_result j | Some b \<Rightarrow> Some b),
     j_finished_at := Some now, j_ms := Some ms, j_error := None\<rparr>"

definition failed_job :: "string \<Rightarrow> time \<Rightarrow> job \<Rightarrow> job" where
  "failed_job msg now j = j\<lparr>j_state := JobFailed, j_error := Some msg, j_finished_at := Some now\<rparr>"

definition FinishJob :: "int \<Rightarrow> bytes \<Rightarrow> int \<Rightarrow> unit store_op" where
  "FinishJob ident result ms = exec (\<lambda>now d. (Inr (), settle_job ident (done_job (Some result) ms now) d))"

definition FailJob :: "int \<Rightarrow> string \<Rightarrow> unit store_op" where
  "FailJob ident msg = exec (\<lambda>now d. (Inr (), settle_job ident (failed_job msg now) d))"

definition RequeueJob :: "int \<Rightarrow> unit store_op" where
  "RequeueJob ident = exec (\<lambda>now d.
     let p = (\<lambda>j. j_id j = ident \<and> j_state j = JobRunning) in
     (Inr (), d\<lparr>jobs := update_where p (\<lambda>j. j\<lparr>j_state := JobQueued, j_worker := None\<rparr>) (jobs d),
        outbox := outbox d @ map (\<lambda>j. NoteQueued (j_kind j)) (filter p (jobs d))\<rparr>))"

section \<open>Coverage jobs\<close>

definition owns_coverage :: "int \<Rightarrow> int \<Rightarrow> coverage \<Rightarrow> bool" where
  "owns_coverage owner ident c \<longleftrightarrow> cv_owner c = owner \<and> cv_id c = ident"

definition coverage_input :: "int \<Rightarrow> bytes" where
  "coverage_input ident = ''{\"coverage_id\":'' @ int_text ident @ ''}''"

definition EnqueueCoverage :: "(bytes \<Rightarrow> string) \<Rightarrow> int \<Rightarrow> int \<Rightarrow> unit store_op" where
  "EnqueueCoverage sha owner ident =
     andthen (exec (reading (\<lambda>now d. Inr (list_ex (owns_coverage owner ident) (coverages d))))) (\<lambda>ok.
       if \<not> ok then raise ErrNotFound
       else andthen (exec (\<lambda>now d. (Inr (), d\<lparr>jobs := delete_where
                (\<lambda>j. j_coverage j = Some ident \<and> (j_state j = JobDone \<or> j_state j = JobFailed)) (jobs d)\<rparr>))) (\<lambda>_.
            andthen (EnqueueJob sha owner (Some ident) KindCoverage (coverage_input ident)) (\<lambda>_. ret ())))"

definition store_result :: "bytes \<Rightarrow> bytes \<Rightarrow> bounds \<Rightarrow> int \<Rightarrow> string \<Rightarrow> time \<Rightarrow> coverage \<Rightarrow> coverage" where
  "store_result png margin b ms note now c = c\<lparr>cv_png := Some png, cv_margin := Some margin, cv_bounds := Some b,
     cv_computed_at := Some now, cv_ms := Some ms, cv_note := (if note = [] then None else Some note)\<rparr>"

definition FinishCoverageJob :: "int \<Rightarrow> int \<Rightarrow> bytes \<Rightarrow> bytes \<Rightarrow> bounds \<Rightarrow> int \<Rightarrow> string \<Rightarrow> unit store_op" where
  "FinishCoverageJob jid ident png margin b ms note = transaction (
     andthen (exec (\<lambda>now d. (affected (count_where (\<lambda>c. cv_id c = ident) (coverages d)),
         d\<lparr>coverages := update_where (\<lambda>c. cv_id c = ident) (store_result png margin b ms note now) (coverages d)\<rparr>)))
       (\<lambda>_. exec (\<lambda>now d. (Inr (), settle_job jid (done_job None ms now) d))))"

text \<open>The newest job of a coverage, as the lateral join of coverageJobQuery picks it, and its state; idle without one.\<close>

definition newest_job :: "int \<Rightarrow> job list \<Rightarrow> job option" where
  "newest_job ident js = oldest (\<lambda>j. j_coverage j = Some ident) (\<lambda>j. - j_id j) js"

definition job_state_of :: "job option \<Rightarrow> job_state" where
  "job_state_of x = (case x of None \<Rightarrow> JobIdle | Some j \<Rightarrow> j_state j)"

record job_view =
  jv_id :: int
  jv_state :: job_state
  jv_queued :: "time option"
  jv_started :: "time option"
  jv_worker :: string
  jv_error :: string

definition text_or_empty :: "string option \<Rightarrow> string" where
  "text_or_empty x = (case x of None \<Rightarrow> [] | Some v \<Rightarrow> v)"

definition job_view_of :: "job option \<Rightarrow> job_view" where
  "job_view_of x = \<lparr>jv_id = (case x of None \<Rightarrow> 0 | Some j \<Rightarrow> j_id j), jv_state = job_state_of x,
     jv_queued = map_option j_queued_at x, jv_started = Option.bind x j_started_at,
     jv_worker = text_or_empty (Option.bind x j_worker), jv_error = text_or_empty (Option.bind x j_error)\<rparr>"

definition CoverageJob :: "int \<Rightarrow> int \<Rightarrow> job_view store_op" where
  "CoverageJob owner ident = exec (reading (\<lambda>now d.
     if list_ex (owns_coverage owner ident) (coverages d) then Inr (job_view_of (newest_job ident (jobs d)))
     else Inl ErrNotFound))"

end
