(* ===== verification/Accounts.thy ===== *)
theory Accounts
  imports Job_Queue "HOL-Library.List_Lexorder" "HOL-Library.Char_ord" "HOL-Library.Product_Lexorder"
begin

text \<open>
  Users, sessions and email tokens (src/internal/store/users.go) and API tokens
  (src/internal/store/tokens.go). A user name is stored in lower case and looked up through
  lower(); a confirmed address is unique without regard to case; sessions and email tokens die
  at their expiry; deleting a user deletes every dependent row.
\<close>

section \<open>Users\<close>

definition MaxTokensPerUser :: nat where "MaxTokensPerUser = 20"

text \<open>The columns userCols: what the program sees of a user.\<close>

record user_view =
  uv_id :: int
  uv_name :: string
  uv_email :: string
  uv_verified :: bool
  uv_created :: time

definition scanUser :: "user \<Rightarrow> user_view" where
  "scanUser u = \<lparr>uv_id = u_id u, uv_name = u_name u, uv_email = text_or_empty (u_email u),
     uv_verified = (u_verified_at u \<noteq> None), uv_created = u_created_at u\<rparr>"

definition find_user :: "int \<Rightarrow> db \<Rightarrow> user option" where
  "find_user ident d = find (\<lambda>u. u_id u = ident) (users d)"

definition user_named :: "string \<Rightarrow> user \<Rightarrow> bool" where
  "user_named name u \<longleftrightarrow> u_name u = lower name"

definition new_user :: "int \<Rightarrow> string \<Rightarrow> string option \<Rightarrow> time option \<Rightarrow> string \<Rightarrow> time \<Rightarrow> user" where
  "new_user ident name pending verified password now =
     \<lparr>u_id = ident, u_name = lower name, u_email = None, u_pending = pending, u_verified_at = verified,
      u_password = password, u_created_at = now, u_last_seen = None\<rparr>"

text \<open>INSERT INTO users: the name is a unique column.\<close>

definition insert_user :: "string \<Rightarrow> string option \<Rightarrow> time option \<Rightarrow> string \<Rightarrow> int query" where
  "insert_user name pending verified password now d =
     (if list_ex (user_named name) (users d) then (Inl ErrExists, d)
      else (Inr (next_id d), d\<lparr>next_id := next_id d + 1,
              users := users d @ [new_user (next_id d) name pending verified password now]\<rparr>))"

definition CreateUser :: "string \<Rightarrow> string \<Rightarrow> int store_op" where
  "CreateUser name password = exec (\<lambda>now. insert_user name None (Some now) password now)"

definition Register :: "string \<Rightarrow> string \<Rightarrow> string \<Rightarrow> int store_op" where
  "Register name email password = exec (\<lambda>now. insert_user name (Some email) None password now)"

definition UpsertUser :: "string \<Rightarrow> string \<Rightarrow> unit store_op" where
  "UpsertUser name password = exec (\<lambda>now d.
     if list_ex (user_named name) (users d)
     then (Inr (), d\<lparr>users := update_where (user_named name) (\<lambda>u. u\<lparr>u_password := password\<rparr>) (users d)\<rparr>)
     else (Inr (), snd (insert_user name None (Some now) password now d)))"

definition PendingEmail :: "int \<Rightarrow> string store_op" where
  "PendingEmail ident = exec (reading (\<lambda>now d.
     case find (\<lambda>u. u_id u = ident \<and> u_verified_at u = None \<and> u_pending u \<noteq> None) (users d) of
       None \<Rightarrow> Inl ErrNotFound
     | Some u \<Rightarrow> Inr (text_or_empty (u_pending u))))"

definition SetPassword :: "string \<Rightarrow> string \<Rightarrow> unit store_op" where
  "SetPassword name password = exec (\<lambda>now d.
     (affected (count_where (user_named name) (users d)),
      d\<lparr>users := update_where (user_named name) (\<lambda>u. u\<lparr>u_password := password\<rparr>) (users d)\<rparr>))"

definition Credentials :: "string \<Rightarrow> (user_view \<times> string) store_op" where
  "Credentials name = exec (reading (\<lambda>now d.
     some_row (map_option (\<lambda>u. (scanUser u, u_password u)) (find (user_named name) (users d)))))"

definition has_email :: "string \<Rightarrow> user \<Rightarrow> bool" where
  "has_email email u \<longleftrightarrow> map_option lower (u_email u) = Some (lower email)"

definition UserByEmail :: "string \<Rightarrow> user_view store_op" where
  "UserByEmail email = exec (reading (\<lambda>now d. some_row (map_option scanUser (find (has_email email) (users d)))))"

text \<open>The unique index on lower(email) refuses an address another user has confirmed.\<close>

definition SetEmail :: "int \<Rightarrow> string \<Rightarrow> unit store_op" where
  "SetEmail ident email = exec (\<lambda>now d.
     let p = (\<lambda>u. u_id u = ident) in
     if list_ex p (users d) \<and> list_ex (\<lambda>u. has_email email u \<and> u_id u \<noteq> ident) (users d) then (Inl ErrExists, d)
     else (affected (count_where p (users d)),
           d\<lparr>users := update_where p (\<lambda>u. u\<lparr>u_email := Some email, u_pending := None, u_verified_at := Some now\<rparr>) (users d)\<rparr>))"

text \<open>
  DELETE FROM users with its cascades: sessions, tokens, sites, antennas, links, coverages and
  jobs of the users go, jobs of the deleted coverages too, and a reference to a deleted antenna
  becomes NULL. The sites' foreign keys are ON DELETE RESTRICT: the whole statement fails when
  another user's link or coverage refers to a deleted site.
\<close>

definition forget_antennas :: "(int \<Rightarrow> bool) \<Rightarrow> int option \<Rightarrow> int option" where
  "forget_antennas gone x = (case x of None \<Rightarrow> None | Some i \<Rightarrow> if gone i then None else Some i)"

definition unset_link_antennas :: "(int \<Rightarrow> bool) \<Rightarrow> link \<Rightarrow> link" where
  "unset_link_antennas gone l = l\<lparr>ln_tx_ant := forget_antennas gone (ln_tx_ant l), ln_rx_ant := forget_antennas gone (ln_rx_ant l)\<rparr>"

definition unset_coverage_antenna :: "(int \<Rightarrow> bool) \<Rightarrow> coverage \<Rightarrow> coverage" where
  "unset_coverage_antenna gone c = c\<lparr>cv_tx_ant := forget_antennas gone (cv_tx_ant c)\<rparr>"

definition antennas_of :: "int set \<Rightarrow> db \<Rightarrow> int \<Rightarrow> bool" where
  "antennas_of ids d i \<longleftrightarrow> list_ex (\<lambda>t. ant_id t = i \<and> ant_owner t \<in> ids) (antennas d)"

definition sites_of :: "int set \<Rightarrow> db \<Rightarrow> int \<Rightarrow> bool" where
  "sites_of ids d i \<longleftrightarrow> list_ex (\<lambda>s. site_id s = i \<and> site_owner s \<in> ids) (sites d)"

definition coverages_of :: "int set \<Rightarrow> db \<Rightarrow> int \<Rightarrow> bool" where
  "coverages_of ids d i \<longleftrightarrow> list_ex (\<lambda>c. cv_id c = i \<and> cv_owner c \<in> ids) (coverages d)"

definition drop_users :: "int set \<Rightarrow> db \<Rightarrow> db" where
  "drop_users ids d = d\<lparr>
     users := delete_where (\<lambda>u. u_id u \<in> ids) (users d),
     sessions := delete_where (\<lambda>s. ss_user s \<in> ids) (sessions d),
     email_tokens := delete_where (\<lambda>t. et_user t \<in> ids) (email_tokens d),
     api_tokens := delete_where (\<lambda>t. at_user t \<in> ids) (api_tokens d),
     sites := delete_where (\<lambda>s. site_owner s \<in> ids) (sites d),
     antennas := delete_where (\<lambda>t. ant_owner t \<in> ids) (antennas d),
     links := map (unset_link_antennas (antennas_of ids d)) (delete_where (\<lambda>l. ln_owner l \<in> ids) (links d)),
     coverages := map (unset_coverage_antenna (antennas_of ids d)) (delete_where (\<lambda>c. cv_owner c \<in> ids) (coverages d)),
     jobs := delete_where (\<lambda>j. j_owner j \<in> ids \<or> (case j_coverage j of None \<Rightarrow> False | Some c \<Rightarrow> coverages_of ids d c)) (jobs d)\<rparr>"

definition users_restricted :: "int set \<Rightarrow> db \<Rightarrow> bool" where
  "users_restricted ids d \<longleftrightarrow>
     list_ex (\<lambda>l. ln_owner l \<notin> ids \<and> (sites_of ids d (ln_a l) \<or> sites_of ids d (ln_b l))) (links d)
     \<or> list_ex (\<lambda>c. cv_owner c \<notin> ids \<and> sites_of ids d (cv_site c)) (coverages d)"

definition delete_users :: "(user \<Rightarrow> bool) \<Rightarrow> db \<Rightarrow> (store_error + nat) \<times> db" where
  "delete_users p d = (let ids = u_id ` set (filter p (users d)) in
     if users_restricted ids d then (Inl ErrDb, d) else (Inr (count_where p (users d)), drop_users ids d))"

definition DeleteUser :: "string \<Rightarrow> unit store_op" where
  "DeleteUser name = andthen (exec (\<lambda>now. delete_users (user_named name)))
     (\<lambda>n. if n = 0 then raise ErrNotFound else ret ())"

definition DeleteUnconfirmedUsers :: "time \<Rightarrow> nat store_op" where
  "DeleteUnconfirmedUsers age = exec (\<lambda>now.
     delete_users (\<lambda>u. u_verified_at u = None \<and> u_created_at u < now - age))"

definition ListUsers :: "(string \<Rightarrow> string) \<Rightarrow> user_view list store_op" where
  "ListUsers coll = exec (reading (\<lambda>now d. Inr (map scanUser (sort_key (\<lambda>u. coll (u_name u)) (users d)))))"

record user_stat =
  us_user :: user_view
  us_sessions :: nat
  us_last_login :: "time option"

fun latest :: "time list \<Rightarrow> time option" where
  "latest [] = None"
| "latest (t # ts) = (case latest ts of None \<Rightarrow> Some t | Some m \<Rightarrow> Some (max t m))"

definition user_stat_of :: "time \<Rightarrow> db \<Rightarrow> user \<Rightarrow> user_stat" where
  "user_stat_of now d u = (let ss = filter (\<lambda>s. ss_user s = u_id u \<and> now < ss_expires s) (sessions d) in
     \<lparr>us_user = scanUser u, us_sessions = length ss, us_last_login = latest (map ss_created ss)\<rparr>)"

definition ListUsersWithSessions :: "(string \<Rightarrow> string) \<Rightarrow> user_stat list store_op" where
  "ListUsersWithSessions coll = exec (reading (\<lambda>now d.
     Inr (map (user_stat_of now d) (sort_key (\<lambda>u. coll (u_name u)) (users d)))))"

section \<open>Email tokens\<close>

definition CreateEmailToken :: "string \<Rightarrow> int \<Rightarrow> string \<Rightarrow> purpose \<Rightarrow> time \<Rightarrow> unit store_op" where
  "CreateEmailToken ident user email pu expires = exec (\<lambda>now d.
     if list_ex (\<lambda>t. et_id t = ident) (email_tokens d) \<or> \<not> list_ex (\<lambda>u. u_id u = user) (users d) then (Inl ErrDb, d)
     else (Inr (), d\<lparr>email_tokens := email_tokens d @
        [\<lparr>et_id = ident, et_user = user, et_email = email, et_purpose = pu, et_expires = expires\<rparr>]\<rparr>))"

definition live_email_token :: "string \<Rightarrow> purpose \<Rightarrow> time \<Rightarrow> email_token \<Rightarrow> bool" where
  "live_email_token ident pu now t \<longleftrightarrow> et_id t = ident \<and> et_purpose t = pu \<and> now < et_expires t"

definition EmailTokenValid :: "string \<Rightarrow> purpose \<Rightarrow> bool store_op" where
  "EmailTokenValid ident pu = exec (reading (\<lambda>now d. Inr (list_ex (live_email_token ident pu now) (email_tokens d))))"

definition consume_email_token :: "string \<Rightarrow> purpose \<Rightarrow> (user_view \<times> string) query" where
  "consume_email_token ident pu now d =
     (case find (live_email_token ident pu now) (email_tokens d) of
        None \<Rightarrow> (Inl ErrNotFound, d)
      | Some t \<Rightarrow> (some_row (map_option (\<lambda>u. (scanUser u, et_email t)) (find_user (et_user t) d)),
          d\<lparr>email_tokens := delete_where (live_email_token ident pu now) (email_tokens d)\<rparr>))"

definition ConsumeEmailToken :: "string \<Rightarrow> purpose \<Rightarrow> (user_view \<times> string) store_op" where
  "ConsumeEmailToken ident pu = exec (consume_email_token ident pu)"

definition DeleteExpiredEmailTokens :: "nat store_op" where
  "DeleteExpiredEmailTokens = exec (\<lambda>now d. let p = (\<lambda>t. et_expires t \<le> now) in
     (Inr (count_where p (email_tokens d)), d\<lparr>email_tokens := delete_where p (email_tokens d)\<rparr>))"

section \<open>Sessions\<close>

definition seen :: "int \<Rightarrow> time \<Rightarrow> db \<Rightarrow> db" where
  "seen user now d = d\<lparr>users := update_where (\<lambda>u. u_id u = user) (\<lambda>u. u\<lparr>u_last_seen := Some now\<rparr>) (users d)\<rparr>"

definition seen_lately :: "int \<Rightarrow> time \<Rightarrow> db \<Rightarrow> db" where
  "seen_lately user now d = d\<lparr>users := update_where
     (\<lambda>u. u_id u = user \<and> (case u_last_seen u of None \<Rightarrow> True | Some t \<Rightarrow> t < now - minutes 1))
     (\<lambda>u. u\<lparr>u_last_seen := Some now\<rparr>) (users d)\<rparr>"

definition CreateSession :: "string \<Rightarrow> int \<Rightarrow> time \<Rightarrow> unit store_op" where
  "CreateSession ident user expires = exec (\<lambda>now d.
     if list_ex (\<lambda>s. ss_id s = ident) (sessions d) \<or> \<not> list_ex (\<lambda>u. u_id u = user) (users d) then (Inl ErrDb, d)
     else (Inr (), (seen user now d)\<lparr>sessions := sessions d @
        [\<lparr>ss_id = ident, ss_user = user, ss_created = now, ss_expires = expires\<rparr>]\<rparr>))"

definition session_target :: "time \<Rightarrow> time \<Rightarrow> time \<Rightarrow> session \<Rightarrow> time" where
  "session_target idle age now s = min (now + idle) (ss_created s + age)"

definition live_session :: "string \<Rightarrow> time \<Rightarrow> session \<Rightarrow> bool" where
  "live_session ident now s \<longleftrightarrow> ss_id s = ident \<and> now < ss_expires s"

text \<open>The WITH statement reads one snapshot: the answer is that of the tables before its updates.\<close>

definition session_user :: "string \<Rightarrow> time \<Rightarrow> time \<Rightarrow> user_view query" where
  "session_user ident idle age now d =
     (let target = session_target idle age now;
          touch = (\<lambda>s. live_session ident now s \<and> \<not> (target s - hours 1 \<le> ss_expires s \<and> ss_expires s \<le> target s));
          touched = update_where touch (\<lambda>s. s\<lparr>ss_expires := target s\<rparr>) (sessions d)
      in case find (live_session ident now) (sessions d) of
           None \<Rightarrow> (Inl ErrNotFound, d)
         | Some s \<Rightarrow> (some_row (map_option scanUser (find_user (ss_user s) d)),
             (seen_lately (ss_user s) now d)\<lparr>sessions := touched\<rparr>))"

definition SessionUser :: "string \<Rightarrow> time \<Rightarrow> time \<Rightarrow> user_view store_op" where
  "SessionUser ident idle age = exec (session_user ident idle age)"

definition DeleteSession :: "string \<Rightarrow> unit store_op" where
  "DeleteSession ident = exec (\<lambda>now d. (Inr (), d\<lparr>sessions := delete_where (\<lambda>s. ss_id s = ident) (sessions d)\<rparr>))"

definition delete_sessions :: "(time \<Rightarrow> db \<Rightarrow> session \<Rightarrow> bool) \<Rightarrow> nat store_op" where
  "delete_sessions p = exec (\<lambda>now d.
     (Inr (count_where (p now d) (sessions d)), d\<lparr>sessions := delete_where (p now d) (sessions d)\<rparr>))"

definition DeleteUserSessions :: "string \<Rightarrow> nat store_op" where
  "DeleteUserSessions name = delete_sessions (\<lambda>now d s. list_ex (\<lambda>u. user_named name u \<and> u_id u = ss_user s) (users d))"

definition DeleteOtherSessions :: "int \<Rightarrow> string \<Rightarrow> nat store_op" where
  "DeleteOtherSessions user keep = delete_sessions (\<lambda>now d s. ss_user s = user \<and> ss_id s \<noteq> keep)"

definition DeleteAllSessions :: "nat store_op" where
  "DeleteAllSessions = delete_sessions (\<lambda>now d s. True)"

definition DeleteExpiredSessions :: "nat store_op" where
  "DeleteExpiredSessions = delete_sessions (\<lambda>now d s. ss_expires s \<le> now)"

section \<open>API tokens\<close>

record token_view =
  tv_id :: int
  tv_name :: string
  tv_prefix :: string
  tv_scopes :: "string list"
  tv_created :: time
  tv_expires :: "time option"
  tv_last_used :: "time option"

definition scanToken :: "api_token \<Rightarrow> token_view" where
  "scanToken t = \<lparr>tv_id = at_id t, tv_name = at_name t, tv_prefix = at_prefix t, tv_scopes = at_scopes t,
     tv_created = at_created t, tv_expires = at_expires t, tv_last_used = at_last_used t\<rparr>"

definition count_tokens :: "int \<Rightarrow> db \<Rightarrow> nat" where
  "count_tokens owner d = count_where (\<lambda>t. at_user t = owner) (api_tokens d)"

definition insert_token :: "int \<Rightarrow> string \<Rightarrow> string \<Rightarrow> string \<Rightarrow> string list \<Rightarrow> time option \<Rightarrow> token_view query" where
  "insert_token owner name prefix hash scopes expires now d =
     (if list_ex (\<lambda>t. at_hash t = hash) (api_tokens d) \<or> \<not> list_ex (\<lambda>u. u_id u = owner) (users d) then (Inl ErrDb, d)
      else (let t = \<lparr>at_id = next_id d, at_user = owner, at_name = name, at_prefix = prefix, at_hash = hash,
                  at_scopes = scopes, at_created = now, at_expires = expires, at_last_used = None\<rparr>
            in (Inr (scanToken t), d\<lparr>next_id := next_id d + 1, api_tokens := api_tokens d @ [t]\<rparr>)))"

definition CreateToken :: "int \<Rightarrow> string \<Rightarrow> string \<Rightarrow> string \<Rightarrow> string list \<Rightarrow> time option \<Rightarrow> token_view store_op" where
  "CreateToken owner name prefix hash scopes expires =
     andthen (exec (reading (\<lambda>now d. Inr (count_tokens owner d)))) (\<lambda>n.
       if MaxTokensPerUser \<le> n then raise ErrQuota
       else exec (insert_token owner name prefix hash scopes expires))"

definition ListTokens :: "int \<Rightarrow> token_view list store_op" where
  "ListTokens owner = exec (reading (\<lambda>now d.
     Inr (map scanToken (sort_key (\<lambda>t. - at_created t) (sort_key (\<lambda>t. - at_id t)
       (filter (\<lambda>t. at_user t = owner) (api_tokens d)))))))"

definition DeleteToken :: "int \<Rightarrow> int \<Rightarrow> unit store_op" where
  "DeleteToken owner ident = exec (\<lambda>now d. let p = (\<lambda>t. at_id t = ident \<and> at_user t = owner) in
     (affected (count_where p (api_tokens d)), d\<lparr>api_tokens := delete_where p (api_tokens d)\<rparr>))"

definition live_token :: "string \<Rightarrow> time \<Rightarrow> api_token \<Rightarrow> bool" where
  "live_token hash now t \<longleftrightarrow> at_hash t = hash \<and> (case at_expires t of None \<Rightarrow> True | Some e \<Rightarrow> now < e)"

definition token_user :: "string \<Rightarrow> (user_view \<times> int \<times> string list) query" where
  "token_user hash now d =
     (let idle = (\<lambda>t. live_token hash now t \<and> (case at_last_used t of None \<Rightarrow> True | Some u \<Rightarrow> u < now - minutes 1));
          touched = update_where idle (\<lambda>t. t\<lparr>at_last_used := Some now\<rparr>) (api_tokens d)
      in case find (live_token hash now) (api_tokens d) of
           None \<Rightarrow> (Inl ErrNotFound, d)
         | Some t \<Rightarrow> (some_row (map_option (\<lambda>u. (scanUser u, at_id t, at_scopes t)) (find_user (at_user t) d)),
             (seen_lately (at_user t) now d)\<lparr>api_tokens := touched\<rparr>))"

definition TokenUser :: "string \<Rightarrow> (user_view \<times> int \<times> string list) store_op" where
  "TokenUser hash = exec (token_user hash)"

definition DeleteExpiredTokens :: "time \<Rightarrow> nat store_op" where
  "DeleteExpiredTokens keep = exec (\<lambda>now d.
     let p = (\<lambda>t. case at_expires t of None \<Rightarrow> False | Some e \<Rightarrow> e \<le> now - keep) in
     (Inr (count_where p (api_tokens d)), d\<lparr>api_tokens := delete_where p (api_tokens d)\<rparr>))"

end
