(* ===== verification/Resources.thy ===== *)
theory Resources
  imports Accounts
begin

text \<open>
  Sites, antennas, links, coverages and their shares: src/internal/store/sites.go, antennas.go,
  links.go, coverages.go and share.go. Every operation names the owner; a row of somebody else
  is as good as missing. ORDER BY on a name follows the database's collation, whose sort key is
  the parameter coll.
\<close>

section \<open>Sites\<close>

definition MaxSitesPerUser :: nat where "MaxSitesPerUser = 200"
definition MaxCoveragesPerUser :: nat where "MaxCoveragesPerUser = 50"

lemmas resource_limits = MaxSitesPerUser_def MaxCoveragesPerUser_def MaxTokensPerUser_def

definition user_exists :: "int \<Rightarrow> db \<Rightarrow> bool" where
  "user_exists ident d \<longleftrightarrow> list_ex (\<lambda>u. u_id u = ident) (users d)"

definition is_site :: "int \<Rightarrow> int \<Rightarrow> site \<Rightarrow> bool" where
  "is_site owner ident s \<longleftrightarrow> site_owner s = owner \<and> site_id s = ident"

definition by_name :: "(string \<Rightarrow> string) \<Rightarrow> ('r \<Rightarrow> string) \<Rightarrow> ('r \<Rightarrow> int) \<Rightarrow> 'r list \<Rightarrow> 'r list" where
  "by_name coll name ident rows = sort_key (\<lambda>r. (coll (name r), ident r)) rows"

definition ListSites :: "(string \<Rightarrow> string) \<Rightarrow> int \<Rightarrow> site list store_op" where
  "ListSites coll owner = exec (reading (\<lambda>now d.
     Inr (by_name coll site_name site_id (filter (\<lambda>s. site_owner s = owner) (sites d)))))"

definition GetSite :: "int \<Rightarrow> int \<Rightarrow> site store_op" where
  "GetSite owner ident = exec (reading (\<lambda>now d. some_row (find (is_site owner ident) (sites d))))"

definition count_sites :: "int \<Rightarrow> db \<Rightarrow> nat" where
  "count_sites owner d = count_where (\<lambda>s. site_owner s = owner) (sites d)"

definition CountSites :: "int \<Rightarrow> nat store_op" where
  "CountSites owner = exec (reading (\<lambda>now d. Inr (count_sites owner d)))"

definition insert_site :: "site \<Rightarrow> int query" where
  "insert_site s now d =
     (if \<not> site_check s \<or> \<not> user_exists (site_owner s) d then (Inl ErrDb, d)
      else (Inr (next_id d), d\<lparr>next_id := next_id d + 1, sites := sites d @ [s\<lparr>site_id := next_id d\<rparr>]\<rparr>))"

definition CreateSite :: "site \<Rightarrow> int store_op" where
  "CreateSite s = andthen (CountSites (site_owner s)) (\<lambda>n.
     if MaxSitesPerUser \<le> n then raise ErrQuota else exec (insert_site s))"

definition update_site :: "site \<Rightarrow> unit query" where
  "update_site s now d = (let p = is_site (site_owner s) (site_id s) in
     if list_ex p (sites d) \<and> \<not> site_check s then (Inl ErrDb, d)
     else (affected (count_where p (sites d)), d\<lparr>sites := update_where p (\<lambda>_. s) (sites d)\<rparr>))"

definition UpdateSite :: "site \<Rightarrow> unit store_op" where
  "UpdateSite s = exec (update_site s)"

definition site_in_use :: "int \<Rightarrow> db \<Rightarrow> bool" where
  "site_in_use ident d \<longleftrightarrow> list_ex (\<lambda>l. ln_a l = ident \<or> ln_b l = ident) (links d)
     \<or> list_ex (\<lambda>c. cv_site c = ident) (coverages d)"

definition delete_site :: "int \<Rightarrow> int \<Rightarrow> unit query" where
  "delete_site owner ident now d = (let p = is_site owner ident in
     if list_ex p (sites d) \<and> site_in_use ident d then (Inl ErrInUse, d)
     else (affected (count_where p (sites d)), d\<lparr>sites := delete_where p (sites d)\<rparr>))"

definition DeleteSite :: "int \<Rightarrow> int \<Rightarrow> unit store_op" where
  "DeleteSite owner ident = exec (delete_site owner ident)"

section \<open>Antennas\<close>

text \<open>
  The Go struct has a frequency and a source, zero and empty when absent; they are stored as NULL
  (NULLIF) and read back with coalesce. The struct's fields are \<open>Some\<close> here.
\<close>

definition null_zero :: "f64 option \<Rightarrow> f64 option" where
  "null_zero x = (case x of None \<Rightarrow> None | Some f \<Rightarrow> if f = Fin 0 then None else Some f)"

definition null_empty :: "string option \<Rightarrow> string option" where
  "null_empty x = (case x of None \<Rightarrow> None | Some s \<Rightarrow> if s = [] then None else Some s)"

definition scanAntenna :: "antenna \<Rightarrow> antenna" where
  "scanAntenna t = t\<lparr>ant_freq := Some (case ant_freq t of None \<Rightarrow> Fin 0 | Some f \<Rightarrow> f),
     ant_source := Some (text_or_empty (ant_source t))\<rparr>"

definition is_antenna :: "int \<Rightarrow> int \<Rightarrow> antenna \<Rightarrow> bool" where
  "is_antenna owner ident t \<longleftrightarrow> ant_owner t = owner \<and> ant_id t = ident"

definition ListAntennas :: "(string \<Rightarrow> string) \<Rightarrow> int \<Rightarrow> antenna list store_op" where
  "ListAntennas coll owner = exec (reading (\<lambda>now d.
     Inr (map scanAntenna (by_name coll ant_name ant_id (filter (\<lambda>t. ant_owner t = owner) (antennas d))))))"

definition GetAntenna :: "int \<Rightarrow> int \<Rightarrow> antenna store_op" where
  "GetAntenna owner ident = exec (reading (\<lambda>now d.
     some_row (map_option scanAntenna (find (is_antenna owner ident) (antennas d)))))"

definition insert_antenna :: "antenna \<Rightarrow> int query" where
  "insert_antenna t now d =
     (if \<not> antenna_check t \<or> \<not> user_exists (ant_owner t) d then (Inl ErrDb, d)
      else (Inr (next_id d), d\<lparr>next_id := next_id d + 1, antennas := antennas d @
              [t\<lparr>ant_id := next_id d, ant_freq := null_zero (ant_freq t), ant_source := null_empty (ant_source t)\<rparr>]\<rparr>))"

definition CreateAntenna :: "antenna \<Rightarrow> int store_op" where
  "CreateAntenna t = exec (insert_antenna t)"

definition rewrite_antenna :: "antenna \<Rightarrow> antenna \<Rightarrow> antenna" where
  "rewrite_antenna t r = r\<lparr>ant_name := ant_name t, ant_gain := ant_gain t, ant_freq := null_zero (ant_freq t),
     ant_h := ant_h t, ant_v := ant_v t\<rparr>"

definition update_antenna :: "antenna \<Rightarrow> unit query" where
  "update_antenna t now d = (let p = is_antenna (ant_owner t) (ant_id t) in
     if list_ex p (antennas d) \<and> \<not> antenna_check t then (Inl ErrDb, d)
     else (affected (count_where p (antennas d)), d\<lparr>antennas := update_where p (rewrite_antenna t) (antennas d)\<rparr>))"

definition copy_gain_tx :: "antenna \<Rightarrow> unit query" where
  "copy_gain_tx t now d = (Inr (), d\<lparr>links := update_where (\<lambda>l. ln_tx_ant l = Some (ant_id t)) (\<lambda>l. l\<lparr>ln_tx_gain := ant_gain t\<rparr>) (links d)\<rparr>)"

definition copy_gain_rx :: "antenna \<Rightarrow> unit query" where
  "copy_gain_rx t now d = (Inr (), d\<lparr>links := update_where (\<lambda>l. ln_rx_ant l = Some (ant_id t)) (\<lambda>l. l\<lparr>ln_rx_gain := ant_gain t\<rparr>) (links d)\<rparr>)"

definition copy_gain_coverages :: "antenna \<Rightarrow> unit query" where
  "copy_gain_coverages t now d = (Inr (), d\<lparr>coverages := update_where (\<lambda>c. cv_tx_ant c = Some (ant_id t))
     (\<lambda>c. c\<lparr>cv_params := (cv_params c)\<lparr>cp_tx_gain := ant_gain t\<rparr>\<rparr>) (coverages d)\<rparr>)"

definition UpdateAntenna :: "antenna \<Rightarrow> unit store_op" where
  "UpdateAntenna t = transaction (andthen (exec (update_antenna t)) (\<lambda>_.
     andthen (exec (copy_gain_tx t)) (\<lambda>_. andthen (exec (copy_gain_rx t)) (\<lambda>_. exec (copy_gain_coverages t)))))"

text \<open>The references of links and coverages are ON DELETE SET NULL.\<close>

definition delete_antenna :: "int \<Rightarrow> int \<Rightarrow> unit query" where
  "delete_antenna owner ident now d = (let p = is_antenna owner ident in
     if \<not> list_ex p (antennas d) then (Inl ErrNotFound, d)
     else (Inr (), d\<lparr>antennas := delete_where p (antennas d),
        links := map (unset_link_antennas (\<lambda>i. i = ident)) (links d),
        coverages := map (unset_coverage_antenna (\<lambda>i. i = ident)) (coverages d)\<rparr>))"

definition DeleteAntenna :: "int \<Rightarrow> int \<Rightarrow> unit store_op" where
  "DeleteAntenna owner ident = exec (delete_antenna owner ident)"

section \<open>Links\<close>

record link_view =
  lv_link :: link
  lv_a :: site
  lv_b :: site

definition site_by_id :: "int \<Rightarrow> db \<Rightarrow> site option" where
  "site_by_id ident d = find (\<lambda>s. site_id s = ident) (sites d)"

text \<open>The inner join of linkQuery: a link whose sites exist.\<close>

definition link_view_of :: "db \<Rightarrow> link \<Rightarrow> link_view option" where
  "link_view_of d l = (case (site_by_id (ln_a l) d, site_by_id (ln_b l) d) of
     (Some a, Some b) \<Rightarrow> Some \<lparr>lv_link = l, lv_a = a, lv_b = b\<rparr>
   | _ \<Rightarrow> None)"

definition is_link :: "int \<Rightarrow> int \<Rightarrow> link \<Rightarrow> bool" where
  "is_link owner ident l \<longleftrightarrow> ln_owner l = owner \<and> ln_id l = ident"

definition ListLinks :: "(string \<Rightarrow> string) \<Rightarrow> int \<Rightarrow> link_view list store_op" where
  "ListLinks coll owner = exec (reading (\<lambda>now d.
     Inr (List.map_filter (link_view_of d) (by_name coll ln_name ln_id (filter (\<lambda>l. ln_owner l = owner) (links d))))))"

definition GetLink :: "int \<Rightarrow> int \<Rightarrow> link_view store_op" where
  "GetLink owner ident = exec (reading (\<lambda>now d.
     some_row (Option.bind (find (is_link owner ident) (links d)) (link_view_of d))))"

definition site_owned :: "int \<Rightarrow> int \<Rightarrow> db \<Rightarrow> bool" where
  "site_owned owner ident d \<longleftrightarrow> map_option site_owner (site_by_id ident d) = Some owner"

definition antenna_owned :: "int \<Rightarrow> int option \<Rightarrow> db \<Rightarrow> bool" where
  "antenna_owned owner x d \<longleftrightarrow> (case x of None \<Rightarrow> True
     | Some i \<Rightarrow> map_option ant_owner (find (\<lambda>t. ant_id t = i) (antennas d)) = Some owner)"

definition linkRefsOwned :: "link \<Rightarrow> db \<Rightarrow> bool" where
  "linkRefsOwned l d \<longleftrightarrow> site_owned (ln_owner l) (ln_a l) d \<and> site_owned (ln_owner l) (ln_b l) d
     \<and> antenna_owned (ln_owner l) (ln_tx_ant l) d \<and> antenna_owned (ln_owner l) (ln_rx_ant l) d"

definition insert_link :: "link \<Rightarrow> int query" where
  "insert_link l now d =
     (if \<not> linkRefsOwned l d then (Inl ErrNotFound, d)
      else if \<not> link_check l then (Inl ErrDb, d)
      else if \<not> user_exists (ln_owner l) d then (Inl ErrInUse, d)
      else (Inr (next_id d), d\<lparr>next_id := next_id d + 1, links := links d @
              [l\<lparr>ln_id := next_id d, ln_share := None, ln_share_expires := None\<rparr>]\<rparr>))"

definition CreateLink :: "link \<Rightarrow> int store_op" where
  "CreateLink l = exec (insert_link l)"

definition update_link :: "link \<Rightarrow> unit query" where
  "update_link l now d = (let p = is_link (ln_owner l) (ln_id l) in
     if \<not> (list_ex p (links d) \<and> linkRefsOwned l d) then (Inl ErrNotFound, d)
     else if \<not> link_check l then (Inl ErrDb, d)
     else (Inr (), d\<lparr>links := update_where p
             (\<lambda>r. l\<lparr>ln_share := ln_share r, ln_share_expires := ln_share_expires r\<rparr>) (links d)\<rparr>))"

definition UpdateLink :: "link \<Rightarrow> unit store_op" where
  "UpdateLink l = exec (update_link l)"

definition DeleteLink :: "int \<Rightarrow> int \<Rightarrow> unit store_op" where
  "DeleteLink owner ident = exec (\<lambda>now d. let p = is_link owner ident in
     (affected (count_where p (links d)), d\<lparr>links := delete_where p (links d)\<rparr>))"

section \<open>Coverages\<close>

definition DefaultOpacity :: int where "DefaultOpacity = 60"

record coverage_view =
  vc_row :: coverage
  vc_site :: site
  vc_job :: job_view
  vc_ms :: int
  vc_note :: string
  vc_share :: string
  vc_opacity :: int
  vc_circles :: bool

definition scanCoverage :: "db \<Rightarrow> coverage \<Rightarrow> site \<Rightarrow> coverage_view" where
  "scanCoverage d c s = \<lparr>vc_row = c, vc_site = s, vc_job = job_view_of (newest_job (cv_id c) (jobs d)),
     vc_ms = (case cv_ms c of None \<Rightarrow> 0 | Some n \<Rightarrow> n), vc_note = text_or_empty (cv_note c),
     vc_share = text_or_empty (cv_share c),
     vc_opacity = (case cv_opacity c of None \<Rightarrow> DefaultOpacity | Some n \<Rightarrow> n),
     vc_circles = (case cv_circles c of None \<Rightarrow> True | Some b \<Rightarrow> b)\<rparr>"

definition coverage_view_of :: "db \<Rightarrow> coverage \<Rightarrow> coverage_view option" where
  "coverage_view_of d c = map_option (scanCoverage d c) (site_by_id (cv_site c) d)"

definition ListCoverages :: "(string \<Rightarrow> string) \<Rightarrow> int \<Rightarrow> coverage_view list store_op" where
  "ListCoverages coll owner = exec (reading (\<lambda>now d.
     Inr (List.map_filter (coverage_view_of d) (by_name coll cv_name cv_id (filter (\<lambda>c. cv_owner c = owner) (coverages d))))))"

definition GetCoverage :: "int \<Rightarrow> int \<Rightarrow> coverage_view store_op" where
  "GetCoverage owner ident = exec (reading (\<lambda>now d.
     some_row (Option.bind (find (owns_coverage owner ident) (coverages d)) (coverage_view_of d))))"

definition coverageRefsOwned :: "coverage \<Rightarrow> db \<Rightarrow> bool" where
  "coverageRefsOwned c d \<longleftrightarrow> site_owned (cv_owner c) (cv_site c) d \<and> antenna_owned (cv_owner c) (cv_tx_ant c) d"

definition count_coverages :: "int \<Rightarrow> db \<Rightarrow> nat" where
  "count_coverages owner d = count_where (\<lambda>c. cv_owner c = owner) (coverages d)"

text \<open>A coverage without result, share or view, as an INSERT leaves the columns it does not name.\<close>

definition cleared_result :: "coverage \<Rightarrow> coverage" where
  "cleared_result c = c\<lparr>cv_png := None, cv_margin := None, cv_bounds := None, cv_computed_at := None,
     cv_ms := None, cv_note := None\<rparr>"

definition fresh_coverage :: "int \<Rightarrow> coverage \<Rightarrow> coverage" where
  "fresh_coverage ident c = (cleared_result c)\<lparr>cv_id := ident, cv_share := None, cv_share_expires := None,
     cv_opacity := None, cv_overlays := None, cv_circles := None\<rparr>"

definition insert_coverage :: "coverage \<Rightarrow> int query" where
  "insert_coverage c now d =
     (if \<not> coverageRefsOwned c d then (Inl ErrNotFound, d)
      else if \<not> coverage_check c then (Inl ErrDb, d)
      else if \<not> user_exists (cv_owner c) d then (Inl ErrInUse, d)
      else (Inr (next_id d), d\<lparr>next_id := next_id d + 1, coverages := coverages d @ [fresh_coverage (next_id d) c]\<rparr>))"

definition CreateCoverage :: "coverage \<Rightarrow> int store_op" where
  "CreateCoverage c = andthen (exec (reading (\<lambda>now d. Inr (count_coverages (cv_owner c) d)))) (\<lambda>n.
     if MaxCoveragesPerUser \<le> n then raise ErrQuota else exec (insert_coverage c))"

text \<open>The columns UpdateCoverage writes; the legend, the share and the view stay.\<close>

definition rewrite_coverage :: "coverage \<Rightarrow> coverage \<Rightarrow> coverage" where
  "rewrite_coverage c r = (cleared_result r)\<lparr>cv_name := cv_name c, cv_site := cv_site c, cv_params := cv_params c,
     cv_tx_ant := cv_tx_ant c, cv_tx_azimuth := cv_tx_azimuth c, cv_tx_tilt := cv_tx_tilt c\<rparr>"

definition update_coverage :: "coverage \<Rightarrow> unit query" where
  "update_coverage c now d = (let p = owns_coverage (cv_owner c) (cv_id c) in
     if \<not> (list_ex p (coverages d) \<and> coverageRefsOwned c d) then (Inl ErrNotFound, d)
     else if \<not> (params_check (cv_params c) \<and> azimuth_check (cv_tx_azimuth c) \<and> pg_between (- 90) 90 (cv_tx_tilt c)) then (Inl ErrDb, d)
     else (Inr (), d\<lparr>coverages := update_where p (rewrite_coverage c) (coverages d)\<rparr>))"

definition drop_idle_jobs :: "int \<Rightarrow> unit query" where
  "drop_idle_jobs ident now d = (Inr (), d\<lparr>jobs := delete_where
     (\<lambda>j. j_coverage j = Some ident \<and> j_state j \<noteq> JobRunning) (jobs d)\<rparr>)"

definition UpdateCoverage :: "coverage \<Rightarrow> unit store_op" where
  "UpdateCoverage c = andthen (exec (update_coverage c)) (\<lambda>_. exec (drop_idle_jobs (cv_id c)))"

text \<open>Jobs of a coverage go with it (ON DELETE CASCADE).\<close>

definition delete_coverage :: "int \<Rightarrow> int \<Rightarrow> unit query" where
  "delete_coverage owner ident now d = (let p = owns_coverage owner ident in
     if \<not> list_ex p (coverages d) then (Inl ErrNotFound, d)
     else (Inr (), d\<lparr>coverages := delete_where p (coverages d),
             jobs := delete_where (\<lambda>j. j_coverage j = Some ident) (jobs d)\<rparr>))"

definition DeleteCoverage :: "int \<Rightarrow> int \<Rightarrow> unit store_op" where
  "DeleteCoverage owner ident = exec (delete_coverage owner ident)"

definition computed :: "coverage \<Rightarrow> bool" where
  "computed c \<longleftrightarrow> cv_computed_at c \<noteq> None \<and> cv_bounds c \<noteq> None"

definition overlays_of :: "int \<Rightarrow> int \<Rightarrow> int list \<Rightarrow> db \<Rightarrow> int list option" where
  "overlays_of owner ident wanted d =
     (let ids = map cv_id (filter (\<lambda>x. cv_owner x = owner \<and> cv_id x \<noteq> ident \<and> cv_id x \<in> set wanted \<and> computed x) (coverages d))
      in if ids = [] then None else Some ids)"

definition SetCoverageView :: "int \<Rightarrow> int \<Rightarrow> int \<Rightarrow> int list \<Rightarrow> bool \<Rightarrow> unit store_op" where
  "SetCoverageView owner ident opacity overlays circles = exec (\<lambda>now d.
     (affected (count_where (owns_coverage owner ident) (coverages d)),
      d\<lparr>coverages := update_where (owns_coverage owner ident) (\<lambda>c. c\<lparr>cv_opacity := Some opacity,
          cv_circles := Some circles, cv_overlays := overlays_of owner ident overlays d\<rparr>) (coverages d)\<rparr>))"

definition CoveragesByID :: "(string \<Rightarrow> string) \<Rightarrow> int \<Rightarrow> int list \<Rightarrow> coverage_view list store_op" where
  "CoveragesByID coll owner ids = (if ids = [] then ret [] else exec (reading (\<lambda>now d.
     Inr (List.map_filter (coverage_view_of d) (by_name coll cv_name cv_id
       (filter (\<lambda>c. cv_owner c = owner \<and> cv_id c \<in> set ids \<and> computed c) (coverages d)))))))"

record raster =
  ra_id :: int
  ra_png :: bytes
  ra_margin :: "bytes option"
  ra_bounds :: bounds
  ra_legend_db :: "f64 list"
  ra_legend_colors :: "string list"

definition scanRaster :: "coverage \<Rightarrow> raster option" where
  "scanRaster c = (case (cv_png c, cv_bounds c) of
     (Some png, Some b) \<Rightarrow> Some \<lparr>ra_id = cv_id c, ra_png = png, ra_margin = cv_margin c, ra_bounds = b,
        ra_legend_db = cv_legend_db c, ra_legend_colors = cv_legend_colors c\<rparr>
   | _ \<Rightarrow> None)"

definition CoverageRasters :: "int \<Rightarrow> int list \<Rightarrow> raster list store_op" where
  "CoverageRasters owner ids = (if ids = [] then ret [] else exec (reading (\<lambda>now d.
     Inr (List.map_filter scanRaster (filter (\<lambda>c. cv_owner c = owner \<and> cv_id c \<in> set ids) (coverages d))))))"

definition CoverageRaster :: "int \<Rightarrow> int \<Rightarrow> raster store_op" where
  "CoverageRaster owner ident = exec (reading (\<lambda>now d.
     some_row (Option.bind (find (owns_coverage owner ident) (coverages d)) scanRaster)))"

definition set_legend :: "int \<Rightarrow> int \<Rightarrow> f64 list \<Rightarrow> string list \<Rightarrow> unit query" where
  "set_legend owner ident mins colors now d = (let p = owns_coverage owner ident in
     if list_ex p (coverages d) \<and> \<not> legend_check mins colors then (Inl ErrDb, d)
     else (affected (count_where p (coverages d)),
           d\<lparr>coverages := update_where p (\<lambda>c. c\<lparr>cv_legend_db := mins, cv_legend_colors := colors\<rparr>) (coverages d)\<rparr>))"

definition SetCoverageLegend :: "int \<Rightarrow> int \<Rightarrow> f64 list \<Rightarrow> string list \<Rightarrow> unit store_op" where
  "SetCoverageLegend owner ident mins colors = exec (set_legend owner ident mins colors)"

text \<open>Coverage.ComputeTime: the text of the milliseconds below a second and from a minute on; in between the verb .1f of fmt prints the quotient.\<close>

definition ComputeTime :: "(int \<Rightarrow> string) \<Rightarrow> int \<Rightarrow> string" where
  "ComputeTime tenths ms =
     (if ms < 1000 then int_text ms @ '' ms''
      else if ms < 60000 then tenths ms @ '' s''
      else int_text (ms div 60000) @ '' min '' @ int_text (ms mod 60000 div 1000) @ '' s'')"

section \<open>Shares\<close>

text \<open>COALESCE keeps an existing token. The unique index refuses a token another row has.\<close>

definition keep_or :: "string \<Rightarrow> string option \<Rightarrow> string option" where
  "keep_or token x = (case x of None \<Rightarrow> Some token | Some t \<Rightarrow> Some t)"

definition share_link :: "int \<Rightarrow> int \<Rightarrow> string \<Rightarrow> time \<Rightarrow> unit query" where
  "share_link owner ident token expires now d =
     (let p = is_link owner ident;
          ls = update_where p (\<lambda>l. l\<lparr>ln_share := keep_or token (ln_share l), ln_share_expires := Some expires\<rparr>) (links d)
      in if unique_some (map ln_share ls) then (affected (count_where p (links d)), d\<lparr>links := ls\<rparr>) else (Inl ErrDb, d))"

definition ShareLink :: "int \<Rightarrow> int \<Rightarrow> string \<Rightarrow> time \<Rightarrow> unit store_op" where
  "ShareLink owner ident token expires = exec (share_link owner ident token expires)"

definition UnshareLink :: "int \<Rightarrow> int \<Rightarrow> unit store_op" where
  "UnshareLink owner ident = exec (\<lambda>now d. let p = is_link owner ident in
     (affected (count_where p (links d)),
      d\<lparr>links := update_where p (\<lambda>l. l\<lparr>ln_share := None, ln_share_expires := None\<rparr>) (links d)\<rparr>))"

definition live_share :: "string \<Rightarrow> time \<Rightarrow> string option \<Rightarrow> time option \<Rightarrow> bool" where
  "live_share token now x expires \<longleftrightarrow> x = Some token \<and> (case expires of None \<Rightarrow> False | Some e \<Rightarrow> now < e)"

definition GetSharedLink :: "string \<Rightarrow> link_view store_op" where
  "GetSharedLink token = exec (reading (\<lambda>now d.
     some_row (Option.bind (find (\<lambda>l. live_share token now (ln_share l) (ln_share_expires l)) (links d)) (link_view_of d))))"

definition share_coverage :: "int \<Rightarrow> int \<Rightarrow> string \<Rightarrow> time \<Rightarrow> unit query" where
  "share_coverage owner ident token expires now d =
     (let p = owns_coverage owner ident;
          cs = update_where p (\<lambda>c. c\<lparr>cv_share := keep_or token (cv_share c), cv_share_expires := Some expires\<rparr>) (coverages d)
      in if unique_some (map cv_share cs) then (affected (count_where p (coverages d)), d\<lparr>coverages := cs\<rparr>) else (Inl ErrDb, d))"

definition ShareCoverage :: "int \<Rightarrow> int \<Rightarrow> string \<Rightarrow> time \<Rightarrow> unit store_op" where
  "ShareCoverage owner ident token expires = exec (share_coverage owner ident token expires)"

definition UnshareCoverage :: "int \<Rightarrow> int \<Rightarrow> unit store_op" where
  "UnshareCoverage owner ident = exec (\<lambda>now d. let p = owns_coverage owner ident in
     (affected (count_where p (coverages d)),
      d\<lparr>coverages := update_where p (\<lambda>c. c\<lparr>cv_share := None, cv_share_expires := None\<rparr>) (coverages d)\<rparr>))"

definition GetSharedCoverage :: "string \<Rightarrow> coverage_view store_op" where
  "GetSharedCoverage token = exec (reading (\<lambda>now d.
     some_row (Option.bind (find (\<lambda>c. live_share token now (cv_share c) (cv_share_expires c)) (coverages d)) (coverage_view_of d))))"

definition ShareExists :: "string \<Rightarrow> string \<Rightarrow> bool store_op" where
  "ShareExists kind token =
     (if kind = ''l'' then exec (reading (\<lambda>now d. Inr (list_ex (\<lambda>l. live_share token now (ln_share l) (ln_share_expires l)) (links d))))
      else if kind = ''c'' then exec (reading (\<lambda>now d. Inr (list_ex (\<lambda>c. live_share token now (cv_share c) (cv_share_expires c)) (coverages d))))
      else ret False)"

end
