(* ===== verification/Geo.thy ===== *)
theory Geo
  imports Float64
begin

text \<open>
  Positions on the sphere: src/internal/geo/geo.go over the real numbers. Rounding is not
  modelled, and \<open>atan2\<close> is math.Atan2 with an unsigned zero.
\<close>

section \<open>Definitions\<close>

definition EarthRadius :: real where "EarthRadius = 63710088 / 10"

record point =
  lat :: real
  lon :: real

definition rad :: "real \<Rightarrow> real" where "rad d = d * pi / 180"

definition deg :: "real \<Rightarrow> real" where "deg r = r * 180 / pi"

definition atan2 :: "real \<Rightarrow> real \<Rightarrow> real" where
  "atan2 y x = (if 0 < x then arctan (y / x)
     else if x < 0 then (if 0 \<le> y then arctan (y / x) + pi else arctan (y / x) - pi)
     else if 0 < y then pi / 2 else if y < 0 then - pi / 2 else 0)"

definition haversine :: "point \<Rightarrow> point \<Rightarrow> real" where
  "haversine a b = (let lat1 = rad (lat a); lat2 = rad (lat b); dlat = lat2 - lat1; dlon = rad (lon b - lon a) in
     sin (dlat / 2) * sin (dlat / 2) + cos lat1 * cos lat2 * sin (dlon / 2) * sin (dlon / 2))"

definition Distance :: "point \<Rightarrow> point \<Rightarrow> real" where
  "Distance a b = 2 * EarthRadius * arcsin (min 1 (sqrt (haversine a b)))"

definition InitialBearing :: "point \<Rightarrow> point \<Rightarrow> real" where
  "InitialBearing a b = (let lat1 = rad (lat a); lat2 = rad (lat b); dlon = rad (lon b - lon a);
       y = sin dlon * cos lat2;
       x = cos lat1 * sin lat2 - sin lat1 * cos lat2 * cos dlon
     in r_mod (deg (atan2 y x) + 360) 360)"

definition PointAt :: "point \<Rightarrow> point \<Rightarrow> real \<Rightarrow> point" where
  "PointAt a b fr =
     (if fr \<le> 0 then a else if 1 \<le> fr then b
      else let d = Distance a b / EarthRadius in
        if d = 0 then a
        else let lat1 = rad (lat a); lon1 = rad (lon a); lat2 = rad (lat b); lon2 = rad (lon b);
                 A = sin ((1 - fr) * d) / sin d;
                 B = sin (fr * d) / sin d;
                 x = A * cos lat1 * cos lon1 + B * cos lat2 * cos lon2;
                 y = A * cos lat1 * sin lon1 + B * cos lat2 * sin lon2;
                 z = A * sin lat1 + B * sin lat2
             in \<lparr>lat = deg (atan2 z (sqrt (x * x + y * y))), lon = deg (atan2 y x)\<rparr>)"

definition Destination :: "point \<Rightarrow> real \<Rightarrow> real \<Rightarrow> point" where
  "Destination a bearing dm = (let lat1 = rad (lat a); lon1 = rad (lon a); brg = rad bearing; d = dm / EarthRadius;
       lat2 = arcsin (sin lat1 * cos d + cos lat1 * sin d * cos brg);
       lon2 = lon1 + atan2 (sin brg * sin d * cos lat1) (cos d - sin lat1 * sin lat2)
     in \<lparr>lat = deg lat2, lon = deg (r_mod (lon2 + 3 * pi) (2 * pi) - pi)\<rparr>)"

section \<open>Facts\<close>

lemma EarthRadius_pos [simp]: "0 < EarthRadius"
  by (simp add: EarthRadius_def)

lemma rad_deg [simp]: "rad (deg r) = r"
  by (simp add: rad_def deg_def)

lemma rad_diff: "rad (x - y) = rad x - rad y"
  by (simp add: rad_def left_diff_distrib diff_divide_distrib)

lemma r_mod_range: "0 \<le> a \<Longrightarrow> 0 < m \<Longrightarrow> 0 \<le> r_mod a m \<and> r_mod a m < m"
  using r_mod_bounds(1) [of m a] r_mod_bounds(2) [of m a] by (simp add: abs_less_iff)

lemma r_mod_period: "\<exists>k::int. r_mod a m = a - of_int k * m"
  unfolding r_mod_def by blast

lemma atan2_bounds: "- pi \<le> atan2 y x" "atan2 y x \<le> pi"
proof -
  have b: "- (pi / 2) < arctan (y / x)" "arctan (y / x) < pi / 2" by (rule arctan_bounded [THEN conjunct1], rule arctan_bounded [THEN conjunct2])
  have neg: "x < 0 \<Longrightarrow> 0 \<le> y \<Longrightarrow> arctan (y / x) \<le> 0" "x < 0 \<Longrightarrow> y < 0 \<Longrightarrow> 0 \<le> arctan (y / x)"
    by (simp_all add: divide_nonneg_neg divide_nonpos_neg)
  show "- pi \<le> atan2 y x" "atan2 y x \<le> pi"
    using b neg pi_gt_zero by (auto simp: atan2_def)
qed

lemma atan2_polar:
  assumes "x\<^sup>2 + y\<^sup>2 \<noteq> 0"
  shows "sqrt (x\<^sup>2 + y\<^sup>2) * cos (atan2 y x) = x"
proof -
  have r: "sqrt (x\<^sup>2 + y\<^sup>2) = \<bar>x\<bar> * sqrt (1 + (y / x)\<^sup>2)" if "x \<noteq> 0"
  proof -
    have "x\<^sup>2 + y\<^sup>2 = x\<^sup>2 * (1 + (y / x)\<^sup>2)" using that by (simp add: field_simps)
    then show ?thesis by (simp add: real_sqrt_mult)
  qed
  have c: "\<bar>x\<bar> * sqrt (1 + (y / x)\<^sup>2) * cos (arctan (y / x)) = \<bar>x\<bar>"
  proof -
    have "0 < 1 + (y / x)\<^sup>2" by (rule add_pos_nonneg) simp_all
    then show ?thesis by (simp add: cos_arctan)
  qed
  consider "0 < x" | "x < 0" | "x = 0" by linarith
  then show ?thesis
  proof cases
    case 1
    then show ?thesis using r c by (simp add: atan2_def)
  next
    case 2
    then show ?thesis using r c by (auto simp: atan2_def)
  next
    case 3
    then show ?thesis by (auto simp: atan2_def)
  qed
qed

text \<open>The haversine is half of one minus the cosine of the central angle.\<close>

lemma haversine_cos:
  "2 * haversine a b = 1 - (sin (rad (lat a)) * sin (rad (lat b))
     + cos (rad (lat a)) * cos (rad (lat b)) * cos (rad (lon b - lon a)))"
proof -
  have half: "2 * (sin (x / 2) * sin (x / 2)) = 1 - cos x" for x :: real
    using cos_double_sin [of "x / 2"] by (simp add: power2_eq_square)
  have "2 * haversine a b = (1 - cos (rad (lat b) - rad (lat a)))
      + cos (rad (lat a)) * cos (rad (lat b)) * (1 - cos (rad (lon b - lon a)))"
    unfolding haversine_def Let_def half [symmetric] by (simp add: algebra_simps)
  then show ?thesis by (simp add: cos_diff algebra_simps)
qed

lemma haversine_sym: "haversine a b = haversine b a"
proof -
  have "rad (lon a - lon b) = - rad (lon b - lon a)" by (simp add: rad_diff)
  then have "cos (rad (lon a - lon b)) = cos (rad (lon b - lon a))" by (simp only: cos_minus)
  with haversine_cos [of a b] haversine_cos [of b a] show ?thesis by (simp add: algebra_simps)
qed

lemma Distance_of_angle:
  assumes "0 \<le> c" "c \<le> pi" "2 * haversine a b = 1 - cos c"
  shows "Distance a b = EarthRadius * c"
proof -
  have "2 * (sin (c / 2))\<^sup>2 = 1 - cos c"
    using cos_double_sin [of "c / 2"] by simp
  with assms(3) have h: "haversine a b = (sin (c / 2))\<^sup>2" by simp
  have s: "0 \<le> sin (c / 2)" by (rule sin_ge_zero) (use assms in auto)
  then have "min 1 (sqrt (haversine a b)) = sin (c / 2)" using sin_le_one [of "c / 2"] by (simp add: h)
  moreover have "arcsin (sin (c / 2)) = c / 2" by (rule arcsin_sin) (use assms in auto)
  ultimately show ?thesis by (simp add: Distance_def)
qed

lemma cos_whole_turns: "cos (x + of_int k * (2 * pi)) = cos x"
  using cos_integer_2pi [of "of_int k"] sin_integer_2pi [of "of_int k"] by (simp add: cos_add mult.commute mult.left_commute)

text \<open>The sine of the end latitude and the two legs of the azimuth triangle.\<close>

lemma azimuth_triangle:
  fixes s1 c1 sd cd sb cb :: real
  assumes "s1\<^sup>2 + c1\<^sup>2 = 1" "sd\<^sup>2 + cd\<^sup>2 = 1" "sb\<^sup>2 + cb\<^sup>2 = 1" "S = s1 * cd + c1 * sd * cb"
  shows "(cd - s1 * S)\<^sup>2 + (sb * sd * c1)\<^sup>2 = c1\<^sup>2 * (1 - S\<^sup>2)"
  using assms by algebra

lemma Destination_angle:
  assumes "0 \<le> cos (rad (lat a))"
  shows "2 * haversine a (Destination a bearing dm) = 1 - cos (dm / EarthRadius)"
proof -
  define s1 c1 where "s1 = sin (rad (lat a))" and "c1 = cos (rad (lat a))"
  define sd cd where "sd = sin (dm / EarthRadius)" and "cd = cos (dm / EarthRadius)"
  define sb cb where "sb = sin (rad bearing)" and "cb = cos (rad bearing)"
  define S where "S = s1 * cd + c1 * sd * cb"
  define x y where "x = cd - s1 * S" and "y = sb * sd * c1"
  have one: "s1\<^sup>2 + c1\<^sup>2 = 1" "sd\<^sup>2 + cd\<^sup>2 = 1" "sb\<^sup>2 + cb\<^sup>2 = 1"
    by (simp_all add: s1_def c1_def sd_def cd_def sb_def cb_def)
  have legs: "x\<^sup>2 + y\<^sup>2 = c1\<^sup>2 * (1 - S\<^sup>2)"
    unfolding x_def y_def by (rule azimuth_triangle [OF one S_def])
  have S1: "S\<^sup>2 \<le> 1"
  proof -
    have "(s1 * cd + c1 * (sd * cb))\<^sup>2 \<le> (s1\<^sup>2 + c1\<^sup>2) * (cd\<^sup>2 + (sd * cb)\<^sup>2)"
      by (simp add: power2_eq_square algebra_simps) (use sum_squares_ge_zero [of "s1 * (sd * cb) - c1 * cd" 0] in \<open>simp add: algebra_simps\<close>)
    also have "\<dots> \<le> 1"
      using one mult_left_mono [of "cb\<^sup>2" 1 "sd\<^sup>2"] by (simp add: power_mult_distrib) (metis add.commute add_left_mono le_add_same_cancel1 zero_le_power2)
    finally show ?thesis by (simp add: S_def mult.assoc)
  qed
  then have Sb: "- 1 \<le> S" "S \<le> 1" by (simp_all add: abs_square_le_1 abs_le_iff)
  have lat2: "sin (arcsin S) = S" "cos (arcsin S) = sqrt (1 - S\<^sup>2)"
    using Sb by (simp_all add: cos_arcsin)
  obtain k :: int where k: "r_mod (rad (lon a) + atan2 y x + 3 * pi) (2 * pi) = rad (lon a) + atan2 y x + 3 * pi - of_int k * (2 * pi)"
    using r_mod_period by blast
  let ?b = "Destination a bearing dm"
  have latb: "rad (lat ?b) = arcsin S"
    by (simp add: Destination_def Let_def S_def s1_def c1_def sd_def cd_def cb_def)
  have lonb: "rad (lon ?b - lon a) = atan2 y x + of_int (1 - k) * (2 * pi)"
  proof -
    have "rad (lon ?b) = r_mod (rad (lon a) + atan2 y x + 3 * pi) (2 * pi) - pi"
      using latb by (simp add: Destination_def Let_def x_def y_def S_def s1_def c1_def sd_def cd_def sb_def cb_def lat2(1) [unfolded S_def s1_def c1_def sd_def cd_def cb_def])
    with k show ?thesis by (simp add: rad_diff algebra_simps)
  qed
  have "c1 * sqrt (1 - S\<^sup>2) = sqrt (x\<^sup>2 + y\<^sup>2)"
    unfolding legs real_sqrt_mult using assms by (simp add: c1_def)
  moreover have "sqrt (x\<^sup>2 + y\<^sup>2) * cos (atan2 y x) = x"
    by (cases "x\<^sup>2 + y\<^sup>2 = 0") (simp_all add: atan2_polar)
  ultimately have "c1 * cos (rad (lat ?b)) * cos (rad (lon ?b - lon a)) = x"
    unfolding latb lonb lat2(2) cos_whole_turns by simp
  moreover have "sin (rad (lat ?b)) = S" by (simp add: latb lat2(1))
  ultimately have "2 * haversine a ?b = 1 - (s1 * S + x)"
    unfolding haversine_cos by (simp add: s1_def c1_def)
  then show ?thesis by (simp add: x_def cd_def)
qed

lemma Distance_range: "0 \<le> Distance a b" "Distance a b \<le> pi * EarthRadius"
proof -
  let ?x = "min 1 (sqrt (haversine a b))"
  have h: "0 \<le> haversine a b"
  proof -
    have "\<bar>sin u * sin v + cos u * cos v * cos w\<bar> \<le> 1" for u v w :: real
    proof -
      have "(sin u * sin v + cos u * (cos v * cos w))\<^sup>2 \<le> ((sin u)\<^sup>2 + (cos u)\<^sup>2) * ((sin v)\<^sup>2 + (cos v * cos w)\<^sup>2)"
        using zero_le_power2 [of "sin u * (cos v * cos w) - cos u * sin v"] by (simp only: power2_eq_square algebra_simps)
      also have "\<dots> \<le> 1"
      proof -
        have "(cos v * cos w)\<^sup>2 \<le> (cos v)\<^sup>2" 
          using mult_left_le [of "(cos w)\<^sup>2" "(cos v)\<^sup>2"] by (simp add: power_mult_distrib abs_square_le_1)
        then have "(sin v)\<^sup>2 + (cos v * cos w)\<^sup>2 \<le> 1" using sin_cos_squared_add [of v] by linarith
        then show ?thesis by simp
      qed
      finally show ?thesis by (simp add: abs_square_le_1 mult.assoc)
    qed
    then show ?thesis using haversine_cos [of a b] by (simp add: abs_le_iff) (smt (verit, ccfv_SIG))
  qed
  have x: "0 \<le> ?x" "?x \<le> 1" using h by simp_all
  then have "0 \<le> arcsin ?x" "arcsin ?x \<le> pi / 2"
    using arcsin_le_arcsin [of 0 ?x] arcsin_ubound [of ?x] real_sqrt_ge_zero [OF h] by simp_all
  then show "0 \<le> Distance a b" "Distance a b \<le> pi * EarthRadius"
    using mult_left_mono [of "arcsin ?x" "pi / 2" "2 * EarthRadius"]
    by (simp_all add: Distance_def less_imp_le)
qed

lemma InitialBearing_range: "0 \<le> InitialBearing a b" "InitialBearing a b < 360"
proof -
  have "0 \<le> deg (atan2 y x) + 360" for y x
    using atan2_bounds [of y x] mult_left_mono [of "- pi" "atan2 y x" 180] by (simp add: deg_def field_simps)
  then show "0 \<le> InitialBearing a b" "InitialBearing a b < 360"
    unfolding InitialBearing_def Let_def by (simp_all add: r_mod_range)
qed

lemma Distance_sym: "Distance a b = Distance b a"
  using haversine_sym [of a b] by (simp add: Distance_def)

section \<open>Properties\<close>

text \<open>Destination lies at the asked distance: for a start on the globe (latitude within 90 degrees) and a
  distance of at most half the circumference, Distance from the start to the Destination is that distance.\<close>

theorem Destination_distance:
  assumes "\<bar>lat a\<bar> \<le> 90" "0 \<le> dm" "dm \<le> pi * EarthRadius"
  shows "Distance a (Destination a bearing dm) = dm"
proof -
  have "- (pi / 2) \<le> rad (lat a)" "rad (lat a) \<le> pi / 2"
    using assms(1) mult_left_mono [of "- 90" "lat a" pi] by (simp_all add: rad_def abs_le_iff field_simps)
  then have "0 \<le> cos (rad (lat a))" by (rule cos_ge_zero)
  then have h: "2 * haversine a (Destination a bearing dm) = 1 - cos (dm / EarthRadius)"
    by (rule Destination_angle)
  have "Distance a (Destination a bearing dm) = EarthRadius * (dm / EarthRadius)"
    by (rule Distance_of_angle [OF _ _ h]) (use assms in \<open>simp_all add: field_simps\<close>)
  then show ?thesis by (simp add: less_imp_neq [OF EarthRadius_pos, symmetric])
qed

lemma Destination_distance_witness:
  "Distance \<lparr>lat = 47, lon = 9\<rparr> (Destination \<lparr>lat = 47, lon = 9\<rparr> 30 5000) = 5000"
proof (rule Destination_distance)
  have "(5000::real) \<le> 2 * EarthRadius" by (simp add: EarthRadius_def)
  also have "\<dots> \<le> pi * EarthRadius" using pi_ge_two by (intro mult_right_mono) (simp_all add: EarthRadius_def)
  finally show "5000 \<le> pi * EarthRadius" .
qed simp_all

text \<open>The distance of two points is the same both ways, not negative and at most half the circumference, and
  the bearing lies in [0, 360).\<close>

theorem Distance_bounds:
  "Distance a b = Distance b a \<and> 0 \<le> Distance a b \<and> Distance a b \<le> pi * EarthRadius
    \<and> 0 \<le> InitialBearing a b \<and> InitialBearing a b < 360"
  using Distance_range [of a b] InitialBearing_range [of a b] Distance_sym [of a b] by simp

end
