(* ===== verification/Strconv.thy ===== *)
theory Strconv
  imports Float64
begin

text \<open>
  What the program uses of Go's strings and strconv on ASCII text: fields, lines, upper case,
  integers and decimal floating-point numbers. Not modelled of strconv.ParseFloat: hexadecimal
  mantissas, rounding and the range error of a value beyond the largest float64.
\<close>

definition to_upper :: "char \<Rightarrow> char" where
  "to_upper c = (let n = of_char c :: nat in if 97 \<le> n \<and> n \<le> 122 then char_of (n - 32) else c)"

definition upper :: "string \<Rightarrow> string" where
  "upper s = map to_upper s"

text \<open>strings.Fields: the maximal runs of characters that are not white space.\<close>

fun ws_fields_acc :: "string \<Rightarrow> string \<Rightarrow> string list" where
  "ws_fields_acc w [] = (if w = [] then [] else [rev w])"
| "ws_fields_acc w (c # cs) = (if is_space c then (if w = [] then [] else [rev w]) @ ws_fields_acc [] cs else ws_fields_acc (c # w) cs)"

definition ws_fields :: "string \<Rightarrow> string list" where
  "ws_fields s = ws_fields_acc [] s"

text \<open>strings.Split on one character: never empty.\<close>

fun split_acc :: "char \<Rightarrow> string \<Rightarrow> string \<Rightarrow> string list" where
  "split_acc sep w [] = [rev w]"
| "split_acc sep w (c # cs) = (if c = sep then rev w # split_acc sep [] cs else split_acc sep (c # w) cs)"

definition split_on :: "char \<Rightarrow> string \<Rightarrow> string list" where
  "split_on sep s = split_acc sep [] s"

fun has_prefix :: "string \<Rightarrow> string \<Rightarrow> bool" where
  "has_prefix [] s = True"
| "has_prefix (p # ps) [] = False"
| "has_prefix (p # ps) (c # cs) = (p = c \<and> has_prefix ps cs)"

definition trim_prefix :: "string \<Rightarrow> string \<Rightarrow> string" where
  "trim_prefix p s = (if has_prefix p s then drop (length p) s else s)"

text \<open>No line break.\<close>

definition one_line :: "string \<Rightarrow> bool" where
  "one_line s \<longleftrightarrow> CHR 10 \<notin> set s \<and> CHR 13 \<notin> set s"

section \<open>Numbers\<close>

definition digit_val :: "char \<Rightarrow> nat option" where
  "digit_val c = (let n = of_char c :: nat in if 48 \<le> n \<and> n \<le> 57 then Some (n - 48) else None)"

fun digits_val :: "nat \<Rightarrow> string \<Rightarrow> nat option" where
  "digits_val acc [] = Some acc"
| "digits_val acc (c # cs) = (case digit_val c of None \<Rightarrow> None | Some d \<Rightarrow> digits_val (10 * acc + d) cs)"

definition unsigned :: "string \<Rightarrow> nat option" where
  "unsigned s = (if s = [] then None else digits_val 0 s)"

definition split_sign :: "string \<Rightarrow> bool \<times> bool \<times> string" where
  "split_sign s = (case s of
     [] \<Rightarrow> (False, False, s)
   | c # cs \<Rightarrow> if c = CHR ''-'' then (True, True, cs) else if c = CHR ''+'' then (True, False, cs) else (False, False, s))"

text \<open>strconv.ParseInt(s, 10, 64) and Atoi: an error out of the range of int64.\<close>

definition ParseInt :: "string \<Rightarrow> int option" where
  "ParseInt s = (case split_sign s of (_, neg, ds) \<Rightarrow>
     (case unsigned ds of
        None \<Rightarrow> None
      | Some n \<Rightarrow> (let v = (if neg then - int n else int n) in if - (2 ^ 63) \<le> v \<and> v < 2 ^ 63 then Some v else None)))"

text \<open>The decimal mantissa: digits with at most one point and at least one digit; the value and the digits after the point.\<close>

definition mantissa :: "string \<Rightarrow> (nat \<times> nat) option" where
  "mantissa s = (case split_on (CHR ''.'') s of
     [a] \<Rightarrow> map_option (\<lambda>n. (n, 0)) (unsigned a)
   | [a, b] \<Rightarrow> map_option (\<lambda>n. (n, length b)) (unsigned (a @ b))
   | _ \<Rightarrow> None)"

definition pow10 :: "int \<Rightarrow> real" where
  "pow10 e = (if 0 \<le> e then 10 ^ nat e else 1 / 10 ^ nat (- e))"

definition decimal :: "string \<Rightarrow> real option" where
  "decimal s = (case split_on (CHR ''e'') s of
     [m] \<Rightarrow> map_option (\<lambda>(n, k). real n * pow10 (- int k)) (mantissa m)
   | [m, x] \<Rightarrow> (case (mantissa m, split_sign x) of
        (Some (n, k), (_, neg, ds)) \<Rightarrow> map_option (\<lambda>e. real n * pow10 ((if neg then - int e else int e) - int k)) (unsigned ds)
      | _ \<Rightarrow> None)
   | _ \<Rightarrow> None)"

text \<open>The special words take no account of case; only an infinity may carry a sign.\<close>

definition ParseFloat :: "string \<Rightarrow> f64 option" where
  "ParseFloat s = (let l = lower s; (signed, neg, rest) = split_sign l in
     if rest = ''inf'' \<or> rest = ''infinity'' then Some (if neg then NInf else PInf)
     else if l = ''nan'' then Some NaN
     else map_option (\<lambda>v. Fin (if neg then - v else v)) (decimal rest))"

section \<open>Facts\<close>

lemma ParseInt_range: "ParseInt s = Some v \<Longrightarrow> - (2 ^ 63) \<le> v \<and> v < 2 ^ 63"
  by (auto simp: ParseInt_def Let_def split: prod.splits option.splits if_splits)

lemma digits_val_digit: "n < 10 \<Longrightarrow> digit_val (digit n) = Some n"
  by (simp add: digit_val_def digit_def)

lemma digits_val_append: "digits_val acc (xs @ ys) = Option.bind (digits_val acc xs) (\<lambda>a. digits_val a ys)"
  by (induction xs arbitrary: acc) (auto split: option.splits)

text \<open>Decimal text reads back as its number.\<close>

lemma digits_val_nat_text: "digits_val 0 (nat_text n) = Some n"
proof (induction n rule: nat_text.induct)
  case (1 n)
  show ?case
  proof (cases "n < 10")
    case True
    then show ?thesis by (simp add: nat_text.simps [of n] digits_val_digit)
  next
    case False
    with 1 show ?thesis by (simp add: nat_text.simps [of n] digits_val_append digits_val_digit)
  qed
qed

lemma unsigned_nat_text: "unsigned (nat_text n) = Some n"
  by (simp add: unsigned_def digits_val_nat_text)

lemma ParseInt_int_text:
  assumes "- (2 ^ 63) \<le> i" "i < 2 ^ 63"
  shows "ParseInt (int_text i) = Some i"
proof (cases "i < 0")
  case True
  then show ?thesis using assms by (simp add: ParseInt_def int_text_def split_sign_def unsigned_nat_text)
next
  case False
  obtain c cs where c: "nat_text (nat i) = c # cs" by (cases "nat_text (nat i)") auto
  have "digits_val 0 (c # cs) = Some (nat i)" using digits_val_nat_text [of "nat i"] c by simp
  then have "digit_val c \<noteq> None" by (auto split: option.splits)
  then have "c \<noteq> CHR ''-''" "c \<noteq> CHR ''+''" by (auto simp: digit_val_def Let_def)
  then have "split_sign (nat_text (nat i)) = (False, False, nat_text (nat i))" by (simp add: split_sign_def c)
  then show ?thesis using False assms by (simp add: ParseInt_def int_text_def unsigned_nat_text)
qed

end
