(* ===== verification/Antenna.thy ===== *)
theory Antenna
  imports Geo Strconv "HOL-Library.Multiset"
begin

text \<open>
  Antenna patterns: src/internal/antenna/antenna.go. A pattern is the list of its attenuations in
  dB, one per degree when it is valid; angles that the code may meet as NaN or infinite are
  \<open>f64\<close>. An index out of range, a panic of the Go program, is the result \<open>None\<close>. Sums and products
  are exact, except the one addition whose rounding decides an index.
\<close>

section \<open>Attenuation\<close>

definition Steps :: nat where "Steps = 360"

type_synonym pattern = "real list"

record 'n lobe =
  lobe_h :: "'n list"
  lobe_v :: "'n list"

text \<open>Pattern.AttenuationDB: the offset is reduced to a degree of the circle and interpolated. The conversion of a NaN
  to int, which math.Mod gives for an infinite offset, is no index of a pattern.\<close>

definition wrap_deg :: "real \<Rightarrow> real" where
  "wrap_deg r = (let d = r_mod r 360 in if d < 0 then fl64 (d + 360) else d)"

definition pattern_att :: "pattern \<Rightarrow> f64 \<Rightarrow> real option" where
  "pattern_att p rel =
     (if length p \<noteq> Steps \<or> is_nan rel then Some 0
      else case rel of
        Fin r \<Rightarrow> (let d = wrap_deg r; i = nat \<lfloor>d\<rfloor>; f = d - of_nat i in
          if i < length p then Some (p ! i * (1 - f) + p ! ((i + 1) mod Steps) * f) else None)
      | _ \<Rightarrow> None)"

definition Front :: "pattern \<Rightarrow> real" where
  "Front p = fold max p 0"

definition lobe_att :: "real lobe \<Rightarrow> f64 \<Rightarrow> f64 \<Rightarrow> real option" where
  "lobe_att l az el = (let v = (if length (lobe_v l) \<noteq> Steps then lobe_h l else lobe_v l) in
     case (pattern_att (lobe_h l) az, pattern_att v el) of
       (Some a, Some b) \<Rightarrow> Some (min (a + b) (max (Front (lobe_h l)) (Front v)))
     | _ \<Rightarrow> None)"

section \<open>Synthetic patterns\<close>

definition sector_at :: "real \<Rightarrow> real \<Rightarrow> nat \<Rightarrow> real" where
  "sector_at bw fb i = (let t = (if 180 < i then real i - 360 else real i) in min (12 * (t / bw) * (t / bw)) fb)"

definition Sector :: "real \<Rightarrow> real \<Rightarrow> pattern" where
  "Sector bw fb = (if bw \<le> 0 \<or> 360 \<le> bw \<or> fb \<le> 0 then replicate Steps 0 else map (sector_at bw fb) [0..<Steps])"

definition round1000 :: "real \<Rightarrow> real" where
  "round1000 x = of_int (r_round (x * 1000)) / 1000"

text \<open>The loop of SectorParams from t down to 1.\<close>

fun sector_scan :: "pattern \<Rightarrow> real \<Rightarrow> nat \<Rightarrow> real \<times> real" where
  "sector_scan p fb 0 = (360, round1000 fb)"
| "sector_scan p fb (Suc t) =
     (if p ! Suc t < fb \<and> 0 < p ! Suc t then (round1000 (real (Suc t) * sqrt (12 / p ! Suc t)), round1000 fb)
      else sector_scan p fb t)"

definition SectorParams :: "pattern \<Rightarrow> real \<times> real" where
  "SectorParams p = (let fb = Front p in
     if length p \<noteq> Steps \<or> fb \<le> 0 then (360, 0) else sector_scan p fb 180)"

section \<open>Resampling\<close>

text \<open>sort.Slice on up to twelve elements is this insertion sort; on longer slices the order of equal angles is open.\<close>

fun sift :: "(f64 \<times> real) \<Rightarrow> (f64 \<times> real) list \<Rightarrow> (f64 \<times> real) list" where
  "sift x [] = [x]"
| "sift x (y # ys) = (if f_lt (fst x) (fst y) then y # sift x ys else x # y # ys)"

definition sort_samples :: "(f64 \<times> real) list \<Rightarrow> (f64 \<times> real) list" where
  "sort_samples ss = rev (fold sift ss [])"

text \<open>sort.Search.\<close>

function search :: "(nat \<Rightarrow> bool) \<Rightarrow> nat \<Rightarrow> nat \<Rightarrow> nat" where
  "search f i j = (if i < j then (let h = (i + j) div 2 in if f h then search f i h else search f (Suc h) j) else i)"
  by auto
termination by (relation "measure (\<lambda>(f, i, j). j - i)") auto

declare search.simps [simp del]

definition blend :: "f64 \<times> real \<Rightarrow> f64 \<times> real \<Rightarrow> real \<Rightarrow> real" where
  "blend lo hi x = (let f = (case f_sub (fst hi) (fst lo) of
        Fin gap \<Rightarrow> (case fst lo of Fin a \<Rightarrow> (if 0 < gap then (x - a) / gap else 0) | _ \<Rightarrow> 0)
      | _ \<Rightarrow> 0) in snd lo * (1 - f) + snd hi * f)"

definition sample_at :: "(f64 \<times> real) list \<Rightarrow> nat \<Rightarrow> real option" where
  "sample_at ss d = (let x = real d; lo = last ss; hi = hd ss in
     if f_lt (Fin x) (fst hi) then Some (blend (f_sub (fst lo) (Fin 360), snd lo) hi x)
     else if f_le (fst lo) (Fin x) then Some (blend lo (f_add (fst hi) (Fin 360), snd hi) x)
     else let i = search (\<lambda>k. f_lt (Fin x) (fst (ss ! k))) 0 (length ss) in
       if 0 < i \<and> i < length ss then Some (blend (ss ! (i - 1)) (ss ! i) x) else None)"

datatype msi_error = BadLine string | NoGainValue | BadGain string | NoCount string | BadCount string string
  | TooLong | NoHorizontal | NoGain | NonFinite

definition norm_deg :: "f64 \<Rightarrow> f64" where
  "norm_deg a = f_mod (f_add (f_mod a 360) (Fin 360)) 360"

fun finite_val :: "f64 \<Rightarrow> real option" where
  "finite_val (Fin v) = Some v"
| "finite_val _ = None"

definition best_of :: "real list \<Rightarrow> real" where
  "best_of vs = fold min (tl vs) (hd vs)"

text \<open>resample of at least one pair; the outer option is the panic.\<close>

definition resample :: "(f64 \<times> f64) list \<Rightarrow> (msi_error + pattern) option" where
  "resample raw = (case those (map (finite_val \<circ> snd) raw) of
      None \<Rightarrow> Some (Inl NonFinite)
    | Some vs \<Rightarrow>
       (let best = best_of vs;
            ss = sort_samples (zip (map (norm_deg \<circ> fst) raw) vs)
        in map_option (\<lambda>out. Inr (map (\<lambda>v. v - best) out)) (those (map (sample_at ss) [0..<Steps]))))"

section \<open>MSI files\<close>

record msi_state =
  ms_name :: string
  ms_freq :: f64
  ms_gain :: "f64 option"
  ms_unit :: string
  ms_section :: string
  ms_left :: nat
  ms_h :: "(f64 \<times> f64) list"
  ms_v :: "(f64 \<times> f64) list"

record msi_antenna =
  ma_name :: string
  ma_gain :: f64
  ma_freq :: f64
  ma_h :: pattern
  ma_v :: pattern

definition msi_start :: msi_state where
  "msi_start = \<lparr>ms_name = [], ms_freq = Fin 0, ms_gain = None, ms_unit = [], ms_section = [], ms_left = 0, ms_h = [], ms_v = []\<rparr>"

definition msi_pair :: "string \<Rightarrow> string list \<Rightarrow> msi_state \<Rightarrow> msi_error + msi_state" where
  "msi_pair line f st = (case f of
     a # v # _ \<Rightarrow>
       (case (ParseFloat a, ParseFloat v) of
          (Some ang, Some val) \<Rightarrow> Inr (
             (if ms_section st = ''HORIZONTAL'' then st\<lparr>ms_h := ms_h st @ [(ang, val)]\<rparr>
              else if ms_section st = ''VERTICAL'' then st\<lparr>ms_v := ms_v st @ [(ang, val)]\<rparr>
              else st)\<lparr>ms_left := ms_left st - 1\<rparr>)
        | _ \<Rightarrow> Inl (BadLine line))
   | _ \<Rightarrow> Inl (BadLine line))"

definition msi_header :: "string \<Rightarrow> string list \<Rightarrow> msi_state \<Rightarrow> msi_error + msi_state" where
  "msi_header line f st = (case f of
     [] \<Rightarrow> Inr st
   | key # args \<Rightarrow>
      (let k = upper key in
       if k = ''NAME'' then Inr (st\<lparr>ms_name := trim_space (trim_prefix key line)\<rparr>)
       else if k = ''FREQUENCY'' then
         Inr (case args of [] \<Rightarrow> st | x # _ \<Rightarrow> st\<lparr>ms_freq := (case ParseFloat x of None \<Rightarrow> Fin 0 | Some v \<Rightarrow> v)\<rparr>)
       else if k = ''GAIN'' then
         (case args of
            [] \<Rightarrow> Inl NoGainValue
          | x # us \<Rightarrow> (case ParseFloat x of
              None \<Rightarrow> Inl (BadGain x)
            | Some v \<Rightarrow> Inr (case us of [] \<Rightarrow> st\<lparr>ms_gain := Some v\<rparr> | u # _ \<Rightarrow> st\<lparr>ms_gain := Some v, ms_unit := lower u\<rparr>)))
       else if k = ''HORIZONTAL'' \<or> k = ''VERTICAL'' then
         (case args of
            [] \<Rightarrow> Inl (NoCount key)
          | x # _ \<Rightarrow> (case ParseInt x of
              None \<Rightarrow> Inl (BadCount key x)
            | Some n \<Rightarrow> if n < 2 \<or> 3600 < n then Inl (BadCount key x) else Inr (st\<lparr>ms_section := k, ms_left := nat n\<rparr>)))
       else Inr st))"

definition msi_line :: "string \<Rightarrow> msi_state \<Rightarrow> msi_error + msi_state" where
  "msi_line text st = (let line = trim_space text in
     if line = [] then Inr st
     else if 0 < ms_left st then msi_pair line (ws_fields line) st
     else msi_header line (ws_fields line) st)"

text \<open>The scanner: the first mebibyte, line by line; a line that does not fit its 64 KiB buffer ends the scan with an error.\<close>

definition MaxLine :: nat where "MaxLine = 65536"
definition MaxFile :: nat where "MaxFile = 1048576"

fun msi_scan :: "string list \<Rightarrow> msi_state \<Rightarrow> msi_error + msi_state" where
  "msi_scan [] st = Inr st"
| "msi_scan (l # ls) st = (if MaxLine \<le> length l then Inl TooLong
     else case msi_line l st of Inl e \<Rightarrow> Inl e | Inr st' \<Rightarrow> msi_scan ls st')"

definition dBdToDBi :: real where "dBdToDBi = 215 / 100"

definition msi_gain :: "msi_state \<Rightarrow> f64 \<Rightarrow> f64" where
  "msi_gain st g = (if has_prefix ''dbi'' (ms_unit st) then g else f_add g (Fin dBdToDBi))"

definition msi_finish :: "msi_state \<Rightarrow> (msi_error + msi_antenna) option" where
  "msi_finish st =
     (if ms_h st = [] then Some (Inl NoHorizontal)
      else case ms_gain st of
        None \<Rightarrow> Some (Inl NoGain)
      | Some g \<Rightarrow>
         (case resample (ms_h st) of
            None \<Rightarrow> None
          | Some (Inl e) \<Rightarrow> Some (Inl e)
          | Some (Inr h) \<Rightarrow>
             (let a = \<lparr>ma_name = ms_name st, ma_gain = msi_gain st g, ma_freq = ms_freq st, ma_h = h, ma_v = []\<rparr> in
              if ms_v st = [] then Some (Inr a)
              else case resample (ms_v st) of
                None \<Rightarrow> None
              | Some (Inl e) \<Rightarrow> Some (Inl e)
              | Some (Inr v) \<Rightarrow> Some (Inr (a\<lparr>ma_v := v\<rparr>)))))"

definition ParseMSI :: "string \<Rightarrow> (msi_error + msi_antenna) option" where
  "ParseMSI file = (case msi_scan (split_on (CHR 0x0A) (take MaxFile file)) msi_start of
     Inl e \<Rightarrow> Some (Inl e)
   | Inr st \<Rightarrow> msi_finish st)"

section \<open>Facts about search and sorting\<close>

text \<open>sort.Search finds the first index of a monotone predicate.\<close>

lemma search_first:
  assumes "\<And>a b. a \<le> b \<Longrightarrow> b < n \<Longrightarrow> f a \<Longrightarrow> f b" "i \<le> j" "j \<le> n" "\<And>k. k < i \<Longrightarrow> \<not> f k" "\<And>k. j \<le> k \<Longrightarrow> k < n \<Longrightarrow> f k"
  shows "search f i j \<le> n \<and> (\<forall>k < search f i j. \<not> f k) \<and> (search f i j < n \<longrightarrow> f (search f i j))"
  using assms
proof (induction f i j rule: search.induct)
  case (1 f i j)
  show ?case
  proof (cases "i < j")
    case True
    define h where "h = (i + j) div 2"
    have h: "i \<le> h" "h < j" using True by (auto simp: h_def)
    show ?thesis
    proof (cases "f h")
      case True
      have "search f i h \<le> n \<and> (\<forall>k < search f i h. \<not> f k) \<and> (search f i h < n \<longrightarrow> f (search f i h))"
      proof (rule "1.IH"(1) [OF \<open>i < j\<close> h_def True])
        show "h \<le> n" using h "1.prems"(3) by simp
        show "f k" if "h \<le> k" "k < n" for k using "1.prems"(1) [OF that True] .
      qed (use "1.prems"(1,4) h in blast)+
      with True \<open>i < j\<close> show ?thesis by (simp add: search.simps [of f i j] h_def [symmetric] Let_def)
    next
      case False
      have low: "\<not> f k" if "k < Suc h" for k using "1.prems"(1) [of k h] that False h "1.prems"(3) by auto
      have "search f (Suc h) j \<le> n \<and> (\<forall>k < search f (Suc h) j. \<not> f k) \<and> (search f (Suc h) j < n \<longrightarrow> f (search f (Suc h) j))"
      proof (intro "1.IH"(2) [OF \<open>i < j\<close> h_def False])
        show "Suc h \<le> j" using h by simp
      qed (use "1.prems"(1,3,5) low in blast)+
      with False \<open>i < j\<close> show ?thesis by (simp add: search.simps [of f i j] h_def [symmetric] Let_def)
    qed
  next
    case False
    with "1.prems"(2) have "i = j" by simp
    then show ?thesis using "1.prems"(3,4,5) by (simp add: search.simps [of f j j])
  qed
qed

text \<open>sort.Slice: a permutation, ordered when no angle is NaN.\<close>

lemma sift_perm: "mset (sift x ys) = add_mset x (mset ys)"
  by (induction ys) auto

lemma fold_sift_perm: "mset (fold sift ss acc) = mset acc + mset ss"
  by (induction ss arbitrary: acc) (auto simp: sift_perm)

lemma sort_samples_set: "set (sort_samples ss) = set ss" "length (sort_samples ss) = length ss"
  using fold_sift_perm [of ss "[]"] by (auto simp: sort_samples_def dest: mset_eq_setD mset_eq_length)

fun ang :: "f64 \<times> real \<Rightarrow> real" where
  "ang (Fin a, v) = a"
| "ang _ = 0"

definition finite_ang :: "f64 \<times> real \<Rightarrow> bool" where
  "finite_ang s \<longleftrightarrow> (\<exists>a v. s = (Fin a, v))"

lemma finite_angD: "finite_ang s \<Longrightarrow> fst s = Fin (ang s)"
  by (auto simp: finite_ang_def)

lemma sift_sorted:
  "finite_ang x \<Longrightarrow> \<forall>y \<in> set ys. finite_ang y \<Longrightarrow> sorted_wrt (\<lambda>a b. ang b \<le> ang a) ys
    \<Longrightarrow> sorted_wrt (\<lambda>a b. ang b \<le> ang a) (sift x ys)"
proof (induction ys)
  case (Cons y ys)
  have "set (sift x ys) = insert x (set ys)" using sift_perm [of x ys] by (metis set_mset_add_mset_insert set_mset_mset)
  with Cons show ?case by (auto simp: finite_angD)
qed simp

lemma sort_samples_sorted:
  assumes "\<forall>y \<in> set ss. finite_ang y"
  shows "sorted_wrt (\<lambda>a b. ang a \<le> ang b) (sort_samples ss)"
proof -
  have "sorted_wrt (\<lambda>a b. ang b \<le> ang a) (fold sift ss acc)"
    if "\<forall>y \<in> set ss \<union> set acc. finite_ang y" "sorted_wrt (\<lambda>a b. ang b \<le> ang a) acc" for acc
    using that
  proof (induction ss arbitrary: acc)
    case (Cons x ss)
    have "set (sift x acc) = insert x (set acc)" using sift_perm [of x acc] by (metis set_mset_add_mset_insert set_mset_mset)
    with Cons show ?case by (simp add: sift_sorted)
  qed simp
  then show ?thesis using assms by (simp add: sort_samples_def sorted_wrt_rev)
qed

section \<open>Facts about interpolation\<close>

lemma convex_between:
  fixes u v f :: real
  assumes "0 \<le> f" "f \<le> 1" "m \<le> u" "u \<le> M" "m \<le> v" "v \<le> M"
  shows "m \<le> u * (1 - f) + v * f" "u * (1 - f) + v * f \<le> M"
proof -
  have "m * (1 - f) + m * f \<le> u * (1 - f) + v * f" "u * (1 - f) + v * f \<le> M * (1 - f) + M * f"
    using assms by (intro add_mono mult_right_mono; simp)+
  then show "m \<le> u * (1 - f) + v * f" "u * (1 - f) + v * f \<le> M" by (simp_all add: algebra_simps)
qed

lemma blend_between:
  assumes "fst lo = Fin a" "fst hi = Fin b" "a \<le> x" "x < b" "m \<le> snd lo" "snd lo \<le> M" "m \<le> snd hi" "snd hi \<le> M"
  shows "m \<le> blend lo hi x \<and> blend lo hi x \<le> M"
proof -
  have "blend lo hi x = snd lo * (1 - (x - a) / (b - a)) + snd hi * ((x - a) / (b - a))"
    using assms by (simp add: blend_def)
  moreover have "0 \<le> (x - a) / (b - a)" "(x - a) / (b - a) \<le> 1" using assms by simp_all
  ultimately show ?thesis using convex_between [of "(x - a) / (b - a)" m "snd lo" M "snd hi"] assms by simp
qed

lemma sample_at_between:
  assumes ss: "ss \<noteq> []" "\<forall>s \<in> set ss. finite_ang s \<and> 0 \<le> ang s \<and> ang s < 360 \<and> m \<le> snd s \<and> snd s \<le> M"
    and sorted: "sorted_wrt (\<lambda>a b. ang a \<le> ang b) ss" and d: "d < 360"
  shows "\<exists>v. sample_at ss d = Some v \<and> m \<le> v \<and> v \<le> M"
proof -
  let ?x = "real d"
  have el: "hd ss \<in> set ss" "last ss \<in> set ss" using ss(1) by simp_all
  have h: "fst (hd ss) = Fin (ang (hd ss))" and l: "fst (last ss) = Fin (ang (last ss))"
    using ss(2) el by (auto intro: finite_angD)
  consider "?x < ang (hd ss)" | "ang (hd ss) \<le> ?x" "ang (last ss) \<le> ?x" | "ang (hd ss) \<le> ?x" "?x < ang (last ss)" by linarith
  then show ?thesis
  proof cases
    case 1
    have "m \<le> blend (f_sub (fst (last ss)) (Fin 360), snd (last ss)) (hd ss) ?x \<and> blend (f_sub (fst (last ss)) (Fin 360), snd (last ss)) (hd ss) ?x \<le> M"
      by (rule blend_between) (use ss(2) el 1 h l in \<open>auto simp: f_sub_def\<close>)
    with 1 h show ?thesis by (simp add: sample_at_def Let_def)
  next
    case 2
    have "m \<le> blend (last ss) (f_add (fst (hd ss)) (Fin 360), snd (hd ss)) ?x \<and> blend (last ss) (f_add (fst (hd ss)) (Fin 360), snd (hd ss)) ?x \<le> M"
      by (rule blend_between [where a = "ang (last ss)" and b = "ang (hd ss) + 360"]) (use ss(2) el 2 h l d in auto)
    with 2 h l show ?thesis by (simp add: sample_at_def Let_def)
  next
    case 3
    let ?f = "\<lambda>k. f_lt (Fin ?x) (fst (ss ! k))"
    let ?n = "length ss"
    let ?i = "search ?f 0 ?n"
    have f: "?f k \<longleftrightarrow> ?x < ang (ss ! k)" if "k < ?n" for k
      using ss(2) nth_mem [OF that] finite_angD [of "ss ! k"] by simp
    have mono: "?f b" if "a \<le> b" "b < ?n" "?f a" for a b
    proof -
      have "ang (ss ! a) \<le> ang (ss ! b)"
        using that sorted_wrt_nth_less [OF sorted, of a b] by (cases "a = b") auto
      with f [of a] f [OF that(2)] that show ?thesis by auto
    qed
    have s: "?i \<le> ?n \<and> (\<forall>k < ?i. \<not> ?f k) \<and> (?i < ?n \<longrightarrow> ?f ?i)"
      by (rule search_first) (use mono in auto)
    have ends: "?f (?n - 1)" "\<not> ?f 0"
      using 3 ss(1) f [of 0] f [of "?n - 1"] by (simp_all add: hd_conv_nth last_conv_nth)
    have i: "0 < ?i" "?i < ?n"
    proof -
      show "0 < ?i" using s ends ss(1) by (cases "?i = 0") auto
      show "?i < ?n"
      proof (rule ccontr)
        assume "\<not> ?i < ?n"
        with s ss(1) have "?n - 1 < ?i" by (cases ss) auto
        with s ends show False by blast
      qed
    qed
    have "m \<le> blend (ss ! (?i - 1)) (ss ! ?i) ?x \<and> blend (ss ! (?i - 1)) (ss ! ?i) ?x \<le> M"
    proof (rule blend_between)
      show "fst (ss ! (?i - 1)) = Fin (ang (ss ! (?i - 1)))" "fst (ss ! ?i) = Fin (ang (ss ! ?i))"
        using ss(2) i by (auto intro!: finite_angD)
      show "ang (ss ! (?i - 1)) \<le> ?x" using s i f [of "?i - 1"] by (simp add: not_less)
      show "?x < ang (ss ! ?i)" using s i f [of ?i] by blast
    qed (use ss(2) i in auto)
    with 3 h l i show ?thesis by (simp add: sample_at_def Let_def)
  qed
qed

lemma norm_deg_range: "\<exists>b. norm_deg (Fin a) = Fin b \<and> 0 \<le> b \<and> b < 360"
proof -
  have "\<bar>r_mod a 360\<bar> < 360" by (rule r_mod_bounds) simp
  then have "0 \<le> r_mod a 360 + 360" by simp
  then have "0 \<le> r_mod (r_mod a 360 + 360) 360 \<and> r_mod (r_mod a 360 + 360) 360 < 360"
    by (simp add: r_mod_range)
  then show ?thesis by (simp add: norm_deg_def)
qed

lemma fold_min_le: "(fold min vs b :: real) \<le> b \<and> (\<forall>v \<in> set vs. fold min vs b \<le> v)"
proof (induction vs arbitrary: b)
  case (Cons a vs)
  from Cons [of "min a b"] show ?case by auto
qed simp

lemma best_of_le: "v \<in> set vs \<Longrightarrow> best_of vs \<le> v"
  using fold_min_le [of "tl vs" "hd vs"] by (cases vs) (auto simp: best_of_def)

lemma those_map_Some: "those (map f xs) = Some ys \<longleftrightarrow> map f xs = map Some ys"
  by (induction xs arbitrary: ys) (auto split: option.splits simp: map_eq_Cons_conv Cons_eq_map_conv)

lemma round_even_nonneg: "0 \<le> x \<Longrightarrow> 0 \<le> round_even x"
  by (simp add: round_even_def Let_def)

lemma fl64_nonneg: "0 \<le> x \<Longrightarrow> 0 \<le> fl64 x"
  by (simp add: fl64_def Let_def round_even_nonneg)

lemma wrap_deg_nonneg: "0 \<le> wrap_deg r"
  using r_mod_bounds(1) [of 360 r] by (auto simp: wrap_deg_def Let_def abs_less_iff intro: fl64_nonneg)

lemma wrap_deg_tiny: "wrap_deg (- (1 / 2 ^ 50)) = 360"
proof -
  have m: "r_mod (- (1 / 2 ^ 50)) 360 = - (1 / 2 ^ 50)" by (simp add: r_mod_def trunc_def)
  define x :: real where "x = 360 - 1 / 2 ^ 50"
  have "8 \<le> log 2 x" "log 2 x < 9" "0 < x" by (simp_all add: le_log_iff log_less_iff x_def)
  then have e: "\<lfloor>log 2 x\<rfloor> = 8" by (simp add: floor_eq_iff)
  have f: "\<lfloor>x * 2 powr 44\<rfloor> = 360 * 2 ^ 44 - 1" by (simp add: floor_eq_iff x_def)
  have "round_even (x * 2 powr 44) = 360 * 2 ^ 44"
    unfolding round_even_def Let_def f by (simp add: x_def)
  then have "fl64 x = 360"
    using \<open>0 < x\<close> by (simp add: fl64_def Let_def e powr_minus_divide)
  moreover have "- (1 / 2 ^ 50) + 360 = x" "- (1 / 2 ^ 50) < (0::real)" by (simp_all add: x_def)
  ultimately show ?thesis unfolding wrap_deg_def Let_def m by (simp only: if_True)
qed

section \<open>Facts about sectors\<close>

lemma fold_max_ge: "(b::real) \<le> fold max vs b \<and> (\<forall>v \<in> set vs. v \<le> fold max vs b)"
proof (induction vs arbitrary: b)
  case (Cons a vs)
  from Cons [of "max a b"] show ?case by auto
qed simp

lemma fold_max_le: "(b::real) \<le> M \<Longrightarrow> \<forall>v \<in> set vs. v \<le> M \<Longrightarrow> fold max vs b \<le> M"
  by (induction vs arbitrary: b) auto

lemma Front_ge: "v \<in> set p \<Longrightarrow> v \<le> Front p"
  using fold_max_ge [of 0 p] by (simp add: Front_def)

lemma Front_le: "0 \<le> M \<Longrightarrow> \<forall>v \<in> set p. v \<le> M \<Longrightarrow> Front p \<le> M"
  by (simp add: Front_def fold_max_le)

text \<open>A sector attenuates most at its back.\<close>

lemma sector_at_le_back:
  assumes "0 < bw" "i < Steps"
  shows "sector_at bw fb i \<le> min (12 * (180 / bw)\<^sup>2) fb"
proof -
  define t :: real where "t = (if 180 < i then real i - 360 else real i)"
  have "\<bar>t\<bar> \<le> 180" using assms(2) by (auto simp: t_def Steps_def)
  then have "\<bar>t / bw\<bar> \<le> \<bar>180 / bw\<bar>" using assms(1) by (simp add: divide_right_mono)
  then have "(t / bw)\<^sup>2 \<le> (180 / bw)\<^sup>2" by (simp only: abs_le_square_iff)
  then have "12 * (t / bw) * (t / bw) \<le> 12 * (180 / bw)\<^sup>2" by (simp add: power2_eq_square)
  then show ?thesis unfolding sector_at_def Let_def t_def [symmetric] by auto
qed

section \<open>Properties\<close>

text \<open>Resampling an MSI table with finite angles and values never indexes out of range: it gives one attenuation
  per degree, each between 0 and the spread of the values.\<close>

theorem resample_total:
  assumes "raw \<noteq> []" "raw = map (\<lambda>(a, v). (Fin a, Fin v)) pts" "\<forall>(a, v) \<in> set pts. v \<le> M"
  shows "\<exists>p. resample raw = Some (Inr p) \<and> length p = Steps \<and> (\<forall>x \<in> set p. 0 \<le> x \<and> x \<le> M - best_of (map snd pts))"
proof -
  let ?vs = "map snd pts"
  let ?ss = "sort_samples (zip (map (norm_deg \<circ> fst) raw) ?vs)"
  have vs: "those (map (finite_val \<circ> snd) raw) = Some ?vs"
    unfolding those_map_Some assms(2) by (auto simp: case_prod_beta)
  have zipped: "s \<in> set (zip (map (norm_deg \<circ> fst) raw) ?vs) \<Longrightarrow>
      \<exists>(a, v) \<in> set pts. fst s = norm_deg (Fin a) \<and> snd s = v" for s
    unfolding assms(2) by (auto simp: zip_map_map zip_same_conv_map case_prod_beta) (metis fst_conv snd_conv)
  have row: "finite_ang s \<and> 0 \<le> ang s \<and> ang s < 360 \<and> best_of ?vs \<le> snd s \<and> snd s \<le> M" if "s \<in> set ?ss" for s
  proof -
    from that obtain a v where av: "(a, v) \<in> set pts" "fst s = norm_deg (Fin a)" "snd s = v"
      using zipped [of s] by (fastforce simp: sort_samples_set)
    obtain b where b: "norm_deg (Fin a) = Fin b" "0 \<le> b" "b < 360" using norm_deg_range by blast
    have "s = (Fin b, v)" using av b by (cases s) simp
    with b have "finite_ang s" "0 \<le> ang s" "ang s < 360" by (simp_all add: finite_ang_def)
    moreover have "v \<in> set ?vs" using av(1) by force
    ultimately show ?thesis using av assms(3) best_of_le [of v ?vs] by auto
  qed
  have sorted: "sorted_wrt (\<lambda>a b. ang a \<le> ang b) ?ss"
    by (rule sort_samples_sorted) (use row in \<open>auto simp: sort_samples_set\<close>)
  have ne: "?ss \<noteq> []" using assms(1,2) sort_samples_set(2) [of "zip (map (norm_deg \<circ> fst) raw) ?vs"] by auto
  have "\<forall>d < Steps. \<exists>v. sample_at ?ss d = Some v \<and> best_of ?vs \<le> v \<and> v \<le> M"
    using sample_at_between [OF ne _ sorted, of "best_of ?vs" M] row by (auto simp: Steps_def)
  then obtain g where g: "\<And>d. d < Steps \<Longrightarrow> sample_at ?ss d = Some (g d) \<and> best_of ?vs \<le> g d \<and> g d \<le> M" by metis
  then have "those (map (sample_at ?ss) [0..<Steps]) = Some (map g [0..<Steps])"
    unfolding those_map_Some by simp
  then have "resample raw = Some (Inr (map (\<lambda>v. v - best_of ?vs) (map g [0..<Steps])))"
    using vs by (simp add: resample_def Let_def)
  with g show ?thesis by auto
qed

lemma resample_total_witness:
  "\<exists>p. resample [(Fin 350, Fin 3), (Fin (- 5), Fin 7)] = Some (Inr p) \<and> length p = Steps"
proof -
  have "\<exists>p. resample [(Fin 350, Fin 3), (Fin (- 5), Fin 7)] = Some (Inr p) \<and> length p = Steps \<and> (\<forall>x \<in> set p. 0 \<le> x \<and> x \<le> 7 - best_of (map snd [(350::real, 3), (- 5, 7)]))"
    by (rule resample_total [where pts = "[(350, 3), (- 5, 7)]"]) auto
  then show ?thesis by blast
qed

text \<open>The attenuation at a finite offset lies between the least and the largest value of the pattern whenever it is
  returned; it is returned for every offset that is not negative, but a tiny negative offset is rounded up to 360 degrees
  and reads past the end of the pattern, a panic.\<close>

theorem pattern_att_range:
  assumes "length p = Steps" "\<forall>x \<in> set p. m \<le> x \<and> x \<le> M"
  shows "(\<forall>a. pattern_att p (Fin r) = Some a \<longrightarrow> m \<le> a \<and> a \<le> M) \<and> (0 \<le> r \<longrightarrow> pattern_att p (Fin r) \<noteq> None)
    \<and> pattern_att p (Fin (- (1 / 2 ^ 50))) = None"
proof (intro conjI allI impI)
  fix a assume a: "pattern_att p (Fin r) = Some a"
  let ?d = "wrap_deg r" and ?i = "nat \<lfloor>wrap_deg r\<rfloor>"
  from a assms(1) have i: "?i < length p" and v: "a = p ! ?i * (1 - (?d - of_nat ?i)) + p ! ((?i + 1) mod Steps) * (?d - of_nat ?i)"
    by (auto simp: pattern_att_def is_nan_def Let_def split: if_splits)
  have "0 \<le> ?d" by (rule wrap_deg_nonneg)
  then have f: "0 \<le> ?d - of_nat ?i" "?d - of_nat ?i \<le> 1" by linarith+
  have "p ! ?i \<in> set p" "p ! ((?i + 1) mod Steps) \<in> set p"
    using i assms(1) by (auto simp: Steps_def)
  then have "m \<le> p ! ?i" "p ! ?i \<le> M" "m \<le> p ! ((?i + 1) mod Steps)" "p ! ((?i + 1) mod Steps) \<le> M"
    using assms(2) by blast+
  note ends = this
  show "m \<le> a" unfolding v by (rule convex_between(1) [OF f ends(1,2,3,4)])
  show "a \<le> M" unfolding v by (rule convex_between(2) [OF f ends(1,2,3,4)])
next
  assume "0 \<le> r"
  then have r: "0 \<le> r_mod r 360" "r_mod r 360 < 360" by (simp_all add: r_mod_range)
  then have "nat \<lfloor>r_mod r 360\<rfloor> < 360" by linarith
  with r assms(1) show "pattern_att p (Fin r) \<noteq> None"
    by (simp add: pattern_att_def is_nan_def wrap_deg_def Let_def Steps_def)
next
  show "pattern_att p (Fin (- (1 / 2 ^ 50))) = None"
    using assms(1) unfolding pattern_att_def f64.case wrap_deg_tiny by (simp add: Let_def is_nan_def Steps_def)
qed

lemma pattern_att_range_witness:
  "pattern_att (replicate Steps 3) (Fin 90) \<noteq> None \<and> pattern_att (replicate Steps 3) (Fin (- (1 / 2 ^ 50))) = None"
proof -
  have "length (replicate Steps (3::real)) = Steps" "\<forall>x \<in> set (replicate Steps 3). 3 \<le> x \<and> x \<le> (3::real)" by auto
  from pattern_att_range [OF this, of 90] show ?thesis by simp
qed

text \<open>SectorParams recovers the beam width and the front-to-back ratio of a synthetic sector, rounded to a
  thousandth, when the pattern falls below its floor after at least one degree; a floor the parabola never reaches
  is read as the attenuation at the back.\<close>

theorem SectorParams_Sector:
  assumes "0 < bw" "bw < 360" "12 / bw\<^sup>2 < fb"
  shows "SectorParams (Sector bw fb) = (round1000 bw, round1000 (min fb (12 * (180 / bw)\<^sup>2)))"
proof -
  let ?F = "min (12 * (180 / bw)\<^sup>2) fb"
  have fb: "0 < fb" using assms by (smt (verit) divide_nonneg_nonneg zero_le_power2)
  then have S: "Sector bw fb = map (sector_at bw fb) [0..<Steps]" using assms by (simp add: Sector_def)
  have at: "sector_at bw fb t = min (12 * (real t / bw)\<^sup>2) fb" if "t \<le> 180" for t
    using that by (simp add: sector_at_def Let_def power2_eq_square mult.assoc)
  have nth: "Sector bw fb ! t = min (12 * (real t / bw)\<^sup>2) fb" if "t \<le> 180" for t
    using that by (simp add: S Steps_def at)
  have front: "Front (Sector bw fb) = ?F"
  proof (rule antisym)
    have "sector_at bw fb i \<le> ?F" if "i < Steps" for i
      using sector_at_le_back [of bw i fb] that assms(1) by simp
    then show "Front (Sector bw fb) \<le> ?F" unfolding S using fb assms(1) by (intro Front_le) auto
    have "sector_at bw fb 180 \<in> set (Sector bw fb)" unfolding S by (simp add: Steps_def)
    then show "?F \<le> Front (Sector bw fb)" using Front_ge at [of 180] by fastforce
  qed
  have scan: "sector_scan (Sector bw fb) ?F t = (round1000 bw, round1000 ?F)" if "1 \<le> t" "t \<le> 180" for t
    using that
  proof (induction t)
    case (Suc t)
    show ?case
    proof (cases "Sector bw fb ! Suc t < ?F")
      case True
      then have v: "Sector bw fb ! Suc t = 12 * (real (Suc t) / bw)\<^sup>2" using Suc.prems nth [of "Suc t"] by (simp split: if_splits add: min_def)
      have p: "0 < 12 * (real (Suc t) / bw)\<^sup>2" using assms(1) by simp
      have "12 / (12 * (real (Suc t) / bw)\<^sup>2) = (bw / real (Suc t))\<^sup>2" by (simp add: power_divide)
      then have "real (Suc t) * sqrt (12 / Sector bw fb ! Suc t) = bw" using assms(1) by (simp add: v real_sqrt_abs)
      with True p v show ?thesis by (simp del: of_nat_Suc)
    next
      case False
      have "12 * (real 1 / bw)\<^sup>2 < 12 * (180 / bw)\<^sup>2" using assms(1) by (simp add: power_divide divide_strict_right_mono)
      then have "Sector bw fb ! 1 < ?F" using nth [of 1] assms(3) by (auto simp: power_divide min_def)
      with False have "1 \<le> t" using Suc.prems by (cases t) auto
      with Suc have "sector_scan (Sector bw fb) ?F t = (round1000 bw, round1000 ?F)" by simp
      then show ?thesis unfolding sector_scan.simps using False by (simp only: False simp_thms if_False)
    qed
  qed simp
  have "0 < 12 * (180 / bw)\<^sup>2" using assms(1) by simp
  then have "\<not> (length (Sector bw fb) \<noteq> Steps \<or> ?F \<le> 0)" using fb by (simp add: S not_le del: power_divide)
  then have "SectorParams (Sector bw fb) = (round1000 bw, round1000 ?F)"
    unfolding SectorParams_def front Let_def using scan [of 180] by simp
  then show ?thesis by (simp add: min.commute)
qed

lemma SectorParams_Sector_witness: "SectorParams (Sector 65 25) = (round1000 65, round1000 25)"
proof -
  have "SectorParams (Sector 65 25) = (round1000 65, round1000 (min 25 (12 * (180 / 65)\<^sup>2)))"
    by (rule SectorParams_Sector) (simp_all add: power2_eq_square)
  then show ?thesis by (simp add: power2_eq_square)
qed

text \<open>The worker of a panic: a table of a finite angle before a NaN.\<close>

lemma sample_at_nan: "sample_at [(Fin 10, v), (NaN, w)] 10 = None"
  by (simp add: sample_at_def Let_def search.simps f_le_def)

lemma resample_nan: "resample [(Fin 10, Fin v), (NaN, Fin w)] = None"
proof -
  have s: "sort_samples (zip (map (norm_deg \<circ> fst) [(Fin 10, Fin v), (NaN, Fin w)]) [v, w]) = [(Fin 10, v), (NaN, w)]"
    by (simp add: sort_samples_def norm_deg_def r_mod_def trunc_def)
  have "those (map (sample_at [(Fin 10, v), (NaN, w)]) ds) = None" if "10 \<in> set ds" for ds
    using that by (induction ds) (auto simp: sample_at_nan split: option.splits)
  then have "those (map (sample_at [(Fin 10, v), (NaN, w)]) [0..<Steps]) = None" by (simp add: Steps_def)
  with s show ?thesis by (simp add: resample_def Let_def)
qed

definition nan_file :: string where
  "nan_file = ''GAIN 10 dBi'' @ [CHR 0x0A] @ ''HORIZONTAL 2'' @ [CHR 0x0A] @ ''10 3'' @ [CHR 0x0A] @ ''nan 0''"

lemma nan_values: "ParseFloat ''10'' = Some (Fin 10)" "ParseFloat ''3'' = Some (Fin 3)" "ParseFloat ''0'' = Some (Fin 0)"
    "ParseFloat ''nan'' = Some NaN" "ParseInt ''2'' = Some 2" "lower ''dBi'' = ''dbi''"
  by (code_simp, code_simp, code_simp, code_simp, code_simp, code_simp)

text \<open>An MSI file of one finite angle and the angle nan makes ParseMSI panic.\<close>

theorem ParseMSI_panics: "ParseMSI nan_file = None"
proof -
  have lines: "split_on (CHR 0x0A) (take MaxFile nan_file) = [''GAIN 10 dBi'', ''HORIZONTAL 2'', ''10 3'', ''nan 0'']"
    by (simp add: nan_file_def MaxFile_def split_on_def)
  have "msi_scan [''GAIN 10 dBi'', ''HORIZONTAL 2'', ''10 3'', ''nan 0''] msi_start =
      Inr (msi_start\<lparr>ms_gain := Some (Fin 10), ms_unit := ''dbi'', ms_section := ''HORIZONTAL'', ms_h := [(Fin 10, Fin 3), (NaN, Fin 0)]\<rparr>)"
    by (simp add: nan_values msi_start_def msi_line_def msi_header_def msi_pair_def MaxLine_def ws_fields_def trim_space_def
        upper_def to_upper_def is_space_def)
  with lines show ?thesis by (simp add: ParseMSI_def msi_finish_def msi_start_def resample_nan)
qed

end
