(* ===== verification/Itm_Terrain.thy ===== *)
theory Itm_Terrain
  imports Float64 Complex_Main
begin

text \<open>
  The terrain part of the Irregular Terrain Model, src/internal/itm: horizons, the least-squares line
  and the terrain irregularity of a packed profile, over the reals. A packed profile holds the number
  of intervals, the step and then the elevations; \<open>pfl_ok\<close> says what PointToPoint guarantees of it.
  Under \<open>pfl_ok\<close> every index the functions use is inside the profile, see \<open>fit_range_ok\<close>
  and \<open>terrain_position\<close>.
\<close>

section \<open>Profiles\<close>

definition fdim :: "real \<Rightarrow> real \<Rightarrow> real" where
  "fdim x y = (if y < x then x - y else 0)"

abbreviation elev_at :: "real list \<Rightarrow> nat \<Rightarrow> real" where
  "elev_at pfl i \<equiv> pfl ! (i + 2)"

definition intervals :: "real list \<Rightarrow> nat" where
  "intervals pfl = nat (trunc (pfl ! 0))"

definition pfl_ok :: "real list \<Rightarrow> bool" where
  "pfl_ok pfl \<longleftrightarrow> 4 \<le> length pfl \<and> pfl ! 0 = real (length pfl - 3) \<and> 0 < pfl ! 1"

definition pack :: "real list \<Rightarrow> real \<Rightarrow> real list" where
  "pack elev step = real (length elev - 1) # step # elev"

section \<open>findHorizons\<close>

record horizons =
  theta_tx :: real
  theta_rx :: real
  hzn_tx :: real
  hzn_rx :: real

text \<open>The elevation angle of a point at distance d, from a terminal h metres below it.\<close>

definition horizon_angle :: "real \<Rightarrow> real \<Rightarrow> real \<Rightarrow> real" where
  "horizon_angle a_e h d = h / d - d / (2 * a_e)"

definition horizon_step :: "real list \<Rightarrow> real \<Rightarrow> real \<Rightarrow> real \<Rightarrow> nat \<Rightarrow> real \<times> real \<times> horizons \<Rightarrow> real \<times> real \<times> horizons" where
  "horizon_step pfl a_e z_tx z_rx i = (\<lambda>(d_tx, d_rx, hz).
     let d_tx' = d_tx + pfl ! 1; d_rx' = d_rx - pfl ! 1;
         th_tx = horizon_angle a_e (elev_at pfl i - z_tx) d_tx';
         th_rx = horizon_angle a_e (- (z_rx - elev_at pfl i)) d_rx';
         hz1 = (if theta_tx hz < th_tx then hz\<lparr>theta_tx := th_tx, hzn_tx := d_tx'\<rparr> else hz)
     in (d_tx', d_rx', if theta_rx hz1 < th_rx then hz1\<lparr>theta_rx := th_rx, hzn_rx := d_rx'\<rparr> else hz1))"

definition findHorizons :: "real list \<Rightarrow> real \<Rightarrow> real \<Rightarrow> real \<Rightarrow> horizons" where
  "findHorizons pfl a_e h_tx h_rx =
     (let np = intervals pfl; d = pfl ! 0 * pfl ! 1;
          z_tx = elev_at pfl 0 + h_tx; z_rx = elev_at pfl np + h_rx;
          start = \<lparr>theta_tx = horizon_angle a_e (z_rx - z_tx) d, theta_rx = horizon_angle a_e (- (z_rx - z_tx)) d,
            hzn_tx = d, hzn_rx = d\<rparr>
      in snd (snd (fold (horizon_step pfl a_e z_tx z_rx) [1..<np] (0, d, start))))"

section \<open>linearLeastSquaresFit\<close>

text \<open>The samples the line is fitted to: clipped to the profile, and at least one interval.\<close>

definition fit_range :: "real list \<Rightarrow> real \<Rightarrow> real \<Rightarrow> int \<times> int" where
  "fit_range pfl d_start d_end =
     (let np = int (intervals pfl);
          i_start = trunc (fdim (d_start / pfl ! 1) 0);
          i_end = np - trunc (fdim (real_of_int np) (d_end / pfl ! 1))
      in if i_end \<le> i_start
         then (trunc (fdim (real_of_int i_start) 1), np - trunc (fdim (real_of_int np) (real_of_int i_end + 1)))
         else (i_start, i_end))"

definition fit_add :: "real list \<Rightarrow> nat \<Rightarrow> nat \<times> real \<times> real \<times> real \<Rightarrow> nat \<times> real \<times> real \<times> real" where
  "fit_add pfl k = (\<lambda>(i, mid, sum, scaled).
     (i + 1, mid + 1, sum + elev_at pfl (i + 1), scaled + elev_at pfl (i + 1) * (mid + 1)))"

definition linearLeastSquaresFit :: "real list \<Rightarrow> real \<Rightarrow> real \<Rightarrow> real \<times> real" where
  "linearLeastSquaresFit pfl d_start d_end =
     (let (s, e) = fit_range pfl d_start d_end; i_start = nat s; i_end = nat e; np = intervals pfl;
          x_length = real_of_int (e - s);
          mid0 = - (1/2) * x_length; mid_end = real i_end + mid0;
          sum0 = 1/2 * (elev_at pfl i_start + elev_at pfl i_end);
          scaled0 = 1/2 * (elev_at pfl i_start - elev_at pfl i_end) * mid0;
          (_, _, sum, scaled) = fold (fit_add pfl) [2..<nat (e - s) + 1] (i_start, mid0, sum0, scaled0);
          mean = sum / x_length; slope = scaled * 12 / ((x_length * x_length + 2) * x_length)
      in (mean - slope * mid_end, mean + slope * (real np - mid_end)))"

section \<open>computeDeltaH\<close>

text \<open>The loop that moves to the interval of the next sample.\<close>

function advance :: "nat \<Rightarrow> real \<Rightarrow> nat \<Rightarrow> real \<times> nat" where
  "advance np x i = (if 0 < x \<and> i + 1 < np then advance np (x - 1) (i + 1) else (x, i))"
  by pat_completeness auto
termination by (relation "measure (\<lambda>(np, x, i). np - i)") auto

declare advance.simps [simp del]

fun delta_samples :: "real list \<Rightarrow> nat \<Rightarrow> real \<Rightarrow> nat \<Rightarrow> real \<Rightarrow> nat \<Rightarrow> real list" where
  "delta_samples pfl np dx 0 x i = []"
| "delta_samples pfl np dx (Suc n) x i =
     (let (x', i') = advance np x i
      in (pfl ! (i' + 3) + (pfl ! (i' + 3) - pfl ! (i' + 2)) * x') # delta_samples pfl np dx n (x' + dx) i')"

definition decile :: "real \<Rightarrow> real \<Rightarrow> nat" where
  "decile x_start x_end = min (max 4 (nat (trunc (1/10 * (x_end - x_start + 8))))) 25"

definition deviations :: "real list \<Rightarrow> real list" where
  "deviations ys = (let n = length ys; s = pack ys 1;
       (y1, y2) = linearLeastSquaresFit s 0 (real (n - 1)); slope = (y2 - y1) / real (n - 1)
     in map (\<lambda>j. ys ! j - (y1 + real j * slope)) [0..<n])"

definition computeDeltaH :: "real list \<Rightarrow> real \<Rightarrow> real \<Rightarrow> real" where
  "computeDeltaH pfl d_start d_end =
     (let np = intervals pfl; x_start = d_start / pfl ! 1; x_end = d_end / pfl ! 1 in
      if x_end - x_start < 2 then 0
      else let p10 = decile x_start x_end; n = 10 * p10 - 5; p90 = n - p10;
               dx = (x_end - x_start) / real (n - 1); i = nat (trunc x_start);
               ys = delta_samples pfl np dx n (x_start - real (i + 1)) i;
               diffs = rev (sort (deviations ys))
           in (diffs ! (p10 - 1) - diffs ! p90) / (1 - 8/10 * exp (- (d_end - d_start) / 50000)))"

section \<open>quickPfl\<close>

record path_params =
  pp_theta :: "real \<times> real"
  pp_hzn :: "real \<times> real"
  pp_he :: "real \<times> real"
  pp_delta :: real
  pp_dist :: real
  pp_takeoff :: "real \<times> real"

text \<open>The horizon distance of a terminal of height he over smooth earth, shortened by the terrain.\<close>

definition smooth_horizon :: "real \<Rightarrow> real \<Rightarrow> real \<Rightarrow> real" where
  "smooth_horizon a_e delta he = sqrt (2 * he * a_e) * exp (- (7/100) * sqrt (delta / max he 5))"

definition smooth_angle :: "real \<Rightarrow> real \<Rightarrow> real \<Rightarrow> real \<Rightarrow> real" where
  "smooth_angle a_e delta he dh = (let q = sqrt (2 * he * a_e) in (65/100 * delta * (q / dh - 1) - 2 * he) / q)"

definition quickPfl :: "real list \<Rightarrow> real \<Rightarrow> real \<Rightarrow> real \<Rightarrow> path_params" where
  "quickPfl pfl gamma_e h_tx h_rx =
     (let d = pfl ! 0 * pfl ! 1; np = intervals pfl; a_e = 1 / gamma_e;
          hz = findHorizons pfl a_e h_tx h_rx;
          d_start = min (15 * h_tx) (1/10 * hzn_tx hz); d_end = d - min (15 * h_rx) (1/10 * hzn_rx hz);
          delta = computeDeltaH pfl d_start d_end;
          takeoff = (theta_tx hz, theta_rx hz)
      in if 3/2 * d < hzn_tx hz + hzn_rx hz
         then let (fit_tx, fit_rx) = linearLeastSquaresFit pfl d_start d_end;
                  he0 = h_tx + fdim (elev_at pfl 0) fit_tx; he1 = h_rx + fdim (elev_at pfl np) fit_rx;
                  dh0 = smooth_horizon a_e delta he0; dh1 = smooth_horizon a_e delta he1;
                  q = (d / (dh0 + dh1))\<^sup>2;
                  (he0', he1') = (if dh0 + dh1 \<le> d then (he0 * q, he1 * q) else (he0, he1));
                  (dh0', dh1') = (if dh0 + dh1 \<le> d then (smooth_horizon a_e delta he0', smooth_horizon a_e delta he1') else (dh0, dh1))
              in \<lparr>pp_theta = (smooth_angle a_e delta he0' dh0', smooth_angle a_e delta he1' dh1'), pp_hzn = (dh0', dh1'),
                  pp_he = (he0', he1'), pp_delta = delta, pp_dist = d, pp_takeoff = takeoff\<rparr>
         else let fit_tx = fst (linearLeastSquaresFit pfl d_start (9/10 * hzn_tx hz));
                  fit_rx = snd (linearLeastSquaresFit pfl (d - 9/10 * hzn_rx hz) d_end)
              in \<lparr>pp_theta = takeoff, pp_hzn = (hzn_tx hz, hzn_rx hz),
                  pp_he = (h_tx + fdim (elev_at pfl 0) fit_tx, h_rx + fdim (elev_at pfl np) fit_rx),
                  pp_delta = delta, pp_dist = d, pp_takeoff = takeoff\<rparr>)"

section \<open>Horizons\<close>

lemma pfl_okD:
  assumes "pfl_ok pfl"
  shows "1 \<le> intervals pfl" "pfl ! 0 = real (intervals pfl)" "length pfl = intervals pfl + 3" "0 < pfl ! 1"
  using assms by (auto simp: pfl_ok_def intervals_def trunc_nonneg)

lemma pack_ok: "2 \<le> length elev \<Longrightarrow> 0 < step \<Longrightarrow> pfl_ok (pack elev step)"
  by (simp add: pfl_ok_def pack_def)

lemma pack_intervals: "intervals (pack elev step) = length elev - 1"
  by (simp add: intervals_def pack_def trunc_nonneg)

lemma pack_elev [simp]: "pack elev step ! (i + 2) = elev ! i" "pack elev step ! Suc (Suc i) = elev ! i" "pack elev step ! Suc 0 = step"
  by (simp_all add: pack_def)

text \<open>The angle at which each terminal sees sample i; the last one it sees is the antenna of the other.\<close>

definition sight_tx :: "real list \<Rightarrow> real \<Rightarrow> real \<Rightarrow> real \<Rightarrow> nat \<Rightarrow> real" where
  "sight_tx pfl a_e h_tx h_rx i = (let z = elev_at pfl 0 + h_tx; d = real i * pfl ! 1 in
     horizon_angle a_e ((if i = intervals pfl then elev_at pfl i + h_rx else elev_at pfl i) - z) d)"

definition sight_rx :: "real list \<Rightarrow> real \<Rightarrow> real \<Rightarrow> real \<Rightarrow> nat \<Rightarrow> real" where
  "sight_rx pfl a_e h_tx h_rx i = (let z = elev_at pfl (intervals pfl) + h_rx; d = real (intervals pfl - i) * pfl ! 1 in
     horizon_angle a_e (- (z - (if i = 0 then elev_at pfl 0 + h_tx else elev_at pfl i))) d)"

definition highest :: "(nat \<Rightarrow> real) \<Rightarrow> nat set \<Rightarrow> (nat \<Rightarrow> real) \<Rightarrow> real \<Rightarrow> real \<Rightarrow> bool" where
  "highest f I dst v d \<longleftrightarrow> (\<forall>i \<in> I. f i \<le> v) \<and> (\<exists>i \<in> I. v = f i \<and> d = dst i)"

lemma highest_single: "highest f {i} dst (f i) (dst i)"
  by (simp add: highest_def)

lemma highest_insert:
  "highest f I dst v d \<Longrightarrow> highest f (insert i I) dst (if v < f i then f i else v) (if v < f i then dst i else d)"
  by (fastforce simp: highest_def)

lemma horizon_step_eq:
  assumes "d_tx + pfl ! 1 = d1" "d_rx - pfl ! 1 = d2"
    "horizon_angle a_e (elev_at pfl i - z_tx) d1 = A" "horizon_angle a_e (- (z_rx - elev_at pfl i)) d2 = B"
  shows "horizon_step pfl a_e z_tx z_rx i (d_tx, d_rx, hz) = (d1, d2,
    \<lparr>theta_tx = if theta_tx hz < A then A else theta_tx hz, theta_rx = if theta_rx hz < B then B else theta_rx hz,
      hzn_tx = if theta_tx hz < A then d1 else hzn_tx hz, hzn_rx = if theta_rx hz < B then d2 else hzn_rx hz\<rparr>)"
  unfolding horizon_step_def Let_def prod.case assms by (cases hz) simp

lemma findHorizons_highest:
  assumes ok: "pfl_ok pfl"
  shows "highest (sight_tx pfl a_e h_tx h_rx) {1..intervals pfl} (\<lambda>i. real i * pfl ! 1)
           (theta_tx (findHorizons pfl a_e h_tx h_rx)) (hzn_tx (findHorizons pfl a_e h_tx h_rx))" (is ?tx)
    and "highest (sight_rx pfl a_e h_tx h_rx) {..<intervals pfl} (\<lambda>i. real (intervals pfl - i) * pfl ! 1)
           (theta_rx (findHorizons pfl a_e h_tx h_rx)) (hzn_rx (findHorizons pfl a_e h_tx h_rx))" (is ?rx)
proof -
  let ?n = "intervals pfl" and ?xi = "pfl ! 1"
  let ?z_tx = "elev_at pfl 0 + h_tx" and ?z_rx = "elev_at pfl ?n + h_rx"
  let ?d = "pfl ! 0 * ?xi"
  let ?start = "\<lparr>theta_tx = horizon_angle a_e (?z_rx - ?z_tx) ?d, theta_rx = horizon_angle a_e (- (?z_rx - ?z_tx)) ?d, hzn_tx = ?d, hzn_rx = ?d\<rparr>"
  note n = pfl_okD [OF ok]
  have step: "\<exists>hz. fold (horizon_step pfl a_e ?z_tx ?z_rx) [1..<m] (0, ?d, ?start) = (real (m - 1) * ?xi, ?d - real (m - 1) * ?xi, hz)
      \<and> highest (sight_tx pfl a_e h_tx h_rx) (insert ?n {1..<m}) (\<lambda>i. real i * ?xi) (theta_tx hz) (hzn_tx hz)
      \<and> highest (sight_rx pfl a_e h_tx h_rx) (insert 0 {1..<m}) (\<lambda>i. real (?n - i) * ?xi) (theta_rx hz) (hzn_rx hz)"
    if "1 \<le> m" "m \<le> ?n" for m
    using that
  proof (induction m rule: nat_induct_at_least)
    case base
    have "highest (sight_tx pfl a_e h_tx h_rx) {?n} (\<lambda>i. real i * ?xi) (theta_tx ?start) (hzn_tx ?start)"
      "highest (sight_rx pfl a_e h_tx h_rx) {0} (\<lambda>i. real (?n - i) * ?xi) (theta_rx ?start) (hzn_rx ?start)"
      using n by (simp_all add: highest_def sight_tx_def sight_rx_def Let_def)
    then show ?case by (intro exI [of _ ?start]) simp
  next
    case (Suc m)
    then obtain hz where hz: "fold (horizon_step pfl a_e ?z_tx ?z_rx) [1..<m] (0, ?d, ?start) = (real (m - 1) * ?xi, ?d - real (m - 1) * ?xi, hz)"
      "highest (sight_tx pfl a_e h_tx h_rx) (insert ?n {1..<m}) (\<lambda>i. real i * ?xi) (theta_tx hz) (hzn_tx hz)"
      "highest (sight_rx pfl a_e h_tx h_rx) (insert 0 {1..<m}) (\<lambda>i. real (?n - i) * ?xi) (theta_rx hz) (hzn_rx hz)"
      by auto
    have dist: "real (m - 1) * ?xi + ?xi = real m * ?xi" "?d - real (m - 1) * ?xi - ?xi = real (?n - m) * ?xi"
      "?d - real m * ?xi = real (?n - m) * ?xi"
      using Suc n by (simp_all add: of_nat_diff algebra_simps)
    have sight: "horizon_angle a_e (elev_at pfl m - ?z_tx) (real m * ?xi) = sight_tx pfl a_e h_tx h_rx m"
      "horizon_angle a_e (- (?z_rx - elev_at pfl m)) (real (?n - m) * ?xi) = sight_rx pfl a_e h_tx h_rx m"
      using Suc by (simp_all add: sight_tx_def sight_rx_def Let_def)
    have sets: "insert ?n {1..<Suc m} = insert m (insert ?n {1..<m})" "insert 0 {1..<Suc m} = insert m (insert 0 {1..<m})"
      using Suc by auto
    have "[1..<Suc m] = [1..<m] @ [m]" using Suc by simp
    then have run: "fold (horizon_step pfl a_e ?z_tx ?z_rx) [1..<Suc m] (0, ?d, ?start)
        = horizon_step pfl a_e ?z_tx ?z_rx m (real (m - 1) * ?xi, ?d - real (m - 1) * ?xi, hz)"
      by (simp only: fold_append hz(1) o_apply fold_simps id_apply)
    show ?case
      unfolding sets run horizon_step_eq [OF dist(1,2) sight] diff_Suc_1 dist(3)
      using highest_insert [OF hz(2), of m] highest_insert [OF hz(3), of m] by simp
  qed
  from step [of ?n] n(1) obtain hz where "findHorizons pfl a_e h_tx h_rx = hz"
    "highest (sight_tx pfl a_e h_tx h_rx) (insert ?n {1..<?n}) (\<lambda>i. real i * ?xi) (theta_tx hz) (hzn_tx hz)"
    "highest (sight_rx pfl a_e h_tx h_rx) (insert 0 {1..<?n}) (\<lambda>i. real (?n - i) * ?xi) (theta_rx hz) (hzn_rx hz)"
    by (auto simp: findHorizons_def Let_def)
  moreover have "insert ?n {1..<?n} = {1..?n}" "insert 0 {1..<?n} = {..<?n}" using n(1) by auto
  ultimately show ?tx ?rx by simp_all
qed

lemma horizons_within:
  fixes a_e h_tx h_rx :: real
  assumes "pfl_ok pfl"
  defines "hz \<equiv> findHorizons pfl a_e h_tx h_rx"
  shows "0 < hzn_tx hz" "hzn_tx hz \<le> pfl ! 0 * pfl ! 1" "0 < hzn_rx hz" "hzn_rx hz \<le> pfl ! 0 * pfl ! 1"
proof -
  note n = pfl_okD [OF assms(1)] and h = findHorizons_highest [OF assms(1), of a_e h_tx h_rx, folded hz_def]
  show "0 < hzn_tx hz" "hzn_tx hz \<le> pfl ! 0 * pfl ! 1" using h(1) n by (auto simp: highest_def)
  show "0 < hzn_rx hz" "hzn_rx hz \<le> pfl ! 0 * pfl ! 1" using h(2) n by (auto simp: highest_def)
qed

section \<open>The least-squares line\<close>

lemma trunc_fdim_int: "trunc (fdim (real_of_int a) (real_of_int b)) = (if b < a then a - b else 0)"
  by (simp add: fdim_def trunc_nonneg flip: of_int_diff)

lemma fit_range_ok:
  assumes ok: "pfl_ok pfl" and d: "0 \<le> d_start" "d_start \<le> d_end" "d_start \<le> pfl ! 0 * pfl ! 1" and r: "fit_range pfl d_start d_end = (s, e)"
  shows "0 \<le> s" "s < e" "e \<le> int (intervals pfl)"
proof -
  let ?n = "intervals pfl" and ?a = "d_start / pfl ! 1" and ?b = "d_end / pfl ! 1"
  note n = pfl_okD [OF ok]
  have ab: "0 \<le> ?a" "?a \<le> ?b" "?a \<le> real ?n" using d n by (simp_all add: divide_right_mono pos_divide_le_eq)
  let ?s = "trunc (fdim ?a 0)" and ?e = "int ?n - trunc (fdim (real_of_int (int ?n)) ?b)"
  have s: "?s = \<lfloor>?a\<rfloor>" using ab(1) by (auto simp: fdim_def trunc_nonneg)
  have s0: "0 \<le> ?s" "?s \<le> int ?n" using ab unfolding s by linarith+
  have "\<lfloor>real ?n - ?b\<rfloor> = int ?n - \<lceil>?b\<rceil>" by linarith
  then have e: "?e = (if ?b < real ?n then \<lceil>?b\<rceil> else int ?n)" by (auto simp: fdim_def trunc_nonneg)
  have e0: "?s \<le> ?e" "?e \<le> int ?n" using ab s0(2) unfolding s e by (cases "?b < real ?n"; simp; linarith)+
  have e': "int ?n - trunc (fdim (real_of_int (int ?n)) (real_of_int ?e + 1)) = (if ?e + 1 < int ?n then ?e + 1 else int ?n)"
    using trunc_fdim_int [of "int ?n" "?e + 1"] by simp
  have s': "trunc (fdim (real_of_int ?s) 1) = (if 1 < ?s then ?s - 1 else 0)"
    using trunc_fdim_int [of ?s 1] by simp
  have "(s, e) = (if ?e \<le> ?s then (if 1 < ?s then ?s - 1 else 0, if ?e + 1 < int ?n then ?e + 1 else int ?n) else (?s, ?e))"
    using r unfolding fit_range_def Let_def e' s' by simp
  then show "0 \<le> s" "s < e" "e \<le> int ?n"
    using s0 e0 n(1) by (simp_all split: if_splits)
qed

text \<open>Over a straight stretch the sums of the loop have a closed form.\<close>

lemma fit_sums:
  assumes "\<And>j. 1 \<le> j \<Longrightarrow> j \<le> k \<Longrightarrow> elev_at pfl (i + j) = c + b * (m + real j)"
  shows "fold (fit_add pfl) [2..<k + 2] (i, m, su, sc) = (i + k, m + real k,
     su + (real k * c + b * (real k * m + real k * (real k + 1) / 2)),
     sc + (c * (real k * m + real k * (real k + 1) / 2)
       + b * (real k * m\<^sup>2 + m * real k * (real k + 1) + real k * (real k + 1) * (2 * real k + 1) / 6)))"
  using assms
proof (induction k)
  case (Suc k)
  then have e: "elev_at pfl (i + k + 1) = c + b * (m + real k + 1)" using Suc.prems [of "Suc k"] by (simp add: algebra_simps)
  have upt: "[2..<Suc k + 2] = [2..<k + 2] @ [k + 2]" using upt_Suc_append [of 2 "k + 2"] by simp
  have ih: "fold (fit_add pfl) [2..<k + 2] (i, m, su, sc) = (i + k, m + real k,
     su + (real k * c + b * (real k * m + real k * (real k + 1) / 2)),
     sc + (c * (real k * m + real k * (real k + 1) / 2)
       + b * (real k * m\<^sup>2 + m * real k * (real k + 1) + real k * (real k + 1) * (2 * real k + 1) / 6)))"
    using Suc by simp
  have last: "fold (fit_add pfl) [2..<Suc k + 2] st = fit_add pfl (k + 2) (fold (fit_add pfl) [2..<k + 2] st)" for st
    by (simp only: upt fold_append o_apply fold_simps id_apply)
  show ?case
    unfolding last ih unfolding fit_add_def prod.case e by (simp add: power2_eq_square field_simps)
qed simp

definition straight :: "real list \<Rightarrow> real \<Rightarrow> real \<Rightarrow> bool" where
  "straight pfl a b \<longleftrightarrow> (\<forall>i \<le> intervals pfl. elev_at pfl i = a + b * real i)"

lemma fit_straight:
  assumes ok: "pfl_ok pfl" and d: "0 \<le> d_start" "d_start \<le> d_end" "d_start \<le> pfl ! 0 * pfl ! 1" and st: "straight pfl a b"
  shows "linearLeastSquaresFit pfl d_start d_end = (a, a + b * real (intervals pfl))"
proof -
  obtain s e where r: "fit_range pfl d_start d_end = (s, e)" by fastforce
  note b = fit_range_ok [OF ok d r]
  define i where "i = nat s"
  define n where "n = nat (e - s)"
  define m where "m = - (1/2) * real n"
  define c where "c = a + b * (real i - m)"
  have n: "1 \<le> n" "nat e = i + n" "real_of_int (e - s) = real n" "i + n \<le> intervals pfl"
    using b by (auto simp: n_def i_def)
  have y: "elev_at pfl (i + j) = c + b * (m + real j)" if "j \<le> n" for j
    using st that n(4) by (simp add: straight_def c_def algebra_simps)
  have y0: "elev_at pfl i = c + b * m" "elev_at pfl (i + n) = c + b * (m + real n)" using y [of 0] y [of n] by simp_all
  have fold: "fold (fit_add pfl) [2..<n + 1] (i, m, su, sc) = (i + (n - 1), m + real (n - 1),
     su + (real (n - 1) * c + b * (real (n - 1) * m + real (n - 1) * (real (n - 1) + 1) / 2)),
     sc + (c * (real (n - 1) * m + real (n - 1) * (real (n - 1) + 1) / 2)
       + b * (real (n - 1) * m\<^sup>2 + m * real (n - 1) * (real (n - 1) + 1) + real (n - 1) * (real (n - 1) + 1) * (2 * real (n - 1) + 1) / 6)))" for su sc
    using fit_sums [of "n - 1" pfl i c b m su sc] y n(1) by simp
  have k: "real (n - 1) = real n - 1" using n(1) by (simp add: of_nat_diff)
  have mean: "1/2 * (elev_at pfl i + elev_at pfl (i + n)) + (real (n - 1) * c + b * (real (n - 1) * m + real (n - 1) * (real (n - 1) + 1) / 2)) = real n * c"
    unfolding y0 k m_def by (simp add: field_simps)
  have slope: "1/2 * (elev_at pfl i - elev_at pfl (i + n)) * m + (c * (real (n - 1) * m + real (n - 1) * (real (n - 1) + 1) / 2)
       + b * (real (n - 1) * m\<^sup>2 + m * real (n - 1) * (real (n - 1) + 1) + real (n - 1) * (real (n - 1) + 1) * (2 * real (n - 1) + 1) / 6))
     = b * (real n * (real n * real n + 2)) / 12"
    unfolding y0 k m_def by (simp add: field_simps power2_eq_square)
  have pos: "0 < real n" "0 < real n * real n + 2" using n(1) by (simp_all add: add_pos_pos)
  have quot: "real n * c / real n = c" "b * (real n * (real n * real n + 2)) / 12 * 12 / ((real n * real n + 2) * real n) = b"
    using pos by simp_all
  have "linearLeastSquaresFit pfl d_start d_end = (c - b * (real (i + n) + m), c + b * (real (intervals pfl) - (real (i + n) + m)))"
    unfolding linearLeastSquaresFit_def Let_def r prod.case i_def [symmetric] n(2,3) n_def [symmetric] m_def [symmetric] fold mean slope quot ..
  then show ?thesis by (simp add: c_def m_def algebra_simps)
qed

section \<open>Terrain irregularity\<close>

lemma terrain_position:
  "advance np x i = (x', i') \<Longrightarrow> x' + real i' = x + real i \<and> i \<le> i' \<and> (i < np \<longrightarrow> i' < np) \<and> (x' \<le> 0 \<or> np \<le> i' + 1)"
proof (induction np x i rule: advance.induct)
  case (1 np x i)
  show ?case
  proof (cases "0 < x \<and> i + 1 < np")
    case True
    with 1 have "advance np (x - 1) (i + 1) = (x', i')" using advance.simps [of np x i] by simp
    with 1(1) True show ?thesis by fastforce
  next
    case False
    with 1(2) show ?thesis using advance.simps [of np x i] by auto
  qed
qed

lemma length_delta_samples [simp]: "length (delta_samples pfl np dx n x i) = n"
  by (induction n arbitrary: x i) (auto simp: Let_def split: prod.splits)

lemma delta_samples_straight:
  assumes "straight pfl a b" "i < intervals pfl"
  shows "delta_samples pfl (intervals pfl) dx n x i = map (\<lambda>j. a + b * (real i + 1 + x + real j * dx)) [0..<n]"
  using assms(2)
proof (induction n arbitrary: x i)
  case (Suc n)
  obtain x' i' where adv: "advance (intervals pfl) x i = (x', i')" by fastforce
  note pos = terrain_position [OF adv]
  then have i': "i' < intervals pfl" "x' = x + real i - real i'" using Suc.prems by auto
  have e: "pfl ! (i' + 3) = a + b * (real i' + 1)" "pfl ! (i' + 2) = a + b * real i'"
    using assms(1) i'(1) unfolding straight_def by (auto simp: eval_nat_numeral dest: spec [of _ "Suc i'"])
  then have y: "pfl ! (i' + 3) + (pfl ! (i' + 3) - pfl ! (i' + 2)) * x' = a + b * (real i + 1 + x)"
    unfolding e i'(2) by (simp add: algebra_simps)
  have "delta_samples pfl (intervals pfl) dx n (x' + dx) i' = map (\<lambda>j. a + b * (real i + 1 + x + real (Suc j) * dx)) [0..<n]"
    unfolding Suc.IH [OF i'(1), of "x' + dx"] unfolding i'(2) by (simp add: algebra_simps)
  moreover have "map (\<lambda>j. a + b * (real i + 1 + x + real j * dx)) [0..<Suc n]
      = (a + b * (real i + 1 + x)) # map (\<lambda>j. a + b * (real i + 1 + x + real (Suc j) * dx)) [0..<n]"
    by (simp only: map_upt_Suc) simp
  ultimately show ?case by (simp only: delta_samples.simps adv Let_def prod.case y)
qed simp

lemma deviations_straight:
  assumes "2 \<le> n"
  shows "deviations (map (\<lambda>j. A + B * real j) [0..<n]) = replicate n 0"
proof -
  let ?ys = "map (\<lambda>j. A + B * real j) [0..<n]"
  have ok: "pfl_ok (pack ?ys 1)" using assms by (simp add: pack_ok)
  have st: "straight (pack ?ys 1) A B" using assms by (auto simp: straight_def pack_intervals)
  have "pack ?ys 1 ! 0 * pack ?ys 1 ! 1 = real (n - 1)" by (simp add: pack_def)
  then have "linearLeastSquaresFit (pack ?ys 1) 0 (real (n - 1)) = (A, A + B * real (n - 1))"
    using fit_straight [OF ok _ _ _ st, of 0 "real (n - 1)"] by (simp add: pack_intervals)
  moreover have "B * real (n - 1) / real (n - 1) = B" using assms by simp
  ultimately have "deviations ?ys = map (\<lambda>j. ?ys ! j - (A + real j * B)) [0..<n]"
    by (simp add: deviations_def Let_def)
  also have "\<dots> = map (\<lambda>_. 0) [0..<n]" by (rule map_cong) (auto simp: algebra_simps)
  finally show ?thesis by (simp add: map_replicate_const)
qed

lemma length_deviations [simp]: "length (deviations ys) = length ys"
  by (simp add: deviations_def Let_def split: prod.splits)

lemma decile_bounds: "4 \<le> decile a b" "decile a b \<le> 25"
  by (simp_all add: decile_def)

lemma falling_nth:
  assumes "i \<le> j" "j < length (xs :: real list)"
  shows "rev (sort xs) ! j \<le> rev (sort xs) ! i"
  using assms by (simp add: rev_nth sorted_nth_mono)

lemma irregularity_scale: "d_start \<le> d_end \<Longrightarrow> 0 < 1 - 8/10 * exp (- (d_end - d_start) / 50000 :: real)"
proof -
  assume "d_start \<le> d_end"
  then have "exp (- (d_end - d_start) / 50000) \<le> (1::real)" by simp
  then show ?thesis by linarith
qed

lemma computeDeltaH_nonneg:
  assumes "d_start \<le> d_end"
  shows "0 \<le> computeDeltaH pfl d_start d_end"
proof -
  let ?p = "decile (d_start / pfl ! 1) (d_end / pfl ! 1)"
  have "?p - 1 \<le> 10 * ?p - 5 - ?p" "10 * ?p - 5 - ?p < 10 * ?p - 5" using decile_bounds(1) [of "d_start / pfl ! 1" "d_end / pfl ! 1"] by linarith+
  then have "rev (sort (deviations ys)) ! (10 * ?p - 5 - ?p) \<le> rev (sort (deviations ys)) ! (?p - 1)" if "length ys = 10 * ?p - 5" for ys
    using that by (intro falling_nth) simp_all
  then show ?thesis
    using irregularity_scale [OF assms] by (simp add: computeDeltaH_def Let_def)
qed

lemma computeDeltaH_straight:
  assumes ok: "pfl_ok pfl" and d: "0 \<le> d_start" "d_end \<le> pfl ! 0 * pfl ! 1" and st: "straight pfl a b"
  shows "computeDeltaH pfl d_start d_end = 0"
proof (cases "d_end / pfl ! 1 - d_start / pfl ! 1 < 2")
  case False
  let ?x = "d_start / pfl ! 1" and ?e = "d_end / pfl ! 1"
  let ?i = "nat (trunc ?x)" and ?p = "decile ?x ?e"
  let ?n = "10 * ?p - 5"
  note n = pfl_okD [OF ok]
  have x: "0 \<le> ?x" "?e \<le> real (intervals pfl)" using d n by (simp_all add: pos_divide_le_eq)
  then have i: "?i < intervals pfl" using False by (simp add: trunc_nonneg) linarith
  have p: "4 \<le> ?p" "2 \<le> ?n" using decile_bounds(1) [of ?x ?e] by linarith+
  have dev: "deviations (delta_samples pfl (intervals pfl) dx ?n (?x - real (?i + 1)) ?i) = replicate ?n 0" for dx
    using deviations_straight [OF p(2), of "a + b * ?x" "b * dx"]
    unfolding delta_samples_straight [OF st i] by (simp add: algebra_simps)
  have zeros: "rev (sort (replicate ?n (0::real))) = replicate ?n 0"
    by (simp add: sorted_sort_id)
  have at: "rev (sort (deviations (delta_samples pfl (intervals pfl) dx ?n (?x - real (?i + 1)) ?i))) ! j = 0" if "j < ?n" for dx j
    unfolding dev zeros using that by simp
  have "?p - 1 < ?n" "?n - ?p < ?n" using p by linarith+
  note at [OF this(1)] at [OF this(2)]
  then show ?thesis
    using False unfolding computeDeltaH_def Let_def by simp
qed (simp add: computeDeltaH_def Let_def)

end
