(* ===== verification/Itm_Loss.thy ===== *)
theory Itm_Loss
  imports Itm_Terrain
begin

text \<open>
  The loss functions of the Irregular Terrain Model, src/internal/itm, over the reals and the complex
  numbers: free space, knife edges, smooth earth, line of sight, troposcatter and the statistics of
  variability. Pairs stand for the arrays of transmitter and receiver. A quotient or logarithm that is
  infinite or not a number in the code has some real value here; the claims avoid those inputs.
\<close>

section \<open>Elementary losses\<close>

definition a_0 :: real where "a_0 = 6370000"
definition a_9000 :: real where "a_9000 = 9000000"
definition third :: real where "third = 1 / 3"

definition freeSpaceLoss :: "real \<Rightarrow> real \<Rightarrow> real" where
  "freeSpaceLoss d f = 3245/100 + 20 * log 10 f + 20 * log 10 (d / 1000)"

definition fresnelIntegral :: "real \<Rightarrow> real" where
  "fresnelIntegral v2 = (if v2 < 576/100 then 602/100 + 911/100 * sqrt v2 - 127/100 * v2 else 12953/1000 + 10 * log 10 v2)"

definition terrainRoughness :: "real \<Rightarrow> real \<Rightarrow> real" where
  "terrainRoughness d delta_h = delta_h * (1 - 8/10 * exp (- d / 50000))"

definition sigmaHFunction :: "real \<Rightarrow> real" where
  "sigmaHFunction delta_h = 78/100 * delta_h * exp (- (1/2) * delta_h powr (1/4))"

definition h0_a :: "real list" where "h0_a = [25, 80, 177, 395, 705]"
definition h0_b :: "real list" where "h0_b = [24, 45, 68, 80, 105]"

definition h0Curve :: "nat \<Rightarrow> real \<Rightarrow> real" where
  "h0Curve j r = 10 * log 10 (1 + h0_a ! j * (1 / r) ^ 4 + h0_b ! j * (1 / r) ^ 2)"

definition h0Function :: "real \<Rightarrow> real \<Rightarrow> real" where
  "h0Function r eta_s = (let eta = min (max eta_s 1) 5; i = nat (trunc eta); q = eta - real i; result = h0Curve (i - 1) r
     in if q \<noteq> 0 then (1 - q) * result + q * h0Curve i r else result)"

definition knifeEdgeDiffraction :: "real \<Rightarrow> real \<Rightarrow> real \<Rightarrow> real \<Rightarrow> real \<times> real \<Rightarrow> real" where
  "knifeEdgeDiffraction d f a_e theta_los d_hzn =
     (let d_ML = fst d_hzn + snd d_hzn; theta_nlos = d / a_e - theta_los; d_nlos = d - d_ML;
          v = (\<lambda>dh. 795775/10000000 * (f / (477/10)) * theta_nlos ^ 2 * dh * d_nlos / (d_nlos + dh))
      in fresnelIntegral (v (fst d_hzn)) + fresnelIntegral (v (snd d_hzn)))"

section \<open>Smooth earth\<close>

definition heightFunction :: "real \<Rightarrow> real \<Rightarrow> real" where
  "heightFunction x K =
     (if x < 200
      then let w = - ln K in
        if K < 1/100000 \<or> x * w ^ 3 > 5495
        then (if 1 < x then 17372/1000 * ln x + - 117 else - 117)
        else 25/1000000 * x ^ 2 / K - 8686/1000 * w - 15
      else let result = 5751/100000 * x - 4343/1000 * ln x in
        if x < 2000
        then let w = 134/10000 * x * exp (- (5/1000) * x) in (1 - w) * result + w * (17372/1000 * ln x - 117)
        else result)"

definition smoothEarthDiffraction :: "real \<Rightarrow> real \<Rightarrow> real \<Rightarrow> real \<Rightarrow> real \<times> real \<Rightarrow> real \<times> real \<Rightarrow> complex \<Rightarrow> real" where
  "smoothEarthDiffraction d f a_e theta_los d_hzn h_e Z_g =
     (let theta_nlos = d / a_e - theta_los; d_ML = fst d_hzn + snd d_hzn;
          a0 = (d - d_ML) / (d / a_e - theta_los);
          a1 = 1/2 * fst d_hzn ^ 2 / fst h_e; a2 = 1/2 * snd d_hzn ^ 2 / snd h_e;
          km0 = a0 * theta_nlos / 1000; km1 = fst d_hzn / 1000; km2 = snd d_hzn / 1000;
          C = (\<lambda>a. (4/3 * a_0 / a) powr third);
          K = (\<lambda>a. 17778/1000000 * C a * f powr (- third) / cmod Z_g);
          B = (\<lambda>a. 1607/1000 - K a);
          x = (\<lambda>a km. B a * C a ^ 2 * f powr third * km);
          x1 = x a1 km1; x2 = x a2 km2; x0 = x a0 km0 + x1 + x2;
          G = 5751/100000 * x0 - 10 * log 10 x0
      in G - heightFunction x1 (K a1) - heightFunction x2 (K a2) - 20)"

section \<open>Diffraction and line of sight\<close>

definition P2P :: int where "P2P = 0"

definition diffractionLoss :: "real \<Rightarrow> real \<times> real \<Rightarrow> real \<times> real \<Rightarrow> complex \<Rightarrow> real \<Rightarrow> real \<Rightarrow> real \<times> real \<Rightarrow> int \<Rightarrow> real \<Rightarrow> real \<Rightarrow> real \<Rightarrow> real" where
  "diffractionLoss d d_hzn h_e Z_g a_e delta_h h mode theta_los d_sML f =
     (let A_k = knifeEdgeDiffraction d f a_e theta_los d_hzn;
          A_se = smoothEarthDiffraction d f a_e theta_los d_hzn h_e Z_g;
          sigma_h = sigmaHFunction (terrainRoughness d_sML delta_h);
          A_fo = min 15 (5 * log 10 (1 + 1/100000 * fst h * snd h * f * sigma_h));
          delta_h_d = terrainRoughness d delta_h;
          q0 = fst h * snd h; qk = fst h_e * snd h_e - q0;
          q1 = (if mode = P2P then q0 + 10 else q0);
          term1 = sqrt (1 + qk / q1); d_ML = fst d_hzn + snd d_hzn;
          q = (term1 + (- theta_los * a_e + d_ML) / d) * min (delta_h_d * f / (477/10)) (62832/10);
          w = (251/10) / (251/10 + sqrt q)
      in w * A_se + (1 - w) * A_k + A_fo)"

definition csquare :: "complex \<Rightarrow> real" where
  "csquare z = Re z ^ 2 + Im z ^ 2"

definition lineOfSightLoss :: "real \<Rightarrow> real \<times> real \<Rightarrow> complex \<Rightarrow> real \<Rightarrow> real \<Rightarrow> real \<Rightarrow> real \<Rightarrow> real \<Rightarrow> real" where
  "lineOfSightLoss d h_e Z_g delta_h M_d A_d0 d_sML f =
     (let sigma_h = sigmaHFunction (terrainRoughness d delta_h); wn = f / (477/10);
          sin_psi = (fst h_e + snd h_e) / sqrt (d ^ 2 + (fst h_e + snd h_e) ^ 2);
          R0 = (complex_of_real sin_psi - Z_g) / (complex_of_real sin_psi + Z_g) * complex_of_real (exp (- min 10 (wn * sigma_h * sin_psi)));
          q = csquare R0;
          R_e = (if q < 1/4 \<or> q < sin_psi then R0 * complex_of_real (sqrt (sin_psi / q)) else R0);
          phi0 = wn * 2 * fst h_e * snd h_e / d;
          phi = (if pi / 2 < phi0 then pi - (pi / 2) ^ 2 / phi0 else phi0);
          A_t = - 10 * log 10 (csquare (Complex (cos phi) (- sin phi) + R_e));
          A_d = M_d * d + A_d0;
          w = 1 / (1 + f * delta_h / max 10000 d_sML)
      in w * A_t + (1 - w) * A_d)"

section \<open>Troposcatter\<close>

definition fFunction :: "real \<Rightarrow> real" where
  "fFunction td =
     (if td \<le> 10000 then 1334/10 + 332/1000000 * td + - 10 * log 10 td
      else if td \<le> 70000 then 1046/10 + 212/1000000 * td + - (25/10) * log 10 td
      else 718/10 + 157/1000000 * td + 5 * log 10 td)"

text \<open>H_0 from the geometry; \<open>None\<close> when the path is too short for scatter. The last argument is the H_0 carried over.\<close>

definition scatter_gain :: "real \<Rightarrow> real \<times> real \<Rightarrow> real \<times> real \<Rightarrow> real \<times> real \<Rightarrow> real \<Rightarrow> real \<Rightarrow> real \<Rightarrow> real \<Rightarrow> real option" where
  "scatter_gain d theta_hzn d_hzn h_e a_e N_s wn h0 =
     (let ad0 = fst d_hzn - snd d_hzn; rr0 = snd h_e / fst h_e;
          ad = (if ad0 < 0 then - ad0 else ad0); rr = (if ad0 < 0 then 1 / rr0 else rr0);
          theta = fst theta_hzn + snd theta_hzn + d / a_e;
          r_1 = 2 * wn * theta * fst h_e; r_2 = 2 * wn * theta * snd h_e
      in if r_1 < 2/10 \<and> r_2 < 2/10 then None
         else let s0 = (d - ad) / (d + ad); q = min (max (1/10) (rr / s0)) 10; s = max (1/10) s0;
                  h_0 = (d - ad) * (d + ad) * theta * (1/4) / d;
                  eta_s = h_0 / (17556/10) * (1 + (31/1000 - N_s * (232/100000) + N_s ^ 2 * (567/100000000)) * exp (- (min (17/10) (h_0 / 8000) ^ 6)));
                  H_00 = (h0Function r_1 eta_s + h0Function r_2 eta_s) / 2;
                  Delta = min H_00 (6 * (6/10 - log 10 (max eta_s 1)) * log 10 s * log 10 q);
                  H = max (H_00 + Delta) 0;
                  H' = (if eta_s < 1
                    then eta_s * H + (1 - eta_s) * 10 * log 10 (((1 + sqrt 2 / r_1) * (1 + sqrt 2 / r_2)) ^ 2 * (r_1 + r_2) / (r_1 + r_2 + 2 * sqrt 2))
                    else H)
              in Some (if 15 < H' \<and> 0 \<le> h0 then h0 else H'))"

definition troposcatterLoss :: "real \<Rightarrow> real \<times> real \<Rightarrow> real \<times> real \<Rightarrow> real \<times> real \<Rightarrow> real \<Rightarrow> real \<Rightarrow> real \<Rightarrow> real \<Rightarrow> real \<Rightarrow> real \<times> real" where
  "troposcatterLoss d theta_hzn d_hzn h_e a_e N_s f theta_los h0 =
     (let wn = f / (477/10) in
      case (if 15 < h0 then Some h0 else scatter_gain d theta_hzn d_hzn h_e a_e N_s wn h0) of
        None \<Rightarrow> (1001, h0)
      | Some H_0 \<Rightarrow>
          (let th = d / a_e - theta_los
           in (fFunction (th * d) + 10 * log 10 (wn * (477/10) * th ^ 4) - 1/10 * (N_s - 301) * exp (- th * d / 40000) + H_0, H_0)))"

section \<open>Variability\<close>

definition inverseCCDF :: "real \<Rightarrow> real" where
  "inverseCCDF q =
     (let x = (if 1/2 < q then 1 - q else q); T = sqrt (- 2 * ln x);
          zeta = ((10328/1000000 * T + 802853/1000000) * T + 2515516/1000000)
                 / (((1308/1000000 * T + 189269/1000000) * T + 1432788/1000000) * T + 1)
      in if 1/2 < q then - (T - zeta) else T - zeta)"

definition curve :: "real \<Rightarrow> real \<Rightarrow> real \<Rightarrow> real \<Rightarrow> real \<Rightarrow> real \<Rightarrow> real" where
  "curve c1 c2 x1 x2 x3 d_e = (c1 + c2 / (1 + ((d_e - x2) / x3) ^ 2)) * (d_e / x1) ^ 2 / (1 + (d_e / x1) ^ 2)"

text \<open>The tables over the climates, in hundredths; distances in hundreds of metres.\<close>

definition all_year :: "real list list" where
  "all_year = [map (\<lambda>v. v / 100) [- 967, - 62, 126, - 921, - 62, - 39, 315],
     map (\<lambda>v. v / 100) [1270, 919, 1550, 905, 919, 286, 85790],
     map (\<lambda>v. v * 100) [1449, 2289, 2626, 841, 2289, 1417, 22220],
     map (\<lambda>v. v * 100) [1903, 2052, 1852, 1011, 2052, 3159, 1648],
     map (\<lambda>v. v * 100) [1338, 1436, 998, 986, 1436, 1674, 1163]]"

definition minus_tables :: "real list list" where
  "minus_tables = [map (\<lambda>v. v / 100) [213, 266, 611, 198, 268, 686, 851],
     map (\<lambda>v. v / 100) [15950, 767, 665, 1311, 716, 1038, 16980],
     map (\<lambda>v. v * 100) [7622, 1004, 1382, 1391, 937, 1878, 6098],
     map (\<lambda>v. v * 100) [1236, 1725, 2422, 1327, 1868, 1696, 1199],
     map (\<lambda>v. v * 100) [945, 1364, 1786, 1935, 1335, 1089, 1066]]"

definition plus_tables :: "real list list" where
  "plus_tables = [map (\<lambda>v. v / 100) [211, 687, 1008, 368, 475, 858, 843],
     map (\<lambda>v. v / 100) [10230, 1553, 960, 15930, 812, 1397, 819],
     map (\<lambda>v. v * 100) [6369, 1387, 1653, 4644, 932, 2160, 1362],
     map (\<lambda>v. v * 100) [1348, 1437, 2257, 931, 1359, 1520, 1885],
     map (\<lambda>v. v * 100) [956, 986, 1297, 942, 1134, 1227, 1229]]"

definition C_D :: "real list" where "C_D = map (\<lambda>v. v / 1000) [1224, 801, 1380, 1000, 1224, 1518, 1518]"
definition z_D :: "real list" where "z_D = map (\<lambda>v. v / 1000) [1282, 2161, 1282, 20000, 1282, 1282, 1282]"

definition bf_minus :: "real list list" where
  "bf_minus = [[1, 1, 1, 1, 92/100, 1, 1], [0, 0, 0, 0, 25/100, 0, 0], [0, 0, 0, 0, 177/100, 0, 0]]"

definition bf_plus :: "real list list" where
  "bf_plus = [[1, 93/100, 1, 93/100, 93/100, 1, 1], [0, 31/100, 0, 19/100, 31/100, 0, 0], [0, 2, 0, 179/100, 2, 0, 0]]"

definition curve_of :: "real list list \<Rightarrow> nat \<Rightarrow> real \<Rightarrow> real" where
  "curve_of t c d_e = curve (t ! 0 ! c) (t ! 1 ! c) (t ! 2 ! c) (t ! 3 ! c) (t ! 4 ! c) d_e"

definition gain_of :: "real list list \<Rightarrow> nat \<Rightarrow> real \<Rightarrow> real" where
  "gain_of t c q = t ! 0 ! c + t ! 1 ! c / ((t ! 2 ! c * q) ^ 2 + 1)"

definition effective_distance :: "real \<times> real \<Rightarrow> real \<Rightarrow> real \<Rightarrow> real" where
  "effective_distance h_e wn d =
     (let d_ex = sqrt (2 * a_9000 * fst h_e) + sqrt (2 * a_9000 * snd h_e) + (575700000000000 / wn) powr third
      in if d < d_ex then 130000 * d / d_ex else 130000 + d - d_ex)"

text \<open>The mode of variability: the plus-20 and plus-10 flags and the mode left when they are removed.\<close>

definition mode_of :: "int \<Rightarrow> bool \<times> bool \<times> int" where
  "mode_of mdvar = (let p20 = 20 \<le> mdvar; m1 = (if p20 then mdvar - 20 else mdvar); p10 = 10 \<le> m1
     in (p20, p10, if p10 then m1 - 10 else m1))"

text \<open>The standard normal deviates of time, location and situation in the mode.\<close>

definition deviates :: "int \<Rightarrow> real \<Rightarrow> real \<Rightarrow> real \<Rightarrow> real \<times> real \<times> real" where
  "deviates m z_T z_L z_S = (if m = 0 then (z_S, z_S, z_S) else if m = 1 then (z_T, z_S, z_S)
     else if m = 2 then (z_T, z_T, z_S) else (z_T, z_L, z_S))"

definition extreme :: "real \<times> real \<times> real \<Rightarrow> bool" where
  "extreme z = (case z of (t, l, s) \<Rightarrow> 31/10 < \<bar>t\<bar> \<or> 31/10 < \<bar>l\<bar> \<or> 31/10 < \<bar>s\<bar>)"

definition sigma_time :: "nat \<Rightarrow> real \<Rightarrow> real \<Rightarrow> real \<Rightarrow> real" where
  "sigma_time c wn d_e z_T =
     (let q = ln (133/1000 * wn);
          minus = curve_of minus_tables c d_e * gain_of bf_minus c q; plus = curve_of plus_tables c d_e * gain_of bf_plus c q;
          TD = C_D ! c * plus; tgtd = (plus - TD) * z_D ! c
      in if z_T < 0 then minus else if z_T \<le> z_D ! c then plus else TD + tgtd / z_T)"

text \<open>The deviations Y_R and Y_S from the median in the mode.\<close>

definition deviation :: "int \<Rightarrow> real \<times> real \<times> real \<Rightarrow> real \<Rightarrow> real \<Rightarrow> real \<Rightarrow> real \<times> real" where
  "deviation m z sigma_T sigma_L sigma_S = (case z of (z_T, z_L, z_S) \<Rightarrow>
     let Y_L = sigma_L * z_L; Y_T = sigma_T * z_T;
         temp = sigma_S ^ 2 + Y_T ^ 2 / (78/10 + z_S ^ 2) + Y_L ^ 2 / (24 + z_S ^ 2)
     in if m = 0 then (0, sqrt (sigma_T ^ 2 + sigma_L ^ 2 + temp) * z_S)
        else if m = 1 then (Y_T, sqrt (sigma_L ^ 2 + temp) * z_S)
        else if m = 2 then (sqrt (sigma_T ^ 2 + sigma_L ^ 2) * z_T, sqrt temp * z_S)
        else (Y_T + Y_L, sqrt temp * z_S))"

text \<open>A negative attenuation is compressed.\<close>

definition compress :: "real \<Rightarrow> real" where
  "compress r = (if r < 0 then r * (29 - r) / (29 - 10 * r) else r)"

text \<open>The loss, and whether the variabilities are extreme.\<close>

definition variability :: "real \<Rightarrow> real \<Rightarrow> real \<Rightarrow> real \<times> real \<Rightarrow> real \<Rightarrow> real \<Rightarrow> real \<Rightarrow> real \<Rightarrow> int \<Rightarrow> int \<Rightarrow> real \<times> bool" where
  "variability time location situation h_e delta_h f d A_ref climate mdvar =
     (let c = nat (climate - 1); wn = f / (477/10); d_e = effective_distance h_e wn d; (p20, p10, m) = mode_of mdvar;
          sigma_S = (if p20 then 0 else 5 + 3 * exp (- d_e / 100000));
          V_med = curve_of all_year c d_e;
          z = deviates m (inverseCCDF (time / 100)) (inverseCCDF (location / 100)) (inverseCCDF (situation / 100));
          rough = wn * terrainRoughness d delta_h;
          sigma_L = (if p10 then 0 else 10 * rough / (rough + 13));
          sigma_T = sigma_time c wn d_e (fst z);
          (Y_R, Y_S) = deviation m z sigma_T sigma_L sigma_S
      in (compress (A_ref - V_med - Y_R - Y_S), extreme z))"

section \<open>Facts\<close>

text \<open>Compression keeps the sign, the order and at least a tenth of a negative loss.\<close>

lemma compress_neg:
  assumes "r < 0"
  shows "r \<le> compress r" "compress r \<le> r / 10" "compress r < 0"
proof -
  have pos: "0 < 29 - 10 * r" using assms by simp
  have c: "compress r = r * (29 - r) / (29 - 10 * r)" using assms by (simp add: compress_def)
  have "r * (29 - 10 * r) \<le> r * (29 - r)" using assms by (intro mult_left_mono_neg) simp_all
  then show "r \<le> compress r" unfolding c using pos by (simp add: pos_le_divide_eq)
  have "r * (29 - r) \<le> r / 10 * (29 - 10 * r)" using assms by (simp add: algebra_simps)
  then show "compress r \<le> r / 10" unfolding c using pos by (simp only: pos_divide_le_eq)
  then show "compress r < 0" using assms by linarith
qed

lemma compress_nonneg: "0 \<le> r \<Longrightarrow> compress r = r"
  by (simp add: compress_def)

lemma compress_above: "r \<le> compress r"
  using compress_neg(1) compress_nonneg by (cases "r < 0") (auto simp: not_less)

text \<open>A percentage and its complement deviate by the same amount in opposite directions.\<close>

lemma inverseCCDF_mirror: "q \<noteq> 1/2 \<Longrightarrow> inverseCCDF (1 - q) = - inverseCCDF q"
  by (auto simp: inverseCCDF_def Let_def)

lemma deviates_at_median: "deviates m z z z = (z, z, z)"
  by (simp add: deviates_def)

end
