(* ===== verification/Itm.thy ===== *)
theory Itm
  imports Itm_Loss "HOL-Library.Word"
begin

unbundle bit_operations_syntax

text \<open>
  The Irregular Terrain Model in point-to-point mode, src/internal/itm: parameters, return codes and
  warning flags, longleyRice and PointToPoint. The warnings a function ORs into its argument are
  a result here, and a return code other than success is an error value.
\<close>

section \<open>Parameters and results\<close>

definition Horizontal :: int where "Horizontal = 0"
definition Vertical :: int where "Vertical = 1"

definition Equatorial :: int where "Equatorial = 1"
definition ContinentalTemperate :: int where "ContinentalTemperate = 5"
definition MaritimeTemperateOverSea :: int where "MaritimeTemperateOverSea = 7"

datatype itm_mode = ModeNotSet | ModeLineOfSight | ModeDiffraction | ModeTroposcatter

fun mode_text :: "itm_mode \<Rightarrow> string" where
  "mode_text ModeLineOfSight = ''line of sight''"
| "mode_text ModeDiffraction = ''diffraction''"
| "mode_text ModeTroposcatter = ''troposcatter''"
| "mode_text ModeNotSet = ''not set''"

type_synonym warning = "64 word"

record itm_params =
  ip_htx :: real
  ip_hrx :: real
  ip_freq :: real
  ip_polarization :: int
  ip_epsilon :: real
  ip_sigma :: real
  ip_n0 :: real
  ip_climate :: int
  ip_mdvar :: int
  ip_time :: real
  ip_location :: real
  ip_situation :: real

record itm_result =
  ir_loss :: real
  ir_mode :: itm_mode
  ir_warnings :: warning
  ir_theta :: "real \<times> real"
  ir_takeoff :: "real \<times> real"
  ir_hzn :: "real \<times> real"
  ir_he :: "real \<times> real"
  ir_ns :: real
  ir_delta :: real
  ir_aref :: real
  ir_free_space :: real
  ir_km :: real

section \<open>Codes and warnings\<close>

definition success :: int where "success = 0"

definition codeErrors :: "(int \<times> string) list" where
  "codeErrors =
    [(1000, ''itm: TX terminal height is out of range (0.5..3000 m)''), (1001, ''itm: RX terminal height is out of range (0.5..3000 m)''),
     (1002, ''itm: invalid radio climate''), (1003, ''itm: time percentage is out of range''),
     (1004, ''itm: location percentage is out of range''), (1005, ''itm: situation percentage is out of range''),
     (1008, ''itm: refractivity is out of range (250..400)''), (1009, ''itm: frequency is out of range (20..20000 MHz)''),
     (1010, ''itm: invalid polarization''), (1011, ''itm: epsilon is out of range''), (1012, ''itm: sigma is out of range''),
     (1013, ''itm: imaginary part of ground impedance larger than real part''), (1014, ''itm: invalid mode of variability''),
     (1016, ''itm: computed effective earth radius is invalid''), (1021, ''itm: computed surface refractivity is too small''),
     (1022, ''itm: computed surface refractivity is too large'')]"

definition codeError :: "int \<Rightarrow> string" where
  "codeError code = (case map_of codeErrors code of Some e \<Rightarrow> e | None \<Rightarrow> ''itm: unknown error code'')"

datatype itm_error = TooFewPoints nat | BadStep real | ItmCode int

definition warningText :: "(warning \<times> string) list" where
  "warningText =
    [(0x0001, ''TX terminal height is near its limits''), (0x0002, ''RX terminal height is near its limits''),
     (0x0004, ''frequency is near its limits''), (0x0008, ''path distance is near its upper limit''),
     (0x0010, ''path distance is large - care must be taken with result''), (0x0020, ''path distance is near its lower limit''),
     (0x0040, ''path distance is small - care must be taken with result''),
     (0x0080, ''TX horizon angle is large - small angle approximations could break down''),
     (0x0100, ''RX horizon angle is large - small angle approximations could break down''),
     (0x0200, ''TX horizon distance is less than 1/10 of the smooth earth horizon distance''),
     (0x0400, ''RX horizon distance is less than 1/10 of the smooth earth horizon distance''),
     (0x0800, ''TX horizon distance is greater than 3 times the smooth earth horizon distance''),
     (0x1000, ''RX horizon distance is greater than 3 times the smooth earth horizon distance''),
     (0x2000, ''one of the provided variabilities is located far in the tail of its distribution''),
     (0x4000, ''computed surface refractivity is small - care must be taken with result'')]"

definition Messages :: "warning \<Rightarrow> string list" where
  "Messages w = map snd (filter (\<lambda>wt. w AND fst wt \<noteq> 0) warningText)"

definition warn :: "bool \<Rightarrow> warning \<Rightarrow> warning \<Rightarrow> warning" where
  "warn b flag w = (if b then w OR flag else w)"

section \<open>validateInputs\<close>

definition bad_mdvar :: "int \<Rightarrow> bool" where
  "bad_mdvar m \<longleftrightarrow> m < 0 \<or> (3 < m \<and> m < 10) \<or> (13 < m \<and> m < 20) \<or> (23 < m \<and> m < 30) \<or> 33 < m"

definition validate_rest :: "itm_params \<Rightarrow> int" where
  "validate_rest p =
     (if ip_polarization p \<noteq> Horizontal \<and> ip_polarization p \<noteq> Vertical then 1010
      else if ip_epsilon p < 1 then 1011
      else if ip_sigma p \<le> 0 then 1012
      else if bad_mdvar (ip_mdvar p) then 1014
      else if ip_situation p \<le> 0 \<or> 100 \<le> ip_situation p then 1005
      else if ip_time p \<le> 0 \<or> 100 \<le> ip_time p then 1003
      else if ip_location p \<le> 0 \<or> 100 \<le> ip_location p then 1004
      else success)"

definition validateInputs :: "itm_params \<Rightarrow> warning \<Rightarrow> int \<times> warning" where
  "validateInputs p w =
     (let w1 = warn (ip_htx p < 1 \<or> 1000 < ip_htx p) 0x0001 w in
      if ip_htx p < 1/2 \<or> 3000 < ip_htx p then (1000, w1)
      else let w2 = warn (ip_hrx p < 1 \<or> 1000 < ip_hrx p) 0x0002 w1 in
      if ip_hrx p < 1/2 \<or> 3000 < ip_hrx p then (1001, w2)
      else if ip_climate p < Equatorial \<or> MaritimeTemperateOverSea < ip_climate p then (1002, w2)
      else if ip_n0 p < 250 \<or> 400 < ip_n0 p then (1008, w2)
      else let w3 = warn (ip_freq p < 40 \<or> 10000 < ip_freq p) 0x0004 w2 in
      if ip_freq p < 20 \<or> 20000 < ip_freq p then (1009, w3)
      else (validate_rest p, w3))"

section \<open>initializePointToPoint\<close>

definition initializePointToPoint :: "real \<Rightarrow> real \<Rightarrow> real \<Rightarrow> int \<Rightarrow> real \<Rightarrow> real \<Rightarrow> complex \<times> real \<times> real" where
  "initializePointToPoint f h_sys N_0 pol epsilon sigma =
     (let N_s = (if h_sys = 0 then N_0 else N_0 * exp (- h_sys / 9460));
          gamma_e = 157/1000000000 * (1 - 4665/100000 * exp (N_s / (1793/10)));
          ep_r = Complex epsilon (18000 * sigma / f);
          Z = csqrt (ep_r - 1)
      in (if pol = Vertical then Z / ep_r else Z, gamma_e, N_s))"

section \<open>longleyRice\<close>

text \<open>The reference attenuation below the smooth-earth horizon distance: a curve \<open>k1 d + k2 ln d\<close>.\<close>

definition los_slopes :: "(real \<Rightarrow> real) \<Rightarrow> real \<Rightarrow> real \<Rightarrow> real \<Rightarrow> real \<Rightarrow> real \<Rightarrow> real \<Rightarrow> real \<times> real" where
  "los_slopes los M_d A_d0 d_sML A_sML d_0 d_1 =
     (let A_1 = los d_1; A_0 = los d_0; q = ln (d_sML / d_0);
          k2 = max 0 (((d_sML - d_0) * (A_1 - A_0) - (d_1 - d_0) * (A_sML - A_0)) / ((d_sML - d_0) * ln (d_1 / d_0) - (d_1 - d_0) * q));
          k1 = (A_sML - A_0 - k2 * q) / (d_sML - d_0); k2' = fdim A_sML A_0 / q; k1' = fdim A_sML A_1 / (d_sML - d_1)
      in if d_0 < d_1 \<and> (0 < A_d0 \<or> 0 < k2)
         then (if k1 < 0 then (if k2' = 0 then M_d else 0, k2') else (k1, k2))
         else (if k1' = 0 then M_d else k1', 0))"

definition los_reference :: "(real \<Rightarrow> real) \<Rightarrow> real \<Rightarrow> real \<Rightarrow> real \<Rightarrow> real \<Rightarrow> real \<times> real \<Rightarrow> real \<Rightarrow> real \<Rightarrow> real" where
  "los_reference los M_d A_d0 d_ML d_sML h_e f d =
     (let A_sML = d_sML * M_d + A_d0; d_00 = 4/100 * f * fst h_e * snd h_e;
          d_0 = (if 0 \<le> A_d0 then min d_00 (1/2 * d_ML) else d_00);
          d_1 = (if 0 \<le> A_d0 then d_0 + 1/4 * (d_ML - d_0) else max (- A_d0 / M_d) (1/4 * d_ML));
          (k1, k2) = los_slopes los M_d A_d0 d_sML A_sML d_0 d_1;
          A_o = A_sML - k1 * d_sML - k2 * ln d_sML
      in A_o + k1 * d + k2 * ln d)"

text \<open>The scatter line, and the distance from which it holds.\<close>

definition scatter_line :: "(real \<Rightarrow> real \<Rightarrow> real \<times> real) \<Rightarrow> real \<Rightarrow> real \<Rightarrow> real \<Rightarrow> real \<Rightarrow> real \<Rightarrow> real \<Rightarrow> real \<times> real \<times> real" where
  "scatter_line tropo M_d A_d0 d_ML d_sML a_e f =
     (let d_5 = d_ML + 200000; d_6 = d_ML + 400000; (A_6, h0) = tropo d_6 (- 1); (A_5, _) = tropo d_5 h0 in
      if A_5 < 1000
      then let M_s = (A_6 - A_5) / 200000;
               d_x = max (max d_sML (d_ML + 1088/1000 * (a_e ^ 2 / f) powr third * ln f)) ((A_5 - A_d0 - M_s * d_5) / (M_d - M_s))
           in (M_s, (M_d - M_s) * d_x + A_d0, d_x)
      else (M_d, A_d0, 10000000))"

definition beyond_reference :: "real \<Rightarrow> real \<Rightarrow> real \<times> real \<times> real \<Rightarrow> real \<Rightarrow> real \<times> itm_mode" where
  "beyond_reference M_d A_d0 sc d = (case sc of (M_s, A_s0, d_x) \<Rightarrow>
     if d_x < d then (M_s * d + A_s0, ModeTroposcatter) else (M_d * d + A_d0, ModeDiffraction))"

text \<open>The diffraction line through two distances beyond the horizons.\<close>

definition diffraction_line :: "(real \<Rightarrow> real) \<Rightarrow> real \<Rightarrow> real \<Rightarrow> real \<Rightarrow> real \<Rightarrow> real \<times> real" where
  "diffraction_line diff d_ML d_sML a_e f =
     (let x = (a_e ^ 2 / f) powr third; d_3 = max d_sML (d_ML + 5 * x); d_4 = d_3 + 10 * x;
          M_d = (diff d_4 - diff d_3) / (d_4 - d_3)
      in (M_d, diff d_3 - M_d * d_3))"

definition horizon_warnings :: "path_params \<Rightarrow> real \<times> real \<Rightarrow> warning \<Rightarrow> warning" where
  "horizon_warnings q d_s w =
     warn (3 * snd d_s < snd (pp_hzn q)) 0x1000 (warn (3 * fst d_s < fst (pp_hzn q)) 0x0800
      (warn (snd (pp_hzn q) < 1/10 * snd d_s) 0x0400 (warn (fst (pp_hzn q) < 1/10 * fst d_s) 0x0200
       (warn (200/1000 < \<bar>snd (pp_theta q)\<bar>) 0x0100 (warn (200/1000 < \<bar>fst (pp_theta q)\<bar>) 0x0080 w)))))"

definition distance_warnings :: "path_params \<Rightarrow> warning \<Rightarrow> warning" where
  "distance_warnings q w = (let d = pp_dist q; d_min = \<bar>fst (pp_he q) - snd (pp_he q)\<bar> / (200/1000) in
     warn (2000000 < d) 0x0010 (warn (1000000 < d) 0x0008 (warn (d < 1000) 0x0040 (warn (d < d_min) 0x0020 w))))"

definition smooth_horizons :: "real \<Rightarrow> real \<times> real \<Rightarrow> real \<times> real" where
  "smooth_horizons a_e h_e = (sqrt (2 * fst h_e * a_e), sqrt (2 * snd h_e * a_e))"

definition longleyRice :: "path_params \<Rightarrow> real \<Rightarrow> complex \<Rightarrow> real \<Rightarrow> real \<Rightarrow> real \<times> real \<Rightarrow> int \<Rightarrow> warning \<Rightarrow> (int + real \<times> itm_mode) \<times> warning" where
  "longleyRice q f Z_g gamma_e N_s h mode w =
     (let a_e = 1 / gamma_e; d_s = smooth_horizons a_e (pp_he q); d_sML = fst d_s + snd d_s; d_ML = fst (pp_hzn q) + snd (pp_hzn q);
          theta_los = - max (fst (pp_theta q) + snd (pp_theta q)) (- d_ML / a_e);
          w1 = horizon_warnings q d_s w
      in if N_s < 150 then (Inl 1021, w1)
         else if 400 < N_s then (Inl 1022, w1)
         else let w2 = warn (N_s < 250) 0x4000 w1 in
         if a_e < 4000000 \<or> 13333333 < a_e then (Inl 1016, w2)
         else if Re Z_g \<le> \<bar>Im Z_g\<bar> then (Inl 1013, w2)
         else let (M_d, A_d0) = diffraction_line (\<lambda>x. diffractionLoss x (pp_hzn q) (pp_he q) Z_g a_e (pp_delta q) h mode theta_los d_sML f) d_ML d_sML a_e f;
                  w3 = distance_warnings q w2;
                  (A_ref, m) = (if pp_dist q < d_sML
                    then (los_reference (\<lambda>x. lineOfSightLoss x (pp_he q) Z_g (pp_delta q) M_d A_d0 d_sML f) M_d A_d0 d_ML d_sML (pp_he q) f (pp_dist q),
                          ModeLineOfSight)
                    else beyond_reference M_d A_d0 (scatter_line (\<lambda>x. troposcatterLoss x (pp_theta q) (pp_hzn q) (pp_he q) a_e N_s f theta_los)
                           M_d A_d0 d_ML d_sML a_e f) (pp_dist q))
              in (Inr (max A_ref 0, m), w3))"

section \<open>PointToPoint\<close>

definition mean_height :: "real list \<Rightarrow> real" where
  "mean_height pfl = (let np = intervals pfl; p10 = nat (trunc (1/10 * real np))
     in sum_list (map (elev_at pfl) [p10..<np - p10 + 1]) / real (np - 2 * p10 + 1))"

definition pointToPoint :: "real list \<Rightarrow> itm_params \<Rightarrow> itm_error + itm_result" where
  "pointToPoint pfl p =
     (let (code, w1) = validateInputs p 0 in
      if code \<noteq> success then Inl (ItmCode code)
      else let (Z_g, gamma_e, N_s) = initializePointToPoint (ip_freq p) (mean_height pfl) (ip_n0 p) (ip_polarization p) (ip_epsilon p) (ip_sigma p);
               q = quickPfl pfl gamma_e (ip_htx p) (ip_hrx p)
           in case longleyRice q (ip_freq p) Z_g gamma_e N_s (ip_htx p, ip_hrx p) P2P w1 of
                (Inl rtn, _) \<Rightarrow> Inl (ItmCode rtn)
              | (Inr (A_ref, m), w2) \<Rightarrow>
                  (let A_fs = freeSpaceLoss (pp_dist q) (ip_freq p);
                       (v, tail) = variability (ip_time p) (ip_location p) (ip_situation p) (pp_he q) (pp_delta q) (ip_freq p) (pp_dist q)
                         A_ref (ip_climate p) (ip_mdvar p)
                   in Inr \<lparr>ir_loss = v + A_fs, ir_mode = m, ir_warnings = warn tail 0x2000 w2, ir_theta = pp_theta q,
                        ir_takeoff = pp_takeoff q, ir_hzn = pp_hzn q, ir_he = pp_he q, ir_ns = N_s, ir_delta = pp_delta q,
                        ir_aref = A_ref, ir_free_space = A_fs, ir_km = pfl ! 0 * pfl ! 1 / 1000\<rparr>))"

definition PointToPoint :: "real list \<Rightarrow> real \<Rightarrow> itm_params \<Rightarrow> itm_error + itm_result" where
  "PointToPoint elev step p =
     (if length elev < 2 then Inl (TooFewPoints (length elev))
      else if step \<le> 0 then Inl (BadStep step)
      else pointToPoint (pack elev step) p)"

section \<open>Facts\<close>

text \<open>The parameters validateInputs accepts.\<close>

definition params_ok :: "itm_params \<Rightarrow> bool" where
  "params_ok p \<longleftrightarrow> 1/2 \<le> ip_htx p \<and> ip_htx p \<le> 3000 \<and> 1/2 \<le> ip_hrx p \<and> ip_hrx p \<le> 3000
     \<and> ip_climate p \<in> {1..7} \<and> 250 \<le> ip_n0 p \<and> ip_n0 p \<le> 400 \<and> 20 \<le> ip_freq p \<and> ip_freq p \<le> 20000
     \<and> ip_polarization p \<in> {0, 1} \<and> 1 \<le> ip_epsilon p \<and> 0 < ip_sigma p \<and> \<not> bad_mdvar (ip_mdvar p)
     \<and> 0 < ip_situation p \<and> ip_situation p < 100 \<and> 0 < ip_time p \<and> ip_time p < 100 \<and> 0 < ip_location p \<and> ip_location p < 100"

lemmas code_constants = success_def Horizontal_def Vertical_def Equatorial_def MaritimeTemperateOverSea_def

lemma validate_rest_success:
  "validate_rest p = success \<longleftrightarrow> ip_polarization p \<in> {0, 1} \<and> 1 \<le> ip_epsilon p \<and> 0 < ip_sigma p \<and> \<not> bad_mdvar (ip_mdvar p)
     \<and> 0 < ip_situation p \<and> ip_situation p < 100 \<and> 0 < ip_time p \<and> ip_time p < 100 \<and> 0 < ip_location p \<and> ip_location p < 100"
  by (auto simp: validate_rest_def code_constants)

lemma validate_rest_codes: "validate_rest p \<in> {success, 1003, 1004, 1005, 1010, 1011, 1012, 1014}"
  by (auto simp: validate_rest_def)

lemma validateInputs_success: "fst (validateInputs p w) = success \<longleftrightarrow> params_ok p"
proof -
  have "fst (validateInputs p w) = success \<longleftrightarrow> \<not> (ip_htx p < 1/2 \<or> 3000 < ip_htx p) \<and> \<not> (ip_hrx p < 1/2 \<or> 3000 < ip_hrx p)
      \<and> \<not> (ip_climate p < Equatorial \<or> MaritimeTemperateOverSea < ip_climate p) \<and> \<not> (ip_n0 p < 250 \<or> 400 < ip_n0 p)
      \<and> \<not> (ip_freq p < 20 \<or> 20000 < ip_freq p) \<and> validate_rest p = success"
    by (simp add: validateInputs_def Let_def success_def)
  then show ?thesis unfolding validate_rest_success by (auto simp: params_ok_def code_constants)
qed

lemma validateInputs_codes:
  "fst (validateInputs p w) \<in> {success, 1000, 1001, 1002, 1003, 1004, 1005, 1008, 1009, 1010, 1011, 1012, 1014}"
  using validate_rest_codes [of p] by (auto simp: validateInputs_def Let_def)

lemma longleyRice_Inl: "longleyRice q f Z g N h m w = (Inl c, w') \<Longrightarrow> c \<in> {1013, 1016, 1021, 1022}"
  by (auto simp: longleyRice_def Let_def split: if_splits prod.splits)

lemma beyond_mode: "beyond_reference M A sc d = (a, m) \<Longrightarrow> m = ModeTroposcatter \<or> m = ModeDiffraction"
  by (auto simp: beyond_reference_def split: prod.splits if_splits)

lemma longleyRice_Inr:
  assumes "longleyRice q f Z g N h mo w = (Inr (A, m), w')"
  shows "0 \<le> A" "150 \<le> N" "N \<le> 400" "\<bar>Im Z\<bar> < Re Z" "4000000 \<le> 1 / g" "1 / g \<le> 13333333" "m \<noteq> ModeNotSet"
    "m = ModeLineOfSight \<longleftrightarrow> pp_dist q < fst (smooth_horizons (1 / g) (pp_he q)) + snd (smooth_horizons (1 / g) (pp_he q))"
  using assms unfolding longleyRice_def Let_def by (auto split: if_splits prod.splits dest!: beyond_mode)

lemma longleyRice_returns:
  assumes "150 \<le> N" "N \<le> 400" "\<bar>Im Z\<bar> < Re Z" "4000000 \<le> 1 / g" "1 / g \<le> 13333333"
  shows "\<exists>A m w'. longleyRice q f Z g N h mo w = (Inr (A, m), w')"
proof -
  have "\<not> N < 150" "\<not> 400 < N" "\<not> (1 / g < 4000000 \<or> 13333333 < 1 / g)" "\<not> Re Z \<le> \<bar>Im Z\<bar>" using assms by auto
  then show ?thesis unfolding longleyRice_def Let_def by (simp split: prod.splits)
qed

lemma quickPfl_facts:
  fixes pfl g h_tx h_rx
  defines "q \<equiv> quickPfl pfl g h_tx h_rx" and "hz \<equiv> findHorizons pfl (1 / g) h_tx h_rx"
  shows "pp_dist q = pfl ! 0 * pfl ! 1" "pp_takeoff q = (theta_tx hz, theta_rx hz)"
    "\<exists>ds de. pp_delta q = computeDeltaH pfl ds de \<and> ds = min (15 * h_tx) (1/10 * hzn_tx hz) \<and> de = pfl ! 0 * pfl ! 1 - min (15 * h_rx) (1/10 * hzn_rx hz)"
  unfolding q_def hz_def quickPfl_def Let_def by (auto split: prod.splits)

lemma quickPfl_delta_nonneg:
  assumes "pfl_ok pfl"
  shows "0 \<le> pp_delta (quickPfl pfl g h_tx h_rx)"
proof -
  let ?hz = "findHorizons pfl (1 / g) h_tx h_rx"
  note h = horizons_within [OF assms, of "1 / g" h_tx h_rx]
  then have "min (15 * h_tx) (1/10 * hzn_tx ?hz) \<le> pfl ! 0 * pfl ! 1 - min (15 * h_rx) (1/10 * hzn_rx ?hz)" by linarith
  then show ?thesis using quickPfl_facts(3) [of pfl g h_tx h_rx] computeDeltaH_nonneg by metis
qed

section \<open>Properties\<close>

lemma PointToPoint_codes:
  assumes "PointToPoint elev step p = Inl e"
  shows "(case e of
       TooFewPoints n \<Rightarrow> n = length elev \<and> n < 2
     | BadStep s \<Rightarrow> s = step \<and> s \<le> 0 \<and> 2 \<le> length elev
     | ItmCode c \<Rightarrow> 2 \<le> length elev \<and> 0 < step \<and> c \<noteq> success \<and> c \<in> fst ` set codeErrors \<and> (params_ok p \<longleftrightarrow> c \<in> {1013, 1016, 1021, 1022}))"
proof (cases "length elev < 2 \<or> step \<le> 0")
  case True
  then show ?thesis using assms by (auto simp: PointToPoint_def split: if_splits)
next
  case False
  obtain code w1 where v: "validateInputs p 0 = (code, w1)" by fastforce
  from False assms have run: "pointToPoint (pack elev step) p = Inl e" by (simp add: PointToPoint_def)
  show ?thesis
  proof (cases "code = success")
    case True
    with run v obtain c where "e = ItmCode c" "c \<in> {1013, 1016, 1021, 1022}"
      unfolding pointToPoint_def Let_def by (auto split: prod.splits sum.splits dest: longleyRice_Inl)
    moreover have "params_ok p" using validateInputs_success [of p 0] v True by simp
    ultimately show ?thesis using False by (auto simp: codeErrors_def success_def)
  next
    case bad: False
    with run v have "e = ItmCode code" by (simp add: pointToPoint_def)
    moreover have "\<not> params_ok p" using validateInputs_success [of p 0] v bad by simp
    moreover have "code \<in> {1000, 1001, 1002, 1003, 1004, 1005, 1008, 1009, 1010, 1011, 1012, 1014}"
      using validateInputs_codes [of p 0] v bad by auto
    ultimately show ?thesis using False bad by (auto simp: codeErrors_def)
  qed
qed

text \<open>PointToPoint fails with an error of its own for a profile without an interval or a step that is not positive, and
  otherwise only with one of the listed codes, never an unknown one; with parameters in range only the ground impedance,
  the earth radius or the refractivity it computes itself can be at fault.\<close>

theorem PointToPoint_errors:
  assumes "PointToPoint elev step p = Inl e"
  shows "(case e of
       TooFewPoints n \<Rightarrow> n = length elev \<and> n < 2
     | BadStep s \<Rightarrow> s = step \<and> s \<le> 0 \<and> 2 \<le> length elev
     | ItmCode c \<Rightarrow> 2 \<le> length elev \<and> 0 < step \<and> c \<noteq> success \<and> c \<in> fst ` set codeErrors \<and> (params_ok p \<longleftrightarrow> c \<in> {1013, 1016, 1021, 1022}))"
  using PointToPoint_codes [OF assms] .

definition sea_params :: itm_params where
  "sea_params = \<lparr>ip_htx = 10, ip_hrx = 10, ip_freq = 145, ip_polarization = 0, ip_epsilon = 15, ip_sigma = 1/100, ip_n0 = 301,
     ip_climate = 5, ip_mdvar = 11, ip_time = 50, ip_location = 50, ip_situation = 50\<rparr>"

lemma PointToPoint_errors_witness: "PointToPoint [0, 0] 0 sea_params = Inl (BadStep 0) \<and> (0::real) \<le> 0"
proof -
  have e: "PointToPoint [0, 0] 0 sea_params = Inl (BadStep 0)" by (simp add: PointToPoint_def)
  from PointToPoint_errors [OF e] e show ?thesis by simp
qed

lemma PointToPoint_whole:
  assumes "PointToPoint elev step p = Inr r"
  shows "2 \<le> length elev \<and> 0 < step \<and> params_ok p
    \<and> ir_km r = real (length elev - 1) * step / 1000 \<and> ir_free_space r = freeSpaceLoss (1000 * ir_km r) (ip_freq p)
    \<and> 0 \<le> ir_aref r \<and> 0 \<le> ir_delta r \<and> 150 \<le> ir_ns r \<and> ir_ns r \<le> 400 \<and> ir_mode r \<noteq> ModeNotSet
    \<and> (\<exists>a_e d_tx d_rx. 4000000 \<le> a_e \<and> a_e \<le> 13333333
        \<and> highest (sight_tx (pack elev step) a_e (ip_htx p) (ip_hrx p)) {1..length elev - 1} (\<lambda>i. real i * step) (fst (ir_takeoff r)) d_tx
        \<and> highest (sight_rx (pack elev step) a_e (ip_htx p) (ip_hrx p)) {..<length elev - 1} (\<lambda>i. real (length elev - 1 - i) * step)
            (snd (ir_takeoff r)) d_rx
        \<and> (ir_mode r = ModeLineOfSight \<longleftrightarrow> 1000 * ir_km r < fst (smooth_horizons a_e (ir_he r)) + snd (smooth_horizons a_e (ir_he r))))"
proof -
  let ?pfl = "pack elev step"
  from assms have ok: "2 \<le> length elev" "0 < step" and run: "pointToPoint ?pfl p = Inr r"
    by (auto simp: PointToPoint_def split: if_splits)
  note pok = pack_ok [OF ok]
  obtain code w1 where v: "validateInputs p 0 = (code, w1)" by fastforce
  obtain Z g N where i: "initializePointToPoint (ip_freq p) (mean_height ?pfl) (ip_n0 p) (ip_polarization p) (ip_epsilon p) (ip_sigma p) = (Z, g, N)"
    by (metis prod_cases3)
  let ?q = "quickPfl ?pfl g (ip_htx p) (ip_hrx p)"
  have code: "code = success" using run v by (auto simp: pointToPoint_def split: if_splits)
  then have "params_ok p" using validateInputs_success [of p 0] v by simp
  obtain A m w2 where lr: "longleyRice ?q (ip_freq p) Z g N (ip_htx p, ip_hrx p) P2P w1 = (Inr (A, m), w2)"
    using run v i code unfolding pointToPoint_def Let_def by (auto split: prod.splits sum.splits)
  have r: "ir_km r = ?pfl ! 0 * ?pfl ! 1 / 1000" "ir_free_space r = freeSpaceLoss (pp_dist ?q) (ip_freq p)" "ir_aref r = A" "ir_mode r = m"
    "ir_delta r = pp_delta ?q" "ir_ns r = N" "ir_takeoff r = pp_takeoff ?q" "ir_he r = pp_he ?q"
    using run v i code lr unfolding pointToPoint_def Let_def by (auto split: prod.splits)
  have np: "intervals ?pfl = length elev - 1" "?pfl ! 0 = real (length elev - 1)" "?pfl ! 1 = step"
    by (simp_all add: pack_intervals) (simp add: pack_def)
  have km: "1000 * ir_km r = pp_dist ?q" using r(1) quickPfl_facts(1) [of ?pfl g "ip_htx p" "ip_hrx p"] by simp
  note h = findHorizons_highest [OF pok, of "1 / g" "ip_htx p" "ip_hrx p", unfolded np]
  note L = longleyRice_Inr [OF lr]
  have "ir_free_space r = freeSpaceLoss (1000 * ir_km r) (ip_freq p)" "0 \<le> ir_delta r"
    using r km quickPfl_delta_nonneg [OF pok] by simp_all
  moreover have "ir_mode r = ModeLineOfSight \<longleftrightarrow> 1000 * ir_km r < fst (smooth_horizons (1 / g) (ir_he r)) + snd (smooth_horizons (1 / g) (ir_he r))"
    using L(8) unfolding km r(4,8) .
  moreover have "ir_km r = real (length elev - 1) * step / 1000" using r(1) np by simp
  moreover note \<open>params_ok p\<close>
  ultimately show ?thesis
    using ok L(1-7) h unfolding r(3-7) quickPfl_facts(2) fst_conv snd_conv by blast
qed

lemma PointToPoint_facts:
  assumes "PointToPoint elev step p = Inr r"
  shows "params_ok p" "ir_mode r \<noteq> ModeNotSet" "ir_free_space r = freeSpaceLoss (real (length elev - 1) * step) (ip_freq p)"
proof -
  note w = PointToPoint_whole [OF assms]
  show "params_ok p" "ir_mode r \<noteq> ModeNotSet" using w by blast+
  have "ir_km r = real (length elev - 1) * step / 1000" using w by blast
  then have "1000 * ir_km r = real (length elev - 1) * step" by (simp only: times_divide_eq_right)
  with w show "ir_free_space r = freeSpaceLoss (real (length elev - 1) * step) (ip_freq p)" by metis
qed

text \<open>A result of PointToPoint comes from parameters in range and belongs to the whole path: the takeoff angles are the
  highest angles at which each antenna sees a sample or the other antenna, the irregularity and the reference attenuation
  are not negative, the mode is set, and it is line of sight exactly within the smooth-earth horizons.\<close>

theorem PointToPoint_result:
  assumes "PointToPoint elev step p = Inr r"
  shows "2 \<le> length elev \<and> 0 < step \<and> params_ok p
    \<and> ir_km r = real (length elev - 1) * step / 1000 \<and> ir_free_space r = freeSpaceLoss (1000 * ir_km r) (ip_freq p)
    \<and> 0 \<le> ir_aref r \<and> 0 \<le> ir_delta r \<and> 150 \<le> ir_ns r \<and> ir_ns r \<le> 400 \<and> ir_mode r \<noteq> ModeNotSet
    \<and> (\<exists>a_e d_tx d_rx. 4000000 \<le> a_e \<and> a_e \<le> 13333333
        \<and> highest (sight_tx (pack elev step) a_e (ip_htx p) (ip_hrx p)) {1..length elev - 1} (\<lambda>i. real i * step) (fst (ir_takeoff r)) d_tx
        \<and> highest (sight_rx (pack elev step) a_e (ip_htx p) (ip_hrx p)) {..<length elev - 1} (\<lambda>i. real (length elev - 1 - i) * step)
            (snd (ir_takeoff r)) d_rx
        \<and> (ir_mode r = ModeLineOfSight \<longleftrightarrow> 1000 * ir_km r < fst (smooth_horizons a_e (ir_he r)) + snd (smooth_horizons a_e (ir_he r))))"
  using PointToPoint_whole [OF assms] .

text \<open>Flat land at sea level with the ground constants of the program: the model accepts it.\<close>

lemma sea_initialized:
  assumes "initializePointToPoint f 0 301 0 15 sigma = (Z, g, N)"
  shows "N = 301" "\<bar>Im Z\<bar> < Re Z" "4000000 \<le> 1 / g" "1 / g \<le> 13333333"
proof -
  let ?z = "Complex 14 (18000 * sigma / f)"
  have N: "N = 301" and g: "g = 157/1000000000 * (1 - 4665/100000 * exp (301 / (1793/10)))"
    and Z0: "Z = csqrt (Complex 15 (18000 * sigma / f) - 1)"
    using assms by (auto simp: initializePointToPoint_def Let_def Vertical_def)
  have "Complex 15 (18000 * sigma / f) - 1 = ?z" by (simp add: complex_eq_iff)
  then have Z: "Z = csqrt ?z" using Z0 by simp
  show "N = 301" by (rule N)
  have c: "0 \<le> cmod ?z - 14" using complex_Re_le_cmod [of ?z] by simp
  have "\<bar>Im Z\<bar> \<le> sqrt ((cmod ?z - 14) / 2)" using c by (auto simp: Z abs_mult sgn_if)
  also have "\<dots> < Re Z" by (simp add: Z)
  finally show "\<bar>Im Z\<bar> < Re Z" .
  have "exp (301 / (1793/10)) \<le> exp (1 + 1 :: real)" by simp
  also have "\<dots> = exp 1 * exp (1::real)" by (simp only: exp_add)
  also have "\<dots> \<le> 3 * 3" using exp_le by (intro mult_mono) auto
  finally have "exp (301 / (1793/10)) \<le> (9::real)" by simp
  moreover have "0 < exp (301 / (1793/10) :: real)" by simp
  moreover have "76/1000000000 \<le> 157/1000000000 * (1 - 4665/100000 * y)" "157/1000000000 * (1 - 4665/100000 * y) \<le> 157/1000000000"
    if "y \<le> 9" "0 < y" for y :: real using that by (simp_all add: field_simps)
  ultimately have "76/1000000000 \<le> g" "g \<le> 157/1000000000" unfolding g by blast+
  then show "4000000 \<le> 1 / g" "1 / g \<le> 13333333" by (simp_all add: field_simps)
qed

lemma mean_height_sea:
  assumes "set elev \<subseteq> {0}" "2 \<le> length elev"
  shows "mean_height (pack elev step) = 0"
proof -
  have zero: "elev_at (pack elev step) i = 0" if "i < length elev" for i using nth_mem [OF that] assms(1) by auto
  have "sum_list (map f is) = 0" if "\<forall>i \<in> set is. f i = (0::real)" for f :: "nat \<Rightarrow> real" and "is" using that by (induction "is") auto
  moreover have "i < length elev" if "i \<in> set [k..<length elev - 1 - k + 1]" for i k using that assms(2) by auto
  ultimately have sum0: "sum_list (map (elev_at (pack elev step)) [k..<length elev - 1 - k + 1]) = 0" for k
    using zero by (metis (no_types, lifting))
  show ?thesis unfolding mean_height_def Let_def pack_intervals sum0 by simp
qed

lemma sea_accepted:
  assumes "set elev \<subseteq> {0}" "2 \<le> length elev" "0 < step" "params_ok p" "ip_n0 p = 301" "ip_polarization p = 0" "ip_epsilon p = 15"
  shows "\<exists>r. PointToPoint elev step p = Inr r"
proof -
  let ?pfl = "pack elev step"
  obtain Z g N where i': "initializePointToPoint (ip_freq p) 0 301 0 15 (ip_sigma p) = (Z, g, N)" by (metis prod_cases3)
  note init = sea_initialized [OF i']
  have i: "initializePointToPoint (ip_freq p) (mean_height ?pfl) (ip_n0 p) (ip_polarization p) (ip_epsilon p) (ip_sigma p) = (Z, g, N)"
    using i' assms(5-7) by (simp add: mean_height_sea [OF assms(1,2)])
  obtain w where "validateInputs p 0 = (success, w)"
    using validateInputs_success [of p 0] assms(4) by (metis prod.collapse)
  moreover obtain A m w' where "longleyRice (quickPfl ?pfl g (ip_htx p) (ip_hrx p)) (ip_freq p) Z g N (ip_htx p, ip_hrx p) P2P w = (Inr (A, m), w')"
    using longleyRice_returns [of N Z g] init by force
  ultimately show ?thesis
    using i assms(2,3) by (simp add: PointToPoint_def pointToPoint_def Let_def split: prod.splits)
qed

lemma sea_params_ok: "params_ok sea_params"
  by (simp add: params_ok_def sea_params_def bad_mdvar_def)

lemma PointToPoint_result_witness: "\<exists>r. PointToPoint [0, 0, 0] 1000 sea_params = Inr r \<and> ir_km r = 2 \<and> 0 \<le> ir_aref r"
proof -
  obtain r where r: "PointToPoint [0, 0, 0] 1000 sea_params = Inr r"
    using sea_accepted [of "[0, 0, 0]" 1000 sea_params] sea_params_ok by (auto simp: sea_params_def)
  from PointToPoint_result [OF r] r show ?thesis by auto
qed

text \<open>Straight terrain is recognised: the least-squares fit of a profile whose heights lie on a line is that line whatever
  part of it is fitted, its irregularity is 0, and irregularity is never negative on any terrain.\<close>

theorem straight_terrain:
  assumes "pfl_ok pfl" "0 \<le> d_start" "d_start \<le> d_end" "d_end \<le> pfl ! 0 * pfl ! 1"
  shows "(straight pfl a b \<longrightarrow> linearLeastSquaresFit pfl d_start d_end = (a, a + b * real (intervals pfl)) \<and> computeDeltaH pfl d_start d_end = 0)
    \<and> 0 \<le> computeDeltaH pfl d_start d_end"
  using fit_straight [OF assms(1-3)] computeDeltaH_straight [OF assms(1,2,4)] computeDeltaH_nonneg [OF assms(3)] assms(3,4) by fastforce

lemma straight_terrain_witness: "linearLeastSquaresFit (pack [5, 7, 9] 100) 0 200 = (5, 9)"
proof -
  have "pack [5, 7, 9] 100 ! 0 = 2" by (simp add: pack_def)
  moreover have "straight (pack [5, 7, 9] 100) 5 2"
    unfolding straight_def pack_intervals by (auto simp: le_Suc_eq numeral_eq_Suc)
  ultimately show ?thesis
    using straight_terrain [of "pack [5, 7, 9] 100" 0 200 5 2] pack_ok [of "[5, 7, 9]" 100] by (simp add: pack_intervals)
qed

text \<open>The reference attenuation is continuous where one mode takes over from the next: at the smooth-earth horizon the
  line-of-sight curve meets the diffraction line, and at its own starting distance the scatter line meets it too.\<close>

theorem reference_continuous:
  "los_reference los M_d A_d0 d_ML d_sML h_e f d_sML = M_d * d_sML + A_d0
   \<and> (case scatter_line tropo M_d A_d0 d_ML d_sML a_e f of (M_s, A_s0, d_x) \<Rightarrow> M_s * d_x + A_s0 = M_d * d_x + A_d0)"
  unfolding los_reference_def scatter_line_def Let_def by (simp add: algebra_simps split: prod.splits)

text \<open>The horizon search finds, for each terminal, the highest angle at which it sees a sample of the terrain or the
  other antenna, and the distance of a point seen at that angle, greater than 0 and at most the length of the path.\<close>

theorem findHorizons_exact:
  assumes "pfl_ok pfl"
  shows "(let hz = findHorizons pfl a_e h_tx h_rx; np = intervals pfl; xi = pfl ! 1 in
      highest (sight_tx pfl a_e h_tx h_rx) {1..np} (\<lambda>i. real i * xi) (theta_tx hz) (hzn_tx hz)
    \<and> highest (sight_rx pfl a_e h_tx h_rx) {..<np} (\<lambda>i. real (np - i) * xi) (theta_rx hz) (hzn_rx hz)
    \<and> 0 < hzn_tx hz \<and> hzn_tx hz \<le> real np * xi \<and> 0 < hzn_rx hz \<and> hzn_rx hz \<le> real np * xi)"
  using findHorizons_highest [OF assms] horizons_within [OF assms] pfl_okD(2) [OF assms] by (simp add: Let_def)

lemma findHorizons_exact_witness: "hzn_tx (findHorizons (pack [0, 9, 0] 100) 8000000 10 10) \<le> 200"
  using findHorizons_exact [of "pack [0, 9, 0] 100" 8000000 10 10] pack_ok [of "[0, 9, 0]" 100] by (simp add: Let_def pack_intervals)

end
