(* ===== verification/Link.thy ===== *)
theory Link
  imports Antenna Itm
begin

text \<open>
  The analysis of one link: src/internal/link/link.go and vegetation.go over the real numbers.
  The terrain, the canopy and the cancellation of the context are parameters, and so is, for the
  proofs, the propagation model; \<open>Analyze\<close> puts the Irregular Terrain Model of theory Itm in its place.
  A panic of the antenna pattern is the result \<open>None\<close>.
\<close>

section \<open>Errors\<close>

datatype dem_error = NoTile | Void | DemError string

datatype link_error = SamePosition | TooFar real | AtSite string point dem_error | AtSample real string point dem_error
  | AtCanopy real string point dem_error | ItmError itm_error | Cancelled

text \<open>errors.Is along the wrapped errors, and Reason.\<close>

fun dem_cause :: "link_error \<Rightarrow> dem_error option" where
  "dem_cause (AtSite _ _ e) = Some e"
| "dem_cause (AtSample _ _ _ e) = Some e"
| "dem_cause (AtCanopy _ _ _ e) = Some e"
| "dem_cause _ = None"

definition dem_reason :: "dem_error option \<Rightarrow> string" where
  "dem_reason cause = (if cause = Some NoTile then ''No terrain data for this area.''
     else if cause = Some Void then ''The terrain data has a gap in this area.'' else ''Calculation failed.'')"

definition Reason :: "link_error \<Rightarrow> string" where
  "Reason e = (case e of
     SamePosition \<Rightarrow> ''Both sites are at the same position.''
   | TooFar _ \<Rightarrow> ''The sites are more than 2000 km apart, beyond the limit of the model.''
   | _ \<Rightarrow> dem_reason (dem_cause e))"

section \<open>Input and constants\<close>

definition minStepM :: real where "minStepM = 10"
definition maxSamples :: nat where "maxSamples = 4000"
definition kFactor :: real where "kFactor = 4 / 3"
definition maxDistM :: real where "maxDistM = 2000000"
definition speedOfLight :: real where "speedOfLight = 299792458"

record 'n place =
  pl_name :: string
  pl_lat :: 'n
  pl_lon :: 'n
  pl_height :: 'n

record 'n radio =
  rd_freq :: 'n
  rd_tx_power :: 'n
  rd_tx_gain :: 'n
  rd_rx_gain :: 'n
  rd_tx_loss :: 'n
  rd_rx_loss :: 'n
  rd_sensitivity :: 'n
  rd_polarization :: int
  rd_tx_pattern :: "'n lobe"
  rd_tx_azimuth :: 'n
  rd_tx_tilt :: 'n
  rd_rx_pattern :: "'n lobe"
  rd_rx_azimuth :: 'n
  rd_rx_tilt :: 'n

record link_input =
  li_a :: "real place"
  li_b :: "real place"
  li_radio :: "real radio"
  li_clutter :: real

definition pos :: "real place \<Rightarrow> point" where
  "pos s = \<lparr>lat = pl_lat s, lon = pl_lon s\<rparr>"

text \<open>The constants of link for itm.Params.\<close>

definition MdvarFixed :: int where "MdvarFixed = 11"
definition MdvarMobile :: int where "MdvarMobile = 12"
definition TimePct :: real where "TimePct = 50"
definition ReliabilityPct :: real where "ReliabilityPct = 99"

definition params_for :: "real \<Rightarrow> real \<Rightarrow> real radio \<Rightarrow> int \<Rightarrow> real \<Rightarrow> itm_params" where
  "params_for htx hrx rd mdvar time = \<lparr>ip_htx = htx, ip_hrx = hrx, ip_freq = rd_freq rd, ip_polarization = rd_polarization rd,
     ip_epsilon = 15, ip_sigma = 5 / 1000, ip_n0 = 301, ip_climate = 5, ip_mdvar = mdvar,
     ip_time = time, ip_location = 50, ip_situation = 50\<rparr>"

type_synonym elevation = "real \<Rightarrow> real \<Rightarrow> dem_error + real"
type_synonym point_to_point = "real list \<Rightarrow> real \<Rightarrow> itm_params \<Rightarrow> itm_error + itm_result"

section \<open>Profile\<close>

record sample =
  s_dist :: real
  s_terrain :: real
  s_bulge :: real
  s_ray :: real
  s_fresnel :: real
  s_canopy :: real

definition profile_sample :: "real list \<Rightarrow> real list option \<Rightarrow> real \<Rightarrow> link_input \<Rightarrow> nat \<Rightarrow> sample" where
  "profile_sample elev canopy step inp i =
     (let n = length elev; d = step * real (n - 1);
          hA = elev ! 0 + pl_height (li_a inp); hB = elev ! (n - 1) + pl_height (li_b inp);
          lambda = speedOfLight / (rd_freq (li_radio inp) * 1000000); re = kFactor * EarthRadius;
          d1 = (if i = n - 1 then d else real i * step); d2 = d - d1
      in \<lparr>s_dist = d1, s_terrain = elev ! i, s_bulge = d1 * d2 / (2 * re), s_ray = hA + (hB - hA) * d1 / d,
          s_fresnel = sqrt (lambda * d1 * d2 / d), s_canopy = (case canopy of None \<Rightarrow> 0 | Some cs \<Rightarrow> cs ! i)\<rparr>)"

definition clear_pct :: "sample \<Rightarrow> real" where
  "clear_pct s = (s_ray s - s_terrain s - s_bulge s - s_canopy s) / s_fresnel s * 100"

text \<open>The worst clearance so far with its distance; \<open>None\<close> is the infinity the search starts from.\<close>

definition keep_worst :: "sample \<Rightarrow> (real \<times> real) option \<Rightarrow> (real \<times> real) option" where
  "keep_worst s w = (case w of
     None \<Rightarrow> Some (clear_pct s, s_dist s)
   | Some (pct, _) \<Rightarrow> if clear_pct s < pct then Some (clear_pct s, s_dist s) else w)"

definition profile :: "real list \<Rightarrow> real list option \<Rightarrow> real \<Rightarrow> link_input \<Rightarrow> sample list \<times> real \<times> real" where
  "profile elev canopy step inp =
     (let n = length elev; ss = map (profile_sample elev canopy step inp) [0..<n];
          worst = fold keep_worst (map (\<lambda>i. ss ! i) [1..<n - 1]) None
      in (ss, case worst of None \<Rightarrow> (0, 0) | Some w \<Rightarrow> w))"

section \<open>Vegetation\<close>

definition gammaDBm :: "real \<Rightarrow> int \<Rightarrow> real" where
  "gammaDBm freq pol = (let f = freq / 1000 in if f < 1 \<and> pol = Vertical then 2 / 10 * f powr (66 / 100) else 2 / 10 * f)"

definition maxAttenuationDB :: "real \<Rightarrow> real" where
  "maxAttenuationDB freq = 137 / 100 * freq powr (42 / 100)"

definition excessDB :: "real \<Rightarrow> real \<Rightarrow> int \<Rightarrow> real" where
  "excessDB dm freq pol = (if dm \<le> 0 then 0
     else (let am = maxAttenuationDB freq in am * (1 - exp (- dm * gammaDBm freq pol / am))))"

definition gap :: "sample \<Rightarrow> real" where
  "gap s = s_ray s - s_terrain s - s_bulge s - s_canopy s"

text \<open>One segment of canopyPath: where it runs inside the canopy, and its shares before and after mid-path.\<close>

definition inside :: "sample \<Rightarrow> sample \<Rightarrow> (real \<times> real) option" where
  "inside p q = (let a = gap p; b = gap q; x0 = s_dist p; x1 = s_dist q; x = x0 + a / (a - b) * (x1 - x0) in
     if a < 0 \<and> b < 0 then Some (x0, x1) else if a < 0 then Some (x0, x) else if b < 0 then Some (x, x1) else None)"

fun canopy_sum :: "real \<Rightarrow> sample list \<Rightarrow> real \<times> real" where
  "canopy_sum mid (p # q # rest) =
     (let (dA, dB) = canopy_sum mid (q # rest) in
      case inside p q of
        None \<Rightarrow> (dA, dB)
      | Some (x0, x1) \<Rightarrow> (max 0 (min x1 mid - x0) + dA, max 0 (x1 - max x0 mid) + dB))"
| "canopy_sum mid _ = (0, 0)"

definition canopyPath :: "sample list \<Rightarrow> real \<times> real" where
  "canopyPath p = (let d = s_dist (last p) in
     if \<not> list_ex (\<lambda>s. 0 \<le> gap s) p then (d, 0) else canopy_sum (d / 2) p)"

section \<open>Analysis\<close>

record link_result =
  lr_distance :: real
  lr_bearing :: real
  lr_terrain_a :: real
  lr_terrain_b :: real
  lr_free_space :: real
  lr_path_loss :: real
  lr_path_loss_rel :: real
  lr_mode :: itm_mode
  lr_warnings :: "string list"
  lr_eirp :: real
  lr_rx_level :: real
  lr_rx_level_rel :: real
  lr_margin :: real
  lr_margin_rel :: real
  lr_tx_takeoff :: real
  lr_rx_takeoff :: real
  lr_tx_off :: real
  lr_rx_off :: real
  lr_tx_pattern_loss :: real
  lr_rx_pattern_loss :: real
  lr_clutter :: real
  lr_has_canopy :: bool
  lr_canopy_a :: real
  lr_canopy_b :: real
  lr_vegetation :: real
  lr_worst_pct :: real
  lr_worst_dist :: real
  lr_profile :: "sample list"

definition sample_count :: "real \<Rightarrow> real \<Rightarrow> nat" where
  "sample_count dm resolution = min (nat \<lceil>dm / max resolution minStepM\<rceil> + 1) maxSamples"

text \<open>The sampling loop: heights of terrain and canopy along the path, or the first error.\<close>

fun sample_path :: "elevation \<Rightarrow> elevation option \<Rightarrow> (nat \<Rightarrow> bool) \<Rightarrow> link_input \<Rightarrow> nat \<Rightarrow> real \<Rightarrow> nat list
    \<Rightarrow> link_error + (real \<times> real) list" where
  "sample_path E C cancelled inp n step [] = Inr []"
| "sample_path E C cancelled inp n step (i # is) =
     (if cancelled i then Inl Cancelled
      else let p = PointAt (pos (li_a inp)) (pos (li_b inp)) (real i / real (n - 1));
               m = real i * step; name = pl_name (li_a inp)
      in case E (lat p) (lon p) of
           Inl e \<Rightarrow> Inl (AtSample m name p e)
         | Inr h \<Rightarrow>
            (case (case C of None \<Rightarrow> Inr 0 | Some c \<Rightarrow> c (lat p) (lon p)) of
               Inl e \<Rightarrow> Inl (AtCanopy m name p e)
             | Inr k \<Rightarrow> (case sample_path E C cancelled inp n step is of Inl e \<Rightarrow> Inl e | Inr ss \<Rightarrow> Inr ((h, k) # ss))))"

text \<open>From the two ITM results to levels and margins.\<close>

definition budget :: "link_input \<Rightarrow> real \<Rightarrow> real \<Rightarrow> real list \<Rightarrow> real list option \<Rightarrow> real \<Rightarrow> itm_result \<Rightarrow> itm_result \<Rightarrow> link_result option" where
  "budget inp dm bearing elev canopy step res rel =
     (let rd = li_radio inp;
          txTakeoff = fst (ir_takeoff res) * 180 / pi; rxTakeoff = snd (ir_takeoff res) * 180 / pi;
          txOff = txTakeoff + rd_tx_tilt rd; rxOff = rxTakeoff + rd_rx_tilt rd
      in case (lobe_att (rd_tx_pattern rd) (Fin (bearing - rd_tx_azimuth rd)) (Fin (- txOff)),
               lobe_att (rd_rx_pattern rd) (Fin (bearing + 180 - rd_rx_azimuth rd)) (Fin (- rxOff))) of
        (Some txLoss, Some rxLoss) \<Rightarrow>
          (let (ss, worst, worstDist) = profile elev canopy step inp;
               (ca, cb) = (if canopy = None then (0, 0) else canopyPath ss);
               veg = (if canopy = None then 0 else excessDB ca (rd_freq rd) (rd_polarization rd) + excessDB cb (rd_freq rd) (rd_polarization rd));
               eirp = rd_tx_power rd + rd_tx_gain rd - txLoss - rd_tx_loss rd;
               rxSide = rd_rx_gain rd - rxLoss - rd_rx_loss rd - li_clutter inp - veg;
               level = eirp - ir_loss res + rxSide; levelRel = eirp - ir_loss rel + rxSide
           in Some \<lparr>lr_distance = dm, lr_bearing = bearing, lr_terrain_a = elev ! 0, lr_terrain_b = elev ! (length elev - 1),
                lr_free_space = ir_free_space res, lr_path_loss = ir_loss res, lr_path_loss_rel = ir_loss rel,
                lr_mode = ir_mode res, lr_warnings = Messages (ir_warnings res), lr_eirp = eirp, lr_rx_level = level, lr_rx_level_rel = levelRel,
                lr_margin = level - rd_sensitivity rd, lr_margin_rel = levelRel - rd_sensitivity rd,
                lr_tx_takeoff = txTakeoff, lr_rx_takeoff = rxTakeoff, lr_tx_off = txOff, lr_rx_off = rxOff,
                lr_tx_pattern_loss = txLoss, lr_rx_pattern_loss = rxLoss, lr_clutter = li_clutter inp,
                lr_has_canopy = (canopy \<noteq> None), lr_canopy_a = ca, lr_canopy_b = cb, lr_vegetation = veg,
                lr_worst_pct = worst, lr_worst_dist = worstDist, lr_profile = ss\<rparr>)
      | _ \<Rightarrow> None)"

definition analyze :: "elevation \<Rightarrow> real \<Rightarrow> elevation option \<Rightarrow> point_to_point \<Rightarrow> (nat \<Rightarrow> bool) \<Rightarrow> link_input
    \<Rightarrow> (link_error + link_result) option" where
  "analyze E resolution C p2p cancelled inp =
     (let a = pos (li_a inp); b = pos (li_b inp); dm = Distance a b; bearing = InitialBearing a b in
      if dm \<le> 0 then Some (Inl SamePosition)
      else if maxDistM < dm then Some (Inl (TooFar dm))
      else case E (lat a) (lon a) of
        Inl e \<Rightarrow> Some (Inl (AtSite (pl_name (li_a inp)) a e))
      | Inr _ \<Rightarrow>
         (let n = sample_count dm resolution; step = dm / real (n - 1) in
          case sample_path E C cancelled inp n step [0..<n] of
            Inl e \<Rightarrow> Some (Inl e)
          | Inr ss \<Rightarrow>
             (let elev = map fst ss; canopy = map_option (\<lambda>_. map snd ss) C;
                  par = params_for (pl_height (li_a inp)) (pl_height (li_b inp)) (li_radio inp) MdvarFixed TimePct
              in case p2p elev step par of
                Inl e \<Rightarrow> Some (Inl (ItmError e))
              | Inr res \<Rightarrow>
                 (case p2p elev step (par\<lparr>ip_time := ReliabilityPct\<rparr>) of
                    Inl e \<Rightarrow> Some (Inl (ItmError e))
                  | Inr rel \<Rightarrow> map_option Inr (budget inp dm bearing elev canopy step res rel)))))"

definition Analyze :: "elevation \<Rightarrow> real \<Rightarrow> elevation option \<Rightarrow> (nat \<Rightarrow> bool) \<Rightarrow> link_input \<Rightarrow> (link_error + link_result) option" where
  "Analyze E resolution C = analyze E resolution C PointToPoint"

section \<open>Facts about the canopy path\<close>

text \<open>The crossing point of a segment lies on the segment.\<close>

lemma crossing_between:
  fixes a b x0 x1 :: real
  assumes "x0 \<le> x1" "a < 0 \<and> 0 \<le> b \<or> 0 \<le> a \<and> b < 0"
  shows "x0 \<le> x0 + a / (a - b) * (x1 - x0)" "x0 + a / (a - b) * (x1 - x0) \<le> x1"
proof -
  have f: "0 \<le> a / (a - b)" "a / (a - b) \<le> 1"
    using assms(2) by (auto simp: divide_simps)
  then have "0 \<le> a / (a - b) * (x1 - x0)" using assms(1) by (intro mult_nonneg_nonneg) simp_all
  then show "x0 \<le> x0 + a / (a - b) * (x1 - x0)" by simp
  have "a / (a - b) * (x1 - x0) \<le> 1 * (x1 - x0)" using f assms(1) by (intro mult_right_mono) simp_all
  then show "x0 + a / (a - b) * (x1 - x0) \<le> x1" by simp
qed

lemma inside_segment:
  assumes "inside p q = Some (x0, x1)" "s_dist p \<le> s_dist q"
  shows "s_dist p \<le> x0" "x0 \<le> s_dist q" "s_dist p \<le> x1" "x1 \<le> s_dist q"
  using assms crossing_between [OF assms(2), of "gap p" "gap q"]
  by (auto simp: inside_def Let_def not_less split: if_splits)

definition ascending :: "sample list \<Rightarrow> bool" where
  "ascending p \<longleftrightarrow> sorted (map s_dist p)"

text \<open>The shares telescope: before mid-path at most the way to mid-path, and the same after it.\<close>

lemma canopy_sum_bounds:
  assumes "ascending (p # ps)" "canopy_sum mid (p # ps) = (dA, dB)"
  shows "0 \<le> dA \<and> dA \<le> min (s_dist (last (p # ps))) mid - min (s_dist p) mid
    \<and> 0 \<le> dB \<and> dB \<le> max (s_dist (last (p # ps))) mid - max (s_dist p) mid"
  using assms
proof (induction ps arbitrary: p dA dB)
  case (Cons q rest)
  obtain cA cB where c: "canopy_sum mid (q # rest) = (cA, cB)" by fastforce
  from Cons.prems(1) have asc: "ascending (q # rest)" "s_dist p \<le> s_dist q" by (simp_all add: ascending_def)
  note ih = Cons.IH [OF asc(1) c]
  show ?case
  proof (cases "inside p q")
    case None
    with Cons.prems(2) c have "dA = cA" "dB = cB" by simp_all
    with ih asc(2) show ?thesis by auto
  next
    case (Some x)
    obtain x0 x1 where x: "x = (x0, x1)" by fastforce
    note seg = inside_segment [OF Some [unfolded x] asc(2)]
    from Cons.prems(2) c Some x have d: "dA = max 0 (min x1 mid - x0) + cA" "dB = max 0 (x1 - max x0 mid) + cB" by simp_all
    have "max 0 (min x1 mid - x0) \<le> min (s_dist q) mid - min (s_dist p) mid"
      "max 0 (x1 - max x0 mid) \<le> max (s_dist q) mid - max (s_dist p) mid" using seg by auto
    with ih have "0 \<le> dA" "0 \<le> dB" "dA \<le> min (s_dist (last (q # rest))) mid - min (s_dist p) mid"
      "dB \<le> max (s_dist (last (q # rest))) mid - max (s_dist p) mid" unfolding d by linarith+
    then show ?thesis by simp
  qed
qed simp

section \<open>Facts about profiles\<close>

lemma fold_keep_worst:
  "fold keep_worst ss w = Some (pct, m) \<Longrightarrow>
     (w = Some (pct, m) \<or> (\<exists>s \<in> set ss. pct = clear_pct s \<and> m = s_dist s))
     \<and> (\<forall>s \<in> set ss. pct \<le> clear_pct s) \<and> (\<forall>p' m'. w = Some (p', m') \<longrightarrow> pct \<le> p')"
proof (induction ss arbitrary: w)
  case (Cons s ss)
  from Cons.prems have "fold keep_worst ss (keep_worst s w) = Some (pct, m)" by simp
  from Cons.IH [OF this] show ?case by (auto simp: keep_worst_def split: option.splits if_splits)
qed simp

lemma fold_keep_worst_None: "fold keep_worst ss w = None \<longleftrightarrow> ss = [] \<and> w = None"
  by (induction ss arbitrary: w) (auto simp: keep_worst_def split: option.splits)

lemma sample_count_bounds:
  assumes "0 < d"
  shows "2 \<le> sample_count d r" "sample_count d r \<le> maxSamples"
proof -
  have "0 < d / max r minStepM" using assms by (simp add: minStepM_def divide_pos_pos)
  then show "2 \<le> sample_count d r" by (simp add: sample_count_def maxSamples_def) linarith
qed (simp add: sample_count_def)

lemma sample_path_Inr:
  assumes "sample_path E C cancelled inp n step is = Inr ss"
  shows "length ss = length is"
    and "\<forall>j < length is. E (lat (PointAt (pos (li_a inp)) (pos (li_b inp)) (real (is ! j) / real (n - 1))))
        (lon (PointAt (pos (li_a inp)) (pos (li_b inp)) (real (is ! j) / real (n - 1)))) = Inr (fst (ss ! j))"
  using assms
proof (induction "is" arbitrary: ss)
  case (Cons i "is")
  { case 1 with Cons.IH(1) show ?case by (auto simp: Let_def split: if_splits sum.splits) }
  { case 2 with Cons.IH(2) show ?case by (auto simp: Let_def nth_Cons' split: if_splits sum.splits) }
qed simp_all

lemma sample_path_error: "sample_path E C cancelled inp n step is \<noteq> Inl (ItmError e)"
  by (induction "is") (auto simp: Let_def split: sum.splits option.splits)

lemma sample_path_total:
  "(\<And>x y. \<exists>h. E x y = Inr h) \<Longrightarrow> (\<And>i. \<not> cancelled i) \<Longrightarrow> \<exists>ss. sample_path E None cancelled inp n step is = Inr ss"
proof (induction "is")
  case (Cons i "is")
  from Cons.prems(1) obtain h where "\<And>x y. E x y = Inr (h x y)" by metis
  with Cons show ?case by (auto simp: Let_def)
qed simp

lemma PointAt_ends [simp]: "PointAt a b 0 = a" "PointAt a b 1 = b"
  by (simp_all add: PointAt_def)

lemma excessDB_nonneg:
  assumes "0 < freq"
  shows "0 \<le> excessDB d freq pol"
proof -
  have "0 < maxAttenuationDB freq" "0 \<le> gammaDBm freq pol" using assms by (simp_all add: maxAttenuationDB_def gammaDBm_def Let_def)
  then show ?thesis by (auto simp: excessDB_def Let_def divide_nonneg_nonneg mult_nonneg_nonneg intro!: mult_nonneg_nonneg)
qed

text \<open>What a budget reports.\<close>

lemma budget_Some:
  assumes "budget inp d b elev canopy step res rel = Some r" "profile elev canopy step inp = (pr, worst, m)" "canopyPath pr = (ca, cb)"
  shows "lr_distance r = d" "lr_profile r = pr" "lr_terrain_a r = elev ! 0" "lr_terrain_b r = elev ! (length elev - 1)"
    "lr_margin r - lr_margin_rel r = lr_path_loss_rel r - lr_path_loss r"
    "lr_rx_level r = lr_eirp r - lr_path_loss r + (rd_rx_gain (li_radio inp) - lr_rx_pattern_loss r
        - rd_rx_loss (li_radio inp) - li_clutter inp - lr_vegetation r)"
    "(lr_canopy_a r, lr_canopy_b r) = (if canopy = None then (0, 0) else (ca, cb))"
    "lr_vegetation r = (if canopy = None then 0 else excessDB ca (rd_freq (li_radio inp)) (rd_polarization (li_radio inp))
        + excessDB cb (rd_freq (li_radio inp)) (rd_polarization (li_radio inp)))"
  using assms by (auto simp: budget_def Let_def split: option.splits if_splits)

section \<open>Properties\<close>

lemma canopy_shares:
  assumes "ascending p" "p \<noteq> []" "s_dist (hd p) = 0" "canopyPath p = (dA, dB)"
  shows "0 \<le> dA \<and> 0 \<le> dB \<and> dA + dB \<le> s_dist (last p)
    \<and> ((\<exists>s \<in> set p. 0 \<le> gap s) \<longrightarrow> dA \<le> s_dist (last p) / 2 \<and> dB \<le> s_dist (last p) / 2)
    \<and> ((\<forall>s \<in> set p. gap s < 0) \<longrightarrow> dA = s_dist (last p))
    \<and> ((\<forall>s \<in> set p. 0 \<le> gap s) \<longrightarrow> dA = 0 \<and> dB = 0)"
proof -
  obtain q qs where p: "p = q # qs" using assms(2) by (cases p) auto
  have d: "0 \<le> s_dist (last p)"
    using assms(1,3) last_in_set [OF assms(2)] by (auto simp: p ascending_def simp del: last.simps last_in_set)
  have clear: "canopy_sum m (x # xs) = (0, 0)" if "\<forall>s \<in> set (x # xs). 0 \<le> gap s" for m x xs
    using that by (induction xs arbitrary: x) (simp_all add: inside_def Let_def)
  show ?thesis
  proof (cases "list_ex (\<lambda>s. 0 \<le> gap s) p")
    case False
    then have "dA = s_dist (last p)" "dB = 0" "\<forall>s \<in> set p. gap s < 0"
      using assms(4) by (auto simp: canopyPath_def Let_def list_ex_iff not_le)
    with d p show ?thesis by fastforce
  next
    case True
    then have sum: "canopy_sum (s_dist (last p) / 2) p = (dA, dB)" and ex: "\<exists>s \<in> set p. 0 \<le> gap s"
      using assms(4) by (simp_all add: canopyPath_def Let_def list_ex_iff)
    have "dA \<le> s_dist (last p) / 2" "dB \<le> s_dist (last p) / 2" "0 \<le> dA" "0 \<le> dB"
      using canopy_sum_bounds [of q qs "s_dist (last p) / 2" dA dB] assms(1,3) sum d by (simp_all add: p)
    moreover have "dA = 0 \<and> dB = 0" if "\<forall>s \<in> set p. 0 \<le> gap s"
      using clear [of q qs] that sum by (simp add: p)
    ultimately show ?thesis using ex by force
  qed
qed

text \<open>The canopy path of a profile with ascending distances from 0 is split into two shares that are not negative and
  together at most the whole path; unless the path is blocked everywhere (it then counts towards the first end) each
  share is at most half of it, and a profile that is clear everywhere has none.\<close>

theorem canopyPath_bounds:
  assumes "ascending p" "p \<noteq> []" "s_dist (hd p) = 0" "canopyPath p = (dA, dB)"
  shows "0 \<le> dA \<and> 0 \<le> dB \<and> dA + dB \<le> s_dist (last p)
    \<and> ((\<exists>s \<in> set p. 0 \<le> gap s) \<longrightarrow> dA \<le> s_dist (last p) / 2 \<and> dB \<le> s_dist (last p) / 2)
    \<and> ((\<forall>s \<in> set p. gap s < 0) \<longrightarrow> dA = s_dist (last p))
    \<and> ((\<forall>s \<in> set p. 0 \<le> gap s) \<longrightarrow> dA = 0 \<and> dB = 0)"
  using canopy_shares [OF assms] .

definition demo_sample :: "real \<Rightarrow> real \<Rightarrow> sample" where
  "demo_sample d h = \<lparr>s_dist = d, s_terrain = 0, s_bulge = 0, s_ray = 10, s_fresnel = 1, s_canopy = h\<rparr>"

lemma canopyPath_bounds_witness:
  "canopyPath [demo_sample 0 20, demo_sample 100 0, demo_sample 200 0] = (50, 0) \<and> 50 + 0 \<le> (200::real)"
proof -
  have v: "canopyPath [demo_sample 0 20, demo_sample 100 0, demo_sample 200 0] = (50, 0)"
    by (simp add: canopyPath_def gap_def inside_def demo_sample_def)
  with canopyPath_bounds [OF _ _ _ v] show ?thesis by (simp add: ascending_def demo_sample_def)
qed

lemma profile_shape:
  assumes "2 \<le> length elev" "0 < step" "profile elev canopy step inp = (ss, worst, m)"
  shows "length ss = length elev \<and> s_dist (hd ss) = 0 \<and> s_dist (last ss) = step * real (length elev - 1)
    \<and> s_ray (hd ss) = elev ! 0 + pl_height (li_a inp) \<and> s_ray (last ss) = elev ! (length elev - 1) + pl_height (li_b inp)
    \<and> s_bulge (hd ss) = 0 \<and> s_bulge (last ss) = 0 \<and> s_fresnel (hd ss) = 0 \<and> s_fresnel (last ss) = 0 \<and> ascending ss
    \<and> (\<forall>i. 0 < i \<and> i < length elev - 1 \<longrightarrow> worst \<le> clear_pct (ss ! i))
    \<and> (2 < length elev \<longrightarrow> (\<exists>i. 0 < i \<and> i < length elev - 1 \<and> worst = clear_pct (ss ! i) \<and> m = s_dist (ss ! i)))"
proof -
  let ?n = "length elev" and ?f = "profile_sample elev canopy step inp"
  let ?w = "fold keep_worst (map (\<lambda>i. ss ! i) [1..<?n - 1]) None"
  have ss: "ss = map ?f [0..<?n]" and w: "(case ?w of None \<Rightarrow> (0, 0) | Some x \<Rightarrow> x) = (worst, m)"
    using assms(3) by (auto simp: profile_def Let_def)
  have hd: "hd ss = ?f 0" using assms(1) by (cases "length elev") (auto simp: ss upt_conv_Cons simp del: upt_Suc)
  have last: "last ss = ?f (?n - 1)" using assms(1) by (cases "?n") (auto simp: ss last_map)
  have pos: "0 < step * real (?n - 1)" using assms(1,2) by (intro mult_pos_pos) simp_all
  have mono: "s_dist (?f i) \<le> s_dist (?f j)" if "i \<le> j" "j < ?n" for i j
  proof -
    have "s_dist (?f k) = real k * step" if "k < ?n" for k by (simp add: profile_sample_def Let_def mult.commute)
    then show ?thesis using that assms(2) by (simp add: mult_right_mono)
  qed
  have asc: "ascending ss" unfolding ascending_def sorted_iff_nth_mono using mono by (simp add: ss)
  have ends: "s_dist (?f 0) = 0 \<and> s_dist (?f (?n - 1)) = step * real (?n - 1)
      \<and> s_ray (?f 0) = elev ! 0 + pl_height (li_a inp) \<and> s_ray (?f (?n - 1)) = elev ! (?n - 1) + pl_height (li_b inp)
      \<and> s_bulge (?f 0) = 0 \<and> s_bulge (?f (?n - 1)) = 0 \<and> s_fresnel (?f 0) = 0 \<and> s_fresnel (?f (?n - 1)) = 0"
    using pos assms(1) by (auto simp: profile_sample_def Let_def)
  have least: "worst \<le> clear_pct (ss ! i)" if "0 < i" "i < ?n - 1" for i
  proof -
    have i: "i \<in> set [1..<?n - 1]" using that by simp
    then have "[1..<?n - 1] \<noteq> []" by force
    then have "?w \<noteq> None" by (simp only: fold_keep_worst_None map_is_Nil_conv simp_thms)
    then have "?w = Some (worst, m)" using w by (auto split: option.splits)
    from fold_keep_worst [OF this] show ?thesis using i by auto
  qed
  have at: "\<exists>i. 0 < i \<and> i < ?n - 1 \<and> worst = clear_pct (ss ! i) \<and> m = s_dist (ss ! i)" if "2 < ?n"
  proof -
    have "?w \<noteq> None" using that by (simp add: fold_keep_worst_None)
    then have "?w = Some (worst, m)" using w by (auto split: option.splits)
    from fold_keep_worst [OF this] obtain i where "i \<in> set [1..<?n - 1]" "worst = clear_pct (ss ! i)" "m = s_dist (ss ! i)" by auto
    then show ?thesis by (intro exI [of _ i]) simp
  qed
  show ?thesis using ends asc least at by (simp add: hd last) (simp add: ss)
qed

text \<open>C11: A successful analysis is of a path longer than nothing and not beyond the limit of the model, sampled at 2 to 4000
  points from the first site to the second, with the terrain heights of the sites; its two margins differ exactly by
  the two path losses, the level is what the budget says, and vegetation never adds to it.\<close>

theorem analyze_sound:
  assumes "analyze E res C p2p cancelled inp = Some (Inr r)" "0 < rd_freq (li_radio inp)"
  shows "0 < lr_distance r \<and> lr_distance r \<le> maxDistM
    \<and> 2 \<le> length (lr_profile r) \<and> length (lr_profile r) \<le> maxSamples
    \<and> s_dist (hd (lr_profile r)) = 0 \<and> s_dist (last (lr_profile r)) = lr_distance r
    \<and> E (pl_lat (li_a inp)) (pl_lon (li_a inp)) = Inr (lr_terrain_a r)
    \<and> E (pl_lat (li_b inp)) (pl_lon (li_b inp)) = Inr (lr_terrain_b r)
    \<and> lr_margin r - lr_margin_rel r = lr_path_loss_rel r - lr_path_loss r
    \<and> lr_rx_level r = lr_eirp r - lr_path_loss r + (rd_rx_gain (li_radio inp) - lr_rx_pattern_loss r
        - rd_rx_loss (li_radio inp) - li_clutter inp - lr_vegetation r)
    \<and> 0 \<le> lr_vegetation r \<and> (C = None \<longrightarrow> lr_vegetation r = 0)
    \<and> 0 \<le> lr_canopy_a r \<and> 0 \<le> lr_canopy_b r \<and> lr_canopy_a r + lr_canopy_b r \<le> lr_distance r"
proof -
  let ?a = "pos (li_a inp)" and ?b = "pos (li_b inp)"
  let ?d = "Distance ?a ?b"
  let ?n = "sample_count ?d res"
  let ?step = "?d / real (?n - 1)"
  from assms(1) have d: "0 < ?d" "?d \<le> maxDistM" by (auto simp: analyze_def Let_def split: if_splits)
  from assms(1) obtain ss e0 r1 r2 where path: "sample_path E C cancelled inp ?n ?step [0..<?n] = Inr ss"
    and bud: "budget inp ?d (InitialBearing ?a ?b) (map fst ss) (map_option (\<lambda>_. map snd ss) C) ?step r1 r2 = Some r"
    by (auto simp: analyze_def Let_def split: if_splits sum.splits option.splits)
  have n: "2 \<le> ?n" "?n \<le> maxSamples" using sample_count_bounds [OF d(1)] by simp_all
  have len: "length ss = ?n" using sample_path_Inr(1) [OF path] by simp
  have step: "0 < ?step" "?step * real (?n - 1) = ?d" using d n by simp_all
  note at = sample_path_Inr(2) [OF path]
  have "E (lat ?a) (lon ?a) = Inr (fst (ss ! 0))" using at [rule_format, of 0] n by simp
  moreover have "E (lat ?b) (lon ?b) = Inr (fst (ss ! (?n - 1)))" using at [rule_format, of "?n - 1"] n by simp
  ultimately have ends: "E (pl_lat (li_a inp)) (pl_lon (li_a inp)) = Inr (map fst ss ! 0)"
    "E (pl_lat (li_b inp)) (pl_lon (li_b inp)) = Inr (map fst ss ! (length (map fst ss) - 1))" using n by (simp_all add: pos_def len)
  obtain pr worst m where pr: "profile (map fst ss) (map_option (\<lambda>_. map snd ss) C) ?step inp = (pr, worst, m)" by (metis prod_cases3)
  have geo: "length pr = ?n" "s_dist (hd pr) = 0" "s_dist (last pr) = ?d" "ascending pr"
    using profile_shape [OF _ step(1) pr] n step(2) by (simp_all add: len)
  obtain ca cb where c: "canopyPath pr = (ca, cb)" by fastforce
  have ne: "pr \<noteq> []" using geo(1) n by auto
  note shares = canopy_shares [OF geo(4) ne geo(2) c]
  have veg: "0 \<le> excessDB x (rd_freq (li_radio inp)) (rd_polarization (li_radio inp))" for x by (rule excessDB_nonneg) (rule assms(2))
  have r: "lr_distance r = ?d \<and> lr_profile r = pr \<and> lr_terrain_a r = map fst ss ! 0 \<and> lr_terrain_b r = map fst ss ! (length (map fst ss) - 1)
    \<and> lr_margin r - lr_margin_rel r = lr_path_loss_rel r - lr_path_loss r
    \<and> lr_rx_level r = lr_eirp r - lr_path_loss r + (rd_rx_gain (li_radio inp) - lr_rx_pattern_loss r
        - rd_rx_loss (li_radio inp) - li_clutter inp - lr_vegetation r)
    \<and> (lr_canopy_a r, lr_canopy_b r) = (if C = None then (0, 0) else (ca, cb))
    \<and> (lr_vegetation r = (if C = None then 0 else excessDB ca (rd_freq (li_radio inp)) (rd_polarization (li_radio inp))
        + excessDB cb (rd_freq (li_radio inp)) (rd_polarization (li_radio inp))))"
    using budget_Some [OF bud pr c] by simp
  show ?thesis
  proof (cases "C = None")
    case True
    with r ends d n geo show ?thesis by simp
  next
    case False
    with r ends d n geo shares veg [of ca] veg [of cb] show ?thesis by (simp del: not_None_eq)
  qed
qed

definition omni :: "real lobe" where
  "omni = \<lparr>lobe_h = [], lobe_v = []\<rparr>"

definition demo_radio :: "real radio" where
  "demo_radio = \<lparr>rd_freq = 145, rd_tx_power = 40, rd_tx_gain = 3, rd_rx_gain = 3, rd_tx_loss = 1, rd_rx_loss = 1, rd_sensitivity = - 110,
     rd_polarization = Vertical, rd_tx_pattern = omni, rd_tx_azimuth = 0, rd_tx_tilt = 0, rd_rx_pattern = omni, rd_rx_azimuth = 0, rd_rx_tilt = 0\<rparr>"

definition demo_path :: link_input where
  "demo_path = \<lparr>li_a = \<lparr>pl_name = ''A'', pl_lat = 0, pl_lon = 0, pl_height = 10\<rparr>, li_b = \<lparr>pl_name = ''B'', pl_lat = 0, pl_lon = 1, pl_height = 10\<rparr>,
     li_radio = demo_radio, li_clutter = 0\<rparr>"

definition flat_earth :: elevation where
  "flat_earth x y = Inr 500"

definition demo_itm :: point_to_point where
  "demo_itm elev step par = Inr \<lparr>ir_loss = 120, ir_mode = ModeLineOfSight, ir_warnings = 0, ir_theta = (0, 0), ir_takeoff = (0, 0), ir_hzn = (0, 0),
     ir_he = (10, 10), ir_ns = 301, ir_delta = 0, ir_aref = 10, ir_free_space = 110, ir_km = 1\<rparr>"

text \<open>One degree of the equator.\<close>

lemma demo_distance: "Distance (pos (li_a demo_path)) (pos (li_b demo_path)) = EarthRadius * (pi / 180)"
proof -
  have "haversine (pos (li_a demo_path)) (pos (li_b demo_path)) = (sin (pi / 360))\<^sup>2"
    by (simp add: haversine_def demo_path_def pos_def rad_def power2_eq_square)
  moreover have "0 \<le> sin (pi / 360)" by (rule sin_ge_zero) simp_all
  moreover have "sin (pi / 360) \<le> 1" by simp
  moreover have "arcsin (sin (pi / 360)) = pi / 360" by (rule arcsin_sin) simp_all
  ultimately show ?thesis by (simp add: Distance_def min_absorb2)
qed

lemma omni_lossless: "lobe_att omni (Fin a) (Fin e) = Some 0"
  by (simp add: lobe_att_def omni_def pattern_att_def Steps_def Front_def Let_def)

lemma demo_analysis: "\<exists>r. analyze flat_earth 30 None demo_itm (\<lambda>_. False) demo_path = Some (Inr r)"
proof -
  let ?d = "EarthRadius * (pi / 180)"
  have "0 < ?d" "?d \<le> maxDistM" using pi_less_4 by (simp_all add: EarthRadius_def maxDistM_def)
  moreover obtain ss where "sample_path flat_earth None (\<lambda>_. False) demo_path (sample_count ?d 30) (?d / real (sample_count ?d 30 - 1))
      [0..<sample_count ?d 30] = Inr ss"
    using sample_path_total [of flat_earth "\<lambda>_. False" demo_path "sample_count ?d 30" "?d / real (sample_count ?d 30 - 1)"
      "[0..<sample_count ?d 30]"] unfolding flat_earth_def by blast
  moreover have "\<exists>r. budget demo_path ?d b (map fst ss) None step x y = Some r" for b step x y
    by (auto simp: budget_def Let_def omni_lossless demo_path_def demo_radio_def split: prod.splits)
  ultimately show ?thesis
    by (auto simp: analyze_def Let_def demo_distance demo_itm_def split: sum.splits) (use EarthRadius_pos pi_gt_zero in \<open>simp_all add: flat_earth_def mult_le_0_iff\<close>)
qed

lemma analyze_sound_witness:
  "\<exists>r. analyze flat_earth 30 None demo_itm (\<lambda>_. False) demo_path = Some (Inr r) \<and> lr_terrain_a r = 500 \<and> 0 < lr_distance r"
proof -
  from demo_analysis obtain r where r: "analyze flat_earth 30 None demo_itm (\<lambda>_. False) demo_path = Some (Inr r)" ..
  from analyze_sound [OF this] r show ?thesis by (simp add: demo_path_def demo_radio_def flat_earth_def)
qed

text \<open>A profile starts at distance 0 and ends at the length of the path, the ray starts and ends at the tips of the
  antennas without earth bulge or Fresnel zone, and the reported clearance is the least of all samples between the
  ends, at the distance it is reported for.\<close>

theorem profile_geometry:
  assumes "2 \<le> length elev" "0 < step" "profile elev canopy step inp = (ss, worst, m)"
  shows "length ss = length elev \<and> s_dist (hd ss) = 0 \<and> s_dist (last ss) = step * real (length elev - 1)
    \<and> s_ray (hd ss) = elev ! 0 + pl_height (li_a inp) \<and> s_ray (last ss) = elev ! (length elev - 1) + pl_height (li_b inp)
    \<and> s_bulge (hd ss) = 0 \<and> s_bulge (last ss) = 0 \<and> s_fresnel (hd ss) = 0 \<and> s_fresnel (last ss) = 0 \<and> ascending ss
    \<and> (\<forall>i. 0 < i \<and> i < length elev - 1 \<longrightarrow> worst \<le> clear_pct (ss ! i))
    \<and> (2 < length elev \<longrightarrow> (\<exists>i. 0 < i \<and> i < length elev - 1 \<and> worst = clear_pct (ss ! i) \<and> m = s_dist (ss ! i)))"
  using profile_shape [OF assms] .

lemma profile_geometry_witness:
  "case profile [0, 5, 0] None 100 demo_path of (ss, worst, m) \<Rightarrow> length ss = 3 \<and> m = s_dist (ss ! 1)"
proof -
  obtain ss worst m where p: "profile [0, 5, 0] None 100 demo_path = (ss, worst, m)" by (metis prod_cases3)
  note g = profile_geometry [OF _ _ p]
  have "length ss = 3" using conjunct1 [OF g] by simp
  moreover obtain i where "0 < i" "i < (2::nat)" "m = s_dist (ss ! i)" using g by auto
  moreover from this have "i = 1" by simp
  ultimately show ?thesis by (simp only: p prod.case)
qed

text \<open>The analysis with the Irregular Terrain Model as the program runs it: a result is for antenna heights and a
  frequency in the model's range, its free-space loss is that of the distance and its mode is set; if the model refuses
  the path, then with one of its listed codes and never for the profile handed to it.\<close>

theorem Analyze_model:
  "(\<forall>r. Analyze E res C cancelled inp = Some (Inr r) \<longrightarrow>
       1/2 \<le> pl_height (li_a inp) \<and> pl_height (li_a inp) \<le> 3000 \<and> 1/2 \<le> pl_height (li_b inp) \<and> pl_height (li_b inp) \<le> 3000
     \<and> 20 \<le> rd_freq (li_radio inp) \<and> rd_freq (li_radio inp) \<le> 20000 \<and> lr_mode r \<noteq> ModeNotSet
     \<and> lr_free_space r = freeSpaceLoss (lr_distance r) (rd_freq (li_radio inp)) \<and> set (lr_warnings r) \<subseteq> snd ` set warningText)
   \<and> (\<forall>e. Analyze E res C cancelled inp = Some (Inl (ItmError e)) \<longrightarrow> (\<exists>c. e = ItmCode c \<and> c \<in> fst ` set codeErrors))"
proof -
  let ?d = "Distance (pos (li_a inp)) (pos (li_b inp))"
  let ?n = "sample_count ?d res"
  let ?step = "?d / real (?n - 1)"
  let ?par = "params_for (pl_height (li_a inp)) (pl_height (li_b inp)) (li_radio inp) MdvarFixed TimePct"
  have refused: "\<exists>c. e = ItmCode c \<and> c \<in> fst ` set codeErrors"
    if "PointToPoint elev step p = Inl e" "2 \<le> length elev" "0 < step" for elev step p e
    using PointToPoint_codes [OF that(1)] that(2,3) by (cases e) auto
  have profile: "2 \<le> length ss \<and> 0 < ?step \<and> real (length ss - 1) * ?step = ?d"
    if "\<not> ?d \<le> 0" "sample_path E C cancelled inp ?n ?step [0..<?n] = Inr ss" for ss
    using sample_count_bounds [of ?d res] sample_path_Inr(1) [OF that(2)] that(1) by simp
  show ?thesis
  proof (intro conjI allI impI)
    fix e assume "Analyze E res C cancelled inp = Some (Inl (ItmError e))"
    then obtain ss p where d: "\<not> ?d \<le> 0" and path: "sample_path E C cancelled inp ?n ?step [0..<?n] = Inr ss"
      and itm: "PointToPoint (map fst ss) ?step p = Inl e"
      using sample_path_error [of E C cancelled inp ?n ?step "[0..<?n]"]
      by (auto simp: Analyze_def analyze_def Let_def split: if_splits sum.splits option.splits)
    from refused [OF itm] profile [OF d path] show "\<exists>c. e = ItmCode c \<and> c \<in> fst ` set codeErrors" by simp
  next
    fix r assume "Analyze E res C cancelled inp = Some (Inr r)"
    then obtain ss r1 r2 where d: "\<not> ?d \<le> 0" and path: "sample_path E C cancelled inp ?n ?step [0..<?n] = Inr ss"
      and itm: "PointToPoint (map fst ss) ?step ?par = Inr r1"
      and bud: "budget inp ?d (InitialBearing (pos (li_a inp)) (pos (li_b inp))) (map fst ss) (map_option (\<lambda>_. map snd ss) C) ?step r1 r2 = Some r"
      by (auto simp: Analyze_def analyze_def Let_def split: if_splits sum.splits option.splits)
    note m = PointToPoint_facts [OF itm]
    have len: "real (length ss - 1) * ?step = ?d" using profile [OF d path] by blast
    have b: "lr_mode r = ir_mode r1" "lr_free_space r = ir_free_space r1" "lr_distance r = ?d" "lr_warnings r = Messages (ir_warnings r1)"
      using bud by (auto simp: budget_def Let_def split: option.splits prod.splits)
    show "1/2 \<le> pl_height (li_a inp)" "pl_height (li_a inp) \<le> 3000" "1/2 \<le> pl_height (li_b inp)" "pl_height (li_b inp) \<le> 3000"
      "20 \<le> rd_freq (li_radio inp)" "rd_freq (li_radio inp) \<le> 20000"
      using m(1) by (simp_all add: params_ok_def params_for_def)
    show "lr_mode r \<noteq> ModeNotSet" using m(2) b(1) by simp
    show "lr_free_space r = freeSpaceLoss (lr_distance r) (rd_freq (li_radio inp))"
      using m(3) unfolding b(2,3) length_map len by (simp add: params_for_def)
    show "set (lr_warnings r) \<subseteq> snd ` set warningText" unfolding b(4) Messages_def by auto
  qed
qed

definition sea :: elevation where
  "sea x y = Inr 0"

definition sea_path :: link_input where
  "sea_path = demo_path\<lparr>li_radio := demo_radio\<lparr>rd_polarization := Horizontal\<rparr>\<rparr>"

lemma sea_samples: "sample_path sea None cancelled inp n step is = Inr ss \<Longrightarrow> set (map fst ss) \<subseteq> {0}"
  by (induction "is" arbitrary: ss) (force simp: Let_def sea_def split: if_splits sum.splits)+

lemma sea_analysis: "\<exists>r. Analyze sea 30 None (\<lambda>_. False) sea_path = Some (Inr r)"
proof -
  let ?d = "EarthRadius * (pi / 180)"
  let ?n = "sample_count ?d 30"
  let ?step = "?d / real (?n - 1)"
  let ?par = "\<lambda>t. params_for (pl_height (li_a sea_path)) (pl_height (li_b sea_path)) (li_radio sea_path) MdvarFixed t"
  have pos: "Distance (pos (li_a sea_path)) (pos (li_b sea_path)) = ?d" using demo_distance by (simp add: sea_path_def)
  have d: "0 < ?d" "?d \<le> maxDistM" using pi_less_4 by (simp_all add: EarthRadius_def maxDistM_def)
  obtain ss where path: "sample_path sea None (\<lambda>_. False) sea_path ?n ?step [0..<?n] = Inr ss"
    using sample_path_total [of sea "\<lambda>_. False" sea_path ?n ?step "[0..<?n]"] unfolding sea_def by blast
  have n: "2 \<le> ?n" "length ss = ?n" using sample_count_bounds [OF d(1)] sample_path_Inr(1) [OF path] by simp_all
  have "params_ok (?par t)" if "0 < t" "t < 100" for t
    using that by (simp add: params_ok_def params_for_def sea_path_def demo_path_def demo_radio_def Horizontal_def bad_mdvar_def MdvarFixed_def)
  then have itm: "\<exists>r. PointToPoint (map fst ss) ?step (?par t) = Inr r" if "0 < t" "t < 100" for t
    using sea_accepted [OF sea_samples [OF path], of ?step "?par t"] n d(1) that
    by (simp add: params_for_def sea_path_def Horizontal_def)
  obtain r1 where r1: "PointToPoint (map fst ss) ?step (?par TimePct) = Inr r1" using itm [of TimePct] by (auto simp: TimePct_def)
  obtain r2 where r2: "PointToPoint (map fst ss) ?step ((?par TimePct)\<lparr>ip_time := ReliabilityPct\<rparr>) = Inr r2"
    using itm [of ReliabilityPct] by (auto simp: ReliabilityPct_def params_for_def)
  have "\<exists>r. budget sea_path ?d b (map fst ss) None step x y = Some r" for b step x y
    unfolding budget_def Let_def by (simp add: sea_path_def demo_radio_def omni_lossless split: prod.splits)
  moreover have "\<not> ?d \<le> 0" "\<not> maxDistM < ?d" using d unfolding not_le not_less .
  ultimately show ?thesis
    using path r1 r2 unfolding Analyze_def analyze_def Let_def pos by (simp add: sea_def)
qed

lemma Analyze_model_witness:
  "\<exists>r. Analyze sea 30 None (\<lambda>_. False) sea_path = Some (Inr r) \<and> lr_mode r \<noteq> ModeNotSet"
proof -
  from sea_analysis obtain r where "Analyze sea 30 None (\<lambda>_. False) sea_path = Some (Inr r)" ..
  with Analyze_model [of sea 30 None "\<lambda>_. False" sea_path] show ?thesis by blast
qed

end
