(* ===== verification/Coverage.thy ===== *)
theory Coverage
  imports Link "HOL-Library.List_Lexorder" "HOL-Library.Char_ord"
begin

text \<open>
  Coverage computation: src/internal/coverage/coverage.go and merge.go. Terrain and ITM are
  parameters, margins are \<open>f64\<close> because NaN stands for no data, and an index out of range is the
  result \<open>None\<close>. The parallel workers fill disjoint rows, so their order does not show.
\<close>

section \<open>Input and result\<close>

definition minRadials :: nat where "minRadials = 360"
definition maxRadials :: nat where "maxRadials = 3600"
definition maxPixels :: nat where "maxPixels = 2000"

definition MinRangeM :: real where "MinRangeM = 500"
definition MaxRangeM :: real where "MaxRangeM = 300000"
definition MinResolutionM :: real where "MinResolutionM = 10"
definition MaxResolutionM :: real where "MaxResolutionM = 1000"

lemmas coverage_limits = minRadials_def maxRadials_def maxPixels_def MinRangeM_def MaxRangeM_def MinResolutionM_def MaxResolutionM_def

record 'n cov_input =
  ci_tx :: "'n place"
  ci_radio :: "'n radio"
  ci_rx_height :: 'n
  ci_range :: 'n
  ci_resolution :: 'n

record cov_result =
  cr_w :: nat
  cr_h :: nat
  cr_margin :: "f64 list"
  cr_north :: real
  cr_south :: real
  cr_east :: real
  cr_west :: real
  cr_radials :: nat
  cr_truncated :: nat
  cr_errors :: "string list"

definition At :: "cov_result \<Rightarrow> nat \<Rightarrow> nat \<Rightarrow> f64" where
  "At r x y = cr_margin r ! (y * cr_w r + x)"

datatype cov_error = BadRange | BadResolution | TooManyPixels nat | AtTransmitter dem_error | CovCancelled

fun dem_text :: "dem_error \<Rightarrow> string" where
  "dem_text NoTile = ''dem: no terrain tile (sea, or not in the store yet)''"
| "dem_text Void = ''dem: void data at position''"
| "dem_text (DemError t) = t"

definition radialCount :: "real cov_input \<Rightarrow> nat" where
  "radialCount inp = min (max (nat \<lceil>2 * pi * ci_range inp / ci_resolution inp\<rceil>) minRadials) maxRadials"

section \<open>One radial\<close>

text \<open>The loop over the resolution steps: terrain missing ends the radial, a failure of ITM leaves a gap.\<close>

fun radial_loop :: "elevation \<Rightarrow> point_to_point \<Rightarrow> real cov_input \<Rightarrow> real \<Rightarrow> real list \<Rightarrow> nat list \<Rightarrow> (f64 list \<times> dem_error option) option" where
  "radial_loop E p2p inp bearing elev [] = Some ([], None)"
| "radial_loop E p2p inp bearing elev (k # ks) =
     (let p = Destination (pos (ci_tx inp)) bearing (real k * ci_resolution inp); rd = ci_radio inp in
      case E (lat p) (lon p) of
        Inl e \<Rightarrow> Some (replicate (length (k # ks)) NaN, Some e)
      | Inr h \<Rightarrow>
         (let elev' = elev @ [h]; rest = radial_loop E p2p inp bearing elev' ks;
              eirp = rd_tx_power rd + rd_tx_gain rd - rd_tx_loss rd; azRel = bearing - rd_tx_azimuth rd
          in case p2p elev' (ci_resolution inp) (params_for (pl_height (ci_tx inp)) (ci_rx_height inp) rd MdvarMobile TimePct) of
            Inl _ \<Rightarrow> map_option (\<lambda>(out, e). (NaN # out, e)) rest
          | Inr res \<Rightarrow>
             (case lobe_att (rd_tx_pattern rd) (Fin azRel) (Fin (- fst (ir_takeoff res) * 180 / pi - rd_tx_tilt rd)) of
                None \<Rightarrow> None
              | Some a \<Rightarrow> map_option (\<lambda>(out, e). (Fin (eirp - a - ir_loss res + rd_rx_gain rd - rd_rx_loss rd - rd_sensitivity rd) # out, e)) rest)))"

definition radial :: "elevation \<Rightarrow> point_to_point \<Rightarrow> real cov_input \<Rightarrow> real \<Rightarrow> real \<Rightarrow> nat \<Rightarrow> (f64 list \<times> dem_error option) option" where
  "radial E p2p inp h0 bearing n = map_option (\<lambda>(out, e). (NaN # out, e)) (radial_loop E p2p inp bearing [h0] [1..<n + 1])"

section \<open>The raster\<close>

definition side_of :: "real cov_input \<Rightarrow> nat" where
  "side_of inp = nat \<lceil>2 * ci_range inp / ci_resolution inp\<rceil>"

definition steps_of :: "real cov_input \<Rightarrow> nat" where
  "steps_of inp = nat \<lceil>ci_range inp / ci_resolution inp\<rceil>"

definition dLat :: "real cov_input \<Rightarrow> real" where
  "dLat inp = ci_range inp / EarthRadius * 180 / pi"

definition dLon :: "real cov_input \<Rightarrow> real" where
  "dLon inp = dLat inp / cos (pl_lat (ci_tx inp) * pi / 180)"

definition bearing_of :: "real cov_input \<Rightarrow> nat \<Rightarrow> real" where
  "bearing_of inp i = real i * 360 / real (radialCount inp)"

definition centre :: "real cov_input \<Rightarrow> nat \<Rightarrow> nat \<Rightarrow> point" where
  "centre inp x y = \<lparr>lat = pl_lat (ci_tx inp) + dLat inp - (real y + 1/2) * 2 * dLat inp / real (side_of inp),
     lon = pl_lon (ci_tx inp) - dLon inp + (real x + 1/2) * 2 * dLon inp / real (side_of inp)\<rparr>"

definition step_index :: "real cov_input \<Rightarrow> point \<Rightarrow> nat" where
  "step_index inp p = nat (trunc (Distance (pos (ci_tx inp)) p / ci_resolution inp + 1/2))"

definition radial_index :: "real cov_input \<Rightarrow> point \<Rightarrow> nat" where
  "radial_index inp p =
     nat (trunc (InitialBearing (pos (ci_tx inp)) p / (360 / real (radialCount inp)) + 1/2)) mod radialCount inp"

definition pixel :: "real cov_input \<Rightarrow> f64 list list \<Rightarrow> nat \<Rightarrow> nat \<Rightarrow> f64 option" where
  "pixel inp margins x y = (let p = centre inp x y; k = step_index inp p; ri = radial_index inp p in
     if steps_of inp < k then Some NaN
     else let k' = (if k = 0 then 1 else k) in
       if ri < length margins \<and> k' < length (margins ! ri) then Some (margins ! ri ! k') else None)"

definition raster_of :: "real cov_input \<Rightarrow> f64 list list \<Rightarrow> f64 list option" where
  "raster_of inp margins = (let side = side_of inp in
     those (concat (map (\<lambda>y. map (\<lambda>x. pixel inp margins x y) [0..<side]) [0..<side])))"

text \<open>A context that ends during the computation leaves nothing but its error.\<close>

definition Compute :: "elevation \<Rightarrow> point_to_point \<Rightarrow> bool \<Rightarrow> real cov_input \<Rightarrow> (cov_error + cov_result) option" where
  "Compute E p2p cancelled inp =
     (if ci_range inp < MinRangeM \<or> MaxRangeM < ci_range inp then Some (Inl BadRange)
      else if ci_resolution inp < MinResolutionM \<or> MaxResolutionM < ci_resolution inp then Some (Inl BadResolution)
      else let side = side_of inp; tx = ci_tx inp in
      if maxPixels < side then Some (Inl (TooManyPixels side))
      else case E (pl_lat tx) (pl_lon tx) of
        Inl e \<Rightarrow> Some (Inl (AtTransmitter e))
      | Inr h0 \<Rightarrow>
         (if cancelled then Some (Inl CovCancelled)
          else case those (map (\<lambda>i. radial E p2p inp h0 (bearing_of inp i) (steps_of inp)) [0..<radialCount inp]) of
            None \<Rightarrow> None
          | Some rows \<Rightarrow>
             (let errs = List.map_filter snd rows in
              map_option (\<lambda>m. Inr \<lparr>cr_w = side, cr_h = side, cr_margin = m,
                cr_north = pl_lat tx + dLat inp, cr_south = pl_lat tx - dLat inp,
                cr_east = pl_lon tx + dLon inp, cr_west = pl_lon tx - dLon inp,
                cr_radials = radialCount inp, cr_truncated = length errs,
                cr_errors = sort (remdups (map dem_text errs))\<rparr>)
              (raster_of inp (map fst rows)))))"

section \<open>Merging\<close>

definition maxMergePixels :: nat where "maxMergePixels = 9000000"

definition valid_result :: "cov_result \<Rightarrow> bool" where
  "valid_result r \<longleftrightarrow> 0 < cr_w r \<and> 0 < cr_h r \<and> length (cr_margin r) = cr_w r * cr_h r"

definition no_result :: cov_result where
  "no_result = \<lparr>cr_w = 0, cr_h = 0, cr_margin = [], cr_north = 0, cr_south = 0, cr_east = 0, cr_west = 0,
     cr_radials = 0, cr_truncated = 0, cr_errors = []\<rparr>"

text \<open>The result that covers a point looks up the pixel under it.\<close>

definition covers :: "cov_result \<Rightarrow> real \<Rightarrow> real \<Rightarrow> bool" where
  "covers r la lo \<longleftrightarrow> \<not> (cr_north r < la \<or> la < cr_south r \<or> lo < cr_west r \<or> cr_east r < lo)"

definition lookup :: "cov_result \<Rightarrow> real \<Rightarrow> real \<Rightarrow> f64" where
  "lookup r la lo =
     (let sx = min (trunc ((lo - cr_west r) / (cr_east r - cr_west r) * real (cr_w r))) (int (cr_w r) - 1);
          sy = min (trunc ((cr_north r - la) / (cr_north r - cr_south r) * real (cr_h r))) (int (cr_h r) - 1)
      in At r (nat sx) (nat sy))"

definition better :: "real \<Rightarrow> real \<Rightarrow> cov_result \<Rightarrow> f64 \<Rightarrow> f64" where
  "better la lo r best = (if covers r la lo
     then (let v = lookup r la lo in if \<not> is_nan v \<and> (is_nan best \<or> f_lt best v) then v else best)
     else best)"

text \<open>The common bounds, the finest pixel of the inputs as the size of the grid, and one cell of it. A quotient by an
  empty extent is not modelled.\<close>

definition merged_north :: "cov_result list \<Rightarrow> real" where
  "merged_north rs = fold max (map cr_north (tl rs)) (cr_north (hd rs))"

definition merged_south :: "cov_result list \<Rightarrow> real" where
  "merged_south rs = fold min (map cr_south (tl rs)) (cr_south (hd rs))"

definition merged_east :: "cov_result list \<Rightarrow> real" where
  "merged_east rs = fold max (map cr_east (tl rs)) (cr_east (hd rs))"

definition merged_west :: "cov_result list \<Rightarrow> real" where
  "merged_west rs = fold min (map cr_west (tl rs)) (cr_west (hd rs))"

definition pixel_lat :: "cov_result \<Rightarrow> real" where
  "pixel_lat r = (cr_north r - cr_south r) / real (cr_h r)"

definition pixel_lon :: "cov_result \<Rightarrow> real" where
  "pixel_lon r = (cr_east r - cr_west r) / real (cr_w r)"

definition merge_size :: "cov_result list \<Rightarrow> nat \<times> nat" where
  "merge_size rs =
     (let w = nat \<lceil>(merged_east rs - merged_west rs) / fold min (map pixel_lon (tl rs)) (pixel_lon (hd rs))\<rceil>;
          h = nat \<lceil>(merged_north rs - merged_south rs) / fold min (map pixel_lat (tl rs)) (pixel_lat (hd rs))\<rceil>
      in if maxMergePixels < w * h
         then (let f = sqrt (real (w * h) / real maxMergePixels) in (nat \<lceil>real w / f\<rceil>, nat \<lceil>real h / f\<rceil>))
         else (w, h))"

definition merge_cell :: "cov_result list \<Rightarrow> nat \<Rightarrow> nat \<Rightarrow> nat \<Rightarrow> nat \<Rightarrow> f64" where
  "merge_cell rs w h y x =
     fold (better (merged_north rs - (real y + 1/2) * (merged_north rs - merged_south rs) / real h)
                  (merged_west rs + (real x + 1/2) * (merged_east rs - merged_west rs) / real w)) rs NaN"

definition merge_many :: "cov_result list \<Rightarrow> cov_result" where
  "merge_many rs = (case merge_size rs of (w, h) \<Rightarrow>
     \<lparr>cr_w = w, cr_h = h, cr_margin = concat (map (\<lambda>y. map (merge_cell rs w h y) [0..<w]) [0..<h]),
      cr_north = merged_north rs, cr_south = merged_south rs, cr_east = merged_east rs, cr_west = merged_west rs,
      cr_radials = 0, cr_truncated = 0, cr_errors = []\<rparr>)"

definition Merge :: "cov_result list \<Rightarrow> cov_result" where
  "Merge rs = (case filter valid_result rs of [] \<Rightarrow> no_result | [r] \<Rightarrow> r | r # r2 # rest \<Rightarrow> merge_many (r # r2 # rest))"

section \<open>Facts about grids\<close>

lemma grid_length: "length (concat (map (\<lambda>y. map (f y) [0..<w]) [0..<h])) = h * w"
  by (induction h) auto

lemma grid_nth: "x < w \<Longrightarrow> y < h \<Longrightarrow> concat (map (\<lambda>y. map (f y) [0..<w]) [0..<h]) ! (y * w + x) = f y x"
proof (induction h)
  case (Suc h)
  show ?case
  proof (cases "y = h")
    case True
    then show ?thesis using Suc.prems by (simp add: nth_append grid_length)
  next
    case False
    then have "y < h" using Suc.prems by simp
    moreover from this have "Suc y * w \<le> h * w" by (intro mult_right_mono) simp_all
    then have "y * w + x < h * w" using Suc.prems by simp
    ultimately show ?thesis using Suc by (simp add: nth_append grid_length)
  qed
qed simp

text \<open>A grid of fallible cells: all of them, or none.\<close>

lemma those_grid:
  "those (concat (map (\<lambda>y. map (g y) [0..<w]) [0..<h])) = Some m \<longleftrightarrow>
     length m = h * w \<and> (\<forall>y < h. \<forall>x < w. g y x = Some (m ! (y * w + x)))"
proof -
  let ?c = "concat (map (\<lambda>y. map (g y) [0..<w]) [0..<h])"
  have len: "length ?c = h * w" by (rule grid_length)
  have "those ?c = Some m \<longleftrightarrow> ?c = map Some m" using those_map_Some [of id ?c m] by simp
  also have "\<dots> \<longleftrightarrow> length m = h * w \<and> (\<forall>i < h * w. ?c ! i = Some (m ! i))"
    by (auto simp: list_eq_iff_nth_eq len)
  also have "\<dots> \<longleftrightarrow> length m = h * w \<and> (\<forall>y < h. \<forall>x < w. g y x = Some (m ! (y * w + x)))"
  proof (intro conj_cong refl iffI allI impI)
    fix y x assume a: "\<forall>i < h * w. ?c ! i = Some (m ! i)" "y < h" "x < w"
    then have "Suc y * w \<le> h * w" by (intro mult_right_mono) simp_all
    then have "y * w + x < h * w" using a(3) by simp
    with a grid_nth [of x w y h g] show "g y x = Some (m ! (y * w + x))" by metis
  next
    fix i assume a: "\<forall>y < h. \<forall>x < w. g y x = Some (m ! (y * w + x))" "i < h * w"
    then have w: "0 < w" by (cases w) auto
    have "i div w < h" using a(2) by (simp add: less_mult_imp_div_less)
    moreover have "i mod w < w" using w by simp
    ultimately show "?c ! i = Some (m ! i)"
      using a(1) grid_nth [of "i mod w" w "i div w" h g] by (simp add: div_mult_mod_eq)
  qed
  finally show ?thesis .
qed

section \<open>Facts about radials and indices\<close>

lemma radial_loop_length: "radial_loop E p2p inp b elev ks = Some (out, e) \<Longrightarrow> length out = length ks"
  by (induction ks arbitrary: elev out e) (auto simp: Let_def split: sum.splits option.splits)

lemma radial_length: "radial E p2p inp h0 b n = Some (out, e) \<Longrightarrow> length out = n + 1"
  using radial_loop_length [of E p2p inp b "[h0]" "[1..<n + 1]"] by (auto simp: radial_def)

lemma radialCount_bounds: "360 \<le> radialCount inp" "radialCount inp \<le> 3600"
  by (simp_all add: radialCount_def coverage_limits)

lemma radial_index_less: "radial_index inp p < radialCount inp"
  using radialCount_bounds(1) [of inp] by (simp add: radial_index_def)

text \<open>Rounding to the nearest integer, as the conversion of a value plus one half does for values that are not negative.\<close>

lemma trunc_half:
  assumes "0 \<le> v"
  shows "\<bar>v - real (nat (trunc (v + 1/2)))\<bar> \<le> 1/2"
proof -
  have "real (nat (trunc (v + 1/2))) = of_int \<lfloor>v + 1/2\<rfloor>" using assms by (simp add: trunc_def)
  then show ?thesis using floor_correct [of "v + 1/2"] unfolding abs_le_iff by linarith
qed

section \<open>Properties\<close>

text \<open>The bearing of a pixel and the one of its radial, which may lie on either side of north.\<close>

definition near_bearing :: "real cov_input \<Rightarrow> nat \<Rightarrow> real \<Rightarrow> bool" where
  "near_bearing inp i b \<longleftrightarrow> \<bar>b - bearing_of inp i\<bar> \<le> 180 / real (radialCount inp) \<or> \<bar>b - (bearing_of inp i + 360)\<bar> \<le> 180 / real (radialCount inp)"

lemma radial_index_near: "near_bearing inp (radial_index inp p) (InitialBearing (pos (ci_tx inp)) p)"
proof -
  let ?R = "radialCount inp" and ?b = "InitialBearing (pos (ci_tx inp)) p"
  let ?v = "?b / (360 / real ?R)"
  let ?k = "nat (trunc (?v + 1/2))"
  have R: "0 < ?R" using radialCount_bounds(1) [of inp] by simp
  have b: "0 \<le> ?b" "?b < 360" by (rule InitialBearing_range)+
  then have v: "0 \<le> ?v" "?v < real ?R" using R by (simp_all add: field_simps)
  have near: "\<bar>?v - real ?k\<bar> \<le> 1/2" by (rule trunc_half) (rule v(1))
  have scale: "\<bar>?b - real k * 360 / real ?R\<bar> \<le> 180 / real ?R" if "\<bar>?v - real k\<bar> \<le> 1/2" for k
  proof -
    have "?b - real k * 360 / real ?R = (?v - real k) * (360 / real ?R)" using R by (simp add: field_simps)
    then have "\<bar>?b - real k * 360 / real ?R\<bar> = \<bar>?v - real k\<bar> * \<bar>360 / real ?R\<bar>" by (simp only: abs_mult)
    also have "\<dots> \<le> 1/2 * \<bar>360 / real ?R\<bar>" by (rule mult_right_mono [OF that]) simp
    finally show ?thesis by simp
  qed
  have "?k \<le> ?R" using v near by linarith
  then consider "?k < ?R" | "?k = ?R" by linarith
  then show ?thesis
  proof cases
    case 1
    then show ?thesis using scale [OF near] by (simp add: near_bearing_def radial_index_def bearing_of_def)
  next
    case 2
    then have "radial_index inp p = 0" unfolding radial_index_def by simp
    moreover have "\<bar>?b - 360\<bar> \<le> 180 / real ?R" using scale [OF near] R unfolding 2 by simp
    ultimately show ?thesis by (simp add: near_bearing_def bearing_of_def)
  qed
qed

lemma step_index_near: "0 < ci_resolution inp \<Longrightarrow>
  \<bar>Distance (pos (ci_tx inp)) p - real (step_index inp p) * ci_resolution inp\<bar> \<le> ci_resolution inp / 2"
proof -
  let ?r = "ci_resolution inp" and ?d = "Distance (pos (ci_tx inp)) p"
  assume r: "0 < ?r"
  have "\<bar>?d / ?r - real (step_index inp p)\<bar> \<le> 1/2"
    unfolding step_index_def by (rule trunc_half) (use Distance_range(1) r in simp)
  then have "\<bar>?d / ?r - real (step_index inp p)\<bar> * ?r \<le> 1/2 * ?r" using r by (intro mult_right_mono) simp_all
  moreover have "\<bar>?d / ?r - real (step_index inp p)\<bar> * ?r = \<bar>?d - real (step_index inp p) * ?r\<bar>"
    using r by (simp add: abs_mult_pos left_diff_distrib)
  ultimately show ?thesis by simp
qed

text \<open>The successful case of Compute.\<close>

lemma Compute_Inr:
  assumes "Compute E p2p c inp = Some (Inr r)"
  obtains h0 rows where "E (pl_lat (ci_tx inp)) (pl_lon (ci_tx inp)) = Inr h0" "length rows = radialCount inp"
    "\<forall>i < radialCount inp. radial E p2p inp h0 (bearing_of inp i) (steps_of inp) = Some (rows ! i)"
    "raster_of inp (map fst rows) = Some (cr_margin r)" "cr_w r = side_of inp" "cr_h r = side_of inp" "side_of inp \<le> maxPixels"
    "cr_radials r = radialCount inp" "cr_truncated r = length (List.map_filter snd rows)"
    "cr_errors r = sort (remdups (map dem_text (List.map_filter snd rows)))"
    "MinRangeM \<le> ci_range inp" "ci_range inp \<le> MaxRangeM" "MinResolutionM \<le> ci_resolution inp"
proof -
  from assms obtain h0 rows where h: "E (pl_lat (ci_tx inp)) (pl_lon (ci_tx inp)) = Inr h0"
    and rows: "those (map (\<lambda>i. radial E p2p inp h0 (bearing_of inp i) (steps_of inp)) [0..<radialCount inp]) = Some rows"
    by (auto simp: Compute_def Let_def split: if_splits sum.splits option.splits)
  have all: "map (\<lambda>i. radial E p2p inp h0 (bearing_of inp i) (steps_of inp)) [0..<radialCount inp] = map Some rows"
    using rows by (simp add: those_map_Some)
  then have "length rows = radialCount inp" by (metis length_map length_upt minus_nat.diff_0)
  moreover from this all have "\<forall>i < radialCount inp. radial E p2p inp h0 (bearing_of inp i) (steps_of inp) = Some (rows ! i)"
    by (auto simp: list_eq_iff_nth_eq)
  ultimately show ?thesis
    using assms h rows by (intro that [OF h]) (auto simp: Compute_def Let_def split: if_splits)
qed

text \<open>A computation with the transmitter on known terrain and sane range and resolution.\<close>

definition computable :: "elevation \<Rightarrow> real cov_input \<Rightarrow> bool" where
  "computable E inp \<longleftrightarrow> MinRangeM \<le> ci_range inp \<and> ci_range inp \<le> MaxRangeM \<and> MinResolutionM \<le> ci_resolution inp
     \<and> ci_resolution inp \<le> MaxResolutionM \<and> side_of inp \<le> maxPixels \<and> (\<exists>h. E (pl_lat (ci_tx inp)) (pl_lon (ci_tx inp)) = Inr h)"

lemma pixel_total:
  assumes rows: "length rows = radialCount inp" "\<forall>i < radialCount inp. length (rows ! i) = steps_of inp + 1" and s: "0 < steps_of inp"
  shows "pixel inp rows x y \<noteq> None"
  using rows radial_index_less [of inp "centre inp x y"] s by (simp add: pixel_def Let_def)

lemma steps_pos: "MinRangeM \<le> ci_range inp \<Longrightarrow> MinResolutionM \<le> ci_resolution inp \<Longrightarrow> 0 < steps_of inp"
  by (simp add: steps_of_def coverage_limits)

lemma Compute_returns:
  assumes "computable E inp" "\<And>h0 i. radial E p2p inp h0 (bearing_of inp i) (steps_of inp) \<noteq> None"
  shows "\<exists>r. Compute E p2p False inp = Some (Inr r)"
proof -
  from assms(1) obtain h where h: "E (pl_lat (ci_tx inp)) (pl_lon (ci_tx inp)) = Inr h" by (auto simp: computable_def)
  define g where "g i = the (radial E p2p inp h (bearing_of inp i) (steps_of inp))" for i
  define rows where "rows = map g [0..<radialCount inp]"
  have g: "radial E p2p inp h (bearing_of inp i) (steps_of inp) = Some (g i)" for i
    using assms(2) [of h i] by (simp add: g_def)
  have those: "those (map (\<lambda>i. radial E p2p inp h (bearing_of inp i) (steps_of inp)) [0..<radialCount inp]) = Some rows"
    by (simp add: those_map_Some g rows_def)
  have len: "length (fst (g i)) = steps_of inp + 1" for i using g [of i] radial_length by (metis prod.collapse)
  have s: "0 < steps_of inp" using assms(1) by (simp add: computable_def steps_pos)
  have "length (map fst rows) = radialCount inp" "\<forall>i < radialCount inp. length (map fst rows ! i) = steps_of inp + 1"
    using len by (simp_all add: rows_def)
  note pixel_total [OF this s]
  then have "\<exists>v. pixel inp (map fst rows) x y = Some v" for x y by blast
  then obtain v where v: "\<And>x y. pixel inp (map fst rows) x y = Some (v x y)" by metis
  let ?n = "side_of inp"
  have "raster_of inp (map fst rows) = Some (concat (map (\<lambda>y. map (\<lambda>x. v x y) [0..<?n]) [0..<?n]))"
    unfolding raster_of_def Let_def those_grid using grid_nth [of _ ?n _ ?n "\<lambda>y x. v x y"] by (simp add: grid_length v)
  then show ?thesis
    using assms(1) h those by (simp add: Compute_def Let_def computable_def not_less)
qed


definition demo_area :: "real cov_input" where
  "demo_area = \<lparr>ci_tx = \<lparr>pl_name = ''A'', pl_lat = 0, pl_lon = 0, pl_height = 10\<rparr>, ci_radio = demo_radio, ci_rx_height = 2,
     ci_range = 500, ci_resolution = 250\<rparr>"

lemma demo_area_computable: "computable flat_earth demo_area"
  by (simp add: computable_def demo_area_def coverage_limits side_of_def flat_earth_def)

lemma demo_radial_loop: "radial_loop flat_earth demo_itm demo_area b elev ks \<noteq> None"
  by (induction ks arbitrary: elev) (auto simp: Let_def flat_earth_def demo_itm_def demo_area_def demo_radio_def omni_lossless)

lemma demo_area_radial: "radial flat_earth demo_itm demo_area h0 b n \<noteq> None"
  using demo_radial_loop by (simp add: radial_def)


text \<open>C10: A result is a square of at most 2000 pixels a side with 360 to 3600 radials, every pixel of which holds no data
  when its centre lies half a step or more beyond the last step, and otherwise the margin of the radial nearest in bearing at the step
  nearest in distance, the first step for a pixel at the transmitter. The truncated radials are counted, and there
  are error texts exactly when there are any, in order and without repetition.\<close>

theorem Compute_nearest:
  assumes "Compute E p2p c inp = Some (Inr r)"
  shows "cr_w r = cr_h r \<and> cr_w r \<le> 2000 \<and> length (cr_margin r) = cr_w r * cr_h r \<and> 360 \<le> cr_radials r \<and> cr_radials r \<le> 3600
    \<and> cr_truncated r \<le> cr_radials r \<and> (cr_errors r = [] \<longleftrightarrow> cr_truncated r = 0) \<and> sorted (cr_errors r) \<and> distinct (cr_errors r)
    \<and> (\<exists>h0. \<forall>x < cr_w r. \<forall>y < cr_h r. let p = centre inp x y; d = Distance (pos (ci_tx inp)) p in
         (At r x y = NaN \<and> real (steps_of inp) * ci_resolution inp \<le> d - ci_resolution inp / 2)
         \<or> (\<exists>i k row e. i < cr_radials r \<and> 1 \<le> k \<and> k \<le> steps_of inp \<and> near_bearing inp i (InitialBearing (pos (ci_tx inp)) p)
              \<and> radial E p2p inp h0 (bearing_of inp i) (steps_of inp) = Some (row, e) \<and> At r x y = row ! k
              \<and> (\<bar>d - real k * ci_resolution inp\<bar> \<le> ci_resolution inp / 2 \<or> (k = 1 \<and> d \<le> ci_resolution inp / 2))))"
proof -
  from assms obtain h0 rows where h0: "E (pl_lat (ci_tx inp)) (pl_lon (ci_tx inp)) = Inr h0"
    and rows: "length rows = radialCount inp" "\<forall>i < radialCount inp. radial E p2p inp h0 (bearing_of inp i) (steps_of inp) = Some (rows ! i)"
    and ras: "raster_of inp (map fst rows) = Some (cr_margin r)" and wh: "cr_w r = side_of inp" "cr_h r = side_of inp" "side_of inp \<le> maxPixels"
    and rad: "cr_radials r = radialCount inp" and tr: "cr_truncated r = length (List.map_filter snd rows)"
    and er: "cr_errors r = sort (remdups (map dem_text (List.map_filter snd rows)))"
    and lim: "MinRangeM \<le> ci_range inp" "MinResolutionM \<le> ci_resolution inp"
    by (rule Compute_Inr) blast
  let ?n = "side_of inp" and ?res = "ci_resolution inp"
  have res: "0 < ?res" using lim(2) by (simp add: coverage_limits)
  have s: "0 < steps_of inp" by (rule steps_pos [OF lim])
  have cell: "pixel inp (map fst rows) x y = Some (At r x y)" and len: "length (cr_margin r) = ?n * ?n" if "x < ?n" "y < ?n" for x y
    using ras that unfolding raster_of_def Let_def those_grid by (simp_all add: At_def wh)
  have len: "length (cr_margin r) = ?n * ?n" using ras unfolding raster_of_def Let_def those_grid by simp
  have "(At r x y = NaN \<and> real (steps_of inp) * ?res \<le> Distance (pos (ci_tx inp)) (centre inp x y) - ?res / 2)
      \<or> (\<exists>i k row e. i < cr_radials r \<and> 1 \<le> k \<and> k \<le> steps_of inp \<and> near_bearing inp i (InitialBearing (pos (ci_tx inp)) (centre inp x y))
           \<and> radial E p2p inp h0 (bearing_of inp i) (steps_of inp) = Some (row, e) \<and> At r x y = row ! k
           \<and> (\<bar>Distance (pos (ci_tx inp)) (centre inp x y) - real k * ?res\<bar> \<le> ?res / 2
               \<or> (k = 1 \<and> Distance (pos (ci_tx inp)) (centre inp x y) \<le> ?res / 2)))"
    (is "?out \<or> ?in") if xy: "x < ?n" "y < ?n" for x y
  proof -
    let ?p = "centre inp x y"
    let ?k = "step_index inp ?p" and ?i = "radial_index inp ?p" and ?d = "Distance (pos (ci_tx inp)) ?p"
    have near: "\<bar>?d - real ?k * ?res\<bar> \<le> ?res / 2" by (rule step_index_near [OF res])
    show ?thesis
    proof (cases "steps_of inp < ?k")
      case True
      then have "real (steps_of inp + 1) * ?res \<le> real ?k * ?res" using res by (intro mult_right_mono) simp_all
      moreover have "real (steps_of inp + 1) * ?res = real (steps_of inp) * ?res + ?res" by (simp add: distrib_right)
      moreover have "real ?k * ?res - ?res / 2 \<le> ?d" using near by linarith
      ultimately have "real (steps_of inp) * ?res \<le> ?d - ?res / 2" by linarith
      with True cell [OF xy] show ?thesis by (simp add: pixel_def Let_def)
    next
      case False
      define k where "k = (if ?k = 0 then 1 else ?k)"
      have i: "?i < radialCount inp" by (rule radial_index_less)
      have "At r x y = fst (rows ! ?i) ! k"
        using cell [OF xy] False i rows(1) by (auto simp: pixel_def Let_def k_def split: if_splits)
      moreover have "\<bar>?d - real k * ?res\<bar> \<le> ?res / 2 \<or> (k = 1 \<and> ?d \<le> ?res / 2)"
        using near by (auto simp: k_def)
      moreover have "radial E p2p inp h0 (bearing_of inp ?i) (steps_of inp) = Some (fst (rows ! ?i), snd (rows ! ?i))" using rows(2) i by simp
      moreover have "1 \<le> k" "k \<le> steps_of inp" using False s by (auto simp: k_def)
      ultimately have ?in using i radial_index_near [of inp ?p]
        by (intro exI [of _ ?i] exI [of _ k] exI [of _ "fst (rows ! ?i)"] exI [of _ "snd (rows ! ?i)"]) (simp add: rad)
      then show ?thesis ..
    qed
  qed
  then have cells: "\<exists>h0. \<forall>x < cr_w r. \<forall>y < cr_h r. let p = centre inp x y; d = Distance (pos (ci_tx inp)) p in
         (At r x y = NaN \<and> real (steps_of inp) * ci_resolution inp \<le> d - ci_resolution inp / 2)
         \<or> (\<exists>i k row e. i < cr_radials r \<and> 1 \<le> k \<and> k \<le> steps_of inp \<and> near_bearing inp i (InitialBearing (pos (ci_tx inp)) p)
              \<and> radial E p2p inp h0 (bearing_of inp i) (steps_of inp) = Some (row, e) \<and> At r x y = row ! k
              \<and> (\<bar>d - real k * ci_resolution inp\<bar> \<le> ci_resolution inp / 2 \<or> (k = 1 \<and> d \<le> ci_resolution inp / 2)))"
    unfolding Let_def wh by blast
  have "length (List.map_filter snd rows) \<le> length rows" by (simp add: map_filter_def)
  then have "cr_truncated r \<le> cr_radials r" by (simp add: tr rad rows(1))
  moreover have "cr_errors r = [] \<longleftrightarrow> cr_truncated r = 0"
  proof -
    have "set (cr_errors r) = dem_text ` set (List.map_filter snd rows)" by (simp add: er)
    then show ?thesis by (simp add: tr flip: set_empty)
  qed
  ultimately show ?thesis
    using cells len wh radialCount_bounds [of inp] by (simp add: rad er maxPixels_def)
qed

lemma Compute_nearest_witness: "\<exists>r. Compute flat_earth demo_itm False demo_area = Some (Inr r) \<and> 360 \<le> cr_radials r"
proof -
  obtain r where "Compute flat_earth demo_itm False demo_area = Some (Inr r)"
    using Compute_returns [OF demo_area_computable demo_area_radial] by blast
  with Compute_nearest [OF this] show ?thesis by blast
qed

section \<open>Merging: the best margin\<close>

lemma fold_better:
  "let v = fold (better la lo) rs b in (v = b \<or> (\<exists>r \<in> set rs. covers r la lo \<and> v = lookup r la lo))
    \<and> (\<forall>r \<in> set rs. covers r la lo \<longrightarrow> \<not> f_lt v (lookup r la lo) \<and> (v = NaN \<longrightarrow> lookup r la lo = NaN))
    \<and> (b \<noteq> NaN \<longrightarrow> v \<noteq> NaN \<and> \<not> f_lt v b)"
  unfolding Let_def
proof (induction rs arbitrary: b)
  case (Cons r rs)
  let ?b = "better la lo r b" and ?v = "fold (better la lo) (r # rs) b" and ?w = "lookup r la lo"
  note ih = Cons.IH [of ?b]
  have step: "(?b = b \<or> (covers r la lo \<and> ?b = ?w)) \<and> (covers r la lo \<longrightarrow> \<not> f_lt ?b ?w \<and> (?b = NaN \<longrightarrow> ?w = NaN))
      \<and> (b \<noteq> NaN \<longrightarrow> ?b \<noteq> NaN \<and> \<not> f_lt ?b b)"
    by (auto simp: better_def Let_def is_nan_def f_lt_asym)
  have chain: "\<not> f_lt ?v u" if "?b \<noteq> NaN" "\<not> f_lt ?b u" for u
  proof -
    have "?v \<noteq> NaN" "\<not> f_lt ?v ?b" using ih that(1) by simp_all
    then show ?thesis using that f_lt_linear [of ?v ?b] f_lt_trans [of ?b ?v u] by auto
  qed
  have "covers r la lo \<longrightarrow> \<not> f_lt ?v ?w \<and> (?v = NaN \<longrightarrow> ?w = NaN)"
    using step ih chain [of ?w] by (cases "?b = NaN") (auto simp del: fold_simps)
  moreover have "b \<noteq> NaN \<longrightarrow> ?v \<noteq> NaN \<and> \<not> f_lt ?v b" using step ih chain [of b] by auto
  moreover have "?v = b \<or> (\<exists>a \<in> set (r # rs). covers a la lo \<and> ?v = lookup a la lo)" using ih step by auto
  moreover have "\<forall>a \<in> set rs. covers a la lo \<longrightarrow> \<not> f_lt ?v (lookup a la lo) \<and> (?v = NaN \<longrightarrow> lookup a la lo = NaN)" using ih by simp
  ultimately show ?case by (auto simp del: fold_simps)
qed simp

definition proper :: "cov_result \<Rightarrow> bool" where
  "proper r \<longleftrightarrow> valid_result r \<and> cr_south r < cr_north r \<and> cr_west r < cr_east r"

lemma scaled_index:
  fixes u :: real
  assumes "0 \<le> u" "u \<le> 1" "0 < n"
  shows "nat (min (trunc (u * real n)) (int n - 1)) < n"
  using assms by (simp add: trunc_nonneg nat_less_iff)

text \<open>A covering result reads one of its own pixels.\<close>

lemma lookup_pixel:
  assumes "proper r" "covers r la lo"
  shows "\<exists>i < cr_w r. \<exists>j < cr_h r. lookup r la lo = At r i j"
proof -
  let ?u = "(lo - cr_west r) / (cr_east r - cr_west r)" and ?v = "(cr_north r - la) / (cr_north r - cr_south r)"
  have "0 \<le> ?u" "?u \<le> 1" "0 \<le> ?v" "?v \<le> 1"
    using assms by (simp_all add: proper_def covers_def not_less)
  moreover have "0 < cr_w r" "0 < cr_h r" using assms(1) by (simp_all add: proper_def valid_result_def)
  ultimately show ?thesis
    using scaled_index [of ?u "cr_w r"] scaled_index [of ?v "cr_h r"] unfolding lookup_def Let_def by blast
qed

lemma fold_max_least: "fold max xs a = (a::real) \<or> fold max xs a \<in> set xs"
  by (induction xs arbitrary: a) (auto simp: max_def)

lemma fold_min_least: "fold min xs a = (a::real) \<or> fold min xs a \<in> set xs"
  by (induction xs arbitrary: a) (auto simp: min_def)

lemma merged_bounds:
  assumes "r \<in> set rs"
  shows "merged_south rs \<le> cr_south r" "cr_north r \<le> merged_north rs" "merged_west rs \<le> cr_west r" "cr_east r \<le> merged_east rs"
  using assms fold_max_ge fold_min_le unfolding merged_north_def merged_south_def merged_east_def merged_west_def
  by (cases rs; auto)+

lemma merge_many_at:
  assumes "x < cr_w (merge_many rs)" "y < cr_h (merge_many rs)"
  shows "At (merge_many rs) x y = merge_cell rs (cr_w (merge_many rs)) (cr_h (merge_many rs)) y x"
  using assms by (auto simp: merge_many_def At_def grid_nth split: prod.splits)

lemma merge_many_simps:
  "cr_north (merge_many rs) = merged_north rs" "cr_south (merge_many rs) = merged_south rs"
  "cr_east (merge_many rs) = merged_east rs" "cr_west (merge_many rs) = merged_west rs"
  "length (cr_margin (merge_many rs)) = cr_w (merge_many rs) * cr_h (merge_many rs)"
  by (simp_all add: merge_many_def grid_length split: prod.splits)

text \<open>The claim about one pixel: \<open>vs\<close> are the merged results, \<open>m\<close> is the merge.\<close>

definition best_at :: "cov_result list \<Rightarrow> cov_result \<Rightarrow> nat \<Rightarrow> nat \<Rightarrow> bool" where
  "best_at vs m x y \<longleftrightarrow>
     (let la = cr_north m - (real y + 1/2) * (cr_north m - cr_south m) / real (cr_h m);
          lo = cr_west m + (real x + 1/2) * (cr_east m - cr_west m) / real (cr_w m)
      in (At m x y = NaN \<or> (\<exists>r \<in> set vs. covers r la lo \<and> At m x y = lookup r la lo))
       \<and> (\<forall>r \<in> set vs. covers r la lo \<longrightarrow> (\<exists>i < cr_w r. \<exists>j < cr_h r. lookup r la lo = At r i j)
            \<and> \<not> f_lt (At m x y) (lookup r la lo) \<and> (At m x y = NaN \<longrightarrow> lookup r la lo = NaN)))"

lemma merge_many_best:
  assumes "\<forall>r \<in> set vs. proper r" "x < cr_w (merge_many vs)" "y < cr_h (merge_many vs)"
  shows "best_at vs (merge_many vs) x y"
  unfolding best_at_def Let_def merge_many_at [OF assms(2,3)] merge_many_simps merge_cell_def
  using fold_better [of _ _ vs NaN, unfolded Let_def] assms(1) lookup_pixel by blast

text \<open>C15: Merging two or more results covers the bounds of all of them, and every pixel holds the best margin of the
  results that cover its centre, each read from one of its own pixels: none of them is larger, and the pixel is
  without data only if all of them are. A single result comes back unchanged, and no result gives the empty one.\<close>

theorem Merge_best:
  assumes "\<forall>r \<in> set rs. valid_result r \<longrightarrow> proper r"
  shows "case filter valid_result rs of
      [] \<Rightarrow> Merge rs = no_result
    | [r] \<Rightarrow> Merge rs = r
    | r # r2 # rest \<Rightarrow> length (cr_margin (Merge rs)) = cr_w (Merge rs) * cr_h (Merge rs)
        \<and> (\<forall>a \<in> set (r # r2 # rest). cr_south (Merge rs) \<le> cr_south a \<and> cr_north a \<le> cr_north (Merge rs)
             \<and> cr_west (Merge rs) \<le> cr_west a \<and> cr_east a \<le> cr_east (Merge rs))
        \<and> (\<forall>x < cr_w (Merge rs). \<forall>y < cr_h (Merge rs). best_at (r # r2 # rest) (Merge rs) x y)"
proof (cases "filter valid_result rs" rule: remdups_adj.cases)
  case (3 r r2 rest)
  have p: "\<forall>a \<in> set (r # r2 # rest). proper a" unfolding 3 [symmetric] using assms by simp
  have m: "Merge rs = merge_many (r # r2 # rest)" by (simp add: Merge_def 3)
  show ?thesis unfolding 3 list.case m
    using merge_many_best [OF p] merged_bounds by (intro conjI) (simp_all only: merge_many_simps, blast+)
qed (simp_all add: Merge_def)

definition demo_result :: "real \<Rightarrow> f64 list \<Rightarrow> cov_result" where
  "demo_result w ms = \<lparr>cr_w = 2, cr_h = 1, cr_margin = ms, cr_north = 1, cr_south = 0, cr_east = w + 2, cr_west = w,
     cr_radials = 360, cr_truncated = 0, cr_errors = []\<rparr>"

lemma Merge_best_witness:
  "case filter valid_result [demo_result 0 [Fin 1, NaN], demo_result 1 [Fin 5, Fin 6]] of
      r # r2 # rest \<Rightarrow> length (cr_margin (Merge [demo_result 0 [Fin 1, NaN], demo_result 1 [Fin 5, Fin 6]])) = 3 | _ \<Rightarrow> False"
proof -
  let ?rs = "[demo_result 0 [Fin 1, NaN], demo_result 1 [Fin 5, Fin 6]]"
  have v: "filter valid_result ?rs = ?rs" by (simp add: valid_result_def demo_result_def)
  have "\<forall>r \<in> set ?rs. valid_result r \<longrightarrow> proper r" by (simp add: proper_def demo_result_def)
  from Merge_best [OF this] have "length (cr_margin (Merge ?rs)) = cr_w (Merge ?rs) * cr_h (Merge ?rs)" unfolding v by simp
  moreover have "merge_size ?rs = (3, 1)"
    by (simp add: merge_size_def merged_north_def merged_south_def merged_east_def merged_west_def pixel_lat_def pixel_lon_def
        demo_result_def maxMergePixels_def)
  then have "cr_w (Merge ?rs) = 3" "cr_h (Merge ?rs) = 1" using v by (simp_all add: Merge_def merge_many_def)
  ultimately show ?thesis unfolding v by simp
qed

end
