(* ===== verification/Plot.thy ===== *)
theory Plot
  imports Schema Coverage "HOL-Library.Word"
begin

text \<open>
  Legends and raster images: src/internal/plot/plot.go. The PNG codec of Go's library is a pair of
  functions between images and bytes; the SVG drawings are not modelled.
\<close>

section \<open>Legends\<close>

type_synonym rgba = "8 word \<times> 8 word \<times> 8 word \<times> 8 word"
type_synonym legend = "(real \<times> rgba) list"

definition MaxBins :: nat where "MaxBins = 8"
definition MinLegendDB :: real where "MinLegendDB = - 127"
definition MaxLegendDB :: real where "MaxLegendDB = 127"

definition DefaultLegend :: legend where
  "DefaultLegend = [(30, (0, 100, 0, 255)), (20, (60, 180, 60, 255)), (10, (230, 220, 40, 255)), (0, (240, 140, 30, 255))]"

datatype legend_error = LengthMismatch nat nat | BadBinCount nat | OutsideRange f64 | BadColor string | ListedTwice real

definition hex_digit :: "char \<Rightarrow> nat option" where
  "hex_digit c = (let n = of_char c :: nat in
     if 48 \<le> n \<and> n \<le> 57 then Some (n - 48)
     else if 97 \<le> n \<and> n \<le> 102 then Some (n - 87)
     else if 65 \<le> n \<and> n \<le> 70 then Some (n - 55) else None)"

definition hex_byte :: "char \<Rightarrow> char \<Rightarrow> 8 word option" where
  "hex_byte a b = (case (hex_digit a, hex_digit b) of (Some x, Some y) \<Rightarrow> Some (of_nat (16 * x + y)) | _ \<Rightarrow> None)"

definition ParseHex :: "string \<Rightarrow> legend_error + rgba" where
  "ParseHex s = (case s of
     [h, r1, r2, g1, g2, b1, b2] \<Rightarrow>
       (if h \<noteq> CHR ''#'' then Inl (BadColor s)
        else case (hex_byte r1 r2, hex_byte g1 g2, hex_byte b1 b2) of
          (Some r, Some g, Some b) \<Rightarrow> Inr (r, g, b, 255)
        | _ \<Rightarrow> Inl (BadColor s))
   | _ \<Rightarrow> Inl (BadColor s))"

definition hex_char :: "nat \<Rightarrow> char" where
  "hex_char n = char_of (if n < 10 then n + 48 else n + 87)"

definition byte_hex :: "8 word \<Rightarrow> string" where
  "byte_hex w = [hex_char (unat w div 16), hex_char (unat w mod 16)]"

text \<open>hex.EncodeToString.\<close>

definition hex_text :: "string \<Rightarrow> string" where
  "hex_text bs = concat (map (\<lambda>c. byte_hex (of_nat (of_char c))) bs)"

definition Hex :: "real \<times> rgba \<Rightarrow> string" where
  "Hex b = (case b of (_, r, g, bl, _) \<Rightarrow> ''#'' @ byte_hex r @ byte_hex g @ byte_hex bl)"

definition in_legend_range :: "f64 \<Rightarrow> bool" where
  "in_legend_range m \<longleftrightarrow> \<not> (is_nan m \<or> f_lt m (Fin MinLegendDB) \<or> f_lt (Fin MaxLegendDB) m)"

fun legend_bins :: "f64 list \<Rightarrow> string list \<Rightarrow> legend_error + legend" where
  "legend_bins (m # ms) (c # cs) =
     (if \<not> in_legend_range m then Inl (OutsideRange m)
      else case ParseHex c of
        Inl e \<Rightarrow> Inl e
      | Inr k \<Rightarrow> (case legend_bins ms cs of Inl e \<Rightarrow> Inl e | Inr l \<Rightarrow> (case m of Fin v \<Rightarrow> Inr ((v, k) # l) | _ \<Rightarrow> Inl (OutsideRange m))))"
| "legend_bins _ _ = Inr []"

fun listed_twice :: "legend \<Rightarrow> real option" where
  "listed_twice (a # b # l) = (if fst b = fst a then Some (fst b) else listed_twice (b # l))"
| "listed_twice _ = None"

definition NewLegend :: "f64 list \<Rightarrow> string list \<Rightarrow> legend_error + legend" where
  "NewLegend mins colors =
     (if length mins \<noteq> length colors then Inl (LengthMismatch (length mins) (length colors))
      else if mins = [] \<or> MaxBins < length mins then Inl (BadBinCount (length mins))
      else case legend_bins mins colors of
        Inl e \<Rightarrow> Inl e
      | Inr l \<Rightarrow> (let l' = sort_key (\<lambda>b. - fst b) l in
          case listed_twice l' of Some v \<Rightarrow> Inl (ListedTwice v) | None \<Rightarrow> Inr l'))"

definition LegendOr :: "f64 list \<Rightarrow> string list \<Rightarrow> legend" where
  "LegendOr mins colors = (if mins = [] then DefaultLegend
     else case NewLegend mins colors of Inl _ \<Rightarrow> DefaultLegend | Inr l \<Rightarrow> l)"

definition Mins :: "legend \<Rightarrow> real list" where
  "Mins l = map fst l"

definition HexList :: "legend \<Rightarrow> string list" where
  "HexList l = map Hex l"

fun bin_from :: "nat \<Rightarrow> legend \<Rightarrow> f64 \<Rightarrow> nat option" where
  "bin_from i [] m = None"
| "bin_from i (b # l) m = (if f_le (Fin (fst b)) m then Some i else bin_from (i + 1) l m)"

definition bin :: "legend \<Rightarrow> f64 \<Rightarrow> nat option" where
  "bin l m = (if is_nan m then None else bin_from 0 l m)"

section \<open>Images\<close>

datatype image = Gray nat nat "8 word list" | Paletted nat nat "rgba list" "8 word list" | OtherImage nat nat

definition on_cross :: "nat \<Rightarrow> nat \<Rightarrow> nat \<Rightarrow> nat \<Rightarrow> bool" where
  "on_cross w h x y \<longleftrightarrow> (y = h div 2 \<and> \<bar>int x - int (w div 2)\<bar> \<le> 4) \<or> (x = w div 2 \<and> \<bar>int y - int (h div 2)\<bar> \<le> 4)"

definition paint_index :: "cov_result \<Rightarrow> legend \<Rightarrow> bool \<Rightarrow> nat \<Rightarrow> nat \<Rightarrow> 8 word" where
  "paint_index r l cross y x =
     (if cross \<and> on_cross (cr_w r) (cr_h r) x y then of_nat (length l + 1)
      else case bin l (At r x y) of Some i \<Rightarrow> of_nat (i + 1) | None \<Rightarrow> 0)"

definition paint :: "cov_result \<Rightarrow> legend \<Rightarrow> bool \<Rightarrow> image" where
  "paint r l cross = Paletted (cr_w r) (cr_h r) ([(0, 0, 0, 0)] @ map snd l @ [(0, 0, 0, 255)])
     (concat (map (\<lambda>y. map (paint_index r l cross y) [0..<cr_w r]) [0..<cr_h r]))"

definition CoveragePNG :: "(image \<Rightarrow> bytes) \<Rightarrow> cov_result \<Rightarrow> legend \<Rightarrow> bytes" where
  "CoveragePNG enc r l = enc (paint r l True)"

definition CompositePNG :: "(image \<Rightarrow> bytes) \<Rightarrow> cov_result \<Rightarrow> legend \<Rightarrow> bytes" where
  "CompositePNG enc r l = enc (paint r l False)"

definition marginOffset :: real where "marginOffset = 128"

definition grey :: "f64 \<Rightarrow> 8 word" where
  "grey m = (if is_nan m then 0
     else case f_min (Fin 255) (f_max (Fin 1) (f_add (f_floor m) (Fin marginOffset))) of Fin v \<Rightarrow> word_of_int (trunc v) | _ \<Rightarrow> 0)"

definition MarginPNG :: "(image \<Rightarrow> bytes) \<Rightarrow> cov_result \<Rightarrow> bytes" where
  "MarginPNG enc r = enc (Gray (cr_w r) (cr_h r) (concat (map (\<lambda>y. map (\<lambda>x. grey (At r x y)) [0..<cr_w r]) [0..<cr_h r])))"

definition grey_margin :: "8 word \<Rightarrow> f64" where
  "grey_margin v = (if v = 0 then NaN else Fin (real (unat v) - marginOffset))"

definition palette_margin :: "8 word \<Rightarrow> f64" where
  "palette_margin v = (let i = unat v in if 1 \<le> i \<and> i \<le> length DefaultLegend then Fin (fst (DefaultLegend ! (i - 1))) else NaN)"

definition raster_result :: "nat \<Rightarrow> nat \<Rightarrow> f64 list \<Rightarrow> real \<Rightarrow> real \<Rightarrow> real \<Rightarrow> real \<Rightarrow> cov_result" where
  "raster_result w h ms north south east west = \<lparr>cr_w = w, cr_h = h, cr_margin = ms, cr_north = north, cr_south = south,
     cr_east = east, cr_west = west, cr_radials = 0, cr_truncated = 0, cr_errors = []\<rparr>"

text \<open>DecodeRaster; \<open>None\<close> is either of its errors.\<close>

definition DecodeRaster :: "(bytes \<Rightarrow> image option) \<Rightarrow> bytes \<Rightarrow> real \<Rightarrow> real \<Rightarrow> real \<Rightarrow> real \<Rightarrow> cov_result option" where
  "DecodeRaster dec b north south east west = (case dec b of
     Some (Gray w h px) \<Rightarrow> Some (raster_result w h (map grey_margin px) north south east west)
   | Some (Paletted w h _ px) \<Rightarrow> Some (raster_result w h (map palette_margin px) north south east west)
   | _ \<Rightarrow> None)"

section \<open>Facts about legends\<close>

lemma hex_digit_char: "n < 16 \<Longrightarrow> hex_digit (hex_char n) = Some n"
  by (simp add: hex_digit_def hex_char_def Let_def)

lemma hex_byte_hex: "hex_byte (hex_char (unat w div 16)) (hex_char (unat w mod 16)) = Some (w :: 8 word)"
proof -
  have "unat w < 256" using unsigned_less [of w] by simp
  then have "unat w div 16 < 16" "unat w mod 16 < 16" by simp_all
  moreover have "of_nat (16 * (unat w div 16) + unat w mod 16) = w" by (simp only: mult_div_mod_eq) simp
  ultimately show ?thesis by (simp add: hex_byte_def hex_digit_char)
qed

lemma in_range_Fin: "in_legend_range m \<longleftrightarrow> (\<exists>v. m = Fin v \<and> - 127 \<le> v \<and> v \<le> 127)"
  by (cases m) (auto simp: in_legend_range_def is_nan_def MinLegendDB_def MaxLegendDB_def)

lemma legend_bins_Inr:
  "legend_bins ms cs = Inr l \<Longrightarrow> length ms = length cs \<Longrightarrow>
     length l = length ms \<and> map (Fin \<circ> fst) l = ms \<and> map (\<lambda>b. Inr (snd b)) l = map ParseHex cs \<and> (\<forall>b \<in> set l. - 127 \<le> fst b \<and> fst b \<le> 127)"
proof (induction ms cs arbitrary: l rule: legend_bins.induct)
  case (1 m ms c cs)
  then obtain v k l' where m: "m = Fin v" "- 127 \<le> v" "v \<le> 127" and c: "ParseHex c = Inr k"
    and l': "legend_bins ms cs = Inr l'" "l = (v, k) # l'"
    by (auto simp: in_range_Fin split: if_splits sum.splits)
  have "\<not> \<not> in_legend_range m" using m by (auto simp: in_range_Fin)
  from "1.IH" [OF this c l'(1)] "1.prems"(2) m c l'(2) show ?case by auto
qed auto

lemma listed_twice_None:
  "listed_twice l = None \<Longrightarrow> sorted_wrt (\<lambda>a b. fst b \<le> (fst a :: real)) l \<Longrightarrow> sorted_wrt (\<lambda>a b. fst b < fst a) l"
proof (induction l rule: listed_twice.induct)
  case (1 a b l)
  then have "sorted_wrt (\<lambda>a b. fst b < fst a) (b # l)" "fst b < fst a" by (auto split: if_splits)
  then show ?case by (auto intro: less_trans)
qed auto

definition legend_ok :: "legend \<Rightarrow> bool" where
  "legend_ok l \<longleftrightarrow> l \<noteq> [] \<and> length l \<le> MaxBins \<and> sorted_wrt (\<lambda>a b. fst b < fst a) l \<and> (\<forall>b \<in> set l. - 127 \<le> fst b \<and> fst b \<le> 127)"

lemma sort_key_down: "sorted_wrt (\<lambda>a b. fst b \<le> (fst a :: real)) (sort_key (\<lambda>b. - fst b) l)"
  using sorted_sort_key [of "\<lambda>b. - fst b" l] by (simp add: sorted_wrt_map)

lemma NewLegend_Inr:
  assumes "NewLegend mins colors = Inr l"
  shows "legend_ok l" "\<exists>l0. mset l0 = mset l \<and> map (Fin \<circ> fst) l0 = mins \<and> map (\<lambda>b. Inr (snd b)) l0 = map ParseHex colors"
proof -
  from assms obtain l0 where len: "length mins = length colors" "mins \<noteq> []" "length mins \<le> MaxBins"
    and bins: "legend_bins mins colors = Inr l0" and l: "l = sort_key (\<lambda>b. - fst b) l0" "listed_twice l = None"
    by (auto simp: NewLegend_def Let_def split: if_splits sum.splits option.splits)
  note l0 = legend_bins_Inr [OF bins len(1)]
  from l0 have size: "length l0 = length mins" and range: "\<forall>b \<in> set l0. - 127 \<le> fst b \<and> fst b \<le> 127" by blast+
  show "legend_ok l"
  proof -
    have "set l = set l0" "length l = length l0" by (simp_all add: l(1))
    moreover from this have "l \<noteq> []" using len(2) size by (metis length_0_conv)
    moreover have "sorted_wrt (\<lambda>a b. fst b < fst a) l" by (rule listed_twice_None [OF l(2)]) (simp add: l(1) sort_key_down)
    ultimately show ?thesis using size range len(3) by (simp add: legend_ok_def)
  qed
  show "\<exists>l0. mset l0 = mset l \<and> map (Fin \<circ> fst) l0 = mins \<and> map (\<lambda>b. Inr (snd b)) l0 = map ParseHex colors"
  proof -
    have "mset l0 = mset l" by (simp add: l(1))
    with l0 show ?thesis by blast
  qed
qed

lemma DefaultLegend_ok: "legend_ok DefaultLegend"
  by (simp add: legend_ok_def DefaultLegend_def MaxBins_def)

lemma LegendOr_ok: "legend_ok (LegendOr mins colors)"
  using NewLegend_Inr(1) DefaultLegend_ok by (auto simp: LegendOr_def split: sum.splits)

lemma bin_from_Suc: "bin_from (Suc k) l m = map_option Suc (bin_from k l m)"
  by (induction l arbitrary: k) auto

lemma bin_from_Some:
  "bin_from 0 l m = Some i \<longleftrightarrow> i < length l \<and> f_le (Fin (fst (l ! i))) m \<and> (\<forall>j < i. \<not> f_le (Fin (fst (l ! j))) m)"
proof (induction l arbitrary: i)
  case (Cons b l)
  then show ?case
    by (cases i) (auto simp: bin_from_Suc less_Suc_eq_0_disj)
qed simp

lemma bin_from_None: "bin_from k l m = None \<longleftrightarrow> (\<forall>b \<in> set l. \<not> f_le (Fin (fst b)) m)"
  by (induction l arbitrary: k) auto

section \<open>Facts about rasters\<close>

definition coarse :: "f64 \<Rightarrow> f64" where
  "coarse m = (case m of NaN \<Rightarrow> NaN | PInf \<Rightarrow> Fin 127 | NInf \<Rightarrow> Fin (- 127) | Fin a \<Rightarrow> Fin (of_int (max (- 127) (min 127 \<lfloor>a\<rfloor>))))"

lemma unat_small_int: "0 \<le> i \<Longrightarrow> i < 256 \<Longrightarrow> unat (word_of_int i :: 8 word) = nat i"
  by (simp add: unat_eq_nat_uint uint_word_of_int)

lemma grey_Fin: "grey (Fin a) = word_of_int (max 1 (min 255 (\<lfloor>a\<rfloor> + 128)))"
proof -
  have "min 255 (max 1 (of_int \<lfloor>a\<rfloor> + 128)) = (of_int (max 1 (min 255 (\<lfloor>a\<rfloor> + 128))) :: real)"
    by (simp add: min_def max_def)
  moreover have "f_add (f_floor (Fin a)) (Fin marginOffset) = Fin (of_int \<lfloor>a\<rfloor> + 128)" by (simp add: marginOffset_def)
  ultimately show ?thesis by (simp add: grey_def is_nan_def trunc_def)
qed

lemma grey_special: "grey NaN = 0" "grey PInf = 255" "grey NInf = 1"
  by (simp_all add: grey_def is_nan_def f_min_def f_max_def marginOffset_def trunc_def)

lemma grey_margin_grey: "grey_margin (grey m) = coarse m"
proof (cases m)
  case (Fin a)
  let ?i = "max 1 (min 255 (\<lfloor>a\<rfloor> + 128))"
  have u: "unat (word_of_int ?i :: 8 word) = nat ?i" by (rule unat_small_int) auto
  moreover have "word_of_int ?i \<noteq> (0 :: 8 word)"
  proof
    assume "word_of_int ?i = (0 :: 8 word)"
    with u have "nat ?i = 0" by simp
    moreover have "1 \<le> ?i" by simp
    ultimately show False by linarith
  qed
  moreover have "real (nat ?i) - 128 = of_int (max (- 127) (min 127 \<lfloor>a\<rfloor>))"
  proof -
    have "real (nat ?i) - 128 = of_int (?i - 128)" by simp
    moreover have "?i - 128 = max (- 127) (min 127 \<lfloor>a\<rfloor>)" by linarith
    ultimately show ?thesis by (simp only:)
  qed
  ultimately show ?thesis by (simp only: Fin grey_Fin grey_margin_def coarse_def marginOffset_def if_False simp_thms f64.case)
qed (simp_all add: grey_special grey_margin_def coarse_def marginOffset_def)

lemma coarse_NaN: "is_nan (coarse m) \<longleftrightarrow> is_nan m"
  by (cases m) (simp_all add: coarse_def is_nan_def)

text \<open>A whole threshold above the least grey value does not see the rounding.\<close>

lemma coarse_threshold:
  assumes "- 126 \<le> k" "k \<le> 127" "\<not> is_nan m"
  shows "f_le (Fin (of_int k)) (coarse m) \<longleftrightarrow> f_le (Fin (of_int k)) m"
proof (cases m)
  case (Fin a)
  have "of_int k \<le> a \<longleftrightarrow> k \<le> \<lfloor>a\<rfloor>" by (simp add: le_floor_iff)
  then show ?thesis using assms(1,2) by (auto simp: Fin coarse_def)
qed (use assms in \<open>auto simp: coarse_def is_nan_def f_le_def\<close>)

definition whole_legend :: "legend \<Rightarrow> bool" where
  "whole_legend l \<longleftrightarrow> (\<forall>b \<in> set l. \<exists>k::int. fst b = of_int k \<and> - 126 \<le> k \<and> k \<le> 127)"

lemma bin_coarse: "whole_legend l \<Longrightarrow> bin l (coarse m) = bin l m"
proof (cases "is_nan m")
  case False
  assume "whole_legend l"
  then have "bin_from i l (coarse m) = bin_from i l m" for i
    by (induction l arbitrary: i) (auto simp: whole_legend_def coarse_threshold [OF _ _ False])
  then show ?thesis by (simp add: bin_def coarse_NaN)
qed (simp add: bin_def coarse_NaN)

text \<open>What the PNG codec promises: a grey image with pixels reads back as itself.\<close>

definition lossless :: "(image \<Rightarrow> bytes) \<Rightarrow> (bytes \<Rightarrow> image option) \<Rightarrow> bool" where
  "lossless enc dec \<longleftrightarrow> (\<forall>w h px. 0 < w \<and> 0 < h \<and> length px = w * h \<longrightarrow> dec (enc (Gray w h px)) = Some (Gray w h px))"

lemma decode_margin:
  assumes "lossless enc dec" "valid_result r" "DecodeRaster dec (MarginPNG enc r) n s e w = Some q"
  shows "cr_w q = cr_w r" "cr_h q = cr_h r" "length (cr_margin q) = length (cr_margin r)"
    "x < cr_w r \<Longrightarrow> y < cr_h r \<Longrightarrow> At q x y = coarse (At r x y)"
proof -
  let ?px = "concat (map (\<lambda>y. map (\<lambda>x. grey (At r x y)) [0..<cr_w r]) [0..<cr_h r])"
  have "dec (enc (Gray (cr_w r) (cr_h r) ?px)) = Some (Gray (cr_w r) (cr_h r) ?px)"
    using assms(1,2) by (simp add: lossless_def valid_result_def grid_length)
  with assms(3) have q: "q = raster_result (cr_w r) (cr_h r) (map grey_margin ?px) n s e w"
    by (simp add: DecodeRaster_def MarginPNG_def)
  then show "cr_w q = cr_w r" "cr_h q = cr_h r" "length (cr_margin q) = length (cr_margin r)"
    using assms(2) by (simp_all add: raster_result_def valid_result_def grid_length del: map_concat)
  show "At q x y = coarse (At r x y)" if xy: "x < cr_w r" "y < cr_h r"
  proof -
    have "y * cr_w r + x < length ?px"
    proof -
      have "Suc y * cr_w r \<le> cr_h r * cr_w r" using xy by (intro mult_right_mono) simp_all
      then show ?thesis using xy by (simp add: grid_length)
    qed
    then have "At q x y = grey_margin (?px ! (y * cr_w r + x))" by (simp add: q At_def raster_result_def del: map_concat)
    also have "\<dots> = grey_margin (grey (At r x y))" by (subst grid_nth [OF xy]) (rule refl)
    finally show ?thesis by (simp only: grey_margin_grey)
  qed
qed

lemma decode_margin_ex:
  assumes "lossless enc dec" "valid_result r"
  shows "\<exists>q. DecodeRaster dec (MarginPNG enc r) n s e w = Some q \<and> cr_w q = cr_w r \<and> cr_h q = cr_h r
    \<and> cr_north q = n \<and> cr_south q = s \<and> cr_east q = e \<and> cr_west q = w
    \<and> (\<forall>x < cr_w r. \<forall>y < cr_h r. At q x y = coarse (At r x y))"
proof -
  let ?px = "concat (map (\<lambda>y. map (\<lambda>x. grey (At r x y)) [0..<cr_w r]) [0..<cr_h r])"
  have "dec (enc (Gray (cr_w r) (cr_h r) ?px)) = Some (Gray (cr_w r) (cr_h r) ?px)"
    using assms by (simp add: lossless_def valid_result_def grid_length)
  then obtain q where q: "DecodeRaster dec (MarginPNG enc r) n s e w = Some q"
    and b: "cr_north q = n \<and> cr_south q = s \<and> cr_east q = e \<and> cr_west q = w"
    by (simp add: DecodeRaster_def MarginPNG_def raster_result_def)
  from q b decode_margin [OF assms q] show ?thesis by blast
qed

section \<open>Properties\<close>

text \<open>C39: Whatever thresholds and colours are stored, LegendOr gives one to eight bins with falling thresholds between
  -127 and 127 dB, and bin picks the first bin a margin reaches: none for NaN or a margin below the last threshold.\<close>

theorem LegendOr_bins:
  "legend_ok (LegendOr mins colors) \<and>
   (case bin (LegendOr mins colors) m of
      Some i \<Rightarrow> i < length (LegendOr mins colors) \<and> f_le (Fin (fst (LegendOr mins colors ! i))) m
        \<and> (\<forall>j < i. \<not> f_le (Fin (fst (LegendOr mins colors ! j))) m)
    | None \<Rightarrow> is_nan m \<or> f_lt m (Fin (fst (last (LegendOr mins colors)))))"
proof -
  let ?l = "LegendOr mins colors"
  have ok: "legend_ok ?l" by (rule LegendOr_ok)
  then have "last ?l \<in> set ?l" by (simp add: legend_ok_def)
  have low: "f_lt m (Fin v)" if "\<not> is_nan m" "\<not> f_le (Fin v) m" for v
    using that by (cases m) (auto simp: is_nan_def f_le_def)
  show ?thesis
  proof (cases "bin ?l m")
    case None
    then have "is_nan m \<or> \<not> f_le (Fin (fst (last ?l))) m"
      using \<open>last ?l \<in> set ?l\<close> by (auto simp: bin_def bin_from_None split: if_splits)
    with None ok low show ?thesis by auto
  next
    case (Some i)
    then have "bin_from 0 ?l m = Some i" by (simp add: bin_def split: if_splits)
    with Some ok show ?thesis by (simp add: bin_from_Some)
  qed
qed

lemma LegendOr_bins_witness: "legend_ok (LegendOr [] []) \<and> bin (LegendOr [] []) (Fin 15) = Some 2"
proof -
  have "bin (LegendOr [] []) (Fin 15) = Some 2" by (simp add: LegendOr_def DefaultLegend_def bin_def is_nan_def)
  with LegendOr_bins [of "[]" "[]" "Fin 15"] show ?thesis by blast
qed

lemma hex_digit_Some: "hex_digit c = Some n \<Longrightarrow> n < 16 \<and> hex_char n = to_lower c"
  by (auto simp: hex_digit_def hex_char_def to_lower_def Let_def split: if_splits)

lemma byte_hex_parsed:
  assumes "hex_byte a b = Some w"
  shows "byte_hex w = [to_lower a, to_lower b]"
proof -
  from assms obtain x y where xy: "hex_digit a = Some x" "hex_digit b = Some y" and w: "w = of_nat (16 * x + y)"
    by (auto simp: hex_byte_def split: option.splits)
  note d = hex_digit_Some [OF xy(1)] hex_digit_Some [OF xy(2)]
  then have "16 * x + y < 256" by simp
  then have "unat w = 16 * x + y" unfolding w unat_of_nat by simp
  then show ?thesis using d by (simp add: byte_hex_def)
qed

text \<open>Colours survive as text: the text of an opaque colour parses to it, and text that parses is, in lower case, the text
  of its colour.\<close>

theorem ParseHex_Hex:
  "ParseHex (Hex (v, r, g, b, a)) = Inr (r, g, b, 255) \<and> (\<forall>s c. ParseHex s = Inr c \<longrightarrow> Hex (v, c) = lower s)"
proof (intro conjI allI impI)
  show "ParseHex (Hex (v, r, g, b, a)) = Inr (r, g, b, 255)"
    by (simp add: Hex_def byte_hex_def ParseHex_def hex_byte_hex)
next
  fix s c assume p: "ParseHex s = Inr c"
  then obtain r1 r2 g1 g2 b1 b2 where s: "s = [CHR ''#'', r1, r2, g1, g2, b1, b2]"
    by (auto simp: ParseHex_def split: list.splits if_splits)
  with p obtain r g b where "hex_byte r1 r2 = Some r" "hex_byte g1 g2 = Some g" "hex_byte b1 b2 = Some b" "c = (r, g, b, 255)"
    by (auto simp: ParseHex_def split: option.splits)
  then show "Hex (v, c) = lower s" by (simp add: Hex_def byte_hex_parsed s lower_def to_lower_def)
qed

lemma ParseHex_Hex_witness: "Hex (0, 60, 180, 60, 255) = lower ''#3CB43C''"
proof -
  have "ParseHex ''#3CB43C'' = Inr (60, 180, 60, 255)" by code_simp
  with ParseHex_Hex [of 0 60 180 60 255] show ?thesis by blast
qed

text \<open>C12: The stored margin raster is readable and keeps size and bounds; every margin comes back rounded down to a whole dB
  and clamped to -127..127, no data stays no data, and a legend with whole thresholds from -126 on paints the same
  image from the stored raster as from the computed one.\<close>

theorem MarginPNG_roundtrip:
  assumes "lossless enc dec" "valid_result r"
  shows "\<exists>q. DecodeRaster dec (MarginPNG enc r) n s e w = Some q \<and> cr_w q = cr_w r \<and> cr_h q = cr_h r
    \<and> cr_north q = n \<and> cr_south q = s \<and> cr_east q = e \<and> cr_west q = w
    \<and> (\<forall>x < cr_w r. \<forall>y < cr_h r. At q x y = coarse (At r x y))
    \<and> (\<forall>l cross. whole_legend l \<longrightarrow> paint q l cross = paint r l cross)"
proof -
  obtain q where q: "DecodeRaster dec (MarginPNG enc r) n s e w = Some q" "cr_w q = cr_w r" "cr_h q = cr_h r"
    and b: "cr_north q = n" "cr_south q = s" "cr_east q = e" "cr_west q = w"
    and at: "\<And>x y. x < cr_w r \<Longrightarrow> y < cr_h r \<Longrightarrow> At q x y = coarse (At r x y)"
    using decode_margin_ex [OF assms, of n s e w] by blast
  have "paint_index q l cross y x = paint_index r l cross y x" if "whole_legend l" "x < cr_w r" "y < cr_h r" for l cross x y
    using at [OF that(2,3)] q(2,3) bin_coarse [OF that(1)] by (simp add: paint_index_def)
  then have "paint q l cross = paint r l cross" if "whole_legend l" for l cross
    unfolding paint_def q(2,3) using that by (auto intro!: arg_cong [where f = concat] map_cong)
  with q b at show ?thesis by blast
qed

definition toy_enc :: "image \<Rightarrow> bytes" where
  "toy_enc i = (case i of Gray w h px \<Rightarrow> replicate w CHR ''w'' @ [CHR ''|''] @ map (\<lambda>v. char_of (unat v)) px | _ \<Rightarrow> [])"

definition toy_dec :: "bytes \<Rightarrow> image option" where
  "toy_dec b = (let w = length (takeWhile (\<lambda>c. c \<noteq> CHR ''|'') b); px = drop (w + 1) b in
     Some (Gray w (length px div w) (map (\<lambda>c. of_nat (of_char c)) px)))"

lemma toy_lossless: "lossless toy_enc toy_dec"
proof -
  have "takeWhile (\<lambda>c. c \<noteq> CHR ''|'') (replicate w CHR ''w'' @ CHR ''|'' # px) = replicate w CHR ''w''" for w px
    by (induction w) auto
  moreover have "of_nat (of_char (char_of (unat v))) = v" for v :: "8 word"
  proof -
    have "unat v < 256" using unsigned_less [of v] by simp
    then show ?thesis by simp
  qed
  ultimately show ?thesis by (simp add: lossless_def toy_enc_def toy_dec_def Let_def o_def)
qed

lemma MarginPNG_roundtrip_witness:
  "\<exists>q. DecodeRaster toy_dec (MarginPNG toy_enc (demo_result 0 [Fin (21/2), NaN])) 1 0 2 0 = Some q \<and> At q 0 0 = Fin 10 \<and> At q 1 0 = NaN"
proof -
  have "valid_result (demo_result 0 [Fin (21/2), NaN])" by (simp add: valid_result_def demo_result_def)
  from MarginPNG_roundtrip [OF toy_lossless this, of 1 0 2 0] show ?thesis
    by (fastforce simp: demo_result_def coarse_def At_def)
qed

text \<open>A fractional threshold, which NewLegend accepts, paints a stored raster differently from the computed one: the margin
  10.7 dB reaches the threshold 10.5 dB, but the stored margin, 10 dB, does not.\<close>

theorem fractional_threshold:
  "NewLegend [Fin (21/2)] [''#ff0000''] = Inr [(21/2, (255, 0, 0, 255))]
   \<and> bin [(21/2, (255, 0, 0, 255))] (Fin (107/10)) = Some 0
   \<and> bin [(21/2, (255, 0, 0, 255))] (grey_margin (grey (Fin (107/10)))) = None"
proof -
  have "ParseHex ''#ff0000'' = Inr (255, 0, 0, 255)" by code_simp
  moreover have "in_legend_range (Fin (21/2))" unfolding in_range_Fin by (intro exI [of _ "21/2"]) simp
  ultimately show ?thesis
    by (simp add: NewLegend_def MaxBins_def bin_def is_nan_def grey_margin_grey coarse_def floor_eq_iff)
qed

end
