(* ===== verification/Worker.thy ===== *)
theory Worker
  imports Resources Plot
begin

text \<open>
  The workers of src/internal/worker/worker.go: what one turn of Worker.Run does with the store.
  The calculation itself is the result handed to runShort or the function compute, the interface
  coverage.Computer; logging and metrics are left out. The state of the contexts when the
  calculation has returned is the record \<open>run_env\<close>.
\<close>

section \<open>Limits\<close>

definition pollInterval :: time where "pollInterval = secs 10"
definition maxAttempts :: int where "maxAttempts = 3"
definition jobTimeout :: time where "jobTimeout = minutes 10"
definition staleAfter :: time where "staleAfter = minutes 15"
definition shortTimeout :: time where "shortTimeout = minutes 2"
definition shortStaleAfter :: time where "shortStaleAfter = minutes 5"
definition settleTimeout :: time where "settleTimeout = secs 10"

lemmas worker_limits = maxAttempts_def jobTimeout_def staleAfter_def shortTimeout_def shortStaleAfter_def settleTimeout_def

definition stale_of :: "bool \<Rightarrow> time" where
  "stale_of coverage = (if coverage then staleAfter else shortStaleAfter)"

definition timeout_of :: "bool \<Rightarrow> time" where
  "timeout_of coverage = (if coverage then jobTimeout else shortTimeout)"

section \<open>Short jobs\<close>

record run_env =
  ctx_done :: bool
  job_late :: bool
  run_ms :: int

datatype compute_error = PublicError string | Hidden link_error | OtherError

text \<open>The database error of settling a job is logged and dropped.\<close>

definition logged :: "('a, 'e, 'b) act \<Rightarrow> ('a, 'e, unit) act" where
  "logged m = attempt m (\<lambda>_. ret ())"

definition short_reason :: "run_env \<Rightarrow> compute_error \<Rightarrow> string" where
  "short_reason env e = (if job_late env then ''The calculation took longer than 2m0s.''
     else case e of PublicError t \<Rightarrow> t | Hidden l \<Rightarrow> Reason l | OtherError \<Rightarrow> dem_reason None)"

definition runShort :: "run_env \<Rightarrow> (compute_error + bytes) \<Rightarrow> job \<Rightarrow> unit store_op" where
  "runShort env res j =
     (if ctx_done env then logged (RequeueJob (j_id j))
      else case res of
        Inl e \<Rightarrow> logged (FailJob (j_id j) (short_reason env e))
      | Inr out \<Rightarrow> logged (FinishJob (j_id j) out (run_ms env)))"

section \<open>Coverage jobs\<close>

text \<open>link.Reason of an error of Compute: it looks for the terrain errors the transmitter's error wraps.\<close>

definition cov_cause :: "cov_error \<Rightarrow> dem_error option" where
  "cov_cause e = (case e of AtTransmitter d \<Rightarrow> Some d | _ \<Rightarrow> None)"

definition coverage_reason :: "run_env \<Rightarrow> cov_error \<Rightarrow> string" where
  "coverage_reason env e = (if job_late env then ''The calculation took longer than 10m0s.'' else dem_reason (cov_cause e))"

definition no_lobe :: "f64 lobe" where
  "no_lobe = \<lparr>lobe_h = [], lobe_v = []\<rparr>"

definition lobe_of :: "antenna \<Rightarrow> f64 lobe" where
  "lobe_of a = \<lparr>lobe_h = ant_h a, lobe_v = (case ant_v a of None \<Rightarrow> [] | Some v \<Rightarrow> v)\<rparr>"

definition coverage_job_input :: "coverage_view \<Rightarrow> f64 lobe \<Rightarrow> f64 cov_input" where
  "coverage_job_input v p = (let c = vc_row v; s = vc_site v; r = cv_params c in
     \<lparr>ci_tx = \<lparr>pl_name = site_name s, pl_lat = site_lat s, pl_lon = site_lon s, pl_height = site_height s\<rparr>,
      ci_radio = \<lparr>rd_freq = cp_freq r, rd_tx_power = cp_tx_power r, rd_tx_gain = cp_tx_gain r, rd_rx_gain = cp_rx_gain r,
        rd_tx_loss = cp_tx_loss r, rd_rx_loss = cp_rx_loss r, rd_sensitivity = cp_sensitivity r, rd_polarization = cp_polarization r,
        rd_tx_pattern = p, rd_tx_azimuth = cv_tx_azimuth c, rd_tx_tilt = cv_tx_tilt c,
        rd_rx_pattern = no_lobe, rd_rx_azimuth = Fin 0, rd_rx_tilt = Fin 0\<rparr>,
      ci_rx_height = cp_rx_height r, ci_range = cp_range r, ci_resolution = cp_resolution r\<rparr>)"

definition radial_note :: "cov_result \<Rightarrow> string" where
  "radial_note r = (if 0 < cr_truncated r
     then int_text (int (cr_truncated r)) @ '' of '' @ int_text (int (cr_radials r)) @
       '' radials ended early: no DEM data. Add the missing .hgt tiles.''
     else [])"

definition bounds_of :: "cov_result \<Rightarrow> bounds" where
  "bounds_of r = \<lparr>b_north = Fin (cr_north r), b_south = Fin (cr_south r), b_east = Fin (cr_east r), b_west = Fin (cr_west r)\<rparr>"

definition settle_coverage :: "(image \<Rightarrow> bytes) \<Rightarrow> run_env \<Rightarrow> (cov_error + cov_result) \<Rightarrow> job \<Rightarrow> coverage \<Rightarrow> unit store_op" where
  "settle_coverage enc env res j c =
     (if ctx_done env then logged (RequeueJob (j_id j))
      else case res of
        Inl e \<Rightarrow> logged (FailJob (j_id j) (coverage_reason env e))
      | Inr r \<Rightarrow> logged (FinishCoverageJob (j_id j) (cv_id c) (CoveragePNG enc r (LegendOr (cv_legend_db c) (cv_legend_colors c)))
          (MarginPNG enc r) (bounds_of r) (run_ms env) (radial_note r)))"

text \<open>The coverage and its antenna are read before the calculation; without the coverage nothing is done, not even a
  requeue, and without the antenna the pattern is omnidirectional.\<close>

definition load_coverage :: "job \<Rightarrow> (coverage_view \<times> f64 lobe) store_op" where
  "load_coverage j =
     andthen (GetCoverage (j_owner j) (case j_coverage j of None \<Rightarrow> 0 | Some c \<Rightarrow> c)) (\<lambda>v.
       case cv_tx_ant (vc_row v) of
         None \<Rightarrow> ret (v, no_lobe)
       | Some a \<Rightarrow> attempt (GetAntenna (cv_owner (vc_row v)) a) (\<lambda>x.
           ret (v, case x of Inl _ \<Rightarrow> no_lobe | Inr t \<Rightarrow> lobe_of t)))"

definition runCoverage :: "(image \<Rightarrow> bytes) \<Rightarrow> (f64 cov_input \<Rightarrow> cov_error + cov_result) \<Rightarrow> run_env \<Rightarrow> job \<Rightarrow> unit store_op" where
  "runCoverage enc compute env j = attempt (load_coverage j) (\<lambda>x. case x of
       Inl _ \<Rightarrow> ret ()
     | Inr (v, p) \<Rightarrow> settle_coverage enc env (compute (coverage_job_input v p)) j (vc_row v))"

section \<open>A turn of Run\<close>

datatype turn = Wait | Retry | GiveUp job | Work job

definition take_turn :: "string \<Rightarrow> bool \<Rightarrow> turn store_op" where
  "take_turn name cov = attempt (ClaimJob name cov (stale_of cov)) (\<lambda>x. case x of
       Inl e \<Rightarrow> ret (if e = ErrNotFound then Wait else Retry)
     | Inr j \<Rightarrow> ret (if maxAttempts \<le> j_attempts j then GiveUp j else Work j))"

definition give_up :: "job \<Rightarrow> unit store_op" where
  "give_up j = logged (FailJob (j_id j) ''The calculation was interrupted repeatedly.'')"

text \<open>The loop body of Run without a pause between its statements, for a worker of short jobs.\<close>

definition run_short_turn :: "string \<Rightarrow> run_env \<Rightarrow> (job \<Rightarrow> compute_error + bytes) \<Rightarrow> turn store_op" where
  "run_short_turn name env compute = andthen (take_turn name False) (\<lambda>t. case t of
       GiveUp j \<Rightarrow> andthen (give_up j) (\<lambda>_. ret t)
     | Work j \<Rightarrow> andthen (runShort env (compute j) j) (\<lambda>_. ret t)
     | _ \<Rightarrow> ret t)"

definition run_coverage_turn :: "string \<Rightarrow> (image \<Rightarrow> bytes) \<Rightarrow> (f64 cov_input \<Rightarrow> cov_error + cov_result) \<Rightarrow> run_env \<Rightarrow> turn store_op" where
  "run_coverage_turn name enc compute env = andthen (take_turn name True) (\<lambda>t. case t of
       GiveUp j \<Rightarrow> andthen (give_up j) (\<lambda>_. ret t)
     | Work j \<Rightarrow> andthen (runCoverage enc compute env j) (\<lambda>_. ret t)
     | _ \<Rightarrow> ret t)"

end
