(* ===== verification/Job_Facts.thy ===== *)
theory Job_Facts
  imports Job_Queue
begin

text \<open>
  What the operations of the job queue keep and return: the schema constraints, the per-user
  quotas and the one job per owner and input; that a claim takes the oldest job it may take;
  that a repeated request finds the job of the first.
\<close>

section \<open>The oldest row\<close>

lemma oldest_None: "oldest p k rs = None \<longleftrightarrow> (\<forall>r \<in> set rs. \<not> p r)"
  by (induction rs) (auto split: option.splits)

lemma oldest_Some: "oldest p k rs = Some r \<Longrightarrow> r \<in> set rs \<and> p r \<and> (\<forall>x \<in> set rs. p x \<longrightarrow> k r \<le> k x)"
proof (induction rs arbitrary: r)
  case (Cons a rs)
  show ?case
  proof (cases "oldest p k rs")
    case None
    with Cons.prems show ?thesis by (auto simp: oldest_None split: if_splits)
  next
    case (Some b)
    with Cons.IH [OF Some] Cons.prems show ?thesis by (auto split: if_splits)
  qed
qed simp

section \<open>Schema constraints\<close>

definition same_key :: "job \<Rightarrow> job \<Rightarrow> bool" where
  "same_key j k \<longleftrightarrow> j_id k = j_id j \<and> j_owner k = j_owner j \<and> j_hash k = j_hash j \<and> j_coverage k = j_coverage j
     \<and> j_kind k = j_kind j \<and> j_input k = j_input j"

lemma same_key_updates [simp]:
  "same_key j (reset_job now j)" "same_key j (start_job w now j)" "same_key j (done_job r ms now j)"
  "same_key j (failed_job msg now j)" "same_key j (j\<lparr>j_state := st, j_worker := wk\<rparr>)"
  by (simp_all add: same_key_def reset_job_def start_job_def done_job_def failed_job_def)

lemma states_after [simp]:
  "j_state (reset_job now j) = JobQueued" "j_state (start_job w now j) = JobRunning"
  "j_state (done_job r ms now j) = JobDone" "j_state (failed_job msg now j) = JobFailed"
  by (simp_all add: reset_job_def start_job_def done_job_def failed_job_def)

lemma jobs_ok_update:
  assumes ok: "jobs_ok u c n js"
    and f: "\<And>j. j \<in> set js \<Longrightarrow> p j \<Longrightarrow> same_key j (f j) \<and> j_state (f j) \<noteq> JobIdle"
  shows "jobs_ok u c n (update_where p f js)"
proof -
  have "map j_id (update_where p f js) = map j_id js"
    "map (\<lambda>j. (j_owner j, j_hash j)) (update_where p f js) = map (\<lambda>j. (j_owner j, j_hash j)) js"
    using f by (auto simp: same_key_def intro!: map_key_update_where)
  moreover have "j_owner x \<in> u \<and> j_id x < n \<and> j_state x \<noteq> JobIdle \<and> (\<forall>k. j_coverage x = Some k \<longrightarrow> k \<in> c)"
    if "x \<in> set (update_where p f js)" for x
    using that
  proof (rule in_update_whereE)
    fix r assume "r \<in> set js" "p r" "x = f r"
    then show ?thesis using f ok by (auto simp: jobs_ok_def same_key_def)
  next
    assume "x \<in> set js" then show ?thesis using ok by (auto simp: jobs_ok_def)
  qed
  ultimately show ?thesis using ok by (auto simp: jobs_ok_def)
qed

lemma jobs_ok_new:
  assumes "jobs_ok u c n js" "find (\<lambda>j. j_owner j = owner \<and> j_hash j = hash) js = None"
    and "owner \<in> u" "\<forall>k. cov = Some k \<longrightarrow> k \<in> c"
  shows "jobs_ok u c (n + 1) (js @ [new_job n owner cov kind input hash now])"
  using assms by (auto simp: jobs_ok_def new_job_def find_None_iff)

lemma insert_job_ok: "db_ok d \<Longrightarrow> db_ok (snd (insert_job owner cov kind input hash now d))"
proof (cases "find (\<lambda>j. j_owner j = owner \<and> j_hash j = hash) (jobs d)")
  case (Some j)
  assume ok: "db_ok d"
  have "db_ok (d\<lparr>jobs := update_where (\<lambda>x. j_id x = j_id j) (reset_job now) (jobs d)\<rparr>)"
    by (rule db_ok_set(8) [OF ok]) (rule jobs_ok_update [OF db_ok_parts(10) [OF ok]], simp)
  with Some ok show ?thesis by (simp add: insert_job_def)
next
  case None
  assume ok: "db_ok d"
  let ?j = "new_job (next_id d) owner cov kind input hash now"
  show ?thesis
  proof (cases "owner \<in> u_id ` set (users d) \<and> (\<forall>c. cov = Some c \<longrightarrow> c \<in> cv_id ` set (coverages d))")
    case True
    have "db_ok (d\<lparr>next_id := next_id d + 1\<rparr>)" using ok by (simp add: db_ok_set)
    then have "db_ok (d\<lparr>next_id := next_id d + 1\<rparr>\<lparr>jobs := jobs d @ [?j]\<rparr>)"
      by (rule db_ok_set(8)) (use jobs_ok_new [OF db_ok_parts(10) [OF ok] None] True in simp)
    with None True show ?thesis by (simp add: insert_job_def Let_def)
  next
    case False
    with None ok show ?thesis by (auto simp: insert_job_def)
  qed
qed

lemma settle_job_ok:
  assumes "db_ok d" "\<And>j. same_key j (f j) \<and> j_state (f j) \<noteq> JobIdle"
  shows "db_ok (settle_job ident f d)"
proof -
  have "db_ok (d\<lparr>jobs := update_where (\<lambda>j. j_id j = ident) f (jobs d)\<rparr>)"
    by (rule db_ok_set(8) [OF assms(1)]) (rule jobs_ok_update [OF db_ok_parts(10) [OF assms(1)]], simp add: assms(2))
  then show ?thesis unfolding settle_job_def by (rule db_ok_set(3))
qed

lemma claim_job_ok: "db_ok d \<Longrightarrow> db_ok (snd (claim_job w cov stale now d))"
  by (auto simp: claim_job_def intro!: db_ok_set(8) jobs_ok_update dest: db_ok_parts(10) split: option.splits)

lemma delete_jobs_ok: "db_ok d \<Longrightarrow> db_ok (d\<lparr>jobs := delete_where p (jobs d)\<rparr>)"
  by (auto intro!: db_ok_set(8) jobs_ok_delete dest: db_ok_parts(10))

lemma requeue_ok:
  "db_ok d \<Longrightarrow> db_ok (d\<lparr>jobs := update_where p (\<lambda>j. j\<lparr>j_state := JobQueued, j_worker := None\<rparr>) (jobs d), outbox := ob\<rparr>)"
  by (rule db_ok_set(3), rule db_ok_set(8), assumption, rule jobs_ok_update, erule db_ok_parts(10)) simp

lemma store_result_ok:
  assumes "db_ok d"
  shows "db_ok (d\<lparr>coverages := update_where p (store_result png m b ms note now) (coverages d)\<rparr>)"
proof (rule db_ok_set_coverages [OF assms])
  show "coverages_ok (u_id ` set (users d)) (sites d) (antennas d) (next_id d)
      (update_where p (store_result png m b ms note now) (coverages d))"
    by (rule coverages_ok_update [OF db_ok_parts(9) [OF assms]])
      (use db_ok_parts(9) [OF assms] in \<open>auto simp: store_result_def coverages_ok_def coverage_check_def\<close>)
qed (simp add: image_update_where store_result_def)

section \<open>Quotas\<close>

text \<open>
  The invariant of the queue: the schema constraints, every hash is that of the job's kind and
  input (kinds hold no line break), and no owner has more active jobs of a class than its limit.
\<close>

definition hashed_ok :: "(bytes \<Rightarrow> string) \<Rightarrow> job list \<Rightarrow> bool" where
  "hashed_ok sha js \<longleftrightarrow> (\<forall>j \<in> set js. j_hash j = jobHash sha (j_kind j) (j_input j) \<and> CHR 0x0A \<notin> set (j_kind j))"

definition quota_ok :: "job list \<Rightarrow> bool" where
  "quota_ok js \<longleftrightarrow> (\<forall>owner kind. active_jobs owner kind js \<le> job_limit kind)"

definition queue_ok :: "(bytes \<Rightarrow> string) \<Rightarrow> db \<Rightarrow> bool" where
  "queue_ok sha d \<longleftrightarrow> db_ok d \<and> hashed_ok sha (jobs d) \<and> quota_ok (jobs d)"

lemma jobHash_inj:
  assumes "inj sha" "CHR 0x0A \<notin> set k" "CHR 0x0A \<notin> set k'"
  shows "jobHash sha k i = jobHash sha k' i' \<longleftrightarrow> k = k' \<and> i = i'"
proof -
  have "jobHash sha k i = jobHash sha k' i' \<longleftrightarrow> k @ CHR 0x0A # i = k' @ CHR 0x0A # i'"
    using assms(1) by (simp add: jobHash_def inj_eq)
  then show ?thesis using append_sep_inj [OF assms(2,3)] by simp
qed

lemma hashed_ok_update:
  "hashed_ok sha js \<Longrightarrow> (\<And>j. j \<in> set js \<Longrightarrow> p j \<Longrightarrow> same_key j (f j)) \<Longrightarrow> hashed_ok sha (update_where p f js)"
  by (auto simp: hashed_ok_def same_key_def elim!: in_update_whereE)

lemma quota_ok_delete: "quota_ok js \<Longrightarrow> quota_ok (delete_where p js)"
  unfolding quota_ok_def active_jobs_def by (meson count_where_delete_le order_trans)

lemma hashed_ok_delete: "hashed_ok sha js \<Longrightarrow> hashed_ok sha (delete_where p js)"
  by (auto simp: hashed_ok_def)

lemma quota_ok_update:
  assumes "quota_ok js"
    and "\<And>j. j \<in> set js \<Longrightarrow> p j \<Longrightarrow> same_key j (f j) \<and> (active_state (j_state (f j)) \<longrightarrow> active_state (j_state j))"
  shows "quota_ok (update_where p f js)"
  unfolding quota_ok_def
proof (intro allI)
  fix owner kind
  have "active_jobs owner kind (update_where p f js) \<le> active_jobs owner kind js"
    unfolding active_jobs_def
    by (rule count_update_le) (use assms(2) in \<open>auto simp: same_key_def same_class_def\<close>)
  then show "active_jobs owner kind (update_where p f js) \<le> job_limit kind"
    using assms(1) by (meson quota_ok_def order_trans)
qed

lemma active_jobs_class: "(k = KindCoverage) = (k' = KindCoverage) \<Longrightarrow> active_jobs owner k js = active_jobs owner k' js"
  by (simp add: active_jobs_def same_class_def)

lemma job_limit_class: "(k = KindCoverage) = (k' = KindCoverage) \<Longrightarrow> job_limit k = job_limit k'"
  by (simp add: job_limit_def)

text \<open>The insert after the count: one more active job of the owner and class that was below the limit.\<close>

lemma insert_job_quota:
  assumes q: "queue_ok sha d" and inj: "inj sha" and kind: "CHR 0x0A \<notin> set kind"
    and below: "active_jobs owner kind (jobs d) < job_limit kind" and hash: "hash = jobHash sha kind input"
  shows "queue_ok sha (snd (insert_job owner cov kind input hash now d))"
proof -
  let ?d = "snd (insert_job owner cov kind input hash now d)"
  from q have ok: "db_ok d" and h: "hashed_ok sha (jobs d)" and quota: "quota_ok (jobs d)"
    by (simp_all add: queue_ok_def)
  have "hashed_ok sha (jobs ?d) \<and> quota_ok (jobs ?d)"
  proof (cases "find (\<lambda>j. j_owner j = owner \<and> j_hash j = hash) (jobs d)")
    case None
    have "quota_ok (jobs d @ [new_job (next_id d) owner cov kind input hash now])"
      unfolding quota_ok_def
    proof (intro allI)
      fix o' k'
      show "active_jobs o' k' (jobs d @ [new_job (next_id d) owner cov kind input hash now]) \<le> job_limit k'"
      proof (cases "o' = owner \<and> (kind = KindCoverage) = (k' = KindCoverage)")
        case True
        with below active_jobs_class [of kind k'] job_limit_class [of kind k']
        have "active_jobs o' k' (jobs d) < job_limit k'" by metis
        then show ?thesis by (simp add: active_jobs_def)
      next
        case False
        then have "active_jobs o' k' (jobs d @ [new_job (next_id d) owner cov kind input hash now]) = active_jobs o' k' (jobs d)"
          by (auto simp: active_jobs_def new_job_def same_class_def)
        with quota show ?thesis by (simp add: quota_ok_def)
      qed
    qed
    moreover have "hashed_ok sha (jobs d @ [new_job (next_id d) owner cov kind input hash now])"
      using h kind hash by (auto simp: hashed_ok_def new_job_def)
    ultimately show ?thesis using None h quota by (simp add: insert_job_def Let_def)
  next
    case (Some j)
    then have j: "j \<in> set (jobs d)" "j_owner j = owner" "j_hash j = hash"
      using find_SomeD by fastforce+
    then have jk: "j_kind j = kind"
      using h jobHash_inj [OF inj _ kind, of "j_kind j" "j_input j" input] hash by (simp add: hashed_ok_def)
    have dist: "distinct (map j_id (jobs d))" using db_ok_parts(10) [OF ok] by (simp add: jobs_ok_def)
    let ?js = "update_where (\<lambda>x. j_id x = j_id j) (reset_job now) (jobs d)"
    have "quota_ok ?js"
      unfolding quota_ok_def
    proof (intro allI)
      fix o' k'
      show "active_jobs o' k' ?js \<le> job_limit k'"
      proof (cases "o' = owner \<and> (kind = KindCoverage) = (k' = KindCoverage)")
        case True
        with below active_jobs_class [of kind k'] job_limit_class [of kind k']
        have lt: "active_jobs o' k' (jobs d) < job_limit k'" by metis
        have "active_jobs o' k' ?js \<le> Suc (active_jobs o' k' (jobs d))"
          unfolding active_jobs_def
          using count_update_key_le [OF dist, where p = "\<lambda>_. True"] by simp
        with lt show ?thesis by simp
      next
        case False
        have "active_jobs o' k' ?js = active_jobs o' k' (jobs d)"
          unfolding active_jobs_def
        proof (rule count_update_eq)
          fix r assume "r \<in> set (jobs d)" "j_id r = j_id j"
          with j(1) dist have "r = j" by (metis key_unique)
          with False j jk show "(j_owner (reset_job now r) = o' \<and> active_state (j_state (reset_job now r)) \<and> same_class k' (reset_job now r)) =
              (j_owner r = o' \<and> active_state (j_state r) \<and> same_class k' r)"
            by (auto simp: reset_job_def same_class_def)
        qed
        with quota show ?thesis by (simp add: quota_ok_def)
      qed
    qed
    moreover have "hashed_ok sha ?js" by (rule hashed_ok_update [OF h]) simp
    ultimately show ?thesis using Some h quota by (simp add: insert_job_def)
  qed
  then show ?thesis using insert_job_ok [OF ok] by (simp add: queue_ok_def)
qed

text \<open>Every other operation of the queue.\<close>

lemma queue_ok_settle:
  assumes "queue_ok sha d" "\<And>j. same_key j (f j) \<and> j_state (f j) \<noteq> JobIdle \<and> \<not> active_state (j_state (f j))"
  shows "queue_ok sha (settle_job ident f d)"
  using assms by (auto simp: queue_ok_def settle_job_ok) (auto simp: settle_job_def intro!: hashed_ok_update quota_ok_update)

lemma queue_ok_claim: "queue_ok sha d \<Longrightarrow> queue_ok sha (snd (claim_job w cov stale now d))"
proof (cases "oldest (claimable cov stale now) j_queued_at (jobs d)")
  case (Some j)
  assume q: "queue_ok sha d"
  then have dist: "distinct (map j_id (jobs d))"
    by (simp add: queue_ok_def db_ok_def jobs_ok_def)
  from oldest_Some [OF Some] have j: "j \<in> set (jobs d)" "claimable cov stale now j" by auto
  have "quota_ok (update_where (\<lambda>x. j_id x = j_id j) (start_job w now) (jobs d))"
  proof (rule quota_ok_update)
    fix x assume "x \<in> set (jobs d)" "j_id x = j_id j"
    then have "x = j" using key_unique [OF dist _ j(1)] by blast
    with j(2) show "same_key x (start_job w now x) \<and>
        (active_state (j_state (start_job w now x)) \<longrightarrow> active_state (j_state x))"
      by (auto simp: claimable_def active_state_def)
  qed (use q in \<open>simp add: queue_ok_def\<close>)
  with q Some claim_job_ok [of d w cov stale now] show ?thesis
    by (auto simp: queue_ok_def claim_job_def intro!: hashed_ok_update)
qed (simp add: claim_job_def)

lemma queue_ok_requeue:
  "queue_ok sha d \<Longrightarrow> queue_ok sha (d\<lparr>jobs := update_where (\<lambda>j. j_id j = ident \<and> j_state j = JobRunning)
      (\<lambda>j. j\<lparr>j_state := JobQueued, j_worker := None\<rparr>) (jobs d), outbox := ob\<rparr>)"
  by (auto simp: queue_ok_def requeue_ok active_state_def intro!: hashed_ok_update quota_ok_update)

lemma queue_ok_delete: "queue_ok sha d \<Longrightarrow> queue_ok sha (d\<lparr>jobs := delete_where p (jobs d)\<rparr>)"
  by (simp add: queue_ok_def delete_jobs_ok hashed_ok_delete quota_ok_delete)

lemma queue_ok_store_result:
  "queue_ok sha d \<Longrightarrow> queue_ok sha (d\<lparr>coverages := update_where p (store_result png m b ms note now) (coverages d)\<rparr>)"
  by (simp add: queue_ok_def store_result_ok)

lemma queue_ok_outbox: "queue_ok sha d \<Longrightarrow> queue_ok sha (d\<lparr>outbox := ob\<rparr>)"
  by (simp add: queue_ok_def db_ok_set)

section \<open>Running the operations\<close>

lemma enqueue_new_keeps:
  assumes inj: "inj sha" and kind: "CHR 0x0A \<notin> set kind" and hash: "hash = jobHash sha kind input"
  shows "keeps (\<lambda>s. queue_ok sha (tabs s)) (enqueue_new owner cov kind input hash)"
proof (rule keepsI)
  fix s :: store
  assume q: "queue_ok sha (tabs s)"
  let ?ins = "exec (insert_job owner cov kind input hash)"
  let ?rest = "attempt ?ins (\<lambda>r. case r of
           Inr j \<Rightarrow> andthen (exec (notify_queued kind)) (\<lambda>_. ret j)
         | Inl e \<Rightarrow> (if e = ErrNotFound then exec (existing_job owner hash) else raise e))"
  show "queue_ok sha (tabs (snd (enqueue_new owner cov kind input hash s)))"
  proof (cases "exec (count_jobs owner kind) s")
    case (Pair r t)
    have tt: "tabs t = tabs s" using exec_reading_tabs [of _ s] Pair by (metis count_jobs_def snd_conv)
    show ?thesis
    proof (cases r)
      case (Inl e)
      with Pair q tt show ?thesis by (simp add: enqueue_new_def andthen_def)
    next
      case (Inr p)
      with Pair have p: "p = (active_jobs owner kind (jobs (tabs s)), queued_jobs (jobs (tabs s)))"
        by (auto dest!: exec_Inr simp: count_jobs_def reading_def)
      show ?thesis
      proof (cases "job_limit kind \<le> fst p \<or> MaxQueuedJobs \<le> snd p")
        case True
        with Pair Inr q tt p show ?thesis by (auto simp: enqueue_new_def andthen_def)
      next
        case False
        have run: "enqueue_new owner cov kind input hash s = ?rest t"
          using Pair Inr p False by (simp add: enqueue_new_def andthen_def)
        have below: "active_jobs owner kind (jobs (tabs t)) < job_limit kind"
          using False p tt by simp
        have after: "queue_ok sha (tabs (snd (?ins t)))"
          using exec_tabs [of "insert_job owner cov kind input hash" t]
            insert_job_quota [OF _ inj kind below hash] q tt by metis
        have cont: "keeps (\<lambda>s. queue_ok sha (tabs s)) (case r of
           Inr j \<Rightarrow> andthen (exec (notify_queued kind)) (\<lambda>_. ret j)
         | Inl e \<Rightarrow> (if e = ErrNotFound then exec (existing_job owner hash) else raise e))" for r
          unfolding existing_job_def notify_queued_def
          by (auto intro!: keeps_intros queue_ok_outbox)
        show ?thesis
          unfolding run attempt_def
          by (cases "?ins t") (use after keepsD [OF cont] in \<open>simp only: prod.case snd_conv\<close>)
      qed
    qed
  qed
qed

lemma EnqueueJob_keeps_queue:
  assumes "inj sha" "CHR 0x0A \<notin> set kind"
  shows "keeps (\<lambda>s. queue_ok sha (tabs s)) (EnqueueJob sha owner cov kind input)"
  unfolding EnqueueJob_def Let_def existing_job_def
  by (auto intro!: keeps_intros enqueue_new_keeps [OF assms])

lemma KindCoverage_line: "CHR 0x0A \<notin> set KindCoverage"
  by (simp add: KindCoverage_def)

lemma queue_ops_keep [keeps_intros]:
  "keeps (\<lambda>s. queue_ok sha (tabs s)) (GetJob ident)"
  "keeps (\<lambda>s. queue_ok sha (tabs s)) (DeleteFinishedJobs age)"
  "keeps (\<lambda>s. queue_ok sha (tabs s)) (ClaimJob w b stale)"
  "keeps (\<lambda>s. queue_ok sha (tabs s)) (FinishJob ident result ms)"
  "keeps (\<lambda>s. queue_ok sha (tabs s)) (FailJob ident msg)"
  "keeps (\<lambda>s. queue_ok sha (tabs s)) (RequeueJob ident)"
  "keeps (\<lambda>s. queue_ok sha (tabs s)) (CoverageJob owner ident)"
  unfolding GetJob_def DeleteFinishedJobs_def ClaimJob_def FinishJob_def FailJob_def RequeueJob_def CoverageJob_def Let_def
  by (auto intro!: keeps_intros queue_ok_delete queue_ok_claim queue_ok_settle queue_ok_requeue simp: active_state_def)

lemma EnqueueCoverage_keeps:
  "inj sha \<Longrightarrow> keeps (\<lambda>s. queue_ok sha (tabs s)) (EnqueueCoverage sha owner ident)"
  unfolding EnqueueCoverage_def
  by (auto intro!: keeps_intros queue_ok_delete EnqueueJob_keeps_queue KindCoverage_line)

lemma FinishCoverageJob_keeps [keeps_intros]:
  "keeps (\<lambda>s. queue_ok sha (tabs s)) (FinishCoverageJob jid ident png m b ms note)"
  unfolding FinishCoverageJob_def
  by (auto intro!: keeps_intros queue_ok_store_result queue_ok_settle simp: active_state_def)

end
