(* ===== verification/Store_Facts.thy ===== *)
theory Store_Facts
  imports Job_Facts Resources
begin

text \<open>
  The invariant of the store and its preservation by every operation: the constraints of the
  schema and ownership of references (\<open>db_ok\<close>), the quotas of jobs (\<open>queue_ok\<close>) and of sites,
  coverages and API tokens (\<open>limits_ok\<close>). Each statement has one preservation lemma; the
  operations follow by the rules of \<open>keeps\<close>.
\<close>

section \<open>The invariant\<close>

definition limits_ok :: "db \<Rightarrow> bool" where
  "limits_ok d \<longleftrightarrow> (\<forall>owner. count_sites owner d \<le> MaxSitesPerUser \<and> count_coverages owner d \<le> MaxCoveragesPerUser
     \<and> count_tokens owner d \<le> MaxTokensPerUser)"

definition store_ok :: "(bytes \<Rightarrow> string) \<Rightarrow> db \<Rightarrow> bool" where
  "store_ok sha d \<longleftrightarrow> queue_ok sha d \<and> limits_ok d"

lemma store_okD: "store_ok sha d \<Longrightarrow> db_ok d"
  by (simp add: store_ok_def queue_ok_def)

text \<open>A statement that leaves the jobs and the counted tables alone only has to keep the schema.\<close>

lemma store_okI:
  assumes "store_ok sha d" "db_ok d'" "jobs d' = jobs d" "sites d' = sites d" "coverages d' = coverages d"
    "api_tokens d' = api_tokens d"
  shows "store_ok sha d'"
  using assms by (simp add: store_ok_def queue_ok_def limits_ok_def count_sites_def count_coverages_def count_tokens_def)

text \<open>In general: jobs may be deleted and no count of an owner may pass its limit.\<close>

lemma store_okI':
  assumes "store_ok sha d" "db_ok d'" "jobs d' = jobs d \<or> (\<exists>p. jobs d' = delete_where p (jobs d))"
    "\<And>owner. count_sites owner d' \<le> count_sites owner d \<or> count_sites owner d' \<le> MaxSitesPerUser"
    "\<And>owner. count_coverages owner d' \<le> count_coverages owner d \<or> count_coverages owner d' \<le> MaxCoveragesPerUser"
    "\<And>owner. count_tokens owner d' \<le> count_tokens owner d \<or> count_tokens owner d' \<le> MaxTokensPerUser"
  shows "store_ok sha d'"
proof -
  have "limits_ok d'"
    using assms(1,4,5,6) unfolding store_ok_def limits_ok_def by (meson order_trans)
  moreover have "hashed_ok sha (jobs d')" "quota_ok (jobs d')"
    using assms(1,3) by (auto simp: store_ok_def queue_ok_def hashed_ok_delete quota_ok_delete)
  ultimately show ?thesis using assms(2) by (simp add: store_ok_def queue_ok_def)
qed

lemma store_ok_empty: "store_ok sha empty_db"
  using db_ok_empty
  by (simp add: store_ok_def queue_ok_def limits_ok_def hashed_ok_def quota_ok_def active_jobs_def
      count_sites_def count_coverages_def count_tokens_def empty_db_def)

lemma user_exists_iff: "list_ex (\<lambda>u. u_id u = i) us \<longleftrightarrow> i \<in> u_id ` set us"
  by (auto simp: list_ex_iff)

section \<open>Users, sessions and tokens\<close>

lemma users_okD:
  assumes "users_ok n us"
  shows "distinct (map u_id us)" "distinct (map u_name us)"
    and "u \<in> set us \<Longrightarrow> 0 < u_id u \<and> u_id u < n \<and> lower (u_name u) = u_name u"
    and "u \<in> set us \<Longrightarrow> v \<in> set us \<Longrightarrow> u_email u \<noteq> None \<Longrightarrow> map_option lower (u_email u) = map_option lower (u_email v) \<Longrightarrow> u_id u = u_id v"
  using assms unfolding users_ok_def by blast+

lemma users_ok_rows:
  assumes "users_ok n us" and "map u_id us' = map u_id us" "map u_name us' = map u_name us"
    and rows: "\<And>x. x \<in> set us' \<Longrightarrow> \<exists>v \<in> set us. u_id x = u_id v \<and> u_name x = u_name v \<and> u_email x = u_email v"
  shows "users_ok n us'"
  unfolding users_ok_def
proof (intro conjI ballI impI)
  fix x assume "x \<in> set us'"
  with rows obtain v where "v \<in> set us" "u_id x = u_id v" "u_name x = u_name v" by blast
  then show "0 < u_id x" "u_id x < n" "lower (u_name x) = u_name x"
    using users_okD(3) [OF assms(1)] by (metis+)
next
  fix x y assume "x \<in> set us'" "y \<in> set us'" and e: "u_email x \<noteq> None \<and> map_option lower (u_email x) = map_option lower (u_email y)"
  with rows obtain v w where "v \<in> set us" "u_id x = u_id v" "u_email x = u_email v" "w \<in> set us" "u_id y = u_id w" "u_email y = u_email w"
    by metis
  with e show "u_id x = u_id y" using users_okD(4) [OF assms(1)] by metis
qed (use users_okD(1,2) [OF assms(1)] assms(2,3) in simp_all)

lemma users_ok_update:
  assumes "users_ok n us"
    and f: "\<And>u. u \<in> set us \<Longrightarrow> p u \<Longrightarrow> u_id (f u) = u_id u \<and> u_name (f u) = u_name u \<and> u_email (f u) = u_email u"
  shows "users_ok n (update_where p f us)"
proof (rule users_ok_rows [OF assms(1)])
  show "\<exists>v \<in> set us. u_id x = u_id v \<and> u_name x = u_name v \<and> u_email x = u_email v"
    if "x \<in> set (update_where p f us)" for x
    using that by (rule in_update_whereE) (use f in auto)
qed (use f in \<open>simp_all add: map_key_update_where\<close>)

lemma db_ok_update_users:
  assumes "db_ok d"
    and "\<And>u. p u \<Longrightarrow> u_id (f u) = u_id u \<and> u_name (f u) = u_name u \<and> u_email (f u) = u_email u"
  shows "db_ok (d\<lparr>users := update_where p f (users d)\<rparr>)"
  by (rule db_ok_set_users [OF assms(1)])
    (use assms(2) in \<open>simp_all add: users_ok_update db_ok_parts(2) [OF assms(1)] image_update_where\<close>)

lemma new_user_ok:
  "users_ok n us \<Longrightarrow> \<not> list_ex (user_named name) us \<Longrightarrow> 0 < n \<Longrightarrow> users_ok (n + 1) (us @ [new_user n name pe v pw now])"
proof -
  assume us: "users_ok n us" and fresh: "\<not> list_ex (user_named name) us" and n: "0 < n"
  let ?u = "new_user n name pe v pw now"
  have u: "u_id ?u = n" "u_name ?u = lower name" "u_email ?u = None" by (simp_all add: new_user_def)
  note old = users_okD [OF us]
  have "n \<notin> u_id ` set us" "lower name \<notin> u_name ` set us"
    using old(3) fresh by (force simp: list_ex_iff user_named_def)+
  then have "distinct (map u_id (us @ [?u]))" "distinct (map u_name (us @ [?u]))"
    using old(1,2) u by simp_all
  moreover have "0 < u_id x \<and> u_id x < n + 1 \<and> lower (u_name x) = u_name x" if "x \<in> set (us @ [?u])" for x
    using that n u old(3) [of x] by auto
  moreover have "u_id x = u_id y"
    if "x \<in> set (us @ [?u])" "y \<in> set (us @ [?u])" "u_email x \<noteq> None" "map_option lower (u_email x) = map_option lower (u_email y)" for x y
  proof -
    have "u_email y \<noteq> None" using that(3,4) by (cases "u_email y") auto
    with that u have "x \<in> set us" "y \<in> set us" by auto
    with that(3,4) show ?thesis using old(4) by blast
  qed
  ultimately show ?thesis unfolding users_ok_def by blast
qed

lemma insert_user_ok: "store_ok sha d \<Longrightarrow> store_ok sha (snd (insert_user name pe v pw now d))"
proof (cases "list_ex (user_named name) (users d)")
  case False
  assume ok: "store_ok sha d"
  note d = store_okD [OF ok]
  have "db_ok (d\<lparr>next_id := next_id d + 1, users := users d @ [new_user (next_id d) name pe v pw now]\<rparr>)"
    by (rule db_ok_add_user [OF db_ok_set(9) [OF d]])
      (use False d in \<open>auto intro!: new_user_ok dest: db_ok_parts\<close>)
  with ok False show ?thesis by (auto simp: insert_user_def intro: store_okI)
qed (simp add: insert_user_def)

lemma password_ok: "store_ok sha d \<Longrightarrow> store_ok sha (d\<lparr>users := update_where p (\<lambda>u. u\<lparr>u_password := pw\<rparr>) (users d)\<rparr>)"
  by (rule store_okI) (auto intro: db_ok_update_users dest: store_okD)

lemma set_email_ok:
  assumes ok: "store_ok sha d" and fresh: "\<not> list_ex (\<lambda>u. has_email email u \<and> u_id u \<noteq> ident) (users d)"
  shows "store_ok sha (d\<lparr>users := update_where (\<lambda>u. u_id u = ident)
     (\<lambda>u. u\<lparr>u_email := Some email, u_pending := None, u_verified_at := Some now\<rparr>) (users d)\<rparr>)"
proof -
  let ?f = "\<lambda>u. u\<lparr>u_email := Some email, u_pending := None, u_verified_at := Some now\<rparr>"
  let ?us = "update_where (\<lambda>u. u_id u = ident) ?f (users d)"
  note d = store_okD [OF ok]
  from db_ok_parts(2) [OF d] have us: "users_ok (next_id d) (users d)" .
  have keys: "map u_id ?us = map u_id (users d)" "map u_name ?us = map u_name (users d)"
    by (simp_all add: map_key_update_where)
  have row: "(u_id x = ident \<and> u_email x = Some email \<or> x \<in> set (users d) \<and> u_id x \<noteq> ident)
     \<and> (\<exists>v \<in> set (users d). u_id x = u_id v \<and> u_name x = u_name v)" if "x \<in> set ?us" for x
    using that by (rule in_update_whereE) auto
  have clash: "\<And>u. u \<in> set (users d) \<Longrightarrow> map_option lower (u_email u) = Some (lower email) \<Longrightarrow> u_id u = ident"
    using fresh by (auto simp: list_ex_iff has_email_def)
  have "users_ok (next_id d) ?us"
    unfolding users_ok_def keys
  proof (intro conjI ballI impI)
    fix x y assume "x \<in> set ?us" "y \<in> set ?us"
      and e: "u_email x \<noteq> None \<and> map_option lower (u_email x) = map_option lower (u_email y)"
    then show "u_id x = u_id y"
      using row [of x] row [of y] clash [of x] clash [of y] users_okD(4) [OF us, of x y]
      by (metis option.simps(9))
  next
    fix x assume "x \<in> set ?us"
    then obtain v where "v \<in> set (users d)" "u_id x = u_id v" "u_name x = u_name v" using row by blast
    then show "0 < u_id x" "u_id x < next_id d" "lower (u_name x) = u_name x"
      using users_okD(3) [OF us] by metis+
  qed (use users_okD(1,2) [OF us] in simp_all)
  then have "db_ok (d\<lparr>users := ?us\<rparr>)"
    by (rule db_ok_set_users [OF d]) (simp add: image_update_where)
  with ok show ?thesis by (auto intro: store_okI)
qed

lemma seen_ok: "store_ok sha d \<Longrightarrow> store_ok sha (seen user now d)"
  "store_ok sha d \<Longrightarrow> store_ok sha (seen_lately user now d)"
  unfolding seen_def seen_lately_def
  by (rule store_okI; auto intro: db_ok_update_users dest: store_okD)+

lemma sessions_set_ok:
  "store_ok sha d \<Longrightarrow> sessions_ok (u_id ` set (users d)) ss \<Longrightarrow> store_ok sha (d\<lparr>sessions := ss\<rparr>)"
  by (rule store_okI) (auto intro: db_ok_set(4) dest: store_okD)

lemma seen_users [simp]:
  "u_id ` set (users (seen user now d)) = u_id ` set (users d)" "sessions (seen user now d) = sessions d"
  "u_id ` set (users (seen_lately user now d)) = u_id ` set (users d)" "sessions (seen_lately user now d) = sessions d"
  "api_tokens (seen_lately user now d) = api_tokens d" "next_id (seen_lately user now d) = next_id d"
  by (simp_all add: seen_def seen_lately_def image_update_where)

lemma sessions_ok_update:
  "sessions_ok u ss \<Longrightarrow> (\<And>s. p s \<Longrightarrow> ss_id (f s) = ss_id s \<and> ss_user (f s) = ss_user s) \<Longrightarrow> sessions_ok u (update_where p f ss)"
  by (auto simp: sessions_ok_def map_key_update_where elim!: in_update_whereE)

lemma session_user_ok: "store_ok sha d \<Longrightarrow> store_ok sha (snd (session_user ident idle age now d))"
  using db_ok_parts(3) [OF store_okD]
  by (auto simp: session_user_def Let_def intro!: sessions_set_ok seen_ok sessions_ok_update split: option.splits)

lemma create_session_ok:
  assumes "store_ok sha d" "\<not> list_ex (\<lambda>s. ss_id s = ident) (sessions d)" "list_ex (\<lambda>u. u_id u = user) (users d)"
  shows "store_ok sha ((seen user now d)\<lparr>sessions := sessions d @ [\<lparr>ss_id = ident, ss_user = user, ss_created = now, ss_expires = e\<rparr>]\<rparr>)"
  using assms db_ok_parts(3) [OF store_okD [OF assms(1)]]
  by (auto intro!: sessions_set_ok seen_ok simp: user_exists_iff sessions_ok_def list_ex_iff)

lemma email_tokens_set_ok:
  "store_ok sha d \<Longrightarrow> email_tokens_ok (u_id ` set (users d)) ts \<Longrightarrow> store_ok sha (d\<lparr>email_tokens := ts\<rparr>)"
  by (rule store_okI) (auto intro: db_ok_set(5) dest: store_okD)

lemma email_tokens_delete_ok: "store_ok sha d \<Longrightarrow> store_ok sha (d\<lparr>email_tokens := delete_where p (email_tokens d)\<rparr>)"
  by (auto intro!: email_tokens_set_ok email_tokens_ok_delete dest: store_okD db_ok_parts(4))

lemma sessions_delete_ok: "store_ok sha d \<Longrightarrow> store_ok sha (d\<lparr>sessions := delete_where p (sessions d)\<rparr>)"
  by (auto intro!: sessions_set_ok sessions_ok_delete dest: store_okD db_ok_parts(3))

lemma create_email_token_ok:
  assumes "store_ok sha d" "\<not> list_ex (\<lambda>t. et_id t = ident) (email_tokens d)" "list_ex (\<lambda>u. u_id u = user) (users d)"
  shows "store_ok sha (d\<lparr>email_tokens := email_tokens d @
     [\<lparr>et_id = ident, et_user = user, et_email = email, et_purpose = pu, et_expires = e\<rparr>]\<rparr>)"
  using assms db_ok_parts(4) [OF store_okD [OF assms(1)]]
  by (auto intro!: email_tokens_set_ok simp: user_exists_iff email_tokens_ok_def list_ex_iff)

lemma consume_ok: "store_ok sha d \<Longrightarrow> store_ok sha (snd (consume_email_token ident pu now d))"
  unfolding consume_email_token_def by (auto intro: email_tokens_delete_ok split: option.splits)

lemma api_tokens_set_ok:
  "store_ok sha d \<Longrightarrow> api_tokens_ok (u_id ` set (users d)) (next_id d) ts
    \<Longrightarrow> (\<And>owner. count_where (\<lambda>t. at_user t = owner) ts \<le> count_tokens owner d \<or> count_where (\<lambda>t. at_user t = owner) ts \<le> MaxTokensPerUser)
    \<Longrightarrow> store_ok sha (d\<lparr>api_tokens := ts\<rparr>)"
  by (rule store_okI') (auto intro: db_ok_set(6) dest: store_okD simp: count_sites_def count_coverages_def count_tokens_def)

lemma api_tokens_delete_ok: "store_ok sha d \<Longrightarrow> store_ok sha (d\<lparr>api_tokens := delete_where p (api_tokens d)\<rparr>)"
  by (auto intro!: api_tokens_set_ok api_tokens_ok_delete count_where_delete_le simp: count_tokens_def dest: store_okD db_ok_parts(5))

lemma api_tokens_ok_update:
  "api_tokens_ok u n ts \<Longrightarrow> (\<And>t. p t \<Longrightarrow> at_id (f t) = at_id t \<and> at_user (f t) = at_user t \<and> at_hash (f t) = at_hash t)
    \<Longrightarrow> api_tokens_ok u n (update_where p f ts)"
  by (auto simp: api_tokens_ok_def map_key_update_where elim!: in_update_whereE)

lemma token_user_ok: "store_ok sha d \<Longrightarrow> store_ok sha (snd (token_user hash now d))"
proof -
  assume ok: "store_ok sha d"
  have "store_ok sha ((seen_lately user now d)\<lparr>api_tokens := update_where p (\<lambda>t. t\<lparr>at_last_used := Some now\<rparr>) (api_tokens d)\<rparr>)" for user p
  proof (rule api_tokens_set_ok)
    show "store_ok sha (seen_lately user now d)" by (rule seen_ok(2) [OF ok])
    show "api_tokens_ok (u_id ` set (users (seen_lately user now d))) (next_id (seen_lately user now d))
        (update_where p (\<lambda>t. t\<lparr>at_last_used := Some now\<rparr>) (api_tokens d))"
      using db_ok_parts(5) [OF store_okD [OF ok]] by (simp add: api_tokens_ok_update)
    show "count_where (\<lambda>t. at_user t = owner) (update_where p (\<lambda>t. t\<lparr>at_last_used := Some now\<rparr>) (api_tokens d))
        \<le> count_tokens owner (seen_lately user now d) \<or> count_where (\<lambda>t. at_user t = owner)
          (update_where p (\<lambda>t. t\<lparr>at_last_used := Some now\<rparr>) (api_tokens d)) \<le> MaxTokensPerUser" for owner
      by (rule disjI1) (auto simp: count_tokens_def intro: count_update_le)
  qed
  with ok show ?thesis by (simp add: token_user_def Let_def split: option.splits)
qed

lemma insert_token_ok:
  assumes ok: "store_ok sha d" and room: "count_tokens owner d < MaxTokensPerUser"
  shows "store_ok sha (snd (insert_token owner name prefix hash scopes e now d))"
proof (cases "list_ex (\<lambda>t. at_hash t = hash) (api_tokens d) \<or> \<not> list_ex (\<lambda>u. u_id u = owner) (users d)")
  case False
  note d = store_okD [OF ok]
  let ?t = "\<lparr>at_id = next_id d, at_user = owner, at_name = name, at_prefix = prefix, at_hash = hash,
     at_scopes = scopes, at_created = now, at_expires = e, at_last_used = None\<rparr>"
  have grown: "store_ok sha (d\<lparr>next_id := next_id d + 1\<rparr>)"
    by (rule store_okI [OF ok]) (use d in \<open>simp_all add: db_ok_set\<close>)
  have "store_ok sha (d\<lparr>next_id := next_id d + 1\<rparr>\<lparr>api_tokens := api_tokens d @ [?t]\<rparr>)"
    by (rule api_tokens_set_ok [OF grown])
      (use False room db_ok_parts(5) [OF d] in \<open>auto simp: api_tokens_ok_def list_ex_iff count_tokens_def\<close>)
  with False show ?thesis by (auto simp: insert_token_def Let_def)
qed (use ok in \<open>auto simp: insert_token_def\<close>)

section \<open>Deleting users\<close>

text \<open>Ownership makes the cascade clean: nothing of another user refers to what goes.\<close>

lemma antenna_stays:
  assumes "antennas_ok u n ts" "owns_antenna ts owner x" "owner \<notin> ids"
  shows "forget_antennas (\<lambda>i. list_ex (\<lambda>t. ant_id t = i \<and> ant_owner t \<in> ids) ts) x = x"
proof (cases x)
  case (Some i)
  with assms(2) obtain t where t: "t \<in> set ts" "ant_id t = i" "ant_owner t = owner" by (auto simp: owns_antenna_def)
  have "distinct (map ant_id ts)" using assms(1) by (simp add: antennas_ok_def)
  then have "\<not> list_ex (\<lambda>t. ant_id t = i \<and> ant_owner t \<in> ids) ts"
    using t assms(3) key_unique [of ant_id ts] unfolding list_ex_iff by blast
  with Some show ?thesis by (simp add: forget_antennas_def)
qed (simp add: forget_antennas_def)

lemma drop_users_links:
  assumes "db_ok d"
  shows "links (drop_users ids d) = delete_where (\<lambda>l. ln_owner l \<in> ids) (links d)"
    and "coverages (drop_users ids d) = delete_where (\<lambda>c. cv_owner c \<in> ids) (coverages d)"
proof -
  note ants = db_ok_parts(7) [OF assms]
  have "unset_link_antennas (antennas_of ids d) l = l" if "l \<in> set (links d)" "ln_owner l \<notin> ids" for l
    using that db_ok_parts(8) [OF assms] antenna_stays [OF ants _ that(2)]
    by (simp add: unset_link_antennas_def links_ok_def antennas_of_def [abs_def])
  then show "links (drop_users ids d) = delete_where (\<lambda>l. ln_owner l \<in> ids) (links d)"
    by (auto simp: drop_users_def intro!: map_idI)
  have "unset_coverage_antenna (antennas_of ids d) c = c" if "c \<in> set (coverages d)" "cv_owner c \<notin> ids" for c
    using that db_ok_parts(9) [OF assms] antenna_stays [OF ants _ that(2)]
    by (simp add: unset_coverage_antenna_def coverages_ok_def antennas_of_def [abs_def])
  then show "coverages (drop_users ids d) = delete_where (\<lambda>c. cv_owner c \<in> ids) (coverages d)"
    by (auto simp: drop_users_def intro!: map_idI)
qed

lemma never_restricted: "db_ok d \<Longrightarrow> \<not> users_restricted ids d"
proof
  assume ok: "db_ok d" and r: "users_restricted ids d"
  have sites: "distinct (map site_id (sites d))" using db_ok_parts(6) [OF ok] by (simp add: sites_ok_def)
  have own: "owner \<in> ids" if "owns_site (sites d) owner i" "sites_of ids d i" for owner i
    using that key_unique [OF sites] by (auto simp: owns_site_def sites_of_def list_ex_iff)
  from r consider l where "l \<in> set (links d)" "ln_owner l \<notin> ids" "sites_of ids d (ln_a l) \<or> sites_of ids d (ln_b l)"
    | c where "c \<in> set (coverages d)" "cv_owner c \<notin> ids" "sites_of ids d (cv_site c)"
    by (auto simp: users_restricted_def list_ex_iff)
  then show False
    using own db_ok_parts(8,9) [OF ok] by cases (auto simp: links_ok_def coverages_ok_def)
qed

lemma drop_users_ok:
  assumes ok: "db_ok d"
  shows "db_ok (drop_users ids d)"
proof -
  let ?e = "drop_users ids d"
  note parts = db_ok_parts [OF ok]
  have other [simp]: "users ?e = delete_where (\<lambda>u. u_id u \<in> ids) (users d)" "next_id ?e = next_id d"
    "sessions ?e = delete_where (\<lambda>s. ss_user s \<in> ids) (sessions d)"
    "email_tokens ?e = delete_where (\<lambda>t. et_user t \<in> ids) (email_tokens d)"
    "api_tokens ?e = delete_where (\<lambda>t. at_user t \<in> ids) (api_tokens d)"
    "sites ?e = delete_where (\<lambda>s. site_owner s \<in> ids) (sites d)"
    "antennas ?e = delete_where (\<lambda>t. ant_owner t \<in> ids) (antennas d)"
    "jobs ?e = delete_where (\<lambda>j. j_owner j \<in> ids \<or> (case j_coverage j of None \<Rightarrow> False | Some c \<Rightarrow> coverages_of ids d c)) (jobs d)"
    "rate_limits ?e = rate_limits d" "settings ?e = settings d"
    by (simp_all add: drop_users_def)
  have u: "u_id ` set (users ?e) = u_id ` set (users d) - ids" by auto
  have site: "owns_site (sites d) o' i \<Longrightarrow> o' \<notin> ids \<Longrightarrow> owns_site (sites ?e) o' i" for o' i
    by (auto simp: owns_site_def)
  have ant: "owns_antenna (antennas d) o' i \<Longrightarrow> o' \<notin> ids \<Longrightarrow> owns_antenna (antennas ?e) o' i" for o' i
    by (auto simp: owns_antenna_def split: option.splits)
  have "users_ok (next_id ?e) (users ?e)" using parts(2) by (simp add: users_ok_delete)
  moreover have "sessions_ok (u_id ` set (users ?e)) (sessions ?e)"
    unfolding u using sessions_ok_delete [OF parts(3)] by (auto simp: sessions_ok_def)
  moreover have "email_tokens_ok (u_id ` set (users ?e)) (email_tokens ?e)"
    unfolding u using email_tokens_ok_delete [OF parts(4)] by (auto simp: email_tokens_ok_def)
  moreover have "api_tokens_ok (u_id ` set (users ?e)) (next_id ?e) (api_tokens ?e)"
    unfolding u using api_tokens_ok_delete [OF parts(5)] by (auto simp: api_tokens_ok_def)
  moreover have "sites_ok (u_id ` set (users ?e)) (next_id ?e) (sites ?e)"
    unfolding u using sites_ok_delete [OF parts(6)] by (auto simp: sites_ok_def)
  moreover have "antennas_ok (u_id ` set (users ?e)) (next_id ?e) (antennas ?e)"
    unfolding u using antennas_ok_delete [OF parts(7)] by (auto simp: antennas_ok_def)
  moreover have "links_ok (u_id ` set (users ?e)) (sites ?e) (antennas ?e) (next_id ?e) (links ?e)"
    unfolding u drop_users_links(1) [OF ok] using links_ok_delete [OF parts(8), of "\<lambda>l. ln_owner l \<in> ids"] site ant
    by (simp add: links_ok_def)
  moreover have "coverages_ok (u_id ` set (users ?e)) (sites ?e) (antennas ?e) (next_id ?e) (coverages ?e)"
    unfolding u drop_users_links(2) [OF ok] using coverages_ok_delete [OF parts(9), of "\<lambda>c. cv_owner c \<in> ids"] site ant
    by (simp add: coverages_ok_def)
  moreover have "jobs_ok (u_id ` set (users ?e)) (cv_id ` set (coverages ?e)) (next_id ?e) (jobs ?e)"
  proof -
    have left: "c \<in> cv_id ` set (coverages ?e)" if "c \<in> cv_id ` set (coverages d)" "\<not> coverages_of ids d c" for c
      using that unfolding drop_users_links(2) [OF ok] by (auto simp: coverages_of_def list_ex_iff)
    let ?gone = "\<lambda>j. j_owner j \<in> ids \<or> (case j_coverage j of None \<Rightarrow> False | Some c \<Rightarrow> coverages_of ids d c)"
    have old: "jobs_ok (u_id ` set (users d)) (cv_id ` set (coverages d)) (next_id d) (delete_where ?gone (jobs d))"
      by (rule jobs_ok_delete [OF parts(10)])
    have "\<forall>c. j_coverage j = Some c \<longrightarrow> c \<in> cv_id ` set (coverages ?e)" if "j \<in> set (delete_where ?gone (jobs d))" for j
      using that left old unfolding jobs_ok_def by (auto simp del: set_delete_where) (auto split: option.splits)
    moreover have "j_owner j \<in> u_id ` set (delete_where (\<lambda>u. u_id u \<in> ids) (users d))" if "j \<in> set (delete_where ?gone (jobs d))" for j
      using that old by (auto simp: jobs_ok_def)
    ultimately show ?thesis unfolding other using old unfolding jobs_ok_def by blast
  qed
  ultimately show ?thesis using parts(1,11,12) by (simp add: db_ok_def)
qed

lemma delete_users_ok: "store_ok sha d \<Longrightarrow> store_ok sha (snd (delete_users p d))"
proof -
  assume ok: "store_ok sha d"
  note d = store_okD [OF ok]
  have "store_ok sha (drop_users ids d)" for ids
  proof (rule store_okI' [OF ok])
    show "db_ok (drop_users ids d)" by (rule drop_users_ok [OF d])
    show "jobs (drop_users ids d) = jobs d \<or> (\<exists>p. jobs (drop_users ids d) = delete_where p (jobs d))"
      by (auto simp: drop_users_def)
  qed (simp_all add: count_sites_def count_coverages_def count_tokens_def drop_users_links [OF d] count_where_delete_le,
       simp_all add: drop_users_def count_where_delete_le)
  with ok show ?thesis by (simp add: delete_users_def Let_def)
qed

end
