(* ===== verification/Resource_Facts.thy ===== *)
theory Resource_Facts
  imports Store_Facts
begin

text \<open>
  Preservation of the store's invariant by the statements on sites, antennas, links, coverages
  and shares.
\<close>

section \<open>Sites\<close>

lemma limits_below: "store_ok sha d \<Longrightarrow> count_sites owner d \<le> MaxSitesPerUser"
  "store_ok sha d \<Longrightarrow> count_coverages owner d \<le> MaxCoveragesPerUser"
  "store_ok sha d \<Longrightarrow> count_tokens owner d \<le> MaxTokensPerUser"
  by (simp_all add: store_ok_def limits_ok_def)

lemma grown_ok: "store_ok sha d \<Longrightarrow> store_ok sha (d\<lparr>next_id := next_id d + 1\<rparr>)"
  by (rule store_okI) (auto intro: db_ok_set(9) dest: store_okD)

lemma sites_set_ok:
  assumes "store_ok sha d" "sites_ok (u_id ` set (users d)) (next_id d) ss"
    "\<And>o' i. owns_site (sites d) o' i \<Longrightarrow> owns_site ss o' i"
    "\<And>owner. count_where (\<lambda>s. site_owner s = owner) ss \<le> count_sites owner d
       \<or> count_where (\<lambda>s. site_owner s = owner) ss \<le> MaxSitesPerUser"
  shows "store_ok sha (d\<lparr>sites := ss\<rparr>)"
  by (rule store_okI' [OF assms(1)])
    (use assms in \<open>auto intro: db_ok_set_sites dest: store_okD simp: count_sites_def count_coverages_def count_tokens_def\<close>)

lemma insert_site_ok:
  assumes ok: "store_ok sha d" and room: "count_sites (site_owner s) d < MaxSitesPerUser"
  shows "store_ok sha (snd (insert_site s now d))"
proof (cases "\<not> site_check s \<or> \<not> user_exists (site_owner s) d")
  case False
  have sites: "sites_ok (u_id ` set (users d)) (next_id d) (sites d)" by (rule db_ok_parts(6) [OF store_okD [OF ok]])
  have "store_ok sha (d\<lparr>next_id := next_id d + 1\<rparr>\<lparr>sites := sites d @ [s\<lparr>site_id := next_id d\<rparr>]\<rparr>)"
  proof (rule sites_set_ok [OF grown_ok [OF ok]])
    show "sites_ok (u_id ` set (users (d\<lparr>next_id := next_id d + 1\<rparr>))) (next_id (d\<lparr>next_id := next_id d + 1\<rparr>))
        (sites d @ [s\<lparr>site_id := next_id d\<rparr>])"
      using sites False by (auto simp: sites_ok_def user_exists_def user_exists_iff site_check_def)
    show "count_where (\<lambda>s. site_owner s = owner) (sites d @ [s\<lparr>site_id := next_id d\<rparr>]) \<le> count_sites owner (d\<lparr>next_id := next_id d + 1\<rparr>)
       \<or> count_where (\<lambda>s. site_owner s = owner) (sites d @ [s\<lparr>site_id := next_id d\<rparr>]) \<le> MaxSitesPerUser" for owner
      using room by (auto simp: count_sites_def)
  qed (auto simp: owns_site_def)
  with False show ?thesis by (simp add: insert_site_def)
qed (use ok in \<open>auto simp: insert_site_def\<close>)

lemma owns_site_pairs: "owns_site ss owner i \<longleftrightarrow> (owner, i) \<in> set (map (\<lambda>s. (site_owner s, site_id s)) ss)"
  by (auto simp: owns_site_def)

lemma update_site_ok: assumes ok: "store_ok sha d" shows "store_ok sha (snd (update_site s now d))"
proof (cases "list_ex (is_site (site_owner s) (site_id s)) (sites d) \<and> \<not> site_check s")
  case False
  have sites: "sites_ok (u_id ` set (users d)) (next_id d) (sites d)" by (rule db_ok_parts(6) [OF store_okD [OF ok]])
  let ?ss = "update_where (is_site (site_owner s) (site_id s)) (\<lambda>_. s) (sites d)"
  have ids: "map site_id ?ss = map site_id (sites d)"
    and pairs: "map (\<lambda>s. (site_owner s, site_id s)) ?ss = map (\<lambda>s. (site_owner s, site_id s)) (sites d)"
    by (auto simp: is_site_def intro!: map_key_update_where)
  have "store_ok sha (d\<lparr>sites := ?ss\<rparr>)"
  proof (rule sites_set_ok [OF ok])
    show "sites_ok (u_id ` set (users d)) (next_id d) ?ss"
      unfolding sites_ok_def ids
    proof (intro conjI ballI)
      fix x assume "x \<in> set ?ss"
      then show "site_owner x \<in> u_id ` set (users d)" "site_id x < next_id d" "site_check x"
        by (rule in_update_whereE; use sites False in \<open>force simp: sites_ok_def list_ex_iff is_site_def\<close>)+
    qed (use sites in \<open>simp add: sites_ok_def\<close>)
    show "owns_site ?ss o' i" if "owns_site (sites d) o' i" for o' i
      using that unfolding owns_site_pairs pairs .
    show "count_where (\<lambda>s. site_owner s = owner) ?ss \<le> count_sites owner d \<or> count_where (\<lambda>s. site_owner s = owner) ?ss \<le> MaxSitesPerUser" for owner
      by (rule disjI1) (auto simp: count_sites_def is_site_def intro: count_update_le)
  qed
  with False show ?thesis by (auto simp: update_site_def Let_def)
qed (use ok in \<open>simp add: update_site_def\<close>)

lemma delete_site_ok: assumes ok: "store_ok sha d" shows "store_ok sha (snd (delete_site owner ident now d))"
proof (cases "list_ex (is_site owner ident) (sites d) \<and> site_in_use ident d")
  case False
  note parts = db_ok_parts [OF store_okD [OF ok]]
  let ?ss = "delete_where (is_site owner ident) (sites d)"
  have keep: "owns_site ?ss o' i" if "owns_site (sites d) o' i" "i \<noteq> ident" for o' i
    using that by (auto simp: owns_site_def is_site_def)
  have "db_ok (d\<lparr>sites := ?ss\<rparr>)"
  proof (cases "list_ex (is_site owner ident) (sites d)")
    case True
    with False have free: "\<not> site_in_use ident d" by simp
    have "links_ok (u_id ` set (users d)) ?ss (antennas d) (next_id d) (links d)"
      using parts(8) keep free by (auto simp: links_ok_def site_in_use_def list_ex_iff)
    moreover have "coverages_ok (u_id ` set (users d)) ?ss (antennas d) (next_id d) (coverages d)"
      using parts(9) keep free by (auto simp: coverages_ok_def site_in_use_def list_ex_iff)
    ultimately show ?thesis
      using store_okD [OF ok] sites_ok_delete [OF parts(6)] by (simp add: db_ok_def)
  next
    case False
    then have "?ss = sites d" by (auto simp: delete_where_def list_ex_iff intro: filter_True)
    with store_okD [OF ok] show ?thesis by (simp only:) (simp add: db_ok_def)
  qed
  then have "store_ok sha (d\<lparr>sites := ?ss\<rparr>)"
    by (rule store_okI' [OF ok]) (simp_all add: count_sites_def count_coverages_def count_tokens_def count_where_delete_le)
  with False show ?thesis by (auto simp: delete_site_def Let_def)
qed (use ok in \<open>simp add: delete_site_def\<close>)

section \<open>Antennas\<close>

lemma antennas_set_ok:
  assumes "store_ok sha d" "antennas_ok (u_id ` set (users d)) (next_id d) ts"
    "\<And>o' i. owns_antenna (antennas d) o' i \<Longrightarrow> owns_antenna ts o' i"
  shows "store_ok sha (d\<lparr>antennas := ts\<rparr>)"
  by (rule store_okI [OF assms(1)]) (use assms in \<open>auto intro: db_ok_set_antennas dest: store_okD\<close>)

lemma insert_antenna_ok: assumes ok: "store_ok sha d" shows "store_ok sha (snd (insert_antenna t now d))"
proof (cases "\<not> antenna_check t \<or> \<not> user_exists (ant_owner t) d")
  case False
  have ants: "antennas_ok (u_id ` set (users d)) (next_id d) (antennas d)" by (rule db_ok_parts(7) [OF store_okD [OF ok]])
  let ?t = "t\<lparr>ant_id := next_id d, ant_freq := null_zero (ant_freq t), ant_source := null_empty (ant_source t)\<rparr>"
  have "store_ok sha (d\<lparr>next_id := next_id d + 1\<rparr>\<lparr>antennas := antennas d @ [?t]\<rparr>)"
    by (rule antennas_set_ok [OF grown_ok [OF ok]])
      (use ants False in \<open>auto simp: antennas_ok_def user_exists_def user_exists_iff antenna_check_def owns_antenna_def split: option.splits\<close>)
  with False show ?thesis by (simp add: insert_antenna_def)
qed (use ok in \<open>auto simp: insert_antenna_def\<close>)

lemma update_antenna_ok: assumes ok: "store_ok sha d" shows "store_ok sha (snd (update_antenna t now d))"
proof (cases "list_ex (is_antenna (ant_owner t) (ant_id t)) (antennas d) \<and> \<not> antenna_check t")
  case False
  have ants: "antennas_ok (u_id ` set (users d)) (next_id d) (antennas d)" by (rule db_ok_parts(7) [OF store_okD [OF ok]])
  let ?p = "is_antenna (ant_owner t) (ant_id t)"
  let ?ts = "update_where ?p (rewrite_antenna t) (antennas d)"
  have ids: "map ant_id ?ts = map ant_id (antennas d)"
    by (auto simp: is_antenna_def rewrite_antenna_def intro!: map_key_update_where)
  have same: "ant_id (rewrite_antenna t r) = ant_id r" "ant_owner (rewrite_antenna t r) = ant_owner r"
    "antenna_check (rewrite_antenna t r) = antenna_check t" for r
    by (simp_all add: rewrite_antenna_def antenna_check_def)
  have "store_ok sha (d\<lparr>antennas := ?ts\<rparr>)"
  proof (rule antennas_set_ok [OF ok])
    show "antennas_ok (u_id ` set (users d)) (next_id d) ?ts"
      using ants False by (auto simp: antennas_ok_def ids same list_ex_iff elim!: in_update_whereE)
    show "owns_antenna ?ts o' i" if "owns_antenna (antennas d) o' i" for o' i
      using that unfolding owns_antenna_def set_update_where by (auto simp: same split: option.splits) (metis same(1,2))
  qed
  with False show ?thesis by (auto simp: update_antenna_def Let_def)
qed (use ok in \<open>simp add: update_antenna_def\<close>)

section \<open>Links and coverages\<close>

lemma links_set_ok:
  "store_ok sha d \<Longrightarrow> links_ok (u_id ` set (users d)) (sites d) (antennas d) (next_id d) ls \<Longrightarrow> store_ok sha (d\<lparr>links := ls\<rparr>)"
  by (rule store_okI) (auto intro: db_ok_set(7) dest: store_okD)

lemma links_update_ok:
  assumes ok: "store_ok sha d"
    and f: "\<And>l. l \<in> set (links d) \<Longrightarrow> p l \<Longrightarrow> ln_id (f l) = ln_id l \<and> ln_owner (f l) = ln_owner l \<and> ln_share (f l) = ln_share l
       \<and> (link_check l \<longrightarrow> link_check (f l)) \<and> ln_a (f l) = ln_a l \<and> ln_b (f l) = ln_b l \<and> ln_tx_ant (f l) = ln_tx_ant l \<and> ln_rx_ant (f l) = ln_rx_ant l"
  shows "store_ok sha (d\<lparr>links := update_where p f (links d)\<rparr>)"
proof (rule links_set_ok [OF ok links_ok_update])
  show ls: "links_ok (u_id ` set (users d)) (sites d) (antennas d) (next_id d) (links d)"
    by (rule db_ok_parts(8) [OF store_okD [OF ok]])
qed (use f db_ok_parts(8) [OF store_okD [OF ok]] in \<open>simp add: links_ok_def\<close>)

lemma coverages_set_ok:
  assumes "store_ok sha d" "coverages_ok (u_id ` set (users d)) (sites d) (antennas d) (next_id d) cs"
    "cv_id ` set (coverages d) \<subseteq> cv_id ` set cs"
    "\<And>owner. count_where (\<lambda>c. cv_owner c = owner) cs \<le> count_coverages owner d \<or> count_where (\<lambda>c. cv_owner c = owner) cs \<le> MaxCoveragesPerUser"
  shows "store_ok sha (d\<lparr>coverages := cs\<rparr>)"
  by (rule store_okI' [OF assms(1)])
    (use assms in \<open>auto intro: db_ok_set_coverages dest: store_okD simp: count_sites_def count_coverages_def count_tokens_def\<close>)

lemma coverages_rewrite_ok:
  assumes ok: "store_ok sha d"
    and f: "\<And>c. c \<in> set (coverages d) \<Longrightarrow> p c \<Longrightarrow> cv_id (f c) = cv_id c \<and> cv_owner (f c) = cv_owner c \<and> cv_share (f c) = cv_share c
       \<and> coverage_check (f c) \<and> owns_site (sites d) (cv_owner c) (cv_site (f c)) \<and> owns_antenna (antennas d) (cv_owner c) (cv_tx_ant (f c))"
  shows "store_ok sha (d\<lparr>coverages := update_where p f (coverages d)\<rparr>)"
proof (rule coverages_set_ok [OF ok coverages_ok_update])
  show "coverages_ok (u_id ` set (users d)) (sites d) (antennas d) (next_id d) (coverages d)"
    by (rule db_ok_parts(9) [OF store_okD [OF ok]])
  show "cv_id ` set (coverages d) \<subseteq> cv_id ` set (update_where p f (coverages d))"
    using f by (simp add: image_update_where)
  show "count_where (\<lambda>c. cv_owner c = owner) (update_where p f (coverages d)) \<le> count_coverages owner d
     \<or> count_where (\<lambda>c. cv_owner c = owner) (update_where p f (coverages d)) \<le> MaxCoveragesPerUser" for owner
    using f by (intro disjI1) (auto simp: count_coverages_def intro: count_update_le)
qed (use f in blast)

lemma coverages_update_ok:
  assumes ok: "store_ok sha d"
    and f: "\<And>c. c \<in> set (coverages d) \<Longrightarrow> p c \<Longrightarrow> cv_id (f c) = cv_id c \<and> cv_owner (f c) = cv_owner c \<and> cv_share (f c) = cv_share c
       \<and> (coverage_check c \<longrightarrow> coverage_check (f c)) \<and> cv_site (f c) = cv_site c \<and> cv_tx_ant (f c) = cv_tx_ant c"
  shows "store_ok sha (d\<lparr>coverages := update_where p f (coverages d)\<rparr>)"
  by (rule coverages_rewrite_ok [OF ok])
    (use f db_ok_parts(9) [OF store_okD [OF ok]] in \<open>simp add: coverages_ok_def\<close>)

lemma copy_gain_ok:
  "store_ok sha d \<Longrightarrow> store_ok sha (snd (copy_gain_tx t now d))"
  "store_ok sha d \<Longrightarrow> store_ok sha (snd (copy_gain_rx t now d))"
  "store_ok sha d \<Longrightarrow> store_ok sha (snd (copy_gain_coverages t now d))"
  unfolding copy_gain_tx_def copy_gain_rx_def copy_gain_coverages_def
  by (auto intro!: links_update_ok coverages_update_ok simp: link_check_def coverage_check_def params_check_def)

lemma delete_antenna_ok: assumes ok: "store_ok sha d" shows "store_ok sha (snd (delete_antenna owner ident now d))"
proof (cases "list_ex (is_antenna owner ident) (antennas d)")
  case True
  note parts = db_ok_parts [OF store_okD [OF ok]]
  let ?ts = "delete_where (is_antenna owner ident) (antennas d)"
  let ?ls = "map (unset_link_antennas (\<lambda>i. i = ident)) (links d)"
  let ?cs = "map (unset_coverage_antenna (\<lambda>i. i = ident)) (coverages d)"
  have keep: "owns_antenna ?ts o' (forget_antennas (\<lambda>i. i = ident) x)" if "owns_antenna (antennas d) o' x" for o' x
    using that by (auto simp: owns_antenna_def forget_antennas_def is_antenna_def split: option.splits)
  have map_l: "map f ?ls = map f (links d)" if "\<And>l. f (unset_link_antennas (\<lambda>i. i = ident) l) = f l" for f :: "link \<Rightarrow> 'z"
    by (simp add: that)
  have map_c: "map f ?cs = map f (coverages d)" if "\<And>c. f (unset_coverage_antenna (\<lambda>i. i = ident) c) = f c" for f :: "coverage \<Rightarrow> 'z"
    by (simp add: that)
  have "links_ok (u_id ` set (users d)) (sites d) ?ts (next_id d) ?ls"
    unfolding links_ok_def using parts(8) keep
    by (auto simp: links_ok_def map_l unset_link_antennas_def link_check_def comp_def)
  moreover have "coverages_ok (u_id ` set (users d)) (sites d) ?ts (next_id d) ?cs"
    unfolding coverages_ok_def using parts(9) keep
    by (auto simp: coverages_ok_def map_c unset_coverage_antenna_def coverage_check_def comp_def)
  moreover have ids: "cv_id ` set ?cs = cv_id ` set (coverages d)"
    by (auto simp: unset_coverage_antenna_def image_iff)
  ultimately have "db_ok (d\<lparr>antennas := ?ts, links := ?ls, coverages := ?cs\<rparr>)"
    using store_okD [OF ok] antennas_ok_delete [OF parts(7), of "is_antenna owner ident"] unfolding db_ok_def
    by (simp del: set_map list.set_map)
  moreover have "count_where (\<lambda>c. cv_owner c = o') ?cs = count_where (\<lambda>c. cv_owner c = o') (coverages d)" for o'
    by (induction "coverages d") (auto simp: count_where_def unset_coverage_antenna_def comp_def filter_map)
  ultimately have "store_ok sha (d\<lparr>antennas := ?ts, links := ?ls, coverages := ?cs\<rparr>)"
    by (intro store_okI' [OF ok]) (simp_all add: count_sites_def count_coverages_def count_tokens_def)
  with True show ?thesis by (simp add: delete_antenna_def)
qed (use ok in \<open>simp add: delete_antenna_def\<close>)

section \<open>References of new and rewritten rows\<close>

lemma site_ownedD: "site_owned owner i d \<Longrightarrow> owns_site (sites d) owner i"
  by (auto simp: site_owned_def site_by_id_def owns_site_def dest!: find_SomeD)

lemma antenna_ownedD: "antenna_owned owner x d \<Longrightarrow> owns_antenna (antennas d) owner x"
  by (auto simp: antenna_owned_def owns_antenna_def dest!: find_SomeD split: option.splits)

lemma linkRefsD:
  "linkRefsOwned l d \<Longrightarrow> owns_site (sites d) (ln_owner l) (ln_a l) \<and> owns_site (sites d) (ln_owner l) (ln_b l)
     \<and> owns_antenna (antennas d) (ln_owner l) (ln_tx_ant l) \<and> owns_antenna (antennas d) (ln_owner l) (ln_rx_ant l)"
  by (simp add: linkRefsOwned_def site_ownedD antenna_ownedD)

lemma coverageRefsD:
  "coverageRefsOwned c d \<Longrightarrow> owns_site (sites d) (cv_owner c) (cv_site c) \<and> owns_antenna (antennas d) (cv_owner c) (cv_tx_ant c)"
  by (simp add: coverageRefsOwned_def site_ownedD antenna_ownedD)

lemma insert_link_ok: assumes ok: "store_ok sha d" shows "store_ok sha (snd (insert_link l now d))"
proof (cases "linkRefsOwned l d \<and> link_check l \<and> user_exists (ln_owner l) d")
  case True
  have ls: "links_ok (u_id ` set (users d)) (sites d) (antennas d) (next_id d) (links d)"
    by (rule db_ok_parts(8) [OF store_okD [OF ok]])
  let ?l = "l\<lparr>ln_id := next_id d, ln_share := None, ln_share_expires := None\<rparr>"
  have "store_ok sha (d\<lparr>next_id := next_id d + 1\<rparr>\<lparr>links := links d @ [?l]\<rparr>)"
    by (rule links_set_ok [OF grown_ok [OF ok]])
      (use ls True linkRefsD [of l d] in \<open>auto simp: links_ok_def unique_some_append user_exists_def user_exists_iff link_check_def\<close>)
  with True show ?thesis by (simp add: insert_link_def)
qed (use ok in \<open>auto simp: insert_link_def\<close>)

lemma update_link_ok: assumes ok: "store_ok sha d" shows "store_ok sha (snd (update_link l now d))"
proof (cases "list_ex (is_link (ln_owner l) (ln_id l)) (links d) \<and> linkRefsOwned l d \<and> link_check l")
  case True
  have "store_ok sha (d\<lparr>links := update_where (is_link (ln_owner l) (ln_id l))
      (\<lambda>r. l\<lparr>ln_share := ln_share r, ln_share_expires := ln_share_expires r\<rparr>) (links d)\<rparr>)"
    by (rule links_set_ok [OF ok], rule links_ok_update, rule db_ok_parts(8) [OF store_okD [OF ok]])
      (use True linkRefsD [of l d] in \<open>auto simp: is_link_def link_check_def\<close>)
  with True show ?thesis by (simp add: update_link_def)
qed (use ok in \<open>auto simp: update_link_def Let_def\<close>)

lemma links_delete_ok: "store_ok sha d \<Longrightarrow> store_ok sha (d\<lparr>links := delete_where p (links d)\<rparr>)"
  by (auto intro!: links_set_ok links_ok_delete dest: store_okD db_ok_parts(8))

lemma insert_coverage_ok:
  assumes ok: "store_ok sha d" and room: "count_coverages (cv_owner c) d < MaxCoveragesPerUser"
  shows "store_ok sha (snd (insert_coverage c now d))"
proof (cases "coverageRefsOwned c d \<and> coverage_check c \<and> user_exists (cv_owner c) d")
  case True
  have cs: "coverages_ok (u_id ` set (users d)) (sites d) (antennas d) (next_id d) (coverages d)"
    by (rule db_ok_parts(9) [OF store_okD [OF ok]])
  have row: "cv_id (fresh_coverage n c) = n" "cv_owner (fresh_coverage n c) = cv_owner c" "cv_share (fresh_coverage n c) = None"
    "coverage_check (fresh_coverage n c) = coverage_check c" "cv_site (fresh_coverage n c) = cv_site c"
    "cv_tx_ant (fresh_coverage n c) = cv_tx_ant c" for n
    by (simp_all add: fresh_coverage_def cleared_result_def coverage_check_def)
  have "store_ok sha (d\<lparr>next_id := next_id d + 1\<rparr>\<lparr>coverages := coverages d @ [fresh_coverage (next_id d) c]\<rparr>)"
  proof (rule coverages_set_ok [OF grown_ok [OF ok]])
    show "count_where (\<lambda>c. cv_owner c = owner) (coverages d @ [fresh_coverage (next_id d) c]) \<le> count_coverages owner (d\<lparr>next_id := next_id d + 1\<rparr>)
       \<or> count_where (\<lambda>c. cv_owner c = owner) (coverages d @ [fresh_coverage (next_id d) c]) \<le> MaxCoveragesPerUser" for owner
      using room by (auto simp: count_coverages_def row)
  qed (use cs True coverageRefsD [of c d] in \<open>auto simp: coverages_ok_def unique_some_append user_exists_def user_exists_iff row\<close>)
  with True show ?thesis by (simp add: insert_coverage_def)
qed (use ok in \<open>auto simp: insert_coverage_def\<close>)

lemma update_coverage_ok: assumes ok: "store_ok sha d" shows "store_ok sha (snd (update_coverage c now d))"
proof -
  have cs: "coverages_ok (u_id ` set (users d)) (sites d) (antennas d) (next_id d) (coverages d)"
    by (rule db_ok_parts(9) [OF store_okD [OF ok]])
  have "store_ok sha (d\<lparr>coverages := update_where (owns_coverage (cv_owner c) (cv_id c)) (rewrite_coverage c) (coverages d)\<rparr>)"
    if "coverageRefsOwned c d" "params_check (cv_params c) \<and> azimuth_check (cv_tx_azimuth c) \<and> pg_between (- 90) 90 (cv_tx_tilt c)"
    by (rule coverages_rewrite_ok [OF ok])
      (use that cs coverageRefsD [of c d] in \<open>auto simp: rewrite_coverage_def cleared_result_def owns_coverage_def coverage_check_def coverages_ok_def\<close>)
  with ok show ?thesis by (auto simp: update_coverage_def Let_def)
qed

lemma jobs_delete_ok: "store_ok sha d \<Longrightarrow> store_ok sha (d\<lparr>jobs := delete_where p (jobs d)\<rparr>)"
  by (rule store_okI') (auto intro: delete_jobs_ok dest: store_okD simp: count_sites_def count_coverages_def count_tokens_def)

lemma delete_coverage_ok: assumes ok: "store_ok sha d" shows "store_ok sha (snd (delete_coverage owner ident now d))"
proof (cases "list_ex (owns_coverage owner ident) (coverages d)")
  case True
  note d = store_okD [OF ok]
  note parts = db_ok_parts [OF d]
  let ?cs = "delete_where (owns_coverage owner ident) (coverages d)"
  let ?js = "delete_where (\<lambda>j. j_coverage j = Some ident) (jobs d)"
  have "c \<in> cv_id ` set ?cs" if "c \<in> cv_id ` set (coverages d)" "c \<noteq> ident" for c
    using that by (auto simp: owns_coverage_def)
  then have "jobs_ok (u_id ` set (users d)) (cv_id ` set ?cs) (next_id d) ?js"
    using jobs_ok_delete [OF parts(10), of "\<lambda>j. j_coverage j = Some ident"] by (auto simp: jobs_ok_def)
  then have "db_ok (d\<lparr>coverages := ?cs, jobs := ?js\<rparr>)"
    using d coverages_ok_delete [OF parts(9), of "owns_coverage owner ident"] by (simp add: db_ok_def)
  then have "store_ok sha (d\<lparr>coverages := ?cs, jobs := ?js\<rparr>)"
    by (rule store_okI' [OF ok]) (auto simp: count_sites_def count_coverages_def count_tokens_def count_where_delete_le)
  with True show ?thesis by (simp add: delete_coverage_def)
qed (use ok in \<open>simp add: delete_coverage_def\<close>)

lemma set_legend_ok: assumes ok: "store_ok sha d" shows "store_ok sha (snd (set_legend owner ident mins colors now d))"
proof (cases "list_ex (owns_coverage owner ident) (coverages d) \<and> \<not> legend_check mins colors")
  case False
  have "store_ok sha (d\<lparr>coverages := update_where (owns_coverage owner ident) (\<lambda>c. c\<lparr>cv_legend_db := mins, cv_legend_colors := colors\<rparr>) (coverages d)\<rparr>)"
    by (rule coverages_update_ok [OF ok]) (use False in \<open>auto simp: coverage_check_def list_ex_iff\<close>)
  with False show ?thesis by (auto simp: set_legend_def Let_def)
qed (use ok in \<open>simp add: set_legend_def\<close>)

section \<open>Shares\<close>

lemma unique_some_forget: "unique_some (map k rows) \<Longrightarrow> (\<And>r. k (f r) = None) \<Longrightarrow> unique_some (map k (update_where p f rows))"
  by (induction rows) (auto simp: unique_some_Cons set_update_where)

lemma share_link_ok: assumes ok: "store_ok sha d" shows "store_ok sha (snd (share_link owner ident token e now d))"
proof -
  have ls: "links_ok (u_id ` set (users d)) (sites d) (antennas d) (next_id d) (links d)"
    by (rule db_ok_parts(8) [OF store_okD [OF ok]])
  let ?f = "\<lambda>l. l\<lparr>ln_share := keep_or token (ln_share l), ln_share_expires := Some e\<rparr>"
  have "links_ok (u_id ` set (users d)) (sites d) (antennas d) (next_id d) (update_where (is_link owner ident) ?f (links d))"
    if "unique_some (map ln_share (update_where (is_link owner ident) ?f (links d)))"
    using ls that by (auto simp: links_ok_def map_key_update_where link_check_def elim!: in_update_whereE)
  with ok show ?thesis by (auto simp: share_link_def Let_def intro: links_set_ok)
qed

lemma unshare_link_ok:
  assumes ok: "store_ok sha d"
  shows "store_ok sha (d\<lparr>links := update_where p (\<lambda>l. l\<lparr>ln_share := None, ln_share_expires := None\<rparr>) (links d)\<rparr>)"
  by (rule links_set_ok [OF ok])
    (use db_ok_parts(8) [OF store_okD [OF ok]] in
      \<open>auto simp: links_ok_def map_key_update_where link_check_def unique_some_forget elim!: in_update_whereE\<close>)

lemma coverage_share_ok:
  assumes ok: "store_ok sha d" and u: "unique_some (map cv_share (update_where p (\<lambda>c. c\<lparr>cv_share := f c, cv_share_expires := e\<rparr>) (coverages d)))"
  shows "store_ok sha (d\<lparr>coverages := update_where p (\<lambda>c. c\<lparr>cv_share := f c, cv_share_expires := e\<rparr>) (coverages d)\<rparr>)"
proof (rule coverages_set_ok [OF ok])
  show "coverages_ok (u_id ` set (users d)) (sites d) (antennas d) (next_id d) (update_where p (\<lambda>c. c\<lparr>cv_share := f c, cv_share_expires := e\<rparr>) (coverages d))"
    using db_ok_parts(9) [OF store_okD [OF ok]] u
    by (auto simp: coverages_ok_def map_key_update_where coverage_check_def elim!: in_update_whereE)
  show "count_where (\<lambda>c. cv_owner c = owner) (update_where p (\<lambda>c. c\<lparr>cv_share := f c, cv_share_expires := e\<rparr>) (coverages d)) \<le> count_coverages owner d
    \<or> count_where (\<lambda>c. cv_owner c = owner) (update_where p (\<lambda>c. c\<lparr>cv_share := f c, cv_share_expires := e\<rparr>) (coverages d)) \<le> MaxCoveragesPerUser" for owner
    by (intro disjI1) (auto simp: count_coverages_def intro: count_update_le)
qed (simp add: image_update_where)

lemma share_coverage_ok: "store_ok sha d \<Longrightarrow> store_ok sha (snd (share_coverage owner ident token e now d))"
  by (auto simp: share_coverage_def Let_def intro: coverage_share_ok)

lemma unshare_coverage_ok:
  "store_ok sha d \<Longrightarrow> store_ok sha (d\<lparr>coverages := update_where p (\<lambda>c. c\<lparr>cv_share := None, cv_share_expires := None\<rparr>) (coverages d)\<rparr>)"
  by (rule coverage_share_ok)
    (auto intro!: unique_some_forget dest!: store_okD dest: db_ok_parts(9) simp: coverages_ok_def)

end
