(* ===== verification/Store_Calls.thy ===== *)
theory Store_Calls
  imports Resource_Facts
begin

text \<open>
  Every operation of the store that changes a table, as one type of calls, and the invariant
  along every sequence of calls, whatever statements fail on the way.
\<close>

section \<open>Calls\<close>

datatype account_call =
    CallCreateUser string string
  | CallRegister string string string
  | CallUpsertUser string string
  | CallSetPassword string string
  | CallSetEmail int string
  | CallDeleteUser string
  | CallDeleteUnconfirmed time
  | CallCreateEmailToken string int string purpose time
  | CallConsumeEmailToken string purpose
  | CallDeleteExpiredEmailTokens

datatype session_call =
    CallCreateSession string int time
  | CallSessionUser string time time
  | CallDeleteSession string
  | CallDeleteUserSessions string
  | CallDeleteOtherSessions int string
  | CallDeleteAllSessions
  | CallDeleteExpiredSessions
  | CallCreateToken int string string string "string list" "time option"
  | CallDeleteToken int int
  | CallTokenUser string
  | CallDeleteExpiredTokens time

datatype place_call =
    CallCreateSite site
  | CallUpdateSite site
  | CallDeleteSite int int
  | CallCreateAntenna antenna
  | CallUpdateAntenna antenna
  | CallDeleteAntenna int int
  | CallCreateLink link
  | CallUpdateLink link
  | CallDeleteLink int int
  | CallShareLink int int string time
  | CallUnshareLink int int

datatype coverage_call =
    CallCreateCoverage coverage
  | CallUpdateCoverage coverage
  | CallDeleteCoverage int int
  | CallSetCoverageView int int int "int list" bool
  | CallSetCoverageLegend int int "f64 list" "string list"
  | CallShareCoverage int int string time
  | CallUnshareCoverage int int

datatype queue_call =
    CallEnqueueJob int "int option" string bytes
  | CallEnqueueCoverage int int
  | CallClaimJob string bool time
  | CallFinishJob int bytes int
  | CallFailJob int string
  | CallRequeueJob int
  | CallFinishCoverageJob int int bytes bytes bounds int string
  | CallDeleteFinishedJobs time

datatype limit_call =
    CallRateHit string time
  | CallDeleteOldRateLimits
  | CallSetMaintenance bool

datatype call =
    OnAccount account_call
  | OnSession session_call
  | OnPlace place_call
  | OnCoverage coverage_call
  | OnQueue queue_call
  | OnLimits limit_call

text \<open>The state a call leaves; its result goes to the caller.\<close>

fun run_account :: "account_call \<Rightarrow> (store \<Rightarrow> store)" where
  "run_account (CallCreateUser n p) = snd \<circ> CreateUser n p"
| "run_account (CallRegister n e p) = snd \<circ> Register n e p"
| "run_account (CallUpsertUser n p) = snd \<circ> UpsertUser n p"
| "run_account (CallSetPassword n p) = snd \<circ> SetPassword n p"
| "run_account (CallSetEmail i e) = snd \<circ> SetEmail i e"
| "run_account (CallDeleteUser n) = snd \<circ> DeleteUser n"
| "run_account (CallDeleteUnconfirmed a) = snd \<circ> DeleteUnconfirmedUsers a"
| "run_account (CallCreateEmailToken i u e p x) = snd \<circ> CreateEmailToken i u e p x"
| "run_account (CallConsumeEmailToken i p) = snd \<circ> ConsumeEmailToken i p"
| "run_account CallDeleteExpiredEmailTokens = snd \<circ> DeleteExpiredEmailTokens"

fun run_session :: "session_call \<Rightarrow> (store \<Rightarrow> store)" where
  "run_session (CallCreateSession i u x) = snd \<circ> CreateSession i u x"
| "run_session (CallSessionUser i a m) = snd \<circ> SessionUser i a m"
| "run_session (CallDeleteSession i) = snd \<circ> DeleteSession i"
| "run_session (CallDeleteUserSessions n) = snd \<circ> DeleteUserSessions n"
| "run_session (CallDeleteOtherSessions u k) = snd \<circ> DeleteOtherSessions u k"
| "run_session CallDeleteAllSessions = snd \<circ> DeleteAllSessions"
| "run_session CallDeleteExpiredSessions = snd \<circ> DeleteExpiredSessions"
| "run_session (CallCreateToken u n p h sc x) = snd \<circ> CreateToken u n p h sc x"
| "run_session (CallDeleteToken u i) = snd \<circ> DeleteToken u i"
| "run_session (CallTokenUser h) = snd \<circ> TokenUser h"
| "run_session (CallDeleteExpiredTokens k) = snd \<circ> DeleteExpiredTokens k"

fun run_place :: "place_call \<Rightarrow> (store \<Rightarrow> store)" where
  "run_place (CallCreateSite x) = snd \<circ> CreateSite x"
| "run_place (CallUpdateSite x) = snd \<circ> UpdateSite x"
| "run_place (CallDeleteSite u i) = snd \<circ> DeleteSite u i"
| "run_place (CallCreateAntenna x) = snd \<circ> CreateAntenna x"
| "run_place (CallUpdateAntenna x) = snd \<circ> UpdateAntenna x"
| "run_place (CallDeleteAntenna u i) = snd \<circ> DeleteAntenna u i"
| "run_place (CallCreateLink x) = snd \<circ> CreateLink x"
| "run_place (CallUpdateLink x) = snd \<circ> UpdateLink x"
| "run_place (CallDeleteLink u i) = snd \<circ> DeleteLink u i"
| "run_place (CallShareLink u i k x) = snd \<circ> ShareLink u i k x"
| "run_place (CallUnshareLink u i) = snd \<circ> UnshareLink u i"

fun run_coverage :: "coverage_call \<Rightarrow> (store \<Rightarrow> store)" where
  "run_coverage (CallCreateCoverage x) = snd \<circ> CreateCoverage x"
| "run_coverage (CallUpdateCoverage x) = snd \<circ> UpdateCoverage x"
| "run_coverage (CallDeleteCoverage u i) = snd \<circ> DeleteCoverage u i"
| "run_coverage (CallSetCoverageView u i o' ov c) = snd \<circ> SetCoverageView u i o' ov c"
| "run_coverage (CallSetCoverageLegend u i m c) = snd \<circ> SetCoverageLegend u i m c"
| "run_coverage (CallShareCoverage u i k x) = snd \<circ> ShareCoverage u i k x"
| "run_coverage (CallUnshareCoverage u i) = snd \<circ> UnshareCoverage u i"

fun run_queue :: "(bytes \<Rightarrow> string) \<Rightarrow> queue_call \<Rightarrow> (store \<Rightarrow> store)" where
  "run_queue sha (CallEnqueueJob u c k b) = snd \<circ> EnqueueJob sha u c k b"
| "run_queue sha (CallEnqueueCoverage u i) = snd \<circ> EnqueueCoverage sha u i"
| "run_queue sha (CallClaimJob w c st) = snd \<circ> ClaimJob w c st"
| "run_queue sha (CallFinishJob i r ms) = snd \<circ> FinishJob i r ms"
| "run_queue sha (CallFailJob i m) = snd \<circ> FailJob i m"
| "run_queue sha (CallRequeueJob i) = snd \<circ> RequeueJob i"
| "run_queue sha (CallFinishCoverageJob j i p m b ms n) = snd \<circ> FinishCoverageJob j i p m b ms n"
| "run_queue sha (CallDeleteFinishedJobs a) = snd \<circ> DeleteFinishedJobs a"

fun run_limit :: "limit_call \<Rightarrow> (store \<Rightarrow> store)" where
  "run_limit (CallRateHit k w) = snd \<circ> RateHit k w"
| "run_limit CallDeleteOldRateLimits = snd \<circ> DeleteOldRateLimits"
| "run_limit (CallSetMaintenance b) = snd \<circ> SetMaintenance b"

fun run_call :: "(bytes \<Rightarrow> string) \<Rightarrow> call \<Rightarrow> (store \<Rightarrow> store)" where
  "run_call sha (OnAccount c) = run_account c"
| "run_call sha (OnSession c) = run_session c"
| "run_call sha (OnPlace c) = run_place c"
| "run_call sha (OnCoverage c) = run_coverage c"
| "run_call sha (OnQueue c) = run_queue sha c"
| "run_call sha (OnLimits c) = run_limit c"

text \<open>A program's history: each call with the database time at which it runs and the failures it meets.\<close>

fun run_calls :: "(bytes \<Rightarrow> string) \<Rightarrow> (time \<times> wire list \<times> call) list \<Rightarrow> db \<Rightarrow> db" where
  "run_calls sha [] d = d"
| "run_calls sha ((now, w, c) # cs) d =
     run_calls sha cs (tabs (run_call sha c \<lparr>tabs = d, clock = now, wire_script = w\<rparr>))"

text \<open>The kinds of jobs are constants without a line break.\<close>

fun call_ok :: "call \<Rightarrow> bool" where
  "call_ok (OnQueue (CallEnqueueJob u c k b)) = (CHR 0x0A \<notin> set k)"
| "call_ok _ = True"

section \<open>Every call keeps the invariant\<close>

lemma keeps_conj:
  "keeps (\<lambda>s. P (tabs s)) m \<Longrightarrow> keeps (\<lambda>s. Q (tabs s)) m \<Longrightarrow> keeps (\<lambda>s. P (tabs s) \<and> Q (tabs s)) m"
  by (simp add: keeps_def)

lemma limits_cong:
  "sites e = sites d \<Longrightarrow> api_tokens e = api_tokens d \<Longrightarrow> (\<And>owner. count_coverages owner e = count_coverages owner d)
    \<Longrightarrow> limits_ok e = limits_ok d"
  by (simp add: limits_ok_def count_sites_def count_tokens_def)

lemma limits_jobs [simp]:
  "limits_ok (d\<lparr>jobs := js\<rparr>) = limits_ok d" "limits_ok (d\<lparr>outbox := ob\<rparr>) = limits_ok d"
  "limits_ok (d\<lparr>next_id := n\<rparr>) = limits_ok d"
  "limits_ok (d\<lparr>jobs := js, outbox := ob\<rparr>) = limits_ok d" "limits_ok (d\<lparr>next_id := n, jobs := js\<rparr>) = limits_ok d"
  "limits_ok (settle_job ident f d) = limits_ok d"
  by (rule limits_cong; simp add: count_coverages_def settle_job_def)+

lemma limits_insert_job [simp]: "limits_ok (snd (insert_job u c k b h now d)) = limits_ok d"
  by (simp add: insert_job_def Let_def split: option.splits)

lemma limits_claim [simp]: "limits_ok (snd (claim_job w c st now d)) = limits_ok d"
  by (simp add: claim_job_def split: option.splits)

lemma limits_store_result [simp]:
  "limits_ok (d\<lparr>coverages := update_where p (store_result png m b ms n now) (coverages d)\<rparr>) = limits_ok d"
  by (rule limits_cong) (auto simp: count_coverages_def store_result_def intro: count_update_eq)

lemma limits_keep [keeps_intros]:
  "keeps (\<lambda>s. limits_ok (tabs s)) (EnqueueJob sha u cov k b)"
  "keeps (\<lambda>s. limits_ok (tabs s)) (ClaimJob w c st)"
  "keeps (\<lambda>s. limits_ok (tabs s)) (FinishJob i r ms)"
  "keeps (\<lambda>s. limits_ok (tabs s)) (FailJob i m)"
  "keeps (\<lambda>s. limits_ok (tabs s)) (RequeueJob i)"
  "keeps (\<lambda>s. limits_ok (tabs s)) (DeleteFinishedJobs a)"
  "keeps (\<lambda>s. limits_ok (tabs s)) (FinishCoverageJob j i p m' bo ms n)"
  unfolding EnqueueJob_def enqueue_new_def Let_def existing_job_def count_jobs_def notify_queued_def ClaimJob_def
    FinishJob_def FailJob_def RequeueJob_def DeleteFinishedJobs_def FinishCoverageJob_def
  by (auto intro!: keeps_intros)

lemma limits_keep_coverage [keeps_intros]: "keeps (\<lambda>s. limits_ok (tabs s)) (EnqueueCoverage sha u i)"
  unfolding EnqueueCoverage_def by (auto intro!: keeps_intros)

lemma queue_calls_keep:
  assumes "inj sha"
  shows "CHR 0x0A \<notin> set k \<Longrightarrow> keeps (\<lambda>s. store_ok sha (tabs s)) (EnqueueJob sha u cov k b)"
    and "keeps (\<lambda>s. store_ok sha (tabs s)) (EnqueueCoverage sha u i)"
    and "keeps (\<lambda>s. store_ok sha (tabs s)) (ClaimJob w c st)"
    and "keeps (\<lambda>s. store_ok sha (tabs s)) (FinishJob i r ms)"
    and "keeps (\<lambda>s. store_ok sha (tabs s)) (FailJob i m)"
    and "keeps (\<lambda>s. store_ok sha (tabs s)) (RequeueJob i)"
    and "keeps (\<lambda>s. store_ok sha (tabs s)) (DeleteFinishedJobs a)"
    and "keeps (\<lambda>s. store_ok sha (tabs s)) (FinishCoverageJob j i p m' bo ms n)"
  unfolding store_ok_def
  by (rule keeps_conj; intro keeps_intros EnqueueJob_keeps_queue EnqueueCoverage_keeps assms; assumption)+

lemma set_email_query_ok:
  assumes "store_ok sha d"
  shows "\<not> (list_ex (\<lambda>u. u_id u = i) (users d) \<and> list_ex (\<lambda>u. has_email e u \<and> u_id u \<noteq> i) (users d)) \<Longrightarrow>
    store_ok sha (d\<lparr>users := update_where (\<lambda>u. u_id u = i) (\<lambda>u. u\<lparr>u_email := Some e, u_pending := None, u_verified_at := Some now\<rparr>) (users d)\<rparr>)"
  using assms set_email_ok [OF assms] by (cases "list_ex (\<lambda>u. u_id u = i) (users d)") (simp_all add: update_where_none)

lemma user_calls_keep [keeps_intros]:
  "keeps (\<lambda>s. store_ok sha (tabs s)) (CreateUser n p)"
  "keeps (\<lambda>s. store_ok sha (tabs s)) (Register n e p)"
  "keeps (\<lambda>s. store_ok sha (tabs s)) (UpsertUser n p)"
  "keeps (\<lambda>s. store_ok sha (tabs s)) (SetPassword n p)"
  "keeps (\<lambda>s. store_ok sha (tabs s)) (SetEmail i e)"
  "keeps (\<lambda>s. store_ok sha (tabs s)) (DeleteUser n)"
  "keeps (\<lambda>s. store_ok sha (tabs s)) (DeleteUnconfirmedUsers a)"
  unfolding CreateUser_def Register_def UpsertUser_def SetPassword_def SetEmail_def DeleteUser_def DeleteUnconfirmedUsers_def Let_def
  by (auto intro!: keeps_intros insert_user_ok password_ok set_email_query_ok delete_users_ok)

lemma session_calls_keep [keeps_intros]:
  "keeps (\<lambda>s. store_ok sha (tabs s)) (CreateEmailToken i u e pu x)"
  "keeps (\<lambda>s. store_ok sha (tabs s)) (ConsumeEmailToken i pu)"
  "keeps (\<lambda>s. store_ok sha (tabs s)) DeleteExpiredEmailTokens"
  "keeps (\<lambda>s. store_ok sha (tabs s)) (CreateSession i u x)"
  "keeps (\<lambda>s. store_ok sha (tabs s)) (SessionUser i a m)"
  "keeps (\<lambda>s. store_ok sha (tabs s)) (DeleteSession i)"
  "keeps (\<lambda>s. store_ok sha (tabs s)) (delete_sessions p)"
  unfolding CreateEmailToken_def ConsumeEmailToken_def DeleteExpiredEmailTokens_def CreateSession_def SessionUser_def
    DeleteSession_def delete_sessions_def Let_def
  by (auto intro!: keeps_intros create_email_token_ok consume_ok email_tokens_delete_ok create_session_ok session_user_ok sessions_delete_ok)

text \<open>A count followed by an insert: the count is that of the tables the insert finds.\<close>

lemma keeps_counted:
  fixes m :: nat
  assumes "\<And>now d. I d \<Longrightarrow> count d < m \<Longrightarrow> I (snd (q now d))"
  shows "keeps (\<lambda>s. I (tabs s)) (andthen (exec (reading (\<lambda>now d. Inr (count d)))) (\<lambda>n. if m \<le> n then raise e else exec q))"
proof (rule keepsI)
  fix s :: store
  assume I: "I (tabs s)"
  obtain r t where run: "exec (reading (\<lambda>now d. Inr (count d))) s = (r, t)" by fastforce
  then have t: "tabs t = tabs s" using exec_reading_tabs [of "\<lambda>now d. Inr (count d)" s] by simp
  show "I (tabs (snd (andthen (exec (reading (\<lambda>now d. Inr (count d)))) (\<lambda>n. if m \<le> n then raise e else exec q) s)))"
  proof (cases r)
    case (Inr n)
    with run have "n = count (tabs s)" by (auto dest!: exec_Inr simp: reading_def)
    moreover have "I (tabs (snd (exec q t)))" if "\<not> m \<le> count (tabs s)"
      using exec_tabs [of q t] assms [OF I, of "clock t"] that t I by (auto simp: not_le)
    ultimately show ?thesis using Inr run t I by (simp add: andthen_def)
  qed (use run t I in \<open>simp add: andthen_def\<close>)
qed

lemma token_calls_keep [keeps_intros]:
  "keeps (\<lambda>s. store_ok sha (tabs s)) (CreateToken u n p h sc x)"
  "keeps (\<lambda>s. store_ok sha (tabs s)) (DeleteToken u i)"
  "keeps (\<lambda>s. store_ok sha (tabs s)) (TokenUser h)"
  "keeps (\<lambda>s. store_ok sha (tabs s)) (DeleteExpiredTokens a)"
  unfolding CreateToken_def DeleteToken_def TokenUser_def DeleteExpiredTokens_def Let_def
  by (auto intro!: keeps_intros keeps_counted insert_token_ok api_tokens_delete_ok token_user_ok)

lemma site_calls_keep [keeps_intros]:
  "keeps (\<lambda>s. store_ok sha (tabs s)) (CreateSite x)"
  "keeps (\<lambda>s. store_ok sha (tabs s)) (UpdateSite x)"
  "keeps (\<lambda>s. store_ok sha (tabs s)) (DeleteSite u i)"
  unfolding CreateSite_def CountSites_def UpdateSite_def DeleteSite_def
  by (auto intro!: keeps_counted insert_site_ok) (auto intro!: keeps_exec update_site_ok delete_site_ok)

lemma antenna_calls_keep [keeps_intros]:
  "keeps (\<lambda>s. store_ok sha (tabs s)) (CreateAntenna x)"
  "keeps (\<lambda>s. store_ok sha (tabs s)) (UpdateAntenna x)"
  "keeps (\<lambda>s. store_ok sha (tabs s)) (DeleteAntenna u i)"
  unfolding CreateAntenna_def UpdateAntenna_def DeleteAntenna_def
  by (auto intro!: keeps_intros insert_antenna_ok update_antenna_ok delete_antenna_ok copy_gain_ok)

lemma link_calls_keep [keeps_intros]:
  "keeps (\<lambda>s. store_ok sha (tabs s)) (CreateLink l)"
  "keeps (\<lambda>s. store_ok sha (tabs s)) (UpdateLink l)"
  "keeps (\<lambda>s. store_ok sha (tabs s)) (DeleteLink u i)"
  "keeps (\<lambda>s. store_ok sha (tabs s)) (ShareLink u i k e)"
  "keeps (\<lambda>s. store_ok sha (tabs s)) (UnshareLink u i)"
  unfolding CreateLink_def UpdateLink_def DeleteLink_def ShareLink_def UnshareLink_def Let_def
  by (auto intro!: keeps_exec insert_link_ok update_link_ok links_delete_ok share_link_ok unshare_link_ok)

lemma coverage_calls_keep [keeps_intros]:
  "keeps (\<lambda>s. store_ok sha (tabs s)) (CreateCoverage c)"
  "keeps (\<lambda>s. store_ok sha (tabs s)) (UpdateCoverage c)"
  "keeps (\<lambda>s. store_ok sha (tabs s)) (DeleteCoverage u i)"
  "keeps (\<lambda>s. store_ok sha (tabs s)) (SetCoverageView u i o' ov ci)"
  "keeps (\<lambda>s. store_ok sha (tabs s)) (SetCoverageLegend u i m co)"
  "keeps (\<lambda>s. store_ok sha (tabs s)) (ShareCoverage u i k e)"
  "keeps (\<lambda>s. store_ok sha (tabs s)) (UnshareCoverage u i)"
  unfolding CreateCoverage_def UpdateCoverage_def DeleteCoverage_def SetCoverageView_def SetCoverageLegend_def
    ShareCoverage_def UnshareCoverage_def drop_idle_jobs_def Let_def
  by (auto intro!: keeps_andthen keeps_counted insert_coverage_ok)
    (auto intro!: keeps_exec update_coverage_ok jobs_delete_ok delete_coverage_ok coverages_update_ok set_legend_ok
      share_coverage_ok unshare_coverage_ok simp: coverage_check_def)

lemma settings_set_ok: "store_ok sha d \<Longrightarrow> distinct (map fst st) \<Longrightarrow> store_ok sha (d\<lparr>settings := st\<rparr>)"
  by (rule store_okI) (auto intro: db_ok_set(1) dest: store_okD)

lemma rate_limits_set_ok: "store_ok sha d \<Longrightarrow> distinct (map rl_key rl) \<Longrightarrow> store_ok sha (d\<lparr>rate_limits := rl\<rparr>)"
  by (rule store_okI) (auto intro: db_ok_set(2) dest: store_okD)

lemma settings_calls_keep [keeps_intros]:
  "keeps (\<lambda>s. store_ok sha (tabs s)) (RateHit k w)"
  "keeps (\<lambda>s. store_ok sha (tabs s)) DeleteOldRateLimits"
  "keeps (\<lambda>s. store_ok sha (tabs s)) (SetMaintenance on)"
proof -
  show "keeps (\<lambda>s. store_ok sha (tabs s)) (RateHit k w)"
    unfolding RateHit_def
  proof (rule keeps_exec)
    fix now d assume ok: "store_ok sha d"
    have "distinct (map rl_key (snd (rate_upsert k w now (rate_limits d))))"
      by (rule rate_upsert_distinct [OF db_ok_parts(11) [OF store_okD [OF ok]]])
    with ok show "store_ok sha (snd (case rate_upsert k w now (rate_limits d) of (n, rows) \<Rightarrow> (Inr n, d\<lparr>rate_limits := rows\<rparr>)))"
      by (cases "rate_upsert k w now (rate_limits d)") (simp add: rate_limits_set_ok)
  qed
  show "keeps (\<lambda>s. store_ok sha (tabs s)) DeleteOldRateLimits"
    unfolding DeleteOldRateLimits_def
    by (rule keeps_exec) (auto intro!: rate_limits_set_ok distinct_key_delete_where dest: store_okD db_ok_parts(11))
  show "keeps (\<lambda>s. store_ok sha (tabs s)) (SetMaintenance on)"
    unfolding SetMaintenance_def Let_def
    by (rule keeps_exec, simp only: snd_conv, rule settings_set_ok, assumption, rule distinct_upsert, rule db_ok_parts(12), erule store_okD)
qed

lemma store_keepsD:
  "store_ok sha (tabs s) \<Longrightarrow> keeps (\<lambda>s. store_ok sha (tabs s)) m \<Longrightarrow> store_ok sha (tabs ((snd \<circ> m) s))"
  by (simp add: keeps_def)

lemma sessions_deleted_keep [keeps_intros]:
  "keeps (\<lambda>s. store_ok sha (tabs s)) (DeleteUserSessions n)" "keeps (\<lambda>s. store_ok sha (tabs s)) (DeleteOtherSessions u k)"
  "keeps (\<lambda>s. store_ok sha (tabs s)) DeleteAllSessions" "keeps (\<lambda>s. store_ok sha (tabs s)) DeleteExpiredSessions"
  unfolding DeleteUserSessions_def DeleteOtherSessions_def DeleteAllSessions_def DeleteExpiredSessions_def
  by (rule session_calls_keep)+

lemma run_groups_keep:
  assumes "store_ok sha (tabs s)"
  shows "store_ok sha (tabs (run_account a s))" "store_ok sha (tabs (run_session b s))" "store_ok sha (tabs (run_place c s))"
    "store_ok sha (tabs (run_coverage d s))" "store_ok sha (tabs (run_limit e s))"
proof -
  show "store_ok sha (tabs (run_account a s))"
    by (cases a; simp only: run_account.simps; rule store_keepsD [OF assms]; rule user_calls_keep session_calls_keep)
  show "store_ok sha (tabs (run_session b s))"
    by (cases b; simp only: run_session.simps; rule store_keepsD [OF assms]; rule session_calls_keep sessions_deleted_keep token_calls_keep)
  show "store_ok sha (tabs (run_place c s))"
    by (cases c; simp only: run_place.simps; rule store_keepsD [OF assms]; rule site_calls_keep antenna_calls_keep link_calls_keep)
  show "store_ok sha (tabs (run_coverage d s))"
    by (cases d; simp only: run_coverage.simps; rule store_keepsD [OF assms]; rule coverage_calls_keep)
  show "store_ok sha (tabs (run_limit e s))"
    by (cases e; simp only: run_limit.simps; rule store_keepsD [OF assms]; rule settings_calls_keep)
qed

lemma run_queue_keeps:
  assumes "inj sha" "call_ok (OnQueue c)" "store_ok sha (tabs s)"
  shows "store_ok sha (tabs (run_queue sha c s))"
  by (cases c; simp only: run_queue.simps; rule store_keepsD [OF assms(3)];
      rule queue_calls_keep [OF assms(1)]; use assms(2) in simp)

lemma run_call_keeps:
  assumes "inj sha" "call_ok c" "store_ok sha (tabs s)"
  shows "store_ok sha (tabs (run_call sha c s))"
  using assms by (cases c) (simp_all add: run_groups_keep run_queue_keeps)

lemma run_calls_keeps:
  "inj sha \<Longrightarrow> \<forall>x \<in> set cs. call_ok (snd (snd x)) \<Longrightarrow> store_ok sha d \<Longrightarrow> store_ok sha (run_calls sha cs d)"
proof (induction cs arbitrary: d)
  case (Cons x cs)
  obtain now w c where x: "x = (now, w, c)" by (cases x)
  have "store_ok sha (tabs (run_call sha c \<lparr>tabs = d, clock = now, wire_script = w\<rparr>))"
    by (rule run_call_keeps) (use Cons.prems x in auto)
  with Cons x show ?case by simp
qed simp

end
