(* ===== verification/Lease.thy ===== *)
theory Lease
  imports Worker Store_Calls
begin

text \<open>
  Claiming a job is taking a lease on it: the row stays with its worker until the stale limit of
  its class is over. The locale states what a queue has to promise for that and what follows for
  the holders; it is interpreted on the claim of the job queue, and every operation of a client
  leaves leases alone.
\<close>

section \<open>The interface\<close>

text \<open>take: the key of the row taken and the state afterwards. leased c k t: the row k, if it is still there, is of class c
  and held since t.\<close>

locale lease =
  fixes take :: "'c \<Rightarrow> int \<Rightarrow> 'd \<Rightarrow> ('k \<times> 'd) option"
    and leased :: "'c \<Rightarrow> 'k \<Rightarrow> int \<Rightarrow> 'd \<Rightarrow> bool"
    and stale :: "'c \<Rightarrow> int"
  assumes stale_nonneg: "0 \<le> stale c"
    and expired: "take c now d = Some (k, e) \<Longrightarrow> leased c' k t d \<Longrightarrow> t + stale c' < now"
    and granted: "take c now d = Some (k, e) \<Longrightarrow> leased c k now e"
    and others: "take c now d = Some (k, e) \<Longrightarrow> k' \<noteq> k \<Longrightarrow> leased c' k' t d \<Longrightarrow> leased c' k' t e"
begin

text \<open>The holders, each with the class, the key and the time of its lease: all leases are in force, and no key has two.\<close>

definition in_force :: "('w \<Rightarrow> ('c \<times> 'k \<times> int) option) \<Rightarrow> int \<Rightarrow> 'd \<Rightarrow> bool" where
  "in_force H now d \<longleftrightarrow> (\<forall>w c k t. H w = Some (c, k, t) \<longrightarrow> leased c k t d \<and> now \<le> t + stale c)"

definition exclusive :: "('w \<Rightarrow> ('c \<times> 'k \<times> int) option) \<Rightarrow> bool" where
  "exclusive H \<longleftrightarrow> (\<forall>v w c k t c' t'. H v = Some (c, k, t) \<and> H w = Some (c', k, t') \<longrightarrow> v = w)"

lemma take_not_held:
  assumes "in_force H now d" "take c now d = Some (k, e)" "H w = Some (c', k', t)"
  shows "k' \<noteq> k"
proof
  assume "k' = k"
  with assms have "leased c' k t d" "now \<le> t + stale c'" by (auto simp: in_force_def)
  with expired [OF assms(2)] show False by fastforce
qed

lemma take_keeps:
  assumes "in_force H now d" "exclusive H" "take c now d = Some (k, e)"
  shows "in_force (H(w := Some (c, k, now))) now e" "exclusive (H(w := Some (c, k, now)))"
proof -
  note fresh = take_not_held [OF assms(1,3)]
  show "in_force (H(w := Some (c, k, now))) now e"
    using assms(1) fresh granted [OF assms(3)] others [OF assms(3)] stale_nonneg [of c]
    by (auto simp: in_force_def split: if_splits)
  show "exclusive (H(w := Some (c, k, now)))"
    using assms(2) fresh by (auto simp: exclusive_def split: if_splits) blast+
qed

lemma release_keeps:
  "in_force H now d \<Longrightarrow> in_force (H(w := None)) now d" "exclusive H \<Longrightarrow> exclusive (H(w := None))"
  by (auto simp: in_force_def exclusive_def split: if_splits)

lemma calm_keeps:
  "in_force H now d \<Longrightarrow> (\<And>c k t. leased c k t d \<Longrightarrow> leased c k t e) \<Longrightarrow> in_force H now e"
  by (auto simp: in_force_def)

text \<open>The work on a key touches no other holder's lease.\<close>

lemma settle_keeps:
  assumes "in_force H now d" "exclusive H" "H w = Some (c, k, t)"
    and "\<And>c' k' t'. k' \<noteq> k \<Longrightarrow> leased c' k' t' d \<Longrightarrow> leased c' k' t' e"
  shows "in_force (H(w := None)) now e" "exclusive (H(w := None))"
proof -
  have "k' \<noteq> k" if "v \<noteq> w" "H v = Some (c', k', t')" for v c' k' t'
    using assms(2,3) that unfolding exclusive_def by blast
  then show "in_force (H(w := None)) now e" using assms(1,4) by (auto simp: in_force_def split: if_splits)
qed (rule release_keeps(2) [OF assms(2)])

end

section \<open>The job queue provides it\<close>

definition claim_lease :: "string \<Rightarrow> bool \<Rightarrow> time \<Rightarrow> db \<Rightarrow> (int \<times> db) option" where
  "claim_lease w cov now d = (if \<not> db_ok d then None
     else case claim_job w cov (stale_of cov) now d of (Inr j, e) \<Rightarrow> Some (j_id j, e) | _ \<Rightarrow> None)"

definition leased :: "bool \<Rightarrow> int \<Rightarrow> time \<Rightarrow> db \<Rightarrow> bool" where
  "leased cov k t d \<longleftrightarrow> k < next_id d \<and> (\<forall>r \<in> set (jobs d). j_id r = k \<longrightarrow>
     (j_kind r = KindCoverage) = cov \<and> j_state r = JobRunning \<and> j_started_at r = Some t)"

lemma claim_job_Inr:
  assumes "claim_job w cov stale now d = (Inr j, e)"
  obtains r where "r \<in> set (jobs d)" "claimable cov stale now r" "j = start_job w now r"
    "e = d\<lparr>jobs := update_where (\<lambda>x. j_id x = j_id r) (start_job w now) (jobs d)\<rparr>"
  using assms by (auto simp: claim_job_def split: option.splits dest!: oldest_Some)

lemma start_job_simps [simp]:
  "j_id (start_job w now r) = j_id r" "j_kind (start_job w now r) = j_kind r" "j_state (start_job w now r) = JobRunning"
  "j_started_at (start_job w now r) = Some now" "j_attempts (start_job w now r) = j_attempts r + 1" "j_coverage (start_job w now r) = j_coverage r"
  by (simp_all add: start_job_def)

lemma claim_expired:
  assumes "claim_job w cov (stale_of cov) now d = (Inr j, e)" "leased c' (j_id j) t d"
  shows "t + stale_of c' < now"
proof -
  from assms(1) obtain r where r: "r \<in> set (jobs d)" "claimable cov (stale_of cov) now r" "j = start_job w now r"
    by (rule claim_job_Inr) blast
  with assms(2) have "(j_kind r = KindCoverage) = c'" "j_state r = JobRunning" "j_started_at r = Some t" by (auto simp: leased_def)
  with r(2) show ?thesis by (auto simp: claimable_def)
qed

lemma claim_granted:
  assumes "db_ok d" "claim_job w cov (stale_of cov) now d = (Inr j, e)"
  shows "leased cov (j_id j) now e"
proof -
  from assms(2) obtain r where r: "r \<in> set (jobs d)" "claimable cov (stale_of cov) now r" "j = start_job w now r"
    "e = d\<lparr>jobs := update_where (\<lambda>x. j_id x = j_id r) (start_job w now) (jobs d)\<rparr>" by (rule claim_job_Inr)
  from assms(1) have d: "distinct (map j_id (jobs d))" "\<forall>x \<in> set (jobs d). j_id x < next_id d" by (auto simp: db_ok_def jobs_ok_def)
  have "(j_kind x = KindCoverage) = cov" if "x \<in> set (jobs d)" "j_id x = j_id r" for x
    using key_unique [OF d(1) that(1) r(1) that(2)] r(2) by (simp add: claimable_def)
  then show ?thesis using d(2) r(1,3) by (auto simp: leased_def r(4) elim!: in_update_whereE)
qed

lemma claim_others:
  assumes "claim_job w cov (stale_of cov) now d = (Inr j, e)" "k' \<noteq> j_id j" "leased c' k' t d"
  shows "leased c' k' t e"
proof -
  from assms(1) obtain r where r: "j = start_job w now r" "e = d\<lparr>jobs := update_where (\<lambda>x. j_id x = j_id r) (start_job w now) (jobs d)\<rparr>"
    by (rule claim_job_Inr)
  with assms(2,3) show ?thesis by (auto simp: leased_def elim!: in_update_whereE)
qed

interpretation job_lease: lease "claim_lease w" leased stale_of for w
proof
  show "0 \<le> stale_of c" for c by (simp add: stale_of_def worker_limits)
  fix c now d k e assume "claim_lease w c now d = Some (k, e)"
  then obtain j where j: "db_ok d" "claim_job w c (stale_of c) now d = (Inr j, e)" "k = j_id j"
    by (auto simp: claim_lease_def split: if_splits prod.splits sum.splits)
  show "leased c' k t d \<Longrightarrow> t + stale_of c' < now" for c' t using claim_expired [OF j(2)] j(3) by simp
  show "leased c k now e" using claim_granted [OF j(1,2)] j(3) by simp
  show "k' \<noteq> k \<Longrightarrow> leased c' k' t d \<Longrightarrow> leased c' k' t e" for c' k' t using claim_others [OF j(2)] j(3) by simp
qed

section \<open>Clients and the queue\<close>

text \<open>An operation of a client: every call but those of the workers.\<close>

fun client_call :: "call \<Rightarrow> bool" where
  "client_call (OnQueue (CallEnqueueJob u c k b)) = True"
| "client_call (OnQueue (CallEnqueueCoverage u i)) = True"
| "client_call (OnQueue (CallDeleteFinishedJobs a)) = True"
| "client_call (OnQueue _) = False"
| "client_call _ = True"

text \<open>What a client's call can do to the queue: add a job, reset a failed one, drop rows. An invariant of the queue that
  survives these survives every call.\<close>

locale queue_invariant =
  fixes I :: "db \<Rightarrow> bool"
  assumes inv_same: "I d \<Longrightarrow> jobs e = jobs d \<Longrightarrow> next_id d \<le> next_id e \<Longrightarrow> I e"
    and inv_delete: "I d \<Longrightarrow> I (d\<lparr>jobs := delete_where p (jobs d)\<rparr>)"
    and inv_insert_job: "I d \<Longrightarrow> I (snd (insert_job u cov kd b h now d))"
begin

lemma inv_frame [simp]:
  "I (d\<lparr>users := x1\<rparr>) = I d" "I (d\<lparr>sessions := x2\<rparr>) = I d" "I (d\<lparr>email_tokens := x3\<rparr>) = I d" "I (d\<lparr>api_tokens := x4\<rparr>) = I d"
  "I (d\<lparr>sites := x5\<rparr>) = I d" "I (d\<lparr>antennas := x6\<rparr>) = I d" "I (d\<lparr>links := x7\<rparr>) = I d" "I (d\<lparr>coverages := x8\<rparr>) = I d"
  "I (d\<lparr>rate_limits := x9\<rparr>) = I d" "I (d\<lparr>settings := x10\<rparr>) = I d" "I (d\<lparr>outbox := x11\<rparr>) = I d"
  by (rule iffI; erule inv_same; simp)+

lemma inv_delete_coverages: "I d \<Longrightarrow> I (d\<lparr>coverages := x, jobs := delete_where p (jobs d)\<rparr>)"
  using inv_delete [of "d\<lparr>coverages := x\<rparr>" p] by simp

lemma inv_drop_users: "I d \<Longrightarrow> I (snd (delete_users p d))"
proof -
  assume "I d"
  have "I (drop_users ids d)" for ids
    by (rule inv_same [OF inv_delete [OF \<open>I d\<close>]]) (simp_all add: drop_users_def)
  then show ?thesis using \<open>I d\<close> by (simp add: delete_users_def Let_def)
qed

lemma inv_insert:
  assumes "I d"
  shows "I (snd (insert_user n e v p now d))" "I (snd (insert_token u nm p h sc x now d))"
    "I (snd (insert_site st now d))" "I (snd (insert_antenna ant now d))"
    "I (snd (insert_link l now d))" "I (snd (insert_coverage cv now d))"
  using assms by (auto intro: inv_same [of d] simp: insert_user_def insert_token_def insert_site_def insert_antenna_def insert_link_def insert_coverage_def Let_def)

lemma inv_update:
  assumes "I d"
  shows "I (snd (update_site st now d))" "I (snd (delete_site u i now d))"
    "I (snd (update_antenna ant now d))" "I (snd (delete_antenna u i now d))"
    "I (snd (update_link l now d))" "I (snd (update_coverage cv now d))"
    "I (snd (delete_coverage u i now d))" "I (snd (drop_idle_jobs i now d))"
    "I (snd (set_legend u i ms cs now d))" "I (snd (copy_gain_tx ant now d))"
    "I (snd (copy_gain_rx ant now d))" "I (snd (copy_gain_coverages ant now d))"
    "I (snd (share_link u i tok e now d))" "I (snd (share_coverage u i tok e now d))"
    "I (snd (consume_email_token s p now d))" "I (snd (session_user s a b now d))"
    "I (snd (token_user s now d))"
  using assms
  by (auto simp: update_site_def delete_site_def update_antenna_def delete_antenna_def update_link_def update_coverage_def
      delete_coverage_def drop_idle_jobs_def set_legend_def copy_gain_tx_def copy_gain_rx_def copy_gain_coverages_def
      share_link_def share_coverage_def consume_email_token_def session_user_def token_user_def seen_lately_def Let_def
      intro: inv_delete inv_delete_coverages split: option.splits)

lemmas inv_queries = inv_insert inv_update inv_insert_job inv_drop_users

lemma inv_account_calls:
  "keeps (\<lambda>s. I (tabs s)) (CreateUser n p)" "keeps (\<lambda>s. I (tabs s)) (Register n e p)"
  "keeps (\<lambda>s. I (tabs s)) (UpsertUser n p)" "keeps (\<lambda>s. I (tabs s)) (SetPassword n p)"
  "keeps (\<lambda>s. I (tabs s)) (SetEmail i e)" "keeps (\<lambda>s. I (tabs s)) (DeleteUser n)"
  "keeps (\<lambda>s. I (tabs s)) (DeleteUnconfirmedUsers a)"
  "keeps (\<lambda>s. I (tabs s)) (CreateEmailToken s' i e pu x)" "keeps (\<lambda>s. I (tabs s)) (ConsumeEmailToken s' pu)"
  "keeps (\<lambda>s. I (tabs s)) DeleteExpiredEmailTokens"
  unfolding CreateUser_def Register_def UpsertUser_def SetPassword_def SetEmail_def DeleteUser_def DeleteUnconfirmedUsers_def
    CreateEmailToken_def ConsumeEmailToken_def DeleteExpiredEmailTokens_def Let_def
  by (auto intro!: keeps_intros inv_queries)

lemma inv_session_calls:
  "keeps (\<lambda>s. I (tabs s)) (CreateSession i u x)" "keeps (\<lambda>s. I (tabs s)) (SessionUser i a m)"
  "keeps (\<lambda>s. I (tabs s)) (DeleteSession i)" "keeps (\<lambda>s. I (tabs s)) (DeleteUserSessions n)"
  "keeps (\<lambda>s. I (tabs s)) (DeleteOtherSessions u' i)" "keeps (\<lambda>s. I (tabs s)) DeleteAllSessions"
  "keeps (\<lambda>s. I (tabs s)) DeleteExpiredSessions" "keeps (\<lambda>s. I (tabs s)) (CreateToken u n p h sc y)"
  "keeps (\<lambda>s. I (tabs s)) (DeleteToken u u')" "keeps (\<lambda>s. I (tabs s)) (TokenUser h)"
  "keeps (\<lambda>s. I (tabs s)) (DeleteExpiredTokens a)"
  unfolding CreateSession_def SessionUser_def DeleteSession_def DeleteUserSessions_def DeleteOtherSessions_def DeleteAllSessions_def
    DeleteExpiredSessions_def delete_sessions_def CreateToken_def DeleteToken_def TokenUser_def DeleteExpiredTokens_def seen_def Let_def
  by (auto intro!: keeps_intros inv_queries)

lemma inv_place_calls:
  "keeps (\<lambda>s. I (tabs s)) (CreateSite x)" "keeps (\<lambda>s. I (tabs s)) (UpdateSite x)"
  "keeps (\<lambda>s. I (tabs s)) (DeleteSite u i)" "keeps (\<lambda>s. I (tabs s)) (CreateAntenna a)"
  "keeps (\<lambda>s. I (tabs s)) (UpdateAntenna a)" "keeps (\<lambda>s. I (tabs s)) (DeleteAntenna u i)"
  "keeps (\<lambda>s. I (tabs s)) (CreateLink l)" "keeps (\<lambda>s. I (tabs s)) (UpdateLink l)"
  "keeps (\<lambda>s. I (tabs s)) (DeleteLink u i)" "keeps (\<lambda>s. I (tabs s)) (ShareLink u i tok e)"
  "keeps (\<lambda>s. I (tabs s)) (UnshareLink u i)"
  unfolding CreateSite_def CountSites_def UpdateSite_def DeleteSite_def CreateAntenna_def UpdateAntenna_def DeleteAntenna_def CreateLink_def
    UpdateLink_def DeleteLink_def ShareLink_def UnshareLink_def Let_def
  by (auto intro!: keeps_intros inv_queries)

lemma inv_coverage_calls:
  "keeps (\<lambda>s. I (tabs s)) (CreateCoverage x)" "keeps (\<lambda>s. I (tabs s)) (UpdateCoverage x)"
  "keeps (\<lambda>s. I (tabs s)) (DeleteCoverage u i)" "keeps (\<lambda>s. I (tabs s)) (SetCoverageView u i o' ov ci)"
  "keeps (\<lambda>s. I (tabs s)) (SetCoverageLegend u i m co)" "keeps (\<lambda>s. I (tabs s)) (ShareCoverage u i tok e)"
  "keeps (\<lambda>s. I (tabs s)) (UnshareCoverage u i)"
  unfolding CreateCoverage_def UpdateCoverage_def DeleteCoverage_def SetCoverageView_def SetCoverageLegend_def ShareCoverage_def
    UnshareCoverage_def Let_def
  by (auto intro!: keeps_intros inv_queries)

lemma inv_limit_calls:
  "keeps (\<lambda>s. I (tabs s)) (RateHit key w)" "keeps (\<lambda>s. I (tabs s)) DeleteOldRateLimits"
  "keeps (\<lambda>s. I (tabs s)) (SetMaintenance on)"
  unfolding RateHit_def DeleteOldRateLimits_def SetMaintenance_def Let_def
  by (auto intro!: keeps_intros split: prod.split)

lemma inv_queue_calls:
  "keeps (\<lambda>s. I (tabs s)) (EnqueueJob sha u cov kd b)" "keeps (\<lambda>s. I (tabs s)) (EnqueueCoverage sha u i)"
  "keeps (\<lambda>s. I (tabs s)) (DeleteFinishedJobs a)"
proof -
  show enq: "keeps (\<lambda>s. I (tabs s)) (EnqueueJob sha u cov kd b)" for u cov kd b
    unfolding EnqueueJob_def enqueue_new_def existing_job_def count_jobs_def notify_queued_def Let_def
    by (auto intro!: keeps_intros inv_queries)
  show "keeps (\<lambda>s. I (tabs s)) (EnqueueCoverage sha u i)"
    unfolding EnqueueCoverage_def by (auto intro!: keeps_intros enq inv_delete)
  show "keeps (\<lambda>s. I (tabs s)) (DeleteFinishedJobs a)"
    unfolding DeleteFinishedJobs_def Let_def by (auto intro!: keeps_intros inv_delete)
qed

lemma client_keeps:
  assumes "client_call x" "I (tabs s)"
  shows "I (tabs (run_call sha x s))"
proof -
  have keep: "keeps (\<lambda>s. I (tabs s)) m \<Longrightarrow> I (tabs ((snd \<circ> m) s))" for m :: "'a store_op"
    using assms(2) by (simp add: keeps_def)
  show ?thesis
  proof (cases x)
    case (OnAccount a) then show ?thesis by (cases a) (simp_all only: run_call.simps run_account.simps keep inv_account_calls)
  next
    case (OnSession a) then show ?thesis by (cases a) (simp_all only: run_call.simps run_session.simps keep inv_session_calls)
  next
    case (OnPlace a) then show ?thesis by (cases a) (simp_all only: run_call.simps run_place.simps keep inv_place_calls)
  next
    case (OnCoverage a) then show ?thesis by (cases a) (simp_all only: run_call.simps run_coverage.simps keep inv_coverage_calls)
  next
    case (OnQueue a) then show ?thesis using assms(1)
      by (cases a) (simp_all only: run_call.simps run_queue.simps keep inv_queue_calls client_call.simps)
  next
    case (OnLimits a) then show ?thesis by (cases a) (simp_all only: run_call.simps run_limit.simps keep inv_limit_calls)
  qed
qed

end

lemma leased_frame [simp]: "leased c k t (d\<lparr>outbox := x\<rparr>) = leased c k t d" "leased c k t (d\<lparr>coverages := y\<rparr>) = leased c k t d"
  by (simp_all add: leased_def)

interpretation lease_calm: queue_invariant "leased c k t" for c k t
proof
  show "leased c k t d \<Longrightarrow> jobs e = jobs d \<Longrightarrow> next_id d \<le> next_id e \<Longrightarrow> leased c k t e" for d e by (auto simp: leased_def)
  show "leased c k t d \<Longrightarrow> leased c k t (d\<lparr>jobs := delete_where p (jobs d)\<rparr>)" for d p by (auto simp: leased_def)
  show "leased c k t d \<Longrightarrow> leased c k t (snd (insert_job u cov kd b h now d))" for d u cov kd b h now
    by (auto simp: leased_def insert_job_def new_job_def reset_job_def Let_def split: option.splits elim!: in_update_whereE dest!: find_SomeD)
qed

text \<open>A running job has a start.\<close>

definition started_ok :: "db \<Rightarrow> bool" where
  "started_ok d \<longleftrightarrow> (\<forall>r \<in> set (jobs d). j_state r = JobRunning \<longrightarrow> j_started_at r \<noteq> None)"

lemma started_frame [simp]: "started_ok (d\<lparr>outbox := x\<rparr>) = started_ok d" "started_ok (d\<lparr>coverages := y\<rparr>) = started_ok d"
  by (simp_all add: started_ok_def)

interpretation started_calm: queue_invariant started_ok
proof
  show "started_ok d \<Longrightarrow> jobs e = jobs d \<Longrightarrow> next_id d \<le> next_id e \<Longrightarrow> started_ok e" for d e by (auto simp: started_ok_def)
  show "started_ok d \<Longrightarrow> started_ok (d\<lparr>jobs := delete_where p (jobs d)\<rparr>)" for d p by (auto simp: started_ok_def)
  show "started_ok d \<Longrightarrow> started_ok (snd (insert_job u cov kd b h now d))" for d u cov kd b h now
    by (auto simp: started_ok_def insert_job_def new_job_def reset_job_def Let_def split: option.splits elim!: in_update_whereE dest!: find_SomeD)
qed

end
