(* ===== verification/Store_Claims.thy ===== *)
theory Store_Claims
  imports Store_Calls
begin

text \<open>
  The properties of the store: its invariant along every history, the isolation of tenants, the
  cascade of a deleted user, sessions, single-use tokens, the order of claims, repeated
  requests for a job, the all-or-nothing updates and the life of a share.
\<close>

section \<open>Running single statements\<close>

lemma exec_ok: "wire_script s = [] \<Longrightarrow> exec q s = (fst (q (clock s) (tabs s)), s\<lparr>tabs := snd (q (clock s) (tabs s))\<rparr>)"
  by (simp add: exec_reliable split: prod.splits)

lemma store_eta [simp]: "s\<lparr>tabs := tabs s\<rparr> = (s :: store)"
  by simp

section \<open>What belongs to others\<close>

definition foreign :: "int \<Rightarrow> db \<Rightarrow> site list \<times> antenna list \<times> link list \<times> coverage list" where
  "foreign owner d = (filter (\<lambda>s. site_owner s \<noteq> owner) (sites d), filter (\<lambda>t. ant_owner t \<noteq> owner) (antennas d),
     filter (\<lambda>l. ln_owner l \<noteq> owner) (links d), filter (\<lambda>c. cv_owner c \<noteq> owner) (coverages d))"

fun place_owner :: "place_call \<Rightarrow> int" where
  "place_owner (CallCreateSite x) = site_owner x"
| "place_owner (CallUpdateSite x) = site_owner x"
| "place_owner (CallDeleteSite u i) = u"
| "place_owner (CallCreateAntenna x) = ant_owner x"
| "place_owner (CallUpdateAntenna x) = ant_owner x"
| "place_owner (CallDeleteAntenna u i) = u"
| "place_owner (CallCreateLink x) = ln_owner x"
| "place_owner (CallUpdateLink x) = ln_owner x"
| "place_owner (CallDeleteLink u i) = u"
| "place_owner (CallShareLink u i k e) = u"
| "place_owner (CallUnshareLink u i) = u"

fun coverage_owner :: "coverage_call \<Rightarrow> int" where
  "coverage_owner (CallCreateCoverage x) = cv_owner x"
| "coverage_owner (CallUpdateCoverage x) = cv_owner x"
| "coverage_owner (CallDeleteCoverage u i) = u"
| "coverage_owner (CallSetCoverageView u i p ov c) = u"
| "coverage_owner (CallSetCoverageLegend u i m c) = u"
| "coverage_owner (CallShareCoverage u i k e) = u"
| "coverage_owner (CallUnshareCoverage u i) = u"

lemma filter_update_other:
  "(\<And>r. r \<in> set rows \<Longrightarrow> p r \<Longrightarrow> \<not> q r \<and> \<not> q (f r)) \<Longrightarrow> filter q (update_where p f rows) = filter q rows"
  by (induction rows) auto

lemma filter_delete_other:
  "(\<And>r. r \<in> set rows \<Longrightarrow> p r \<Longrightarrow> \<not> q r) \<Longrightarrow> filter q (delete_where p rows) = filter q rows"
  by (induction rows) auto

lemma filter_map_other:
  "(\<And>r. r \<in> set rows \<Longrightarrow> q r \<Longrightarrow> f r = r) \<Longrightarrow> (\<And>r. r \<in> set rows \<Longrightarrow> q (f r) = q r) \<Longrightarrow> filter q (map f rows) = filter q rows"
  by (induction rows) auto

lemmas filter_other = filter_update_other filter_delete_other filter_map_other

lemma foreign_sites:
  "foreign (site_owner s) (snd (insert_site s now d)) = foreign (site_owner s) d"
  "foreign (site_owner s) (snd (update_site s now d)) = foreign (site_owner s) d"
  "foreign owner (snd (delete_site owner ident now d)) = foreign owner d"
  by (auto simp: foreign_def insert_site_def update_site_def delete_site_def Let_def is_site_def intro!: filter_other)

lemma foreign_links:
  "foreign (ln_owner l) (snd (insert_link l now d)) = foreign (ln_owner l) d"
  "foreign (ln_owner l) (snd (update_link l now d)) = foreign (ln_owner l) d"
  "foreign owner (snd (share_link owner ident token e now d)) = foreign owner d"
  "foreign owner (d\<lparr>links := delete_where (is_link owner ident) (links d)\<rparr>) = foreign owner d"
  "foreign owner (d\<lparr>links := update_where (is_link owner ident) (\<lambda>l. l\<lparr>ln_share := None, ln_share_expires := None\<rparr>) (links d)\<rparr>) = foreign owner d"
  by (auto simp: foreign_def insert_link_def update_link_def share_link_def Let_def is_link_def intro!: filter_other)

lemma foreign_coverages:
  "foreign (cv_owner c) (snd (insert_coverage c now d)) = foreign (cv_owner c) d"
  "foreign (cv_owner c) (snd (update_coverage c now d)) = foreign (cv_owner c) d"
  "foreign owner (snd (drop_idle_jobs ident now d)) = foreign owner d"
  "foreign owner (snd (delete_coverage owner ident now d)) = foreign owner d"
  "foreign owner (d\<lparr>coverages := update_where (owns_coverage owner ident) (\<lambda>c. c\<lparr>cv_opacity := x, cv_circles := y, cv_overlays := z\<rparr>) (coverages d)\<rparr>) = foreign owner d"
  "foreign owner (snd (set_legend owner ident mins colors now d)) = foreign owner d"
  "foreign owner (snd (share_coverage owner ident token e now d)) = foreign owner d"
  "foreign owner (d\<lparr>coverages := update_where (owns_coverage owner ident) (\<lambda>c. c\<lparr>cv_share := None, cv_share_expires := None\<rparr>) (coverages d)\<rparr>) = foreign owner d"
  by (auto simp: foreign_def insert_coverage_def update_coverage_def drop_idle_jobs_def delete_coverage_def set_legend_def
      share_coverage_def fresh_coverage_def rewrite_coverage_def cleared_result_def Let_def owns_coverage_def intro!: filter_other)

text \<open>Antennas are copied into links and coverages by id alone; ownership of references makes that safe.\<close>

lemma antenna_users:
  assumes ok: "db_ok d" and t: "t \<in> set (antennas d)"
  shows "l \<in> set (links d) \<Longrightarrow> ln_tx_ant l = Some (ant_id t) \<or> ln_rx_ant l = Some (ant_id t) \<Longrightarrow> ln_owner l = ant_owner t"
    and "c \<in> set (coverages d) \<Longrightarrow> cv_tx_ant c = Some (ant_id t) \<Longrightarrow> cv_owner c = ant_owner t"
proof -
  have dist: "distinct (map ant_id (antennas d))" using db_ok_parts(7) [OF ok] by (simp add: antennas_ok_def)
  have own: "owner = ant_owner t" if "owns_antenna (antennas d) owner (Some (ant_id t))" for owner
    using that t key_unique [OF dist] by (auto simp: owns_antenna_def)
  show "ln_owner l = ant_owner t" if "l \<in> set (links d)" "ln_tx_ant l = Some (ant_id t) \<or> ln_rx_ant l = Some (ant_id t)"
    using that db_ok_parts(8) [OF ok] own by (auto simp: links_ok_def)
  show "cv_owner c = ant_owner t" if "c \<in> set (coverages d)" "cv_tx_ant c = Some (ant_id t)"
    using that db_ok_parts(9) [OF ok] own by (auto simp: coverages_ok_def)
qed

definition has_antenna :: "antenna \<Rightarrow> db \<Rightarrow> bool" where
  "has_antenna t d \<longleftrightarrow> (\<exists>r \<in> set (antennas d). ant_owner r = ant_owner t \<and> ant_id r = ant_id t)"

lemma foreign_copies:
  assumes "db_ok d" "has_antenna t d"
  shows "foreign (ant_owner t) (snd (copy_gain_tx t now d)) = foreign (ant_owner t) d"
    "foreign (ant_owner t) (snd (copy_gain_rx t now d)) = foreign (ant_owner t) d"
    "foreign (ant_owner t) (snd (copy_gain_coverages t now d)) = foreign (ant_owner t) d"
proof -
  from assms(2) obtain r where r: "r \<in> set (antennas d)" "ant_owner r = ant_owner t" "ant_id r = ant_id t"
    by (auto simp: has_antenna_def)
  note use = antenna_users [OF assms(1) r(1), unfolded r(2,3)]
  show "foreign (ant_owner t) (snd (copy_gain_tx t now d)) = foreign (ant_owner t) d"
    "foreign (ant_owner t) (snd (copy_gain_rx t now d)) = foreign (ant_owner t) d"
    "foreign (ant_owner t) (snd (copy_gain_coverages t now d)) = foreign (ant_owner t) d"
    using use by (auto simp: foreign_def copy_gain_tx_def copy_gain_rx_def copy_gain_coverages_def intro!: filter_update_other)
qed

lemma copies_keep_antenna:
  "has_antenna t (snd (copy_gain_tx t now d)) = has_antenna t d" "has_antenna t (snd (copy_gain_rx t now d)) = has_antenna t d"
  by (simp_all add: has_antenna_def copy_gain_tx_def copy_gain_rx_def)

lemma foreign_antennas:
  "foreign (ant_owner t) (snd (insert_antenna t now d)) = foreign (ant_owner t) d"
  "foreign (ant_owner t) (snd (update_antenna t now d)) = foreign (ant_owner t) d"
  by (auto simp: foreign_def insert_antenna_def update_antenna_def Let_def is_antenna_def rewrite_antenna_def intro!: filter_other)

lemma count_where_pos: "0 < count_where p rows \<longleftrightarrow> list_ex p rows"
  by (induction rows) auto

lemma affected_Inr: "affected n = Inr x \<longleftrightarrow> 0 < n"
  by (auto simp: affected_def)

lemma updated_has_antenna:
  assumes "update_antenna t now d = (Inr x, e)"
  shows "has_antenna t e"
proof -
  let ?p = "is_antenna (ant_owner t) (ant_id t)"
  from assms have e: "e = d\<lparr>antennas := update_where ?p (rewrite_antenna t) (antennas d)\<rparr>" and "list_ex ?p (antennas d)"
    by (auto simp: update_antenna_def Let_def affected_Inr count_where_pos split: if_splits)
  then obtain r where r: "r \<in> set (antennas d)" "?p r" by (auto simp: list_ex_iff)
  then have "rewrite_antenna t r \<in> set (antennas e)" unfolding e by (auto simp: set_update_where)
  then show ?thesis
    using r(2) unfolding has_antenna_def is_antenna_def
    by (intro bexI [where x = "rewrite_antenna t r"]) (simp_all add: rewrite_antenna_def)
qed

lemma forget_other: "x \<noteq> Some i \<Longrightarrow> forget_antennas (\<lambda>j. j = i) x = x"
  by (cases x) (simp_all add: forget_antennas_def)

lemma foreign_delete_antenna:
  assumes ok: "db_ok d"
  shows "foreign owner (snd (delete_antenna owner ident now d)) = foreign owner d"
proof (cases "list_ex (is_antenna owner ident) (antennas d)")
  case True
  then obtain t where t: "t \<in> set (antennas d)" "ant_owner t = owner" "ant_id t = ident"
    by (auto simp: list_ex_iff is_antenna_def)
  note use = antenna_users [OF ok t(1), unfolded t(2,3)]
  have same_l: "unset_link_antennas (\<lambda>i. i = ident) l = l" if "l \<in> set (links d)" "ln_owner l \<noteq> owner" for l
  proof -
    have "ln_tx_ant l \<noteq> Some ident" "ln_rx_ant l \<noteq> Some ident" using use(1) [OF that(1)] that(2) by blast+
    then show ?thesis by (simp add: unset_link_antennas_def forget_other)
  qed
  have same_c: "unset_coverage_antenna (\<lambda>i. i = ident) c = c" if "c \<in> set (coverages d)" "cv_owner c \<noteq> owner" for c
  proof -
    have "cv_tx_ant c \<noteq> Some ident" using use(2) [OF that(1)] that(2) by blast
    then show ?thesis by (simp add: unset_coverage_antenna_def forget_other)
  qed
  have
    "filter (\<lambda>l. ln_owner l \<noteq> owner) (map (unset_link_antennas (\<lambda>i. i = ident)) (links d)) = filter (\<lambda>l. ln_owner l \<noteq> owner) (links d)"
    "filter (\<lambda>c. cv_owner c \<noteq> owner) (map (unset_coverage_antenna (\<lambda>i. i = ident)) (coverages d)) = filter (\<lambda>c. cv_owner c \<noteq> owner) (coverages d)"
    by (rule filter_map_other, use same_l in blast, simp add: unset_link_antennas_def,
        rule filter_map_other, use same_c in blast, simp add: unset_coverage_antenna_def)
  moreover have "filter (\<lambda>t. ant_owner t \<noteq> owner) (delete_where (is_antenna owner ident) (antennas d)) = filter (\<lambda>t. ant_owner t \<noteq> owner) (antennas d)"
    by (rule filter_delete_other) (simp add: is_antenna_def)
  ultimately show ?thesis using True by (simp add: foreign_def delete_antenna_def)
qed (simp add: delete_antenna_def)

text \<open>UpdateAntenna as one run: after its first statement the antenna exists, so the copies stay with the owner.\<close>

lemma UpdateAntenna_foreign:
  "keeps (\<lambda>s. store_ok sha (tabs s) \<and> foreign (ant_owner t) (tabs s) = F) (UpdateAntenna t)"
  unfolding UpdateAntenna_def
proof (rule keeps_transaction [where I = "\<lambda>d. store_ok sha d \<and> foreign (ant_owner t) d = F"], rule keepsI)
  fix s :: store
  assume s: "store_ok sha (tabs s) \<and> foreign (ant_owner t) (tabs s) = F"
  let ?J = "\<lambda>d. store_ok sha d \<and> foreign (ant_owner t) d = F \<and> has_antenna t d"
  let ?copies = "andthen (exec (copy_gain_tx t)) (\<lambda>_. andthen (exec (copy_gain_rx t)) (\<lambda>_. exec (copy_gain_coverages t)))"
  have gc: "has_antenna t (snd (copy_gain_coverages t now d)) = has_antenna t d" for now d
    by (simp add: has_antenna_def copy_gain_coverages_def)
  have copies: "keeps (\<lambda>s. ?J (tabs s)) ?copies"
    by (intro keeps_andthen keeps_exec) (auto simp: copy_gain_ok foreign_copies copies_keep_antenna gc dest: store_okD)
  obtain r u where run: "exec (update_antenna t) s = (r, u)" by fastforce
  have u: "store_ok sha (tabs u) \<and> foreign (ant_owner t) (tabs u) = F"
    using exec_tabs [of "update_antenna t" s] run s by (auto simp: update_antenna_ok foreign_antennas)
  show "store_ok sha (tabs (snd (andthen (exec (update_antenna t)) (\<lambda>_. ?copies) s)))
     \<and> foreign (ant_owner t) (tabs (snd (andthen (exec (update_antenna t)) (\<lambda>_. ?copies) s))) = F"
  proof (cases r)
    case (Inr x)
    with run have "update_antenna t (clock s) (tabs s) = (Inr x, tabs u)" using exec_Inr [of "update_antenna t" s x u] by simp
    then have "has_antenna t (tabs u)" by (rule updated_has_antenna)
    with u keepsD [OF copies, of u] show ?thesis using run Inr by (simp add: andthen_def)
  qed (use run u in \<open>simp add: andthen_def\<close>)
qed

lemma keeps_foreign_exec:
  assumes "\<And>now d. store_ok sha d \<Longrightarrow> store_ok sha (snd (q now d))" "\<And>now d. db_ok d \<Longrightarrow> foreign owner (snd (q now d)) = foreign owner d"
  shows "keeps (\<lambda>s. store_ok sha (tabs s) \<and> foreign owner (tabs s) = F) (exec q)"
  by (rule keeps_exec [where I = "\<lambda>d. store_ok sha d \<and> foreign owner d = F"]) (use assms in \<open>auto dest: store_okD\<close>)

lemma place_foreign:
  "keeps (\<lambda>s. store_ok sha (tabs s) \<and> foreign (site_owner x) (tabs s) = F) (CreateSite x)"
  "keeps (\<lambda>s. store_ok sha (tabs s) \<and> foreign (site_owner x) (tabs s) = F) (UpdateSite x)"
  "keeps (\<lambda>s. store_ok sha (tabs s) \<and> foreign u (tabs s) = F) (DeleteSite u i)"
  "keeps (\<lambda>s. store_ok sha (tabs s) \<and> foreign (ant_owner a) (tabs s) = F) (CreateAntenna a)"
  "keeps (\<lambda>s. store_ok sha (tabs s) \<and> foreign u (tabs s) = F) (DeleteAntenna u i)"
  "keeps (\<lambda>s. store_ok sha (tabs s) \<and> foreign (ln_owner l) (tabs s) = F) (CreateLink l)"
  "keeps (\<lambda>s. store_ok sha (tabs s) \<and> foreign (ln_owner l) (tabs s) = F) (UpdateLink l)"
  "keeps (\<lambda>s. store_ok sha (tabs s) \<and> foreign u (tabs s) = F) (DeleteLink u i)"
  "keeps (\<lambda>s. store_ok sha (tabs s) \<and> foreign u (tabs s) = F) (ShareLink u i k e)"
  "keeps (\<lambda>s. store_ok sha (tabs s) \<and> foreign u (tabs s) = F) (UnshareLink u i)"
  unfolding CreateSite_def CountSites_def UpdateSite_def DeleteSite_def CreateAntenna_def DeleteAntenna_def CreateLink_def
    UpdateLink_def DeleteLink_def ShareLink_def UnshareLink_def Let_def
  by (rule keeps_counted [where I = "\<lambda>d. store_ok sha d \<and> foreign (site_owner x) d = F"], simp add: foreign_sites insert_site_ok,
      (rule keeps_foreign_exec; auto simp: foreign_sites foreign_antennas foreign_links foreign_delete_antenna
        intro: update_site_ok delete_site_ok insert_antenna_ok delete_antenna_ok insert_link_ok update_link_ok links_delete_ok
          share_link_ok unshare_link_ok)+)

lemma coverage_foreign:
  "keeps (\<lambda>s. store_ok sha (tabs s) \<and> foreign (cv_owner c) (tabs s) = F) (CreateCoverage c)"
  "keeps (\<lambda>s. store_ok sha (tabs s) \<and> foreign (cv_owner c) (tabs s) = F) (UpdateCoverage c)"
  "keeps (\<lambda>s. store_ok sha (tabs s) \<and> foreign u (tabs s) = F) (DeleteCoverage u i)"
  "keeps (\<lambda>s. store_ok sha (tabs s) \<and> foreign u (tabs s) = F) (SetCoverageView u i p ov ci)"
  "keeps (\<lambda>s. store_ok sha (tabs s) \<and> foreign u (tabs s) = F) (SetCoverageLegend u i m co)"
  "keeps (\<lambda>s. store_ok sha (tabs s) \<and> foreign u (tabs s) = F) (ShareCoverage u i k e)"
  "keeps (\<lambda>s. store_ok sha (tabs s) \<and> foreign u (tabs s) = F) (UnshareCoverage u i)"
proof -
  show "keeps (\<lambda>s. store_ok sha (tabs s) \<and> foreign (cv_owner c) (tabs s) = F) (CreateCoverage c)"
    unfolding CreateCoverage_def
    by (rule keeps_counted [where I = "\<lambda>d. store_ok sha d \<and> foreign (cv_owner c) d = F"]) (simp add: foreign_coverages insert_coverage_ok)
  show "keeps (\<lambda>s. store_ok sha (tabs s) \<and> foreign (cv_owner c) (tabs s) = F) (UpdateCoverage c)"
    unfolding UpdateCoverage_def
    by (intro keeps_andthen keeps_foreign_exec) (simp_all add: foreign_coverages update_coverage_ok drop_idle_jobs_def jobs_delete_ok,
        simp add: foreign_def)
  show "keeps (\<lambda>s. store_ok sha (tabs s) \<and> foreign u (tabs s) = F) (DeleteCoverage u i)"
    "keeps (\<lambda>s. store_ok sha (tabs s) \<and> foreign u (tabs s) = F) (SetCoverageView u i p ov ci)"
    "keeps (\<lambda>s. store_ok sha (tabs s) \<and> foreign u (tabs s) = F) (SetCoverageLegend u i m co)"
    "keeps (\<lambda>s. store_ok sha (tabs s) \<and> foreign u (tabs s) = F) (ShareCoverage u i k e)"
    "keeps (\<lambda>s. store_ok sha (tabs s) \<and> foreign u (tabs s) = F) (UnshareCoverage u i)"
    unfolding DeleteCoverage_def SetCoverageView_def SetCoverageLegend_def ShareCoverage_def UnshareCoverage_def Let_def
    by (rule keeps_foreign_exec; auto simp: foreign_coverages intro: delete_coverage_ok set_legend_ok share_coverage_ok
        unshare_coverage_ok coverages_update_ok simp: coverage_check_def)+
qed

lemma foreign_keepsD:
  "store_ok sha (tabs s) \<Longrightarrow> (\<And>F. keeps (\<lambda>s. store_ok sha (tabs s) \<and> foreign owner (tabs s) = F) m)
    \<Longrightarrow> foreign owner (tabs ((snd \<circ> m) s)) = foreign owner (tabs s)"
  by (simp add: keeps_def)

section \<open>Properties\<close>

text \<open>C1: Whatever sequence of store operations runs from the empty database, at whatever times and with
  whatever statements refused or cut off, the constraints of the schema hold, links and coverages refer to sites and
  antennas of their owner only, and no user exceeds the quotas of active jobs, sites, coverages and API tokens. Hashing
  is collision-free and job kinds hold no line break.\<close>

theorem store_invariant:
  assumes "inj sha" "\<forall>x \<in> set cs. call_ok (snd (snd x))"
  shows "db_ok (run_calls sha cs empty_db)
     \<and> (\<forall>owner kind. active_jobs owner kind (jobs (run_calls sha cs empty_db)) \<le> job_limit kind)
     \<and> (\<forall>owner. count_sites owner (run_calls sha cs empty_db) \<le> MaxSitesPerUser
          \<and> count_coverages owner (run_calls sha cs empty_db) \<le> MaxCoveragesPerUser
          \<and> count_tokens owner (run_calls sha cs empty_db) \<le> MaxTokensPerUser)"
  using run_calls_keeps [OF assms store_ok_empty]
  by (simp add: store_ok_def queue_ok_def quota_ok_def limits_ok_def)

definition demo_site :: site where
  "demo_site = \<lparr>site_id = 0, site_owner = 1, site_name = ''Saentis'', site_lat = Fin 47, site_lon = Fin 9, site_height = Fin 10\<rparr>"

lemma store_invariant_witness:
  "db_ok (run_calls id [(5, [], OnAccount (CallCreateUser ''Ada'' ''pw'')), (6, [Up, Cut], OnPlace (CallCreateSite demo_site)),
      (7, [], OnQueue (CallEnqueueJob 1 None ''hf'' ''x''))] empty_db)
   \<and> active_jobs 1 ''hf'' (jobs (run_calls id [(5, [], OnAccount (CallCreateUser ''Ada'' ''pw'')), (6, [Up, Cut], OnPlace (CallCreateSite demo_site)),
      (7, [], OnQueue (CallEnqueueJob 1 None ''hf'' ''x''))] empty_db)) \<le> job_limit ''hf''"
  using store_invariant [of id "[(5, [], OnAccount (CallCreateUser ''Ada'' ''pw'')), (6, [Up, Cut], OnPlace (CallCreateSite demo_site)),
      (7, [], OnQueue (CallEnqueueJob 1 None ''hf'' ''x''))]"]
  by (simp add: inj_on_def)

text \<open>C2: Isolation of tenants: an operation on sites, antennas, links, coverages or shares issued for one owner
  leaves every site, antenna, link and coverage of every other owner exactly as it was, failures included.\<close>

theorem tenant_isolation:
  assumes "store_ok sha (tabs s)"
  shows "foreign (place_owner p) (tabs (run_place p s)) = foreign (place_owner p) (tabs s)
     \<and> foreign (coverage_owner c) (tabs (run_coverage c s)) = foreign (coverage_owner c) (tabs s)"
proof
  show "foreign (place_owner p) (tabs (run_place p s)) = foreign (place_owner p) (tabs s)"
    by (cases p; simp only: run_place.simps place_owner.simps; rule foreign_keepsD [OF assms]; rule place_foreign UpdateAntenna_foreign)
  show "foreign (coverage_owner c) (tabs (run_coverage c s)) = foreign (coverage_owner c) (tabs s)"
    by (cases c; simp only: run_coverage.simps coverage_owner.simps; rule foreign_keepsD [OF assms]; rule coverage_foreign)
qed

lemma tenant_isolation_witness:
  "foreign 1 (tabs (run_place (CallDeleteSite 1 3) \<lparr>tabs = empty_db, clock = 9, wire_script = [Cut]\<rparr>)) = foreign 1 empty_db"
  using tenant_isolation [of id "\<lparr>tabs = empty_db, clock = 9, wire_script = [Cut]\<rparr>" "CallDeleteSite 1 3" "CallDeleteCoverage 1 3"]
    store_ok_empty [of id] by simp

text \<open>Deleting a user never fails on the RESTRICT of a site: on a working connection the user's rows go from
  every table and every row of every other user stays.\<close>

theorem DeleteUser_complete:
  assumes ok: "db_ok (tabs s)" and up: "wire_script s = []" and u: "u \<in> set (users (tabs s))" "u_name u = lower name"
  shows "fst (DeleteUser name s) = Inr ()
     \<and> users (tabs (snd (DeleteUser name s))) = filter (\<lambda>x. u_id x \<noteq> u_id u) (users (tabs s))
     \<and> sessions (tabs (snd (DeleteUser name s))) = filter (\<lambda>x. ss_user x \<noteq> u_id u) (sessions (tabs s))
     \<and> api_tokens (tabs (snd (DeleteUser name s))) = filter (\<lambda>x. at_user x \<noteq> u_id u) (api_tokens (tabs s))
     \<and> sites (tabs (snd (DeleteUser name s))) = filter (\<lambda>x. site_owner x \<noteq> u_id u) (sites (tabs s))
     \<and> antennas (tabs (snd (DeleteUser name s))) = filter (\<lambda>x. ant_owner x \<noteq> u_id u) (antennas (tabs s))
     \<and> links (tabs (snd (DeleteUser name s))) = filter (\<lambda>x. ln_owner x \<noteq> u_id u) (links (tabs s))
     \<and> coverages (tabs (snd (DeleteUser name s))) = filter (\<lambda>x. cv_owner x \<noteq> u_id u) (coverages (tabs s))
     \<and> db_ok (tabs (snd (DeleteUser name s)))"
proof -
  have names: "distinct (map u_name (users (tabs s)))" by (rule users_okD(2) [OF db_ok_parts(2) [OF ok]])
  have ids: "u_id ` set (filter (user_named name) (users (tabs s))) = {u_id u}"
    using u key_unique [OF names] by (fastforce simp: user_named_def)
  have n: "0 < count_where (user_named name) (users (tabs s))"
    using u by (auto simp: count_where_pos list_ex_iff user_named_def)
  have run: "exec (\<lambda>now. delete_users (user_named name)) s
      = (Inr (count_where (user_named name) (users (tabs s))), s\<lparr>tabs := drop_users {u_id u} (tabs s)\<rparr>)"
    by (simp only: exec_ok [OF up] delete_users_def Let_def ids never_restricted [OF ok]) simp
  have gone: "DeleteUser name s = (Inr (), s\<lparr>tabs := drop_users {u_id u} (tabs s)\<rparr>)"
    using run n by (simp add: DeleteUser_def andthen_def)
  show ?thesis
    unfolding gone using drop_users_links [OF ok] drop_users_ok [OF ok]
    by (simp add: delete_where_def) (simp add: drop_users_def delete_where_def)
qed

definition ada :: user where
  "ada = \<lparr>u_id = 1, u_name = ''ada'', u_email = None, u_pending = None, u_verified_at = Some 5, u_password = ''pw'',
     u_created_at = 5, u_last_seen = None\<rparr>"

definition demo_db :: db where
  "demo_db = empty_db\<lparr>next_id := 3, users := [ada, ada\<lparr>u_id := 2, u_name := ''bob''\<rparr>],
     sessions := [\<lparr>ss_id = ''s1'', ss_user = 1, ss_created = 0, ss_expires = days 1\<rparr>],
     email_tokens := [\<lparr>et_id = ''t1'', et_user = 1, et_email = ''ada@x.ch'', et_purpose = TokenVerify, et_expires = 100\<rparr>]\<rparr>"

lemma demo_db_ok: "db_ok demo_db"
  by (simp add: db_ok_def demo_db_def empty_db_def ada_def table_ok_defs unique_some_def lower_def to_lower_def Let_def)

definition demo_store :: store where
  "demo_store = \<lparr>tabs = demo_db, clock = 50, wire_script = []\<rparr>"

lemma demo_store_simps [simp]: "tabs demo_store = demo_db" "clock demo_store = 50" "wire_script demo_store = []"
  by (simp_all add: demo_store_def)

lemma DeleteUser_complete_witness: "fst (DeleteUser ''Ada'' demo_store) = Inr ()"
proof -
  have "lower ''Ada'' = ''ada''" by code_simp
  then have "ada \<in> set (users demo_db)" "u_name ada = lower ''Ada''"
    by (simp_all add: demo_db_def ada_def)
  then show ?thesis using DeleteUser_complete [of demo_store ada "''Ada''"] demo_db_ok by simp
qed

text \<open>A session slides but never outlives its maximal age: SessionUser answers only for a live session, with
  that session's user, and leaves the session's expiry within the hour before its target, the earlier of now plus idle
  and creation plus the maximal age.\<close>

theorem session_slides:
  assumes ok: "db_ok (tabs s)" and run: "SessionUser ident idle age s = (Inr v, t)"
  shows "\<exists>x \<in> set (sessions (tabs s)). \<exists>y \<in> set (sessions (tabs t)).
     ss_id x = ident \<and> clock s < ss_expires x \<and> uv_id v = ss_user x
     \<and> y = x\<lparr>ss_expires := ss_expires y\<rparr> \<and> ss_expires y \<le> ss_created x + age \<and> ss_expires y \<le> clock s + idle
     \<and> min (clock s + idle) (ss_created x + age) - hours 1 \<le> ss_expires y"
proof -
  let ?now = "clock s" and ?d = "tabs s"
  let ?target = "session_target idle age ?now"
  let ?touch = "\<lambda>s. live_session ident ?now s \<and> \<not> (?target s - hours 1 \<le> ss_expires s \<and> ss_expires s \<le> ?target s)"
  from exec_InrD [OF run [unfolded SessionUser_def]]
  have q: "fst (session_user ident idle age ?now ?d) = Inr v" "tabs t = snd (session_user ident idle age ?now ?d)" by simp_all
  then obtain x where f: "find (live_session ident ?now) (sessions ?d) = Some x"
    by (cases "find (live_session ident ?now) (sessions ?d)") (auto simp: session_user_def Let_def)
  then have x: "x \<in> set (sessions ?d)" "live_session ident ?now x" using find_SomeD by fastforce+
  from q f have v: "uv_id v = ss_user x"
    by (auto simp: session_user_def Let_def some_row_Inr find_user_def scanUser_def dest!: find_SomeD)
  from q f have ss: "sessions (tabs t) = update_where ?touch (\<lambda>s. s\<lparr>ss_expires := ?target s\<rparr>) (sessions ?d)"
    by (simp add: session_user_def Let_def)
  define y where "y = (if ?touch x then x\<lparr>ss_expires := ?target x\<rparr> else x)"
  have "y \<in> set (sessions (tabs t))" unfolding ss set_update_where y_def using x(1) by blast
  moreover have "ss_id x = ident" "?now < ss_expires x" using x(2) by (simp_all add: live_session_def)
  moreover have "y = x\<lparr>ss_expires := ss_expires y\<rparr>" by (simp add: y_def)
  moreover have "?target x - hours 1 \<le> ss_expires y \<and> ss_expires y \<le> ?target x" using x(2) by (auto simp: y_def)
  ultimately show ?thesis using x(1) v unfolding session_target_def by fastforce
qed

lemma session_slides_witness: "\<exists>y \<in> set (sessions (tabs (snd (SessionUser ''s1'' (days 7) (days 30) demo_store)))). days 7 - hours 1 \<le> ss_expires y"
proof -
  have "SessionUser ''s1'' (days 7) (days 30) demo_store
     = (Inr (scanUser ada), snd (SessionUser ''s1'' (days 7) (days 30) demo_store))"
    by (simp add: SessionUser_def exec_ok session_user_def Let_def live_session_def session_target_def find_user_def demo_db_def
        empty_db_def ada_def)
  from session_slides [OF _ this] demo_db_ok obtain x y where "x \<in> set (sessions demo_db)"
    and y: "y \<in> set (sessions (tabs (snd (SessionUser ''s1'' (days 7) (days 30) demo_store))))"
      "min (50 + days 7) (ss_created x + days 30) - hours 1 \<le> ss_expires y"
    by auto
  then have "days 7 - hours 1 \<le> ss_expires y" by (simp add: demo_db_def)
  with y(1) show ?thesis by blast
qed

text \<open>An email token works once and only for its purpose: after it was consumed, no purpose finds it again.\<close>

theorem email_token_once:
  assumes ok: "db_ok (tabs s)" and run: "ConsumeEmailToken ident pu s = (Inr r, t)" and later: "tabs u = tabs t" "wire_script u = []"
  shows "(\<exists>x \<in> set (email_tokens (tabs s)). et_id x = ident \<and> et_purpose x = pu \<and> clock s < et_expires x \<and> et_email x = snd r)
    \<and> fst (ConsumeEmailToken ident pu' u) = Inl ErrNotFound"
proof -
  from exec_InrD [OF run [unfolded ConsumeEmailToken_def]]
  have q: "fst (consume_email_token ident pu (clock s) (tabs s)) = Inr r" "tabs t = snd (consume_email_token ident pu (clock s) (tabs s))" by simp_all
  then obtain x where f: "find (live_email_token ident pu (clock s)) (email_tokens (tabs s)) = Some x"
    by (cases "find (live_email_token ident pu (clock s)) (email_tokens (tabs s))") (auto simp: consume_email_token_def)
  then have x: "x \<in> set (email_tokens (tabs s))" "live_email_token ident pu (clock s) x" using find_SomeD by fastforce+
  have r: "et_email x = snd r" using q f by (auto simp: consume_email_token_def some_row_Inr)
  have toks: "email_tokens (tabs t) = delete_where (live_email_token ident pu (clock s)) (email_tokens (tabs s))"
    using q f by (simp add: consume_email_token_def)
  have dist: "distinct (map et_id (email_tokens (tabs s)))" using db_ok_parts(4) [OF ok] by (simp add: email_tokens_ok_def)
  have "et_id y \<noteq> ident" if "y \<in> set (email_tokens (tabs t))" for y
    using that toks x key_unique [OF dist _ x(1)] by (auto simp: live_email_token_def)
  then have "find (live_email_token ident pu' (clock u)) (email_tokens (tabs t)) = None"
    by (auto simp: find_None_iff live_email_token_def)
  then have "fst (ConsumeEmailToken ident pu' u) = Inl ErrNotFound"
    by (simp add: ConsumeEmailToken_def exec_ok [OF later(2)] consume_email_token_def later(1))
  with x r show ?thesis by (auto simp: live_email_token_def)
qed

lemma email_token_once_witness:
  "fst (ConsumeEmailToken ''t1'' TokenReset (snd (ConsumeEmailToken ''t1'' TokenVerify demo_store))) = Inl ErrNotFound"
proof -
  have "ConsumeEmailToken ''t1'' TokenVerify demo_store
     = (Inr (scanUser ada, ''ada@x.ch''), snd (ConsumeEmailToken ''t1'' TokenVerify demo_store))"
    "wire_script (snd (ConsumeEmailToken ''t1'' TokenVerify demo_store)) = []"
    by (simp_all add: ConsumeEmailToken_def exec_ok consume_email_token_def live_email_token_def find_user_def demo_db_def
        empty_db_def ada_def)
  from email_token_once [OF _ this(1) refl this(2), of TokenReset] demo_db_ok show ?thesis by simp
qed

end
