(* ===== verification/Job_Claims.thy ===== *)
theory Job_Claims
  imports Store_Claims
begin

text \<open>
  The properties of single operations on the queue and of the all-or-nothing updates: which job
  a claim takes, that a repeated request finds the job of the first, what two interleaved
  requests can do to the quota, what a failed update leaves, and the life of a share.
\<close>

section \<open>The queue\<close>

text \<open>On a working connection a claim reports ErrNotFound exactly when no job of the class is claimable (queued,
  or running since before the stale limit); otherwise it takes a claimable job queued first, marks that one running for
  the worker with one more attempt and leaves every other job alone.\<close>

theorem ClaimJob_oldest:
  assumes ok: "db_ok (tabs s)" and up: "wire_script s = []"
  shows "(fst (ClaimJob w cov stale s) = Inl ErrNotFound \<longleftrightarrow> (\<forall>k \<in> set (jobs (tabs s)). \<not> claimable cov stale (clock s) k))
    \<and> (\<forall>j. fst (ClaimJob w cov stale s) = Inr j \<longrightarrow>
         (\<exists>k \<in> set (jobs (tabs s)). claimable cov stale (clock s) k \<and> j = start_job w (clock s) k
            \<and> (\<forall>m \<in> set (jobs (tabs s)). claimable cov stale (clock s) m \<longrightarrow> j_queued_at k \<le> j_queued_at m)
            \<and> set (jobs (tabs (snd (ClaimJob w cov stale s)))) = insert j (set (jobs (tabs s)) - {k})))"
proof (cases "oldest (claimable cov stale (clock s)) j_queued_at (jobs (tabs s))")
  case None
  moreover have "\<forall>k \<in> set (jobs (tabs s)). \<not> claimable cov stale (clock s) k" using None by (simp only: oldest_None)
  ultimately show ?thesis by (simp add: ClaimJob_def exec_ok [OF up] claim_job_def)
next
  case (Some k)
  note old = oldest_Some [OF Some]
  have dist: "distinct (map j_id (jobs (tabs s)))" using db_ok_parts(10) [OF ok] by (simp add: jobs_ok_def)
  have "set (update_where (\<lambda>x. j_id x = j_id k) (start_job w (clock s)) (jobs (tabs s)))
      = insert (start_job w (clock s) k) (set (jobs (tabs s)) - {k})"
  proof -
    have "update_where (\<lambda>x. j_id x = j_id k) (start_job w (clock s)) (jobs (tabs s))
        = map (\<lambda>x. if x = k then start_job w (clock s) k else x) (jobs (tabs s))"
      using old key_unique [OF dist] by (auto simp: update_where_def)
    then show ?thesis using old by auto
  qed
  with Some old show ?thesis by (auto simp: ClaimJob_def exec_ok [OF up] claim_job_def)
qed

definition demo_job :: job where
  "demo_job = new_job 2 1 None ''hf'' ''x'' (jobHash id ''hf'' ''x'') 10"

definition queue_db :: db where
  "queue_db = empty_db\<lparr>next_id := 3, users := [ada], jobs := [demo_job]\<rparr>"

lemma queue_db_ok: "store_ok id queue_db"
proof -
  have "db_ok queue_db"
    by (simp add: db_ok_def queue_db_def empty_db_def ada_def demo_job_def new_job_def table_ok_defs unique_some_def
        lower_def to_lower_def Let_def)
  then show ?thesis
    by (simp add: store_ok_def queue_ok_def limits_ok_def hashed_ok_def quota_ok_def active_jobs_def count_sites_def
        count_coverages_def count_tokens_def queue_db_def empty_db_def demo_job_def new_job_def job_limit_def
        job_limits same_class_def)
qed

definition queue_store :: store where
  "queue_store = \<lparr>tabs = queue_db, clock = 50, wire_script = []\<rparr>"

lemma queue_store_simps [simp]: "tabs queue_store = queue_db" "clock queue_store = 50" "wire_script queue_store = []"
  by (simp_all add: queue_store_def)

lemma ClaimJob_oldest_witness: "fst (ClaimJob ''w'' False (minutes 5) queue_store) \<noteq> Inl ErrNotFound"
proof -
  have "\<exists>k \<in> set (jobs queue_db). claimable False (minutes 5) 50 k"
    by (simp add: queue_db_def demo_job_def new_job_def claimable_def KindCoverage_def)
  then show ?thesis
    using ClaimJob_oldest [of queue_store "''w''" False "minutes 5"] queue_db_ok by (auto dest: store_okD)
qed

lemma find_update_same:
  "(\<And>x. p (f x) = p x) \<Longrightarrow> find p (update_where q f rows) = map_option (\<lambda>r. if q r then f r else r) (find p rows)"
  by (induction rows) auto

lemma enqueue_finds:
  assumes "EnqueueJob sha u cov k b s = (Inr j, t)" and up: "wire_script s = []"
  shows "find (\<lambda>x. j_owner x = u \<and> j_hash x = jobHash sha k b) (jobs (tabs t)) = Some j" "wire_script t = []" "clock t = clock s"
proof -
  let ?h = "jobHash sha k b"
  let ?p = "\<lambda>x. j_owner x = u \<and> j_hash x = ?h"
  let ?old = "find ?p (jobs (tabs s))"
  have look: "exec (existing_job u ?h) z = (some_row (find ?p (jobs (tabs z))), z)" if "wire_script z = []" for z
    by (simp add: exec_ok that existing_job_def reading_def)
  have "find ?p (jobs (tabs t)) = Some j \<and> wire_script t = [] \<and> clock t = clock s"
  proof (cases "\<exists>j'. ?old = Some j' \<and> j_state j' \<noteq> JobFailed")
    case True
    with assms show ?thesis by (auto simp: EnqueueJob_def Let_def attempt_def look)
  next
    case False
    then have "EnqueueJob sha u cov k b s = enqueue_new u cov k b ?h s"
      using up by (cases ?old) (auto simp: EnqueueJob_def Let_def attempt_def look)
    with assms have run: "enqueue_new u cov k b ?h s = (Inr j, t)" by simp
    then have "\<not> job_limit k \<le> active_jobs u k (jobs (tabs s))" "\<not> MaxQueuedJobs \<le> queued_jobs (jobs (tabs s))"
      using up by (auto simp: enqueue_new_def andthen_def exec_ok count_jobs_def reading_def split: if_splits)
    with run have ins: "attempt (exec (insert_job u cov k b ?h)) (\<lambda>r. case r of
           Inr j \<Rightarrow> andthen (exec (notify_queued k)) (\<lambda>_. ret j)
         | Inl e \<Rightarrow> (if e = ErrNotFound then exec (existing_job u ?h) else raise e)) s = (Inr j, t)"
      using up by (simp add: enqueue_new_def andthen_def exec_ok count_jobs_def reading_def)
    show ?thesis
    proof (cases ?old)
      case None
      with ins up show ?thesis
        by (auto simp: attempt_def andthen_def exec_ok insert_job_def Let_def notify_queued_def find_append new_job_def split: if_splits)
    next
      case (Some j')
      with False have failed: "j_state j' = JobFailed" by simp
      have "find ?p (update_where (\<lambda>x. j_id x = j_id j') (reset_job (clock s)) (jobs (tabs s))) = Some (reset_job (clock s) j')"
        using Some by (subst find_update_same) (simp_all add: reset_job_def)
      with ins up Some failed show ?thesis
        by (auto simp: attempt_def andthen_def exec_ok insert_job_def notify_queued_def)
    qed
  qed
  then show "find ?p (jobs (tabs t)) = Some j" "wire_script t = []" "clock t = clock s" by simp_all
qed

text \<open>Requests are idempotent: a job EnqueueJob returned that has not failed is returned again by the same request,
  which then changes nothing; no second job of the same owner, kind and input exists.\<close>

theorem EnqueueJob_idempotent:
  assumes ok: "db_ok (tabs t)" and run: "EnqueueJob sha u cov k b s = (Inr j, t)" and up: "wire_script s = []"
    and alive: "j_state j \<noteq> JobFailed"
  shows "EnqueueJob sha u cov k b t = (Inr j, t)
    \<and> filter (\<lambda>x. j_owner x = u \<and> j_hash x = jobHash sha k b) (jobs (tabs t)) = [j]"
proof
  let ?p = "\<lambda>x. j_owner x = u \<and> j_hash x = jobHash sha k b"
  note found = enqueue_finds [OF run up]
  show "EnqueueJob sha u cov k b t = (Inr j, t)"
    using found alive by (simp add: EnqueueJob_def Let_def attempt_def exec_ok existing_job_def reading_def)
  have dist: "distinct (map (\<lambda>x. (j_owner x, j_hash x)) (jobs (tabs t)))" using db_ok_parts(10) [OF ok] by (simp add: jobs_ok_def)
  have one: "length (filter (\<lambda>x. key x = a) rows) \<le> 1" if "distinct (map key rows)" for key :: "job \<Rightarrow> int \<times> string" and a rows
    using that
  proof (induction rows)
    case (Cons r rows)
    have "key x \<noteq> key r" if "x \<in> set rows" for x
      using Cons.prems imageI [OF that, of key] by auto
    then have "filter (\<lambda>x. key x = key r) rows = []" by (simp add: filter_empty_conv)
    with Cons show ?case by (cases "key r = a") auto
  qed simp
  have "j \<in> set (filter ?p (jobs (tabs t)))" using found(1) find_SomeD by fastforce
  moreover have "length (filter ?p (jobs (tabs t))) \<le> 1"
    using one [OF dist, of "(u, jobHash sha k b)"] by simp
  ultimately show "filter ?p (jobs (tabs t)) = [j]"
    by (cases "filter ?p (jobs (tabs t))") auto
qed

lemma EnqueueJob_idempotent_witness:
  "EnqueueJob id 1 None ''hf'' ''x'' queue_store = (Inr demo_job, queue_store)"
proof -
  have "EnqueueJob id 1 None ''hf'' ''x'' queue_store = (Inr demo_job, queue_store)"
    by (simp add: EnqueueJob_def Let_def attempt_def exec_ok existing_job_def reading_def queue_db_def demo_job_def new_job_def)
  from EnqueueJob_idempotent [OF _ this] queue_db_ok show ?thesis
    by (auto simp: demo_job_def new_job_def dest: store_okD)
qed

definition count_then_insert_twice :: "string \<Rightarrow> bytes \<Rightarrow> bytes \<Rightarrow> db \<Rightarrow> db" where
  "count_then_insert_twice kind b b' d =
     (let (r, d1) = count_jobs 1 kind 10 d;
          (r', d2) = count_jobs 1 kind 10 d1;
          room = (\<lambda>x. case x of Inr (active, queued) \<Rightarrow> active < job_limit kind \<and> queued < MaxQueuedJobs | Inl _ \<Rightarrow> False);
          d3 = (if room r then snd (insert_job 1 None kind b (jobHash id kind b) 10 d2) else d2)
      in if room r' then snd (insert_job 1 None kind b' (jobHash id kind b') 10 d3) else d3)"

definition one_active_db :: db where
  "one_active_db = empty_db\<lparr>next_id := 3, users := [ada], jobs := [new_job 2 1 None KindCoverage ''a'' (jobHash id KindCoverage ''a'') 5]\<rparr>"

text \<open>The quota holds for operations that run one after the other only: the count and the insert are separate
  statements, and two requests of one user that both count before either inserts leave one job more than the limit.\<close>

theorem quota_race:
  "active_jobs 1 KindCoverage (jobs one_active_db) < job_limit KindCoverage
    \<and> job_limit KindCoverage < active_jobs 1 KindCoverage (jobs (count_then_insert_twice KindCoverage ''b'' ''c'' one_active_db))"
  by (simp add: count_then_insert_twice_def one_active_db_def empty_db_def count_jobs_def reading_def insert_job_def Let_def
      active_jobs_def queued_jobs_def active_state_def same_class_def new_job_def job_limit_def job_limits KindCoverage_def jobHash_def ada_def)

section \<open>All or nothing\<close>

definition gain_everywhere :: "antenna \<Rightarrow> db \<Rightarrow> bool" where
  "gain_everywhere t d \<longleftrightarrow> (\<exists>r \<in> set (antennas d). ant_owner r = ant_owner t \<and> ant_id r = ant_id t \<and> ant_gain r = ant_gain t)
     \<and> (\<forall>l \<in> set (links d). (ln_tx_ant l = Some (ant_id t) \<longrightarrow> ln_tx_gain l = ant_gain t)
          \<and> (ln_rx_ant l = Some (ant_id t) \<longrightarrow> ln_rx_gain l = ant_gain t))
     \<and> (\<forall>c \<in> set (coverages d). cv_tx_ant c = Some (ant_id t) \<longrightarrow> cp_tx_gain (cv_params c) = ant_gain t)"

lemma transaction_all_or_nothing:
  assumes "transaction m s = (r, t)" and good: "\<And>x u. m s = (Inr x, u) \<Longrightarrow> P (tabs u)"
  shows "tabs t = tabs s \<or> P (tabs t)" "r = Inr x \<Longrightarrow> P (tabs t)" "r = Inl e \<Longrightarrow> e \<noteq> ErrDb \<Longrightarrow> tabs t = tabs s"
  using assms by (auto simp: transaction_def split: prod.splits sum.splits list.splits wire.splits)

lemma copies_reach_all:
  assumes run: "andthen (exec (update_antenna t)) (\<lambda>_.
     andthen (exec (copy_gain_tx t)) (\<lambda>_. andthen (exec (copy_gain_rx t)) (\<lambda>_. exec (copy_gain_coverages t)))) s = (Inr x, u)"
  shows "gain_everywhere t (tabs u)"
proof -
  from run obtain s1 s2 s3 y1 y2 y3 where st: "exec (update_antenna t) s = (Inr y1, s1)" "exec (copy_gain_tx t) s1 = (Inr y2, s2)"
    "exec (copy_gain_rx t) s2 = (Inr y3, s3)" "exec (copy_gain_coverages t) s3 = (Inr x, u)"
    by (auto simp: andthen_def split: prod.splits sum.splits)
  have a: "update_antenna t (clock s) (tabs s) = (Inr y1, tabs s1)" using exec_Inr [OF st(1)] by simp
  have b: "tabs s2 = snd (copy_gain_tx t (clock s1) (tabs s1))" "tabs s3 = snd (copy_gain_rx t (clock s2) (tabs s2))"
    "tabs u = snd (copy_gain_coverages t (clock s3) (tabs s3))"
    using exec_InrD(2) [OF st(2)] exec_InrD(2) [OF st(3)] exec_InrD(2) [OF st(4)] by simp_all
  let ?p = "is_antenna (ant_owner t) (ant_id t)"
  from a have s1: "tabs s1 = (tabs s)\<lparr>antennas := update_where ?p (rewrite_antenna t) (antennas (tabs s))\<rparr>" and ex: "list_ex ?p (antennas (tabs s))"
    by (auto simp: update_antenna_def Let_def affected_Inr count_where_pos split: if_splits)
  have ants: "antennas (tabs s1) = update_where ?p (rewrite_antenna t) (antennas (tabs s))" by (simp add: s1)
  from ex obtain r where r: "r \<in> set (antennas (tabs s))" "?p r" by (auto simp: list_ex_iff)
  then have "rewrite_antenna t r \<in> set (antennas (tabs u))"
    unfolding b by (auto simp: copy_gain_tx_def copy_gain_rx_def copy_gain_coverages_def ants set_update_where)
  moreover have "ant_owner (rewrite_antenna t r) = ant_owner t" "ant_id (rewrite_antenna t r) = ant_id t" "ant_gain (rewrite_antenna t r) = ant_gain t"
    using r(2) by (simp_all add: is_antenna_def rewrite_antenna_def)
  moreover have "\<forall>l \<in> set (links (tabs u)). (ln_tx_ant l = Some (ant_id t) \<longrightarrow> ln_tx_gain l = ant_gain t)
          \<and> (ln_rx_ant l = Some (ant_id t) \<longrightarrow> ln_rx_gain l = ant_gain t)"
    unfolding b by (auto simp: copy_gain_tx_def copy_gain_rx_def copy_gain_coverages_def elim!: in_update_whereE)
  moreover have "\<forall>c \<in> set (coverages (tabs u)). cv_tx_ant c = Some (ant_id t) \<longrightarrow> cp_tx_gain (cv_params c) = ant_gain t"
    unfolding b by (auto simp: copy_gain_tx_def copy_gain_rx_def copy_gain_coverages_def elim!: in_update_whereE)
  ultimately show ?thesis unfolding gain_everywhere_def by blast
qed

text \<open>UpdateAntenna is all or nothing under every failure: afterwards either the tables are as before, or the
  antenna has its new gain and so have all links and coverages that use it; a success is the second case and an error
  other than a lost connection the first.\<close>

theorem UpdateAntenna_atomic:
  assumes "UpdateAntenna a s = (r, t)"
  shows "(tabs t = tabs s \<or> gain_everywhere a (tabs t)) \<and> (r = Inr () \<longrightarrow> gain_everywhere a (tabs t))
    \<and> (\<forall>e. r = Inl e \<and> e \<noteq> ErrDb \<longrightarrow> tabs t = tabs s)"
proof -
  let ?body = "andthen (exec (update_antenna a)) (\<lambda>_. andthen (exec (copy_gain_tx a)) (\<lambda>_.
     andthen (exec (copy_gain_rx a)) (\<lambda>_. exec (copy_gain_coverages a))))"
  have good: "gain_everywhere a (tabs u)" if "?body s = (Inr x, u)" for x u using that by (rule copies_reach_all)
  note tx = transaction_all_or_nothing [where P = "gain_everywhere a", OF assms [unfolded UpdateAntenna_def]]
  have "tabs t = tabs s \<or> gain_everywhere a (tabs t)" by (rule tx(1)) (rule good)
  moreover have "gain_everywhere a (tabs t)" if "r = Inr ()" by (rule tx(2) [OF _ that]) (rule good)
  moreover have "tabs t = tabs s" if "r = Inl e" "e \<noteq> ErrDb" for e by (rule tx(3) [OF _ that]) (rule good)
  ultimately show ?thesis by blast
qed

definition demo_antenna :: antenna where
  "demo_antenna = \<lparr>ant_id = 7, ant_owner = 1, ant_name = ''a'', ant_gain = Fin 3, ant_freq = None, ant_h = [], ant_v = None, ant_source = None\<rparr>"

definition antenna_store :: store where
  "antenna_store = \<lparr>tabs = empty_db\<lparr>next_id := 8, users := [ada], antennas := [demo_antenna]\<rparr>, clock = 50, wire_script = []\<rparr>"

lemma UpdateAntenna_atomic_witness:
  "\<exists>t. UpdateAntenna (demo_antenna\<lparr>ant_gain := Fin 5\<rparr>) antenna_store = (Inr (), t) \<and> gain_everywhere (demo_antenna\<lparr>ant_gain := Fin 5\<rparr>) (tabs t)"
proof -
  have "\<exists>t. UpdateAntenna (demo_antenna\<lparr>ant_gain := Fin 5\<rparr>) antenna_store = (Inr (), t)"
    by (simp add: UpdateAntenna_def transaction_def andthen_def exec_ok antenna_store_def empty_db_def update_antenna_def demo_antenna_def
        affected_def antenna_check_def is_antenna_def count_where_def copy_gain_tx_def copy_gain_rx_def copy_gain_coverages_def)
  then show ?thesis using UpdateAntenna_atomic by blast
qed

definition result_stored :: "int \<Rightarrow> int \<Rightarrow> bytes \<Rightarrow> bytes \<Rightarrow> bounds \<Rightarrow> string \<Rightarrow> db \<Rightarrow> bool" where
  "result_stored jid ident png m b nt d \<longleftrightarrow>
     (\<exists>c \<in> set (coverages d). cv_id c = ident \<and> cv_png c = Some png \<and> cv_margin c = Some m \<and> cv_bounds c = Some b
        \<and> text_or_empty (cv_note c) = nt \<and> cv_computed_at c \<noteq> None)
     \<and> (\<forall>j \<in> set (jobs d). j_id j = jid \<longrightarrow> j_state j = JobDone \<and> j_error j = None)"

text \<open>FinishCoverageJob is all or nothing under every failure: afterwards the tables are as before, or the coverage
  shows image, margin raster, bounds and note of this result and the job is done; a deleted coverage leaves the tables
  as they were and is reported as ErrNotFound.\<close>

theorem FinishCoverageJob_atomic:
  assumes "FinishCoverageJob jid ident png m b ms nt s = (r, t)"
  shows "(tabs t = tabs s \<or> result_stored jid ident png m b nt (tabs t))
    \<and> (r = Inr () \<longrightarrow> result_stored jid ident png m b nt (tabs t))
    \<and> (\<forall>e. r = Inl e \<and> e \<noteq> ErrDb \<longrightarrow> tabs t = tabs s \<and> e = ErrNotFound \<and> (\<forall>c \<in> set (coverages (tabs s)). cv_id c \<noteq> ident))"
proof -
  let ?upd = "\<lambda>now d. (affected (count_where (\<lambda>c. cv_id c = ident) (coverages d)),
         d\<lparr>coverages := update_where (\<lambda>c. cv_id c = ident) (store_result png m b ms nt now) (coverages d)\<rparr>)"
  let ?fin = "\<lambda>now d. (Inr (), settle_job jid (done_job None ms now) d)"
  let ?body = "andthen (exec ?upd) (\<lambda>_. exec ?fin)"
  have good: "result_stored jid ident png m b nt (tabs u)" if "?body s = (Inr x, u)" for x u
  proof -
    from that obtain y s1 where st: "exec ?upd s = (Inr y, s1)" "exec ?fin s1 = (Inr x, u)"
      by (auto simp: andthen_def split: prod.splits sum.splits)
    have s1: "tabs s1 = snd (?upd (clock s) (tabs s))" "fst (?upd (clock s) (tabs s)) = Inr y" "tabs u = settle_job jid (done_job None ms (clock s1)) (tabs s1)"
      using exec_InrD [OF st(1)] exec_InrD(2) [OF st(2)] by simp_all
    then obtain c where c: "c \<in> set (coverages (tabs s))" "cv_id c = ident"
      by (auto simp: affected_Inr count_where_pos list_ex_iff)
    have "store_result png m b ms nt (clock s) c \<in> set (coverages (tabs u))"
      using c by (auto simp: s1 settle_job_def set_update_where)
    moreover have "\<forall>j \<in> set (jobs (tabs u)). j_id j = jid \<longrightarrow> j_state j = JobDone \<and> j_error j = None"
    proof -
      have "jobs (tabs u) = update_where (\<lambda>j. j_id j = jid) (done_job None ms (clock s1)) (jobs (tabs s1))"
        by (simp add: s1(3) settle_job_def)
      moreover have settled: "j_state (done_job None ms now k) = JobDone" "j_error (done_job None ms now k) = None" for now k
        by (simp_all add: done_job_def)
      have "j_id x = jid \<longrightarrow> j_state x = JobDone \<and> j_error x = None"
        if "x \<in> set (update_where (\<lambda>j. j_id j = jid) (done_job None ms now) js)" for x now js
        using that by (rule in_update_whereE) (simp_all add: settled)
      ultimately show ?thesis by simp
    qed
    ultimately show ?thesis
      unfolding result_stored_def using c(2)
      by (intro conjI bexI [where x = "store_result png m b ms nt (clock s) c"]) (simp_all add: store_result_def text_or_empty_def)
  qed
  note tx = transaction_all_or_nothing [where P = "result_stored jid ident png m b nt", OF assms [unfolded FinishCoverageJob_def]]
  have "tabs t = tabs s \<or> result_stored jid ident png m b nt (tabs t)" by (rule tx(1)) (rule good)
  moreover have "result_stored jid ident png m b nt (tabs t)" if "r = Inr ()" by (rule tx(2) [OF _ that]) (rule good)
  moreover have "tabs t = tabs s" if "r = Inl e" "e \<noteq> ErrDb" for e by (rule tx(3) [OF _ that]) (rule good)
  moreover have "e = ErrNotFound \<and> (\<forall>c \<in> set (coverages (tabs s)). cv_id c \<noteq> ident)" if "r = Inl e" "e \<noteq> ErrDb" for e
  proof -
    have "\<exists>u. ?body s = (Inl e, u)"
      using assms that unfolding FinishCoverageJob_def transaction_def by (auto split: prod.splits sum.splits list.splits wire.splits)
    then obtain u where "exec ?upd s = (Inl e, u) \<or> (\<exists>y s1. exec ?upd s = (Inr y, s1) \<and> exec ?fin s1 = (Inl e, u))"
      by (auto simp: andthen_def split: prod.splits sum.splits)
    then have "fst (?upd (clock s) (tabs s)) = Inl e"
      using exec_InlD(1) [of ?upd s e] exec_InlD(1) [of ?fin _ e] that(2) by auto
    then show ?thesis
      using count_where_pos [of "\<lambda>c. cv_id c = ident" "coverages (tabs s)"] by (auto simp: affected_def list_ex_iff split: if_splits)
  qed
  ultimately show ?thesis by blast
qed

definition demo_params :: cov_params where
  "demo_params = \<lparr>cp_freq = Fin 145, cp_tx_power = Fin 40, cp_tx_gain = Fin 0, cp_tx_loss = Fin 0, cp_rx_height = Fin 2, cp_rx_gain = Fin 0,
     cp_rx_loss = Fin 0, cp_sensitivity = Fin (- 110), cp_polarization = 1, cp_range = Fin 5000, cp_resolution = Fin 250\<rparr>"

definition demo_coverage :: coverage where
  "demo_coverage = \<lparr>cv_id = 3, cv_owner = 1, cv_name = ''c'', cv_site = 2, cv_params = demo_params, cv_tx_ant = None, cv_tx_azimuth = Fin 0,
     cv_tx_tilt = Fin 0, cv_legend_db = [], cv_legend_colors = [], cv_png = None, cv_margin = None, cv_bounds = None, cv_computed_at = None,
     cv_ms = None, cv_note = None, cv_share = None, cv_share_expires = None, cv_opacity = None, cv_overlays = None, cv_circles = None\<rparr>"

definition coverage_store :: store where
  "coverage_store = \<lparr>tabs = empty_db\<lparr>next_id := 5, users := [ada], coverages := [demo_coverage],
     jobs := [start_job ''w'' 20 (new_job 4 1 (Some 3) KindCoverage ''x'' ''h'' 10)]\<rparr>, clock = 50, wire_script = []\<rparr>"

lemma FinishCoverageJob_atomic_witness:
  "\<exists>t. FinishCoverageJob 4 3 ''p'' ''m'' \<lparr>b_north = Fin 48, b_south = Fin 47, b_east = Fin 9, b_west = Fin 8\<rparr> 5 ''n'' coverage_store = (Inr (), t)
     \<and> result_stored 4 3 ''p'' ''m'' \<lparr>b_north = Fin 48, b_south = Fin 47, b_east = Fin 9, b_west = Fin 8\<rparr> ''n'' (tabs t)"
proof -
  have "\<exists>t. FinishCoverageJob 4 3 ''p'' ''m'' \<lparr>b_north = Fin 48, b_south = Fin 47, b_east = Fin 9, b_west = Fin 8\<rparr> 5 ''n'' coverage_store = (Inr (), t)"
    by (simp add: FinishCoverageJob_def transaction_def andthen_def exec_ok coverage_store_def affected_def count_where_def demo_coverage_def)
  then show ?thesis using FinishCoverageJob_atomic by blast
qed

lemma find_unique_share:
  assumes "unique_some (map ln_share ls)" "l \<in> set ls" "ln_share l = Some tok" "ln_share_expires l = Some e"
  shows "find (\<lambda>x. live_share tok now (ln_share x) (ln_share_expires x)) ls = (if now < e then Some l else None)"
proof -
  have only: "x = l" if "x \<in> set ls" "live_share tok now (ln_share x) (ln_share_expires x)" for x
    using that unique_some_find [OF assms(1) that(1) _ assms(2,3)] by (simp add: live_share_def)
  have live: "live_share tok now (ln_share l) (ln_share_expires l) \<longleftrightarrow> now < e" using assms(3,4) by (simp add: live_share_def)
  show ?thesis
  proof (cases "find (\<lambda>x. live_share tok now (ln_share x) (ln_share_expires x)) ls")
    case None
    then show ?thesis using live assms(2) by (auto simp: find_None_iff)
  next
    case (Some x)
    then show ?thesis using only live find_SomeD [OF Some] by auto
  qed
qed

text \<open>The life of a share: once a link is shared there is one token under which exactly this link is served until
  the expiry and nothing after it; sharing again keeps that token, and unsharing withdraws it at once.\<close>

theorem share_life:
  assumes ok: "store_ok sha (tabs s)" and up: "wire_script s = []" and run: "ShareLink owner ident token e s = (Inr (), t)"
  shows "\<exists>tok l. l \<in> set (links (tabs t)) \<and> is_link owner ident l \<and> ln_share l = Some tok
    \<and> (\<forall>now. fst (GetSharedLink tok (t\<lparr>clock := now\<rparr>)) = (if now < e then some_row (link_view_of (tabs t) l) else Inl ErrNotFound))
    \<and> (\<forall>token' e' now. \<exists>v. ShareLink owner ident token' e' (t\<lparr>clock := now\<rparr>) = (Inr (), v) \<and> (\<exists>l' \<in> set (links (tabs v)). is_link owner ident l' \<and> ln_share l' = Some tok))
    \<and> (\<forall>now. fst (GetSharedLink tok ((snd (UnshareLink owner ident t))\<lparr>clock := now\<rparr>)) = Inl ErrNotFound)"
proof -
  let ?p = "is_link owner ident"
  let ?f = "\<lambda>tok e l. l\<lparr>ln_share := keep_or tok (ln_share l), ln_share_expires := Some e\<rparr>"
  let ?ls = "update_where ?p (?f token e) (links (tabs s))"
  from run have q: "share_link owner ident token e (clock s) (tabs s) = (Inr (), tabs t)" and t: "wire_script t = []"
    using up by (auto simp: ShareLink_def exec_ok intro: prod_eqI)
  then have tt: "tabs t = (tabs s)\<lparr>links := ?ls\<rparr>" and ls': "unique_some (map ln_share ?ls)" "list_ex ?p (links (tabs s))"
    by (auto simp: share_link_def Let_def affected_Inr count_where_pos split: if_splits)
  from tt have ls: "links (tabs t) = ?ls" by simp
  from ls' obtain l0 where l0: "l0 \<in> set (links (tabs s))" "?p l0" by (auto simp: list_ex_iff)
  define l where "l = ?f token e l0"
  obtain tok where tok: "ln_share l = Some tok" by (cases "ln_share l0") (auto simp: l_def keep_or_def)
  have l: "l \<in> set (links (tabs t))" "?p l" "ln_share_expires l = Some e"
    using l0 unfolding ls set_update_where l_def is_link_def by auto
  have uniq: "unique_some (map ln_share (links (tabs t)))" using ls ls' by simp
  have served: "fst (GetSharedLink tok (t\<lparr>clock := now\<rparr>)) = (if now < e then some_row (link_view_of (tabs t) l) else Inl ErrNotFound)" for now
    using find_unique_share [OF uniq l(1) tok l(3), of now] by (simp add: GetSharedLink_def exec_ok t reading_def)
  have tokens: "distinct (map ln_id (links (tabs t)))"
    using db_ok_parts(8) [OF store_okD [OF ok]] ls by (simp add: links_ok_def map_key_update_where)
  have mine: "x = l" if "x \<in> set (links (tabs t))" "?p x" for x
    using key_unique [OF tokens that(1) l(1)] that(2) l(2) by (simp add: is_link_def)
  have again: "\<exists>v. ShareLink owner ident token' e' (t\<lparr>clock := now\<rparr>) = (Inr (), v) \<and> (\<exists>l' \<in> set (links (tabs v)). is_link owner ident l' \<and> ln_share l' = Some tok)"
    for token' e' now
  proof -
    have "map ln_share (update_where ?p (?f token' e') (links (tabs t))) = map ln_share (links (tabs t))"
      by (rule map_key_update_where) (use mine tok in \<open>auto simp: keep_or_def\<close>)
    then have "ShareLink owner ident token' e' (t\<lparr>clock := now\<rparr>)
        = (Inr (), t\<lparr>clock := now, tabs := (tabs t)\<lparr>links := update_where ?p (?f token' e') (links (tabs t))\<rparr>\<rparr>)"
      using uniq l(1,2) by (auto simp: ShareLink_def exec_ok t share_link_def Let_def affected_Inr count_where_pos list_ex_iff)
    moreover have "?f token' e' l \<in> set (update_where ?p (?f token' e') (links (tabs t)))"
      using l(1,2) by (auto simp: set_update_where)
    moreover have "?p (?f token' e' l)" "ln_share (?f token' e' l) = Some tok"
      using l(2) tok by (simp_all add: is_link_def keep_or_def)
    ultimately show ?thesis by (auto intro!: bexI [where x = "?f token' e' l"])
  qed
  have gone: "fst (GetSharedLink tok ((snd (UnshareLink owner ident t))\<lparr>clock := now\<rparr>)) = Inl ErrNotFound" for now
  proof -
    have "find (\<lambda>x. live_share tok now (ln_share x) (ln_share_expires x))
        (update_where ?p (\<lambda>l. l\<lparr>ln_share := None, ln_share_expires := None\<rparr>) (links (tabs t))) = None"
      unfolding find_None_iff
    proof (intro notI, elim exE conjE)
      fix x assume x: "x \<in> set (update_where ?p (\<lambda>l. l\<lparr>ln_share := None, ln_share_expires := None\<rparr>) (links (tabs t)))"
        and live: "live_share tok now (ln_share x) (ln_share_expires x)"
      from x show False
      proof (rule in_update_whereE)
        assume "x \<in> set (links (tabs t))" "\<not> ?p x"
        with live unique_some_find [OF uniq _ _ l(1) tok, of x] l(2) show False by (simp add: live_share_def)
      qed (use live in \<open>simp add: live_share_def\<close>)
    qed
    then show ?thesis by (simp add: GetSharedLink_def UnshareLink_def exec_ok t reading_def Let_def)
  qed
  from l tok served again gone show ?thesis by blast
qed

definition demo_link :: link where
  "demo_link = \<lparr>ln_id = 5, ln_owner = 1, ln_name = ''l'', ln_a = 3, ln_b = 4, ln_freq = Fin 5800, ln_tx_power = Fin 20, ln_tx_gain = Fin 0,
     ln_rx_gain = Fin 0, ln_tx_loss = Fin 0, ln_rx_loss = Fin 0, ln_sensitivity = Fin (- 90), ln_polarization = 1, ln_tx_ant = None,
     ln_tx_azimuth = None, ln_tx_tilt = Fin 0, ln_rx_ant = None, ln_rx_azimuth = None, ln_rx_tilt = Fin 0, ln_clutter = Fin 0,
     ln_measured = None, ln_share = None, ln_share_expires = None\<rparr>"

definition link_db :: db where
  "link_db = empty_db\<lparr>next_id := 6, users := [ada], sites := [demo_site\<lparr>site_id := 3\<rparr>, demo_site\<lparr>site_id := 4\<rparr>], links := [demo_link]\<rparr>"

lemma link_db_ok: "store_ok id link_db"
proof -
  have "link_check demo_link" "site_check (demo_site\<lparr>site_id := i\<rparr>)" for i
    by (simp_all add: link_check_def demo_link_def demo_site_def site_check_def pg_between_def pg_le_def)
  then have "db_ok link_db"
    by (simp add: db_ok_def link_db_def empty_db_def ada_def table_ok_defs unique_some_def owns_site_def owns_antenna_def
        lower_def to_lower_def Let_def) (simp add: demo_link_def demo_site_def)
  then show ?thesis
    by (simp add: store_ok_def queue_ok_def limits_ok_def hashed_ok_def quota_ok_def active_jobs_def count_sites_def
        count_coverages_def count_tokens_def link_db_def empty_db_def demo_site_def resource_limits)
qed

lemma share_life_witness:
  "\<exists>tok. fst (GetSharedLink tok ((snd (UnshareLink 1 5 (snd (ShareLink 1 5 ''tok'' 90 \<lparr>tabs = link_db, clock = 50, wire_script = []\<rparr>))))\<lparr>clock := 60\<rparr>)) = Inl ErrNotFound"
proof -
  let ?s = "\<lparr>tabs = link_db, clock = 50, wire_script = []\<rparr>"
  have "ShareLink 1 5 ''tok'' 90 ?s = (Inr (), snd (ShareLink 1 5 ''tok'' 90 ?s))"
    by (simp add: ShareLink_def exec_ok share_link_def Let_def link_db_def empty_db_def is_link_def demo_link_def unique_some_def affected_def)
  from share_life [where sha = id, OF _ _ this] link_db_ok show ?thesis by simp blast
qed

section \<open>Rate limits\<close>

text \<open>A run of hits, each of a key at a time, on the table: the counts that the hits of one key get back.\<close>

fun rate_counts :: "string \<Rightarrow> time \<Rightarrow> (string \<times> time) list \<Rightarrow> rate_limit list \<Rightarrow> nat list" where
  "rate_counts key w [] rows = []"
| "rate_counts key w ((k, now) # hs) rows =
     (case rate_upsert k w now rows of (n, rows') \<Rightarrow> (if k = key then [n] else []) @ rate_counts key w hs rows')"

lemma rate_counts_limiter: "rate_counts key w hs rows = limiter.counts_of key w hs rows"
  by (induction hs arbitrary: rows) (auto simp: Let_def split: prod.splits)

text \<open>A limit of m hits per window lets at most 2 m hits of a key through in any span as long as the window,
  whatever hits of other keys come in between.\<close>

theorem rate_limit_window:
  assumes "distinct (map rl_key rows)" "\<And>h. h \<in> set hs \<Longrightarrow> t0 \<le> snd h \<and> snd h \<le> t0 + w"
  shows "length (filter (\<lambda>n. n \<le> m) (rate_counts key w hs rows)) \<le> 2 * m"
  unfolding rate_counts_limiter using assms by (rule limiter.admitted_in_span)

lemma rate_limit_window_witness:
  "length (filter (\<lambda>n. n \<le> 5) (rate_counts ''login:a'' 60 [(''login:a'', 0), (''login:b'', 1), (''login:a'', 59)] [])) \<le> 10"
proof -
  have "length (filter (\<lambda>n. n \<le> 5) (rate_counts ''login:a'' 60 [(''login:a'', 0), (''login:b'', 1), (''login:a'', 59)] [])) \<le> 2 * 5"
    by (rule rate_limit_window [where ?t0.0 = 0]) auto
  then show ?thesis by simp
qed

end
