(* ===== verification/Worker_Claims.thy ===== *)
theory Worker_Claims
  imports Lease Store_Claims Job_Claims
begin

text \<open>
  The program at work: clients that call the store, workers that take, settle or lose jobs, a clock
  and an unreliable connection, as a step relation. A worker that holds a job settles it within the
  timeout of its class and the ten seconds of its database context; this is the guard of the clock,
  and the one assumption on the calculations.
\<close>

section \<open>Steps\<close>

record sys =
  sy_store :: store
  sy_held :: "string \<Rightarrow> (bool \<times> job \<times> time) option"

abbreviation (input) now_of :: "sys \<Rightarrow> time" where
  "now_of s \<equiv> clock (sy_store s)"

definition hold :: "bool \<Rightarrow> time \<Rightarrow> turn \<Rightarrow> (bool \<times> job \<times> time) option" where
  "hold cov now t = (case t of Work j \<Rightarrow> Some (cov, j, now) | GiveUp j \<Rightarrow> Some (cov, j, now) | _ \<Rightarrow> None)"

inductive worker_step :: "(bytes \<Rightarrow> string) \<Rightarrow> (image \<Rightarrow> bytes) \<Rightarrow> (f64 cov_input \<Rightarrow> cov_error + cov_result) \<Rightarrow> (string \<Rightarrow> bool)
    \<Rightarrow> sys \<Rightarrow> sys \<Rightarrow> bool" for sha enc compute cls where
  client: "client_call x \<Longrightarrow> call_ok x \<Longrightarrow> worker_step sha enc compute cls s 
    (s\<lparr>sy_store := (sy_store s)\<lparr>tabs := tabs (run_call sha x (sy_store s))\<rparr>\<rparr>)"
| wires: "worker_step sha enc compute cls s (s\<lparr>sy_store := (sy_store s)\<lparr>wire_script := ws\<rparr>\<rparr>)"
| tick: "0 \<le> dt \<Longrightarrow> (\<And>w c j t. sy_held s w = Some (c, j, t) \<Longrightarrow> now_of s + dt \<le> t + timeout_of c + settleTimeout)
    \<Longrightarrow> worker_step sha enc compute cls s (s\<lparr>sy_store := (sy_store s)\<lparr>clock := now_of s + dt\<rparr>\<rparr>)"
| taking: "sy_held s w = None \<Longrightarrow> take_turn w (cls w) (sy_store s) = (Inr t, st)
    \<Longrightarrow> worker_step sha enc compute cls s \<lparr>sy_store = st, sy_held = (sy_held s)(w := hold (cls w) (now_of s) t)\<rparr>"
| giving: "sy_held s w = Some (c, j, t) \<Longrightarrow> maxAttempts \<le> j_attempts j \<Longrightarrow> give_up j (sy_store s) = (r, st)
    \<Longrightarrow> worker_step sha enc compute cls s \<lparr>sy_store = st, sy_held = (sy_held s)(w := None)\<rparr>"
| short: "sy_held s w = Some (False, j, t) \<Longrightarrow> j_attempts j < maxAttempts \<Longrightarrow> runShort env res j (sy_store s) = (r, st)
    \<Longrightarrow> worker_step sha enc compute cls s \<lparr>sy_store = st, sy_held = (sy_held s)(w := None)\<rparr>"
| cover: "sy_held s w = Some (True, j, t) \<Longrightarrow> j_attempts j < maxAttempts \<Longrightarrow> runCoverage enc compute env j (sy_store s) = (r, st)
    \<Longrightarrow> worker_step sha enc compute cls s \<lparr>sy_store = st, sy_held = (sy_held s)(w := None)\<rparr>"
| crash: "worker_step sha enc compute cls s (s\<lparr>sy_held := (sy_held s)(w := None)\<rparr>)"

inductive sys_reach :: "(bytes \<Rightarrow> string) \<Rightarrow> (image \<Rightarrow> bytes) \<Rightarrow> (f64 cov_input \<Rightarrow> cov_error + cov_result) \<Rightarrow> (string \<Rightarrow> bool)
    \<Rightarrow> sys \<Rightarrow> bool" for sha enc compute cls where
  boot: "tabs st = empty_db \<Longrightarrow> sys_reach sha enc compute cls \<lparr>sy_store = st, sy_held = (\<lambda>_. None)\<rparr>"
| step: "sys_reach sha enc compute cls s \<Longrightarrow> worker_step sha enc compute cls s s' \<Longrightarrow> sys_reach sha enc compute cls s'"

section \<open>Settling a job touches no other lease\<close>

lemma leased_settle:
  "k \<noteq> i \<Longrightarrow> (\<And>r. j_id (f r) = j_id r) \<Longrightarrow> leased c k t d \<Longrightarrow> leased c k t (settle_job i f d)"
  by (auto simp: leased_def settle_job_def elim!: in_update_whereE)

lemma settled_id [simp]: "j_id (done_job r ms now j) = j_id j" "j_id (failed_job m now j) = j_id j"
  by (simp_all add: done_job_def failed_job_def)

lemma leased_requeue:
  "k \<noteq> i \<Longrightarrow> leased c k t d \<Longrightarrow>
    leased c k t (d\<lparr>jobs := update_where (\<lambda>j. j_id j = i \<and> j_state j = JobRunning) (\<lambda>j. j\<lparr>j_state := JobQueued, j_worker := None\<rparr>) (jobs d)\<rparr>)"
  by (auto simp: leased_def elim!: in_update_whereE)

lemma settle_keeps_lease [keeps_intros]:
  assumes "k \<noteq> i"
  shows "keeps (\<lambda>s. leased c k t (tabs s)) (FinishJob i b ms)" "keeps (\<lambda>s. leased c k t (tabs s)) (FailJob i m)"
    "keeps (\<lambda>s. leased c k t (tabs s)) (RequeueJob i)" "keeps (\<lambda>s. leased c k t (tabs s)) (FinishCoverageJob i ci p q bo ms n)"
  unfolding FinishJob_def FailJob_def RequeueJob_def FinishCoverageJob_def Let_def
  by (auto intro!: keeps_intros leased_settle leased_requeue assms)

lemma started_update:
  "(\<And>r. j_state (f r) = JobRunning \<Longrightarrow> j_started_at (f r) \<noteq> None) \<Longrightarrow> started_ok d \<Longrightarrow> started_ok (d\<lparr>jobs := update_where p f (jobs d)\<rparr>)"
  by (auto simp: started_ok_def elim!: in_update_whereE)

lemma started_settle: "(\<And>r. j_state (f r) \<noteq> JobRunning) \<Longrightarrow> started_ok d \<Longrightarrow> started_ok (settle_job i f d)"
  unfolding settle_job_def by (simp, rule started_update) auto

lemma started_claim: "started_ok d \<Longrightarrow> started_ok (snd (claim_job w c st now d))"
  by (auto simp: claim_job_def intro!: started_update split: option.splits)

lemma settled_state [simp]: "j_state (done_job r ms now j) = JobDone" "j_state (failed_job m now j) = JobFailed"
  by (simp_all add: done_job_def failed_job_def)

lemma worker_started [keeps_intros]:
  "keeps (\<lambda>s. started_ok (tabs s)) (FinishJob i b ms)" "keeps (\<lambda>s. started_ok (tabs s)) (FailJob i m)"
  "keeps (\<lambda>s. started_ok (tabs s)) (RequeueJob i)" "keeps (\<lambda>s. started_ok (tabs s)) (FinishCoverageJob i ci p q bo ms n)"
  "keeps (\<lambda>s. started_ok (tabs s)) (take_turn w c)"
  unfolding FinishJob_def FailJob_def RequeueJob_def FinishCoverageJob_def take_turn_def ClaimJob_def Let_def
  by (auto intro!: keeps_intros started_settle started_claim started_update)

lemma keeps_logged [keeps_intros]: "keeps P m \<Longrightarrow> keeps P (logged m)"
  unfolding logged_def by (intro keeps_intros)

lemma runShort_keeps:
  assumes "keeps P (RequeueJob (j_id j))" "\<And>m. keeps P (FailJob (j_id j) m)" "\<And>b ms. keeps P (FinishJob (j_id j) b ms)"
  shows "keeps P (runShort env res j)"
  unfolding runShort_def by (intro keeps_intros assms)

lemma load_coverage_keeps: "keeps (\<lambda>s. I (tabs s)) (load_coverage j)"
  unfolding load_coverage_def GetCoverage_def GetAntenna_def by (intro keeps_intros)

lemma runCoverage_keeps:
  assumes "keeps (\<lambda>s. I (tabs s)) (RequeueJob (j_id j))" "\<And>m. keeps (\<lambda>s. I (tabs s)) (FailJob (j_id j) m)"
    "\<And>c p q bo ms n. keeps (\<lambda>s. I (tabs s)) (FinishCoverageJob (j_id j) c p q bo ms n)"
  shows "keeps (\<lambda>s. I (tabs s)) (runCoverage enc compute env j)"
  unfolding runCoverage_def settle_coverage_def by (intro keeps_intros load_coverage_keeps assms)

lemma give_up_keeps: "(\<And>m. keeps P (FailJob (j_id j) m)) \<Longrightarrow> keeps P (give_up j)"
  unfolding give_up_def by (intro keeps_intros)

text \<open>The tables after a turn: as before, or with one more lease.\<close>

lemma take_turn_tabs:
  assumes "take_turn w cov s = (Inr t, u)"
  shows "clock u = clock s"
    and "tabs u = tabs s \<or> tabs u = snd (claim_job w cov (stale_of cov) (clock s) (tabs s))"
    and "t = Work j \<or> t = GiveUp j \<Longrightarrow> claim_job w cov (stale_of cov) (clock s) (tabs s) = (Inr j, tabs u)"
proof -
  obtain x v where c: "ClaimJob w cov (stale_of cov) s = (x, v)" by fastforce
  with assms have u: "u = v" and t: "t = (case x of Inl e \<Rightarrow> if e = ErrNotFound then Wait else Retry
      | Inr j \<Rightarrow> if maxAttempts \<le> j_attempts j then GiveUp j else Work j)"
    by (auto simp: take_turn_def attempt_def split: sum.splits)
  show "clock u = clock s" using exec_clockD [of "claim_job w cov (stale_of cov)" s] c unfolding ClaimJob_def u by simp
  show "tabs u = tabs s \<or> tabs u = snd (claim_job w cov (stale_of cov) (clock s) (tabs s))"
    using exec_tabs [of "claim_job w cov (stale_of cov)" s] c unfolding ClaimJob_def u by simp
  assume "t = Work j \<or> t = GiveUp j"
  with t have "x = Inr j" by (auto split: sum.splits if_splits)
  with c show "claim_job w cov (stale_of cov) (clock s) (tabs s) = (Inr j, tabs u)" unfolding ClaimJob_def u by (simp add: exec_Inr)
qed

section \<open>The invariant\<close>

definition leases :: "sys \<Rightarrow> string \<Rightarrow> (bool \<times> int \<times> time) option" where
  "leases s w = map_option (\<lambda>(c, j, t). (c, j_id j, t)) (sy_held s w)"

definition sys_ok :: "(bytes \<Rightarrow> string) \<Rightarrow> sys \<Rightarrow> bool" where
  "sys_ok sha s \<longleftrightarrow> store_ok sha (tabs (sy_store s)) \<and> started_ok (tabs (sy_store s))
     \<and> job_lease.in_force (leases s) (now_of s) (tabs (sy_store s)) \<and> job_lease.exclusive (leases s)"

lemma timeout_stale: "timeout_of c + settleTimeout \<le> stale_of c"
  by (simp add: timeout_of_def stale_of_def worker_limits)

lemma leases_upd:
  "leases \<lparr>sy_store = st, sy_held = (sy_held s)(w := h)\<rparr> = (leases s)(w := map_option (\<lambda>(c, j, t). (c, j_id j, t)) h)"
  by (auto simp: leases_def)

lemma leases_same [simp]: "leases (s\<lparr>sy_store := st\<rparr>) = leases s" "leases (s\<lparr>sy_held := (sy_held s)(w := None)\<rparr>) = (leases s)(w := None)"
  by (auto simp: leases_def)

lemma releasing_ok:
  assumes ok: "sys_ok sha s" and h: "sy_held s w = Some (c, j, t)" and run: "m (sy_store s) = (r, st)"
    and keeps: "keeps (\<lambda>s. store_ok sha (tabs s)) m" "keeps (\<lambda>s. started_ok (tabs s)) m" "\<And>c' k' t'. k' \<noteq> j_id j \<Longrightarrow> keeps (\<lambda>s. leased c' k' t' (tabs s)) m"
    and clock: "clock st = now_of s"
  shows "sys_ok sha \<lparr>sy_store = st, sy_held = (sy_held s)(w := None)\<rparr>"
proof -
  have h': "leases s w = Some (c, j_id j, t)" by (simp add: leases_def h)
  have "store_ok sha (tabs st) \<and> started_ok (tabs st)" using keepsD' [OF keeps(1) _ run] keepsD' [OF keeps(2) _ run] ok by (simp add: sys_ok_def)
  moreover have "leased c' k' t' (tabs (sy_store s)) \<Longrightarrow> leased c' k' t' (tabs st)" if "k' \<noteq> j_id j" for c' k' t'
    using keepsD' [OF keeps(3) [OF that] _ run] by simp
  then have "job_lease.in_force ((leases s)(w := None)) (now_of s) (tabs st) \<and> job_lease.exclusive ((leases s)(w := None))"
    using job_lease.settle_keeps [where H = "leases s" and w = w and e = "tabs st", OF _ _ h'] ok by (auto simp: sys_ok_def)
  ultimately show ?thesis by (simp add: sys_ok_def leases_upd clock)
qed

lemma clock_logged: "(\<And>s. clock (snd (m s)) = clock s) \<Longrightarrow> clock (snd (logged m s)) = clock s"
  by (simp add: logged_def attempt_def split: prod.split) (metis snd_conv)

lemma clock_keeps: "keeps (\<lambda>s. clock s = now) (exec q)"
  by (simp add: keeps_def)

lemma clock_transaction: "keeps (\<lambda>s. clock s = now) m \<Longrightarrow> keeps (\<lambda>s. clock s = now) (transaction m)"
  by (fastforce simp: keeps_def transaction_def split: prod.splits sum.splits list.splits wire.splits dest: spec)

lemma settle_clock:
  "keeps (\<lambda>s. clock s = now) (FinishJob i b ms)" "keeps (\<lambda>s. clock s = now) (FailJob i m)"
  "keeps (\<lambda>s. clock s = now) (RequeueJob i)" "keeps (\<lambda>s. clock s = now) (FinishCoverageJob i ci p q bo ms n)"
  "keeps (\<lambda>s. clock s = now) (load_coverage j)"
  unfolding FinishJob_def FailJob_def RequeueJob_def FinishCoverageJob_def load_coverage_def GetCoverage_def GetAntenna_def Let_def
  by (intro keeps_intros clock_keeps clock_transaction)+

lemma work_clock:
  "keeps (\<lambda>s. clock s = now) (runShort env res j)" "keeps (\<lambda>s. clock s = now) (give_up j)"
  "keeps (\<lambda>s. clock s = now) (runCoverage enc compute env j)"
proof -
  show "keeps (\<lambda>s. clock s = now) (runShort env res j)" by (rule runShort_keeps) (rule settle_clock)+
  show "keeps (\<lambda>s. clock s = now) (give_up j)" by (rule give_up_keeps) (rule settle_clock)
  show "keeps (\<lambda>s. clock s = now) (runCoverage enc compute env j)"
    unfolding runCoverage_def settle_coverage_def by (intro keeps_intros settle_clock)
qed

lemma taking_ok:
  assumes ok: "sys_ok sha s" and "inj sha" and free: "sy_held s w = None" and run: "take_turn w cov (sy_store s) = (Inr t, st)"
  shows "sys_ok sha \<lparr>sy_store = st, sy_held = (sy_held s)(w := hold cov (now_of s) t)\<rparr>"
proof -
  let ?d = "tabs (sy_store s)" and ?now = "now_of s"
  note turn = take_turn_tabs [OF run]
  from ok have s: "store_ok sha ?d" "started_ok ?d" and H: "job_lease.in_force (leases s) ?now ?d" "job_lease.exclusive (leases s)" by (simp_all add: sys_ok_def)
  then have d: "db_ok ?d" by (auto dest: store_okD)
  have kt: "keeps (\<lambda>s. store_ok sha (tabs s)) (take_turn w cov)"
    unfolding take_turn_def by (intro keeps_intros queue_calls_keep [OF assms(2)])
  have st: "store_ok sha (tabs st)" "started_ok (tabs st)" using keepsD' [OF kt s(1) run] keepsD' [OF worker_started(5) s(2) run] .
  have lease: "claim_lease w cov ?now ?d = Some (j_id j, e)" if "claim_job w cov (stale_of cov) ?now ?d = (Inr j, e)" for j e
    using that d by (simp add: claim_lease_def)
  have "job_lease.in_force (leases s) ?now (tabs st)"
  proof (cases "claim_job w cov (stale_of cov) ?now ?d")
    case (Pair x e)
    show ?thesis
    proof (cases x)
      case (Inl y)
      with Pair have "e = ?d" by (auto simp: claim_job_def split: option.splits)
      with Pair turn(2) H show ?thesis by auto
    next
      case (Inr j)
      from lease Pair Inr have l: "claim_lease w cov ?now ?d = Some (j_id j, e)" by simp
      have "job_lease.in_force (leases s) ?now e"
        using job_lease.take_not_held [OF H(1) l] job_lease.others [OF l] H(1) unfolding job_lease.in_force_def by metis
      with Pair turn(2) H show ?thesis by auto
    qed
  qed
  moreover have "job_lease.in_force ((leases s)(w := Some (cov, j_id j, ?now))) ?now (tabs st)
      \<and> job_lease.exclusive ((leases s)(w := Some (cov, j_id j, ?now)))" if "t = Work j \<or> t = GiveUp j" for j
    using job_lease.take_keeps [OF H lease [OF turn(3) [OF that]]] by blast
  moreover have "(leases s)(w := None) = leases s" using free by (auto simp: leases_def)
  ultimately show ?thesis
    using st H turn(1) by (cases t) (auto simp: sys_ok_def leases_upd hold_def)
qed

lemma worker_step_ok:
  assumes "worker_step sha enc compute cls s s'" "sys_ok sha s" "inj sha"
  shows "sys_ok sha s'"
  using assms
proof (induction rule: worker_step.induct)
  case (client x s)
  then show ?case
    by (auto simp: sys_ok_def intro: run_call_keeps job_lease.calm_keeps lease_calm.client_keeps started_calm.client_keeps)
next
  case (tick dt s)
  have "now_of s + dt \<le> t + stale_of c" if "sy_held s w = Some (c, j, t)" for w c j t
    using tick(2) [OF that] timeout_stale [of c] by simp
  with tick show ?case by (fastforce simp: sys_ok_def job_lease.in_force_def leases_def)
next
  case (taking s w t st)
  then show ?case by (blast intro: taking_ok)
next
  case (giving s w c j t r st)
  from giving(3) have "clock st = now_of s" using keepsD' [OF work_clock(2)] by blast
  with giving show ?case
    by (intro releasing_ok [where m = "give_up j"]) (auto intro!: give_up_keeps queue_calls_keep settle_keeps_lease worker_started)
next
  case (short s w j t env res r st)
  from short(3) have "clock st = now_of s" using keepsD' [OF work_clock(1)] by blast
  with short show ?case
    by (intro releasing_ok [where m = "runShort env res j"]) (auto intro!: runShort_keeps queue_calls_keep settle_keeps_lease worker_started)
next
  case (cover s w j t env r st)
  from cover(3) have "clock st = now_of s" using keepsD' [OF work_clock(3)] by blast
  with cover show ?case
    by (intro releasing_ok [where m = "runCoverage enc compute env j"]) (auto intro!: runCoverage_keeps queue_calls_keep settle_keeps_lease worker_started)
qed (auto simp: sys_ok_def intro: job_lease.release_keeps)

lemma sys_reach_ok: "sys_reach sha enc compute cls s \<Longrightarrow> inj sha \<Longrightarrow> sys_ok sha s"
proof (induction rule: sys_reach.induct)
  case (boot st)
  have "store_ok sha empty_db" "started_ok empty_db" by (rule store_ok_empty) (simp add: started_ok_def empty_db_def)
  with boot show ?case by (simp add: sys_ok_def leases_def job_lease.in_force_def job_lease.exclusive_def)
next
  case (step s s')
  then show ?case by (blast intro: worker_step_ok)
qed

section \<open>Properties\<close>


text \<open>A short history: ada registers, queues a job, and a worker takes it.\<close>

definition empty_store :: store where
  "empty_store = \<lparr>tabs = empty_db, clock = 10, wire_script = []\<rparr>"

definition ada_store :: store where
  "ada_store = \<lparr>tabs = empty_db\<lparr>next_id := 2, users := [new_user 1 ''ada'' None (Some 10) ''x'' 10]\<rparr>, clock = 10, wire_script = []\<rparr>"

definition queued_store :: store where
  "queued_store = \<lparr>tabs = empty_db\<lparr>next_id := 3, users := [new_user 1 ''ada'' None (Some 10) ''x'' 10],
     jobs := [new_job 2 1 None ''hf'' ''x'' (jobHash id ''hf'' ''x'') 10], outbox := [NoteQueued ''hf'']\<rparr>, clock = 10, wire_script = []\<rparr>"

definition taken_job :: job where
  "taken_job = start_job ''w'' 10 (new_job 2 1 None ''hf'' ''x'' (jobHash id ''hf'' ''x'') 10)"

definition taken_store :: store where
  "taken_store = queued_store\<lparr>tabs := (tabs queued_store)\<lparr>jobs := [taken_job]\<rparr>\<rparr>"

definition no_compute :: "f64 cov_input \<Rightarrow> cov_error + cov_result" where
  "no_compute i = Inl BadRange"

definition short_only :: "string \<Rightarrow> bool" where
  "short_only w = False"

lemma history_reached: "sys_reach id toy_enc no_compute short_only \<lparr>sy_store = taken_store, sy_held = [''w'' \<mapsto> (False, taken_job, 10)]\<rparr>"
proof -
  let ?R = "sys_reach id toy_enc no_compute short_only"
  have "?R \<lparr>sy_store = empty_store, sy_held = (\<lambda>_. None)\<rparr>" by (rule sys_reach.boot) (simp add: empty_store_def)
  from sys_reach.step [OF this worker_step.client [of "OnAccount (CallCreateUser ''ada'' ''x'')"]]
  have "?R \<lparr>sy_store = ada_store, sy_held = (\<lambda>_. None)\<rparr>"
    by (simp add: CreateUser_def exec_ok empty_store_def ada_store_def insert_user_def empty_db_def)
  from sys_reach.step [OF this worker_step.client [of "OnQueue (CallEnqueueJob 1 None ''hf'' ''x'')"]]
  have "?R \<lparr>sy_store = queued_store, sy_held = (\<lambda>_. None)\<rparr>"
    by (simp add: EnqueueJob_def enqueue_new_def Let_def attempt_def andthen_def exec_ok existing_job_def reading_def count_jobs_def
        active_jobs_def queued_jobs_def job_limit_def job_limits KindCoverage_def insert_job_def notify_queued_def new_user_def
        ada_store_def queued_store_def empty_db_def)
  moreover have turn: "take_turn ''w'' (short_only ''w'') queued_store = (Inr (Work taken_job), taken_store)"
    by (simp add: take_turn_def attempt_def ClaimJob_def exec_ok claim_job_def claimable_def short_only_def KindCoverage_def
        queued_store_def taken_store_def taken_job_def new_job_def start_job_def maxAttempts_def)
  let ?q = "\<lparr>sy_store = queued_store, sy_held = (\<lambda>_. None)\<rparr> :: sys"
  have "worker_step id toy_enc no_compute short_only ?q
      \<lparr>sy_store = taken_store, sy_held = (sy_held ?q)(''w'' := hold (short_only ''w'') (now_of ?q) (Work taken_job))\<rparr>"
    by (rule worker_step.taking) (simp_all add: turn)
  moreover have "hold (short_only ''w'') (now_of ?q) (Work taken_job) = Some (False, taken_job, 10)"
    by (simp add: hold_def short_only_def queued_store_def)
  ultimately show ?thesis by (metis (no_types, lifting) sys_reach.step sys.select_convs(2))
qed


text \<open>C5: No job is lost: a job that is queued or running in a reachable state can be claimed by a worker of its class from
  some time on as long as its row stays as it is, whatever became of the worker that took it.\<close>

theorem no_job_lost:
  assumes "inj sha" "sys_reach sha enc compute cls s" "r \<in> set (jobs (tabs (sy_store s)))" "active_state (j_state r)"
  shows "\<exists>T. \<forall>now > T. claimable (j_kind r = KindCoverage) (stale_of (j_kind r = KindCoverage)) now r"
proof -
  let ?st = "stale_of (j_kind r = KindCoverage)"
  have "started_ok (tabs (sy_store s))" using sys_reach_ok [OF assms(2,1)] by (simp add: sys_ok_def)
  then consider "j_state r = JobQueued" | t where "j_state r = JobRunning" "j_started_at r = Some t"
    using assms(3,4) by (auto simp: active_state_def started_ok_def)
  then show ?thesis
  proof cases
    case 1
    then show ?thesis by (auto simp: claimable_def)
  next
    case 2
    then show ?thesis by (intro exI [of _ "t + ?st"]) (auto simp: claimable_def)
  qed
qed

lemma no_job_lost_witness: "\<exists>T. \<forall>now > T. claimable False shortStaleAfter now taken_job"
  using no_job_lost [OF _ history_reached, of taken_job]
  by (simp add: taken_store_def active_state_def taken_job_def new_job_def KindCoverage_def stale_of_def start_job_def)

text \<open>A coverage job loads its own coverage.\<close>

lemma load_coverage_ok:
  assumes up: "wire_script s = []" and ok: "db_ok (tabs s)" and c: "c \<in> set (coverages (tabs s))" "cv_owner c = j_owner j" "j_coverage j = Some (cv_id c)"
  shows "\<exists>v p. load_coverage j s = (Inr (v, p), s) \<and> vc_row v = c"
proof -
  let ?d = "tabs s"
  have cs: "coverages_ok (u_id ` set (users ?d)) (sites ?d) (antennas ?d) (next_id ?d) (coverages ?d)" using ok by (simp add: db_ok_def)
  then have "distinct (map cv_id (coverages ?d))" by (simp add: coverages_ok_def)
  then have "find (owns_coverage (j_owner j) (cv_id c)) (coverages ?d) = Some c"
    using c key_unique [of cv_id "coverages ?d"] by (cases "find (owns_coverage (j_owner j) (cv_id c)) (coverages ?d)")
      (auto simp: find_None_iff owns_coverage_def dest!: find_SomeD)
  moreover have "\<exists>st. site_by_id (cv_site c) ?d = Some st"
    using cs c(1) by (cases "site_by_id (cv_site c) ?d") (auto simp: coverages_ok_def owns_site_def site_by_id_def find_None_iff list_ex_iff)
  ultimately obtain st where get: "GetCoverage (j_owner j) (cv_id c) s = (Inr (scanCoverage ?d c st), s)"
    using up by (auto simp: GetCoverage_def exec_ok reading_def coverage_view_of_def)
  show ?thesis
  proof (cases "cv_tx_ant c")
    case None
    with get c show ?thesis by (simp add: load_coverage_def andthen_def scanCoverage_def)
  next
    case (Some a)
    have "\<exists>x. GetAntenna (cv_owner c) a s = (x, s)" using up by (simp add: GetAntenna_def exec_ok reading_def)
    with get c Some show ?thesis by (auto simp: load_coverage_def andthen_def attempt_def scanCoverage_def)
  qed
qed

lemma FinishCoverageJob_ok:
  assumes "wire_script s = []" "\<exists>c \<in> set (coverages (tabs s)). cv_id c = ident"
  shows "FinishCoverageJob jid ident png m b ms nt s =
     (Inr (), s\<lparr>tabs := settle_job jid (done_job None ms (clock s))
        ((tabs s)\<lparr>coverages := update_where (\<lambda>c. cv_id c = ident) (store_result png m b ms nt (clock s)) (coverages (tabs s))\<rparr>)\<rparr>)"
proof -
  have "0 < count_where (\<lambda>c. cv_id c = ident) (coverages (tabs s))"
    using assms(2) by (auto simp: count_where_pos list_ex_iff)
  then show ?thesis
    using assms(1) by (simp add: FinishCoverageJob_def transaction_def andthen_def exec_ok affected_def)
qed

text \<open>C7: A coverage job from the queue to the picture: on a working connection, when the oldest claimable coverage job
  was not interrupted twice before, its coverage is there and the calculation succeeds before shutdown, one turn of a
  worker stores with that coverage the image for its legend and a margin raster that decodes to the computed margins
  in whole dB, and the job is done; every other coverage stays as it was.\<close>

theorem coverage_turn_stores:
  assumes ok: "db_ok (tabs s)" and up: "wire_script s = []" and png: "lossless enc dec"
    and oldest: "oldest (claimable True staleAfter (clock s)) j_queued_at (jobs (tabs s)) = Some r" "j_attempts r + 1 < maxAttempts"
    and c: "c \<in> set (coverages (tabs s))" "cv_owner c = j_owner r" "j_coverage r = Some (cv_id c)"
    and succeeds: "\<And>i. \<exists>res. compute i = Inr res \<and> valid_result res" and running: "\<not> ctx_done env"
  shows "\<exists>j u i res c'. run_coverage_turn w enc compute env s = (Inr (Work j), u) \<and> j_id j = j_id r
    \<and> compute i = Inr res \<and> ci_range i = cp_range (cv_params c) \<and> ci_resolution i = cp_resolution (cv_params c)
    \<and> c' \<in> set (coverages (tabs u)) \<and> cv_id c' = cv_id c
    \<and> cv_png c' = Some (enc (paint res (LegendOr (cv_legend_db c) (cv_legend_colors c)) True))
    \<and> (\<exists>m. cv_margin c' = Some m \<and> (\<forall>n so e we. \<exists>q. DecodeRaster dec m n so e we = Some q \<and> cr_w q = cr_w res \<and> cr_h q = cr_h res
         \<and> (\<forall>x < cr_w res. \<forall>y < cr_h res. At q x y = coarse (At res x y))))
    \<and> (\<forall>k \<in> set (jobs (tabs u)). j_id k = j_id r \<longrightarrow> j_state k = JobDone)
    \<and> (\<forall>o' \<in> set (coverages (tabs s)). cv_id o' \<noteq> cv_id c \<longrightarrow> o' \<in> set (coverages (tabs u)))"
proof -
  let ?d = "tabs s" and ?now = "clock s"
  define j where "j = start_job w ?now r"
  define s1 where "s1 = s\<lparr>tabs := ?d\<lparr>jobs := update_where (\<lambda>x. j_id x = j_id r) (start_job w ?now) (jobs ?d)\<rparr>\<rparr>"
  have claim: "claim_job w True staleAfter ?now ?d = (Inr j, tabs s1)" by (simp add: claim_job_def oldest(1) j_def s1_def)
  have turn: "take_turn w True s = (Inr (Work j), s1)"
    using up claim oldest(2) by (simp add: take_turn_def attempt_def ClaimJob_def exec_ok stale_of_def s1_def j_def)
  have s1: "wire_script s1 = []" "coverages (tabs s1) = coverages ?d" "clock s1 = ?now" using up by (simp_all add: s1_def)
  have "db_ok (tabs s1)" using claim_job_ok [OF ok, of w True staleAfter ?now] claim by simp
  moreover have "cv_owner c = j_owner j" "j_coverage j = Some (cv_id c)" using c by (simp_all add: j_def start_job_def)
  ultimately obtain v p where load: "load_coverage j s1 = (Inr (v, p), s1)" "vc_row v = c"
    using load_coverage_ok [OF s1(1), of c j] c(1) s1(2) by auto
  let ?i = "coverage_job_input v p"
  obtain res where res: "compute ?i = Inr res" "valid_result res" using succeeds by blast
  let ?png = "CoveragePNG enc res (LegendOr (cv_legend_db c) (cv_legend_colors c))" and ?m = "MarginPNG enc res"
  let ?store = "store_result ?png ?m (bounds_of res) (run_ms env) (radial_note res) ?now"
  define u where "u = s1\<lparr>tabs := settle_job (j_id j) (done_job None (run_ms env) ?now)
      ((tabs s1)\<lparr>coverages := update_where (\<lambda>x. cv_id x = cv_id c) ?store (coverages ?d)\<rparr>)\<rparr>"
  have "FinishCoverageJob (j_id j) (cv_id c) ?png ?m (bounds_of res) (run_ms env) (radial_note res) s1 = (Inr (), u)"
  proof -
    have ex: "\<exists>x \<in> set (coverages (tabs s1)). cv_id x = cv_id c" using c(1) s1(2) by auto
    show ?thesis using FinishCoverageJob_ok [OF s1(1) ex, of "j_id j" ?png ?m "bounds_of res" "run_ms env" "radial_note res"]
      by (simp only: s1 u_def)
  qed
  then have "runCoverage enc compute env j s1 = (Inr (), u)"
    using load res running by (simp add: runCoverage_def attempt_def settle_coverage_def logged_def)
  then have run: "run_coverage_turn w enc compute env s = (Inr (Work j), u)"
    using turn by (simp add: run_coverage_turn_def andthen_def)
  have row: "?store c \<in> set (coverages (tabs u))" using c(1) by (auto simp: u_def settle_job_def set_update_where)
  have others: "o' \<in> set (coverages (tabs u))" if "o' \<in> set (coverages ?d)" "cv_id o' \<noteq> cv_id c" for o'
    using that by (force simp: u_def settle_job_def set_update_where)
  have settled: "\<forall>k \<in> set (jobs (tabs u)). j_id k = j_id r \<longrightarrow> j_state k = JobDone"
    by (auto simp: u_def settle_job_def j_def elim!: in_update_whereE)
  have decodes: "\<exists>q. DecodeRaster dec ?m n so e we = Some q \<and> cr_w q = cr_w res \<and> cr_h q = cr_h res
      \<and> (\<forall>x < cr_w res. \<forall>y < cr_h res. At q x y = coarse (At res x y))" for n so e we
    using decode_margin_ex [OF png res(2)] by blast
  show ?thesis
  proof (intro exI conjI)
    show "run_coverage_turn w enc compute env s = (Inr (Work j), u)" by (rule run)
    show "compute ?i = Inr res" by (rule res(1))
    show "?store c \<in> set (coverages (tabs u))" by (rule row)
    show "\<forall>n so e we. \<exists>q. DecodeRaster dec ?m n so e we = Some q \<and> cr_w q = cr_w res \<and> cr_h q = cr_h res
      \<and> (\<forall>x < cr_w res. \<forall>y < cr_h res. At q x y = coarse (At res x y))" using decodes by blast
    show "\<forall>k \<in> set (jobs (tabs u)). j_id k = j_id r \<longrightarrow> j_state k = JobDone" by (rule settled)
    show "\<forall>o' \<in> set (coverages (tabs s)). cv_id o' \<noteq> cv_id c \<longrightarrow> o' \<in> set (coverages (tabs u))" using others by blast
  qed (use load(2) in \<open>simp_all add: j_def store_result_def CoveragePNG_def coverage_job_input_def Let_def\<close>)
qed

definition turn_store :: store where
  "turn_store = \<lparr>tabs = empty_db\<lparr>next_id := 5, users := [ada], sites := [demo_site\<lparr>site_id := 2\<rparr>], coverages := [demo_coverage],
     jobs := [new_job 4 1 (Some 3) KindCoverage ''x'' ''h'' 10]\<rparr>, clock = 50, wire_script = []\<rparr>"

lemma turn_store_ok: "db_ok (tabs turn_store)"
  by (simp add: turn_store_def db_ok_def empty_db_def ada_def demo_site_def demo_coverage_def demo_params_def new_job_def table_ok_defs unique_some_def
      lower_def to_lower_def Let_def coverage_check_def site_check_def pg_between_def pg_le_def
      params_check_def azimuth_check_def legend_check_def owns_site_def owns_antenna_def pg_lt_def)

lemma coverage_turn_stores_witness:
  "\<exists>u. fst (run_coverage_turn ''w'' toy_enc (\<lambda>_. Inr (demo_result 0 [Fin 1, NaN])) \<lparr>ctx_done = False, job_late = False, run_ms = 7\<rparr> turn_store) = Inr (Work u) \<and> j_id u = 4"
proof -
  let ?e = "\<lparr>ctx_done = False, job_late = False, run_ms = 7\<rparr>"
  have v: "\<exists>res. (\<lambda>_. Inr (demo_result 0 [Fin 1, NaN]) :: cov_error + cov_result) i = Inr res \<and> valid_result res" for i :: "f64 cov_input"
    by (simp add: valid_result_def demo_result_def)
  have old: "oldest (claimable True staleAfter (clock turn_store)) j_queued_at (jobs (tabs turn_store)) = Some (new_job 4 1 (Some 3) KindCoverage ''x'' ''h'' 10)"
    by (simp add: turn_store_def claimable_def new_job_def)
  have "\<exists>j u. run_coverage_turn ''w'' toy_enc (\<lambda>_. Inr (demo_result 0 [Fin 1, NaN])) ?e turn_store = (Inr (Work j), u) \<and> j_id j = 4"
    using coverage_turn_stores [OF turn_store_ok _ toy_lossless old _ _ _ _ v, of demo_coverage ?e "''w''"]
    by (auto simp: turn_store_def new_job_def maxAttempts_def demo_coverage_def)
  then show ?thesis by auto
qed

end
