(* ===== verification/Web_Base.thy ===== *)
theory Web_Base
  imports Accounts Rate_Limits Strconv
begin

text \<open>
  What the handlers of src/internal/web share: the state they act on, problem answers, the request,
  callers and scopes, input checks, rate limits and mails. The state is the store, the mails handed
  to the mailer, the number of bcrypt computations, the one cost the code reasons about, the waiters
  of jobs and the open event streams. The
  clock of the store serves as time.Now too. Passwords, hashes of tokens, random tokens and address
  parsing are the functions of the record \<open>server\<close>; logging and metrics are left out.
\<close>

section \<open>State and answers\<close>

datatype letter = VerifyMail string string | ResetMail string string | ChangedMail string string | KnownMail string string
  | NameTakenMail string string | TokenCreatedMail string string "string list" "time option"

record mail =
  ml_to :: string
  ml_letter :: letter

text \<open>The waiters of jobs: the channel registered for a job, the channels made so far and those closed. Event streams are
  counted per user.\<close>

record job_waits =
  jw_chan :: "int \<rightharpoonup> nat"
  jw_next :: nat
  jw_closed :: "nat list"

record web =
  web_store :: store
  mailed :: "mail list"
  bcrypts :: nat
  waits :: job_waits
  streams :: "int \<rightharpoonup> nat"

text \<open>A problem answer: status, detail and the rejected fields.\<close>

datatype complaint = Required string | TooLong string | OutOfRange string real real | UnknownScope string | Complaint string

datatype problem = Problem nat string "(string \<times> complaint) list"

type_synonym 'a handler = "(web, problem, 'a) act"

fun status :: "problem \<Rightarrow> nat" where
  "status (Problem n _ _) = n"

definition on_store :: "'a store_op \<Rightarrow> (web, store_error, 'a) act" where
  "on_store m w = (case m (web_store w) of (r, s) \<Rightarrow> (r, w\<lparr>web_store := s\<rparr>))"

definition storeErr :: "store_error \<Rightarrow> problem" where
  "storeErr e = (if e = ErrNotFound then Problem 404 ''Not found'' [] else Problem 500 ''Internal error'' [])"

text \<open>A store call whose error becomes the answer.\<close>

definition stored :: "'a store_op \<Rightarrow> 'a handler" where
  "stored m = with_err storeErr (on_store m)"

definition the_time :: "time handler" where
  "the_time w = (Inr (clock (web_store w)), w)"

section \<open>The server and its callers\<close>

record server =
  sv_sid :: "string \<Rightarrow> string"
  sv_hash :: "string \<Rightarrow> string option"
  sv_match :: "string \<Rightarrow> string \<Rightarrow> bool"
  sv_address :: "string \<Rightarrow> (string \<times> string) option"
  sv_registration :: bool
  sv_mail :: bool
  sv_base :: string
  sv_trust_proxy :: bool

record request =
  rq_auth :: string
  rq_cookie :: "string option"
  rq_forwarded :: string
  rq_remote :: string
  rq_tls :: bool
  rq_proto :: string
  rq_fresh :: string

text \<open>What the middleware puts into the context: the user and, for an API token, its id and scopes.\<close>

record caller =
  cl_user :: user_view
  cl_token :: "(int \<times> string list) option"

section \<open>The address of the client\<close>

definition last_index :: "char \<Rightarrow> string \<Rightarrow> nat option" where
  "last_index c s = (if c \<in> set s then Some (length s - 1 - length (takeWhile (\<lambda>x. x \<noteq> c) (rev s))) else None)"

text \<open>net.SplitHostPort, its host; \<open>None\<close> is an error.\<close>

definition split_host :: "string \<Rightarrow> string option" where
  "split_host s = (case last_index CHR '':'' s of
     None \<Rightarrow> None
   | Some i \<Rightarrow>
      (if s \<noteq> [] \<and> hd s = CHR ''['' then
         (let e = length (takeWhile (\<lambda>x. x \<noteq> CHR '']'') s) in
          if e + 1 = i \<and> CHR ''['' \<notin> set (drop 1 s) \<and> CHR '']'' \<notin> set (drop (e + 1) s) then Some (take (e - 1) (drop 1 s)) else None)
       else if CHR '':'' \<in> set (take i s) \<or> CHR ''['' \<in> set s \<or> CHR '']'' \<in> set s then None
       else Some (take i s)))"

definition clientIP :: "server \<Rightarrow> request \<Rightarrow> string" where
  "clientIP sv r =
     (if sv_trust_proxy sv \<and> rq_forwarded r \<noteq> [] then trim_space (last (split_on CHR '','' (rq_forwarded r)))
      else case split_host (rq_remote r) of None \<Rightarrow> rq_remote r | Some h \<Rightarrow> h)"

definition secureCookie :: "request \<Rightarrow> bool" where
  "secureCookie r \<longleftrightarrow> rq_tls r \<or> rq_proto r = ''https''"

section \<open>Limits\<close>

definition sessionIdle :: time where "sessionIdle = days 7"
definition sessionTTL :: time where "sessionTTL = days 30"
definition maxPasswordBytes :: nat where "maxPasswordBytes = 72"
definition loginWindow :: time where "loginWindow = minutes 15"
definition loginIPMax :: nat where "loginIPMax = 20"
definition loginPairMax :: nat where "loginPairMax = 5"
definition loginUserMax :: nat where "loginUserMax = 100"
definition registerWindow :: time where "registerWindow = hours 1"
definition registerIPMax :: nat where "registerIPMax = 5"
definition registerMailMax :: nat where "registerMailMax = 3"

lemmas web_limits = sessionIdle_def sessionTTL_def maxPasswordBytes_def loginWindow_def loginIPMax_def loginPairMax_def
  loginUserMax_def registerWindow_def registerIPMax_def registerMailMax_def

definition tooMany :: "time \<Rightarrow> problem" where
  "tooMany window = Problem 429 (''Too many attempts. Try again in '' @ int_text (window div minutes 1) @ '' minutes.'') []"

text \<open>RateHit followed by the answer over the limit.\<close>

definition hit_or :: "string \<Rightarrow> time \<Rightarrow> nat \<Rightarrow> problem \<Rightarrow> unit handler" where
  "hit_or key window most p = andthen (stored (RateHit key window)) (\<lambda>n. if most < n then raise p else ret ())"

definition computeWindow :: time where "computeWindow = minutes 1"
definition computeUserMax :: nat where "computeUserMax = 60"
definition apiUserMax :: nat where "apiUserMax = 600"

definition computeHit :: "int \<Rightarrow> unit handler" where
  "computeHit user = hit_or (''compute:user:'' @ int_text user) computeWindow computeUserMax
     (Problem 429 ''Too many calculations, try again in a minute.'' [])"

text \<open>computeLimited in front of a binary route of the logged-in user: it answers in plain text.\<close>

definition computeLimited :: "caller \<Rightarrow> 'a handler \<Rightarrow> 'a handler" where
  "computeLimited c h = andthen (with_err (\<lambda>p. if status p = 429 then Problem 429 ''too many requests'' [] else Problem 500 ''internal error'' [])
     (computeHit (uv_id (cl_user c)))) (\<lambda>_. h)"

definition maintenanceText :: string where
  "maintenanceText = ''Radiopath is closed for maintenance. Logins are disabled, please try again later.''"

definition maintenanceErr :: "unit handler" where
  "maintenanceErr = andthen (stored Maintenance) (\<lambda>on. if on then raise (Problem 503 maintenanceText []) else ret ())"

section \<open>Checks of input\<close>

definition maxTextLen :: nat where "maxTextLen = 100"

text \<open>Input is decoded JSON, hence valid UTF-8: a character starts with every byte that does not continue one.\<close>

definition rune_count :: "string \<Rightarrow> nat" where
  "rune_count s = length (filter (\<lambda>c. \<not> (128 \<le> (of_char c :: nat) \<and> (of_char c :: nat) < 192)) s)"

type_synonym check = "(string \<times> complaint) list"

definition body_field :: "string \<Rightarrow> string" where
  "body_field field = (if field = [] then ''body'' else ''body.'' @ field)"

definition check_num :: "string \<Rightarrow> string \<Rightarrow> f64 \<Rightarrow> real \<Rightarrow> real \<Rightarrow> check" where
  "check_num field label v lo hi = (if is_nan v \<or> f_lt v (Fin lo) \<or> f_lt (Fin hi) v then [(body_field field, OutOfRange label lo hi)] else [])"

definition check_opt_num :: "string \<Rightarrow> string \<Rightarrow> f64 option \<Rightarrow> real \<Rightarrow> real \<Rightarrow> check" where
  "check_opt_num field label v lo hi = (case v of None \<Rightarrow> [] | Some x \<Rightarrow> check_num field label x lo hi)"

definition check_deg :: "string \<Rightarrow> string \<Rightarrow> f64 option \<Rightarrow> check \<times> f64 option" where
  "check_deg field label v = (case v of None \<Rightarrow> ([], None) | Some x \<Rightarrow> (check_num field label x 0 360, Some (f_mod x 360)))"

definition check_text :: "string \<Rightarrow> string \<Rightarrow> string \<Rightarrow> check" where
  "check_text field label v = (if v = [] then [(body_field field, Required label)]
     else if maxTextLen < rune_count v then [(body_field field, TooLong label)] else [])"

definition check_err :: "check \<Rightarrow> unit handler" where
  "check_err c = (if c = [] then ret () else raise (Problem 422 ''Invalid input'' c))"

section \<open>Passwords, addresses and mails\<close>

definition validatePassword :: "string \<Rightarrow> string list" where
  "validatePassword p = (if length p < 10 then [''Password: at least 10 characters''] else [])
     @ (if maxPasswordBytes < length p then [''Password: at most 72 characters''] else [])"

definition alnum :: "char \<Rightarrow> bool" where
  "alnum c \<longleftrightarrow> c \<in> set ''ABCDEFGHIJKLMNOPQRSTUVWXYZabcdefghijklmnopqrstuvwxyz0123456789''"

definition userNameRe :: "string \<Rightarrow> bool" where
  "userNameRe s \<longleftrightarrow> 3 \<le> length s \<and> length s \<le> 32 \<and> alnum (hd s) \<and> list_all (\<lambda>c. alnum c \<or> c \<in> set ''._-'') s"

definition userNameRule :: string where
  "userNameRule = ''User name: 3 to 32 characters, letters, digits, . _ -, starting with a letter or digit''"

definition ValidateCredentials :: "string \<Rightarrow> string \<Rightarrow> string list" where
  "ValidateCredentials name password = (if userNameRe name then [] else [userNameRule]) @ validatePassword password"

text \<open>The form of randomToken's results.\<close>

definition token_form :: "string \<Rightarrow> bool" where
  "token_form s \<longleftrightarrow> length s = 43 \<and> list_all (\<lambda>c. alnum c \<or> c \<in> set ''_-'') s"

definition maxEmailLen :: nat where "maxEmailLen = 254"

definition validEmail :: "server \<Rightarrow> string \<Rightarrow> string option" where
  "validEmail sv s = (let t = trim_space s in case sv_address sv t of
     Some (name, address) \<Rightarrow> if name = [] \<and> address = t \<and> length t \<le> maxEmailLen then Some t else None
   | None \<Rightarrow> None)"

definition mailLater :: "server \<Rightarrow> string \<Rightarrow> letter \<Rightarrow> (web, 'e, unit) act" where
  "mailLater sv to l w = (Inr (), if sv_mail sv then w\<lparr>mailed := mailed w @ [\<lparr>ml_to = to, ml_letter = l\<rparr>]\<rparr> else w)"

text \<open>bcrypt: computing a hash, which fails for a password of more than 72 bytes, and comparing.\<close>

definition hash_password :: "server \<Rightarrow> string \<Rightarrow> string handler" where
  "hash_password sv p w = (case sv_hash sv p of
     None \<Rightarrow> (Inl (Problem 500 ''Internal error'' []), w)
   | Some h \<Rightarrow> (Inr h, w\<lparr>bcrypts := bcrypts w + 1\<rparr>))"

definition compare_password :: "server \<Rightarrow> string \<Rightarrow> string \<Rightarrow> bool handler" where
  "compare_password sv hash p w = (Inr (sv_match sv hash p), w\<lparr>bcrypts := bcrypts w + 1\<rparr>)"

end
