(* ===== verification/Web_Auth.thy ===== *)
theory Web_Auth
  imports Web_Base
begin

text \<open>
  Who calls: sessions, login and registration (src/internal/web/auth.go), API tokens
  (src/internal/web/tokens.go) and the middleware in front of every operation (src/internal/web/api.go).
\<close>

section \<open>Scopes\<close>

definition scopeSession :: string where "scopeSession = ''session''"

definition tokenScopes :: "string list" where
  "tokenScopes = [''sites:read'', ''sites:write'', ''antennas:read'', ''antennas:write'', ''links:read'', ''links:write'',
     ''coverages:read'', ''coverages:write'', ''hf:read'', ''account:read'']"

datatype requirement = NeedSession | NeedBearer string

text \<open>op: what an operation with the scope requires of its caller, and tokenScope.\<close>

definition op_security :: "string \<Rightarrow> requirement list" where
  "op_security scope = (if scope = [] then [] else if scope = scopeSession then [NeedSession] else [NeedBearer scope, NeedSession])"

fun tokenScope :: "requirement list \<Rightarrow> string" where
  "tokenScope [] = []"
| "tokenScope (NeedBearer s # rs) = s"
| "tokenScope (NeedSession # rs) = tokenScope rs"

text \<open>Why the caller's API token may not do what needs the scope; \<open>None\<close> when it may or the caller has a session.\<close>

definition tokenDenied :: "caller \<Rightarrow> string \<Rightarrow> string option" where
  "tokenDenied c scope = (case cl_token c of
     None \<Rightarrow> None
   | Some (_, scopes) \<Rightarrow>
      if scope = [] then Some ''API tokens cannot do this; log in to the web app.''
      else if scope \<notin> set scopes then Some (''This token lacks the scope '' @ scope @ ''.'')
      else None)"

definition cut_suffix :: "string \<Rightarrow> string \<Rightarrow> string option" where
  "cut_suffix s suffix = (if length suffix \<le> length s \<and> drop (length s - length suffix) s = suffix
     then Some (take (length s - length suffix) s) else None)"

definition wanted :: "string list \<Rightarrow> string \<Rightarrow> bool" where
  "wanted inp sc \<longleftrightarrow> (\<exists>x \<in> set inp. x \<in> set tokenScopes \<and>
     (x = sc \<or> (case cut_suffix x '':write'' of None \<Rightarrow> False | Some res \<Rightarrow> sc = res @ '':read'')))"

definition parseScopes :: "string list \<Rightarrow> check \<times> string list" where
  "parseScopes inp =
     (map (\<lambda>sc. (body_field ''scopes'', UnknownScope sc)) (filter (\<lambda>sc. sc \<notin> set tokenScopes) inp)
        @ (if inp = [] then [(body_field ''scopes'', Complaint ''Scopes: choose at least one'')] else []),
      filter (wanted inp) tokenScopes)"

section \<open>Identification\<close>

text \<open>Nobody, a refused token, or a database error.\<close>

datatype refusal = Nobody | Refused_token nat string | Broken

definition refused :: "store_error \<Rightarrow> refusal" where
  "refused e = (if e = ErrNotFound then Nobody else Broken)"

definition tokenWindow :: time where "tokenWindow = minutes 15"
definition tokenIPMax :: nat where "tokenIPMax = 20"
definition tokenMax :: nat where "tokenMax = 300"

definition tokenRe :: "string \<Rightarrow> bool" where
  "tokenRe s \<longleftrightarrow> take 3 s = ''rp_'' \<and> token_form (drop 3 s)"

definition sessionUser :: "server \<Rightarrow> request \<Rightarrow> (web, store_error, user_view) act" where
  "sessionUser sv r = (case rq_cookie r of
     None \<Rightarrow> raise ErrNotFound
   | Some c \<Rightarrow> on_store (SessionUser (sv_sid sv c) sessionIdle sessionTTL))"

text \<open>The secret of a Bearer header, when it has the form of a token.\<close>

definition bearer :: "string \<Rightarrow> string option" where
  "bearer h = (if take 7 h = ''Bearer '' \<and> tokenRe (drop 7 h) then Some (drop 7 h) else None)"

definition broken :: "'a store_op \<Rightarrow> (web, refusal, 'a) act" where
  "broken m = with_err (\<lambda>_. Broken) (on_store m)"

text \<open>\<open>err != nil\<close> of RateHit, RateCount and Maintenance is a store error that is never ErrNotFound.\<close>

definition admit_token :: "user_view \<times> int \<times> string list \<Rightarrow> (web, refusal, caller) act" where
  "admit_token = (\<lambda>(u, i, scopes).
     andthen (broken Maintenance) (\<lambda>on.
       if on then raise (Refused_token 503 maintenanceText)
       else andthen (broken (RateHit (''token:'' @ int_text i) (minutes 1))) (\<lambda>n.
         if tokenMax < n then raise (Refused_token 429 ''Too many requests with this token, try again in a minute.'')
         else ret \<lparr>cl_user = u, cl_token = Some (i, scopes)\<rparr>)))"

definition identify :: "server \<Rightarrow> request \<Rightarrow> (web, refusal, caller) act" where
  "identify sv r =
     (if rq_auth r = [] then andthen (with_err refused (sessionUser sv r)) (\<lambda>u. ret \<lparr>cl_user = u, cl_token = None\<rparr>)
      else let failKey = ''token:ip:'' @ clientIP sv r in
        andthen (broken (RateCount failKey tokenWindow)) (\<lambda>n.
          if tokenIPMax \<le> n then raise (Refused_token 429 (''Too many attempts. Try again in '' @ int_text (tokenWindow div minutes 1) @ '' minutes.''))
          else attempt (case bearer (rq_auth r) of None \<Rightarrow> raise ErrNotFound | Some s \<Rightarrow> on_store (TokenUser (sv_sid sv s))) (\<lambda>x.
            case x of
              Inl e \<Rightarrow> (if e = ErrNotFound
                 then andthen (broken (RateHit failKey tokenWindow)) (\<lambda>_. raise (Refused_token 401 ''Invalid, expired or revoked API token.''))
                 else raise Broken)
            | Inr t \<Rightarrow> admit_token t)))"

section \<open>Middleware\<close>

definition gate :: "requirement list \<Rightarrow> caller option \<Rightarrow> 'a handler \<Rightarrow> 'a handler" where
  "gate reqs c next_h =
     (if reqs = [] then next_h
      else case c of
        None \<Rightarrow> raise (Problem 401 ''Not logged in'' [])
      | Some cl \<Rightarrow>
         (case tokenDenied cl (tokenScope reqs) of
            Some msg \<Rightarrow> raise (Problem 403 msg [])
          | None \<Rightarrow> andthen (hit_or (''api:user:'' @ int_text (uv_id (cl_user cl))) (minutes 1) apiUserMax
               (Problem 429 ''Too many requests, try again in a minute.'' [])) (\<lambda>_. next_h)))"

text \<open>authenticate: without credentials nobody is rejected here; a bad token is.\<close>

definition authenticate :: "server \<Rightarrow> request \<Rightarrow> (caller option \<Rightarrow> 'a handler) \<Rightarrow> 'a handler" where
  "authenticate sv r next_h = attempt (identify sv r) (\<lambda>x. case x of
       Inr c \<Rightarrow> next_h (Some c)
     | Inl Nobody \<Rightarrow> next_h None
     | Inl (Refused_token st msg) \<Rightarrow> raise (Problem st msg [])
     | Inl Broken \<Rightarrow> raise (Problem 500 ''internal error'' []))"

definition privateSpec :: "string \<Rightarrow> caller option \<Rightarrow> 'a handler \<Rightarrow> 'a handler" where
  "privateSpec path c next_h =
     (if (has_prefix ''/api/openapi'' path \<or> has_prefix ''/api/schemas'' path) \<and> c = None
      then raise (Problem 401 ''not logged in'' []) else next_h)"

text \<open>requireUser in front of the binary routes.\<close>

definition requireUser :: "server \<Rightarrow> string \<Rightarrow> request \<Rightarrow> (caller \<Rightarrow> 'a handler) \<Rightarrow> 'a handler" where
  "requireUser sv scope r next_h = attempt (identify sv r) (\<lambda>x. case x of
       Inl Nobody \<Rightarrow> raise (Problem 401 ''not logged in'' [])
     | Inl (Refused_token st msg) \<Rightarrow> raise (Problem st msg [])
     | Inl Broken \<Rightarrow> raise (Problem 500 ''internal error'' [])
     | Inr c \<Rightarrow> (case tokenDenied c scope of Some msg \<Rightarrow> raise (Problem 403 msg []) | None \<Rightarrow> next_h c))"

text \<open>An operation of the JSON API with its scope behind the middleware.\<close>

definition api_call :: "server \<Rightarrow> string \<Rightarrow> string \<Rightarrow> request \<Rightarrow> (caller option \<Rightarrow> 'a handler) \<Rightarrow> 'a handler" where
  "api_call sv path scope r h = authenticate sv r (\<lambda>c. privateSpec path c (gate (op_security scope) c (h c)))"

section \<open>Sessions\<close>

record cookie =
  ck_value :: string
  ck_secure :: bool
  ck_max_age :: int

definition newSession :: "server \<Rightarrow> request \<Rightarrow> int \<Rightarrow> cookie handler" where
  "newSession sv r user = andthen the_time (\<lambda>now.
     andthen (stored (CreateSession (sv_sid sv (rq_fresh r)) user (now + sessionIdle))) (\<lambda>_.
       ret \<lparr>ck_value = rq_fresh r, ck_secure = secureCookie r, ck_max_age = sessionTTL div secs 1\<rparr>))"

text \<open>The cookie authenticate keeps for the handlers: none beside an Authorization header.\<close>

definition session_cookie :: "request \<Rightarrow> string" where
  "session_cookie r = (case rq_cookie r of Some c \<Rightarrow> if rq_auth r = [] then c else [] | None \<Rightarrow> [])"

definition logout :: "server \<Rightarrow> request \<Rightarrow> cookie handler" where
  "logout sv r = attempt (if session_cookie r = [] then ret () else on_store (DeleteSession (sv_sid sv (session_cookie r)))) (\<lambda>_.
     ret \<lparr>ck_value = [], ck_secure = secureCookie r, ck_max_age = - 1\<rparr>)"

section \<open>Login\<close>

definition loginLimits :: "string \<Rightarrow> string \<Rightarrow> (string \<times> nat) list" where
  "loginLimits name ip = [(''login:ip:'' @ ip, loginIPMax), (''login:pair:'' @ name @ '':'' @ ip, loginPairMax), (''login:user:'' @ name, loginUserMax)]"

fun within_limits :: "time \<Rightarrow> (string \<times> nat) list \<Rightarrow> unit handler" where
  "within_limits w [] = ret ()"
| "within_limits w ((key, most) # ls) =
     andthen (stored (RateCount key w)) (\<lambda>n. if most \<le> n then raise (tooMany w) else within_limits w ls)"

fun count_failure :: "time \<Rightarrow> (string \<times> nat) list \<Rightarrow> unit handler" where
  "count_failure w [] = ret ()"
| "count_failure w ((key, _) # ls) = attempt (on_store (RateHit key w)) (\<lambda>_. count_failure w ls)"

text \<open>An address stands for the name of its confirmed account.\<close>

definition loginName :: "string \<Rightarrow> string handler" where
  "loginName raw = (let name = lower (trim_space raw) in
     if CHR ''@'' \<in> set name
     then attempt (on_store (UserByEmail name)) (\<lambda>x. case x of
         Inr u \<Rightarrow> ret (uv_name u)
       | Inl e \<Rightarrow> if e = ErrNotFound then ret name else raise (storeErr e))
     else ret name)"

text \<open>The user and whether the password is right. For an unknown name the disjunction of the code ends before
  it compares with dummyHash.\<close>

definition check_credentials :: "server \<Rightarrow> string \<Rightarrow> string \<Rightarrow> user_view option handler" where
  "check_credentials sv name password = attempt (on_store (Credentials name)) (\<lambda>x. case x of
       Inl e \<Rightarrow> if e = ErrNotFound then ret None else raise (storeErr e)
     | Inr (u, hash) \<Rightarrow> andthen (compare_password sv hash password) (\<lambda>good. ret (if good then Some u else None)))"

definition login :: "server \<Rightarrow> request \<Rightarrow> string \<Rightarrow> string \<Rightarrow> cookie handler" where
  "login sv r raw password =
     andthen maintenanceErr (\<lambda>_. andthen (loginName raw) (\<lambda>name.
       let limits = loginLimits name (clientIP sv r) in
       andthen (within_limits loginWindow limits) (\<lambda>_.
       andthen (check_credentials sv name password) (\<lambda>x. case x of
         None \<Rightarrow> andthen (count_failure loginWindow limits) (\<lambda>_. raise (Problem 401 ''Wrong user name or password.'' []))
       | Some u \<Rightarrow>
          if \<not> uv_verified u
          then raise (Problem 403 ''Your address is not confirmed yet. Open the link from the mail we sent you, or request a new one.'' [])
          else newSession sv r (uv_id u)))))"

section \<open>Registration\<close>

definition verifyTTL :: time where "verifyTTL = hours 24"
definition resetTTL :: time where "resetTTL = hours 1"

definition sendLink :: "server \<Rightarrow> request \<Rightarrow> int \<Rightarrow> string \<Rightarrow> string \<Rightarrow> purpose \<Rightarrow> unit handler" where
  "sendLink sv r user name email pu = andthen the_time (\<lambda>now.
     let ttl = (if pu = TokenVerify then verifyTTL else resetTTL);
         url = sv_base sv @ (if pu = TokenVerify then ''/verify#'' else ''/reset#'') @ rq_fresh r
     in andthen (stored (CreateEmailToken (sv_sid sv (rq_fresh r)) user email pu (now + ttl))) (\<lambda>_.
       mailLater sv email (if pu = TokenVerify then VerifyMail name url else ResetMail name url)))"

definition register_checks :: "server \<Rightarrow> string \<Rightarrow> string \<Rightarrow> string \<Rightarrow> check" where
  "register_checks sv name email password =
     (if userNameRe name then [] else [(''body.name'', Complaint userNameRule)])
     @ (if validEmail sv email = None then [(''body.email'', Complaint ''Email: not a valid address'')] else [])
     @ map (\<lambda>m. (''body.password'', Complaint m)) (validatePassword password)"

text \<open>The one mail of a registration that passed the checks and limits.\<close>

definition register_mail :: "server \<Rightarrow> request \<Rightarrow> string \<Rightarrow> string \<Rightarrow> string \<Rightarrow> unit handler" where
  "register_mail sv r name email hash = attempt (on_store (UserByEmail email)) (\<lambda>x. case x of
       Inr u \<Rightarrow> mailLater sv email (KnownMail (uv_name u) (sv_base sv @ ''/forgot''))
     | Inl e \<Rightarrow>
        if e \<noteq> ErrNotFound then raise (storeErr e)
        else attempt (on_store (Register name email hash)) (\<lambda>y. case y of
          Inl e' \<Rightarrow> if e' = ErrExists then mailLater sv email (NameTakenMail name (sv_base sv @ ''/register'')) else raise (storeErr e')
        | Inr i \<Rightarrow> sendLink sv r i name email TokenVerify))"

definition register :: "server \<Rightarrow> request \<Rightarrow> string \<Rightarrow> string \<Rightarrow> string \<Rightarrow> unit handler" where
  "register sv r raw email password =
     (if \<not> sv_registration sv \<or> \<not> sv_mail sv then raise (Problem 404 ''Registration is closed'' [])
      else andthen maintenanceErr (\<lambda>_.
        andthen (hit_or (''register:ip:'' @ clientIP sv r) registerWindow registerIPMax (tooMany registerWindow)) (\<lambda>_.
        let name = lower (trim_space raw) in
        andthen (check_err (register_checks sv name email password)) (\<lambda>_.
        case validEmail sv email of
          None \<Rightarrow> ret ()
        | Some addr \<Rightarrow>
           andthen (hit_or (''register:mail:'' @ lower addr) registerWindow registerMailMax (tooMany registerWindow)) (\<lambda>_.
           andthen (hash_password sv password) (\<lambda>hash. register_mail sv r name addr hash))))))"

end
