(* ===== verification/Web_Account.thy ===== *)
theory Web_Account
  imports Web_Auth Resources Plot
begin

text \<open>
  The operations on the account (src/internal/web/account.go), on API tokens
  (src/internal/web/tokens.go), on sites (src/internal/web/sites.go), the legend of a coverage
  (src/internal/web/legend.go) and the limits of shared pages (src/internal/web/share.go). Each is
  the handler behind the middleware of theory Web_Auth.
\<close>

section \<open>The account of the caller\<close>

definition mailWindow :: time where "mailWindow = hours 1"
definition forgotIPMax :: nat where "forgotIPMax = 5"
definition forgotMailMax :: nat where "forgotMailMax = 3"
definition verifyUserMax :: nat where "verifyUserMax = 3"

definition checkPassword :: "server \<Rightarrow> user_view \<Rightarrow> string \<Rightarrow> string \<Rightarrow> unit handler" where
  "checkPassword sv u password field =
     andthen (stored (Credentials (uv_name u))) (\<lambda>(_, hash).
     andthen (compare_password sv hash password) (\<lambda>good.
       if good then ret () else raise (Problem 422 ''Invalid input'' [(field, Complaint ''Current password is wrong'')])))"

definition setPassword :: "server \<Rightarrow> string \<Rightarrow> string \<Rightarrow> unit handler" where
  "setPassword sv name password =
     andthen (hash_password sv password) (\<lambda>hash.
     andthen (stored (SetPassword name hash)) (\<lambda>_.
     andthen (stored (DeleteUserSessions name)) (\<lambda>_. ret ())))"

text \<open>A confirmation link, unless the user had too many.\<close>

definition sendVerification :: "server \<Rightarrow> request \<Rightarrow> user_view \<Rightarrow> string \<Rightarrow> bool handler" where
  "sendVerification sv r u email =
     andthen (stored (RateHit (''verify:user:'' @ int_text (uv_id u)) mailWindow)) (\<lambda>n.
       if verifyUserMax < n then ret False
       else andthen (sendLink sv r (uv_id u) (uv_name u) email TokenVerify) (\<lambda>_. ret True))"

definition bad_email :: problem where
  "bad_email = Problem 422 ''Invalid input'' [(''body.email'', Complaint ''Email: not a valid address'')]"

definition set_my_email :: "server \<Rightarrow> request \<Rightarrow> user_view \<Rightarrow> string \<Rightarrow> string \<Rightarrow> nat handler" where
  "set_my_email sv r u raw password =
     (if \<not> sv_mail sv then raise (Problem 404 ''Mail is not configured on this server, so the address cannot be confirmed.'' [])
      else andthen (checkPassword sv u password ''body.password'') (\<lambda>_.
        case validEmail sv raw of
          None \<Rightarrow> raise bad_email
        | Some email \<Rightarrow>
            if lower email = lower (uv_email u) then ret 204
            else andthen (sendVerification sv r u email) (\<lambda>sent. if sent then ret 202 else raise (tooMany mailWindow))))"

definition password_problem :: "string \<Rightarrow> unit handler" where
  "password_problem password = check_err (map (\<lambda>m. (''body.password'', Complaint m)) (validatePassword password))"

definition set_my_password :: "server \<Rightarrow> request \<Rightarrow> user_view \<Rightarrow> string \<Rightarrow> string \<Rightarrow> cookie handler" where
  "set_my_password sv r u old password =
     andthen (checkPassword sv u old ''body.current'') (\<lambda>_.
     andthen (password_problem password) (\<lambda>_.
     andthen (setPassword sv (uv_name u) password) (\<lambda>_. newSession sv r (uv_id u))))"

definition delete_my_other_sessions :: "server \<Rightarrow> request \<Rightarrow> user_view \<Rightarrow> nat handler" where
  "delete_my_other_sessions sv r u = stored (DeleteOtherSessions (uv_id u) (sv_sid sv (session_cookie r)))"

section \<open>Links from mails\<close>

definition noMail :: problem where
  "noMail = Problem 404 ''Mail is not configured'' []"

definition staleLink :: string where
  "staleLink = ''This link has expired or was already used. Request a new one.''"

text \<open>ErrNotFound is an answer of its own, any other error that of storeErr.\<close>

definition or_gone :: "'a store_op \<Rightarrow> string \<Rightarrow> 'a handler" where
  "or_gone m msg = with_err (\<lambda>e. if e = ErrNotFound then Problem 410 msg [] else storeErr e) (on_store m)"

definition verify_email :: "server \<Rightarrow> string \<Rightarrow> unit handler" where
  "verify_email sv token =
     (if \<not> sv_mail sv then raise noMail
      else andthen (or_gone (ConsumeEmailToken (sv_sid sv token) TokenVerify)
          ''This confirmation link has expired or was already used. Log in to get a new one.'') (\<lambda>(u, email).
        andthen (with_err (\<lambda>e. if e = ErrExists then Problem 409 ''That address is already used by another account.'' [] else storeErr e)
          (on_store (SetEmail (uv_id u) email))) (\<lambda>_.
        if uv_email u \<noteq> [] \<and> lower (uv_email u) \<noteq> lower email
        then mailLater sv (uv_email u) (ChangedMail (uv_name u) (sv_base sv @ ''/forgot'')) else ret ())))"

definition resend_verification :: "server \<Rightarrow> request \<Rightarrow> string \<Rightarrow> unit handler" where
  "resend_verification sv r raw =
     (if \<not> sv_mail sv then raise noMail
      else attempt (on_store (Credentials (lower (trim_space raw)))) (\<lambda>x. case x of
        Inl e \<Rightarrow> if e = ErrNotFound then ret () else raise (storeErr e)
      | Inr (u, _) \<Rightarrow>
          if uv_verified u then ret ()
          else attempt (on_store (PendingEmail (uv_id u))) (\<lambda>y. case y of
            Inl e \<Rightarrow> if e = ErrNotFound then ret () else raise (storeErr e)
          | Inr email \<Rightarrow> andthen (sendVerification sv r u email) (\<lambda>_. ret ()))))"

definition forgot_password :: "server \<Rightarrow> request \<Rightarrow> string \<Rightarrow> unit handler" where
  "forgot_password sv r raw =
     (if \<not> sv_mail sv then raise noMail
      else case validEmail sv raw of
        None \<Rightarrow> raise bad_email
      | Some email \<Rightarrow>
         andthen (hit_or (''forgot:ip:'' @ clientIP sv r) mailWindow forgotIPMax (tooMany mailWindow)) (\<lambda>_.
         andthen (hit_or (''forgot:mail:'' @ lower email) mailWindow forgotMailMax (tooMany mailWindow)) (\<lambda>_.
         attempt (on_store (UserByEmail email)) (\<lambda>x. case x of
           Inl e \<Rightarrow> if e = ErrNotFound then ret () else raise (storeErr e)
         | Inr u \<Rightarrow> sendLink sv r (uv_id u) (uv_name u) email TokenReset))))"

definition check_reset_token :: "server \<Rightarrow> string \<Rightarrow> unit handler" where
  "check_reset_token sv token =
     (if \<not> sv_mail sv then raise noMail
      else andthen (stored (EmailTokenValid (sv_sid sv token) TokenReset)) (\<lambda>ok.
        if ok then ret () else raise (Problem 410 staleLink [])))"

definition reset_password :: "server \<Rightarrow> string \<Rightarrow> string \<Rightarrow> unit handler" where
  "reset_password sv token password =
     (if \<not> sv_mail sv then raise noMail
      else andthen (password_problem password) (\<lambda>_.
        andthen (or_gone (ConsumeEmailToken (sv_sid sv token) TokenReset) staleLink) (\<lambda>(u, _).
        setPassword sv (uv_name u) password)))"

section \<open>API tokens\<close>

record token_answer =
  ta_token :: token_view
  ta_expired :: bool

definition toToken :: "time \<Rightarrow> token_view \<Rightarrow> token_answer" where
  "toToken now t = \<lparr>ta_token = t, ta_expired = (case tv_expires t of None \<Rightarrow> False | Some e \<Rightarrow> e \<le> now)\<rparr>"

definition list_my_tokens :: "user_view \<Rightarrow> token_answer list handler" where
  "list_my_tokens u = andthen (stored (ListTokens (uv_id u))) (\<lambda>ts. andthen the_time (\<lambda>now. ret (map (toToken now) ts)))"

definition create_my_token :: "server \<Rightarrow> request \<Rightarrow> user_view \<Rightarrow> string \<Rightarrow> string list \<Rightarrow> time option \<Rightarrow> string
    \<Rightarrow> (token_answer \<times> string) handler" where
  "create_my_token sv r u raw inp expires password = andthen the_time (\<lambda>now.
     let name = trim_space raw; (c, scopes) = parseScopes inp; secret = ''rp_'' @ rq_fresh r;
         late = (case expires of None \<Rightarrow> [] | Some e \<Rightarrow> if now < e then [] else [(body_field ''expires_at'', Complaint ''Expires: must be in the future'')])
     in andthen (check_err (check_text ''name'' ''Name'' name @ c @ late)) (\<lambda>_.
        andthen (checkPassword sv u password ''body.password'') (\<lambda>_.
        andthen (with_err (\<lambda>e. if e = ErrQuota then Problem 422 (''Limit of '' @ int_text (int MaxTokensPerUser) @ '' tokens reached; revoke one first'') [] else storeErr e)
          (on_store (CreateToken (uv_id u) name (take 11 secret) (sv_sid sv secret) scopes expires))) (\<lambda>t.
        andthen (if uv_email u = [] then ret () else mailLater sv (uv_email u) (TokenCreatedMail (uv_name u) name scopes (tv_expires t))) (\<lambda>_.
        ret (toToken now t, secret))))))"

definition delete_my_token :: "user_view \<Rightarrow> int \<Rightarrow> unit handler" where
  "delete_my_token u ident = stored (DeleteToken (uv_id u) ident)"

section \<open>Sites\<close>

record site_input =
  si_name :: string
  si_lat :: f64
  si_lon :: f64
  si_height :: f64

definition parseSite :: "site_input \<Rightarrow> int \<Rightarrow> site handler" where
  "parseSite i owner = andthen (check_err (check_text ''name'' ''Name'' (si_name i)
       @ check_num ''lat'' ''Latitude'' (si_lat i) (- 90) 90 @ check_num ''lon'' ''Longitude'' (si_lon i) (- 180) 180
       @ check_num ''antenna_height_m'' ''Antenna height'' (si_height i) (1/2) 3000)) (\<lambda>_.
     ret \<lparr>site_id = 0, site_owner = owner, site_name = si_name i, site_lat = si_lat i, site_lon = si_lon i, site_height = si_height i\<rparr>)"

definition list_sites :: "(string \<Rightarrow> string) \<Rightarrow> user_view \<Rightarrow> site list handler" where
  "list_sites coll u = stored (ListSites coll (uv_id u))"

definition create_site :: "user_view \<Rightarrow> site_input \<Rightarrow> site handler" where
  "create_site u i = andthen (parseSite i (uv_id u)) (\<lambda>st.
     andthen (with_err (\<lambda>e. if e = ErrQuota then Problem 422 (''Limit of '' @ int_text (int MaxSitesPerUser) @ '' sites reached'') [] else storeErr e) (on_store (CreateSite st)))
       (\<lambda>ident. ret (st\<lparr>site_id := ident\<rparr>)))"

definition get_site :: "user_view \<Rightarrow> int \<Rightarrow> site handler" where
  "get_site u ident = stored (GetSite (uv_id u) ident)"

definition update_site_op :: "user_view \<Rightarrow> int \<Rightarrow> site_input \<Rightarrow> site handler" where
  "update_site_op u ident i = andthen (parseSite i (uv_id u)) (\<lambda>st.
     andthen (stored (UpdateSite (st\<lparr>site_id := ident\<rparr>))) (\<lambda>_. ret (st\<lparr>site_id := ident\<rparr>)))"

definition delete_site_op :: "user_view \<Rightarrow> int \<Rightarrow> unit handler" where
  "delete_site_op u ident = with_err (\<lambda>e. if e = ErrInUse
     then Problem 409 ''Site is used by a link or coverage and cannot be deleted.'' [] else storeErr e) (on_store (DeleteSite (uv_id u) ident))"

section \<open>Legends\<close>

definition set_coverage_legend :: "(legend_error \<Rightarrow> string) \<Rightarrow> user_view \<Rightarrow> int \<Rightarrow> (f64 \<times> string) list \<Rightarrow> unit handler" where
  "set_coverage_legend text u ident bins =
     (if bins = [] then stored (SetCoverageLegend (uv_id u) ident [] [])
      else case NewLegend (map fst bins) (map snd bins) of
        Inl e \<Rightarrow> raise (Problem 422 ''Invalid input'' [(''body.bins'', Complaint (text e))])
      | Inr l \<Rightarrow> stored (SetCoverageLegend (uv_id u) ident (map Fin (Mins l)) (HexList l)))"

section \<open>Shared pages\<close>

definition shareWindow :: time where "shareWindow = hours 1"
definition shareMax :: nat where "shareMax = 120"

definition shareHit :: "string \<Rightarrow> string \<Rightarrow> unit handler" where
  "shareHit kind token =
     (if \<not> token_form token then raise (Problem 404 ''Not found'' [])
      else andthen (stored (ShareExists kind token)) (\<lambda>ok.
        if \<not> ok then raise (Problem 404 ''Not found'' [])
        else hit_or (''share:'' @ token) shareWindow shareMax
          (Problem 429 ''Too many requests for this shared page, try again later'' [])))"

text \<open>shareLimit in front of the routes /s/<kind>/<token>/...\<close>

definition shareLimit :: "string \<Rightarrow> 'a handler \<Rightarrow> 'a handler" where
  "shareLimit path next_h = (let parts = split_on CHR ''/'' path in
     if length parts < 4 \<or> parts ! 3 = [] then raise (Problem 404 ''404 page not found'' [])
     else andthen (with_err (\<lambda>p. if status p = 429 then Problem 429 ''too many requests'' []
            else if status p = 404 then Problem 404 ''404 page not found'' [] else Problem 500 ''internal error'' [])
          (shareHit (parts ! 2) (parts ! 3))) (\<lambda>_. next_h))"

end
