(* ===== verification/Web_Facts.thy ===== *)
theory Web_Facts
  imports Web_Account Store_Claims
begin

text \<open>
  Lemmas about handlers: what a handler that answered with a value did step by step, how it runs on
  a working connection, and when two runs cannot be told apart by their answers.
\<close>

section \<open>Inversion\<close>

abbreviation db_of :: "web \<Rightarrow> db" where "db_of w \<equiv> tabs (web_store w)"
abbreviation now_of :: "web \<Rightarrow> time" where "now_of w \<equiv> clock (web_store w)"

lemma andthen_Inr: "andthen m f s = (Inr y, t) \<longleftrightarrow> (\<exists>x u. m s = (Inr x, u) \<and> f x u = (Inr y, t))"
  by (auto simp: andthen_def split: prod.splits sum.splits)

lemma andthen_InrE:
  assumes "andthen m f s = (Inr y, t)"
  obtains x u where "m s = (Inr x, u)" "f x u = (Inr y, t)"
  using assms by (auto simp: andthen_Inr)

lemma on_store_run: "m (web_store w) = (r, s) \<Longrightarrow> on_store m w = (r, w\<lparr>web_store := s\<rparr>)"
  by (simp add: on_store_def)

lemma on_storeE:
  assumes "on_store m w = (r, w')"
  obtains s where "m (web_store w) = (r, s)" "w' = w\<lparr>web_store := s\<rparr>"
  using assms by (auto simp: on_store_def split: prod.splits)

lemma storedE:
  assumes "stored m w = (Inr x, w')"
  obtains s where "m (web_store w) = (Inr x, s)" "w' = w\<lparr>web_store := s\<rparr>"
  using assms by (auto simp: stored_def with_err_def on_store_def split: prod.splits sum.splits)

lemma attempt_run: "attempt m f w = f (fst (m w)) (snd (m w))"
  by (simp add: attempt_def split: prod.splits)

lemma attemptE:
  assumes "attempt m f w = (r, t)"
  obtains q u where "m w = (q, u)" "f q u = (r, t)"
  using assms by (auto simp: attempt_def split: prod.splits)

lemma RateCount_storedE:
  assumes "stored (RateCount key win) w = (Inr n, w')"
  shows "n = rate_peek key win (now_of w) (rate_limits (db_of w))" "db_of w' = db_of w" "now_of w' = now_of w"
  using assms by (auto elim!: storedE dest!: RateCount_Inr)

lemma Maintenance_storedE:
  assumes "stored Maintenance w = (Inr b, w')"
  shows "b = in_maintenance (db_of w)" "db_of w' = db_of w" "now_of w' = now_of w"
  using assms by (auto elim!: storedE dest!: Maintenance_Inr)

lemma maintenanceErr_Inr:
  assumes "maintenanceErr w = (Inr u, w')"
  shows "\<not> in_maintenance (db_of w)" "db_of w' = db_of w" "now_of w' = now_of w"
  using assms unfolding maintenanceErr_def
  by (auto elim!: andthen_InrE dest: Maintenance_storedE split: if_splits)

lemma within_limits_Inr:
  "within_limits win ls w = (Inr u, w') \<Longrightarrow>
    (\<forall>(key, most) \<in> set ls. rate_peek key win (now_of w) (rate_limits (db_of w)) < most)
    \<and> db_of w' = db_of w \<and> now_of w' = now_of w"
proof (induction ls arbitrary: w)
  case (Cons l ls)
  obtain key most where l: "l = (key, most)" by (cases l)
  from Cons.prems l obtain n v where c: "stored (RateCount key win) w = (Inr n, v)"
    and rest: "(if most \<le> n then raise (tooMany win) else within_limits win ls) v = (Inr u, w')"
    by (auto elim: andthen_InrE)
  note peek = RateCount_storedE [OF c]
  from rest have lt: "n < most" and "within_limits win ls v = (Inr u, w')" by (auto split: if_splits)
  from Cons.IH [OF this(2)] peek lt l show ?case by simp
qed simp

section \<open>A working connection\<close>

definition working :: "web \<Rightarrow> bool" where
  "working w \<longleftrightarrow> wire_script (web_store w) = []"

definition with_db :: "db \<Rightarrow> web \<Rightarrow> web" where
  "with_db d w = w\<lparr>web_store := (web_store w)\<lparr>tabs := d\<rparr>\<rparr>"

lemma with_db_simps [simp]:
  "db_of (with_db d w) = d" "now_of (with_db d w) = now_of w" "working (with_db d w) = working w"
  "bcrypts (with_db d w) = bcrypts w" "mailed (with_db d w) = mailed w" "with_db (db_of w) w = w"
  "with_db e (with_db d w) = with_db e w"
  by (simp_all add: with_db_def working_def)

lemma on_store_exec: "working w \<Longrightarrow> on_store (exec q) w = (case q (now_of w) (db_of w) of (r, d) \<Rightarrow> (r, with_db d w))"
  by (simp add: on_store_def working_def exec_ok with_db_def split: prod.splits)

lemma on_store_reading: "working w \<Longrightarrow> on_store (exec (reading f)) w = (f (now_of w) (db_of w), w)"
  by (simp add: on_store_exec reading_def)

lemma hit_run:
  assumes "working w"
  shows "on_store (RateHit key win) w = (case rate_upsert key win (now_of w) (rate_limits (db_of w)) of (n, rows) \<Rightarrow>
     (Inr n, with_db ((db_of w)\<lparr>rate_limits := rows\<rparr>) w))"
  by (simp add: RateHit_def on_store_exec [OF assms] split: prod.splits)

lemma count_run: "working w \<Longrightarrow> on_store (RateCount key win) w = (Inr (rate_peek key win (now_of w) (rate_limits (db_of w))), w)"
  by (simp add: RateCount_def on_store_reading)

lemma maintenance_run: "working w \<Longrightarrow> on_store Maintenance w = (Inr (in_maintenance (db_of w)), w)"
  by (auto simp: Maintenance_def on_store_reading in_maintenance_def split: option.splits)

lemma credentials_run: "working w \<Longrightarrow> on_store (Credentials name) w =
    (some_row (map_option (\<lambda>u. (scanUser u, u_password u)) (find (user_named name) (users (db_of w)))), w)"
  by (simp add: Credentials_def on_store_reading)

lemma user_by_email_run: "working w \<Longrightarrow> on_store (UserByEmail email) w =
    (some_row (map_option scanUser (find (has_email email) (users (db_of w)))), w)"
  by (simp add: UserByEmail_def on_store_reading)

lemma stored_run: "on_store m w = (Inr x, v) \<Longrightarrow> stored m w = (Inr x, v)"
  by (simp add: stored_def with_err_def)

lemma andthen_run: "m w = (Inr x, v) \<Longrightarrow> andthen m f w = f x v"
  by (simp add: andthen_def)

lemma andthen_fails: "m w = (Inl e, v) \<Longrightarrow> andthen m f w = (Inl e, v)"
  by (simp add: andthen_def)

section \<open>Answers that tell nothing\<close>

text \<open>Related states get the same answer from both handlers and stay related.\<close>

definition alike :: "('s \<Rightarrow> 's \<Rightarrow> bool) \<Rightarrow> ('s, 'e, 'a) act \<Rightarrow> ('s, 'e, 'a) act \<Rightarrow> bool" where
  "alike R m n \<longleftrightarrow> (\<forall>v w. R v w \<longrightarrow> fst (m v) = fst (n w) \<and> R (snd (m v)) (snd (n w)))"

lemma alikeD: "alike R m n \<Longrightarrow> R v w \<Longrightarrow> fst (m v) = fst (n w) \<and> R (snd (m v)) (snd (n w))"
  by (simp add: alike_def)

lemma alike_ret: "alike R (ret x) (ret x)"
  by (simp add: alike_def)

lemma alike_raise: "alike R (raise e) (raise e)"
  by (simp add: alike_def)

lemma alike_andthen:
  assumes "alike R m n" "\<And>x. alike R (f x) (g x)"
  shows "alike R (andthen m f) (andthen n g)"
  unfolding alike_def
proof (intro allI impI)
  fix v w assume "R v w"
  from alikeD [OF assms(1) this]
  show "fst (andthen m f v) = fst (andthen n g w) \<and> R (snd (andthen m f v)) (snd (andthen n g w))"
    using alikeD [OF assms(2)] by (cases "m v"; cases "n w") (auto simp: andthen_def split: sum.splits)
qed

lemma alike_with_err: "alike R m n \<Longrightarrow> alike R (with_err h m) (with_err h n)"
  unfolding alike_def with_err_def by (fastforce split: prod.splits sum.splits)

lemma alike_if: "(b \<Longrightarrow> alike R m n) \<Longrightarrow> (\<not> b \<Longrightarrow> alike R m' n') \<Longrightarrow> alike R (if b then m else m') (if b then n else n')"
  by simp

lemma alike_case_option:
  "(x = None \<Longrightarrow> alike R m n) \<Longrightarrow> (\<And>y. x = Some y \<Longrightarrow> alike R (f y) (g y))
    \<Longrightarrow> alike R (case x of None \<Rightarrow> m | Some y \<Rightarrow> f y) (case x of None \<Rightarrow> n | Some y \<Rightarrow> g y)"
  by (cases x) auto

lemmas alike_intros = alike_ret alike_raise alike_andthen alike_with_err alike_if alike_case_option

text \<open>What anybody may know of the state, and the states a request can meet.\<close>

definition public :: "web \<Rightarrow> time \<times> rate_limit list \<times> (string \<times> string) list \<times> nat" where
  "public w = (now_of w, rate_limits (db_of w), settings (db_of w), bcrypts w)"

definition unused :: "string \<Rightarrow> web \<Rightarrow> bool" where
  "unused ident w \<longleftrightarrow> (\<forall>t \<in> set (email_tokens (db_of w)). et_id t \<noteq> ident)"

definition peers :: "string \<Rightarrow> web \<Rightarrow> web \<Rightarrow> bool" where
  "peers ident v w \<longleftrightarrow> public v = public w \<and> working v \<and> working w \<and> unused ident v \<and> unused ident w"

lemma alike_hit: "alike (peers i) (on_store (RateHit key win)) (on_store (RateHit key win))"
  by (auto simp: alike_def peers_def hit_run public_def unused_def split: prod.splits)

lemma alike_maintenance: "alike (peers i) maintenanceErr maintenanceErr"
proof -
  have "in_maintenance (db_of v) = in_maintenance (db_of w)" if "peers i v w" for v w
    using that by (simp add: peers_def public_def in_maintenance_def)
  then have "alike (peers i) (on_store Maintenance) (on_store Maintenance)"
    by (auto simp: alike_def maintenance_run peers_def)
  then show ?thesis unfolding maintenanceErr_def stored_def
    by (intro alike_intros)
qed

lemma alike_hit_or: "alike (peers i) (hit_or key win most p) (hit_or key win most p)"
  unfolding hit_or_def stored_def by (intro alike_intros alike_hit)

lemma alike_hash: "alike (peers i) (hash_password sv p) (hash_password sv p)"
  by (auto simp: alike_def hash_password_def peers_def public_def working_def unused_def split: option.splits)

text \<open>The answer and the work are the same, the states afterwards may differ.\<close>

definition answers :: "string \<Rightarrow> 'a handler \<Rightarrow> bool" where
  "answers i m \<longleftrightarrow> (\<forall>v w. peers i v w \<longrightarrow> fst (m v) = fst (m w) \<and> bcrypts (snd (m v)) = bcrypts (snd (m w)))"

lemma answersD: "answers i m \<Longrightarrow> peers i v w \<Longrightarrow> fst (m v) = fst (m w) \<and> bcrypts (snd (m v)) = bcrypts (snd (m w))"
  by (simp add: answers_def)

lemma answers_alike: "alike (peers i) m m \<Longrightarrow> answers i m"
  by (auto simp: answers_def alike_def peers_def public_def)

lemma answers_andthen:
  assumes "alike (peers i) m m" "\<And>x. answers i (f x)"
  shows "answers i (andthen m f)"
  unfolding answers_def
proof (intro allI impI)
  fix v w assume "peers i v w"
  from alikeD [OF assms(1) this]
  show "fst (andthen m f v) = fst (andthen m f w) \<and> bcrypts (snd (andthen m f v)) = bcrypts (snd (andthen m f w))"
    using answersD [OF assms(2)]
    by (cases "m v"; cases "m w") (auto simp: andthen_def peers_def public_def split: sum.splits)
qed

lemma answers_if: "(b \<Longrightarrow> answers i m) \<Longrightarrow> (\<not> b \<Longrightarrow> answers i n) \<Longrightarrow> answers i (if b then m else n)"
  by simp

lemma answers_case_option:
  "(x = None \<Longrightarrow> answers i m) \<Longrightarrow> (\<And>y. x = Some y \<Longrightarrow> answers i (f y)) \<Longrightarrow> answers i (case x of None \<Rightarrow> m | Some y \<Rightarrow> f y)"
  by (cases x) auto

text \<open>A handler that always answers nothing without hashing.\<close>

definition silent :: "string \<Rightarrow> unit handler \<Rightarrow> web \<Rightarrow> bool" where
  "silent i m w \<longleftrightarrow> fst (m w) = Inr () \<and> bcrypts (snd (m w)) = bcrypts w"

lemma answers_silent: "(\<And>w. working w \<Longrightarrow> unused i w \<Longrightarrow> silent i m w) \<Longrightarrow> answers i m"
  by (simp add: answers_def silent_def peers_def public_def)

lemmas answers_intros = answers_andthen answers_if answers_case_option answers_alike

section \<open>Mails\<close>

lemma mailLater_run: "fst (mailLater sv to l w) = Inr ()" "bcrypts (snd (mailLater sv to l w)) = bcrypts w"
  by (simp_all add: mailLater_def)

lemma create_email_token_run:
  assumes "working w" "unused i w" "list_ex (\<lambda>u. u_id u = user) (users (db_of w))"
  shows "\<exists>d. on_store (CreateEmailToken i user email pu expires) w = (Inr (), with_db d w)"
  using assms by (auto simp: CreateEmailToken_def on_store_exec unused_def list_ex_iff)

lemma sendLink_silent:
  assumes "working w" "unused (sv_sid sv (rq_fresh r)) w" "list_ex (\<lambda>u. u_id u = user) (users (db_of w))"
  shows "silent i (sendLink sv r user name email pu) w"
proof -
  define x where "x = now_of w + (if pu = TokenVerify then verifyTTL else resetTTL)"
  obtain d where run: "on_store (CreateEmailToken (sv_sid sv (rq_fresh r)) user email pu x) w = (Inr (), with_db d w)"
    using create_email_token_run [OF assms] by blast
  show ?thesis
    using stored_run [OF run] by (simp add: silent_def sendLink_def andthen_def the_time_def Let_def x_def mailLater_run)
qed

lemma found_user: "find p (users d) = Some u \<Longrightarrow> list_ex (\<lambda>x. u_id x = uv_id (scanUser u)) (users d)"
  by (auto simp: list_ex_iff scanUser_def dest!: find_SomeD)

end
