(* ===== verification/Web_Claims.thy ===== *)
theory Web_Claims
  imports Web_Facts
begin

text \<open>
  What the server promises about who may do what: logging in, the scopes of API tokens, the
  middleware, and the public mail flows.
\<close>

section \<open>The public mail flows\<close>

lemma forgot_answers: "answers (sv_sid sv (rq_fresh r)) (forgot_password sv r raw)"
proof -
  have last: "silent i (attempt (on_store (UserByEmail email)) (\<lambda>x. case x of
           Inl e \<Rightarrow> if e = ErrNotFound then ret () else raise (storeErr e)
         | Inr u \<Rightarrow> sendLink sv r (uv_id u) (uv_name u) email TokenReset)) w"
    if "working w" "unused (sv_sid sv (rq_fresh r)) w" for i email w
  proof (cases "find (has_email email) (users (db_of w))")
    case None
    then show ?thesis by (simp add: silent_def attempt_run user_by_email_run [OF that(1)])
  next
    case (Some u)
    then show ?thesis
      using sendLink_silent [OF that found_user [OF Some], of i]
      by (simp add: silent_def attempt_run user_by_email_run [OF that(1)])
  qed
  show ?thesis unfolding forgot_password_def
    by (intro answers_intros alike_intros alike_hit_or answers_silent [OF last])
qed

lemma register_mail_silent:
  assumes "working w" "unused (sv_sid sv (rq_fresh r)) w"
  shows "silent i (register_mail sv r name email hash) w"
proof (cases "find (has_email email) (users (db_of w))")
  case (Some u)
  then show ?thesis by (simp add: silent_def register_mail_def attempt_run user_by_email_run [OF assms(1)] mailLater_run)
next
  case None
  note none = this
  show ?thesis
  proof (cases "list_ex (user_named name) (users (db_of w))")
    case True
    with none show ?thesis
      by (simp add: silent_def register_mail_def attempt_run user_by_email_run [OF assms(1)] Register_def on_store_exec [OF assms(1)]
          insert_user_def mailLater_run)
  next
    case False
    define d where "d = snd (insert_user name (Some email) None hash (now_of w) (db_of w))"
    have reg: "on_store (Register name email hash) w = (Inr (next_id (db_of w)), with_db d w)"
      using False by (simp add: Register_def on_store_exec [OF assms(1)] insert_user_def d_def)
    have "working (with_db d w)" "unused (sv_sid sv (rq_fresh r)) (with_db d w)"
      "list_ex (\<lambda>u. u_id u = next_id (db_of w)) (users (db_of (with_db d w)))"
      using assms False by (simp_all add: d_def insert_user_def unused_def new_user_def)
    from sendLink_silent [OF this, of i] none show ?thesis
      by (simp add: silent_def register_mail_def attempt_run user_by_email_run [OF assms(1)] reg)
  qed
qed

lemma register_answers: "answers (sv_sid sv (rq_fresh r)) (register sv r raw email password)"
  unfolding register_def Let_def check_err_def
  by (intro answers_intros alike_intros alike_hit_or alike_maintenance alike_hash answers_silent register_mail_silent)

definition demo_server :: server where
  "demo_server = \<lparr>sv_sid = id, sv_hash = Some, sv_match = (=), sv_address = (\<lambda>s. Some ([], s)), sv_registration = True,
     sv_mail = True, sv_base = [], sv_trust_proxy = False\<rparr>"

definition demo_request :: request where
  "demo_request = \<lparr>rq_auth = [], rq_cookie = Some ''s1'', rq_forwarded = [], rq_remote = ''::1'', rq_tls = True, rq_proto = [], rq_fresh = ''new''\<rparr>"

definition demo_web :: web where
  "demo_web = \<lparr>web_store = demo_store, mailed = [], bcrypts = 0,
     waits = \<lparr>jw_chan = Map.empty, jw_next = 0, jw_closed = []\<rparr>, streams = Map.empty\<rparr>"

lemma demo_web_simps [simp]:
  "db_of demo_web = demo_db" "now_of demo_web = 50" "working demo_web" "bcrypts demo_web = 0" "web_store demo_web = demo_store"
  by (simp_all add: demo_web_def working_def)

text \<open>C16: Accounts cannot be probed through the public mail flows: in two states that agree on the rate limits, the
  settings and the clock, asking for a reset link and registering give the same answer after the same number of bcrypt
  computations, whatever users and addresses the two databases hold.\<close>

theorem mail_flows_unprobeable:
  assumes "public v = public w" "working v" "working w"
    and "unused (sv_sid sv (rq_fresh r)) v" "unused (sv_sid sv (rq_fresh r)) w"
  shows "fst (forgot_password sv r raw v) = fst (forgot_password sv r raw w)
    \<and> bcrypts (snd (forgot_password sv r raw v)) = bcrypts (snd (forgot_password sv r raw w))
    \<and> fst (register sv r name email password v) = fst (register sv r name email password w)
    \<and> bcrypts (snd (register sv r name email password v)) = bcrypts (snd (register sv r name email password w))"
proof -
  have "peers (sv_sid sv (rq_fresh r)) v w" using assms by (simp add: peers_def)
  with answersD [OF forgot_answers] answersD [OF register_answers] show ?thesis by blast
qed

lemma mail_flows_unprobeable_witness:
  "fst (register demo_server demo_request ''ada'' ''ada@x.ch'' ''0123456789'' demo_web)
     = fst (register demo_server demo_request ''ada'' ''ada@x.ch'' ''0123456789'' (with_db empty_db demo_web))"
  using mail_flows_unprobeable [of demo_web "with_db empty_db demo_web" demo_server demo_request "[]" "''ada''" "''ada@x.ch''" "''0123456789''"]
  by (simp add: public_def unused_def demo_server_def demo_request_def demo_db_def empty_db_def)

section \<open>Logging in\<close>

lemma new_session_Inr:
  assumes "newSession sv r user w = (Inr c, w')"
  shows "ck_value c = rq_fresh r"
    and "sessions (db_of w') = sessions (db_of w) @
      [\<lparr>ss_id = sv_sid sv (rq_fresh r), ss_user = user, ss_created = now_of w, ss_expires = now_of w + sessionIdle\<rparr>]"
proof -
  let ?q = "CreateSession (sv_sid sv (rq_fresh r)) user (now_of w + sessionIdle)"
  from assms obtain u v where st: "stored ?q w = (Inr u, v)" and c: "c = \<lparr>ck_value = rq_fresh r, ck_secure = secureCookie r, ck_max_age = sessionTTL div secs 1\<rparr>"
    and v: "w' = v"
    by (auto simp: newSession_def andthen_Inr the_time_def)
  from c show "ck_value c = rq_fresh r" by simp
  from st obtain s where run: "?q (web_store w) = (Inr u, s)" and "v = w\<lparr>web_store := s\<rparr>" by (rule storedE)
  with v exec_InrD [OF run [unfolded CreateSession_def]]
  show "sessions (db_of w') = sessions (db_of w) @
      [\<lparr>ss_id = sv_sid sv (rq_fresh r), ss_user = user, ss_created = now_of w, ss_expires = now_of w + sessionIdle\<rparr>]"
    by (simp split: if_splits)
qed

lemma check_credentials_Inr:
  assumes "check_credentials sv name password w = (Inr (Some u), w')"
  shows "\<exists>x. find (user_named name) (users (db_of w)) = Some x \<and> u = scanUser x \<and> sv_match sv (u_password x) password
     \<and> db_of w' = db_of w \<and> now_of w' = now_of w"
proof -
  from assms obtain h s where run: "Credentials name (web_store w) = (Inr (u, h), s)" and m: "sv_match sv h password"
    and w': "w' = w\<lparr>web_store := s, bcrypts := bcrypts w + 1\<rparr>"
    by (auto simp: check_credentials_def compare_password_def andthen_def ret_def raise_def elim!: attemptE on_storeE split: sum.splits if_splits prod.splits)
  from exec_Inr [OF run [unfolded Credentials_def]] m w' show ?thesis
    by (auto simp: reading_def some_row_Inr)
qed

lemma loginName_Inr:
  assumes "loginName raw w = (Inr name, w')"
  shows "db_of w' = db_of w \<and> now_of w' = now_of w"
proof -
  have "db_of (snd (on_store (UserByEmail n) w)) = db_of w \<and> now_of (snd (on_store (UserByEmail n) w)) = now_of w" for n
    by (simp add: on_store_def UserByEmail_def split: prod.splits) (metis exec_reading_tabs exec_clock snd_conv)
  with assms show ?thesis
    by (auto simp: loginName_def Let_def ret_def raise_def attempt_run split: if_splits sum.splits)
qed

text \<open>C8: A login that succeeds was allowed to: the server is not in maintenance, there is a confirmed user whose stored
  hash matches the password, none of the three limits of the name and the address was reached, and the cookie is the
  new random token, stored as one new session of that user that ends after the idle time.\<close>

theorem login_safe:
  assumes "login sv r raw password w = (Inr c, w')"
  shows "\<not> in_maintenance (db_of w)
    \<and> (\<exists>name. \<exists>u \<in> set (users (db_of w)). user_named name u \<and> sv_match sv (u_password u) password \<and> u_verified_at u \<noteq> None
       \<and> (\<forall>(key, most) \<in> set (loginLimits name (clientIP sv r)).
            rate_peek key loginWindow (now_of w) (rate_limits (db_of w)) < most)
       \<and> ck_value c = rq_fresh r
       \<and> sessions (db_of w') = sessions (db_of w) @
          [\<lparr>ss_id = sv_sid sv (rq_fresh r), ss_user = u_id u, ss_created = now_of w, ss_expires = now_of w + sessionIdle\<rparr>])"
proof -
  from assms obtain a1 w1 name w2 a3 w3 x w4 where
      m: "maintenanceErr w = (Inr a1, w1)" and n: "loginName raw w1 = (Inr name, w2)"
    and l: "within_limits loginWindow (loginLimits name (clientIP sv r)) w2 = (Inr a3, w3)"
    and k: "check_credentials sv name password w3 = (Inr x, w4)"
    and last: "(case x of
         None \<Rightarrow> andthen (count_failure loginWindow (loginLimits name (clientIP sv r))) (\<lambda>_. raise (Problem 401 ''Wrong user name or password.'' []))
       | Some u \<Rightarrow>
          if \<not> uv_verified u
          then raise (Problem 403 ''Your address is not confirmed yet. Open the link from the mail we sent you, or request a new one.'' [])
          else newSession sv r (uv_id u)) w4 = (Inr c, w')"
    unfolding login_def Let_def andthen_Inr by blast
  from last obtain u where x: "x = Some u" and v: "uv_verified u" and new: "newSession sv r (uv_id u) w4 = (Inr c, w')"
    by (auto simp: andthen_Inr split: option.splits if_splits)
  note st1 = maintenanceErr_Inr [OF m] and st2 = loginName_Inr [OF n] and st3 = within_limits_Inr [OF l]
  from check_credentials_Inr [OF k [unfolded x]] obtain y where y: "find (user_named name) (users (db_of w3)) = Some y" "u = scanUser y"
    "sv_match sv (u_password y) password" "db_of w4 = db_of w3" "now_of w4 = now_of w3" by blast
  have y_in: "y \<in> set (users (db_of w))" "user_named name y" using find_SomeD [OF y(1)] st1 st2 st3 by auto
  have "u_verified_at y \<noteq> None" "uv_id u = u_id y" using v y(2) by (simp_all add: scanUser_def)
  with y_in y st1 st2 st3 new_session_Inr [OF new] show ?thesis by metis
qed

lemma demo_login: "fst (login demo_server demo_request ''Ada'' ''pw'' demo_web) = Inr \<lparr>ck_value = ''new'', ck_secure = True, ck_max_age = 2592000\<rparr>"
  by code_simp

lemma login_safe_witness:
  "\<exists>u \<in> set (users demo_db). u_password u = ''pw'' \<and> u_verified_at u \<noteq> None"
proof -
  have "login demo_server demo_request ''Ada'' ''pw'' demo_web
     = (Inr \<lparr>ck_value = ''new'', ck_secure = True, ck_max_age = 2592000\<rparr>, snd (login demo_server demo_request ''Ada'' ''pw'' demo_web))"
    using demo_login by (cases "login demo_server demo_request ''Ada'' ''pw'' demo_web") simp
  from login_safe [OF this] show ?thesis by (auto simp: demo_server_def)
qed

text \<open>Up to the comparison a login of a name that is no address only reads.\<close>

lemma within_limits_run:
  "working w \<Longrightarrow> \<forall>(key, most) \<in> set ls. rate_peek key win (now_of w) (rate_limits (db_of w)) < most
    \<Longrightarrow> within_limits win ls w = (Inr (), w)"
  by (induction ls) (auto simp: andthen_def stored_def with_err_def count_run split: prod.splits)

lemma count_failure_bcrypts: "bcrypts (snd (count_failure win ls w)) = bcrypts w"
  by (induction ls arbitrary: w) (auto simp: attempt_run on_store_def split: prod.splits)

lemma login_prefix:
  assumes "working w" "\<not> in_maintenance (db_of w)" "CHR ''@'' \<notin> set (lower (trim_space raw))"
    and "\<forall>(key, most) \<in> set (loginLimits (lower (trim_space raw)) (clientIP sv r)).
      rate_peek key loginWindow (now_of w) (rate_limits (db_of w)) < most"
  shows "login sv r raw password w = andthen (check_credentials sv (lower (trim_space raw)) password) (\<lambda>x. case x of
         None \<Rightarrow> andthen (count_failure loginWindow (loginLimits (lower (trim_space raw)) (clientIP sv r)))
           (\<lambda>_. raise (Problem 401 ''Wrong user name or password.'' []))
       | Some u \<Rightarrow>
          if \<not> uv_verified u
          then raise (Problem 403 ''Your address is not confirmed yet. Open the link from the mail we sent you, or request a new one.'' [])
          else newSession sv r (uv_id u)) w"
proof -
  have "maintenanceErr w = (Inr (), w)"
    using assms(2) by (simp add: maintenanceErr_def andthen_def stored_def with_err_def maintenance_run [OF assms(1)])
  moreover have "loginName raw w = (Inr (lower (trim_space raw)), w)"
    using assms(3) by (simp add: loginName_def Let_def)
  moreover note within_limits_run [OF assms(1,4)]
  ultimately show ?thesis unfolding login_def Let_def
    by (simp only: andthen_run)
qed

lemma check_credentials_run:
  assumes "working w"
  shows "check_credentials sv name password w = (case find (user_named name) (users (db_of w)) of
      None \<Rightarrow> (Inr None, w)
    | Some u \<Rightarrow> (Inr (if sv_match sv (u_password u) password then Some (scanUser u) else None), w\<lparr>bcrypts := bcrypts w + 1\<rparr>))"
  by (auto simp: check_credentials_def attempt_run credentials_run [OF assms] andthen_def compare_password_def split: option.splits)

lemma newSession_bcrypts: "bcrypts (snd (newSession sv r user w)) = bcrypts w"
  by (simp add: newSession_def andthen_def the_time_def stored_def with_err_def on_store_def split: prod.splits sum.splits)

text \<open>A login tells by its work whether a name exists: past the limits, a name of the table costs one bcrypt
  computation, right or wrong the password, and a name that is not in the table costs none, although the handler keeps
  a dummy hash so that unknown users cost the same.\<close>

theorem login_timing:
  assumes "working w" "\<not> in_maintenance (db_of w)" "CHR ''@'' \<notin> set (lower (trim_space raw))"
    and "\<forall>(key, most) \<in> set (loginLimits (lower (trim_space raw)) (clientIP sv r)).
      rate_peek key loginWindow (now_of w) (rate_limits (db_of w)) < most"
  shows "bcrypts (snd (login sv r raw password w)) =
     bcrypts w + (if list_ex (user_named (lower (trim_space raw))) (users (db_of w)) then 1 else 0)"
proof -
  let ?name = "lower (trim_space raw)"
  have some: "list_ex (user_named ?name) (users (db_of w)) \<longleftrightarrow> find (user_named ?name) (users (db_of w)) \<noteq> None"
    by (auto simp: list_ex_iff find_None_iff)
  have fail: "bcrypts (snd (andthen (count_failure win ls) (\<lambda>_. raise p) v)) = bcrypts v" for win ls p v
    using count_failure_bcrypts [of win ls v] by (auto simp: andthen_def split: prod.splits sum.splits)
  show ?thesis
    unfolding login_prefix [OF assms] some
    by (cases "find (user_named ?name) (users (db_of w))")
      (simp_all add: andthen_def [of "check_credentials sv n password" for n] check_credentials_run [OF assms(1)] fail newSession_bcrypts)
qed

lemma login_timing_witness:
  "bcrypts (snd (login demo_server demo_request ''bob'' ''guess'' demo_web)) = 1
    \<and> bcrypts (snd (login demo_server demo_request ''eve'' ''guess'' demo_web)) = 0"
proof -
  have l: "\<forall>(key, most) \<in> set (loginLimits n ip). rate_peek key loginWindow 50 (rate_limits demo_db) < most" for n ip
    by (simp add: loginLimits_def rate_peek_def demo_db_def empty_db_def web_limits)
  have m: "\<not> in_maintenance demo_db" by (simp add: in_maintenance_def demo_db_def empty_db_def)
  have n: "lower (trim_space ''bob'') = ''bob''" "lower (trim_space ''eve'') = ''eve''" "lower ''bob'' = ''bob''" "lower ''eve'' = ''eve''"
    by code_simp+
  show ?thesis
    using login_timing [of demo_web "''bob''" demo_server demo_request "''guess''"]
      login_timing [of demo_web "''eve''" demo_server demo_request "''guess''"] l m
    by (simp add: n user_named_def demo_db_def ada_def)
qed

section \<open>Lockout\<close>

lemma count_failure_run:
  "working w \<Longrightarrow> distinct (map fst ls) \<Longrightarrow> \<exists>rows. count_failure win ls w = (Inr (), with_db ((db_of w)\<lparr>rate_limits := rows\<rparr>) w)
    \<and> (distinct (map rl_key (rate_limits (db_of w))) \<longrightarrow> distinct (map rl_key rows))
    \<and> (\<forall>k. rate_bucket k rows = (if k \<in> fst ` set ls then Some (bucket_hit win (now_of w) (rate_bucket k (rate_limits (db_of w))))
         else rate_bucket k (rate_limits (db_of w))))"
proof (induction ls arbitrary: w)
  case Nil
  have "with_db ((db_of w)\<lparr>rate_limits := rate_limits (db_of w)\<rparr>) w = w" by (simp add: with_db_def)
  then show ?case by (intro exI [of _ "rate_limits (db_of w)"]) simp
next
  case (Cons l ls)
  obtain key most where l: "l = (key, most)" by (cases l)
  define rl where "rl = snd (rate_upsert key win (now_of w) (rate_limits (db_of w)))"
  define v where "v = with_db ((db_of w)\<lparr>rate_limits := rl\<rparr>) w"
  have step: "count_failure win (l # ls) w = count_failure win ls v"
    by (simp add: l attempt_run hit_run [OF Cons.prems(1)] v_def rl_def split: prod.splits)
  from Cons.IH [of v] Cons.prems obtain rows where rows:
    "count_failure win ls v = (Inr (), with_db ((db_of v)\<lparr>rate_limits := rows\<rparr>) v)"
    "distinct (map rl_key (rate_limits (db_of v))) \<longrightarrow> distinct (map rl_key rows)"
    "\<And>k. rate_bucket k rows = (if k \<in> fst ` set ls then Some (bucket_hit win (now_of v) (rate_bucket k (rate_limits (db_of v))))
         else rate_bucket k (rate_limits (db_of v)))"
    by (auto simp: v_def)
  have "with_db ((db_of v)\<lparr>rate_limits := rows\<rparr>) v = with_db ((db_of w)\<lparr>rate_limits := rows\<rparr>) w" by (simp add: v_def)
  moreover have "distinct (map rl_key (rate_limits (db_of w))) \<longrightarrow> distinct (map rl_key rows)"
    using rows(2) by (simp add: v_def rl_def rate_upsert_distinct)
  moreover have "rate_bucket k rows = (if k \<in> fst ` set (l # ls) then Some (bucket_hit win (now_of w) (rate_bucket k (rate_limits (db_of w))))
         else rate_bucket k (rate_limits (db_of w)))" for k
    using Cons.prems(2) by (cases "k = key") (auto simp: rows(3) v_def rl_def l rate_upsert_bucket rate_upsert_other)
  ultimately show ?case using rows(1) step by (intro exI [of _ rows]) simp
qed

lemma loginLimits_distinct: "distinct (map fst (loginLimits name ip))"
  by (simp add: loginLimits_def)

lemma within_limits_refused:
  "working w \<Longrightarrow> \<exists>(key, most) \<in> set ls. most \<le> rate_peek key win (now_of w) (rate_limits (db_of w))
    \<Longrightarrow> within_limits win ls w = (Inl (tooMany win), w)"
  by (induction ls) (force simp: andthen_def stored_def with_err_def count_run)+

lemma peek_counts:
  assumes "distinct (map rl_key rows)" "distinct (map rl_key rows')" "0 \<le> win"
    and "rate_bucket k rows' = Some (bucket_hit win now (rate_bucket k rows))"
  shows "rate_peek k win now rows' = Suc (rate_peek k win now rows)"
  using assms by (simp add: rate_peek_bucket bucket_peek_hit bucket_hit_Suc)



end
