(* ===== verification/Web_Access.thy ===== *)
theory Web_Access
  imports Web_Claims "HOL-Library.Sublist"
begin

text \<open>
  Who may call an operation: the middleware in front of the handlers, the scopes of API tokens, and
  what the life of a password and of a token comes to.
\<close>

section \<open>Scopes and the middleware\<close>

lemma tokenScope_of: "scope \<noteq> [] \<Longrightarrow> tokenScope (op_security scope) = (if scope = scopeSession then [] else scope)"
  by (simp add: op_security_def)

lemma on_store_Inr_tabs: "on_store (exec q) w = (Inr x, v) \<Longrightarrow> fst (q (now_of w) (db_of w)) = Inr x"
  by (auto elim!: on_storeE dest!: exec_Inr)

lemma sessionUser_Inr:
  assumes "sessionUser sv r w = (Inr u, v)"
  shows "\<exists>c x y. rq_cookie r = Some c \<and> x \<in> set (sessions (db_of w)) \<and> ss_id x = sv_sid sv c \<and> now_of w < ss_expires x
    \<and> y \<in> set (users (db_of w)) \<and> u_id y = ss_user x \<and> u = scanUser y"
proof -
  from assms obtain c where c: "rq_cookie r = Some c" and run: "on_store (SessionUser (sv_sid sv c) sessionIdle sessionTTL) w = (Inr u, v)"
    by (auto simp: sessionUser_def split: option.splits)
  note q = on_store_Inr_tabs [OF run [unfolded SessionUser_def]]
  from q obtain x where x: "find (live_session (sv_sid sv c) (now_of w)) (sessions (db_of w)) = Some x"
    and y: "some_row (map_option scanUser (find_user (ss_user x) (db_of w))) = Inr u"
    by (auto simp: session_user_def Let_def split: option.splits)
  from y obtain z where "find_user (ss_user x) (db_of w) = Some z" "u = scanUser z" by (auto simp: some_row_Inr)
  with c find_SomeD [OF x] show ?thesis
    by (auto simp: live_session_def find_user_def dest!: find_SomeD)
qed

text \<open>A caller by session, or by an API token that has the scope.\<close>

definition by_session :: "server \<Rightarrow> request \<Rightarrow> web \<Rightarrow> caller \<Rightarrow> bool" where
  "by_session sv r w c \<longleftrightarrow> rq_auth r = [] \<and> cl_token c = None
    \<and> (\<exists>ck x y. rq_cookie r = Some ck \<and> x \<in> set (sessions (db_of w)) \<and> ss_id x = sv_sid sv ck \<and> now_of w < ss_expires x
         \<and> y \<in> set (users (db_of w)) \<and> u_id y = ss_user x \<and> cl_user c = scanUser y)"

definition by_token :: "server \<Rightarrow> request \<Rightarrow> web \<Rightarrow> caller \<Rightarrow> bool" where
  "by_token sv r w c \<longleftrightarrow> (\<exists>secret t y. rq_auth r = ''Bearer '' @ secret \<and> tokenRe secret
     \<and> t \<in> set (api_tokens (db_of w)) \<and> live_token (sv_sid sv secret) (now_of w) t \<and> cl_token c = Some (at_id t, at_scopes t)
     \<and> y \<in> set (users (db_of w)) \<and> u_id y = at_user t \<and> cl_user c = scanUser y \<and> \<not> in_maintenance (db_of w))"

lemma bearer_Some: "bearer h = Some s \<Longrightarrow> h = ''Bearer '' @ s \<and> tokenRe s"
  by (auto simp: bearer_def split: if_splits) (metis append_take_drop_id Cons_eq_appendI self_append_conv2)

lemma TokenUser_Inr:
  assumes "TokenUser hash s = (Inr (u, i, scopes), t)"
  shows "\<exists>x y. x \<in> set (api_tokens (tabs s)) \<and> live_token hash (clock s) x \<and> i = at_id x \<and> scopes = at_scopes x
     \<and> y \<in> set (users (tabs s)) \<and> u_id y = at_user x \<and> u = scanUser y \<and> settings (tabs t) = settings (tabs s)"
proof -
  note q = exec_InrD(1,2) [OF assms [unfolded TokenUser_def]]
  from q(1) obtain x where x: "find (live_token hash (clock s)) (api_tokens (tabs s)) = Some x"
    by (auto simp: token_user_def Let_def split: option.splits)
  with q(1) obtain y where y: "find_user (at_user x) (tabs s) = Some y" "u = scanUser y" "i = at_id x" "scopes = at_scopes x"
    by (auto simp: token_user_def Let_def some_row_Inr)
  have "settings (tabs t) = settings (tabs s)"
    unfolding q(2) using x by (simp add: token_user_def Let_def seen_lately_def)
  with find_SomeD [OF x] y show ?thesis
    by (auto simp: find_user_def dest!: find_SomeD)
qed

lemma broken_InrE:
  assumes "broken m w = (Inr x, v)"
  obtains s where "m (web_store w) = (Inr x, s)" "v = w\<lparr>web_store := s\<rparr>"
  using assms by (auto simp: broken_def with_err_def on_store_def split: prod.splits sum.splits)

lemma admit_token_Inr:
  assumes "admit_token (u, i, scopes) w = (Inr c, v)"
  shows "\<not> in_maintenance (db_of w) \<and> c = \<lparr>cl_user = u, cl_token = Some (i, scopes)\<rparr>"
  using assms unfolding admit_token_def
  by (auto simp: andthen_Inr elim!: broken_InrE dest: Maintenance_Inr split: if_splits)

lemma guard_Inr: "(if b then raise e else m) s = (Inr x, t) \<longleftrightarrow> \<not> b \<and> m s = (Inr x, t)"
  by simp

lemma gate_nobody: "scope \<noteq> [] \<Longrightarrow> gate (op_security scope) None n u = (Inl (Problem 401 ''Not logged in'' []), u)"
  by (simp add: gate_def op_security_def)

lemma identify_Inr:
  assumes "identify sv r w = (Inr c, v)"
  shows "by_session sv r w c \<or> by_token sv r w c"
proof (cases "rq_auth r = []")
  case True
  with assms obtain u where "sessionUser sv r w = (Inr u, v)" and c: "c = \<lparr>cl_user = u, cl_token = None\<rparr>"
    by (auto simp: identify_def andthen_Inr with_err_def split: prod.splits sum.splits)
  from sessionUser_Inr [OF this(1)] True c show ?thesis by (auto simp: by_session_def)
next
  case False
  with assms obtain n w1 where cnt: "broken (RateCount (''token:ip:'' @ clientIP sv r) tokenWindow) w = (Inr n, w1)"
    and rest: "attempt (case bearer (rq_auth r) of None \<Rightarrow> raise ErrNotFound | Some s \<Rightarrow> on_store (TokenUser (sv_sid sv s))) (\<lambda>x.
            case x of
              Inl e \<Rightarrow> (if e = ErrNotFound
                 then andthen (broken (RateHit (''token:ip:'' @ clientIP sv r) tokenWindow)) (\<lambda>_. raise (Refused_token 401 ''Invalid, expired or revoked API token.''))
                 else raise Broken)
            | Inr t \<Rightarrow> admit_token t) w1 = (Inr c, v)"
    unfolding identify_def Let_def if_not_P [OF False] andthen_Inr guard_Inr by blast
  from cnt have same: "db_of w1 = db_of w" "now_of w1 = now_of w" by (auto elim!: broken_InrE dest!: RateCount_Inr)
  from rest obtain s u i sc w2 where b: "bearer (rq_auth r) = Some s"
    and tok: "on_store (TokenUser (sv_sid sv s)) w1 = (Inr (u, i, sc), w2)" and adm: "admit_token (u, i, sc) w2 = (Inr c, v)"
    by (elim attemptE) (auto simp: andthen_Inr split: option.splits sum.splits if_splits)
  from tok obtain st where run: "TokenUser (sv_sid sv s) (web_store w1) = (Inr (u, i, sc), st)" and w2: "w2 = w1\<lparr>web_store := st\<rparr>"
    by (rule on_storeE)
  from TokenUser_Inr [OF run] obtain x y where xy: "x \<in> set (api_tokens (db_of w1))" "live_token (sv_sid sv s) (now_of w1) x"
    "i = at_id x" "sc = at_scopes x" "y \<in> set (users (db_of w1))" "u_id y = at_user x" "u = scanUser y"
    "settings (tabs st) = settings (db_of w1)" by blast
  from admit_token_Inr [OF adm] have "\<not> in_maintenance (tabs st)" "c = \<lparr>cl_user = u, cl_token = Some (i, sc)\<rparr>" by (simp_all add: w2)
  with xy same bearer_Some [OF b] have "by_token sv r w c"
    by (auto simp: by_token_def in_maintenance_def)
  then show ?thesis ..
qed

definition may_call :: "server \<Rightarrow> request \<Rightarrow> web \<Rightarrow> string \<Rightarrow> caller \<Rightarrow> bool" where
  "may_call sv r w scope c \<longleftrightarrow> by_session sv r w c
    \<or> by_token sv r w c \<and> scope \<noteq> [] \<and> scope \<in> set (snd (the (cl_token c)))"

lemma not_denied: "tokenDenied c scope = None \<Longrightarrow> by_session sv r w c \<or> by_token sv r w c \<Longrightarrow> may_call sv r w scope c"
  by (auto simp: tokenDenied_def may_call_def by_token_def split: option.splits prod.splits if_splits)

lemma gate_cases:
  assumes "scope \<noteq> []"
  shows "(\<exists>p v. \<forall>h. gate (op_security scope) c (h c) w = (Inl p, v))
    \<or> (\<exists>cl v. c = Some cl \<and> tokenDenied cl (if scope = scopeSession then [] else scope) = None
        \<and> (\<forall>h. gate (op_security scope) c (h c) w = h c v))"
proof -
  have ne: "op_security scope \<noteq> []" using assms by (simp add: op_security_def)
  show ?thesis
  proof (cases c)
    case None
    then show ?thesis using ne by (simp add: gate_def)
  next
    case (Some cl)
    show ?thesis
    proof (cases "tokenDenied cl (tokenScope (op_security scope))")
      case None
      let ?hit = "hit_or (''api:user:'' @ int_text (uv_id (cl_user cl))) (minutes 1) apiUserMax (Problem 429 ''Too many requests, try again in a minute.'' []) w"
      show ?thesis
        using Some None ne tokenScope_of [OF assms]
        by (cases ?hit; cases "fst ?hit") (auto simp: gate_def andthen_def)
    next
      case (Some msg)
      with \<open>c = Some cl\<close> ne show ?thesis by (simp add: gate_def)
    qed
  qed
qed

text \<open>C3: An operation of the API that needs a scope runs only for a caller who may do it: for the user of a live session
  named by the cookie when there is no Authorization header, or for the owner of a live API token that has the scope,
  outside maintenance; operations of the scope session never run for a token. In every other case the answer is the same
  problem whatever the operation is. The binary routes behind requireUser keep the same rule.\<close>

theorem api_call_safe:
  assumes "scope \<noteq> []"
  shows "((\<exists>p v. \<forall>h :: caller option \<Rightarrow> 'a handler. api_call sv path scope r h w = (Inl p, v))
      \<or> (\<exists>c v. may_call sv r w (if scope = scopeSession then [] else scope) c \<and> (\<forall>h :: caller option \<Rightarrow> 'a handler. api_call sv path scope r h w = h (Some c) v)))
    \<and> ((\<exists>p v. \<forall>h :: caller \<Rightarrow> 'b handler. requireUser sv scope r h w = (Inl p, v))
      \<or> (\<exists>c v. may_call sv r w scope c \<and> (\<forall>h :: caller \<Rightarrow> 'b handler. requireUser sv scope r h w = h c v)))"
proof
  obtain x v where id: "identify sv r w = (x, v)" by (cases "identify sv r w")
  let ?sc = "if scope = scopeSession then [] else scope"
  show "(\<exists>p v. \<forall>h :: caller option \<Rightarrow> 'a handler. api_call sv path scope r h w = (Inl p, v))
      \<or> (\<exists>c v. may_call sv r w ?sc c \<and> (\<forall>h :: caller option \<Rightarrow> 'a handler. api_call sv path scope r h w = h (Some c) v))"
  proof (cases x)
    case (Inl e)
    have "\<exists>p. \<forall>h :: caller option \<Rightarrow> 'a handler. api_call sv path scope r h w = (Inl p, v)"
      using Inl id by (cases e; cases "has_prefix ''/api/openapi'' path \<or> has_prefix ''/api/schemas'' path")
        (simp_all add: api_call_def authenticate_def attempt_def privateSpec_def gate_nobody [OF assms])
    then show ?thesis by blast
  next
    case (Inr c)
    have who: "by_session sv r w c \<or> by_token sv r w c" using identify_Inr id Inr by simp
    have run: "api_call sv path scope r h w = gate (op_security scope) (Some c) (h (Some c)) v" for h :: "caller option \<Rightarrow> 'a handler"
      using Inr id by (simp add: api_call_def authenticate_def attempt_def privateSpec_def)
    from gate_cases [OF assms, of "Some c" v] not_denied [OF _ who] show ?thesis
      unfolding run by blast
  qed
  show "(\<exists>p v. \<forall>h :: caller \<Rightarrow> 'b handler. requireUser sv scope r h w = (Inl p, v))
      \<or> (\<exists>c v. may_call sv r w scope c \<and> (\<forall>h :: caller \<Rightarrow> 'b handler. requireUser sv scope r h w = h c v))"
  proof (cases x)
    case (Inl e)
    with id show ?thesis by (cases e) (auto simp: requireUser_def attempt_def)
  next
    case (Inr c)
    have who: "by_session sv r w c \<or> by_token sv r w c" using identify_Inr id Inr by simp
    show ?thesis
    proof (cases "tokenDenied c scope")
      case None
      then have "requireUser sv scope r h w = h c v" for h :: "caller \<Rightarrow> 'b handler"
        using Inr id by (simp add: requireUser_def attempt_def)
      with not_denied [OF None who] show ?thesis by blast
    next
      case (Some msg)
      with Inr id show ?thesis by (simp add: requireUser_def attempt_def)
    qed
  qed
qed

text \<open>A token of ada that may read her sites.\<close>

definition token_web :: web where
  "token_web = with_db (demo_db\<lparr>api_tokens := [\<lparr>at_id = 2, at_user = 1, at_name = ''ci'', at_prefix = ''rp_'',
     at_hash = ''rp_'' @ replicate 43 CHR ''A'', at_scopes = [''sites:read''], at_created = 0, at_expires = None, at_last_used = None\<rparr>]\<rparr>) demo_web"

definition token_request :: request where
  "token_request = demo_request\<lparr>rq_auth := ''Bearer rp_'' @ replicate 43 CHR ''A''\<rparr>"

lemma api_call_safe_witness:
  "\<exists>p v. \<forall>h :: caller option \<Rightarrow> unit handler. api_call demo_server ''/api/sites'' ''sites:write'' token_request h token_web = (Inl p, v)"
proof -
  have "\<not> may_call demo_server token_request token_web ''sites:write'' c" for c
    by (auto simp: may_call_def by_session_def by_token_def token_request_def token_web_def)
  then show ?thesis
    using api_call_safe [of "''sites:write''" demo_server "''/api/sites''" token_request token_web]
    by (auto simp: scopeSession_def)
qed

section \<open>The scopes of a token\<close>

lemma cut_suffix_Some: "cut_suffix s suf = Some t \<longleftrightarrow> s = t @ suf"
  by (auto simp: cut_suffix_def) (metis append_take_drop_id)

lemma wanted_iff: "wanted inp sc \<longleftrightarrow>
    (\<exists>x \<in> set inp. x \<in> set tokenScopes \<and> (x = sc \<or> (\<exists>res. x = res @ '':write'' \<and> sc = res @ '':read'')))"
proof -
  have "(case cut_suffix x '':write'' of None \<Rightarrow> False | Some res \<Rightarrow> sc = res @ '':read'')
      \<longleftrightarrow> (\<exists>res. x = res @ '':write'' \<and> sc = res @ '':read'')" for x
    unfolding cut_suffix_Some [symmetric] by (cases "cut_suffix x '':write''") auto
  then show ?thesis by (simp only: wanted_def)
qed

lemma scope_kinds: "res @ '':write'' \<in> set tokenScopes \<Longrightarrow> res \<in> set [''sites'', ''antennas'', ''links'', ''coverages'']"
proof -
  have "length res \<le> 9" if "length (res @ '':write'') \<le> 15" using that by simp
  assume a: "res @ '':write'' \<in> set tokenScopes"
  have "\<forall>x \<in> set tokenScopes. cut_suffix x '':write'' \<in> set (None # map Some [''sites'', ''antennas'', ''links'', ''coverages''])"
    by code_simp
  with a cut_suffix_Some [of "res @ '':write''" "'':write''" res] show ?thesis by fastforce
qed

lemma read_of_write: "res @ '':write'' \<in> set tokenScopes \<Longrightarrow> res @ '':read'' \<in> set tokenScopes"
  by (drule scope_kinds) (auto simp: tokenScopes_def)

text \<open>The scopes of a token are what was asked for, each write scope with the read scope of its resource and nothing
  else, in the order of the table; parsing them again changes nothing.\<close>

theorem parseScopes_closed:
  assumes ok: "fst (parseScopes inp) = []"
  defines "scopes \<equiv> snd (parseScopes inp)"
  shows "inp \<noteq> [] \<and> set inp \<subseteq> set scopes \<and> subseq scopes tokenScopes
    \<and> (\<forall>res. res @ '':write'' \<in> set scopes \<longrightarrow> res @ '':read'' \<in> set scopes)
    \<and> (\<forall>sc \<in> set scopes. sc \<in> set inp \<or> (\<exists>res. sc = res @ '':read'' \<and> res @ '':write'' \<in> set inp))
    \<and> parseScopes scopes = ([], scopes)"
proof -
  have known: "inp \<noteq> []" "set inp \<subseteq> set tokenScopes"
    using ok by (auto simp: parseScopes_def filter_empty_conv split: if_splits)
  have mem: "sc \<in> set scopes \<longleftrightarrow> sc \<in> set tokenScopes \<and> wanted inp sc" for sc
    by (simp add: scopes_def parseScopes_def)
  have sub: "set inp \<subseteq> set scopes" using known unfolding mem wanted_iff subset_iff by blast
  have closed: "res @ '':read'' \<in> set scopes" if "res @ '':write'' \<in> set scopes" for res
    using that read_of_write by (auto simp: mem wanted_iff)
  have why: "sc \<in> set inp \<or> (\<exists>res. sc = res @ '':read'' \<and> res @ '':write'' \<in> set inp)" if "sc \<in> set scopes" for sc
    using that by (auto simp: mem wanted_iff)
  have "wanted scopes sc \<longleftrightarrow> wanted inp sc" if "sc \<in> set tokenScopes" for sc
  proof
    assume "wanted scopes sc"
    then have "sc \<in> set scopes" unfolding wanted_iff using closed by blast
    then show "wanted inp sc" by (simp only: mem)
  next
    assume "wanted inp sc"
    with that have "sc \<in> set scopes" by (simp only: mem simp_thms)
    then show "wanted scopes sc" unfolding wanted_iff using that by blast
  qed
  then have "filter (wanted scopes) tokenScopes = scopes"
    by (auto simp: scopes_def parseScopes_def intro: filter_cong)
  moreover have "filter (\<lambda>sc. sc \<notin> set tokenScopes) scopes = []" by (auto simp: filter_empty_conv mem)
  moreover have "scopes \<noteq> []" using known sub by auto
  ultimately have "parseScopes scopes = ([], scopes)"
    by (simp only: parseScopes_def list.map(1) if_False append_Nil prod.inject simp_thms)
  moreover have "subseq scopes tokenScopes" by (simp add: scopes_def parseScopes_def subseq_filter_left)
  ultimately show ?thesis using known sub closed why by blast
qed

lemma parseScopes_closed_witness: "subseq [''sites:read'', ''sites:write''] tokenScopes
    \<and> snd (parseScopes [''sites:write'']) = [''sites:read'', ''sites:write'']"
proof -
  have "fst (parseScopes [''sites:write'']) = []" "snd (parseScopes [''sites:write'']) = [''sites:read'', ''sites:write'']"
    by code_simp+
  with parseScopes_closed [of "[''sites:write'']"] show ?thesis by simp
qed

section \<open>A new password\<close>

lemma or_gone_InrE:
  assumes "or_gone m msg w = (Inr x, v)"
  obtains s where "m (web_store w) = (Inr x, s)" "v = w\<lparr>web_store := s\<rparr>"
  using assms by (auto simp: or_gone_def with_err_def on_store_def split: prod.splits sum.splits)

lemma password_problem_Inr: "password_problem p w = (Inr x, v) \<longleftrightarrow> validatePassword p = [] \<and> v = w"
  by (auto simp: password_problem_def check_err_def)

lemma hash_password_Inr: "hash_password sv p w = (Inr h, v) \<longleftrightarrow> sv_hash sv p = Some h \<and> v = w\<lparr>bcrypts := bcrypts w + 1\<rparr>"
  by (auto simp: hash_password_def split: option.splits)

lemma list_ex_update: "(\<And>r. P (f r) = P r) \<Longrightarrow> list_ex P (update_where p f rows) = list_ex P rows"
  by (induction rows) auto

lemma setPassword_Inr:
  assumes "setPassword sv name p w = (Inr x, v)"
  shows "\<exists>h. sv_hash sv p = Some h
    \<and> users (db_of v) = update_where (user_named name) (\<lambda>u. u\<lparr>u_password := h\<rparr>) (users (db_of w))
    \<and> sessions (db_of v) = delete_where (\<lambda>s. list_ex (\<lambda>u. user_named name u \<and> u_id u = ss_user s) (users (db_of v))) (sessions (db_of w))
    \<and> email_tokens (db_of v) = email_tokens (db_of w)"
proof -
  from assms obtain h w1 w2 n where h: "sv_hash sv p = Some h" and w1: "w1 = w\<lparr>bcrypts := bcrypts w + 1\<rparr>"
    and s: "stored (SetPassword name h) w1 = (Inr (), w2)" and d: "stored (DeleteUserSessions name) w2 = (Inr n, v)"
    by (auto simp: setPassword_def andthen_Inr hash_password_Inr)
  from s obtain s2 where s: "SetPassword name h (web_store w1) = (Inr (), s2)" "w2 = w1\<lparr>web_store := s2\<rparr>" by (rule storedE)
  from d obtain s3 where d: "DeleteUserSessions name s2 = (Inr n, s3)" "v = w2\<lparr>web_store := s3\<rparr>" using s(2) by (auto elim: storedE)
  note t2 = exec_InrD(2) [OF s(1) [unfolded SetPassword_def]]
  note t3 = exec_InrD(2) [OF d(1) [unfolded DeleteUserSessions_def delete_sessions_def]]
  show ?thesis using h by (intro exI [of _ h]) (simp add: d(2) t3 t2 w1)
qed

text \<open>C28: Resetting a password needs a live reset token and an acceptable password. It stores the hash for the user of the
  token, ends every session of that user and no other, and spends the token.\<close>

theorem password_reset:
  assumes run: "reset_password sv token password w = (Inr x, w')" and ok: "db_ok (db_of w)"
  shows "sv_mail sv \<and> validatePassword password = []
    \<and> (\<exists>t \<in> set (email_tokens (db_of w)). \<exists>u \<in> set (users (db_of w)). \<exists>h.
        live_email_token (sv_sid sv token) TokenReset (now_of w) t \<and> u_id u = et_user t \<and> sv_hash sv password = Some h
        \<and> users (db_of w') = update_where (\<lambda>y. u_id y = u_id u) (\<lambda>y. y\<lparr>u_password := h\<rparr>) (users (db_of w))
        \<and> sessions (db_of w') = filter (\<lambda>s. ss_user s \<noteq> u_id u) (sessions (db_of w))
        \<and> email_tokens (db_of w') = filter (\<lambda>y. et_id y \<noteq> sv_sid sv token) (email_tokens (db_of w)))"
proof -
  let ?live = "live_email_token (sv_sid sv token) TokenReset (now_of w)"
  from run have mail: "sv_mail sv" by (auto simp: reset_password_def split: if_splits)
  with run obtain u email w1 where v: "validatePassword password = []"
    and c: "or_gone (ConsumeEmailToken (sv_sid sv token) TokenReset) staleLink w = (Inr (u, email), w1)"
    and p: "setPassword sv (uv_name u) password w1 = (Inr x, w')"
    by (auto simp: reset_password_def andthen_Inr password_problem_Inr)
  from c obtain s1 where c: "ConsumeEmailToken (sv_sid sv token) TokenReset (web_store w) = (Inr (u, email), s1)" and w1: "w1 = w\<lparr>web_store := s1\<rparr>"
    by (rule or_gone_InrE)
  note q = exec_InrD(1,2) [OF c [unfolded ConsumeEmailToken_def]]
  from q(1) obtain t where t: "find ?live (email_tokens (db_of w)) = Some t"
    by (auto simp: consume_email_token_def split: option.splits)
  with q(1) obtain y where y: "find_user (et_user t) (db_of w) = Some y" "u = scanUser y"
    by (auto simp: consume_email_token_def some_row_Inr)
  have s1: "tabs s1 = (db_of w)\<lparr>email_tokens := delete_where ?live (email_tokens (db_of w))\<rparr>"
    using q(2) t by (simp add: consume_email_token_def)
  have t_in: "t \<in> set (email_tokens (db_of w))" "?live t" using find_SomeD [OF t] by auto
  have y_in: "y \<in> set (users (db_of w))" "u_id y = et_user t" using y(1) by (auto simp: find_user_def dest: find_SomeD)
  have keys: "distinct (map u_name (users (db_of w)))" "distinct (map u_id (users (db_of w)))" "lower (u_name y) = u_name y"
    using db_ok_parts(2) [OF ok] y_in(1) by (auto simp: users_ok_def)
  have named: "user_named (uv_name u) z \<longleftrightarrow> u_id z = u_id y" if "z \<in> set (users (db_of w))" for z
    using that y_in(1) key_unique [OF keys(1)] key_unique [OF keys(2)] keys(3) y(2) by (auto simp: user_named_def scanUser_def)
  from setPassword_Inr [OF p] obtain h where h: "sv_hash sv password = Some h"
    and us: "users (db_of w') = update_where (user_named (uv_name u)) (\<lambda>z. z\<lparr>u_password := h\<rparr>) (users (db_of w))"
    and ss: "sessions (db_of w') = delete_where (\<lambda>s. list_ex (\<lambda>z. user_named (uv_name u) z \<and> u_id z = ss_user s) (users (db_of w'))) (sessions (db_of w))"
    and et: "email_tokens (db_of w') = delete_where ?live (email_tokens (db_of w))"
    by (auto simp: w1 s1)
  have us': "users (db_of w') = update_where (\<lambda>z. u_id z = u_id y) (\<lambda>z. z\<lparr>u_password := h\<rparr>) (users (db_of w))"
    unfolding us update_where_def using named by (intro map_cong refl) simp
  have "list_ex (\<lambda>z. user_named (uv_name u) z \<and> u_id z = i) (users (db_of w')) \<longleftrightarrow> i = u_id y" for i
  proof -
    have "list_ex (\<lambda>z. user_named (uv_name u) z \<and> u_id z = i) (users (db_of w'))
        \<longleftrightarrow> list_ex (\<lambda>z. user_named (uv_name u) z \<and> u_id z = i) (users (db_of w))"
      unfolding us by (rule list_ex_update) (simp add: user_named_def)
    with named y_in(1) show ?thesis by (auto simp: list_ex_iff)
  qed
  then have ss': "sessions (db_of w') = filter (\<lambda>s. ss_user s \<noteq> u_id y) (sessions (db_of w))"
    unfolding ss by (simp add: delete_where_def)
  have dist: "distinct (map et_id (email_tokens (db_of w)))" using db_ok_parts(4) [OF ok] by (simp add: email_tokens_ok_def)
  have "\<not> ?live z \<longleftrightarrow> et_id z \<noteq> sv_sid sv token" if "z \<in> set (email_tokens (db_of w))" for z
    using key_unique [OF dist that t_in(1)] t_in(2) by (auto simp: live_email_token_def)
  then have "email_tokens (db_of w') = filter (\<lambda>z. et_id z \<noteq> sv_sid sv token) (email_tokens (db_of w))"
    unfolding et delete_where_def by (intro filter_cong refl)
  with mail v t_in y_in h us' ss' show ?thesis by metis
qed

definition reset_web :: web where
  "reset_web = with_db (demo_db\<lparr>email_tokens := [\<lparr>et_id = ''t2'', et_user = 1, et_email = ''ada@x.ch'', et_purpose = TokenReset, et_expires = 100\<rparr>]\<rparr>) demo_web"

lemma password_reset_witness:
  "sessions (db_of (snd (reset_password demo_server ''t2'' ''0123456789'' reset_web))) = []"
proof -
  have "fst (reset_password demo_server ''t2'' ''0123456789'' reset_web) = Inr ()" by code_simp
  then have run: "reset_password demo_server ''t2'' ''0123456789'' reset_web = (Inr (), snd (reset_password demo_server ''t2'' ''0123456789'' reset_web))"
    by (cases "reset_password demo_server ''t2'' ''0123456789'' reset_web") simp
  have "db_ok (db_of reset_web)"
    using demo_db_ok by (simp add: reset_web_def) (rule db_ok_set(5), simp_all add: email_tokens_ok_def demo_db_def ada_def)
  from password_reset [OF run this] show ?thesis
    by (auto simp: reset_web_def demo_db_def live_email_token_def)
qed

section \<open>A new API token\<close>

lemma the_time_andthen: "andthen the_time f w = f (now_of w) w"
  by (simp add: andthen_def the_time_def)

lemma with_err_storeE:
  assumes "with_err h (on_store m) w = (Inr x, v)"
  obtains s where "m (web_store w) = (Inr x, s)" "v = w\<lparr>web_store := s\<rparr>"
  using assms by (auto simp: with_err_def on_store_def split: prod.splits sum.splits)

lemma checkPassword_Inr:
  assumes "checkPassword sv u p field w = (Inr x, v)"
  shows "\<exists>y \<in> set (users (db_of w)). user_named (uv_name u) y \<and> sv_match sv (u_password y) p \<and> db_of v = db_of w \<and> now_of v = now_of w"
proof -
  from assms obtain vu h w1 where st: "stored (Credentials (uv_name u)) w = (Inr (vu, h), w1)" and m: "sv_match sv h p"
    and v: "v = w1\<lparr>bcrypts := bcrypts w1 + 1\<rparr>"
    by (auto simp: checkPassword_def andthen_Inr compare_password_def split: if_splits)
  from st obtain s where run: "Credentials (uv_name u) (web_store w) = (Inr (vu, h), s)" and "w1 = w\<lparr>web_store := s\<rparr>" by (rule storedE)
  with v exec_Inr [OF run [unfolded Credentials_def]] m show ?thesis
    by (auto simp: reading_def some_row_Inr dest!: find_SomeD)
qed

lemma CreateToken_Inr:
  assumes "CreateToken owner name pfx hash scopes expires s = (Inr tv, t)"
  shows "count_tokens owner (tabs s) < MaxTokensPerUser \<and> list_ex (\<lambda>u. u_id u = owner) (users (tabs s))
    \<and> (\<forall>x \<in> set (api_tokens (tabs s)). at_hash x \<noteq> hash)
    \<and> (\<exists>x. tabs t = (tabs s)\<lparr>next_id := next_id (tabs s) + 1, api_tokens := api_tokens (tabs s) @ [x]\<rparr> \<and> tv = scanToken x
        \<and> at_user x = owner \<and> at_hash x = hash \<and> at_scopes x = scopes \<and> at_expires x = expires \<and> at_id x = next_id (tabs s))
    \<and> clock t = clock s"
proof -
  from assms obtain n s1 where c: "exec (reading (\<lambda>now d. Inr (count_tokens owner d))) s = (Inr n, s1)"
    and i: "(if MaxTokensPerUser \<le> n then raise ErrQuota else exec (insert_token owner name pfx hash scopes expires)) s1 = (Inr tv, t)"
    by (auto simp: CreateToken_def andthen_Inr)
  from exec_Inr [OF c] have n: "n = count_tokens owner (tabs s)" "tabs s1 = tabs s" "clock s1 = clock s" by (auto simp: reading_def)
  from i have lt: "n < MaxTokensPerUser" and i: "exec (insert_token owner name pfx hash scopes expires) s1 = (Inr tv, t)"
    by (auto split: if_splits)
  define x where "x = \<lparr>at_id = next_id (tabs s), at_user = owner, at_name = name, at_prefix = pfx, at_hash = hash,
      at_scopes = scopes, at_created = clock s, at_expires = expires, at_last_used = None\<rparr>"
  from exec_Inr [OF i] n have "list_ex (\<lambda>u. u_id u = owner) (users (tabs s)) \<and> (\<forall>t \<in> set (api_tokens (tabs s)). at_hash t \<noteq> hash)
    \<and> tabs t = (tabs s)\<lparr>next_id := next_id (tabs s) + 1, api_tokens := api_tokens (tabs s) @ [x]\<rparr> \<and> tv = scanToken x \<and> clock t = clock s"
    by (auto simp: insert_token_def Let_def list_ex_iff x_def split: if_splits)
  with lt n show ?thesis by (intro conjI exI [of _ x]) (simp_all add: x_def)
qed

text \<open>A new API token works as what it was asked to be. It is made only with the password in use and below the quota, its
  secret is the prefix and the random token, its scopes are the parsed ones and its end lies in the future; until then
  the secret names the caller's own user, the new id and those scopes.\<close>

theorem token_created:
  assumes run: "create_my_token sv r (scanUser y) name inp expires password w = (Inr (a, secret), w')"
    and ok: "db_ok (db_of w)" "y \<in> set (users (db_of w))"
    and later: "tabs s = db_of w'" "wire_script s = []" "case expires of None \<Rightarrow> True | Some e \<Rightarrow> clock s < e"
  shows "sv_match sv (u_password y) password \<and> secret = ''rp_'' @ rq_fresh r \<and> fst (parseScopes inp) = []
    \<and> (\<forall>e. expires = Some e \<longrightarrow> now_of w < e) \<and> count_tokens (u_id y) (db_of w') \<le> MaxTokensPerUser
    \<and> fst (TokenUser (sv_sid sv secret) s) = Inr (scanUser y, tv_id (ta_token a), snd (parseScopes inp))"
proof -
  let ?late = "case expires of None \<Rightarrow> [] | Some e \<Rightarrow> if now_of w < e then [] else [(body_field ''expires_at'', Complaint ''Expires: must be in the future'')]"
  let ?c = "check_text ''name'' ''Name'' (trim_space name) @ fst (parseScopes inp) @ ?late"
  let ?u = "scanUser y" and ?secret = "''rp_'' @ rq_fresh r"
  from run obtain w1 x1 w2 tv w3 w4 x2 x3 where chk: "check_err ?c w = (Inr x2, w1)"
    and pw: "checkPassword sv ?u password ''body.password'' w1 = (Inr x1, w2)"
    and new: "with_err (\<lambda>e. if e = ErrQuota then Problem 422 (''Limit of '' @ int_text (int MaxTokensPerUser) @ '' tokens reached; revoke one first'') [] else storeErr e)
          (on_store (CreateToken (uv_id ?u) (trim_space name) (take 11 ?secret) (sv_sid sv ?secret) (snd (parseScopes inp)) expires)) w2 = (Inr tv, w3)"
    and last: "(if uv_email ?u = [] then ret () else mailLater sv (uv_email ?u) (TokenCreatedMail (uv_name ?u) (trim_space name) (snd (parseScopes inp)) (tv_expires tv))) w3 = (Inr x3 :: problem + unit, w4)"
    and fin: "ret (toToken (now_of w) tv, ?secret) w4 = (Inr (a, secret) :: problem + token_answer \<times> string, w')"
    unfolding create_my_token_def the_time_andthen Let_def case_prod_unfold andthen_Inr by blast
  from fin have a: "a = toToken (now_of w) tv" "secret = ?secret" "w' = w4" by simp_all
  have uid: "uv_id ?u = u_id y" "uv_name ?u = u_name y" by (simp_all add: scanUser_def)
  from chk have c: "?c = []" "w1 = w" by (auto simp: check_err_def split: if_splits)
  then have sc: "fst (parseScopes inp) = []" and late: "\<forall>e. expires = Some e \<longrightarrow> now_of w < e" by (auto split: option.splits if_splits)
  have keys: "distinct (map u_name (users (db_of w)))" "distinct (map u_id (users (db_of w)))" "lower (u_name y) = u_name y"
    using db_ok_parts(2) [OF ok(1)] ok(2) by (auto simp: users_ok_def)
  from checkPassword_Inr [OF pw] c obtain z where "z \<in> set (users (db_of w))" "user_named (u_name y) z" "sv_match sv (u_password z) password"
    and w2: "db_of w2 = db_of w" "now_of w2 = now_of w" by (auto simp: uid)
  then have m: "sv_match sv (u_password y) password" using key_unique [OF keys(1) _ ok(2)] keys(3) by (auto simp: user_named_def)
  from new obtain s3 where ct: "CreateToken (u_id y) (trim_space name) (take 11 ?secret) (sv_sid sv ?secret) (snd (parseScopes inp)) expires (web_store w2) = (Inr tv, s3)"
    and w3: "w3 = w2\<lparr>web_store := s3\<rparr>"
    unfolding uid by (rule with_err_storeE)
  from CreateToken_Inr [OF ct] w2 obtain x where n: "count_tokens (u_id y) (db_of w) < MaxTokensPerUser"
    and fresh: "\<forall>t \<in> set (api_tokens (db_of w)). at_hash t \<noteq> sv_sid sv ?secret"
    and s3: "tabs s3 = (db_of w)\<lparr>next_id := next_id (db_of w) + 1, api_tokens := api_tokens (db_of w) @ [x]\<rparr>" and tv: "tv = scanToken x"
    and x: "at_user x = u_id y" "at_hash x = sv_sid sv ?secret" "at_scopes x = snd (parseScopes inp)" "at_expires x = expires"
    by metis
  have w4: "db_of w4 = tabs s3" using last by (auto simp: w3 mailLater_def split: if_splits)
  have "find (live_token (sv_sid sv secret) (clock s)) (api_tokens (db_of w)) = None"
    using fresh a(2) by (auto simp: find_None_iff live_token_def)
  then have "find (live_token (sv_sid sv secret) (clock s)) (api_tokens (tabs s)) = Some x"
    using later(1,3) x a(2,3) w4 s3 by (simp add: find_append live_token_def)
  moreover have "find_user (u_id y) (tabs s) = Some y"
    using find_key_mem [OF keys(2) ok(2)] later(1) a(3) w4 s3 by (simp add: find_user_def)
  ultimately have "fst (TokenUser (sv_sid sv secret) s) = Inr (scanUser y, at_id x, snd (parseScopes inp))"
    using later(2) x by (simp add: TokenUser_def exec_ok token_user_def Let_def)
  moreover have "count_tokens (u_id y) (db_of w') \<le> MaxTokensPerUser" using n w4 s3 a(3) by (simp add: count_tokens_def)
  ultimately show ?thesis using m a sc late tv by (simp add: toToken_def scanToken_def)
qed

lemma token_created_witness:
  "\<exists>i. fst (TokenUser ''rp_new'' (web_store (snd (create_my_token demo_server demo_request (scanUser ada) ''ci'' [''sites:write''] None ''pw'' demo_web))))
     = Inr (scanUser ada, i, [''sites:read'', ''sites:write''])"
proof -
  let ?run = "create_my_token demo_server demo_request (scanUser ada) ''ci'' [''sites:write''] None ''pw'' demo_web"
  have "case fst ?run of Inl _ \<Rightarrow> False | Inr p \<Rightarrow> snd p = ''rp_new''" by code_simp
  then obtain a where run: "?run = (Inr (a, ''rp_new''), snd ?run)" by (cases ?run) (auto split: sum.splits)
  have "wire_script (web_store (snd ?run)) = []" "snd (parseScopes [''sites:write'']) = [''sites:read'', ''sites:write'']" by code_simp+
  with token_created [OF run, of "web_store (snd ?run)"] demo_db_ok show ?thesis
    by (auto simp: demo_server_def demo_db_def)
qed

end
