(* ===== verification/Web_Jobs.thy ===== *)
theory Web_Jobs
  imports Web_Auth Worker Plot
begin

text \<open>
  How a request waits for a job (src/internal/web/jobs.go) and how job states are streamed
  (src/internal/web/events.go). What the rest of the program does while a request waits is part of
  the run: a pause is the outcome of one select of the code, with the change of the state that
  others made meanwhile.
\<close>

section \<open>Waiters\<close>

definition wait_channel :: "int \<Rightarrow> job_waits \<Rightarrow> nat \<times> job_waits" where
  "wait_channel ident w = (case jw_chan w ident of
     Some ch \<Rightarrow> (ch, w)
   | None \<Rightarrow> (jw_next w, w\<lparr>jw_chan := (jw_chan w)(ident \<mapsto> jw_next w), jw_next := jw_next w + 1\<rparr>))"

definition waits_done :: "int \<Rightarrow> job_waits \<Rightarrow> job_waits" where
  "waits_done ident w = (case jw_chan w ident of
     None \<Rightarrow> w
   | Some ch \<Rightarrow> w\<lparr>jw_chan := (jw_chan w)(ident := None), jw_closed := ch # jw_closed w\<rparr>)"

definition forget :: "int \<Rightarrow> job_waits \<Rightarrow> job_waits" where
  "forget ident w = w\<lparr>jw_chan := (jw_chan w)(ident := None)\<rparr>"

definition JobDone_note :: "string \<Rightarrow> web \<Rightarrow> web" where
  "JobDone_note payload w = (case ParseInt payload of None \<Rightarrow> w | Some i \<Rightarrow> w\<lparr>waits := waits_done i (waits w)\<rparr>)"

section \<open>Waiting for a job\<close>

definition kindLinkAnalysis :: string where "kindLinkAnalysis = ''link-analysis''"
definition kindHFPrediction :: string where "kindHFPrediction = ''hf-prediction''"
definition kindHFMap :: string where "kindHFMap = ''hf-map''"

datatype pause = ClientLeft | WaitOver | Woken "web \<Rightarrow> web"

datatype wait_error = JobStore store_error | ErrJobTimeout | ContextDone

definition register_wait :: "int \<Rightarrow> web \<Rightarrow> web" where
  "register_wait ident w = w\<lparr>waits := snd (wait_channel ident (waits w))\<rparr>"

definition unregister_wait :: "int \<Rightarrow> web \<Rightarrow> web" where
  "unregister_wait ident w = w\<lparr>waits := forget ident (waits w)\<rparr>"

text \<open>The loop of runJob. Its timer of jobWait ends every wait: a run without further pauses is that timer.\<close>

fun wait_job :: "pause list \<Rightarrow> job \<Rightarrow> (web, wait_error, job) act" where
  "wait_job [] j w = (if active_state (j_state j)
     then (Inl ErrJobTimeout, unregister_wait (j_id j) (register_wait (j_id j) w)) else (Inr j, w))"
| "wait_job (p # ps) j w =
     (if \<not> active_state (j_state j) then (Inr j, w)
      else let w1 = register_wait (j_id j) w in
        case p of
          ClientLeft \<Rightarrow> (Inl ContextDone, unregister_wait (j_id j) w1)
        | WaitOver \<Rightarrow> (Inl ErrJobTimeout, unregister_wait (j_id j) w1)
        | Woken env \<Rightarrow> andthen (with_err JobStore (on_store (GetJob (j_id j)))) (wait_job ps) (env w1))"

definition runJob :: "(bytes \<Rightarrow> string) \<Rightarrow> pause list \<Rightarrow> int \<Rightarrow> string \<Rightarrow> bytes \<Rightarrow> (web, wait_error, job) act" where
  "runJob sha ps owner kind inp = andthen (with_err JobStore (on_store (EnqueueJob sha owner None kind inp))) (wait_job ps)"

definition jobReason :: "wait_error \<Rightarrow> string" where
  "jobReason e = (if e = JobStore ErrQuota then ''Too many calculations at once, wait for one to finish.''
     else if e = JobStore ErrBusy \<or> e = ErrJobTimeout then ''The server is busy, try again in a moment.''
     else ''Calculation failed.'')"

definition jobErr :: "bool \<Rightarrow> wait_error \<Rightarrow> problem" where
  "jobErr gone e =
     (if gone then Problem 499 ''Client closed request'' []
      else if e = JobStore ErrQuota then Problem 429 (jobReason e) []
      else if e = JobStore ErrBusy \<or> e = ErrJobTimeout then Problem 503 (jobReason e) []
      else case e of JobStore s \<Rightarrow> storeErr s | _ \<Rightarrow> Problem 500 ''Internal error'' [])"

section \<open>What a worker computes\<close>

text \<open>RunJob. The JSON codec, the analyzer and the HF predictor are arguments; the predictor is missing on a worker without its data.\<close>

definition errHFOff :: compute_error where
  "errHFOff = PublicError ''The HF model is not configured on this server''"

definition RunJob :: "(bytes \<Rightarrow> 'i option) \<Rightarrow> ('i \<Rightarrow> link_error + 'r) \<Rightarrow> ('r \<Rightarrow> bytes) \<Rightarrow> (string \<Rightarrow> bytes \<Rightarrow> compute_error + bytes) option
    \<Rightarrow> job \<Rightarrow> compute_error + bytes" where
  "RunJob decode analyzer encode hf j =
     (if j_kind j = kindLinkAnalysis
      then case decode (j_input j) of
          None \<Rightarrow> Inl OtherError
        | Some i \<Rightarrow> (case analyzer i of Inl e \<Rightarrow> Inl (Hidden e) | Inr r \<Rightarrow> Inr (encode r))
      else if j_kind j = kindHFPrediction \<or> j_kind j = kindHFMap
      then case hf of None \<Rightarrow> Inl errHFOff | Some predict \<Rightarrow> predict (j_kind j) (j_input j)
      else Inl OtherError)"

section \<open>Event streams\<close>

definition maxStreamsPerUser :: nat where "maxStreamsPerUser = 5"

definition open_count :: "int \<Rightarrow> web \<Rightarrow> nat" where
  "open_count user w = (case streams w user of None \<Rightarrow> 0 | Some n \<Rightarrow> n)"

definition openStream :: "int \<Rightarrow> web \<Rightarrow> bool \<times> web" where
  "openStream user w = (if maxStreamsPerUser \<le> open_count user w then (False, w)
     else (True, w\<lparr>streams := (streams w)(user \<mapsto> open_count user w + 1)\<rparr>))"

definition closeStream :: "int \<Rightarrow> web \<Rightarrow> web" where
  "closeStream user w = (if open_count user w \<le> 1 then w\<lparr>streams := (streams w)(user := None)\<rparr>
     else w\<lparr>streams := (streams w)(user \<mapsto> open_count user w - 1)\<rparr>)"

record job_event =
  je_state :: job_state
  je_since :: "time option"
  je_error :: string

definition newJobEvent :: "job_view \<Rightarrow> job_event" where
  "newJobEvent j = \<lparr>je_state = jv_state j,
     je_since = (if jv_state j = JobRunning \<and> jv_started j \<noteq> None then jv_started j
       else if jv_state j = JobQueued then jv_queued j else None),
     je_error = jv_error j\<rparr>"

text \<open>The loop of coverageEvents: one round, with the event it sends and the job to wait for, if it goes on, and all rounds.
  \<open>unsent\<close> is the outcome of writing an event. The timer of eventMaxLife ends every stream: a run without further
  pauses is that timer.\<close>

definition stream_round :: "(job_event \<Rightarrow> bool) \<Rightarrow> int \<Rightarrow> int \<Rightarrow> job_event option \<Rightarrow> web \<Rightarrow> job_event list \<times> job_view option \<times> web" where
  "stream_round unsent user ident sent w = (case on_store (CoverageJob user ident) w of
     (Inl e, w1) \<Rightarrow> ([], None, w1)
   | (Inr j, w1) \<Rightarrow>
      (let e = newJobEvent j; out = (if sent = Some e then [] else [e]) in
       if sent \<noteq> Some e \<and> unsent e then ([], None, w1)
       else if \<not> active_state (jv_state j) then (out, None, w1)
       else (out, Some j, register_wait (jv_id j) w1)))"

fun stream_loop :: "(job_event \<Rightarrow> bool) \<Rightarrow> int \<Rightarrow> int \<Rightarrow> job_event option \<Rightarrow> pause list \<Rightarrow> web \<Rightarrow> job_event list \<times> web" where
  "stream_loop unsent user ident sent [] w = (case stream_round unsent user ident sent w of
     (out, None, w1) \<Rightarrow> (out, w1)
   | (out, Some j, w1) \<Rightarrow> (out, unregister_wait (jv_id j) w1))"
| "stream_loop unsent user ident sent (p # ps) w = (case stream_round unsent user ident sent w of
     (out, None, w1) \<Rightarrow> (out, w1)
   | (out, Some j, w1) \<Rightarrow>
      (case p of
         Woken env \<Rightarrow> (case stream_loop unsent user ident (Some (newJobEvent j)) ps (env w1) of (es, w2) \<Rightarrow> (out @ es, w2))
       | _ \<Rightarrow> (out, unregister_wait (jv_id j) w1)))"

definition coverageEvents :: "(job_event \<Rightarrow> bool) \<Rightarrow> int \<Rightarrow> int \<Rightarrow> pause list \<Rightarrow> web \<Rightarrow> (nat + job_event list) \<times> web" where
  "coverageEvents unsent user ident ps w = (case openStream user w of
     (False, w1) \<Rightarrow> (Inl 429, w1)
   | (True, w1) \<Rightarrow> (case stream_loop unsent user ident None ps w1 of (es, w2) \<Rightarrow> (Inr es, closeStream user w2)))"

end
