(* ===== verification/Web_Links.thy ===== *)
theory Web_Links
  imports Web_Account Web_Jobs
begin

text \<open>
  The operations on antennas (src/internal/web/antennas.go) and links (src/internal/web/links.go):
  input checks, the handlers behind the middleware and the views they answer with. Pictures and the
  PDF reports are left out. The JSON codec of jobs and the pauses of a wait are arguments.
\<close>

section \<open>Panics and numbers\<close>

text \<open>A handler that panics: net/http closes the connection without an answer.\<close>

definition panicked :: problem where "panicked = Problem 0 [] []"

definition or_panic :: "'a option \<Rightarrow> 'a handler" where
  "or_panic x = (case x of None \<Rightarrow> raise panicked | Some v \<Rightarrow> ret v)"

text \<open>The real number of a finite value; the calculations of the model are over the reals.\<close>

fun real_of_f64 :: "f64 \<Rightarrow> real" where
  "real_of_f64 (Fin r) = r"
| "real_of_f64 _ = 0"

section \<open>Antennas\<close>

definition manualSource :: string where "manualSource = ''manual''"

definition nonZero :: "f64 \<Rightarrow> f64 option" where
  "nonZero v = (if v = Fin 0 then None else Some v)"

record manual_antenna =
  mn_beam :: f64
  mn_front_back :: f64
  mn_vbeam :: "f64 option"

record antenna_input =
  ai_name :: string
  ai_gain :: f64
  ai_freq :: "f64 option"
  ai_manual :: manual_antenna

record antenna_answer =
  aa_id :: int
  aa_name :: string
  aa_gain :: f64
  aa_freq :: "f64 option"
  aa_source :: string
  aa_front :: real
  aa_manual :: "manual_antenna option"

definition toAntenna :: "antenna \<Rightarrow> antenna_answer" where
  "toAntenna a = (let h = map real_of_f64 (ant_h a) in
     \<lparr>aa_id = ant_id a, aa_name = ant_name a, aa_gain = ant_gain a,
      aa_freq = nonZero (case ant_freq a of None \<Rightarrow> Fin 0 | Some f \<Rightarrow> f), aa_source = text_or_empty (ant_source a), aa_front = Front h,
      aa_manual = (if ant_source a = Some manualSource
        then Some \<lparr>mn_beam = Fin (fst (SectorParams h)), mn_front_back = Fin (snd (SectorParams h)),
               mn_vbeam = map_option (\<lambda>v. Fin (fst (SectorParams (map real_of_f64 v)))) (ant_v a)\<rparr>
        else None)\<rparr>)"

definition stored_pattern :: "pattern \<Rightarrow> f64 list" where
  "stored_pattern p = map Fin p"

definition parseManualAntenna :: "antenna_input \<Rightarrow> int \<Rightarrow> antenna handler" where
  "parseManualAntenna i owner = (let m = ai_manual i; fb = real_of_f64 (mn_front_back m) in
     andthen (check_err (check_text ''name'' ''Name'' (ai_name i) @ check_num ''gain_dbi'' ''Gain'' (ai_gain i) (- 50) 100
       @ check_opt_num ''freq_mhz'' ''Frequency'' (ai_freq i) 0 20000
       @ check_num ''beamwidth_deg'' ''Beamwidth'' (mn_beam m) 1 360 @ check_num ''front_back_db'' ''Front-to-back'' (mn_front_back m) 0 60
       @ check_opt_num ''v_beamwidth_deg'' ''Vertical beamwidth'' (mn_vbeam m) 1 360)) (\<lambda>_.
     ret \<lparr>ant_id = 0, ant_owner = owner, ant_name = ai_name i, ant_gain = ai_gain i,
       ant_freq = Some (case ai_freq i of None \<Rightarrow> Fin 0 | Some f \<Rightarrow> f), ant_h = stored_pattern (Sector (real_of_f64 (mn_beam m)) fb),
       ant_v = map_option (\<lambda>v. stored_pattern (Sector (real_of_f64 v) fb)) (mn_vbeam m), ant_source = Some manualSource\<rparr>))"

definition list_antennas :: "(string \<Rightarrow> string) \<Rightarrow> user_view \<Rightarrow> antenna_answer list handler" where
  "list_antennas coll u = andthen (stored (ListAntennas coll (uv_id u))) (\<lambda>as. ret (map toAntenna as))"

definition import_name :: "string \<Rightarrow> string \<Rightarrow> string \<Rightarrow> string" where
  "import_name form own file = (if trim_space form \<noteq> [] then trim_space form
     else if trim_space own \<noteq> [] then trim_space own else file)"

definition imported_antenna :: "user_view \<Rightarrow> string \<Rightarrow> string \<Rightarrow> msi_antenna \<Rightarrow> antenna" where
  "imported_antenna u form file a = \<lparr>ant_id = 0, ant_owner = uv_id u, ant_name = import_name form (ma_name a) file, ant_gain = ma_gain a,
     ant_freq = Some (ma_freq a), ant_h = stored_pattern (ma_h a),
     ant_v = (if ma_v a = [] then None else Some (stored_pattern (ma_v a))), ant_source = Some file\<rparr>"

definition import_antenna :: "(msi_error \<Rightarrow> string) \<Rightarrow> user_view \<Rightarrow> string \<Rightarrow> string \<Rightarrow> string \<Rightarrow> antenna_answer handler" where
  "import_antenna text u form file data = andthen (or_panic (ParseMSI data)) (\<lambda>x. case x of
       Inl e \<Rightarrow> raise (Problem 422 ''Invalid input'' [(''body.file'', Complaint (text e))])
     | Inr a \<Rightarrow> (let rec = imported_antenna u form file a in
         andthen (stored (CreateAntenna rec)) (\<lambda>i. ret (toAntenna (rec\<lparr>ant_id := i\<rparr>)))))"

definition create_antenna :: "user_view \<Rightarrow> antenna_input \<Rightarrow> antenna_answer handler" where
  "create_antenna u i = andthen (parseManualAntenna i (uv_id u)) (\<lambda>rec.
     andthen (stored (CreateAntenna rec)) (\<lambda>ident. ret (toAntenna (rec\<lparr>ant_id := ident\<rparr>))))"

definition update_antenna_op :: "user_view \<Rightarrow> int \<Rightarrow> antenna_input \<Rightarrow> antenna_answer handler" where
  "update_antenna_op u ident i = andthen (stored (GetAntenna (uv_id u) ident)) (\<lambda>a.
     if ant_source a \<noteq> Some manualSource then raise (Problem 409 ''Imported antennas cannot be edited'' [])
     else andthen (parseManualAntenna i (uv_id u)) (\<lambda>rec.
       andthen (stored (UpdateAntenna (rec\<lparr>ant_id := ant_id a\<rparr>))) (\<lambda>_. ret (toAntenna (rec\<lparr>ant_id := ant_id a\<rparr>)))))"

definition delete_antenna_op :: "user_view \<Rightarrow> int \<Rightarrow> unit handler" where
  "delete_antenna_op u ident = stored (DeleteAntenna (uv_id u) ident)"

text \<open>What a link or coverage takes from its antenna: none of these lookups fails a request.\<close>

definition of_antenna :: "'a \<Rightarrow> (antenna \<Rightarrow> 'a) \<Rightarrow> int \<Rightarrow> int option \<Rightarrow> 'a handler" where
  "of_antenna missing f owner x = (case x of
     None \<Rightarrow> ret missing
   | Some i \<Rightarrow> attempt (on_store (GetAntenna owner i)) (\<lambda>r. ret (case r of Inl _ \<Rightarrow> missing | Inr a \<Rightarrow> f a)))"

definition antenna_pattern :: "int \<Rightarrow> int option \<Rightarrow> f64 lobe handler" where
  "antenna_pattern = of_antenna no_lobe lobe_of"

definition antennaGain :: "int \<Rightarrow> int option \<Rightarrow> f64 \<Rightarrow> f64 handler" where
  "antennaGain owner x entered = of_antenna entered ant_gain owner x"

definition antennaName :: "int \<Rightarrow> int option \<Rightarrow> string handler" where
  "antennaName = of_antenna [] ant_name"

definition azimuth_or :: "f64 option \<Rightarrow> f64 \<Rightarrow> f64" where
  "azimuth_or x fallback = (case x of None \<Rightarrow> fallback | Some d \<Rightarrow> d)"

section \<open>Links\<close>

record link_entry =
  le_name :: string
  le_a :: int
  le_b :: int
  le_freq :: f64
  le_polarization :: string
  le_clutter :: f64
  le_tx_power :: f64
  le_tx_gain :: f64
  le_tx_loss :: f64
  le_tx_ant :: "int option"
  le_tx_azimuth :: "f64 option"
  le_tx_tilt :: f64
  le_rx_gain :: f64
  le_rx_loss :: f64
  le_sensitivity :: f64
  le_rx_ant :: "int option"
  le_rx_azimuth :: "f64 option"
  le_rx_tilt :: f64
  le_measured :: "f64 option"

definition link_checks :: "link_entry \<Rightarrow> check" where
  "link_checks i = check_text ''name'' ''Name'' (le_name i)
     @ check_num ''frequency_mhz'' ''Frequency'' (le_freq i) 20 20000
     @ check_num ''tx_power_dbm'' ''TX power'' (le_tx_power i) (- 100) 200
     @ check_num ''tx_gain_dbi'' ''TX gain'' (le_tx_gain i) (- 50) 100
     @ check_num ''tx_line_loss_db'' ''TX line loss'' (le_tx_loss i) 0 100
     @ check_num ''rx_gain_dbi'' ''RX gain'' (le_rx_gain i) (- 50) 100
     @ check_num ''rx_line_loss_db'' ''RX line loss'' (le_rx_loss i) 0 100
     @ check_num ''rx_sensitivity_dbm'' ''RX sensitivity'' (le_sensitivity i) (- 200) 50
     @ fst (check_deg ''tx_azimuth_deg'' ''TX azimuth'' (le_tx_azimuth i))
     @ check_num ''tx_tilt_deg'' ''TX tilt'' (le_tx_tilt i) (- 90) 90
     @ fst (check_deg ''rx_azimuth_deg'' ''RX azimuth'' (le_rx_azimuth i))
     @ check_num ''rx_tilt_deg'' ''RX tilt'' (le_rx_tilt i) (- 90) 90
     @ check_num ''clutter_loss_db'' ''Extra path loss'' (le_clutter i) 0 200
     @ check_opt_num ''measured_rx_dbm'' ''Measured RX level'' (le_measured i) (- 200) 50
     @ (if le_a i = le_b i then [(body_field [], Complaint ''Site A and B must differ'')] else [])"

definition parseLink :: "link_entry \<Rightarrow> int \<Rightarrow> link handler" where
  "parseLink i owner = andthen (check_err (link_checks i)) (\<lambda>_. ret
     \<lparr>ln_id = 0, ln_owner = owner, ln_name = le_name i, ln_a = le_a i, ln_b = le_b i, ln_freq = le_freq i, ln_tx_power = le_tx_power i,
      ln_tx_gain = le_tx_gain i, ln_rx_gain = le_rx_gain i, ln_tx_loss = le_tx_loss i, ln_rx_loss = le_rx_loss i,
      ln_sensitivity = le_sensitivity i, ln_polarization = (if le_polarization i = ''horizontal'' then 0 else 1),
      ln_tx_ant = le_tx_ant i, ln_tx_azimuth = snd (check_deg ''tx_azimuth_deg'' ''TX azimuth'' (le_tx_azimuth i)), ln_tx_tilt = le_tx_tilt i,
      ln_rx_ant = le_rx_ant i, ln_rx_azimuth = snd (check_deg ''rx_azimuth_deg'' ''RX azimuth'' (le_rx_azimuth i)), ln_rx_tilt = le_rx_tilt i,
      ln_clutter = le_clutter i, ln_measured = le_measured i, ln_share = None, ln_share_expires = None\<rparr>)"

definition applyAntennaGains :: "link \<Rightarrow> link handler" where
  "applyAntennaGains l = andthen (antennaGain (ln_owner l) (ln_tx_ant l) (ln_tx_gain l)) (\<lambda>tx.
     andthen (antennaGain (ln_owner l) (ln_rx_ant l) (ln_rx_gain l)) (\<lambda>rx. ret (l\<lparr>ln_tx_gain := tx, ln_rx_gain := rx\<rparr>)))"

text \<open>Index of the slice polarizations; \<open>None\<close> is the panic outside it.\<close>

definition polarization_name :: "int \<Rightarrow> string option" where
  "polarization_name p = (if p = 0 then Some ''horizontal'' else if p = 1 then Some ''vertical'' else None)"

record share =
  sh_url :: string
  sh_expires :: time

record link_answer =
  la_view :: link_view
  la_polarization :: string
  la_share :: "share option"

definition toLink :: "link_view \<Rightarrow> string \<Rightarrow> link_answer option" where
  "toLink v base = map_option (\<lambda>p. \<lparr>la_view = v, la_polarization = p,
     la_share = (case (null_empty (ln_share (lv_link v)), ln_share_expires (lv_link v)) of
        (Some t, Some e) \<Rightarrow> if base \<noteq> [] then Some \<lparr>sh_url = base @ t, sh_expires = e\<rparr> else None
      | _ \<Rightarrow> None)\<rparr>) (polarization_name (ln_polarization (lv_link v)))"

definition shareURL :: "server \<Rightarrow> string \<Rightarrow> string" where
  "shareURL sv path = sv_base sv @ path"

fun all_of :: "'a option list \<Rightarrow> 'a list option" where
  "all_of [] = Some []"
| "all_of (x # xs) = (case (x, all_of xs) of (Some a, Some as) \<Rightarrow> Some (a # as) | _ \<Rightarrow> None)"

definition list_links :: "server \<Rightarrow> (string \<Rightarrow> string) \<Rightarrow> user_view \<Rightarrow> link_answer list handler" where
  "list_links sv coll u = andthen (stored (ListLinks coll (uv_id u))) (\<lambda>ls. or_panic (all_of (map (\<lambda>l. toLink l (shareURL sv ''/s/l/'')) ls)))"

definition linkOut :: "server \<Rightarrow> int \<Rightarrow> int \<Rightarrow> link_answer handler" where
  "linkOut sv owner ident = andthen (stored (GetLink owner ident)) (\<lambda>v. or_panic (toLink v (shareURL sv ''/s/l/'')))"

definition create_link :: "server \<Rightarrow> user_view \<Rightarrow> link_entry \<Rightarrow> link_answer handler" where
  "create_link sv u i = andthen (parseLink i (uv_id u)) (\<lambda>l. andthen (applyAntennaGains l) (\<lambda>l.
     andthen (stored (CreateLink l)) (\<lambda>ident. linkOut sv (uv_id u) ident)))"

definition update_link_op :: "server \<Rightarrow> user_view \<Rightarrow> int \<Rightarrow> link_entry \<Rightarrow> link_answer handler" where
  "update_link_op sv u ident i = andthen (parseLink i (uv_id u)) (\<lambda>l. andthen (applyAntennaGains (l\<lparr>ln_id := ident\<rparr>)) (\<lambda>l.
     andthen (stored (UpdateLink l)) (\<lambda>_. linkOut sv (uv_id u) ident)))"

definition delete_link_op :: "user_view \<Rightarrow> int \<Rightarrow> unit handler" where
  "delete_link_op u ident = stored (DeleteLink (uv_id u) ident)"

definition shareTTL :: time where "shareTTL = days 30"

definition share_link_op :: "server \<Rightarrow> request \<Rightarrow> user_view \<Rightarrow> int \<Rightarrow> share handler" where
  "share_link_op sv r u ident = andthen the_time (\<lambda>now.
     andthen (stored (ShareLink (uv_id u) ident (rq_fresh r) (now + shareTTL))) (\<lambda>_.
     andthen (linkOut sv (uv_id u) ident) (\<lambda>out. or_panic (la_share out))))"

definition unshare_link_op :: "user_view \<Rightarrow> int \<Rightarrow> unit handler" where
  "unshare_link_op u ident = stored (UnshareLink (uv_id u) ident)"

section \<open>The analysis of a link\<close>

record analysis_input =
  an_a :: "f64 place"
  an_b :: "f64 place"
  an_clutter :: f64
  an_radio :: "f64 radio"

record 'r link_data =
  ld_view :: link_view
  ld_result :: "'r option"
  ld_error :: string
  ld_tx_antenna :: string
  ld_rx_antenna :: string
  ld_tx_azimuth :: f64
  ld_rx_azimuth :: f64

definition place_of :: "site \<Rightarrow> f64 place" where
  "place_of s = \<lparr>pl_name = site_name s, pl_lat = site_lat s, pl_lon = site_lon s, pl_height = site_height s\<rparr>"

definition point_of :: "site \<Rightarrow> point" where
  "point_of s = \<lparr>lat = real_of_f64 (site_lat s), lon = real_of_f64 (site_lon s)\<rparr>"

definition aims :: "link_view \<Rightarrow> f64 \<times> f64" where
  "aims v = (let bearing = InitialBearing (point_of (lv_a v)) (point_of (lv_b v)) in
     (azimuth_or (ln_tx_azimuth (lv_link v)) (Fin bearing), azimuth_or (ln_rx_azimuth (lv_link v)) (Fin (r_mod (bearing + 180) 360))))"

definition analysis_of :: "link_view \<Rightarrow> f64 lobe \<Rightarrow> f64 lobe \<Rightarrow> analysis_input" where
  "analysis_of v tx rx = (let l = lv_link v in
     \<lparr>an_a = place_of (lv_a v), an_b = place_of (lv_b v), an_clutter = ln_clutter l,
      an_radio = \<lparr>rd_freq = ln_freq l, rd_tx_power = ln_tx_power l, rd_tx_gain = ln_tx_gain l, rd_rx_gain = ln_rx_gain l,
        rd_tx_loss = ln_tx_loss l, rd_rx_loss = ln_rx_loss l, rd_sensitivity = ln_sensitivity l, rd_polarization = ln_polarization l,
        rd_tx_pattern = tx, rd_tx_azimuth = fst (aims v), rd_tx_tilt = ln_tx_tilt l,
        rd_rx_pattern = rx, rd_rx_azimuth = snd (aims v), rd_rx_tilt = ln_rx_tilt l\<rparr>\<rparr>)"

record 'r job_codec =
  enc_analysis :: "analysis_input \<Rightarrow> bytes"
  dec_result :: "bytes \<Rightarrow> 'r option"
  job_sha :: "bytes \<Rightarrow> string"

definition job_outcome :: "'r job_codec \<Rightarrow> wait_error + job \<Rightarrow> 'r option \<times> string" where
  "job_outcome cd x = (case x of
     Inl e \<Rightarrow> (None, jobReason e)
   | Inr j \<Rightarrow> if j_state j = JobFailed then (None, text_or_empty (j_error j))
       else case dec_result cd (text_or_empty (j_result j)) of None \<Rightarrow> (None, ''Calculation failed.'') | Some r \<Rightarrow> (Some r, []))"

definition linkAnalysis :: "'r job_codec \<Rightarrow> pause list \<Rightarrow> link_view \<Rightarrow> 'r link_data handler" where
  "linkAnalysis cd ps v = (let l = lv_link v in
     andthen (antennaName (ln_owner l) (ln_tx_ant l)) (\<lambda>txn. andthen (antennaName (ln_owner l) (ln_rx_ant l)) (\<lambda>rxn.
     andthen (antenna_pattern (ln_owner l) (ln_tx_ant l)) (\<lambda>tx. andthen (antenna_pattern (ln_owner l) (ln_rx_ant l)) (\<lambda>rx.
     attempt (runJob (job_sha cd) ps (ln_owner l) kindLinkAnalysis (enc_analysis cd (analysis_of v tx rx))) (\<lambda>x.
     ret \<lparr>ld_view = v, ld_result = fst (job_outcome cd x), ld_error = snd (job_outcome cd x), ld_tx_antenna = txn, ld_rx_antenna = rxn,
        ld_tx_azimuth = fst (aims v), ld_rx_azimuth = snd (aims v)\<rparr>))))))"

record 'r link_detail =
  lk_link :: link_answer
  lk_tx_antenna :: string
  lk_rx_antenna :: string
  lk_tx_aim :: f64
  lk_rx_aim :: f64
  lk_reliability :: real
  lk_analysis :: "'r option"
  lk_error :: string

definition toLinkDetail :: "'r link_data \<Rightarrow> string \<Rightarrow> 'r link_detail option" where
  "toLinkDetail d base = map_option (\<lambda>l. \<lparr>lk_link = l, lk_tx_antenna = ld_tx_antenna d, lk_rx_antenna = ld_rx_antenna d,
     lk_tx_aim = ld_tx_azimuth d, lk_rx_aim = ld_rx_azimuth d, lk_reliability = ReliabilityPct, lk_analysis = ld_result d, lk_error = ld_error d\<rparr>)
     (toLink (ld_view d) base)"

definition get_link :: "server \<Rightarrow> 'r job_codec \<Rightarrow> pause list \<Rightarrow> user_view \<Rightarrow> int \<Rightarrow> 'r link_detail handler" where
  "get_link sv cd ps u ident = andthen (computeHit (uv_id u)) (\<lambda>_. andthen (stored (GetLink (uv_id u) ident)) (\<lambda>v.
     andthen (linkAnalysis cd ps v) (\<lambda>d. or_panic (toLinkDetail d (shareURL sv ''/s/l/'')))))"

definition get_shared_link :: "server \<Rightarrow> 'r job_codec \<Rightarrow> pause list \<Rightarrow> string \<Rightarrow> 'r link_detail handler" where
  "get_shared_link sv cd ps token = andthen (shareHit ''l'' token) (\<lambda>_. andthen (stored (GetSharedLink token)) (\<lambda>v.
     andthen (linkAnalysis cd ps v) (\<lambda>d. or_panic (toLinkDetail d (shareURL sv ''/s/l/'')))))"

end
