(* ===== verification/Web_Coverages.thy ===== *)
theory Web_Coverages
  imports Web_Links
begin

text \<open>
  The operations on coverages (src/internal/web/coverages.go), the rendering of stored rasters
  (src/internal/web/legend.go) and the shared pages of coverages (src/internal/web/share.go). The PNG
  codec is an argument; PDF reports and label texts are left out.
\<close>

section \<open>Input\<close>

record coverage_entry =
  ce_name :: string
  ce_site :: int
  ce_freq :: f64
  ce_polarization :: string
  ce_tx_power :: f64
  ce_tx_gain :: f64
  ce_tx_loss :: f64
  ce_tx_ant :: "int option"
  ce_tx_azimuth :: f64
  ce_tx_tilt :: f64
  ce_rx_height :: f64
  ce_rx_gain :: f64
  ce_rx_loss :: f64
  ce_sensitivity :: f64
  ce_range_km :: f64
  ce_resolution :: f64

definition coverage_range :: "coverage_entry \<Rightarrow> f64" where
  "coverage_range i = f_mul (ce_range_km i) (Fin 1000)"

definition coverage_checks :: "coverage_entry \<Rightarrow> check" where
  "coverage_checks i = check_text ''name'' ''Name'' (ce_name i)
     @ check_num ''frequency_mhz'' ''Frequency'' (ce_freq i) 20 20000
     @ check_num ''tx_power_dbm'' ''TX power'' (ce_tx_power i) (- 100) 200
     @ check_num ''tx_gain_dbi'' ''TX gain'' (ce_tx_gain i) (- 50) 100
     @ check_num ''tx_line_loss_db'' ''TX line loss'' (ce_tx_loss i) 0 100
     @ check_num ''rx_height_m'' ''RX height'' (ce_rx_height i) (1/2) 3000
     @ check_num ''rx_gain_dbi'' ''RX gain'' (ce_rx_gain i) (- 50) 100
     @ check_num ''rx_line_loss_db'' ''RX line loss'' (ce_rx_loss i) 0 100
     @ check_num ''rx_sensitivity_dbm'' ''RX sensitivity'' (ce_sensitivity i) (- 200) 50
     @ check_num ''range_km'' ''Range'' (ce_range_km i) (MinRangeM / 1000) (MaxRangeM / 1000)
     @ check_num ''resolution_m'' ''Resolution'' (ce_resolution i) MinResolutionM MaxResolutionM
     @ check_num ''tx_azimuth_deg'' ''TX azimuth'' (ce_tx_azimuth i) 0 360
     @ check_num ''tx_tilt_deg'' ''TX tilt'' (ce_tx_tilt i) (- 90) 90
     @ (if f_lt (Fin 0) (ce_resolution i) \<and> f_lt (Fin 1000) (f_div (coverage_range i) (ce_resolution i))
        then [(body_field [], Complaint ''Range / resolution exceeds 1000 pixels per radius'')] else [])"

definition parseCoverage :: "coverage_entry \<Rightarrow> int \<Rightarrow> coverage \<times> check" where
  "parseCoverage i owner =
     (\<lparr>cv_id = 0, cv_owner = owner, cv_name = ce_name i, cv_site = ce_site i,
       cv_params = \<lparr>cp_freq = ce_freq i, cp_tx_power = ce_tx_power i, cp_tx_gain = ce_tx_gain i, cp_tx_loss = ce_tx_loss i,
         cp_rx_height = ce_rx_height i, cp_rx_gain = ce_rx_gain i, cp_rx_loss = ce_rx_loss i, cp_sensitivity = ce_sensitivity i,
         cp_polarization = (if ce_polarization i = ''vertical'' then 1 else 0), cp_range = coverage_range i, cp_resolution = ce_resolution i\<rparr>,
       cv_tx_ant = ce_tx_ant i, cv_tx_azimuth = f_mod (ce_tx_azimuth i) 360, cv_tx_tilt = ce_tx_tilt i, cv_legend_db = [], cv_legend_colors = [],
       cv_png = None, cv_margin = None, cv_bounds = None, cv_computed_at = None, cv_ms = None, cv_note = None, cv_share = None,
       cv_share_expires = None, cv_opacity = None, cv_overlays = None, cv_circles = None\<rparr>,
      coverage_checks i)"

section \<open>Answers\<close>

definition legendOf :: "coverage \<Rightarrow> legend" where
  "legendOf c = LegendOr (cv_legend_db c) (cv_legend_colors c)"

record coverage_answer =
  ca_view :: coverage_view
  ca_polarization :: string
  ca_range_km :: f64
  ca_legend :: legend
  ca_custom :: bool
  ca_compute_time :: string
  ca_bounds :: "bounds option"
  ca_image_url :: string
  ca_overlays :: "int list"
  ca_share :: "share option"

definition unix :: "time \<Rightarrow> string" where
  "unix t = int_text (t div secs 1)"

definition toCoverage :: "server \<Rightarrow> (int \<Rightarrow> string) \<Rightarrow> coverage_view \<Rightarrow> string \<Rightarrow> coverage_answer option" where
  "toCoverage sv tenths v base = (let c = vc_row v in map_option (\<lambda>p.
     \<lparr>ca_view = v, ca_polarization = p, ca_range_km = f_div (cp_range (cv_params c)) (Fin 1000), ca_legend = legendOf c,
      ca_custom = (cv_legend_db c \<noteq> []),
      ca_compute_time = (case cv_computed_at c of None \<Rightarrow> [] | Some _ \<Rightarrow> ComputeTime tenths (vc_ms v)),
      ca_bounds = (case cv_computed_at c of None \<Rightarrow> None | Some _ \<Rightarrow> cv_bounds c),
      ca_image_url = (case (cv_computed_at c, cv_bounds c) of (Some t, Some _) \<Rightarrow> base @ ''/image.png?t='' @ unix t | _ \<Rightarrow> []),
      ca_overlays = (case cv_overlays c of None \<Rightarrow> [] | Some ids \<Rightarrow> ids),
      ca_share = (case cv_share_expires c of
         Some e \<Rightarrow> if vc_share v \<noteq> [] then Some \<lparr>sh_url = shareURL sv (''/s/c/'' @ vc_share v), sh_expires = e\<rparr> else None
       | None \<Rightarrow> None)\<rparr>) (polarization_name (cp_polarization (cv_params c))))"

record overlay =
  ov_id :: int
  ov_name :: string
  ov_site :: site
  ov_freq :: f64
  ov_range_km :: f64
  ov_bounds :: bounds
  ov_url :: string
  ov_checked :: bool

text \<open>\<open>None\<close> is the panic of an overlay without a raster.\<close>

definition toOverlay :: "coverage_view \<Rightarrow> string \<Rightarrow> bool \<Rightarrow> overlay option" where
  "toOverlay v url checked = map_option (\<lambda>b. \<lparr>ov_id = cv_id (vc_row v), ov_name = cv_name (vc_row v), ov_site = vc_site v,
     ov_freq = cp_freq (cv_params (vc_row v)), ov_range_km = f_div (cp_range (cv_params (vc_row v))) (Fin 1000),
     ov_bounds = b, ov_url = url, ov_checked = checked\<rparr>) (cv_bounds (vc_row v))"

record coverage_detail =
  cd_coverage :: coverage_answer
  cd_tx_antenna :: string
  cd_composite_url :: string
  cd_overlays :: "overlay list"

definition coverageDetail :: "server \<Rightarrow> (int \<Rightarrow> string) \<Rightarrow> coverage_view \<Rightarrow> string \<Rightarrow> overlay list \<Rightarrow> coverage_detail handler" where
  "coverageDetail sv tenths v base ovs = andthen (or_panic (toCoverage sv tenths v base)) (\<lambda>c.
     andthen (antennaName (cv_owner (vc_row v)) (cv_tx_ant (vc_row v))) (\<lambda>n.
     ret \<lparr>cd_coverage = c, cd_tx_antenna = n, cd_composite_url = base @ ''/composite.png'', cd_overlays = ovs\<rparr>))"

definition coverage_base :: "int \<Rightarrow> string" where
  "coverage_base ident = ''/coverages/'' @ int_text ident"

definition coverageOut :: "server \<Rightarrow> (int \<Rightarrow> string) \<Rightarrow> int \<Rightarrow> int \<Rightarrow> coverage_answer handler" where
  "coverageOut sv tenths owner ident = andthen (stored (GetCoverage owner ident)) (\<lambda>v. or_panic (toCoverage sv tenths v (coverage_base ident)))"

section \<open>Operations\<close>

definition list_coverages :: "server \<Rightarrow> (int \<Rightarrow> string) \<Rightarrow> (string \<Rightarrow> string) \<Rightarrow> user_view \<Rightarrow> coverage_answer list handler" where
  "list_coverages sv tenths coll u = andthen (stored (ListCoverages coll (uv_id u))) (\<lambda>cs.
     or_panic (all_of (map (\<lambda>v. toCoverage sv tenths v (coverage_base (cv_id (vc_row v)))) cs)))"

definition with_legend :: "(legend_error \<Rightarrow> string) \<Rightarrow> (f64 \<times> string) list \<Rightarrow> coverage \<times> check \<Rightarrow> coverage \<times> check" where
  "with_legend text bins p = (if bins = [] then p
     else case NewLegend (map fst bins) (map snd bins) of
       Inl e \<Rightarrow> (fst p, snd p @ [(body_field ''legend'', Complaint (text e))])
     | Inr l \<Rightarrow> ((fst p)\<lparr>cv_legend_db := map Fin (Mins l), cv_legend_colors := HexList l\<rparr>, snd p))"

definition set_tx_gain :: "f64 \<Rightarrow> coverage \<Rightarrow> coverage" where
  "set_tx_gain g c = c\<lparr>cv_params := (cv_params c)\<lparr>cp_tx_gain := g\<rparr>\<rparr>"

definition with_antenna_gain :: "coverage \<Rightarrow> coverage handler" where
  "with_antenna_gain c = andthen (antennaGain (cv_owner c) (cv_tx_ant c) (cp_tx_gain (cv_params c))) (\<lambda>g. ret (set_tx_gain g c))"

definition create_coverage :: "server \<Rightarrow> (int \<Rightarrow> string) \<Rightarrow> (legend_error \<Rightarrow> string) \<Rightarrow> user_view \<Rightarrow> coverage_entry \<Rightarrow> (f64 \<times> string) list
    \<Rightarrow> coverage_answer handler" where
  "create_coverage sv tenths text u i bins = (let p = with_legend text bins (parseCoverage i (uv_id u)) in
     andthen (check_err (snd p)) (\<lambda>_. andthen (with_antenna_gain (fst p)) (\<lambda>c.
     andthen (with_err (\<lambda>e. if e = ErrQuota then Problem 422 (''Limit of '' @ int_text (int MaxCoveragesPerUser) @ '' coverages reached'') [] else storeErr e)
       (on_store (CreateCoverage c))) (\<lambda>ident. coverageOut sv tenths (uv_id u) ident))))"

definition get_coverage :: "server \<Rightarrow> (int \<Rightarrow> string) \<Rightarrow> (string \<Rightarrow> string) \<Rightarrow> user_view \<Rightarrow> int \<Rightarrow> coverage_detail handler" where
  "get_coverage sv tenths coll u ident = andthen (stored (GetCoverage (uv_id u) ident)) (\<lambda>v.
     andthen (stored (ListCoverages coll (uv_id u))) (\<lambda>cs.
     andthen (or_panic (all_of (map (\<lambda>o'. toOverlay o' (coverage_base (cv_id (vc_row o')) @ ''/image.png?t='' @ unix (the (cv_computed_at (vc_row o'))))
          (cv_id (vc_row o') \<in> set (case cv_overlays (vc_row v) of None \<Rightarrow> [] | Some ids \<Rightarrow> ids)))
        (filter (\<lambda>o'. cv_id (vc_row o') \<noteq> cv_id (vc_row v) \<and> computed (vc_row o')) cs)))) (\<lambda>ovs.
     coverageDetail sv tenths v (coverage_base (cv_id (vc_row v))) ovs)))"

definition update_coverage_op :: "server \<Rightarrow> (int \<Rightarrow> string) \<Rightarrow> user_view \<Rightarrow> int \<Rightarrow> coverage_entry \<Rightarrow> coverage_answer handler" where
  "update_coverage_op sv tenths u ident i = (let p = parseCoverage i (uv_id u) in
     andthen (check_err (snd p)) (\<lambda>_. andthen (with_antenna_gain ((fst p)\<lparr>cv_id := ident\<rparr>)) (\<lambda>c.
     andthen (stored (UpdateCoverage c)) (\<lambda>_. coverageOut sv tenths (uv_id u) ident))))"

definition delete_coverage_op :: "user_view \<Rightarrow> int \<Rightarrow> unit handler" where
  "delete_coverage_op u ident = stored (DeleteCoverage (uv_id u) ident)"

definition compute_coverage :: "(bytes \<Rightarrow> string) \<Rightarrow> user_view \<Rightarrow> int \<Rightarrow> unit handler" where
  "compute_coverage sha u ident = with_err (\<lambda>e. if e = ErrQuota
     then Problem 422 (''Limit of '' @ int_text (int MaxJobsPerUser) @ '' jobs at a time reached, wait for one to finish.'') [] else storeErr e)
     (on_store (EnqueueCoverage sha (uv_id u) ident))"

definition set_coverage_view :: "user_view \<Rightarrow> int \<Rightarrow> int \<Rightarrow> int list \<Rightarrow> bool \<Rightarrow> unit handler" where
  "set_coverage_view u ident opacity overlays circles =
     stored (SetCoverageView (uv_id u) ident opacity (take MaxCoveragesPerUser overlays) circles)"

definition share_coverage_op :: "server \<Rightarrow> (int \<Rightarrow> string) \<Rightarrow> request \<Rightarrow> user_view \<Rightarrow> int \<Rightarrow> share handler" where
  "share_coverage_op sv tenths r u ident = andthen the_time (\<lambda>now.
     andthen (stored (ShareCoverage (uv_id u) ident (rq_fresh r) (now + shareTTL))) (\<lambda>_.
     andthen (coverageOut sv tenths (uv_id u) ident) (\<lambda>out. or_panic (ca_share out))))"

definition unshare_coverage_op :: "user_view \<Rightarrow> int \<Rightarrow> unit handler" where
  "unshare_coverage_op u ident = stored (UnshareCoverage (uv_id u) ident)"

definition view_overlays :: "coverage_view \<Rightarrow> int list" where
  "view_overlays v = (case cv_overlays (vc_row v) of None \<Rightarrow> [] | Some ids \<Rightarrow> ids)"

definition get_shared_coverage :: "server \<Rightarrow> (int \<Rightarrow> string) \<Rightarrow> (string \<Rightarrow> string) \<Rightarrow> string \<Rightarrow> coverage_detail handler" where
  "get_shared_coverage sv tenths coll token = andthen (shareHit ''c'' token) (\<lambda>_. andthen (stored (GetSharedCoverage token)) (\<lambda>v.
     andthen (stored (CoveragesByID coll (cv_owner (vc_row v)) (view_overlays v))) (\<lambda>extra.
     andthen (or_panic (all_of (map (\<lambda>o'. toOverlay o' (''/s/c/'' @ token @ ''/image.png?id='' @ int_text (cv_id (vc_row o')) @
          ''&t='' @ unix (the (cv_computed_at (vc_row o')))) True) extra))) (\<lambda>ovs.
     coverageDetail sv tenths v (''/s/c/'' @ token) ovs))))"

section \<open>Rasters\<close>

definition not_found_page :: problem where
  "not_found_page = Problem 404 ''404 page not found'' []"

definition fail_page :: "store_error \<Rightarrow> problem" where
  "fail_page e = (if e = ErrNotFound then not_found_page else Problem 500 ''internal error'' [])"

definition page_stored :: "'a store_op \<Rightarrow> 'a handler" where
  "page_stored m = with_err fail_page (on_store m)"

definition pathID :: "string \<Rightarrow> int handler" where
  "pathID p = (case ParseInt p of None \<Rightarrow> raise not_found_page | Some i \<Rightarrow> ret i)"

record png_codec =
  png_enc :: "image \<Rightarrow> bytes"
  png_dec :: "bytes \<Rightarrow> image option"

definition decode_bounds :: "png_codec \<Rightarrow> bytes \<Rightarrow> bounds \<Rightarrow> cov_result option" where
  "decode_bounds cd b bo = DecodeRaster (png_dec cd) b (real_of_f64 (b_north bo)) (real_of_f64 (b_south bo)) (real_of_f64 (b_east bo)) (real_of_f64 (b_west bo))"

definition renderRaster :: "png_codec \<Rightarrow> raster \<Rightarrow> bytes option" where
  "renderRaster cd ra = (case ra_margin ra of
     None \<Rightarrow> Some (ra_png ra)
   | Some m \<Rightarrow> map_option (\<lambda>res. CoveragePNG (png_enc cd) res (LegendOr (ra_legend_db ra) (ra_legend_colors ra))) (decode_bounds cd m (ra_bounds ra)))"

definition rendered :: "png_codec \<Rightarrow> raster \<Rightarrow> bytes handler" where
  "rendered cd ra = (case renderRaster cd ra of None \<Rightarrow> raise (fail_page ErrDb) | Some b \<Rightarrow> ret b)"

definition coverageImage :: "png_codec \<Rightarrow> user_view \<Rightarrow> string \<Rightarrow> bytes handler" where
  "coverageImage cd u path = andthen (pathID path) (\<lambda>i. andthen (page_stored (CoverageRaster (uv_id u) i)) (rendered cd))"

text \<open>The ids of the parameter with: the first positive ones, sorted, without repetitions.\<close>

definition viewIDs :: "string \<Rightarrow> int list" where
  "viewIDs v = take MaxCoveragesPerUser (filter (\<lambda>n. 0 < n) (List.map_filter (\<lambda>p. ParseInt (trim_space p)) (split_on CHR '','' v)))"

definition maxCompositeRasters :: nat where "maxCompositeRasters = 20"

definition withIDs :: "string \<Rightarrow> int list" where
  "withIDs v = take maxCompositeRasters (remdups_adj (sort (viewIDs v)))"

definition composite :: "png_codec \<Rightarrow> int \<Rightarrow> int list \<Rightarrow> int \<Rightarrow> legend \<Rightarrow> (bytes \<times> cov_result) handler" where
  "composite cd owner others own l = andthen (page_stored (CoverageRasters owner (others @ [own]))) (\<lambda>rs.
     if list_ex (\<lambda>n. n \<notin> set (map ra_id rs)) others \<or> rs = [] then raise not_found_page
     else case all_of (map (\<lambda>ra. decode_bounds cd (case ra_margin ra of None \<Rightarrow> ra_png ra | Some m \<Rightarrow> m) (ra_bounds ra)) rs) of
       None \<Rightarrow> raise (fail_page ErrDb)
     | Some results \<Rightarrow> ret (CompositePNG (png_enc cd) (Merge results) l, Merge results))"

definition coverageComposite :: "png_codec \<Rightarrow> user_view \<Rightarrow> string \<Rightarrow> string \<Rightarrow> (bytes \<times> cov_result) handler" where
  "coverageComposite cd u path others = andthen (pathID path) (\<lambda>i. andthen (page_stored (GetCoverage (uv_id u) i)) (\<lambda>v.
     composite cd (cv_owner (vc_row v)) (withIDs others) (cv_id (vc_row v)) (legendOf (vc_row v))))"

definition sharedCoverageComposite :: "png_codec \<Rightarrow> string \<Rightarrow> string \<Rightarrow> (bytes \<times> cov_result) handler" where
  "sharedCoverageComposite cd token others = andthen (page_stored (GetSharedCoverage token)) (\<lambda>v.
     if list_ex (\<lambda>n. n \<notin> set (view_overlays v)) (withIDs others) then raise not_found_page
     else composite cd (cv_owner (vc_row v)) (withIDs others) (cv_id (vc_row v)) (legendOf (vc_row v)))"

definition sharedCoverageImage :: "png_codec \<Rightarrow> string \<Rightarrow> string \<Rightarrow> bytes handler" where
  "sharedCoverageImage cd token query = andthen (page_stored (GetSharedCoverage token)) (\<lambda>v.
     andthen (if query = [] then ret (cv_id (vc_row v))
       else case ParseInt query of
         None \<Rightarrow> raise not_found_page
       | Some n \<Rightarrow> if n \<in> set (view_overlays v) then ret n else raise not_found_page) (\<lambda>i.
     andthen (page_stored (CoverageRaster (cv_owner (vc_row v)) i)) (rendered cd)))"

end
