(* ===== verification/Dem.thy ===== *)
theory Dem
  imports Link "HOL-Library.Word"
begin

text \<open>
  Terrain and canopy heights (src/internal/dem): square tiles of samples, their names and their
  decoding, the bilinear sample at a position, the cache that keeps the tiles used last and the
  sources on top of it. Reading a file or an object is a parameter; metrics are left out. The
  mutex makes every lookup one step, so a cache is a function on its state.
\<close>

section \<open>Tiles\<close>

record format =
  fo_ext :: string
  fo_size :: nat

definition hgt :: format where "hgt = \<lparr>fo_ext = ''.hgt'', fo_size = 2\<rparr>"
definition chm :: format where "chm = \<lparr>fo_ext = ''.chm'', fo_size = 1\<rparr>"

definition void :: int where "void = - 32768"
definition defaultSpacingM :: real where "defaultSpacingM = 30"
definition metersPerDegree :: real where "metersPerDegree = 111320"

record tile =
  ti_side :: nat
  ti_raw :: "8 word list"
  ti_format :: format

text \<open>The verbs %02d and %03d.\<close>

definition padded :: "nat \<Rightarrow> nat \<Rightarrow> string" where
  "padded w n = replicate (w - length (nat_text n)) CHR ''0'' @ nat_text n"

definition tileName :: "real \<Rightarrow> real \<Rightarrow> string" where
  "tileName la lo = (let y = \<lfloor>la\<rfloor>; x = \<lfloor>lo\<rfloor> in
     (if y < 0 then ''S'' else ''N'') @ padded 2 (nat \<bar>y\<bar>) @ (if x < 0 then ''W'' else ''E'') @ padded 3 (nat \<bar>x\<bar>))"

definition parseTile :: "8 word list \<Rightarrow> string \<Rightarrow> format \<Rightarrow> dem_error + tile" where
  "parseTile raw name f = (let n = length raw div fo_size f; side = nat \<lfloor>sqrt (real n)\<rfloor> in
     if side < 2 \<or> side * side * fo_size f \<noteq> length raw
     then Inl (DemError (''dem: '' @ name @ '': size '' @ nat_text (length raw) @ '' is not a square grid of '' @
       nat_text (fo_size f) @ ''-byte samples''))
     else Inr \<lparr>ti_side = side, ti_raw = raw, ti_format = f\<rparr>)"

definition spacingM :: "tile \<Rightarrow> real" where
  "spacingM t = metersPerDegree / real (ti_side t - 1)"

text \<open>A big-endian signed sample of two bytes, or an unsigned one of one byte; None is a void.\<close>

definition tile_at :: "tile \<Rightarrow> nat \<Rightarrow> nat \<Rightarrow> real option" where
  "tile_at t row col = (let i = (row * ti_side t + col) * fo_size (ti_format t) in
     if fo_size (ti_format t) = 1 then Some (real (unat (ti_raw t ! i)))
     else let v = sint (word_cat (ti_raw t ! i) (ti_raw t ! (i + 1)) :: 16 word) in
       if v = void then None else Some (of_int v))"

definition cell_of :: "tile \<Rightarrow> real \<Rightarrow> nat" where
  "cell_of t x = (let k = nat (trunc x) in if ti_side t - 1 \<le> k then ti_side t - 2 else k)"

definition tile_row :: "tile \<Rightarrow> real \<Rightarrow> real" where
  "tile_row t la = (of_int \<lfloor>la\<rfloor> + 1 - la) * real (ti_side t - 1)"

definition tile_col :: "tile \<Rightarrow> real \<Rightarrow> real" where
  "tile_col t lo = (lo - of_int \<lfloor>lo\<rfloor>) * real (ti_side t - 1)"

definition tile_sample :: "tile \<Rightarrow> real \<Rightarrow> real \<Rightarrow> dem_error + real" where
  "tile_sample t la lo = (let row = tile_row t la; col = tile_col t lo; r0 = cell_of t row; c0 = cell_of t col;
       fr = row - real r0; fc = col - real c0 in
     case those (map (\<lambda>(r, c). tile_at t r c) [(r0, c0), (r0, c0 + 1), (r0 + 1, c0), (r0 + 1, c0 + 1)]) of
       None \<Rightarrow> Inl Void
     | Some s \<Rightarrow> let top = s ! 0 * (1 - fc) + s ! 1 * fc; bot = s ! 2 * (1 - fc) + s ! 3 * fc in
         Inr (top * (1 - fr) + bot * fr))"

section \<open>Loading\<close>

datatype file_error = NotExist | FileError string

definition dir_load :: "(string \<Rightarrow> file_error + 8 word list) \<Rightarrow> string \<Rightarrow> format \<Rightarrow> string \<Rightarrow> dem_error + tile" where
  "dir_load read dir f name = (case read (dir @ ''/'' @ name @ fo_ext f) of
     Inl NotExist \<Rightarrow> Inl NoTile
   | Inl (FileError e) \<Rightarrow> Inl (DemError e)
   | Inr raw \<Rightarrow> parseTile raw name f)"

datatype s3_error = S3NotFound | S3Error string

definition tile_key :: "string \<Rightarrow> format \<Rightarrow> string \<Rightarrow> string" where
  "tile_key key_prefix f name = key_prefix @ take 3 name @ ''/'' @ name @ fo_ext f"

text \<open>The object and then its body: either may fail.\<close>

definition s3_load :: "(string \<Rightarrow> s3_error + (string + 8 word list)) \<Rightarrow> string \<Rightarrow> format \<Rightarrow> string \<Rightarrow> dem_error + tile" where
  "s3_load fetch key_prefix f name = (case fetch (tile_key key_prefix f name) of
     Inl S3NotFound \<Rightarrow> Inl NoTile
   | Inl (S3Error e) \<Rightarrow> Inl (DemError (''dem: '' @ e))
   | Inr (Inl e) \<Rightarrow> Inl (DemError (''dem: reading '' @ name @ '': '' @ e))
   | Inr (Inr raw) \<Rightarrow> parseTile raw name f)"

definition no_trees :: tile where
  "no_trees = \<lparr>ti_side = 2, ti_raw = replicate 4 0, ti_format = chm\<rparr>"

definition treeless :: "(string \<Rightarrow> dem_error + tile) \<Rightarrow> string \<Rightarrow> dem_error + tile" where
  "treeless load name = (case load name of Inl NoTile \<Rightarrow> Inr no_trees | r \<Rightarrow> r)"

section \<open>The cache\<close>

text \<open>The list holds the entries from the most to the least recently used one; the map finds the entry of a name.\<close>

record tile_cache =
  tc_max :: nat
  tc_tiles :: "string \<rightharpoonup> string \<times> tile"
  tc_lru :: "(string \<times> tile) list"
  tc_spacing :: real

definition newTileCache :: "int \<Rightarrow> tile_cache" where
  "newTileCache maxTiles = \<lparr>tc_max = nat (if maxTiles < 1 then 1 else maxTiles), tc_tiles = Map.empty, tc_lru = [], tc_spacing = defaultSpacingM\<rparr>"

function evict :: "tile_cache \<Rightarrow> tile_cache" where
  "evict c = (if tc_max c < length (tc_lru c)
     then evict (c\<lparr>tc_tiles := (tc_tiles c)(fst (last (tc_lru c)) := None), tc_lru := butlast (tc_lru c)\<rparr>) else c)"
  by pat_completeness auto
termination by (relation "measure (\<lambda>c. length (tc_lru c))") auto

declare evict.simps [simp del]

definition tile_get :: "(string \<Rightarrow> dem_error + tile) \<Rightarrow> string \<Rightarrow> tile_cache \<Rightarrow> (dem_error + tile) \<times> tile_cache" where
  "tile_get load name c = (case tc_tiles c name of
     Some e \<Rightarrow> (Inr (snd e), c\<lparr>tc_lru := e # filter (\<lambda>x. fst x \<noteq> fst e) (tc_lru c)\<rparr>)
   | None \<Rightarrow> (case load name of
       Inl err \<Rightarrow> (Inl err, c)
     | Inr t \<Rightarrow> (Inr t, evict (c\<lparr>tc_spacing := spacingM t, tc_tiles := (tc_tiles c)(name \<mapsto> (name, t)),
         tc_lru := (name, t) # tc_lru c\<rparr>))))"

definition resolutionM :: "tile_cache \<Rightarrow> real" where "resolutionM c = tc_spacing c"

definition source_elevation :: "(string \<Rightarrow> dem_error + tile) \<Rightarrow> real \<Rightarrow> real \<Rightarrow> tile_cache \<Rightarrow> (dem_error + real) \<times> tile_cache" where
  "source_elevation load la lo c =
     (if 90 < \<bar>la\<bar> \<or> 180 < \<bar>lo\<bar> then (Inl (DemError ''dem: invalid position''), c)
      else case tile_get load (tileName la lo) c of
        (Inl e, c') \<Rightarrow> (Inl e, c')
      | (Inr t, c') \<Rightarrow> (tile_sample t la lo, c'))"

definition canopy_height :: "(string \<Rightarrow> dem_error + tile) \<Rightarrow> real \<Rightarrow> real \<Rightarrow> tile_cache \<Rightarrow> (dem_error + real) \<times> tile_cache" where
  "canopy_height load la lo c = (case tile_get (treeless load) (tileName la lo) c of
        (Inl e, c') \<Rightarrow> (Inl e, c')
      | (Inr t, c') \<Rightarrow> (tile_sample t la lo, c'))"

section \<open>The interface of a cache\<close>

text \<open>
  What a client relies on: a lookup answers what the source would answer, and the keys that stay are
  the ones used last. Errors are not kept. From this follows what a run of lookups does.
\<close>

locale recency_cache =
  fixes source :: "'k \<Rightarrow> 'e + 'v"
    and fetch :: "'k \<Rightarrow> 'c \<Rightarrow> ('e + 'v) \<times> 'c"
    and keys :: "'c \<Rightarrow> 'k list"
    and ok :: "'c \<Rightarrow> bool"
    and cap :: nat
  assumes fetch_value: "ok c \<Longrightarrow> fst (fetch k c) = source k"
    and fetch_ok: "ok c \<Longrightarrow> ok (snd (fetch k c))"
    and fetch_keys: "ok c \<Longrightarrow> source k = Inr v \<Longrightarrow> keys (snd (fetch k c)) = take cap (k # removeAll k (keys c))"
    and fetch_error: "ok c \<Longrightarrow> source k = Inl e \<Longrightarrow> keys (snd (fetch k c)) = keys c"
    and cap_pos: "ok c \<Longrightarrow> 1 \<le> cap"

text \<open>Names in the order of their last successful lookup, the latest first.\<close>

definition touch :: "('k \<Rightarrow> 'e + 'v) \<Rightarrow> 'k list \<Rightarrow> 'k \<Rightarrow> 'k list" where
  "touch source used k = (case source k of Inl _ \<Rightarrow> used | Inr _ \<Rightarrow> k # removeAll k used)"

definition recent :: "('k \<Rightarrow> 'e + 'v) \<Rightarrow> 'k list \<Rightarrow> 'k list" where
  "recent source ks = foldl (touch source) [] ks"

fun lookups :: "('k \<Rightarrow> 'c \<Rightarrow> 'r \<times> 'c) \<Rightarrow> 'k list \<Rightarrow> 'c \<Rightarrow> 'r list \<times> 'c" where
  "lookups fetch [] c = ([], c)"
| "lookups fetch (k # ks) c = (case fetch k c of (r, c') \<Rightarrow> case lookups fetch ks c' of (rs, d) \<Rightarrow> (r # rs, d))"

lemma distinct_touch: "distinct used \<Longrightarrow> distinct (touch source used k)"
  by (auto simp: touch_def distinct_removeAll split: sum.splits)

lemma take_recent:
  assumes "1 \<le> m" "distinct used"
  shows "take m (k # removeAll k (take m used)) = take m (k # removeAll k used)"
proof (cases "length used \<le> m")
  case False
  have "distinct (take m used)" using assms(2) by simp
  then have "m - 1 \<le> length (removeAll k (take m used))"
    using False by (simp add: distinct_remove1_removeAll [symmetric] length_remove1)
  moreover have "removeAll k used = removeAll k (take m used) @ removeAll k (drop m used)"
    by (metis append_take_drop_id removeAll_append)
  ultimately show ?thesis using assms(1) by (cases m) auto
qed simp

context recency_cache
begin

lemma run_from:
  assumes "ok c" "distinct used" "keys c = take cap used"
  shows "fst (lookups fetch ks c) = map source ks \<and> ok (snd (lookups fetch ks c))
    \<and> keys (snd (lookups fetch ks c)) = take cap (foldl (touch source) used ks)"
  using assms
proof (induction ks arbitrary: c used)
  case (Cons k ks)
  obtain r c' where f: "fetch k c = (r, c')" by (cases "fetch k c")
  have r: "r = source k" and c': "ok c'" using fetch_value [OF Cons.prems(1), of k] fetch_ok [OF Cons.prems(1), of k] f by simp_all
  have keys: "keys c' = take cap (touch source used k)"
  proof (cases "source k")
    case (Inl e)
    then show ?thesis using fetch_error [OF Cons.prems(1) Inl] f Cons.prems(3) by (simp add: touch_def)
  next
    case (Inr v)
    then show ?thesis using fetch_keys [OF Cons.prems(1) Inr] f Cons.prems(3) take_recent [OF cap_pos [OF Cons.prems(1)] Cons.prems(2)]
      by (simp add: touch_def)
  qed
  from Cons.IH [OF c' distinct_touch [OF Cons.prems(2)] keys] f r show ?case by (cases "lookups fetch ks c'") simp
qed simp_all

lemma run_new:
  assumes "ok c" "keys c = []"
  shows "fst (lookups fetch ks c) = map source ks"
    and "keys (snd (lookups fetch ks c)) = take cap (recent source ks)"
    and "ok (snd (lookups fetch ks c))"
  using run_from [OF assms(1), of "[]"] assms(2) by (simp_all add: recent_def)

end

section \<open>The cache of tiles keeps its interface\<close>

definition cache_ok :: "(string \<Rightarrow> dem_error + tile) \<Rightarrow> nat \<Rightarrow> tile_cache \<Rightarrow> bool" where
  "cache_ok load m c \<longleftrightarrow> tc_max c = m \<and> 1 \<le> m \<and> length (tc_lru c) \<le> m \<and> distinct (map fst (tc_lru c))
     \<and> (\<forall>k e. tc_tiles c k = Some e \<longleftrightarrow> e \<in> set (tc_lru c) \<and> fst e = k)
     \<and> (\<forall>e \<in> set (tc_lru c). load (fst e) = Inr (snd e))"

definition tile_names :: "tile_cache \<Rightarrow> string list" where
  "tile_names c = map fst (tc_lru c)"

lemma cache_okD:
  assumes "cache_ok load m c"
  shows "tc_max c = m" "1 \<le> m" "length (tc_lru c) \<le> m" "distinct (map fst (tc_lru c))"
    "tc_tiles c k = Some e \<longleftrightarrow> e \<in> set (tc_lru c) \<and> fst e = k" "e \<in> set (tc_lru c) \<Longrightarrow> load (fst e) = Inr (snd e)"
  using assms unfolding cache_ok_def by blast+

lemma new_cache_ok: "cache_ok load (nat (max 1 m)) (newTileCache m)"
  by (auto simp: cache_ok_def newTileCache_def)

lemma fst_removeAll: "map fst (filter (\<lambda>x. fst x \<noteq> k) xs) = removeAll k (map fst xs)"
  by (induction xs) auto

lemma hit_ok:
  assumes ok: "cache_ok load m c" and hit: "tc_tiles c k = Some e"
  shows "cache_ok load m (c\<lparr>tc_lru := e # filter (\<lambda>x. fst x \<noteq> fst e) (tc_lru c)\<rparr>)"
proof -
  have e: "e \<in> set (tc_lru c)" "fst e = k" using hit cache_okD(5) [OF ok] by auto
  have same: "x = e" if "x \<in> set (tc_lru c)" "fst x = fst e" for x
    using cache_okD(4) [OF ok] that e(1) unfolding distinct_map by (meson inj_onD)
  have members: "x \<in> set (e # filter (\<lambda>x. fst x \<noteq> fst e) (tc_lru c)) \<longleftrightarrow> x \<in> set (tc_lru c)" for x
    unfolding list.set set_filter using same e(1) by blast
  have "length (filter (\<lambda>x. fst x \<noteq> fst e) (tc_lru c)) < length (tc_lru c)"
    using e by (intro length_filter_less) auto
  moreover have "distinct (map fst (e # filter (\<lambda>x. fst x \<noteq> fst e) (tc_lru c)))"
    using cache_okD(4) [OF ok] by (auto simp: distinct_map_filter)
  ultimately show ?thesis
    using cache_okD(1,2,3,5,6) [OF ok] members unfolding cache_ok_def
    by (simp only: tile_cache.simps Ball_def list.size) simp
qed

text \<open>With one entry too many, the last one goes.\<close>

lemma evict_one:
  assumes "length (tc_lru c) \<le> Suc (tc_max c)" "1 \<le> tc_max c"
  shows "evict c = (if length (tc_lru c) = Suc (tc_max c)
    then c\<lparr>tc_tiles := (tc_tiles c)(fst (last (tc_lru c)) := None), tc_lru := butlast (tc_lru c)\<rparr> else c)"
  using assms by (subst evict.simps) (auto simp: evict.simps [of "c\<lparr>tc_tiles := _, tc_lru := _\<rparr>"])

lemma miss_ok:
  assumes ok: "cache_ok load m c" and miss: "tc_tiles c k = None" and load: "load k = Inr t"
  shows "cache_ok load m (evict (c\<lparr>tc_spacing := s, tc_tiles := (tc_tiles c)(k \<mapsto> (k, t)), tc_lru := (k, t) # tc_lru c\<rparr>))"
    and "tile_names (evict (c\<lparr>tc_spacing := s, tc_tiles := (tc_tiles c)(k \<mapsto> (k, t)), tc_lru := (k, t) # tc_lru c\<rparr>))
      = take m (k # tile_names c)"
proof -
  let ?c = "c\<lparr>tc_spacing := s, tc_tiles := (tc_tiles c)(k \<mapsto> (k, t)), tc_lru := (k, t) # tc_lru c\<rparr>"
  note d = cache_okD [OF ok]
  have new: "k \<notin> fst ` set (tc_lru c)"
  proof
    assume "k \<in> fst ` set (tc_lru c)"
    then obtain e where "e \<in> set (tc_lru c)" "fst e = k" by blast
    then have "tc_tiles c k = Some e" using d(5) by blast
    with miss show False by simp
  qed
  have ev: "evict ?c = (if length (tc_lru c) = m
      then ?c\<lparr>tc_tiles := (tc_tiles ?c)(fst (last (tc_lru ?c)) := None), tc_lru := butlast (tc_lru ?c)\<rparr> else ?c)"
    using evict_one [of ?c] d(1,2,3) by simp
  show "tile_names (evict ?c) = take m (k # tile_names c)"
    unfolding ev using d(2,3) by (cases "tc_lru c" rule: rev_cases) (auto simp: tile_names_def butlast_append take_Cons')
  show "cache_ok load m (evict ?c)"
  proof (cases "length (tc_lru c) = m")
    case False
    have "((tc_tiles c)(k \<mapsto> (k, t))) n = Some e \<longleftrightarrow> e \<in> set ((k, t) # tc_lru c) \<and> fst e = n" for n e
      using d(5) [of n e] new by (cases e) (auto simp: image_iff)
    then show ?thesis unfolding ev using False d(1,2,3,4,6) new load by (simp add: cache_ok_def)
  next
    case True
    then obtain xs l where xs: "tc_lru c = xs @ [l]" using d(2) by (cases "tc_lru c" rule: rev_cases) auto
    then have l: "fst l \<notin> fst ` set xs" and dist: "distinct (map fst xs)" using d(4) by auto
    have len: "length xs < m" using True xs by simp
    have kept: "((tc_tiles c)(k \<mapsto> (k, t), fst l := None)) n = Some e \<longleftrightarrow> e \<in> set ((k, t) # xs) \<and> fst e = n" for n e
    proof -
      have "fst e \<noteq> k" if "e \<in> set (tc_lru c)" using that new by (metis image_eqI)
      moreover have "fst e \<noteq> fst l" if "e \<in> set xs" using that l by (metis image_eqI)
      moreover have "e \<in> set (tc_lru c) \<longleftrightarrow> e \<in> set xs \<or> e = l" using xs by auto
      moreover have "fst l \<noteq> k" using new xs by auto
      ultimately show ?thesis using d(5) [of n e] by (cases e) auto
    qed
    show ?thesis unfolding ev using True xs kept d(1,2,6) load len dist new
      by (simp add: cache_ok_def butlast_append image_Un)
  qed
qed

interpretation tiles: recency_cache load "tile_get load" tile_names "cache_ok load m" m for load m
proof
  fix c k
  assume ok: "cache_ok load m c"
  show "fst (tile_get load k c) = load k"
  proof (cases "tc_tiles c k")
    case (Some e)
    then have "e \<in> set (tc_lru c)" "fst e = k" using cache_okD(5) [OF ok] by blast+
    then show ?thesis using Some cache_okD(6) [OF ok, of e] by (simp add: tile_get_def)
  qed (simp add: tile_get_def split: sum.splits)
  show "cache_ok load m (snd (tile_get load k c))"
    using ok hit_ok [OF ok] miss_ok(1) [OF ok] by (auto simp: tile_get_def split: option.splits sum.splits)
  show "1 \<le> m" using cache_okD(2) [OF ok] .
  show "tile_names (snd (tile_get load k c)) = tile_names c" if "load k = Inl e" for e
  proof (cases "tc_tiles c k")
    case (Some e)
    then have "e \<in> set (tc_lru c)" "fst e = k" using cache_okD(5) [OF ok] by blast+
    then show ?thesis using that cache_okD(6) [OF ok, of e] by simp
  qed (simp add: tile_get_def that)
  show "tile_names (snd (tile_get load k c)) = take m (k # removeAll k (tile_names c))" if "load k = Inr v" for v
  proof (cases "tc_tiles c k")
    case None
    then have "removeAll k (tile_names c) = tile_names c"
      using cache_okD(5) [OF ok] by (intro removeAll_id) (force simp: tile_names_def)
    with None that miss_ok(2) [OF ok None that] show ?thesis by (simp add: tile_get_def)
  next
    case (Some e)
    then have e: "e \<in> set (tc_lru c)" "fst e = k" using cache_okD(5) [OF ok] by auto
    then have "k \<in> set (tile_names c)" by (auto simp: tile_names_def)
    then have "length (removeAll k (tile_names c)) < length (tile_names c)" by (rule length_removeAll_less)
    then show ?thesis using Some e cache_okD(3) [OF ok] by (simp add: tile_get_def tile_names_def fst_removeAll)
  qed
qed

section \<open>Sources\<close>

text \<open>The height at a position without a cache.\<close>

definition plain_elevation :: "(string \<Rightarrow> dem_error + tile) \<Rightarrow> real \<times> real \<Rightarrow> dem_error + real" where
  "plain_elevation load p = (if 90 < \<bar>fst p\<bar> \<or> 180 < \<bar>snd p\<bar> then Inl (DemError ''dem: invalid position'')
     else case load (tileName (fst p) (snd p)) of Inl e \<Rightarrow> Inl e | Inr t \<Rightarrow> tile_sample t (fst p) (snd p))"

lemma source_elevation_plain:
  assumes "cache_ok load m c"
  shows "fst (source_elevation load la lo c) = plain_elevation load (la, lo)"
    and "cache_ok load m (snd (source_elevation load la lo c))"
  using tiles.fetch_value [OF assms, of "tileName la lo"] tiles.fetch_ok [OF assms, of "tileName la lo"] assms
  by (auto simp: source_elevation_def plain_elevation_def split: prod.splits sum.splits)

lemma elevations_plain:
  assumes "cache_ok load m c"
  shows "fst (lookups (\<lambda>p. source_elevation load (fst p) (snd p)) ps c) = map (plain_elevation load) ps"
  using assms
proof (induction ps arbitrary: c)
  case (Cons p ps)
  obtain r c' where f: "source_elevation load (fst p) (snd p) c = (r, c')" by (cases "source_elevation load (fst p) (snd p) c")
  then show ?case using source_elevation_plain [OF Cons.prems, of "fst p" "snd p"] Cons.IH [of c']
    by (cases "lookups (\<lambda>p. source_elevation load (fst p) (snd p)) ps c'") simp
qed simp

text \<open>C13: The tile cache is a cache of the tiles used last: whatever sequence of lookups runs on a new cache, each answers
  what loading the tile would answer, and the tiles kept are those looked up last, the latest first, at most the
  maximum and at least one; a name that cannot be loaded leaves the cache as it was. So the heights of a source with
  the cache are those of the source without it.\<close>

theorem tile_cache_refines:
  "fst (lookups (tile_get load) names (newTileCache m)) = map load names
    \<and> tile_names (snd (lookups (tile_get load) names (newTileCache m))) = take (nat (max 1 m)) (recent load names)
    \<and> fst (lookups (\<lambda>p. source_elevation load (fst p) (snd p)) ps (newTileCache m)) = map (plain_elevation load) ps"
  using tiles.run_new [OF new_cache_ok, of m load names] elevations_plain [OF new_cache_ok, of load ps m]
  by (simp add: newTileCache_def tile_names_def)

section \<open>Samples\<close>

lemma parseTile_Inr:
  assumes "parseTile raw name f = Inr t"
  shows "2 \<le> ti_side t" "ti_raw t = raw" "ti_format t = f" "length raw = ti_side t * ti_side t * fo_size f"
  using assms by (auto simp: parseTile_def Let_def split: if_splits)

lemma cell_bounds:
  assumes "2 \<le> ti_side t" "0 \<le> x" "x \<le> real (ti_side t - 1)"
  shows "cell_of t x + 1 < ti_side t" "real (cell_of t x) \<le> x" "x \<le> real (cell_of t x) + 1"
proof -
  define k where "k = nat (trunc x)"
  have k: "real k \<le> x" "x < real k + 1" using assms(2) by (simp_all add: k_def trunc_nonneg)
  have side: "real (ti_side t - 1) = real (ti_side t - 2) + 1" using assms(1) by (simp add: of_nat_diff)
  have cell: "cell_of t x = (if ti_side t - 1 \<le> k then ti_side t - 2 else k)" by (simp add: cell_of_def k_def)
  show "cell_of t x + 1 < ti_side t" unfolding cell using assms(1) by (simp split: if_split) linarith
  have "real (cell_of t x) \<le> x \<and> x \<le> real (cell_of t x) + 1"
  proof (cases "ti_side t - 1 \<le> k")
    case True
    then have "real (ti_side t - 1) \<le> real k" by (rule of_nat_mono)
    moreover have "cell_of t x = ti_side t - 2" using True cell by simp
    ultimately show ?thesis using k assms(3) side by linarith
  next
    case False
    then have "cell_of t x = k" using cell by simp
    then show ?thesis using k by linarith
  qed
  then show "real (cell_of t x) \<le> x" "x \<le> real (cell_of t x) + 1" by blast+
qed

lemma tile_row_range: "0 \<le> tile_row t la" "tile_row t la \<le> real (ti_side t - 1)"
proof -
  have "0 \<le> of_int \<lfloor>la\<rfloor> + 1 - la" "of_int \<lfloor>la\<rfloor> + 1 - la \<le> 1" by linarith+
  then show "0 \<le> tile_row t la" "tile_row t la \<le> real (ti_side t - 1)"
    unfolding tile_row_def by (simp_all add: mult_left_le_one_le)
qed

lemma tile_col_range: "0 \<le> tile_col t lo" "tile_col t lo \<le> real (ti_side t - 1)"
proof -
  have "0 \<le> lo - of_int \<lfloor>lo\<rfloor>" "lo - of_int \<lfloor>lo\<rfloor> \<le> 1" by linarith+
  then show "0 \<le> tile_col t lo" "tile_col t lo \<le> real (ti_side t - 1)"
    unfolding tile_col_def by (simp_all add: mult_left_le_one_le)
qed

lemma blend_range:
  fixes a b w :: real
  assumes "0 \<le> w" "w \<le> 1" "lo \<le> a" "lo \<le> b" "a \<le> hi" "b \<le> hi"
  shows "lo \<le> a * (1 - w) + b * w" "a * (1 - w) + b * w \<le> hi"
proof -
  have "lo * (1 - w) + lo * w \<le> a * (1 - w) + b * w" "a * (1 - w) + b * w \<le> hi * (1 - w) + hi * w"
    using assms by (intro add_mono mult_right_mono; simp)+
  then show "lo \<le> a * (1 - w) + b * w" "a * (1 - w) + b * w \<le> hi" by (simp_all add: algebra_simps)
qed

lemma bilinear_range:
  fixes s0 s1 s2 s3 fc fr :: real
  assumes "0 \<le> fc" "fc \<le> 1" "0 \<le> fr" "fr \<le> 1" "\<forall>v \<in> {s0, s1, s2, s3}. lo \<le> v \<and> v \<le> hi"
  shows "lo \<le> (s0 * (1 - fc) + s1 * fc) * (1 - fr) + (s2 * (1 - fc) + s3 * fc) * fr"
    and "(s0 * (1 - fc) + s1 * fc) * (1 - fr) + (s2 * (1 - fc) + s3 * fc) * fr \<le> hi"
  using assms(5) blend_range [OF assms(1,2), of lo s0 s1 hi] blend_range [OF assms(1,2), of lo s2 s3 hi]
  by (intro blend_range [OF assms(3,4), of lo _ _ hi]; simp)+

lemma sample_inside: "row < n \<Longrightarrow> col < n \<Longrightarrow> (row * n + col) * k + k \<le> n * n * (k :: nat)"
proof -
  assume "row < n" "col < n"
  have "Suc row * n \<le> n * n" using \<open>row < n\<close> by (intro mult_le_mono1) simp
  with \<open>col < n\<close> have "row * n + col + 1 \<le> n * n" by simp
  then have "(row * n + col + 1) * k \<le> n * n * k" by (rule mult_le_mono1)
  then show ?thesis by (simp add: algebra_simps)
qed

text \<open>A height is read inside its tile. For every position the four samples around it lie in the data of the tile; the
  result is the error void when one of them is void, and otherwise a height between the smallest and the largest of
  the four.\<close>

theorem tile_sample_between:
  assumes "parseTile raw name f = Inr t"
  shows "\<exists>r c. r + 1 < ti_side t \<and> c + 1 < ti_side t
    \<and> real r \<le> tile_row t la \<and> tile_row t la \<le> real r + 1 \<and> real c \<le> tile_col t lo \<and> tile_col t lo \<le> real c + 1
    \<and> (\<forall>i \<in> {r, r + 1}. \<forall>k \<in> {c, c + 1}. (i * ti_side t + k) * fo_size f + fo_size f \<le> length (ti_raw t))
    \<and> (case those [tile_at t r c, tile_at t r (c + 1), tile_at t (r + 1) c, tile_at t (r + 1) (c + 1)] of
         None \<Rightarrow> tile_sample t la lo = Inl Void
       | Some s \<Rightarrow> \<exists>h. tile_sample t la lo = Inr h \<and> Min (set s) \<le> h \<and> h \<le> Max (set s))"
proof (intro exI conjI)
  let ?r = "cell_of t (tile_row t la)" and ?c = "cell_of t (tile_col t lo)"
  note tile = parseTile_Inr [OF assms]
  note r = cell_bounds [OF tile(1) tile_row_range, of la] and c = cell_bounds [OF tile(1) tile_col_range, of lo]
  show "?r + 1 < ti_side t" "?c + 1 < ti_side t" "real ?r \<le> tile_row t la" "tile_row t la \<le> real ?r + 1"
    "real ?c \<le> tile_col t lo" "tile_col t lo \<le> real ?c + 1" using r c by blast+
  show "\<forall>i \<in> {?r, ?r + 1}. \<forall>k \<in> {?c, ?c + 1}. (i * ti_side t + k) * fo_size f + fo_size f \<le> length (ti_raw t)"
    unfolding tile(2,4) using r(1) c(1) by (intro ballI sample_inside) auto
  let ?l = "[tile_at t ?r ?c, tile_at t ?r (?c + 1), tile_at t (?r + 1) ?c, tile_at t (?r + 1) (?c + 1)]"
  show "case those ?l of None \<Rightarrow> tile_sample t la lo = Inl Void
     | Some s \<Rightarrow> \<exists>h. tile_sample t la lo = Inr h \<and> Min (set s) \<le> h \<and> h \<le> Max (set s)"
  proof (cases "those ?l")
    case None
    then show ?thesis by (simp add: tile_sample_def Let_def del: those.simps)
  next
    case (Some s)
    then obtain s0 s1 s2 s3 where s: "s = [s0, s1, s2, s3]" by (auto split: option.splits)
    let ?fr = "tile_row t la - real ?r" and ?fc = "tile_col t lo - real ?c"
    let ?h = "(s0 * (1 - ?fc) + s1 * ?fc) * (1 - ?fr) + (s2 * (1 - ?fc) + s3 * ?fc) * ?fr"
    have "\<forall>v \<in> {s0, s1, s2, s3}. Min (set s) \<le> v \<and> v \<le> Max (set s)" unfolding s by (auto simp del: Min_insert Max_insert)
    note range = bilinear_range [OF _ _ _ _ this, of ?fc ?fr]
    have "tile_sample t la lo = Inr ?h" using Some s by (simp add: tile_sample_def Let_def del: those.simps)
    moreover have "Min (set s) \<le> ?h" "?h \<le> Max (set s)"
      using range r(2,3) c(2,3) by simp_all
    ultimately show ?thesis using Some by simp
  qed
qed

lemma tile_sample_between_witness:
  "\<exists>t. parseTile [1, 2, 3, 4] ''N47E009'' chm = Inr t \<and> (\<exists>r c. r + 1 < ti_side t \<and> c + 1 < ti_side t)"
proof -
  have "parseTile [1, 2, 3, 4] ''N47E009'' chm = Inr \<lparr>ti_side = 2, ti_raw = [1, 2, 3, 4], ti_format = chm\<rparr>"
    by (simp add: parseTile_def chm_def)
  with tile_sample_between [OF this, of 47 9] show ?thesis by blast
qed

end
