(* ===== verification/Hf_Base.thy ===== *)
theory Hf_Base
  imports Float64 "HOL-Library.Word"
begin

text \<open>
  The HF circuit model of src/internal/hf (ITU-R P.533): its constants (common.go), errors (errors.go), the
  geometry on the sphere (geometry.go) and the state of one calculation (p533.go). Floats are real numbers:
  what depends on rounding, on a division by zero or on a NaN is outside the model. Arrays are lists and
  indices natural numbers; zero-based months, hours and mode indices as in the code.

  The record pathData of the code is split into what the caller provides and, by part of the calculation,
  what the routines fill in. The pointer to the dominant mode is the place of the mode in its array.
\<close>

section \<open>Constants\<close>

text \<open>The name pi stands for Isabelle's constant; c_pi is the literal of the code.\<close>

definition c_pi :: real where "c_pi = 3.14159265358979323846"
definition r0 :: real where "r0 = 6371.009"
definition d2r :: real where "d2r = 0.0174532925"
definition r2d :: real where "r2d = 57.2957795"
definition vOfL :: real where "vOfL = 299792458"
definition dblEpsilon :: real where "dblEpsilon = 2.2204460492503131 / 10 ^ 16"
definition tinyDB :: real where "tinyDB = - 307"
definition tooBig :: real where "tooBig = (2 - 1 / 2 ^ 52) * 2 ^ 1023"

definition cMin :: "'a::linorder \<Rightarrow> 'a \<Rightarrow> 'a" where "cMin x y = (if x < y then x else y)"
definition cMax :: "'a::linorder \<Rightarrow> 'a \<Rightarrow> 'a" where "cMax x y = (if x > y then x else y)"

definition hr100km :: nat where "hr100km = 0"
definition hr300km :: nat where "hr300km = 1"

definition t1k :: nat where "t1k = 0"
definition td02 :: nat where "td02 = 1"
definition mp :: nat where "mp = 2"
definition rd02 :: nat where "rd02 = 3"
definition r1k :: nat where "r1k = 4"

definition winter :: nat where "winter = 0"
definition equinox :: nat where "equinox = 1"
definition summer :: nat where "summer = 2"

definition dl :: nat where "dl = 0"
definition du :: nat where "du = 1"

definition noLowestMode :: nat where "noLowestMode = 99"
definition noDominantMode :: nat where "noDominantMode = 99"
definition analog :: int where "analog = 0"
definition digital :: int where "digital = 1"
definition shortPath :: int where "shortPath = 0"
definition longPath :: int where "longPath = 1"
definition minEleAngleS :: real where "minEleAngleS = 3"
definition minEleAngleL :: real where "minEleAngleL = 3"
definition maxSSN :: int where "maxSSN = 160"
definition maxF2Mds :: nat where "maxF2Mds = 6"
definition maxEMds :: nat where "maxEMds = 3"
definition maxMds :: nat where "maxMds = 9"
definition txToRx :: int where "txToRx = 1"
definition rxToTx :: int where "rxToTx = 2"
definition ionHours :: nat where "ionHours = 24"
definition ionLng :: nat where "ionLng = 241"
definition ionLat :: nat where "ionLat = 121"
definition ionSSN :: nat where "ionSSN = 2"

section \<open>Errors\<close>

datatype hf_error = HfError string

definition ErrYear :: hf_error where "ErrYear = HfError ''hf: invalid year (1900..2100)''"
definition ErrMonth :: hf_error where "ErrMonth = HfError ''hf: invalid month''"
definition ErrHour :: hf_error where "ErrHour = HfError ''hf: invalid hour''"
definition ErrManMadeNoise :: hf_error where "ErrManMadeNoise = HfError ''hf: invalid man-made noise''"
definition ErrNoFoF2Data :: hf_error where "ErrNoFoF2Data = HfError ''hf: missing foF2 array data''"
definition ErrNoM3kF2Data :: hf_error where "ErrNoM3kF2Data = HfError ''hf: missing M(3000)F2 array data''"
definition ErrNoDudData :: hf_error where "ErrNoDudData = HfError ''hf: missing DuD array data''"
definition ErrNoFamData :: hf_error where "ErrNoFamData = HfError ''hf: missing Fam array data''"
definition ErrNoFoF2VarData :: hf_error where "ErrNoFoF2VarData = HfError ''hf: missing foF2 variability array data''"
definition ErrSSN :: hf_error where "ErrSSN = HfError ''hf: invalid sunspot number (1..311)''"
definition ErrModulation :: hf_error where "ErrModulation = HfError ''hf: invalid modulation''"
definition ErrFrequency :: hf_error where "ErrFrequency = HfError ''hf: invalid frequency (1..30 MHz)''"
definition ErrBandwidth :: hf_error where "ErrBandwidth = HfError ''hf: invalid bandwidth (0.005 Hz..3 MHz)''"
definition ErrTxPower :: hf_error where "ErrTxPower = HfError ''hf: invalid transmit power (-30..60 dB(kW))''"
definition ErrSNRRequired :: hf_error where "ErrSNRRequired = HfError ''hf: invalid required signal-to-noise ratio''"
definition ErrSIRRequired :: hf_error where "ErrSIRRequired = HfError ''hf: invalid required signal-to-interference ratio''"
definition ErrF0 :: hf_error where "ErrF0 = HfError ''hf: invalid frequency dispersion F0''"
definition ErrT0 :: hf_error where "ErrT0 = HfError ''hf: invalid time spread T0''"
definition ErrA :: hf_error where "ErrA = HfError ''hf: invalid digital modulation amplitude ratio A''"
definition ErrTW :: hf_error where "ErrTW = HfError ''hf: invalid digital modulation time window TW''"
definition ErrFW :: hf_error where "ErrFW = HfError ''hf: invalid digital modulation frequency window FW''"
definition ErrTxLocation :: hf_error where "ErrTxLocation = HfError ''hf: invalid transmit location''"
definition ErrRxLocation :: hf_error where "ErrRxLocation = HfError ''hf: invalid receive location''"
definition ErrRxAntennaPattern :: hf_error where "ErrRxAntennaPattern = HfError ''hf: invalid receive antenna pattern''"
definition ErrTxAntennaPattern :: hf_error where "ErrTxAntennaPattern = HfError ''hf: invalid transmit antenna pattern''"
definition ErrSNRXXp :: hf_error where "ErrSNRXXp = HfError ''hf: invalid SNRXX percentage (1..99)''"
definition ErrBearing :: hf_error where "ErrBearing = HfError ''hf: antenna bearing out of range (0..360 degrees)''"
definition ErrGainOffset :: hf_error where "ErrGainOffset = HfError ''hf: antenna gain offset out of range''"
definition ErrOpenAntennaFile :: hf_error where "ErrOpenAntennaFile = HfError ''hf: cannot open antenna file''"
definition ErrAntennaType :: hf_error where "ErrAntennaType = HfError ''hf: unsupported antenna file type''"
definition ErrOpenP1239File :: hf_error where "ErrOpenP1239File = HfError (''hf: cannot open '' @ [CHR 0x27] @ ''P1239-3 Decile Factors.txt'' @ [CHR 0x27])"
definition ErrNotP12393 :: hf_error where "ErrNotP12393 = HfError ''hf: invalid P.1239-3 file''"
definition ErrReadIonParameters :: hf_error where "ErrReadIonParameters = HfError ''hf: cannot read ionospheric parameters file''"
definition ErrNoHours :: hf_error where "ErrNoHours = HfError ''hf: no valid hour in the request''"
definition ErrNoFrequencies :: hf_error where "ErrNoFrequencies = HfError ''hf: no valid frequency in the request''"

section \<open>Geometry\<close>

record location =
  l_lat :: real
  l_lng :: real

text \<open>math.Atan2 away from the signs of zero.\<close>

definition r_atan2 :: "real \<Rightarrow> real \<Rightarrow> real" where
  "r_atan2 y x = (if 0 < x then arctan (y / x)
     else if x < 0 then (if 0 \<le> y then arctan (y / x) + pi else arctan (y / x) - pi)
     else if 0 < y then pi / 2 else if y < 0 then - (pi / 2) else 0)"

definition greatCircleDistance :: "location \<Rightarrow> location \<Rightarrow> real" where
  "greatCircleDistance a b = 2 * r0 * arcsin (sqrt ((sin ((l_lat a - l_lat b) / 2))\<^sup>2
     + cos (l_lat a) * cos (l_lat b) * (sin ((l_lng a - l_lng b) / 2))\<^sup>2))"

definition geomagneticCoords :: "location \<Rightarrow> location" where
  "geomagneticCoords a = (let plat = 78.5 * d2r; plng = - 68.2 * d2r;
       lat' = arcsin (sin (l_lat a) * sin plat + cos (l_lat a) * cos plat * cos (l_lng a - plng)) in
     \<lparr>l_lat = lat', l_lng = arcsin (cos (l_lat a) * sin (l_lng a - plng) / cos lat')\<rparr>)"

definition hf_bearing :: "location \<Rightarrow> location \<Rightarrow> int \<Rightarrow> real" where
  "hf_bearing a b direction = (let
       num = sin (l_lng b - l_lng a) * cos (l_lat b);
       den = cos (l_lat a) * sin (l_lat b) - sin (l_lat a) * cos (l_lat b) * cos (l_lng b - l_lng a);
       br = r_mod (2 * c_pi + r_atan2 num den) (2 * c_pi) in
     if direction = longPath then r_mod (2 * c_pi + (br + c_pi)) (2 * c_pi) else br)"

section \<open>The state of a calculation\<close>

record solarParameters =
  so_ha :: real
  so_sha :: real
  so_sza :: real
  so_decl :: real
  so_eot :: real
  so_lsr :: real
  so_lsn :: real
  so_lss :: real

text \<open>The arrays dip and fH hold the values at 100 and at 300 km.\<close>

record controlPt =
  cp_L :: location
  cp_distance :: real
  cp_foE :: real
  cp_foF2 :: real
  cp_M3kF2 :: real
  cp_dip100 :: real
  cp_dip300 :: real
  cp_fH100 :: real
  cp_fH300 :: real
  cp_ltime :: real
  cp_hr :: real
  cp_x :: real
  cp_Sun :: solarParameters

record mode =
  md_BMUF :: real
  md_MUF90 :: real
  md_MUF50 :: real
  md_MUF10 :: real
  md_OPMUF :: real
  md_OPMUF10 :: real
  md_OPMUF90 :: real
  md_Fprob :: real
  md_deltal :: real
  md_deltau :: real
  md_hr :: real
  md_fs :: real
  md_Lb :: real
  md_Ew :: real
  md_ele :: real
  md_Prw :: real
  md_Grw :: real
  md_tau :: real
  md_MC :: int

text \<open>A pattern is indexed by frequency, azimuth and elevation; None is a pattern that is not loaded.\<close>

record hf_antenna =
  ha_name :: string
  ha_freqn :: nat
  ha_freqs :: "real list"
  ha_pattern :: "real list list list option"

type_synonym ionMap = "real list"
type_synonym decileFactors = "real list list list list list"

text \<open>The coefficients and the state of the noise model P.372.\<close>

record coefficients =
  co_Fakp :: "real list list list"
  co_Fakabp :: "real list list"
  co_Dud :: "real list list list"
  co_Fam :: "real list list"

record noise =
  no_Hour :: int
  no_Lng :: real
  no_Lat :: real
  no_Frequency :: real
  no_ManMadeNoise :: real
  no_FaA :: real
  no_DuA :: real
  no_DlA :: real
  no_FaM :: real
  no_DuM :: real
  no_DlM :: real
  no_FaG :: real
  no_DuG :: real
  no_DlG :: real
  no_DuT :: real
  no_DlT :: real
  no_FamT :: real

record path_input =
  pi_year :: int
  pi_month :: int
  pi_hour :: int
  pi_SSN :: int
  pi_Modulation :: int
  pi_SorL :: int
  pi_frequency :: real
  pi_BW :: real
  pi_txpower :: real
  pi_SNRXXp :: int
  pi_SNRr :: real
  pi_SIRr :: real
  pi_F0 :: real
  pi_T0 :: real
  pi_A :: real
  pi_TW :: real
  pi_FW :: real
  pi_tx :: location
  pi_rx :: location
  pi_Atx :: hf_antenna
  pi_Arx :: hf_antenna
  pi_foF2 :: "ionMap option"
  pi_M3kF2 :: "ionMap option"
  pi_foF2var :: "decileFactors option"
  pi_coeff :: "coefficients option"

record path_mufs =
  mu_BMUF :: real
  mu_MUF50 :: real
  mu_MUF90 :: real
  mu_MUF10 :: real
  mu_OPMUF :: real
  mu_OPMUF90 :: real
  mu_OPMUF10 :: real

record path_levels =
  lv_Es :: real
  lv_El :: real
  lv_Ei :: real
  lv_Ep :: real
  lv_Pr :: real
  lv_Lz :: real
  lv_Grw :: real
  lv_EIRP :: real

text \<open>K is the array of the two correction factors.\<close>

record path_far =
  fa_E0 :: real
  fa_Gap :: real
  fa_Ly :: real
  fa_fM :: real
  fa_fL :: real
  fa_F :: real
  fa_fH :: real
  fa_Gtl :: real
  fa_K :: "real \<times> real"

record path_reliability =
  re_SNR :: real
  re_DuSN :: real
  re_DlSN :: real
  re_SNRXX :: real
  re_SIR :: real
  re_DuSI :: real
  re_DlSI :: real
  re_RSN :: real
  re_RT :: real
  re_RF :: real
  re_BCR :: real
  re_OCR :: real
  re_OCRs :: real
  re_MIR :: real
  re_probocc :: real

datatype mode_ref = EMode nat | F2Mode nat

record pathData =
  pd_in :: path_input
  pd_season :: nat
  pd_distance :: real
  pd_ptick :: real
  pd_dmax :: real
  pd_B :: real
  pd_ele :: real
  pd_mufs :: path_mufs
  pd_n0_F2 :: nat
  pd_n0_E :: nat
  pd_levels :: path_levels
  pd_far :: path_far
  pd_rel :: path_reliability
  pd_CP :: "controlPt list"
  pd_longCP :: "controlPt list list option"
  pd_Md_F2 :: "mode list"
  pd_Md_E :: "mode list"
  pd_DM :: "mode_ref option"
  pd_DMidx :: nat
  pd_noise :: noise

definition greatCirclePoint :: "location \<Rightarrow> location \<Rightarrow> controlPt \<Rightarrow> real \<Rightarrow> real \<Rightarrow> controlPt" where
  "greatCirclePoint a b m distance fraction =
     (if distance \<noteq> 0 then let
          d = distance / r0;
          u = sin ((1 - fraction) * d) / sin d;
          v = sin (fraction * d) / sin d;
          x = u * cos (l_lat a) * cos (l_lng a) + v * cos (l_lat b) * cos (l_lng b);
          y = u * cos (l_lat a) * sin (l_lng a) + v * cos (l_lat b) * sin (l_lng b);
          z = u * sin (l_lat a) + v * sin (l_lat b) in
        m\<lparr>cp_distance := distance * fraction, cp_L := \<lparr>l_lat = r_atan2 z (sqrt (x\<^sup>2 + y\<^sup>2)), l_lng = r_atan2 y x\<rparr>\<rparr>
      else m\<lparr>cp_distance := 0, cp_L := \<lparr>l_lat = l_lat a, l_lng = l_lng a\<rparr>\<rparr>)"

end
