(* ===== verification/Hf_Points.thy ===== *)
theory Hf_Points
  imports Hf_Base
begin

text \<open>
  The control points of a path: calculate_cp_parameters.go (ionospheric maps, E layer, sun), magfit.go
  (magnetic dip and gyrofrequency), the maps of read_ion_parameters.go, and initialize_path.go, which sets a
  path to its defaults. The month, the hour and the maps come from the input of the path.
\<close>

section \<open>Maps\<close>

definition map_at :: "ionMap \<Rightarrow> nat \<Rightarrow> nat \<Rightarrow> nat \<Rightarrow> nat \<Rightarrow> real" where
  "map_at m i j k s = m ! (s * (ionLng * ionLat * ionHours) + j * (ionLat * ionHours) + k * ionHours + i)"

definition bilinearInterpolation :: "real \<Rightarrow> real \<Rightarrow> real \<Rightarrow> real \<Rightarrow> real \<Rightarrow> real \<Rightarrow> real" where
  "bilinearInterpolation ll lr ul ur r c = ll * ((1 - r) * (1 - c)) + ul * (r * (1 - c)) + lr * ((1 - r) * c) + ur * (r * c)"

text \<open>The increment of the maps, and the four grid points (longitude and latitude index) around a position:
  lower left, lower right, upper left and upper right.\<close>

definition map_inc :: real where "map_inc = 1.5 * d2r"

type_synonym grid = "int \<times> int"

definition neighbours :: "location \<Rightarrow> grid \<times> grid \<times> grid \<times> grid" where
  "neighbours p = (let k = 60 + trunc (l_lat p / map_inc); j = 120 + trunc (l_lng p / map_inc); e = 240; n = 120 in
     if 0 \<le> l_lat p then
       if 0 \<le> l_lng p then
         (if j \<noteq> e then if k \<noteq> n then ((j, k), (j + 1, k), (j, k + 1), (j + 1, k + 1))
            else ((j, k), (j + 1, k), (j, k), (j + 1, k))
          else if k \<noteq> n then ((j, k), (0, k), (j, k + 1), (0, k + 1))
            else ((j, k), (0, k), (j, k), (0, k)))
       else
         (if j \<noteq> 0 then if k \<noteq> n then ((j - 1, k), (j, k), (j - 1, k + 1), (j, k + 1))
            else ((j - 1, k), (j, k), (j - 1, k), (j, k))
          else if k \<noteq> n then ((e, k), (j, k), (e, k + 1), (j, k + 1))
            else ((e, k), (j, k), (e, k), (j, k)))
     else
       if 0 \<le> l_lng p then
         (if j \<noteq> e then if k \<noteq> 0 then ((j, k - 1), (j + 1, k - 1), (j, k), (j + 1, k))
            else ((j, k), (j + 1, k), (j, k), (j + 1, k))
          else if k \<noteq> 0 then ((j, k - 1), (0, k - 1), (j, k), (0, k))
            else ((j, k), (0, k), (j, k), (0, k)))
       else
         (if j \<noteq> 0 then if k \<noteq> 0 then ((j - 1, k - 1), (j, k - 1), (j - 1, k), (j, k))
            else ((j - 1, k), (j, k), (j - 1, k), (j, k))
          else if k \<noteq> 0 then ((e, k - 1), (j, k - 1), (e, k), (j, k))
            else ((e, k), (j, k), (e, k), (j, k))))"

definition frac_part :: "real \<Rightarrow> real" where
  "frac_part x = \<bar>x\<bar> - of_int (trunc \<bar>x\<bar>)"

text \<open>The value of a map for one of its two sunspot numbers.\<close>

definition map_value :: "ionMap \<Rightarrow> nat \<Rightarrow> nat \<Rightarrow> location \<Rightarrow> real" where
  "map_value m hour s p = (case neighbours p of (ll, lr, ul, ur) \<Rightarrow>
     let v = (\<lambda>(j, k). map_at m hour (nat j) (nat k) s) in
     bilinearInterpolation (v ll) (v lr) (v ul) (v ur) (frac_part (l_lat p / map_inc)) (frac_part (l_lng p / map_inc)))"

definition map_at_ssn :: "ionMap \<Rightarrow> nat \<Rightarrow> int \<Rightarrow> location \<Rightarrow> real" where
  "map_at_ssn m hour ssn p = (let fssn = of_int (cMin ssn maxSSN) in
     (map_value m hour 1 p * fssn + map_value m hour 0 p * (100 - fssn)) / 100)"

definition ionosphericParameters :: "controlPt \<Rightarrow> ionMap \<Rightarrow> ionMap \<Rightarrow> int \<Rightarrow> int \<Rightarrow> controlPt" where
  "ionosphericParameters cp foF2 m3kF2 hour ssn =
     cp\<lparr>cp_foF2 := map_at_ssn foF2 (nat hour) ssn (cp_L cp), cp_M3kF2 := map_at_ssn m3kF2 (nat hour) ssn (cp_L cp)\<rparr>"

section \<open>The sun\<close>

definition doty :: "nat list" where "doty = [0, 31, 59, 90, 120, 152, 181, 212, 243, 273, 304, 334]"

definition clamp_cos :: "real \<Rightarrow> real" where
  "clamp_cos x = (if 1 < \<bar>x\<bar> then (if 0 \<le> x then 1 else - 1) else x)"

definition sun_at :: "location \<Rightarrow> int \<Rightarrow> real \<Rightarrow> solarParameters" where
  "sun_at p month hour = (let
       a = 0.98565327; b = 3.98891967; s = sin (23.45 * d2r); c = cos (23.45 * d2r); v = 78.746118 * d2r;
       tzone = of_int (trunc (l_lng p / (15 * d2r)));
       ltime = hour + tzone;
       dd = real (doty ! nat month + 15) + hour / 24;
       lambda = a * d2r * (dd - 2);
       nu = lambda + 1.915169 * d2r * sin lambda;
       eps0 = a * d2r * (dd - 80);
       eps = (if 270 * d2r \<le> eps0 then eps0 - 2 * c_pi else if 90 * d2r \<le> eps0 then eps0 - c_pi else eps0);
       beta = arctan (c * tan eps);
       eot = b * ((eps - beta) + (lambda - nu)) * r2d;
       decl = arcsin (s * sin ((sin (a * (dd - 2) * d2r) * 0.016713 + a * (dd - 2) * d2r) - v));
       toffset = ((l_lng p / (15 * d2r)) - tzone) * 60 + eot;
       tst = ltime * 60 + toffset;
       ha = ((tst / 4) - 180) * d2r;
       sha = arccos ((cos (90.833 * d2r) / (cos (l_lat p) * cos decl)) - (tan (l_lat p) * tan decl));
       cosphi = clamp_cos ((sin (l_lat p) * sin decl) + (cos (l_lat p) * cos decl * cos ha));
       lsr = (720 + (- l_lng p - sha) * r2d * 4 - eot) / 60;
       lss = (720 + (- l_lng p + sha) * r2d * 4 - eot) / 60;
       lsn = (720 + (- l_lng p) * r2d * 4 - eot) / 60 in
     \<lparr>so_ha = ha, so_sha = sha, so_sza = arccos cosphi, so_decl = decl, so_eot = eot,
      so_lsr = r_mod (lsr + 24) 24, so_lsn = r_mod (lsn + 24) 24, so_lss = r_mod (lss + 24) 24\<rparr>)"

definition solarParams :: "controlPt \<Rightarrow> int \<Rightarrow> real \<Rightarrow> controlPt" where
  "solarParams cp month hour = cp\<lparr>cp_Sun := sun_at (cp_L cp) month hour, cp_ltime := hour\<rparr>"

section \<open>The E layer\<close>

text \<open>Hours after sunset and the night value of the time-of-day factor.\<close>

definition after_sunset :: "solarParameters \<Rightarrow> real \<Rightarrow> real" where
  "after_sunset sun fhour =
     (if so_lsr sun \<le> so_lss sun \<and> so_lss sun \<le> fhour \<and> so_lsr sun \<le> fhour then fhour - so_lss sun
      else if so_lss sun < so_lsr sun \<and> so_lss sun \<le> fhour \<and> fhour < so_lsr sun then fhour - so_lss sun
      else if so_lsr sun \<le> so_lss sun \<and> fhour < so_lss sun \<and> fhour < so_lsr sun then 24 - so_lss sun + fhour
      else 0)"

definition polar_winter :: "location \<Rightarrow> int \<Rightarrow> bool" where
  "polar_winter p month \<longleftrightarrow> (72.5622 * d2r < l_lat p \<and> month \<in> {10, 11, 0}) \<or> (l_lat p < 72.5622 * d2r \<and> month \<in> {4, 5, 6})"

definition night_factor :: "controlPt \<Rightarrow> int \<Rightarrow> int \<Rightarrow> real \<Rightarrow> real" where
  "night_factor cp month hour pp = (let sun = cp_Sun cp; h = after_sunset sun (of_int ((hour + 1) mod 24)) in
     if polar_winter (cp_L cp) month then 0.072 powr pp * exp (25.2 - 0.28 * so_sza sun * r2d)
     else cMax (0.072 powr pp * exp (- 1.4 * h)) (0.072 powr pp * exp (25.2 - 0.28 * so_sza sun * r2d)))"

definition day_factor :: "controlPt \<Rightarrow> int \<Rightarrow> int \<Rightarrow> real" where
  "day_factor cp month hour = (let sza = so_sza (cp_Sun cp); pp = (if \<bar>l_lat (cp_L cp)\<bar> \<le> 12 * d2r then 1.31 else 1.2) in
     if sza \<le> 73 * d2r then cos sza powr pp
     else if 73 * d2r < sza \<and> sza < c_pi / 2
       then cos (sza - 6.27 / 10 ^ 13 * (sza * r2d - 50) ^ 8 * d2r) powr pp
     else night_factor cp month hour pp)"

definition findfoE :: "controlPt \<Rightarrow> int \<Rightarrow> int \<Rightarrow> int \<Rightarrow> controlPt" where
  "findfoE cp month hour ssn = (let
       fssn = of_int (cMin ssn maxSSN); la = l_lat (cp_L cp); decl = so_decl (cp_Sun cp);
       phi = 63.7 + 0.728 * fssn + 0.00089 * fssn\<^sup>2;
       a = 1 + 0.0094 * (phi - 66);
       m = (if \<bar>la\<bar> < 32 * d2r then - 1.93 + 1.92 * cos la else 0.11 - 0.49 * cos la);
       n = (if \<bar>la - decl\<bar> < 80 * d2r then la - decl else 80 * d2r);
       b = cos n powr m;
       x = (if \<bar>la\<bar> < 32 * d2r then 23 else 92); y = (if \<bar>la\<bar> < 32 * d2r then 116 else 35);
       c = x + y * cos la;
       d = day_factor cp month hour in
     cp\<lparr>cp_foE := cMax ((a * b * c * d) powr 0.25) ((0.004 * (1 + 0.021 * phi)\<^sup>2) powr 0.25)\<rparr>)"

section \<open>The magnetic field\<close>

definition mag_g :: "real list list" where
  "mag_g = [
   [0, 0.304112, 0.024035, - 0.031518, - 0.041794, 0.016256, - 0.019523],
   [0, 0.021474, - 0.051253, 0.062130, - 0.045298, - 0.034407, - 0.004853],
   [0, 0, - 0.013381, - 0.024898, - 0.021795, - 0.019447, 0.003212],
   [0, 0, 0, - 0.0064960, 0.007008, - 0.000608, 0.021413],
   [0, 0, 0, 0, - 0.002044, 0.002775, 0.001051],
   [0, 0, 0, 0, 0, 0.000697, 0.000227],
   [0, 0, 0, 0, 0, 0, 0.001115]]"

definition mag_h :: "real list list" where
  "mag_h = [
   [0, 0, 0, 0, 0, 0, 0],
   [0, - 0.057989, 0.033124, 0.014870, - 0.011825, - 0.000796, - 0.005758],
   [0, 0, - 0.001579, - 0.004075, 0.010006, - 0.002000, - 0.008735],
   [0, 0, 0, 0.000210, 0.000430, 0.004597, - 0.003406],
   [0, 0, 0, 0, 0.001385, 0.002421, - 0.000118],
   [0, 0, 0, 0, 0, - 0.001218, - 0.001116],
   [0, 0, 0, 0, 0, 0, - 0.000325]]"

definition mag_ct :: "real list list" where
  "mag_ct = [
   [0, 0, 0.33333333, 0.266666666, 0.25714286, 0.25396825, 0.25252525],
   [0, 0, 0, 0.200000000, 0.22857142, 0.23809523, 0.24242424],
   [0, 0, 0, 0, 0.14285714, 0.19047619, 0.21212121],
   [0, 0, 0, 0, 0, 0.11111111, 0.16161616],
   [0, 0, 0, 0, 0, 0, 0.09090909],
   [0, 0, 0, 0, 0, 0, 0],
   [0, 0, 0, 0, 0, 0, 0]]"

text \<open>The entries of the arrays p and dp at m and n; they are zero for m above n.\<close>

function legendre :: "real \<Rightarrow> real \<Rightarrow> nat \<Rightarrow> nat \<Rightarrow> real \<times> real" where
  "legendre sl cl m n =
     (if n < m then (0, 0)
      else if n = 0 then (1, 0)
      else if n = m then (case legendre sl cl (m - 1) (n - 1) of (p, dp) \<Rightarrow> (cl * p, cl * dp + sl * p))
      else case legendre sl cl m (n - 1) of (p1, dp1) \<Rightarrow>
        if n \<noteq> 1 then (case legendre sl cl m (n - 2) of (p2, dp2) \<Rightarrow>
          (sl * p1 - mag_ct ! m ! n * p2, sl * dp1 - cl * p1 - mag_ct ! m ! n * dp2))
        else (sl * p1, sl * dp1 - cl * p1))"
  by pat_completeness auto
termination by (relation "measure (\<lambda>(sl, cl, m, n). n)") auto

declare legendre.simps [simp del]

definition mag_term :: "location \<Rightarrow> nat \<Rightarrow> nat \<Rightarrow> real \<times> real \<times> real" where
  "mag_term p n m = (case legendre (sin (l_lat p)) (cos (l_lat p)) m n of (q, dq) \<Rightarrow>
     let cs = cos (real m * l_lng p); sn = sin (real m * l_lng p); g = mag_g ! m ! n; h = mag_h ! m ! n in
     (q * (g * cs + h * sn), dq * (g * cs + h * sn), real m * q * (g * sn - h * cs)))"

definition mag_sum :: "(real \<times> real \<times> real \<Rightarrow> real) \<Rightarrow> location \<Rightarrow> nat \<Rightarrow> real" where
  "mag_sum f p n = sum_list (map (\<lambda>m. f (mag_term p n m)) [0..<Suc n])"

definition magfit :: "controlPt \<Rightarrow> real \<Rightarrow> controlPt" where
  "magfit cp height = (let p = cp_L cp; ar = r0 / (r0 + height);
       fz = sum_list (map (\<lambda>n. ar ^ (n + 2) * (real n + 1) * mag_sum fst p n) [1..<7]);
       fx = - sum_list (map (\<lambda>n. ar ^ (n + 2) * mag_sum (fst \<circ> snd) p n) [1..<7]);
       fy = sum_list (map (\<lambda>n. ar ^ (n + 2) * mag_sum (snd \<circ> snd) p n) [1..<7]);
       dip = arctan (fz / sqrt (fx\<^sup>2 + (fy / cos (l_lat p))\<^sup>2));
       fH = 2.8 * sqrt (fx\<^sup>2 + (fy / cos (l_lat p))\<^sup>2 + fz\<^sup>2) in
     if height = 300 then cp\<lparr>cp_dip300 := dip, cp_fH300 := fH\<rparr> else cp\<lparr>cp_dip100 := dip, cp_fH100 := fH\<rparr>)"

section \<open>The parameters of a control point\<close>

definition calculateCPParameters :: "path_input \<Rightarrow> controlPt \<Rightarrow> controlPt" where
  "calculateCPParameters p cp = (let
       c1 = ionosphericParameters cp (the (pi_foF2 p)) (the (pi_M3kF2 p)) (pi_hour p) (pi_SSN p);
       c2 = solarParams c1 (pi_month p) (of_int (pi_hour p));
       c3 = findfoE c2 (pi_month p) (pi_hour p) (pi_SSN p) in
     magfit (magfit c3 100) 300)"

section \<open>A path at its defaults\<close>

definition no_sun :: solarParameters where
  "no_sun = \<lparr>so_ha = 0, so_sha = 0, so_sza = 0, so_decl = 0, so_eot = 0, so_lsr = 0, so_lsn = 0, so_lss = 0\<rparr>"

definition zero_point :: controlPt where
  "zero_point = \<lparr>cp_L = \<lparr>l_lat = 0, l_lng = 0\<rparr>, cp_distance = 0, cp_foE = 0, cp_foF2 = 0, cp_M3kF2 = 0,
     cp_dip100 = 0, cp_dip300 = 0, cp_fH100 = 0, cp_fH300 = 0, cp_ltime = 0, cp_hr = 0, cp_x = 0, cp_Sun = no_sun\<rparr>"

definition initial_mode :: mode where
  "initial_mode = \<lparr>md_BMUF = 0, md_MUF90 = 0, md_MUF50 = 0, md_MUF10 = 0, md_OPMUF = 0, md_OPMUF10 = 0, md_OPMUF90 = 0,
     md_Fprob = 0, md_deltal = 0, md_deltau = 0, md_hr = 0, md_fs = 0, md_Lb = - tinyDB, md_Ew = tinyDB, md_ele = 0,
     md_Prw = tinyDB, md_Grw = tinyDB, md_tau = 0, md_MC = 0\<rparr>"

definition initializeModes :: "mode list \<Rightarrow> mode list" where
  "initializeModes ms = map (\<lambda>_. initial_mode) ms"

definition whatSeason :: "location \<Rightarrow> int \<Rightarrow> nat" where
  "whatSeason p month =
     (if 0 \<le> l_lat p then
        if month \<in> {10, 11, 0, 1} then winter else if month \<in> {2, 3, 8, 9} then equinox
        else if month \<in> {4, 5, 6, 7} then summer else winter
      else
        if month \<in> {4, 5, 6, 7} then winter else if month \<in> {2, 3, 8, 9} then equinox
        else if month \<in> {10, 11, 0, 1} then summer else winter)"

definition point_on_path :: "path_input \<Rightarrow> real \<Rightarrow> controlPt \<Rightarrow> real \<Rightarrow> controlPt" where
  "point_on_path i distance cp fraction = greatCirclePoint (pi_tx i) (pi_rx i) cp distance fraction"

definition initializeCPs :: "path_input \<Rightarrow> real \<Rightarrow> controlPt list \<Rightarrow> controlPt list" where
  "initializeCPs i distance cps = (let
       zs = map (\<lambda>_. zero_point) cps;
       ms = zs[mp := calculateCPParameters i (point_on_path i distance (zs ! mp) 0.5)] in
     if 2000 \<le> distance then let
         ns = ms[r1k := point_on_path i distance (ms ! r1k) ((distance - 1000) / distance)];
         ts = ns[t1k := point_on_path i distance (ns ! t1k) (1000 / distance)];
         us = ts[t1k := calculateCPParameters i (ts ! t1k)] in
       us[r1k := calculateCPParameters i (us ! r1k)]
     else ms)"

definition noise_initialize :: "noise \<Rightarrow> noise" where
  "noise_initialize n = n\<lparr>no_FaA := tinyDB, no_DuA := tinyDB, no_DlA := tinyDB, no_FaM := tinyDB, no_DuM := tinyDB, no_DlM := tinyDB,
     no_FaG := tinyDB, no_DuG := tinyDB, no_DlG := tinyDB, no_DuT := tinyDB, no_DlT := tinyDB, no_FamT := tinyDB\<rparr>"

definition path_distance :: "path_input \<Rightarrow> real" where
  "path_distance i = (let
       d0 = greatCircleDistance (pi_tx i) (pi_rx i);
       d1 = (if d0 = 0 then dblEpsilon else d0) in
     if pi_SorL i = longPath then r0 * c_pi * 2 - d1 else d1)"

definition initializePath :: "pathData \<Rightarrow> pathData" where
  "initializePath p = (let i = pd_in p; distance = path_distance i; cps = initializeCPs i distance (pd_CP p) in
     p\<lparr>pd_season := whatSeason (cp_L (cps ! mp)) (pi_month i), pd_distance := distance, pd_ptick := 0, pd_dmax := 999999.9,
       pd_B := 99.9, pd_ele := 2 * c_pi,
       pd_mufs := \<lparr>mu_BMUF = 99.9, mu_MUF50 = 99.9, mu_MUF90 = 99.9, mu_MUF10 = 99.9, mu_OPMUF = 99.9, mu_OPMUF90 = 99.9, mu_OPMUF10 = 99.9\<rparr>,
       pd_n0_F2 := noLowestMode, pd_n0_E := noLowestMode,
       pd_levels := \<lparr>lv_Es = tinyDB, lv_El = tinyDB, lv_Ei = tinyDB, lv_Ep = tinyDB, lv_Pr = tinyDB, lv_Lz = lv_Lz (pd_levels p),
         lv_Grw = tinyDB, lv_EIRP = tinyDB\<rparr>,
       pd_far := \<lparr>fa_E0 = tinyDB, fa_Gap = tinyDB, fa_Ly = 0, fa_fM = 0, fa_fL = 0, fa_F = tinyDB, fa_fH = 0, fa_Gtl = tinyDB, fa_K = (0, 0)\<rparr>,
       pd_rel := \<lparr>re_SNR = tinyDB, re_DuSN = tinyDB, re_DlSN = tinyDB, re_SNRXX = tinyDB, re_SIR = tinyDB, re_DuSI = tinyDB, re_DlSI = tinyDB,
         re_RSN = 0, re_RT = 0, re_RF = 0, re_BCR = 0, re_OCR = 0, re_OCRs = 0, re_MIR = tinyDB, re_probocc = 0\<rparr>,
       pd_CP := cps, pd_Md_F2 := initializeModes (pd_Md_F2 p), pd_Md_E := initializeModes (pd_Md_E p),
       pd_DM := None, pd_DMidx := noDominantMode, pd_noise := noise_initialize (pd_noise p)\<rparr>)"

end
