(* ===== verification/Hf_Muf.thy ===== *)
theory Hf_Muf
  imports Hf_Points
begin

text \<open>
  Part 1 of P.533, the frequencies a path supports: muf_basic.go (basic MUF of the F2 and E modes),
  muf_variability.go (deciles and probability of a mode), muf_operational.go (operational MUF) and
  e_layer_screening_frequency.go. Assigning x of a control point is a function of its other fields.
\<close>

section \<open>Geometry of a hop\<close>

definition elevationAngle :: "real \<Rightarrow> real \<Rightarrow> real" where
  "elevationAngle dh hr = arctan (1 / tan (dh / (2 * r0)) - (r0 / (r0 + hr)) / sin (dh / (2 * r0)))"

definition incidenceAngle :: "real \<Rightarrow> real \<Rightarrow> real" where
  "incidenceAngle deltaf hr = arcsin (r0 * cos deltaf / (r0 + hr))"

text \<open>The longest hop for the smallest elevation, and the lowest order of a mode whose hops are shorter.\<close>

definition longest_hop :: "real \<Rightarrow> real" where
  "longest_hop hr = (let minele = minEleAngleS * d2r in
     cMin ((c_pi - incidenceAngle minele hr - (c_pi / 2 + minele)) * r0 * 2) 4000)"

definition lowest_order :: "real \<Rightarrow> real \<Rightarrow> nat \<Rightarrow> nat option" where
  "lowest_order dh distance orders = find (\<lambda>n. dh > distance / real (n + 1)) [0..<orders]"

text \<open>A loop over the modes from index k on.\<close>

definition each_mode :: "nat \<Rightarrow> (nat \<Rightarrow> 'a \<Rightarrow> 'a) \<Rightarrow> 'a list \<Rightarrow> 'a list" where
  "each_mode k f ms = map (\<lambda>n. if k \<le> n then f n (ms ! n) else ms ! n) [0..<length ms]"

definition set_point :: "nat \<Rightarrow> (controlPt \<Rightarrow> controlPt) \<Rightarrow> pathData \<Rightarrow> pathData" where
  "set_point n f p = p\<lparr>pd_CP := (pd_CP p)[n := f (pd_CP p ! n)]\<rparr>"

section \<open>Basic MUF\<close>

definition calc_x :: "controlPt \<Rightarrow> real" where
  "calc_x cp = (if cp_foE cp \<noteq> 0 then cMax (cp_foF2 cp / cp_foE cp) 2 else 2)"

definition with_x :: "controlPt \<Rightarrow> controlPt" where
  "with_x cp = cp\<lparr>cp_x := calc_x cp\<rparr>"

definition calcB :: "controlPt \<Rightarrow> real" where
  "calcB cp = cp_M3kF2 cp - 0.124 + ((cp_M3kF2 cp)\<^sup>2 - 4) * (0.0215 + 0.005 * sin (7.854 / calc_x cp - 1.9635))"

definition calcdmax :: "controlPt \<Rightarrow> real" where
  "calcdmax cp = (let x = calc_x cp in
     4780 + (12610 + 2140 / x\<^sup>2 - 49720 / x ^ 4 + 688900 / x ^ 6) * (1 / calcB cp - 0.303))"

definition calcCd :: "real \<Rightarrow> real \<Rightarrow> real" where
  "calcCd d dmax = (let z = 1 - 2 * d / dmax in
     0.74 - 0.591 * z - 0.424 * z\<^sup>2 - 0.090 * z ^ 3 + 0.088 * z ^ 4 + 0.181 * z ^ 5 + 0.096 * z ^ 6)"

definition calcF2DMUF :: "controlPt \<Rightarrow> real \<Rightarrow> real \<Rightarrow> real \<Rightarrow> real" where
  "calcF2DMUF cp distance dmax b = (let d = (if distance \<le> dmax then distance else dmax) in
     (1 + (calcCd d dmax / calcCd 3000 dmax) * (b - 1)) * cp_foF2 cp + (cp_fH300 cp / 2) * (1 - distance / dmax))"

definition set_bmuf :: "real \<Rightarrow> pathData \<Rightarrow> pathData" where
  "set_bmuf v p = p\<lparr>pd_mufs := (pd_mufs p)\<lparr>mu_BMUF := v\<rparr>\<rparr>"

text \<open>The lowest-order F2 mode: at the mid-point, or at the two control points of half a hop.\<close>

definition muf_lowest :: "nat \<Rightarrow> pathData \<Rightarrow> pathData" where
  "muf_lowest n0 p = (let i = pd_in p; distance = pd_distance p; dmax = pd_dmax p; hop = distance / (real n0 + 1) in
     if distance \<le> dmax then
       let v = calcF2DMUF (pd_CP p ! mp) hop dmax (calcB (pd_CP p ! mp)) in
       set_bmuf v (p\<lparr>pd_Md_F2 := (pd_Md_F2 p)[n0 := (pd_Md_F2 p ! n0)\<lparr>md_BMUF := v\<rparr>]\<rparr>)
     else let
       q = set_point rd02 (\<lambda>c. with_x (calculateCPParameters i (point_on_path i distance c (1 - 1 / (2 * real (n0 + 1))))))
          (set_point td02 (\<lambda>c. with_x (calculateCPParameters i (point_on_path i distance c (1 / (2 * real (n0 + 1)))))) p);
       v = cMin (calcF2DMUF (pd_CP q ! td02) hop dmax (calcB (pd_CP q ! td02))) (calcF2DMUF (pd_CP q ! rd02) hop dmax (calcB (pd_CP q ! rd02))) in
       set_bmuf v (q\<lparr>pd_Md_F2 := (pd_Md_F2 q)[n0 := (pd_Md_F2 q ! n0)\<lparr>md_BMUF := v\<rparr>]\<rparr>))"

text \<open>The factor of a higher-order mode at a control point; dmax may exceed 4000 km here.\<close>

definition muf_factor :: "controlPt \<Rightarrow> real \<Rightarrow> nat \<Rightarrow> nat \<Rightarrow> real" where
  "muf_factor cp distance n n0 =
     calcF2DMUF cp (distance / (real n + 1)) (calcdmax cp) (calcB cp) / calcF2DMUF cp (distance / (real n0 + 1)) (calcdmax cp) (calcB cp)"

definition muf_higher :: "nat \<Rightarrow> pathData \<Rightarrow> pathData" where
  "muf_higher n0 p = (let distance = pd_distance p; dmax = pd_dmax p in
     p\<lparr>pd_Md_F2 := each_mode (n0 + 1) (\<lambda>n m. m\<lparr>md_BMUF :=
        (if distance \<le> dmax then calcF2DMUF (pd_CP p ! mp) (distance / (real n + 1)) dmax (calcB (pd_CP p ! mp))
         else mu_BMUF (pd_mufs p) * cMin (muf_factor (pd_CP p ! td02) distance n n0) (muf_factor (pd_CP p ! rd02) distance n n0))\<rparr>) (pd_Md_F2 p)\<rparr>)"

definition muf_F2 :: "pathData \<Rightarrow> pathData" where
  "muf_F2 p = (let hr = cMin (1490 / cp_M3kF2 (pd_CP p ! mp) - 176) 500; p1 = set_point mp (\<lambda>c. c\<lparr>cp_hr := hr\<rparr>) p in
     case lowest_order (longest_hop hr) (pd_distance p) maxF2Mds of
       None \<Rightarrow> p1
     | Some n0 \<Rightarrow> let p2 = set_point mp with_x (p1\<lparr>pd_n0_F2 := n0, pd_dmax := cMin (calcdmax (pd_CP p1 ! mp)) 4000\<rparr>) in
         muf_higher n0 (muf_lowest n0 p2))"

definition e_bmuf :: "pathData \<Rightarrow> nat \<Rightarrow> real" where
  "e_bmuf p n = (let distance = pd_distance p; i110 = incidenceAngle (elevationAngle (cMin (distance / real (n + 1)) 4000) 110) 110 in
     if distance < 2000 then cp_foE (pd_CP p ! mp) / cos i110
     else if 2000 \<le> distance \<and> distance \<le> 4000 then cMin (cp_foE (pd_CP p ! r1k)) (cp_foE (pd_CP p ! t1k)) / cos i110
     else 0)"

definition muf_E :: "pathData \<Rightarrow> pathData" where
  "muf_E p = (if pd_distance p < 4000 then
     case lowest_order (longest_hop 110) (pd_distance p) 3 of
       None \<Rightarrow> p
     | Some n0 \<Rightarrow> p\<lparr>pd_n0_E := n0, pd_Md_E := each_mode n0 (\<lambda>n m. m\<lparr>md_hr := 110, md_BMUF := e_bmuf p n\<rparr>) (pd_Md_E p)\<rparr>
   else p)"

definition muf_path :: "pathData \<Rightarrow> pathData" where
  "muf_path p = (let e = md_BMUF (pd_Md_E p ! pd_n0_E p); f = md_BMUF (pd_Md_F2 p ! pd_n0_F2 p) in
     if pd_n0_E p \<noteq> noLowestMode then
       if pd_n0_F2 p \<noteq> noLowestMode then set_bmuf (cMax e f) p else set_bmuf e p
     else if pd_n0_F2 p \<noteq> noLowestMode then set_bmuf f p else set_bmuf tooBig p)"

definition mufBasic :: "pathData \<Rightarrow> pathData" where
  "mufBasic p = (if 9000 < pd_distance p then p else muf_path (muf_E (muf_F2 p)))"

section \<open>Variability\<close>

definition findfoF2var :: "pathData \<Rightarrow> real \<Rightarrow> real \<Rightarrow> nat \<Rightarrow> real" where
  "findfoF2var p hour lat0 decile = (let
       la = \<bar>lat0 / (5 * d2r)\<bar>;
       latL0 = \<lfloor>la\<rfloor>; latU0 = \<lceil>la\<rceil>; r1 = la - of_int (trunc la);
       latL = (if latL0 < 0 then 18 else latL0); r = (if latL0 < 0 then 1 - r1 else r1); latU = (if 18 < latU0 then 0 else latU0);
       hourL0 = \<lfloor>hour\<rfloor>; hourU0 = \<lceil>hour\<rceil>; c1 = hour - of_int (trunc hour);
       hourL = (if hourL0 < 0 then 23 else hourL0); c = (if hourL0 < 0 then 1 - c1 else c1); hourU = (if 23 < hourU0 then 0 else hourU0);
       ssn = (if pi_SSN (pd_in p) < 50 then 0 else if 50 \<le> pi_SSN (pd_in p) \<and> pi_SSN (pd_in p) \<le> 100 then 1 else 2 :: nat);
       v = (\<lambda>h l. the (pi_foF2var (pd_in p)) ! pd_season p ! nat h ! nat l ! ssn ! decile) in
     bilinearInterpolation (v hourL latL) (v hourU latL) (v hourL latU) (v hourU latU) r c)"

text \<open>The probability that a mode is supported, from its median MUF and its two decile factors.\<close>

definition mode_probability :: "real \<Rightarrow> real \<Rightarrow> real \<Rightarrow> real \<Rightarrow> real" where
  "mode_probability frequency muf50 deltal deltau =
     (if frequency < muf50 then cMin (1.3 - 0.8 / (1 + (1 - frequency / muf50) / (1 - deltal))) 1
      else cMax (0.8 / (1 + (frequency / muf50 - 1) / (deltau - 1)) - 0.3) 0)"

definition vary_mode :: "real \<Rightarrow> real \<Rightarrow> real \<Rightarrow> mode \<Rightarrow> mode" where
  "vary_mode frequency deltal deltau m = (if md_BMUF m \<noteq> 0 then let muf50 = md_BMUF m in
     m\<lparr>md_MUF50 := muf50, md_deltal := deltal, md_deltau := deltau, md_MUF10 := deltau * muf50, md_MUF90 := deltal * muf50,
       md_Fprob := mode_probability frequency muf50 deltal deltau\<rparr> else m)"

text \<open>The largest value over the modes that exist, zero without any.\<close>

definition largest :: "(mode \<Rightarrow> real) \<Rightarrow> mode list \<Rightarrow> real" where
  "largest f ms = fold (\<lambda>m best. if md_BMUF m \<noteq> 0 \<and> f m > best then f m else best) ms 0"

definition mufVariability :: "pathData \<Rightarrow> pathData" where
  "mufVariability p = (if 9000 < pd_distance p then p else let
       i = pd_in p; cp = pd_CP p ! mp;
       lower = findfoF2var p (cp_ltime cp) (l_lat (cp_L cp)) dl; upper = findfoF2var p (cp_ltime cp) (l_lat (cp_L cp)) du;
       f2 = map (vary_mode (pi_frequency i) lower upper) (pd_Md_F2 p);
       e = map (vary_mode (pi_frequency i) 0.95 1.05) (pd_Md_E p) in
     p\<lparr>pd_Md_F2 := f2, pd_Md_E := e, pd_mufs := (pd_mufs p)\<lparr>mu_MUF50 := mu_BMUF (pd_mufs p),
        mu_MUF90 := cMax (largest md_MUF90 e) (largest md_MUF90 f2), mu_MUF10 := cMax (largest md_MUF10 e) (largest md_MUF10 f2)\<rparr>\<rparr>)"

section \<open>Operational MUF\<close>

text \<open>Table 1 of P.1240 for the power index 0, by season and by day and night.\<close>

definition rop :: "real list list" where
  "rop = [[1.20, 1.30], [1.15, 1.25], [1.10, 1.20]]"

definition is_day :: "controlPt \<Rightarrow> bool" where
  "is_day cp \<longleftrightarrow> (cp_ltime cp < so_lss (cp_Sun cp) \<and> cp_ltime cp > so_lsr (cp_Sun cp)) \<and>
     \<not> (cp_ltime cp > so_lss (cp_Sun cp) \<and> cp_ltime cp < so_lsr (cp_Sun cp))"

definition operate_mode :: "real \<Rightarrow> mode \<Rightarrow> mode" where
  "operate_mode opmuf m = (if md_BMUF m \<noteq> 0
     then m\<lparr>md_OPMUF := opmuf, md_OPMUF10 := opmuf * md_deltau m, md_OPMUF90 := opmuf * md_deltal m\<rparr> else m)"

definition mufOperational :: "pathData \<Rightarrow> pathData" where
  "mufOperational p = (if 9000 < pd_distance p then p else let
       tm = (if is_day (pd_CP p ! mp) then 0 else 1); ratio = rop ! pd_season p ! tm;
       f2 = map (\<lambda>m. operate_mode (md_MUF50 m * ratio) m) (pd_Md_F2 p);
       e = map (\<lambda>m. operate_mode (md_BMUF m) m) (pd_Md_E p) in
     p\<lparr>pd_Md_F2 := f2, pd_Md_E := e, pd_mufs := (pd_mufs p)\<lparr>mu_OPMUF := cMax (largest md_OPMUF e) (largest md_OPMUF f2),
        mu_OPMUF90 := cMax (largest md_OPMUF90 e) (largest md_OPMUF90 f2),
        mu_OPMUF10 := cMax (largest md_OPMUF10 e) (largest md_OPMUF10 f2)\<rparr>\<rparr>)"

section \<open>Screening by the E layer\<close>

definition mirrorReflectionHeight :: "path_input \<Rightarrow> controlPt \<Rightarrow> real \<Rightarrow> real" where
  "mirrorReflectionHeight i cp d = (let
       x = cp_foF2 cp / cp_foE cp; y = cMax x 1.8;
       deltaM = 0.18 / (y - 1.4) + 0.096 * (of_int (cMin (pi_SSN i) 160) - 25) / 150;
       xr = pi_frequency i / cp_foF2 cp;
       hh = 1490 / (cp_M3kF2 cp + deltaM) - 316 in
     if x > 3.33 \<and> xr \<ge> 1 then let
         e1 = - 0.09707 * xr ^ 3 + 0.6870 * xr * xr - 0.7506 * xr + 0.6;
         f1 = (if xr \<le> 1.71 then - 1.862 * xr ^ 4 + 12.95 * xr ^ 3 - 32.03 * xr * xr + 33.50 * xr - 10.91 else 1.21 + 0.2 * xr);
         g = (if xr \<le> 3.7 then - 2.102 * xr ^ 4 + 19.50 * xr ^ 3 - 63.15 * xr * xr - 44.73 else 19.25);
         ds = 160 + (hh + 43) * g;
         a = (d - ds) / (hh + 140);
         a1 = 140 + (hh - 47) * e1;
         b1 = 150 + (hh - 17) * f1 - a1;
         h = (if b1 \<ge> 0 \<and> a \<ge> 0 then a1 + b1 * 2.4 powr (- a) else a1 + b1) in
       cMin h 800
     else if x > 3.33 \<and> xr < 1 then let
         z = cMax xr 0.1;
         e2 = 0.1906 * z * z + 0.00583 * z + 0.1936;
         a2 = 151 + (hh - 47) * e2;
         f2 = 0.645 * z * z + 0.883 * z + 0.162;
         b2 = 141 + (hh - 24) * f2 - a2;
         df = cMin (0.115 * d / (z * (hh + 140))) 0.65;
         b = - 7.535 * df ^ 4 + 15.75 * df ^ 3 - 8.834 * df * df - 0.378 * df + 1;
         h = (if b2 \<ge> 0 then a2 + b2 * b else a2 + b2) in
       cMin h 800
     else let
         j = - 0.7126 * y ^ 3 + 5.863 * y * y - 16.13 * y + 16.07;
         u = 8.0 / 10 ^ 5 * (hh - 80) * (1 + 11 * y powr (- 2.2)) + 1.2 / 10 ^ 3 * hh * y powr (- 3.6) in
       cMin (115 + hh * j + u * d) 800)"

definition screening_height :: "pathData \<Rightarrow> real \<Rightarrow> real" where
  "screening_height p dh = (let h = (\<lambda>n. mirrorReflectionHeight (pd_in p) (pd_CP p ! n) dh) in
     if pd_distance p \<le> pd_dmax p then h mp else (h td02 + h mp + h rd02) / 3)"

definition eLayerScreeningFrequency :: "pathData \<Rightarrow> pathData" where
  "eLayerScreeningFrequency p = (if 4000 < pd_distance p then p else let
       foE = (if pd_distance p \<le> 2000 then cp_foE (pd_CP p ! mp) else cMax (cp_foE (pd_CP p ! t1k)) (cp_foE (pd_CP p ! r1k))) in
     p\<lparr>pd_Md_F2 := each_mode (pd_n0_F2 p) (\<lambda>k m. let dh = pd_distance p / real (k + 1); hr = screening_height p dh;
          i = incidenceAngle (elevationAngle dh hr) 110 in
        m\<lparr>md_hr := hr, md_fs := (1.05 * foE) / cos i\<rparr>) (pd_Md_F2 p)\<rparr>)"

end
