(* ===== verification/Hf_Tables.thy ===== *)
theory Hf_Tables
  imports Float64
begin

text \<open>The tables of src/internal/hf: absorption and auroral losses (median_skywave_field_strength_short_tables.go), the
  normal distribution (circuit_reliability_tables.go).\<close>

definition diurnalPpt :: "real list" where
  "diurnalPpt =
   [30.0, 30.0, 30.0, 27.5, 32.5, 35.0, 37.5, 35.0, 32.5, 30.0, 30.0, 30.0]"

definition diurnalPval1 :: "real list list list" where
  "diurnalPval1 =
   [[[1.510, - 0.353, - 0.090, 0.191, 0.133, - 0.067, - 0.053],
    [1.400, - 0.365, - 1.212, - 0.049, 1.187, 0.119, - 0.400]],
    [[1.490, - 0.348, - 0.055, 0.164, 0.160, - 0.041, - 0.080],
    [1.450, - 0.119, - 0.913, - 0.640, 0.347, 0.458, 0.107]],
    [[1.520, - 0.410, - 0.138, 0.308, 0.267, - 0.113, - 0.133],
    [1.500, - 0.492, - 0.958, 0.216, 0.267, - 0.029, 0.187]],
    [[1.580, - 0.129, - 0.228, - 0.192, 0.200, 0.116, - 0.027],
    [1.530, - 0.468, - 1.312, 0.096, 0.973, 0.057, - 0.187]],
    [[1.590, 0.002, - 0.102, - 0.579, - 0.467, 0.522, 0.613],
    [1.490, - 0.937, - 1.622, 1.365, 1.720, - 0.873, - 0.453]],
    [[1.600, - 0.060, - 0.175, - 0.037, 0.147, - 0.008, - 0.027],
    [1.460, - 0.881, - 1.595, 0.901, 2.133, - 0.395, - 0.933]]]"

definition diurnalPval2 :: "real list list list" where
  "diurnalPval2 =
   [[[1.60, - 0.030, - 0.135, - 0.137, 0.053, 0.072, 0.027],
    [1.43, - 0.902, - 1.667, 0.905, 2.480, - 0.383, - 1.173]],
    [[1.59, - 0.032, - 0.083, - 0.119, 0.000, 0.031, 0.053],
    [1.46, - 0.831, - 1.653, 0.708, 2.320, - 0.257, - 1.067]],
    [[1.59, - 0.060, - 0.180, - 0.181, 0.267, 0.081, - 0.107],
    [1.51, - 0.809, - 1.740, 0.750, 2.240, - 0.301, - 0.960]],
    [[1.57, - 0.189, - 0.207, - 0.005, 0.293, 0.004, - 0.107],
    [1.52, - 0.433, - 1.015, - 0.017, 0.440, 0.115, 0.080]],
    [[1.55, - 0.292, - 0.275, 0.093, 0.427, - 0.026, - 0.187],
    [1.44, - 0.279, - 0.770, - 0.266, 0.053, 0.245, 0.267]],
    [[1.51, - 0.347, - 0.082, 0.160, 0.093, - 0.048, - 0.027],
    [1.40, - 0.355, - 1.212, - 0.102, 1.187, 0.172, - 0.400]]]"

definition absorptionATNO :: "real list list" where
  "absorptionATNO =
   [[323.9, 297.5, 274.5, 256.4, 244.2, 235.0, 229.5, 226.1, 226.8, 229.0, 232.5, 237.0, 243.4, 249.9, 258.1, 267.5, 277.5, 283.3, 283.2, 273.1, 257.0, 232.1, 201.4, 171.5, 146.0, 123.0, 103.1, 83.0, 66.6],
    [312.1, 285.1, 263.1, 251.8, 249.5, 250.9, 254.5, 260.3, 266.7, 272.3, 277.8, 280.3, 283.9, 284.5, 284.4, 283.0, 278.6, 273.0, 265.7, 256.3, 244.8, 232.0, 218.1, 204.5, 189.9, 172.3, 155.3, 135.5, 116.2],
    [347.7, 321.9, 302.5, 293.8, 291.4, 289.3, 292.1, 296.6, 304.3, 313.0, 321.7, 333.8, 342.6, 349.6, 355.2, 355.6, 352.2, 341.7, 327.3, 308.4, 286.0, 265.0, 244.1, 223.8, 202.8, 181.8, 160.8, 141.6, 123.4],
    [338.0, 313.2, 297.0, 290.2, 292.1, 299.4, 308.0, 320.4, 331.6, 340.7, 347.8, 353.8, 357.0, 360.0, 359.8, 358.3, 355.8, 350.8, 344.5, 332.7, 316.4, 292.5, 266.1, 236.4, 214.0, 193.8, 177.5, 165.0, 155.9],
    [328.1, 303.8, 287.7, 282.5, 284.4, 289.4, 294.8, 303.6, 312.9, 322.7, 332.3, 343.8, 350.6, 358.7, 364.3, 365.8, 362.4, 356.0, 346.7, 333.0, 318.8, 299.7, 282.1, 260.5, 240.5, 220.6, 203.9, 186.3, 173.0],
    [305.1, 288.5, 275.2, 273.7, 278.6, 288.9, 302.5, 319.3, 333.6, 346.3, 356.3, 364.7, 371.7, 373.6, 374.2, 373.1, 370.5, 365.1, 358.5, 347.7, 335.0, 320.3, 299.1, 276.6, 253.2, 230.7, 214.0, 196.6, 185.3],
    [345.4, 319.4, 298.7, 290.1, 290.0, 291.8, 296.3, 302.9, 312.1, 320.1, 327.8, 334.1, 340.2, 343.3, 345.7, 346.5, 345.3, 341.1, 334.5, 321.7, 304.2, 286.8, 265.9, 244.8, 224.1, 204.5, 183.6, 164.1, 145.2],
    [341.9, 314.8, 295.3, 277.9, 265.0, 258.2, 254.4, 255.8, 257.3, 262.9, 268.5, 279.0, 287.5, 295.2, 299.6, 300.2, 298.9, 291.5, 279.0, 262.6, 245.7, 227.0, 203.6, 182.3, 163.2, 147.1, 133.9, 119.9, 110.8],
    [318.8, 293.3, 268.3, 251.7, 240.4, 233.1, 229.4, 228.8, 230.5, 235.5, 239.7, 242.6, 245.4, 247.5, 248.9, 249.9, 248.5, 244.4, 237.3, 225.6, 213.5, 195.2, 172.7, 151.3, 131.1, 113.1, 100.1, 89.0, 80.0]]"

definition auroralLh :: "real list list list list" where
  "auroralLh =
   [[[[2.0, 6.6, 6.2, 1.5, 0.5, 1.4, 1.5, 1.0],
    [3.4, 8.3, 8.6, 0.9, 0.5, 2.5, 3.0, 3.0],
    [6.2, 15.6, 12.8, 2.3, 1.5, 4.6, 7.0, 5.0],
    [7.0, 16.0, 14.0, 3.6, 2.0, 6.8, 9.8, 6.6],
    [2.0, 4.5, 6.6, 1.4, 0.8, 2.7, 3.0, 2.0],
    [1.3, 1.0, 3.2, 0.3, 0.4, 1.8, 2.3, 0.9],
    [0.9, 0.6, 2.2, 0.2, 0.2, 1.2, 1.5, 0.6],
    [0.4, 0.3, 1.1, 0.1, 0.1, 0.6, 0.7, 0.3]],
    [[1.4, 2.5, 7.4, 3.8, 1.0, 2.4, 2.4, 3.3],
    [3.3, 11.0, 11.6, 5.1, 2.6, 4.0, 6.0, 7.0],
    [6.5, 12.0, 21.4, 8.5, 4.8, 6.0, 10.0, 13.7],
    [6.7, 11.2, 17.0, 9.0, 7.2, 9.0, 10.9, 15.0],
    [2.4, 4.4, 7.5, 5.0, 2.6, 4.8, 5.5, 6.1],
    [1.7, 2.0, 5.0, 3.0, 2.2, 4.0, 3.0, 4.0],
    [1.1, 1.3, 3.3, 2.0, 1.4, 2.6, 2.0, 2.6],
    [0.5, 0.6, 1.6, 1.0, 0.7, 1.3, 1.0, 1.3]],
    [[2.2, 2.7, 1.2, 2.3, 2.2, 3.8, 4.2, 3.8],
    [2.4, 3.0, 2.8, 3.0, 2.7, 4.2, 4.8, 4.5],
    [4.9, 4.2, 6.2, 4.5, 3.8, 5.4, 7.7, 7.2],
    [6.5, 4.8, 9.0, 6.0, 4.8, 9.1, 9.5, 8.9],
    [3.2, 2.7, 4.0, 3.0, 3.0, 6.5, 6.7, 5.0],
    [2.5, 1.8, 2.4, 2.3, 2.6, 5.0, 4.6, 4.0],
    [1.6, 1.2, 1.6, 1.5, 1.7, 3.3, 3.1, 2.6],
    [0.8, 0.6, 0.8, 0.7, 0.8, 1.6, 1.5, 1.3]]],
    [[[1.5, 2.7, 2.5, 0.8, 0.0, 0.9, 0.8, 1.6],
    [2.5, 4.5, 4.3, 0.8, 0.3, 1.6, 2.0, 4.8],
    [5.5, 5.0, 7.0, 1.9, 0.5, 3.0, 4.5, 9.6],
    [5.3, 7.0, 5.9, 2.0, 0.7, 4.0, 4.5, 10.0],
    [1.6, 2.4, 2.7, 0.6, 0.4, 1.7, 1.8, 3.5],
    [0.9, 1.0, 1.3, 0.1, 0.1, 1.0, 1.5, 1.4],
    [0.6, 0.6, 0.8, 0.1, 0.1, 0.6, 1.0, 0.5],
    [0.3, 0.3, 0.4, 0.0, 0.0, 0.3, 0.5, 0.4]],
    [[1.0, 1.2, 2.7, 3.0, 0.6, 2.0, 2.3, 1.6],
    [1.8, 2.9, 4.1, 5.7, 1.5, 3.2, 5.6, 3.6],
    [3.7, 5.6, 7.7, 8.1, 3.5, 5.0, 9.5, 7.3],
    [3.9, 5.2, 7.6, 9.0, 5.0, 7.5, 10.0, 7.9],
    [1.4, 2.0, 3.2, 3.8, 1.8, 4.0, 5.4, 3.4],
    [0.9, 0.9, 1.8, 2.0, 1.3, 3.1, 2.7, 2.0],
    [0.6, 0.6, 1.2, 1.3, 0.8, 2.0, 1.8, 1.3],
    [0.3, 0.3, 0.6, 0.6, 0.4, 1.0, 0.9, 0.6]],
    [[1.9, 3.8, 2.2, 1.1, 2.1, 1.2, 2.3, 2.4],
    [1.9, 4.6, 2.9, 1.3, 2.2, 1.3, 2.8, 2.7],
    [4.4, 6.3, 5.9, 1.9, 3.3, 1.7, 4.4, 4.5],
    [5.5, 8.5, 7.6, 2.6, 4.2, 3.2, 5.5, 5.7],
    [2.8, 3.8, 3.7, 1.4, 2.7, 1.6, 4.5, 3.2],
    [2.2, 2.4, 2.2, 1.0, 2.2, 1.2, 4.4, 2.5],
    [1.4, 1.6, 1.4, 0.6, 1.4, 0.8, 2.9, 1.6],
    [0.7, 0.8, 0.7, 0.3, 0.7, 0.4, 1.4, 0.8]]]]"

definition normTable :: "real list" where
  "normTable =
   [0.0000000000, 0.0250689082, 0.0501535835, 0.075269862, 0.1004337206, 0.1256613469, 0.1509692155, 0.1763741647, 0.201893479, 0.2275449764, 
    0.2533471029, 0.2793190341, 0.3054807878, 0.331853346, 0.3584587930, 0.3853204663, 0.4124631294, 0.4399131658, 0.467698799, 0.4958503478, 
    0.5244005133, 0.5533847202, 0.5828415079, 0.612812991, 0.6433454057, 0.6744897502, 0.7063025626, 0.7388468486, 0.772193213, 0.8064212461, 
    0.8416212327, 0.8778962945, 0.9153650877, 0.954165253, 0.9944578841, 1.036433391, 1.080319342, 1.12639113, 1.174986792, 1.226528119, 
    1.281551564, 1.340755033, 1.405071561, 1.47579103, 1.554773595, 1.644853625, 1.750686073, 1.880793606, 2.053748909, 2.326347874]"

end
