(* ===== verification/Hf_Short.thy ===== *)
theory Hf_Short
  imports Hf_Muf Hf_Tables
begin

text \<open>
  The median field strength of paths up to 9000 km (median_skywave_field_strength_short.go): absorption, auroral
  losses, the gain of an antenna pattern, the field strength of every mode and their sum.
\<close>

definition noIL :: real where "noIL = 9.14"
definition pen :: bool where "pen = True"
definition antAzimuths :: nat where "antAzimuths = 360"
definition antElevations :: nat where "antElevations = 91"

section \<open>Sorting by exchange\<close>

text \<open>Two nested loops over all pairs of indices that exchange the elements at i and j when the first is to come
  before the second; the code has it three times.\<close>

definition exchange :: "('a \<Rightarrow> 'a \<Rightarrow> bool) \<Rightarrow> nat \<Rightarrow> nat \<Rightarrow> 'a list \<Rightarrow> 'a list" where
  "exchange before i j xs = (if before (xs ! i) (xs ! j) then xs[i := xs ! j, j := xs ! i] else xs)"

definition exchange_sort :: "('a \<Rightarrow> 'a \<Rightarrow> bool) \<Rightarrow> 'a list \<Rightarrow> 'a list" where
  "exchange_sort before xs =
     fold (\<lambda>i ys. fold (\<lambda>j zs. exchange before i j zs) [0..<length xs] ys) [0..<length xs] xs"

definition smallestCPfoF2 :: "controlPt list \<Rightarrow> nat" where
  "smallestCPfoF2 cps = (let idx = exchange_sort (\<lambda>a b. cp_foF2 (cps ! a) > cp_foF2 (cps ! b)) [0..<5] in
     fold (\<lambda>n best. if n \<noteq> 0 then n else best) idx 0)"

section \<open>Antenna gain\<close>

definition clampIndex :: "int \<Rightarrow> nat \<Rightarrow> nat" where
  "clampIndex i n = (if i < 0 then 0 else if i > int n - 1 then n - 1 else nat i)"

text \<open>The index of the frequency closest to f, the first of several.\<close>

definition closest_frequency :: "real \<Rightarrow> real list \<Rightarrow> nat \<Rightarrow> nat" where
  "closest_frequency f freqs n = (if 1 < n then
     fst (fold (\<lambda>i (best, delta). if \<bar>freqs ! i - f\<bar> < delta then (i, \<bar>freqs ! i - f\<bar>) else (best, delta)) [0..<n] (0, tooBig)) else 0)"

definition antennaGain :: "path_input \<Rightarrow> hf_antenna \<Rightarrow> real \<Rightarrow> int \<Rightarrow> real" where
  "antennaGain i ant delta0 direction = (let
       delta = delta0 * r2d;
       b = (if direction = txToRx then hf_bearing (pi_tx i) (pi_rx i) (pi_SorL i) * r2d
            else if direction = rxToTx then hf_bearing (pi_rx i) (pi_tx i) (pi_SorL i) * r2d else 0);
       deltaU = clampIndex \<lceil>delta\<rceil> antElevations; deltaL = clampIndex \<lfloor>delta\<rfloor> antElevations;
       br = nat \<lceil>b\<rceil> mod 360; bl = nat \<lfloor>b\<rfloor> mod 360;
       pat = the (ha_pattern ant) ! closest_frequency (pi_frequency i) (ha_freqs ant) (ha_freqn ant);
       r = delta - of_int (trunc delta); c = b - of_int (trunc b) in
     bilinearInterpolation (pat ! bl ! deltaL) (pat ! br ! deltaL) (pat ! bl ! deltaU) (pat ! br ! deltaU) r c)"

section \<open>Absorption\<close>

definition diurnal_row :: "int \<Rightarrow> nat \<Rightarrow> real list" where
  "diurnal_row month i = (if month \<le> 5 then diurnalPval1 ! nat month ! i else diurnalPval2 ! nat (month - 6) ! i)"

definition diurnalAbsorptionExponent :: "controlPt \<Rightarrow> int \<Rightarrow> real" where
  "diurnalAbsorptionExponent cp month0 = (let
       dip0 = \<bar>r_atan2 (cp_dip100 cp) (sqrt (cos (l_lat (cp_L cp))))\<bar>;
       dip = (if dip0 > 70 * d2r then 70 * d2r else dip0);
       month = (if l_lat (cp_L cp) < 0 then (if month0 + 6 > 11 then month0 + 6 - 12 else month0 + 6) else month0);
       pp = diurnalPpt ! nat month * d2r;
       i = (if dip > pp then 1 else 0);
       m = (if dip > pp then - 1 + 2 * (dip - pp) / (70 * d2r - pp) else - 1 + 2 * dip / pp) in
     sum_list (map (\<lambda>j. diurnal_row month i ! j * m ^ j) [0..<7]))"

definition absorption_month :: "int \<Rightarrow> nat" where
  "absorption_month m = (if m = 6 then 5 else if m = 7 then 4 else if m = 8 then 6 else if m = 9 then 7 else if m = 10 then 8
     else if m = 11 then 0 else nat m)"

definition absorptionFactor :: "controlPt \<Rightarrow> int \<Rightarrow> real" where
  "absorptionFactor cp month = (let
       x0 = \<bar>l_lat (cp_L cp) * r2d\<bar>; x1 = (if x0 \<ge> 70 then 69.99 else x0) / 2.5;
       j = nat (trunc x1); x = x1 - real j; row = absorptionATNO ! absorption_month month in
     row ! (j + 1) * x + row ! j * (1 - x))"

definition absorptionLayerPenetrationFactor :: "real \<Rightarrow> real" where
  "absorptionLayerPenetrationFactor t = (let phi =
     (if t \<le> 1 then
        if t < 0 then 0
        else let x = (t - 0.475) / 0.475 in
          cMin ((((((- 0.093 * x + 0.04) * x + 0.127) * x - 0.027) * x + 0.044) * x + 0.159) * x + 0.225) 0.53
      else if t \<le> 2.2 then let x = (t - 1.65) / 0.55 in
          cMin ((((((0.043 * x - 0.07) * x - 0.027) * x + 0.034) * x + 0.054) * x - 0.049) * x + 0.375) 0.53
      else if t \<le> 10 then 0.34 + ((10 - t) * 0.02) / 7.8
      else 0.34) in phi / 0.34)"

definition absorptionTerm :: "controlPt \<Rightarrow> int \<Rightarrow> real \<Rightarrow> real" where
  "absorptionTerm cp month fv = (let
       pe = diurnalAbsorptionExponent cp month;
       chij = cMin (so_sza (cp_Sun cp)) (102 * d2r);
       fchij = cMax (cos (0.881 * chij) powr pe) 0.02;
       chijnoon = so_sza (cp_Sun (solarParams cp month (so_lsn (cp_Sun cp))));
       fchijnoon = cMax (cos (0.881 * chijnoon) powr pe) 0.02;
       phin = absorptionLayerPenetrationFactor (fv / cp_foE cp) in
     absorptionFactor cp month * phin * fchij / fchijnoon)"

text \<open>The 90 km penetration points of the hops, from either end.\<close>

definition penetration_point :: "path_input \<Rightarrow> real \<Rightarrow> real \<Rightarrow> controlPt" where
  "penetration_point i distance fracd = (calculateCPParameters i (point_on_path i distance zero_point fracd))\<lparr>cp_hr := 90\<rparr>"

definition penetrationPoints :: "path_input \<Rightarrow> real \<Rightarrow> nat \<Rightarrow> real \<Rightarrow> real \<Rightarrow> real" where
  "penetrationPoints i distance noh hr fv = (let
       dh = distance / (real noh + 1); delta = elevationAngle dh hr;
       dh90 = r0 * (c_pi / 2 - delta - incidenceAngle delta 90);
       ends = concat (map (\<lambda>k. [(real k * dh + dh90) / distance, (real (k + 1) * dh - dh90) / distance]) [0..<Suc noh]) in
     sum_list (map (\<lambda>f. absorptionTerm (penetration_point i distance f) (pi_month i) fv) ends) / (2 * (real noh + 1)))"

section \<open>Auroral losses\<close>

definition whatSeasonForLh :: "location \<Rightarrow> int \<Rightarrow> nat" where
  "whatSeasonForLh p month =
     (if 0 \<le> l_lat p then
        if month \<in> {11, 0, 1} then winter else if month \<in> {2, 3, 4, 8, 9, 10} then equinox
        else if month \<in> {5, 6, 7} then summer else winter
      else
        if month \<in> {5, 6, 7} then winter else if month \<in> {2, 3, 4, 8, 9, 10} then equinox
        else if month \<in> {11, 0, 1} then summer else winter)"

definition lh_hour :: "int \<Rightarrow> nat" where
  "lh_hour hour = (if 1 \<le> hour \<and> hour < 4 then 0 else if 4 \<le> hour \<and> hour < 7 then 1 else if 7 \<le> hour \<and> hour < 10 then 2
     else if 10 \<le> hour \<and> hour < 13 then 3 else if 13 \<le> hour \<and> hour < 16 then 4 else if 16 \<le> hour \<and> hour < 19 then 5
     else if 19 \<le> hour \<and> hour < 22 then 6 else 7)"

text \<open>The row of the geomagnetic latitude, in steps of 5 degrees from 77.5 down; None below 42.5.\<close>

definition lh_latitude :: "real \<Rightarrow> nat option" where
  "lh_latitude la = (if 77.5 * d2r \<le> la then Some 0 else if 72.5 * d2r \<le> la then Some 1 else if 67.5 * d2r \<le> la then Some 2
     else if 62.5 * d2r \<le> la then Some 3 else if 57.5 * d2r \<le> la then Some 4 else if 52.5 * d2r \<le> la then Some 5
     else if 47.5 * d2r \<le> la then Some 6 else if 42.5 * d2r \<le> la then Some 7 else None)"

definition findLh :: "controlPt \<Rightarrow> real \<Rightarrow> int \<Rightarrow> int \<Rightarrow> real" where
  "findLh cp dh hour month = (case lh_latitude \<bar>l_lat (geomagneticCoords (cp_L cp))\<bar> of
     None \<Rightarrow> 0
   | Some gmlat \<Rightarrow> auroralLh ! (if dh \<le> 2500 then 0 else 1) ! whatSeasonForLh (cp_L cp) month ! gmlat ! lh_hour hour)"

section \<open>The field strength of a mode\<close>

definition mean_over :: "(controlPt \<Rightarrow> real) \<Rightarrow> controlPt list \<Rightarrow> real" where
  "mean_over f cps = sum_list (map f cps) / real (length cps)"

definition fL_at :: "controlPt \<Rightarrow> real" where
  "fL_at cp = \<bar>cp_fH100 cp * sin (cp_dip100 cp)\<bar>"

text \<open>The control points of a mode: the mid-point, the two points 1000 km from the ends, the two of half a hop.\<close>

definition e_points :: "pathData \<Rightarrow> controlPt list" where
  "e_points p = map ((!) (pd_CP p)) (if pd_distance p \<le> 2000 then [mp] else [mp, t1k, r1k])"

definition f2_points :: "pathData \<Rightarrow> controlPt list" where
  "f2_points p = map ((!) (pd_CP p)) (if pd_distance p \<le> 2000 then [mp]
     else if 2000 < pd_distance p \<and> pd_distance p \<le> pd_dmax p then [mp, t1k, r1k] else [mp, t1k, r1k, td02, rd02])"

definition muf_loss_E :: "real \<Rightarrow> real \<Rightarrow> real" where
  "muf_loss_E f bmuf = (if f \<le> bmuf then 0 else cMin (46 * sqrt (f / bmuf - 1) + 5) 58)"

definition muf_loss_F2 :: "real \<Rightarrow> real \<Rightarrow> real \<Rightarrow> real" where
  "muf_loss_F2 distance f bmuf = (if f \<le> bmuf then 0
     else if distance \<le> 3000 then cMin (36 * sqrt (f / bmuf - 1) + 5) 60 else cMin (70 * (f / bmuf - 1) + 8) 80)"

definition slant_range :: "real \<Rightarrow> real \<Rightarrow> nat \<Rightarrow> real" where
  "slant_range dh delta n = (let psi = dh / (2 * r0) in \<bar>2 * r0 * (sin psi / cos (delta + psi))\<bar> * (real n + 1))"

text \<open>Elevation, loss and field strength of mode n for the reflection height hr, the control points and the loss above the MUF.\<close>

definition mode_strength :: "pathData \<Rightarrow> nat \<Rightarrow> real \<Rightarrow> controlPt list \<Rightarrow> real \<Rightarrow> mode \<Rightarrow> mode" where
  "mode_strength p n hr cps lm m = (let
       i = pd_in p; distance = pd_distance p; f = pi_frequency i; dh = distance / (real n + 1);
       ssn = of_int (cMin (pi_SSN i) maxSSN);
       cpm = pd_CP p ! mp;
       mpltime = trunc (r_mod (cp_ltime cpm + of_int (trunc (l_lng (cp_L cpm) / (15 * d2r)))) 24);
       delta = elevationAngle dh hr; aoi110 = incidenceAngle delta 110; fv = f * cos aoi110;
       absorb = (if pen then penetrationPoints i distance n hr fv else mean_over (\<lambda>c. absorptionTerm c (pi_month i) fv) cps);
       fL = mean_over fL_at cps;
       lh = mean_over (\<lambda>c. findLh c dh mpltime (pi_month i)) cps;
       li = ((real n + 1) * (1 + 0.0067 * ssn) * absorb) / ((f + fL)\<^sup>2 * cos aoi110);
       lg = 2 * ((real n + 1) - 1);
       lb = 32.45 + 20 * log 10 f + 20 * log 10 (slant_range dh delta n) + li + lm + lg + lh + noIL in
     m\<lparr>md_ele := delta, md_Lb := lb,
       md_Ew := 136.6 + pi_txpower i + antennaGain i (pi_Atx i) delta txToRx + 20 * log 10 f - lb\<rparr>)"

definition e_considered :: "pathData \<Rightarrow> nat \<Rightarrow> bool" where
  "e_considered p n \<longleftrightarrow> (n = pd_n0_E p \<and> pd_distance p / (real (pd_n0_E p) + 1) \<le> 2000) \<or> (n \<noteq> pd_n0_E p \<and> md_BMUF (pd_Md_E p ! n) \<noteq> 0)"

definition f2_considered :: "pathData \<Rightarrow> nat \<Rightarrow> bool" where
  "f2_considered p n \<longleftrightarrow>
     (n = pd_n0_F2 p \<and> pd_distance p / (real (pd_n0_F2 p) + 1) \<le> pd_dmax p \<and> md_fs (pd_Md_F2 p ! n) < pi_frequency (pd_in p)) \<or>
     (n \<noteq> pd_n0_F2 p \<and> md_BMUF (pd_Md_F2 p ! n) \<noteq> 0 \<and> md_fs (pd_Md_F2 p ! n) < pi_frequency (pd_in p))"

text \<open>A mode is calculated: the slant range and the constant loss are left in the path.\<close>

definition e_mode :: "nat \<Rightarrow> pathData \<Rightarrow> pathData" where
  "e_mode n p = (let dh = pd_distance p / (real n + 1); m = pd_Md_E p ! n in
     p\<lparr>pd_ptick := slant_range dh (elevationAngle dh 110) n, pd_levels := (pd_levels p)\<lparr>lv_Lz := noIL\<rparr>,
       pd_Md_E := (pd_Md_E p)[n := mode_strength p n 110 (e_points p) (muf_loss_E (pi_frequency (pd_in p)) (md_BMUF m)) m]\<rparr>)"

definition f2_mode :: "real \<Rightarrow> nat \<Rightarrow> pathData \<Rightarrow> pathData" where
  "f2_mode hr n p = (let dh = pd_distance p / (real n + 1); m = pd_Md_F2 p ! n in
     p\<lparr>pd_ptick := slant_range dh (elevationAngle dh hr) n, pd_levels := (pd_levels p)\<lparr>lv_Lz := noIL\<rparr>,
       pd_Md_F2 := (pd_Md_F2 p)[n := mode_strength p n hr (f2_points p) (muf_loss_F2 (pd_distance p) (pi_frequency (pd_in p)) (md_BMUF m)) m]\<rparr>)"

text \<open>The loop over the E modes ends at the first one not considered.\<close>

definition short_E :: "pathData \<Rightarrow> pathData" where
  "short_E p = (if pd_n0_E p \<noteq> noLowestMode then fold e_mode (takeWhile (e_considered p) [pd_n0_E p..<maxEMds]) p else p)"

definition f2_height :: "pathData \<Rightarrow> real" where
  "f2_height p = (if pd_distance p > pd_dmax p then cMin (1490 / cp_M3kF2 (pd_CP p ! smallestCPfoF2 (pd_CP p)) - 176) 500
     else cp_hr (pd_CP p ! mp))"

definition short_F2 :: "real \<Rightarrow> pathData \<Rightarrow> pathData" where
  "short_F2 hr p = (if pd_n0_F2 p \<noteq> noLowestMode then fold (f2_mode hr) (filter (f2_considered p) [pd_n0_F2 p..<maxF2Mds]) p else p)"

section \<open>The sum of the modes\<close>

definition e_modes :: "pathData \<Rightarrow> nat list" where
  "e_modes p = (if pd_n0_E p \<noteq> noLowestMode then filter (e_considered p) [pd_n0_E p..<maxEMds] else [])"

definition f2_modes :: "pathData \<Rightarrow> nat list" where
  "f2_modes p = (if pd_n0_F2 p \<noteq> noLowestMode then filter (f2_considered p) [pd_n0_F2 p..<maxF2Mds] else [])"

definition mark_modes :: "nat list \<Rightarrow> mode list \<Rightarrow> mode list" where
  "mark_modes ns ms = fold (\<lambda>n xs. xs[n := (xs ! n)\<lparr>md_MC := 1\<rparr>]) ns ms"

definition power_sum :: "(mode \<Rightarrow> real) \<Rightarrow> pathData \<Rightarrow> real" where
  "power_sum f p = sum_list (map (\<lambda>n. 10 powr (f (pd_Md_E p ! n) / 10)) (e_modes p))
     + sum_list (map (\<lambda>n. 10 powr (f (pd_Md_F2 p ! n) / 10)) (f2_modes p))"

definition short_sum :: "pathData \<Rightarrow> pathData" where
  "short_sum p = (let etw = power_sum md_Ew p in
     p\<lparr>pd_Md_E := mark_modes (e_modes p) (pd_Md_E p), pd_Md_F2 := mark_modes (f2_modes p) (pd_Md_F2 p),
       pd_levels := (pd_levels p)\<lparr>lv_Es := (if etw \<noteq> 0 then 10 * log 10 etw else tinyDB)\<rparr>\<rparr>)"

definition medianSkywaveFieldStrengthShort :: "pathData \<Rightarrow> pathData" where
  "medianSkywaveFieldStrengthShort p = (if 9000 < pd_distance p then p else short_sum (short_F2 (f2_height p) (short_E p)))"

end
