(* ===== verification/Hf_Noise.thy ===== *)
theory Hf_Noise
  imports Hf_Base Strconv
begin

text \<open>
  The noise at the receiver of src/internal/hf/p372 (ITU-R P.372): atmospheric, man-made and galactic noise, their
  deciles and their combination (noise.go), the reader of the monthly coefficients (read_coeff.go) and the
  stand-alone caller (make_noise.go). The record noise of Hf_Base is the struct Noise; the coefficients are
  Coefficients. A text file is the list of its lines; opening it is a parameter. The numbers of a file are finite.
\<close>

section \<open>Errors\<close>

definition noise_ErrOpenCoeffFile :: string where "noise_ErrOpenCoeffFile = ''p372: cannot open coefficient file''"
definition noise_ErrBadCoeffFile :: string where "noise_ErrBadCoeffFile = ''p372: malformed coefficient file''"
definition noise_ErrMonth :: hf_error where "noise_ErrMonth = HfError ''p372: month must be in 0..11''"
definition noise_ErrNoCoefficients :: hf_error where "noise_ErrNoCoefficients = HfError ''p372: coefficients are missing''"

section \<open>The coefficient files\<close>

definition skippedLines :: nat where
  "skippedLines = 1 + 400 + 181 + 84 + 114 + 175 + 114 + 155 + 202 + 138"

definition quoted :: "string \<Rightarrow> string" where
  "quoted s = [CHR 0x22] @ s @ [CHR 0x22]"

definition two_digits :: "nat \<Rightarrow> string" where
  "two_digits n = (if n < 10 then ''0'' @ nat_text n else nat_text n)"

definition real_of_f64 :: "f64 \<Rightarrow> real" where
  "real_of_f64 x = (case x of Fin v \<Rightarrow> v | _ \<Rightarrow> 0)"

text \<open>The numbers of one line, in order; the first field that is no number is an error.\<close>

fun line_values :: "string \<Rightarrow> string list \<Rightarrow> string + real list" where
  "line_values header [] = Inr []"
| "line_values header (x # xs) = (case ParseFloat x of
     None \<Rightarrow> Inl (noise_ErrBadCoeffFile @ '': block '' @ quoted header @ '': strconv.ParseFloat: parsing '' @ quoted x @ '': invalid syntax'')
   | Some v \<Rightarrow> (case line_values header xs of Inl e \<Rightarrow> Inl e | Inr vs \<Rightarrow> Inr (real_of_f64 v # vs)))"

text \<open>Lines are read until count values are there; the values so far and the lines left.\<close>

fun block_values :: "string \<Rightarrow> nat \<Rightarrow> real list \<Rightarrow> string list \<Rightarrow> string + real list \<times> string list" where
  "block_values header count out [] = (if length out < count
     then Inl (noise_ErrBadCoeffFile @ '': block '' @ quoted header @ '' is truncated'') else Inr (out, []))"
| "block_values header count out (l # ls) = (if length out < count
     then (case line_values header (ws_fields l) of Inl e \<Rightarrow> Inl e | Inr vs \<Rightarrow> block_values header count (out @ vs) ls)
     else Inr (out, l # ls))"

definition readBlock :: "string list \<Rightarrow> string \<Rightarrow> nat \<Rightarrow> string + real list \<times> string list" where
  "readBlock ls header count = (case ls of
     [] \<Rightarrow> Inl (noise_ErrBadCoeffFile @ '': expected '' @ quoted header)
   | l # rest \<Rightarrow> if trim_space l \<noteq> header then Inl (noise_ErrBadCoeffFile @ '': expected '' @ quoted header)
       else case block_values header count [] rest of
         Inl e \<Rightarrow> Inl e
       | Inr (out, left) \<Rightarrow> if length out \<noteq> count then Inl (noise_ErrBadCoeffFile @ '': block '' @ quoted header @ '' has too many values'')
           else Inr (out, left))"

text \<open>A flat list as a table, row by row.\<close>

definition table2 :: "nat \<Rightarrow> nat \<Rightarrow> real list \<Rightarrow> real list list" where
  "table2 n m a = map (\<lambda>i. map (\<lambda>j. a ! (m * i + j)) [0..<m]) [0..<n]"

definition table3 :: "nat \<Rightarrow> nat \<Rightarrow> nat \<Rightarrow> real list \<Rightarrow> real list list list" where
  "table3 n m l a = map (\<lambda>i. map (\<lambda>j. map (\<lambda>k. a ! (m * l * i + l * j + k)) [0..<l]) [0..<m]) [0..<n]"

definition named :: "string \<Rightarrow> string + 'a \<Rightarrow> hf_error + 'a" where
  "named name r = (case r of Inl e \<Rightarrow> Inl (HfError (name @ '': '' @ e)) | Inr v \<Rightarrow> Inr v)"

definition noise_blocks :: "string list \<Rightarrow> string + coefficients" where
  "noise_blocks ls = (case readBlock ls ''fakp(29,16,6)'' (29 * 16 * 6) of Inl e \<Rightarrow> Inl e | Inr (a, l1) \<Rightarrow>
     (case readBlock l1 ''fakabp(2,6)'' (2 * 6) of Inl e \<Rightarrow> Inl e | Inr (b, l2) \<Rightarrow>
     (case readBlock l2 ''dud(5,12,5)'' (5 * 12 * 5) of Inl e \<Rightarrow> Inl e | Inr (c, l3) \<Rightarrow>
     (case readBlock l3 ''fam(14,12)'' (12 * 14) of Inl e \<Rightarrow> Inl e | Inr (d, l4) \<Rightarrow>
       Inr \<lparr>co_Fakp = table3 6 16 29 a, co_Fakabp = table2 6 2 b, co_Dud = table3 5 12 5 c, co_Fam = table2 12 14 d\<rparr>))))"

definition LoadCoefficients :: "(string \<Rightarrow> string + string list) \<Rightarrow> string \<Rightarrow> int \<Rightarrow> hf_error + coefficients" where
  "LoadCoefficients open_file dir month = (if month < 0 \<or> month > 11 then Inl noise_ErrMonth else
     let name = dir @ ''/COEFF'' @ two_digits (nat (month + 1)) @ ''W.txt'' in
     case open_file name of
       Inl e \<Rightarrow> Inl (HfError (noise_ErrOpenCoeffFile @ '': '' @ e))
     | Inr ls \<Rightarrow> if length ls < skippedLines then Inl (HfError (noise_ErrBadCoeffFile @ '': '' @ name @ '' ends before the noise data''))
         else named name (noise_blocks (drop skippedLines ls)))"

section \<open>Atmospheric noise\<close>

record FamStats =
  fs_Tmblk :: nat
  fs_FA :: real
  fs_SigmaFam :: real
  fs_Du :: real
  fs_SigmaDu :: real
  fs_Dl :: real
  fs_SigmaDl :: real

text \<open>A polynomial by Horner's rule, the highest power first.\<close>

definition horner :: "real \<Rightarrow> real list \<Rightarrow> real" where
  "horner x cs = fold (\<lambda>c y. y * x + c) (tl cs) (hd cs)"

text \<open>The series at 1 MHz: in longitude, then in latitude.\<close>

definition fam_longitude :: "coefficients \<Rightarrow> nat \<Rightarrow> real \<Rightarrow> nat \<Rightarrow> real" where
  "fam_longitude c tb q j = fold (\<lambda>k r. r + sin ((real k + 1) * q) * (co_Fakp c ! tb ! k ! j)) [0..<15] 0 + co_Fakp c ! tb ! 15 ! j"

definition fam_1MHz :: "coefficients \<Rightarrow> nat \<Rightarrow> real \<Rightarrow> real \<Rightarrow> real" where
  "fam_1MHz c tb lng la = (let
       q = (if lng < 0 then (lng + 2 * pi) / 2 else lng / 2); q2 = la + pi / 2;
       r = fold (\<lambda>j r. r + sin ((real j + 1) * q2) * fam_longitude c tb q j) [0..<29] 0 in
     r + co_Fakabp c ! tb ! 0 + co_Fakabp c ! tb ! 1 * q2)"

text \<open>The two polynomials of the frequency variation.\<close>

definition fam_pz :: "real list \<Rightarrow> real \<Rightarrow> real" where "fam_pz row u = horner u (take 7 row)"
definition fam_px :: "real list \<Rightarrow> real \<Rightarrow> real" where "fam_px row u = horner u (drop 7 row)"

text \<open>The abscissa of the decile polynomials: they end at 20 MHz, the one of SigmaFam at 10 MHz.\<close>

definition dud_x :: "real \<Rightarrow> nat \<Rightarrow> real" where
  "dud_x frequency j = (if j = 4 \<and> frequency > 10 then 1 else if frequency > 20 then log 10 20 else log 10 frequency)"

definition getFamParameters :: "coefficients \<Rightarrow> nat \<Rightarrow> real \<Rightarrow> real \<Rightarrow> real \<Rightarrow> FamStats" where
  "getFamParameters c tb lng la frequency = (let
       i = (if la < 0 then tb + 6 else tb); row = co_Fam c ! i;
       u0 = - 0.75; u1 = (8 * 2 powr log 10 frequency - 11) / 4;
       cz = fam_1MHz c tb lng la * (2 - fam_pz row u0) - fam_px row u0;
       v = (\<lambda>j. horner (dud_x frequency j) (co_Dud c ! j ! i)) in
     \<lparr>fs_Tmblk = tb, fs_FA = cz * fam_pz row u1 + fam_px row u1, fs_SigmaFam = v 4, fs_Du = v 0, fs_SigmaDu = v 2,
      fs_Dl = v 1, fs_SigmaDl = v 3\<rparr>)"

definition interpolateDB :: "real \<Rightarrow> real \<Rightarrow> real \<Rightarrow> real" where
  "interpolateDB now adj slp = 10 * log 10 (10 powr (now / 10) + (10 powr (adj / 10) - 10 powr (now / 10)) * slp)"

definition roll_hour :: "int \<Rightarrow> int" where
  "roll_hour h = (if h < 0 then h + 24 else if h > 23 then h - 24 else h)"

text \<open>The time block of an hour, and the weight of the next block.\<close>

definition time_block :: "int \<Rightarrow> nat" where "time_block h = nat ((h div 4) mod 6)"
definition block_slope :: "int \<Rightarrow> real" where "block_slope h = of_int (h mod 4) / 4"

definition local_hour :: "noise \<Rightarrow> int" where
  "local_hour n = roll_hour (no_Hour n + trunc (no_Lng n / (15 * d2r)))"

definition atmosphericNoise :: "coefficients \<Rightarrow> noise \<Rightarrow> noise" where
  "atmosphericNoise c n = (let
       h = local_hour n; tb = time_block h;
       now = getFamParameters c tb (no_Lng n) (no_Lat n) (no_Frequency n);
       adj = getFamParameters c ((tb + 1) mod 6) (no_Lng n) (no_Lat n) (no_Frequency n) in
     n\<lparr>no_FaA := interpolateDB (fs_FA now) (fs_FA adj) (block_slope h),
       no_DuA := interpolateDB (fs_Du now) (fs_Du adj) (block_slope h),
       no_DlA := interpolateDB (fs_Dl now) (fs_Dl adj) (block_slope h)\<rparr>)"

definition AtmosphericNoiseLT :: "coefficients \<Rightarrow> int \<Rightarrow> real \<Rightarrow> real \<Rightarrow> real \<Rightarrow> FamStats" where
  "AtmosphericNoiseLT c hour lng la frequency = (let
       h = roll_hour hour; tb = time_block h; s = block_slope h;
       now = getFamParameters c tb lng la frequency; adj = getFamParameters c ((tb + 1) mod 6) lng la frequency in
     \<lparr>fs_Tmblk = 99, fs_FA = interpolateDB (fs_FA now) (fs_FA adj) s, fs_SigmaFam = interpolateDB (fs_SigmaFam now) (fs_SigmaFam adj) s,
      fs_Du = interpolateDB (fs_Du now) (fs_Du adj) s, fs_SigmaDu = interpolateDB (fs_SigmaDu now) (fs_SigmaDu adj) s,
      fs_Dl = interpolateDB (fs_Dl now) (fs_Dl adj) s, fs_SigmaDl = interpolateDB (fs_SigmaDl now) (fs_SigmaDl adj) s\<rparr>)"

section \<open>Man-made and galactic noise\<close>

definition manMadeNoise :: "noise \<Rightarrow> noise" where
  "manMadeNoise n = (let m = no_ManMadeNoise n; set = (\<lambda>c d u l. n\<lparr>no_FaM := c - d * log 10 (no_Frequency n), no_DuM := u, no_DlM := l\<rparr>) in
     if m = 0 then set 76.8 27.7 11 6.7
     else if m = 1 then set 72.5 27.7 10.6 5.3
     else if m = 2 then set 67.2 27.7 9.2 4.6
     else if m = 3 then set 53.6 28.6 9.2 4.6
     else if m = 5 then set 65.2 29.1 9.2 4.6
     else if m = 4 then set 83.2 37.5 11 6.7
     else set (- m + 204) 0 6.7 11)"

definition galacticNoise :: "noise \<Rightarrow> noise" where
  "galacticNoise n = n\<lparr>no_FaG := 52 - 23 * log 10 (no_Frequency n), no_DuG := 2, no_DlG := 2\<rparr>"

section \<open>The combined noise\<close>

definition upperDecileK :: real where "upperDecileK = 1.282"

definition dB_scale :: real where "dB_scale = 10 / ln 10"

text \<open>The three components: median and standard deviation.\<close>

definition alpha_of :: "real \<Rightarrow> real \<Rightarrow> real" where
  "alpha_of fa sigma = exp (fa / dB_scale + sigma\<^sup>2 / (2 * dB_scale\<^sup>2))"

definition beta_of :: "real \<Rightarrow> real \<Rightarrow> real" where
  "beta_of fa sigma = (alpha_of fa sigma)\<^sup>2 * (exp ((sigma / dB_scale)\<^sup>2) - 1)"

definition combineNoise :: "noise \<Rightarrow> real \<Rightarrow> real \<Rightarrow> real \<Rightarrow> real \<Rightarrow> real \<Rightarrow> real \<Rightarrow> real \<times> real" where
  "combineNoise n sigmaA sigmaG sigmaM dA dG dM = (let
       alphaT = alpha_of (no_FaA n) sigmaA + alpha_of (no_FaG n) sigmaG + alpha_of (no_FaM n) sigmaM;
       betaT = beta_of (no_FaA n) sigmaA + beta_of (no_FaG n) sigmaG + beta_of (no_FaM n) sigmaM;
       gammaT = exp (no_FaA n / dB_scale) + exp (no_FaG n / dB_scale) + exp (no_FaM n / dB_scale);
       sigmaT = (if dA > 12 \<or> dG > 12 \<or> dM > 12 then dB_scale * sqrt (2 * ln (alphaT / gammaT))
                 else dB_scale * sqrt (ln (1 + betaT / alphaT\<^sup>2))) in
     (dB_scale * (ln alphaT - sigmaT\<^sup>2 / (2 * dB_scale\<^sup>2)), sigmaT))"

definition noise_upper :: "noise \<Rightarrow> real \<times> real" where
  "noise_upper n = combineNoise n (no_DuA n / upperDecileK) 1.56 (no_DuM n / upperDecileK) (no_DuA n) (no_DuG n) (no_DuM n)"

definition noise_lower :: "noise \<Rightarrow> real \<times> real" where
  "noise_lower n = combineNoise n (no_DlA n / upperDecileK) 1.56 (no_DlM n / upperDecileK) (no_DlA n) (no_DlG n) (no_DlM n)"

definition noise_override :: "noise \<Rightarrow> noise" where
  "noise_override n = n\<lparr>no_DuA := 0, no_DuG := 0, no_DuM := 0, no_DlA := 0, no_DlG := 0, no_DlM := 0, no_FaA := 0, no_FaG := 0,
     no_FaM := no_ManMadeNoise n, no_DuT := 0, no_DlT := 0, no_FamT := - no_ManMadeNoise n\<rparr>"

definition noise_Compute :: "noise \<Rightarrow> coefficients option \<Rightarrow> hf_error + noise" where
  "noise_Compute n coeff = (case coeff of None \<Rightarrow> Inl noise_ErrNoCoefficients
   | Some c \<Rightarrow> if no_ManMadeNoise n < 0 then Inr (noise_override n) else let
       m = manMadeNoise (galacticNoise (atmosphericNoise c n)); u = noise_upper m; l = noise_lower m in
     Inr (m\<lparr>no_DuT := upperDecileK * snd u, no_DlT := upperDecileK * snd l, no_FamT := (if fst u < fst l then fst u else fst l)\<rparr>))"

section \<open>The stand-alone caller\<close>

definition new_noise :: "int \<Rightarrow> real \<Rightarrow> real \<Rightarrow> real \<Rightarrow> real \<Rightarrow> noise" where
  "new_noise hour lng la freq m = \<lparr>no_Hour = hour, no_Lng = lng, no_Lat = la, no_Frequency = freq, no_ManMadeNoise = m,
     no_FaA = tinyDB, no_DuA = tinyDB, no_DlA = tinyDB, no_FaM = tinyDB, no_DuM = tinyDB, no_DlM = tinyDB, no_FaG = tinyDB, no_DuG = tinyDB,
     no_DlG = tinyDB, no_DuT = tinyDB, no_DlT = tinyDB, no_FamT = tinyDB\<rparr>"

definition MakeNoise :: "(string \<Rightarrow> string + string list) \<Rightarrow> int \<Rightarrow> int \<Rightarrow> real \<Rightarrow> real \<Rightarrow> real \<Rightarrow> real \<Rightarrow> string \<Rightarrow> hf_error + real list" where
  "MakeNoise open_file month hour la lng freq m dir = (case LoadCoefficients open_file dir month of Inl e \<Rightarrow> Inl e
   | Inr c \<Rightarrow> (case noise_Compute (new_noise hour (lng * d2r) (la * d2r) freq m) (Some c) of Inl e \<Rightarrow> Inl e
     | Inr n \<Rightarrow> Inr [no_FaA n, no_DuA n, no_DlA n, no_FaM n, no_DuM n, no_DlM n, no_FaG n, no_DuG n, no_DlG n, no_FamT n, no_DuT n, no_DlT n]))"

end
