(* ===== verification/Hf_Files.thy ===== *)
theory Hf_Files
  imports Hf_Short Hf_Noise "HOL-Library.Word"
begin

text \<open>
  The files of the HF model: VOACAP antenna files of type 11, 13 and 14 (read_type13.go), the decile factors
  (read_p1239.go), the binary ionospheric maps (read_ion_parameters.go) and the verified download of the data set
  (fetch.go). Opening a file is a parameter that gives its content or the text of an error. Lines are those a
  scanner delivers, none longer than its buffer.
\<close>

section \<open>Numbers at the start of a line\<close>

definition is_blank :: "char \<Rightarrow> bool" where "is_blank c \<longleftrightarrow> c \<in> {CHR '' '', CHR 0x09, CHR 0x0D, CHR 0x0A}"
definition is_digit :: "char \<Rightarrow> bool" where "is_digit c \<longleftrightarrow> digit_val c \<noteq> None"

definition is_sign :: "char \<Rightarrow> bool" where "is_sign c \<longleftrightarrow> c = CHR ''+'' \<or> c = CHR ''-''"

text \<open>A prefix of at most one character.\<close>

definition take_one :: "(char \<Rightarrow> bool) \<Rightarrow> string \<Rightarrow> string" where
  "take_one ok s = (case s of [] \<Rightarrow> [] | c # _ \<Rightarrow> if ok c then [c] else [])"

text \<open>The exponent, empty without digits.\<close>

definition exponent_text :: "string \<Rightarrow> string" where
  "exponent_text s = (let e = take_one (\<lambda>c. c = CHR ''e'' \<or> c = CHR ''E'') s; s1 = drop (length e) s; g = take_one is_sign s1;
       ds = takeWhile is_digit (drop (length g) s1) in
     if e \<noteq> [] \<and> ds \<noteq> [] then e @ g @ ds else [])"

text \<open>The length of the number at the start of a text, 0 for none.\<close>

definition number_length :: "string \<Rightarrow> nat" where
  "number_length s = (let
       g = take_one is_sign s; s1 = drop (length g) s; a = takeWhile is_digit s1; s2 = drop (length a) s1;
       p = take_one (\<lambda>c. c = CHR ''.'') s2; b = (if p = [] then [] else takeWhile is_digit (drop (length p) s2)) in
     if length a + length b = 0 then 0
     else let n = length g + length a + length p + length b in n + length (exponent_text (drop n s)))"

function scanNumbers :: "string \<Rightarrow> real list" where
  "scanNumbers line = (let s = dropWhile is_blank line; n = number_length s in
     if n = 0 then [] else (case ParseFloat (take n s) of None \<Rightarrow> [] | Some v \<Rightarrow>
       if s = [] then [] else real_of_f64 v # scanNumbers (drop n s)))"
  by pat_completeness auto
termination
proof (relation "measure length")
  fix line s n
  assume s: "s = dropWhile is_blank line" and n: "n = number_length s" "n \<noteq> (0::nat)" "s \<noteq> []"
  have "length (drop n s) < length s" using n by simp
  also have "\<dots> \<le> length line" by (simp add: s length_dropWhile_le)
  finally show "(drop n s, line) \<in> measure length" by simp
qed simp

declare scanNumbers.simps [simp del]

section \<open>Lines\<close>

fun scan_lines :: "string \<Rightarrow> string \<Rightarrow> string list" where
  "scan_lines acc [] = (if acc = [] then [] else [rev acc])"
| "scan_lines acc (c # cs) = (if c = CHR 0x0A then rev (case acc of [] \<Rightarrow> [] | a # as \<Rightarrow> if a = CHR 0x0D then as else acc) # scan_lines [] cs
     else scan_lines (c # acc) cs)"

definition trim_eol :: "string \<Rightarrow> string" where
  "trim_eol s = rev (dropWhile (\<lambda>c. c = CHR 0x0D \<or> c = CHR 0x0A) (rev s))"

text \<open>The next line and the lines left; the empty line at the end of the file.\<close>

definition next_line :: "string list \<Rightarrow> string \<times> string list" where
  "next_line ls = (case ls of [] \<Rightarrow> ([], []) | l # rest \<Rightarrow> (trim_eol l, rest))"

definition next_numbers :: "string list \<Rightarrow> real list \<times> string list" where
  "next_numbers ls = (case next_line ls of (l, rest) \<Rightarrow> (scanNumbers l, rest))"

section \<open>Antenna files\<close>

definition allocateAntennaMemory :: "nat \<Rightarrow> nat \<Rightarrow> nat \<Rightarrow> hf_antenna" where
  "allocateAntennaMemory freqn azin elen = \<lparr>ha_name = [], ha_freqn = freqn, ha_freqs = replicate freqn 0,
     ha_pattern = Some (replicate freqn (replicate azin (replicate elen 0)))\<rparr>"

definition isotropicPattern :: "real \<Rightarrow> hf_antenna" where
  "isotropicPattern g = \<lparr>ha_name = ''ISOTROPIC'', ha_freqn = 1, ha_freqs = [0],
     ha_pattern = Some [replicate antAzimuths (replicate antElevations g)]\<rparr>"

definition assign :: "real list \<Rightarrow> real list \<Rightarrow> real list" where
  "assign dst vals = take (length dst) vals @ drop (length vals) dst"

text \<open>The ten values from j on, then one line.\<close>

definition assign_at :: "nat \<Rightarrow> nat \<Rightarrow> real list \<Rightarrow> real list \<Rightarrow> real list" where
  "assign_at j n vals dst = take j dst @ assign (take n (drop j dst)) vals @ drop (j + n) dst"

definition read_values :: "nat \<Rightarrow> nat \<Rightarrow> real list \<times> string list \<Rightarrow> real list \<times> string list" where
  "read_values j n s = (case s of (dst, ls) \<Rightarrow> case next_numbers ls of (v, rest) \<Rightarrow> (assign_at j n v dst, rest))"

definition readElevationBlock :: "string list \<Rightarrow> real list \<Rightarrow> real list option \<Rightarrow> real list \<times> string list" where
  "readElevationBlock ls dst first = read_values 90 1 (case first of
     Some v \<Rightarrow> fold (\<lambda>k. read_values (10 * k) 10) [1..<9] (assign_at 0 10 v dst, ls)
   | None \<Rightarrow> fold (\<lambda>k. read_values (10 * k) 10) [0..<9] (dst, ls))"

definition zero_row :: "real list" where "zero_row = replicate antElevations 0"

definition first_value :: "real list \<Rightarrow> real" where "first_value v = (case v of [] \<Rightarrow> 0 | x # _ \<Rightarrow> x)"

definition add_gain :: "real \<Rightarrow> real list \<Rightarrow> real list" where
  "add_gain g row = (if g \<noteq> 0 then map (\<lambda>x. x + g) row else row)"

definition readType11 :: "string list \<Rightarrow> hf_antenna" where
  "readType11 l0 = (let (name, l1) = next_line l0; (_, l2) = next_line l1; (v, l3) = next_numbers l2; (_, l4) = next_line l3;
       (_, l5) = next_line l4; (row, _) = readElevationBlock l5 zero_row None in
     \<lparr>ha_name = name, ha_freqn = 1, ha_freqs = [0], ha_pattern = Some [replicate antAzimuths (add_gain (first_value v) row)]\<rparr>)"

text \<open>One azimuth of type 13: its number, then the gains.\<close>

definition type13_row :: "nat \<Rightarrow> nat \<Rightarrow> real list list \<times> string list \<Rightarrow> real list list \<times> string list" where
  "type13_row mbos k s = (case s of (rows, ls) \<Rightarrow> let az = (mbos + k) mod antAzimuths; (v, l1) = next_numbers ls;
       (row, l2) = readElevationBlock l1 (rows ! az) (Some (tl v)) in (rows[az := row], l2))"

definition readType13 :: "string list \<Rightarrow> real \<Rightarrow> hf_antenna" where
  "readType13 l0 bearing = (let (name, l1) = next_line l0; (_, l2) = next_line l1; (_, l3) = next_line l2; (_, l4) = next_line l3;
       (_, l5) = next_line l4; (v, l6) = next_numbers l5;
       (rows, _) = fold (type13_row (nat (trunc (bearing * r2d)))) [0..<antAzimuths] (replicate antAzimuths zero_row, l6) in
     \<lparr>ha_name = name, ha_freqn = 1, ha_freqs = [first_value v], ha_pattern = Some [rows]\<rparr>)"

text \<open>One frequency of type 14: its number, the efficiency, then the gains, the same for every azimuth.\<close>

definition type14_row :: "real \<Rightarrow> (real \<times> real list) list \<times> string list \<Rightarrow> (real \<times> real list) list \<times> string list" where
  "type14_row g s = (case s of (blocks, ls) \<Rightarrow> let (v, l1) = next_numbers ls;
       (row, l2) = readElevationBlock l1 zero_row (Some (drop 2 v)) in (blocks @ [(first_value v, add_gain g row)], l2))"

definition readType14 :: "string list \<Rightarrow> hf_antenna" where
  "readType14 l0 = (let (name, l1) = next_line l0; (_, l2) = next_line l1; (v, l3) = next_numbers l2; (_, l4) = next_line l3;
       (_, l5) = next_line l4; (blocks, _) = fold (\<lambda>_. type14_row (first_value v)) [0..<30] ([], l5) in
     \<lparr>ha_name = name, ha_freqn = 30, ha_freqs = map fst blocks, ha_pattern = Some (map (\<lambda>b. replicate antAzimuths (snd b)) blocks)\<rparr>)"

text \<open>The type is the first number on line four.\<close>

definition antenna_type :: "string list \<Rightarrow> int" where
  "antenna_type ls = (let (_, l1) = next_line ls; (_, l2) = next_line l1; (_, l3) = next_line l2; (v, _) = next_numbers l3 in
     case v of [] \<Rightarrow> - 1 | x # _ \<Rightarrow> trunc x)"

definition error_with :: "hf_error \<Rightarrow> string \<Rightarrow> hf_error" where
  "error_with e detail = (case e of HfError t \<Rightarrow> HfError (t @ '': '' @ detail))"

definition parseAntenna :: "string \<Rightarrow> real \<Rightarrow> hf_error + hf_antenna" where
  "parseAntenna data bearing = (let ls = scan_lines [] data; ty = antenna_type ls in
     if ty = 11 then Inr (readType11 ls)
     else if ty = 13 then Inr (readType13 ls bearing)
     else if ty = 14 then Inr (readType14 ls)
     else Inl (error_with ErrAntennaType (int_text ty)))"

definition readAntennaFile :: "(string \<Rightarrow> string + string) \<Rightarrow> string \<Rightarrow> real \<Rightarrow> hf_error + hf_antenna" where
  "readAntennaFile open_file name bearing = (case open_file name of Inl e \<Rightarrow> Inl (error_with ErrOpenAntennaFile e) | Inr data \<Rightarrow> parseAntenna data bearing)"

section \<open>Decile factors\<close>

definition p1239_row :: "string \<Rightarrow> real list option" where
  "p1239_row line = (let fs = ws_fields line in if length fs < 25 then None
     else those (map (\<lambda>h. map_option real_of_f64 (ParseFloat (fs ! (h + 1)))) [0..<24]))"

text \<open>One table: four lines of header, then the latitudes from 90 down to 0 degrees.\<close>

fun p1239_rows :: "nat \<Rightarrow> string list \<Rightarrow> (real list list \<times> string list) option" where
  "p1239_rows 0 ls = Some ([], ls)"
| "p1239_rows (Suc n) [] = None"
| "p1239_rows (Suc n) (l # ls) = (case p1239_row l of None \<Rightarrow> None | Some r \<Rightarrow>
     (case p1239_rows n ls of None \<Rightarrow> None | Some (rs, rest) \<Rightarrow> Some (r # rs, rest)))"

fun p1239_tables :: "nat \<Rightarrow> string list \<Rightarrow> real list list list option" where
  "p1239_tables 0 ls = Some []"
| "p1239_tables (Suc n) ls = (case p1239_rows 19 (drop 4 ls) of None \<Rightarrow> None | Some (t, rest) \<Rightarrow>
     (case p1239_tables n rest of None \<Rightarrow> None | Some ts \<Rightarrow> Some (t # ts)))"

text \<open>The 18 tables come by decile, season and range of sunspot numbers.\<close>

definition readP1239 :: "(string \<Rightarrow> string + string list) \<Rightarrow> string \<Rightarrow> hf_error + decileFactors" where
  "readP1239 open_file dir = (case open_file (dir @ ''/P1239-3 Decile Factors.txt'') of
     Inl e \<Rightarrow> Inl (error_with ErrOpenP1239File e)
   | Inr ls \<Rightarrow> (case p1239_tables 18 (drop 2 ls) of None \<Rightarrow> Inl ErrNotP12393
     | Some ts \<Rightarrow> Inr (map (\<lambda>i. map (\<lambda>h. map (\<lambda>k. map (\<lambda>m. map (\<lambda>n. ts ! (9 * n + 3 * i + m) ! (18 - k) ! h) [0..<2]) [0..<3]) [0..<19]) [0..<24]) [0..<3])))"

section \<open>Ionospheric maps\<close>

text \<open>math.Float32frombits: the sign, the exponent and the fraction of an IEEE single.\<close>

definition Float32frombits :: "32 word \<Rightarrow> f64" where
  "Float32frombits w = (let n = unat w; neg = n \<ge> 2 ^ 31; e = (n div 2 ^ 23) mod 2 ^ 8; m = n mod 2 ^ 23 in
     if e = 255 then (if m = 0 then if neg then NInf else PInf else NaN)
     else let v = (if e = 0 then real m / 2 ^ 149 else (1 + real m / 2 ^ 23) * 2 powr (real e - 127)) in
       Fin (if neg then - v else v))"

definition little_endian :: "8 word list \<Rightarrow> 32 word" where
  "little_endian bs = foldr (\<lambda>b w. ucast b + 256 * w) bs 0"

definition readFloat32s :: "nat \<Rightarrow> 8 word list \<Rightarrow> string + real list \<times> 8 word list" where
  "readFloat32s n bs = (if length bs < 4 * n then Inl (if bs = [] \<and> n \<noteq> 0 then ''EOF'' else ''unexpected EOF'')
     else Inr (map (\<lambda>i. real_of_f64 (Float32frombits (little_endian (take 4 (drop (4 * i) bs))))) [0..<n], drop (4 * n) bs))"

definition discard :: "nat \<Rightarrow> 8 word list \<Rightarrow> string + 8 word list" where
  "discard n bs = (if length bs < n then Inl ''EOF'' else Inr (drop n bs))"

definition readIonParametersBin :: "(string \<Rightarrow> string + 8 word list) \<Rightarrow> string \<Rightarrow> int \<Rightarrow> hf_error + ionMap \<times> ionMap" where
  "readIonParametersBin open_file dir month = (let n = ionHours * ionLng * ionLat * ionSSN; fail = (\<lambda>e. Inl (error_with ErrReadIonParameters e)) in
     case open_file (dir @ ''/ionos'' @ two_digits (nat (month + 1)) @ ''.bin'') of Inl e \<Rightarrow> fail e | Inr b0 \<Rightarrow>
     (case discard 5 b0 of Inl e \<Rightarrow> fail e | Inr b1 \<Rightarrow>
     (case readFloat32s n b1 of Inl e \<Rightarrow> fail e | Inr (foF2, b2) \<Rightarrow>
     (case discard 10 b2 of Inl e \<Rightarrow> fail e | Inr b3 \<Rightarrow>
     (case readFloat32s n b3 of Inl e \<Rightarrow> fail e | Inr (m3k, _) \<Rightarrow> Inr (foF2, m3k))))))"

section \<open>The download of the data set\<close>

text \<open>The local directory is a map from paths to contents. Downloading gives the bytes that arrived and the error that
  ended them, if any; creating, closing and renaming may fail.\<close>

record fetch_world =
  fw_get :: "string \<Rightarrow> string + string \<times> string option"
  fw_create :: "string \<Rightarrow> string option"
  fw_close :: "string \<Rightarrow> string option"
  fw_rename :: "string \<Rightarrow> string option"
  fw_sha256 :: "string \<Rightarrow> string"

fun cut_two_spaces :: "string \<Rightarrow> string \<Rightarrow> (string \<times> string) option" where
  "cut_two_spaces acc (a # b # cs) = (if a = CHR '' '' \<and> b = CHR '' '' then Some (rev acc, cs) else cut_two_spaces (a # acc) (b # cs))"
| "cut_two_spaces acc _ = None"

text \<open>Name and checksum of every file.\<close>

definition dataFiles :: "string \<Rightarrow> (string \<times> string) list" where
  "dataFiles dataSums = List.map_filter (\<lambda>line. map_option (\<lambda>(hash, name). (name, hash)) (cut_two_spaces [] line))
     (split_on (CHR 0x0A) (trim_space dataSums))"

definition fetchFile :: "fetch_world \<Rightarrow> string \<Rightarrow> string \<times> string \<Rightarrow> (string \<rightharpoonup> string) \<Rightarrow> (string \<rightharpoonup> string) \<times> string option" where
  "fetchFile w dir f fs = (case f of (name, pinned) \<Rightarrow> (case fw_get w name of
     Inl e \<Rightarrow> (fs, Some e)
   | Inr (body, broken) \<Rightarrow> let path = dir @ ''/'' @ name; part = path @ ''.part'' in
       (case fw_create w part of Some e \<Rightarrow> (fs, Some e)
        | None \<Rightarrow> let fs1 = fs(part \<mapsto> body);
            err = (case broken of Some e \<Rightarrow> Some e | None \<Rightarrow> (case fw_close w part of Some e \<Rightarrow> Some e
                   | None \<Rightarrow> if fw_sha256 w body \<noteq> pinned then Some ''checksum mismatch'' else None)) in
            (case err of Some e \<Rightarrow> (fs1(part := None), Some e)
             | None \<Rightarrow> (case fw_rename w part of Some e \<Rightarrow> (fs1, Some e)
               | None \<Rightarrow> ((fs1(part := None))(path \<mapsto> body), None))))))"

fun fetchFiles :: "fetch_world \<Rightarrow> string \<Rightarrow> (string \<times> string) list \<Rightarrow> (string \<rightharpoonup> string) \<Rightarrow> (string \<rightharpoonup> string) \<times> string option" where
  "fetchFiles w dir [] fs = (fs, None)"
| "fetchFiles w dir (f # rest) fs = (case fetchFile w dir f fs of
     (fs1, Some e) \<Rightarrow> (fs1, Some (''hf: '' @ fst f @ '': '' @ e))
   | (fs1, None) \<Rightarrow> fetchFiles w dir rest fs1)"

definition Fetch :: "fetch_world \<Rightarrow> string \<Rightarrow> string \<Rightarrow> (string \<rightharpoonup> string) \<Rightarrow> (string \<rightharpoonup> string) \<times> string option" where
  "Fetch w dataSums dir fs = fetchFiles w dir (dataFiles dataSums) fs"

end
