(* ===== verification/Hf_Long.thy ===== *)
theory Hf_Long
  imports Hf_Short
begin

text \<open>
  The median field strength of paths of 7000 km and more (median_skywave_field_strength_long.go), the
  interpolation between 7000 and 9000 km (between_7000km_and_9000km.go) and the power that arrives at the
  receiver (median_available_receiver_power.go).
\<close>

definition noILLong :: real where "noILLong = - 0.17"
definition maxCP :: nat where "maxCP = 28"
definition tdM2 :: nat where "tdM2 = 26"
definition rdM2 :: nat where "rdM2 = 27"

section \<open>Hops\<close>

text \<open>The smallest index of a mode, from n on, whose hops are not longer than the limit; the limits are positive.\<close>

function fewest_hops :: "real \<Rightarrow> real \<Rightarrow> nat \<Rightarrow> nat" where
  "fewest_hops limit distance n = (if 0 < limit \<and> distance / (real n + 1) > limit then fewest_hops limit distance (n + 1) else n)"
  by pat_completeness auto
termination
proof (relation "measure (\<lambda>(limit, distance, n). nat \<lceil>distance / limit\<rceil> - n)")
  show "((limit, distance, n + 1), limit, distance, n) \<in> measure (\<lambda>(limit, distance, n). nat \<lceil>distance / limit\<rceil> - n)"
    if "0 < limit \<and> distance / (real n + 1) > limit" for limit distance :: real and n
  proof -
    have "real n + 1 < distance / limit" using that by (simp add: field_simps)
    then show ?thesis by simp linarith
  qed
qed simp

declare fewest_hops.simps [simp del]

definition nL :: "real \<Rightarrow> nat" where "nL distance = fewest_hops 3000 distance 0"

definition nM :: "real \<Rightarrow> nat" where
  "nM distance = (let n = fewest_hops 4000 distance 0 in
     if elevationAngle (distance / (real n + 1)) 300 < minEleAngleL * d2r then n + 1 else n)"

section \<open>The control points of 24 hours\<close>

definition at_hour :: "path_input \<Rightarrow> nat \<Rightarrow> path_input" where
  "at_hour i j = i\<lparr>pi_hour := int j\<rparr>"

text \<open>The control points T + dM/2 and R - dM/2 of Table 1a.\<close>

definition reference_point :: "path_input \<Rightarrow> real \<Rightarrow> real \<Rightarrow> controlPt" where
  "reference_point i distance fracd =
     (calculateCPParameters i (point_on_path i distance zero_point fracd))\<lparr>cp_x := 0, cp_foE := 0, cp_hr := 300\<rparr>"

text \<open>The columns of one hour: the two penetration points of every hop, then the two reference points, which are
  written last.\<close>

definition long_column :: "path_input \<Rightarrow> real \<Rightarrow> real \<Rightarrow> nat \<Rightarrow> nat \<Rightarrow> controlPt list" where
  "long_column i distance dh90 nl nm = (let
       dL = distance / (real nl + 1);
       hops = fold (\<lambda>k cps. cps[2 * k := penetration_point i distance ((real k * dL + dh90) / distance),
                2 * k + 1 := penetration_point i distance ((real (k + 1) * dL - dh90) / distance)])
              [0..<Suc nl] (replicate maxCP zero_point) in
     hops[tdM2 := reference_point i distance (1 / (2 * real (nm + 1))),
          rdM2 := reference_point i distance (1 - 1 / (2 * real (nm + 1)))])"

definition long_dh90 :: "real \<Rightarrow> real" where
  "long_dh90 distance = (let deltaL = elevationAngle (distance / (real (nL distance) + 1)) 300 in
     r0 * (c_pi / 2 - deltaL - incidenceAngle deltaL 90))"

text \<open>The table by point and hour.\<close>

definition long_table :: "path_input \<Rightarrow> real \<Rightarrow> controlPt list list" where
  "long_table i distance = (let
       cols = map (\<lambda>j. long_column (at_hour i j) distance (long_dh90 distance) (nL distance) (nM distance)) [0..<24] in
     map (\<lambda>n. map (\<lambda>col. col ! n) cols) [0..<maxCP])"

text \<open>It is built on first use and kept in the path.\<close>

definition use_table :: "pathData \<Rightarrow> pathData" where
  "use_table p = (case pd_longCP p of Some _ \<Rightarrow> p | None \<Rightarrow> p\<lparr>pd_longCP := Some (long_table (pd_in p) (pd_distance p))\<rparr>)"

section \<open>The upper reference frequency\<close>

definition distance_factor :: "real \<Rightarrow> real" where
  "distance_factor dM = ((((((- 2.40074637494790 / 10 ^ 24 * dM + 25.8520201885984 / 10 ^ 21) * dM
     - 92.4986988833091 / 10 ^ 18) * dM + 102.342990689362 / 10 ^ 15) * dM + 22.0776941764705 / 10 ^ 12) * dM
     + 87.4376851991085 / 10 ^ 9) * dM + 29.1996868566837 / 10 ^ 6) * dM"

text \<open>The F2 MUF of a control point for every hour.\<close>

definition fBM :: "controlPt list \<Rightarrow> real \<Rightarrow> real list" where
  "fBM row fD = map (\<lambda>c. let f4 = 1.1 * cp_foF2 c * cp_M3kF2 c; fz = cp_foF2 c + 0.5 * cp_fH300 c in fz + (f4 - fz) * fD) row"

definition noon_index :: "controlPt list \<Rightarrow> nat" where
  "noon_index row = nat ((trunc (12 - l_lng (cp_L (row ! 1)) / (15 * d2r)) - 1 + 24) mod 24)"

definition azimuth_weight :: "pathData \<Rightarrow> real" where
  "azimuth_weight p = (let a0 = hf_bearing (cp_L (pd_CP p ! mp)) (pi_rx (pd_in p)) shortPath;
       a1 = (if a0 > c_pi then a0 - c_pi else a0); a = (if a1 \<ge> c_pi / 2 then a1 - c_pi / 2 else c_pi / 2 - a1) in a / (c_pi / 2))"

definition correction_K :: "real \<Rightarrow> real list \<Rightarrow> nat \<Rightarrow> nat \<Rightarrow> real" where
  "correction_K ew muf hour noon = (let
       iw = 0.1 * (1 - ew) + 0.2 * ew; iy = 0.6 * (1 - ew) + 0.4 * ew; ix = 1.2 * (1 - ew) + 0.2 * ew;
       low = fold cMin muf 100 in
     1.2 + iw * (muf ! hour / muf ! noon) + ix * ((muf ! noon / muf ! hour) powr (1 / 3) - 1) + iy * (low / muf ! noon)\<^sup>2)"

definition findMUFsandfM :: "controlPt list list \<Rightarrow> real \<Rightarrow> pathData \<Rightarrow> pathData" where
  "findMUFsandfM cp dM p = (let
       h = nat (pi_hour (pd_in p)); ew = azimuth_weight p;
       a = fBM (cp ! tdM2) (distance_factor dM); b = fBM (cp ! rdM2) (distance_factor dM);
       ka = correction_K ew a h (noon_index (cp ! tdM2)); kb = correction_K ew b h (noon_index (cp ! rdM2));
       fM = cMin (ka * a ! h) (kb * b ! h);
       q = p\<lparr>pd_far := (pd_far p)\<lparr>fa_K := (ka, kb), fa_fM := fM\<rparr>\<rparr> in
     if pd_distance p > 9000 then let
         bmuf = (if a ! h < b ! h then a ! h else b ! h);
         c = (if a ! h < b ! h then cp ! tdM2 else cp ! rdM2) ! h;
         lower = findfoF2var p (cp_ltime c) (l_lat (cp_L c)) dl; upper = findfoF2var p (cp_ltime c) (l_lat (cp_L c)) du in
       q\<lparr>pd_mufs := \<lparr>mu_BMUF = bmuf, mu_MUF50 = bmuf, mu_MUF90 = bmuf * lower, mu_MUF10 = bmuf * upper,
          mu_OPMUF = fM, mu_OPMUF90 = fM * lower, mu_OPMUF10 = fM * upper\<rparr>\<rparr>
     else q)"

section \<open>The lower reference frequency\<close>

definition winter_factor :: "real list list" where
  "winter_factor = [[0.30, 0], [0.15, 0], [0.03, 0], [0, 0.03], [0, 0.15], [0, 0.30], [0, 0.30], [0, 0.15], [0, 0.03], [0.03, 0], [0.15, 0], [0.30, 0]]"

definition winterAnomaly :: "real \<Rightarrow> int \<Rightarrow> real" where
  "winterAnomaly lat0 month = (let peak = winter_factor ! nat month ! (if lat0 < 0 then 1 else 0); la = \<bar>lat0\<bar> in
     if (0 \<le> la \<and> la \<le> 30 * d2r) \<or> 90 * d2r \<le> la then 0
     else if la < 60 * d2r then peak * (la * r2d - 30) / 30
     else peak * (90 - la * r2d) / 30)"

definition sum_cos_chi :: "controlPt list list \<Rightarrow> nat \<Rightarrow> nat \<Rightarrow> real" where
  "sum_cos_chi cp hops t = sum_list (map (\<lambda>n. let chi = so_sza (cp_Sun (cp ! n ! t)) in
     if 0 < chi \<and> chi < c_pi / 2 then sqrt (cos chi) else 0) [0..<2 * (hops + 1)])"

text \<open>One hour of the search for the fall from the day to the night LUF: only the first is taken.\<close>

definition luf_step :: "real \<Rightarrow> nat \<Rightarrow> real list \<times> nat option \<Rightarrow> real list \<times> nat option" where
  "luf_step fLN n s = (case s of (fL, tr) \<Rightarrow> let before = (n + 23) mod 24 in
     if tr = None \<and> fL ! before \<ge> 2 * fLN \<and> fL ! n \<le> 2 * fLN then let
         dt = (2 * fLN - fL ! n) / (fL ! before - fL ! n) in
       (fL[n := 0.7945 * fL ! before * (dt * (1 - 0.7945) + 0.7945)], Some n)
     else (fL, tr))"

definition luf_decay :: "nat \<Rightarrow> nat \<Rightarrow> real list \<Rightarrow> real list" where
  "luf_decay tr i fL = (let n = (tr + i) mod 24; before = (n + 23) mod 24 in fL[n := cMax (fL ! before * 0.7945) (fL ! n)])"

definition luf_night :: "real \<Rightarrow> real list \<Rightarrow> real list" where
  "luf_night fLN fL = (case fold (luf_step fLN) [0..<24] (fL, None) of
     (ys, None) \<Rightarrow> ys | (ys, Some tr) \<Rightarrow> fold (luf_decay tr) [1..<4] ys)"

definition findfL :: "controlPt list list \<Rightarrow> nat \<Rightarrow> real \<Rightarrow> real \<Rightarrow> real \<Rightarrow> pathData \<Rightarrow> pathData" where
  "findfL cp hops ptick fH i90 p = (let
       i = pd_in p; aw = winterAnomaly (l_lat (cp_L (pd_CP p ! mp))) (pi_month i); fLN = sqrt (pd_distance p / 3000);
       fL = map (\<lambda>t. cMax ((5.3 * sqrt (((1 + 0.009 * of_int (pi_SSN i)) * sum_cos_chi cp hops t)
              / (cos i90 * ln (9.5 * 10 ^ 6 / ptick))) - fH) * (aw + 1)) fLN) [0..<24] in
     p\<lparr>pd_far := (pd_far p)\<lparr>fa_fL := luf_night fLN fL ! nat ((pi_hour i + 1 + 24) mod 24)\<rparr>\<rparr>)"

section \<open>The field strength\<close>

text \<open>The largest gain between 0 and 8 degrees and its elevation; the elevation stays when no gain exceeds tinyDB.\<close>

definition antennaGain08 :: "path_input \<Rightarrow> hf_antenna \<Rightarrow> int \<Rightarrow> real \<Rightarrow> real \<times> real" where
  "antennaGain08 i ant direction elevation = fold (\<lambda>n (best, ele). let delta = real n * d2r; g = antennaGain i ant delta direction in
     if g > best then (g, delta) else (best, ele)) [0..<9] (tinyDB, elevation)"

definition copyCP :: "controlPt \<Rightarrow> controlPt \<Rightarrow> controlPt" where
  "copyCP this that = that\<lparr>cp_dip100 := cp_dip100 this, cp_dip300 := cp_dip300 this, cp_distance := cp_distance this,
     cp_fH100 := cp_fH100 this, cp_fH300 := cp_fH300 this, cp_foE := cp_foE this, cp_foF2 := cp_foF2 this, cp_hr := cp_hr this,
     cp_L := cp_L this, cp_ltime := cp_ltime this, cp_M3kF2 := cp_M3kF2 this, cp_Sun := cp_Sun this, cp_x := cp_x this\<rparr>"

definition long_F :: "real \<Rightarrow> real \<Rightarrow> real \<Rightarrow> real \<Rightarrow> real" where
  "long_F f fL fM fH = 1 - ((fL + fH)\<^sup>2 / (f + fH)\<^sup>2 + (f + fH)\<^sup>2 / (fM + fH)\<^sup>2) * ((fM + fH)\<^sup>2 / ((fM + fH)\<^sup>2 + (fL + fH)\<^sup>2))"

text \<open>Slant range, free space field strength, gains and mean gyrofrequency, before the reference frequencies.\<close>

definition long_setup :: "controlPt list list \<Rightarrow> pathData \<Rightarrow> pathData" where
  "long_setup cp p = (let
       i = pd_in p; d = pd_distance p; h = nat (pi_hour i); n = nM d; dM = d / (real n + 1); psi = dM / (2 * r0);
       ptick = \<bar>2 * r0 * (sin psi / cos (elevationAngle dM 300 + psi))\<bar> * (real n + 1) in
     p\<lparr>pd_ptick := ptick, pd_far := (pd_far p)\<lparr>fa_E0 := 139.6 - 20 * log 10 ptick,
        fa_Gtl := fst (antennaGain08 i (pi_Atx i) txToRx (2 * c_pi)),
        fa_Gap := cMin (10 * log 10 (d / (r0 * \<bar>sin (d / r0)\<bar>))) 15, fa_Ly := noILLong,
        fa_fH := (cp_fH300 (cp ! tdM2 ! h) + cp_fH300 (cp ! rdM2 ! h)) / 2\<rparr>\<rparr>)"

definition long_field :: "pathData \<Rightarrow> pathData" where
  "long_field p = (let fa = pd_far p; v = long_F (pi_frequency (pd_in p)) (fa_fL fa) (fa_fM fa) (fa_fH fa) in
     p\<lparr>pd_far := fa\<lparr>fa_F := v\<rparr>,
       pd_levels := (pd_levels p)\<lparr>lv_El := fa_E0 fa * v - 30 + pi_txpower (pd_in p) + fa_Gtl fa + fa_Gap fa - fa_Ly fa\<rparr>\<rparr>)"

definition long_points :: "controlPt list list \<Rightarrow> pathData \<Rightarrow> pathData" where
  "long_points cp p = (let d = pd_distance p; h = nat (pi_hour (pd_in p)) in
     if d > 9000 then (set_point r1k (copyCP (cp ! (2 * nL d) ! h)) (set_point t1k (copyCP (cp ! 0 ! h))
         (set_point td02 (copyCP (cp ! tdM2 ! h)) (set_point rd02 (copyCP (cp ! rdM2 ! h)) p))))
       \<lparr>pd_ele := elevationAngle (d / (real (nM d) + 1)) 300, pd_dmax := 4000\<rparr>
     else p)"

definition medianSkywaveFieldStrengthLong :: "pathData \<Rightarrow> pathData" where
  "medianSkywaveFieldStrengthLong p = (if pd_distance p \<ge> 7000 then let
       d = pd_distance p; deltaL = elevationAngle (d / (real (nL d) + 1)) 300;
       q = use_table p; cp = the (pd_longCP q); s = long_setup cp q in
     long_points cp (long_field (findfL cp (nL d) (pd_ptick s) (fa_fH (pd_far s)) (incidenceAngle deltaL 90)
       (findMUFsandfM cp (d / (real (nM d) + 1)) s)))
   else p)"

section \<open>Between 7000 and 9000 km\<close>

definition muf_4000 :: "pathData \<Rightarrow> nat \<Rightarrow> real" where
  "muf_4000 p n = calcF2DMUF (pd_CP p ! n) (pd_distance p / real (pd_n0_F2 p + 1)) (cMin (calcdmax (pd_CP p ! n)) 4000) (calcB (pd_CP p ! n))"

definition interpolated_Ei :: "real \<Rightarrow> real \<Rightarrow> real \<Rightarrow> real" where
  "interpolated_Ei distance es el = (let xl = 10 powr (el / 100); xs = 10 powr (es / 100) in
     100 * log 10 (xs + ((distance - 7000) / 2000) * (xl - xs)))"

definition between7000kmand9000km :: "pathData \<Rightarrow> pathData" where
  "between7000kmand9000km p = (if 7000 < pd_distance p \<and> pd_distance p < 9000 then
     set_bmuf (cMin (muf_4000 p td02) (muf_4000 p rd02))
       (p\<lparr>pd_levels := (pd_levels p)\<lparr>lv_Ei := interpolated_Ei (pd_distance p) (lv_Es (pd_levels p)) (lv_El (pd_levels p))\<rparr>\<rparr>)
   else p)"

section \<open>The power at the receiver\<close>

definition mode_of :: "pathData \<Rightarrow> mode_ref \<Rightarrow> mode" where
  "mode_of p r = (case r of EMode n \<Rightarrow> pd_Md_E p ! n | F2Mode n \<Rightarrow> pd_Md_F2 p ! n)"

definition set_mode :: "mode_ref \<Rightarrow> mode \<Rightarrow> pathData \<Rightarrow> pathData" where
  "set_mode r m p = (case r of EMode n \<Rightarrow> p\<lparr>pd_Md_E := (pd_Md_E p)[n := m]\<rparr> | F2Mode n \<Rightarrow> p\<lparr>pd_Md_F2 := (pd_Md_F2 p)[n := m]\<rparr>)"

definition mode_index :: "mode_ref \<Rightarrow> nat" where
  "mode_index r = (case r of EMode n \<Rightarrow> n | F2Mode n \<Rightarrow> n + 3)"

definition received :: "path_input \<Rightarrow> mode \<Rightarrow> mode" where
  "received i m = (let g = antennaGain i (pi_Arx i) (md_ele m) rxToTx in
     m\<lparr>md_Grw := g, md_Prw := md_Ew m + g - 20 * log 10 (pi_frequency i) - 107.2\<rparr>)"

text \<open>One mode of the sum: the strongest so far, the sum of the powers and the path.\<close>

definition receive_mode :: "mode_ref \<Rightarrow> real \<times> real \<times> pathData \<Rightarrow> real \<times> real \<times> pathData" where
  "receive_mode r s = (case s of (prw, sumPr, p) \<Rightarrow> let m = received (pd_in p) (mode_of p r); q = set_mode r m p in
     if prw < md_Prw m then (md_Prw m, sumPr + 10 powr (md_Prw m / 10), q\<lparr>pd_DM := Some r, pd_DMidx := mode_index r\<rparr>)
     else (prw, sumPr + 10 powr (md_Prw m / 10), q))"

definition considered :: "pathData \<Rightarrow> mode_ref list" where
  "considered p = map EMode (e_modes p) @ map F2Mode (f2_modes p)"

definition dominantMode :: "pathData \<Rightarrow> pathData" where
  "dominantMode p = (case pd_DM p of None \<Rightarrow> p
   | Some r \<Rightarrow> p\<lparr>pd_levels := (pd_levels p)\<lparr>lv_Grw := md_Grw (mode_of p r)\<rparr>, pd_ele := md_ele (mode_of p r)\<rparr>)"

definition set_Pr :: "real \<Rightarrow> real \<Rightarrow> pathData \<Rightarrow> pathData" where
  "set_Pr pr ep p = p\<lparr>pd_levels := (pd_levels p)\<lparr>lv_Pr := pr, lv_Ep := ep\<rparr>\<rparr>"

text \<open>The field strength e of a long path reaches the receiver with the largest gain between 0 and 8 degrees.\<close>

definition receive_long :: "real \<Rightarrow> pathData \<Rightarrow> pathData" where
  "receive_long e p = (case antennaGain08 (pd_in p) (pi_Arx (pd_in p)) rxToTx (2 * c_pi) of (grw, ele) \<Rightarrow>
     p\<lparr>pd_levels := (pd_levels p)\<lparr>lv_Pr := e + grw - 20 * log 10 (pi_frequency (pd_in p)) - 107.2, lv_Grw := grw, lv_Ep := e\<rparr>, pd_ele := ele\<rparr>)"

definition medianAvailableReceiverPower :: "pathData \<Rightarrow> pathData" where
  "medianAvailableReceiverPower p =
     (if pd_distance p \<le> 7000 then
        case fold receive_mode (considered p) (tinyDB, 0, p) of (prw, sumPr, q) \<Rightarrow>
          if sumPr \<noteq> 0 \<and> pd_DM q \<noteq> None then dominantMode (set_Pr (10 * log 10 sumPr) (lv_Es (pd_levels q)) q)
          else set_Pr tinyDB (lv_Es (pd_levels q)) q
      else if 7000 < pd_distance p \<and> pd_distance p < 9000 then receive_long (lv_Ei (pd_levels p)) p
      else receive_long (lv_El (pd_levels p)) p)"

end
