(* ===== verification/Hf_Reliability.thy ===== *)
theory Hf_Reliability
  imports Hf_Long
begin

text \<open>
  Part 3 of P.533: the signal-to-noise ratio, the reliability of the circuit and the multipath of digital
  modulation (circuit_reliability.go). The two index arrays are lists of nine numbers, 99 for no mode; a mode index
  counts the E modes, then the F2 modes.
\<close>

definition notIndex :: nat where "notIndex = 99"
definition dblMin :: real where "dblMin = 2.2250738585072014 / 10 ^ 308"

section \<open>Probabilities\<close>

text \<open>The share of the time a value with the deciles up and low reaches what is required, in percent.\<close>

definition achieved :: "real \<Rightarrow> real \<Rightarrow> real \<Rightarrow> real \<Rightarrow> real" where
  "achieved v required up low = (if v \<ge> required then cMin (130 - 80 / (1 + (v - required) / low)) 100
     else cMax (80 / (1 + (required - v) / up) - 30) 0)"

text \<open>RT and RF: the share of the time a spread stays below the required one.\<close>

definition spread_kept :: "real \<Rightarrow> real \<Rightarrow> real \<Rightarrow> real \<Rightarrow> real" where
  "spread_kept v required up low = (if v \<ge> required then cMin (130 - 80 / (1 + (required - v) / low)) 100
     else cMax (80 / (1 + (v - required) / up) - 30) 0)"

section \<open>Modes\<close>

definition all_modes :: "pathData \<Rightarrow> mode list" where
  "all_modes p = take maxEMds (pd_Md_E p) @ take maxF2Mds (pd_Md_F2 p)"

definition numberofModes :: "pathData \<Rightarrow> nat" where
  "numberofModes p = length (filter (\<lambda>m. md_BMUF m \<noteq> 0) (all_modes p))"

definition existing :: "mode list \<Rightarrow> nat list" where
  "existing ms = filter (\<lambda>n. md_BMUF (ms ! n) \<noteq> 0) [0..<maxMds]"

definition padded :: "nat list \<Rightarrow> nat list" where
  "padded ns = ns @ replicate (maxMds - length ns) notIndex"

text \<open>The modes that exist by field strength, the largest first, and by delay, the shortest first.\<close>

definition modeSort_dominant :: "mode list \<Rightarrow> nat list" where
  "modeSort_dominant ms = exchange_sort (\<lambda>a b. a \<noteq> notIndex \<and> b \<noteq> notIndex \<and> md_Ew (ms ! a) > md_Ew (ms ! b)) (padded (existing ms))"

definition modeSort_soonest :: "mode list \<Rightarrow> nat list" where
  "modeSort_soonest ms = exchange_sort (\<lambda>a b. a \<noteq> notIndex \<and> b \<noteq> notIndex \<and> md_BMUF (ms ! a) \<noteq> 0 \<and> md_tau (ms ! a) < md_tau (ms ! b)) (padded (existing ms))"

definition mode_delay :: "real \<Rightarrow> nat \<Rightarrow> real \<Rightarrow> real" where
  "mode_delay distance n hr = (let dh = distance / real (n + 1); delta = elevationAngle dh hr; psi = dh / (2 * r0);
       ptick = 2 * r0 * (sin psi / cos (delta - psi)) in (real n + 1) * (ptick / vOfL) * 1000)"

definition set_delays :: "pathData \<Rightarrow> pathData" where
  "set_delays p = (let d = pd_distance p in
     p\<lparr>pd_Md_E := each_mode (pd_n0_E p) (\<lambda>n m. if n < maxEMds \<and> md_BMUF m \<noteq> 0 then m\<lparr>md_tau := mode_delay d n 110\<rparr> else m) (pd_Md_E p),
       pd_Md_F2 := each_mode (pd_n0_F2 p) (\<lambda>n m. if n < maxF2Mds \<and> md_BMUF m \<noteq> 0 then m\<lparr>md_tau := mode_delay d n (md_hr m)\<rparr> else m) (pd_Md_F2 p)\<rparr>)"

text \<open>Signal: strong enough compared with the dominant mode and early enough compared with the first.\<close>

definition is_signal :: "path_input \<Rightarrow> mode list \<Rightarrow> nat \<Rightarrow> bool" where
  "is_signal i ms n \<longleftrightarrow> md_Prw (ms ! n) \<ge> md_Prw (ms ! (modeSort_dominant ms ! 0)) - pi_A i \<and>
     md_tau (ms ! n) \<le> md_tau (ms ! (modeSort_soonest ms ! 0)) + pi_TW i / 1000"

definition signal_indices :: "path_input \<Rightarrow> mode list \<Rightarrow> nat list" where
  "signal_indices i ms = map (\<lambda>n. if md_BMUF (ms ! n) \<noteq> 0 \<and> is_signal i ms n then n else notIndex) [0..<maxMds]"

definition interferer_indices :: "path_input \<Rightarrow> mode list \<Rightarrow> nat list" where
  "interferer_indices i ms = map (\<lambda>n. if md_BMUF (ms ! n) \<noteq> 0 \<and> \<not> is_signal i ms n then n else notIndex) [0..<maxMds]"

definition signal_sum :: "path_input \<Rightarrow> mode list \<Rightarrow> real" where
  "signal_sum i ms = sum_list (map (\<lambda>n. (10 powr (md_Ew (ms ! n) / 10))\<^sup>2) (filter (\<lambda>n. is_signal i ms n) (existing ms)))"

definition no_indices :: "nat list" where "no_indices = replicate maxMds notIndex"

text \<open>The signal, the modes of the signal, the interfering modes and the path with its delays.\<close>

definition digitalModulationSignalandInterferers :: "pathData \<Rightarrow> real \<times> nat list \<times> nat list \<times> pathData" where
  "digitalModulationSignalandInterferers p = (if pd_distance p \<le> 9000 then let
       q = set_delays p; i = pd_in p; ms = all_modes q in
     if numberofModes q \<ge> 2 then let
         ssum = signal_sum i ms; etw = (if ssum > 0 then 10 * log 10 (sqrt ssum) else tinyDB) in
       (etw + lv_Grw (pd_levels q) - 20 * log 10 (pi_frequency i) - 107.2,
        exchange_sort (<) (signal_indices i ms), exchange_sort (<) (interferer_indices i ms), q)
     else (lv_Pr (pd_levels q), exchange_sort (<) no_indices, exchange_sort (<) no_indices, q)
   else (lv_Pr (pd_levels p), exchange_sort (<) no_indices, exchange_sort (<) no_indices, p))"

section \<open>Equatorial scattering\<close>

text \<open>An index above the F2 array reaches the E modes, as in memory of the C program.\<close>

definition modeAt :: "pathData \<Rightarrow> nat \<Rightarrow> mode" where
  "modeAt p n = (if n < maxF2Mds then pd_Md_F2 p ! n else pd_Md_E p ! (n - maxF2Mds))"

definition signal_mode :: "pathData \<Rightarrow> nat \<Rightarrow> mode" where
  "signal_mode p n = (if n < maxEMds then pd_Md_E p ! n else modeAt p n)"

definition findFlambdad :: "controlPt \<Rightarrow> real" where
  "findFlambdad cp = (let lambdad = \<bar>cp_dip100 cp\<bar> in
     if 0 \<le> lambdad \<and> lambdad < 15 * d2r then 1
     else if 15 * d2r \<le> lambdad \<and> lambdad < 25 * d2r then ((25 - lambdad) / 10)\<^sup>2 * ((lambdad - 10) / 5)
     else 0)"

definition findFTl :: "controlPt \<Rightarrow> real" where
  "findFTl cp = (let tl = cp_ltime cp in
     if 0 < tl \<and> tl \<le> 3 then 1
     else if 3 < tl \<and> tl \<le> 7 then ((7 - tl) / 4)\<^sup>2 * ((tl - 1) / 2)
     else if 7 < tl \<and> tl \<le> 19 then 0
     else if 19 < tl \<and> tl \<le> 20 then (tl - 19)\<^sup>2 * (41 - 2 * tl)
     else if 20 < tl \<and> tl \<le> 24 then 1
     else 0)"

text \<open>The time spread of every signal mode and the two frequency spreads of the first.\<close>

definition time_spread :: "pathData \<Rightarrow> nat list \<Rightarrow> nat \<Rightarrow> real" where
  "time_spread p iS n = (if iS ! n \<noteq> notIndex then let m = signal_mode p (iS ! n) in
     0.056 * md_Ew m * exp (- ((pi_TW (pd_in p) - md_tau m)\<^sup>2) / (2 * 1\<^sup>2)) else dblMin)"

definition frequency_spread :: "pathData \<Rightarrow> real \<Rightarrow> real \<Rightarrow> real" where
  "frequency_spread p pm window = 0.056 * pm * exp (- ((window - pi_frequency (pd_in p) * 10 ^ 6)\<^sup>2) / (2 * 3\<^sup>2))"

definition scatters :: "pathData \<Rightarrow> real \<Rightarrow> (nat \<Rightarrow> real) \<Rightarrow> bool" where
  "scatters p pm spread \<longleftrightarrow> (\<exists>n\<in>set [0..<maxMds]. spread n \<noteq> dblMin \<and> pm - spread n \<ge> pi_A (pd_in p)) \<or>
     pm - frequency_spread p pm (pi_FW (pd_in p)) \<ge> pi_A (pd_in p) \<or> pm - frequency_spread p pm (- pi_FW (pd_in p)) \<ge> pi_A (pd_in p)"

text \<open>The first control point of an order whose spread is the largest of them all.\<close>

definition largest_spread :: "(nat \<Rightarrow> real) \<Rightarrow> nat list \<Rightarrow> nat option" where
  "largest_spread spread cps = find (\<lambda>a. \<forall>b\<in>set cps. spread a \<ge> spread b) cps"

definition scatter_point :: "pathData \<Rightarrow> (nat \<Rightarrow> real) \<Rightarrow> nat \<Rightarrow> nat option" where
  "scatter_point p spread n =
     (if n \<noteq> notIndex \<and> n \<ge> maxEMds then
        if n = pd_n0_F2 p then
          (if pd_distance p \<le> pd_dmax p then Some mp else if spread td02 \<ge> spread rd02 then Some td02 else Some rd02)
        else if pd_distance p \<le> pd_dmax p then largest_spread spread [t1k, r1k, mp]
        else largest_spread spread [t1k, r1k, mp, td02, rd02]
      else None)"

definition scatter_season :: "path_input \<Rightarrow> real" where
  "scatter_season i = (0.1 + 0.008 * of_int (cMax (pi_SSN i) 160)) * (0.55 + 0.45 * sin (60 * d2r * ((of_int (pi_month i) + 1) - 1.5)))"

definition scatter_probability :: "pathData \<Rightarrow> (nat \<Rightarrow> real) \<Rightarrow> nat \<Rightarrow> real" where
  "scatter_probability p spread n = (case scatter_point p spread n of None \<Rightarrow> 0
   | Some k \<Rightarrow> findFlambdad (pd_CP p ! k) * findFTl (pd_CP p ! k) * scatter_season (pd_in p))"

definition equatorialScattering :: "pathData \<Rightarrow> nat list \<Rightarrow> pathData" where
  "equatorialScattering p iS = (if pd_distance p \<le> 9000 \<and> iS ! 0 \<noteq> notIndex then let
       spread = time_spread p iS; pm = md_Ew (signal_mode p (iS ! 0)); re = pd_rel p in
     if scatters p pm spread then let
         biggest = fold (\<lambda>n b. if scatter_probability p spread (iS ! n) > b then scatter_probability p spread (iS ! n) else b) [0..<maxMds] 0 in
       p\<lparr>pd_rel := re\<lparr>re_probocc := biggest, re_OCRs := re_BCR re * re_MIR re * (100 - biggest) / 10000\<rparr>\<rparr>
     else p\<lparr>pd_rel := re\<lparr>re_OCRs := re_BCR re * re_MIR re / 100\<rparr>\<rparr>
   else p)"

section \<open>Basic circuit reliability\<close>

definition noise_power :: "noise \<Rightarrow> real" where
  "noise_power n = 10 powr (no_FaA n / 10) + 10 powr (no_FaM n / 10) + 10 powr (no_FaG n / 10)"

definition noise_power_lower :: "noise \<Rightarrow> real" where
  "noise_power_lower n = 10 powr ((no_FaA n - no_DlA n) / 10) + 10 powr ((no_FaM n - no_DlM n) / 10) + 10 powr ((no_FaG n - no_DlG n) / 10)"

definition noise_power_upper :: "noise \<Rightarrow> real" where
  "noise_power_upper n = 10 powr ((no_FaA n + no_DuA n) / 10) + 10 powr ((no_FaM n + no_DuM n) / 10) + 10 powr ((no_FaG n + no_DuG n) / 10)"

definition gt60deg :: "pathData \<Rightarrow> nat" where
  "gt60deg p = (if pd_distance p > 2000 \<and> (\<exists>k\<in>{mp, t1k, r1k}. l_lat (geomagneticCoords (cp_L (pd_CP p ! k))) \<ge> 60 * d2r) then 1 else 0)"

definition bmuf_index :: "real \<Rightarrow> nat" where
  "bmuf_index r = (if 0.8 \<ge> r then 0 else if r \<le> 1 then 1 else if r \<le> 1.2 then 2 else if r \<le> 1.4 then 3 else if r \<le> 1.6 then 4
     else if r \<le> 1.8 then 5 else if r \<le> 2 then 6 else if r \<le> 3 then 7 else if r \<le> 4 then 8 else 9)"

definition table2LD :: "real list list" where
  "table2LD = [[8, 12, 13, 10, 8, 8, 8, 7, 6, 5], [11, 16, 17, 13, 11, 11, 11, 9, 8, 7]]"
definition table2UD :: "real list list" where
  "table2UD = [[6, 8, 12, 13, 12, 9, 9, 8, 7, 7], [9, 11, 12, 13, 12, 9, 9, 8, 7, 7]]"

definition duSh :: real where "duSh = 5"
definition dlSh :: real where "dlSh = 8"

text \<open>Steps 3 to 11: the median SNR of the signal s, its deciles and the basic circuit reliability.\<close>

definition signal_to_noise :: "real \<Rightarrow> pathData \<Rightarrow> pathData" where
  "signal_to_noise s p = (let
       n = pd_noise p; i = pd_in p; k = bmuf_index (pi_frequency i / mu_BMUF (pd_mufs p));
       snr = s - 10 * log 10 (noise_power n) - 10 * log 10 (pi_BW i) + 204;
       dev_up = sqrt ((10 * log 10 (noise_power n / noise_power_lower n))\<^sup>2 + (table2UD ! gt60deg p ! k)\<^sup>2 + duSh\<^sup>2);
       dev_low = sqrt ((10 * log 10 (noise_power_upper n / noise_power n))\<^sup>2 + (table2LD ! gt60deg p ! k)\<^sup>2 + dlSh\<^sup>2) in
     p\<lparr>pd_rel := (pd_rel p)\<lparr>re_SNR := snr, re_DuSN := dev_up, re_DlSN := dev_low, re_BCR := achieved snr (pi_SNRr i) dev_up dev_low\<rparr>\<rparr>)"

text \<open>The approximate reliability of digital modulation from the time spread tm and the frequency spread.\<close>

definition spread_time :: "pathData \<Rightarrow> real" where
  "spread_time p = (let d = pd_distance p; r = 1 - (pi_frequency (pd_in p) / mu_BMUF (pd_mufs p))\<^sup>2 in
     if d \<le> 2000 then cMin (2.5 * 10 ^ 7 * r * d powr (- 2)) (7 - 0.00175 * d) else cMin (4.27 / 10 ^ 2 * r * d powr 0.65) 3.5)"

definition digital_spread :: "pathData \<Rightarrow> pathData" where
  "digital_spread p = (let i = pd_in p; re = pd_rel p; tm = spread_time p; fm = 0.02 * pi_frequency i * tm in
     if pi_Modulation i = digital \<and> pi_T0 i \<noteq> 0 \<and> pi_F0 i \<noteq> 0 then
       p\<lparr>pd_rel := re\<lparr>re_RSN := achieved (re_SNR re) (pi_SNRr i) (re_DuSN re) (re_DlSN re),
          re_RT := spread_kept tm (pi_T0 i) (0.15 * tm) (0.15 * tm), re_RF := spread_kept fm (pi_F0 i) (0.1 * fm) (0.1 * fm)\<rparr>\<rparr>
     else p)"

section \<open>Overall circuit reliability\<close>

definition interference :: "pathData \<Rightarrow> nat list \<Rightarrow> real \<Rightarrow> real" where
  "interference p iI decile = fold (\<lambda>n sm. if iI ! n \<noteq> notIndex then let
        m = (if iI ! n < maxEMds then pd_Md_E p ! (iI ! n) else pd_Md_F2 p ! (iI ! n - 3)) in
      sm + 10 powr ((md_Prw m - pi_A (pd_in p) + decile) / 10) else sm) [0..<maxMds] 0"

text \<open>None when there is no interference: the routine ends there.\<close>

definition overall_reliability :: "real \<Rightarrow> nat list \<Rightarrow> nat list \<Rightarrow> pathData \<Rightarrow> pathData \<times> bool" where
  "overall_reliability s iS iI p = (let
       isum = interference p iI 0; isumu = interference p iI 5; isuml = interference p iI (- 8); re = pd_rel p; i = pd_in p in
     if isum = 0 then (p\<lparr>pd_rel := re\<lparr>re_DuSI := duSh, re_DlSI := dlSh, re_MIR := 0, re_OCR := re_BCR re * 0 / 100\<rparr>\<rparr>, True)
     else let
       sir = s - 10 * log 10 isum;
       dev_up = sqrt (duSh\<^sup>2 + (10 * log 10 (isum / isuml))\<^sup>2); dev_low = sqrt (dlSh\<^sup>2 + (10 * log 10 (isumu / isum))\<^sup>2);
       mir = achieved sir (pi_SIRr i) dev_up dev_low in
     (equatorialScattering (p\<lparr>pd_rel := re\<lparr>re_SIR := sir, re_DuSI := dev_up, re_DlSI := dev_low, re_MIR := mir,
        re_OCR := re_BCR re * mir / 100\<rparr>\<rparr>) iS, False))"

definition snr_percentile :: "pathData \<Rightarrow> pathData" where
  "snr_percentile p = (let re = pd_rel p; x = pi_SNRXXp (pd_in p) in
     p\<lparr>pd_rel := re\<lparr>re_SNRXX := (if x < 50 then re_SNR re + re_DuSN re * normTable ! nat (50 - x) / normTable ! 40
        else re_SNR re - re_DlSN re * normTable ! nat (x - 50) / normTable ! 40)\<rparr>\<rparr>)"

definition circuitReliability :: "pathData \<Rightarrow> pathData" where
  "circuitReliability p = (case (if pi_Modulation (pd_in p) = analog then (lv_Pr (pd_levels p), [], [], p)
       else digitalModulationSignalandInterferers p) of
     (s, iS, iI, p1) \<Rightarrow> let p2 = digital_spread (signal_to_noise s p1) in
       if pi_Modulation (pd_in p2) = digital \<and> pd_distance p2 \<le> 9000 then
         (case overall_reliability s iS iI p2 of (p3, early) \<Rightarrow> if early then p3 else snr_percentile p3)
       else snr_percentile p2)"

end
