(* ===== verification/Hf_Predict.thy ===== *)
theory Hf_Predict
  imports Hf_Files Hf_Reliability
begin

text \<open>
  The request and the prediction: validation (request.go, validate_path.go), antenna patterns (antenna_pattern.go),
  the engine (p533_run.go), the points of the result (result.go) and Predict with its cache of monthly data (hf.go).
  The path data is reused for every hour and frequency of a request, as in the code.
\<close>

section \<open>Requests\<close>

definition NoiseCity :: real where "NoiseCity = 0"
definition NoiseResidential :: real where "NoiseResidential = 1"
definition NoiseRural :: real where "NoiseRural = 2"
definition NoiseQuietRural :: real where "NoiseQuietRural = 3"
definition NoiseNoisy :: real where "NoiseNoisy = 4"
definition NoiseQuiet :: real where "NoiseQuiet = 5"

definition ParseNoiseEnvironment :: "string \<Rightarrow> real option" where
  "ParseNoiseEnvironment name = (let s = upper (trim_space name) in
     if s = ''CITY'' then Some NoiseCity else if s = ''RESIDENTIAL'' then Some NoiseResidential
     else if s = ''RURAL'' then Some NoiseRural else if s = ''QUIETRURAL'' then Some NoiseQuietRural
     else if s = ''NOISY'' then Some NoiseNoisy else if s = ''QUIET'' then Some NoiseQuiet else None)"

record digitalParams =
  dp_RequiredSIR :: real
  dp_F0 :: real
  dp_T0 :: real
  dp_A :: real
  dp_TW :: real
  dp_FW :: real

record antenna_request =
  ar_File :: string
  ar_Data :: string
  ar_GainOffset :: real
  ar_Bearing :: "real option"
  ar_Pattern :: "(real \<Rightarrow> real \<Rightarrow> f64) option"

record hf_request =
  rq_TxLat :: real
  rq_TxLng :: real
  rq_RxLat :: real
  rq_RxLng :: real
  rq_Year :: int
  rq_Month :: int
  rq_Hours :: "int list"
  rq_SSN :: int
  rq_Frequencies :: "real list"
  rq_TxPower :: real
  rq_Bandwidth :: real
  rq_RequiredSNR :: real
  rq_SNRXXPercent :: int
  rq_ManMadeNoise :: real
  rq_Modulation :: int
  rq_Digital :: digitalParams
  rq_TxAntenna :: antenna_request
  rq_RxAntenna :: antenna_request
  rq_LongPath :: bool

text \<open>The first error of a list of checks.\<close>

definition first_error :: "(bool \<times> hf_error) list \<Rightarrow> hf_error option" where
  "first_error cs = map_option snd (find fst cs)"

definition antenna_error :: "antenna_request \<Rightarrow> hf_error option" where
  "antenna_error a = first_error
     [(ar_GainOffset a < tinyDB \<or> ar_GainOffset a > 60, ErrGainOffset),
      ((case ar_Bearing a of None \<Rightarrow> False | Some b \<Rightarrow> b < 0 \<or> b > 360), ErrBearing)]"

definition validate :: "hf_request \<Rightarrow> hf_error option" where
  "validate r = (case first_error
       [(rq_Hours r = [], ErrNoHours),
        ((\<exists>h\<in>set (rq_Hours r). h < 1 \<or> h > 24), ErrHour),
        (rq_Frequencies r = [], ErrNoFrequencies),
        ((\<exists>f\<in>set (rq_Frequencies r). \<not> (1 \<le> f \<and> f \<le> 30)), ErrFrequency),
        (rq_Month r < 1 \<or> rq_Month r > 12, ErrMonth)] of
     Some e \<Rightarrow> Some e
   | None \<Rightarrow> (case antenna_error (rq_TxAntenna r) of Some e \<Rightarrow> Some e | None \<Rightarrow> antenna_error (rq_RxAntenna r)))"

section \<open>Antennas\<close>

text \<open>The pattern of a gain function, with the main lobe at the bearing; an error at the first gain that is not finite.\<close>

definition not_finite :: "f64 \<Rightarrow> bool" where "not_finite x \<longleftrightarrow> is_nan x \<or> is_inf x"

definition pattern_offset :: "nat \<Rightarrow> nat \<Rightarrow> nat" where
  "pattern_offset mbos az = (az + antAzimuths - mbos mod antAzimuths) mod antAzimuths"

definition functionPattern :: "(real \<Rightarrow> real \<Rightarrow> f64) \<Rightarrow> real \<Rightarrow> hf_error + hf_antenna" where
  "functionPattern gain bearing = (let mbos = nat (trunc (bearing * r2d)) in
     case find (\<lambda>(off, el). not_finite (gain (real off) (real el))) (List.product [0..<antAzimuths] [0..<antElevations]) of
       Some (off, el) \<Rightarrow> Inl (HfError (''hf: antenna pattern gain is not finite at '' @ nat_text off @ '' degrees, elevation '' @ nat_text el))
     | None \<Rightarrow> Inr \<lparr>ha_name = ''PATTERN'', ha_freqn = 1, ha_freqs = [0], ha_pattern = Some
         [map (\<lambda>az. map (\<lambda>el. real_of_f64 (gain (real (pattern_offset mbos az)) (real el))) [0..<antElevations]) [0..<antAzimuths]]\<rparr>)"

definition antennaPattern :: "(string \<Rightarrow> string + string) \<Rightarrow> antenna_request \<Rightarrow> real \<Rightarrow> hf_error + hf_antenna" where
  "antennaPattern open_file a bearing = (case ar_Pattern a of
     Some gain \<Rightarrow> functionPattern gain bearing
   | None \<Rightarrow> if ar_File a = [] \<and> ar_Data a = [] then Inr (isotropicPattern (ar_GainOffset a))
       else if ar_Data a \<noteq> [] then parseAntenna (ar_Data a) bearing
       else readAntennaFile open_file (ar_File a) bearing)"

section \<open>A new path\<close>

definition zero_mode :: mode where
  "zero_mode = \<lparr>md_BMUF = 0, md_MUF90 = 0, md_MUF50 = 0, md_MUF10 = 0, md_OPMUF = 0, md_OPMUF10 = 0, md_OPMUF90 = 0,
     md_Fprob = 0, md_deltal = 0, md_deltau = 0, md_hr = 0, md_fs = 0, md_Lb = 0, md_Ew = 0, md_ele = 0,
     md_Prw = 0, md_Grw = 0, md_tau = 0, md_MC = 0\<rparr>"

definition zero_noise :: "real \<Rightarrow> noise" where
  "zero_noise m = \<lparr>no_Hour = 0, no_Lng = 0, no_Lat = 0, no_Frequency = 0, no_ManMadeNoise = m, no_FaA = 0, no_DuA = 0, no_DlA = 0,
     no_FaM = 0, no_DuM = 0, no_DlM = 0, no_FaG = 0, no_DuG = 0, no_DlG = 0, no_DuT = 0, no_DlT = 0, no_FamT = 0\<rparr>"

definition zero_path :: "path_input \<Rightarrow> real \<Rightarrow> pathData" where
  "zero_path i m = \<lparr>pd_in = i, pd_season = 0, pd_distance = 0, pd_ptick = 0, pd_dmax = 0, pd_B = 0, pd_ele = 0,
     pd_mufs = \<lparr>mu_BMUF = 0, mu_MUF50 = 0, mu_MUF90 = 0, mu_MUF10 = 0, mu_OPMUF = 0, mu_OPMUF90 = 0, mu_OPMUF10 = 0\<rparr>,
     pd_n0_F2 = 0, pd_n0_E = 0,
     pd_levels = \<lparr>lv_Es = 0, lv_El = 0, lv_Ei = 0, lv_Ep = 0, lv_Pr = 0, lv_Lz = 0, lv_Grw = 0, lv_EIRP = 0\<rparr>,
     pd_far = \<lparr>fa_E0 = 0, fa_Gap = 0, fa_Ly = 0, fa_fM = 0, fa_fL = 0, fa_F = 0, fa_fH = 0, fa_Gtl = 0, fa_K = (0, 0)\<rparr>,
     pd_rel = \<lparr>re_SNR = 0, re_DuSN = 0, re_DlSN = 0, re_SNRXX = 0, re_SIR = 0, re_DuSI = 0, re_DlSI = 0, re_RSN = 0, re_RT = 0, re_RF = 0,
       re_BCR = 0, re_OCR = 0, re_OCRs = 0, re_MIR = 0, re_probocc = 0\<rparr>,
     pd_CP = replicate 5 zero_point, pd_longCP = None, pd_Md_F2 = replicate maxF2Mds zero_mode, pd_Md_E = replicate maxEMds zero_mode,
     pd_DM = None, pd_DMidx = 0, pd_noise = zero_noise m\<rparr>"

definition no_antenna :: hf_antenna where
  "no_antenna = \<lparr>ha_name = [], ha_freqn = 0, ha_freqs = [], ha_pattern = None\<rparr>"

definition path_of :: "hf_request \<Rightarrow> path_input" where
  "path_of r = (let d = rq_Digital r in
     \<lparr>pi_year = rq_Year r, pi_month = rq_Month r - 1, pi_hour = 0, pi_SSN = rq_SSN r, pi_Modulation = rq_Modulation r,
      pi_SorL = (if rq_LongPath r then longPath else shortPath), pi_frequency = 0, pi_BW = rq_Bandwidth r, pi_txpower = rq_TxPower r,
      pi_SNRXXp = rq_SNRXXPercent r, pi_SNRr = rq_RequiredSNR r, pi_SIRr = dp_RequiredSIR d, pi_F0 = dp_F0 d, pi_T0 = dp_T0 d,
      pi_A = dp_A d, pi_TW = dp_TW d, pi_FW = dp_FW d,
      pi_tx = \<lparr>l_lat = rq_TxLat r * d2r, l_lng = rq_TxLng r * d2r\<rparr>, pi_rx = \<lparr>l_lat = rq_RxLat r * d2r, l_lng = rq_RxLng r * d2r\<rparr>,
      pi_Atx = no_antenna, pi_Arx = no_antenna, pi_foF2 = None, pi_M3kF2 = None, pi_foF2var = None, pi_coeff = None\<rparr>)"

definition main_beam :: "antenna_request \<Rightarrow> real \<Rightarrow> real" where
  "main_beam a towards = (case ar_Bearing a of None \<Rightarrow> towards | Some b \<Rightarrow> b * d2r)"

definition wrapped :: "string \<Rightarrow> hf_error + 'a \<Rightarrow> hf_error + 'a" where
  "wrapped context r = (case r of Inl (HfError e) \<Rightarrow> Inl (HfError (context @ '': '' @ e)) | Inr v \<Rightarrow> Inr v)"

definition newPath :: "(string \<Rightarrow> string + string) \<Rightarrow> hf_request \<Rightarrow> hf_error + pathData" where
  "newPath open_file r = (let
       i = path_of r;
       tb = main_beam (rq_TxAntenna r) (hf_bearing (pi_tx i) (pi_rx i) (pi_SorL i));
       rb = main_beam (rq_RxAntenna r) (hf_bearing (pi_rx i) (pi_tx i) (pi_SorL i)) in
     if tb > 2 * c_pi \<or> tb < 0 \<or> rb > 2 * c_pi \<or> rb < 0 then Inl ErrBearing
     else (case wrapped ''receive antenna'' (antennaPattern open_file (rq_RxAntenna r) rb) of Inl e \<Rightarrow> Inl e
       | Inr rx \<Rightarrow> (case wrapped ''transmit antenna'' (antennaPattern open_file (rq_TxAntenna r) tb) of Inl e \<Rightarrow> Inl e
         | Inr tx \<Rightarrow> Inr (zero_path (i\<lparr>pi_Arx := rx, pi_Atx := tx\<rparr>) (rq_ManMadeNoise r)))))"

section \<open>One calculation\<close>

definition outside :: "real \<Rightarrow> real \<Rightarrow> real \<Rightarrow> bool" where
  "outside low high x \<longleftrightarrow> low > x \<or> x > high"

definition off_globe :: "location \<Rightarrow> bool" where
  "off_globe l \<longleftrightarrow> \<bar>l_lat l\<bar> > c_pi / 2 \<or> \<bar>l_lng l\<bar> > c_pi"

definition validatePath :: "pathData \<Rightarrow> hf_error option" where
  "validatePath p = (let i = pd_in p in first_error
     [(pi_year i < 1900 \<or> pi_year i > 2100, ErrYear), (pi_month i < 0 \<or> pi_month i > 11, ErrMonth), (pi_hour i < 0 \<or> pi_hour i > 23, ErrHour),
      (pi_foF2 i = None, ErrNoFoF2Data), (pi_M3kF2 i = None, ErrNoM3kF2Data), (pi_coeff i = None, ErrNoDudData),
      (pi_foF2var i = None, ErrNoFoF2VarData), (1 > pi_SSN i \<or> pi_SSN i > 311, ErrSSN),
      (pi_Modulation i \<noteq> digital \<and> pi_Modulation i \<noteq> analog, ErrModulation), (outside 1 30 (pi_frequency i), ErrFrequency),
      (outside 0.005 (3 * 10 ^ 6) (pi_BW i), ErrBandwidth), (outside (- 30) 60 (pi_txpower i), ErrTxPower),
      (outside (- 30) 200 (pi_SNRr i), ErrSNRRequired), (outside (- 30) 200 (pi_SIRr i), ErrSIRRequired),
      (outside 0 1000 (pi_F0 i), ErrF0), (outside 0 1000 (pi_T0 i), ErrT0), (outside 0 1000 (pi_A i), ErrA), (outside 0 50 (pi_TW i), ErrTW),
      (outside 0 1000 (pi_FW i), ErrFW), (off_globe (pi_tx i), ErrTxLocation), (off_globe (pi_rx i), ErrRxLocation),
      (ha_pattern (pi_Arx i) = None, ErrRxAntennaPattern), (ha_pattern (pi_Atx i) = None, ErrTxAntennaPattern),
      (1 > pi_SNRXXp i \<or> pi_SNRXXp i > 99, ErrSNRXXp)])"

definition part1 :: "pathData \<Rightarrow> pathData" where
  "part1 p = eLayerScreeningFrequency (mufOperational (mufVariability (mufBasic p)))"

definition part2 :: "pathData \<Rightarrow> pathData" where
  "part2 p = medianAvailableReceiverPower (between7000kmand9000km (medianSkywaveFieldStrengthLong (medianSkywaveFieldStrengthShort p)))"

definition at_receiver :: "pathData \<Rightarrow> noise" where
  "at_receiver p = (let i = pd_in p in (pd_noise p)\<lparr>no_Hour := pi_hour i, no_Lng := l_lng (pi_rx i), no_Lat := l_lat (pi_rx i), no_Frequency := pi_frequency i\<rparr>)"

text \<open>The engine leaves the path changed even when it fails.\<close>

definition calculate :: "pathData \<Rightarrow> pathData \<times> hf_error option" where
  "calculate p = (case validatePath p of Some e \<Rightarrow> (p, Some e)
   | None \<Rightarrow> let q = part2 (part1 (initializePath p)); n = at_receiver q in
       (case noise_Compute n (pi_coeff (pd_in q)) of Inl e \<Rightarrow> (q\<lparr>pd_noise := n\<rparr>, Some e)
        | Inr m \<Rightarrow> (circuitReliability (q\<lparr>pd_noise := m\<rparr>), None)))"

section \<open>The result\<close>

record mode_report =
  mr_Name :: string
  mr_mode :: mode
  mr_Elevation :: real
  mr_Considered :: bool

text \<open>The report values of a mode under the names of the struct; only the elevation and the flag are converted.\<close>

definition modeResult :: "mode \<Rightarrow> string \<Rightarrow> mode_report" where
  "modeResult m name = \<lparr>mr_Name = name, mr_mode = m, mr_Elevation = md_ele m * r2d, mr_Considered = (md_MC m \<noteq> 0)\<rparr>"

record hf_dominant =
  dm_Elevation :: real
  dm_Delay :: real
  dm_Loss :: real
  dm_Fprob :: real
  dm_Height :: real
  dm_Power :: real
  dm_RxGain :: real
  dm_FieldStr :: real
  dm_BMUF :: real

record hf_point =
  pt_Month :: int
  pt_Hour :: int
  pt_Frequency :: real
  pt_Distance :: real
  pt_Dmax :: real
  pt_SlantRange :: real
  pt_Elevation :: real
  pt_mufs :: path_mufs
  pt_LowestF2Hop :: nat
  pt_LowestEHop :: nat
  pt_levels :: path_levels
  pt_noise :: noise
  pt_rel :: path_reliability
  pt_far :: path_far
  pt_Dominant :: string
  pt_Dom :: hf_dominant
  pt_Modes :: "mode_report list"

definition no_dominant :: hf_dominant where
  "no_dominant = \<lparr>dm_Elevation = 0, dm_Delay = 0, dm_Loss = 0, dm_Fprob = 0, dm_Height = 0, dm_Power = 0, dm_RxGain = 0, dm_FieldStr = 0, dm_BMUF = 0\<rparr>"

definition dominant_values :: "mode \<Rightarrow> hf_dominant" where
  "dominant_values m = \<lparr>dm_Elevation = md_ele m * r2d, dm_Delay = md_tau m, dm_Loss = md_Lb m, dm_Fprob = md_Fprob m, dm_Height = md_hr m,
     dm_Power = md_Prw m, dm_RxGain = md_Grw m, dm_FieldStr = md_Ew m, dm_BMUF = md_BMUF m\<rparr>"

definition dominant_name :: "nat \<Rightarrow> string" where
  "dominant_name k = (if k < maxEMds then nat_text (k + 1) @ ''E'' else if k \<le> maxMds then nat_text (k - 2) @ ''F2'' else ''NONE'')"

definition mode_results :: "mode list \<Rightarrow> string \<Rightarrow> mode_report list" where
  "mode_results ms layer = map (\<lambda>n. modeResult (ms ! n) (nat_text (n + 1) @ layer)) (filter (\<lambda>n. md_BMUF (ms ! n) \<noteq> 0) [0..<length ms])"

definition newPoint :: "pathData \<Rightarrow> hf_point" where
  "newPoint p = (let i = pd_in p in
     \<lparr>pt_Month = pi_month i + 1, pt_Hour = pi_hour i + 1, pt_Frequency = pi_frequency i, pt_Distance = pd_distance p, pt_Dmax = pd_dmax p,
      pt_SlantRange = pd_ptick p, pt_Elevation = pd_ele p * r2d, pt_mufs = pd_mufs p,
      pt_LowestF2Hop = (if pd_n0_F2 p \<noteq> noLowestMode then pd_n0_F2 p + 1 else 0),
      pt_LowestEHop = (if pd_n0_E p \<noteq> noLowestMode then pd_n0_E p + 1 else 0),
      pt_levels = (pd_levels p)\<lparr>lv_Lz := 0, lv_EIRP := 0\<rparr>, pt_noise = pd_noise p, pt_rel = pd_rel p, pt_far = pd_far p,
      pt_Dominant = dominant_name (pd_DMidx p),
      pt_Dom = (case pd_DM p of Some r \<Rightarrow> if pd_DMidx p \<le> maxMds then dominant_values (mode_of p r) else no_dominant | None \<Rightarrow> no_dominant),
      pt_Modes = mode_results (pd_Md_E p) ''E'' @ mode_results (pd_Md_F2 p) ''F2''\<rparr>)"

section \<open>Monthly data\<close>

record monthData =
  mo_foF2 :: ionMap
  mo_m3k :: ionMap
  mo_coeff :: coefficients

text \<open>The files of the two directories and what was loaded so far; a month is loaded whole or not at all.\<close>

record hf_files =
  hd_bytes :: "string \<Rightarrow> string + 8 word list"
  hd_lines :: "string \<Rightarrow> string + string list"
  hd_text :: "string \<Rightarrow> string + string"
  hd_stat :: "string \<Rightarrow> string option"

record hf_data =
  hd_p533 :: string
  hd_p372 :: string
  hd_foF2var :: decileFactors
  hd_months :: "int \<rightharpoonup> monthData"

definition Open :: "hf_files \<Rightarrow> string \<Rightarrow> string \<Rightarrow> hf_error + hf_data" where
  "Open fs p533 p372 = (case readP1239 (hd_lines fs) p533 of Inl e \<Rightarrow> Inl e
   | Inr f \<Rightarrow> Inr \<lparr>hd_p533 = p533, hd_p372 = (if p372 = [] then p533 else p372), hd_foF2var = f, hd_months = (\<lambda>_. None)\<rparr>)"

definition data_files :: "hf_data \<Rightarrow> string list" where
  "data_files d = (hd_p533 d @ ''/P1239-3 Decile Factors.txt'') #
     concat (map (\<lambda>m. [hd_p533 d @ ''/ionos'' @ two_digits m @ ''.bin'', hd_p372 d @ ''/COEFF'' @ two_digits m @ ''W.txt'']) [1..<13])"

definition Ready :: "hf_files \<Rightarrow> hf_data \<Rightarrow> string option" where
  "Ready fs d = fold (\<lambda>f r. case r of Some e \<Rightarrow> Some e | None \<Rightarrow> hd_stat fs f) (data_files d) None"

definition load_month :: "hf_files \<Rightarrow> hf_data \<Rightarrow> int \<Rightarrow> hf_error + monthData" where
  "load_month fs d m = (case readIonParametersBin (hd_bytes fs) (hd_p533 d) m of Inl e \<Rightarrow> Inl e
   | Inr (foF2, m3k) \<Rightarrow> (case LoadCoefficients (hd_lines fs) (hd_p372 d) m of Inl e \<Rightarrow> Inl e
     | Inr c \<Rightarrow> Inr \<lparr>mo_foF2 = foF2, mo_m3k = m3k, mo_coeff = c\<rparr>))"

definition month :: "hf_files \<Rightarrow> int \<Rightarrow> hf_data \<Rightarrow> hf_data \<times> (hf_error + monthData)" where
  "month fs m d = (case hd_months d m of Some md \<Rightarrow> (d, Inr md)
   | None \<Rightarrow> (case load_month fs d m of Inl e \<Rightarrow> (d, Inl e) | Inr md \<Rightarrow> (d\<lparr>hd_months := (hd_months d)(m \<mapsto> md)\<rparr>, Inr md)))"

section \<open>Prediction\<close>

definition with_data :: "monthData \<Rightarrow> decileFactors \<Rightarrow> pathData \<Rightarrow> pathData" where
  "with_data md f p = p\<lparr>pd_in := (pd_in p)\<lparr>pi_foF2 := Some (mo_foF2 md), pi_M3kF2 := Some (mo_m3k md), pi_coeff := Some (mo_coeff md), pi_foF2var := Some f\<rparr>\<rparr>"

definition at_run :: "int \<Rightarrow> real \<Rightarrow> pathData \<Rightarrow> pathData" where
  "at_run h f p = p\<lparr>pd_in := (pd_in p)\<lparr>pi_hour := h - 1, pi_frequency := f\<rparr>\<rparr>"

text \<open>The runs one after the other on the same path; the first error ends them.\<close>

fun run_all :: "(int \<times> real) list \<Rightarrow> pathData \<Rightarrow> hf_error + hf_point list" where
  "run_all [] p = Inr []"
| "run_all ((h, f) # runs) p = (case calculate (at_run h f p) of
     (_, Some e) \<Rightarrow> Inl e
   | (q, None) \<Rightarrow> (case run_all runs q of Inl e \<Rightarrow> Inl e | Inr pts \<Rightarrow> Inr (newPoint q # pts)))"

definition runs_of :: "hf_request \<Rightarrow> (int \<times> real) list" where
  "runs_of r = List.product (rq_Hours r) (rq_Frequencies r)"

definition Predict :: "hf_files \<Rightarrow> hf_request \<Rightarrow> hf_data \<Rightarrow> hf_data \<times> (hf_error + hf_point list)" where
  "Predict fs r d = (case validate r of Some e \<Rightarrow> (d, Inl e)
   | None \<Rightarrow> (case month fs (rq_Month r - 1) d of
       (d1, Inl e) \<Rightarrow> (d1, wrapped (''hf: month '' @ int_text (rq_Month r)) (Inl e))
     | (d1, Inr md) \<Rightarrow> (d1, case newPath (hd_text fs) r of Inl e \<Rightarrow> Inl e
         | Inr p \<Rightarrow> run_all (runs_of r) (with_data md (hd_foF2var d1) p))))"

end
