(* ===== verification/Hf_Facts.thy ===== *)
theory Hf_Facts
  imports Hf_Predict
begin

text \<open>
  What a calculation leaves behind in the path it reuses. A step is steady when it does not read what an earlier run
  left (the table of the long model, the constant loss, the place of the noise); the frame of a path is what no step
  changes.
\<close>

definition forget_run :: "pathData \<Rightarrow> pathData" where
  "forget_run p = p\<lparr>pd_longCP := None, pd_levels := (pd_levels p)\<lparr>lv_Lz := 0\<rparr>,
     pd_noise := (pd_noise p)\<lparr>no_Hour := 0, no_Lng := 0, no_Lat := 0, no_Frequency := 0\<rparr>\<rparr>"

definition steady :: "(pathData \<Rightarrow> pathData) \<Rightarrow> bool" where
  "steady f \<longleftrightarrow> (\<forall>p. forget_run (f (forget_run p)) = forget_run (f p))"

lemma steadyI: "(\<And>p. forget_run (f (forget_run p)) = forget_run (f p)) \<Longrightarrow> steady f"
  by (simp add: steady_def)

lemma steadyD: "steady f \<Longrightarrow> forget_run (f (forget_run p)) = forget_run (f p)"
  by (simp add: steady_def)

lemma steady_cong: "steady f \<Longrightarrow> forget_run p = forget_run q \<Longrightarrow> forget_run (f p) = forget_run (f q)"
  by (metis steadyD)

lemma steady_comp: "steady f \<Longrightarrow> steady g \<Longrightarrow> steady (\<lambda>p. g (f p))"
  by (rule steadyI) (rule steady_cong [THEN trans, OF _ steadyD refl], assumption+)

lemma steady_id: "steady (\<lambda>p. p)"
  by (simp add: steady_def forget_run_def)

lemma steady_if:
  "(\<And>p. b (forget_run p) = b p) \<Longrightarrow> steady f \<Longrightarrow> steady g \<Longrightarrow> steady (\<lambda>p. if b p then f p else g p)"
  by (simp add: steady_def)

lemma steady_fold:
  assumes "\<And>x. steady (f x)"
  shows "steady (fold f xs)"
proof (induction xs)
  case Nil
  then show ?case by (simp add: steady_def forget_run_def)
next
  case (Cons x xs)
  then show ?case using steady_comp [OF assms [of x] Cons.IH] by (simp add: o_def)
qed

text \<open>The fields a steady step may read.\<close>

lemma forget_run_simps [simp]:
  "pd_in (forget_run p) = pd_in p" "pd_season (forget_run p) = pd_season p" "pd_distance (forget_run p) = pd_distance p"
  "pd_ptick (forget_run p) = pd_ptick p" "pd_dmax (forget_run p) = pd_dmax p" "pd_B (forget_run p) = pd_B p" "pd_ele (forget_run p) = pd_ele p"
  "pd_mufs (forget_run p) = pd_mufs p" "pd_n0_F2 (forget_run p) = pd_n0_F2 p" "pd_n0_E (forget_run p) = pd_n0_E p"
  "lv_Es (pd_levels (forget_run p)) = lv_Es (pd_levels p)" "lv_El (pd_levels (forget_run p)) = lv_El (pd_levels p)"
  "lv_Ei (pd_levels (forget_run p)) = lv_Ei (pd_levels p)" "lv_Ep (pd_levels (forget_run p)) = lv_Ep (pd_levels p)"
  "lv_Pr (pd_levels (forget_run p)) = lv_Pr (pd_levels p)" "lv_Grw (pd_levels (forget_run p)) = lv_Grw (pd_levels p)"
  "pd_far (forget_run p) = pd_far p" "pd_rel (forget_run p) = pd_rel p" "pd_CP (forget_run p) = pd_CP p"
  "pd_Md_F2 (forget_run p) = pd_Md_F2 p" "pd_Md_E (forget_run p) = pd_Md_E p" "pd_DM (forget_run p) = pd_DM p" "pd_DMidx (forget_run p) = pd_DMidx p"
  by (simp_all add: forget_run_def)

text \<open>An update that does not depend on what was forgotten.\<close>

lemma forget_update [simp]:
  "(forget_run p)\<lparr>pd_mufs := a\<rparr> = forget_run (p\<lparr>pd_mufs := a\<rparr>)" "(forget_run p)\<lparr>pd_n0_F2 := n\<rparr> = forget_run (p\<lparr>pd_n0_F2 := n\<rparr>)"
  "(forget_run p)\<lparr>pd_n0_E := n\<rparr> = forget_run (p\<lparr>pd_n0_E := n\<rparr>)" "(forget_run p)\<lparr>pd_dmax := x\<rparr> = forget_run (p\<lparr>pd_dmax := x\<rparr>)"
  "(forget_run p)\<lparr>pd_ptick := x\<rparr> = forget_run (p\<lparr>pd_ptick := x\<rparr>)" "(forget_run p)\<lparr>pd_ele := x\<rparr> = forget_run (p\<lparr>pd_ele := x\<rparr>)"
  "(forget_run p)\<lparr>pd_far := fa\<rparr> = forget_run (p\<lparr>pd_far := fa\<rparr>)" "(forget_run p)\<lparr>pd_rel := re\<rparr> = forget_run (p\<lparr>pd_rel := re\<rparr>)"
  "(forget_run p)\<lparr>pd_CP := cps\<rparr> = forget_run (p\<lparr>pd_CP := cps\<rparr>)" "(forget_run p)\<lparr>pd_Md_F2 := ms\<rparr> = forget_run (p\<lparr>pd_Md_F2 := ms\<rparr>)"
  "(forget_run p)\<lparr>pd_Md_E := ms\<rparr> = forget_run (p\<lparr>pd_Md_E := ms\<rparr>)" "(forget_run p)\<lparr>pd_DM := d\<rparr> = forget_run (p\<lparr>pd_DM := d\<rparr>)"
  "(forget_run p)\<lparr>pd_DMidx := k\<rparr> = forget_run (p\<lparr>pd_DMidx := k\<rparr>)" "forget_run (p\<lparr>pd_longCP := t\<rparr>) = forget_run p"
  "forget_run (forget_run p) = forget_run p"
  by (simp_all add: forget_run_def)

lemma forget_levels [simp]:
  "forget_run ((forget_run p)\<lparr>pd_levels := (pd_levels (forget_run p))\<lparr>lv_Es := x\<rparr>\<rparr>) = forget_run (p\<lparr>pd_levels := (pd_levels p)\<lparr>lv_Es := x\<rparr>\<rparr>)"
  "forget_run ((forget_run p)\<lparr>pd_levels := (pd_levels (forget_run p))\<lparr>lv_El := x\<rparr>\<rparr>) = forget_run (p\<lparr>pd_levels := (pd_levels p)\<lparr>lv_El := x\<rparr>\<rparr>)"
  "forget_run ((forget_run p)\<lparr>pd_levels := (pd_levels (forget_run p))\<lparr>lv_Ei := x\<rparr>\<rparr>) = forget_run (p\<lparr>pd_levels := (pd_levels p)\<lparr>lv_Ei := x\<rparr>\<rparr>)"
  by (simp_all add: forget_run_def)

section \<open>The steps are steady\<close>

lemma forget_muf [simp]: "findfoF2var (forget_run p) = findfoF2var p"
  "e_bmuf (forget_run p) = e_bmuf p" "screening_height (forget_run p) = screening_height p"
  by (simp_all only: fun_eq_iff findfoF2var_def e_bmuf_def screening_height_def forget_run_simps simp_thms)

lemma steady_set_bmuf [simp]: "set_bmuf x (forget_run p) = forget_run (set_bmuf x p)"
  by (simp add: set_bmuf_def)

lemma steady_set_point [simp]: "set_point n f (forget_run p) = forget_run (set_point n f p)"
  by (simp add: set_point_def)

lemma steady_mufBasic: "steady mufBasic"
proof (rule steadyI)
  fix p
  have lowest: "muf_lowest n (forget_run p) = forget_run (muf_lowest n p)" for n p
    by (simp add: muf_lowest_def Let_def)
  have higher: "muf_higher n (forget_run p) = forget_run (muf_higher n p)" for n p
    by (simp add: muf_higher_def Let_def cong: if_cong)
  have f2: "muf_F2 (forget_run p) = forget_run (muf_F2 p)" for p
    unfolding muf_F2_def Let_def by (simp add: lowest higher split: option.split)
  have e: "muf_E (forget_run p) = forget_run (muf_E p)" for p
    by (simp add: muf_E_def Let_def split: option.split)
  have path: "muf_path (forget_run p) = forget_run (muf_path p)" for p
    by (simp add: muf_path_def Let_def)
  show "forget_run (mufBasic (forget_run p)) = forget_run (mufBasic p)"
    by (simp add: mufBasic_def f2 e path)
qed

lemma steady_mufVariability: "steady mufVariability"
  by (rule steadyI) (simp add: mufVariability_def Let_def)

lemma steady_mufOperational: "steady mufOperational"
  by (rule steadyI) (simp add: mufOperational_def Let_def)

lemma steady_screening: "steady eLayerScreeningFrequency"
  by (rule steadyI) (simp add: eLayerScreeningFrequency_def Let_def)

lemma forget_short [simp]: "mode_strength (forget_run p) = mode_strength p" "e_points (forget_run p) = e_points p" "f2_points (forget_run p) = f2_points p"
  "e_considered (forget_run p) = e_considered p" "f2_considered (forget_run p) = f2_considered p" "f2_height (forget_run p) = f2_height p"
  by (simp_all only: fun_eq_iff mode_strength_def e_points_def f2_points_def e_considered_def f2_considered_def f2_height_def
      forget_run_simps simp_thms)

lemma forget_modes [simp]: "e_modes (forget_run p) = e_modes p" "f2_modes (forget_run p) = f2_modes p" "power_sum g (forget_run p) = power_sum g p"
  "considered (forget_run p) = considered p"
  by (simp_all add: e_modes_def f2_modes_def power_sum_def considered_def)

lemma steady_e_mode: "steady (e_mode n)"
  by (rule steadyI) (simp add: e_mode_def Let_def, simp add: forget_run_def)

lemma steady_f2_mode: "steady (f2_mode hr n)"
  by (rule steadyI) (simp add: f2_mode_def Let_def, simp add: forget_run_def)

lemma steady_short: "steady medianSkywaveFieldStrengthShort"
proof (rule steadyI)
  fix p
  have e: "forget_run (short_E (forget_run p)) = forget_run (short_E p)"
    using steadyD [OF steady_fold [of e_mode, OF steady_e_mode]] by (simp add: short_E_def)
  have f: "forget_run (short_F2 hr (forget_run q)) = forget_run (short_F2 hr q)" for q hr
    using steadyD [OF steady_fold [of "f2_mode hr", OF steady_f2_mode]] by (simp add: short_F2_def)
  have s: "forget_run (short_sum (forget_run q)) = forget_run (short_sum q)" for q
    by (simp add: short_sum_def Let_def) (simp add: forget_run_def)
  have "forget_run (short_sum (short_F2 hr (short_E (forget_run p)))) = forget_run (short_sum (short_F2 hr (short_E p)))" for hr
    by (metis e f s)
  then show "forget_run (medianSkywaveFieldStrengthShort (forget_run p)) = forget_run (medianSkywaveFieldStrengthShort p)"
    by (simp add: medianSkywaveFieldStrengthShort_def)
qed

lemma steady_between: "steady between7000kmand9000km"
proof -
  have m: "muf_4000 (forget_run p) = muf_4000 p" for p by (simp add: muf_4000_def fun_eq_iff)
  have i: "forget_run ((forget_run p)\<lparr>pd_levels := (pd_levels (forget_run p))\<lparr>lv_Ei := x\<rparr>\<rparr>) = forget_run (p\<lparr>pd_levels := (pd_levels p)\<lparr>lv_Ei := x\<rparr>\<rparr>)" for p x
    by (rule forget_levels)
  show ?thesis
    by (rule steadyI) (simp add: between7000kmand9000km_def m, metis i steady_set_bmuf)
qed

lemma forget_mode_of [simp]: "mode_of (forget_run p) r = mode_of p r"
  by (simp add: mode_of_def split: mode_ref.split)

lemma forget_set_mode [simp]: "set_mode r m (forget_run p) = forget_run (set_mode r m p)"
  by (simp add: set_mode_def split: mode_ref.split)

lemma steady_set_Pr: "steady (\<lambda>p. set_Pr pr (ep p) p)" if "\<And>p. ep (forget_run p) = ep p"
  using that by (simp add: steady_def set_Pr_def) (simp add: forget_run_def)

lemma steady_receive_long: "steady (\<lambda>p. receive_long (e p) p)" if "\<And>p. e (forget_run p) = e p"
proof (rule steadyI)
  fix p
  show "forget_run (receive_long (e (forget_run p)) (forget_run p)) = forget_run (receive_long (e p) p)"
    by (cases "antennaGain08 (pd_in p) (pi_Arx (pd_in p)) rxToTx (2 * c_pi)") (simp add: receive_long_def that, simp add: forget_run_def)
qed

lemma steady_dominantMode: "steady dominantMode"
  by (rule steadyI) (simp add: dominantMode_def split: option.split, simp add: forget_run_def)

lemma receive_mode_forget:
  "receive_mode r (a, b, forget_run p) = (case receive_mode r (a, b, p) of (x, y, q) \<Rightarrow> (x, y, forget_run q))"
  by (simp add: receive_mode_def Let_def)

lemma receive_modes_forget:
  "fold receive_mode rs (a, b, forget_run p) = (case fold receive_mode rs (a, b, p) of (x, y, q) \<Rightarrow> (x, y, forget_run q))"
proof (induction rs arbitrary: a b p)
  case (Cons r rs)
  then show ?case by (cases "receive_mode r (a, b, p)") (simp add: receive_mode_forget)
qed simp

lemma steady_power: "steady medianAvailableReceiverPower"
proof (rule steadyI)
  fix p
  obtain x y q where m: "fold receive_mode (considered p) (tinyDB, 0, p) = (x, y, q)" by (cases "fold receive_mode (considered p) (tinyDB, 0, p)")
  have s: "forget_run (set_Pr a (lv_Es (pd_levels q)) (forget_run q)) = forget_run (set_Pr a (lv_Es (pd_levels q)) q)" for a q
    by (simp add: set_Pr_def) (simp add: forget_run_def)
  have "forget_run (dominantMode (set_Pr a (lv_Es (pd_levels q)) (forget_run q))) = forget_run (dominantMode (set_Pr a (lv_Es (pd_levels q)) q))" for a
    by (rule steady_cong [OF steady_dominantMode s])
  moreover have "forget_run (receive_long (lv_Ei (pd_levels p)) (forget_run p)) = forget_run (receive_long (lv_Ei (pd_levels p)) p)"
    "forget_run (receive_long (lv_El (pd_levels p)) (forget_run p)) = forget_run (receive_long (lv_El (pd_levels p)) p)"
    using steadyD [OF steady_receive_long [of "\<lambda>p. lv_Ei (pd_levels p)"]] steadyD [OF steady_receive_long [of "\<lambda>p. lv_El (pd_levels p)"]] by simp_all
  ultimately show "forget_run (medianAvailableReceiverPower (forget_run p)) = forget_run (medianAvailableReceiverPower p)"
    by (simp add: medianAvailableReceiverPower_def receive_modes_forget m s)
qed

section \<open>The long model and its table\<close>

definition table_ok :: "pathData \<Rightarrow> bool" where
  "table_ok p \<longleftrightarrow> pd_longCP p = None \<or> pd_longCP p = Some (long_table (pd_in p) (pd_distance p))"

definition long_rest :: "controlPt list list \<Rightarrow> pathData \<Rightarrow> pathData" where
  "long_rest cp p = (let d = pd_distance p; s = long_setup cp p in
     long_points cp (long_field (findfL cp (nL d) (pd_ptick s) (fa_fH (pd_far s)) (incidenceAngle (elevationAngle (d / (real (nL d) + 1)) 300) 90)
       (findMUFsandfM cp (d / (real (nM d) + 1)) s))))"

lemma medianLong_rest:
  assumes "table_ok p"
  shows "forget_run (medianSkywaveFieldStrengthLong p) = (if pd_distance p \<ge> 7000
     then forget_run (long_rest (long_table (pd_in p) (pd_distance p)) (use_table p)) else forget_run p)"
proof -
  have "the (pd_longCP (use_table p)) = long_table (pd_in p) (pd_distance p)"
    using assms by (auto simp: table_ok_def use_table_def)
  moreover have "pd_distance (use_table p) = pd_distance p" by (simp add: use_table_def split: option.split)
  ultimately show ?thesis by (simp add: medianSkywaveFieldStrengthLong_def long_rest_def Let_def)
qed

lemma forget_use_table: "forget_run (use_table p) = forget_run p"
  by (simp add: use_table_def forget_run_def split: option.split)

lemma steady_long_rest: "steady (long_rest cp)"
proof (rule steadyI)
  fix p
  have s: "long_setup cp (forget_run p) = forget_run (long_setup cp p)" for p by (simp add: long_setup_def Let_def)
  have w: "azimuth_weight (forget_run p) = azimuth_weight p" for p by (simp add: azimuth_weight_def Let_def)
  have m: "findMUFsandfM cp x (forget_run p) = forget_run (findMUFsandfM cp x p)" for x p
    by (simp add: findMUFsandfM_def Let_def w)
  have l: "findfL cp n a b c (forget_run p) = forget_run (findfL cp n a b c p)" for n a b c p
    by (simp add: findfL_def Let_def)
  have f: "forget_run (long_field (forget_run q)) = forget_run (long_field q)" for q
    by (simp add: long_field_def Let_def) (simp add: forget_run_def)
  have e: "long_points cp (forget_run q) = forget_run (long_points cp q)" for q
    by (simp add: long_points_def Let_def)
  have g: "forget_run (long_points cp (long_field (forget_run q))) = forget_run (long_points cp (long_field q))" for q
    by (metis e f)
  show "forget_run (long_rest cp (forget_run p)) = forget_run (long_rest cp p)"
    by (simp add: long_rest_def Let_def s m l g)
qed

lemma long_forget:
  assumes "table_ok p" "table_ok q" "forget_run p = forget_run q"
  shows "forget_run (medianSkywaveFieldStrengthLong p) = forget_run (medianSkywaveFieldStrengthLong q)"
proof -
  have i: "pd_in p = pd_in q" "pd_distance p = pd_distance q" by (metis assms(3) forget_run_simps(1)) (metis assms(3) forget_run_simps(3))
  have u: "forget_run (use_table p) = forget_run (use_table q)" by (simp add: forget_use_table assms(3))
  have "forget_run (long_rest t (use_table p)) = forget_run (long_rest t (use_table q))" for t
    by (rule steady_cong [OF steady_long_rest u])
  then show ?thesis by (simp add: medianLong_rest assms i)
qed

section \<open>Reliability\<close>

lemma forget_noise [simp]: "noise_power (pd_noise (forget_run p)) = noise_power (pd_noise p)"
  "noise_power_lower (pd_noise (forget_run p)) = noise_power_lower (pd_noise p)" "noise_power_upper (pd_noise (forget_run p)) = noise_power_upper (pd_noise p)"
  "gt60deg (forget_run p) = gt60deg p"
  by (simp_all add: noise_power_def noise_power_lower_def noise_power_upper_def gt60deg_def forget_run_def)

lemma forget_reliability [simp]: "all_modes (forget_run p) = all_modes p" "numberofModes (forget_run p) = numberofModes p"
  "set_delays (forget_run p) = forget_run (set_delays p)" "signal_mode (forget_run p) n = signal_mode p n"
  "spread_time (forget_run p) = spread_time p" "interference (forget_run p) iI x = interference p iI x"
  by (simp_all add: all_modes_def numberofModes_def set_delays_def Let_def signal_mode_def modeAt_def spread_time_def interference_def cong: if_cong)

lemma forget_scattering [simp]: "time_spread (forget_run p) iS n = time_spread p iS n" "scatters (forget_run p) pm s = scatters p pm s"
  "scatter_probability (forget_run p) s n = scatter_probability p s n"
  by (simp_all add: time_spread_def scatters_def frequency_spread_def scatter_probability_def scatter_point_def Let_def cong: option.case_cong)

lemma equatorial_forget [simp]: "equatorialScattering (forget_run p) iS = forget_run (equatorialScattering p iS)"
proof -
  have "time_spread (forget_run p) iS = time_spread p iS" by (rule ext) simp
  then show ?thesis
    by (simp only: equatorialScattering_def Let_def forget_run_simps forget_scattering forget_reliability forget_update if_distrib [of forget_run])
qed

lemma steady_reliability: "circuitReliability (forget_run p) = forget_run (circuitReliability p)"
proof -
  have d: "digitalModulationSignalandInterferers (forget_run p) = (case digitalModulationSignalandInterferers p of (s, iS, iI, q) \<Rightarrow> (s, iS, iI, forget_run q))" for p
    by (simp add: digitalModulationSignalandInterferers_def Let_def)
  have n: "signal_to_noise s (forget_run p) = forget_run (signal_to_noise s p)" for s p by (simp add: signal_to_noise_def Let_def)
  have g: "digital_spread (forget_run p) = forget_run (digital_spread p)" for p by (simp add: digital_spread_def Let_def)
  have o: "overall_reliability s iS iI (forget_run p) = (case overall_reliability s iS iI p of (q, b) \<Rightarrow> (forget_run q, b))" for s iS iI p
    by (simp add: overall_reliability_def Let_def)
  have x: "snr_percentile (forget_run p) = forget_run (snr_percentile p)" for p by (simp add: snr_percentile_def Let_def)
  show ?thesis
  proof (cases "pi_Modulation (pd_in p) = analog")
    case True
    then show ?thesis by (simp add: circuitReliability_def Let_def n g o x split: prod.splits)
  next
    case False
    obtain s iS iI q where q: "digitalModulationSignalandInterferers p = (s, iS, iI, q)" by (cases "digitalModulationSignalandInterferers p")
    show ?thesis using False by (simp add: circuitReliability_def Let_def d q n g o x split: prod.splits)
  qed
qed

section \<open>What a run keeps\<close>

definition frame :: "pathData \<Rightarrow> path_input \<times> real \<times> noise \<times> nat \<times> nat \<times> nat" where
  "frame p = (pd_in p, pd_distance p, pd_noise p, length (pd_CP p), length (pd_Md_F2 p), length (pd_Md_E p))"

lemma frame_in: "frame p = frame q \<Longrightarrow> pd_in p = pd_in q \<and> pd_distance p = pd_distance q \<and> pd_noise p = pd_noise q
    \<and> length (pd_CP p) = length (pd_CP q) \<and> length (pd_Md_F2 p) = length (pd_Md_F2 q) \<and> length (pd_Md_E p) = length (pd_Md_E q)"
  by (simp add: frame_def)

text \<open>The frame and the table.\<close>

definition keeps_frame :: "(pathData \<Rightarrow> pathData) \<Rightarrow> bool" where
  "keeps_frame f \<longleftrightarrow> (\<forall>p. frame (f p) = frame p \<and> pd_longCP (f p) = pd_longCP p)"

lemma keeps_frame_fold: "(\<And>x. keeps_frame (f x)) \<Longrightarrow> keeps_frame (fold f xs)"
  by (induction xs) (simp_all add: keeps_frame_def)

lemma keeps_frame_set [simp]: "frame (set_bmuf x p) = frame p" "frame (set_point n f p) = frame p" "frame (set_mode r m p) = frame p"
  "pd_longCP (set_bmuf x p) = pd_longCP p" "pd_longCP (set_point n f p) = pd_longCP p" "pd_longCP (set_mode r m p) = pd_longCP p"
  by (simp_all add: frame_def set_bmuf_def set_point_def set_mode_def split: mode_ref.split)

lemma frame_update [simp]:
  "frame (p\<lparr>pd_mufs := a\<rparr>) = frame p" "frame (p\<lparr>pd_n0_F2 := n\<rparr>) = frame p" "frame (p\<lparr>pd_n0_E := n\<rparr>) = frame p"
  "frame (p\<lparr>pd_dmax := x\<rparr>) = frame p" "frame (p\<lparr>pd_ptick := x\<rparr>) = frame p" "frame (p\<lparr>pd_ele := x\<rparr>) = frame p"
  "frame (p\<lparr>pd_far := fa\<rparr>) = frame p" "frame (p\<lparr>pd_rel := re\<rparr>) = frame p" "frame (p\<lparr>pd_levels := lv\<rparr>) = frame p"
  "frame (p\<lparr>pd_DM := d\<rparr>) = frame p" "frame (p\<lparr>pd_DMidx := k\<rparr>) = frame p" "frame (p\<lparr>pd_longCP := t\<rparr>) = frame p"
  "length ms = length (pd_Md_F2 p) \<Longrightarrow> frame (p\<lparr>pd_Md_F2 := ms\<rparr>) = frame p" "length ms = length (pd_Md_E p) \<Longrightarrow> frame (p\<lparr>pd_Md_E := ms\<rparr>) = frame p"
  by (simp_all add: frame_def)

lemma length_each_mode [simp]: "length (each_mode k f ms) = length ms"
  by (simp add: each_mode_def)

lemma length_mark_modes [simp]: "length (mark_modes ns ms) = length ms"
  unfolding mark_modes_def by (induction ns arbitrary: ms) simp_all

lemma frame_muf: "keeps_frame mufBasic" "keeps_frame mufVariability" "keeps_frame mufOperational" "keeps_frame eLayerScreeningFrequency"
proof -
  have l: "frame (muf_lowest n p) = frame p \<and> pd_longCP (muf_lowest n p) = pd_longCP p" for n p
    by (simp add: muf_lowest_def Let_def)
  have h: "frame (muf_higher n p) = frame p \<and> pd_longCP (muf_higher n p) = pd_longCP p" for n p
    by (simp add: muf_higher_def Let_def)
  have "frame (muf_F2 p) = frame p \<and> pd_longCP (muf_F2 p) = pd_longCP p" for p
    unfolding muf_F2_def Let_def by (simp add: l h split: option.split)
  moreover have "frame (muf_E p) = frame p \<and> pd_longCP (muf_E p) = pd_longCP p" for p
    by (simp add: muf_E_def Let_def split: option.split)
  moreover have "frame (muf_path p) = frame p \<and> pd_longCP (muf_path p) = pd_longCP p" for p
    by (simp add: muf_path_def Let_def)
  ultimately show "keeps_frame mufBasic" by (simp add: keeps_frame_def mufBasic_def)
  show "keeps_frame mufVariability" by (simp add: keeps_frame_def mufVariability_def Let_def)
  show "keeps_frame mufOperational" by (simp add: keeps_frame_def mufOperational_def Let_def)
  show "keeps_frame eLayerScreeningFrequency" by (simp add: keeps_frame_def eLayerScreeningFrequency_def Let_def)
qed

lemma frame_short: "keeps_frame medianSkywaveFieldStrengthShort" "keeps_frame between7000kmand9000km"
proof -
  have "keeps_frame (fold e_mode ns)" "keeps_frame (fold (f2_mode hr) ns)" for ns hr
    by (rule keeps_frame_fold, simp add: keeps_frame_def e_mode_def Let_def) (rule keeps_frame_fold, simp add: keeps_frame_def f2_mode_def Let_def)
  then show "keeps_frame medianSkywaveFieldStrengthShort"
    by (simp add: keeps_frame_def medianSkywaveFieldStrengthShort_def short_sum_def short_F2_def short_E_def Let_def)
  show "keeps_frame between7000kmand9000km" by (simp add: keeps_frame_def between7000kmand9000km_def)
qed

lemma receive_modes_frame:
  "fold receive_mode rs (a, b, p) = (x, y, q) \<Longrightarrow> frame q = frame p \<and> pd_longCP q = pd_longCP p"
proof (induction rs arbitrary: a b p)
  case (Cons r rs)
  obtain a1 b1 p1 where r: "receive_mode r (a, b, p) = (a1, b1, p1)" by (cases "receive_mode r (a, b, p)")
  have "frame p1 = frame p \<and> pd_longCP p1 = pd_longCP p" using r by (auto simp: receive_mode_def Let_def split: if_splits)
  then show ?case using Cons.IH [of a1 b1 p1] Cons.prems r by simp
qed simp

lemma frame_power: "keeps_frame medianAvailableReceiverPower"
proof -
  have d: "frame (dominantMode p) = frame p \<and> pd_longCP (dominantMode p) = pd_longCP p" for p
    by (simp add: dominantMode_def split: option.split)
  have s: "frame (set_Pr a b p) = frame p \<and> pd_longCP (set_Pr a b p) = pd_longCP p" for a b p by (simp add: set_Pr_def)
  have l: "frame (receive_long e p) = frame p \<and> pd_longCP (receive_long e p) = pd_longCP p" for e p
    by (simp add: receive_long_def split: prod.split)
  show ?thesis unfolding keeps_frame_def
  proof
    fix p
    obtain x y q where m: "fold receive_mode (considered p) (tinyDB, 0, p) = (x, y, q)" by (cases "fold receive_mode (considered p) (tinyDB, 0, p)")
    show "frame (medianAvailableReceiverPower p) = frame p \<and> pd_longCP (medianAvailableReceiverPower p) = pd_longCP p"
      using receive_modes_frame [OF m] by (simp add: medianAvailableReceiverPower_def m d s l)
  qed
qed

lemma frame_long: "frame (medianSkywaveFieldStrengthLong p) = frame p"
  "pd_longCP (medianSkywaveFieldStrengthLong p) = (if pd_distance p \<ge> 7000 then pd_longCP (use_table p) else pd_longCP p)"
proof -
  have s: "frame (long_setup cp p) = frame p \<and> pd_longCP (long_setup cp p) = pd_longCP p" for cp p by (simp add: long_setup_def Let_def)
  have m: "frame (findMUFsandfM cp x p) = frame p \<and> pd_longCP (findMUFsandfM cp x p) = pd_longCP p" for cp x p by (simp add: findMUFsandfM_def Let_def)
  have l: "frame (findfL cp n a b c p) = frame p \<and> pd_longCP (findfL cp n a b c p) = pd_longCP p" for cp n a b c p by (simp add: findfL_def Let_def)
  have f: "frame (long_field p) = frame p \<and> pd_longCP (long_field p) = pd_longCP p" for p by (simp add: long_field_def Let_def)
  have e: "frame (long_points cp p) = frame p \<and> pd_longCP (long_points cp p) = pd_longCP p" for cp p by (simp add: long_points_def Let_def)
  have u: "frame (use_table p) = frame p" by (simp add: use_table_def split: option.split)
  show "frame (medianSkywaveFieldStrengthLong p) = frame p" "pd_longCP (medianSkywaveFieldStrengthLong p) = (if pd_distance p \<ge> 7000 then pd_longCP (use_table p) else pd_longCP p)"
    by (simp_all add: medianSkywaveFieldStrengthLong_def Let_def s m l f e u)
qed

lemma frame_reliability: "frame (circuitReliability p) = frame p" "pd_longCP (circuitReliability p) = pd_longCP p"
proof -
  have c: "keeps_frame set_delays" "keeps_frame (signal_to_noise s)" "keeps_frame digital_spread" "keeps_frame snr_percentile" for s
    by (simp_all add: keeps_frame_def set_delays_def signal_to_noise_def digital_spread_def snr_percentile_def Let_def)
  have q: "frame (equatorialScattering p iS) = frame p \<and> pd_longCP (equatorialScattering p iS) = pd_longCP p" for p iS
    unfolding equatorialScattering_def Let_def by (simp only: frame_update simp_thms split: if_split) simp
  have o: "overall_reliability s iS iI p = (r, b) \<Longrightarrow> frame r = frame p \<and> pd_longCP r = pd_longCP p" for s iS iI p r b
    by (auto simp: overall_reliability_def Let_def q split: if_splits)
  have d: "digitalModulationSignalandInterferers p = (s, iS, iI, r) \<Longrightarrow> frame r = frame p \<and> pd_longCP r = pd_longCP p" for s iS iI r
    using c(1) by (auto simp: digitalModulationSignalandInterferers_def keeps_frame_def Let_def split: if_splits)
  obtain s iS iI r where r: "(if pi_Modulation (pd_in p) = analog then (lv_Pr (pd_levels p), [], [], p) else digitalModulationSignalandInterferers p) = (s, iS, iI, r)"
    by (metis prod_cases4)
  have rf: "frame r = frame p \<and> pd_longCP r = pd_longCP p" using r d by (auto split: if_splits)
  obtain t b where t: "overall_reliability s iS iI (digital_spread (signal_to_noise s r)) = (t, b)" by fastforce
  have tf: "frame t = frame p \<and> pd_longCP t = pd_longCP p" using o [OF t] c(2,3) rf by (simp add: keeps_frame_def)
  have "frame (circuitReliability p) = frame p \<and> pd_longCP (circuitReliability p) = pd_longCP p"
    unfolding circuitReliability_def r using c rf tf t by (simp add: keeps_frame_def Let_def)
  then show "frame (circuitReliability p) = frame p" "pd_longCP (circuitReliability p) = pd_longCP p" by blast+
qed

end
