(* ===== verification/Hf_Modes.thy ===== *)
theory Hf_Modes
  imports Hf_Facts "HOL-Library.Multiset"
begin

text \<open>
  The order of the modes and the dominant mode: the sort by exchange that the HF model uses for modes, indices and
  control points, and the mode that carries the received power.
\<close>

section \<open>Sorting by exchange\<close>

lemma length_exchange [simp]: "length (exchange before i j xs) = length xs"
  by (simp add: exchange_def)

lemma mset_exchange: "i < length xs \<Longrightarrow> j < length xs \<Longrightarrow> mset (exchange before i j xs) = mset xs"
  by (simp add: exchange_def mset_swap)

text \<open>The inner loop up to index k: its element is the largest of those passed, and those before i are in order.\<close>

definition passed :: "('a \<Rightarrow> 'b::linorder) \<Rightarrow> nat \<Rightarrow> nat \<Rightarrow> 'a list \<Rightarrow> bool" where
  "passed key i k xs \<longleftrightarrow> (\<forall>m<k. key (xs ! m) \<le> key (xs ! i)) \<and> (\<forall>m m'. m < m' \<and> m' < i \<longrightarrow> key (xs ! m) \<le> key (xs ! m'))"

lemma passed_step:
  assumes "passed key i k xs" "i < length xs" "k < length xs"
  shows "passed key i (Suc k) (exchange (\<lambda>a b. key a < key b) i k xs)"
proof (cases "key (xs ! i) < key (xs ! k)")
  case False
  then show ?thesis using assms by (auto simp: passed_def exchange_def less_Suc_eq)
next
  case True
  then have ne: "i \<noteq> k" by auto
  define ys where "ys = xs[i := xs ! k, k := xs ! i]"
  have e: "exchange (\<lambda>a b. key a < key b) i k xs = ys" using True by (simp add: exchange_def ys_def)
  have n: "ys ! m = (if m = k then xs ! i else if m = i then xs ! k else xs ! m)" if "m < length xs" for m
    using that assms ne by (auto simp: ys_def nth_list_update)
  have a: "key (ys ! m) \<le> key (ys ! i)" if "m < Suc k" for m
  proof (cases "m = k")
    case True
    then show ?thesis using n assms \<open>key (xs ! i) < key (xs ! k)\<close> ne by auto
  next
    case False
    then have "m < k" using that by simp
    then have "key (xs ! m) \<le> key (xs ! i)" "m < length xs" using assms by (auto simp: passed_def)
    then show ?thesis using n [of m] n [of i] True ne assms False by auto
  qed
  have b: "key (ys ! m) \<le> key (ys ! m')" if m: "m < m'" "m' < i" for m m'
  proof -
    have o: "key (xs ! m) \<le> key (xs ! m')" "m < length xs" "m' < length xs" "m \<noteq> i" "m' \<noteq> i" using assms m by (auto simp: passed_def)
    consider "m = k" | "m' = k" | "m \<noteq> k" "m' \<noteq> k" by blast
    then show ?thesis
    proof cases
      case 1
      then show ?thesis using n [of m] n [of m'] o True m by auto
    next
      case 2
      then have "key (xs ! m) \<le> key (xs ! i)" using assms m by (auto simp: passed_def)
      then show ?thesis using n [of m] n [of m'] o 2 m by auto
    next
      case 3
      then show ?thesis using n [of m] n [of m'] o by auto
    qed
  qed
  show ?thesis unfolding e passed_def using a b by blast
qed

lemma passed_loop:
  assumes "i < length xs" "passed key i 0 xs" "k \<le> length xs"
  shows "passed key i k (fold (\<lambda>j. exchange (\<lambda>a b. key a < key b) i j) [0..<k] xs) \<and>
    mset (fold (\<lambda>j. exchange (\<lambda>a b. key a < key b) i j) [0..<k] xs) = mset xs"
  using assms(3)
proof (induction k)
  case (Suc k)
  let ?ys = "fold (\<lambda>j. exchange (\<lambda>a b. key a < key b) i j) [0..<k] xs"
  have "passed key i k ?ys" "mset ?ys = mset xs" using Suc by simp_all
  moreover have "length ?ys = length xs" using \<open>mset ?ys = mset xs\<close> by (metis mset_eq_length)
  ultimately show ?case using passed_step [of key i k ?ys] assms(1) Suc.prems by (simp add: mset_exchange)
qed (use assms in simp)

text \<open>It sorts by any key, in ascending order for this comparison.\<close>

lemma exchange_sort_sorts:
  fixes key :: "'a \<Rightarrow> 'b::linorder"
  shows "sorted_wrt (\<lambda>a b. key a \<le> key b) (exchange_sort (\<lambda>a b. key a < key b) xs) \<and> mset (exchange_sort (\<lambda>a b. key a < key b) xs) = mset xs"
proof -
  let ?in = "\<lambda>i ys. fold (\<lambda>j zs. exchange (\<lambda>a b. key a < key b) i j zs) [0..<length xs] ys"
  have "mset (fold ?in [0..<n] xs) = mset xs \<and> (\<forall>m m'. m < m' \<and> m' < n \<longrightarrow> key (fold ?in [0..<n] xs ! m) \<le> key (fold ?in [0..<n] xs ! m'))"
    if "n \<le> length xs" for n
    using that
  proof (induction n)
    case (Suc n)
    let ?ys = "fold ?in [0..<n] xs"
    have ih: "mset ?ys = mset xs" "\<forall>m m'. m < m' \<and> m' < n \<longrightarrow> key (?ys ! m) \<le> key (?ys ! m')" using Suc by simp_all
    then have l: "length ?ys = length xs" by (metis mset_eq_length)
    have "passed key n (length xs) (?in n ?ys) \<and> mset (?in n ?ys) = mset ?ys"
      by (rule passed_loop) (use Suc.prems ih l in \<open>auto simp: passed_def\<close>)
    then have p: "passed key n (length xs) (?in n ?ys)" "mset (?in n ?ys) = mset xs" using ih by simp_all
    have "key (?in n ?ys ! m) \<le> key (?in n ?ys ! m')" if "m < m'" "m' < Suc n" for m m'
      using that p(1) Suc.prems by (cases "m' = n") (auto simp: passed_def)
    then show ?case using p(2) by simp
  qed simp
  from this [of "length xs"] have *: "mset (exchange_sort (\<lambda>a b. key a < key b) xs) = mset xs"
    "\<forall>m m'. m < m' \<and> m' < length xs \<longrightarrow> key (exchange_sort (\<lambda>a b. key a < key b) xs ! m) \<le> key (exchange_sort (\<lambda>a b. key a < key b) xs ! m')"
    by (simp_all add: exchange_sort_def)
  then show ?thesis by (simp add: sorted_wrt_iff_nth_less) (metis mset_eq_length)
qed

text \<open>Elements that compare with none stay where they are, at the end.\<close>

lemma exchange_append:
  assumes "\<And>a b. b \<in> set zs \<Longrightarrow> \<not> before a b \<and> \<not> before b a" "i < length ys + length zs" "j < length ys + length zs"
  shows "exchange before i j (ys @ zs) = (if i < length ys \<and> j < length ys then exchange before i j ys else ys) @ zs"
  using assms by (auto simp: exchange_def nth_append list_update_append)

lemma exchange_loop_append:
  assumes "\<And>a b. b \<in> set zs \<Longrightarrow> \<not> before a b \<and> \<not> before b a" "i < length ys + length zs" "k \<le> length ys + length zs"
  shows "fold (\<lambda>j. exchange before i j) [0..<k] (ys @ zs) = (if i < length ys then fold (\<lambda>j. exchange before i j) [0..<min k (length ys)] ys else ys) @ zs"
  using assms(3)
proof (induction k)
  case (Suc k)
  let ?f = "\<lambda>n. fold (\<lambda>j. exchange before i j) [0..<n] ys"
  have l: "length (fold (\<lambda>j. exchange before i j) js ys) = length ys" for js by (induction js arbitrary: ys) simp_all
  show ?case
  proof (cases "i < length ys \<and> k < length ys")
    case True
    then show ?thesis using Suc exchange_append [of zs before i "?f k" k] assms(1,2) l by simp
  next
    case False
    then show ?thesis using Suc exchange_append [of zs before i "?f (length ys)" k] exchange_append [of zs before i ys k] assms(1,2) l by (auto simp: min_def)
  qed
qed simp

lemma exchange_sort_append:
  assumes "\<And>a b. b \<in> set zs \<Longrightarrow> \<not> before a b \<and> \<not> before b a"
  shows "exchange_sort before (ys @ zs) = exchange_sort before ys @ zs"
proof -
  let ?n = "length ys + length zs"
  let ?in = "\<lambda>n i xs. fold (\<lambda>j zs. exchange before i j zs) [0..<n] xs"
  have l: "length (?in n i xs) = length xs" for n i xs
  proof -
    have "length (fold (\<lambda>j zs. exchange before i j zs) js xs) = length xs" for js by (induction js arbitrary: xs) simp_all
    then show ?thesis .
  qed
  have ll: "length (fold (?in n) is xs) = length xs" for n "is" xs by (induction "is" arbitrary: xs) (simp_all add: l)
  have "fold (?in ?n) [0..<k] (ys @ zs) = fold (?in (length ys)) [0..<min k (length ys)] ys @ zs" if "k \<le> ?n" for k
    using that
  proof (induction k)
    case (Suc k)
    let ?xs = "fold (?in (length ys)) [0..<min k (length ys)] ys"
    have "?in ?n k (?xs @ zs) = (if k < length ys then ?in (length ys) k ?xs else ?xs) @ zs"
      using exchange_loop_append [of zs before k ?xs ?n] assms Suc.prems ll by simp
    then show ?case using Suc by (cases "k < length ys") (simp_all add: min_def)
  qed simp
  from this [of ?n] show ?thesis by (simp add: exchange_sort_def)
qed

lemma exchange_cong:
  assumes "\<And>a b. a \<in> set xs \<Longrightarrow> b \<in> set xs \<Longrightarrow> before a b = before' a b" "i < length xs" "j < length xs"
  shows "exchange before i j xs = exchange before' i j xs"
  using assms by (simp add: exchange_def)

lemma exchange_sort_cong:
  assumes "\<And>a b. a \<in> set xs \<Longrightarrow> b \<in> set xs \<Longrightarrow> before a b = before' a b"
  shows "exchange_sort before xs = exchange_sort before' xs"
proof -
  have i: "fold (\<lambda>j. exchange before' i j) [0..<k] ys = fold (\<lambda>j. exchange before i j) [0..<k] ys \<and>
      mset (fold (\<lambda>j. exchange before i j) [0..<k] ys) = mset ys" if "mset ys = mset xs" "i < length xs" "k \<le> length xs" for i k ys
    using that(3)
  proof (induction k)
    case (Suc k)
    let ?ys = "fold (\<lambda>j. exchange before i j) [0..<k] ys"
    have "fold (\<lambda>j. exchange before' i j) [0..<k] ys = ?ys \<and> mset ?ys = mset ys" by (rule Suc.IH [OF Suc_leD [OF Suc.prems]])
    then have m: "mset ?ys = mset xs" "fold (\<lambda>j. exchange before' i j) [0..<k] ys = ?ys" using that(1) by (metis, metis)
    then have "set ?ys = set xs" "length ?ys = length xs" by (metis set_mset_mset, metis size_mset)
    then show ?case using m exchange_cong [of ?ys before before' i k] assms that Suc.prems by (simp add: mset_exchange)
  qed simp
  have "fold (\<lambda>i ys. fold (\<lambda>j zs. exchange before' i j zs) [0..<length xs] ys) [0..<k] xs = fold (\<lambda>i ys. fold (\<lambda>j zs. exchange before i j zs) [0..<length xs] ys) [0..<k] xs
      \<and> mset (fold (\<lambda>i ys. fold (\<lambda>j zs. exchange before i j zs) [0..<length xs] ys) [0..<k] xs) = mset xs" if "k \<le> length xs" for k
    using that
  proof (induction k)
    case (Suc k)
    let ?ys = "fold (\<lambda>i ys. fold (\<lambda>j zs. exchange before i j zs) [0..<length xs] ys) [0..<k] xs"
    have "mset ?ys = mset xs" "fold (\<lambda>i ys. fold (\<lambda>j zs. exchange before' i j zs) [0..<length xs] ys) [0..<k] xs = ?ys"
      using Suc.IH [OF Suc_leD [OF Suc.prems]] by (metis, metis)
    then show ?case using i [of ?ys k "length xs"] Suc.prems by simp
  qed simp
  from this [of "length xs"] show ?thesis by (simp add: exchange_sort_def)
qed

section \<open>The order of the modes\<close>

lemma existing_index: "n \<in> set (existing ms) \<Longrightarrow> n < maxMds \<and> n \<noteq> notIndex"
  by (auto simp: existing_def maxMds_def notIndex_def)

lemma modeSort_key:
  fixes key :: "nat \<Rightarrow> real"
  assumes "\<And>a b. a \<in> set (existing ms) \<Longrightarrow> b \<in> set (existing ms) \<Longrightarrow> before a b \<longleftrightarrow> key a < key b"
    and "\<And>a. \<not> before a notIndex \<and> \<not> before notIndex a"
  shows "\<exists>ns. exchange_sort before (padded (existing ms)) = padded ns \<and> mset ns = mset (existing ms) \<and> sorted_wrt (\<lambda>a b. key a \<le> key b) ns"
proof -
  let ?ns = "exchange_sort (\<lambda>a b. key a < key b) (existing ms)"
  have s: "sorted_wrt (\<lambda>a b. key a \<le> key b) ?ns" "mset ?ns = mset (existing ms)" using exchange_sort_sorts [of key "existing ms"] by simp_all
  have "exchange_sort before (padded (existing ms)) = exchange_sort before (existing ms) @ replicate (maxMds - length (existing ms)) notIndex"
    unfolding padded_def by (rule exchange_sort_append) (use assms(2) in auto)
  also have "exchange_sort before (existing ms) = ?ns" by (rule exchange_sort_cong) (rule assms(1))
  finally show ?thesis using s by (intro exI [of _ ?ns]) (simp add: padded_def mset_eq_length [OF s(2)])
qed

text \<open>The surprising double loop of modeSort does sort: its result lists exactly the modes that exist, each once,
  followed by the mark for no mode; by field strength with the strongest first, and by delay with the earliest first.\<close>

theorem modeSort_orders:
  "(\<exists>ns. modeSort_dominant ms = padded ns \<and> mset ns = mset (existing ms) \<and> sorted_wrt (\<lambda>a b. md_Ew (ms ! a) \<ge> md_Ew (ms ! b)) ns) \<and>
   (\<exists>ns. modeSort_soonest ms = padded ns \<and> mset ns = mset (existing ms) \<and> sorted_wrt (\<lambda>a b. md_tau (ms ! a) \<le> md_tau (ms ! b)) ns)"
proof
  show "\<exists>ns. modeSort_dominant ms = padded ns \<and> mset ns = mset (existing ms) \<and> sorted_wrt (\<lambda>a b. md_Ew (ms ! a) \<ge> md_Ew (ms ! b)) ns"
    using modeSort_key [of ms "\<lambda>a b. a \<noteq> notIndex \<and> b \<noteq> notIndex \<and> md_Ew (ms ! a) > md_Ew (ms ! b)" "\<lambda>n. - md_Ew (ms ! n)"] existing_index [of _ ms]
    by (simp add: modeSort_dominant_def)
  have "md_BMUF (ms ! n) \<noteq> 0" if "n \<in> set (existing ms)" for n using that by (simp add: existing_def)
  then show "\<exists>ns. modeSort_soonest ms = padded ns \<and> mset ns = mset (existing ms) \<and> sorted_wrt (\<lambda>a b. md_tau (ms ! a) \<le> md_tau (ms ! b)) ns"
    using modeSort_key [of ms "\<lambda>a b. a \<noteq> notIndex \<and> b \<noteq> notIndex \<and> md_BMUF (ms ! a) \<noteq> 0 \<and> md_tau (ms ! a) < md_tau (ms ! b)" "\<lambda>n. md_tau (ms ! n)"]
      existing_index [of _ ms] by (simp add: modeSort_soonest_def)
qed

section \<open>The smallest critical frequency\<close>

lemma last_nonzero:
  assumes "\<exists>n\<in>set xs. n \<noteq> 0"
  shows "\<exists>as k bs. xs = as @ k # bs \<and> k \<noteq> 0 \<and> set bs \<subseteq> {0::nat} \<and> fold (\<lambda>n best. if n \<noteq> 0 then n else best) xs d = k"
  using assms
proof (induction xs rule: rev_induct)
  case (snoc x xs)
  show ?case
  proof (cases "x = 0")
    case True
    then have "\<exists>n\<in>set xs. n \<noteq> 0" using snoc.prems by simp
    from snoc.IH [OF this] obtain as k bs where
      "xs = as @ k # bs" "k \<noteq> 0" "set bs \<subseteq> {0}" "fold (\<lambda>n best. if n \<noteq> 0 then n else best) xs d = k" by blast
    then show ?thesis using True by (intro exI [of _ as] exI [of _ k] exI [of _ "bs @ [x]"]) simp
  next
    case False
    then show ?thesis by (intro exI [of _ xs] exI [of _ x] exI [of _ "[]"]) simp
  qed
qed simp

text \<open>The control point used for the height of the F2 modes beyond dmax is the one of the smallest critical frequency
  among the points 1 to 4, never point 0 (1000 km from the transmitter), however small its frequency is.\<close>

theorem smallestCPfoF2_skips_first:
  "smallestCPfoF2 cps \<in> {1..4} \<and> (\<forall>j\<in>{1..4}. cp_foF2 (cps ! smallestCPfoF2 cps) \<le> cp_foF2 (cps ! j))"
proof -
  let ?key = "\<lambda>n. - cp_foF2 (cps ! n)"
  define idx where "idx = exchange_sort (\<lambda>a b. ?key a < ?key b) [0..<5]"
  have s: "sorted_wrt (\<lambda>a b. ?key a \<le> ?key b) idx" "mset idx = mset [0..<5]"
    using exchange_sort_sorts [of ?key "[0..<5]"] by (simp_all add: idx_def)
  then have st: "set idx = {0..<5}" by (metis set_mset_mset set_upt)
  have f: "smallestCPfoF2 cps = fold (\<lambda>n best. if n \<noteq> 0 then n else best) idx 0" by (simp add: smallestCPfoF2_def idx_def)
  have "\<exists>n\<in>set idx. n \<noteq> 0" unfolding st by (intro bexI [of _ 1]) simp_all
  then obtain as k bs where k: "idx = as @ k # bs" "k \<noteq> 0" "set bs \<subseteq> {0}" "smallestCPfoF2 cps = k"
    using last_nonzero [of idx 0] f by metis
  have "k \<in> set idx" by (simp add: k(1))
  then have "k \<in> {1..4}" using k(2) unfolding st by auto
  moreover have "cp_foF2 (cps ! k) \<le> cp_foF2 (cps ! j)" if "j \<in> {1..4}" for j
  proof (cases "j = k")
    case False
    have "j \<in> set idx" using that unfolding st by auto
    then have "j \<in> set as" using k(1,3) that False by auto
    then show ?thesis using s(1) unfolding k(1) by (auto simp: sorted_wrt_append)
  qed simp
  ultimately show ?thesis by (simp add: k(4))
qed

section \<open>The dominant mode\<close>

definition in_range :: "pathData \<Rightarrow> mode_ref \<Rightarrow> bool" where
  "in_range p r \<longleftrightarrow> (case r of EMode n \<Rightarrow> n < length (pd_Md_E p) | F2Mode n \<Rightarrow> n < length (pd_Md_F2 p))"

definition received_power :: "pathData \<Rightarrow> mode_ref \<Rightarrow> real" where
  "received_power p r = md_Prw (received (pd_in p) (mode_of p r))"

lemma mode_of_set_mode: "in_range p r \<Longrightarrow> mode_of (set_mode r m p) s = (if s = r then m else mode_of p s)"
  by (auto simp: in_range_def mode_of_def set_mode_def split: mode_ref.splits)

lemma set_mode_fields [simp]: "pd_in (set_mode r m p) = pd_in p" "in_range (set_mode r m p) s = in_range p s" "pd_DM (set_mode r m p) = pd_DM p"
  "pd_levels (set_mode r m p) = pd_levels p" "pd_distance (set_mode r m p) = pd_distance p"
  by (auto simp: set_mode_def in_range_def split: mode_ref.splits)

lemma receive_modes:
  assumes "fold receive_mode rs (a, b, p) = (x, y, q)" "distinct rs" "\<forall>r\<in>set rs. in_range p r"
  shows "(\<forall>r. mode_of q r = (if r \<in> set rs then received (pd_in p) (mode_of p r) else mode_of p r)) \<and> pd_in q = pd_in p
    \<and> y = b + (\<Sum>r\<leftarrow>rs. 10 powr (received_power p r / 10)) \<and> a \<le> x \<and> (\<forall>r\<in>set rs. received_power p r \<le> x)
    \<and> ((x = a \<and> pd_DM q = pd_DM p \<and> pd_DMidx q = pd_DMidx p) \<or> (\<exists>s\<in>set rs. x = received_power p s \<and> a < x \<and> pd_DM q = Some s \<and> pd_DMidx q = mode_index s))"
  using assms
proof (induction rs arbitrary: a b p)
  case (Cons r rs)
  let ?m = "received (pd_in p) (mode_of p r)"
  define p1 where "p1 = (if a < md_Prw ?m then (set_mode r ?m p)\<lparr>pd_DM := Some r, pd_DMidx := mode_index r\<rparr> else set_mode r ?m p)"
  have st: "receive_mode r (a, b, p) = (max a (md_Prw ?m), b + 10 powr (md_Prw ?m / 10), p1)"
    by (simp add: receive_mode_def Let_def p1_def)
  have upd: "mode_of (t\<lparr>pd_DM := d, pd_DMidx := k\<rparr>) s = mode_of t s" "in_range (t\<lparr>pd_DM := d, pd_DMidx := k\<rparr>) s = in_range t s" for t d k s
    by (simp_all add: mode_of_def in_range_def split: mode_ref.split)
  have i: "pd_in p1 = pd_in p" "\<And>s. in_range p1 s = in_range p s" by (simp_all add: p1_def upd)
  have m: "mode_of p1 s = (if s = r then ?m else mode_of p s)" for s using Cons.prems(3) by (simp add: p1_def upd mode_of_set_mode)
  have pw: "received_power p1 s = received_power p s" if "s \<in> set rs" for s
  proof -
    have "s \<noteq> r" using that Cons.prems(2) by auto
    then show ?thesis by (simp add: received_power_def i m)
  qed
  have sm: "(\<Sum>s\<leftarrow>rs. 10 powr (received_power p1 s / 10)) = (\<Sum>s\<leftarrow>rs. 10 powr (received_power p s / 10))"
    using pw by (intro arg_cong [of _ _ sum_list] map_cong) simp_all
  have ih: "(\<forall>s. mode_of q s = (if s \<in> set rs then received (pd_in p1) (mode_of p1 s) else mode_of p1 s)) \<and> pd_in q = pd_in p1
    \<and> y = b + 10 powr (md_Prw ?m / 10) + (\<Sum>s\<leftarrow>rs. 10 powr (received_power p1 s / 10)) \<and> max a (md_Prw ?m) \<le> x \<and> (\<forall>s\<in>set rs. received_power p1 s \<le> x)
    \<and> ((x = max a (md_Prw ?m) \<and> pd_DM q = pd_DM p1 \<and> pd_DMidx q = pd_DMidx p1) \<or> (\<exists>s\<in>set rs. x = received_power p1 s \<and> max a (md_Prw ?m) < x \<and> pd_DM q = Some s \<and> pd_DMidx q = mode_index s))"
    using Cons.prems st i by (intro Cons.IH) simp_all
  have nr: "r \<notin> set rs" using Cons.prems(2) by simp
  have P: "md_Prw ?m = received_power p r" by (simp add: received_power_def)
  have one: "mode_of q s = (if s \<in> set (r # rs) then received (pd_in p) (mode_of p s) else mode_of p s)" for s
    using ih nr by (cases "s = r") (simp_all add: m i)
  have low: "max a (received_power p r) \<le> x" "\<forall>s\<in>set rs. received_power p s \<le> x" using ih pw by (simp_all add: P)
  have dm: "(x = a \<and> pd_DM q = pd_DM p \<and> pd_DMidx q = pd_DMidx p)
      \<or> (\<exists>s\<in>set (r # rs). x = received_power p s \<and> a < x \<and> pd_DM q = Some s \<and> pd_DMidx q = mode_index s)"
  proof -
    have "pd_DM (set_mode r ?m p) = pd_DM p \<and> pd_DMidx (set_mode r ?m p) = pd_DMidx p" by (simp add: set_mode_def split: mode_ref.split)
    then have p1: "if a < received_power p r then pd_DM p1 = Some r \<and> pd_DMidx p1 = mode_index r else pd_DM p1 = pd_DM p \<and> pd_DMidx p1 = pd_DMidx p"
      by (simp add: p1_def P)
    consider "x = max a (received_power p r)" "pd_DM q = pd_DM p1" "pd_DMidx q = pd_DMidx p1"
      | s where "s \<in> set rs" "x = received_power p s" "max a (received_power p r) < x" "pd_DM q = Some s" "pd_DMidx q = mode_index s"
      using ih pw by (auto simp: P)
    then show ?thesis
    proof cases
      case 1
      then show ?thesis using p1 by (cases "a < received_power p r") auto
    next
      case 2
      then show ?thesis by auto
    qed
  qed
  show ?case using one ih low dm by (simp add: i sm P)
qed simp

lemma considered_props: "distinct (considered p)"
  "length (pd_Md_E p) = maxEMds \<Longrightarrow> length (pd_Md_F2 p) = maxF2Mds \<Longrightarrow> r \<in> set (considered p) \<Longrightarrow> in_range p r"
proof -
  show "distinct (considered p)" by (auto simp: considered_def e_modes_def f2_modes_def distinct_map inj_on_def)
  show "in_range p r" if "length (pd_Md_E p) = maxEMds" "length (pd_Md_F2 p) = maxF2Mds" "r \<in> set (considered p)"
    using that by (auto simp: considered_def e_modes_def f2_modes_def in_range_def split: if_splits)
qed

lemma sum_power_ge: "r \<in> set rs \<Longrightarrow> 10 powr (f r / 10) \<le> (\<Sum>s\<leftarrow>rs. 10 powr (f s / (10::real)))"
proof (induction rs)
  case (Cons s rs)
  have "0 \<le> (\<Sum>s\<leftarrow>rs. 10 powr (f s / (10::real)))" by (intro sum_list_nonneg) auto
  then show ?case using Cons by (auto simp: add_increasing add_increasing2)
qed simp

text \<open>C24: Up to 7000 km the dominant mode is the strongest of the modes considered, whenever one of them is received above
  the value for nothing (-307 dBW): the path takes its receive gain and elevation from it, the median power at the
  receiver is the power sum over the modes and so not below that of any mode.\<close>

theorem dominant_strongest:
  assumes d: "pd_distance p \<le> 7000" "pd_DM p = None" "length (pd_Md_E p) = maxEMds" "length (pd_Md_F2 p) = maxF2Mds"
    and r: "r \<in> set (considered p)" "tinyDB < received_power p r"
  shows "let q = medianAvailableReceiverPower p in
    \<exists>s\<in>set (considered p). pd_DM q = Some s \<and> pd_DMidx q = mode_index s \<and> md_Prw (mode_of q s) = received_power p s
      \<and> (\<forall>t\<in>set (considered p). received_power p t \<le> received_power p s \<and> received_power p t \<le> lv_Pr (pd_levels q))
      \<and> lv_Pr (pd_levels q) = 10 * log 10 (\<Sum>t\<leftarrow>considered p. 10 powr (received_power p t / 10))
      \<and> lv_Grw (pd_levels q) = md_Grw (mode_of q s) \<and> pd_ele q = md_ele (mode_of q s)"
proof -
  obtain x y q where m: "fold receive_mode (considered p) (tinyDB, 0, p) = (x, y, q)" by (cases "fold receive_mode (considered p) (tinyDB, 0, p)")
  note f = receive_modes [OF m considered_props(1)] and w = considered_props(2) [OF d(3,4)]
  have f: "\<And>t. mode_of q t = (if t \<in> set (considered p) then received (pd_in p) (mode_of p t) else mode_of p t)"
    "y = (\<Sum>t\<leftarrow>considered p. 10 powr (received_power p t / 10))" "\<And>t. t \<in> set (considered p) \<Longrightarrow> received_power p t \<le> x"
    "(x = tinyDB \<and> pd_DM q = None) \<or> (\<exists>s\<in>set (considered p). x = received_power p s \<and> tinyDB < x \<and> pd_DM q = Some s \<and> pd_DMidx q = mode_index s)"
    using f w d(2) by auto
  have "tinyDB < x" using f(3) [OF r(1)] r(2) by simp
  then obtain s where s: "s \<in> set (considered p)" "x = received_power p s" "pd_DM q = Some s" "pd_DMidx q = mode_index s" using f(4) by auto
  have pos: "10 powr (received_power p t / 10) \<le> y" if "t \<in> set (considered p)" for t using sum_power_ge [OF that] by (simp add: f(2))
  have y: "0 < y" using pos [OF r(1)] by (rule less_le_trans [rotated]) simp
  have le: "received_power p t \<le> 10 * log 10 y" if "t \<in> set (considered p)" for t
  proof -
    have "log 10 (10 powr (received_power p t / 10)) \<le> log 10 y" using pos [OF that] by (intro log_mono) simp_all
    then show ?thesis by (simp add: log_powr)
  qed
  let ?q = "medianAvailableReceiverPower p"
  have q: "?q = dominantMode (set_Pr (10 * log 10 y) (lv_Es (pd_levels q)) q)"
    using d(1) y s(3) by (simp add: medianAvailableReceiverPower_def m)
  have k: "mode_of ?q t = mode_of q t" "pd_DM ?q = Some s" "pd_DMidx ?q = mode_index s" "lv_Pr (pd_levels ?q) = 10 * log 10 y"
    "lv_Grw (pd_levels ?q) = md_Grw (mode_of q s)" "pd_ele ?q = md_ele (mode_of q s)" for t
    by (simp_all add: q dominantMode_def set_Pr_def s mode_of_def split: mode_ref.split)
  have "md_Prw (mode_of q s) = received_power p s" using f(1) s(1) by (simp add: received_power_def)
  then show ?thesis unfolding Let_def using s k f(3) le by (intro bexI [of _ s]) (auto simp: f(2))
qed

lemma isotropic_gain: "ha_pattern ant = Some [replicate antAzimuths (replicate antElevations g)] \<Longrightarrow> ha_freqn ant = 1 \<Longrightarrow> antennaGain i ant delta direction = g"
proof -
  assume a: "ha_pattern ant = Some [replicate antAzimuths (replicate antElevations g)]" "ha_freqn ant = 1"
  have c: "clampIndex k antElevations < antElevations" for k by (auto simp: clampIndex_def antElevations_def)
  have b: "bilinearInterpolation g g g g r c = g" for r c by (simp add: bilinearInterpolation_def algebra_simps)
  have z: "closest_frequency f fs 1 = 0" for f fs by (simp add: closest_frequency_def)
  have m: "n mod 360 < antAzimuths" for n :: nat by (simp add: antAzimuths_def)
  show ?thesis unfolding antennaGain_def Let_def a z option.sel nth_Cons_0 by (simp only: nth_replicate c m b)
qed

definition demo_hf_path :: pathData where
  "demo_hf_path = (let p = zero_path ((path_of \<lparr>rq_TxLat = 47, rq_TxLng = 8, rq_RxLat = 51, rq_RxLng = 0, rq_Year = 2024, rq_Month = 5,
       rq_Hours = [12], rq_SSN = 100, rq_Frequencies = [7], rq_TxPower = 0, rq_Bandwidth = 3000, rq_RequiredSNR = 10, rq_SNRXXPercent = 90,
       rq_ManMadeNoise = 0, rq_Modulation = analog, rq_Digital = \<lparr>dp_RequiredSIR = 10, dp_F0 = 0, dp_T0 = 0, dp_A = 0, dp_TW = 0, dp_FW = 0\<rparr>,
       rq_TxAntenna = \<lparr>ar_File = [], ar_Data = [], ar_GainOffset = 0, ar_Bearing = None, ar_Pattern = None\<rparr>,
       rq_RxAntenna = \<lparr>ar_File = [], ar_Data = [], ar_GainOffset = 0, ar_Bearing = None, ar_Pattern = None\<rparr>, rq_LongPath = False\<rparr>)
       \<lparr>pi_Arx := isotropicPattern 0, pi_frequency := 10\<rparr>) 0 in
     p\<lparr>pd_distance := 1000, pd_n0_E := 0, pd_n0_F2 := noLowestMode, pd_Md_E := [zero_mode\<lparr>md_BMUF := 12, md_Ew := 30\<rparr>, zero_mode, zero_mode]\<rparr>)"

lemma demo_fields: "pd_distance demo_hf_path = 1000" "pd_DM demo_hf_path = None" "pd_n0_E demo_hf_path = 0" "pd_n0_F2 demo_hf_path = noLowestMode"
  "length (pd_Md_E demo_hf_path) = maxEMds" "length (pd_Md_F2 demo_hf_path) = maxF2Mds" "pd_Md_E demo_hf_path = [zero_mode\<lparr>md_BMUF := 12, md_Ew := 30\<rparr>, zero_mode, zero_mode]"
  "pi_Arx (pd_in demo_hf_path) = isotropicPattern 0" "pi_frequency (pd_in demo_hf_path) = 10"
  by (simp_all add: demo_hf_path_def zero_path_def maxEMds_def Let_def)

lemma demo_considered: "considered demo_hf_path = [EMode 0]"
proof -
  have "[0..<3] = [0, 1, 2::nat]" by (simp add: upt_rec)
  then have "e_modes demo_hf_path = [0]" by (simp add: e_modes_def e_considered_def demo_fields noLowestMode_def maxEMds_def zero_mode_def)
  then show ?thesis by (simp add: considered_def f2_modes_def demo_fields)
qed

lemma demo_power: "received_power demo_hf_path (EMode 0) = 30 - 20 - 107.2"
  by (simp add: received_power_def received_def Let_def mode_of_def demo_fields isotropic_gain isotropicPattern_def zero_mode_def)

theorem dominant_strongest_witness:
  "pd_DM (medianAvailableReceiverPower demo_hf_path) = Some (EMode 0) \<and> received_power demo_hf_path (EMode 0) \<le> lv_Pr (pd_levels (medianAvailableReceiverPower demo_hf_path))"
  using dominant_strongest [of demo_hf_path "EMode 0"] by (simp add: demo_fields demo_considered demo_power tinyDB_def maxEMds_def Let_def)

end
