(* ===== verification/Sunspot.thy ===== *)
theory Sunspot
  imports Strconv Float64
begin

text \<open>
  The smoothed sunspot numbers the HF model needs (src/internal/sunspot/sunspot.go): the two files of NOAA, read through
  the cache the processes share, the values of the months and their lookup. The network answers with an error or with a
  status and a body; the JSON decoders are arguments, whose numbers are reals because JSON has no others. Entries
  of the cache live until someone replaces them.
\<close>

section \<open>Values\<close>

record sunspot_value =
  sn_SSN :: int
  sn_Predicted :: bool

definition limit :: "real \<Rightarrow> int" where
  "limit v = trunc (min (max (of_int (r_round v)) 1) 311)"

definition pad_left :: "nat \<Rightarrow> nat \<Rightarrow> string" where
  "pad_left w n = replicate (w - length (nat_text n)) (CHR ''0'') @ nat_text n"

definition month_key :: "nat \<Rightarrow> nat \<Rightarrow> string" where
  "month_key year month = pad_left 4 year @ ''-'' @ pad_left 2 month"

section \<open>Files\<close>

text \<open>The shared cache, and whether it can be reached; its errors are ignored.\<close>

record shared_cache =
  sc_files :: "string \<rightharpoonup> string"
  sc_up :: bool

record http_answer =
  ht_code :: nat
  ht_status :: string
  ht_body :: string

definition maxBody :: nat where "maxBody = 8 * 2 ^ 20"

definition fetch :: "(string \<Rightarrow> string + http_answer) \<Rightarrow> string \<Rightarrow> string \<Rightarrow> string + string" where
  "fetch net base name = (case net (base @ ''/'' @ name) of
     Inl e \<Rightarrow> Inl e
   | Inr a \<Rightarrow> if ht_code a \<noteq> 200 then Inl (''sunspot: '' @ name @ '' answered '' @ ht_status a) else Inr (take maxBody (ht_body a)))"

definition cache_get :: "shared_cache option \<Rightarrow> string \<Rightarrow> string option" where
  "cache_get c key = (case c of None \<Rightarrow> None | Some s \<Rightarrow> if sc_up s then sc_files s key else None)"

definition cache_set :: "string \<Rightarrow> string \<Rightarrow> shared_cache option \<Rightarrow> shared_cache option" where
  "cache_set key body c = map_option (\<lambda>s. if sc_up s then s\<lparr>sc_files := (sc_files s)(key \<mapsto> body)\<rparr> else s) c"

definition decoded :: "(string \<Rightarrow> string + 'v) \<Rightarrow> string \<Rightarrow> string \<Rightarrow> string + 'v" where
  "decoded decode name body = (case decode body of Inl e \<Rightarrow> Inl (''sunspot: '' @ name @ '': '' @ e) | Inr v \<Rightarrow> Inr v)"

definition get_file :: "(string \<Rightarrow> string + http_answer) \<Rightarrow> (string \<Rightarrow> string + 'v) \<Rightarrow> string \<Rightarrow> string \<Rightarrow> shared_cache option
    \<Rightarrow> (string + 'v) \<times> shared_cache option" where
  "get_file net decode base name c = (let key = ''sunspot:'' @ name in
     case cache_get c key of
       Some body \<Rightarrow> (decoded decode name body, c)
     | None \<Rightarrow> (case fetch net base name of
         Inl e \<Rightarrow> (Inl e, c)
       | Inr body \<Rightarrow> (decoded decode name body, cache_set key body c)))"

section \<open>The source\<close>

record sunspot_source =
  sn_base :: string
  sn_cache :: "shared_cache option"
  sn_months :: "string \<rightharpoonup> sunspot_value"

definition trim_slashes :: "string \<Rightarrow> string" where
  "trim_slashes s = rev (dropWhile (\<lambda>c. c = CHR ''/'') (rev s))"

definition new_source :: "string \<Rightarrow> shared_cache option \<Rightarrow> sunspot_source" where
  "new_source base c = \<lparr>sn_base = trim_slashes base, sn_cache = c, sn_months = Map.empty\<rparr>"

definition Lookup :: "sunspot_source \<Rightarrow> nat \<Rightarrow> nat \<Rightarrow> sunspot_value option" where
  "Lookup s year month = sn_months s (month_key year month)"

text \<open>The values of one file: an entry without a number, or with a negative one, is skipped.\<close>

fun usable :: "string \<times> real option \<Rightarrow> bool" where
  "usable (month, Some v) = (v \<ge> 0)"
| "usable (month, None) = False"

definition value_of :: "bool \<Rightarrow> string \<times> real option \<Rightarrow> sunspot_value" where
  "value_of predicted e = \<lparr>sn_SSN = limit (the (snd e)), sn_Predicted = predicted\<rparr>"

definition put_values :: "bool \<Rightarrow> (string \<times> real option) list \<Rightarrow> (string \<rightharpoonup> sunspot_value) \<Rightarrow> (string \<rightharpoonup> sunspot_value)" where
  "put_values predicted es m = fold (\<lambda>e m. if usable e then m(fst e \<mapsto> value_of predicted e) else m) es m"

definition observed_file :: string where "observed_file = ''observed-solar-cycle-indices.json''"
definition predicted_file :: string where "predicted_file = ''predicted-solar-cycle.json''"

text \<open>A refresh: the source after it and its error, if any.\<close>

definition Refresh :: "(string \<Rightarrow> string + http_answer) \<Rightarrow> (string \<Rightarrow> string + (string \<times> real option) list)
    \<Rightarrow> (string \<Rightarrow> string + (string \<times> real option) list) \<Rightarrow> sunspot_source \<Rightarrow> sunspot_source \<times> string option" where
  "Refresh net dec_observed dec_predicted s =
     (case get_file net dec_observed (sn_base s) observed_file (sn_cache s) of
       (Inl e, c) \<Rightarrow> (s\<lparr>sn_cache := c\<rparr>, Some e)
     | (Inr observed, c) \<Rightarrow> (case get_file net dec_predicted (sn_base s) predicted_file c of
         (Inl e, c1) \<Rightarrow> (s\<lparr>sn_cache := c1\<rparr>, Some e)
       | (Inr predicted, c1) \<Rightarrow> if \<not> list_ex usable (predicted @ observed) then (s\<lparr>sn_cache := c1\<rparr>, Some (''sunspot: no values in the files of '' @ sn_base s))
           else (s\<lparr>sn_cache := c1, sn_months := put_values False observed (put_values True predicted Map.empty)\<rparr>, None)))"

text \<open>Run until its context ends: a refresh with what the network answers at the time, and the wait in minutes after it.\<close>

definition refreshEvery :: nat where "refreshEvery = 12 * 60"
definition retryAfter :: nat where "retryAfter = 15"

fun run_rounds :: "(string \<Rightarrow> string + (string \<times> real option) list) \<Rightarrow> (string \<Rightarrow> string + (string \<times> real option) list)
    \<Rightarrow> (string \<Rightarrow> string + http_answer) list \<Rightarrow> sunspot_source \<Rightarrow> sunspot_source \<times> nat list" where
  "run_rounds dec_observed dec_predicted [] s = (s, [])"
| "run_rounds dec_observed dec_predicted (net # nets) s = (case Refresh net dec_observed dec_predicted s of (s1, err) \<Rightarrow>
     (case run_rounds dec_observed dec_predicted nets s1 of (s2, ws) \<Rightarrow>
       (s2, (if err = None then refreshEvery else retryAfter) # ws)))"

section \<open>What a refresh gives\<close>

lemma limit_range: "1 \<le> limit v \<and> limit v \<le> 311"
proof -
  let ?x = "min (max (of_int (r_round v)) 1) (311 :: real)"
  have x: "1 \<le> ?x" "?x \<le> 311" by simp_all
  then have "limit v = \<lfloor>?x\<rfloor>" by (simp add: limit_def trunc_nonneg)
  then show ?thesis using x by (simp add: le_floor_iff floor_le_iff)
qed

lemma put_values_lookup:
  "put_values p es m k = (case filter (\<lambda>e. usable e \<and> fst e = k) es of [] \<Rightarrow> m k
     | u \<Rightarrow> Some (value_of p (last u)))"
proof (induction es rule: rev_induct)
  case (snoc e es)
  show ?case using snoc by (auto simp: put_values_def split: list.splits)
qed (simp add: put_values_def)

text \<open>The entry that counts for a month: the last usable one of the file.\<close>

definition entry :: "(string \<times> real option) list \<Rightarrow> string \<Rightarrow> (string \<times> real option) option" where
  "entry es k = (case filter (\<lambda>e. usable e \<and> fst e = k) es of [] \<Rightarrow> None | u \<Rightarrow> Some (last u))"

definition from_files :: "(string \<times> real option) list \<Rightarrow> (string \<times> real option) list \<Rightarrow> string \<rightharpoonup> sunspot_value" where
  "from_files observed predicted k = (case entry observed k of Some e \<Rightarrow> Some (value_of False e)
     | None \<Rightarrow> map_option (value_of True) (entry predicted k))"

lemma put_both: "put_values False observed (put_values True predicted Map.empty) = from_files observed predicted"
  by (rule ext) (auto simp: put_values_lookup from_files_def entry_def split: list.splits)


definition demo_net :: "string \<Rightarrow> string + http_answer" where
  "demo_net url = Inr \<lparr>ht_code = 200, ht_status = ''200 OK'', ht_body = url\<rparr>"

definition demo_decode :: "string \<Rightarrow> string + (string \<times> real option) list" where
  "demo_decode body = Inr [(''2026-10'', Some 120), (''2026-11'', None)]"

lemma demo_refresh: "Refresh demo_net demo_decode demo_decode (new_source ''u/'' None)
   = (\<lparr>sn_base = ''u'', sn_cache = None, sn_months = from_files [(''2026-10'', Some 120), (''2026-11'', None)] [(''2026-10'', Some 120), (''2026-11'', None)]\<rparr>, None)"
proof -
  have base: "trim_slashes ''u/'' = ''u''" by code_simp
  show ?thesis by (simp add: Refresh_def get_file_def cache_get_def cache_set_def fetch_def demo_net_def demo_decode_def decoded_def new_source_def
      base Let_def put_both)
qed


section \<open>A file that cannot be read\<close>

text \<open>A body that is no JSON is kept like any other: whatever the network answers later, as long as the cache keeps the
  entry every reading of the file fails, also after the quarter of an hour Run waits to try again.\<close>

theorem bad_body_sticks:
  assumes "fetch net base name = Inr body" "decode body = Inl e" "cache_get c (''sunspot:'' @ name) = None" "c = Some s" "sc_up s"
    and "get_file net decode base name c = (r, c')"
  shows "get_file later decode base name c' = (Inl (''sunspot: '' @ name @ '': '' @ e), c')"
  using assms by (auto simp: get_file_def decoded_def cache_get_def cache_set_def Let_def)

theorem bad_body_sticks_witness:
  "let c' = snd (get_file (\<lambda>_. Inr \<lparr>ht_code = 200, ht_status = ''200 OK'', ht_body = ''<html>''\<rparr>) (\<lambda>b. if b = ''<html>'' then Inl ''bad'' else Inr b) ''u'' ''f''
      (Some \<lparr>sc_files = Map.empty, sc_up = True\<rparr>)) in
   get_file (\<lambda>_. Inr \<lparr>ht_code = 200, ht_status = ''200 OK'', ht_body = ''[]''\<rparr>) (\<lambda>b. if b = ''<html>'' then Inl ''bad'' else Inr b) ''u'' ''f'' c'
     = (Inl (''sunspot: f: bad''), c')"
proof -
  let ?net = "\<lambda>_. Inr \<lparr>ht_code = 200, ht_status = ''200 OK'', ht_body = ''<html>''\<rparr>" and ?dec = "\<lambda>b. if b = ''<html>'' then Inl ''bad'' else Inr b"
  have f: "fetch ?net ''u'' ''f'' = Inr ''<html>''" by (simp add: fetch_def maxBody_def)
  obtain r c' where g: "get_file ?net ?dec ''u'' ''f'' (Some \<lparr>sc_files = Map.empty, sc_up = True\<rparr>) = (r, c')" by fastforce
  from bad_body_sticks [OF f _ _ refl _ g, of "''bad''"] show ?thesis by (simp add: g cache_get_def Let_def)
qed

end
