(* ===== verification/Web_Hf.thy ===== *)
theory Web_Hf
  imports Web_Links Hf_Predict Sunspot
begin

text \<open>
  The operations of the HF model: predictions and their report (src/internal/web/hf.go), the map of the globe
  (hfmap.go), the sunspot number of a month (hfsunspot.go) and the part of RunJob that computes them (jobs.go). The
  JSON codec of jobs and results, the renderer of the report and the pauses of a wait are arguments. Numbers of a
  request are decoded JSON, hence finite; the rows of radio data in the report are left out.
\<close>

section \<open>Requests\<close>

definition scopeHFRead :: string where "scopeHFRead = ''hf:read''"
definition maxHFHours :: nat where "maxHFHours = 24"
definition maxHFFreqs :: nat where "maxHFFreqs = 30"
definition hfNotAvailable :: int where "hfNotAvailable = - 307"

definition hfNoise :: "(string \<times> real) list" where
  "hfNoise = [(''city'', NoiseCity), (''residential'', NoiseResidential), (''rural'', NoiseRural),
     (''quiet_rural'', NoiseQuietRural), (''noisy'', NoiseNoisy), (''quiet'', NoiseQuiet)]"

record hf_digital =
  hg_SIR :: f64
  hg_F0 :: f64
  hg_T0 :: f64
  hg_A :: f64
  hg_TW :: f64
  hg_FW :: f64

record hf_input =
  hi_a :: int
  hi_b :: int
  hi_year :: int
  hi_month :: int
  hi_hours :: "int list"
  hi_ssn :: int
  hi_freqs :: "f64 list"
  hi_tx_power :: f64
  hi_tx_gain :: f64
  hi_rx_gain :: f64
  hi_tx_ant :: "int option"
  hi_tx_azimuth :: "f64 option"
  hi_rx_ant :: "int option"
  hi_rx_azimuth :: "f64 option"
  hi_bandwidth :: f64
  hi_snr :: f64
  hi_percentile :: int
  hi_noise :: string
  hi_modulation :: string
  hi_digital :: "hf_digital option"
  hi_long :: bool

text \<open>A whole number becomes a float for its check.\<close>

definition check_int :: "string \<Rightarrow> string \<Rightarrow> int \<Rightarrow> real \<Rightarrow> real \<Rightarrow> check" where
  "check_int field label v lo hi = check_num field label (Fin (of_int v)) lo hi"

fun duplicate_of :: "'a list \<Rightarrow> 'a list \<Rightarrow> bool" where
  "duplicate_of met [] = False"
| "duplicate_of met (v # vs) = (List.member met v \<or> duplicate_of (v # met) vs)"

definition hasDuplicate :: "'a list \<Rightarrow> bool" where
  "hasDuplicate vs = duplicate_of [] vs"

definition complain :: "bool \<Rightarrow> string \<Rightarrow> string \<Rightarrow> check" where
  "complain bad field what = (if bad then [(body_field field, Complaint what)] else [])"

definition digital_checks :: "hf_input \<Rightarrow> check" where
  "digital_checks i =
     (if hi_modulation i = [] \<or> hi_modulation i = ''analog'' then []
      else if hi_modulation i = ''digital'' then (case hi_digital i of None \<Rightarrow> []
        | Some d \<Rightarrow> check_num ''digital.required_sir_db'' ''Required SIR'' (hg_SIR d) (- 30) 200
            @ check_num ''digital.f0_hz'' ''F0'' (hg_F0 d) 0 1000 @ check_num ''digital.t0_ms'' ''T0'' (hg_T0 d) 0 1000
            @ check_num ''digital.a_db'' ''A'' (hg_A d) 0 1000 @ check_num ''digital.tw_ms'' ''TW'' (hg_TW d) 0 50
            @ check_num ''digital.fw_hz'' ''FW'' (hg_FW d) 0 1000)
      else [(body_field ''modulation'', Complaint ''Modulation: must be analog or digital'')])"

definition gain_checks :: "hf_input \<Rightarrow> check" where
  "gain_checks i = (if hi_tx_ant i = None then check_num ''tx_gain_dbi'' ''TX gain'' (hi_tx_gain i) (- 50) 60 else [])
     @ (if hi_rx_ant i = None then check_num ''rx_gain_dbi'' ''RX gain'' (hi_rx_gain i) (- 50) 60 else [])
     @ fst (check_deg ''tx_azimuth_deg'' ''TX azimuth'' (hi_tx_azimuth i)) @ fst (check_deg ''rx_azimuth_deg'' ''RX azimuth'' (hi_rx_azimuth i))"

definition hour_checks :: "hf_input \<Rightarrow> check" where
  "hour_checks i = complain (hi_hours i = [] \<or> maxHFHours < length (hi_hours i)) ''hours_utc'' ''Hours: between 1 and 24 values''
     @ concat (map (\<lambda>h. check_int ''hours_utc'' ''Hour'' h 1 24) (hi_hours i))
     @ complain (hasDuplicate (hi_hours i)) ''hours_utc'' ''Hours: remove duplicates''"

definition freq_checks :: "string \<Rightarrow> hf_input \<Rightarrow> check" where
  "freq_checks field i = complain (hi_freqs i = [] \<or> maxHFFreqs < length (hi_freqs i)) field ''Frequencies: between 1 and 30 values''
     @ concat (map (\<lambda>f. check_num field ''Frequency'' f 1 30) (hi_freqs i))
     @ complain (hasDuplicate (hi_freqs i)) field ''Frequencies: remove duplicates''"

text \<open>hfRequest: what it complains of, and the request it returns.\<close>

definition hf_checks :: "string \<Rightarrow> hf_input \<Rightarrow> check" where
  "hf_checks freq_field i = check_int ''year'' ''Year'' (hi_year i) 1900 2100 @ check_int ''month'' ''Month'' (hi_month i) 1 12
     @ check_int ''ssn'' ''Sunspot number'' (hi_ssn i) 1 311
     @ check_num ''tx_power_dbw'' ''TX power'' (hi_tx_power i) (- 30) 60
     @ check_num ''bandwidth_hz'' ''Bandwidth'' (hi_bandwidth i) 0.005 3000000
     @ check_num ''required_snr_db'' ''Required SNR'' (hi_snr i) (- 30) 200
     @ check_int ''snr_percentile'' ''SNR percentile'' (hi_percentile i) 1 99
     @ gain_checks i @ hour_checks i @ freq_checks freq_field i
     @ complain (map_of hfNoise (hi_noise i) = None) ''noise_environment'' ''Noise environment: unknown''
     @ digital_checks i"

definition digital_of :: "hf_input \<Rightarrow> digitalParams" where
  "digital_of i = (case (hi_modulation i = ''digital'', hi_digital i) of
     (True, Some d) \<Rightarrow> \<lparr>dp_RequiredSIR = Web_Links.real_of_f64 (hg_SIR d), dp_F0 = Web_Links.real_of_f64 (hg_F0 d), dp_T0 = Web_Links.real_of_f64 (hg_T0 d),
        dp_A = Web_Links.real_of_f64 (hg_A d), dp_TW = Web_Links.real_of_f64 (hg_TW d), dp_FW = Web_Links.real_of_f64 (hg_FW d)\<rparr>
   | _ \<Rightarrow> \<lparr>dp_RequiredSIR = 10, dp_F0 = 0, dp_T0 = 0, dp_A = 0, dp_TW = 0, dp_FW = 0\<rparr>)"

text \<open>An antenna of the request, without its stored pattern: that comes with the job.\<close>

definition end_of :: "int option \<Rightarrow> f64 \<Rightarrow> f64 option \<Rightarrow> antenna_request" where
  "end_of stored_ant gain azimuth = \<lparr>ar_File = [], ar_Data = [], ar_GainOffset = (if stored_ant = None then Web_Links.real_of_f64 gain else 0),
     ar_Bearing = map_option Web_Links.real_of_f64 (snd (check_deg [] [] azimuth)), ar_Pattern = None\<rparr>"

definition hfRequest :: "hf_input \<Rightarrow> site \<Rightarrow> hf_request" where
  "hfRequest i tx = \<lparr>rq_TxLat = Web_Links.real_of_f64 (site_lat tx), rq_TxLng = Web_Links.real_of_f64 (site_lon tx), rq_RxLat = 0, rq_RxLng = 0,
     rq_Year = hi_year i, rq_Month = hi_month i, rq_Hours = hi_hours i, rq_SSN = hi_ssn i,
     rq_Frequencies = map Web_Links.real_of_f64 (hi_freqs i), rq_TxPower = Web_Links.real_of_f64 (hi_tx_power i),
     rq_Bandwidth = Web_Links.real_of_f64 (hi_bandwidth i), rq_RequiredSNR = Web_Links.real_of_f64 (hi_snr i), rq_SNRXXPercent = hi_percentile i,
     rq_ManMadeNoise = (case map_of hfNoise (hi_noise i) of None \<Rightarrow> 0 | Some n \<Rightarrow> n),
     rq_Modulation = (if hi_modulation i = ''digital'' then digital else analog), rq_Digital = digital_of i,
     rq_TxAntenna = end_of (hi_tx_ant i) (hi_tx_gain i) (hi_tx_azimuth i),
     rq_RxAntenna = end_of (hi_rx_ant i) (hi_rx_gain i) (hi_rx_azimuth i), rq_LongPath = hi_long i\<rparr>"

definition parseHF :: "hf_input \<Rightarrow> site \<Rightarrow> site \<Rightarrow> hf_request handler" where
  "parseHF i a b = andthen (check_err (hf_checks ''frequencies_mhz'' i @ complain (site_id a = site_id b) [] ''Site A and B must differ''))
     (\<lambda>_. ret ((hfRequest i a)\<lparr>rq_RxLat := Web_Links.real_of_f64 (site_lat b), rq_RxLng := Web_Links.real_of_f64 (site_lon b)\<rparr>))"

section \<open>Jobs\<close>

text \<open>The input of a job: the request and the stored antennas of both ends.\<close>

record hf_stored =
  hs_gain :: f64
  hs_h :: "f64 list"
  hs_v :: "f64 list"

record hf_job =
  hj_request :: hf_request
  hj_tx :: "hf_stored option"
  hj_rx :: "hf_stored option"

definition stored_of :: "antenna \<Rightarrow> hf_stored" where
  "stored_of a = \<lparr>hs_gain = ant_gain a, hs_h = ant_h a, hs_v = (case ant_v a of None \<Rightarrow> [] | Some v \<Rightarrow> v)\<rparr>"

definition hs_lobe :: "hf_stored \<Rightarrow> real lobe" where
  "hs_lobe a = \<lparr>lobe_h = map Web_Links.real_of_f64 (hs_h a), lobe_v = map Web_Links.real_of_f64 (hs_v a)\<rparr>"

text \<open>hfAntenna.pattern: the gain less the attenuation; NaN stands for the panic of an index out of range.\<close>

definition stored_gain :: "hf_stored \<Rightarrow> real \<Rightarrow> real \<Rightarrow> f64" where
  "stored_gain a azimuth elevation = (case lobe_att (hs_lobe a) (Fin azimuth) (Fin elevation) of
     None \<Rightarrow> NaN | Some x \<Rightarrow> f_sub (hs_gain a) (Fin x))"

definition with_patterns :: "hf_job \<Rightarrow> hf_request" where
  "with_patterns j = (let r = hj_request j in r\<lparr>rq_TxAntenna := (rq_TxAntenna r)\<lparr>ar_Pattern := map_option stored_gain (hj_tx j)\<rparr>,
     rq_RxAntenna := (rq_RxAntenna r)\<lparr>ar_Pattern := map_option stored_gain (hj_rx j)\<rparr>\<rparr>)"

section \<open>Points\<close>

record api_point =
  ap_month :: int
  ap_hour :: int
  ap_freq :: real
  ap_distance :: real
  ap_mufs :: "real list"
  ap_field :: real
  ap_power :: real
  ap_noise :: real
  ap_snr :: real
  ap_snrxx :: real
  ap_basic :: real
  ap_overall :: real
  ap_mode :: string
  ap_dominant :: "real list"

fun finite_or :: "f64 \<Rightarrow> real" where
  "finite_or (Fin v) = v"
| "finite_or _ = of_int hfNotAvailable"

text \<open>toHFPoint; the MUFs in the order basic, 10, 50, 90 percent, operational, and the values of the dominant mode
  elevation, delay, loss, support, height and field strength are lists here.\<close>

definition toHFPoint :: "hf_point \<Rightarrow> api_point" where
  "toHFPoint p = (let v = (\<lambda>x. finite_or (Fin x)); m = pt_mufs p; re = pt_rel p; d = pt_Dom p in
     \<lparr>ap_month = pt_Month p, ap_hour = pt_Hour p, ap_freq = pt_Frequency p, ap_distance = v (pt_Distance p),
      ap_mufs = map v [mu_BMUF m, mu_MUF10 m, mu_MUF50 m, mu_MUF90 m, mu_OPMUF m],
      ap_field = v (lv_Ep (pt_levels p)), ap_power = v (lv_Pr (pt_levels p)), ap_noise = v (no_FamT (pt_noise p)),
      ap_snr = v (re_SNR re), ap_snrxx = v (re_SNRXX re), ap_basic = v (re_BCR re), ap_overall = v (re_OCR re),
      ap_mode = pt_Dominant p,
      ap_dominant = map v [dm_Elevation d, dm_Delay d, dm_Loss d, dm_Fprob d, dm_Height d, dm_FieldStr d]\<rparr>)"

section \<open>The map\<close>

definition hfMapStep :: real where "hfMapStep = 10"
definition hfMapUserMax :: nat where "hfMapUserMax = 6"
definition mapRows :: nat where "mapRows = nat (trunc (180 / hfMapStep))"
definition mapCols :: nat where "mapCols = nat (trunc (360 / hfMapStep))"

record hf_map_input =
  hm_site :: int
  hm_year :: int
  hm_month :: int
  hm_hours :: "int list"
  hm_ssn :: int
  hm_freq :: f64
  hm_tx_power :: f64
  hm_tx_gain :: f64
  hm_rx_gain :: f64
  hm_bandwidth :: f64
  hm_snr :: f64
  hm_percentile :: int
  hm_noise :: string
  hm_modulation :: string
  hm_digital :: "hf_digital option"
  hm_long :: bool

definition map_prediction :: "hf_map_input \<Rightarrow> hf_input" where
  "map_prediction m = \<lparr>hi_a = 0, hi_b = 0, hi_year = hm_year m, hi_month = hm_month m, hi_hours = hm_hours m, hi_ssn = hm_ssn m,
     hi_freqs = [hm_freq m], hi_tx_power = hm_tx_power m, hi_tx_gain = hm_tx_gain m, hi_rx_gain = hm_rx_gain m, hi_tx_ant = None,
     hi_tx_azimuth = None, hi_rx_ant = None, hi_rx_azimuth = None, hi_bandwidth = hm_bandwidth m, hi_snr = hm_snr m,
     hi_percentile = hm_percentile m, hi_noise = hm_noise m, hi_modulation = hm_modulation m, hi_digital = hm_digital m, hi_long = hm_long m\<rparr>"

definition hfMapRequest :: "hf_map_input \<Rightarrow> site \<Rightarrow> hf_request handler" where
  "hfMapRequest m s = andthen (check_err (hf_checks ''frequency_mhz'' (map_prediction m))) (\<lambda>_. ret (hfRequest (map_prediction m) s))"

definition hfCellCentre :: "nat \<Rightarrow> nat \<Rightarrow> real \<times> real" where
  "hfCellCentre row col = (90 - hfMapStep * (real row + 0.5), - 180 + hfMapStep * (real col + 0.5))"

definition hfReliability :: "hf_point \<Rightarrow> bool \<Rightarrow> real" where
  "hfReliability p dig = (if dig \<and> pt_Distance p \<le> 9000 then re_OCR (pt_rel p) else re_BCR (pt_rel p))"

record hf_frame =
  hf_hour :: int
  hf_cells :: "int list"

record hf_map =
  hp_step :: real
  hp_rows :: nat
  hp_cols :: nat
  hp_frames :: "hf_frame list"

definition cell_request :: "hf_request \<Rightarrow> nat \<Rightarrow> hf_request" where
  "cell_request r c = (case hfCellCentre (c div mapCols) (c mod mapCols) of (la, lo) \<Rightarrow> r\<lparr>rq_RxLat := la, rq_RxLng := lo\<rparr>)"

text \<open>The cells in order; the goroutines of the code share nothing but the data of the month.\<close>

fun map_cells :: "hf_files \<Rightarrow> hf_request \<Rightarrow> nat list \<Rightarrow> hf_data \<Rightarrow> hf_data \<times> (hf_error + hf_point list) list" where
  "map_cells fs r [] d = (d, [])"
| "map_cells fs r (c # cs) d = (case Predict fs (cell_request r c) d of (d1, x) \<Rightarrow>
     (case map_cells fs r cs d1 of (d2, xs) \<Rightarrow> (d2, x # xs)))"

definition cell_value :: "bool \<Rightarrow> nat \<Rightarrow> hf_error + hf_point list \<Rightarrow> int" where
  "cell_value dig k x = (case x of Inl e \<Rightarrow> hfNotAvailable
     | Inr pts \<Rightarrow> if k < length pts then r_round (finite_or (Fin (hfReliability (pts ! k) dig))) else 0)"

definition failed_cells :: "(hf_error + hf_point list) list \<Rightarrow> hf_error list" where
  "failed_cells xs = concat (map (case_sum (\<lambda>e. [e]) (\<lambda>_. [])) xs)"

text \<open>hfMapCompute; \<open>late\<close> is the context ending before the cells are done, whose error is \<open>None\<close> here. Which of
  several errors is the first depends on the goroutines; no caller tells them apart.\<close>

definition hfMapCompute :: "hf_files \<Rightarrow> bool \<Rightarrow> hf_request \<Rightarrow> hf_data \<Rightarrow> hf_data \<times> (hf_error option + hf_map)" where
  "hfMapCompute fs late r d = (case map_cells fs r [0..<mapRows * mapCols] d of (d1, xs) \<Rightarrow>
     (d1, if late then Inl None
      else if length (failed_cells xs) = mapRows * mapCols then Inl (Some (hd (failed_cells xs)))
      else Inr \<lparr>hp_step = hfMapStep, hp_rows = mapRows, hp_cols = mapCols,
         hp_frames = map (\<lambda>k. \<lparr>hf_hour = rq_Hours r ! k, hf_cells = map (cell_value (rq_Modulation r = digital) k) xs\<rparr>) [0..<length (rq_Hours r)]\<rparr>))"

section \<open>What a worker computes\<close>

record hf_codec =
  enc_hf :: "hf_job \<Rightarrow> bytes"
  dec_hf :: "bytes \<Rightarrow> hf_job option"
  enc_points :: "api_point list \<Rightarrow> bytes"
  dec_points :: "bytes \<Rightarrow> api_point list option"
  enc_map :: "hf_map \<Rightarrow> bytes"
  dec_map :: "bytes \<Rightarrow> hf_map option"
  hf_sha :: "bytes \<Rightarrow> string"

definition hf_compute :: "hf_files \<Rightarrow> hf_codec \<Rightarrow> bool \<Rightarrow> string \<Rightarrow> bytes \<Rightarrow> hf_data \<Rightarrow> hf_data \<times> (compute_error + bytes)" where
  "hf_compute fs cd late kind inp d = (case dec_hf cd inp of None \<Rightarrow> (d, Inl OtherError)
   | Some j \<Rightarrow> if kind = kindHFMap
       then (case hfMapCompute fs late (with_patterns j) d of (d1, Inl e) \<Rightarrow> (d1, Inl OtherError) | (d1, Inr m) \<Rightarrow> (d1, Inr (enc_map cd m)))
       else (case Predict fs (with_patterns j) d of (d1, Inl e) \<Rightarrow> (d1, Inl OtherError)
         | (d1, Inr pts) \<Rightarrow> (d1, Inr (enc_points cd (map toHFPoint pts)))))"

text \<open>The predictor of RunJob; \<open>None\<close> is a worker without the data set.\<close>

definition hf_predictor :: "hf_files \<Rightarrow> hf_codec \<Rightarrow> bool \<Rightarrow> hf_data option \<Rightarrow> (string \<Rightarrow> bytes \<Rightarrow> compute_error + bytes) option" where
  "hf_predictor fs cd late d = map_option (\<lambda>data kind inp. snd (hf_compute fs cd late kind inp data)) d"

section \<open>Handlers\<close>

text \<open>A wait: its pauses, and whether the client is gone at its end.\<close>

type_synonym wait_run = "pause list \<times> bool"

definition hf_off_text :: string where
  "hf_off_text = (case errHFOff of PublicError t \<Rightarrow> t | _ \<Rightarrow> [])"

definition internal_error :: problem where "internal_error = Problem 500 ''Internal error'' []"

definition hfRun :: "hf_codec \<Rightarrow> (bytes \<Rightarrow> 'o option) \<Rightarrow> wait_run \<Rightarrow> int \<Rightarrow> string \<Rightarrow> hf_job \<Rightarrow> 'o handler" where
  "hfRun cd dec wr owner kind j = attempt (runJob (hf_sha cd) (fst wr) owner kind (enc_hf cd j)) (\<lambda>x. case x of
       Inl e \<Rightarrow> raise (jobErr (snd wr) e)
     | Inr row \<Rightarrow> if j_state row = JobFailed
         then (if text_or_empty (j_error row) = hf_off_text then raise (Problem 503 hf_off_text []) else raise internal_error)
         else (case dec (text_or_empty (j_result row)) of None \<Rightarrow> raise internal_error | Some v \<Rightarrow> ret v))"

record hf_result =
  hr_points :: "api_point list"
  hr_a :: site
  hr_b :: site
  hr_tx :: string
  hr_rx :: string

text \<open>The stored antenna of an end and its name.\<close>

definition hf_antenna_of :: "int \<Rightarrow> int option \<Rightarrow> (hf_stored option \<times> string) handler" where
  "hf_antenna_of owner x = (case x of None \<Rightarrow> ret (None, [])
     | Some i \<Rightarrow> andthen (stored (GetAntenna owner i)) (\<lambda>a. ret (Some (stored_of a), ant_name a)))"

definition hfPredict :: "hf_codec \<Rightarrow> wait_run \<Rightarrow> int \<Rightarrow> hf_input \<Rightarrow> hf_result handler" where
  "hfPredict cd wr owner i = andthen (computeHit owner) (\<lambda>_. andthen (stored (GetSite owner (hi_a i))) (\<lambda>a.
     andthen (stored (GetSite owner (hi_b i))) (\<lambda>b. andthen (parseHF i a b) (\<lambda>r.
     andthen (hf_antenna_of owner (hi_tx_ant i)) (\<lambda>tx. andthen (hf_antenna_of owner (hi_rx_ant i)) (\<lambda>rx.
     andthen (hfRun cd (dec_points cd) wr owner kindHFPrediction \<lparr>hj_request = r, hj_tx = fst tx, hj_rx = fst rx\<rparr>) (\<lambda>pts.
     ret \<lparr>hr_points = pts, hr_a = a, hr_b = b, hr_tx = snd tx, hr_rx = snd rx\<rparr>)))))))"

definition predict_hf :: "hf_codec \<Rightarrow> wait_run \<Rightarrow> user_view \<Rightarrow> hf_input \<Rightarrow> api_point list handler" where
  "predict_hf cd wr u i = andthen (hfPredict cd wr (uv_id u) i) (\<lambda>res. ret (hr_points res))"

definition hfMapHit :: "int \<Rightarrow> unit handler" where
  "hfMapHit user = hit_or (''hfmap:user:'' @ int_text user) computeWindow hfMapUserMax (Problem 429 ''Too many maps, try again in a minute.'' [])"

definition predict_hf_map :: "hf_codec \<Rightarrow> wait_run \<Rightarrow> user_view \<Rightarrow> hf_map_input \<Rightarrow> hf_map handler" where
  "predict_hf_map cd wr u m = andthen (hfMapHit (uv_id u)) (\<lambda>_. andthen (stored (GetSite (uv_id u) (hm_site m))) (\<lambda>s.
     andthen (hfMapRequest m s) (\<lambda>r. hfRun cd (dec_map cd) wr (uv_id u) kindHFMap \<lparr>hj_request = r, hj_tx = None, hj_rx = None\<rparr>)))"

section \<open>Sunspot numbers\<close>

record hf_sunspot =
  hn_ssn :: int
  hn_source :: string
  hn_reference :: string

definition hf_sunspot_op :: "sunspot_source option \<Rightarrow> nat \<Rightarrow> nat \<Rightarrow> hf_sunspot handler" where
  "hf_sunspot_op src year mon = (case src of None \<Rightarrow> raise (Problem 404 ''No sunspot data on this server'' [])
   | Some s \<Rightarrow> (case Lookup s year mon of None \<Rightarrow> raise (Problem 404 ''No sunspot number for this month'' [])
     | Some v \<Rightarrow> ret \<lparr>hn_ssn = sn_SSN v, hn_source = (if sn_Predicted v then ''predicted'' else ''observed''), hn_reference = ''NOAA SWPC''\<rparr>))"

section \<open>The report\<close>

definition maxHFMonths :: nat where "maxHFMonths = 12"

text \<open>The circuit of a prediction: what is left once year, month and sunspot number are blanked. The code compares the
  JSON of the two, which is the same exactly when the values are.\<close>

definition circuit :: "hf_input \<Rightarrow> hf_input" where
  "circuit i = i\<lparr>hi_year := 0, hi_month := 0, hi_ssn := 0\<rparr>"

definition checkHFReport :: "hf_input list \<Rightarrow> check" where
  "checkHFReport ps = (if ps = [] \<or> maxHFMonths < length ps then [(body_field ''predictions'', Complaint ''Predictions: between 1 and 12'')]
     else complain (list_ex (\<lambda>p. circuit p \<noteq> circuit (hd ps)) (tl ps)) ''predictions''
       ''Predictions: may differ only in year, month and sunspot number'')"

record report_point =
  rp_hour :: int
  rp_freq :: real
  rp_muf10 :: real
  rp_muf50 :: real
  rp_muf90 :: real
  rp_rel :: real
  rp_snr :: real
  rp_mode :: string

record report_month =
  rm_year :: int
  rm_month :: int
  rm_ssn :: int
  rm_points :: "report_point list"

definition report_point_of :: "hf_input \<Rightarrow> api_point \<Rightarrow> report_point" where
  "report_point_of i p = \<lparr>rp_hour = ap_hour p, rp_freq = ap_freq p, rp_muf10 = ap_mufs p ! 1, rp_muf50 = ap_mufs p ! 2, rp_muf90 = ap_mufs p ! 3,
     rp_rel = (if hi_modulation i = ''digital'' \<and> ap_distance p \<le> 9000 then ap_overall p else ap_basic p),
     rp_snr = ap_snr p, rp_mode = ap_mode p\<rparr>"

definition hfMonth :: "hf_input \<Rightarrow> api_point list \<Rightarrow> report_month" where
  "hfMonth i pts = \<lparr>rm_year = hi_year i, rm_month = hi_month i, rm_ssn = hi_ssn i, rm_points = map (report_point_of i) pts\<rparr>"

text \<open>pdfName: one underscore for each character that a file name may not have; the bytes of a name are UTF-8.\<close>

definition pdfName :: "string \<Rightarrow> string" where
  "pdfName s = map (\<lambda>c. let n = of_char c :: nat in if 127 < n \<or> n < 32 \<or> c \<in> {CHR 0x22, CHR 0x5C, CHR ''/''} then CHR ''_'' else c)
     (filter (\<lambda>c. \<not> (128 \<le> (of_char c :: nat) \<and> (of_char c :: nat) < 192)) s)"

fun predict_months :: "hf_codec \<Rightarrow> int \<Rightarrow> (wait_run \<times> hf_input) list \<Rightarrow> (hf_input \<times> hf_result) list handler" where
  "predict_months cd owner [] = ret []"
| "predict_months cd owner ((wr, i) # rest) = andthen (hfPredict cd wr owner i) (\<lambda>res.
     andthen (predict_months cd owner rest) (\<lambda>more. ret ((i, res) # more)))"

record hf_report =
  hq_disposition :: string
  hq_body :: bytes

text \<open>The report; \<open>render\<close> draws it from the first prediction with its result, the months and the name of the user.\<close>

definition report_hf :: "hf_codec \<Rightarrow> (hf_input \<Rightarrow> hf_result \<Rightarrow> report_month list \<Rightarrow> string \<Rightarrow> bytes option) \<Rightarrow> user_view
    \<Rightarrow> (wait_run \<times> hf_input) list \<Rightarrow> hf_report handler" where
  "report_hf cd render u ps = andthen (check_err (checkHFReport (map snd ps))) (\<lambda>_.
     andthen (predict_months cd (uv_id u) ps) (\<lambda>rs. let first = snd (hd rs) in
     (case render (fst (hd rs)) first (map (\<lambda>(i, res). hfMonth i (hr_points res)) rs) (uv_name u) of
        None \<Rightarrow> raise internal_error
      | Some pdf \<Rightarrow> ret \<lparr>hq_disposition = ''inline; filename='' @ [CHR 0x22] @ pdfName (site_name (hr_a first) @ '' - '' @ site_name (hr_b first))
            @ ''.pdf'' @ [CHR 0x22], hq_body = pdf\<rparr>)))"

end
