(* ===== verification/Hf_Claims.thy ===== *)
theory Hf_Claims
  imports Hf_Facts
begin

text \<open>
  Properties of the HF model: the runs of a prediction do not influence each other, percentages stay percentages,
  the dominant mode, the interpolations, the sort by exchange, the map accesses, and the download of the data set.
\<close>

section \<open>Runs\<close>

lemma control_point_frequency: "calculateCPParameters (i\<lparr>pi_hour := h, pi_frequency := f\<rparr>) c = calculateCPParameters (i\<lparr>pi_hour := h\<rparr>) c"
  by (simp add: calculateCPParameters_def)

lemma long_column_frequency: "long_column (i\<lparr>pi_hour := h, pi_frequency := f\<rparr>) = long_column (i\<lparr>pi_hour := h\<rparr>)"
  by (simp add: long_column_def penetration_point_def reference_point_def point_on_path_def control_point_frequency fun_eq_iff)

lemma long_table_run: "long_table (i\<lparr>pi_hour := h, pi_frequency := f\<rparr>) d = long_table i d"
proof -
  have "long_column (at_hour (i\<lparr>pi_hour := h, pi_frequency := f\<rparr>) j) = long_column (at_hour i j)" for j
  proof -
    have "at_hour (i\<lparr>pi_hour := h, pi_frequency := f\<rparr>) j = i\<lparr>pi_hour := int j, pi_frequency := f\<rparr>" by (simp add: at_hour_def)
    then show ?thesis by (simp only: long_column_frequency at_hour_def)
  qed
  then show ?thesis by (simp add: long_table_def)
qed

lemma path_distance_run: "path_distance (i\<lparr>pi_hour := h, pi_frequency := f\<rparr>) = path_distance i"
  by (simp add: path_distance_def)

text \<open>What the next run reads of a path.\<close>

definition base :: "pathData \<Rightarrow> path_input \<times> nat \<times> nat \<times> nat \<times> real" where
  "base p = ((pd_in p)\<lparr>pi_hour := 0, pi_frequency := 0\<rparr>, length (pd_CP p), length (pd_Md_F2 p), length (pd_Md_E p), no_ManMadeNoise (pd_noise p))"

definition table_valid :: "pathData \<Rightarrow> bool" where
  "table_valid p \<longleftrightarrow> pd_longCP p = None \<or> pd_longCP p = Some (long_table (pd_in p) (path_distance (pd_in p)))"

lemma at_run_same: "base p = base q \<Longrightarrow> pd_in (at_run h f p) = pd_in (at_run h f q)"
proof -
  assume "base p = base q"
  then have "(pd_in p)\<lparr>pi_hour := 0, pi_frequency := 0\<rparr> = (pd_in q)\<lparr>pi_hour := 0, pi_frequency := 0\<rparr>" by (simp add: base_def)
  then have "((pd_in p)\<lparr>pi_hour := 0, pi_frequency := 0\<rparr>)\<lparr>pi_hour := h - 1, pi_frequency := f\<rparr>
    = ((pd_in q)\<lparr>pi_hour := 0, pi_frequency := 0\<rparr>)\<lparr>pi_hour := h - 1, pi_frequency := f\<rparr>" by simp
  then show ?thesis by (simp add: at_run_def)
qed

lemma at_run_table: "table_valid p \<Longrightarrow> table_valid (at_run h f p)"
  by (simp add: table_valid_def at_run_def long_table_run path_distance_run)

lemma map_same_length: "length xs = length ys \<Longrightarrow> map (\<lambda>_. c) xs = map (\<lambda>_. c) ys"
  by (simp add: map_replicate_const)

lemma initialize_forget:
  assumes "pd_in p = pd_in q" "length (pd_CP p) = length (pd_CP q)" "length (pd_Md_F2 p) = length (pd_Md_F2 q)"
    "length (pd_Md_E p) = length (pd_Md_E q)" "no_ManMadeNoise (pd_noise p) = no_ManMadeNoise (pd_noise q)"
  shows "forget_run (initializePath p) = forget_run (initializePath q)"
proof -
  have c: "initializeCPs i d (pd_CP p) = initializeCPs i d (pd_CP q)" for i d
    unfolding initializeCPs_def by (simp only: map_same_length [OF assms(2)])
  have m: "initializeModes (pd_Md_F2 p) = initializeModes (pd_Md_F2 q)" "initializeModes (pd_Md_E p) = initializeModes (pd_Md_E q)"
    unfolding initializeModes_def by (rule map_same_length, fact assms(3)) (rule map_same_length, fact assms(4))
  have n: "(noise_initialize (pd_noise p))\<lparr>no_Hour := 0, no_Lng := 0, no_Lat := 0, no_Frequency := 0\<rparr>
    = (noise_initialize (pd_noise q))\<lparr>no_Hour := 0, no_Lng := 0, no_Lat := 0, no_Frequency := 0\<rparr>"
    using assms(5) by (simp add: noise_initialize_def)
  show ?thesis unfolding initializePath_def Let_def
    by (simp add: forget_run_def assms(1) c m n)
qed

lemma initialize_keeps: "pd_in (initializePath p) = pd_in p" "pd_distance (initializePath p) = path_distance (pd_in p)"
  "pd_longCP (initializePath p) = pd_longCP p" "length (pd_CP (initializePath p)) = length (pd_CP p)"
  "length (pd_Md_F2 (initializePath p)) = length (pd_Md_F2 p)" "length (pd_Md_E (initializePath p)) = length (pd_Md_E p)"
  "no_ManMadeNoise (pd_noise (initializePath p)) = no_ManMadeNoise (pd_noise p)"
proof -
  have "length (initializeCPs i d cs) = length cs" for i d cs by (simp add: initializeCPs_def Let_def)
  then show "length (pd_CP (initializePath p)) = length (pd_CP p)" by (simp add: initializePath_def Let_def)
qed (simp_all add: initializePath_def Let_def initializeModes_def noise_initialize_def)

lemma part1_frame: "frame (part1 p) = frame p" "pd_longCP (part1 p) = pd_longCP p"
  using frame_muf by (simp_all add: part1_def keeps_frame_def)

lemma part2_frame: "frame (part2 p) = frame p" "pd_longCP (part2 p) = (if pd_distance p \<ge> 7000 then pd_longCP (use_table p) else pd_longCP p)"
proof -
  let ?s = "medianSkywaveFieldStrengthShort p"
  have f: "frame ?s = frame p" "pd_longCP ?s = pd_longCP p" using frame_short by (simp_all add: keeps_frame_def)
  show "frame (part2 p) = frame p" using frame_short frame_power by (simp add: part2_def keeps_frame_def frame_long)
  have "pd_longCP (part2 p) = pd_longCP (medianSkywaveFieldStrengthLong ?s)" using frame_short frame_power by (simp add: part2_def keeps_frame_def)
  moreover have "pd_longCP (use_table ?s) = pd_longCP (use_table p)" using f frame_in [OF f(1)] by (simp add: use_table_def split: option.split)
  ultimately show "pd_longCP (part2 p) = (if pd_distance p \<ge> 7000 then pd_longCP (use_table p) else pd_longCP p)"
    using f frame_in [OF f(1)] by (simp add: frame_long)
qed

lemma part2_forget:
  assumes "table_ok p" "table_ok q" "forget_run p = forget_run q"
  shows "forget_run (part2 p) = forget_run (part2 q)"
proof -
  let ?s = medianSkywaveFieldStrengthShort
  have "frame (?s p) = frame p" "pd_longCP (?s p) = pd_longCP p" "frame (?s q) = frame q" "pd_longCP (?s q) = pd_longCP q"
    using frame_short by (simp_all add: keeps_frame_def)
  then have "table_ok (?s p)" "table_ok (?s q)" using assms(1,2) by (simp_all add: table_ok_def frame_def)
  then have "forget_run (medianSkywaveFieldStrengthLong (?s p)) = forget_run (medianSkywaveFieldStrengthLong (?s q))"
    by (rule long_forget) (rule steady_cong [OF steady_short assms(3)])
  then have "forget_run (between7000kmand9000km (medianSkywaveFieldStrengthLong (?s p))) = forget_run (between7000kmand9000km (medianSkywaveFieldStrengthLong (?s q)))"
    by (rule steady_cong [OF steady_between])
  then show ?thesis unfolding part2_def by (rule steady_cong [OF steady_power])
qed

lemma part1_steady: "steady part1"
  unfolding part1_def [abs_def]
  by (rule steady_comp [OF steady_comp [OF steady_comp [OF steady_mufBasic steady_mufVariability] steady_mufOperational] steady_screening])

lemma at_receiver_forget: "at_receiver (forget_run p) = at_receiver p"
  by (simp add: at_receiver_def Let_def) (simp add: forget_run_def)

lemma newPoint_forget: "forget_run p = forget_run q \<Longrightarrow> pd_noise p = pd_noise q \<Longrightarrow> newPoint p = newPoint q"
proof -
  have n: "newPoint (forget_run r) = (newPoint r)\<lparr>pt_noise := pd_noise (forget_run r)\<rparr>" for r
    by (simp add: newPoint_def Let_def cong: option.case_cong if_cong)
  assume "forget_run p = forget_run q" and e: "pd_noise p = pd_noise q"
  then have "(newPoint p)\<lparr>pt_noise := pd_noise (forget_run p)\<rparr> = (newPoint q)\<lparr>pt_noise := pd_noise (forget_run q)\<rparr>" by (metis n)
  then have "((newPoint p)\<lparr>pt_noise := pd_noise (forget_run p)\<rparr>)\<lparr>pt_noise := pd_noise p\<rparr> = ((newPoint q)\<lparr>pt_noise := pd_noise (forget_run q)\<rparr>)\<lparr>pt_noise := pd_noise p\<rparr>"
    by simp
  then have "(newPoint p)\<lparr>pt_noise := pd_noise p\<rparr> = (newPoint q)\<lparr>pt_noise := pd_noise p\<rparr>" by simp
  moreover have "pt_noise (newPoint r) = pd_noise r" for r by (simp add: newPoint_def Let_def)
  then have "(newPoint r)\<lparr>pt_noise := pd_noise r\<rparr> = newPoint r" for r by (metis hf_point.surjective hf_point.update_convs(12))
  ultimately show ?thesis using e by metis
qed

text \<open>The path that enters part 3.\<close>

definition before_noise :: "pathData \<Rightarrow> pathData" where "before_noise p = part2 (part1 (initializePath p))"

lemma before_noise_frame: "pd_in (before_noise p) = pd_in p" "length (pd_CP (before_noise p)) = length (pd_CP p)"
  "length (pd_Md_F2 (before_noise p)) = length (pd_Md_F2 p)" "length (pd_Md_E (before_noise p)) = length (pd_Md_E p)"
  "no_ManMadeNoise (pd_noise (before_noise p)) = no_ManMadeNoise (pd_noise p)"
proof -
  have "frame (before_noise p) = frame (initializePath p)" by (simp add: before_noise_def part2_frame part1_frame)
  from frame_in [OF this] show "pd_in (before_noise p) = pd_in p" "length (pd_CP (before_noise p)) = length (pd_CP p)"
    "length (pd_Md_F2 (before_noise p)) = length (pd_Md_F2 p)" "length (pd_Md_E (before_noise p)) = length (pd_Md_E p)"
    "no_ManMadeNoise (pd_noise (before_noise p)) = no_ManMadeNoise (pd_noise p)" by (simp_all add: initialize_keeps)
qed

lemma before_noise_table: "table_valid p \<Longrightarrow> table_valid (before_noise p)"
proof -
  assume t: "table_valid p"
  have f: "frame (part1 (initializePath p)) = frame (initializePath p)" by (rule part1_frame)
  have "pd_in (part1 (initializePath p)) = pd_in p" "pd_distance (part1 (initializePath p)) = path_distance (pd_in p)"
    "pd_longCP (part1 (initializePath p)) = pd_longCP p"
    using frame_in [OF f] by (simp_all add: initialize_keeps part1_frame)
  then show ?thesis using t
    by (auto simp: table_valid_def before_noise_frame before_noise_def part2_frame use_table_def initialize_keeps before_noise_frame [unfolded before_noise_def] split: option.splits)
qed

lemma before_noise_same:
  assumes "base p = base q" "table_valid p" "table_valid q"
  shows "forget_run (before_noise (at_run h f p)) = forget_run (before_noise (at_run h f q))"
proof -
  let ?p = "at_run h f p" and ?q = "at_run h f q"
  have "forget_run (initializePath ?p) = forget_run (initializePath ?q)"
    using assms(1) by (intro initialize_forget at_run_same) (simp_all add: at_run_def base_def)
  then have "forget_run (part1 (initializePath ?p)) = forget_run (part1 (initializePath ?q))" by (rule steady_cong [OF part1_steady])
  moreover have "table_ok (part1 (initializePath r))" if "table_valid r" for r
    using that frame_in [OF part1_frame(1) [of "initializePath r"]] by (simp add: table_ok_def table_valid_def part1_frame initialize_keeps)
  ultimately show ?thesis unfolding before_noise_def
    using at_run_table [OF assms(2)] at_run_table [OF assms(3)] by (intro part2_forget) blast+
qed

lemma run_same:
  assumes "base p = base q" "table_valid p" "table_valid q"
    and c: "calculate (at_run h f p) = (p1, e)" and d: "calculate (at_run h f q) = (q1, e1)"
  shows "e = e1" "e = None \<Longrightarrow> newPoint p1 = newPoint q1" "e = None \<Longrightarrow> base p1 = base p \<and> table_valid p1"
proof -
  let ?p = "at_run h f p" and ?q = "at_run h f q"
  have i: "pd_in ?p = pd_in ?q" by (rule at_run_same [OF assms(1)])
  then have v: "validatePath ?p = validatePath ?q" by (simp add: validatePath_def)
  have s: "forget_run (before_noise ?p) = forget_run (before_noise ?q)" by (rule before_noise_same [OF assms(1-3)])
  then have n: "at_receiver (before_noise ?p) = at_receiver (before_noise ?q)" by (metis at_receiver_forget)
  have m: "no_ManMadeNoise (at_receiver (before_noise ?p)) = no_ManMadeNoise (pd_noise p)"
    by (simp add: at_receiver_def Let_def before_noise_frame) (simp add: at_run_def)
  have cp: "validatePath ?p = None \<Longrightarrow> (p1, e) = (case noise_Compute (at_receiver (before_noise ?p)) (pi_coeff (pd_in ?p)) of
      Inl x \<Rightarrow> ((before_noise ?p)\<lparr>pd_noise := at_receiver (before_noise ?p)\<rparr>, Some x)
    | Inr y \<Rightarrow> (circuitReliability ((before_noise ?p)\<lparr>pd_noise := y\<rparr>), None))"
    using c by (simp add: calculate_def Let_def before_noise_def [symmetric] before_noise_frame)
  have dq: "validatePath ?q = None \<Longrightarrow> (q1, e1) = (case noise_Compute (at_receiver (before_noise ?q)) (pi_coeff (pd_in ?q)) of
      Inl x \<Rightarrow> ((before_noise ?q)\<lparr>pd_noise := at_receiver (before_noise ?q)\<rparr>, Some x)
    | Inr y \<Rightarrow> (circuitReliability ((before_noise ?q)\<lparr>pd_noise := y\<rparr>), None))"
    using d by (simp add: calculate_def Let_def before_noise_def [symmetric] before_noise_frame)
  have inv: "validatePath ?p = Some x \<Longrightarrow> e = Some x \<and> e1 = Some x" for x
  proof -
    assume x: "validatePath ?p = Some x"
    have y: "validatePath ?q = Some x" using v x by simp
    have "calculate ?p = (?p, Some x)" "calculate ?q = (?q, Some x)" by (simp_all only: calculate_def x y option.case)
    then show ?thesis using c d by simp
  qed
  show "e = e1" using cp dq inv v n i by (cases "validatePath ?p"; cases "noise_Compute (at_receiver (before_noise ?p)) (pi_coeff (pd_in ?p))") auto
  assume e: "e = None"
  then have va: "validatePath ?p = None" using inv by (cases "validatePath ?p") auto
  obtain y where y: "noise_Compute (at_receiver (before_noise ?p)) (pi_coeff (pd_in ?p)) = Inr y" "p1 = circuitReliability ((before_noise ?p)\<lparr>pd_noise := y\<rparr>)"
    using cp [OF va] e by (cases "noise_Compute (at_receiver (before_noise ?p)) (pi_coeff (pd_in ?p))") auto
  have q1: "q1 = circuitReliability ((before_noise ?q)\<lparr>pd_noise := y\<rparr>)" using dq v va y(1) n i by simp
  have my: "no_ManMadeNoise y = no_ManMadeNoise (pd_noise p)"
    using y(1) m by (auto simp: noise_Compute_def noise_override_def Let_def manMadeNoise_def galacticNoise_def atmosphericNoise_def split: option.splits if_splits)
  have pr: "frame p1 = frame ((before_noise ?p)\<lparr>pd_noise := y\<rparr>)" "pd_longCP p1 = pd_longCP (before_noise ?p)"
    by (simp_all add: y(2) frame_reliability)
  have pn: "pd_noise p1 = y" "pd_noise q1 = y" using frame_in [OF pr(1)] frame_in [OF frame_reliability(1) [of "(before_noise ?q)\<lparr>pd_noise := y\<rparr>"]] by (simp_all add: q1)
  have "forget_run ((before_noise ?p)\<lparr>pd_noise := y\<rparr>) = forget_run ((before_noise ?q)\<lparr>pd_noise := y\<rparr>)"
  proof -
    have "forget_run (r\<lparr>pd_noise := y\<rparr>) = (forget_run r)\<lparr>pd_noise := y\<lparr>no_Hour := 0, no_Lng := 0, no_Lat := 0, no_Frequency := 0\<rparr>\<rparr>" for r
      by (simp add: forget_run_def)
    then show ?thesis by (simp add: s)
  qed
  then have "forget_run p1 = forget_run q1" unfolding y(2) q1 by (metis steady_reliability)
  then show "newPoint p1 = newPoint q1" using pn by (intro newPoint_forget) simp_all
  have "pd_in p1 = pd_in ?p" using frame_in [OF pr(1)] by (simp add: before_noise_frame)
  moreover have "table_valid (before_noise ?p)" by (intro before_noise_table at_run_table assms)
  ultimately have "table_valid p1" using pr(2) by (simp add: table_valid_def before_noise_frame)
  moreover have "base p1 = base p" using frame_in [OF pr(1)] my by (simp add: base_def before_noise_frame) (simp add: at_run_def)
  ultimately show "base p1 = base p \<and> table_valid p1" by blast
qed

text \<open>The runs of a prediction, each on a path of its own.\<close>

fun fresh_runs :: "(int \<times> real) list \<Rightarrow> pathData \<Rightarrow> hf_error + hf_point list" where
  "fresh_runs [] p = Inr []"
| "fresh_runs ((h, f) # runs) p = (case calculate (at_run h f p) of
     (_, Some e) \<Rightarrow> Inl e
   | (q, None) \<Rightarrow> (case fresh_runs runs p of Inl e \<Rightarrow> Inl e | Inr pts \<Rightarrow> Inr (newPoint q # pts)))"

lemma run_all_fresh:
  assumes "base q = base p" "table_valid q" "table_valid p"
  shows "run_all runs q = fresh_runs runs p"
  using assms
proof (induction runs arbitrary: q)
  case (Cons r runs)
  obtain h f where r: "r = (h, f)" by fastforce
  obtain q1 e p1 e1 where q: "calculate (at_run h f q) = (q1, e)" "calculate (at_run h f p) = (p1, e1)" by fastforce
  note s = run_same [OF Cons.prems q]
  show ?case
  proof (cases e)
    case None
    have "run_all runs q1 = fresh_runs runs p" using s(3) [OF None] Cons.prems by (intro Cons.IH) simp_all
    then show ?thesis using s(1,2) None q by (simp add: r split: sum.split)
  next
    case (Some x)
    then show ?thesis using s(1) q by (simp add: r)
  qed
qed simp

lemma newPath_fresh: "newPath t r = Inr p \<Longrightarrow> pd_longCP p = None"
  by (auto simp: newPath_def Let_def zero_path_def split: if_splits sum.splits)


lemma text_5: "nat_text 5 = ''5''" by code_simp


end
