(* ===== verification/Hf_Limits.thy ===== *)
theory Hf_Limits
  imports Hf_Facts "HOL-Library.Multiset"
begin

text \<open>
  Properties of parts of the HF model: percentages stay percentages, the two spreads, the interpolation between the
  field strengths of the short and the long model, the dominant mode, the sort by exchange, the probability of a
  mode, the accesses to the maps and to the table of the long model, and the download of the data set.
\<close>

section \<open>Percentages\<close>

lemma achieved_percent:
  assumes "0 < up" "0 < low"
  shows "0 \<le> achieved v required up low" "achieved v required up low \<le> 100"
proof -
  have a: "80 / (1 + x / low) \<le> 80" "80 / (1 + x / up) \<le> 80" if "0 \<le> x" for x :: real
    using assms that by (simp_all add: divide_le_eq add_pos_nonneg)
  show "0 \<le> achieved v required up low" using a(1) [of "v - required"] by (auto simp: achieved_def cMin_def cMax_def)
  show "achieved v required up low \<le> 100" using a(2) [of "required - v"] by (auto simp: achieved_def cMin_def cMax_def)
qed

definition BCR_ok :: "pathData \<Rightarrow> bool" where
  "BCR_ok p \<longleftrightarrow> 0 \<le> re_BCR (pd_rel p) \<and> re_BCR (pd_rel p) \<le> 100"

lemma signal_to_noise_BCR: "BCR_ok (signal_to_noise s p)"
  by (auto simp: BCR_ok_def signal_to_noise_def Let_def duSh_def dlSh_def add_nonneg_pos intro!: achieved_percent)

lemma rel_BCR: "re_BCR (pd_rel (digital_spread p)) = re_BCR (pd_rel p)" "re_BCR (pd_rel (snr_percentile p)) = re_BCR (pd_rel p)"
  "re_BCR (pd_rel (equatorialScattering p iS)) = re_BCR (pd_rel p)" "re_MIR (pd_rel (equatorialScattering p iS)) = re_MIR (pd_rel p)"
  "re_OCR (pd_rel (equatorialScattering p iS)) = re_OCR (pd_rel p)" "re_MIR (pd_rel (snr_percentile p)) = re_MIR (pd_rel p)"
  "re_OCR (pd_rel (snr_percentile p)) = re_OCR (pd_rel p)"
  by (simp_all add: digital_spread_def snr_percentile_def equatorialScattering_def Let_def del: split_paired_Ex)

lemma overall_percent:
  assumes "overall_reliability s iS iI p = (q, early)" "BCR_ok p"
  shows "BCR_ok q" "0 \<le> re_MIR (pd_rel q)" "re_MIR (pd_rel q) \<le> 100" "0 \<le> re_OCR (pd_rel q)" "re_OCR (pd_rel q) \<le> re_BCR (pd_rel q)"
proof -
  have o: "re_BCR (pd_rel q) = re_BCR (pd_rel p)" "0 \<le> re_MIR (pd_rel q) \<and> re_MIR (pd_rel q) \<le> 100"
    "re_OCR (pd_rel q) = re_BCR (pd_rel p) * re_MIR (pd_rel q) / 100"
    using assms(1) by (auto simp: overall_reliability_def Let_def rel_BCR duSh_def dlSh_def add_pos_nonneg intro!: achieved_percent split: if_splits)
  show "BCR_ok q" using assms(2) o(1) by (simp add: BCR_ok_def)
  show "0 \<le> re_MIR (pd_rel q)" "re_MIR (pd_rel q) \<le> 100" using o(2) by blast+
  show "0 \<le> re_OCR (pd_rel q)" using o assms(2) unfolding BCR_ok_def o(3) by (intro divide_nonneg_nonneg mult_nonneg_nonneg) simp_all
  show "re_OCR (pd_rel q) \<le> re_BCR (pd_rel q)" using o assms(2) mult_left_mono [of "re_MIR (pd_rel q)" 100 "re_BCR (pd_rel p)"] by (simp add: BCR_ok_def)
qed

lemma part3_frame: "keeps_frame (signal_to_noise s)" "keeps_frame digital_spread" "keeps_frame snr_percentile"
  by (simp_all add: keeps_frame_def signal_to_noise_def digital_spread_def snr_percentile_def Let_def)

lemma signal_rel:
  assumes "(if pi_Modulation (pd_in p) = analog then (lv_Pr (pd_levels p), [], [], p) else digitalModulationSignalandInterferers p) = (s, iS, iI, r)"
  shows "pd_rel r = pd_rel p" "pd_in r = pd_in p" "pd_distance r = pd_distance p"
  using assms by (auto simp: digitalModulationSignalandInterferers_def Let_def set_delays_def split: if_splits)

lemma noise_rel: "re_MIR (pd_rel (digital_spread (signal_to_noise s p))) = re_MIR (pd_rel p)"
  "re_OCR (pd_rel (digital_spread (signal_to_noise s p))) = re_OCR (pd_rel p)"
  by (simp_all add: digital_spread_def signal_to_noise_def Let_def)

lemma reliability_ranges:
  "0 \<le> re_BCR (pd_rel (circuitReliability p)) \<and> re_BCR (pd_rel (circuitReliability p)) \<le> 100 \<and>
   (let re = pd_rel (circuitReliability p) in
    if pi_Modulation (pd_in p) = digital \<and> pd_distance p \<le> 9000
    then 0 \<le> re_MIR re \<and> re_MIR re \<le> 100 \<and> 0 \<le> re_OCR re \<and> re_OCR re \<le> re_BCR re
    else re_MIR re = re_MIR (pd_rel p) \<and> re_OCR re = re_OCR (pd_rel p))"
proof -
  obtain s iS iI r where r: "(if pi_Modulation (pd_in p) = analog then (lv_Pr (pd_levels p), [], [], p) else digitalModulationSignalandInterferers p) = (s, iS, iI, r)"
    by (metis prod_cases4)
  note e = signal_rel [OF r]
  let ?q = "digital_spread (signal_to_noise s r)"
  have f: "pd_in ?q = pd_in p" "pd_distance ?q = pd_distance p"
    using frame_in [of ?q r] part3_frame e by (simp_all add: keeps_frame_def)
  have b: "BCR_ok ?q" using signal_to_noise_BCR [of s r] by (simp add: BCR_ok_def rel_BCR)
  obtain t early where t: "overall_reliability s iS iI ?q = (t, early)" by fastforce
  note o = overall_percent [OF t b]
  have c: "circuitReliability p = (if pi_Modulation (pd_in p) = digital \<and> pd_distance p \<le> 9000
      then if early then t else snr_percentile t else snr_percentile ?q)"
    unfolding circuitReliability_def r by (simp add: Let_def f t)
  show ?thesis
  proof (cases "pi_Modulation (pd_in p) = digital \<and> pd_distance p \<le> 9000")
    case True
    then show ?thesis using o by (simp add: c BCR_ok_def rel_BCR)
  next
    case False
    then have "circuitReliability p = snr_percentile ?q" by (subst c) (simp only: if_False)
    then show ?thesis using b False by (simp only: if_False Let_def rel_BCR noise_rel e BCR_ok_def simp_thms)
  qed
qed

text \<open>C25: The reliabilities a calculation reports are percentages: the basic circuit reliability always lies between 0 and
  100; for digital modulation up to 9000 km, with or without interfering modes, so does the multimode interference
  ratio, and the overall reliability lies between 0 and the basic one; otherwise both keep their value.\<close>

theorem reliability_percent:
  "0 \<le> re_BCR (pd_rel (circuitReliability p)) \<and> re_BCR (pd_rel (circuitReliability p)) \<le> 100 \<and>
   (let re = pd_rel (circuitReliability p) in
    if pi_Modulation (pd_in p) = digital \<and> pd_distance p \<le> 9000
    then 0 \<le> re_MIR re \<and> re_MIR re \<le> 100 \<and> 0 \<le> re_OCR re \<and> re_OCR re \<le> re_BCR re
    else re_MIR re = re_MIR (pd_rel p) \<and> re_OCR re = re_OCR (pd_rel p))"
  by (rule reliability_ranges)

section \<open>The required spread\<close>

text \<open>The probabilities RT and RF that a required spread is not exceeded are the wrong way round: when the spread of
  the circuit is at least twice the required one the answer is 100 percent, when it is at most a quarter of it the
  answer is 0, and just above the required one it drops below zero. (The two deciles are the share q of the spread
  itself, 0.15 for the time spread and 0.1 for the frequency spread.)\<close>

theorem spread_reversed:
  assumes "0 < required" "0 < q" "q \<le> 0.15" "0 < v"
  shows "(2 * required \<le> v \<longrightarrow> spread_kept v required (q * v) (q * v) = 100)
    \<and> (v \<le> required / 4 \<longrightarrow> spread_kept v required (q * v) (q * v) = 0)
    \<and> (v = required / (1 - q / 2) \<longrightarrow> spread_kept v required (q * v) (q * v) = - 30)"
proof (intro conjI impI)
  have p: "0 < q * v" using assms by simp
  have w: "q * v \<le> 1 / 2 * v" using assms by (intro mult_right_mono) simp_all
  show "spread_kept v required (q * v) (q * v) = 100" if v: "2 * required \<le> v"
  proof -
    have "q * v \<le> v - required" using v w assms(4) by linarith
    then have "(required - v) / (q * v) \<le> - 1" using p by (simp add: divide_le_eq)
    then have "80 / (1 + (required - v) / (q * v)) \<le> 0" by (intro divide_nonneg_nonpos) simp_all
    then have "\<not> 130 - 80 / (1 + (required - v) / (q * v)) < 100" "required \<le> v" using v assms(1) by linarith+
    then show ?thesis by (simp only: spread_kept_def cMin_def if_True if_False)
  qed
  show "spread_kept v required (q * v) (q * v) = 0" if v: "v \<le> required / 4"
  proof -
    have "v - required \<le> - (q * v)" using v w assms(4) by linarith
    then have "(v - required) / (q * v) \<le> - 1" using p by (simp add: divide_le_eq)
    then have "80 / (1 + (v - required) / (q * v)) \<le> 0" by (intro divide_nonneg_nonpos) simp_all
    then have "\<not> 80 / (1 + (v - required) / (q * v)) - 30 > 0" "\<not> required \<le> v" using v assms(1) by linarith+
    then show ?thesis by (simp only: spread_kept_def cMax_def if_True if_False)
  qed
  show "spread_kept v required (q * v) (q * v) = - 30" if v: "v = required / (1 - q / 2)"
  proof -
    have "required = v * (1 - q / 2)" using v assms by simp
    then have "(required - v) / (q * v) = - (1 / 2)" "required \<le> v" using assms p by (simp_all add: field_simps)
    then show ?thesis by (simp add: spread_kept_def cMin_def)
  qed
qed

theorem spread_reversed_witness:
  "spread_kept 4 2 (0.15 * 4) (0.15 * 4) = 100 \<and> spread_kept 0.5 2 (0.15 * 0.5) (0.15 * 0.5) = 0"
  using spread_reversed [of 2 "0.15" 4] spread_reversed [of 2 "0.15" "0.5"] by simp

section \<open>Interpolation\<close>

text \<open>Between 7000 and 9000 km the interpolated field strength lies between those of the short and the long model,
  and the two ends meet them: it is Es at 7000 km and El at 9000 km.\<close>

theorem Ei_between:
  assumes d: "7000 \<le> d" "d \<le> 9000"
  shows "min es el \<le> interpolated_Ei d es el \<and> interpolated_Ei d es el \<le> max es el
    \<and> interpolated_Ei 7000 es el = es \<and> interpolated_Ei 9000 es el = el"
proof -
  have l: "100 * log 10 (10 powr (x / 100)) = x" for x :: real by (simp add: log_powr)
  have ends: "interpolated_Ei 7000 es el = es" "interpolated_Ei 9000 es el = el" by (simp_all add: interpolated_Ei_def l Let_def)
  define t where "t = (d - 7000) / 2000"
  have t: "0 \<le> t" "t \<le> 1" using d by (simp_all add: t_def)
  define a b where "a = (10::real) powr (es / 100)" and "b = (10::real) powr (el / 100)"
  have p: "0 < a" "0 < b" by (simp_all add: a_def b_def)
  have i: "interpolated_Ei d es el = 100 * log 10 (a + t * (b - a))" by (simp add: interpolated_Ei_def a_def b_def t_def Let_def)
  have m: "min a b \<le> a + t * (b - a) \<and> a + t * (b - a) \<le> max a b"
  proof (cases "a \<le> b")
    case True
    then have "t * (b - a) \<le> 1 * (b - a)" "0 \<le> t * (b - a)" using t by (intro mult_right_mono, simp_all)
    then show ?thesis using True by simp
  next
    case False
    then have u: "t * (a - b) \<le> 1 * (a - b)" "0 \<le> t * (a - b)" using t by (intro mult_right_mono, simp_all)
    have e: "a + t * (b - a) = a - t * (a - b)" by (simp add: algebra_simps)
    define u where "u = t * (a - b)"
    have "0 \<le> u" "u \<le> a - b" "b < a" using u False by (simp_all add: u_def)
    then show ?thesis unfolding e u_def [symmetric] by (simp add: min_def max_def)
  qed
  have q: "0 < min a b" using p by simp
  have "log 10 (min a b) \<le> log 10 (a + t * (b - a))" "log 10 (a + t * (b - a)) \<le> log 10 (max a b)"
    using m q by (auto intro!: log_mono)
  moreover have "min a b = 10 powr (min es el / 100)" "max a b = 10 powr (max es el / 100)"
    by (auto simp: a_def b_def min_def max_def)
  then have "100 * log 10 (min a b) = min es el" "100 * log 10 (max a b) = max es el" by (simp_all only: l)
  ultimately show ?thesis unfolding ends by (simp add: i)
qed

theorem Ei_between_witness: "min 30 20 \<le> interpolated_Ei 8000 30 20 \<and> interpolated_Ei 8000 30 20 \<le> max 30 20"
  using Ei_between [of 8000 30 20] by simp

section \<open>The probability of a mode\<close>

text \<open>The probability that a mode is supported is a share, not a percentage: with decile factors around one, it lies
  between a half and one below the median MUF, between zero and a half from there on, and decreases with the
  frequency.\<close>

theorem mode_probability_share:
  assumes "0 < muf" "0 < f" "deltal < 1" "1 < deltau" "f \<le> g"
  shows "(if f < muf then 0.5 \<le> mode_probability f muf deltal deltau \<and> mode_probability f muf deltal deltau \<le> 1
      else 0 \<le> mode_probability f muf deltal deltau \<and> mode_probability f muf deltal deltau \<le> 0.5)
    \<and> mode_probability g muf deltal deltau \<le> mode_probability f muf deltal deltau"
proof -
  define lower upper where "lower x = 0.8 / (1 + (1 - x / muf) / (1 - deltal))" and "upper x = 0.8 / (1 + (x / muf - 1) / (deltau - 1))" for x
  have m: "mode_probability x muf deltal deltau = (if x < muf then cMin (1.3 - lower x) 1 else cMax (upper x - 0.3) 0)" for x
    by (simp add: mode_probability_def lower_def upper_def)
  have share_of: "0 < 0.8 / c \<and> 0.8 / c \<le> 0.8" if "1 \<le> c" for c :: real using that by (simp add: divide_le_eq)
  have l: "0 < lower x \<and> lower x \<le> 0.8" if "x < muf" for x
  proof -
    have "0 < (1 - x / muf) / (1 - deltal)" using that assms by simp
    then have "1 \<le> 1 + (1 - x / muf) / (1 - deltal)" by linarith
    then show ?thesis unfolding lower_def by (rule share_of)
  qed
  have u: "0 < upper x \<and> upper x \<le> 0.8" if "muf \<le> x" for x
  proof -
    have "0 \<le> (x / muf - 1) / (deltau - 1)" using that assms by simp
    then have "1 \<le> 1 + (x / muf - 1) / (deltau - 1)" by simp
    then show ?thesis unfolding upper_def by (rule share_of)
  qed
  have share: "if f < muf then 0.5 \<le> mode_probability f muf deltal deltau \<and> mode_probability f muf deltal deltau \<le> 1
      else 0 \<le> mode_probability f muf deltal deltau \<and> mode_probability f muf deltal deltau \<le> 0.5"
    using l [of f] u [of f] by (auto simp: m cMin_def cMax_def)
  note fg = assms(5)
  have "mode_probability g muf deltal deltau \<le> mode_probability f muf deltal deltau"
  proof -
    have q: "f / muf \<le> g / muf" using fg assms(1) by (simp add: divide_right_mono)
    consider "g < muf" | "f < muf" "muf \<le> g" | "muf \<le> f" using fg by linarith
    then show ?thesis
    proof cases
      case 1
      have "(1 - g / muf) / (1 - deltal) \<le> (1 - f / muf) / (1 - deltal)" using q assms by (intro divide_right_mono) simp_all
      moreover have "0 < (1 - g / muf) / (1 - deltal)" using 1 assms by simp
      ultimately have "lower f \<le> lower g" unfolding lower_def by (intro divide_left_mono) simp_all
      then show ?thesis using 1 fg by (auto simp: m cMin_def)
    next
      case 2
      then show ?thesis using l [of f] u [of g] by (auto simp: m cMin_def cMax_def)
    next
      case 3
      have "(f / muf - 1) / (deltau - 1) \<le> (g / muf - 1) / (deltau - 1)" using q assms by (intro divide_right_mono) simp_all
      moreover have "0 \<le> (f / muf - 1) / (deltau - 1)" using 3 assms by simp
      ultimately have "upper g \<le> upper f" unfolding upper_def by (intro divide_left_mono) simp_all
      then show ?thesis using 3 fg by (auto simp: m cMax_def)
    qed
  qed
  then show ?thesis using share by blast
qed

theorem mode_probability_share_witness:
  "0.5 \<le> mode_probability 7 14 0.85 1.15 \<and> mode_probability 7 14 0.85 1.15 \<le> 1 \<and> mode_probability 9 14 0.85 1.15 \<le> mode_probability 7 14 0.85 1.15"
  using mode_probability_share [of 14 7 "0.85" "1.15" 9] by simp

section \<open>Reading the maps\<close>

lemma pi_bound: "pi < (3.16::real)"
proof (rule ccontr)
  assume "\<not> pi < 3.16"
  then have "0 \<le> cos (1.58::real)" by (intro cos_ge_zero) simp_all
  moreover obtain t where "cos (1.58::real) = (\<Sum>m<8. cos_coeff m * 1.58 ^ m) + (cos (t + 1 / 2 * real 8 * pi) / fact 8) * 1.58 ^ 8"
    using Maclaurin_cos_expansion [of "1.58" 8] by blast
  moreover have "cos (t + 1 / 2 * real 8 * pi) / fact 8 * (1.58::real) ^ 8 \<le> 1 / fact 8 * 1.58 ^ 8"
    by (intro mult_right_mono divide_right_mono) simp_all
  moreover have "{..<8} = {0, 1, 2, 3, 4, 5, 6, 7::nat}" by auto
  then have "(\<Sum>m<8. cos_coeff m * (1.58::real) ^ m) + 1 / fact 8 * 1.58 ^ 8 < 0"
    by (simp add: cos_coeff_def fact_numeral power_divide)
  ultimately show False by linarith
qed

lemma r_atan2_bounds: "\<bar>r_atan2 y x\<bar> \<le> pi" "0 \<le> x \<Longrightarrow> \<bar>r_atan2 y x\<bar> \<le> pi / 2"
proof -
  have a: "- (pi / 2) < arctan (y / x)" "arctan (y / x) < pi / 2" using arctan_bounded by blast+
  then have b: "\<bar>arctan (y / x)\<bar> < pi / 2" by (simp add: abs_less_iff)
  have n: "x < 0 \<Longrightarrow> 0 \<le> y \<Longrightarrow> arctan (y / x) \<le> 0" "x < 0 \<Longrightarrow> y < 0 \<Longrightarrow> 0 \<le> arctan (y / x)"
    by (simp_all add: arctan_le_zero_iff zero_le_arctan_iff divide_nonneg_neg divide_nonpos_neg)
  show "\<bar>r_atan2 y x\<bar> \<le> pi" using a n pi_gt_zero by (simp add: r_atan2_def abs_le_iff)
  show "0 \<le> x \<Longrightarrow> \<bar>r_atan2 y x\<bar> \<le> pi / 2" using b pi_gt_zero by (simp add: r_atan2_def)
qed

text \<open>Positions with the slack the truncated constants of the code need.\<close>

definition on_globe :: "location \<Rightarrow> bool" where
  "on_globe l \<longleftrightarrow> \<bar>l_lat l\<bar> \<le> 1.58 \<and> \<bar>l_lng l\<bar> \<le> 3.16"

lemma point_on_globe:
  assumes "\<not> off_globe a"
  shows "on_globe (cp_L (greatCirclePoint a b c d f))"
proof (cases "d = 0")
  case True
  then show ?thesis using assms by (simp add: greatCirclePoint_def on_globe_def off_globe_def c_pi_def)
next
  case False
  have "\<bar>r_atan2 y (sqrt (u\<^sup>2 + v\<^sup>2))\<bar> \<le> 1.58" "\<bar>r_atan2 y x\<bar> \<le> 3.16" for x y u v
    using r_atan2_bounds(1) [of y x] r_atan2_bounds(2) [of "sqrt (u\<^sup>2 + v\<^sup>2)" y] pi_bound by simp_all
  then show ?thesis using False by (simp add: greatCirclePoint_def on_globe_def Let_def)
qed

lemma trunc_bound: "\<bar>x\<bar> < real n + 1 \<Longrightarrow> \<bar>trunc x\<bar> \<le> int n"
  unfolding trunc_def by (auto simp: abs_le_iff) linarith+

lemma grid_index:
  assumes "on_globe l"
  shows "\<bar>trunc (l_lat l / map_inc)\<bar> \<le> 60" "\<bar>trunc (l_lng l / map_inc)\<bar> \<le> 120"
proof -
  have "\<bar>l_lat l / map_inc\<bar> < real 60 + 1" "\<bar>l_lng l / map_inc\<bar> < real 120 + 1"
    using assms by (simp_all add: on_globe_def abs_divide abs_mult map_inc_def d2r_def)
  then show "\<bar>trunc (l_lat l / map_inc)\<bar> \<le> 60" "\<bar>trunc (l_lng l / map_inc)\<bar> \<le> 120" using trunc_bound by fastforce+
qed

lemma trunc_sign: "0 \<le> x \<Longrightarrow> 0 \<le> trunc x" "x < 0 \<Longrightarrow> trunc x \<le> 0"
  by (simp_all add: trunc_def)

definition grid_points :: "location \<Rightarrow> (int \<times> int) set" where
  "grid_points l = (case neighbours l of (a, b, c, d) \<Rightarrow> {a, b, c, d})"

lemma grid_points_range:
  assumes "on_globe l" "(j, k) \<in> grid_points l"
  shows "0 \<le> j \<and> j \<le> 240 \<and> 0 \<le> k \<and> k \<le> 120"
proof -
  define x y where "x = trunc (l_lat l / map_inc)" and "y = trunc (l_lng l / map_inc)"
  have b: "\<bar>x\<bar> \<le> 60" "\<bar>y\<bar> \<le> 120" using grid_index [OF assms(1)] by (simp_all add: x_def y_def)
  have "0 < map_inc" by (simp add: map_inc_def d2r_def)
  then have s: "0 \<le> l_lat l \<Longrightarrow> 0 \<le> x" "l_lat l < 0 \<Longrightarrow> x \<le> 0" "0 \<le> l_lng l \<Longrightarrow> 0 \<le> y" "l_lng l < 0 \<Longrightarrow> y \<le> 0"
    unfolding x_def y_def by (auto intro!: trunc_sign divide_neg_pos)
  have p: "(j, k) \<in> grid_points l" by (rule assms)
  consider "0 \<le> l_lat l" "0 \<le> l_lng l" | "0 \<le> l_lat l" "l_lng l < 0" | "l_lat l < 0" "0 \<le> l_lng l" | "l_lat l < 0" "l_lng l < 0" by linarith
  then show ?thesis
    by cases (use p b s in \<open>auto simp: grid_points_def neighbours_def Let_def x_def [symmetric] y_def [symmetric] split: if_splits\<close>)
qed



section \<open>The table of the long model\<close>

lemma fewest_hops_least:
  assumes "0 < limit"
  shows "distance / (real (fewest_hops limit distance n) + 1) \<le> limit \<and> n \<le> fewest_hops limit distance n \<and>
    (\<forall>m. n \<le> m \<and> m < fewest_hops limit distance n \<longrightarrow> distance / (real m + 1) > limit)"
  using assms
proof (induction limit distance n rule: fewest_hops.induct)
  case (1 limit distance n)
  show ?case
  proof (cases "distance / (real n + 1) > limit")
    case True
    then have e: "fewest_hops limit distance n = fewest_hops limit distance (n + 1)" using 1(2) by (simp add: fewest_hops.simps [of limit distance n])
    have "m = n \<or> n + 1 \<le> m" if "n \<le> m" for m using that by linarith
    then show ?thesis using 1(1) True 1(2) unfolding e by (metis Suc_eq_plus1 Suc_leD)
  next
    case False
    then have "fewest_hops limit distance n = n" by (simp add: fewest_hops.simps [of limit distance n])
    then show ?thesis using False by simp
  qed
qed

text \<open>The table of the long model has room for the penetration points of every hop of a path up to 42000 km (no
  path is longer than the equator), but beyond 39000 km, the long way between stations less than about 1000 km apart,
  the last hop has no rows of its own: its penetration points are overwritten by the control points of Table 1a.\<close>

theorem long_table_room:
  assumes "d \<le> 42000"
  shows "2 * nL d + 1 < maxCP \<and>
    (if d \<le> 39000 then 2 * nL d + 1 < tdM2
     else 2 * nL d = tdM2 \<and> long_column i d x (nL d) nm ! (2 * nL d) = reference_point i d (1 / (2 * real (nm + 1)))
       \<and> long_column i d x (nL d) nm ! (2 * nL d + 1) = reference_point i d (1 - 1 / (2 * real (nm + 1))))"
proof -
  have h: "d / (real (nL d) + 1) \<le> 3000" "\<And>m. m < nL d \<Longrightarrow> d / (real m + 1) > 3000" using fewest_hops_least [of 3000 d 0] by (simp_all add: nL_def)
  have up: "nL d \<le> n" if "d \<le> 3000 * (real n + 1)" for n
  proof (rule ccontr)
    assume "\<not> nL d \<le> n"
    then have "d / (real n + 1) > 3000" using h(2) by simp
    then show False using that by (simp add: field_simps)
  qed
  have low: "13 \<le> nL d" if "39000 < d"
  proof -
    have "d \<le> 3000 * (real (nL d) + 1)" using h(1) by (simp add: pos_divide_le_eq)
    then have "12 < real (nL d)" using that by argo
    then show ?thesis by simp
  qed
  have l: "length (fold (\<lambda>k cps. cps[2 * k := f k, 2 * k + 1 := g k]) ns cps) = length cps" for f g and ns :: "nat list" and cps :: "controlPt list"
    by (induction ns arbitrary: cps) simp_all
  have u: "xs[tdM2 := v, rdM2 := w] ! tdM2 = v \<and> xs[tdM2 := v, rdM2 := w] ! rdM2 = w" if "length xs = maxCP" for xs :: "controlPt list" and v w
    using that by (simp add: maxCP_def tdM2_def rdM2_def)
  have c: "long_column i d x (nL d) nm ! tdM2 = reference_point i d (1 / (2 * real (nm + 1))) \<and>
    long_column i d x (nL d) nm ! rdM2 = reference_point i d (1 - 1 / (2 * real (nm + 1)))"
    unfolding long_column_def Let_def by (rule u) (simp only: l length_replicate)
  show ?thesis
  proof (cases "d \<le> 39000")
    case True
    then show ?thesis using up [of 12] by (simp add: maxCP_def tdM2_def)
  next
    case False
    then have "nL d = 13" using low up [of 13] assms by simp
    then show ?thesis using c False by (simp add: maxCP_def tdM2_def rdM2_def)
  qed
qed

theorem long_table_room_witness: "2 * nL 39500 = tdM2 \<and> 2 * nL 39500 + 1 < maxCP"
  using long_table_room [of 39500] by (simp add: maxCP_def tdM2_def)

section \<open>The download of the data set\<close>

lemma fetchFile_effect:
  assumes "fetchFile w dir (name, pinned) fs = (fs1, e)" "p = dir @ ''/'' @ name" "q = p @ ''.part''"
  shows "\<And>x. x \<noteq> p \<Longrightarrow> x \<noteq> q \<Longrightarrow> fs1 x = fs x"
    and "fs1 p = fs p \<or> (\<exists>body. fs1 p = Some body \<and> fw_sha256 w body = pinned)"
    and "e = None \<Longrightarrow> \<exists>body. fs1 p = Some body \<and> fw_sha256 w body = pinned"
proof -
  have c: "fs1 = fs \<and> e \<noteq> None \<or> (\<exists>b. fs1 = fs(q \<mapsto> b) \<and> e \<noteq> None) \<or> (\<exists>b. fs1 = (fs(q \<mapsto> b))(q := None) \<and> e \<noteq> None)
      \<or> (\<exists>b. fs1 = ((fs(q \<mapsto> b))(q := None))(p \<mapsto> b) \<and> fw_sha256 w b = pinned \<and> e = None)"
    using assms by (auto simp: fetchFile_def Let_def split: sum.splits option.splits if_splits)
  have ne: "p \<noteq> q" by (simp add: assms(3))
  show "x \<noteq> p \<Longrightarrow> x \<noteq> q \<Longrightarrow> fs1 x = fs x" for x using c by auto
  show "fs1 p = fs p \<or> (\<exists>body. fs1 p = Some body \<and> fw_sha256 w body = pinned)" using c ne by auto
  show "e = None \<Longrightarrow> \<exists>body. fs1 p = Some body \<and> fw_sha256 w body = pinned" using c by auto
qed

definition verified :: "fetch_world \<Rightarrow> string \<Rightarrow> string \<times> string \<Rightarrow> (string \<rightharpoonup> string) \<Rightarrow> bool" where
  "verified w dir f fs \<longleftrightarrow> (\<exists>body. fs (dir @ ''/'' @ fst f) = Some body \<and> fw_sha256 w body = snd f)"

lemma fetchFiles_verified:
  assumes "fetchFiles w dir files fs = (fs', r)" "distinct (map fst files)" "\<forall>n\<in>set (map fst files). \<forall>m\<in>set (map fst files). n \<noteq> m @ ''.part''"
  shows "(\<forall>f\<in>set files. fs' (dir @ ''/'' @ fst f) = fs (dir @ ''/'' @ fst f) \<or> verified w dir f fs') \<and> (r = None \<longrightarrow> (\<forall>f\<in>set files. verified w dir f fs'))
    \<and> (\<forall>x. (\<forall>f\<in>set files. x \<noteq> dir @ ''/'' @ fst f \<and> x \<noteq> dir @ ''/'' @ fst f @ ''.part'') \<longrightarrow> fs' x = fs x)"
  using assms
proof (induction files arbitrary: fs)
  case (Cons f rest)
  obtain name pinned where f: "f = (name, pinned)" by fastforce
  obtain fs1 e where e: "fetchFile w dir f fs = (fs1, e)" by fastforce
  let ?p = "dir @ ''/'' @ name"
  note eff = fetchFile_effect [OF e [unfolded f] refl refl]
  have other: "fs1 (dir @ ''/'' @ fst g) = fs (dir @ ''/'' @ fst g)" if "g \<in> set rest" for g
  proof (rule eff(1))
    show "dir @ ''/'' @ fst g \<noteq> ?p" using that Cons.prems(2) f by auto
    show "dir @ ''/'' @ fst g \<noteq> ?p @ ''.part''" using that Cons.prems(3) f by auto
  qed
  show ?case
  proof (cases e)
    case (Some x)
    then have fs': "fs' = fs1" "r \<noteq> None" using Cons.prems(1) e by auto
    then show ?thesis using eff other by (auto simp: verified_def f)
  next
    case None
    then have rest: "fetchFiles w dir rest fs1 = (fs', r)" using Cons.prems(1) e by simp
    have ih: "(\<forall>g\<in>set rest. fs' (dir @ ''/'' @ fst g) = fs1 (dir @ ''/'' @ fst g) \<or> verified w dir g fs') \<and> (r = None \<longrightarrow> (\<forall>g\<in>set rest. verified w dir g fs'))
      \<and> (\<forall>x. (\<forall>g\<in>set rest. x \<noteq> dir @ ''/'' @ fst g \<and> x \<noteq> dir @ ''/'' @ fst g @ ''.part'') \<longrightarrow> fs' x = fs1 x)"
      using Cons.prems(2,3) by (intro Cons.IH rest) auto
    have "fs' ?p = fs1 ?p"
    proof -
      have "?p \<noteq> dir @ ''/'' @ fst g \<and> ?p \<noteq> dir @ ''/'' @ fst g @ ''.part''" if "g \<in> set rest" for g
        using that Cons.prems(2,3) f by auto
      then show ?thesis using ih by blast
    qed
    then have "verified w dir f fs'" using eff(3) None by (simp add: verified_def f)
    moreover have "fs' x = fs x" if "\<forall>g\<in>set (f # rest). x \<noteq> dir @ ''/'' @ fst g \<and> x \<noteq> dir @ ''/'' @ fst g @ ''.part''" for x
    proof -
      have "fs' x = fs1 x" using that ih by auto
      also have "fs1 x = fs x" using that f by (intro eff(1)) auto
      finally show ?thesis .
    qed
    ultimately show ?thesis using ih other by auto
  qed
qed simp

text \<open>C26: A wrong or tampered copy of a data file never reaches the model: after a download, whatever arrived and wherever
  it failed, every file of the list is either as it was or has the pinned checksum; after a download without error all
  of them have it; and no other file is touched but the partial copies.\<close>

theorem fetch_verified:
  assumes "Fetch w listing dir fs = (fs', r)" "distinct (map fst (dataFiles listing))"
    and "\<forall>n\<in>set (map fst (dataFiles listing)). \<forall>m\<in>set (map fst (dataFiles listing)). n \<noteq> m @ ''.part''"
  shows "(\<forall>f\<in>set (dataFiles listing). fs' (dir @ ''/'' @ fst f) = fs (dir @ ''/'' @ fst f) \<or> verified w dir f fs')
    \<and> (r = None \<longrightarrow> (\<forall>f\<in>set (dataFiles listing). verified w dir f fs'))
    \<and> (\<forall>x. (\<forall>f\<in>set (dataFiles listing). x \<noteq> dir @ ''/'' @ fst f \<and> x \<noteq> dir @ ''/'' @ fst f @ ''.part'') \<longrightarrow> fs' x = fs x)"
  using fetchFiles_verified [OF assms(1) [unfolded Fetch_def] assms(2,3)] .

definition demo_world :: fetch_world where
  "demo_world = \<lparr>fw_get = (\<lambda>_. Inr (''data'', None)), fw_create = (\<lambda>_. None), fw_close = (\<lambda>_. None), fw_rename = (\<lambda>_. None),
     fw_sha256 = (\<lambda>s. if s = ''data'' then ''ab'' else ''cd'')\<rparr>"

lemma demo_files: "dataFiles ''ab  f'' = [(''f'', ''ab'')]" by code_simp

theorem fetch_verified_witness: "verified demo_world ''d'' (''f'', ''ab'') (fst (Fetch demo_world ''ab  f'' ''d'' Map.empty))"
proof -
  have "snd (Fetch demo_world ''ab  f'' ''d'' Map.empty) = None"
    by (simp add: Fetch_def demo_files fetchFile_def demo_world_def Let_def)
  then show ?thesis using fetch_verified [of demo_world "''ab  f''" "''d''" Map.empty] by (simp add: demo_files prod_eq_iff)
qed

end
