(* ===== verification/Hf_Accepted.thy ===== *)
theory Hf_Accepted
  imports Hf_Claims Hf_Limits
begin

text \<open>
  Requests in the ranges of the model are never refused: which requests Predict answers with a point for every hour
  and frequency. The checks of validate, newPath and validatePath are shown to be the ranges of a record of inputs.
\<close>

section \<open>Ranges\<close>

definition between :: "real \<Rightarrow> real \<Rightarrow> real \<Rightarrow> bool" where
  "between lo hi x \<longleftrightarrow> lo \<le> x \<and> x \<le> hi"

definition end_ok :: "antenna_request \<Rightarrow> bool" where
  "end_ok a \<longleftrightarrow> ar_File a = [] \<and> ar_Data a = [] \<and> between (- 50) 60 (ar_GainOffset a)
     \<and> (\<forall>b. ar_Bearing a = Some b \<longrightarrow> between 0 360 b)
     \<and> (\<forall>g. ar_Pattern a = Some g \<longrightarrow> (\<forall>off el. \<not> not_finite (g (real off) (real el))))"

definition digital_ok :: "digitalParams \<Rightarrow> bool" where
  "digital_ok d \<longleftrightarrow> between (- 30) 200 (dp_RequiredSIR d) \<and> between 0 1000 (dp_F0 d) \<and> between 0 1000 (dp_T0 d)
     \<and> between 0 1000 (dp_A d) \<and> between 0 50 (dp_TW d) \<and> between 0 1000 (dp_FW d)"

definition places_ok :: "hf_request \<Rightarrow> bool" where
  "places_ok r \<longleftrightarrow> \<bar>rq_TxLat r\<bar> \<le> 90 \<and> \<bar>rq_TxLng r\<bar> \<le> 180 \<and> \<bar>rq_RxLat r\<bar> \<le> 90 \<and> \<bar>rq_RxLng r\<bar> \<le> 180"

definition runs_ok :: "hf_request \<Rightarrow> bool" where
  "runs_ok r \<longleftrightarrow> rq_Hours r \<noteq> [] \<and> (\<forall>h \<in> set (rq_Hours r). 1 \<le> h \<and> h \<le> 24)
     \<and> rq_Frequencies r \<noteq> [] \<and> (\<forall>f \<in> set (rq_Frequencies r). between 1 30 f)"

definition values_ok :: "hf_request \<Rightarrow> bool" where
  "values_ok r \<longleftrightarrow> 1900 \<le> rq_Year r \<and> rq_Year r \<le> 2100 \<and> 1 \<le> rq_Month r \<and> rq_Month r \<le> 12 \<and> 1 \<le> rq_SSN r \<and> rq_SSN r \<le> 311
     \<and> between (- 30) 60 (rq_TxPower r) \<and> between 0.005 3000000 (rq_Bandwidth r) \<and> between (- 30) 200 (rq_RequiredSNR r)
     \<and> 1 \<le> rq_SNRXXPercent r \<and> rq_SNRXXPercent r \<le> 99 \<and> (rq_Modulation r = digital \<or> rq_Modulation r = analog)"

definition request_ok :: "hf_request \<Rightarrow> bool" where
  "request_ok r \<longleftrightarrow> values_ok r \<and> runs_ok r \<and> digital_ok (rq_Digital r) \<and> places_ok r \<and> end_ok (rq_TxAntenna r) \<and> end_ok (rq_RxAntenna r)"

section \<open>The checks pass\<close>

lemma first_error_None: "first_error cs = None \<longleftrightarrow> (\<forall>c \<in> set cs. \<not> fst c)"
  by (auto simp: first_error_def find_None_iff)

lemma antenna_accepted: "end_ok a \<Longrightarrow> antenna_error a = None"
  by (auto simp: antenna_error_def first_error_None end_ok_def between_def tinyDB_def split: option.splits)

lemma validate_accepted: "request_ok r \<Longrightarrow> validate r = None"
proof -
  assume ok: "request_ok r"
  then have "runs_ok r" "values_ok r" by (simp_all add: request_ok_def)
  then have "first_error [(rq_Hours r = [], ErrNoHours), ((\<exists>h\<in>set (rq_Hours r). h < 1 \<or> h > 24), ErrHour),
      (rq_Frequencies r = [], ErrNoFrequencies), ((\<exists>f\<in>set (rq_Frequencies r). \<not> (1 \<le> f \<and> f \<le> 30)), ErrFrequency),
      (rq_Month r < 1 \<or> rq_Month r > 12, ErrMonth)] = None"
    by (auto simp: first_error_None runs_ok_def values_ok_def between_def)
  then show ?thesis using ok by (simp add: validate_def request_ok_def antenna_accepted)
qed

lemma c_pi_low: "3.14 < c_pi" "0 < c_pi" by (simp_all add: c_pi_def)

lemma bearing_range: "0 \<le> hf_bearing a b s \<and> hf_bearing a b s < 2 * c_pi"
proof -
  have m: "0 \<le> r_mod x (2 * c_pi) \<and> r_mod x (2 * c_pi) < 2 * c_pi" if "0 \<le> x" for x
    using r_mod_bounds(1,2) [of "2 * c_pi" x] c_pi_low that by simp
  have "0 \<le> 2 * c_pi + r_atan2 y x" for y x using r_atan2_bounds(1) [of y x] pi_bound c_pi_low by linarith
  then show ?thesis using m c_pi_low by (simp add: hf_bearing_def Let_def)
qed

lemma beam_range: "end_ok a \<Longrightarrow> 0 \<le> main_beam a (hf_bearing x y s) \<and> main_beam a (hf_bearing x y s) \<le> 2 * c_pi"
  using bearing_range [of x y s] by (auto simp: main_beam_def end_ok_def between_def d2r_def c_pi_def split: option.splits)

lemma pattern_accepted: "end_ok a \<Longrightarrow> \<exists>h. antennaPattern f a b = Inr h \<and> ha_pattern h \<noteq> None"
proof (cases "ar_Pattern a")
  case (Some g)
  assume "end_ok a"
  then have "find (\<lambda>(off, el). not_finite (g (real off) (real el))) (List.product [0..<antAzimuths] [0..<antElevations]) = None"
    using Some by (auto simp: find_None_iff end_ok_def)
  then show ?thesis using Some by (simp add: antennaPattern_def functionPattern_def Let_def)
qed (simp add: antennaPattern_def end_ok_def isotropicPattern_def)

text \<open>What newPath gives: a path whose input is in range once the data are there and a run is chosen.\<close>

definition path_ready :: "hf_request \<Rightarrow> path_input \<Rightarrow> bool" where
  "path_ready r i \<longleftrightarrow> (\<forall>h f. 1 \<le> h \<and> h \<le> 24 \<and> between 1 30 f \<longrightarrow>
     (\<forall>p. pd_in p = i\<lparr>pi_hour := h - 1, pi_frequency := f\<rparr> \<longrightarrow> validatePath p = None))
   \<and> pi_coeff i \<noteq> None \<and> pi_month i = rq_Month r - 1 \<and> pi_Modulation i = rq_Modulation r"

lemma newPath_accepted:
  assumes ok: "request_ok r"
  shows "\<exists>p. newPath t r = Inr p \<and> path_ready r (pd_in (with_data md g p))"
proof -
  define i where "i = path_of r"
  have e: "end_ok (rq_TxAntenna r)" "end_ok (rq_RxAntenna r)" using ok by (simp_all add: request_ok_def)
  obtain rx tx where rx: "antennaPattern t (rq_RxAntenna r) (main_beam (rq_RxAntenna r) (hf_bearing (pi_rx i) (pi_tx i) (pi_SorL i))) = Inr rx" "ha_pattern rx \<noteq> None"
    and tx: "antennaPattern t (rq_TxAntenna r) (main_beam (rq_TxAntenna r) (hf_bearing (pi_tx i) (pi_rx i) (pi_SorL i))) = Inr tx" "ha_pattern tx \<noteq> None"
    using pattern_accepted [OF e(1)] pattern_accepted [OF e(2)] by meson
  define p where "p = zero_path (i\<lparr>pi_Arx := rx, pi_Atx := tx\<rparr>) (rq_ManMadeNoise r)"
  have new: "newPath t r = Inr p"
    using beam_range [OF e(1), of "pi_tx i" "pi_rx i" "pi_SorL i"] beam_range [OF e(2), of "pi_rx i" "pi_tx i" "pi_SorL i"] rx tx
    by (simp add: newPath_def Let_def i_def [symmetric] wrapped_def p_def not_less)
  have globe: "\<not> off_globe \<lparr>l_lat = la * d2r, l_lng = lo * d2r\<rparr>" if "\<bar>la\<bar> \<le> 90" "\<bar>lo\<bar> \<le> 180" for la lo
    using that by (auto simp: off_globe_def c_pi_def d2r_def abs_mult)
  have "validatePath q = None" if "1 \<le> h \<and> h \<le> 24 \<and> between 1 30 f" "pd_in q = (pd_in (with_data md g p))\<lparr>pi_hour := h - 1, pi_frequency := f\<rparr>" for h f q
  proof -
    have "values_ok r" "digital_ok (rq_Digital r)" "places_ok r" using ok by (simp_all add: request_ok_def)
    then show ?thesis unfolding validatePath_def that(2) using that(1) rx(2) tx(2)
      by (auto simp: first_error_None with_data_def p_def zero_path_def i_def path_of_def Let_def values_ok_def digital_ok_def places_ok_def
        between_def outside_def globe)
  qed
  then have "path_ready r (pd_in (with_data md g p))"
    by (auto simp: path_ready_def) (simp_all add: with_data_def p_def zero_path_def i_def path_of_def Let_def)
  with new show ?thesis by blast
qed

section \<open>The runs succeed\<close>

text \<open>What a point of an accepted request is like: its percentages.\<close>

definition point_ok :: "hf_request \<Rightarrow> hf_point \<Rightarrow> bool" where
  "point_ok r p \<longleftrightarrow> pt_Month p = rq_Month r \<and> 0 \<le> re_BCR (pt_rel p) \<and> re_BCR (pt_rel p) \<le> 100
     \<and> (rq_Modulation r = digital \<and> pt_Distance p \<le> 9000 \<longrightarrow> 0 \<le> re_OCR (pt_rel p) \<and> re_OCR (pt_rel p) \<le> 100)"

lemma run_accepted:
  assumes i: "path_ready r (pd_in p)" and h: "1 \<le> h" "h \<le> 24" "between 1 30 f"
  shows "\<exists>q. calculate (at_run h f p) = (q, None) \<and> pd_in q = (pd_in p)\<lparr>pi_hour := h - 1, pi_frequency := f\<rparr> \<and> point_ok r (newPoint q)"
proof -
  let ?a = "at_run h f p"
  define b where "b = part2 (part1 (initializePath ?a))"
  have ai: "pd_in ?a = (pd_in p)\<lparr>pi_hour := h - 1, pi_frequency := f\<rparr>" by (simp add: at_run_def)
  then have v: "validatePath ?a = None" using i h by (simp add: path_ready_def)
  have bi: "pd_in b = pd_in ?a" using before_noise_frame(1) [of ?a] by (simp add: b_def before_noise_def)
  obtain co where "pi_coeff (pd_in b) = Some co" using i bi ai by (auto simp: path_ready_def)
  then obtain n where n: "noise_Compute (at_receiver b) (pi_coeff (pd_in b)) = Inr n"
    by (cases "no_ManMadeNoise (at_receiver b) < 0") (simp_all add: noise_Compute_def Let_def)
  let ?c = "b\<lparr>pd_noise := n\<rparr>" and ?q = "circuitReliability (b\<lparr>pd_noise := n\<rparr>)"
  have c: "calculate ?a = (?q, None)" using v n by (simp add: calculate_def Let_def b_def)
  have "frame ?q = frame ?c" by (simp add: frame_reliability)
  note f = frame_in [OF this]
  then have qi: "pd_in ?q = pd_in ?a" "pd_distance ?q = pd_distance ?c" using bi by simp_all
  have "point_ok r (newPoint ?q)"
    using reliability_ranges [of ?c] i ai bi qi
    by (auto simp: point_ok_def newPoint_def path_ready_def Let_def)
  with c qi ai show ?thesis by auto
qed

lemma path_ready_run: "path_ready r i \<Longrightarrow> path_ready r (i\<lparr>pi_hour := h, pi_frequency := f\<rparr>)"
  by (simp add: path_ready_def)

lemma run_all_accepted:
  assumes "path_ready r (pd_in p)" "\<forall>(h, f) \<in> set runs. 1 \<le> h \<and> h \<le> 24 \<and> between 1 30 f"
  shows "\<exists>pts. run_all runs p = Inr pts \<and> map (\<lambda>x. (pt_Hour x, pt_Frequency x)) pts = runs \<and> (\<forall>x \<in> set pts. point_ok r x)"
  using assms
proof (induction runs arbitrary: p)
  case (Cons x runs)
  obtain h f where x: "x = (h, f)" by fastforce
  obtain q where q: "calculate (at_run h f p) = (q, None)" "pd_in q = (pd_in p)\<lparr>pi_hour := h - 1, pi_frequency := f\<rparr>" "point_ok r (newPoint q)"
    using run_accepted [OF Cons.prems(1), of h f] Cons.prems(2) x by auto
  have "path_ready r (pd_in q)" using q(2) path_ready_run [OF Cons.prems(1)] by simp
  then obtain pts where pts: "run_all runs q = Inr pts" "map (\<lambda>x. (pt_Hour x, pt_Frequency x)) pts = runs" "\<forall>x \<in> set pts. point_ok r x"
    using Cons.IH Cons.prems(2) by auto
  have "pt_Hour (newPoint q) = h" "pt_Frequency (newPoint q) = f" by (simp_all add: newPoint_def q(2) Let_def)
  then show ?case using q pts x by auto
qed simp

lemma Predict_accepted:
  assumes "request_ok r" "month fs (rq_Month r - 1) d = (d1, Inr md)"
  shows "\<exists>pts. Predict fs r d = (d1, Inr pts) \<and> map (\<lambda>x. (pt_Hour x, pt_Frequency x)) pts = List.product (rq_Hours r) (rq_Frequencies r)
    \<and> (\<forall>x \<in> set pts. point_ok r x)"
proof -
  obtain p where p: "newPath (hd_text fs) r = Inr p" "path_ready r (pd_in (with_data md (hd_foF2var d1) p))"
    using newPath_accepted [OF assms(1)] by blast
  have "\<forall>(h, f) \<in> set (runs_of r). 1 \<le> h \<and> h \<le> 24 \<and> between 1 30 f"
    using assms(1) by (auto simp: runs_of_def request_ok_def runs_ok_def)
  from run_all_accepted [OF p(2) this] show ?thesis
    using validate_accepted [OF assms(1)] assms(2) p(1) by (auto simp: Predict_def runs_of_def)
qed

end
