(* ===== verification/Web_Job_Claims.thy ===== *)
theory Web_Job_Claims
  imports Web_Jobs Web_Facts Lease Job_Claims
begin

text \<open>
  What a request gets from the queue: the job of its own input, whatever the other requests and the
  workers do while it waits; how waiters are woken; what an event stream sends.
\<close>

section \<open>A job keeps its identity\<close>

text \<open>The row with the id i, as long as it is there, is the job of the owner with this kind and input.\<close>

definition pinned :: "int \<Rightarrow> int \<Rightarrow> string \<Rightarrow> bytes \<Rightarrow> db \<Rightarrow> bool" where
  "pinned i u k b d \<longleftrightarrow> i < next_id d \<and> (\<forall>r \<in> set (jobs d). j_id r = i \<longrightarrow> j_owner r = u \<and> j_kind r = k \<and> j_input r = b \<and> j_state r \<noteq> JobIdle)"

lemma pinned_frame [simp]: "pinned i u k b (d\<lparr>outbox := x\<rparr>) = pinned i u k b d" "pinned i u k b (d\<lparr>coverages := y\<rparr>) = pinned i u k b d"
  by (simp_all add: pinned_def)

interpretation pinned_calm: queue_invariant "pinned i u k b" for i u k b
proof
  show "pinned i u k b d \<Longrightarrow> jobs e = jobs d \<Longrightarrow> next_id d \<le> next_id e \<Longrightarrow> pinned i u k b e" for d e by (auto simp: pinned_def)
  show "pinned i u k b d \<Longrightarrow> pinned i u k b (d\<lparr>jobs := delete_where p (jobs d)\<rparr>)" for d p by (auto simp: pinned_def)
  show "pinned i u k b d \<Longrightarrow> pinned i u k b (snd (insert_job u' cov kd b' h now d))" for d u' cov kd b' h now
    by (auto simp: pinned_def insert_job_def new_job_def reset_job_def Let_def split: option.splits elim!: in_update_whereE dest!: find_SomeD)
qed

lemma pinned_update:
  "pinned i u k b d \<Longrightarrow> (\<And>r. same_key r (f r) \<and> j_state (f r) \<noteq> JobIdle) \<Longrightarrow> pinned i u k b (d\<lparr>jobs := update_where p f (jobs d)\<rparr>)"
  by (auto simp: pinned_def same_key_def elim!: in_update_whereE)

lemma pinned_settle: "pinned i u k b d \<Longrightarrow> (\<And>r. same_key r (f r) \<and> j_state (f r) \<noteq> JobIdle) \<Longrightarrow> pinned i u k b (settle_job ident f d)"
  using pinned_update [of i u k b d f] by (simp add: settle_job_def)

lemma pinned_claim: "pinned i u k b d \<Longrightarrow> pinned i u k b (snd (claim_job w c st now d))"
  by (auto simp: claim_job_def intro: pinned_update split: option.splits)

lemma pinned_worker:
  "keeps (\<lambda>s. pinned i u k b (tabs s)) (ClaimJob w c st)" "keeps (\<lambda>s. pinned i u k b (tabs s)) (FinishJob j r ms)"
  "keeps (\<lambda>s. pinned i u k b (tabs s)) (FailJob j m)" "keeps (\<lambda>s. pinned i u k b (tabs s)) (RequeueJob j)"
  "keeps (\<lambda>s. pinned i u k b (tabs s)) (FinishCoverageJob j c' png m' bo ms n)"
  unfolding ClaimJob_def FinishJob_def FailJob_def RequeueJob_def FinishCoverageJob_def Let_def
  by (auto intro!: keeps_intros pinned_claim pinned_settle pinned_update)

lemma pinned_call: "pinned i u k b (tabs s) \<Longrightarrow> pinned i u k b (tabs (run_call sha c s))"
proof (cases "client_call c")
  case True
  then show "pinned i u k b (tabs s) \<Longrightarrow> ?thesis" by (rule pinned_calm.client_keeps)
next
  case False
  then obtain q where c: "c = OnQueue q" by (cases c) auto
  show "pinned i u k b (tabs s) \<Longrightarrow> ?thesis"
    using False unfolding c by (cases q) (simp_all add: pinned_worker [THEN keepsD])
qed

lemma pinned_calls: "pinned i u k b d \<Longrightarrow> pinned i u k b (run_calls sha cs d)"
proof (induction cs arbitrary: d)
  case (Cons x cs)
  obtain now w c where x: "x = (now, w, c)" by (cases x)
  from Cons.prems have "pinned i u k b (tabs (run_call sha c \<lparr>tabs = d, clock = now, wire_script = w\<rparr>))"
    by (intro pinned_call) simp
  from Cons.IH [OF this] show ?case by (simp add: x)
qed simp

section \<open>The job of a request\<close>

lemma EnqueueJob_row:
  assumes "EnqueueJob sha u cov k b s = (Inr j, t)"
  shows "j \<in> set (jobs (tabs t)) \<and> j_owner j = u \<and> j_hash j = jobHash sha k b"
proof -
  let ?h = "jobHash sha k b"
  let ?mine = "\<lambda>d. j \<in> set (jobs d) \<and> j_owner j = u \<and> j_hash j = ?h"
  have look: "?mine (tabs z')" if "exec (existing_job u ?h) z = (Inr j, z')" for z z'
    using exec_Inr [OF that] by (auto simp: existing_job_def reading_def some_row_Inr dest!: find_SomeD)
  have ins: "?mine (tabs z')" if "exec (insert_job u cov k b ?h) z = (Inr j, z')" for z z'
  proof -
    note q = exec_InrD(1,2) [OF that]
    show ?thesis
    proof (cases "find (\<lambda>j. j_owner j = u \<and> j_hash j = ?h) (jobs (tabs z))")
      case None
      with q show ?thesis by (auto simp: insert_job_def Let_def new_job_def split: if_splits)
    next
      case (Some x)
      with q have j: "j = reset_job (clock z) x" "jobs (tabs z') = update_where (\<lambda>y. j_id y = j_id x) (reset_job (clock z)) (jobs (tabs z))"
        by (simp_all add: insert_job_def split: if_splits)
      have "x \<in> set (jobs (tabs z))" "j_owner x = u" "j_hash x = ?h" using find_SomeD [OF Some] by auto
      then show ?thesis unfolding j by (auto simp: update_where_def reset_job_def intro!: rev_image_eqI [of x])
    qed
  qed
  have new: "?mine (tabs z')" if "enqueue_new u cov k b ?h z = (Inr j, z')" for z z'
  proof -
    from that obtain a q z1 where "(if job_limit k \<le> a then raise ErrQuota else if MaxQueuedJobs \<le> q then raise ErrBusy
        else attempt (exec (insert_job u cov k b ?h)) (\<lambda>r. case r of
           Inr j \<Rightarrow> andthen (exec (notify_queued k)) (\<lambda>_. ret j)
         | Inl e \<Rightarrow> (if e = ErrNotFound then exec (existing_job u ?h) else raise e))) z1 = (Inr j, z')"
      unfolding enqueue_new_def andthen_Inr by auto
    then have "attempt (exec (insert_job u cov k b ?h)) (\<lambda>r. case r of
           Inr j \<Rightarrow> andthen (exec (notify_queued k)) (\<lambda>_. ret j)
         | Inl e \<Rightarrow> (if e = ErrNotFound then exec (existing_job u ?h) else raise e)) z1 = (Inr j, z')"
      by (auto split: if_splits)
    then obtain r z2 where r: "exec (insert_job u cov k b ?h) z1 = (r, z2)"
      and rest: "(case r of Inr j \<Rightarrow> andthen (exec (notify_queued k)) (\<lambda>_. ret j)
         | Inl e \<Rightarrow> (if e = ErrNotFound then exec (existing_job u ?h) else raise e)) z2 = (Inr j, z')"
      by (rule attemptE)
    show ?thesis
    proof (cases r)
      case (Inl e)
      with rest show ?thesis by (auto dest: look split: if_splits)
    next
      case (Inr j')
      with rest obtain x where "j' = j" "exec (notify_queued k) z2 = (Inr x, z')" by (auto simp: andthen_Inr)
      with ins r Inr have "?mine (tabs z2)" "tabs z' = snd (notify_queued k (clock z2) (tabs z2))" by (auto dest: exec_InrD(2))
      then show ?thesis by (simp add: notify_queued_def)
    qed
  qed
  from assms show ?thesis
    by (auto simp: EnqueueJob_def Let_def dest: look new elim!: attemptE split: sum.splits if_splits)
qed

lemma EnqueueJob_pinned:
  assumes "inj sha" "CHR 0x0A \<notin> set k" "store_ok sha (tabs s)" "EnqueueJob sha u cov k b s = (Inr j, t)"
  shows "pinned (j_id j) u k b (tabs t) \<and> j_owner j = u \<and> j_kind j = k \<and> j_input j = b \<and> j_state j \<noteq> JobIdle"
proof -
  have ok: "store_ok sha (tabs t)" using keepsD' [OF queue_calls_keep(1) [OF assms(1,2)] assms(3,4)] .
  then have d: "hashed_ok sha (jobs (tabs t))" "db_ok (tabs t)" by (simp_all add: store_ok_def queue_ok_def)
  from EnqueueJob_row [OF assms(4)] have j: "j \<in> set (jobs (tabs t))" "j_owner j = u" "j_hash j = jobHash sha k b" by auto
  then have h: "jobHash sha (j_kind j) (j_input j) = jobHash sha k b" "CHR 0x0A \<notin> set (j_kind j)"
    using d(1) by (auto simp: hashed_ok_def)
  then have jk: "j_kind j = k" "j_input j = b" using jobHash_inj [OF assms(1) h(2) assms(2)] by auto
  have dist: "distinct (map j_id (jobs (tabs t)))" and lt: "j_id j < next_id (tabs t)" and st: "j_state j \<noteq> JobIdle"
    using d(2) j(1) by (auto simp: db_ok_def jobs_ok_def)
  then show ?thesis using jk j st key_unique [OF dist _ j(1)] by (auto simp: pinned_def)
qed

text \<open>The others: in every pause of the wait, any calls of other requests and of workers.\<close>

definition others_call :: "(bytes \<Rightarrow> string) \<Rightarrow> pause list \<Rightarrow> bool" where
  "others_call sha ps \<longleftrightarrow> (\<forall>env. Woken env \<in> set ps \<longrightarrow> (\<forall>w. \<exists>cs. db_of (env w) = run_calls sha cs (db_of w)))"

lemma wait_job_answer:
  assumes "others_call sha ps" "pinned (j_id j) u k b (db_of w)" "j_owner j = u \<and> j_kind j = k \<and> j_input j = b \<and> j_state j \<noteq> JobIdle"
    "wait_job ps j w = (Inr j', w')"
  shows "j_owner j' = u \<and> j_kind j' = k \<and> j_input j' = b \<and> j_state j' \<noteq> JobIdle \<and> \<not> active_state (j_state j')"
  using assms
proof (induction ps arbitrary: j w)
  case (Cons p ps)
  show ?case
  proof (cases "active_state (j_state j)")
    case False
    with Cons.prems show ?thesis by simp
  next
    case True
    define w1 where "w1 = register_wait (j_id j) w"
    have db1: "db_of w1 = db_of w" by (simp add: w1_def register_wait_def)
    from True Cons.prems(4) obtain env where p: "p = Woken env"
      and run: "andthen (with_err JobStore (on_store (GetJob (j_id j)))) (wait_job ps) (env w1) = (Inr j', w')"
      by (auto simp: Let_def w1_def split: pause.splits)
    from run obtain y w2 where get: "with_err JobStore (on_store (GetJob (j_id j))) (env w1) = (Inr y, w2)"
      and more: "wait_job ps y w2 = (Inr j', w')" by (rule andthen_InrE)
    from get obtain s where g: "GetJob (j_id j) (web_store (env w1)) = (Inr y, s)" and w2: "w2 = (env w1)\<lparr>web_store := s\<rparr>"
      by (auto simp: with_err_def on_store_def split: prod.splits sum.splits)
    have pin: "pinned (j_id j) u k b (db_of (env w1))"
    proof -
      have "\<exists>cs. db_of (env w1) = run_calls sha cs (db_of w1)" using Cons.prems(1) p by (simp add: others_call_def)
      then show ?thesis using pinned_calls Cons.prems(2) db1 by metis
    qed
    from exec_Inr [OF g [unfolded GetJob_def]] have y: "y \<in> set (jobs (db_of (env w1)))" "j_id y = j_id j" "tabs s = db_of (env w1)"
      by (auto simp: reading_def some_row_Inr dest!: find_SomeD)
    have "others_call sha ps" using Cons.prems(1) by (simp add: others_call_def)
    from Cons.IH [OF this _ _ more] pin y show ?thesis by (auto simp: pinned_def w2)
  qed
qed (auto split: if_splits)

lemma wait_job_row:
  assumes "wait_job ps j w = (Inr j', w')" "j \<in> set (jobs (db_of w))"
  shows "j' \<in> set (jobs (db_of w'))"
  using assms
proof (induction ps arbitrary: j w)
  case (Cons p ps)
  show ?case
  proof (cases "active_state (j_state j)")
    case False
    with Cons.prems show ?thesis by simp
  next
    case True
    then obtain env where run: "andthen (with_err JobStore (on_store (GetJob (j_id j)))) (wait_job ps) (env (register_wait (j_id j) w)) = (Inr j', w')"
      using Cons.prems(1) by (auto simp: Let_def split: pause.splits)
    then obtain y w2 where get: "with_err JobStore (on_store (GetJob (j_id j))) (env (register_wait (j_id j) w)) = (Inr y, w2)"
      and more: "wait_job ps y w2 = (Inr j', w')" by (rule andthen_InrE)
    from get obtain s where g: "GetJob (j_id j) (web_store (env (register_wait (j_id j) w))) = (Inr y, s)"
      and w2: "w2 = (env (register_wait (j_id j) w))\<lparr>web_store := s\<rparr>"
      by (auto simp: with_err_def on_store_def split: prod.splits sum.splits)
    from exec_Inr [OF g [unfolded GetJob_def]] have "y \<in> set (jobs (tabs s))"
      by (auto simp: reading_def some_row_Inr dest!: find_SomeD)
    then show ?thesis using Cons.IH [OF more] w2 by simp
  qed
qed (auto split: if_splits)

text \<open>The job runJob returns is a row of the queue and the one asked for.\<close>

lemma runJob_row:
  assumes "inj sha" "CHR 0x0A \<notin> set kind" "store_ok sha (db_of w)" "others_call sha ps"
    and "runJob sha ps owner kind inp w = (Inr j, w')"
  shows "j_owner j = owner \<and> j_kind j = kind \<and> j_input j = inp \<and> (j_state j = JobDone \<or> j_state j = JobFailed)"
    and "j \<in> set (jobs (db_of w'))"
proof -
  from assms(5) obtain j0 w1 where e: "with_err JobStore (on_store (EnqueueJob sha owner None kind inp)) w = (Inr j0, w1)"
    and run: "wait_job ps j0 w1 = (Inr j, w')" unfolding runJob_def by (rule andthen_InrE)
  from e obtain s where s: "EnqueueJob sha owner None kind inp (web_store w) = (Inr j0, s)" "w1 = w\<lparr>web_store := s\<rparr>"
    by (auto simp: with_err_def on_store_def split: prod.splits sum.splits)
  with EnqueueJob_pinned [OF assms(1-3)] have "pinned (j_id j0) owner kind inp (db_of w1)"
    "j_owner j0 = owner \<and> j_kind j0 = kind \<and> j_input j0 = inp \<and> j_state j0 \<noteq> JobIdle" by auto
  from wait_job_answer [OF assms(4) this run]
  show "j_owner j = owner \<and> j_kind j = kind \<and> j_input j = inp \<and> (j_state j = JobDone \<or> j_state j = JobFailed)"
    by (cases "j_state j") (auto simp: active_state_def)
  have "j0 \<in> set (jobs (tabs s))" using EnqueueJob_row [OF s(1)] by blast
  then show "j \<in> set (jobs (db_of w'))" using wait_job_row [OF run] s(2) by simp
qed



definition queue_web :: web where
  "queue_web = \<lparr>web_store = queue_store, mailed = [], bcrypts = 0,
     waits = \<lparr>jw_chan = Map.empty, jw_next = 0, jw_closed = []\<rparr>, streams = Map.empty\<rparr>"

text \<open>A worker finishes the job 2 while the request waits.\<close>

definition worker_acts :: "web \<Rightarrow> web" where
  "worker_acts w = with_db (run_calls id [(60, [], OnQueue (CallFinishJob (j_id demo_job) ''ok'' 5))] (db_of w)) w"


section \<open>Waiters\<close>

text \<open>What the requests of a process and the listener do to the waiters.\<close>

datatype wait_op = DoWait int | DoDone int | DoForget int

fun run_wait :: "wait_op \<Rightarrow> job_waits \<Rightarrow> job_waits" where
  "run_wait (DoWait i) w = snd (wait_channel i w)"
| "run_wait (DoDone i) w = waits_done i w"
| "run_wait (DoForget i) w = forget i w"

definition run_waits :: "wait_op list \<Rightarrow> job_waits \<Rightarrow> job_waits" where
  "run_waits ops w = fold run_wait ops w"

lemma waiting_or_closed:
  assumes "jw_chan w i = Some ch \<or> ch \<in> set (jw_closed w)" "DoForget i \<notin> set ops"
  shows "jw_chan (run_waits ops w) i = Some ch \<or> ch \<in> set (jw_closed (run_waits ops w))"
  using assms
proof (induction ops arbitrary: w)
  case (Cons x ops)
  have "jw_chan (run_wait x w) i = Some ch \<or> ch \<in> set (jw_closed (run_wait x w))"
    using Cons.prems by (cases x) (auto simp: wait_channel_def waits_done_def forget_def split: option.splits)
  from Cons.IH [OF this] Cons.prems(2) show ?case by (simp add: run_waits_def)
qed (simp add: run_waits_def)

lemma channel_registered: "jw_chan (snd (wait_channel i w)) i = Some (fst (wait_channel i w))"
  by (simp add: wait_channel_def split: option.splits)

text \<open>A waiter of a job is woken by its notification: the channel it got from wait is closed once done ran for the job,
  whatever other jobs did to the waiters, provided that nobody forgot the job meanwhile.\<close>

theorem waiter_woken:
  assumes "DoForget i \<notin> set ops"
  shows "fst (wait_channel i w) \<in> set (jw_closed (waits_done i (run_waits ops (snd (wait_channel i w)))))"
  using waiting_or_closed [of "snd (wait_channel i w)" i "fst (wait_channel i w)" ops] channel_registered [of i w] assms
  by (auto simp: waits_done_def split: option.splits)

lemma waiter_woken_witness:
  "fst (wait_channel 7 (waits queue_web)) \<in> set (jw_closed (waits_done 7 (run_waits [DoWait 8, DoForget 8] (snd (wait_channel 7 (waits queue_web))))))"
  by (rule waiter_woken) simp

text \<open>Channels are numbered; only channels made so far are closed or registered.\<close>

definition waits_ok :: "job_waits \<Rightarrow> bool" where
  "waits_ok w \<longleftrightarrow> (\<forall>ch \<in> set (jw_closed w). ch < jw_next w) \<and> (\<forall>i ch. jw_chan w i = Some ch \<longrightarrow> ch < jw_next w \<and> ch \<notin> set (jw_closed w))
     \<and> (\<forall>i k ch. jw_chan w i = Some ch \<and> jw_chan w k = Some ch \<longrightarrow> i = k)"

text \<open>forget does not wait for the last waiter, as its comment says: when two requests wait for a job and one gives up,
  the notification of the job leaves the channel of the other open, so that request learns of the result only from its
  poll.\<close>

theorem forget_strands:
  assumes "waits_ok w" "jw_chan w i = None"
  shows "let (first, w1) = wait_channel i w; (second, w2) = wait_channel i w1
    in first = second \<and> second \<notin> set (jw_closed (waits_done i (forget i w2)))"
  using assms by (auto simp: wait_channel_def waits_done_def forget_def waits_ok_def)

lemma forget_strands_witness:
  "snd (wait_channel 7 (waits queue_web)) = snd (wait_channel 7 (snd (wait_channel 7 (waits queue_web))))
    \<and> jw_closed (waits_done 7 (forget 7 (snd (wait_channel 7 (snd (wait_channel 7 (waits queue_web))))))) = []"
  using forget_strands [of "waits queue_web" 7] by (simp add: queue_web_def waits_ok_def wait_channel_def waits_done_def forget_def)

section \<open>Event streams\<close>

definition streams_ok :: "web \<Rightarrow> bool" where
  "streams_ok w \<longleftrightarrow> (\<forall>u n. streams w u = Some n \<longrightarrow> 1 \<le> n \<and> n \<le> maxStreamsPerUser)"

lemma close_open: "streams_ok w \<Longrightarrow> openStream u w = (True, w1) \<Longrightarrow> streams w2 u = streams w1 u \<Longrightarrow> streams (closeStream u w2) u = streams w u"
  unfolding openStream_def closeStream_def open_count_def streams_ok_def maxStreamsPerUser_def
  by (cases "streams w u") (fastforce split: if_splits)+

text \<open>Nothing in the loop touches the streams; the others keep the count of this user.\<close>

definition others_keep_stream :: "int \<Rightarrow> pause list \<Rightarrow> bool" where
  "others_keep_stream u ps \<longleftrightarrow> (\<forall>env. Woken env \<in> set ps \<longrightarrow> (\<forall>w. streams (env w) u = streams w u))"

lemma on_store_streams: "on_store m w = (r, w1) \<Longrightarrow> streams w1 = streams w"
  by (auto simp: on_store_def split: prod.splits)

lemma round_facts:
  assumes "stream_round unsent u i prev w = (out, next_job, w')"
  shows "streams w' = streams w \<and> (out = [] \<or> (\<exists>e. out = [e] \<and> prev \<noteq> Some e))
    \<and> (\<forall>j. next_job = Some j \<longrightarrow> active_state (je_state (newJobEvent j)) \<and> (if prev = Some (newJobEvent j) then out = [] else out = [newJobEvent j]))"
  using assms
  by (auto simp: stream_round_def Let_def register_wait_def newJobEvent_def dest: on_store_streams split: prod.splits sum.splits if_splits)

lemma stream_loop_facts:
  "stream_loop unsent u i prev ps w = (es, w') \<Longrightarrow> others_keep_stream u ps \<Longrightarrow>
     streams w' u = streams w u \<and> distinct_adj es \<and> (es \<noteq> [] \<longrightarrow> prev \<noteq> Some (hd es))
     \<and> (\<forall>e \<in> set (butlast es). active_state (je_state e))"
proof (induction ps arbitrary: prev w es w')
  case Nil
  obtain out nj w1 where rd: "stream_round unsent u i prev w = (out, nj, w1)" by (cases "stream_round unsent u i prev w")
  from Nil(1) rd have "es = out" "streams w' = streams w1" by (auto simp: unregister_wait_def split: option.splits)
  with round_facts [OF rd] show ?case by auto
next
  case (Cons p ps)
  obtain out nj w1 where rd: "stream_round unsent u i prev w = (out, nj, w1)" by (cases "stream_round unsent u i prev w")
  note f = round_facts [OF rd]
  show ?case
  proof (cases "\<exists>j env. nj = Some j \<and> p = Woken env")
    case False
    with Cons.prems(1) rd have "es = out" "streams w' = streams w1" by (auto simp: unregister_wait_def split: option.splits pause.splits)
    with f show ?thesis by auto
  next
    case True
    then obtain j env where j: "nj = Some j" "p = Woken env" by blast
    obtain es' where more: "stream_loop unsent u i (Some (newJobEvent j)) ps (env w1) = (es', w')" and es: "es = out @ es'"
      using Cons.prems(1) rd j by (auto split: prod.splits)
    have "others_keep_stream u ps" "streams (env w1) u = streams w1 u" using Cons.prems(2) j by (auto simp: others_keep_stream_def)
    with Cons.IH [OF more] f j es show ?thesis
      by (cases es') (auto split: if_splits)
  qed
qed

text \<open>An event stream sends changes only: no event repeats the one before, and every event but the last shows a job that
  is queued or running. A user holds at most five streams of a process, and a stream gives its place back however it
  ends.\<close>

theorem stream_of_changes:
  assumes "streams_ok w" "others_keep_stream user ps"
  shows "case coverageEvents unsent user ident ps w of
      (Inl st, w') \<Rightarrow> st = 429 \<and> w' = w \<and> open_count user w = maxStreamsPerUser
    | (Inr es, w') \<Rightarrow> open_count user w < maxStreamsPerUser \<and> streams w' user = streams w user
        \<and> distinct_adj es \<and> (\<forall>e \<in> set (butlast es). active_state (je_state e))"
proof (cases "openStream user w")
  case (Pair b w1)
  show ?thesis
  proof (cases b)
    case False
    with Pair assms(1) show ?thesis
      by (auto simp: coverageEvents_def openStream_def streams_ok_def open_count_def intro: le_antisym split: if_splits option.splits)
  next
    case True
    obtain es w2 where run: "stream_loop unsent user ident None ps w1 = (es, w2)" by (cases "stream_loop unsent user ident None ps w1")
    note f = stream_loop_facts [OF run assms(2)]
    have "streams (closeStream user w2) user = streams w user"
      using close_open [OF assms(1), of user w1 w2] Pair True f by simp
    moreover have "open_count user w < maxStreamsPerUser" using Pair True by (auto simp: openStream_def split: if_splits)
    ultimately show ?thesis using Pair True run f by (simp add: coverageEvents_def)
  qed
qed

lemma stream_of_changes_witness:
  "case coverageEvents (\<lambda>_. False) 1 1 [Woken worker_acts] queue_web of
      (Inl st, w') \<Rightarrow> st = 429 | (Inr es, w') \<Rightarrow> streams w' 1 = None"
proof -
  have "streams_ok queue_web" by (simp add: streams_ok_def queue_web_def)
  moreover have "others_keep_stream 1 [Woken worker_acts]" by (simp add: others_keep_stream_def worker_acts_def with_db_def)
  ultimately show ?thesis
    using stream_of_changes [of queue_web 1 "[Woken worker_acts]" "\<lambda>_. False" 1] by (auto simp: queue_web_def split: prod.splits sum.splits)
qed

end
