(* ===== verification/Web_Hf_Claims.thy ===== *)
theory Web_Hf_Claims
  imports Web_Hf Hf_Accepted Web_Job_Claims
begin

text \<open>
  Properties of the HF operations: a request that passes the checks of the web layer is never refused by the model,
  neither a prediction nor a map; what a request is answered with is the result of its own job.
\<close>

section \<open>The checks imply the ranges of the model\<close>

lemma check_num_ok: "check_num f l v lo hi = [] \<longleftrightarrow> (\<exists>x. v = Fin x \<and> lo \<le> x \<and> x \<le> hi)"
  by (cases v) (auto simp: check_num_def is_nan_def)

lemma check_int_ok: "check_int f l v lo hi = [] \<longleftrightarrow> lo \<le> of_int v \<and> of_int v \<le> hi"
  by (simp add: check_int_def check_num_ok)

lemma complain_ok: "complain bad f t = [] \<longleftrightarrow> \<not> bad"
  by (simp add: complain_def)

lemma duplicate_of_iff: "duplicate_of met vs \<longleftrightarrow> \<not> distinct vs \<or> set vs \<inter> set met \<noteq> {}"
  by (induction vs arbitrary: met) auto

lemma hasDuplicate_iff: "hasDuplicate vs \<longleftrightarrow> \<not> distinct vs"
  by (simp add: hasDuplicate_def duplicate_of_iff)

lemma deg_ok: "fst (check_deg f l v) = [] \<Longrightarrow> map_option Web_Links.real_of_f64 (snd (check_deg f' l' v)) = Some b \<Longrightarrow> between 0 360 b"
proof (cases v)
  case (Some y)
  assume ok: "fst (check_deg f l v) = []" "map_option Web_Links.real_of_f64 (snd (check_deg f' l' v)) = Some b"
  then obtain x where "y = Fin x" "0 \<le> x" using Some by (auto simp: check_deg_def check_num_ok)
  then show ?thesis using ok r_mod_bounds(1,2) [of 360 x] Some by (auto simp: check_deg_def between_def)
qed (simp add: check_deg_def)

lemma end_accepted:
  assumes "stored_ant = None \<longrightarrow> check_num f l gain (- 50) 60 = []" "fst (check_deg f' l' azimuth) = []"
    "\<forall>g. pat = Some g \<longrightarrow> (\<forall>off el. \<not> not_finite (g (real off) (real el)))"
  shows "end_ok ((end_of stored_ant gain azimuth)\<lparr>ar_Pattern := pat\<rparr>)"
  using assms deg_ok [OF assms(2)] by (auto simp: end_ok_def end_of_def check_num_ok between_def)

lemma digital_accepted: "digital_checks i = [] \<Longrightarrow> digital_ok (digital_of i)"
  by (auto simp: digital_checks_def digital_of_def digital_ok_def between_def check_num_ok split: if_splits option.splits bool.splits)

lemma noise_known: "(map_of hfNoise n = Some x) \<Longrightarrow> 0 \<le> x"
  by (auto simp: hfNoise_def NoiseCity_def NoiseResidential_def NoiseRural_def NoiseQuietRural_def NoiseNoisy_def NoiseQuiet_def split: if_splits)

text \<open>Sites are stored with checked coordinates.\<close>

definition site_on_globe :: "site \<Rightarrow> bool" where
  "site_on_globe s \<longleftrightarrow> \<bar>Web_Links.real_of_f64 (site_lat s)\<bar> \<le> 90 \<and> \<bar>Web_Links.real_of_f64 (site_lon s)\<bar> \<le> 180"

lemma runs_accepted:
  assumes "hour_checks i = []" "freq_checks f i = []"
  shows "runs_ok (hfRequest i s)" "distinct (hi_hours i)" "distinct (hi_freqs i)" "\<forall>v \<in> set (hi_freqs i). v = Fin (Web_Links.real_of_f64 v)"
proof -
  have h: "hi_hours i \<noteq> []" "\<forall>h \<in> set (hi_hours i). 1 \<le> h \<and> h \<le> 24" "distinct (hi_hours i)"
    using assms(1) by (auto simp: hour_checks_def complain_ok hasDuplicate_iff check_int_ok)
  have f: "hi_freqs i \<noteq> []" "\<forall>v \<in> set (hi_freqs i). \<exists>x. v = Fin x \<and> 1 \<le> x \<and> x \<le> 30" "distinct (hi_freqs i)"
    using assms(2) by (auto simp: freq_checks_def complain_ok hasDuplicate_iff check_num_ok)
  show "runs_ok (hfRequest i s)" using h f by (fastforce simp: runs_ok_def hfRequest_def between_def)
  show "distinct (hi_hours i)" "distinct (hi_freqs i)" by fact+
  show "\<forall>v \<in> set (hi_freqs i). v = Fin (Web_Links.real_of_f64 v)" using f(2) by auto
qed

lemma request_accepted:
  assumes "hf_checks f i = []" "site_on_globe a" "\<bar>la\<bar> \<le> 90" "\<bar>lo\<bar> \<le> 180"
    and "\<forall>g. tx = Some g \<longrightarrow> (\<forall>off el. \<not> not_finite (g (real off) (real el)))"
    and "\<forall>g. rx = Some g \<longrightarrow> (\<forall>off el. \<not> not_finite (g (real off) (real el)))"
    and r: "r = (hfRequest i a)\<lparr>rq_RxLat := la, rq_RxLng := lo, rq_TxAntenna := (rq_TxAntenna (hfRequest i a))\<lparr>ar_Pattern := tx\<rparr>,
       rq_RxAntenna := (rq_RxAntenna (hfRequest i a))\<lparr>ar_Pattern := rx\<rparr>\<rparr>"
  shows "request_ok r"
proof -
  note c = assms(1) [unfolded hf_checks_def, simplified, unfolded gain_checks_def, simplified]
  have "runs_ok (hfRequest i a)" using c by (intro runs_accepted(1) [of i f]) simp_all
  then have "runs_ok r" by (simp add: r runs_ok_def)
  moreover have "values_ok r" using c
    by (auto simp: r hfRequest_def values_ok_def between_def check_num_ok check_int_ok digital_def analog_def)
  moreover have "digital_ok (rq_Digital r)" using c by (simp add: r hfRequest_def digital_accepted)
  moreover have "places_ok r" using assms(2-4) by (simp add: r hfRequest_def places_ok_def site_on_globe_def)
  moreover have "end_ok (rq_TxAntenna r)" "end_ok (rq_RxAntenna r)"
    using c assms(5,6) by (auto simp: r hfRequest_def intro!: end_accepted split: if_splits)
  ultimately show ?thesis by (simp add: request_ok_def)
qed

section \<open>Stored antennas\<close>

lemma pattern_att_defined: "0 \<le> x \<Longrightarrow> pattern_att p (Fin x) \<noteq> None"
proof -
  assume x: "0 \<le> x"
  have "wrap_deg x = r_mod x 360" "0 \<le> r_mod x 360" "r_mod x 360 < 360"
    using r_mod_bounds(1,2) [of 360 x] x by (auto simp: wrap_deg_def Let_def)
  then have "nat \<lfloor>wrap_deg x\<rfloor> < 360" by linarith
  then show ?thesis by (simp add: pattern_att_def Let_def is_nan_def Steps_def)
qed

lemma lobe_att_defined: "0 \<le> x \<Longrightarrow> 0 \<le> y \<Longrightarrow> \<exists>v. lobe_att l (Fin x) (Fin y) = Some v"
proof -
  assume "0 \<le> x" "0 \<le> y"
  then obtain a b where "pattern_att (lobe_h l) (Fin x) = Some a" "pattern_att (if length (lobe_v l) \<noteq> Steps then lobe_h l else lobe_v l) (Fin y) = Some b"
    using pattern_att_defined by blast
  then show ?thesis by (simp add: lobe_att_def Let_def)
qed

lemma stored_gain_finite: "hs_gain a = Fin g \<Longrightarrow> \<not> not_finite (stored_gain a (real off) (real el))"
proof -
  assume g: "hs_gain a = Fin g"
  obtain v where "lobe_att (hs_lobe a) (Fin (real off)) (Fin (real el)) = Some v" using lobe_att_defined [of "real off" "real el"] by auto
  then show ?thesis using g by (simp add: stored_gain_def not_finite_def is_nan_def is_inf_def)
qed

definition finite_ant :: "hf_stored option \<Rightarrow> bool" where
  "finite_ant x \<longleftrightarrow> (\<forall>a. x = Some a \<longrightarrow> (\<exists>g. hs_gain a = Fin g))"

lemma finite_ant_gain: "finite_ant x \<Longrightarrow> \<forall>g. map_option stored_gain x = Some g \<longrightarrow> (\<forall>off el. \<not> not_finite (g (real off) (real el)))"
  using stored_gain_finite by (fastforce simp: finite_ant_def)

section \<open>Predictions\<close>

lemma with_patterns_job: "with_patterns \<lparr>hj_request = r, hj_tx = tx, hj_rx = rx\<rparr> = r\<lparr>rq_TxAntenna := (rq_TxAntenna r)\<lparr>ar_Pattern := map_option stored_gain tx\<rparr>,
     rq_RxAntenna := (rq_RxAntenna r)\<lparr>ar_Pattern := map_option stored_gain rx\<rparr>\<rparr>"
  by (simp add: with_patterns_def)

lemma parseHF_Inr:
  assumes "parseHF i a b w = (Inr r, w')"
  shows "hf_checks ''frequencies_mhz'' i = []" "site_id a \<noteq> site_id b"
    "r = (hfRequest i a)\<lparr>rq_RxLat := Web_Links.real_of_f64 (site_lat b), rq_RxLng := Web_Links.real_of_f64 (site_lon b)\<rparr>" "w' = w"
  using assms by (auto simp: parseHF_def check_err_def complain_def andthen_def split: if_splits)

text \<open>C21: A prediction the web layer accepts is never refused by the model: when parseHF passes a request between two sites on
  the globe, with stored antennas of a finite gain or without, and the data of the month can be loaded, the worker
  answers the job with a point for every requested hour and frequency, each once, in the order of the hours and then the
  frequencies; every point is of the requested month, its basic reliability is a percentage, and for digital modulation
  up to 9000 km the overall one too.\<close>

theorem accepted_request_predicts:
  assumes "parseHF i a b w = (Inr r, w')" "site_on_globe a" "site_on_globe b" "finite_ant tx" "finite_ant rx"
    and "snd (month fs (hi_month i - 1) d) = Inr md"
    and "j_kind j = kindHFPrediction" "dec_hf cd (j_input j) = Some \<lparr>hj_request = r, hj_tx = tx, hj_rx = rx\<rparr>"
  shows "\<exists>pts. RunJob decode analyzer encode (hf_predictor fs cd late (Some d)) j = Inr (enc_points cd pts)
    \<and> map (\<lambda>p. (ap_hour p, Fin (ap_freq p))) pts = List.product (hi_hours i) (hi_freqs i)
    \<and> distinct (map (\<lambda>p. (ap_hour p, Fin (ap_freq p))) pts)
    \<and> (\<forall>p \<in> set pts. ap_month p = hi_month i \<and> 0 \<le> ap_basic p \<and> ap_basic p \<le> 100
        \<and> (hi_modulation i = ''digital'' \<and> ap_distance p \<le> 9000 \<longrightarrow> 0 \<le> ap_overall p \<and> ap_overall p \<le> 100))"
proof -
  note p = parseHF_Inr [OF assms(1)]
  define q where "q = with_patterns \<lparr>hj_request = r, hj_tx = tx, hj_rx = rx\<rparr>"
  have qs: "rq_Month q = hi_month i" "rq_Hours q = hi_hours i" "rq_Frequencies q = map Web_Links.real_of_f64 (hi_freqs i)"
    "rq_Modulation q = digital \<longleftrightarrow> hi_modulation i = ''digital''"
    by (simp_all add: q_def with_patterns_job p(3) hfRequest_def digital_def analog_def)
  have ok: "request_ok q"
    by (rule request_accepted [OF p(1) assms(2) _ _ finite_ant_gain [OF assms(4)] finite_ant_gain [OF assms(5)]])
      (use assms(3) in \<open>simp_all add: site_on_globe_def q_def with_patterns_job p(3)\<close>)
  obtain d1 where "month fs (rq_Month q - 1) d = (d1, Inr md)" using assms(6) qs(1) by (metis prod.collapse)
  from Predict_accepted [OF ok this] obtain pts where run: "snd (Predict fs q d) = Inr pts"
    and order: "map (\<lambda>x. (pt_Hour x, pt_Frequency x)) pts = List.product (hi_hours i) (map Web_Links.real_of_f64 (hi_freqs i))"
    and each: "\<forall>x \<in> set pts. point_ok q x" using qs by auto
  have c: "freq_checks ''frequencies_mhz'' i = []" "hour_checks i = []" using p(1) by (simp_all add: hf_checks_def)
  note dis = runs_accepted [OF c(2,1)]
  have same: "map Fin (map Web_Links.real_of_f64 (hi_freqs i)) = hi_freqs i" using dis(4) by (simp add: map_idI)
  have "map (\<lambda>p. (ap_hour p, Fin (ap_freq p))) (map toHFPoint pts) = map (\<lambda>(h, f). (h, Fin f)) (map (\<lambda>x. (pt_Hour x, pt_Frequency x)) pts)"
    by (simp add: toHFPoint_def Let_def)
  also have "\<dots> = List.product (hi_hours i) (map Fin (map Web_Links.real_of_f64 (hi_freqs i)))"
    unfolding order by (simp add: product_concat_map map_concat comp_def)
  finally have points: "map (\<lambda>p. (ap_hour p, Fin (ap_freq p))) (map toHFPoint pts) = List.product (hi_hours i) (hi_freqs i)" unfolding same .
  have "RunJob decode analyzer encode (hf_predictor fs cd late (Some d)) j = Inr (enc_points cd (map toHFPoint pts))"
    using run assms(7,8)
    by (auto simp: RunJob_def hf_predictor_def hf_compute_def kindHFPrediction_def kindHFMap_def kindLinkAnalysis_def q_def [symmetric] split: prod.splits)
  moreover have "distinct (List.product (hi_hours i) (hi_freqs i))" using dis by (intro distinct_product)
  moreover have "\<forall>p \<in> set (map toHFPoint pts). ap_month p = hi_month i \<and> 0 \<le> ap_basic p \<and> ap_basic p \<le> 100
        \<and> (hi_modulation i = ''digital'' \<and> ap_distance p \<le> 9000 \<longrightarrow> 0 \<le> ap_overall p \<and> ap_overall p \<le> 100)"
    using each qs by (auto simp: toHFPoint_def Let_def point_ok_def)
  ultimately show ?thesis using points by (intro exI [of _ "map toHFPoint pts"]) simp
qed

section \<open>Maps\<close>

lemma map_size: "mapRows = 18" "mapCols = 36"
  by (simp_all add: mapRows_def mapCols_def hfMapStep_def trunc_def)

lemma cell_on_globe: "c < 648 \<Longrightarrow> \<bar>rq_RxLat (cell_request r c)\<bar> \<le> 90 \<and> \<bar>rq_RxLng (cell_request r c)\<bar> \<le> 180"
proof -
  assume "c < 648"
  then have "c div 36 \<le> 17" "c mod 36 \<le> 35" by linarith+
  then have "real (c div 36) \<le> 17" "real (c mod 36) \<le> 35" by linarith+
  then show ?thesis by (simp add: cell_request_def hfCellCentre_def map_size hfMapStep_def abs_le_iff)
qed

lemma cell_request_same: "rq_Month (cell_request r c) = rq_Month r" "rq_Hours (cell_request r c) = rq_Hours r"
  "rq_Frequencies (cell_request r c) = rq_Frequencies r" "rq_Modulation (cell_request r c) = rq_Modulation r"
  by (simp_all add: cell_request_def split: prod.split)

lemma month_again: "month fs m d = (d1, Inr md) \<Longrightarrow> month fs m d1 = (d1, Inr md)"
  by (auto simp: month_def split: option.splits sum.splits)

text \<open>A cell that was calculated: a point for each hour, with its percentages.\<close>

definition cell_ok :: "hf_request \<Rightarrow> hf_error + hf_point list \<Rightarrow> bool" where
  "cell_ok r x \<longleftrightarrow> (\<exists>pts. x = Inr pts \<and> length pts = length (rq_Hours r) \<and> (\<forall>p \<in> set pts. point_ok r p))"

lemma map_cells_accepted:
  assumes "\<forall>c \<in> set cs. request_ok (cell_request r c)" "rq_Frequencies r = [f]" "month fs (rq_Month r - 1) d = (d1, Inr md)"
  shows "\<exists>d2 xs. map_cells fs r cs d = (d2, xs) \<and> length xs = length cs \<and> (\<forall>x \<in> set xs. cell_ok r x)"
  using assms
proof (induction cs arbitrary: d d1)
  case (Cons c cs)
  have "month fs (rq_Month (cell_request r c) - 1) d = (d1, Inr md)" using Cons.prems(3) by (simp add: cell_request_same)
  from Predict_accepted [OF _ this] obtain pts where p: "Predict fs (cell_request r c) d = (d1, Inr pts)"
    "map (\<lambda>x. (pt_Hour x, pt_Frequency x)) pts = List.product (rq_Hours r) [f]" "\<forall>x \<in> set pts. point_ok (cell_request r c) x"
    using Cons.prems(1,2) by (auto simp: cell_request_same)
  from arg_cong [OF p(2), of length] have "cell_ok r (Inr pts)" using p(3) by (simp add: cell_ok_def point_ok_def cell_request_same)
  moreover obtain d2 xs where "map_cells fs r cs d1 = (d2, xs)" "length xs = length cs" "\<forall>x \<in> set xs. cell_ok r x"
    using Cons.IH [OF _ Cons.prems(2) month_again [OF Cons.prems(3)]] Cons.prems(1) by auto
  ultimately show ?case using p(1) by simp
qed simp

lemma round_percent: "0 \<le> x \<Longrightarrow> x \<le> 100 \<Longrightarrow> 0 \<le> r_round x \<and> r_round x \<le> 100"
  by (simp add: r_round_def)

lemma cell_percent:
  assumes "cell_ok r x" "k < length (rq_Hours r)"
  shows "0 \<le> cell_value (rq_Modulation r = digital) k x \<and> cell_value (rq_Modulation r = digital) k x \<le> 100"
proof -
  from assms obtain pts where x: "x = Inr pts" "k < length pts" "point_ok r (pts ! k)" by (auto simp: cell_ok_def)
  then have "0 \<le> hfReliability (pts ! k) (rq_Modulation r = digital) \<and> hfReliability (pts ! k) (rq_Modulation r = digital) \<le> 100"
    by (auto simp: hfReliability_def point_ok_def)
  then show ?thesis using round_percent x by (simp add: cell_value_def)
qed


section \<open>Whose result it is\<close>

text \<open>What a handler reads leaves the tables alone.\<close>

lemma GetSite_storedE:
  assumes "stored (GetSite owner k) w = (Inr s, w')"
  shows "s \<in> set (sites (db_of w))" "site_owner s = owner" "site_id s = k" "db_of w' = db_of w"
proof -
  from assms obtain t where g: "GetSite owner k (web_store w) = (Inr s, t)" "w' = w\<lparr>web_store := t\<rparr>" by (rule storedE)
  from exec_Inr [OF g(1) [unfolded GetSite_def]] g(2)
  show "s \<in> set (sites (db_of w))" "site_owner s = owner" "site_id s = k" "db_of w' = db_of w"
    by (auto simp: reading_def some_row_Inr is_site_def dest!: find_SomeD)
qed

lemma GetAntenna_storedE:
  assumes "stored (GetAntenna owner k) w = (Inr a, w')"
  shows "\<exists>t \<in> set (antennas (db_of w)). ant_owner t = owner \<and> ant_id t = k \<and> a = scanAntenna t" "db_of w' = db_of w"
proof -
  from assms obtain t where g: "GetAntenna owner k (web_store w) = (Inr a, t)" "w' = w\<lparr>web_store := t\<rparr>" by (rule storedE)
  from exec_Inr [OF g(1) [unfolded GetAntenna_def]] g(2)
  show "\<exists>t \<in> set (antennas (db_of w)). ant_owner t = owner \<and> ant_id t = k \<and> a = scanAntenna t" "db_of w' = db_of w"
    by (auto simp: reading_def some_row_Inr is_antenna_def dest!: find_SomeD)
qed

lemma hit_or_Inr:
  assumes "hit_or key win most p w = (Inr x, w')" "store_ok sha (db_of w)"
  shows "store_ok sha (db_of w')" "sites (db_of w') = sites (db_of w)" "antennas (db_of w') = antennas (db_of w)"
proof -
  from assms(1) obtain n w1 where s: "stored (RateHit key win) w = (Inr n, w1)" and "(if most < n then raise p else ret ()) w1 = (Inr x, w')"
    unfolding hit_or_def by (rule andthen_InrE)
  then have w': "w' = w1" by (simp split: if_splits)
  from s obtain t where r: "RateHit key win (web_store w) = (Inr n, t)" "w1 = w\<lparr>web_store := t\<rparr>" by (rule storedE)
  show "store_ok sha (db_of w')" using keepsD' [OF settings_calls_keep(1) assms(2) r(1)] r(2) w' by simp
  from exec_InrD(2) [OF r(1) [unfolded RateHit_def]] r(2) w'
  show "sites (db_of w') = sites (db_of w)" "antennas (db_of w') = antennas (db_of w)" by (simp_all split: prod.splits)
qed

text \<open>The antenna that goes with an end: the caller's own, as it is stored.\<close>

definition own_antenna :: "db \<Rightarrow> int \<Rightarrow> int option \<Rightarrow> hf_stored option \<Rightarrow> bool" where
  "own_antenna d owner x st \<longleftrightarrow> (case x of None \<Rightarrow> st = None
     | Some k \<Rightarrow> \<exists>t \<in> set (antennas d). ant_owner t = owner \<and> ant_id t = k \<and> st = Some (stored_of (scanAntenna t)))"

lemma hf_antenna_of_Inr:
  "hf_antenna_of owner x w = (Inr y, w') \<Longrightarrow> own_antenna (db_of w) owner x (fst y) \<and> db_of w' = db_of w"
proof (cases x)
  case (Some k)
  assume "hf_antenna_of owner x w = (Inr y, w')"
  then obtain a where a: "stored (GetAntenna owner k) w = (Inr a, w')" and y: "fst y = Some (stored_of a)"
    using Some by (auto simp: hf_antenna_of_def elim!: andthen_InrE)
  from GetAntenna_storedE [OF a] show ?thesis using Some y by (auto simp: own_antenna_def)
qed (auto simp: hf_antenna_of_def own_antenna_def)

lemma hfRun_Inr:
  assumes "hfRun cd dec wr owner kind j w = (Inr v, w')" "inj (hf_sha cd)" "CHR 0x0A \<notin> set kind" "store_ok (hf_sha cd) (db_of w)"
    "others_call (hf_sha cd) (fst wr)"
  shows "\<exists>row \<in> set (jobs (db_of w')). j_owner row = owner \<and> j_kind row = kind \<and> j_input row = enc_hf cd j \<and> j_state row = JobDone
    \<and> dec (text_or_empty (j_result row)) = Some v"
proof -
  obtain x w1 where run: "runJob (hf_sha cd) (fst wr) owner kind (enc_hf cd j) w = (x, w1)" by fastforce
  from assms(1) run obtain row where x: "x = Inr row" by (cases x) (auto simp: hfRun_def attempt_def)
  note r = runJob_row [OF assms(2-5) run [unfolded x]]
  have "j_state row \<noteq> JobFailed \<and> dec (text_or_empty (j_result row)) = Some v \<and> w' = w1"
    using assms(1) run x by (auto simp: hfRun_def attempt_def split: if_splits option.splits)
  then show ?thesis using r by auto
qed

text \<open>C23: A prediction is the caller's own: when hfPredict answers, whatever other requests and workers did while it waited, its
  points are the decoded result of a finished prediction job of the caller in the database, whose input is the checked
  request between two sites of the caller, those asked for and different ones, with exactly the stored antennas asked
  for, the caller's own as well.\<close>

theorem hf_prediction_own:
  assumes "inj (hf_sha cd)" "store_ok (hf_sha cd) (db_of w)" "others_call (hf_sha cd) (fst wr)" "hfPredict cd wr owner i w = (Inr res, w')"
  shows "hr_a res \<in> set (sites (db_of w)) \<and> site_owner (hr_a res) = owner \<and> site_id (hr_a res) = hi_a i
    \<and> hr_b res \<in> set (sites (db_of w)) \<and> site_owner (hr_b res) = owner \<and> site_id (hr_b res) = hi_b i \<and> hi_a i \<noteq> hi_b i
    \<and> hf_checks ''frequencies_mhz'' i = []
    \<and> (\<exists>row \<in> set (jobs (db_of w')). \<exists>tx rx. own_antenna (db_of w) owner (hi_tx_ant i) tx \<and> own_antenna (db_of w) owner (hi_rx_ant i) rx
        \<and> j_owner row = owner \<and> j_kind row = kindHFPrediction \<and> j_state row = JobDone
        \<and> j_input row = enc_hf cd \<lparr>hj_request = (hfRequest i (hr_a res))\<lparr>rq_RxLat := Web_Links.real_of_f64 (site_lat (hr_b res)),
             rq_RxLng := Web_Links.real_of_f64 (site_lon (hr_b res))\<rparr>, hj_tx = tx, hj_rx = rx\<rparr>
        \<and> dec_points cd (text_or_empty (j_result row)) = Some (hr_points res))"
proof -
  from assms(4) obtain u w1 a w2 b w3 r w4 tx w5 rx w6 pts where hit: "computeHit owner w = (Inr u, w1)"
    and a: "stored (GetSite owner (hi_a i)) w1 = (Inr a, w2)" and b: "stored (GetSite owner (hi_b i)) w2 = (Inr b, w3)"
    and p: "parseHF i a b w3 = (Inr r, w4)"
    and tx: "hf_antenna_of owner (hi_tx_ant i) w4 = (Inr tx, w5)" and rx: "hf_antenna_of owner (hi_rx_ant i) w5 = (Inr rx, w6)"
    and run: "hfRun cd (dec_points cd) wr owner kindHFPrediction \<lparr>hj_request = r, hj_tx = fst tx, hj_rx = fst rx\<rparr> w6 = (Inr pts, w')"
    and res: "res = \<lparr>hr_points = pts, hr_a = a, hr_b = b, hr_tx = snd tx, hr_rx = snd rx\<rparr>"
    unfolding hfPredict_def by (elim andthen_InrE) simp
  note h = hit_or_Inr [OF hit [unfolded computeHit_def] assms(2)]
  note ga = GetSite_storedE [OF a] and gb = GetSite_storedE [OF b] and pr = parseHF_Inr [OF p]
  have same: "own_antenna (db_of w) = own_antenna (db_of w1)" by (intro ext) (simp only: own_antenna_def h(3))
  have t: "own_antenna (db_of w) owner (hi_tx_ant i) (fst tx)" "own_antenna (db_of w) owner (hi_rx_ant i) (fst rx)" "db_of w6 = db_of w1"
    using hf_antenna_of_Inr [OF tx] hf_antenna_of_Inr [OF rx] pr(4) ga(4) gb(4) same by simp_all
  have "CHR 0x0A \<notin> set kindHFPrediction" by (simp add: kindHFPrediction_def)
  from hfRun_Inr [OF run assms(1) this _ assms(3)] obtain row where "row \<in> set (jobs (db_of w'))" "j_owner row = owner \<and> j_kind row = kindHFPrediction
      \<and> j_input row = enc_hf cd \<lparr>hj_request = r, hj_tx = fst tx, hj_rx = fst rx\<rparr> \<and> j_state row = JobDone
      \<and> dec_points cd (text_or_empty (j_result row)) = Some pts" using t(3) h(1) by auto
  with t(1,2) have "\<exists>row \<in> set (jobs (db_of w')). \<exists>tx rx. own_antenna (db_of w) owner (hi_tx_ant i) tx \<and> own_antenna (db_of w) owner (hi_rx_ant i) rx
      \<and> j_owner row = owner \<and> j_kind row = kindHFPrediction \<and> j_state row = JobDone
      \<and> j_input row = enc_hf cd \<lparr>hj_request = r, hj_tx = tx, hj_rx = rx\<rparr> \<and> dec_points cd (text_or_empty (j_result row)) = Some pts" by blast
  then show ?thesis using ga gb pr(1,2) h(2) unfolding res pr(3) by simp
qed

section \<open>Runs of the operations\<close>

definition hf_site :: "int \<Rightarrow> f64 \<Rightarrow> f64 \<Rightarrow> site" where
  "hf_site k la lo = \<lparr>site_id = k, site_owner = 1, site_name = ''s'', site_lat = la, site_lon = lo, site_height = Fin 10\<rparr>"

definition demo_input :: hf_input where
  "demo_input = \<lparr>hi_a = 1, hi_b = 2, hi_year = 2026, hi_month = 4, hi_hours = [6, 12], hi_ssn = 60, hi_freqs = [Fin 7, Fin 14],
     hi_tx_power = Fin 0, hi_tx_gain = Fin 0, hi_rx_gain = Fin 0, hi_tx_ant = None, hi_tx_azimuth = None, hi_rx_ant = None,
     hi_rx_azimuth = Some (Fin 90), hi_bandwidth = Fin 3000, hi_snr = Fin 15, hi_percentile = 90, hi_noise = ''rural'', hi_modulation = [],
     hi_digital = None, hi_long = False\<rparr>"

definition demo_map_input :: hf_map_input where
  "demo_map_input = \<lparr>hm_site = 1, hm_year = 2026, hm_month = 4, hm_hours = [6, 12], hm_ssn = 60, hm_freq = Fin 7, hm_tx_power = Fin 0,
     hm_tx_gain = Fin 0, hm_rx_gain = Fin 0, hm_bandwidth = Fin 3000, hm_snr = Fin 15, hm_percentile = 90, hm_noise = ''rural'',
     hm_modulation = ''digital'', hm_digital = None, hm_long = False\<rparr>"

definition demo_request :: hf_request where
  "demo_request = (hfRequest demo_input (hf_site 1 (Fin 47) (Fin 8)))\<lparr>rq_RxLat := 51, rq_RxLng := 0\<rparr>"

lemma demo_parse: "parseHF demo_input (hf_site 1 (Fin 47) (Fin 8)) (hf_site 2 (Fin 51) (Fin 0)) w = (Inr demo_request, w)"
proof -
  have "hf_checks f demo_input = []" for f
    by (simp add: hf_checks_def demo_input_def check_int_ok check_num_ok gain_checks_def hour_checks_def freq_checks_def complain_ok hasDuplicate_iff
      digital_checks_def hfNoise_def check_deg_def maxHFHours_def maxHFFreqs_def)
  then show ?thesis by (simp add: parseHF_def complain_def check_err_def demo_request_def hf_site_def)
qed

text \<open>A month of zeros in the shape of the files, already loaded.\<close>

definition flat_month :: monthData where
  "flat_month = \<lparr>mo_foF2 = replicate (ionHours * ionLng * ionLat * ionSSN) 0, mo_m3k = replicate (ionHours * ionLng * ionLat * ionSSN) 0,
     mo_coeff = \<lparr>co_Fakp = replicate 6 (replicate 16 (replicate 29 0)), co_Fakabp = replicate 6 (replicate 2 0),
       co_Dud = replicate 5 (replicate 12 (replicate 5 0)), co_Fam = replicate 12 (replicate 14 0)\<rparr>\<rparr>"

definition flat_data :: hf_data where
  "flat_data = \<lparr>hd_p533 = ''a'', hd_p372 = ''b'', hd_foF2var = [], hd_months = [3 \<mapsto> flat_month]\<rparr>"

definition no_files :: hf_files where
  "no_files = \<lparr>hd_bytes = (\<lambda>_. Inl ''gone''), hd_lines = (\<lambda>_. Inl ''gone''), hd_text = (\<lambda>_. Inl ''gone''), hd_stat = (\<lambda>_. None)\<rparr>"

lemma flat_month_loaded: "snd (month fs 3 flat_data) = Inr flat_month"
  by (simp add: month_def flat_data_def)

definition demo_codec :: "hf_job \<Rightarrow> hf_codec" where
  "demo_codec j = \<lparr>enc_hf = (\<lambda>_. ''x''), dec_hf = (\<lambda>_. Some j), enc_points = (\<lambda>_. ''ok''), dec_points = (\<lambda>_. Some []),
     enc_map = (\<lambda>_. ''ok''), dec_map = (\<lambda>_. None), hf_sha = id\<rparr>"

text \<open>The link side of the worker, which these jobs do not use.\<close>

definition no_link :: "bytes \<Rightarrow> unit option" where "no_link b = None"
definition no_analysis :: "unit \<Rightarrow> link_error + unit" where "no_analysis i = Inr ()"
definition no_text :: "unit \<Rightarrow> bytes" where "no_text r = []"

definition hf_row :: "string \<Rightarrow> job" where
  "hf_row kind = new_job 3 1 None kind ''x'' (jobHash id kind ''x'') 10"

lemma accepted_request_predicts_witness:
  "\<exists>pts :: api_point list. RunJob no_link no_analysis no_text (hf_predictor no_files (demo_codec \<lparr>hj_request = demo_request, hj_tx = None, hj_rx = None\<rparr>)
      False (Some flat_data)) (hf_row kindHFPrediction) = Inr ''ok''
    \<and> map (\<lambda>p. (ap_hour p, Fin (ap_freq p))) pts = [(6, Fin 7), (6, Fin 14), (12, Fin 7), (12, Fin 14)]"
proof -
  let ?j = "\<lparr>hj_request = demo_request, hj_tx = None, hj_rx = None\<rparr>"
  have g: "site_on_globe (hf_site 1 (Fin 47) (Fin 8))" "site_on_globe (hf_site 2 (Fin 51) (Fin 0))" "finite_ant None"
    by (simp_all add: site_on_globe_def hf_site_def finite_ant_def)
  have m: "snd (month no_files (hi_month demo_input - 1) flat_data) = Inr flat_month" by (simp add: demo_input_def flat_month_loaded)
  have r: "j_kind (hf_row kindHFPrediction) = kindHFPrediction" "dec_hf (demo_codec ?j) (j_input (hf_row kindHFPrediction)) = Some ?j"
    by (simp_all add: hf_row_def new_job_def demo_codec_def)
  have o: "List.product (hi_hours demo_input) (hi_freqs demo_input) = [(6, Fin 7), (6, Fin 14), (12, Fin 7), (12, Fin 14)]" by (simp add: demo_input_def)
  have e: "enc_points (demo_codec ?j) pts = ''ok''" for pts by (simp add: demo_codec_def)
  from accepted_request_predicts [OF demo_parse g(1,2,3,3) m r, of no_link no_analysis no_text False]
  show ?thesis unfolding o e by (rule ex_forward) (elim conjE, intro conjI)
qed


text \<open>A user with two sites; a worker finishes the third job while the request waits.\<close>

definition hf_db :: db where
  "hf_db = queue_db\<lparr>sites := [hf_site 1 (Fin 47) (Fin 8), hf_site 2 (Fin 51) (Fin 0)]\<rparr>"

definition hf_web :: web where
  "hf_web = queue_web\<lparr>web_store := \<lparr>tabs = hf_db, clock = 50, wire_script = []\<rparr>\<rparr>"

definition hf_worker_acts :: "web \<Rightarrow> web" where
  "hf_worker_acts w = with_db (run_calls id [(60, [], OnQueue (CallFinishJob 3 ''ok'' 5))] (db_of w)) w"

lemma hf_db_ok: "store_ok id hf_db"
proof -
  have "sites_ok (u_id ` set (users queue_db)) (next_id queue_db) [hf_site 1 (Fin 47) (Fin 8), hf_site 2 (Fin 51) (Fin 0)]"
    by (simp add: table_ok_defs hf_site_def site_check_def pg_between_def pg_le_def f_le_def queue_db_def empty_db_def ada_def)
  then have "db_ok hf_db" unfolding hf_db_def
    by (rule db_ok_set_sites [OF store_okD [OF queue_db_ok]]) (simp add: queue_db_def empty_db_def owns_site_def)
  then show ?thesis using queue_db_ok
    by (simp add: store_ok_def queue_ok_def limits_ok_def count_sites_def count_coverages_def count_tokens_def hf_db_def hf_site_def count_where_def MaxSitesPerUser_def)
qed

lemma hf_prediction_own_witness:
  "\<exists>res w. hfPredict (demo_codec \<lparr>hj_request = demo_request, hj_tx = None, hj_rx = None\<rparr>) ([Woken hf_worker_acts], False) 1 demo_input hf_web = (Inr res, w)
    \<and> site_id (hr_a res) = 1 \<and> (\<exists>row \<in> set (jobs (db_of w)). j_owner row = 1 \<and> j_kind row = kindHFPrediction \<and> j_state row = JobDone)"
proof -
  let ?cd = "demo_codec \<lparr>hj_request = demo_request, hj_tx = None, hj_rx = None\<rparr>"
  let ?run = "hfPredict ?cd ([Woken hf_worker_acts], False) 1 demo_input hf_web"
  have "case fst ?run of Inl _ \<Rightarrow> False | Inr _ \<Rightarrow> True" by code_simp
  then obtain res where run: "?run = (Inr res, snd ?run)" by (cases ?run) (auto split: sum.splits)
  have "others_call id [Woken hf_worker_acts]" unfolding others_call_def hf_worker_acts_def by (auto simp del: run_calls.simps)
  then have "others_call (hf_sha ?cd) (fst ([Woken hf_worker_acts], False))" "inj (hf_sha ?cd)" "store_ok (hf_sha ?cd) (db_of hf_web)"
    using hf_db_ok by (simp_all add: demo_codec_def hf_web_def)
  from hf_prediction_own [OF this(2,3,1) run] have "site_id (hr_a res) = hi_a demo_input"
    "\<exists>row \<in> set (jobs (db_of (snd ?run))). j_owner row = 1 \<and> j_kind row = kindHFPrediction \<and> j_state row = JobDone" by blast+
  then show ?thesis using run by (auto simp: demo_input_def)
qed

end
