(* ===== verification/Tiles.thy ===== *)
theory Tiles
  imports Web_Auth Plot
begin

text \<open>
  The proxy of map tiles (src/internal/tiles/tiles.go) and the pictures stitched from them (static.go). The interface
  Cache is a record of operations over a state of its own, so the proxy works on any cache; the commands of the Redis
  client behind RedisCache are arguments. SHA-1, SHA-256, the answers of the
  upstream server and the PNG codec are arguments. Metrics and logging are left out.
\<close>

section \<open>The cache\<close>

record 's cache_ops =
  op_get :: "string \<Rightarrow> ('s, string, string option) act"
  op_set :: "string \<Rightarrow> string \<Rightarrow> time \<Rightarrow> ('s, string, unit) act"
  op_incr :: "string \<Rightarrow> time \<Rightarrow> ('s, string, int) act"
  op_ping :: "('s, string, unit) act"

text \<open>The client of the Redis library: its commands over the state of the server, which are arguments.\<close>

record 's redis_api =
  rc_GET :: "string \<Rightarrow> ('s, string, string option) act"
  rc_SET :: "string \<Rightarrow> string \<Rightarrow> time \<Rightarrow> ('s, string, unit) act"
  rc_INCR :: "string \<Rightarrow> ('s, string, int) act"
  rc_EXPIRE :: "string \<Rightarrow> time \<Rightarrow> ('s, string, unit) act"
  rc_PING :: "('s, string, unit) act"

definition RedisCache_Incr :: "'s redis_api \<Rightarrow> string \<Rightarrow> time \<Rightarrow> ('s, string, int) act" where
  "RedisCache_Incr c k ttl = andthen (rc_INCR c k) (\<lambda>n. if n = 1 then andthen (rc_EXPIRE c k ttl) (\<lambda>_. ret n) else ret n)"

definition RedisCache :: "'s redis_api \<Rightarrow> 's cache_ops" where
  "RedisCache c = \<lparr>op_get = rc_GET c, op_set = rc_SET c, op_incr = RedisCache_Incr c, op_ping = rc_PING c\<rparr>"

section \<open>The proxy\<close>

definition DefaultTTL :: time where "DefaultTTL = days 30"
definition DefaultMissesPerIP :: int where "DefaultMissesPerIP = 300"
definition maxZoom :: nat where "maxZoom = 19"
definition maxTileBytes :: nat where "maxTileBytes = 2 * 2 ^ 20"
definition missWindow :: time where "missWindow = minutes 1"
definition pngMagic :: string where "pngMagic = [CHR 0x89, CHR ''P'', CHR ''N'', CHR ''G'']"

record digests =
  dg_sha1 :: "string \<Rightarrow> string"
  dg_sha256 :: "string \<Rightarrow> string"

record 's proxy =
  px_upstream :: string
  px_cache :: "'s cache_ops option"
  px_ttl :: time
  px_misses :: int

datatype tile_error = Limited | Unfetched string

definition tile_prefix :: "digests \<Rightarrow> 's proxy \<Rightarrow> string" where
  "tile_prefix d p = ''tile:'' @ hex_text (take 4 (dg_sha1 d (px_upstream p))) @ '':''"

definition tile_key :: "digests \<Rightarrow> 's proxy \<Rightarrow> int \<Rightarrow> int \<Rightarrow> int \<Rightarrow> string" where
  "tile_key d p z x y = tile_prefix d p @ int_text z @ ''/'' @ int_text x @ ''/'' @ int_text y"

definition limit_key :: "digests \<Rightarrow> 's proxy \<Rightarrow> string \<Rightarrow> string" where
  "limit_key d p ip = tile_prefix d p @ ''limit:'' @ ip"

text \<open>strings.NewReplacer: at each place the first old text of the list that begins there is replaced.\<close>

function replace_all :: "(string \<times> string) list \<Rightarrow> string \<Rightarrow> string" where
  "replace_all rs [] = []"
| "replace_all rs (c # cs) = (case find (\<lambda>r. fst r \<noteq> [] \<and> has_prefix (fst r) (c # cs)) rs of
     None \<Rightarrow> c # replace_all rs cs
   | Some r \<Rightarrow> snd r @ replace_all rs (drop (length (fst r)) (c # cs)))"
  by pat_completeness auto
termination
proof (relation "measure (\<lambda>(rs, s). length s)")
  fix rs c cs r
  assume "find (\<lambda>r. fst r \<noteq> [] \<and> has_prefix (fst r) (c # cs)) rs = Some (r :: string \<times> string)"
  then have "fst r \<noteq> []" by (auto simp: find_Some_iff)
  then show "((rs, drop (length (fst r)) (c # cs)), rs, c # cs) \<in> measure (\<lambda>(rs, s). length s)" by (cases "fst r") auto
qed auto

definition upstreamURL :: "'s proxy \<Rightarrow> int \<Rightarrow> int \<Rightarrow> int \<Rightarrow> string" where
  "upstreamURL p z x y = replace_all [(''{z}'', int_text z), (''{x}'', int_text x), (''{y}'', int_text y),
     (''{s}'', [''abc'' ! nat ((x + y) mod 3)]), (''{r}'', [])] (px_upstream p)"

definition Ready :: "'s proxy \<Rightarrow> ('s, string, unit) act" where
  "Ready p = (case px_cache p of None \<Rightarrow> ret () | Some c \<Rightarrow> op_ping c)"

text \<open>The upstream server: an error, or a status with a body that may fail to be read.\<close>

type_synonym upstream = "string \<Rightarrow> string + int \<times> (string + string)"

definition fetch_tile :: "'s proxy \<Rightarrow> upstream \<Rightarrow> int \<Rightarrow> int \<Rightarrow> int \<Rightarrow> string + string" where
  "fetch_tile p net z x y = (case net (upstreamURL p z x y) of
     Inl e \<Rightarrow> Inl e
   | Inr (code, body) \<Rightarrow> if code \<noteq> 200 then Inl (''status '' @ int_text code)
       else (case body of
         Inl e \<Rightarrow> Inl e
       | Inr b \<Rightarrow> if maxTileBytes < length (take (maxTileBytes + 1) b) then Inl ''tile too large''
           else if \<not> has_prefix pngMagic b then Inl ''not a PNG'' else Inr b))"

text \<open>Errors of the cache count as a miss, as permission and as nothing stored.\<close>

definition cached_tile :: "'s proxy \<Rightarrow> string \<Rightarrow> ('s, tile_error, string option) act" where
  "cached_tile p k = (case px_cache p of None \<Rightarrow> ret None
     | Some c \<Rightarrow> attempt (op_get c k) (\<lambda>r. ret (case r of Inl _ \<Rightarrow> None | Inr v \<Rightarrow> v)))"

definition allow :: "digests \<Rightarrow> 's proxy \<Rightarrow> string \<Rightarrow> ('s, tile_error, bool) act" where
  "allow d p ip = (case px_cache p of None \<Rightarrow> ret True
     | Some c \<Rightarrow> if px_misses p \<le> 0 \<or> ip = [] then ret True
         else attempt (op_incr c (limit_key d p ip) missWindow) (\<lambda>r. ret (case r of Inl _ \<Rightarrow> True | Inr n \<Rightarrow> n \<le> px_misses p)))"

definition store_tile :: "'s proxy \<Rightarrow> string \<Rightarrow> string \<Rightarrow> ('s, tile_error, unit) act" where
  "store_tile p k png = (case px_cache p of None \<Rightarrow> ret ()
     | Some c \<Rightarrow> attempt (op_set c k png (px_ttl p)) (\<lambda>_. ret ()))"

definition tile :: "digests \<Rightarrow> 's proxy \<Rightarrow> upstream \<Rightarrow> string \<Rightarrow> int \<Rightarrow> int \<Rightarrow> int \<Rightarrow> ('s, tile_error, string \<times> string) act" where
  "tile d p net ip z x y = andthen (cached_tile p (tile_key d p z x y)) (\<lambda>hit. case hit of
     Some png \<Rightarrow> ret (png, ''HIT'')
   | None \<Rightarrow> andthen (allow d p ip) (\<lambda>ok. if \<not> ok then raise Limited
       else (case fetch_tile p net z x y of
         Inl e \<Rightarrow> raise (Unfetched e)
       | Inr png \<Rightarrow> andthen (store_tile p (tile_key d p z x y) png) (\<lambda>_. ret (png, ''MISS'')))))"

section \<open>Requests\<close>

record tile_answer =
  ta_code :: nat
  ta_head :: "(string \<times> string) list"
  ta_body :: string

definition ETag :: "digests \<Rightarrow> string \<Rightarrow> string" where
  "ETag d b = [CHR 0x22] @ hex_text (take 8 (dg_sha256 d b)) @ [CHR 0x22]"

definition write_tile :: "digests \<Rightarrow> 's proxy \<Rightarrow> string \<Rightarrow> string \<Rightarrow> string \<Rightarrow> tile_answer" where
  "write_tile d p if_none_match png st = (let head = [(''Cache-Control'', ''public, max-age='' @ int_text (px_ttl p div secs 1)),
       (''ETag'', ETag d png), (''X-Cache'', st)] in
     if if_none_match = ETag d png then \<lparr>ta_code = 304, ta_head = head, ta_body = []\<rparr>
     else \<lparr>ta_code = 200, ta_head = head @ [(''Content-Type'', ''image/png'')], ta_body = png\<rparr>)"

text \<open>The coordinates of a path; \<open>None\<close> is the page 404.\<close>

definition tile_coordinates :: "string \<Rightarrow> string \<Rightarrow> string \<Rightarrow> (int \<times> int \<times> int) option" where
  "tile_coordinates zt xt yt = (case (ParseInt zt, ParseInt xt, Option.bind (cut_suffix yt ''.png'') ParseInt) of
     (Some z, Some x, Some y) \<Rightarrow> if z < 0 \<or> z > int maxZoom \<or> x < 0 \<or> y < 0 \<or> x \<ge> 2 ^ nat z \<or> y \<ge> 2 ^ nat z then None else Some (z, x, y)
   | _ \<Rightarrow> None)"

text \<open>ServeHTTP; \<open>gone\<close> tells whether the client has hung up when the tile failed.\<close>

definition ServeHTTP :: "digests \<Rightarrow> 's proxy \<Rightarrow> upstream \<Rightarrow> bool \<Rightarrow> string \<Rightarrow> string \<Rightarrow> string \<Rightarrow> string \<Rightarrow> string \<Rightarrow> 's \<Rightarrow> tile_answer \<times> 's" where
  "ServeHTTP d p net gone ip if_none_match zt xt yt s = (case tile_coordinates zt xt yt of
     None \<Rightarrow> (\<lparr>ta_code = 404, ta_head = [], ta_body = ''404 page not found''\<rparr>, s)
   | Some (z, x, y) \<Rightarrow> (case tile d p net ip z x y s of
       (Inl Limited, t) \<Rightarrow> (\<lparr>ta_code = 429, ta_head = [(''Retry-After'', int_text (missWindow div secs 1))], ta_body = ''too many tiles''\<rparr>, t)
     | (Inl (Unfetched e), t) \<Rightarrow> (if gone then \<lparr>ta_code = 499, ta_head = [], ta_body = []\<rparr>
         else \<lparr>ta_code = 502, ta_head = [(''Cache-Control'', ''no-store'')], ta_body = ''tile unavailable''\<rparr>, t)
     | (Inr (png, st), t) \<Rightarrow> (write_tile d p if_none_match png st, t)))"

end
