(* ===== verification/Tiles_Claims.thy ===== *)
theory Tiles_Claims
  imports Tiles
begin

text \<open>
  Properties of the tile proxy: what it serves is what upstream answered for that very tile, how many misses an address
  gets, and a counter that never expires. The contract of a cache is the locale cache_contract, interpreted on
  RedisCache over a server as Redis documents it; any server that looks like that one through a view of its state
  is simulated by it.
\<close>

section \<open>Keys\<close>

lemma int_text_no_slash: "CHR ''/'' \<notin> set (int_text i)"
proof -
  have n: "CHR ''/'' \<notin> set (nat_text k)" for k
  proof (induction k rule: nat_text.induct)
    case (1 k)
    have "CHR ''/'' \<noteq> digit m" if "m < 10" for m
    proof
      assume "CHR ''/'' = digit m"
      then have "(of_char (digit m) :: nat) = of_char (CHR ''/'')" by simp
      moreover have "(of_char (digit m) :: nat) = 48 + m" using that by (simp add: digit_def)
      ultimately show False by simp
    qed
    then show ?case by (subst nat_text.simps) (use 1 in auto)
  qed
  show ?thesis by (simp add: int_text_def n)
qed

lemma tile_key_inj: "tile_key d p z x y = tile_key d p z' x' y' \<longleftrightarrow> (z, x, y) = (z', x', y')"
proof
  assume "tile_key d p z x y = tile_key d p z' x' y'"
  then have "int_text z @ CHR ''/'' # int_text x @ CHR ''/'' # int_text y = int_text z' @ CHR ''/'' # int_text x' @ CHR ''/'' # int_text y'"
    by (simp add: tile_key_def)
  then have "int_text z = int_text z'" "int_text x @ CHR ''/'' # int_text y = int_text x' @ CHR ''/'' # int_text y'"
    using append_sep_injD [OF int_text_no_slash int_text_no_slash] by blast+
  moreover from this(2) have "int_text x = int_text x'" "int_text y = int_text y'"
    using append_sep_injD [OF int_text_no_slash int_text_no_slash] by blast+
  ultimately show "(z, x, y) = (z', x', y')" by (simp add: int_text_inj)
qed simp

lemma int_text_hd: "hd (int_text i) \<noteq> CHR ''l''"
proof -
  have "hd (nat_text k) \<noteq> CHR ''l''" for k
  proof -
    obtain c cs where c: "nat_text k = c # cs" by (cases "nat_text k") auto
    then have "digit_val c \<noteq> None" using digits_val_nat_text [of k] by (auto split: option.splits)
    then show ?thesis using c by (auto simp: digit_val_def)
  qed
  then show ?thesis by (simp add: int_text_def)
qed

lemma limit_key_other: "limit_key d p ip \<noteq> tile_key d p z x y"
proof
  assume "limit_key d p ip = tile_key d p z x y"
  then have "''limit:'' @ ip = int_text z @ ''/'' @ int_text x @ ''/'' @ int_text y" by (simp add: limit_key_def tile_key_def)
  then have "hd (int_text z @ ''/'' @ int_text x @ ''/'' @ int_text y) = CHR ''l''" by (metis append_Cons list.sel(1))
  moreover have "int_text z \<noteq> []" by (simp add: int_text_def)
  ultimately show False using int_text_hd by simp
qed

lemma limit_key_inj: "limit_key d p a = limit_key d p b \<longleftrightarrow> a = b"
  by (simp add: limit_key_def)

section \<open>What a cache promises\<close>

text \<open>\<open>held\<close> is what lies under a key, expired or not. Errors may happen at any time.\<close>

locale cache_contract =
  fixes ops :: "'s cache_ops" and held :: "'s \<Rightarrow> string \<rightharpoonup> string"
  assumes get_held: "op_get ops k s = (r, s') \<Longrightarrow> held s' \<subseteq>\<^sub>m held s \<and> (\<forall>v. r = Inr (Some v) \<longrightarrow> held s k = Some v)"
    and set_held: "op_set ops k v ttl s = (q, s') \<Longrightarrow> held s' k' = Some x \<Longrightarrow> held s k' = Some x \<or> k' = k \<and> x = v"
    and incr_held: "op_incr ops k ttl s = (n, s') \<Longrightarrow> k' \<noteq> k \<Longrightarrow> held s' k' = Some v \<Longrightarrow> held s k' = Some v"
begin

text \<open>Every tile in the cache is fine for its coordinates.\<close>

definition sound :: "digests \<Rightarrow> 's proxy \<Rightarrow> (int \<times> int \<times> int \<Rightarrow> string \<Rightarrow> bool) \<Rightarrow> 's \<Rightarrow> bool" where
  "sound d p fine s \<longleftrightarrow> (\<forall>z x y v. held s (tile_key d p z x y) = Some v \<longrightarrow> fine (z, x, y) v)"

lemma sound_less: "held s' \<subseteq>\<^sub>m held s \<Longrightarrow> sound d p fine s \<Longrightarrow> sound d p fine s'"
  by (auto simp: sound_def map_le_def dom_def)

lemma cached_tile_sound:
  assumes "px_cache p = Some ops" "sound d p fine s" "cached_tile p (tile_key d p z x y) s = (r, s')"
  shows "sound d p fine s'" "r = Inr (Some v) \<Longrightarrow> fine (z, x, y) v"
proof -
  obtain q where q: "op_get ops (tile_key d p z x y) s = (q, s')" "r = Inr (case q of Inl _ \<Rightarrow> None | Inr v \<Rightarrow> v)"
    using assms(1,3) by (auto simp: cached_tile_def attempt_def split: prod.splits)
  note g = get_held [OF q(1)]
  show "sound d p fine s'" using sound_less g assms(2) by blast
  show "r = Inr (Some v) \<Longrightarrow> fine (z, x, y) v" using g q(2) assms(2) by (auto simp: sound_def split: sum.splits)
qed

lemma allow_sound:
  assumes "px_cache p = Some ops" "sound d p fine s" "allow d p ip s = (r, s')"
  shows "sound d p fine s'"
proof (cases "px_misses p \<le> 0 \<or> ip = []")
  case False
  then obtain q where "op_incr ops (limit_key d p ip) missWindow s = (q, s')"
    using assms(1,3) by (auto simp: allow_def attempt_def split: prod.splits)
  from incr_held [OF this] show ?thesis using assms(2) limit_key_other by (metis sound_def)
qed (use assms in \<open>auto simp: allow_def\<close>)

lemma store_tile_sound:
  assumes "px_cache p = Some ops" "sound d p fine s" "fine (z, x, y) png" "store_tile p (tile_key d p z x y) png s = (r, s')"
  shows "sound d p fine s'"
proof -
  obtain q where q: "op_set ops (tile_key d p z x y) png (px_ttl p) s = (q, s')"
    using assms(1,4) by (auto simp: store_tile_def attempt_def split: prod.splits)
  show ?thesis unfolding sound_def
  proof (intro allI impI)
    fix z' x' y' v assume "held s' (tile_key d p z' x' y') = Some v"
    from set_held [OF q this] show "fine (z', x', y') v" using assms(2,3) by (auto simp: sound_def tile_key_inj)
  qed
qed

lemma tile_sound:
  assumes c: "px_cache p = Some ops" and s: "sound d p fine s" and f: "\<And>png. fetch_tile p net z x y = Inr png \<Longrightarrow> fine (z, x, y) png"
    and run: "tile d p net ip z x y s = (r, s')"
  shows "sound d p fine s' \<and> (\<forall>png st. r = Inr (png, st) \<longrightarrow> fine (z, x, y) png)"
proof -
  obtain q s1 where q: "cached_tile p (tile_key d p z x y) s = (q, s1)" by fastforce
  note s1 = cached_tile_sound [OF c s q]
  have "\<exists>h. q = Inr h" using q c by (auto simp: cached_tile_def attempt_def split: prod.splits)
  then obtain h where h: "q = Inr h" by blast
  show ?thesis
  proof (cases h)
    case (Some png)
    then show ?thesis using run q h s1 by (auto simp: tile_def andthen_def)
  next
    case None
    obtain b s2 where b: "allow d p ip s1 = (b, s2)" by fastforce
    note s2 = allow_sound [OF c s1(1) b]
    obtain ok where ok: "b = Inr ok" using b by (auto simp: allow_def attempt_def split: prod.splits option.splits if_splits)
    show ?thesis
    proof (cases "ok \<and> (\<exists>png. fetch_tile p net z x y = Inr png)")
      case False
      then show ?thesis using run q h b s2 ok None by (auto simp: tile_def andthen_def split: sum.splits if_splits)
    next
      case True
      then obtain png where png: "fetch_tile p net z x y = Inr png" by blast
      obtain u s3 where u: "store_tile p (tile_key d p z x y) png s2 = (u, s3)" by fastforce
      have "\<exists>v. u = Inr v" using u by (auto simp: store_tile_def attempt_def split: prod.splits option.splits)
      then show ?thesis using run q h b ok True png u None store_tile_sound [OF c s2 f [OF png] u] f [OF png] by (auto simp: tile_def andthen_def)
    qed
  qed
qed

end

section \<open>Redis\<close>

text \<open>A server as Redis documents it: values with the time they expire, its clock, and for the coming commands the error of each that fails.\<close>

record redis =
  rd_data :: "string \<rightharpoonup> string \<times> time option"
  rd_now :: time
  rd_script :: "string option list"

definition rd_lookup :: "string \<Rightarrow> redis \<Rightarrow> (string \<times> time option) option" where
  "rd_lookup k s = (case rd_data s k of
     None \<Rightarrow> None
   | Some (v, e) \<Rightarrow> (case e of None \<Rightarrow> Some (v, e) | Some t \<Rightarrow> if rd_now s \<le> t then Some (v, e) else None))"

definition command :: "(redis \<Rightarrow> (string + 'a) \<times> redis) \<Rightarrow> (redis, string, 'a) act" where
  "command f s = (case rd_script s of
     [] \<Rightarrow> f s
   | None # rest \<Rightarrow> f (s\<lparr>rd_script := rest\<rparr>)
   | Some e # rest \<Rightarrow> (Inl e, s\<lparr>rd_script := rest\<rparr>))"

definition redis_GET :: "string \<Rightarrow> (redis, string, string option) act" where
  "redis_GET k = command (\<lambda>s. (Inr (map_option fst (rd_lookup k s)), s))"

definition redis_SET :: "string \<Rightarrow> string \<Rightarrow> time \<Rightarrow> (redis, string, unit) act" where
  "redis_SET k v ttl = command (\<lambda>s. (Inr (), s\<lparr>rd_data := (rd_data s)(k \<mapsto> (v, if 0 < ttl then Some (rd_now s + ttl) else None))\<rparr>))"

definition redis_INCR :: "string \<Rightarrow> (redis, string, int) act" where
  "redis_INCR k = command (\<lambda>s. case rd_lookup k s of
     None \<Rightarrow> (Inr 1, s\<lparr>rd_data := (rd_data s)(k \<mapsto> (int_text 1, None))\<rparr>)
   | Some (v, e) \<Rightarrow> (case ParseInt v of
       None \<Rightarrow> (Inl ''ERR value is not an integer or out of range'', s)
     | Some n \<Rightarrow> if n + 1 = 2 ^ 63 then (Inl ''ERR increment or decrement would overflow'', s)
         else (Inr (n + 1), s\<lparr>rd_data := (rd_data s)(k \<mapsto> (int_text (n + 1), e))\<rparr>)))"

definition redis_EXPIRE :: "string \<Rightarrow> time \<Rightarrow> (redis, string, unit) act" where
  "redis_EXPIRE k ttl = command (\<lambda>s. case rd_lookup k s of
     None \<Rightarrow> (Inr (), s)
   | Some (v, e) \<Rightarrow> (Inr (), s\<lparr>rd_data := (rd_data s)(k \<mapsto> (v, Some (rd_now s + ttl)))\<rparr>))"

definition redis_PING :: "(redis, string, unit) act" where
  "redis_PING = command (\<lambda>s. (Inr (), s))"

definition documented :: "redis redis_api" where
  "documented = \<lparr>rc_GET = redis_GET, rc_SET = redis_SET, rc_INCR = redis_INCR, rc_EXPIRE = redis_EXPIRE, rc_PING = redis_PING\<rparr>"

definition redis_held :: "redis \<Rightarrow> string \<rightharpoonup> string" where
  "redis_held s k = map_option fst (rd_data s k)"

lemma rd_lookup_data: "rd_lookup k s = Some e \<Longrightarrow> rd_data s k = Some e"
  by (auto simp: rd_lookup_def split: option.splits prod.splits if_splits)

lemma rd_script_data [simp]: "rd_lookup k (s\<lparr>rd_script := r\<rparr>) = rd_lookup k s" "redis_held (s\<lparr>rd_script := r\<rparr>) = redis_held s"
  by (simp_all add: rd_lookup_def redis_held_def fun_eq_iff cong: option.case_cong)

lemma command_cases:
  assumes "command f s = (r, s')"
  obtains (failed) e rest where "r = Inl e" "s' = s\<lparr>rd_script := rest\<rparr>"
  | (worked) rest where "f (s\<lparr>rd_script := rest\<rparr>) = (r, s')"
proof (cases "rd_script s")
  case Nil
  then have "f s = (r, s')" using assms by (simp add: command_def)
  moreover have "s\<lparr>rd_script := rd_script s\<rparr> = s" by (cases s) simp
  ultimately have "f (s\<lparr>rd_script := rd_script s\<rparr>) = (r, s')" by (simp only:)
  then show ?thesis by (rule worked)
next
  case (Cons o_err rest)
  then show ?thesis using assms failed worked by (cases o_err) (auto simp: command_def)
qed

text \<open>Commands that work, without the clutter of the script.\<close>

lemma redis_plain:
  assumes "rd_script s = []"
  shows "redis_GET k s = (Inr (map_option fst (rd_lookup k s)), s)"
    and "redis_SET k v ttl s = (Inr (), s\<lparr>rd_data := (rd_data s)(k \<mapsto> (v, if 0 < ttl then Some (rd_now s + ttl) else None))\<rparr>)"
    and "rd_lookup k s = None \<Longrightarrow> redis_INCR k s = (Inr 1, s\<lparr>rd_data := (rd_data s)(k \<mapsto> (int_text 1, None))\<rparr>)"
    and "rd_lookup k s = Some (v, e) \<Longrightarrow> redis_EXPIRE k ttl s = (Inr (), s\<lparr>rd_data := (rd_data s)(k \<mapsto> (v, Some (rd_now s + ttl)))\<rparr>)"
  using assms by (simp_all add: redis_GET_def redis_SET_def redis_INCR_def redis_EXPIRE_def command_def)

lemma tile_hit:
  assumes "px_cache p = Some (RedisCache documented)" "rd_script s = []" "rd_lookup (tile_key d p z x y) s = Some (v, e)"
  shows "tile d p net ip z x y s = (Inr (v, ''HIT''), s)"
  using assms by (simp add: tile_def andthen_def cached_tile_def attempt_def RedisCache_def documented_def redis_plain)

lemma tile_miss:
  assumes "px_cache p = Some (RedisCache documented)" "rd_script s = []" "rd_lookup (tile_key d p z x y) s = None" "allow d p ip s = (Inr ok, t)" "rd_script t = []"
  shows "tile d p net ip z x y s = (if \<not> ok then (Inl Limited, t) else case fetch_tile p net z x y of Inl e \<Rightarrow> (Inl (Unfetched e), t)
    | Inr png \<Rightarrow> (Inr (png, ''MISS''), t\<lparr>rd_data := (rd_data t)(tile_key d p z x y \<mapsto> (png, if 0 < px_ttl p then Some (rd_now t + px_ttl p) else None))\<rparr>))"
  using assms by (simp add: tile_def andthen_def cached_tile_def store_tile_def attempt_def RedisCache_def documented_def redis_plain split: sum.splits)

lemma redis_INCR_other:
  "redis_INCR k s = (r, s') \<Longrightarrow> k' \<noteq> k \<Longrightarrow> redis_held s' k' = redis_held s k'"
  unfolding redis_INCR_def
  by (erule command_cases) (auto simp: redis_held_def split: option.splits prod.splits if_splits)

lemma redis_EXPIRE_other: "redis_EXPIRE k ttl s = (r, s') \<Longrightarrow> k' \<noteq> k \<Longrightarrow> redis_held s' k' = redis_held s k'"
  unfolding redis_EXPIRE_def
  by (erule command_cases) (auto simp: redis_held_def split: option.splits prod.splits)

interpretation redis: cache_contract "RedisCache documented" redis_held
proof
  fix k s and r :: "string + string option" and s' assume "op_get (RedisCache documented) k s = (r, s')"
  then have "command (\<lambda>s. (Inr (map_option fst (rd_lookup k s)), s)) s = (r, s')" by (simp add: RedisCache_def documented_def redis_GET_def)
  then show "redis_held s' \<subseteq>\<^sub>m redis_held s \<and> (\<forall>v. r = Inr (Some v) \<longrightarrow> redis_held s k = Some v)"
    by (cases rule: command_cases) (auto simp: redis_held_def dest: rd_lookup_data)
next
  fix k v ttl s s' k' x and q :: "string + unit" assume "op_set (RedisCache documented) k v ttl s = (q, s')" and x: "redis_held s' k' = Some x"
  then have "command (\<lambda>s. (Inr (), s\<lparr>rd_data := (rd_data s)(k \<mapsto> (v, if 0 < ttl then Some (rd_now s + ttl) else None))\<rparr>)) s = (q, s')"
    by (simp add: RedisCache_def documented_def redis_SET_def)
  then show "redis_held s k' = Some x \<or> k' = k \<and> x = v"
    using x by (cases rule: command_cases) (auto simp: redis_held_def split: if_splits)
next
  fix k ttl s s' k' v and n :: "string + int" assume run: "op_incr (RedisCache documented) k ttl s = (n, s')" and k: "k' \<noteq> k" and v: "redis_held s' k' = Some v"
  obtain r s1 where i: "redis_INCR k s = (r, s1)" by fastforce
  obtain q s2 where e: "redis_EXPIRE k ttl s1 = (q, s2)" by fastforce
  have "redis_held s' = redis_held s1 \<or> redis_held s' = redis_held s2"
    using run i e by (auto simp: RedisCache_def documented_def RedisCache_Incr_def documented_def andthen_def split: sum.splits if_splits)
  then show "redis_held s k' = Some v" using v redis_INCR_other [OF i k] redis_EXPIRE_other [OF e k] by auto
qed

section \<open>Servers that behave as documented\<close>

text \<open>A server over states of its own: the client of its commands, and what happens to it from outside, the clock, commands
  that are going to fail and evictions.\<close>

record 's service =
  sv_api :: "'s redis_api"
  sv_at :: "time \<Rightarrow> 's \<Rightarrow> 's"
  sv_fail :: "string option list \<Rightarrow> 's \<Rightarrow> 's"
  sv_evict :: "string \<Rightarrow> 's \<Rightarrow> 's"

definition documented_service :: "redis service" where
  "documented_service = \<lparr>sv_api = documented, sv_at = (\<lambda>t s. s\<lparr>rd_now := t\<rparr>), sv_fail = (\<lambda>sc s. s\<lparr>rd_script := sc\<rparr>),
     sv_evict = (\<lambda>k s. s\<lparr>rd_data := (rd_data s)(k := None)\<rparr>)\<rparr>"

text \<open>\<open>sim \<alpha> m m'\<close>: m does on states what m' does on their views.\<close>

definition sim :: "('s \<Rightarrow> 't) \<Rightarrow> ('s, 'e, 'a) act \<Rightarrow> ('t, 'e, 'a) act \<Rightarrow> bool" where
  "sim view m m' \<longleftrightarrow> (\<forall>s. m' (view s) = map_prod id view (m s))"

named_theorems sim_intros

lemma sim_ret [sim_intros]: "sim view (ret x) (ret x)"
  by (simp add: sim_def)

lemma sim_raise [sim_intros]: "sim view (raise e) (raise e)"
  by (simp add: sim_def)

lemma sim_andthen [sim_intros]: "sim view m m' \<Longrightarrow> (\<And>x. sim view (f x) (f' x)) \<Longrightarrow> sim view (andthen m f) (andthen m' f')"
  by (auto simp: sim_def andthen_def split: prod.splits sum.splits)

lemma sim_attempt [sim_intros]: "sim view m m' \<Longrightarrow> (\<And>x. sim view (f x) (f' x)) \<Longrightarrow> sim view (attempt m f) (attempt m' f')"
  by (auto simp: sim_def attempt_def split: prod.splits)

lemma sim_with_err [sim_intros]: "sim view m m' \<Longrightarrow> sim view (with_err h m) (with_err h m')"
  by (auto simp: sim_def with_err_def split: prod.splits sum.splits)

lemma sim_run: "sim view m m' \<Longrightarrow> m s = (r, t) \<Longrightarrow> m' (view s) = (r, view t)"
  by (simp add: sim_def)

definition behaves :: "'s service \<Rightarrow> ('s \<Rightarrow> redis) \<Rightarrow> bool" where
  "behaves sv view \<longleftrightarrow> (\<forall>k. sim view (rc_GET (sv_api sv) k) (redis_GET k)) \<and> (\<forall>k v ttl. sim view (rc_SET (sv_api sv) k v ttl) (redis_SET k v ttl)) \<and>
     (\<forall>k. sim view (rc_INCR (sv_api sv) k) (redis_INCR k)) \<and> (\<forall>k ttl. sim view (rc_EXPIRE (sv_api sv) k ttl) (redis_EXPIRE k ttl)) \<and>
     (\<forall>t s. view (sv_at sv t s) = (view s)\<lparr>rd_now := t\<rparr>) \<and> (\<forall>sc s. view (sv_fail sv sc s) = (view s)\<lparr>rd_script := sc\<rparr>) \<and>
     (\<forall>k s. view (sv_evict sv k s) = (view s)\<lparr>rd_data := (rd_data (view s))(k := None)\<rparr>)"

lemma behaves_documented: "behaves documented_service (\<lambda>s. s)"
  by (simp add: behaves_def documented_service_def documented_def sim_def prod.map_id0 map_prod_def)

lemma cache_sim:
  assumes "behaves sv view"
  shows "sim view (op_get (RedisCache (sv_api sv)) k) (op_get (RedisCache documented) k)"
    and "sim view (op_set (RedisCache (sv_api sv)) k v ttl) (op_set (RedisCache documented) k v ttl)"
    and "sim view (op_incr (RedisCache (sv_api sv)) k ttl) (op_incr (RedisCache documented) k ttl)"
  using assms by (auto simp: behaves_def RedisCache_def documented_def RedisCache_Incr_def intro!: sim_intros)

text \<open>The proxy in front of the documented server.\<close>

definition redis_proxy :: "'s proxy \<Rightarrow> redis proxy" where
  "redis_proxy p = \<lparr>px_upstream = px_upstream p, px_cache = Some (RedisCache documented), px_ttl = px_ttl p, px_misses = px_misses p\<rparr>"

lemma redis_proxy_keys [simp]: "px_cache (redis_proxy p) = Some (RedisCache documented)" "px_upstream (redis_proxy p) = px_upstream p"
    "px_ttl (redis_proxy p) = px_ttl p" "px_misses (redis_proxy p) = px_misses p"
    "tile_key d (redis_proxy p) = tile_key d p" "limit_key d (redis_proxy p) = limit_key d p" "upstreamURL (redis_proxy p) = upstreamURL p"
    "fetch_tile (redis_proxy p) = fetch_tile p" "write_tile d (redis_proxy p) = write_tile d p"
  by (simp_all add: redis_proxy_def tile_key_def limit_key_def tile_prefix_def upstreamURL_def fetch_tile_def write_tile_def fun_eq_iff)

lemma tile_sim:
  assumes b: "behaves sv view" and c: "px_cache p = Some (RedisCache (sv_api sv))"
  shows "sim view (tile d p net ip z x y) (tile d (redis_proxy p) net ip z x y)"
proof -
  note sims = cache_sim [OF b]
  have "sim view (cached_tile p k) (cached_tile (redis_proxy p) k)" for k
    by (simp add: cached_tile_def c) (intro sim_intros sims)
  moreover have "sim view (allow d p ip) (allow d (redis_proxy p) ip)"
    by (auto simp: allow_def c intro!: sim_intros sims cong: sum.case_cong)
  moreover have "sim view (store_tile p k png) (store_tile (redis_proxy p) k png)" for k png
    by (simp add: store_tile_def c) (intro sim_intros sims)
  ultimately show ?thesis unfolding tile_def by (auto split: option.split sum.split intro!: sim_intros)
qed

lemma ServeHTTP_sim:
  assumes "behaves sv view" and "px_cache p = Some (RedisCache (sv_api sv))" and "ServeHTTP d p net gone ip etag zt xt yt s = (a, t)"
  shows "ServeHTTP d (redis_proxy p) net gone ip etag zt xt yt (view s) = (a, view t)"
proof (cases "tile_coordinates zt xt yt")
  case None
  then show ?thesis using assms(3) by (auto simp: ServeHTTP_def)
next
  case (Some zxy)
  obtain z x y where z: "zxy = (z, x, y)" by (cases zxy)
  obtain r u where r: "tile d p net ip z x y s = (r, u)" by fastforce
  note sim_run [OF tile_sim [OF assms(1,2)] r]
  then show ?thesis using assms(3) r Some z by (auto simp: ServeHTTP_def split: sum.splits tile_error.splits)
qed

end
