(* ===== verification/Static_Maps.thy ===== *)
theory Static_Maps
  imports Tiles "HOL-Library.Signed_Division"
begin

text \<open>
  Static maps of the reports: src/internal/tiles/static.go. Positions are real numbers; a picture is its size and the
  colour of each pixel. The PNG codec of Go's library is a pair of functions between pictures and bytes, and the answers
  of the upstream server are given per column and row, so that two requests of one call may be answered differently.
\<close>

section \<open>Views\<close>

definition tileSize :: int where "tileSize = 256"

record view =
  vw_zoom :: nat
  vw_x0 :: real
  vw_y0 :: real
  vw_w :: int
  vw_h :: int

definition worldPixel :: "real \<Rightarrow> real \<Rightarrow> nat \<Rightarrow> real \<times> real" where
  "worldPixel la lo zoom = (let n = of_int tileSize * 2 ^ zoom; phi = la * pi / 180 in
     ((lo + 180) / 360 * n, (1 - ln (tan phi + 1 / cos phi) / pi) / 2 * n))"

text \<open>The loop of Fit, from zoom z down to the first that holds the bounds, or to zoom 0.\<close>

fun fit_from :: "nat \<Rightarrow> real \<Rightarrow> real \<Rightarrow> real \<Rightarrow> real \<Rightarrow> int \<Rightarrow> int \<Rightarrow> int \<Rightarrow> view" where
  "fit_from z south west north east w h pad =
     (let (x1, y1) = worldPixel north west z; (x2, y2) = worldPixel south east z in
      if z = 0 \<or> x2 - x1 \<le> of_int (w - 2 * pad) \<and> y2 - y1 \<le> of_int (h - 2 * pad)
      then \<lparr>vw_zoom = z, vw_x0 = (x1 + x2) / 2 - of_int w / 2, vw_y0 = (y1 + y2) / 2 - of_int h / 2, vw_w = w, vw_h = h\<rparr>
      else fit_from (z - 1) south west north east w h pad)"

declare fit_from.simps [simp del]

definition Fit :: "real \<Rightarrow> real \<Rightarrow> real \<Rightarrow> real \<Rightarrow> int \<Rightarrow> int \<Rightarrow> int \<Rightarrow> view" where
  "Fit = fit_from maxZoom"

definition view_Pixel :: "view \<Rightarrow> real \<Rightarrow> real \<Rightarrow> real \<times> real" where
  "view_Pixel v la lo = (let (x, y) = worldPixel la lo (vw_zoom v) in (x - vw_x0 v, y - vw_y0 v))"

definition Trim :: "view \<Rightarrow> real \<Rightarrow> real \<Rightarrow> real \<Rightarrow> real \<Rightarrow> int \<Rightarrow> view" where
  "Trim v south west north east pad =
     (let (x1, y1) = view_Pixel v north west; (x2, y2) = view_Pixel v south east;
          w = min (vw_w v) (\<lceil>x2 - x1\<rceil> + 2 * pad); h = min (vw_h v) (\<lceil>y2 - y1\<rceil> + 2 * pad) in
      \<lparr>vw_zoom = vw_zoom v, vw_x0 = vw_x0 v + (x1 + x2) / 2 - of_int w / 2, vw_y0 = vw_y0 v + (y1 + y2) / 2 - of_int h / 2, vw_w = w, vw_h = h\<rparr>)"

definition MetresPerPixel :: "view \<Rightarrow> real \<Rightarrow> real" where
  "MetresPerPixel v la = 2 * pi * 6378137 * cos (la * pi / 180) / (of_int tileSize * 2 ^ vw_zoom v)"

section \<open>Pictures\<close>

record picture =
  pc_w :: int
  pc_h :: int
  pc_at :: "int \<Rightarrow> int \<Rightarrow> rgba"

record codec =
  png_Decode :: "string \<Rightarrow> string + picture"
  png_Encode :: "picture \<Rightarrow> string + string"

definition NewRGBA :: "int \<Rightarrow> int \<Rightarrow> picture" where
  "NewRGBA w h = \<lparr>pc_w = w, pc_h = h, pc_at = \<lambda>_ _. (0, 0, 0, 0)\<rparr>"

text \<open>draw.Draw with the operator Src: the pixels of t moved to (ax, ay), clipped to the picture.\<close>

definition draw_at :: "picture \<Rightarrow> picture \<Rightarrow> int \<Rightarrow> int \<Rightarrow> picture" where
  "draw_at img t ax ay = img\<lparr>pc_at := \<lambda>i j.
     if 0 \<le> i \<and> i < pc_w img \<and> 0 \<le> j \<and> j < pc_h img \<and> ax \<le> i \<and> i < ax + pc_w t \<and> ay \<le> j \<and> j < ay + pc_h t
     then pc_at t (i - ax) (j - ay) else pc_at img i j\<rparr>"

section \<open>Stitching\<close>

datatype static_error = TileFailed nat int int tile_error | Undecoded nat int int string | Unencoded string

text \<open>for t := t0; t*tileSize < stop; t++: the values of t.\<close>

function tiles_upto :: "int \<Rightarrow> int \<Rightarrow> int list" where
  "tiles_upto t stop = (if t * tileSize < stop then t # tiles_upto (t + 1) stop else [])"
  by pat_completeness auto
termination by (relation "measure (\<lambda>(t, stop). nat (stop - t * tileSize))") (auto simp: tileSize_def)

declare tiles_upto.simps [simp del]

definition static_tile :: "digests \<Rightarrow> 's proxy \<Rightarrow> (int \<Rightarrow> int \<Rightarrow> upstream) \<Rightarrow> codec \<Rightarrow> view \<Rightarrow> int \<Rightarrow> int \<Rightarrow> picture \<Rightarrow> ('s, static_error, picture) act" where
  "static_tile d p nets c v ty tx img = (let n = 2 ^ vw_zoom v; x0 = \<lfloor>vw_x0 v\<rfloor>; y0 = \<lfloor>vw_y0 v\<rfloor> in
     andthen (with_err (TileFailed (vw_zoom v) tx ty) (tile d p (nets tx ty) [] (int (vw_zoom v)) (((tx smod n) + n) smod n) ty))
       (\<lambda>(raw, _). case png_Decode c raw of
          Inl e \<Rightarrow> raise (Undecoded (vw_zoom v) tx ty e)
        | Inr t \<Rightarrow> ret (draw_at img t (tx * tileSize - x0) (ty * tileSize - y0))))"

primrec each :: "('a \<Rightarrow> 'b \<Rightarrow> ('s, 'e, 'b) act) \<Rightarrow> 'a list \<Rightarrow> 'b \<Rightarrow> ('s, 'e, 'b) act" where
  "each f [] b = ret b"
| "each f (a # as) b = andthen (f a b) (each f as)"

definition static_row :: "digests \<Rightarrow> 's proxy \<Rightarrow> (int \<Rightarrow> int \<Rightarrow> upstream) \<Rightarrow> codec \<Rightarrow> view \<Rightarrow> int \<Rightarrow> picture \<Rightarrow> ('s, static_error, picture) act" where
  "static_row d p nets c v ty img = (if ty < 0 \<or> 2 ^ vw_zoom v \<le> ty then ret img
     else each (static_tile d p nets c v ty) (tiles_upto \<lfloor>of_int \<lfloor>vw_x0 v\<rfloor> / of_int tileSize :: real\<rfloor> (\<lfloor>vw_x0 v\<rfloor> + vw_w v)) img)"

definition Static :: "digests \<Rightarrow> 's proxy \<Rightarrow> (int \<Rightarrow> int \<Rightarrow> upstream) \<Rightarrow> codec \<Rightarrow> view \<Rightarrow> ('s, static_error, string) act" where
  "Static d p nets c v = andthen
     (each (static_row d p nets c v) (tiles_upto (\<lfloor>vw_y0 v\<rfloor> sdiv tileSize) (\<lfloor>vw_y0 v\<rfloor> + vw_h v)) (NewRGBA (vw_w v) (vw_h v)))
     (\<lambda>img. case png_Encode c img of Inl e \<Rightarrow> raise (Unencoded e) | Inr b \<Rightarrow> ret b)"

end
