(* ===== verification/Static_Claims.thy ===== *)
theory Static_Claims
  imports Tiles_Claims Static_Maps
begin

text \<open>
  What the tile proxy hands out over a whole run: requests, static maps, failing commands and evictions in any order.
  Every tile in the cache is one that upstream answered for its coordinates, so what a request is served and what a static
  map paints is too. The highest zoom of Fit and the miss budget of an address close the theory.
\<close>

section \<open>Genuine tiles\<close>

definition genuine :: "'s proxy \<Rightarrow> upstream set \<Rightarrow> int \<times> int \<times> int \<Rightarrow> string \<Rightarrow> bool" where
  "genuine p U = (\<lambda>(z, x, y) png. (\<exists>net\<in>U. net (upstreamURL p z x y) = Inr (200, Inr png)) \<and> has_prefix pngMagic png \<and> length png \<le> maxTileBytes)"

lemma fetch_genuine: "fetch_tile p net z x y = Inr png \<Longrightarrow> net \<in> U \<Longrightarrow> genuine p U (z, x, y) png"
  by (auto simp: fetch_tile_def genuine_def min_def split: sum.splits prod.splits if_splits)

lemma genuine_mono: "U \<subseteq> V \<Longrightarrow> genuine p U c png \<Longrightarrow> genuine p V c png"
  by (auto simp: genuine_def)

section \<open>Loops\<close>

lemma each_rule:
  assumes step: "\<And>a b s r s' D. a \<in> set as \<Longrightarrow> I s \<Longrightarrow> P D b \<Longrightarrow> f a b s = (r, s') \<Longrightarrow> I s' \<and> (\<forall>b'. r = Inr b' \<longrightarrow> P (D \<union> g a) b')"
  shows "I s \<Longrightarrow> P D b \<Longrightarrow> each f as b s = (r, s') \<Longrightarrow> I s' \<and> (\<forall>b'. r = Inr b' \<longrightarrow> P (D \<union> \<Union> (g ` set as)) b')"
  using step
proof (induction as arbitrary: s D b)
  case (Cons a as)
  obtain q t where q: "f a b s = (q, t)" by fastforce
  have q': "I t \<and> (\<forall>b'. q = Inr b' \<longrightarrow> P (D \<union> g a) b')" using Cons.prems(4) [OF _ Cons.prems(1,2) q] by simp
  show ?case
  proof (cases q)
    case (Inr b')
    then have e: "each f as b' t = (r, s')" using Cons.prems(3) q by (simp add: andthen_def)
    have i: "I t" "P (D \<union> g a) b'" using q' Inr by simp_all
    have "I s' \<and> (\<forall>b'. r = Inr b' \<longrightarrow> P (D \<union> g a \<union> \<Union> (g ` set as)) b')"
      by (rule Cons.IH [OF i e]) (rule Cons.prems(4), simp_all)
    then show ?thesis by (simp add: Un_assoc)
  qed (use Cons.prems(3) q q' in \<open>auto simp: andthen_def\<close>)
qed auto

lemma set_tiles_upto: "t \<in> set (tiles_upto a stop) \<longleftrightarrow> a \<le> t \<and> t * tileSize < stop"
proof (induction a stop rule: tiles_upto.induct)
  case (1 a stop)
  show ?case
  proof (cases "a * tileSize < stop")
    case True
    then show ?thesis using 1 by (subst tiles_upto.simps) (auto simp: le_less)
  next
    case False
    have "t * tileSize < stop \<Longrightarrow> \<not> a \<le> t" using False by (auto simp: tileSize_def)
    then show ?thesis using False by (subst tiles_upto.simps) auto
  qed
qed

section \<open>What a static map shows\<close>

text \<open>col is the colour of the world pixel (gx, gy) on a tile that is fine for its place.\<close>

definition pictured :: "(int \<times> int \<times> int \<Rightarrow> string \<Rightarrow> bool) \<Rightarrow> codec \<Rightarrow> nat \<Rightarrow> int \<Rightarrow> int \<Rightarrow> rgba \<Rightarrow> bool" where
  "pictured fine c zoom gx gy col \<longleftrightarrow> (\<exists>raw t. fine (int zoom, (gx div tileSize) mod 2 ^ zoom, gy div tileSize) raw \<and>
     png_Decode c raw = Inr t \<and> col = pc_at t (gx mod tileSize) (gy mod tileSize))"

definition square_tiles :: "codec \<Rightarrow> bool" where
  "square_tiles c \<longleftrightarrow> (\<forall>raw t. png_Decode c raw = Inr t \<longrightarrow> pc_w t = tileSize \<and> pc_h t = tileSize)"

text \<open>The tiles of D are on the picture, each pixel of another place is transparent.\<close>

definition painted :: "(int \<times> int \<times> int \<Rightarrow> string \<Rightarrow> bool) \<Rightarrow> codec \<Rightarrow> view \<Rightarrow> (int \<times> int) set \<Rightarrow> picture \<Rightarrow> bool" where
  "painted fine c v D img \<longleftrightarrow> pc_w img = vw_w v \<and> pc_h img = vw_h v \<and> (square_tiles c \<longrightarrow>
     (\<forall>i j. 0 \<le> i \<longrightarrow> i < vw_w v \<longrightarrow> 0 \<le> j \<longrightarrow> j < vw_h v \<longrightarrow>
       (let gx = \<lfloor>vw_x0 v\<rfloor> + i; gy = \<lfloor>vw_y0 v\<rfloor> + j in
        if (gx div tileSize, gy div tileSize) \<in> D then pictured fine c (vw_zoom v) gx gy (pc_at img i j)
        else pc_at img i j = (0, 0, 0, 0))))"

lemma painted_places:
  assumes p: "painted fine c v D img"
    and eq: "\<And>i j. 0 \<le> i \<Longrightarrow> i < vw_w v \<Longrightarrow> 0 \<le> j \<Longrightarrow> j < vw_h v \<Longrightarrow>
      ((\<lfloor>vw_x0 v\<rfloor> + i) div tileSize, (\<lfloor>vw_y0 v\<rfloor> + j) div tileSize) \<in> D \<longleftrightarrow> ((\<lfloor>vw_x0 v\<rfloor> + i) div tileSize, (\<lfloor>vw_y0 v\<rfloor> + j) div tileSize) \<in> E"
  shows "painted fine c v E img"
  unfolding painted_def
proof (intro conjI impI allI)
  fix i j assume sq: "square_tiles c" and r: "0 \<le> i" "i < vw_w v" "0 \<le> j" "j < vw_h v"
  show "let gx = \<lfloor>vw_x0 v\<rfloor> + i; gy = \<lfloor>vw_y0 v\<rfloor> + j in if (gx div tileSize, gy div tileSize) \<in> E
      then pictured fine c (vw_zoom v) gx gy (pc_at img i j) else pc_at img i j = (0, 0, 0, 0)"
    using p [unfolded painted_def, THEN conjunct2, THEN conjunct2, rule_format, OF sq r] unfolding Let_def eq [OF r] .
qed (use p in \<open>simp_all add: painted_def\<close>)

lemma in_tile: "tx * tileSize - x0 \<le> i \<and> i < tx * tileSize - x0 + tileSize \<longleftrightarrow> (x0 + i) div tileSize = tx"
proof -
  define q m where "q = (x0 + i) div 256" and "m = (x0 + i) mod 256"
  have "x0 + i = q * 256 + m" "0 \<le> m" "m < 256" by (simp_all add: q_def m_def)
  then have "tx * 256 - x0 \<le> i \<and> i < tx * 256 - x0 + 256 \<longleftrightarrow> q = tx" by auto
  then show ?thesis by (simp add: tileSize_def q_def)
qed

lemma draw_painted:
  assumes p: "painted fine c v D img" and t: "png_Decode c raw = Inr t" and f: "fine (int (vw_zoom v), tx mod 2 ^ vw_zoom v, ty) raw"
  shows "painted fine c v (insert (tx, ty) D) (draw_at img t (tx * tileSize - \<lfloor>vw_x0 v\<rfloor>) (ty * tileSize - \<lfloor>vw_y0 v\<rfloor>))"
    (is "painted _ _ _ _ ?new")
proof -
  have wh: "pc_w img = vw_w v" "pc_h img = vw_h v" using p by (simp_all add: painted_def)
  let ?gx = "\<lambda>i. \<lfloor>vw_x0 v\<rfloor> + i" and ?gy = "\<lambda>j. \<lfloor>vw_y0 v\<rfloor> + j"
  have new: "pc_at ?new i j = (if (?gx i div tileSize, ?gy j div tileSize) = (tx, ty) then pc_at t (?gx i mod tileSize) (?gy j mod tileSize) else pc_at img i j)"
    if sq: "square_tiles c" and that: "0 \<le> i" "i < vw_w v" "0 \<le> j" "j < vw_h v" for i j
  proof -
    have dim: "pc_w t = tileSize" "pc_h t = tileSize" using t sq by (auto simp: square_tiles_def)
    show ?thesis
  proof (cases "(?gx i div tileSize, ?gy j div tileSize) = (tx, ty)")
    case True
    then have "i - (tx * tileSize - \<lfloor>vw_x0 v\<rfloor>) = ?gx i mod tileSize" "j - (ty * tileSize - \<lfloor>vw_y0 v\<rfloor>) = ?gy j mod tileSize"
      by (auto simp: minus_div_mult_eq_mod [symmetric])
    then show ?thesis using True that wh dim in_tile [of tx "\<lfloor>vw_x0 v\<rfloor>" i] in_tile [of ty "\<lfloor>vw_y0 v\<rfloor>" j] by (simp add: draw_at_def)
  next
    case False
    then show ?thesis using that wh dim in_tile [of tx "\<lfloor>vw_x0 v\<rfloor>" i] in_tile [of ty "\<lfloor>vw_y0 v\<rfloor>" j] by (auto simp: draw_at_def)
  qed
  qed
  have "let gx = ?gx i; gy = ?gy j in if (gx div tileSize, gy div tileSize) \<in> insert (tx, ty) D
      then pictured fine c (vw_zoom v) gx gy (pc_at ?new i j) else pc_at ?new i j = (0, 0, 0, 0)"
    if sq: "square_tiles c" and r: "0 \<le> i" "i < vw_w v" "0 \<le> j" "j < vw_h v" for i j
  proof (cases "(?gx i div tileSize, ?gy j div tileSize) = (tx, ty)")
    case True
    then have "pictured fine c (vw_zoom v) (?gx i) (?gy j) (pc_at ?new i j)"
      unfolding pictured_def new [OF sq r] using f t(1) by (intro exI [of _ raw] exI [of _ t]) auto
    then show ?thesis using True by (simp add: Let_def)
  next
    case False
    then show ?thesis using p [unfolded painted_def, THEN conjunct2, THEN conjunct2, rule_format, OF sq r]
      unfolding new [OF sq r] by (simp only: Let_def insert_iff if_False simp_thms)
  qed
  moreover have "pc_w ?new = vw_w v" "pc_h ?new = vw_h v" using wh by (simp_all add: draw_at_def)
  ultimately show ?thesis unfolding painted_def by blast
qed

lemma column_of: "((tx smod n) + n) smod n = tx mod n" if "0 < n" for n :: int
proof -
  have m: "a smod n = (if a < 0 then - ((- a) mod n) else a mod n)" for a
    using that by (cases "a = 0") (auto simp: signed_modulo_int_def sgn_if)
  have "- n < tx smod n" unfolding m [of tx] using that pos_mod_bound [of n "- tx"] pos_mod_sign [of n tx] by (auto simp del: pos_mod_sign)
  then have "((tx smod n) + n) smod n = (tx smod n) mod n" unfolding m [of "tx smod n + n"] by simp
  also have "\<dots> = tx mod n" unfolding m [of tx] by (simp add: mod_minus_eq)
  finally show ?thesis .
qed

lemma static_columns: "\<lfloor>of_int a / of_int tileSize :: real\<rfloor> = a div tileSize"
  by (rule floor_divide_of_int_eq)

text \<open>Every pixel of a row that exists lies on a tile of the two loops.\<close>

lemma covered:
  assumes "0 \<le> i" "i < vw_w v" "0 \<le> j" "j < vw_h v"
  shows "((\<lfloor>vw_x0 v\<rfloor> + i) div tileSize, (\<lfloor>vw_y0 v\<rfloor> + j) div tileSize) \<in>
      \<Union> ((\<lambda>ty. if ty < 0 \<or> 2 ^ vw_zoom v \<le> ty then {} else (\<lambda>tx. (tx, ty)) ` set (tiles_upto (\<lfloor>vw_x0 v\<rfloor> div tileSize) (\<lfloor>vw_x0 v\<rfloor> + vw_w v))) `
        set (tiles_upto (\<lfloor>vw_y0 v\<rfloor> sdiv tileSize) (\<lfloor>vw_y0 v\<rfloor> + vw_h v))) \<longleftrightarrow>
    0 \<le> (\<lfloor>vw_y0 v\<rfloor> + j) div tileSize \<and> (\<lfloor>vw_y0 v\<rfloor> + j) div tileSize < 2 ^ vw_zoom v"
    (is "(?tx, ?ty) \<in> ?S \<longleftrightarrow> _")
proof
  assume r: "0 \<le> ?ty \<and> ?ty < 2 ^ vw_zoom v"
  have le: "(a + k) div tileSize * tileSize \<le> a + k" for a k :: int by (simp add: tileSize_def minus_mod_eq_div_mult [symmetric])
  have tx: "?tx \<in> set (tiles_upto (\<lfloor>vw_x0 v\<rfloor> div tileSize) (\<lfloor>vw_x0 v\<rfloor> + vw_w v))"
    unfolding set_tiles_upto using assms(1,2) le [of "\<lfloor>vw_x0 v\<rfloor>" i] by (simp add: tileSize_def zdiv_mono1)
  have "\<lfloor>vw_y0 v\<rfloor> sdiv tileSize \<le> ?ty"
  proof (cases "0 \<le> \<lfloor>vw_y0 v\<rfloor>")
    case True
    then have "\<lfloor>vw_y0 v\<rfloor> sdiv tileSize = \<lfloor>vw_y0 v\<rfloor> div tileSize" by (simp add: signed_divide_int_def tileSize_def sgn_if)
    also have "\<dots> \<le> ?ty" using assms(3) by (simp add: tileSize_def zdiv_mono1)
    finally show ?thesis .
  next
    case False
    then have "\<lfloor>vw_y0 v\<rfloor> sdiv tileSize = - ((- \<lfloor>vw_y0 v\<rfloor>) div tileSize)" by (simp add: signed_divide_int_def tileSize_def sgn_if)
    also have "\<dots> \<le> 0" using False by (simp add: tileSize_def pos_imp_zdiv_nonneg_iff)
    finally show ?thesis using r by simp
  qed
  then have ty: "?ty \<in> set (tiles_upto (\<lfloor>vw_y0 v\<rfloor> sdiv tileSize) (\<lfloor>vw_y0 v\<rfloor> + vw_h v))"
    unfolding set_tiles_upto using assms(4) le [of "\<lfloor>vw_y0 v\<rfloor>" j] by linarith
  show "(?tx, ?ty) \<in> ?S" using tx r by (intro UN_I [OF ty]) (simp add: image_iff)
qed (auto split: if_splits)

context cache_contract
begin

lemma static_tile_painted:
  assumes c: "px_cache p = Some ops" and f: "\<And>png tx. fetch_tile p (nets tx ty) (int (vw_zoom v)) (tx mod 2 ^ vw_zoom v) ty = Inr png \<Longrightarrow> fine (int (vw_zoom v), tx mod 2 ^ vw_zoom v, ty) png"
    and s: "sound d p fine s" and p: "painted fine c v D img" and run: "static_tile d p nets c v ty tx img s = (r, s')"
  shows "sound d p fine s' \<and> (\<forall>img'. r = Inr img' \<longrightarrow> painted fine c v (D \<union> {(tx, ty)}) img')"
proof -
  let ?x = "tx mod 2 ^ vw_zoom v"
  obtain a t where a: "tile d p (nets tx ty) [] (int (vw_zoom v)) ?x ty s = (a, t)" by fastforce
  have run': "static_tile d p nets c v ty tx img s = (case a of Inl e \<Rightarrow> (Inl (TileFailed (vw_zoom v) tx ty e), t)
     | Inr (raw, st) \<Rightarrow> (case png_Decode c raw of Inl e \<Rightarrow> (Inl (Undecoded (vw_zoom v) tx ty e), t)
        | Inr u \<Rightarrow> (Inr (draw_at img u (tx * tileSize - \<lfloor>vw_x0 v\<rfloor>) (ty * tileSize - \<lfloor>vw_y0 v\<rfloor>)), t)))"
    by (simp add: static_tile_def Let_def column_of andthen_def with_err_def a split: sum.splits prod.splits)
  have t: "sound d p fine t" "\<And>png st. a = Inr (png, st) \<Longrightarrow> fine (int (vw_zoom v), ?x, ty) png" using tile_sound [OF c s f a] by auto
  have "s' = t" using run run' by (auto split: sum.splits prod.splits)
  moreover have "painted fine c v (D \<union> {(tx, ty)}) img'" if r: "r = Inr img'" for img'
  proof -
    obtain raw st u where u: "a = Inr (raw, st)" "png_Decode c raw = Inr u" "img' = draw_at img u (tx * tileSize - \<lfloor>vw_x0 v\<rfloor>) (ty * tileSize - \<lfloor>vw_y0 v\<rfloor>)"
      using run run' r by (auto split: sum.splits prod.splits)
    show ?thesis using draw_painted [OF p u(2) t(2) [OF u(1)]] u(3) by simp
  qed
  ultimately show ?thesis using t(1) by simp
qed

lemma static_row_painted:
  assumes c: "px_cache p = Some ops" and f: "\<And>net x y png. net \<in> U \<Longrightarrow> fetch_tile p net (int (vw_zoom v)) x y = Inr png \<Longrightarrow> fine (int (vw_zoom v), x, y) png"
    and nets: "\<And>tx ty. nets tx ty \<in> U"
    and s: "sound d p fine s" and p: "painted fine c v D img" and run: "static_row d p nets c v ty img s = (r, s')"
  shows "sound d p fine s' \<and> (\<forall>img'. r = Inr img' \<longrightarrow> painted fine c v (D \<union>
     (if ty < 0 \<or> 2 ^ vw_zoom v \<le> ty then {} else (\<lambda>tx. (tx, ty)) ` set (tiles_upto (\<lfloor>vw_x0 v\<rfloor> div tileSize) (\<lfloor>vw_x0 v\<rfloor> + vw_w v)))) img')"
proof (cases "ty < 0 \<or> 2 ^ vw_zoom v \<le> ty")
  case False
  let ?txs = "tiles_upto (\<lfloor>vw_x0 v\<rfloor> div tileSize) (\<lfloor>vw_x0 v\<rfloor> + vw_w v)"
  have e: "each (static_tile d p nets c v ty) ?txs img s = (r, s')" using run False by (simp add: static_row_def static_columns)
  have f': "\<And>png tx. fetch_tile p (nets tx ty) (int (vw_zoom v)) (tx mod 2 ^ vw_zoom v) ty = Inr png \<Longrightarrow> fine (int (vw_zoom v), tx mod 2 ^ vw_zoom v, ty) png"
    by (rule f) (rule nets)
  have "sound d p fine s' \<and> (\<forall>img'. r = Inr img' \<longrightarrow> painted fine c v (D \<union> \<Union> ((\<lambda>tx. {(tx, ty)}) ` set ?txs)) img')"
  proof (rule each_rule [where I = "sound d p fine" and P = "painted fine c v", OF _ s p e])
    fix tx b s r s' D assume "sound d p fine s" "painted fine c v D b" "static_tile d p nets c v ty tx b s = (r, s')"
    from static_tile_painted [where fine = fine and nets = nets, OF c _ this] f'
    show "sound d p fine s' \<and> (\<forall>b'. r = Inr b' \<longrightarrow> painted fine c v (D \<union> {(tx, ty)}) b')" by blast
  qed
  moreover have "\<Union> ((\<lambda>tx. {(tx, ty)}) ` set ?txs) = (\<lambda>tx. (tx, ty)) ` set ?txs" by auto
  ultimately show ?thesis using False by simp
qed (use run s p in \<open>auto simp: static_row_def\<close>)

lemma Static_painted:
  assumes c: "px_cache p = Some ops" and f: "\<And>net x y png. net \<in> U \<Longrightarrow> fetch_tile p net (int (vw_zoom v)) x y = Inr png \<Longrightarrow> fine (int (vw_zoom v), x, y) png"
    and nets: "\<And>tx ty. nets tx ty \<in> U" and s: "sound d p fine s" and run: "Static d p nets c v s = (r, s')"
  shows "sound d p fine s' \<and> (\<forall>b. r = Inr b \<longrightarrow> (\<exists>img. png_Encode c img = Inr b \<and> painted fine c v {(tx, ty). 0 \<le> ty \<and> ty < 2 ^ vw_zoom v} img))"
proof -
  let ?tys = "tiles_upto (\<lfloor>vw_y0 v\<rfloor> sdiv tileSize) (\<lfloor>vw_y0 v\<rfloor> + vw_h v)"
  let ?txs = "tiles_upto (\<lfloor>vw_x0 v\<rfloor> div tileSize) (\<lfloor>vw_x0 v\<rfloor> + vw_w v)"
  let ?g = "\<lambda>ty. if ty < 0 \<or> 2 ^ vw_zoom v \<le> ty then {} else (\<lambda>tx. (tx, ty)) ` set ?txs"
  obtain a t where a: "each (static_row d p nets c v) ?tys (NewRGBA (vw_w v) (vw_h v)) s = (a, t)" by fastforce
  have "painted fine c v {} (NewRGBA (vw_w v) (vw_h v))" by (simp add: painted_def NewRGBA_def)
  note new = this
  have t: "sound d p fine t \<and> (\<forall>img. a = Inr img \<longrightarrow> painted fine c v ({} \<union> \<Union> (?g ` set ?tys)) img)"
  proof (rule each_rule [where I = "sound d p fine" and P = "painted fine c v", OF _ s new a])
    fix ty b s r s' D assume h: "sound d p fine s" "painted fine c v D b" "static_row d p nets c v ty b s = (r, s')"
    show "sound d p fine s' \<and> (\<forall>b'. r = Inr b' \<longrightarrow> painted fine c v (D \<union> ?g ty) b')"
      by (rule static_row_painted [where U = U and nets = nets, OF c _ nets h]) (rule f)
  qed
  have pic: "painted fine c v {(tx, ty). 0 \<le> ty \<and> ty < 2 ^ vw_zoom v} img" if "a = Inr img" for img
  proof (rule painted_places)
    show "painted fine c v ({} \<union> \<Union> (?g ` set ?tys)) img" using t that by blast
    show "((\<lfloor>vw_x0 v\<rfloor> + i) div tileSize, (\<lfloor>vw_y0 v\<rfloor> + j) div tileSize) \<in> {} \<union> \<Union> (?g ` set ?tys) \<longleftrightarrow>
        ((\<lfloor>vw_x0 v\<rfloor> + i) div tileSize, (\<lfloor>vw_y0 v\<rfloor> + j) div tileSize) \<in> {(tx, ty). 0 \<le> ty \<and> ty < 2 ^ vw_zoom v}"
      if "0 \<le> i" "i < vw_w v" "0 \<le> j" "j < vw_h v" for i j
      unfolding Un_empty_left covered [OF that] mem_Collect_eq prod.case by (rule refl)
  qed
  have st: "s' = t \<and> (\<forall>b. r = Inr b \<longrightarrow> (\<exists>img. a = Inr img \<and> png_Encode c img = Inr b))"
    using run a by (auto simp: Static_def andthen_def split: sum.splits)
  show ?thesis
  proof (intro conjI allI impI)
    show "sound d p fine s'" using st t by simp
    fix b assume "r = Inr b"
    then obtain img where "a = Inr img" "png_Encode c img = Inr b" using st by auto
    then show "\<exists>img. png_Encode c img = Inr b \<and> painted fine c v {(tx, ty). 0 \<le> ty \<and> ty < 2 ^ vw_zoom v} img"
      using pic by (intro exI [of _ img] conjI)
  qed
qed

end

section \<open>Runs\<close>

datatype tile_event =
    Asked time upstream bool string string string string string
  | Drawn time "int \<Rightarrow> int \<Rightarrow> upstream" codec view
  | Failing "string option list"
  | Evicted string

primrec tile_step :: "'s service \<Rightarrow> digests \<Rightarrow> 's proxy \<Rightarrow> tile_event \<Rightarrow> 's \<Rightarrow> 's" where
  "tile_step sv d p (Asked now net gone ip etag zt xt yt) s = snd (ServeHTTP d p net gone ip etag zt xt yt (sv_at sv now s))"
| "tile_step sv d p (Drawn now nets c v) s = snd (Static d p nets c v (sv_at sv now s))"
| "tile_step sv d p (Failing script) s = sv_fail sv script s"
| "tile_step sv d p (Evicted k) s = sv_evict sv k s"

primrec event_upstreams :: "tile_event \<Rightarrow> upstream set" where
  "event_upstreams (Asked now net gone ip etag zt xt yt) = {net}"
| "event_upstreams (Drawn now nets c v) = range (case_prod nets)"
| "event_upstreams (Failing script) = {}"
| "event_upstreams (Evicted k) = {}"

definition run_upstreams :: "tile_event list \<Rightarrow> upstream set" where
  "run_upstreams es = \<Union> (event_upstreams ` set es)"

definition empty_redis :: redis where
  "empty_redis = \<lparr>rd_data = Map.empty, rd_now = 0, rd_script = []\<rparr>"

definition tile_runs :: "'s service \<Rightarrow> digests \<Rightarrow> 's proxy \<Rightarrow> tile_event list \<Rightarrow> 's \<Rightarrow> 's" where
  "tile_runs sv d p es s = fold (tile_step sv d p) es s"

lemma sim_each: "(\<And>a b. a \<in> set as \<Longrightarrow> sim view (f a b) (f' a b)) \<Longrightarrow> sim view (each f as b) (each f' as b)"
  by (induction as arbitrary: b) (auto intro: sim_intros)

lemma Static_sim:
  assumes "behaves sv view" and "px_cache p = Some (RedisCache (sv_api sv))"
  shows "sim view (Static d p nets c v) (Static d (redis_proxy p) nets c v)"
proof -
  have one: "sim view (static_tile d p nets c v ty tx img) (static_tile d (redis_proxy p) nets c v ty tx img)" for ty tx img
    unfolding static_tile_def Let_def by (auto split: sum.split intro!: sim_intros tile_sim [OF assms])
  have "sim view (static_row d p nets c v ty img) (static_row d (redis_proxy p) nets c v ty img)" for ty img
    unfolding static_row_def by (auto intro!: sim_intros sim_each one)
  then show ?thesis unfolding Static_def by (auto split: sum.split intro!: sim_intros sim_each)
qed

lemma behaves_moves: "behaves sv view \<Longrightarrow> view (sv_at sv t s) = sv_at documented_service t (view s)"
  "behaves sv view \<Longrightarrow> view (sv_fail sv sc s) = sv_fail documented_service sc (view s)"
  "behaves sv view \<Longrightarrow> view (sv_evict sv k s) = sv_evict documented_service k (view s)"
  by (simp_all add: behaves_def documented_service_def)

lemma tile_runs_view:
  assumes "behaves sv view" and "px_cache p = Some (RedisCache (sv_api sv))"
  shows "view (tile_runs sv d p es s) = tile_runs documented_service d (redis_proxy p) es (view s)"
proof -
  have "view (tile_step sv d p e s) = tile_step documented_service d (redis_proxy p) e (view s)" for e s
  proof (cases e)
    case (Asked now net gone ip etag zt xt yt)
    obtain a t where "ServeHTTP d p net gone ip etag zt xt yt (sv_at sv now s) = (a, t)" by fastforce
    with ServeHTTP_sim [OF assms this] show ?thesis using Asked by (simp add: behaves_moves [OF assms(1)])
  next
    case (Drawn now nets c v)
    obtain a t where "Static d p nets c v (sv_at sv now s) = (a, t)" by fastforce
    with sim_run [OF Static_sim [OF assms] this] show ?thesis using Drawn by (simp add: behaves_moves [OF assms(1)])
  qed (simp_all add: behaves_moves [OF assms(1)])
  then show ?thesis unfolding tile_runs_def by (induction es arbitrary: s) simp_all
qed

lemma service_moves [simp]: "sv_at documented_service t s = s\<lparr>rd_now := t\<rparr>" "sv_fail documented_service sc s = s\<lparr>rd_script := sc\<rparr>"
    "sv_evict documented_service k s = s\<lparr>rd_data := (rd_data s)(k := None)\<rparr>" "sv_api documented_service = documented"
  by (simp_all add: documented_service_def)

lemma redis_held_now [simp]: "redis_held (s\<lparr>rd_now := t\<rparr>) = redis_held s"
  by (simp add: redis_held_def fun_eq_iff)

lemma sound_now [simp]: "redis.sound d p fine (s\<lparr>rd_now := t\<rparr>) \<longleftrightarrow> redis.sound d p fine s"
  by (simp add: redis.sound_def)

lemma ServeHTTP_sound:
  assumes c: "px_cache p = Some (RedisCache documented)" and s: "redis.sound d p (genuine p U) s" and n: "net \<in> U"
    and run: "ServeHTTP d p net gone ip etag zt xt yt s = (a, s')"
  shows "redis.sound d p (genuine p U) s'"
    and "ta_code a = 200 \<Longrightarrow> \<exists>z x y. tile_coordinates zt xt yt = Some (z, x, y) \<and> genuine p U (z, x, y) (ta_body a)"
proof -
  have *: "redis.sound d p (genuine p U) s' \<and> (ta_code a = 200 \<longrightarrow> (\<exists>z x y. tile_coordinates zt xt yt = Some (z, x, y) \<and> genuine p U (z, x, y) (ta_body a)))"
  proof (cases "tile_coordinates zt xt yt")
    case None
    then show ?thesis using run s by (auto simp: ServeHTTP_def)
  next
    case (Some zxy)
    obtain z x y where z: "zxy = (z, x, y)" by (cases zxy)
    obtain r t where r: "tile d p net ip z x y s = (r, t)" by fastforce
    have "redis.sound d p (genuine p U) t \<and> (\<forall>png st. r = Inr (png, st) \<longrightarrow> genuine p U (z, x, y) png)"
      by (rule redis.tile_sound [OF c s _ r]) (rule fetch_genuine [OF _ n])
    then show ?thesis using run r Some z
      by (cases r) (auto simp: ServeHTTP_def write_tile_def Let_def split: tile_error.splits if_splits prod.splits)
  qed
  show "redis.sound d p (genuine p U) s'" using * by blast
  show "ta_code a = 200 \<Longrightarrow> \<exists>z x y. tile_coordinates zt xt yt = Some (z, x, y) \<and> genuine p U (z, x, y) (ta_body a)" using * by blast
qed

lemma Static_sound:
  assumes c: "px_cache p = Some (RedisCache documented)" and s: "redis.sound d p (genuine p U) s" and n: "range (case_prod nets) \<subseteq> U"
    and run: "Static d p nets c v s = (r, s')"
  shows "redis.sound d p (genuine p U) s' \<and> (\<forall>b. r = Inr b \<longrightarrow> (\<exists>img. png_Encode c img = Inr b \<and>
    painted (genuine p U) c v {(tx, ty). 0 \<le> ty \<and> ty < 2 ^ vw_zoom v} img))"
  by (rule redis.Static_painted [where U = U, OF c fetch_genuine _ s run]) (use n in auto)

lemma tile_step_sound:
  assumes c: "px_cache p = Some (RedisCache documented)" and s: "redis.sound d p (genuine p U) s" and n: "event_upstreams e \<subseteq> U"
  shows "redis.sound d p (genuine p U) (tile_step documented_service d p e s)"
proof (cases e)
  case (Asked now net gone ip etag zt xt yt)
  obtain a t where a: "ServeHTTP d p net gone ip etag zt xt yt (s\<lparr>rd_now := now\<rparr>) = (a, t)" by fastforce
  from ServeHTTP_sound(1) [OF c _ _ this] show ?thesis using s n Asked a by simp
next
  case (Drawn now nets c' v)
  obtain a t where a: "Static d p nets c' v (s\<lparr>rd_now := now\<rparr>) = (a, t)" by fastforce
  from Static_sound [OF c _ _ this] show ?thesis using s n Drawn a by simp
next
  case (Failing script)
  then show ?thesis using s by (simp add: redis.sound_def)
next
  case (Evicted k)
  then show ?thesis using s by (auto simp: redis.sound_def redis_held_def)
qed

lemma tile_runs_sound: "px_cache p = Some (RedisCache documented) \<Longrightarrow> run_upstreams es \<subseteq> U \<Longrightarrow> redis.sound d p (genuine p U) (tile_runs documented_service d p es empty_redis)"
proof (induction es rule: rev_induct)
  case Nil
  have "redis_held empty_redis = Map.empty" by (simp add: redis_held_def empty_redis_def fun_eq_iff)
  then show ?case by (simp add: tile_runs_def redis.sound_def)
next
  case (snoc e es)
  then have "redis.sound d p (genuine p U) (tile_runs documented_service d p es empty_redis)" "event_upstreams e \<subseteq> U" by (auto simp: run_upstreams_def)
  from tile_step_sound [OF snoc.prems(1) this] show ?case by (simp add: tile_runs_def)
qed

text \<open>C17: Whatever requests, static maps, failing commands and evictions went before, an answer 200 of the tile proxy has
  valid coordinates and carries a PNG of at most 2 MiB that an upstream server of the run answered for exactly these
  coordinates: a tile is never served under another one's key, and no counter is ever served as a tile.\<close>

theorem served_tile_genuine:
  assumes sv: "behaves sv view" and c: "px_cache p = Some (RedisCache (sv_api sv))" and e: "view s0 = empty_redis"
    and run: "ServeHTTP d p net gone ip etag zt xt yt (tile_runs sv d p es s0) = (a, s)" and ok: "ta_code a = 200"
  shows "\<exists>z x y. tile_coordinates zt xt yt = Some (z, x, y) \<and> has_prefix pngMagic (ta_body a) \<and> length (ta_body a) \<le> maxTileBytes \<and>
    (\<exists>net' \<in> insert net (run_upstreams es). net' (upstreamURL p z x y) = Inr (200, Inr (ta_body a)))"
proof -
  let ?p = "redis_proxy p" and ?U = "insert net (run_upstreams es)"
  have sound: "redis.sound d ?p (genuine ?p ?U) (tile_runs documented_service d ?p es empty_redis)" by (rule tile_runs_sound) auto
  have served: "ServeHTTP d ?p net gone ip etag zt xt yt (tile_runs documented_service d ?p es empty_redis) = (a, view s)"
    using ServeHTTP_sim [OF sv c run] unfolding tile_runs_view [OF sv c] e .
  have "\<exists>z x y. tile_coordinates zt xt yt = Some (z, x, y) \<and> genuine ?p ?U (z, x, y) (ta_body a)"
    by (rule ServeHTTP_sound(2) [OF redis_proxy_keys(1) sound insertI1 served ok])
  then show ?thesis by (auto simp: genuine_def)
qed

definition sample_digests :: digests where
  "sample_digests = \<lparr>dg_sha1 = (\<lambda>_. ''abcd''), dg_sha256 = (\<lambda>_. ''abcdefgh'')\<rparr>"

definition sample_proxy :: "redis proxy" where
  "sample_proxy = \<lparr>px_upstream = ''/{z}/{x}/{y}.png'', px_cache = Some (RedisCache documented), px_ttl = DefaultTTL, px_misses = DefaultMissesPerIP\<rparr>"

definition sample_upstream :: upstream where
  "sample_upstream = (\<lambda>url. if url = ''/1/0/1.png'' then Inr (200, Inr (pngMagic @ url)) else Inr (404, Inr []))"

lemma sample_parts:
  "tile_coordinates ''1'' ''0'' ''1.png'' = Some (1, 0, 1)" "upstreamURL sample_proxy 1 0 1 = ''/1/0/1.png''"
  "has_prefix pngMagic (pngMagic @ ''/1/0/1.png'')"
  by code_simp+

lemma sample_fetch: "fetch_tile sample_proxy sample_upstream 1 0 1 = Inr (pngMagic @ ''/1/0/1.png'')"
  by (simp add: fetch_tile_def sample_parts sample_upstream_def) (simp add: maxTileBytes_def pngMagic_def)

lemma sample_allow: "allow sample_digests sample_proxy ''::1'' empty_redis =
    (Inr True, empty_redis\<lparr>rd_data := [limit_key sample_digests sample_proxy ''::1'' \<mapsto> (int_text 1, Some missWindow)]\<rparr>)"
  by (simp add: allow_def sample_proxy_def RedisCache_def documented_def attempt_def RedisCache_Incr_def documented_def andthen_def redis_plain empty_redis_def rd_lookup_def DefaultMissesPerIP_def)

definition sample_run :: redis where
  "sample_run = tile_runs documented_service sample_digests sample_proxy [Asked 0 sample_upstream False ''::1'' [] ''1'' ''0'' ''1.png''] empty_redis"

lemma sample_run: "sample_run =
    empty_redis\<lparr>rd_data := [limit_key sample_digests sample_proxy ''::1'' \<mapsto> (int_text 1, Some missWindow),
      tile_key sample_digests sample_proxy 1 0 1 \<mapsto> (pngMagic @ ''/1/0/1.png'', Some DefaultTTL)]\<rparr>"
proof -
  have c: "px_cache sample_proxy = Some (RedisCache documented)" "px_ttl sample_proxy = DefaultTTL" "0 < DefaultTTL" by (simp_all add: sample_proxy_def DefaultTTL_def)
  have e: "empty_redis\<lparr>rd_now := 0\<rparr> = empty_redis" "rd_script empty_redis = []" "rd_now empty_redis = 0" "rd_lookup k empty_redis = None" for k
    by (simp_all add: empty_redis_def rd_lookup_def)
  have "tile sample_digests sample_proxy sample_upstream ''::1'' 1 0 1 empty_redis = (Inr (pngMagic @ ''/1/0/1.png'', ''MISS''),
      empty_redis\<lparr>rd_data := [limit_key sample_digests sample_proxy ''::1'' \<mapsto> (int_text 1, Some missWindow),
      tile_key sample_digests sample_proxy 1 0 1 \<mapsto> (pngMagic @ ''/1/0/1.png'', Some DefaultTTL)]\<rparr>)"
    by (subst tile_miss [OF c(1) e(2,4) sample_allow]) (simp_all add: e c sample_fetch)
  then show ?thesis by (simp add: sample_run_def tile_runs_def e ServeHTTP_def sample_parts)
qed

theorem served_tile_genuine_witness:
  "let r = ServeHTTP sample_digests sample_proxy (\<lambda>_. Inl ''down'') False ''::1'' [] ''1'' ''0'' ''1.png''
         (sample_run)
   in ta_code (fst r) = 200 \<and> ta_body (fst r) = pngMagic @ ''/1/0/1.png'' \<and> (\<exists>z x y. tile_coordinates ''1'' ''0'' ''1.png'' = Some (z, x, y) \<and> has_prefix pngMagic (ta_body (fst r)))"
proof -
  let ?r = "ServeHTTP sample_digests sample_proxy (\<lambda>_. Inl ''down'') False ''::1'' [] ''1'' ''0'' ''1.png''
         (sample_run)"
  have c: "px_cache sample_proxy = Some (RedisCache documented)" by (simp add: sample_proxy_def)
  have hit: "tile sample_digests sample_proxy (\<lambda>_. Inl ''down'') ''::1'' 1 0 1 (sample_run) = (Inr (pngMagic @ ''/1/0/1.png'', ''HIT''), sample_run)"
    by (rule tile_hit [OF c, where e = "Some DefaultTTL"]) (simp_all add: sample_run rd_lookup_def empty_redis_def DefaultTTL_def)
  have r: "ta_code (fst ?r) = 200" "ta_body (fst ?r) = pngMagic @ ''/1/0/1.png''"
    by (simp_all add: ServeHTTP_def sample_parts hit write_tile_def ETag_def)
  obtain a s where a: "?r = (a, s)" by fastforce
  from served_tile_genuine [OF behaves_documented _ refl, of sample_proxy, simplified, OF c a [unfolded sample_run_def]] r a show ?thesis by (auto simp: Let_def)
qed

section \<open>Static maps\<close>

lemma in_world: "0 \<le> gy div tileSize \<and> gy div tileSize < n \<longleftrightarrow> 0 \<le> gy \<and> gy < tileSize * n"
proof -
  define q m where "q = gy div 256" and "m = gy mod 256"
  have "gy = q * 256 + m" "0 \<le> m" "m < 256" by (simp_all add: q_def m_def)
  then have "0 \<le> q \<and> q < n \<longleftrightarrow> 0 \<le> gy \<and> gy < 256 * n" by auto
  then show ?thesis by (simp add: tileSize_def q_def)
qed

text \<open>C20: A static map has the size of its view. Each pixel shows the world pixel of its place, read from a tile that an
  upstream server of the run answered for the tile of that place, columns wrapped around the date line; rows beyond the
  poles are transparent. The tiles are squares of 256 pixels.\<close>

theorem static_paints:
  assumes sv: "behaves sv view" and cache: "px_cache p = Some (RedisCache (sv_api sv))" and start: "view s0 = empty_redis" and sq: "square_tiles c"
    and run: "Static d p nets c v (tile_runs sv d p es s0) = (Inr b, s)"
  shows "\<exists>img. png_Encode c img = Inr b \<and> pc_w img = vw_w v \<and> pc_h img = vw_h v \<and>
    (\<forall>i j. 0 \<le> i \<and> i < vw_w v \<and> 0 \<le> j \<and> j < vw_h v \<longrightarrow>
      (let gx = \<lfloor>vw_x0 v\<rfloor> + i; gy = \<lfloor>vw_y0 v\<rfloor> + j in
       if 0 \<le> gy \<and> gy < tileSize * 2 ^ vw_zoom v
       then pictured (genuine p (range (case_prod nets) \<union> run_upstreams es)) c (vw_zoom v) gx gy (pc_at img i j)
       else pc_at img i j = (0, 0, 0, 0)))"
proof -
  let ?U = "range (case_prod nets) \<union> run_upstreams es" and ?p = "redis_proxy p"
  have sound: "redis.sound d ?p (genuine ?p ?U) (tile_runs documented_service d ?p es empty_redis)" by (rule tile_runs_sound) auto
  have drawn: "Static d ?p nets c v (tile_runs documented_service d ?p es empty_redis) = (Inr b, view s)"
    using sim_run [OF Static_sim [OF sv cache] run] unfolding tile_runs_view [OF sv cache] start .
  obtain img where
    e: "png_Encode c img = Inr b" and p': "painted (genuine ?p ?U) c v {(tx, ty). 0 \<le> ty \<and> ty < 2 ^ vw_zoom v} img"
    using Static_sound [OF redis_proxy_keys(1) sound Un_upper1 drawn] by blast
  have "genuine ?p = genuine p" by (simp add: genuine_def fun_eq_iff)
  with p' have p: "painted (genuine p ?U) c v {(tx, ty). 0 \<le> ty \<and> ty < 2 ^ vw_zoom v} img" by simp
  have "let gx = \<lfloor>vw_x0 v\<rfloor> + i; gy = \<lfloor>vw_y0 v\<rfloor> + j in
       if 0 \<le> gy \<and> gy < tileSize * 2 ^ vw_zoom v then pictured (genuine p ?U) c (vw_zoom v) gx gy (pc_at img i j)
       else pc_at img i j = (0, 0, 0, 0)" if r: "0 \<le> i" "i < vw_w v" "0 \<le> j" "j < vw_h v" for i j
    using p [unfolded painted_def, THEN conjunct2, THEN conjunct2, rule_format, OF sq r]
    unfolding Let_def mem_Collect_eq prod.case in_world .
  then show ?thesis using e p by (intro exI [of _ img]) (auto simp: painted_def)
qed

definition sample_codec :: codec where
  "sample_codec = \<lparr>png_Decode = (\<lambda>raw. Inr \<lparr>pc_w = 256, pc_h = 256, pc_at = (\<lambda>i j. (of_int i, of_int j, 7, 255))\<rparr>),
     png_Encode = (\<lambda>img. Inr (if pc_at img 0 0 = (0, 0, 0, 0) then ''sky'' else ''map''))\<rparr>"

definition sample_view :: view where
  "sample_view = \<lparr>vw_zoom = 1, vw_x0 = 0, vw_y0 = 256, vw_w = 1, vw_h = 1\<rparr>"

theorem static_paints_witness:
  "\<exists>s. Static sample_digests sample_proxy (\<lambda>_ _. sample_upstream) sample_codec sample_view (tile_runs documented_service sample_digests sample_proxy [] empty_redis) = (Inr ''map'', s) \<and>
    (\<exists>img. png_Encode sample_codec img = Inr ''map'' \<and> pc_w img = 1 \<and> pc_h img = 1)"
proof -
  have c: "px_cache sample_proxy = Some (RedisCache documented)" by (simp add: sample_proxy_def)
  have q: "square_tiles sample_codec" by (auto simp: square_tiles_def sample_codec_def tileSize_def)
  have e: "rd_script empty_redis = []" "rd_lookup k empty_redis = None" "allow d p [] empty_redis = (Inr True, empty_redis)" for k d and p :: "redis proxy"
    by (simp_all add: empty_redis_def rd_lookup_def allow_def split: option.splits)
  obtain t where t: "tile sample_digests sample_proxy sample_upstream [] 1 0 1 empty_redis = (Inr (pngMagic @ ''/1/0/1.png'', ''MISS''), t)"
    by (simp add: tile_miss [OF c e(1,2,3) e(1)] sample_fetch)
  have one: "tiles_upto 0 1 = [0]" "tiles_upto 1 257 = [1]"
    by (simp_all add: tiles_upto.simps tileSize_def)
  have "Static sample_digests sample_proxy (\<lambda>_ _. sample_upstream) sample_codec sample_view (tile_runs documented_service sample_digests sample_proxy [] empty_redis) = (Inr ''map'', t)"
    by (simp add: Static_def sample_view_def static_row_def static_columns one static_tile_def column_of with_err_def t andthen_def tile_runs_def
      sample_codec_def draw_at_def NewRGBA_def tileSize_def signed_divide_int_def)
  from static_paints [OF behaves_documented _ refl q this] this c show ?thesis by (auto simp: sample_view_def)
qed

section \<open>The zoom of a view\<close>

definition fits :: "real \<Rightarrow> real \<Rightarrow> real \<Rightarrow> real \<Rightarrow> int \<Rightarrow> int \<Rightarrow> int \<Rightarrow> nat \<Rightarrow> bool" where
  "fits south west north east w h pad z \<longleftrightarrow>
     fst (worldPixel south east z) - fst (worldPixel north west z) \<le> of_int (w - 2 * pad) \<and>
     snd (worldPixel south east z) - snd (worldPixel north west z) \<le> of_int (h - 2 * pad)"

definition centred :: "real \<Rightarrow> real \<Rightarrow> real \<Rightarrow> real \<Rightarrow> int \<Rightarrow> int \<Rightarrow> nat \<Rightarrow> view" where
  "centred south west north east w h z = \<lparr>vw_zoom = z,
     vw_x0 = (fst (worldPixel north west z) + fst (worldPixel south east z)) / 2 - of_int w / 2,
     vw_y0 = (snd (worldPixel north west z) + snd (worldPixel south east z)) / 2 - of_int h / 2, vw_w = w, vw_h = h\<rparr>"

lemma fit_from_unfold:
  "fit_from z south west north east w h pad = (if z = 0 \<or> fits south west north east w h pad z then centred south west north east w h z
     else fit_from (z - 1) south west north east w h pad)"
  by (subst fit_from.simps) (simp add: fits_def centred_def Let_def split: prod.splits)

lemma fit_from_best:
  "\<exists>k\<le>z. fit_from z south west north east w h pad = centred south west north east w h k \<and> (k = 0 \<or> fits south west north east w h pad k)
     \<and> (\<forall>j. k < j \<and> j \<le> z \<longrightarrow> \<not> fits south west north east w h pad j)"
proof (induction z)
  case 0
  then show ?case by (simp add: fit_from_unfold)
next
  case (Suc z)
  show ?case
  proof (cases "fits south west north east w h pad (Suc z)")
    case True
    then show ?thesis by (intro exI [of _ "Suc z"]) (auto simp: fit_from_unfold [of "Suc z"])
  next
    case False
    then have step: "fit_from (Suc z) south west north east w h pad = fit_from z south west north east w h pad" by (simp add: fit_from_unfold [of "Suc z"])
    from Suc obtain k where k: "k \<le> z" "fit_from z south west north east w h pad = centred south west north east w h k"
      "k = 0 \<or> fits south west north east w h pad k" "\<forall>j. k < j \<and> j \<le> z \<longrightarrow> \<not> fits south west north east w h pad j" by blast
    have "\<forall>j. k < j \<and> j \<le> Suc z \<longrightarrow> \<not> fits south west north east w h pad j" using k(4) False by (auto simp: le_Suc_eq)
    then show ?thesis unfolding step using k(1-3) by (intro exI [of _ k]) auto
  qed
qed

lemma centred_pixels:
  "fst (view_Pixel (centred south west north east w h z) north west) + fst (view_Pixel (centred south west north east w h z) south east) = of_int w"
  "snd (view_Pixel (centred south west north east w h z) north west) + snd (view_Pixel (centred south west north east w h z) south east) = of_int h"
  "fst (view_Pixel (centred south west north east w h z) south east) - fst (view_Pixel (centred south west north east w h z) north west) =
     fst (worldPixel south east z) - fst (worldPixel north west z)"
  "snd (view_Pixel (centred south west north east w h z) south east) - snd (view_Pixel (centred south west north east w h z) north west) =
     snd (worldPixel south east z) - snd (worldPixel north west z)"
  by (simp_all add: view_Pixel_def centred_def split_beta field_simps)

text \<open>Fit centres the bounds in the view. At a zoom above 0 they keep the margin on every side, and no higher zoom up to
  19 would hold them with that margin.\<close>

theorem Fit_highest:
  assumes "v = Fit south west north east w h pad"
    and "view_Pixel v north west = (x1, y1)" and "view_Pixel v south east = (x2, y2)"
  shows "vw_w v = w \<and> vw_h v = h \<and> vw_zoom v \<le> 19 \<and> x1 + x2 = of_int w \<and> y1 + y2 = of_int h \<and>
    (0 < vw_zoom v \<longrightarrow> of_int pad \<le> x1 \<and> x2 \<le> of_int (w - pad) \<and> of_int pad \<le> y1 \<and> y2 \<le> of_int (h - pad)) \<and>
    (\<forall>z. vw_zoom v < z \<and> z \<le> 19 \<longrightarrow> \<not> fits south west north east w h pad z)"
proof -
  obtain k where k: "k \<le> 19" "v = centred south west north east w h k" "k = 0 \<or> fits south west north east w h pad k"
    "\<forall>j. k < j \<and> j \<le> 19 \<longrightarrow> \<not> fits south west north east w h pad j"
    using fit_from_best [of 19 south west north east w h pad] assms(1) by (auto simp: Fit_def maxZoom_def)
  note c = centred_pixels [of south west north east w h k, folded k(2), unfolded assms(2,3) fst_conv snd_conv]
  have m: "0 < k \<Longrightarrow> x2 - x1 \<le> of_int w - 2 * of_int pad \<and> y2 - y1 \<le> of_int h - 2 * of_int pad"
    using k(3) c(3,4) by (simp add: fits_def)
  have "0 < k \<Longrightarrow> of_int pad \<le> x1 \<and> x2 \<le> of_int (w - pad) \<and> of_int pad \<le> y1 \<and> y2 \<le> of_int (h - pad)"
    using m c(1,2) unfolding of_int_diff by linarith
  then show ?thesis using k c(1,2) by (simp add: centred_def)
qed

theorem Fit_highest_witness:
  "vw_zoom (Fit 0 0 0 10 100 100 10) = 3 \<and> \<not> fits 0 0 0 10 100 100 10 4 \<and>
    10 \<le> fst (view_Pixel (Fit 0 0 0 10 100 100 10) 0 0) \<and> fst (view_Pixel (Fit 0 0 0 10 100 100 10) 0 10) \<le> 90"
proof -
  have f: "fits 0 0 0 10 100 100 10 z \<longleftrightarrow> (2::real) ^ z \<le> 45 / 4" for z
    by (simp add: fits_def worldPixel_def tileSize_def field_simps)
  have z: "vw_zoom (Fit 0 0 0 10 100 100 10) = 3"
    by (simp add: Fit_def maxZoom_def fit_from_unfold f centred_def)
  obtain x1 y1 x2 y2 where x: "view_Pixel (Fit 0 0 0 10 100 100 10) 0 0 = (x1, y1)" "view_Pixel (Fit 0 0 0 10 100 100 10) 0 10 = (x2, y2)" by fastforce
  from Fit_highest [OF refl x] show ?thesis unfolding z x by simp
qed

end
