(* ===== verification/Tile_Budget.thy ===== *)
theory Tile_Budget
  imports Static_Claims
begin

text \<open>
  The miss budget of an address: its counter in Redis is a bucket of the fixed windows of Rate_Limits, so within one window
  at most twice the budget reaches the upstream server. A command that fails between the two of Incr leaves a counter
  that never expires.
\<close>

section \<open>The counter of an address\<close>

definition counter :: "digests \<Rightarrow> redis proxy \<Rightarrow> string \<Rightarrow> redis \<Rightarrow> bucket" where
  "counter d p ip s = (case rd_data s (limit_key d p ip) of
     Some (v, Some e) \<Rightarrow> map_option (\<lambda>n. (nat n, e - missWindow)) (ParseInt v) | _ \<Rightarrow> None)"

text \<open>The counter is absent, or a number up to N with an expiry time; the commands work.\<close>

definition counted :: "digests \<Rightarrow> redis proxy \<Rightarrow> string \<Rightarrow> nat \<Rightarrow> redis \<Rightarrow> bool" where
  "counted d p ip N s \<longleftrightarrow> rd_script s = [] \<and>
     (case rd_data s (limit_key d p ip) of None \<Rightarrow> True | Some (v, e) \<Rightarrow> \<exists>n t. v = int_text (int n) \<and> e = Some t \<and> 0 < n \<and> n \<le> N)"

lemma counter_entry:
  assumes "counted d p ip N s" "N < 2 ^ 63"
  obtains (absent) "rd_data s (limit_key d p ip) = None" "counter d p ip s = None"
  | (present) n e where "rd_data s (limit_key d p ip) = Some (int_text (int n), Some e)" "0 < n" "n \<le> N" "counter d p ip s = Some (n, e - missWindow)"
proof (cases "rd_data s (limit_key d p ip)")
  case None
  then show ?thesis by (intro absent) (simp_all add: counter_def)
next
  case (Some x)
  then obtain n e where "x = (int_text (int n), Some e)" "0 < n" "n \<le> N" using assms(1) by (auto simp: counted_def)
  moreover have "ParseInt (int_text (int n)) = Some (int n)" using assms(2) \<open>n \<le> N\<close> by (intro ParseInt_int_text) auto
  ultimately show ?thesis using Some by (intro present [of n e]) (simp_all add: counter_def)
qed

text \<open>Incr is a hit of the bucket.\<close>

lemma Incr_hit:
  assumes c: "counted d p ip N s" and N: "Suc N < 2 ^ 63"
  shows "RedisCache_Incr documented (limit_key d p ip) missWindow s =
    (let (n, st) = bucket_hit missWindow (rd_now s) (counter d p ip s) in
     (Inr (int n), s\<lparr>rd_data := (rd_data s)(limit_key d p ip \<mapsto> (int_text (int n), Some (st + missWindow)))\<rparr>))"
proof -
  let ?k = "limit_key d p ip"
  have sc: "rd_script s = []" using c by (simp add: counted_def)
  have fresh: "RedisCache_Incr documented ?k missWindow s = (Inr 1, s\<lparr>rd_data := (rd_data s)(?k \<mapsto> (int_text 1, Some (rd_now s + missWindow)))\<rparr>)"
    if "rd_lookup ?k s = None"
    using that sc by (simp add: RedisCache_Incr_def documented_def andthen_def redis_plain rd_lookup_def)
  have "N < 2 ^ 63" using N by simp
  with c show ?thesis
  proof (cases rule: counter_entry)
    case absent
    then show ?thesis using fresh by (simp add: rd_lookup_def)
  next
    case (present n e)
    show ?thesis
    proof (cases "rd_now s \<le> e")
      case False
      then show ?thesis using present fresh by (simp add: rd_lookup_def)
    next
      case True
      have "ParseInt (int_text (int n)) = Some (int n)" using present(3) N by (intro ParseInt_int_text) auto
      moreover have "int n + 1 \<noteq> 2 ^ 63" using present(3) N by simp
      ultimately have i: "redis_INCR ?k s = (Inr (int n + 1), s\<lparr>rd_data := (rd_data s)(?k \<mapsto> (int_text (int n + 1), Some e))\<rparr>)"
        using True present(1) sc by (simp add: redis_INCR_def command_def rd_lookup_def)
      show ?thesis using present True i by (simp add: RedisCache_Incr_def documented_def andthen_def add.commute)
    qed
  qed
qed

text \<open>What one hit of the bucket leaves in Redis.\<close>

definition hit_redis :: "digests \<Rightarrow> redis proxy \<Rightarrow> string \<Rightarrow> redis \<Rightarrow> redis" where
  "hit_redis d p ip s = (let (n, st) = bucket_hit missWindow (rd_now s) (counter d p ip s) in
     s\<lparr>rd_data := (rd_data s)(limit_key d p ip \<mapsto> (int_text (int n), Some (st + missWindow)))\<rparr>)"

lemma bucket_hit_pos: "0 < fst (bucket_hit w now b)"
  by (simp add: bucket_hit_Suc)

lemma bucket_hit_le: "(\<And>c st. b = Some (c, st) \<Longrightarrow> c \<le> N) \<Longrightarrow> fst (bucket_hit w now b) \<le> Suc N"
  by (cases b) auto

lemma hit_redis:
  assumes c: "counted d p ip N s" and N: "Suc N < 2 ^ 63"
  shows "rd_script (hit_redis d p ip s) = []" "rd_now (hit_redis d p ip s) = rd_now s"
    and "counted d p ip (Suc N) (hit_redis d p ip s)"
    and "counter d p ip (hit_redis d p ip s) = Some (bucket_hit missWindow (rd_now s) (counter d p ip s))"
    and "k \<noteq> limit_key d p ip \<Longrightarrow> rd_data (hit_redis d p ip s) k = rd_data s k"
proof -
  obtain n st where b: "bucket_hit missWindow (rd_now s) (counter d p ip s) = (n, st)" by fastforce
  have "N < 2 ^ 63" using N by simp
  with c have "\<And>m e. counter d p ip s = Some (m, e) \<Longrightarrow> m \<le> N" by (cases rule: counter_entry) auto
  then have n: "0 < n" "n \<le> Suc N" using b bucket_hit_pos [of missWindow "rd_now s" "counter d p ip s"]
      bucket_hit_le [of "counter d p ip s" N missWindow "rd_now s"] by auto
  have sc: "rd_script s = []" using c by (simp add: counted_def)
  have "ParseInt (int_text (int n)) = Some (int n)" using n N by (intro ParseInt_int_text) auto
  moreover have h: "hit_redis d p ip s = s\<lparr>rd_data := (rd_data s)(limit_key d p ip \<mapsto> (int_text (int n), Some (st + missWindow)))\<rparr>"
    by (simp add: hit_redis_def b)
  ultimately show "rd_script (hit_redis d p ip s) = []" "rd_now (hit_redis d p ip s) = rd_now s" "counted d p ip (Suc N) (hit_redis d p ip s)"
    "counter d p ip (hit_redis d p ip s) = Some (bucket_hit missWindow (rd_now s) (counter d p ip s))"
    "k \<noteq> limit_key d p ip \<Longrightarrow> rd_data (hit_redis d p ip s) k = rd_data s k"
    using n sc unfolding b h by (auto simp: counted_def counter_def)
qed

lemma allow_hit:
  assumes "px_cache p = Some (RedisCache documented)" "0 < px_misses p" "ip \<noteq> []" "counted d p ip N s" "Suc N < 2 ^ 63"
  shows "allow d p ip s = (Inr (int (fst (bucket_hit missWindow (rd_now s) (counter d p ip s))) \<le> px_misses p), hit_redis d p ip s)"
  using assms Incr_hit [OF assms(4,5)] by (simp add: allow_def attempt_def RedisCache_def documented_def hit_redis_def split: prod.split)

section \<open>One tile\<close>

text \<open>Writing under another key leaves the counter alone.\<close>

lemma counter_other: "rd_data s' (limit_key d p ip) = rd_data s (limit_key d p ip) \<Longrightarrow> counter d p ip s' = counter d p ip s"
  by (simp add: counter_def)

lemma counted_other: "rd_data s' (limit_key d p ip) = rd_data s (limit_key d p ip) \<Longrightarrow> rd_script s' = rd_script s \<Longrightarrow> counted d p ip N s' = counted d p ip N s"
  by (simp add: counted_def)

lemma counted_mono: "counted d p ip N s \<Longrightarrow> N \<le> M \<Longrightarrow> counted d p ip M s"
  by (auto simp: counted_def split: option.splits)

text \<open>A run without failing commands: every counter is fine.\<close>

definition orderly :: "digests \<Rightarrow> redis proxy \<Rightarrow> nat \<Rightarrow> redis \<Rightarrow> bool" where
  "orderly d p N s \<longleftrightarrow> (\<forall>ip. counted d p ip N s)"

lemma orderly_hit: "orderly d p N s \<Longrightarrow> Suc N < 2 ^ 63 \<Longrightarrow> orderly d p (Suc N) (hit_redis d p ip s)"
  unfolding orderly_def
proof
  fix a assume o: "\<forall>ip. counted d p ip N s" and N: "Suc N < 2 ^ 63"
  note h = hit_redis [OF o [rule_format, of ip] N]
  show "counted d p a (Suc N) (hit_redis d p ip s)"
  proof (cases "a = ip")
    case False
    then have "counted d p a N (hit_redis d p ip s) = counted d p a N s" using h o by (intro counted_other) (auto simp: counted_def limit_key_inj)
    then show ?thesis using o by (auto intro: counted_mono)
  qed (use h in simp)
qed

lemma tile_hits:
  assumes c: "px_cache p = Some (RedisCache documented)" "0 < px_misses p" and o: "orderly d p N s" and N: "Suc N < 2 ^ 63"
    and run: "tile d p net a z x y s = (r, s')"
  obtains (hit) v where "r = Inr (v, ''HIT'')" "s' = s"
  | (miss) t where "t = (if a = [] then s else hit_redis d p a s)" "rd_script s' = rd_script t" "\<And>ip. rd_data s' (limit_key d p ip) = rd_data t (limit_key d p ip)"
      "a \<noteq> [] \<Longrightarrow> r \<noteq> Inl Limited \<Longrightarrow> int (fst (bucket_hit missWindow (rd_now s) (counter d p a s))) \<le> px_misses p"
proof (cases "rd_lookup (tile_key d p z x y) s")
  case (Some ve)
  have "rd_script s = []" using o by (simp add: orderly_def counted_def)
  with Some run c(1) show ?thesis by (cases ve) (auto simp: tile_hit intro: hit)
next
  case None
  define t where "t = (if a = [] then s else hit_redis d p a s)"
  define ok where "ok \<longleftrightarrow> a = [] \<or> int (fst (bucket_hit missWindow (rd_now s) (counter d p a s))) \<le> px_misses p"
  have sc: "rd_script s = []" "counted d p a N s" using o by (simp_all add: orderly_def counted_def)
  then have t: "rd_script t = []" using hit_redis(1) [OF sc(2) N] by (simp add: t_def)
  have a: "allow d p a s = (Inr ok, t)"
    using allow_hit [OF c _ sc(2) N] c by (auto simp: t_def ok_def allow_def)
  note run' = run [unfolded tile_miss [OF c(1) sc(1) None a t]]
  show ?thesis
  proof (rule miss [OF t_def])
    show "rd_script s' = rd_script t" using run' by (auto split: if_splits sum.splits)
    show "rd_data s' (limit_key d p ip) = rd_data t (limit_key d p ip)" for ip
      using run' limit_key_other [of d p ip z x y] by (auto split: if_splits sum.splits)
    show "a \<noteq> [] \<Longrightarrow> r \<noteq> Inl Limited \<Longrightarrow> int (fst (bucket_hit missWindow (rd_now s) (counter d p a s))) \<le> px_misses p"
      using run' by (auto simp: ok_def split: if_splits sum.splits)
  qed
qed

lemma tile_orderly:
  assumes c: "px_cache p = Some (RedisCache documented)" "0 < px_misses p" and o: "orderly d p N s" and N: "Suc N < 2 ^ 63"
    and run: "tile d p net a z x y s = (r, s')"
  shows "orderly d p (if a = [] then N else Suc N) s' \<and> (\<forall>ip. ip \<noteq> a \<longrightarrow> counter d p ip s' = counter d p ip s) \<and>
    (a \<noteq> [] \<longrightarrow> (\<exists>v. r = Inr (v, ''HIT'')) \<and> counter d p a s' = counter d p a s \<or>
      counter d p a s' = Some (bucket_hit missWindow (rd_now s) (counter d p a s)) \<and>
      (r \<noteq> Inl Limited \<longrightarrow> int (fst (bucket_hit missWindow (rd_now s) (counter d p a s))) \<le> px_misses p))"
  using c o N run
proof (cases rule: tile_hits)
  case (hit v)
  then show ?thesis using o by (auto simp: orderly_def intro: counted_mono)
next
  case (miss t)
  note h = hit_redis [OF o [unfolded orderly_def, rule_format, of a] N]
  have t: "orderly d p (if a = [] then N else Suc N) t" using miss(1) o orderly_hit [OF o N, of a] by auto
  have "orderly d p (if a = [] then N else Suc N) s'" using t miss(2,3) by (simp add: orderly_def counted_def)
  moreover have s': "counter d p ip s' = counter d p ip t" for ip by (rule counter_other) (rule miss(3))
  moreover have "counter d p ip t = counter d p ip s" if "ip \<noteq> a" for ip
    using that miss(1) by (auto intro!: counter_other h(5) simp: limit_key_inj)
  ultimately show ?thesis using miss(1,4) h(4) by (cases "a = []") auto
qed

section \<open>Runs\<close>

record tile_request =
  tr_at :: time
  tr_net :: upstream
  tr_gone :: bool
  tr_ip :: string
  tr_etag :: string
  tr_z :: string
  tr_x :: string
  tr_y :: string

definition serve :: "'s service \<Rightarrow> digests \<Rightarrow> 's proxy \<Rightarrow> tile_request \<Rightarrow> 's \<Rightarrow> tile_answer \<times> 's" where
  "serve sv d p q s = ServeHTTP d p (tr_net q) (tr_gone q) (tr_ip q) (tr_etag q) (tr_z q) (tr_x q) (tr_y q) (sv_at sv (tr_at q) s)"

text \<open>The answers of a run of requests, each with the address it went to.\<close>

primrec answers :: "'s service \<Rightarrow> digests \<Rightarrow> 's proxy \<Rightarrow> tile_request list \<Rightarrow> 's \<Rightarrow> (string \<times> tile_answer) list" where
  "answers sv d p [] s = []"
| "answers sv d p (q # qs) s = (tr_ip q, fst (serve sv d p q s)) # answers sv d p qs (snd (serve sv d p q s))"

lemma answers_view:
  assumes "behaves sv view" and "px_cache p = Some (RedisCache (sv_api sv))"
  shows "answers sv d p qs s = answers documented_service d (redis_proxy p) qs (view s)"
proof (induction qs arbitrary: s)
  case (Cons q qs)
  obtain a t where a: "serve sv d p q s = (a, t)" by fastforce
  have "serve documented_service d (redis_proxy p) q (view s) = (a, view t)"
    using ServeHTTP_sim [OF assms a [unfolded serve_def]] unfolding serve_def behaves_moves [OF assms(1)] .
  then show ?case using a Cons by simp
qed simp

text \<open>An answer that cost a request to the upstream server.\<close>

definition upstream_asked :: "tile_answer \<Rightarrow> bool" where
  "upstream_asked a \<longleftrightarrow> ta_code a = 499 \<or> ta_code a = 502 \<or> (''X-Cache'', ''MISS'') \<in> set (ta_head a)"

lemma now_orderly [simp]: "orderly d p N (s\<lparr>rd_now := t\<rparr>) = orderly d p N s" "counter d p ip (s\<lparr>rd_now := t\<rparr>) = counter d p ip s"
  by (simp_all add: orderly_def counted_def counter_def)

lemma orderly_mono: "orderly d p N s \<Longrightarrow> N \<le> M \<Longrightarrow> orderly d p M s"
  by (auto simp: orderly_def intro: counted_mono)

lemma write_tile_asked: "upstream_asked (write_tile d p e png st) \<longleftrightarrow> st = ''MISS''"
  by (auto simp: upstream_asked_def write_tile_def Let_def)

lemma serve_budget:
  assumes c: "px_cache p = Some (RedisCache documented)" "0 < px_misses p" and o: "orderly d p N s" and N: "Suc N < 2 ^ 63"
    and run: "serve documented_service d p q s = (a, s')"
  shows "orderly d p (Suc N) s' \<and> (\<forall>ip. ip \<noteq> tr_ip q \<longrightarrow> counter d p ip s' = counter d p ip s) \<and>
    (tr_ip q \<noteq> [] \<longrightarrow> \<not> upstream_asked a \<and> counter d p (tr_ip q) s' = counter d p (tr_ip q) s \<or>
      counter d p (tr_ip q) s' = Some (bucket_hit missWindow (tr_at q) (counter d p (tr_ip q) s)) \<and>
      (upstream_asked a \<longrightarrow> int (fst (bucket_hit missWindow (tr_at q) (counter d p (tr_ip q) s))) \<le> px_misses p))"
proof (cases "tile_coordinates (tr_z q) (tr_x q) (tr_y q)")
  case None
  then have "\<not> upstream_asked a" "s' = s\<lparr>rd_now := tr_at q\<rparr>" using run by (auto simp: serve_def ServeHTTP_def upstream_asked_def)
  then show ?thesis using o by (auto intro: orderly_mono)
next
  case (Some zxy)
  obtain z x y where z: "zxy = (z, x, y)" by (cases zxy)
  obtain r t where r: "tile d p (tr_net q) (tr_ip q) z x y (s\<lparr>rd_now := tr_at q\<rparr>) = (r, t)" by fastforce
  note o' = tile_orderly [OF c _ N r, simplified, OF o]
  have t: "s' = t" using run Some z r by (auto simp: serve_def ServeHTTP_def split: sum.splits tile_error.splits prod.splits if_splits)
  have "\<not> upstream_asked a" if "r = Inl Limited" using run Some z r that by (auto simp: serve_def ServeHTTP_def upstream_asked_def)
  moreover have "\<not> upstream_asked a" if "r = Inr (v, ''HIT'')" for v using run Some z r that by (auto simp: serve_def ServeHTTP_def write_tile_asked)
  ultimately have a: "r = Inl Limited \<or> (\<exists>v. r = Inr (v, ''HIT'')) \<Longrightarrow> \<not> upstream_asked a" by blast
  show ?thesis unfolding t using o' a orderly_mono [of d p N t "Suc N"] by (auto split: if_splits)
qed

lemma answers_admitted:
  assumes c: "px_cache p = Some (RedisCache documented)" "0 < px_misses p" and ip: "ip \<noteq> []" and w: "\<And>q. q \<in> set qs \<Longrightarrow> t0 \<le> tr_at q \<and> tr_at q \<le> t0 + missWindow"
  shows "orderly d p N s \<Longrightarrow> N + length qs < 2 ^ 63 \<Longrightarrow> \<exists>ts. (\<forall>t\<in>set ts. t0 \<le> t \<and> t \<le> t0 + missWindow) \<and>
    length (filter (\<lambda>(a_ip, a). a_ip = ip \<and> upstream_asked a) (answers documented_service d p qs s)) \<le> admitted (nat (px_misses p)) missWindow (counter d p ip s) ts"
  using w
proof (induction qs arbitrary: s N)
  case Nil
  show ?case by (intro exI [of _ "[]"]) simp
next
  case (Cons q qs)
  obtain a s' where a: "serve documented_service d p q s = (a, s')" by fastforce
  have N: "Suc N < 2 ^ 63" "Suc N + length qs < 2 ^ 63" using Cons.prems(2) by simp_all
  note b = serve_budget [OF c Cons.prems(1) N(1) a]
  obtain ts where ts: "\<forall>t\<in>set ts. t0 \<le> t \<and> t \<le> t0 + missWindow"
    "length (filter (\<lambda>(a_ip, a). a_ip = ip \<and> upstream_asked a) (answers documented_service d p qs s')) \<le> admitted (nat (px_misses p)) missWindow (counter d p ip s') ts"
    using Cons.IH [OF b [THEN conjunct1] N(2)] Cons.prems(3) by auto
  show ?case
  proof (cases "tr_ip q = ip \<and> counter d p ip s' = Some (bucket_hit missWindow (tr_at q) (counter d p ip s))
      \<and> (upstream_asked a \<longrightarrow> int (fst (bucket_hit missWindow (tr_at q) (counter d p ip s))) \<le> px_misses p)")
    case True
    then have "upstream_asked a \<Longrightarrow> fst (bucket_hit missWindow (tr_at q) (counter d p ip s)) \<le> nat (px_misses p)" by (simp add: le_nat_iff)
    moreover have "t0 \<le> tr_at q \<and> tr_at q \<le> t0 + missWindow" using Cons.prems(3) by simp
    ultimately show ?thesis using ts a True by (intro exI [of _ "tr_at q # ts"]) (auto simp: Let_def)
  next
    case False
    then have "tr_ip q \<noteq> ip \<or> \<not> upstream_asked a" "counter d p ip s' = counter d p ip s" using b ip by (cases "tr_ip q = ip"; auto)+
    then show ?thesis using ts a by (intro exI [of _ ts]) auto
  qed
qed

lemma Static_orderly:
  assumes c: "px_cache p = Some (RedisCache documented)" "0 < px_misses p" and o: "orderly d p N s" and N: "Suc N < 2 ^ 63"
  shows "orderly d p N (snd (Static d p nets cd v s))"
proof -
  have one: "orderly d p N s' \<and> (\<forall>b'. r = Inr b' \<longrightarrow> True)" if "orderly d p N s" "static_tile d p nets cd v ty tx img s = (r, s')" for s s' r ty tx img
  proof -
    let ?x = "((tx smod 2 ^ vw_zoom v) + 2 ^ vw_zoom v) smod 2 ^ vw_zoom v"
    obtain q t where q: "tile d p (nets tx ty) [] (int (vw_zoom v)) ?x ty s = (q, t)" by fastforce
    have "s' = t" using that(2) q by (auto simp: static_tile_def Let_def andthen_def with_err_def split: sum.splits prod.splits)
    then show ?thesis using tile_orderly [OF c that(1) N q] by simp
  qed
  have row: "orderly d p N s' \<and> (\<forall>b'. r = Inr b' \<longrightarrow> True)" if o: "orderly d p N s" and run: "static_row d p nets cd v ty img s = (r, s')" for s s' r ty img
  proof (cases "ty < 0 \<or> 2 ^ vw_zoom v \<le> ty")
    case True
    then show ?thesis using o run by (auto simp: static_row_def)
  next
    case False
    with run show ?thesis unfolding static_row_def
      by (simp only: if_False) (rule each_rule [where I = "orderly d p N" and P = "\<lambda>_ _. True" and g = "\<lambda>_. {}", OF _ o TrueI], rule one)
  qed
  obtain r t where r: "each (static_row d p nets cd v) (tiles_upto (\<lfloor>vw_y0 v\<rfloor> sdiv tileSize) (\<lfloor>vw_y0 v\<rfloor> + vw_h v)) (NewRGBA (vw_w v) (vw_h v)) s = (r, t)" by fastforce
  have "orderly d p N t" by (rule each_rule [where I = "orderly d p N" and P = "\<lambda>_ _. True" and g = "\<lambda>_. {}", OF _ o TrueI r, THEN conjunct1], rule row)
  moreover have "snd (Static d p nets cd v s) = t" using r by (auto simp: Static_def andthen_def split: sum.splits)
  ultimately show ?thesis by simp
qed

lemma tile_runs_orderly:
  assumes c: "px_cache p = Some (RedisCache documented)" "0 < px_misses p"
  shows "(\<And>script. Failing script \<notin> set es) \<Longrightarrow> Suc (length es) < 2 ^ 63 \<Longrightarrow> orderly d p (length es) (tile_runs documented_service d p es empty_redis)"
proof (induction es rule: rev_induct)
  case Nil
  show ?case by (simp add: tile_runs_def empty_redis_def orderly_def counted_def)
next
  case (snoc e es)
  let ?s = "tile_runs documented_service d p es empty_redis"
  have o: "orderly d p (length es) ?s" and N: "Suc (length es) < 2 ^ 63" using snoc by auto
  have run: "tile_runs documented_service d p (es @ [e]) empty_redis = tile_step documented_service d p e ?s" by (simp add: tile_runs_def)
  show ?case
  proof (cases e)
    case (Asked now net gone ip etag zt xt yt)
    let ?q = "\<lparr>tr_at = now, tr_net = net, tr_gone = gone, tr_ip = ip, tr_etag = etag, tr_z = zt, tr_x = xt, tr_y = yt\<rparr>"
    obtain a t where a: "serve documented_service d p ?q ?s = (a, t)" by fastforce
    then have "tile_step documented_service d p e ?s = t" using Asked by (simp add: serve_def)
    then show ?thesis using serve_budget [OF c o N a] run by simp
  next
    case (Drawn now nets cd v)
    have "orderly d p (length es) (?s\<lparr>rd_now := now\<rparr>)" using o by simp
    from Static_orderly [OF c this N] show ?thesis using run Drawn by (auto intro: orderly_mono [where N = "length es"])
  next
    case (Failing script)
    then show ?thesis using snoc.prems(1) [of script] by simp
  next
    case (Evicted k)
    then have "orderly d p (length es) (tile_step documented_service d p e ?s)" using o by (auto simp: orderly_def counted_def split: option.splits)
    then show ?thesis using run by (auto intro: orderly_mono [where N = "length es"])
  qed
qed

text \<open>C18: Within one minute at most twice its budget of requests of an address costs a request to the upstream server,
  whatever was asked before, by whom, and how often tiles or counters were evicted; no command of Redis fails.\<close>

theorem miss_budget:
  assumes sv: "behaves sv view" and cache: "px_cache p = Some (RedisCache (sv_api sv))" and start: "view s0 = empty_redis"
    and "0 < px_misses p" and "ip \<noteq> []"
    and "\<And>script. Failing script \<notin> set es" and "length es + length qs < 2 ^ 63 - 1"
    and "\<And>q. q \<in> set qs \<Longrightarrow> t0 \<le> tr_at q \<and> tr_at q \<le> t0 + missWindow"
  shows "length (filter (\<lambda>(a_ip, a). a_ip = ip \<and> upstream_asked a) (answers sv d p qs (tile_runs sv d p es s0))) \<le> 2 * nat (px_misses p)"
proof -
  let ?p = "redis_proxy p" and ?s = "tile_runs documented_service d (redis_proxy p) es empty_redis"
  have c: "px_cache ?p = Some (RedisCache documented)" "0 < px_misses ?p" using assms(4) by simp_all
  have "orderly d ?p (length es) ?s" by (rule tile_runs_orderly [OF c assms(6)]) (use assms(7) in auto)
  moreover have "length es + length qs < 2 ^ 63" using assms(7) by simp
  ultimately obtain ts where ts: "\<forall>t\<in>set ts. t0 \<le> t \<and> t \<le> t0 + missWindow"
    "length (filter (\<lambda>(a_ip, a). a_ip = ip \<and> upstream_asked a) (answers documented_service d ?p qs ?s)) \<le>
      admitted (nat (px_misses ?p)) missWindow (counter d ?p ip ?s) ts"
    using answers_admitted [OF c assms(5,8)] by blast
  have "admitted (nat (px_misses ?p)) missWindow (counter d ?p ip ?s) ts \<le> 2 * nat (px_misses ?p)"
    by (rule admitted_span [where ?t0.0 = t0]) (use ts(1) in auto)
  with ts(2) show ?thesis unfolding answers_view [OF sv cache] tile_runs_view [OF sv cache] start by simp
qed

definition once_proxy :: "redis proxy" where
  "once_proxy = sample_proxy\<lparr>px_misses := 1\<rparr>"

definition sample_request :: tile_request where
  "sample_request = \<lparr>tr_at = 0, tr_net = (\<lambda>_. Inl ''down''), tr_gone = False, tr_ip = ''::1'', tr_etag = [], tr_z = ''1'', tr_x = ''0'', tr_y = ''1.png''\<rparr>"

lemma once:
  "px_cache once_proxy = Some (RedisCache documented)" "px_misses once_proxy = 1" "tile_coordinates ''1'' ''0'' ''1.png'' = Some (1, 0, 1)"
  "fetch_tile p (\<lambda>_. Inl e) z x y = Inl e"
  by (simp_all add: once_proxy_def sample_proxy_def sample_parts fetch_tile_def)

lemma once_first: "serve documented_service sample_digests once_proxy sample_request empty_redis =
    (\<lparr>ta_code = 502, ta_head = [(''Cache-Control'', ''no-store'')], ta_body = ''tile unavailable''\<rparr>, hit_redis sample_digests once_proxy ''::1'' empty_redis)"
proof -
  have e: "empty_redis\<lparr>rd_now := 0\<rparr> = empty_redis" "rd_script empty_redis = []" "rd_now empty_redis = 0" "rd_lookup k empty_redis = None"
    "counter d p ip empty_redis = None" "counted d p ip 0 empty_redis" for k d p ip
    by (simp_all add: empty_redis_def rd_lookup_def counter_def counted_def)
  have a: "allow sample_digests once_proxy ''::1'' empty_redis = (Inr True, hit_redis sample_digests once_proxy ''::1'' empty_redis)"
    using allow_hit [OF once(1) _ _ e(6), of "''::1''" sample_digests] by (simp add: once e)
  have "rd_script (hit_redis sample_digests once_proxy ''::1'' empty_redis) = []" using hit_redis(1) [OF e(6)] by simp
  from tile_miss [OF once(1) e(2,4) a this] show ?thesis by (simp add: serve_def sample_request_def e ServeHTTP_def once)
qed

lemma once_second: "ta_code (fst (serve documented_service sample_digests once_proxy sample_request (hit_redis sample_digests once_proxy ''::1'' empty_redis))) = 429"
proof -
  let ?s = "hit_redis sample_digests once_proxy ''::1'' empty_redis"
  have e: "counted sample_digests once_proxy ''::1'' 0 empty_redis" "rd_now empty_redis = 0" "counter sample_digests once_proxy ''::1'' empty_redis = None"
    "rd_data empty_redis = Map.empty"
    by (simp_all add: empty_redis_def counter_def counted_def)
  note h = hit_redis [OF e(1), simplified, unfolded e]
  have s: "?s\<lparr>rd_now := 0\<rparr> = ?s" by (cases ?s) (use h(2) in simp)
  have l: "rd_lookup (tile_key sample_digests once_proxy 1 0 1) ?s = None"
    using h(5) limit_key_other [of sample_digests once_proxy "''::1''" 1 0 1] by (simp add: rd_lookup_def)
  have a: "allow sample_digests once_proxy ''::1'' ?s = (Inr False, hit_redis sample_digests once_proxy ''::1'' ?s)"
    using allow_hit [OF once(1) _ _ h(3)] h(2,4) by (simp add: once missWindow_def)
  from tile_miss [OF once(1) h(1) l a] hit_redis(1) [OF h(3)] show ?thesis
    by (simp add: serve_def sample_request_def s ServeHTTP_def once)
qed

theorem miss_budget_witness:
  "map (ta_code \<circ> snd) (answers documented_service sample_digests once_proxy [sample_request, sample_request] (tile_runs documented_service sample_digests once_proxy [] empty_redis)) = [502, 429] \<and>
    length (filter (\<lambda>(a_ip, a). a_ip = ''::1'' \<and> upstream_asked a)
      (answers documented_service sample_digests once_proxy [sample_request, sample_request] (tile_runs documented_service sample_digests once_proxy [] empty_redis))) \<le> 2"
proof
  show "map (ta_code \<circ> snd) (answers documented_service sample_digests once_proxy [sample_request, sample_request] (tile_runs documented_service sample_digests once_proxy [] empty_redis)) = [502, 429]"
    by (simp add: tile_runs_def once_first once_second)
  have q: "tr_at sample_request = 0" by (simp add: sample_request_def)
  have "length (filter (\<lambda>(a_ip, a). a_ip = ''::1'' \<and> upstream_asked a)
      (answers documented_service sample_digests once_proxy [sample_request, sample_request] (tile_runs documented_service sample_digests once_proxy [] empty_redis))) \<le> 2 * nat (px_misses once_proxy)"
    by (rule miss_budget [where ?t0.0 = 0, OF behaves_documented]) (auto simp: q once missWindow_def)
  then show "length (filter (\<lambda>(a_ip, a). a_ip = ''::1'' \<and> upstream_asked a)
      (answers documented_service sample_digests once_proxy [sample_request, sample_request] (tile_runs documented_service sample_digests once_proxy [] empty_redis))) \<le> 2" by (simp add: once)
qed

section \<open>A counter that never expires\<close>

text \<open>Incr starts the minute of a counter with a command of its own. When that one fails, the counter stays for ever, and
  once the budget is used up the address is refused at any time.\<close>

theorem limit_forever:
  "ta_code (fst (serve documented_service sample_digests once_proxy (sample_request\<lparr>tr_at := now\<rparr>)
     (tile_runs documented_service sample_digests once_proxy [Failing [None, None, Some ''timeout''], Asked 0 (\<lambda>_. Inl ''down'') False ''::1'' [] ''1'' ''0'' ''1.png''] empty_redis))) = 429"
proof -
  let ?k = "limit_key sample_digests once_proxy ''::1''"
  define s where "s = empty_redis\<lparr>rd_data := [?k \<mapsto> (int_text 1, None)]\<rparr>"
  have run: "tile_runs documented_service sample_digests once_proxy [Failing [None, None, Some ''timeout''], Asked 0 (\<lambda>_. Inl ''down'') False ''::1'' [] ''1'' ''0'' ''1.png''] empty_redis = s"
    by (simp add: tile_runs_def ServeHTTP_def once tile_def andthen_def cached_tile_def allow_def attempt_def RedisCache_def documented_def redis_GET_def RedisCache_Incr_def documented_def
      redis_INCR_def redis_EXPIRE_def command_def empty_redis_def rd_lookup_def s_def)
  have t: "rd_script (s\<lparr>rd_now := now\<rparr>) = []" "rd_lookup (tile_key sample_digests once_proxy 1 0 1) (s\<lparr>rd_now := now\<rparr>) = None"
    using limit_key_other [of sample_digests once_proxy "''::1''" 1 0 1] by (auto simp: s_def empty_redis_def rd_lookup_def)
  have "ParseInt (int_text 1) = Some 1" by (rule ParseInt_int_text) simp_all
  then have a: "allow sample_digests once_proxy ''::1'' (s\<lparr>rd_now := now\<rparr>) = (Inr False, (s\<lparr>rd_now := now\<rparr>)\<lparr>rd_data := [?k \<mapsto> (int_text 2, None)]\<rparr>)"
    by (simp add: allow_def once attempt_def RedisCache_def documented_def RedisCache_Incr_def documented_def andthen_def redis_INCR_def command_def s_def empty_redis_def rd_lookup_def)
  from tile_miss [OF once(1) t a] show ?thesis unfolding run by (simp add: serve_def sample_request_def ServeHTTP_def once s_def empty_redis_def)
qed

end
