(* ===== verification/S3.thy ===== *)
theory S3
  imports Plot
begin

text \<open>
  The client of the object storage: src/internal/s3/s3.go and sigv4.go. SHA-256, HMAC, the parsing of a URL, the clock and
  the network are arguments; a header has one value per name, as the client sets it.
\<close>

section \<open>Encoding\<close>

definition unreserved :: "char \<Rightarrow> bool" where
  "unreserved c = (let n = of_char c :: nat in 65 \<le> n \<and> n \<le> 90 \<or> 97 \<le> n \<and> n \<le> 122 \<or> 48 \<le> n \<and> n \<le> 57 \<or>
     c = CHR ''-'' \<or> c = CHR ''_'' \<or> c = CHR ''.'' \<or> c = CHR ''~'')"

definition encode_byte :: "char \<Rightarrow> string" where
  "encode_byte c = (let n = of_char c :: nat in
     if unreserved c then [c] else [CHR ''%'', ''0123456789ABCDEF'' ! (n div 16), ''0123456789ABCDEF'' ! (n mod 16)])"

definition encodeSegment :: "string \<Rightarrow> string" where
  "encodeSegment s = concat (map encode_byte s)"

fun join_texts :: "string \<Rightarrow> string list \<Rightarrow> string" where
  "join_texts sep [] = []"
| "join_texts sep [s] = s"
| "join_texts sep (s # t # ss) = s @ sep @ join_texts sep (t # ss)"

definition encodePath :: "string \<Rightarrow> string" where
  "encodePath key = join_texts ''/'' (map encodeSegment (split_on CHR ''/'' key))"

section \<open>Signatures\<close>

record crypto =
  cr_sha256 :: "string \<Rightarrow> string"
  cr_hmac :: "string \<Rightarrow> string \<Rightarrow> string"

text \<open>A time of the calendar, in UTC.\<close>

record utc =
  ut_year :: nat
  ut_month :: nat
  ut_day :: nat
  ut_hour :: nat
  ut_minute :: nat
  ut_second :: nat

definition padded :: "nat \<Rightarrow> nat \<Rightarrow> string" where
  "padded w n = replicate (w - length (nat_text n)) CHR ''0'' @ nat_text n"

definition short_date :: "utc \<Rightarrow> string" where
  "short_date t = padded 4 (ut_year t) @ padded 2 (ut_month t) @ padded 2 (ut_day t)"

definition amz_date :: "utc \<Rightarrow> string" where
  "amz_date t = short_date t @ ''T'' @ padded 2 (ut_hour t) @ padded 2 (ut_minute t) @ padded 2 (ut_second t) @ ''Z''"

record s3_request =
  rq_method :: string
  rq_host :: string
  rq_path :: string
  rq_query :: "(string \<times> string list) list"
  rq_header :: "(string \<times> string) list"
  rq_to :: string

definition set_header :: "string \<Rightarrow> string \<Rightarrow> (string \<times> string) list \<Rightarrow> (string \<times> string) list" where
  "set_header k v hs = (k, v) # filter (\<lambda>h. fst h \<noteq> k) hs"

definition header_get :: "string \<Rightarrow> (string \<times> string) list \<Rightarrow> string" where
  "header_get n hs = (case find (\<lambda>h. lower (fst h) = n) hs of None \<Rightarrow> [] | Some h \<Rightarrow> snd h)"

definition emptyPayloadHash :: string where
  "emptyPayloadHash = ''e3b0c44298fc1c149afbf4c8996fb92427ae41e4649b934ca495991b7852b855''"

definition hexSHA256 :: "crypto \<Rightarrow> string \<Rightarrow> string" where
  "hexSHA256 c b = hex_text (cr_sha256 c b)"

definition hmacSHA256 :: "crypto \<Rightarrow> string \<Rightarrow> string \<Rightarrow> string" where
  "hmacSHA256 c key data = cr_hmac c key data"

definition canonicalQuery :: "s3_request \<Rightarrow> string" where
  "canonicalQuery rq = join_texts ''&'' (concat (map (\<lambda>k. map (\<lambda>v. encodeSegment k @ ''='' @ encodeSegment v)
     (case map_of (rq_query rq) k of None \<Rightarrow> [] | Some vs \<Rightarrow> vs)) (sort (map fst (rq_query rq)))))"

definition newline :: string where "newline = [CHR 10]"

definition header_names :: "(string \<times> string) list \<Rightarrow> string list" where
  "header_names hs = sort (map (\<lambda>h. lower (fst h)) hs)"

definition canon_headers :: "(string \<times> string) list \<Rightarrow> string" where
  "canon_headers hs = concat (map (\<lambda>n. n @ '':'' @ trim_space (header_get n hs) @ newline) (header_names hs))"

definition canonical_request :: "s3_request \<Rightarrow> string" where
  "canonical_request rq = join_texts newline [rq_method rq, rq_path rq, canonicalQuery rq, canon_headers (rq_header rq),
     join_texts '';'' (header_names (rq_header rq)), emptyPayloadHash]"

definition scope_of :: "string \<Rightarrow> utc \<Rightarrow> string" where
  "scope_of region t = short_date t @ ''/'' @ region @ ''/s3/aws4_request''"

definition string_to_sign :: "crypto \<Rightarrow> string \<Rightarrow> utc \<Rightarrow> s3_request \<Rightarrow> string" where
  "string_to_sign c region t rq = join_texts newline [''AWS4-HMAC-SHA256'', amz_date t, scope_of region t, hexSHA256 c (canonical_request rq)]"

definition signing_key :: "crypto \<Rightarrow> string \<Rightarrow> string \<Rightarrow> utc \<Rightarrow> string" where
  "signing_key c secret region t = (let kDate = hmacSHA256 c (''AWS4'' @ secret) (short_date t);
     kRegion = hmacSHA256 c kDate region; kService = hmacSHA256 c kRegion ''s3'' in hmacSHA256 c kService ''aws4_request'')"

definition dated :: "utc \<Rightarrow> s3_request \<Rightarrow> s3_request" where
  "dated t rq = rq\<lparr>rq_header := set_header ''X-Amz-Content-Sha256'' emptyPayloadHash
     (set_header ''X-Amz-Date'' (amz_date t) (set_header ''Host'' (rq_host rq) (rq_header rq)))\<rparr>"

definition sign :: "crypto \<Rightarrow> string \<Rightarrow> string \<Rightarrow> string \<Rightarrow> utc \<Rightarrow> s3_request \<Rightarrow> s3_request" where
  "sign c accessKey secretKey region t rq0 = (let rq = dated t rq0;
     signature = hex_text (hmacSHA256 c (signing_key c secretKey region t) (string_to_sign c region t rq));
     auth = ''AWS4-HMAC-SHA256 Credential='' @ accessKey @ ''/'' @ scope_of region t @ '', SignedHeaders='' @
       join_texts '';'' (header_names (rq_header rq)) @ '', Signature='' @ signature in
     rq\<lparr>rq_to := rq_host rq, rq_header := filter (\<lambda>h. fst h \<noteq> ''Host'') (set_header ''Authorization'' auth (rq_header rq))\<rparr>)"

section \<open>Objects\<close>

record s3_client =
  cl_endpoint :: string
  cl_bucket :: string
  cl_region :: string
  cl_access :: string
  cl_secret :: string

datatype object_error = BadRequest string | Transport string | NotFound string | Refused string int string

definition object_url :: "s3_client \<Rightarrow> string \<Rightarrow> string" where
  "object_url cl key = (let e = cl_endpoint cl in
     (if e \<noteq> [] \<and> last e = CHR ''/'' then butlast e else e) @ ''/'' @ cl_bucket cl @ ''/'' @ encodePath key)"

text \<open>Get: the request as the URL parses, signed when there are credentials, and the body of the answer.\<close>

definition s3_Get :: "crypto \<Rightarrow> (string \<Rightarrow> string + s3_request) \<Rightarrow> utc \<Rightarrow> (s3_request \<Rightarrow> string + int \<times> string) \<Rightarrow> s3_client \<Rightarrow> string \<Rightarrow> object_error + string" where
  "s3_Get c new_request t net cl key = (case new_request (object_url cl key) of
     Inl e \<Rightarrow> Inl (BadRequest e)
   | Inr rq0 \<Rightarrow> (let rq = (if cl_access cl \<noteq> [] then sign c (cl_access cl) (cl_secret cl) (cl_region cl) t rq0 else rq0) in
       case net rq of
         Inl e \<Rightarrow> Inl (Transport e)
       | Inr (code, body) \<Rightarrow> if code = 200 then Inr body
           else if code = 404 then Inl (NotFound key)
           else Inl (Refused key code (trim_space (take 512 body)))))"

section \<open>Objects keep their names\<close>

text \<open>How a server reads a path: RFC 3986, each percent sign with two hexadecimal digits.\<close>

fun percent_decode :: "string \<Rightarrow> string option" where
  "percent_decode [] = Some []"
| "percent_decode (c # cs) = (if c \<noteq> CHR ''%'' then map_option ((#) c) (percent_decode cs)
     else case cs of
       a # b # rest \<Rightarrow> (case (hex_digit a, hex_digit b) of
         (Some x, Some y) \<Rightarrow> map_option ((#) (char_of (16 * x + y))) (percent_decode rest) | _ \<Rightarrow> None)
     | _ \<Rightarrow> None)"

end
