(* ===== verification/S3_Claims.thy ===== *)
theory S3_Claims
  imports S3
begin

text \<open>
  Properties of the object storage client: the name of an object survives the encoding of its path, and a signature binds
  every part of the request it was made for.
\<close>

section \<open>Names of objects\<close>

lemma hex_upper: "n < 16 \<Longrightarrow> hex_digit (''0123456789ABCDEF'' ! n) = Some n"
proof -
  have "list_all (\<lambda>n. hex_digit (''0123456789ABCDEF'' ! n) = Some n) [0..<16]" by (simp add: upt_conv_Cons hex_digit_def Let_def)
  then show "n < 16 \<Longrightarrow> hex_digit (''0123456789ABCDEF'' ! n) = Some n" by (simp add: list_all_iff)
qed

lemma byte_less: "(of_char c :: nat) < 256"
  using of_char_mod_256 [of c, where 'a = nat] by (metis mod_less_divisor zero_less_numeral)

lemma percent_reserved: "\<not> unreserved CHR ''%''" "unreserved c \<Longrightarrow> c \<noteq> CHR ''%''"
  by (auto simp: unreserved_def)

lemma decode_byte: "percent_decode (encode_byte c @ s) = map_option ((#) c) (percent_decode s)"
proof (cases "unreserved c")
  case True
  then show ?thesis using percent_reserved(2) [OF True] by (simp add: encode_byte_def Let_def)
next
  case False
  let ?n = "of_char c :: nat"
  have "?n div 16 < 16" "?n mod 16 < 16" by (rule less_mult_imp_div_less) (use byte_less [of c] in simp_all)
  moreover have "char_of (16 * (?n div 16) + ?n mod 16) = c" by simp
  ultimately show ?thesis using False by (simp add: encode_byte_def Let_def hex_upper)
qed

lemma decode_segment: "percent_decode (encodeSegment s @ t) = map_option ((@) s) (percent_decode t)"
  by (induction s) (simp_all add: encodeSegment_def decode_byte option.map_comp comp_def option.map_ident)

lemma decode_path: "percent_decode (join_texts ''/'' (map encodeSegment ss)) = Some (join_texts ''/'' ss)"
proof (induction "''/''" ss rule: join_texts.induct)
  case (2 s)
  show ?case using decode_segment [of s "[]"] by simp
next
  case (3 s t ss)
  then show ?case by (simp add: decode_segment)
qed simp

lemma join_split_acc: "join_texts [c] (split_acc c w s) = rev w @ s"
proof (induction c w s rule: split_acc.induct)
  case (2 sep w c cs)
  have ne: "split_acc sep v u \<noteq> []" for v u by (induction sep v u rule: split_acc.induct) simp_all
  then obtain y ys where y: "split_acc sep [] cs = y # ys" by (cases "split_acc sep [] cs") auto
  show ?case using 2 y by (auto split: if_splits)
qed simp

lemma encode_safe: "c \<in> set (encodeSegment s) \<Longrightarrow> unreserved c \<or> c = CHR ''%''"
proof -
  have "list_all (\<lambda>n. unreserved (''0123456789ABCDEF'' ! n)) [0..<16]" by code_simp
  then have h: "n < 16 \<Longrightarrow> unreserved (''0123456789ABCDEF'' ! n)" for n by (simp add: list_all_iff)
  have "d \<in> set (encode_byte e) \<Longrightarrow> unreserved d \<or> d = CHR ''%''" for d e
    using h [of "of_char e div 16"] h [of "of_char e mod 16"] less_mult_imp_div_less [of "of_char e" 16 16] byte_less [of e]
    by (auto simp: encode_byte_def Let_def split: if_splits)
  then show "c \<in> set (encodeSegment s) \<Longrightarrow> unreserved c \<or> c = CHR ''%''" by (auto simp: encodeSegment_def)
qed

lemma set_join: "set (join_texts sep ss) \<subseteq> set sep \<union> \<Union> (set ` set ss)"
  by (induction sep ss rule: join_texts.induct) auto

text \<open>C40: The path of a request names its object exactly: it has only unreserved characters, slashes and percent signs, and
  decoding it by RFC 3986 gives the key back, slashes, spaces and bytes beyond ASCII included.\<close>

theorem object_name_kept:
  "percent_decode (encodePath key) = Some key \<and> list_all (\<lambda>c. unreserved c \<or> c = CHR ''%'' \<or> c = CHR ''/'') (encodePath key)"
proof
  have "join_texts ''/'' (split_on CHR ''/'' key) = key" using join_split_acc [of "CHR ''/''" "[]" key] by (simp add: split_on_def)
  then show "percent_decode (encodePath key) = Some key" by (simp add: encodePath_def decode_path)
  have "set (encodePath key) \<subseteq> {CHR ''/''} \<union> \<Union> (set ` set (map encodeSegment (split_on CHR ''/'' key)))"
    using set_join [of "''/''" "map encodeSegment (split_on CHR ''/'' key)"] by (simp add: encodePath_def)
  then show "list_all (\<lambda>c. unreserved c \<or> c = CHR ''%'' \<or> c = CHR ''/'') (encodePath key)"
    unfolding list_all_iff using encode_safe by fastforce
qed

section \<open>Signatures\<close>

lemma byte_hex_inj: "byte_hex v = byte_hex w \<Longrightarrow> v = w"
proof -
  assume "byte_hex v = byte_hex w"
  then have e: "hex_char (unat v div 16) = hex_char (unat w div 16)" "hex_char (unat v mod 16) = hex_char (unat w mod 16)"
    unfolding byte_hex_def by (simp_all only: list.inject)
  have "Some v = Some w" unfolding hex_byte_hex [of v, symmetric] e by (rule hex_byte_hex)
  then show "v = w" by (simp only: option.inject)
qed

lemma hex_text_inj: "hex_text a = hex_text b \<Longrightarrow> a = b"
proof (induction a arbitrary: b)
  case Nil
  then show ?case by (cases b) (auto simp: hex_text_def byte_hex_def)
next
  case (Cons x a)
  obtain y b' where b: "b = y # b'" using Cons.prems by (cases b) (auto simp: hex_text_def byte_hex_def)
  have "byte_hex (of_nat (of_char x)) = byte_hex (of_nat (of_char y))" "hex_text a = hex_text b'"
    using Cons.prems b by (simp_all add: hex_text_def byte_hex_def)
  then have "(of_nat (of_char x) :: 8 word) = of_nat (of_char y)" "a = b'" using byte_hex_inj Cons.IH by blast+
  moreover from this(1) have "(of_char x :: nat) = of_char y"
    using byte_less [of x] byte_less [of y] by (simp add: word_of_nat_eq_iff take_bit_eq_mod)
  ultimately show ?case using b by simp
qed

lemma char_10_less: "\<not> 48 \<le> (of_char CHR 10 :: nat)"
  by simp

lemma digit_range: "d < 10 \<Longrightarrow> 48 \<le> (of_char (digit d) :: nat) \<and> (of_char (digit d) :: nat) \<le> 57"
  by (simp add: digit_def)

lemma amz_date_plain: "CHR 10 \<notin> set (amz_date t)"
proof -
  have "CHR 10 \<noteq> digit d" if "d < 10" for d using digit_range [OF that] by (metis char_10_less)
  then have "CHR 10 \<notin> set (padded w n)" for w n using nat_text_digits [of n] by (auto simp: padded_def)
  then show ?thesis by (simp add: amz_date_def short_date_def)
qed

text \<open>A request as net/http sends it: no line break in its parts, and names of headers without separators.\<close>

definition plain :: "string \<Rightarrow> bool" where
  "plain s \<longleftrightarrow> CHR 10 \<notin> set s"

definition request_ok :: "s3_request \<Rightarrow> bool" where
  "request_ok rq \<longleftrightarrow> plain (rq_method rq) \<and> plain (rq_path rq) \<and> plain (rq_host rq) \<and>
     list_all (\<lambda>(n, v). plain n \<and> CHR '':'' \<notin> set n \<and> CHR '','' \<notin> set n \<and> plain v) (rq_header rq)"

lemma join_plain: "c \<notin> set sep \<Longrightarrow> list_all (\<lambda>s. c \<notin> set s) ss \<Longrightarrow> c \<notin> set (join_texts sep ss)"
  by (induction sep ss rule: join_texts.induct) auto

lemma segment_plain: "CHR 10 \<notin> set (encodeSegment k)"
proof
  assume "CHR 10 \<in> set (encodeSegment k)"
  from encode_safe [OF this] show False by (simp add: unreserved_def)
qed

lemma canonicalQuery_plain: "plain (canonicalQuery rq)"
  unfolding plain_def canonicalQuery_def by (rule join_plain) (auto simp: list_all_iff segment_plain)

lemma to_lower_other: "to_lower c = d \<Longrightarrow> \<not> (97 \<le> (of_char d :: nat) \<and> (of_char d :: nat) \<le> 122) \<Longrightarrow> c = d"
  by (auto simp: to_lower_def Let_def split: if_splits)

lemma lower_other: "d \<notin> set n \<Longrightarrow> \<not> (97 \<le> (of_char d :: nat) \<and> (of_char d :: nat) \<le> 122) \<Longrightarrow> d \<notin> set (lower n)"
  unfolding lower_def set_map image_iff by (metis to_lower_other)

lemma lines_inj:
  assumes "\<And>n v. (n, v) \<in> set xs \<union> set ys \<Longrightarrow> CHR '':'' \<notin> set n \<and> CHR 10 \<notin> set v"
    and "concat (map (\<lambda>(n, v). n @ '':'' @ v @ newline) xs) = concat (map (\<lambda>(n, v). n @ '':'' @ v @ newline) ys)"
  shows "xs = ys"
  using assms
proof (induction xs arbitrary: ys)
  case Nil
  then show ?case by (cases ys) auto
next
  case (Cons x xs)
  obtain n v where x: "x = (n, v)" by (cases x)
  obtain m w ys' where y: "ys = (m, w) # ys'" using Cons.prems(2) x by (cases ys) auto
  have ok: "CHR '':'' \<notin> set n" "CHR 10 \<notin> set v" "CHR '':'' \<notin> set m" "CHR 10 \<notin> set w" using Cons.prems(1) x y by auto
  let ?X = "concat (map (\<lambda>(n, v). n @ '':'' @ v @ newline) xs)" and ?Y = "concat (map (\<lambda>(n, v). n @ '':'' @ v @ newline) ys')"
  have eq: "n @ CHR '':'' # (v @ CHR 10 # ?X) = m @ CHR '':'' # (w @ CHR 10 # ?Y)"
    using Cons.prems(2) x y by (simp add: newline_def)
  have nv: "n = m" "v @ CHR 10 # ?X = w @ CHR 10 # ?Y" using append_sep_injD [OF ok(1,3) eq] by simp_all
  have "v = w" "?X = ?Y" using append_sep_injD [OF ok(2,4) nv(2)] by simp_all
  moreover have "xs = ys'" by (rule Cons.IH) (use Cons.prems(1) y \<open>?X = ?Y\<close> in auto)
  ultimately show ?case using x y nv(1) by simp
qed

lemma lower_auth: "lower ''Authorization'' = ''authorization''" "lower ''Host'' = ''host''"
  "lower ''X-Amz-Date'' = ''x-amz-date''" "lower ''X-Amz-Content-Sha256'' = ''x-amz-content-sha256''"
  by code_simp+

lemma dated_parts:
  "rq_method (dated t rq) = rq_method rq" "rq_path (dated t rq) = rq_path rq" "canonicalQuery (dated t rq) = canonicalQuery rq"
proof -
  have "rq_query (dated t rq) = rq_query rq" by (simp add: dated_def)
  then show "canonicalQuery (dated t rq) = canonicalQuery rq" by (simp only: canonicalQuery_def)
qed (simp_all add: dated_def)

lemma dated_ok: "request_ok rq \<Longrightarrow> request_ok (dated t rq)"
proof -
  assume "request_ok rq"
  moreover have "plain emptyPayloadHash" "plain ''Host'' \<and> plain ''X-Amz-Date'' \<and> plain ''X-Amz-Content-Sha256''" by code_simp+
  ultimately show "request_ok (dated t rq)"
    using amz_date_plain [of t] by (auto simp: request_ok_def dated_def set_header_def plain_def list_all_iff)
qed

text \<open>The lines of the signed headers: names in order with their trimmed values.\<close>

definition signed_lines :: "(string \<times> string) list \<Rightarrow> (string \<times> string) list" where
  "signed_lines hs = map (\<lambda>n. (n, trim_space (header_get n hs))) (header_names hs)"

lemma canon_headers_lines: "canon_headers hs = concat (map (\<lambda>(n, v). n @ '':'' @ v @ newline) (signed_lines hs))"
  by (simp add: canon_headers_def signed_lines_def comp_def)

lemma set_trim_space: "set (trim_space s) \<subseteq> set s"
  by (auto simp: trim_space_def dest!: set_dropWhileD)

lemma header_get_in: "header_get n hs = [] \<or> header_get n hs \<in> snd ` set hs"
  by (cases "find (\<lambda>h. lower (fst h) = n) hs") (auto simp: header_get_def dest!: find_SomeD)

lemma names_ok:
  assumes "request_ok rq" and "n \<in> set (header_names (rq_header rq))"
  shows "CHR 10 \<notin> set n" "CHR '':'' \<notin> set n" "CHR '','' \<notin> set n"
proof -
  obtain k v where k: "(k, v) \<in> set (rq_header rq)" "n = lower k" using assms(2) by (auto simp: header_names_def)
  then have "CHR 10 \<notin> set k" "CHR '':'' \<notin> set k" "CHR '','' \<notin> set k" using assms(1) by (auto simp: request_ok_def list_all_iff plain_def)
  then show "CHR 10 \<notin> set n" "CHR '':'' \<notin> set n" "CHR '','' \<notin> set n" unfolding k(2) by (simp_all add: lower_other)
qed

lemma signed_lines_ok:
  assumes "request_ok rq" and "(n, v) \<in> set (signed_lines (rq_header rq))"
  shows "CHR '':'' \<notin> set n \<and> CHR 10 \<notin> set v"
proof
  have "n \<in> set (header_names (rq_header rq))" using assms(2) by (auto simp: signed_lines_def)
  then show "CHR '':'' \<notin> set n" by (rule names_ok [OF assms(1)])
  have "v = trim_space (header_get n (rq_header rq))" using assms(2) by (auto simp: signed_lines_def)
  moreover have "CHR 10 \<notin> set (header_get n (rq_header rq))"
    using header_get_in [of n "rq_header rq"] assms(1) by (auto simp: request_ok_def list_all_iff plain_def)
  ultimately show "CHR 10 \<notin> set v" using set_trim_space by blast
qed

definition signature_of :: "crypto \<Rightarrow> string \<Rightarrow> string \<Rightarrow> utc \<Rightarrow> s3_request \<Rightarrow> string" where
  "signature_of c secretKey region t rq = hex_text (hmacSHA256 c (signing_key c secretKey region t) (string_to_sign c region t (dated t rq)))"

lemma sign_authorization: "header_get ''authorization'' (rq_header (sign c a k region t rq)) =
  ''AWS4-HMAC-SHA256 Credential='' @ a @ ''/'' @ scope_of region t @ '', SignedHeaders='' @
       join_texts '';'' (header_names (rq_header (dated t rq))) @ '', Signature='' @ signature_of c k region t rq"
  by (simp add: sign_def Let_def set_header_def header_get_def lower_auth signature_of_def)

lemma canonical_inj:
  assumes ok: "request_ok rq" "request_ok rq'" and names: "join_texts '';'' (header_names (rq_header rq)) = join_texts '';'' (header_names (rq_header rq'))"
    and eq: "canonical_request rq = canonical_request rq'"
  shows "rq_method rq = rq_method rq' \<and> rq_path rq = rq_path rq' \<and> canonicalQuery rq = canonicalQuery rq' \<and>
    signed_lines (rq_header rq) = signed_lines (rq_header rq')"
proof -
  let ?rest = "\<lambda>r. canon_headers (rq_header r) @ CHR 10 # (join_texts '';'' (header_names (rq_header r)) @ CHR 10 # emptyPayloadHash)"
  have e: "rq_method rq @ CHR 10 # (rq_path rq @ CHR 10 # (canonicalQuery rq @ CHR 10 # ?rest rq)) =
      rq_method rq' @ CHR 10 # (rq_path rq' @ CHR 10 # (canonicalQuery rq' @ CHR 10 # ?rest rq'))"
    using eq by (simp add: canonical_request_def newline_def)
  have m: "CHR 10 \<notin> set (rq_method r)" "CHR 10 \<notin> set (rq_path r)" if "request_ok r" for r using that by (simp_all add: request_ok_def plain_def)
  have q: "CHR 10 \<notin> set (canonicalQuery r)" for r using canonicalQuery_plain [of r] by (simp add: plain_def)
  note e1 = append_sep_injD [OF m(1) [OF ok(1)] m(1) [OF ok(2)] e]
  note e2 = append_sep_injD [OF m(2) [OF ok(1)] m(2) [OF ok(2)] e1 [THEN conjunct2]]
  note e3 = append_sep_injD [OF q q e2 [THEN conjunct2]]
  have "canon_headers (rq_header rq) = canon_headers (rq_header rq')" using e3 names by simp
  then have "signed_lines (rq_header rq) = signed_lines (rq_header rq')"
    unfolding canon_headers_lines by (intro lines_inj) (use signed_lines_ok ok in blast)
  then show ?thesis using e1 e2 e3 by simp
qed

text \<open>C19: Two requests with the same Authorization header, signed with the same keys at the same time, have the same method,
  the same path, the same query and the same signed headers, so a signature cannot be moved to another object. SHA-256 and
  HMAC are taken to be free of collisions.\<close>

theorem signature_binds:
  assumes "inj (cr_sha256 c)" and "\<And>k. inj (cr_hmac c k)" and ok: "request_ok rq" "request_ok rq'"
    and eq: "header_get ''authorization'' (rq_header (sign c a k region t rq)) = header_get ''authorization'' (rq_header (sign c a k region t rq'))"
  shows "rq_method rq = rq_method rq' \<and> rq_path rq = rq_path rq' \<and> canonicalQuery rq = canonicalQuery rq' \<and>
    signed_lines (rq_header (dated t rq)) = signed_lines (rq_header (dated t rq'))"
proof -
  let ?n = "\<lambda>r. join_texts '';'' (header_names (rq_header (dated t r)))"
  have cut: "CHR '','' \<notin> set (?n r)" if "request_ok r" for r
    by (rule join_plain) (use names_ok(3) [OF dated_ok [OF that]] in \<open>auto simp: list_all_iff\<close>)
  have e: "?n rq @ CHR '','' # ('' Signature='' @ signature_of c k region t rq) = ?n rq' @ CHR '','' # ('' Signature='' @ signature_of c k region t rq')"
    using eq unfolding sign_authorization by simp
  note both = append_sep_injD [OF cut [OF ok(1)] cut [OF ok(2)] e]
  have s: "?n rq = ?n rq'" "signature_of c k region t rq = signature_of c k region t rq'"
    using both by simp_all
  have "string_to_sign c region t (dated t rq) = string_to_sign c region t (dated t rq')"
    using hex_text_inj [OF s(2) [unfolded signature_of_def]] assms(2) by (simp add: hmacSHA256_def inj_eq)
  then have "hexSHA256 c (canonical_request (dated t rq)) = hexSHA256 c (canonical_request (dated t rq'))" by (simp add: string_to_sign_def)
  then have "cr_sha256 c (canonical_request (dated t rq)) = cr_sha256 c (canonical_request (dated t rq'))" unfolding hexSHA256_def by (rule hex_text_inj)
  then have "canonical_request (dated t rq) = canonical_request (dated t rq')" by (rule injD [OF assms(1)])
  from canonical_inj [OF dated_ok [OF ok(1)] dated_ok [OF ok(2)] s(1) this] show ?thesis unfolding dated_parts .
qed

definition clear_crypto :: crypto where
  "clear_crypto = \<lparr>cr_sha256 = (\<lambda>b. b), cr_hmac = (\<lambda>k d. d)\<rparr>"

definition sample_get :: s3_request where
  "sample_get = \<lparr>rq_method = ''GET'', rq_host = ''dem'', rq_path = ''/tiles/N47E009.hgt'', rq_query = [], rq_header = [(''Range'', ''bytes=0-9'')], rq_to = []\<rparr>"

theorem signature_binds_witness:
  "let t = \<lparr>ut_year = 2013, ut_month = 5, ut_day = 24, ut_hour = 0, ut_minute = 0, ut_second = 0\<rparr>; moved = sample_get\<lparr>rq_path := ''/tiles/N48E009.hgt''\<rparr> in
   header_get ''authorization'' (rq_header (sign clear_crypto ''AK'' ''SK'' ''eu'' t sample_get)) \<noteq>
   header_get ''authorization'' (rq_header (sign clear_crypto ''AK'' ''SK'' ''eu'' t moved))"
proof -
  let ?t = "\<lparr>ut_year = 2013, ut_month = 5, ut_day = 24, ut_hour = 0, ut_minute = 0, ut_second = 0\<rparr>"
  have c: "inj (cr_sha256 clear_crypto)" "inj (cr_hmac clear_crypto k)" for k by (simp_all add: clear_crypto_def)
  have ok: "request_ok sample_get" "request_ok (sample_get\<lparr>rq_path := ''/tiles/N48E009.hgt''\<rparr>)"
    by (simp_all add: request_ok_def sample_get_def plain_def)
  have "rq_path sample_get \<noteq> rq_path (sample_get\<lparr>rq_path := ''/tiles/N48E009.hgt''\<rparr>)" by (simp add: sample_get_def)
  with signature_binds [OF c ok, of "''AK''" "''SK''" "''eu''" ?t] show ?thesis by (auto simp: Let_def)
qed

end
