(* ===== verification/Web_Admin.thy ===== *)
theory Web_Admin
  imports Web_Coverages
begin

text \<open>
  The admin pages (src/internal/web/admin.go) with their routes, and what else server.go serves: the policy of scripts, the
  files of the user interface and the readiness probe. A page is a value of the datatype admin_page; HMAC, SHA-256 and the
  collation of names are the record admin. Audit lines are left out.
\<close>

section \<open>Base64\<close>

text \<open>base64.RawURLEncoding on bytes as numbers, and its strict decoder.\<close>

fun b64_groups :: "nat list \<Rightarrow> nat list" where
  "b64_groups (a # b # c # bs) = a div 4 # ((a mod 4) * 16 + b div 16) # ((b mod 16) * 4 + c div 64) # c mod 64 # b64_groups bs"
| "b64_groups [a, b] = [a div 4, (a mod 4) * 16 + b div 16, (b mod 16) * 4]"
| "b64_groups [a] = [a div 4, (a mod 4) * 16]"
| "b64_groups [] = []"

fun b64_bytes :: "nat list \<Rightarrow> nat list option" where
  "b64_bytes (w # x # y # z # gs) = map_option (\<lambda>bs. (w * 4 + x div 16) # ((x mod 16) * 16 + y div 4) # ((y mod 4) * 64 + z) # bs) (b64_bytes gs)"
| "b64_bytes [w, x, y] = (if y mod 4 = 0 then Some [w * 4 + x div 16, (x mod 16) * 16 + y div 4] else None)"
| "b64_bytes [w, x] = (if x mod 16 = 0 then Some [w * 4 + x div 16] else None)"
| "b64_bytes [w] = None"
| "b64_bytes [] = Some []"

definition b64_alphabet :: string where
  "b64_alphabet = ''ABCDEFGHIJKLMNOPQRSTUVWXYZabcdefghijklmnopqrstuvwxyz0123456789-_''"

definition b64_value :: "char \<Rightarrow> nat option" where
  "b64_value c = (let i = length (takeWhile (\<lambda>x. x \<noteq> c) b64_alphabet) in if i < 64 then Some i else None)"

definition b64_encode :: "string \<Rightarrow> string" where
  "b64_encode s = map (\<lambda>g. b64_alphabet ! g) (b64_groups (map of_char s))"

text \<open>Line breaks are skipped, also by the strict decoder.\<close>

definition b64_decode :: "string \<Rightarrow> string option" where
  "b64_decode s = (case those (map b64_value (filter (\<lambda>c. c \<noteq> CHR 10 \<and> c \<noteq> CHR 13) s)) of
     None \<Rightarrow> None | Some gs \<Rightarrow> map_option (map char_of) (b64_bytes gs))"

section \<open>The cookie\<close>

record admin =
  am_token :: string
  am_hmac :: "string \<Rightarrow> string \<Rightarrow> string"
  am_sha256 :: "string \<Rightarrow> string"
  am_collate :: "string \<Rightarrow> string"

definition adminTTL :: time where "adminTTL = hours 8"
definition adminLabel :: string where "adminLabel = ''radiopath-admin-v1:''"
definition adminWindow :: time where "adminWindow = minutes 15"
definition adminIPMax :: nat where "adminIPMax = 10"

definition adminEnabled :: "admin \<Rightarrow> bool" where
  "adminEnabled a \<longleftrightarrow> am_token a \<noteq> []"

definition unix_secs :: "time \<Rightarrow> int" where
  "unix_secs t = t div secs 1"

definition signAdmin :: "admin \<Rightarrow> time \<Rightarrow> string" where
  "signAdmin a expiry = (let u = int_text (unix_secs expiry) in u @ ''.'' @ b64_encode (am_hmac a (am_token a) (adminLabel @ u)))"

definition cut_at :: "char \<Rightarrow> string \<Rightarrow> (string \<times> string) option" where
  "cut_at c s = (if c \<in> set s then Some (takeWhile (\<lambda>x. x \<noteq> c) s, drop 1 (dropWhile (\<lambda>x. x \<noteq> c) s)) else None)"

definition validAdmin :: "admin \<Rightarrow> string \<Rightarrow> time \<Rightarrow> bool" where
  "validAdmin a v now = (case cut_at CHR ''.'' v of
     None \<Rightarrow> False
   | Some (u, sig) \<Rightarrow> (case ParseInt u of
       None \<Rightarrow> False
     | Some expiry \<Rightarrow> if expiry \<le> unix_secs now \<or> adminTTL div secs 1 < expiry - unix_secs now then False
         else (case b64_decode sig of
           None \<Rightarrow> False
         | Some want \<Rightarrow> am_hmac a (am_token a) (adminLabel @ u) = want)))"

definition tokenMatches :: "admin \<Rightarrow> string \<Rightarrow> bool" where
  "tokenMatches a posted \<longleftrightarrow> am_sha256 a (am_token a) = am_sha256 a posted"

section \<open>Pages\<close>

record admin_data =
  ad_errors :: "string list"
  ad_notice :: string
  ad_pending :: string
  ad_new :: string

definition no_data :: admin_data where
  "no_data = \<lparr>ad_errors = [], ad_notice = [], ad_pending = [], ad_new = []\<rparr>"

datatype admin_page = LoginForm nat string | UserList nat "user_stat list" bool admin_data | Redirected "cookie option"

definition isAdmin :: "admin \<Rightarrow> string option \<Rightarrow> bool handler" where
  "isAdmin a cookie = andthen the_time (\<lambda>now. ret (case cookie of None \<Rightarrow> False | Some v \<Rightarrow> validAdmin a v now))"

definition requireAdmin :: "admin \<Rightarrow> string option \<Rightarrow> admin_page handler \<Rightarrow> admin_page handler" where
  "requireAdmin a cookie h = andthen (isAdmin a cookie) (\<lambda>ok. if ok then h else ret (LoginForm 401 ''Session expired. Enter the token again.''))"

definition adminUsers :: "admin \<Rightarrow> nat \<Rightarrow> admin_data \<Rightarrow> admin_page handler" where
  "adminUsers a st d = andthen (page_stored (ListUsersWithSessions (am_collate a))) (\<lambda>users.
     andthen (page_stored Maintenance) (\<lambda>on. ret (UserList st users on d)))"

definition adminIndex :: "admin \<Rightarrow> string option \<Rightarrow> admin_page handler" where
  "adminIndex a cookie = andthen (isAdmin a cookie) (\<lambda>ok. if ok then adminUsers a 200 no_data else ret (LoginForm 200 []))"

definition adminLogin :: "admin \<Rightarrow> server \<Rightarrow> request \<Rightarrow> string \<Rightarrow> admin_page handler" where
  "adminLogin a sv r posted = andthen (page_stored (RateHit (''admin:ip:'' @ clientIP sv r) adminWindow)) (\<lambda>n.
     if adminIPMax < n then ret (case tooMany adminWindow of Problem _ msg _ \<Rightarrow> LoginForm 429 msg)
     else if \<not> tokenMatches a posted then ret (LoginForm 401 ''Wrong token.'')
     else andthen the_time (\<lambda>now. ret (Redirected (Some \<lparr>ck_value = signAdmin a (now + adminTTL), ck_secure = secureCookie r,
       ck_max_age = adminTTL div secs 1\<rparr>))))"

definition adminLogout :: "request \<Rightarrow> admin_page handler" where
  "adminLogout r = ret (Redirected (Some \<lparr>ck_value = [], ck_secure = secureCookie r, ck_max_age = - 1\<rparr>))"

definition hashed :: "server \<Rightarrow> string \<Rightarrow> string handler" where
  "hashed sv password = with_err (\<lambda>_. Problem 500 ''internal error'' []) (hash_password sv password)"

definition adminCreateUser :: "admin \<Rightarrow> server \<Rightarrow> string \<Rightarrow> string \<Rightarrow> admin_page handler" where
  "adminCreateUser a sv raw password = (let name = lower (trim_space raw); errs = ValidateCredentials name password in
     if errs \<noteq> [] then adminUsers a 422 (no_data\<lparr>ad_errors := errs, ad_new := name\<rparr>)
     else andthen (hashed sv password) (\<lambda>h. attempt (on_store (CreateUser name h)) (\<lambda>x. case x of
         Inl e \<Rightarrow> if e = ErrExists then adminUsers a 422 (no_data\<lparr>ad_errors := [''User name is already taken''], ad_new := name\<rparr>) else raise (fail_page e)
       | Inr _ \<Rightarrow> ret (Redirected None))))"

definition adminPasswordForm :: "admin \<Rightarrow> string \<Rightarrow> admin_page handler" where
  "adminPasswordForm a name = adminUsers a 200 (no_data\<lparr>ad_pending := name\<rparr>)"

definition no_such :: "admin \<Rightarrow> string \<Rightarrow> store_error \<Rightarrow> admin_page handler" where
  "no_such a name e = (if e = ErrNotFound then adminUsers a 404 (no_data\<lparr>ad_errors := [''No such user: '' @ name]\<rparr>) else raise (fail_page e))"

definition adminSetPassword :: "admin \<Rightarrow> server \<Rightarrow> string \<Rightarrow> string \<Rightarrow> admin_page handler" where
  "adminSetPassword a sv name password = (let errs = ValidateCredentials name password in
     if errs \<noteq> [] then adminUsers a 422 (no_data\<lparr>ad_errors := errs\<rparr>)
     else andthen (hashed sv password) (\<lambda>h. attempt (on_store (SetPassword name h)) (\<lambda>x. case x of
         Inl e \<Rightarrow> no_such a name e
       | Inr _ \<Rightarrow> ret (Redirected None))))"

definition adminRevokeSessions :: "admin \<Rightarrow> string \<Rightarrow> admin_page handler" where
  "adminRevokeSessions a name = andthen (page_stored (DeleteUserSessions name)) (\<lambda>n.
     adminUsers a 200 (no_data\<lparr>ad_notice := name @ '': '' @ int_text (int n) @ '' session(s) revoked''\<rparr>))"

definition adminDeleteUser :: "admin \<Rightarrow> string \<Rightarrow> admin_page handler" where
  "adminDeleteUser a name = attempt (on_store (DeleteUser name)) (\<lambda>x. case x of
       Inl e \<Rightarrow> no_such a name e
     | Inr _ \<Rightarrow> ret (Redirected None))"

definition adminRevokeAllSessions :: "admin \<Rightarrow> admin_page handler" where
  "adminRevokeAllSessions a = andthen (page_stored DeleteAllSessions) (\<lambda>n.
     adminUsers a 200 (no_data\<lparr>ad_notice := int_text (int n) @ '' session(s) revoked, everyone is logged out''\<rparr>))"

definition adminMaintenance :: "string \<Rightarrow> admin_page handler" where
  "adminMaintenance posted = andthen (page_stored (SetMaintenance (posted = ''true''))) (\<lambda>_. ret (Redirected None))"

section \<open>Routes\<close>

text \<open>The routes registered below /admin, with the values of their form and path.\<close>

datatype admin_route = AdminIndex | AdminLogin string | AdminLogout | PasswordForm string | SwitchMaintenance string | RevokeAll
  | NewUser string string | NewPassword string string | RevokeUser string | RemoveUser string

fun admin_handle :: "admin \<Rightarrow> server \<Rightarrow> request \<Rightarrow> string option \<Rightarrow> admin_route \<Rightarrow> admin_page handler" where
  "admin_handle a sv r cookie AdminIndex = adminIndex a cookie"
| "admin_handle a sv r cookie (AdminLogin posted) = adminLogin a sv r posted"
| "admin_handle a sv r cookie AdminLogout = adminLogout r"
| "admin_handle a sv r cookie (PasswordForm name) = requireAdmin a cookie (adminPasswordForm a name)"
| "admin_handle a sv r cookie (SwitchMaintenance on) = requireAdmin a cookie (adminMaintenance on)"
| "admin_handle a sv r cookie RevokeAll = requireAdmin a cookie (adminRevokeAllSessions a)"
| "admin_handle a sv r cookie (NewUser name pw) = requireAdmin a cookie (adminCreateUser a sv name pw)"
| "admin_handle a sv r cookie (NewPassword name pw) = requireAdmin a cookie (adminSetPassword a sv name pw)"
| "admin_handle a sv r cookie (RevokeUser name) = requireAdmin a cookie (adminRevokeSessions a name)"
| "admin_handle a sv r cookie (RemoveUser name) = requireAdmin a cookie (adminDeleteUser a name)"

text \<open>Without a token there are no such routes.\<close>

definition admin_call :: "admin \<Rightarrow> server \<Rightarrow> request \<Rightarrow> string option \<Rightarrow> admin_route \<Rightarrow> admin_page handler option" where
  "admin_call a sv r cookie rt = (if adminEnabled a then Some (admin_handle a sv r cookie rt) else None)"

section \<open>Scripts, files and probes\<close>

text \<open>The regular expression of inlineScript: from each opening tag to the next closing one.\<close>

fun until_text :: "string \<Rightarrow> string \<Rightarrow> (string \<times> string) option" where
  "until_text stop [] = None"
| "until_text stop (c # cs) = (if has_prefix stop (c # cs) then Some ([], drop (length stop) (c # cs))
     else map_option (\<lambda>(x, rest). (c # x, rest)) (until_text stop cs))"

lemma until_text_shorter: "until_text stop s = Some (x, rest) \<Longrightarrow> stop \<noteq> [] \<Longrightarrow> length rest < length s"
proof (induction stop s arbitrary: x rest rule: until_text.induct)
  case (2 stop c cs)
  then show ?case by (cases stop) (force split: if_splits)+
qed simp

function inline_scripts :: "string \<Rightarrow> string list" where
  "inline_scripts page = (case until_text ''<script>'' page of None \<Rightarrow> []
     | Some (_, rest) \<Rightarrow> (case until_text ''</script>'' rest of None \<Rightarrow> [] | Some (body, after) \<Rightarrow> body # inline_scripts after))"
  by pat_completeness auto
termination
  by (relation "measure length") (auto dest!: until_text_shorter)

declare inline_scripts.simps [simp del]

text \<open>csp; \<open>digest\<close> is the SHA-256 of a text in standard Base64.\<close>

definition csp :: "(string \<Rightarrow> string) \<Rightarrow> string \<Rightarrow> string \<Rightarrow> string \<Rightarrow> string" where
  "csp digest page sources rest = ''script-src'' @ (if sources \<noteq> [] then '' '' @ sources else [])
     @ concat (map (\<lambda>b. '' '' @ [CHR 0x27] @ ''sha256-'' @ digest b @ [CHR 0x27]) (inline_scripts page)) @ ''; '' @ rest"

definition secureHeaders :: "(string \<times> string) list" where
  "secureHeaders = [(''X-Content-Type-Options'', ''nosniff''), (''X-Frame-Options'', ''DENY''), (''Referrer-Policy'', ''same-origin'')]"

text \<open>path.Base.\<close>

definition path_base :: "string \<Rightarrow> string" where
  "path_base s = (let t = rev (dropWhile (\<lambda>c. c = CHR ''/'') (rev s)) in
     if s = [] then ''.'' else if t = [] then ''/'' else rev (takeWhile (\<lambda>c. c \<noteq> CHR ''/'') (rev t)))"

text \<open>The answer of spa: 404, or the file served with its Cache-Control; \<open>exists\<close> tells which files the build has.\<close>

datatype spa_answer = SpaNotFound | SpaFile string string

definition spa :: "(string \<Rightarrow> bool) \<Rightarrow> string \<Rightarrow> string \<Rightarrow> spa_answer" where
  "spa exists method path =
     (if has_prefix ''/api/'' path \<or> (method \<noteq> ''GET'' \<and> method \<noteq> ''HEAD'') then SpaNotFound
      else let name0 = trim_prefix ''/'' path; name = (if name0 = [] then ''index.html'' else name0) in
        if \<not> exists name \<and> (has_prefix ''_app/'' name \<or> CHR ''.'' \<in> set (path_base name)) then SpaNotFound
        else SpaFile (if exists name then path else ''/'')
          (if has_prefix ''_app/immutable/'' name then ''public, max-age=31536000, immutable'' else ''no-cache''))"

text \<open>readyz over the parts with their errors, in order: the status and the first part that is not ready.\<close>

definition readyz :: "(string \<times> string option) list \<Rightarrow> nat \<times> string option" where
  "readyz parts = (case find (\<lambda>p. snd p \<noteq> None) parts of None \<Rightarrow> (200, None) | Some p \<Rightarrow> (503, Some (fst p)))"

definition ready_parts :: "string option \<Rightarrow> string option \<Rightarrow> string option option \<Rightarrow> string option option \<Rightarrow> (string \<times> string option) list" where
  "ready_parts database terrain hf_data tile_cache = [(''database'', database), (''dem'', terrain)]
     @ (case hf_data of None \<Rightarrow> [] | Some e \<Rightarrow> [(''hf data'', e)]) @ (case tile_cache of None \<Rightarrow> [] | Some e \<Rightarrow> [(''tile cache'', e)])"

end
