(* ===== verification/Web_Admin_Claims.thy ===== *)
theory Web_Admin_Claims
  imports Web_Admin Web_Access
begin

text \<open>
  Properties of the admin pages: only a cookie signed with the token lets a call change the database, revoked sessions are
  gone, maintenance closes the login.
\<close>

section \<open>Base64\<close>

lemma six_bits:
  "x < 64 \<Longrightarrow> ((w::nat) * 4 + x div 16) div 4 = w" "x < 64 \<Longrightarrow> (w * 4 + x div 16) mod 4 = x div 16"
  "y < 64 \<Longrightarrow> ((k::nat) * 16 + y div 4) div 16 = k" "y < 64 \<Longrightarrow> (k * 16 + y div 4) mod 16 = y div 4"
  "z < 64 \<Longrightarrow> ((m::nat) * 64 + z) div 64 = m" "z < 64 \<Longrightarrow> (m * 64 + z) mod 64 = z"
proof -
  have a: "x < 64 \<Longrightarrow> x div 16 < 4" "y < 64 \<Longrightarrow> y div 4 < 16" by (simp_all add: less_mult_imp_div_less)
  show "x < 64 \<Longrightarrow> (w * 4 + x div 16) div 4 = w" "x < 64 \<Longrightarrow> (w * 4 + x div 16) mod 4 = x div 16" using a(1) by simp_all
  show "y < 64 \<Longrightarrow> (k * 16 + y div 4) div 16 = k" "y < 64 \<Longrightarrow> (k * 16 + y div 4) mod 16 = y div 4" using a(2) by simp_all
qed simp_all

lemma b64_strict: "b64_bytes gs = Some bs \<Longrightarrow> list_all (\<lambda>g. g < 64) gs \<Longrightarrow> b64_groups bs = gs \<and> list_all (\<lambda>b. b < 256) bs"
proof (induction gs arbitrary: bs rule: b64_bytes.induct)
  case (1 w x y z gs)
  then obtain cs where cs: "b64_bytes gs = Some cs" "bs = (w * 4 + x div 16) # ((x mod 16) * 16 + y div 4) # ((y mod 4) * 64 + z) # cs" by auto
  have b: "w < 64" "x < 64" "y < 64" "z < 64" using 1(3) by simp_all
  have "x div 16 < 4" "y div 4 < 16" "x mod 16 < 16" "y mod 4 < 4" using b by (simp_all add: less_mult_imp_div_less)
  then have lt: "w * 4 + x div 16 < 256" "(x mod 16) * 16 + y div 4 < 256" "(y mod 4) * 64 + z < 256" using b by linarith+
  from 1(1) [OF cs(1)] 1(3) show ?case using b lt cs(2) by (simp add: six_bits)
next
  case (2 w x y)
  then have b: "w < 64" "x < 64" "y < 64" "y mod 4 = 0" and bs: "bs = [w * 4 + x div 16, (x mod 16) * 16 + y div 4]" by (auto split: if_splits)
  have "x div 16 < 4" "y div 4 < 16" "x mod 16 < 16" using b by (simp_all add: less_mult_imp_div_less)
  then have lt: "w * 4 + x div 16 < 256" "(x mod 16) * 16 + y div 4 < 256" using b by linarith+
  have "y div 4 * 4 = y" using b(4) by auto
  then show ?case using b lt bs by (simp add: six_bits)
next
  case (3 w x)
  then have b: "w < 64" "x < 64" "x mod 16 = 0" and bs: "bs = [w * 4 + x div 16]" by (auto split: if_splits)
  have "x div 16 < 4" using b by (simp add: less_mult_imp_div_less)
  then have lt: "w * 4 + x div 16 < 256" using b by linarith
  have "x div 16 * 16 = x" using b(3) by auto
  then show ?case using b lt bs by (simp add: six_bits)
qed simp_all

lemma b64_back: "list_all (\<lambda>b. b < 256) bs \<Longrightarrow> b64_bytes (b64_groups bs) = Some bs \<and> list_all (\<lambda>g. g < 64) (b64_groups bs)"
proof (induction bs rule: b64_groups.induct)
  case (1 a b c bs)
  have d: "a div 4 < 64" "b div 16 < 16" "c div 64 < 4" "a mod 4 < 4" "b mod 16 < 16" "c mod 64 < 64" using 1(2) by (simp_all add: less_mult_imp_div_less)
  then have lt: "(a mod 4) * 16 + b div 16 < 64" "(b mod 16) * 4 + c div 64 < 64" by linarith+
  have "((a mod 4) * 16 + b div 16) div 16 = a mod 4" "((a mod 4) * 16 + b div 16) mod 16 = b div 16"
    "((b mod 16) * 4 + c div 64) div 4 = b mod 16" "((b mod 16) * 4 + c div 64) mod 4 = c div 64" using d by simp_all
  then show ?case using 1 d by (simp add: lt)
next
  case (2 a b)
  have d: "a div 4 < 64" "b div 16 < 16" "a mod 4 < 4" "b mod 16 < 16" using 2 by (simp_all add: less_mult_imp_div_less)
  then have "(a mod 4) * 16 + b div 16 < 64" "(b mod 16) * 4 < 64" by linarith+
  moreover have "((a mod 4) * 16 + b div 16) div 16 = a mod 4" "((a mod 4) * 16 + b div 16) mod 16 = b div 16" using d by simp_all
  ultimately show ?case using d by simp
next
  case (3 a)
  have d: "a div 4 < 64" "a mod 4 < 4" using 3 by (simp_all add: less_mult_imp_div_less)
  then have "(a mod 4) * 16 < 64" by linarith
  then show ?case using d by simp
qed simp

lemma alphabet: "length b64_alphabet = 64" "distinct b64_alphabet"
  by (simp_all add: b64_alphabet_def)

lemma b64_value_nth: "g < 64 \<Longrightarrow> b64_value (b64_alphabet ! g) = Some g"
proof -
  assume g: "g < 64"
  have "takeWhile (\<lambda>x. x \<noteq> b64_alphabet ! g) b64_alphabet = take g b64_alphabet"
    by (rule takeWhile_eq_take_P_nth) (use g alphabet in \<open>auto simp: nth_eq_iff_index_eq\<close>)
  then have "length (takeWhile (\<lambda>x. x \<noteq> b64_alphabet ! g) b64_alphabet) = g" using g alphabet(1) by simp
  then show "b64_value (b64_alphabet ! g) = Some g" using g by (simp add: b64_value_def)
qed

lemma b64_value_Some: "b64_value c = Some g \<Longrightarrow> g < 64 \<and> b64_alphabet ! g = c"
proof -
  assume v: "b64_value c = Some g"
  then have g: "g = length (takeWhile (\<lambda>x. x \<noteq> c) b64_alphabet)" "g < 64" by (auto simp: b64_value_def Let_def split: if_splits)
  then have "length (takeWhile (\<lambda>x. x \<noteq> c) b64_alphabet) < length b64_alphabet" by (simp add: alphabet)
  from nth_length_takeWhile [OF this] show ?thesis using g by simp
qed

lemma values_alphabet: "those (map b64_value s) = Some gs \<Longrightarrow> list_all (\<lambda>g. g < 64) gs \<and> map (\<lambda>g. b64_alphabet ! g) gs = s"
proof (induction s arbitrary: gs)
  case (Cons c s)
  then show ?case by (auto split: option.splits dest: b64_value_Some)
qed simp

lemma alphabet_values: "list_all (\<lambda>g. g < 64) gs \<Longrightarrow> those (map b64_value (map (\<lambda>g. b64_alphabet ! g) gs)) = Some gs"
  by (induction gs) (simp_all add: b64_value_nth)

text \<open>Without line breaks there is one text for a value.\<close>

lemma b64_decode_Some: "list_all (\<lambda>c. c \<noteq> CHR 10 \<and> c \<noteq> CHR 13) s \<Longrightarrow> b64_decode s = Some b \<Longrightarrow> s = b64_encode b"
proof -
  assume l: "list_all (\<lambda>c. c \<noteq> CHR 10 \<and> c \<noteq> CHR 13) s" and d: "b64_decode s = Some b"
  have "filter (\<lambda>c. c \<noteq> CHR 10 \<and> c \<noteq> CHR 13) s = s" using l by (simp add: list_all_iff filter_id_conv)
  then obtain gs bs where gs: "those (map b64_value s) = Some gs" "b64_bytes gs = Some bs" "b = map char_of bs"
    using d by (auto simp: b64_decode_def split: option.splits)
  note v = values_alphabet [OF gs(1)]
  have g: "b64_groups bs = gs" "list_all (\<lambda>b. b < 256) bs" using b64_strict [OF gs(2)] v by blast+
  have "map of_char b = bs" using g(2) by (simp add: gs(3) list_all_iff comp_def map_idI)
  then show "s = b64_encode b" using g(1) v by (simp add: b64_encode_def)
qed

lemma b64_roundtrip: "b64_decode (b64_encode b) = Some b"
proof -
  have "list_all (\<lambda>x. x < 256) (map of_char b :: nat list)" by (simp add: list_all_iff)
  from b64_back [OF this] have g: "b64_bytes (b64_groups (map of_char b)) = Some (map of_char b)" "list_all (\<lambda>g. g < 64) (b64_groups (map of_char b))" by blast+
  have plain: "b64_alphabet ! g \<noteq> CHR 10 \<and> b64_alphabet ! g \<noteq> CHR 13" if "g < 64" for g
  proof -
    have "b64_alphabet ! g \<in> set b64_alphabet" using that alphabet(1) by simp
    moreover have "CHR 10 \<notin> set b64_alphabet" "CHR 13 \<notin> set b64_alphabet" by (simp_all add: b64_alphabet_def)
    ultimately show ?thesis by metis
  qed
  have "filter (\<lambda>c. c \<noteq> CHR 10 \<and> c \<noteq> CHR 13) (b64_encode b) = b64_encode b"
    using g(2) plain by (auto simp: filter_id_conv b64_encode_def list_all_iff)
  then show ?thesis using g alphabet_values [OF g(2)] by (simp add: b64_decode_def b64_encode_def comp_def)
qed

section \<open>The guard\<close>

text \<open>v is a cookie of the admin token: the text of an expiry within the next eight hours, and its code.\<close>

definition admin_cookie :: "admin \<Rightarrow> time \<Rightarrow> string \<Rightarrow> bool" where
  "admin_cookie a now v \<longleftrightarrow> (\<exists>u expiry. v = u @ ''.'' @ b64_encode (am_hmac a (am_token a) (adminLabel @ u)) \<and>
     ParseInt u = Some expiry \<and> unix_secs now < expiry \<and> expiry \<le> unix_secs now + 8 * 3600)"

lemma cut_at_Some: "cut_at c s = Some (x, y) \<Longrightarrow> s = x @ c # y"
proof -
  assume cut: "cut_at c s = Some (x, y)"
  then have "c \<in> set s" by (auto simp: cut_at_def split: if_splits)
  then obtain ys zs where s: "s = ys @ c # zs" "c \<notin> set ys" using split_list_first by metis
  then have "takeWhile (\<lambda>d. d \<noteq> c) s = ys" "dropWhile (\<lambda>d. d \<noteq> c) s = c # zs"
    by (auto simp: takeWhile_append dropWhile_append)
  then show "s = x @ c # y" using cut s(1) by (simp add: cut_at_def split: if_splits)
qed

lemma validAdmin_cookie: "validAdmin a v now \<Longrightarrow> one_line v \<Longrightarrow> admin_cookie a now v"
proof -
  assume v: "validAdmin a v now" and l: "one_line v"
  obtain u sig where c: "cut_at CHR ''.'' v = Some (u, sig)" using v by (auto simp: validAdmin_def split: option.splits)
  obtain expiry where e: "ParseInt u = Some expiry" using v c by (auto simp: validAdmin_def split: option.splits)
  have r: "unix_secs now < expiry" "expiry - unix_secs now \<le> adminTTL div secs 1" using v c e by (auto simp: validAdmin_def split: if_splits)
  have "b64_decode sig = Some (am_hmac a (am_token a) (adminLabel @ u))"
    using v c e r by (cases "b64_decode sig") (auto simp: validAdmin_def)
  note p = c e r(1) r(2) this
  note s = cut_at_Some [OF p(1)]
  have "list_all (\<lambda>c. c \<noteq> CHR 10 \<and> c \<noteq> CHR 13) sig" using l s by (auto simp: one_line_def list_all_iff)
  from b64_decode_Some [OF this p(5)] have "sig = b64_encode (am_hmac a (am_token a) (adminLabel @ u))" .
  moreover have "adminTTL div secs 1 = 8 * 3600" by (simp add: adminTTL_def)
  ultimately show ?thesis unfolding admin_cookie_def using s p(2-4) by (intro exI [of _ u] exI [of _ expiry]) simp
qed

lemma isAdmin_run: "isAdmin a cookie w = (Inr (case cookie of None \<Rightarrow> False | Some v \<Rightarrow> validAdmin a v (now_of w)), w)"
  by (simp add: isAdmin_def andthen_def the_time_def)

lemma requireAdmin_run: "requireAdmin a cookie h w = (if (case cookie of None \<Rightarrow> False | Some v \<Rightarrow> validAdmin a v (now_of w)) then h w
    else (Inr (LoginForm 401 ''Session expired. Enter the token again.''), w))"
  by (simp add: requireAdmin_def andthen_def isAdmin_run)

lemma adminLogin_tables:
  assumes "adminLogin a sv r posted w = (x, w')"
  shows "db_of w' = (db_of w)\<lparr>rate_limits := rate_limits (db_of w')\<rparr>"
proof -
  obtain q s where q: "RateHit (''admin:ip:'' @ clientIP sv r) adminWindow (web_store w) = (q, s)" by fastforce
  have "w' = w\<lparr>web_store := s\<rparr>" using assms q
    by (auto simp: adminLogin_def andthen_def page_stored_def with_err_def on_store_def the_time_def split: sum.splits if_splits)
  then show ?thesis using RateHit_other_tables [OF q] by simp
qed

text \<open>C30: A call of an admin page that changes anything in the database but the counters of the rate limits carries a cookie
  made with the admin token: the text of a time within the next eight hours followed by the one encoding of its code.\<close>

theorem admin_guard:
  assumes "admin_call a sv r cookie rt = Some h" and "h w = (x, w')" and "\<And>v. cookie = Some v \<Longrightarrow> one_line v"
    and "db_of w' \<noteq> (db_of w)\<lparr>rate_limits := rate_limits (db_of w')\<rparr>"
  shows "am_token a \<noteq> [] \<and> (\<exists>v. cookie = Some v \<and> admin_cookie a (now_of w) v)"
proof -
  have h: "h = admin_handle a sv r cookie rt" "am_token a \<noteq> []" using assms(1) by (auto simp: admin_call_def adminEnabled_def split: if_splits)
  have "case cookie of None \<Rightarrow> False | Some v \<Rightarrow> validAdmin a v (now_of w)"
  proof (rule ccontr)
    assume no: "\<not> (case cookie of None \<Rightarrow> False | Some v \<Rightarrow> validAdmin a v (now_of w))"
    show False
    proof (cases rt)
      case (AdminLogin posted)
      then show False using adminLogin_tables assms(2,4) h(1) by (metis admin_handle.simps(2))
    qed (use no assms(2,4) h(1) in \<open>simp_all add: requireAdmin_run adminIndex_def andthen_def isAdmin_run adminLogout_def\<close>)
  qed
  then show ?thesis using validAdmin_cookie assms(3) h(2) by (auto split: option.splits)
qed

section \<open>The cookie of a login\<close>

lemma cut_at_append: "c \<notin> set x \<Longrightarrow> cut_at c (x @ c # y) = Some (x, y)"
  by (simp add: cut_at_def takeWhile_append dropWhile_append)

text \<open>The cookie a login sets is valid until the second in which its eight hours end.\<close>

lemma signAdmin_valid:
  assumes "0 \<le> now" "now \<le> t" "unix_secs t < unix_secs (now + adminTTL)" "unix_secs (now + adminTTL) < 2 ^ 63"
  shows "validAdmin a (signAdmin a (now + adminTTL)) t"
proof -
  let ?e = "unix_secs (now + adminTTL)"
  have e: "?e = unix_secs now + 8 * 3600" by (simp add: unix_secs_def adminTTL_def)
  have n: "0 \<le> unix_secs now" "unix_secs now \<le> unix_secs t" using assms(1,2) by (simp_all add: unix_secs_def zdiv_mono1 pos_imp_zdiv_nonneg_iff)
  have "CHR ''.'' \<notin> set (int_text ?e)" using int_text_chars [of "CHR ''.''" ?e] by auto
  moreover have "ParseInt (int_text ?e) = Some ?e" using e n(1) assms(4) by (intro ParseInt_int_text) auto
  ultimately show ?thesis using assms(3) e n by (simp add: validAdmin_def signAdmin_def Let_def cut_at_append b64_roundtrip adminTTL_def)
qed

definition demo_admin :: admin where
  "demo_admin = \<lparr>am_token = ''secret'', am_hmac = (\<lambda>k d. k @ d), am_sha256 = (\<lambda>s. s), am_collate = (\<lambda>s. s)\<rparr>"

definition demo_cookie :: string where
  "demo_cookie = signAdmin demo_admin (50 + adminTTL)"

lemma demo_cookie_valid: "validAdmin demo_admin demo_cookie 50"
  unfolding demo_cookie_def by (rule signAdmin_valid) (simp_all add: unix_secs_def adminTTL_def)

lemma signAdmin_line: "one_line (signAdmin a e)"
proof -
  have "c \<in> set b64_alphabet" if "c \<in> set (b64_encode b)" for c b
  proof -
    have "list_all (\<lambda>x. x < 256) (map of_char b :: nat list)" by (simp add: list_all_iff)
    from b64_back [OF this] have "list_all (\<lambda>g. g < 64) (b64_groups (map of_char b))" by blast
    then show ?thesis using that alphabet(1) by (auto simp: b64_encode_def list_all_iff)
  qed
  moreover have "CHR 10 \<notin> set b64_alphabet" "CHR 13 \<notin> set b64_alphabet" by (simp_all add: b64_alphabet_def)
  moreover have "CHR 10 \<notin> set (int_text i)" "CHR 13 \<notin> set (int_text i)" for i
    using int_text_chars [of "CHR 10" i] int_text_chars [of "CHR 13" i] by auto
  ultimately show ?thesis by (auto simp: one_line_def signAdmin_def Let_def)
qed

lemma demo_switch: "admin_handle demo_admin demo_server demo_request (Some demo_cookie) (SwitchMaintenance ''true'') demo_web =
    (Inr (Redirected None), with_db (demo_db\<lparr>settings := settings demo_db @ [(''maintenance'', ''on'')]\<rparr>) demo_web)"
proof -
  have "settings demo_db = []" by (simp add: demo_db_def empty_db_def)
  then have "on_store (SetMaintenance True) demo_web = (Inr (), with_db (demo_db\<lparr>settings := [(''maintenance'', ''on'')]\<rparr>) demo_web)"
    unfolding SetMaintenance_def by (simp add: on_store_exec demo_web_simps)
  then show ?thesis using demo_cookie_valid \<open>settings demo_db = []\<close>
    by (simp add: requireAdmin_run demo_web_simps adminMaintenance_def andthen_def page_stored_def with_err_def)
qed

theorem admin_guard_witness:
  "\<exists>h x w'. admin_call demo_admin demo_server demo_request (Some demo_cookie) (SwitchMaintenance ''true'') = Some h \<and> h demo_web = (x, w') \<and>
    settings (db_of w') \<noteq> settings (db_of demo_web) \<and> (\<exists>v. Some demo_cookie = Some v \<and> admin_cookie demo_admin 50 v)"
proof -
  let ?h = "admin_handle demo_admin demo_server demo_request (Some demo_cookie) (SwitchMaintenance ''true'')"
  let ?w = "with_db (demo_db\<lparr>settings := settings demo_db @ [(''maintenance'', ''on'')]\<rparr>) demo_web"
  have h: "admin_call demo_admin demo_server demo_request (Some demo_cookie) (SwitchMaintenance ''true'') = Some ?h"
    by (simp add: admin_call_def adminEnabled_def demo_admin_def)
  have line: "one_line v" if "Some demo_cookie = Some v" for v using that signAdmin_line [of demo_admin "50 + adminTTL"] unfolding demo_cookie_def by (simp only: option.inject)
  have diff: "settings (db_of ?w) \<noteq> settings (db_of demo_web)" by (simp add: demo_web_simps)
  have other: "settings (d\<lparr>rate_limits := x\<rparr>) = settings d" for d x by simp
  have "db_of ?w \<noteq> (db_of demo_web)\<lparr>rate_limits := rate_limits (db_of ?w)\<rparr>"
  proof
    assume "db_of ?w = (db_of demo_web)\<lparr>rate_limits := rate_limits (db_of ?w)\<rparr>"
    then have "settings (db_of ?w) = settings ((db_of demo_web)\<lparr>rate_limits := rate_limits (db_of ?w)\<rparr>)" by (rule arg_cong)
    then show False using diff unfolding other by (rule notE [rotated])
  qed
  from admin_guard [OF h demo_switch line this] diff h demo_switch show ?thesis by (auto simp: demo_web_simps)
qed

section \<open>Revoked sessions\<close>

lemma page_storedE:
  assumes "page_stored m w = (Inr x, w')"
  obtains s where "m (web_store w) = (Inr x, s)" "w' = w\<lparr>web_store := s\<rparr>"
  using assms by (auto simp: page_stored_def with_err_def on_store_def split: prod.splits sum.splits)

lemma adminUsers_tables: "adminUsers a st d w = (Inr pg, w') \<Longrightarrow> db_of w' = db_of w \<and> now_of w' = now_of w"
proof -
  assume "adminUsers a st d w = (Inr pg, w')"
  then obtain us v on where l: "page_stored (ListUsersWithSessions (am_collate a)) w = (Inr us, v)" and m: "page_stored Maintenance v = (Inr on, w')"
    unfolding adminUsers_def by (auto elim!: andthen_InrE)
  from l have "db_of v = db_of w \<and> now_of v = now_of w"
    by (auto elim!: page_storedE simp: ListUsersWithSessions_def exec_InrD reading_snd)
  then show ?thesis using m by (auto elim!: page_storedE dest!: Maintenance_Inr)
qed

lemma sessionUser_row:
  assumes "sessionUser sv r w = (Inr u, w')"
  shows "\<exists>s \<in> set (sessions (db_of w)). \<exists>u0 \<in> set (users (db_of w)). u_id u0 = ss_user s \<and> uv_name u = u_name u0"
proof -
  obtain x y where "x \<in> set (sessions (db_of w))" "y \<in> set (users (db_of w))" "u_id y = ss_user x" "u = scanUser y"
    using sessionUser_Inr [OF assms] by blast
  then show ?thesis by (intro bexI [of _ x] bexI [of _ y]) (simp_all add: scanUser_def)
qed

lemma drop_users_gone: "u \<in> set (users (drop_users ids d)) \<Longrightarrow> u \<in> set (users d) \<and> u_id u \<notin> ids"
  by (auto simp: drop_users_def)

lemma DeleteUser_gone:
  assumes "DeleteUser name s = (Inr x, t)" and "u \<in> set (users (tabs t))"
  shows "u_name u \<noteq> lower name"
proof -
  obtain n where n: "exec (\<lambda>now. delete_users (user_named name)) s = (Inr n, t)"
    using assms(1) by (auto simp: DeleteUser_def elim!: andthen_InrE split: if_splits)
  let ?ids = "u_id ` set (filter (user_named name) (users (tabs s)))"
  have "tabs t = drop_users ?ids (tabs s)" using exec_InrD(1,2) [OF n] by (auto simp: delete_users_def Let_def split: if_splits)
  then show ?thesis using assms(2) drop_users_gone [of u ?ids "tabs s"] by (auto simp: user_named_def)
qed

lemma revoked_sessions:
  "DeleteUserSessions name s = (Inr n, t) \<Longrightarrow> x \<in> set (sessions (tabs t)) \<Longrightarrow> u \<in> set (users (tabs t)) \<Longrightarrow> u_id u = ss_user x \<Longrightarrow> u_name u \<noteq> lower name"
  "DeleteAllSessions s = (Inr n, t) \<Longrightarrow> sessions (tabs t) = []"
  unfolding DeleteUserSessions_def DeleteAllSessions_def delete_sessions_def
  by (drule exec_InrD(2), auto simp: list_ex_iff user_named_def delete_where_def)+



section \<open>Maintenance\<close>

text \<open>C31: Once maintenance is switched on, the login answers 503 whatever is entered, or 500 when the database fails, and no
  API token is accepted.\<close>

theorem maintenance_closes:
  assumes "admin_handle a sv r cookie (SwitchMaintenance ''true'') w = (Inr (Redirected None), w')"
  shows "fst (login sv' r' raw pw w') \<in> {Inl (Problem 503 maintenanceText []), Inl (Problem 500 ''Internal error'' [])}
    \<and> (rq_auth r' = [] \<or> (\<exists>e. fst (identify sv' r' w') = Inl e))"
proof -
  have "requireAdmin a cookie (adminMaintenance ''true'') w = (Inr (Redirected None), w')" using assms by simp
  then have "adminMaintenance ''true'' w = (Inr (Redirected None), w')" by (simp add: requireAdmin_run split: if_splits)
  then obtain x where "page_stored (SetMaintenance True) w = (Inr x, w')" unfolding adminMaintenance_def by (auto elim!: andthen_InrE)
  then have on: "in_maintenance (db_of w')" by (auto elim!: page_storedE dest: SetMaintenance_sets)
  have down: "fst (on_store Maintenance v) = Inr True \<or> fst (on_store Maintenance v) = Inl ErrDb" if "in_maintenance (db_of v)" for v
  proof -
    obtain q s where q: "Maintenance (web_store v) = (q, s)" by fastforce
    then show ?thesis using that by (cases q) (auto simp: on_store_def dest: Maintenance_Inr Maintenance_error)
  qed
  have "fst (maintenanceErr w') \<in> {Inl (Problem 503 maintenanceText []), Inl (Problem 500 ''Internal error'' [])}"
    using down [OF on] by (auto simp: maintenanceErr_def stored_def with_err_def andthen_def storeErr_def split: prod.splits sum.splits)
  then have "fst (login sv' r' raw pw w') \<in> {Inl (Problem 503 maintenanceText []), Inl (Problem 500 ''Internal error'' [])}"
    by (auto simp: login_def andthen_def split: prod.splits sum.splits)
  moreover have "rq_auth r' = [] \<or> (\<exists>e. fst (identify sv' r' w') = Inl e)"
  proof (cases "identify sv' r' w'")
    case (Pair q v)
    then show ?thesis using identify_Inr on by (cases q) (force simp: by_session_def by_token_def)+
  qed
  ultimately show ?thesis by simp
qed

theorem maintenance_closes_witness:
  "\<exists>w'. admin_handle demo_admin demo_server demo_request (Some demo_cookie) (SwitchMaintenance ''true'') demo_web = (Inr (Redirected None), w') \<and>
    fst (login demo_server demo_request ''ada'' ''0123456789'' w') \<in> {Inl (Problem 503 maintenanceText []), Inl (Problem 500 ''Internal error'' [])}"
  using maintenance_closes [OF demo_switch, of demo_server demo_request "''ada''" "''0123456789''"] demo_switch by auto

end
