(* ===== verification/Migrate.thy ===== *)
theory Migrate
  imports Schema "HOL-Library.List_Lexorder" "HOL-Library.Char_ord"
begin

text \<open>
  The migration runner (src/internal/store/migrate.go). The state is what migrations change, of any type, beside the table
  schema_migrations; PostgreSQL running the text of a migration is the parameter \<open>run\<close>. Statements fail as the script of the
  wire says: refused, or executed with the answer lost. The advisory lock lets one run after the other, so a run is one step
  of the system.
\<close>

section \<open>The runner\<close>

record 'd catalog =
  ct_schema :: 'd
  ct_versions :: "string list option"  \<comment> \<open>None: the table does not exist yet\<close>

record 'd connection =
  cn_catalog :: "'d catalog"
  cn_wire :: "wire list"

datatype migrate_error = MigrateFailed | MigrateFailedIn string | NoMigrationFile string

type_synonym ('d, 'a) migrator = "('d connection, migrate_error, 'a) act"

text \<open>A statement with its effect, None for one PostgreSQL rejects.\<close>

definition statement :: "migrate_error \<Rightarrow> ('d catalog \<Rightarrow> ('a \<times> 'd catalog) option) \<Rightarrow> ('d, 'a) migrator" where
  "statement e q s = (let t = s\<lparr>cn_wire := tl (cn_wire s)\<rparr> in
     case cn_wire s of
       Refused # _ \<Rightarrow> (Inl e, t)
     | w \<Rightarrow> (case q (cn_catalog s) of
         None \<Rightarrow> (Inl e, t)
       | Some (x, c) \<Rightarrow> (if w \<noteq> [] \<and> hd w = Cut then Inl e else Inr x, t\<lparr>cn_catalog := c\<rparr>)))"

text \<open>Begin, the body, commit: an error rolls back, whatever becomes of the rollback itself; a commit can be lost either way.\<close>

definition in_transaction :: "migrate_error \<Rightarrow> ('d, unit) migrator \<Rightarrow> ('d, unit) migrator" where
  "in_transaction e body s = (case body s of
     (Inl x, t) \<Rightarrow> (Inl x, t\<lparr>cn_catalog := cn_catalog s\<rparr>)
   | (Inr _, t) \<Rightarrow> (case statement e (\<lambda>c. Some ((), c)) t of
       (Inr _, u) \<Rightarrow> (Inr (), u)
     | (Inl x, u) \<Rightarrow> (Inl x, if cn_wire t \<noteq> [] \<and> hd (cn_wire t) = Refused then u\<lparr>cn_catalog := cn_catalog s\<rparr> else u)))"

definition create_versions :: "('d, unit) migrator" where
  "create_versions = statement MigrateFailed (\<lambda>c. Some ((), c\<lparr>ct_versions := Some (case ct_versions c of None \<Rightarrow> [] | Some vs \<Rightarrow> vs)\<rparr>))"

definition is_applied :: "string \<Rightarrow> ('d, bool) migrator" where
  "is_applied name = statement MigrateFailed (\<lambda>c. map_option (\<lambda>vs. (name \<in> set vs, c)) (ct_versions c))"

definition insert_version :: "string \<Rightarrow> ('d, unit) migrator" where
  "insert_version name = statement (MigrateFailedIn name) (\<lambda>c. case ct_versions c of
     None \<Rightarrow> None
   | Some vs \<Rightarrow> if name \<in> set vs then None else Some ((), c\<lparr>ct_versions := Some (vs @ [name])\<rparr>))"

definition apply_migration :: "(string \<Rightarrow> 'd \<Rightarrow> 'd option) \<Rightarrow> string \<Rightarrow> string \<Rightarrow> ('d, unit) migrator" where
  "apply_migration run name sql = andthen (statement MigrateFailed (\<lambda>c. Some ((), c))) (\<lambda>_.
     in_transaction (MigrateFailedIn name)
       (andthen (statement (MigrateFailedIn name) (\<lambda>c. map_option (\<lambda>d. ((), c\<lparr>ct_schema := d\<rparr>)) (run sql (ct_schema c)))) (\<lambda>_.
         insert_version name)))"

fun migrate_names :: "(string \<Rightarrow> 'd \<Rightarrow> 'd option) \<Rightarrow> (string \<times> string) list \<Rightarrow> string list \<Rightarrow> ('d, unit) migrator" where
  "migrate_names run files [] = ret ()"
| "migrate_names run files (name # names) = andthen (is_applied name) (\<lambda>applied.
     if applied then migrate_names run files names
     else case map_of files name of
         None \<Rightarrow> raise (NoMigrationFile name)
       | Some sql \<Rightarrow> andthen (apply_migration run name sql) (\<lambda>_. migrate_names run files names))"

text \<open>Acquiring the connection and the lock are two more calls that can fail before anything happens.\<close>

definition Migrate :: "(string \<Rightarrow> 'd \<Rightarrow> 'd option) \<Rightarrow> (string \<times> string) list \<Rightarrow> ('d, unit) migrator" where
  "Migrate run files = andthen (statement MigrateFailed (\<lambda>c. Some ((), c))) (\<lambda>_.
     andthen (statement MigrateFailed (\<lambda>c. Some ((), c))) (\<lambda>_.
     andthen create_versions (\<lambda>_. migrate_names run files (sort (map fst files)))))"

section \<open>Every migration once, in order\<close>

text \<open>The releases of the program carry the first files of one list. A deployment is the start of one process of a
  release, the script of the wire says what fails.\<close>

fun deploy :: "(string \<Rightarrow> 'd \<Rightarrow> 'd option) \<Rightarrow> (string \<times> string) list \<Rightarrow> (nat \<times> wire list) list \<Rightarrow> 'd catalog \<Rightarrow> 'd catalog" where
  "deploy run files [] c = c"
| "deploy run files ((m, w) # rs) c = deploy run files rs (cn_catalog (snd (Migrate run (take m files) \<lparr>cn_catalog = c, cn_wire = w\<rparr>)))"

fun replay :: "(string \<Rightarrow> 'd \<Rightarrow> 'd option) \<Rightarrow> string list \<Rightarrow> 'd \<Rightarrow> 'd option" where
  "replay run [] d = Some d"
| "replay run (sql # texts) d = Option.bind (run sql d) (replay run texts)"

definition versions_of :: "'d catalog \<Rightarrow> string list" where
  "versions_of c = (case ct_versions c of None \<Rightarrow> [] | Some vs \<Rightarrow> vs)"

definition at_level :: "(string \<Rightarrow> 'd \<Rightarrow> 'd option) \<Rightarrow> (string \<times> string) list \<Rightarrow> 'd \<Rightarrow> nat \<Rightarrow> 'd catalog \<Rightarrow> bool" where
  "at_level run files d k c \<longleftrightarrow> k \<le> length files \<and> versions_of c = map fst (take k files)
     \<and> replay run (map snd (take k files)) d = Some (ct_schema c)"

lemma replay_append: "replay run (xs @ ys) d = Option.bind (replay run xs d) (replay run ys)"
  by (induction xs arbitrary: d) (auto split: Option.bind_splits)

lemma statement_cases:
  assumes "statement e q s = (r, t)"
  obtains "r = Inl e" "cn_catalog t = cn_catalog s"
  | x c where "q (cn_catalog s) = Some (x, c)" "cn_catalog t = c" "r = Inr x \<or> r = Inl e"
  using assms by (auto simp: statement_def Let_def split: list.splits wire.splits option.splits prod.splits if_splits)

lemma unchanged_statement: "cn_catalog (snd (statement e (\<lambda>c. Some ((), c)) s)) = cn_catalog s"
  by (cases "statement e (\<lambda>c. Some ((), c)) s") (auto elim: statement_cases)

text \<open>A transaction leaves all of its body or nothing.\<close>

lemma in_transaction_cases:
  assumes "in_transaction e body s = (r, t)"
  obtains "cn_catalog t = cn_catalog s" "\<exists>x. r = Inl x"
  | u where "body s = (Inr (), u)" "cn_catalog t = cn_catalog u"
proof (cases "body s")
  case (Pair q u)
  show ?thesis
  proof (cases q)
    case (Inl x)
    then show ?thesis using assms Pair that(1) by (simp add: in_transaction_def) auto
  next
    case (Inr y)
    obtain q' v where v: "statement e (\<lambda>c. Some ((), c)) u = (q', v)" by fastforce
    then have "cn_catalog v = cn_catalog u" using unchanged_statement [of e u] by simp
    then show ?thesis using assms Pair Inr v that by (auto simp: in_transaction_def split: sum.splits if_splits)
  qed
qed

lemma apply_migration_level:
  assumes l: "at_level run files d k c" "k < length files" "files ! k = (name, sql)"
    and run: "apply_migration run name sql s = (r, t)" "cn_catalog s = c"
  shows "at_level run files d k (cn_catalog t) \<and> r \<noteq> Inr () \<or> at_level run files d (Suc k) (cn_catalog t)"
proof -
  let ?body = "andthen (statement (MigrateFailedIn name) (\<lambda>c. map_option (\<lambda>d. ((), c\<lparr>ct_schema := d\<rparr>)) (run sql (ct_schema c)))) (\<lambda>_. insert_version name)"
  obtain q v where v: "statement MigrateFailed (\<lambda>c. Some ((), c)) s = (q, v)" "cn_catalog v = c"
    using unchanged_statement [of MigrateFailed s] run(2) by (metis prod.collapse)
  have rest: "(q = Inl MigrateFailed \<and> r = Inl MigrateFailed \<and> t = v) \<or> in_transaction (MigrateFailedIn name) ?body v = (r, t)"
    using run(1) v(1) by (auto simp: apply_migration_def andthen_def elim: statement_cases split: sum.splits)
  then show ?thesis
  proof
    assume "in_transaction (MigrateFailedIn name) ?body v = (r, t)"
    then show ?thesis
    proof (cases rule: in_transaction_cases)
      case 1
      then show ?thesis using l(1) v(2) by auto
    next
      case (2 u)
      from 2(1) obtain y where y: "statement (MigrateFailedIn name) (\<lambda>c. map_option (\<lambda>d. ((), c\<lparr>ct_schema := d\<rparr>)) (run sql (ct_schema c))) v = (Inr (), y)"
        "insert_version name y = (Inr (), u)" by (auto simp: andthen_def split: prod.splits sum.splits)
      from y(1) v(2) obtain d' where d': "run sql (ct_schema c) = Some d'" "cn_catalog y = c\<lparr>ct_schema := d'\<rparr>"
        by (auto elim!: statement_cases)
      from y(2) d' have u: "\<exists>vs. ct_versions c = Some vs \<and> cn_catalog u = c\<lparr>ct_schema := d', ct_versions := Some (vs @ [name])\<rparr>"
        by (auto simp: insert_version_def elim!: statement_cases split: option.splits if_splits)
      have "take (Suc k) files = take k files @ [(name, sql)]" using l(2,3) by (simp add: take_Suc_conv_app_nth)
      then have "at_level run files d (Suc k) (cn_catalog u)"
        using l(1,2) u d' by (auto simp: at_level_def versions_of_def replay_append)
      then show ?thesis using 2(2) by simp
    qed
  qed (use l(1) v(2) in auto)
qed

text \<open>A run over the files from place \<open>j\<close> to \<open>m\<close> of the list, when the first \<open>k\<close> have been applied.\<close>

lemma migrate_names_level:
  assumes files: "distinct (map fst files)" "m \<le> length files"
  shows "n = m - j \<Longrightarrow> at_level run files d k (cn_catalog s) \<Longrightarrow> j \<le> k \<Longrightarrow> j \<le> m \<Longrightarrow> ct_versions (cn_catalog s) \<noteq> None \<Longrightarrow>
    migrate_names run (take m files) (map fst (drop j (take m files))) s = (r, t) \<Longrightarrow>
    \<exists>k'. k \<le> k' \<and> at_level run files d k' (cn_catalog t) \<and> (r = Inr () \<longrightarrow> m \<le> k')"
proof (induction n arbitrary: j k s)
  case 0
  then show ?case using files by auto
next
  case (Suc n)
  then have j: "j < m" by simp
  obtain name sql where at: "files ! j = (name, sql)" by fastforce
  have names: "map fst (drop j (take m files)) = name # map fst (drop (Suc j) (take m files))"
    using j files at by (simp add: Cons_nth_drop_Suc [symmetric])
  obtain q u where u: "is_applied name s = (q, u)" by fastforce
  have same: "cn_catalog u = cn_catalog s" "\<And>b. q = Inr b \<Longrightarrow> b \<longleftrightarrow> name \<in> set (versions_of (cn_catalog s))"
    using u Suc.prems(5) by (auto simp: is_applied_def versions_of_def elim!: statement_cases)
  have text_of: "map_of (take m files) name = Some sql"
    using j files at by (metis distinct_map distinct_take in_set_conv_nth length_take map_of_eq_Some_iff min.absorb2 nth_take take_map)
  have mem: "name \<in> set (versions_of (cn_catalog s)) \<longleftrightarrow> j < k"
  proof
    assume "name \<in> set (versions_of (cn_catalog s))"
    then obtain i where "i < k" "i < length files" "fst (files ! i) = name"
      using Suc.prems(2) by (auto simp: at_level_def in_set_conv_nth)
    then show "j < k" using files at j nth_eq_iff_index_eq [of "map fst files" i j] by auto
  next
    assume "j < k"
    then have "fst (files ! j) \<in> set (map fst (take k files))" using j files by (auto simp: in_set_conv_nth intro!: image_eqI [of _ _ "files ! j"] exI [of _ j])
    then show "name \<in> set (versions_of (cn_catalog s))" using Suc.prems(2) at by (simp add: at_level_def)
  qed
  show ?case
  proof (cases q)
    case (Inl e)
    then have "cn_catalog t = cn_catalog s \<and> r = Inl e" using Suc.prems(6) names u same by (simp add: andthen_def)
    then show ?thesis using Suc.prems(2) by auto
  next
    case (Inr b)
    show ?thesis
    proof (cases "j < k")
      case True
      then have "migrate_names run (take m files) (map fst (drop (Suc j) (take m files))) u = (r, t)"
        using Suc.prems(6) names u Inr same(2) mem by (simp add: andthen_def)
      then show ?thesis using Suc.IH [of "Suc j" k u] Suc.prems True j same by auto
    next
      case False
      then have k: "k = j" using Suc.prems(3) by simp
      obtain a v where v: "apply_migration run name sql u = (a, v)" by fastforce
      have step: "at_level run files d k (cn_catalog v) \<and> a \<noteq> Inr () \<or> at_level run files d (Suc k) (cn_catalog v)"
        using apply_migration_level [OF Suc.prems(2) _ _ v same(1)] k j files at by simp
      have tail: "(case a of Inl e \<Rightarrow> (Inl e, v) | Inr _ \<Rightarrow> migrate_names run (take m files) (map fst (drop (Suc j) (take m files))) v) = (r, t)"
        using Suc.prems(6) names u v Inr same(2) mem False text_of by (simp add: andthen_def)
      show ?thesis
      proof (cases a)
        case (Inl e)
        then have "r = Inl e" "t = v" using tail by simp_all
        then show ?thesis using step by (auto intro: exI [of _ k] exI [of _ "Suc k"])
      next
        case (Inr y)
        then have l: "at_level run files d (Suc k) (cn_catalog v)" using step by auto
        then have "ct_versions (cn_catalog v) \<noteq> None" using k j files
          by (cases "ct_versions (cn_catalog v)") (auto simp: at_level_def versions_of_def)
        have "n = m - Suc j" using Suc.prems(1) by simp
        then obtain k' where "Suc k \<le> k'" "at_level run files d k' (cn_catalog t)" "r = Inr () \<longrightarrow> m \<le> k'"
          using Suc.IH [of "Suc j" "Suc k" v] l j k tail Inr \<open>ct_versions (cn_catalog v) \<noteq> None\<close> by auto
        then show ?thesis by (intro exI [of _ k']) simp
      qed
    qed
  qed
qed

lemma Migrate_level:
  assumes files: "sorted (map fst files)" "distinct (map fst files)" and l: "at_level run files d k (cn_catalog s)"
    and run: "Migrate run (take m files) s = (r, t)"
  shows "\<exists>k'. k \<le> k' \<and> at_level run files d k' (cn_catalog t) \<and> (r = Inr () \<longrightarrow> min m (length files) \<le> k')"
proof -
  let ?free = "\<lambda>s. statement MigrateFailed (\<lambda>c. Some ((), c)) s"
  obtain q1 u1 where u1: "?free s = (q1, u1)" by fastforce
  obtain q2 u2 where u2: "?free u1 = (q2, u2)" by fastforce
  obtain q3 u3 where u3: "create_versions u2 = (q3, u3)" by fastforce
  have same: "cn_catalog u1 = cn_catalog s" "cn_catalog u2 = cn_catalog s"
    using u1 u2 unchanged_statement [of MigrateFailed s] unchanged_statement [of MigrateFailed u1] by simp_all
  have "cn_catalog u3 = cn_catalog u2 \<and> q3 \<noteq> Inr () \<or> cn_catalog u3 = (cn_catalog u2)\<lparr>ct_versions := Some (versions_of (cn_catalog u2))\<rparr>"
    using u3 unfolding create_versions_def versions_of_def by (auto elim!: statement_cases)
  then have l3: "at_level run files d k (cn_catalog u3) \<and> (q3 = Inr () \<longrightarrow> ct_versions (cn_catalog u3) \<noteq> None)"
    using l same by (auto simp: at_level_def versions_of_def)
  have "take (min m (length files)) files = take m files" by (cases "m \<le> length files") (simp_all add: min_def)
  moreover have "sort (map fst (take m files)) = map fst (drop 0 (take m files))"
    using files(1) by (simp add: sorted_sort_id sorted_wrt_take take_map [symmetric])
  ultimately have "sort (map fst (take m files)) = map fst (drop 0 (take (min m (length files)) files))" "take (min m (length files)) files = take m files"
    by simp_all
  then consider "cn_catalog t = cn_catalog s" "\<exists>e. r = Inl e" | "t = u3" "\<exists>e. r = Inl e"
    | "q3 = Inr ()" "migrate_names run (take (min m (length files)) files) (map fst (drop 0 (take (min m (length files)) files))) u3 = (r, t)"
    using run u1 u2 u3 same by (cases q1; cases q2; cases q3) (auto simp: Migrate_def andthen_def)
  then show ?thesis
  proof cases
    case 3
    then show ?thesis using migrate_names_level [OF files(2), where m = "min m (length files)" and j = 0 and k = k and s = u3] l3 by auto
  qed (use l l3 in auto)
qed

lemma deploy_level:
  assumes "sorted (map fst files)" "distinct (map fst files)"
  shows "at_level run files d k c \<Longrightarrow> \<exists>k'. k \<le> k' \<and> at_level run files d k' (deploy run files rs c)"
proof (induction rs arbitrary: k c)
  case (Cons x rs)
  obtain m w where x: "x = (m, w)" by fastforce
  obtain r t where t: "Migrate run (take m files) \<lparr>cn_catalog = c, cn_wire = w\<rparr> = (r, t)" by fastforce
  obtain k' where k': "k \<le> k'" "at_level run files d k' (cn_catalog t)"
    using Migrate_level [OF assms _ t] Cons.prems by auto
  then show ?case using Cons.IH [OF k'(2)] t x by (auto intro: order_trans)
qed auto

text \<open>C33: Whatever processes of whatever releases start in turn, and whatever statements fail or lose their answers, the
  database is at every moment what the first k migrations in name order make of an empty one, each applied exactly once and
  recorded; and a run that reports success has brought k up to its release.\<close>

theorem migrations_in_order:
  assumes "sorted (map fst files)" "distinct (map fst files)"
    and c: "c = deploy run files rs \<lparr>ct_schema = d, ct_versions = None\<rparr>"
  shows "\<exists>k. at_level run files d k c \<and> (\<forall>m w t. Migrate run (take m files) \<lparr>cn_catalog = c, cn_wire = w\<rparr> = (Inr (), t) \<longrightarrow>
    (\<exists>k'. max k (min m (length files)) \<le> k' \<and> at_level run files d k' (cn_catalog t)))"
proof -
  have "at_level run files d 0 \<lparr>ct_schema = d, ct_versions = None\<rparr>" by (simp add: at_level_def versions_of_def)
  from deploy_level [OF assms(1,2) this, of rs] c obtain k where k: "at_level run files d k c" by auto
  have "\<exists>k'. max k (min m (length files)) \<le> k' \<and> at_level run files d k' (cn_catalog t)"
    if "Migrate run (take m files) \<lparr>cn_catalog = c, cn_wire = w\<rparr> = (Inr (), t)" for m w t
    using Migrate_level [OF assms(1,2) _ that] k by fastforce
  then show ?thesis using k by blast
qed

text \<open>A database that keeps the list of texts it ran; the second run loses the answer to its first commit, an old release
  starts, then the new one again.\<close>

definition demo_run :: "string \<Rightarrow> string list \<Rightarrow> string list option" where
  "demo_run sql d = (if sql \<in> set d then None else Some (d @ [sql]))"

definition demo_migrations :: "(string \<times> string) list" where
  "demo_migrations = [(''0001.sql'', ''create''), (''0002.sql'', ''alter'')]"

theorem migrations_in_order_witness:
  "deploy demo_run demo_migrations [(2, [Up, Up, Up, Up, Up, Up, Up, Cut]), (1, []), (2, [])] \<lparr>ct_schema = [], ct_versions = None\<rparr>
      = \<lparr>ct_schema = [''create'', ''alter''], ct_versions = Some [''0001.sql'', ''0002.sql'']\<rparr>
    \<and> (\<exists>k. at_level demo_run demo_migrations [] k \<lparr>ct_schema = [''create'', ''alter''], ct_versions = Some [''0001.sql'', ''0002.sql'']\<rparr>)"
proof -
  have c: "deploy demo_run demo_migrations [(2, [Up, Up, Up, Up, Up, Up, Up, Cut]), (1, []), (2, [])] \<lparr>ct_schema = [], ct_versions = None\<rparr>
      = \<lparr>ct_schema = [''create'', ''alter''], ct_versions = Some [''0001.sql'', ''0002.sql'']\<rparr>" by code_simp
  have "sorted (map fst demo_migrations)" "distinct (map fst demo_migrations)" by code_simp+
  from migrations_in_order [OF this c [symmetric]] show ?thesis using c by blast
qed

end
