(* ===== verification/Mail.thy ===== *)
theory Mail
  imports Strconv
begin

text \<open>
  Delivery of a mail (src/internal/mail/mail.go) over net/smtp. A connection keeps what was sent on it, each command with
  whether it was encrypted, and the script of the server: its next replies, positive or not, and whether it offers STARTTLS.
  Deadlines show as replies that fail. The date and the message id are arguments.
\<close>

section \<open>The client of net/smtp\<close>

datatype smtp_cmd = Ehlo | Helo | StartTLS | AuthPlain string string | MailFrom string | RcptTo string | DataBegin | Letter string | Quit

record smtp_conn =
  sc_replies :: "bool list"
  sc_offers :: bool
  sc_tls :: bool
  sc_hello :: "bool option"  \<comment> \<open>None: not said yet\<close>
  sc_ext :: bool  \<comment> \<open>STARTTLS is among the extensions the server named\<close>
  sc_sent :: "(bool \<times> smtp_cmd) list"

type_synonym 'a smtp = "(smtp_conn, unit, 'a) act"

definition reply :: "unit smtp" where
  "reply s = (if sc_replies s \<noteq> [] \<and> hd (sc_replies s) then Inr () else Inl (), s\<lparr>sc_replies := tl (sc_replies s)\<rparr>)"

definition command :: "smtp_cmd \<Rightarrow> unit smtp" where
  "command c s = reply (s\<lparr>sc_sent := sc_sent s @ [(sc_tls s, c)]\<rparr>)"

text \<open>hello: once per connection, EHLO and after a refusal HELO, which names no extensions.\<close>

definition first_hello :: "unit smtp" where
  "first_hello = attempt (command Ehlo) (\<lambda>r. case r of
       Inr _ \<Rightarrow> change (\<lambda>t. t\<lparr>sc_hello := Some True, sc_ext := sc_offers t\<rparr>)
     | Inl _ \<Rightarrow> attempt (command Helo) (\<lambda>r. case r of
         Inr _ \<Rightarrow> change (\<lambda>t. t\<lparr>sc_hello := Some True\<rparr>)
       | Inl _ \<Rightarrow> andthen (change (\<lambda>t. t\<lparr>sc_hello := Some False\<rparr>)) (\<lambda>_. raise ())))"

definition hello :: "unit smtp" where
  "hello s = (case sc_hello s of Some ok \<Rightarrow> (if ok then Inr () else Inl (), s) | None \<Rightarrow> first_hello s)"

definition extension_starttls :: "bool smtp" where
  "extension_starttls = attempt hello (\<lambda>r s. (Inr (case r of Inl _ \<Rightarrow> False | Inr _ \<Rightarrow> sc_ext s), s))"

definition start_tls :: "unit smtp" where
  "start_tls = andthen hello (\<lambda>_. andthen (command StartTLS) (\<lambda>_. andthen (change (\<lambda>t. t\<lparr>sc_tls := True\<rparr>)) (\<lambda>_. command Ehlo)))"

definition isLocalhost :: "string \<Rightarrow> bool" where
  "isLocalhost name \<longleftrightarrow> name \<in> {''localhost'', ''127.0.0.1'', ''::1''}"

text \<open>Auth with PlainAuth: it refuses to send a password in the clear except to this host, and quits.\<close>

definition smtp_quit :: "unit smtp" where
  "smtp_quit = andthen hello (\<lambda>_. command Quit)"

definition auth_plain :: "string \<Rightarrow> string \<Rightarrow> string \<Rightarrow> unit smtp" where
  "auth_plain user password host = andthen hello (\<lambda>_ s.
     (if sc_tls s \<or> isLocalhost host then attempt (command (AuthPlain user password)) (\<lambda>r. case r of
        Inr _ \<Rightarrow> ret ()
      | Inl _ \<Rightarrow> attempt smtp_quit (\<lambda>_. raise ()))
      else attempt smtp_quit (\<lambda>_. raise ())) s)"

definition smtp_mail :: "string \<Rightarrow> unit smtp" where
  "smtp_mail from = (if one_line from then andthen hello (\<lambda>_. command (MailFrom from)) else raise ())"

definition smtp_rcpt :: "string \<Rightarrow> unit smtp" where
  "smtp_rcpt rcpt = (if one_line rcpt then command (RcptTo rcpt) else raise ())"

section \<open>Sending\<close>

record mailer =
  sm_host :: string
  sm_port :: int
  sm_user :: string
  sm_password :: string
  sm_from :: string
  sm_plain :: bool

definition crlf :: string where
  "crlf = [CHR 13, CHR 10]"

definition after_last :: "char \<Rightarrow> string \<Rightarrow> string" where
  "after_last c s = rev (takeWhile (\<lambda>x. x \<noteq> c) (rev s))"

definition header_lines :: "string \<Rightarrow> string \<Rightarrow> string \<Rightarrow> string \<Rightarrow> string \<Rightarrow> string list" where
  "header_lines from rcpt subject date msgid = [''From: '' @ from, ''To: '' @ rcpt, ''Subject: '' @ subject, ''Date: '' @ date,
     ''Message-ID: <'' @ msgid @ ''@'' @ after_last CHR ''@'' from @ ''>'', ''MIME-Version: 1.0'',
     ''Content-Type: text/plain; charset=utf-8'', ''Content-Transfer-Encoding: 8bit'']"

definition body_text :: "string \<Rightarrow> string" where
  "body_text body = concat (map (\<lambda>c. if c = CHR 10 then crlf else [c]) body)"

definition message :: "string \<Rightarrow> string \<Rightarrow> string \<Rightarrow> string \<Rightarrow> string \<Rightarrow> string \<Rightarrow> string" where
  "message from rcpt subject body date msgid =
     concat (map (\<lambda>l. l @ crlf) (header_lines from rcpt subject date msgid)) @ crlf @ body_text body"

datatype mail_error = MailFailed | NoStartTLS | StartTLSFailed | AuthFailed | FromFailed | RcptFailed | QuitFailed

definition or_fail :: "mail_error \<Rightarrow> 'a smtp \<Rightarrow> (smtp_conn, mail_error, 'a) act" where
  "or_fail e = with_err (\<lambda>_. e)"

text \<open>The dial and the greeting of the server are the first two replies.\<close>

definition Send :: "mailer \<Rightarrow> string \<Rightarrow> string \<Rightarrow> string \<Rightarrow> string \<Rightarrow> string \<Rightarrow> (smtp_conn, mail_error, unit) act" where
  "Send m rcpt subject body date msgid =
     andthen (or_fail MailFailed reply) (\<lambda>_. andthen (or_fail MailFailed reply) (\<lambda>_.
     andthen (if sm_plain m then ret () else andthen (or_fail MailFailed extension_starttls) (\<lambda>ok.
         if \<not> ok then raise NoStartTLS else or_fail StartTLSFailed start_tls)) (\<lambda>_.
     andthen (if sm_user m \<noteq> [] then or_fail AuthFailed (auth_plain (sm_user m) (sm_password m) (sm_host m)) else ret ()) (\<lambda>_.
     andthen (or_fail FromFailed (smtp_mail (sm_from m))) (\<lambda>_.
     andthen (or_fail RcptFailed (smtp_rcpt rcpt)) (\<lambda>_.
     andthen (or_fail MailFailed (command DataBegin)) (\<lambda>_.
     andthen (or_fail MailFailed (command (Letter (message (sm_from m) rcpt subject body date msgid)))) (\<lambda>_.
     or_fail QuitFailed smtp_quit))))))))"

definition dialling :: "bool list \<Rightarrow> bool \<Rightarrow> smtp_conn" where
  "dialling replies offers = \<lparr>sc_replies = replies, sc_offers = offers, sc_tls = False, sc_hello = None, sc_ext = False, sc_sent = []\<rparr>"

section \<open>What is sent\<close>

text \<open>What must not be read on the way, and what the server may have been told so far.\<close>

fun confidential :: "smtp_cmd \<Rightarrow> bool" where
  "confidential (AuthPlain _ _) = True"
| "confidential (MailFrom _) = True"
| "confidential (RcptTo _) = True"
| "confidential DataBegin = True"
| "confidential (Letter _) = True"
| "confidential _ = False"

definition allowed :: "mailer \<Rightarrow> string \<Rightarrow> (string \<Rightarrow> bool) \<Rightarrow> bool \<Rightarrow> smtp_cmd \<Rightarrow> bool" where
  "allowed m rcpt ok enc c \<longleftrightarrow> (confidential c \<longrightarrow> enc \<or> sm_plain m)
     \<and> (\<forall>u p. c = AuthPlain u p \<longrightarrow> u = sm_user m \<and> u \<noteq> [] \<and> p = sm_password m \<and> (enc \<or> isLocalhost (sm_host m)))
     \<and> (\<forall>a. c = RcptTo a \<longrightarrow> a = rcpt) \<and> (\<forall>text. c = Letter text \<longrightarrow> ok text)"

definition proper_log :: "mailer \<Rightarrow> string \<Rightarrow> (string \<Rightarrow> bool) \<Rightarrow> smtp_conn \<Rightarrow> bool" where
  "proper_log m rcpt ok s \<longleftrightarrow> (\<forall>(enc, c) \<in> set (sc_sent s). allowed m rcpt ok enc c)"

definition shielded :: "mailer \<Rightarrow> string \<Rightarrow> (string \<Rightarrow> bool) \<Rightarrow> smtp_conn \<Rightarrow> bool" where
  "shielded m rcpt ok s \<longleftrightarrow> proper_log m rcpt ok s \<and> (sm_plain m \<or> sc_tls s)"

lemma keeps_reply [keeps_intros]: "keeps (proper_log m rcpt ok) reply" "keeps (shielded m rcpt ok) reply"
  by (simp_all add: keeps_def reply_def proper_log_def shielded_def)

lemma keeps_command:
  "\<not> confidential c \<Longrightarrow> keeps (proper_log m rcpt ok) (command c)"
  "allowed m rcpt ok True c \<Longrightarrow> (sm_plain m \<Longrightarrow> allowed m rcpt ok False c) \<Longrightarrow> keeps (shielded m rcpt ok) (command c)"
  by (auto simp: keeps_def command_def reply_def proper_log_def shielded_def allowed_def)

lemma keeps_open_command [keeps_intros]:
  "\<not> confidential c \<Longrightarrow> keeps (proper_log m rcpt ok) (command c)"
  "\<not> confidential c \<Longrightarrow> keeps (shielded m rcpt ok) (command c)"
  by (auto simp: keeps_def command_def reply_def proper_log_def shielded_def allowed_def)

lemma keeps_change [keeps_intros]:
  "(\<And>s. sc_sent (f s) = sc_sent s) \<Longrightarrow> keeps (proper_log m rcpt ok) (change f)"
  "(\<And>s. sc_sent (f s) = sc_sent s \<and> (sc_tls s \<longrightarrow> sc_tls (f s))) \<Longrightarrow> keeps (shielded m rcpt ok) (change f)"
  by (auto simp: keeps_def change_def proper_log_def shielded_def)

lemma keeps_or_fail [keeps_intros]: "keeps P m \<Longrightarrow> keeps P (or_fail e m)"
  unfolding or_fail_def by (rule keeps_with_err)

lemma hello_cases:
  assumes "\<And>s. sc_hello s = None \<Longrightarrow> P s \<Longrightarrow> P (snd (hello s))"
  shows "keeps P hello"
proof (rule keepsI)
  fix s
  assume "P s"
  then show "P (snd (hello s))" using assms [of s] by (cases "sc_hello s") (simp_all add: hello_def)
qed

lemma keeps_hello [keeps_intros]: "keeps (proper_log m rcpt ok) hello" "keeps (shielded m rcpt ok) hello"
proof -
  have k: "keeps (proper_log m rcpt ok) first_hello" "keeps (shielded m rcpt ok) first_hello"
    unfolding first_hello_def by (intro keeps_intros; simp)+
  have h: "hello s = first_hello s" if "sc_hello s = None" for s using that by (simp add: hello_def)
  show "keeps (proper_log m rcpt ok) hello" using keepsD [OF k(1)] h by (auto intro!: hello_cases)
  show "keeps (shielded m rcpt ok) hello" using keepsD [OF k(2)] h by (auto intro!: hello_cases)
qed

lemma keeps_start [keeps_intros]:
  "keeps (proper_log m rcpt ok) extension_starttls" "keeps (proper_log m rcpt ok) start_tls"
  unfolding extension_starttls_def start_tls_def by (intro keeps_intros; simp add: keeps_def)+

lemma start_tls_on: "start_tls s = (Inr x, t) \<Longrightarrow> sc_tls t"
  by (auto simp: start_tls_def andthen_def change_def command_def reply_def split: prod.splits sum.splits if_splits)

lemma keeps_quit [keeps_intros]: "keeps (shielded m rcpt ok) smtp_quit"
  unfolding smtp_quit_def by (intro keeps_intros) simp

lemma keeps_auth: "sm_user m \<noteq> [] \<Longrightarrow> keeps (shielded m rcpt ok) (auth_plain (sm_user m) (sm_password m) (sm_host m))"
proof -
  assume user: "sm_user m \<noteq> []"
  have cmd: "shielded m rcpt ok (snd (command (AuthPlain (sm_user m) (sm_password m)) s))"
    if "shielded m rcpt ok s" "sc_tls s \<or> isLocalhost (sm_host m)" for s
    using that user by (auto simp: command_def reply_def proper_log_def shielded_def allowed_def)
  have quit: "shielded m rcpt ok (snd (attempt smtp_quit (\<lambda>_. raise ()) s))" if "shielded m rcpt ok s" for s
    using keepsD [OF keeps_attempt [OF keeps_quit keeps_raise] that] .
  show ?thesis unfolding auth_plain_def
  proof (intro keeps_andthen keeps_hello keepsI)
    fix x :: unit and s
    assume s: "shielded m rcpt ok s"
    show "shielded m rcpt ok (snd ((if sc_tls s \<or> isLocalhost (sm_host m) then attempt (command (AuthPlain (sm_user m) (sm_password m))) (\<lambda>r. case r of
        Inr _ \<Rightarrow> ret () | Inl _ \<Rightarrow> attempt smtp_quit (\<lambda>_. raise ())) else attempt smtp_quit (\<lambda>_. raise ())) s))"
    proof (cases "sc_tls s \<or> isLocalhost (sm_host m)")
      case True
      obtain q t where t: "command (AuthPlain (sm_user m) (sm_password m)) s = (q, t)" by fastforce
      then have "shielded m rcpt ok t" using cmd [OF s True] by simp
      then show ?thesis using True t quit [of t] by (cases q) (simp_all add: attempt_def [of "command _"])
    qed (simp add: quit [OF s])
  qed
qed

lemma keeps_letter:
  assumes "one_line (sm_from m) \<Longrightarrow> one_line rcpt \<Longrightarrow> ok (message (sm_from m) rcpt subject body date msgid)"
  shows "keeps (shielded m rcpt ok) (andthen (or_fail FromFailed (smtp_mail (sm_from m))) (\<lambda>_.
     andthen (or_fail RcptFailed (smtp_rcpt rcpt)) (\<lambda>_. andthen (or_fail MailFailed (command DataBegin)) (\<lambda>_.
     andthen (or_fail MailFailed (command (Letter (message (sm_from m) rcpt subject body date msgid)))) (\<lambda>_. or_fail QuitFailed smtp_quit)))))"
proof -
  have r: "or_fail e (raise ()) = raise e" for e :: mail_error and z :: unit by (rule ext) (simp add: or_fail_def with_err_def)
  note steps = keeps_andthen keeps_or_fail keeps_hello(2) keeps_quit keeps_command(2) keeps_raise
  show ?thesis
  proof (cases "one_line (sm_from m)")
    case True
    then show ?thesis using assms unfolding smtp_mail_def smtp_rcpt_def
      by (cases "one_line rcpt") (simp_all add: r, (intro steps; simp add: allowed_def)+)
  qed (simp add: smtp_mail_def r)
qed

lemma shielded_proper: "shielded m rcpt ok s \<Longrightarrow> proper_log m rcpt ok s"
  by (simp add: shielded_def)

lemma Send_log:
  assumes ok: "one_line (sm_from m) \<Longrightarrow> one_line rcpt \<Longrightarrow> ok (message (sm_from m) rcpt subject body date msgid)"
  shows "proper_log m rcpt ok (snd (Send m rcpt subject body date msgid (dialling replies offers)))"
proof -
  let ?start = "if sm_plain m then ret () else andthen (or_fail MailFailed extension_starttls) (\<lambda>ok.
         if \<not> ok then raise NoStartTLS else or_fail StartTLSFailed start_tls)"
  let ?rest = "andthen (if sm_user m \<noteq> [] then or_fail AuthFailed (auth_plain (sm_user m) (sm_password m) (sm_host m)) else ret ()) (\<lambda>_.
     andthen (or_fail FromFailed (smtp_mail (sm_from m))) (\<lambda>_.
     andthen (or_fail RcptFailed (smtp_rcpt rcpt)) (\<lambda>_.
     andthen (or_fail MailFailed (command DataBegin)) (\<lambda>_.
     andthen (or_fail MailFailed (command (Letter (message (sm_from m) rcpt subject body date msgid)))) (\<lambda>_.
     or_fail QuitFailed smtp_quit)))))"
  have rest: "keeps (shielded m rcpt ok) ?rest"
    using ok by (intro keeps_andthen [OF _ keeps_letter]) (auto intro!: keeps_intros keeps_auth)
  have start: "keeps (proper_log m rcpt ok) ?start" by (intro keeps_intros)
  have on: "sm_plain m \<or> sc_tls t" if "?start s = (Inr x, t)" for s x t
    using that start_tls_on by (auto simp: andthen_def or_fail_def with_err_def split: prod.splits sum.splits if_splits)
  have "proper_log m rcpt ok (snd (andthen ?start (\<lambda>_. ?rest) s))" if s: "proper_log m rcpt ok s" for s
  proof (cases "?start s")
    case (Pair q t)
    have t: "proper_log m rcpt ok t" using keepsD' [OF start s Pair] .
    show ?thesis
    proof (cases q)
      case (Inl e)
      then show ?thesis using Pair t by (simp add: andthen_def)
    next
      case (Inr x)
      then have "shielded m rcpt ok t" using on Pair t by (simp add: shielded_def)
      then have "shielded m rcpt ok (snd (?rest t))" by (rule keepsD [OF rest])
      then show ?thesis using Pair Inr by (simp add: andthen_def [of ?start] shielded_proper)
    qed
  qed
  then have k: "keeps (proper_log m rcpt ok) (andthen ?start (\<lambda>_. ?rest))" by (rule keepsI)
  have "keeps (proper_log m rcpt ok) (Send m rcpt subject body date msgid)"
    unfolding Send_def by (intro keeps_andthen [OF _ keeps_andthen [OF _ k]] keeps_or_fail keeps_reply)
  moreover have "proper_log m rcpt ok (dialling replies offers)" by (simp add: proper_log_def dialling_def)
  ultimately show ?thesis by (rule keepsD)
qed

section \<open>A mail that went out\<close>

definition orders :: "smtp_conn \<Rightarrow> smtp_cmd list" where
  "orders s = filter (\<lambda>c. c \<noteq> Ehlo \<and> c \<noteq> Helo) (map snd (sc_sent s))"

text \<open>A step that succeeds gave these orders.\<close>

definition says :: "(smtp_conn, 'e, 'a) act \<Rightarrow> smtp_cmd list \<Rightarrow> bool" where
  "says m cs \<longleftrightarrow> (\<forall>s x t. m s = (Inr x, t) \<longrightarrow> orders t = orders s @ cs)"

lemma says_andthen: "says m xs \<Longrightarrow> (\<And>x. says (f x) ys) \<Longrightarrow> says (andthen m f) (xs @ ys)"
  by (auto simp: says_def andthen_def split: prod.splits sum.splits)

lemma says_or_fail: "says m xs \<Longrightarrow> says (or_fail e m) xs"
  by (auto simp: says_def or_fail_def with_err_def split: prod.splits sum.splits)

lemma says_ret: "says (ret x) []"
  by (simp add: says_def)

lemma says_raise: "says (raise e) xs"
  by (simp add: says_def)

lemma says_reply: "says reply []"
  by (simp add: says_def reply_def orders_def)

lemma says_command: "says (command c) (if c = Ehlo \<or> c = Helo then [] else [c])"
  by (auto simp: says_def command_def reply_def orders_def)

lemma says_change: "(\<And>s. sc_sent (f s) = sc_sent s) \<Longrightarrow> says (change f) []"
  by (simp add: says_def change_def orders_def)

lemma hello_orders: "orders (snd (hello s)) = orders s"
  by (auto simp: hello_def first_hello_def attempt_def andthen_def change_def command_def reply_def orders_def split: option.splits prod.splits sum.splits if_splits)

lemma says_hello: "says hello []" "says extension_starttls []"
proof -
  have "hello s = (q, t) \<Longrightarrow> orders t = orders s" for s q t using hello_orders [of s] by simp
  then show "says hello []" "says extension_starttls []" by (auto simp: says_def extension_starttls_def attempt_def split: prod.splits)
qed

lemma says_start_tls: "says start_tls [StartTLS]"
proof -
  have "says start_tls ([] @ [StartTLS] @ [] @ [])"
    unfolding start_tls_def using says_command [of StartTLS] says_command [of Ehlo] by (intro says_andthen says_hello says_change) simp_all
  then show ?thesis by simp
qed

lemma says_auth: "says (auth_plain u p h) [AuthPlain u p]"
proof -
  have "says (\<lambda>s. (if sc_tls s \<or> isLocalhost h then attempt (command (AuthPlain u p)) (\<lambda>r. case r of Inr _ \<Rightarrow> ret () | Inl _ \<Rightarrow> attempt smtp_quit (\<lambda>_. raise ()))
      else attempt smtp_quit (\<lambda>_. raise ())) s) [AuthPlain u p]"
    using says_command [of "AuthPlain u p"] by (auto simp: says_def attempt_def split: prod.splits sum.splits)
  then have "says (auth_plain u p h) ([] @ [AuthPlain u p])" unfolding auth_plain_def by (intro says_andthen says_hello)
  then show ?thesis by simp
qed

lemma says_mail: "says (smtp_mail a) [MailFrom a]" "says (smtp_rcpt a) [RcptTo a]" "says smtp_quit [Quit]"
proof -
  have "says (andthen hello (\<lambda>_. command c)) ([] @ [c])" if "c \<noteq> Ehlo" "c \<noteq> Helo" for c
    using that says_command [of c] by (intro says_andthen says_hello) simp
  then show "says (smtp_mail a) [MailFrom a]" "says smtp_quit [Quit]" by (simp_all add: smtp_mail_def smtp_quit_def says_raise)
  show "says (smtp_rcpt a) [RcptTo a]" using says_command [of "RcptTo a"] by (simp add: smtp_rcpt_def says_raise)
qed

lemma Send_says:
  "says (Send m rcpt subject body date msgid) ((if sm_plain m then [] else [StartTLS])
     @ (if sm_user m = [] then [] else [AuthPlain (sm_user m) (sm_password m)])
     @ [MailFrom (sm_from m), RcptTo rcpt, DataBegin, Letter (message (sm_from m) rcpt subject body date msgid), Quit])"
proof -
  let ?start = "if sm_plain m then ret () else andthen (or_fail MailFailed extension_starttls) (\<lambda>ok.
         if \<not> ok then raise NoStartTLS else or_fail StartTLSFailed start_tls)"
  have "says (andthen (or_fail MailFailed extension_starttls) (\<lambda>ok.
         if \<not> ok then raise NoStartTLS else or_fail StartTLSFailed start_tls)) ([] @ [StartTLS])"
    by (intro says_andthen says_or_fail says_hello) (simp add: says_raise says_or_fail says_start_tls)
  then have start: "says ?start (if sm_plain m then [] else [StartTLS])" by (simp add: says_ret)
  have auth: "says (if sm_user m \<noteq> [] then or_fail AuthFailed (auth_plain (sm_user m) (sm_password m) (sm_host m)) else ret ())
      (if sm_user m = [] then [] else [AuthPlain (sm_user m) (sm_password m)])"
    by (simp add: says_ret says_or_fail says_auth)
  have "says (Send m rcpt subject body date msgid) ([] @ [] @ (if sm_plain m then [] else [StartTLS])
     @ (if sm_user m = [] then [] else [AuthPlain (sm_user m) (sm_password m)])
     @ [MailFrom (sm_from m)] @ [RcptTo rcpt] @ [DataBegin] @ [Letter (message (sm_from m) rcpt subject body date msgid)] @ [Quit])"
    unfolding Send_def using says_command [of DataBegin] says_command [of "Letter (message (sm_from m) rcpt subject body date msgid)"]
    by (intro says_andthen start auth says_or_fail says_reply says_mail) simp_all
  then show ?thesis by simp
qed

text \<open>C34: Without the setting for a plain connection the password and the mail are only sent encrypted, the password in the
  clear to this host at most; only the recipient is named; a letter carries exactly the eight lines of its head, so no address can
  add another; and when Send reports success, the orders were STARTTLS unless plain, the login if there is a user, the
  envelope, the letter and QUIT.\<close>

theorem mail_protected:
  assumes run: "Send m rcpt subject body date msgid (dialling replies offers) = (r, t)"
    and lines: "one_line subject" "one_line date" "one_line msgid"
  shows "(\<forall>(enc, c) \<in> set (sc_sent t). (confidential c \<longrightarrow> enc \<or> sm_plain m)
      \<and> (\<forall>u p. c = AuthPlain u p \<longrightarrow> u = sm_user m \<and> u \<noteq> [] \<and> p = sm_password m \<and> (enc \<or> isLocalhost (sm_host m)))
      \<and> (\<forall>a. c = RcptTo a \<longrightarrow> a = rcpt)
      \<and> (\<forall>text. c = Letter text \<longrightarrow> (\<exists>head. length head = 8 \<and> list_all one_line head
            \<and> text = concat (map (\<lambda>l. l @ crlf) head) @ crlf @ body_text body)))
    \<and> (r = Inr () \<longrightarrow> orders t = (if sm_plain m then [] else [StartTLS])
        @ (if sm_user m = [] then [] else [AuthPlain (sm_user m) (sm_password m)])
        @ [MailFrom (sm_from m), RcptTo rcpt, DataBegin, Letter (message (sm_from m) rcpt subject body date msgid), Quit])"
proof -
  let ?ok = "\<lambda>text. \<exists>head. length head = 8 \<and> list_all one_line head \<and> text = concat (map (\<lambda>l. l @ crlf) head) @ crlf @ body_text body"
  have "list_all one_line (header_lines (sm_from m) rcpt subject date msgid)" if "one_line (sm_from m)" "one_line rcpt"
  proof -
    have "set (after_last CHR ''@'' (sm_from m)) \<subseteq> set (sm_from m)" using set_takeWhileD by (fastforce simp: after_last_def)
    then show ?thesis using that lines by (auto simp: header_lines_def one_line_def)
  qed
  then have "?ok (message (sm_from m) rcpt subject body date msgid)" if "one_line (sm_from m)" "one_line rcpt"
    using that by (intro exI [of _ "header_lines (sm_from m) rcpt subject date msgid"]) (simp add: message_def header_lines_def)
  then have "proper_log m rcpt ?ok t" using Send_log [of m rcpt ?ok subject body date msgid replies offers] run by simp
  moreover have "orders (dialling replies offers) = []" by (simp add: orders_def dialling_def)
  ultimately show ?thesis using Send_says [of m rcpt subject body date msgid] run unfolding proper_log_def allowed_def says_def by auto
qed

theorem mail_protected_witness:
  "\<exists>t. Send \<lparr>sm_host = ''smtp.example'', sm_port = 587, sm_user = ''u'', sm_password = ''p'', sm_from = ''a@b'', sm_plain = False\<rparr>
      ''c@d'' ''Hi'' ''x'' ''now'' ''1'' (dialling (replicate 11 True) True) = (Inr (), t)
    \<and> orders t = [StartTLS, AuthPlain ''u'' ''p'', MailFrom ''a@b'', RcptTo ''c@d'', DataBegin, Letter (message ''a@b'' ''c@d'' ''Hi'' ''x'' ''now'' ''1''), Quit]"
proof -
  let ?m = "\<lparr>sm_host = ''smtp.example'', sm_port = 587, sm_user = ''u'', sm_password = ''p'', sm_from = ''a@b'', sm_plain = False\<rparr>"
  obtain r t where t: "Send ?m ''c@d'' ''Hi'' ''x'' ''now'' ''1'' (dialling (replicate 11 True) True) = (r, t)" by fastforce
  have "fst (Send ?m ''c@d'' ''Hi'' ''x'' ''now'' ''1'' (dialling (replicate 11 True) True)) = Inr ()" by code_simp
  then have "r = Inr ()" using t by simp
  then show ?thesis using mail_protected [OF t] t by (simp add: one_line_def)
qed

end
