(* ===== verification/Startup.thy ===== *)
theory Startup
  imports Mail S3 Tiles
begin

text \<open>
  The command (src/cmd/radiopath/): the configuration from the environment, what a process starts from it, the janitor and the
  commands for users. The environment, directories and the parsing of a URL are the record os_world.
\<close>

section \<open>Durations, levels and paths of the standard library\<close>

text \<open>time.ParseDuration in nanoseconds: decimal numbers with units, a fraction cut to whole nanoseconds; the float the library
  scales a fraction with does not round.\<close>

definition decimal_digit :: "char \<Rightarrow> bool" where
  "decimal_digit c \<longleftrightarrow> digit_val c \<noteq> None"

definition duration_units :: "(string \<times> int) list" where
  "duration_units = [(''ns'', 1), (''us'', 1000), ([CHR 0xC2, CHR 0xB5, CHR ''s''], 1000), ([CHR 0xCE, CHR 0xBC, CHR ''s''], 1000),
     (''ms'', 1000000), (''s'', 1000000000), (''m'', 60000000000), (''h'', 3600000000000)]"

definition number_of :: "string \<Rightarrow> int" where
  "number_of ds = (case digits_val 0 ds of None \<Rightarrow> 0 | Some n \<Rightarrow> int n)"

text \<open>The number and the unit at the front of a text, in nanoseconds, with the rest.\<close>

definition duration_front :: "string \<Rightarrow> (int \<times> string) option" where
  "duration_front s = (let whole = takeWhile decimal_digit s; s1 = dropWhile decimal_digit s;
       dot = has_prefix ''.'' s1; frac = (if dot then takeWhile decimal_digit (tl s1) else []);
       s2 = (if dot then dropWhile decimal_digit (tl s1) else s1);
       u = takeWhile (\<lambda>c. c \<noteq> CHR ''.'' \<and> \<not> decimal_digit c) s2; rest = dropWhile (\<lambda>c. c \<noteq> CHR ''.'' \<and> \<not> decimal_digit c) s2 in
     if (whole = [] \<and> frac = []) \<or> number_of whole > 2 ^ 63 then None
     else case map_of duration_units u of
         None \<Rightarrow> None
       | Some f \<Rightarrow> if number_of whole > 2 ^ 63 div f then None
           else Some (number_of whole * f + number_of frac * f div 10 ^ length frac, rest))"

lemma duration_front_shorter: "duration_front s = Some (v, rest) \<Longrightarrow> length rest < length s"
proof -
  assume a: "duration_front s = Some (v, rest)"
  define s1 where "s1 = dropWhile decimal_digit s"
  define s2 where "s2 = (if has_prefix ''.'' s1 then dropWhile decimal_digit (tl s1) else s1)"
  define u where "u = takeWhile (\<lambda>c. c \<noteq> CHR ''.'' \<and> \<not> decimal_digit c) s2"
  have r: "rest = dropWhile (\<lambda>c. c \<noteq> CHR ''.'' \<and> \<not> decimal_digit c) s2" and m: "map_of duration_units u \<noteq> None"
    using a by (auto simp: duration_front_def Let_def s1_def s2_def u_def split: if_splits option.splits)
  have "u \<noteq> []" using m by (auto simp: duration_units_def)
  moreover have "length u + length rest = length s2" unfolding r u_def by (metis length_append takeWhile_dropWhile_id)
  moreover have "length s2 \<le> length s1" "length s1 \<le> length s"
    using length_dropWhile_le [of decimal_digit "tl s1"] length_dropWhile_le [of decimal_digit s] by (auto simp: s2_def s1_def intro: order_trans)
  ultimately show ?thesis by (cases u) auto
qed

function duration_from :: "int \<Rightarrow> string \<Rightarrow> int option" where
  "duration_from d s = (if s = [] then Some d else case duration_front s of
     None \<Rightarrow> None
   | Some (v, rest) \<Rightarrow> if d + v > 2 ^ 63 then None else duration_from (d + v) rest)"
  by pat_completeness auto
termination
  by (relation "measure (\<lambda>(d, s). length s)") (auto dest: duration_front_shorter)

declare duration_from.simps [simp del]

definition ParseDuration :: "string \<Rightarrow> int option" where
  "ParseDuration t = (case split_sign t of (_, neg, s) \<Rightarrow>
     if s = ''0'' then Some 0 else if s = [] then None
     else case duration_from 0 s of
         None \<Rightarrow> None
       | Some d \<Rightarrow> if neg then Some (- d) else if d < 2 ^ 63 then Some d else None)"

text \<open>slog.Level.UnmarshalText: a name with an optional offset.\<close>

definition parse_level :: "string \<Rightarrow> int option" where
  "parse_level s = (let name = takeWhile (\<lambda>c. c \<noteq> CHR ''+'' \<and> c \<noteq> CHR ''-'') s; off = drop (length name) s in
     case (if off = [] then Some 0 else ParseInt off) of
       None \<Rightarrow> None
     | Some k \<Rightarrow> map_option (\<lambda>l. l + k) (map_of [(''DEBUG'', - 4), (''INFO'', 0), (''WARN'', 4), (''ERROR'', 8)] (upper name)))"

text \<open>filepath.Join of two names.\<close>

fun clean_parts :: "bool \<Rightarrow> string list \<Rightarrow> string list \<Rightarrow> string list" where
  "clean_parts rooted acc [] = rev acc"
| "clean_parts rooted acc (p # ps) =
    (if p = [] \<or> p = ''.'' then clean_parts rooted acc ps
     else if p \<noteq> ''..'' then clean_parts rooted (p # acc) ps
     else if acc \<noteq> [] \<and> hd acc \<noteq> ''..'' then clean_parts rooted (tl acc) ps
     else clean_parts rooted (if rooted then acc else p # acc) ps)"

definition clean_path :: "string \<Rightarrow> string" where
  "clean_path s = (let rooted = has_prefix ''/'' s; t = join_texts ''/'' (clean_parts rooted [] (split_on CHR ''/'' s)) in
     if rooted then ''/'' @ t else if t = [] then ''.'' else t)"

definition join_path :: "string \<Rightarrow> string \<Rightarrow> string" where
  "join_path a b = (case filter (\<lambda>x. x \<noteq> []) [a, b] of [] \<Rightarrow> [] | xs \<Rightarrow> clean_path (join_texts ''/'' xs))"

definition trim_suffix :: "string \<Rightarrow> string \<Rightarrow> string" where
  "trim_suffix p s = rev (trim_prefix (rev p) (rev s))"

section \<open>Configuration\<close>

record os_world =
  ow_env :: "string \<Rightarrow> string option"
  ow_is_dir :: "string \<Rightarrow> bool"
  ow_url :: "string \<Rightarrow> (string \<times> string) option"  \<comment> \<open>scheme and host\<close>

record places =
  pl_dem_dir :: string
  pl_s3 :: s3_client
  pl_s3_prefix :: string
  pl_canopy_dir :: string
  pl_canopy_prefix :: string
  pl_hf_dir :: string
  pl_hf_prefix :: string

record config =
  cf_mode :: string
  cf_database :: string
  cf_places :: places
  cf_dem_tiles :: int
  cf_sunspot :: string
  cf_listen :: string
  cf_metrics :: string
  cf_log :: int
  cf_registration :: bool
  cf_trust_proxy :: bool
  cf_admin :: string
  cf_workers :: int
  cf_redis :: string
  cf_tile_url :: string
  cf_tile_ttl :: int  \<comment> \<open>nanoseconds\<close>
  cf_tile_misses :: int
  cf_smtp :: mailer
  cf_base :: string

type_synonym 'a cfg = "(config, string, 'a) act"

definition Getenv :: "os_world \<Rightarrow> string \<Rightarrow> string" where
  "Getenv w key = (case ow_env w key of None \<Rightarrow> [] | Some v \<Rightarrow> v)"

definition LookupEnv :: "os_world \<Rightarrow> string \<Rightarrow> string \<Rightarrow> string" where
  "LookupEnv w key dflt = (case ow_env w key of None \<Rightarrow> dflt | Some v \<Rightarrow> v)"

definition envOr :: "os_world \<Rightarrow> string \<Rightarrow> string \<Rightarrow> string" where
  "envOr w key dflt = (let v = Getenv w key in if v \<noteq> [] then v else dflt)"

definition envBool :: "os_world \<Rightarrow> string \<Rightarrow> bool \<Rightarrow> string + bool" where
  "envBool w key dflt = (let v = envOr w key (if dflt then ''true'' else ''false'') in
     if v = ''true'' then Inr True else if v = ''false'' then Inr False else Inl (key @ '' must be true or false''))"

definition lifted :: "'e + 'a \<Rightarrow> ('s, 'e, 'a) act" where
  "lifted x = (case x of Inl e \<Rightarrow> raise e | Inr v \<Rightarrow> ret v)"

definition parsed :: "'a option \<Rightarrow> ('a \<Rightarrow> bool) \<Rightarrow> string \<Rightarrow> 'a cfg" where
  "parsed x ok msg = (case x of None \<Rightarrow> raise msg | Some v \<Rightarrow> if ok v then ret v else raise msg)"

definition minAdminToken :: nat where
  "minAdminToken = 32"

definition no_places :: places where
  "no_places = \<lparr>pl_dem_dir = [], pl_s3 = \<lparr>cl_endpoint = [], cl_bucket = [], cl_region = [], cl_access = [], cl_secret = []\<rparr>,
     pl_s3_prefix = [], pl_canopy_dir = [], pl_canopy_prefix = [], pl_hf_dir = [], pl_hf_prefix = []\<rparr>"

definition initial_config :: "os_world \<Rightarrow> config" where
  "initial_config w = \<lparr>cf_mode = envOr w ''RADIOPATH_MODE'' ''all'', cf_database = Getenv w ''DATABASE_URL'', cf_places = no_places,
     cf_dem_tiles = 0, cf_sunspot = LookupEnv w ''RADIOPATH_SUNSPOT_URL'' ''https://services.swpc.noaa.gov/json/solar-cycle'',
     cf_listen = envOr w ''RADIOPATH_LISTEN'' '':8080'', cf_metrics = LookupEnv w ''RADIOPATH_METRICS_LISTEN'' '':9090'', cf_log = 0,
     cf_registration = False, cf_trust_proxy = False, cf_admin = [], cf_workers = 0, cf_redis = Getenv w ''RADIOPATH_REDIS_URL'',
     cf_tile_url = envOr w ''RADIOPATH_TILE_URL'' ''https://tile.openstreetmap.org/{z}/{x}/{y}.png'', cf_tile_ttl = 0, cf_tile_misses = 0,
     cf_smtp = \<lparr>sm_host = [], sm_port = 0, sm_user = [], sm_password = [], sm_from = [], sm_plain = False\<rparr>, cf_base = []\<rparr>"

text \<open>loadConfig up to the data sets.\<close>

definition load_basics :: "os_world \<Rightarrow> unit cfg" where
  "load_basics w =
     andthen (\<lambda>c. require (cf_mode c \<in> {''all'', ''web'', ''worker''}) ''RADIOPATH_MODE must be all, web or worker'' c) (\<lambda>_.
     andthen (parsed (ParseDuration (envOr w ''RADIOPATH_TILE_TTL'' ''720h0m0s'')) (\<lambda>d. 0 < d) ''RADIOPATH_TILE_TTL must be a positive duration like 720h'') (\<lambda>ttl.
     andthen (change (\<lambda>c. c\<lparr>cf_tile_ttl := ttl\<rparr>)) (\<lambda>_.
     andthen (lifted (envBool w ''RADIOPATH_REGISTRATION'' True)) (\<lambda>reg.
     andthen (change (\<lambda>c. c\<lparr>cf_registration := reg\<rparr>)) (\<lambda>_.
     andthen (lifted (envBool w ''RADIOPATH_TRUST_PROXY'' False)) (\<lambda>trust.
     andthen (change (\<lambda>c. c\<lparr>cf_trust_proxy := trust\<rparr>)) (\<lambda>_.
     andthen (\<lambda>c. require (cf_database c \<noteq> []) ''DATABASE_URL is required'' c) (\<lambda>_.
     andthen (change (\<lambda>c. c\<lparr>cf_admin := Getenv w ''RADIOPATH_ADMIN_TOKEN''\<rparr>)) (\<lambda>_.
     (\<lambda>c. require (cf_admin c = [] \<or> minAdminToken \<le> length (cf_admin c)) ''RADIOPATH_ADMIN_TOKEN must be at least 32 characters'' c))))))))))"

definition replaced :: "(string \<times> string) list" where
  "replaced = [(''RADIOPATH_DEM_DIR'', ''RADIOPATH_DATASET_DIR''), (''RADIOPATH_DEM_S3_ENDPOINT'', ''RADIOPATH_DATASET_S3_ENDPOINT''),
     (''RADIOPATH_DEM_S3_BUCKET'', ''RADIOPATH_DATASET_S3_BUCKET''), (''RADIOPATH_DEM_S3_PREFIX'', ''RADIOPATH_DATASET_DEM''),
     (''RADIOPATH_DEM_S3_REGION'', ''RADIOPATH_DATASET_S3_REGION''), (''RADIOPATH_DEM_S3_ACCESS_KEY'', ''RADIOPATH_DATASET_S3_ACCESS_KEY''),
     (''RADIOPATH_DEM_S3_SECRET_KEY'', ''RADIOPATH_DATASET_S3_SECRET_KEY''), (''RADIOPATH_CANOPY_DIR'', ''RADIOPATH_DATASET_CANOPY''),
     (''RADIOPATH_CANOPY_S3_PREFIX'', ''RADIOPATH_DATASET_CANOPY''), (''RADIOPATH_HF_DIR'', ''RADIOPATH_DATASET_HF'')]"

definition s3_of :: "os_world \<Rightarrow> s3_client" where
  "s3_of w = \<lparr>cl_endpoint = Getenv w ''RADIOPATH_DATASET_S3_ENDPOINT'', cl_bucket = Getenv w ''RADIOPATH_DATASET_S3_BUCKET'',
     cl_region = envOr w ''RADIOPATH_DATASET_S3_REGION'' ''us-east-1'', cl_access = Getenv w ''RADIOPATH_DATASET_S3_ACCESS_KEY'',
     cl_secret = Getenv w ''RADIOPATH_DATASET_S3_SECRET_KEY''\<rparr>"

definition folder :: "os_world \<Rightarrow> string \<Rightarrow> string \<Rightarrow> string" where
  "folder w base name = (if name \<noteq> [] \<and> ow_is_dir w (join_path base name) then join_path base name else [])"

definition dataset_places :: "os_world \<Rightarrow> string + places" where
  "dataset_places w = (let demName = envOr w ''RADIOPATH_DATASET_DEM'' ''srtm1''; canopyName = LookupEnv w ''RADIOPATH_DATASET_CANOPY'' ''canopy1'';
       hfName = LookupEnv w ''RADIOPATH_DATASET_HF'' ''hf1''; s3 = s3_of w; base = Getenv w ''RADIOPATH_DATASET_DIR'';
       slash = (\<lambda>n. if n \<noteq> [] then n @ ''/'' else []) in
     if cl_bucket s3 \<noteq> [] \<and> cl_endpoint s3 = [] then Inl ''RADIOPATH_DATASET_S3_ENDPOINT is required with RADIOPATH_DATASET_S3_BUCKET''
     else if cl_bucket s3 \<noteq> [] \<and> (cl_access s3 = []) \<noteq> (cl_secret s3 = []) then
       Inl ''RADIOPATH_DATASET_S3_ACCESS_KEY and RADIOPATH_DATASET_S3_SECRET_KEY must be set together''
     else if cl_bucket s3 \<noteq> [] then Inr (no_places\<lparr>pl_s3 := s3, pl_s3_prefix := demName @ ''/'', pl_canopy_prefix := slash canopyName, pl_hf_prefix := slash hfName\<rparr>)
     else if base = [] then Inl ''RADIOPATH_DATASET_DIR or RADIOPATH_DATASET_S3_BUCKET is required''
     else Inr (no_places\<lparr>pl_s3 := s3, pl_dem_dir := join_path base demName, pl_canopy_dir := folder w base canopyName, pl_hf_dir := folder w base hfName\<rparr>))"

definition datasets :: "os_world \<Rightarrow> unit cfg" where
  "datasets w c = (case find (\<lambda>r. ow_env w (fst r) \<noteq> None) replaced of
     Some r \<Rightarrow> raise (fst r @ '' is no longer read; use '' @ snd r @ '' (see docs/reference/configuration.md)'') c
   | None \<Rightarrow> if cf_mode c = ''web'' then ret () c
       else case dataset_places w of Inl e \<Rightarrow> raise e c | Inr p \<Rightarrow> ret () (c\<lparr>cf_places := p\<rparr>))"

definition load_numbers :: "os_world \<Rightarrow> unit cfg" where
  "load_numbers w =
     andthen (parsed (ParseInt (envOr w ''RADIOPATH_DEM_CACHE_TILES'' ''8'')) (\<lambda>n. 1 \<le> n) ''RADIOPATH_DEM_CACHE_TILES must be a positive integer'') (\<lambda>n.
     andthen (change (\<lambda>c. c\<lparr>cf_dem_tiles := n\<rparr>)) (\<lambda>_.
     andthen (parsed (ParseInt (envOr w ''RADIOPATH_TILE_MISSES_PER_IP'' ''300'')) (\<lambda>n. 0 \<le> n) ''RADIOPATH_TILE_MISSES_PER_IP must be 0 or a positive integer'') (\<lambda>n.
     andthen (change (\<lambda>c. c\<lparr>cf_tile_misses := n\<rparr>)) (\<lambda>_.
     andthen (parsed (ParseInt (envOr w ''RADIOPATH_WORKERS'' ''1'')) (\<lambda>n. 0 \<le> n) ''RADIOPATH_WORKERS must be 0 or a positive integer'') (\<lambda>n.
     andthen (change (\<lambda>c. c\<lparr>cf_workers := n\<rparr>)) (\<lambda>_.
     andthen (parsed (parse_level (envOr w ''RADIOPATH_LOG_LEVEL'' ''info'')) (\<lambda>_. True) ''RADIOPATH_LOG_LEVEL must be debug, info, warn or error'') (\<lambda>l.
     change (\<lambda>c. c\<lparr>cf_log := l\<rparr>))))))))"

text \<open>The settings a mail server needs beside its name.\<close>

definition smtp_settings :: "os_world \<Rightarrow> mailer \<Rightarrow> string \<Rightarrow> string + mailer" where
  "smtp_settings w m base = (case ParseInt (envOr w ''RADIOPATH_SMTP_PORT'' ''587'') of
     None \<Rightarrow> Inl ''RADIOPATH_SMTP_PORT must be a port number''
   | Some port \<Rightarrow>
       if port < 1 then Inl ''RADIOPATH_SMTP_PORT must be a port number''
       else if sm_from m = [] then Inl ''RADIOPATH_MAIL_FROM is required with RADIOPATH_SMTP_HOST''
       else case envBool w ''RADIOPATH_SMTP_STARTTLS'' True of
           Inl e \<Rightarrow> Inl e
         | Inr starttls \<Rightarrow>
             if base \<noteq> [] \<and> (case ow_url w base of None \<Rightarrow> False | Some (scheme, host) \<Rightarrow> host \<noteq> [] \<and> scheme \<in> {''http'', ''https''})
             then Inr (m\<lparr>sm_port := port, sm_plain := \<not> starttls\<rparr>)
             else Inl ''RADIOPATH_BASE_URL must be an absolute http(s) URL when mail is configured'')"

definition load_mail :: "os_world \<Rightarrow> unit cfg" where
  "load_mail w c = (let m = \<lparr>sm_host = Getenv w ''RADIOPATH_SMTP_HOST'', sm_port = 0, sm_user = Getenv w ''RADIOPATH_SMTP_USER'',
       sm_password = Getenv w ''RADIOPATH_SMTP_PASSWORD'', sm_from = Getenv w ''RADIOPATH_MAIL_FROM'', sm_plain = False\<rparr>;
       base = trim_suffix ''/'' (Getenv w ''RADIOPATH_BASE_URL''); c = c\<lparr>cf_smtp := m, cf_base := base\<rparr> in
     if sm_host m = [] then ret () c
     else case smtp_settings w m base of Inl e \<Rightarrow> raise e c | Inr m \<Rightarrow> ret () (c\<lparr>cf_smtp := m\<rparr>))"

definition loadConfig :: "os_world \<Rightarrow> string + config" where
  "loadConfig w = (case andthen (load_basics w) (\<lambda>_. andthen (datasets w) (\<lambda>_. andthen (load_numbers w) (\<lambda>_. andthen (load_mail w) (\<lambda>_ c.
       require (\<not> (cf_registration c \<and> sm_host (cf_smtp c) = []))
         ''RADIOPATH_REGISTRATION needs RADIOPATH_SMTP_HOST: new accounts confirm their address by mail'' c)))) (initial_config w) of
     (Inl e, _) \<Rightarrow> Inl e | (Inr _, c) \<Rightarrow> Inr c)"

section \<open>What a process serves and starts\<close>

definition serves_web :: "config \<Rightarrow> bool" where "serves_web c \<longleftrightarrow> cf_mode c \<noteq> ''worker''"
definition computes :: "config \<Rightarrow> bool" where "computes c \<longleftrightarrow> cf_mode c \<noteq> ''web''"

text \<open>The fields of web.Server that run fills in.\<close>

definition served :: "config \<Rightarrow> server \<Rightarrow> server" where
  "served c sv = sv\<lparr>sv_registration := cf_registration c, sv_trust_proxy := cf_trust_proxy c, sv_base := cf_base c,
     sv_mail := serves_web c \<and> sm_host (cf_smtp c) \<noteq> []\<rparr>"

text \<open>The proxy of tiles; its time to live in microseconds. \<open>connect\<close> is tiles.NewRedisCache.\<close>

definition proxy_of :: "(string \<Rightarrow> string + 's cache_ops) \<Rightarrow> config \<Rightarrow> string + 's proxy" where
  "proxy_of connect c = (let p = \<lparr>px_upstream = cf_tile_url c, px_cache = None, px_ttl = cf_tile_ttl c div 1000, px_misses = cf_tile_misses c\<rparr> in
     if cf_redis c = [] then Inr p else case connect (cf_redis c) of Inl e \<Rightarrow> Inl e | Inr ops \<Rightarrow> Inr (p\<lparr>px_cache := Some ops\<rparr>))"

datatype tile_source = InBucket s3_client string | InFolder string

definition terrain_of :: "config \<Rightarrow> tile_source" where
  "terrain_of c = (let p = cf_places c in if cl_bucket (pl_s3 p) \<noteq> [] then InBucket (pl_s3 p) (pl_s3_prefix p) else InFolder (pl_dem_dir p))"

definition canopy_of :: "(string \<Rightarrow> bool) \<Rightarrow> config \<Rightarrow> string + tile_source option" where
  "canopy_of readable c = (let p = cf_places c in
     if cl_bucket (pl_s3 p) \<noteq> [] \<and> pl_canopy_prefix p \<noteq> [] then Inr (Some (InBucket (pl_s3 p) (pl_canopy_prefix p)))
     else if pl_canopy_dir p \<noteq> [] then (if readable (pl_canopy_dir p) then Inr (Some (InFolder (pl_canopy_dir p))) else Inl ''canopy dir'')
     else Inr None)"

text \<open>openHF: the directory the data are read from, or why the model is off; and the directory to remove at the end. The
  download hf.Fetch and the check of the files are arguments.\<close>

datatype hf_state = HfOff | HfBroken | HfFrom string

definition openHF :: "string option \<Rightarrow> (string \<Rightarrow> string \<Rightarrow> object_error option) \<Rightarrow> (string \<Rightarrow> bool) \<Rightarrow> config \<Rightarrow> hf_state \<times> string option" where
  "openHF tmp fetch usable c = (let p = cf_places c; opened = (\<lambda>dir. if dir = [] then HfOff else if usable dir then HfFrom dir else HfBroken) in
     if cl_bucket (pl_s3 p) \<noteq> [] \<and> pl_hf_prefix p \<noteq> [] then
       (case tmp of
          None \<Rightarrow> (HfBroken, None)
        | Some d \<Rightarrow> (case fetch d (pl_hf_prefix p) of
            Some (NotFound _) \<Rightarrow> (HfOff, Some d)
          | Some _ \<Rightarrow> (HfBroken, Some d)
          | None \<Rightarrow> (opened d, Some d)))
     else (opened (pl_hf_dir p), None))"

text \<open>The loops of a process, workers by name.\<close>

datatype loop = Janitor | SunspotRun | ListenTo string | CoverageWorker string | ShortWorker string

definition started :: "config \<Rightarrow> string \<Rightarrow> nat \<Rightarrow> loop list" where
  "started c host cpus = [Janitor] @ (if serves_web c \<and> cf_sunspot c \<noteq> [] then [SunspotRun] else [])
     @ (if serves_web c then [ListenTo ''job_done''] else [])
     @ (if computes c then ListenTo ''job_queued'' # map (\<lambda>i. CoverageWorker (host @ ''/'' @ nat_text i)) [0..<nat (cf_workers c)]
          @ (if 0 < cf_workers c then map (\<lambda>i. ShortWorker (host @ ''/short/'' @ nat_text i)) [0..<cpus] else []) else [])"

text \<open>Which workers a notification of job_queued wakes.\<close>

definition wakes :: "string \<Rightarrow> loop \<Rightarrow> bool" where
  "wakes kind l = (case l of CoverageWorker _ \<Rightarrow> kind = KindCoverage | ShortWorker _ \<Rightarrow> kind \<noteq> KindCoverage | _ \<Rightarrow> False)"

section \<open>The janitor\<close>

definition unconfirmedMaxAge :: time where "unconfirmedMaxAge = days 7"
definition expiredTokenKeep :: time where "expiredTokenKeep = days 30"
definition finishedJobKeep :: time where "finishedJobKeep = hours 1"

definition ignoring :: "'a store_op \<Rightarrow> unit store_op" where
  "ignoring m = attempt m (\<lambda>_. ret ())"

definition janitor_round :: "unit store_op" where
  "janitor_round = andthen (ignoring DeleteExpiredSessions) (\<lambda>_. andthen (ignoring DeleteOldRateLimits) (\<lambda>_.
     andthen (ignoring (DeleteFinishedJobs finishedJobKeep)) (\<lambda>_. andthen (ignoring DeleteExpiredEmailTokens) (\<lambda>_.
     andthen (ignoring (DeleteExpiredTokens expiredTokenKeep)) (\<lambda>_. ignoring (DeleteUnconfirmedUsers unconfirmedMaxAge))))))"

section \<open>Commands for users\<close>

text \<open>What stands on standard input: a pipe, or a terminal with the two passwords typed, None for a read that fails.\<close>

datatype stdin = Piped string | Typed "string option" "string option"

definition readPassword :: "stdin \<Rightarrow> string + string" where
  "readPassword i = (case i of
     Piped s \<Rightarrow> if s = [] then Inl ''reading password from stdin''
       else Inr (let line = takeWhile (\<lambda>c. c \<noteq> CHR 10) s in rev (dropWhile (\<lambda>c. c = CHR 10 \<or> c = CHR 13) (rev line)))
   | Typed a b \<Rightarrow> (case a of None \<Rightarrow> Inl ''read'' | Some p \<Rightarrow> (case b of None \<Rightarrow> Inl ''read'' | Some q \<Rightarrow>
       if p = q then Inr p else Inl ''passwords do not match'')))"

datatype printed = Usage | Line string | Problems "string list" | Users "user_view list" | StoreFailed store_error

text \<open>The exit code and what is printed; \<open>ready\<close> tells whether the database opened and migrated.\<close>

definition userCommand :: "server \<Rightarrow> (string \<Rightarrow> string) \<Rightarrow> os_world \<Rightarrow> bool \<Rightarrow> stdin \<Rightarrow> string list \<Rightarrow> (store, store_error, nat \<times> printed) act" where
  "userCommand sv coll w ready input args =
     (if Getenv w ''DATABASE_URL'' = [] then ret (2, Line ''DATABASE_URL is required'')
      else if \<not> ready then ret (1, Line ''database'')
      else case args of
        [cmd, raw] \<Rightarrow> (let name = lower raw in
          if cmd = ''useradd'' then (case readPassword input of
              Inl e \<Rightarrow> ret (1, Line e)
            | Inr pw \<Rightarrow> (let errs = ValidateCredentials name pw in
                if errs \<noteq> [] then ret (1, Problems errs)
                else case sv_hash sv pw of
                    None \<Rightarrow> ret (1, Line ''hash'')
                  | Some h \<Rightarrow> attempt (UpsertUser name h) (\<lambda>r. case r of
                        Inl e \<Rightarrow> ret (1, StoreFailed e) | Inr _ \<Rightarrow> ret (0, Line (''user '' @ name @ '' saved'')))))
          else if cmd = ''userdel'' then attempt (DeleteUser name) (\<lambda>r. case r of
              Inl e \<Rightarrow> ret (1, StoreFailed e) | Inr _ \<Rightarrow> ret (0, Line (''user '' @ name @ '' deleted'')))
          else ret (2, Usage))
      | [cmd] \<Rightarrow> if cmd = ''users'' then attempt (ListUsers coll) (\<lambda>r. case r of
              Inl e \<Rightarrow> ret (1, StoreFailed e) | Inr us \<Rightarrow> ret (0, Users us))
          else ret (2, Usage)
      | _ \<Rightarrow> ret (2, Usage))"

end
