(* ===== verification/Startup_Claims.thy ===== *)
theory Startup_Claims
  imports Startup Web_Claims
begin

text \<open>
  Properties of the command: what an accepted configuration guarantees, that the janitor spares what is in use, what the commands
  for users do.
\<close>

section \<open>Configuration\<close>

lemma change_run [simp]: "change f s = (Inr (), f s)"
  by (simp add: change_def)

lemma require_Inr [simp]: "require b e s = (Inr x, t) \<longleftrightarrow> b \<and> t = s"
  by (auto simp: require_def)

lemma parsed_Inr [simp]: "parsed x ok msg s = (Inr v, t) \<longleftrightarrow> x = Some v \<and> ok v \<and> t = s"
  by (auto simp: parsed_def split: option.splits)

lemma lifted_Inr [simp]: "lifted x s = (Inr v, t) \<longleftrightarrow> x = Inr v \<and> t = s"
  by (auto simp: lifted_def split: sum.splits)

lemma smtp_settings_Inr:
  assumes "smtp_settings w m base = Inr m'"
  shows "1 \<le> sm_port m' \<and> sm_host m' = sm_host m \<and> sm_from m' = sm_from m \<and> sm_from m \<noteq> []
    \<and> (sm_plain m' \<longleftrightarrow> ow_env w ''RADIOPATH_SMTP_STARTTLS'' = Some ''false'')
    \<and> (\<exists>scheme host. ow_url w base = Some (scheme, host) \<and> host \<noteq> [] \<and> scheme \<in> {''http'', ''https''})"
proof -
  have tls: "envBool w ''RADIOPATH_SMTP_STARTTLS'' True = Inr b \<Longrightarrow> b \<longleftrightarrow> ow_env w ''RADIOPATH_SMTP_STARTTLS'' \<noteq> Some ''false''" for b
    by (auto simp: envBool_def envOr_def Getenv_def Let_def split: if_splits option.splits)
  show ?thesis using assms tls unfolding smtp_settings_def by (auto split: option.splits if_splits sum.splits)
qed

text \<open>The fields the later steps leave alone.\<close>

definition core :: "config \<Rightarrow> string \<times> string \<times> bool \<times> string \<times> int" where
  "core c = (cf_mode c, cf_database c, cf_registration c, cf_admin c, cf_tile_ttl c)"

lemma load_basics_Inr:
  assumes "load_basics w c = (Inr x, c')"
  shows "cf_mode c' \<in> {''all'', ''web'', ''worker''} \<and> cf_database c' \<noteq> [] \<and> 0 < cf_tile_ttl c' \<and> (cf_admin c' = [] \<or> 32 \<le> length (cf_admin c'))
    \<and> cf_places c' = cf_places c"
  using assms unfolding load_basics_def minAdminToken_def by (auto elim!: andthen_InrE)

lemma datasets_Inr:
  assumes "datasets w c = (Inr x, c')"
  shows "(\<forall>r \<in> set replaced. ow_env w (fst r) = None) \<and> (cf_mode c = ''web'' \<and> c' = c
    \<or> cf_mode c \<noteq> ''web'' \<and> (\<exists>p. dataset_places w = Inr p \<and> c' = c\<lparr>cf_places := p\<rparr>))"
  using assms by (auto simp: datasets_def find_None_iff find_Some_iff split: option.splits if_splits sum.splits)

lemma places_Inr:
  assumes "dataset_places w = Inr p"
  shows "(if cl_bucket (pl_s3 p) = [] then pl_dem_dir p \<noteq> [] \<and> pl_s3_prefix p = []
      else cl_endpoint (pl_s3 p) \<noteq> [] \<and> (cl_access (pl_s3 p) = [] \<longleftrightarrow> cl_secret (pl_s3 p) = []) \<and> pl_s3_prefix p \<noteq> [] \<and> pl_dem_dir p = [])"
proof -
  have "join_path b n \<noteq> []" if "b \<noteq> []" for b n :: string
    using that by (auto simp: join_path_def clean_path_def Let_def)
  then show ?thesis using assms by (auto simp: dataset_places_def no_places_def Let_def split: if_splits)
qed

lemma load_numbers_Inr:
  assumes "load_numbers w c = (Inr x, c')"
  shows "core c' = core c \<and> cf_places c' = cf_places c \<and> 1 \<le> cf_dem_tiles c' \<and> 0 \<le> cf_tile_misses c' \<and> 0 \<le> cf_workers c'"
  using assms unfolding load_numbers_def by (auto elim!: andthen_InrE simp: core_def)

lemma load_mail_Inr:
  assumes "load_mail w c = (Inr x, c')"
  shows "core c' = core c \<and> cf_places c' = cf_places c \<and> cf_dem_tiles c' = cf_dem_tiles c \<and> cf_tile_misses c' = cf_tile_misses c \<and> cf_workers c' = cf_workers c \<and>
    (sm_host (cf_smtp c') \<noteq> [] \<longrightarrow> 1 \<le> sm_port (cf_smtp c') \<and> sm_from (cf_smtp c') \<noteq> []
      \<and> (sm_plain (cf_smtp c') \<longleftrightarrow> ow_env w ''RADIOPATH_SMTP_STARTTLS'' = Some ''false'')
      \<and> (\<exists>scheme host. ow_url w (cf_base c') = Some (scheme, host) \<and> host \<noteq> [] \<and> scheme \<in> {''http'', ''https''}))"
  using assms by (auto simp: load_mail_def core_def Let_def split: if_splits sum.splits dest!: smtp_settings_Inr)

text \<open>C35: A process only starts with a configuration that is complete: registration needs a mail server, a mail server a port, a
  sender and a public address, and its connection is in the clear only where the setting says false; an admin token is empty or
  has 32 characters; limits and durations have their sign; no variable of earlier releases is set; and a process that computes
  has exactly one root of its data, a directory or a bucket with its endpoint and both keys or none.\<close>

theorem config_sound:
  assumes "loadConfig w = Inr c"
  shows "(cf_registration c \<longrightarrow> sm_host (cf_smtp c) \<noteq> []) \<and>
    (sm_host (cf_smtp c) \<noteq> [] \<longrightarrow> 1 \<le> sm_port (cf_smtp c) \<and> sm_from (cf_smtp c) \<noteq> []
      \<and> (sm_plain (cf_smtp c) \<longleftrightarrow> ow_env w ''RADIOPATH_SMTP_STARTTLS'' = Some ''false'')
      \<and> (\<exists>scheme host. ow_url w (cf_base c) = Some (scheme, host) \<and> host \<noteq> [] \<and> scheme \<in> {''http'', ''https''})) \<and>
    (cf_admin c = [] \<or> 32 \<le> length (cf_admin c)) \<and> cf_database c \<noteq> [] \<and> cf_mode c \<in> {''all'', ''web'', ''worker''} \<and>
    0 < cf_tile_ttl c \<and> 1 \<le> cf_dem_tiles c \<and> 0 \<le> cf_tile_misses c \<and> 0 \<le> cf_workers c \<and>
    (\<forall>r \<in> set replaced. ow_env w (fst r) = None) \<and>
    (computes c \<longrightarrow> (case terrain_of c of
        InFolder dir \<Rightarrow> dir \<noteq> []
      | InBucket cl pre \<Rightarrow> cl_bucket cl \<noteq> [] \<and> cl_endpoint cl \<noteq> [] \<and> (cl_access cl = [] \<longleftrightarrow> cl_secret cl = []) \<and> pre \<noteq> []))"
proof -
  let ?last = "\<lambda>c. require (\<not> (cf_registration c \<and> sm_host (cf_smtp c) = []))
         ''RADIOPATH_REGISTRATION needs RADIOPATH_SMTP_HOST: new accounts confirm their address by mail'' c"
  obtain x where "andthen (load_basics w) (\<lambda>_. andthen (datasets w) (\<lambda>_. andthen (load_numbers w) (\<lambda>_. andthen (load_mail w) (\<lambda>_. ?last)))) (initial_config w) = (Inr x, c)"
    using assms unfolding loadConfig_def by (auto split: prod.splits sum.splits)
  then obtain c1 c2 c3 where b: "load_basics w (initial_config w) = (Inr (), c1)" and d: "datasets w c1 = (Inr (), c2)"
    and n: "load_numbers w c2 = (Inr (), c3)" and m: "load_mail w c3 = (Inr (), c)" and l: "cf_registration c \<longrightarrow> sm_host (cf_smtp c) \<noteq> []"
    by (auto elim!: andthen_InrE)
  note dd = datasets_Inr [OF d]
  have same: "core c3 = core c1" "cf_mode c = cf_mode c1" "cf_places c = cf_places c2"
    using dd load_numbers_Inr [OF n] load_mail_Inr [OF m] by (auto simp: core_def)
  have "case terrain_of c of InFolder dir \<Rightarrow> dir \<noteq> []
      | InBucket cl pre \<Rightarrow> cl_bucket cl \<noteq> [] \<and> cl_endpoint cl \<noteq> [] \<and> (cl_access cl = [] \<longleftrightarrow> cl_secret cl = []) \<and> pre \<noteq> []" if comp: "computes c"
  proof -
    obtain p where p: "dataset_places w = Inr p" "cf_places c2 = p" using dd comp same(2) by (auto simp: computes_def)
    then show ?thesis using places_Inr [OF p(1)] same(3) by (auto simp: terrain_of_def Let_def split: if_splits)
  qed
  then show ?thesis using load_basics_Inr [OF b] dd load_numbers_Inr [OF n] load_mail_Inr [OF m] l same by (simp add: core_def)
qed

text \<open>A machine with its data in a directory and no accounts of its own.\<close>

definition demo_world :: os_world where
  "demo_world = \<lparr>ow_env = [''DATABASE_URL'' \<mapsto> ''postgres://db'', ''RADIOPATH_DATASET_DIR'' \<mapsto> ''/data'', ''RADIOPATH_REGISTRATION'' \<mapsto> ''false''],
     ow_is_dir = (\<lambda>d. d = ''/data/hf1''), ow_url = (\<lambda>_. None)\<rparr>"

lemma demo_numbers: "ParseDuration ''720h0m0s'' = Some 2592000000000000" "ParseInt ''8'' = Some 8" "ParseInt ''300'' = Some 300" "ParseInt ''1'' = Some 1"
    "parse_level ''info'' = Some 0" "ParseDuration ''1h30m'' = Some 5400000000000" "ParseDuration ''1.5s'' = Some 1500000000" "ParseDuration ''12'' = None"
  by code_simp+

lemma demo_paths: "join_path ''/data'' ''srtm1'' = ''/data/srtm1''" "join_path ''/data'' ''canopy1'' = ''/data/canopy1''" "join_path ''/data'' ''hf1'' = ''/data/hf1''"
    "join_path ''data/'' ''../x'' = ''x''"
  by code_simp+

lemma demo_basics:
  "load_basics demo_world (initial_config demo_world) =
     (Inr (), (initial_config demo_world)\<lparr>cf_tile_ttl := 2592000000000000, cf_registration := False, cf_trust_proxy := False, cf_admin := []\<rparr>)"
  by (simp add: load_basics_def andthen_def parsed_def lifted_def envBool_def envOr_def Getenv_def demo_numbers initial_config_def demo_world_def require_def)

lemma demo_places: "dataset_places demo_world = Inr (no_places\<lparr>pl_s3 := s3_of demo_world, pl_dem_dir := ''/data/srtm1'', pl_hf_dir := ''/data/hf1''\<rparr>)"
  by (simp add: dataset_places_def s3_of_def folder_def envOr_def Getenv_def LookupEnv_def demo_paths demo_world_def no_places_def)

lemma demo_load_numbers: "load_numbers demo_world c = (Inr (), c\<lparr>cf_dem_tiles := 8, cf_tile_misses := 300, cf_workers := 1, cf_log := 0\<rparr>)"
  by (simp add: load_numbers_def andthen_def parsed_def envOr_def Getenv_def demo_numbers demo_world_def)

lemma demo_config: "\<exists>c. loadConfig demo_world = Inr c \<and> terrain_of c = InFolder ''/data/srtm1'' \<and> sm_host (cf_smtp c) = [] \<and> computes c"
proof -
  have "find (\<lambda>r. ow_env demo_world (fst r) \<noteq> None) replaced = None" by (simp add: replaced_def demo_world_def)
  then have d: "datasets demo_world c = (if cf_mode c = ''web'' then (Inr (), c)
      else (Inr (), c\<lparr>cf_places := no_places\<lparr>pl_s3 := s3_of demo_world, pl_dem_dir := ''/data/srtm1'', pl_hf_dir := ''/data/hf1''\<rparr>\<rparr>))" for c
    by (simp add: datasets_def demo_places)
  have s: "cl_bucket (s3_of demo_world) = []" by (simp add: s3_of_def Getenv_def demo_world_def)
  have m: "load_mail demo_world c = (Inr (), c\<lparr>cf_smtp := \<lparr>sm_host = [], sm_port = 0, sm_user = [], sm_password = [], sm_from = [], sm_plain = False\<rparr>, cf_base := []\<rparr>)" for c
    by (simp add: load_mail_def Getenv_def demo_world_def trim_suffix_def trim_prefix_def)
  have i: "cf_mode (initial_config demo_world) = ''all''" by (simp add: initial_config_def envOr_def Getenv_def demo_world_def)
  show ?thesis
    by (simp add: loadConfig_def andthen_def demo_basics d i demo_load_numbers m require_def terrain_of_def s Let_def no_places_def computes_def)
qed

theorem config_sound_witness:
  "\<exists>c. loadConfig demo_world = Inr c \<and> computes c \<and> terrain_of c = InFolder ''/data/srtm1'' \<and> \<not> cf_registration c \<and> 1 \<le> cf_dem_tiles c"
proof -
  obtain c where c: "loadConfig demo_world = Inr c" "terrain_of c = InFolder ''/data/srtm1''" "sm_host (cf_smtp c) = []" "computes c"
    using demo_config by blast
  then show ?thesis using config_sound [OF c(1)] by blast
qed

section \<open>Loops\<close>

text \<open>No two workers of a process share a name, and a job of either class wakes a worker whenever the process computes
  anything.\<close>

definition worker_name :: "loop \<Rightarrow> string option" where
  "worker_name l = (case l of CoverageWorker n \<Rightarrow> Some n | ShortWorker n \<Rightarrow> Some n | _ \<Rightarrow> None)"

lemma workers_distinct:
  "distinct (started c host cpus)"
  "l \<in> set (started c host cpus) \<Longrightarrow> l' \<in> set (started c host cpus) \<Longrightarrow> worker_name l = Some n \<Longrightarrow> worker_name l' = Some n \<Longrightarrow> l = l'"
proof -
  have i: "nat_text i = nat_text j \<longleftrightarrow> i = j" for i j using nat_text_inj by blast
  then show "distinct (started c host cpus)" by (auto simp: started_def distinct_map inj_on_def)
  have "nat_text i \<noteq> CHR ''s'' # t" for i t
  proof
    assume "nat_text i = CHR ''s'' # t"
    then have "CHR ''s'' \<in> set (int_text (int i))" by (simp add: int_text_def)
    then show False using int_text_chars [of "CHR ''s''" "int i"] by simp
  qed
  then show "l = l'" if "l \<in> set (started c host cpus)" "l' \<in> set (started c host cpus)" "worker_name l = Some n" "worker_name l' = Some n"
    using that by (auto simp: started_def worker_name_def i split: if_splits) metis+
qed

lemma workers_wake:
  assumes "computes c" "0 < cf_workers c" "0 < cpus"
  shows "\<exists>l \<in> set (started c host cpus). wakes kind l"
proof (cases "kind = KindCoverage")
  case True
  then show ?thesis using assms by (intro bexI [of _ "CoverageWorker (host @ ''/'' @ nat_text 0)"]) (auto simp: started_def wakes_def)
next
  case False
  then show ?thesis using assms by (intro bexI [of _ "ShortWorker (host @ ''/short/'' @ nat_text 0)"]) (auto simp: started_def wakes_def)
qed

section \<open>What the janitor spares\<close>

text \<open>The rows of the users in K that are still in use at a time, and everything else they keep.\<close>

definition spared :: "int set \<Rightarrow> time \<Rightarrow> db \<Rightarrow> db \<Rightarrow> bool" where
  "spared K now d d' \<longleftrightarrow> (\<forall>u \<in> set (users d). u_id u \<in> K \<longrightarrow> u \<in> set (users d'))
     \<and> (\<forall>s \<in> set (sessions d). ss_user s \<in> K \<and> now < ss_expires s \<longrightarrow> s \<in> set (sessions d'))
     \<and> (\<forall>t \<in> set (email_tokens d). et_user t \<in> K \<and> now < et_expires t \<longrightarrow> t \<in> set (email_tokens d'))
     \<and> (\<forall>t \<in> set (api_tokens d). at_user t \<in> K \<and> (\<forall>e. at_expires t = Some e \<longrightarrow> now - days 30 < e) \<longrightarrow> t \<in> set (api_tokens d'))
     \<and> (\<forall>x \<in> set (sites d). site_owner x \<in> K \<longrightarrow> x \<in> set (sites d'))
     \<and> (\<forall>x \<in> set (antennas d). ant_owner x \<in> K \<longrightarrow> x \<in> set (antennas d'))
     \<and> (\<forall>x \<in> set (links d). ln_owner x \<in> K \<longrightarrow> x \<in> set (links d'))
     \<and> (\<forall>x \<in> set (coverages d). cv_owner x \<in> K \<longrightarrow> x \<in> set (coverages d'))
     \<and> (\<forall>j \<in> set (jobs d). j_owner j \<in> K \<and> (j_state j = JobQueued \<or> j_state j = JobRunning)
          \<and> (\<forall>c. j_coverage j = Some c \<longrightarrow> (\<exists>v \<in> set (coverages d). cv_id v = c \<and> cv_owner v \<in> K)) \<longrightarrow> j \<in> set (jobs d'))"

lemma spared_rows:
  "spared K now d d' \<Longrightarrow> u \<in> set (users d) \<Longrightarrow> u_id u \<in> K \<Longrightarrow> u \<in> set (users d')"
  "spared K now d d' \<Longrightarrow> x \<in> set (sessions d) \<Longrightarrow> ss_user x \<in> K \<Longrightarrow> now < ss_expires x \<Longrightarrow> x \<in> set (sessions d')"
  by (simp_all add: spared_def)

text \<open>What the first five statements leave: everything but rows that are out of use.\<close>

definition swept :: "time \<Rightarrow> db \<Rightarrow> db \<Rightarrow> bool" where
  "swept now d d' \<longleftrightarrow> users d' = users d \<and> sites d' = sites d \<and> antennas d' = antennas d \<and> links d' = links d \<and> coverages d' = coverages d
     \<and> (\<forall>s \<in> set (sessions d). now < ss_expires s \<longrightarrow> s \<in> set (sessions d'))
     \<and> (\<forall>t \<in> set (email_tokens d). now < et_expires t \<longrightarrow> t \<in> set (email_tokens d'))
     \<and> (\<forall>t \<in> set (api_tokens d). (\<forall>e. at_expires t = Some e \<longrightarrow> now - days 30 < e) \<longrightarrow> t \<in> set (api_tokens d'))
     \<and> (\<forall>j \<in> set (jobs d). j_state j = JobQueued \<or> j_state j = JobRunning \<longrightarrow> j \<in> set (jobs d'))"

lemma keeps_ignoring [keeps_intros]: "keeps P m \<Longrightarrow> keeps P (ignoring m)"
  unfolding ignoring_def by (intro keeps_intros)

lemma keeps_timed_exec:
  assumes "\<And>d. P now d \<Longrightarrow> P now (snd (q now d))"
  shows "keeps (\<lambda>s. clock s = now \<and> P now (tabs s)) (exec q)"
proof (rule keepsI)
  fix s :: store
  assume "clock s = now \<and> P now (tabs s)"
  then show "clock (snd (exec q s)) = now \<and> P now (tabs (snd (exec q s)))"
    using assms [of "tabs s"] exec_tabs [of q s] exec_clock [of q s] by auto
qed

lemma sweep:
  "keeps (\<lambda>s. clock s = now \<and> swept now d (tabs s)) DeleteExpiredSessions"
  "keeps (\<lambda>s. clock s = now \<and> swept now d (tabs s)) DeleteOldRateLimits"
  "keeps (\<lambda>s. clock s = now \<and> swept now d (tabs s)) (DeleteFinishedJobs a)"
  "keeps (\<lambda>s. clock s = now \<and> swept now d (tabs s)) DeleteExpiredEmailTokens"
  "keeps (\<lambda>s. clock s = now \<and> swept now d (tabs s)) (DeleteExpiredTokens expiredTokenKeep)"
  unfolding DeleteExpiredSessions_def delete_sessions_def DeleteOldRateLimits_def DeleteFinishedJobs_def DeleteExpiredEmailTokens_def
    DeleteExpiredTokens_def expiredTokenKeep_def
  by (rule keeps_timed_exec [where P = "\<lambda>now. swept now d"], force simp: swept_def Let_def split: option.splits)+

lemma own_antenna_stays:
  assumes "distinct (map ant_id (antennas d))" "owns_antenna (antennas d) owner x" "owner \<notin> ids"
  shows "forget_antennas (antennas_of ids d) x = x"
proof (cases x)
  case (Some i)
  then obtain t where t: "t \<in> set (antennas d)" "ant_id t = i" "ant_owner t = owner" using assms(2) by (auto simp: owns_antenna_def)
  have "\<not> antennas_of ids d i"
  proof
    assume "antennas_of ids d i"
    then obtain t' where "t' \<in> set (antennas d)" "ant_id t' = i" "ant_owner t' \<in> ids" by (auto simp: antennas_of_def list_ex_iff)
    then show False using key_unique [OF assms(1), of t t'] t assms(3) by auto
  qed
  then show ?thesis using Some by (simp add: forget_antennas_def)
qed (simp add: forget_antennas_def)

lemma drop_spares:
  assumes ok: "db_ok d" and sw: "swept now d d'" and ids: "ids \<inter> K = {}"
  shows "spared K now d (drop_users ids d')"
proof -
  have out: "i \<in> K \<Longrightarrow> i \<notin> ids" for i using ids by blast
  have same: "antennas_of ids d' = antennas_of ids d" "coverages_of ids d' = coverages_of ids d"
    using sw by (simp_all add: swept_def antennas_of_def coverages_of_def fun_eq_iff)
  have da: "distinct (map ant_id (antennas d))" and dc: "distinct (map cv_id (coverages d))"
    using db_ok_parts(7,9) [OF ok] by (simp_all add: antennas_ok_def coverages_ok_def)
  have l: "unset_link_antennas (antennas_of ids d) x = x" if "x \<in> set (links d)" "ln_owner x \<in> K" for x
    using that db_ok_parts(8) [OF ok] own_antenna_stays [OF da _ out [OF that(2)], of "ln_tx_ant x"] own_antenna_stays [OF da _ out [OF that(2)], of "ln_rx_ant x"]
    by (simp add: unset_link_antennas_def links_ok_def)
  have v: "unset_coverage_antenna (antennas_of ids d) x = x" if "x \<in> set (coverages d)" "cv_owner x \<in> K" for x
    using that db_ok_parts(9) [OF ok] own_antenna_stays [OF da _ out [OF that(2)], of "cv_tx_ant x"]
    by (simp add: unset_coverage_antenna_def coverages_ok_def)
  have c: "\<not> coverages_of ids d (cv_id x)" if "x \<in> set (coverages d)" "cv_owner x \<in> K" for x
  proof
    assume "coverages_of ids d (cv_id x)"
    then obtain y where y: "y \<in> set (coverages d)" "cv_id y = cv_id x" "cv_owner y \<in> ids" by (auto simp: coverages_of_def list_ex_iff)
    then have "x = y" using key_unique [OF dc that(1) y(1)] by simp
    then show False using out [OF that(2)] y(3) by simp
  qed
  have "x \<in> set (links (drop_users ids d'))" if "x \<in> set (links d)" "ln_owner x \<in> K" for x
    using that sw out l [OF that] by (auto simp: drop_users_def swept_def same intro!: image_eqI [of _ _ x])
  moreover have "x \<in> set (coverages (drop_users ids d'))" if "x \<in> set (coverages d)" "cv_owner x \<in> K" for x
    using that sw out v [OF that] by (auto simp: drop_users_def swept_def same intro!: image_eqI [of _ _ x])
  moreover have "j \<in> set (jobs (drop_users ids d'))"
    if "j \<in> set (jobs d)" "j_owner j \<in> K" "j_state j = JobQueued \<or> j_state j = JobRunning"
      "\<forall>c. j_coverage j = Some c \<longrightarrow> (\<exists>v \<in> set (coverages d). cv_id v = c \<and> cv_owner v \<in> K)" for j
    using that sw out c by (auto simp: drop_users_def swept_def same split: option.splits)
  ultimately show ?thesis using sw out by (auto simp: spared_def drop_users_def swept_def)
qed

lemma andthen_after: "m s = (q, u) \<Longrightarrow> andthen m f s = (case q of Inl e \<Rightarrow> (Inl e, u) | Inr x \<Rightarrow> f x u)"
  by (simp add: andthen_def)

lemma ignoring_reliable:
  "wire_script s = [] \<Longrightarrow> ignoring (exec q) s = (Inr (), s\<lparr>tabs := snd (q (clock s) (tabs s))\<rparr>)"
  by (simp add: ignoring_def attempt_def exec_reliable split: prod.splits)

lemma janitor_cleans:
  assumes "wire_script s = []" "janitor_round s = (r, t)"
  shows "(\<forall>x \<in> set (sessions (tabs t)). clock s < ss_expires x) \<and> (\<forall>x \<in> set (email_tokens (tabs t)). clock s < et_expires x)
    \<and> (\<forall>x \<in> set (api_tokens (tabs t)). \<forall>e. at_expires x = Some e \<longrightarrow> clock s - days 30 < e)"
proof -
  let ?d1 = "(tabs s)\<lparr>sessions := delete_where (\<lambda>x. ss_expires x \<le> clock s) (sessions (tabs s))\<rparr>"
  let ?d2 = "?d1\<lparr>rate_limits := delete_where (\<lambda>x. rl_start x < clock s - days 1) (rate_limits (tabs s))\<rparr>"
  define d3 where "d3 = snd ((\<lambda>now d. let old = (\<lambda>j. j_kind j \<noteq> KindCoverage \<and> (j_state j = JobDone \<or> j_state j = JobFailed)
                  \<and> (case j_finished_at j of None \<Rightarrow> False | Some f \<Rightarrow> f < now - finishedJobKeep))
     in (Inr (count_where old (jobs d)) :: store_error + nat, d\<lparr>jobs := delete_where old (jobs d)\<rparr>)) (clock s) ?d2)"
  have d3: "sessions d3 = sessions ?d1" "email_tokens d3 = email_tokens (tabs s)" "api_tokens d3 = api_tokens (tabs s)"
    by (simp_all add: d3_def Let_def)
  define d4 where "d4 = d3\<lparr>email_tokens := delete_where (\<lambda>x. et_expires x \<le> clock s) (email_tokens d3)\<rparr>"
  define d5 where "d5 = d4\<lparr>api_tokens := delete_where (\<lambda>x. case at_expires x of None \<Rightarrow> False | Some e \<Rightarrow> e \<le> clock s - expiredTokenKeep) (api_tokens d4)\<rparr>"
  have "ignoring DeleteExpiredSessions s = (Inr (), s\<lparr>tabs := ?d1\<rparr>)" using assms(1)
    by (simp add: DeleteExpiredSessions_def delete_sessions_def ignoring_reliable)
  moreover have "ignoring DeleteOldRateLimits (s\<lparr>tabs := ?d1\<rparr>) = (Inr (), s\<lparr>tabs := ?d2\<rparr>)" using assms(1)
    by (simp add: DeleteOldRateLimits_def ignoring_reliable)
  moreover have "ignoring (DeleteFinishedJobs finishedJobKeep) (s\<lparr>tabs := ?d2\<rparr>) = (Inr (), s\<lparr>tabs := d3\<rparr>)" using assms(1)
    unfolding DeleteFinishedJobs_def d3_def by (simp add: ignoring_reliable Let_def cong: option.case_cong)
  moreover have "ignoring DeleteExpiredEmailTokens (s\<lparr>tabs := d3\<rparr>) = (Inr (), s\<lparr>tabs := d4\<rparr>)" using assms(1)
    by (simp add: DeleteExpiredEmailTokens_def ignoring_reliable d4_def Let_def)
  moreover have "ignoring (DeleteExpiredTokens expiredTokenKeep) (s\<lparr>tabs := d4\<rparr>) = (Inr (), s\<lparr>tabs := d5\<rparr>)" using assms(1)
    by (simp add: DeleteExpiredTokens_def ignoring_reliable d5_def Let_def cong: option.case_cong)
  ultimately have "janitor_round s = ignoring (DeleteUnconfirmedUsers unconfirmedMaxAge) (s\<lparr>tabs := d5\<rparr>)"
    by (simp add: janitor_round_def andthen_def)
  then have "tabs t = d5 \<or> (\<exists>ids. tabs t = drop_users ids d5)" using assms
    by (auto simp: DeleteUnconfirmedUsers_def ignoring_reliable delete_users_def Let_def split: if_splits)
  then have "set (sessions (tabs t)) \<subseteq> set (sessions d5) \<and> set (email_tokens (tabs t)) \<subseteq> set (email_tokens d5) \<and> set (api_tokens (tabs t)) \<subseteq> set (api_tokens d5)"
    by (auto simp: drop_users_def)
  moreover have "\<forall>x \<in> set (sessions d5). clock s < ss_expires x" "\<forall>x \<in> set (email_tokens d5). clock s < et_expires x"
    "\<forall>x \<in> set (api_tokens d5). \<forall>e. at_expires x = Some e \<longrightarrow> clock s - days 30 < e"
    by (auto simp: d5_def d4_def d3 expiredTokenKeep_def)
  ultimately show ?thesis by blast
qed

text \<open>C36: A round of the janitor, whichever of its statements fail, leaves alone every confirmed user and every new one with all
  that is theirs: rows, live sessions and tokens, active jobs; and when no statement fails, no expired session, no expired letter
  and no API token expired for thirty days is left.\<close>

theorem janitor_spares:
  assumes ok: "db_ok (tabs s)" and run: "janitor_round s = (r, t)"
  shows "spared {u_id u | u. u \<in> set (users (tabs s)) \<and> (u_verified_at u \<noteq> None \<or> clock s - days 7 \<le> u_created_at u)} (clock s) (tabs s) (tabs t)
    \<and> (wire_script s = [] \<longrightarrow> (\<forall>x \<in> set (sessions (tabs t)). clock s < ss_expires x) \<and> (\<forall>x \<in> set (email_tokens (tabs t)). clock s < et_expires x)
        \<and> (\<forall>x \<in> set (api_tokens (tabs t)). \<forall>e. at_expires x = Some e \<longrightarrow> clock s - days 30 < e))"
proof -
  let ?now = "clock s" and ?d = "tabs s"
  let ?K = "{u_id u | u. u \<in> set (users ?d) \<and> (u_verified_at u \<noteq> None \<or> ?now - days 7 \<le> u_created_at u)}"
  let ?I = "\<lambda>s. clock s = ?now \<and> swept ?now ?d (tabs s)"
  let ?old = "\<lambda>u. u_verified_at u = None \<and> u_created_at u < ?now - unconfirmedMaxAge"
  let ?sweep = "andthen (ignoring DeleteExpiredSessions) (\<lambda>_. andthen (ignoring DeleteOldRateLimits) (\<lambda>_.
     andthen (ignoring (DeleteFinishedJobs finishedJobKeep)) (\<lambda>_. andthen (ignoring DeleteExpiredEmailTokens) (\<lambda>_.
     ignoring (DeleteExpiredTokens expiredTokenKeep)))))"
  have "keeps ?I ?sweep" by (intro keeps_intros sweep)
  then have i: "?I (snd (?sweep s))" by (rule keepsD) (simp add: swept_def)
  obtain q u where u: "?sweep s = (q, u)" by fastforce
  have "janitor_round = andthen ?sweep (\<lambda>_. ignoring (DeleteUnconfirmedUsers unconfirmedMaxAge))"
    by (simp add: janitor_round_def andthen_assoc)
  with run have "andthen ?sweep (\<lambda>_. ignoring (DeleteUnconfirmedUsers unconfirmedMaxAge)) s = (r, t)" by (simp only:)
  then have "t = u \<or> t = snd (ignoring (DeleteUnconfirmedUsers unconfirmedMaxAge) u)"
    unfolding andthen_after [where m = ?sweep and s = s and q = q and u = u, OF u] by (cases q) simp_all
  then have "t = u \<or> t = snd (DeleteUnconfirmedUsers unconfirmedMaxAge u)" by (auto simp: ignoring_def attempt_def split: prod.splits)
  then have "tabs t = tabs u \<or> tabs t = snd (delete_users ?old (tabs u))"
    using i u exec_tabs [of "\<lambda>now. delete_users (\<lambda>u. u_verified_at u = None \<and> u_created_at u < now - unconfirmedMaxAge)" u]
    by (auto simp: DeleteUnconfirmedUsers_def)
  then have "tabs t = tabs u \<or> tabs t = drop_users (u_id ` set (filter ?old (users (tabs u)))) (tabs u)"
    by (auto simp: delete_users_def Let_def)
  moreover have "u_id ` set (filter ?old (users (tabs u))) \<inter> ?K = {}"
  proof -
    have us: "users (tabs u) = users ?d" and dist: "distinct (map u_id (users ?d))"
      using i u db_ok_parts(2) [OF ok] by (simp_all add: swept_def users_ok_def)
    have "x = y" if "x \<in> set (users ?d)" "y \<in> set (users ?d)" "u_id x = u_id y" for x y using key_unique [OF dist] that by blast
    then show ?thesis unfolding us unconfirmedMaxAge_def by fastforce
  qed
  moreover have "spared ?K ?now ?d (tabs u)" using i u by (auto simp: spared_def swept_def)
  ultimately have "spared ?K ?now ?d (tabs t)" using drop_spares [OF ok, of ?now "tabs u"] i u by auto
  then show ?thesis using janitor_cleans [OF _ run] by blast
qed

theorem janitor_spares_witness:
  "\<exists>r t. janitor_round demo_store = (r, t) \<and> ada \<in> set (users (tabs t)) \<and> sessions demo_db \<noteq> [] \<and> hd (sessions demo_db) \<in> set (sessions (tabs t))"
proof -
  obtain r t where t: "janitor_round demo_store = (r, t)" by fastforce
  have ok: "db_ok (tabs demo_store)" using demo_db_ok by (simp add: demo_store_def)
  let ?K = "{u_id u | u. u \<in> set (users (tabs demo_store)) \<and> (u_verified_at u \<noteq> None \<or> clock demo_store - days 7 \<le> u_created_at u)}"
  have k: "1 \<in> ?K" by (intro CollectI exI [of _ ada]) (simp add: demo_store_def demo_db_def ada_def)
  have sp: "spared ?K (clock demo_store) (tabs demo_store) (tabs t)" using janitor_spares [OF ok t] by (rule conjunct1)
  have a: "ada \<in> set (users (tabs demo_store))" "u_id ada = 1" "sessions demo_db \<noteq> []" "hd (sessions demo_db) \<in> set (sessions (tabs demo_store))"
    "ss_user (hd (sessions demo_db)) = 1" "clock demo_store < ss_expires (hd (sessions demo_db))"
    by (simp_all add: demo_store_def demo_db_def ada_def)
  have "ada \<in> set (users (tabs t))" by (rule spared_rows(1) [OF sp a(1)]) (simp only: a(2) k)
  moreover have "hd (sessions demo_db) \<in> set (sessions (tabs t))" by (rule spared_rows(2) [OF sp a(4) _ a(6)]) (simp only: a(5) k)
  ultimately show ?thesis using t a(3) by blast
qed

section \<open>Commands\<close>

text \<open>What useradd leaves behind when it reports success.\<close>

lemma upsert_saved:
  assumes "UpsertUser name h s = (Inr x, t)"
  shows "(\<exists>u \<in> set (users (tabs t)). u_name u = lower name \<and> u_password u = h)
    \<and> (\<forall>v \<in> set (users (tabs s)). u_name v \<noteq> lower name \<longrightarrow> v \<in> set (users (tabs t)))"
proof -
  note d = exec_InrD(2) [OF assms [unfolded UpsertUser_def]]
  show ?thesis
  proof (cases "list_ex (user_named name) (users (tabs s))")
    case True
    then obtain u where u: "u \<in> set (users (tabs s))" "user_named name u" by (auto simp: list_ex_iff)
    have ts: "users (tabs t) = update_where (user_named name) (\<lambda>u. u\<lparr>u_password := h\<rparr>) (users (tabs s))" using d True by simp
    have "u\<lparr>u_password := h\<rparr> \<in> set (users (tabs t))" unfolding ts set_update_where using u by fastforce
    moreover have "v \<in> set (users (tabs t))" if "v \<in> set (users (tabs s))" "u_name v \<noteq> lower name" for v
      unfolding ts set_update_where using that by (force simp: user_named_def)
    ultimately show ?thesis using u(2) by (intro conjI ballI impI bexI [of _ "u\<lparr>u_password := h\<rparr>"]) (simp_all add: user_named_def)
  next
    case False
    then have "users (tabs t) = users (tabs s) @ [new_user (next_id (tabs s)) name None (Some (clock s)) h (clock s)]" using d by (simp add: insert_user_def)
    then show ?thesis by (simp add: new_user_def)
  qed
qed

lemma useradd_saves:
  assumes run: "userCommand sv coll w ready input [''useradd'', raw] s = (Inr (0, out), t)"
  shows "\<exists>pw h. readPassword input = Inr pw \<and> ValidateCredentials (lower raw) pw = [] \<and> sv_hash sv pw = Some h
    \<and> (\<exists>u \<in> set (users (tabs t)). u_name u = lower raw \<and> u_password u = h)
    \<and> (\<forall>v \<in> set (users (tabs s)). u_name v \<noteq> lower raw \<longrightarrow> v \<in> set (users (tabs t)))"
proof -
  obtain pw h x where pw: "readPassword input = Inr pw" "ValidateCredentials (lower raw) pw = []" "sv_hash sv pw = Some h"
    and up: "UpsertUser (lower raw) h s = (Inr x, t)"
    using run by (auto simp: userCommand_def Let_def attempt_def split: if_splits sum.splits option.splits prod.splits)
  from upsert_saved [OF up] pw show ?thesis by (simp add: lower_idem)
qed

end
