(* ===== verification/Metrics.thy ===== *)
theory Metrics
  imports Web_Admin
begin

text \<open>
  The counts of the metrics endpoint: store.Stats (src/internal/store/store.go), the series the collector emits for them
  (src/cmd/radiopath/metrics.go), the labels of a request (src/internal/web/metrics.go) and the series that exist from the
  start (src/internal/metrics/metrics.go). A series is its name with the values of its labels.
\<close>

section \<open>Stats\<close>

record stats =
  sx_users :: nat
  sx_sites :: nat
  sx_links :: nat
  sx_sessions :: nat
  sx_antennas :: nat
  sx_tokens :: nat
  sx_day :: nat
  sx_week :: nat
  sx_month :: nat
  sx_shared_links :: nat
  sx_shared_coverages :: nat
  sx_maintenance :: bool
  sx_coverages :: "(job_state \<times> nat) list"
  sx_jobs :: "((string \<times> job_state) \<times> nat) list"

text \<open>GROUP BY: each key once with the number of its rows.\<close>

definition group_counts :: "('r \<Rightarrow> 'k) \<Rightarrow> 'r list \<Rightarrow> ('k \<times> nat) list" where
  "group_counts key rows = map (\<lambda>k. (k, count_where (\<lambda>r. key r = k) rows)) (remdups (map key rows))"

definition later :: "time option \<Rightarrow> time \<Rightarrow> bool" where
  "later x now \<longleftrightarrow> (case x of None \<Rightarrow> False | Some t \<Rightarrow> now < t)"

definition table_counts :: "time \<Rightarrow> db \<Rightarrow> stats" where
  "table_counts now d = \<lparr>sx_users = length (users d), sx_sites = length (sites d), sx_links = length (links d),
     sx_sessions = count_where (\<lambda>s. now < ss_expires s) (sessions d), sx_antennas = length (antennas d),
     sx_tokens = count_where (\<lambda>t. at_expires t = None \<or> later (at_expires t) now) (api_tokens d),
     sx_day = count_where (\<lambda>u. later (u_last_seen u) (now - days 1)) (users d),
     sx_week = count_where (\<lambda>u. later (u_last_seen u) (now - days 7)) (users d),
     sx_month = count_where (\<lambda>u. later (u_last_seen u) (now - days 30)) (users d),
     sx_shared_links = count_where (\<lambda>l. later (ln_share_expires l) now) (links d),
     sx_shared_coverages = count_where (\<lambda>c. later (cv_share_expires c) now) (coverages d),
     sx_maintenance = list_ex (\<lambda>r. r = (''maintenance'', ''on'')) (settings d), sx_coverages = [], sx_jobs = []\<rparr>"

definition Stats :: "stats store_op" where
  "Stats = andthen (exec (reading (\<lambda>now d. Inr (table_counts now d)))) (\<lambda>st.
     andthen (exec (reading (\<lambda>now d. Inr (group_counts (\<lambda>c. job_state_of (newest_job (cv_id c) (jobs d))) (coverages d))))) (\<lambda>cs.
     andthen (exec (reading (\<lambda>now d. Inr (group_counts (\<lambda>j. (j_kind j, j_state j)) (jobs d))))) (\<lambda>js.
     ret (st\<lparr>sx_coverages := cs, sx_jobs := js\<rparr>))))"

section \<open>Series\<close>

type_synonym series = "string \<times> string list"

fun state_text :: "job_state \<Rightarrow> string" where
  "state_text JobIdle = ''idle''"
| "state_text JobQueued = ''queued''"
| "state_text JobRunning = ''running''"
| "state_text JobDone = ''done''"
| "state_text JobFailed = ''failed''"

definition JobKinds :: "string list" where
  "JobKinds = [''coverage'', ''link-analysis'', ''hf-prediction'', ''hf-map'']"

definition count_of :: "'k \<Rightarrow> ('k \<times> nat) list \<Rightarrow> nat" where
  "count_of k xs = (case map_of xs k of None \<Rightarrow> 0 | Some n \<Rightarrow> n)"

definition job_series :: "((string \<times> job_state) \<times> nat) list \<Rightarrow> (series \<times> nat) list" where
  "job_series js = map (\<lambda>((k, x), n). ((''radiopath_jobs'', [k, state_text x]), n)) js
     @ concat (map (\<lambda>k. concat (map (\<lambda>x. if (k, x) \<in> fst ` set js then [] else [((''radiopath_jobs'', [k, state_text x]), 0)])
         [JobQueued, JobRunning])) JobKinds)"

definition collect :: "stats \<Rightarrow> (series \<times> nat) list" where
  "collect st = [((''radiopath_users'', []), sx_users st), ((''radiopath_sites'', []), sx_sites st), ((''radiopath_links'', []), sx_links st),
       ((''radiopath_sessions_active'', []), sx_sessions st)]
     @ map (\<lambda>x. ((''radiopath_coverages'', [state_text x]), count_of x (sx_coverages st))) [JobIdle, JobQueued, JobRunning, JobDone, JobFailed]
     @ job_series (sx_jobs st)
     @ [((''radiopath_users_active'', [''1d'']), sx_day st), ((''radiopath_users_active'', [''7d'']), sx_week st),
        ((''radiopath_users_active'', [''30d'']), sx_month st), ((''radiopath_antennas'', []), sx_antennas st), ((''radiopath_api_tokens'', []), sx_tokens st),
        ((''radiopath_shares'', [''link'']), sx_shared_links st), ((''radiopath_shares'', [''coverage'']), sx_shared_coverages st),
        ((''radiopath_maintenance'', []), if sx_maintenance st then 1 else 0)]"

text \<open>An error of the database leaves the endpoint without these series.\<close>

definition Collect_series :: "store \<Rightarrow> (series \<times> nat) list" where
  "Collect_series s = (case fst (Stats s) of Inl _ \<Rightarrow> [] | Inr st \<Rightarrow> collect st)"

section \<open>Labels of requests\<close>

definition authLabel :: "request \<Rightarrow> string" where
  "authLabel r = (if rq_auth r \<noteq> [] then ''token'' else if rq_cookie r \<noteq> None then ''session'' else ''none'')"

text \<open>The pattern of the root and, for a prefix with routes of its own, the pattern of that.\<close>

definition routeLabel :: "string \<Rightarrow> (string \<Rightarrow> string option) \<Rightarrow> string" where
  "routeLabel pattern sub = (let p = (case sub pattern of None \<Rightarrow> pattern | Some q \<Rightarrow> if q = ''/'' then [] else q) in
     case cut_at CHR '' '' p of Some (_, path) \<Rightarrow> path | None \<Rightarrow> if p = [] then ''other'' else p)"

definition initial_series :: "series list" where
  "initial_series = concat (map (\<lambda>k. map (\<lambda>r. (''radiopath_jobs_total'', [k, r])) [''done'', ''failed'', ''requeued'']) JobKinds)
     @ map (\<lambda>r. (''radiopath_link_analyses_total'', [r])) [''ok'', ''error'']
     @ concat (map (\<lambda>k. map (\<lambda>r. (''radiopath_dem_tile_cache_total'', [k, r])) [''hit'', ''miss'']) [''dem'', ''canopy''])
     @ map (\<lambda>r. (''radiopath_s3_requests_total'', [r])) [''ok'', ''notfound'', ''error'']
     @ map (\<lambda>r. (''radiopath_map_tiles_total'', [r])) [''hit'', ''miss'', ''limited'', ''error'', ''canceled'']
     @ map (\<lambda>r. (''radiopath_logins_total'', [r])) [''success'', ''failure'', ''rate_limited'']
     @ map (\<lambda>r. (''radiopath_events_total'', [r])) [''registered'', ''email_verified'', ''password_reset'', ''token_created'', ''token_revoked'',
         ''share_published'', ''share_revoked'']"

section \<open>No series twice\<close>

lemma state_text_inj [simp]: "state_text x = state_text y \<longleftrightarrow> x = y"
  by (cases x; cases y) simp_all

lemma group_counts_keys: "map fst (group_counts key rows) = remdups (map key rows)"
  by (simp add: group_counts_def comp_def)

lemma group_counts_of: "count_of k (group_counts key rows) = count_where (\<lambda>r. key r = k) rows"
proof -
  have "map_of (map (\<lambda>k. (k, f k)) ks) k = (if k \<in> set ks then Some (f k) else None)" for f :: "'a \<Rightarrow> nat" and ks
    by (induction ks) auto
  moreover have "k \<notin> key ` set rows \<Longrightarrow> count_where (\<lambda>r. key r = k) rows = 0" by (auto simp: count_where_def filter_empty_conv)
  ultimately show ?thesis by (auto simp: count_of_def group_counts_def)
qed

lemma Stats_Inr:
  assumes "Stats s = (Inr st, t)"
  shows "sx_jobs st = group_counts (\<lambda>j. (j_kind j, j_state j)) (jobs (tabs s)) \<and> tabs t = tabs s
    \<and> sx_coverages st = group_counts (\<lambda>c. job_state_of (newest_job (cv_id c) (jobs (tabs s)))) (coverages (tabs s))
    \<and> sx_sessions st = count_where (\<lambda>x. clock s < ss_expires x) (sessions (tabs s))"
  using assms unfolding Stats_def
  by (auto simp: andthen_def reading_def table_counts_def split: prod.splits sum.splits dest!: exec_Inr)

definition queue_pairs :: "(string \<times> job_state) list" where
  "queue_pairs = concat (map (\<lambda>k. [(k, JobQueued), (k, JobRunning)]) JobKinds)"

definition job_label :: "string \<times> job_state \<Rightarrow> series" where
  "job_label p = (''radiopath_jobs'', [fst p, state_text (snd p)])"

lemma job_label_inj: "inj job_label"
  by (rule injI) (auto simp: job_label_def prod_eq_iff)

lemma job_series_pairs:
  "job_series js = map (\<lambda>p. (job_label (fst p), snd p)) js @ map (\<lambda>p. (job_label p, 0)) (filter (\<lambda>p. p \<notin> fst ` set js) queue_pairs)"
proof -
  have "concat (map (\<lambda>k. concat (map (\<lambda>x. if (k, x) \<in> K then [] else [((''radiopath_jobs'', [k, state_text x]), 0)]) [JobQueued, JobRunning])) ks)
      = map (\<lambda>p. (job_label p, 0 :: nat)) (filter (\<lambda>p. p \<notin> K) (concat (map (\<lambda>k. [(k, JobQueued), (k, JobRunning)]) ks)))" for K ks
    by (induction ks) (simp_all add: job_label_def)
  then show ?thesis by (simp add: job_series_def queue_pairs_def job_label_def split_def)
qed

lemma job_series_facts:
  assumes "distinct (map fst js)"
  shows "distinct (map fst (job_series js))"
    and "k \<in> set JobKinds \<Longrightarrow> x = JobQueued \<or> x = JobRunning \<Longrightarrow> (job_label (k, x), count_of (k, x) js) \<in> set (job_series js)"
    and "fst ` set (job_series js) \<subseteq> range job_label"
proof -
  have q: "distinct queue_pairs" by (simp add: queue_pairs_def JobKinds_def)
  have keys: "map fst (job_series js) = map job_label (map fst js @ filter (\<lambda>p. p \<notin> fst ` set js) queue_pairs)"
    by (simp add: job_series_pairs comp_def)
  have "distinct (map fst js @ filter (\<lambda>p. p \<notin> fst ` set js) queue_pairs)" using assms q by auto
  then show "distinct (map fst (job_series js))" unfolding keys distinct_map using job_label_inj by (auto intro: inj_on_subset)
  show "fst ` set (job_series js) \<subseteq> range job_label" by (auto simp: job_series_pairs)
  show "(job_label (k, x), count_of (k, x) js) \<in> set (job_series js)" if "k \<in> set JobKinds" "x = JobQueued \<or> x = JobRunning"
  proof (cases "map_of js (k, x)")
    case None
    have "(k, x) \<in> set queue_pairs" using that by (auto simp: queue_pairs_def)
    moreover have "(k, x) \<notin> fst ` set js" "count_of (k, x) js = 0"
      using None by (simp_all add: map_of_eq_None_iff [symmetric] count_of_def)
    ultimately show ?thesis by (simp add: job_series_pairs)
  next
    case (Some n)
    then show ?thesis using map_of_SomeD [OF Some] by (force simp: job_series_pairs count_of_def)
  qed
qed



lemma initial_series_once: "distinct initial_series"
  by (simp add: initial_series_def JobKinds_def)

end
