(* ===== verification/Spec2Isabelle.thy ===== *)
theory Spec2Isabelle
  imports Worker_Claims Web_Access Web_Coverages Dem Hf_Modes Web_Hf_Claims Tile_Budget S3_Claims Web_Admin_Claims Migrate Startup_Claims Metrics
begin

text \<open>
  Radiopath plans radio links and coverages. Users keep sites, antennas, links and coverages in
  PostgreSQL; a queue in the same database carries the slow calculations to workers; a web server
  answers the requests and serves the results; several processes of both kinds run at the same time.
  This development models its Go code (src/internal/).

  How the parts interact. A request passes the middleware (web/api.go, auth.go, tokens.go), which
  finds its caller from a session cookie or an API token. Its handler calls the store. A calculation
  is a job: the handler enqueues it (store/jobs.go), a worker claims it (worker/worker.go), computes
  the coverage (coverage/) or the link (link/) on the terrain with the Longley-Rice model (itm/) and
  the patterns of the antennas (antenna/), and settles the job with its result; the notification of
  the settled job wakes the requests that wait for it (web/jobs.go, events.go). Terrain comes from tiles
  of heights behind a cache (dem/). Beside it stands the model of short-wave circuits (hf/): a prediction
  runs ITU-R P.533 with the noise of P.372 for every hour and frequency of a request.

  The database and its operations (src/internal/store/)
    \<^item> Schema: the tables as lists of records, the CHECK constraints of the migrations, the invariant
      db_ok of keys, references and constraints.
    \<^item> Rate_Limits, Job_Queue, Accounts, Resources: ratelimit.go; jobs.go; users.go, tokens.go,
      settings.go; sites.go, antennas.go, links.go, coverages.go, share.go. An operation is a function
      on a store (tables, clock, script of the wire) to an error or a value and the store after it. The
      script says which statements fail, so every error path of the Go code is a branch.
    \<^item> Job_Facts, Store_Facts, Resource_Facts: preservation of db_ok and of what an operation may not
      touch, one lemma per operation. Store_Calls collects all operations as one datatype of calls;
      Store_Claims and Job_Claims state the properties over sequences of calls, that is over every
      interleaving of the processes.

    \<^item> Migrate (migrate.go): the runner of migrations, over processes of several releases and failing statements.

  The models
    \<^item> Prelude, Float64, Strconv: shared lemmas; the special values of float64 (NaN, infinities, the
      reals otherwise, without rounding); ParseInt, ParseFloat and printing.
    \<^item> Geo (geo.go), Antenna (antenna.go), Itm_Terrain, Itm_Loss, Itm (itm/), Link (link/), Coverage
      (coverage/), Plot (plot.go without drawings). Panics of the Go code are None.

  Terrain (src/internal/dem/)
    \<^item> Dem: names, decoding and bilinear sampling of tiles, sources, and the cache of the tiles used last. The
      locale recency_cache states what a cache promises over the map and the list of its entries;
      it is interpreted on the model of cache.go, and a run of lookups refines plain loading.

  Maps and objects (src/internal/tiles/, src/internal/s3/)
    \<^item> Tiles (tiles.go): the proxy over the interface Cache, a record of operations on any state; RedisCache from the
      commands of its client. Static_Maps (static.go): views and stitched pictures. Tiles_Claims: the locale
      cache_contract and its interpretation on RedisCache over a server as Redis documents it; a server that looks
      like that one through a view of its state is simulated by it. Static_Claims: over a run of requests, maps, failing
      commands and evictions every tile served or painted is upstream's answer for its place. Tile_Budget: misses
      per address as buckets of Rate_Limits.
    \<^item> S3 (s3.go, sigv4.go) and S3_Claims: names of objects and what a signature covers.

  Short-wave circuits (src/internal/hf/, hf/p372/)
    \<^item> Hf_Base: common.go, errors.go, geometry.go and the struct pathData of p533.go, split into the input
      and one record per group of results; the pointer to the dominant mode is its place.
    \<^item> Hf_Points: calculate_cp_parameters.go, magfit.go, initialize_path.go. Hf_Muf: muf_basic.go,
      muf_variability.go, muf_operational.go, e_layer_screening_frequency.go. Hf_Tables, Hf_Short, Hf_Long: the
      tables and the two field strength models, the interpolation between them and the receiver power. Hf_Noise:
      p372. Hf_Reliability: circuit_reliability.go. Hf_Files: antenna files, decile factors, maps, fetch.go.
      Hf_Predict: requests, validation, patterns, the engine, points, the cache of months, Predict.
    \<^item> Hf_Facts: which fields each routine reads and writes. Hf_Claims: runs that share a path do not influence
      each other. Hf_Limits: ranges of reliabilities, map and table accesses, the download. Hf_Modes: the double
      loop that sorts modes, the dominant mode. Hf_Accepted: the checks of validate, newPath and validatePath as
      ranges of a request, in which every run succeeds.
    \<^item> Sunspot (sunspot/sunspot.go): the files of sunspot numbers, their cache and lookup. Web_Hf (web/hf.go,
      hfmap.go, hfsunspot.go): the operations and the part of RunJob that computes them. Web_Hf_Claims: what the web
      layer accepts the model does not refuse, and a prediction is the caller's own.

  The processes
    \<^item> Worker: one turn of worker.Run and the steps of the system as a relation; Lease: a job as an
      exclusive lease, a locale interpreted on the queue; Worker_Claims: what a turn stores.
    \<^item> Web_Base, Web_Auth, Web_Account: the record web (store, mails handed over, waiters, streams),
      handlers, middleware, sessions, accounts, tokens, sites, share limits. Web_Jobs: waiting for jobs
      and event streams. Web_Links and Web_Coverages: antennas, links, coverages, rasters, sharing.
    \<^item> Web_Admin (admin.go, parts of server.go): the admin pages behind their signed cookie, the policy of scripts, the
      files of the user interface, readiness. Web_Admin_Claims: who may change what, revoked sessions, maintenance.
    \<^item> Startup (src/cmd/radiopath/): the configuration, what a process starts, the janitor, the commands for users;
      Startup_Claims: what an accepted configuration guarantees, what the janitor spares. Mail (mail.go): the delivery of a
      mail as a dialogue with a server that may refuse any command. Metrics: Stats, its series, labels of requests.
    \<^item> Web_Facts: inversion of handlers and the relation of answers that do not depend on secrets.
      Web_Claims, Web_Access, Web_Job_Claims: the properties of login, mail flows, access and waiting.

  Bounds and fuel. No loop needs fuel: those of the queue and the models are bounded by their data.
  Waiting loops take the list of what happens meanwhile (pauses); its end is the timer of the code,
  so every list is a possible run and a run is finite because the timer is. Numbers are kept without
  width: the integers of the code are ids, counts and times; the words are the warning flags of itm and the bytes
  and singles of data files. The floats of geo, link, itm, dem and hf are real numbers: rounding, overflow and what a
  division by zero leaves behind are outside those models, and the numbers in files are finite.

  Parameters. Password hashes, SHA-256 (assumed injective where a property needs it), random tokens,
  the PNG and JSON codecs, the collation of names, the terrain, opening a file and the effects of a
  download (record fetch_world), the commands of Redis, tile servers the parsing of a URL and the network are arguments of the definitions.

  Not modelled: PDF reports and SVG drawings, whose layout has no specification to state; the counters of Prometheus; the
  LISTEN connection; signals and shutdown of a process; the TypeScript front end.
\<close>

end
